(* ===== verification/Prelude.thy ===== *)
theory Prelude
  imports Complex_Main "HOL-Library.Multiset"
begin

text \<open>
  The vocabulary shared by every component: exceptions as values, guards in source order,
  the few Python string operations the program uses, and list lemmas.

  \<^item> A Python function that may raise is a function into \<open>py_error + 'a\<close>; \<open>Inl\<close> is the
    exception. Each \<open>raise\<close> of the source is one constructor (or one constructor with the
    field it names), so that two different failures stay different values.
  \<^item> \<open>bindE\<close> is the sequencing of two statements: an exception of the first one wins.
  \<^item> \<open>guards\<close> is a run of \<open>if cond: raise ...\<close> statements, in the order of the source.
  \<^item> Text is \<open>string\<close>, with one \<open>char\<close> per code point below 256.
  \<^item> A timestamp is an \<open>int\<close>: microseconds since the epoch, after normalisation to UTC
    (\<open>schemas/time.py\<close>).
\<close>

type_synonym instant = int
type_synonym ident = string

section \<open>Exceptions\<close>

text \<open>The schema fields an exception message names.\<close>

datatype field =
    F_position_id | F_exchange | F_account_id | F_market_id | F_contract_id | F_outcome_id
  | F_fee | F_rebate | F_realized_pnl | F_unrealized_pnl | F_fees_paid | F_rebates_received
  | F_realized_trading_pnl | F_closed_cost_basis | F_closed_trade_value | F_opened_notional
  | F_trade_notional | F_balance_id | F_currency | F_slippage | F_settlement_pnl
  | F_unrealized_pnl_change | F_average_entry_price | F_price | F_quantity | F_text
  | F_sequence | F_aggregate_version | F_amount | F_positions | F_balances | F_attribution_id | F_local_ids | F_external_ids

text \<open>
  \<^verbatim>\<open>PortfolioProjectionError\<close> (\<open>portfolio/errors.py\<close>): one datatype per module of
  \<open>src/pmrp/portfolio\<close>, one constructor per message.
\<close>

datatype positions_error =
    Fill_currency_mismatch field | Fill_negative_amount field
  | Position_mismatch field | Flat_position_has_average | Open_position_lacks_average
  | Fill_older_than_position | Zero_has_no_direction

datatype journal_error =
    Journal_mismatch field | Journal_currency_mismatch field | Journal_negative_amount field
  | Journal_quantities_negative | Journal_quantities_not_fill

datatype balances_error =
    Journal_before_balance | Cash_account_code_invalid | No_cash_line
  | Correction_reference_missing | Correction_mismatch field | Correction_zero_delta
  | Correction_observed_stale | Correction_changes_reserved

datatype movement_error =
    Amount_currency_mismatch field | Amount_not_positive field | Reference_id_invalid field
  | Reference_id_too_long field | Transfer_id_invalid | Transfer_same_balance
  | Transfer_currency_differs | Transfer_account_code_too_long

datatype settlement_error =
    Settlement_status_not_allowed | Settlement_lacks_settled_at | Settlement_lacks_payout
  | Settlement_mismatch field | Settlement_flat_position | Settlement_currency_mismatch field
  | Settlement_older_than_position | Settlement_not_corrected_status
  | Settlement_wrong_reference | Settlement_identity_differs field
  | Settlement_position_not_flat | Cash_balance_mismatch field
  | Settlement_lacks_average | Settlement_flat_has_average

datatype batch_error =
    Batch_conflicting_fill | Batch_missing_source_event
  | Snapshot_position_after | Snapshot_balance_after | Snapshot_currency_mismatch field
  | Snapshot_lacks_average

datatype pnl_error =
    Pnl_duplicate_entry | Pnl_period_invalid | Pnl_entry_outside | Pnl_currency_mismatch field
  | Pnl_negative field

datatype reconciliation_error =
    Scope_mismatch field | Record_kind_padded | Record_kind_not_alphanumeric | Record_id_invalid field

datatype projection_error =
    Positions positions_error
  | Journal journal_error
  | Balances balances_error
  | Movement movement_error
  | Settlements settlement_error
  | Batch batch_error
  | Pnl pnl_error
  | Reconciliation reconciliation_error

text \<open>The messages of \<open>Settlement.validate_settlement_lifecycle\<close>.\<close>

datatype lifecycle_error =
    Unresolved_has_resolution | Unresolved_corrects | Lacks_winners | Lacks_resolved_at
  | Lacks_payout | Nonfinal_has_finalization | Finalized_lacks_finalized_at
  | Finalized_has_settled_at | Settled_lacks_finalized_at | Settled_lacks_settled_at
  | Corrected_lacks_reference | Finalized_before_resolved | Settled_before_finalized

text \<open>What a pydantic constructor rejects: the range of a field, or a model validator.\<close>

datatype validation_error =
    Out_of_range field
  | Updated_before_opened | Journal_has_no_lines | Journal_created_before_occurred
  | Journal_unbalanced | Balance_identity_broken | Duplicate_values field | Bids_not_descending | Asks_not_ascending
  | Lifecycle lifecycle_error | Period_invalid | Pnl_currencies_differ | Pnl_total_wrong
  | Healthy_with_mismatches | Mismatch_without_mismatches | Gate_released_unhealthy
  | Message string

text \<open>The reason codes of \<open>simulation/errors.py\<close> that the modelled simulation code raises.\<close>

datatype simulation_reason =
    Snapshot_invalid | Market_mismatch | Contract_mismatch | Exchange_mismatch
  | Sequence_ambiguous | Sequence_mismatch | Sequence_stale | Sequence_gap | Sequence_invalid
  | Fill_snapshot_invalid | Queue_snapshot_invalid
  | No_settlement_has_winners | Winner_count_invalid | Winners_missing | Winners_duplicate

datatype simulation_config_reason =
    Fee_rule_duplicate | Fee_rule_missing | Slippage_model_unsupported | Taker_slippage_missing
  | Latency_model_unsupported | Fixed_latency_missing | Latency_datetime_overflow
  | Settlement_model_unsupported | Activation_missing | Rejected_activation_invalid
  | Activation_order_invalid | Admission_source_type_invalid

text \<open>The three bounds of \<^verbatim>\<open>_validate_decimal_bounds\<close>.\<close>

datatype decimal_bound = Too_many_digits | Too_many_fractional_digits | Exponent_too_large

text \<open>\<open>Exc\<close> is an exception of any other class, with its reason code or message.\<close>

datatype py_error =
    PortfolioProjectionError projection_error
  | ValidationError validation_error
  | ValueError field
  | SimulationInputError simulation_reason
  | SimulationConfigurationError simulation_config_reason
  | DecimalBoundsError decimal_bound field
  | RiskConfigurationError string
  | RiskInputError string
  | AssertionError
  | KeyError
  | InvalidOperation
  | OverflowError
  | Exc string string

type_synonym 'a result = "py_error + 'a"

text \<open>
  \<^verbatim>\<open>except ValueError\<close> and \<^verbatim>\<open>except (TypeError, ValueError)\<close>. The errors of pydantic's validation are values of
  \<^verbatim>\<open>ValueError\<close>, as are those of a few classes of the standard library; \<^verbatim>\<open>OverflowError\<close> and \<^verbatim>\<open>RecursionError\<close> are not.
\<close>

definition VALUE_ERRORS :: "string list" where
  "VALUE_ERRORS = [''ValueError'', ''JSONDecodeError'', ''UnicodeError'', ''UnicodeDecodeError'', ''UnicodeEncodeError'']"

definition caught_value_error :: "py_error \<Rightarrow> bool" where
  "caught_value_error e \<longleftrightarrow>
     (case e of
        ValidationError _ \<Rightarrow> True | ValueError _ \<Rightarrow> True | DecimalBoundsError _ _ \<Rightarrow> True
      | Exc c _ \<Rightarrow> c \<in> set VALUE_ERRORS | _ \<Rightarrow> False)"

definition value_or_type_error :: "py_error \<Rightarrow> bool" where
  "value_or_type_error e \<longleftrightarrow> caught_value_error e \<or> (case e of Exc c _ \<Rightarrow> c = ''TypeError'' | _ \<Rightarrow> False)"

lemma caught_value_error_simps [simp]:
  "caught_value_error (ValidationError v)" "caught_value_error (ValueError f)" "caught_value_error (DecimalBoundsError b f)"
  "caught_value_error (Exc ''ValueError'' m)" "\<not> caught_value_error (Exc ''TypeError'' m)" "\<not> caught_value_error OverflowError"
  by (simp_all add: caught_value_error_def VALUE_ERRORS_def)

lemma value_or_type_error_simps [simp]:
  "value_or_type_error (ValidationError v)" "value_or_type_error (ValueError f)" "value_or_type_error (DecimalBoundsError b f)"
  "value_or_type_error (Exc ''ValueError'' m)" "value_or_type_error (Exc ''TypeError'' m)" "\<not> value_or_type_error OverflowError"
  by (simp_all add: value_or_type_error_def)

lemma caught_value_or_type: "caught_value_error e \<Longrightarrow> value_or_type_error e"
  by (simp add: value_or_type_error_def)

section \<open>Sequencing\<close>

definition bindE :: "'e + 'a \<Rightarrow> ('a \<Rightarrow> 'e + 'b) \<Rightarrow> 'e + 'b" where
  "bindE m f = (case m of Inl e \<Rightarrow> Inl e | Inr x \<Rightarrow> f x)"

lemma bindE_simps [simp]:
  "bindE (Inl e) f = Inl e"
  "bindE (Inr x) f = f x"
  by (simp_all add: bindE_def)

lemma pred_option_code [code]: "pred_option P x = (case x of None \<Rightarrow> True | Some y \<Rightarrow> P y)"
  by (cases x) simp_all

lemma bindE_eq_Inr: "bindE m f = Inr y \<longleftrightarrow> (\<exists>x. m = Inr x \<and> f x = Inr y)"
  by (cases m) simp_all

lemma bindE_eq_Inl: "bindE m f = Inl e \<longleftrightarrow> m = Inl e \<or> (\<exists>x. m = Inr x \<and> f x = Inl e)"
  by (cases m) simp_all

lemma bindE_assoc: "bindE (bindE m f) g = bindE m (\<lambda>x. bindE (f x) g)"
  by (cases m) simp_all

fun guards :: "(bool \<times> 'e) list \<Rightarrow> 'e + unit" where
  "guards [] = Inr ()"
| "guards ((raises, e) # gs) = (if raises then Inl e else guards gs)"

lemma guards_append: "guards (xs @ ys) = bindE (guards xs) (\<lambda>_. guards ys)"
  by (induction xs rule: guards.induct) simp_all

lemma guards_ok_iff: "guards gs = Inr u \<longleftrightarrow> (\<forall>g \<in> set gs. \<not> fst g)"
  by (induction gs rule: guards.induct) auto

fun mapE :: "('a \<Rightarrow> 'e + 'b) \<Rightarrow> 'a list \<Rightarrow> 'e + 'b list" where
  "mapE f [] = Inr []"
| "mapE f (x # xs) = bindE (f x) (\<lambda>y. bindE (mapE f xs) (\<lambda>ys. Inr (y # ys)))"

lemma mapE_ok: "(\<And>x. x \<in> set xs \<Longrightarrow> f x = Inr (g x)) \<Longrightarrow> mapE f xs = Inr (map g xs)"
  by (induction xs) simp_all

lemma mapE_all: "mapE f xs = Inr ys \<Longrightarrow> x \<in> set xs \<Longrightarrow> \<exists>y \<in> set ys. f x = Inr y"
  by (induction xs arbitrary: ys) (auto simp: bindE_eq_Inr)

lemma mapE_elem: "mapE f xs = Inr ys \<Longrightarrow> y \<in> set ys \<Longrightarrow> \<exists>x \<in> set xs. f x = Inr y"
  by (induction xs arbitrary: ys) (auto simp: bindE_eq_Inr)

lemma mapE_length: "mapE f xs = Inr ys \<Longrightarrow> length ys = length xs"
  by (induction xs arbitrary: ys) (auto simp: bindE_eq_Inr)

fun foldE :: "('s \<Rightarrow> 'a \<Rightarrow> 'e + 's) \<Rightarrow> 's \<Rightarrow> 'a list \<Rightarrow> 'e + 's" where
  "foldE f s [] = Inr s"
| "foldE f s (x # xs) = bindE (f s x) (\<lambda>s'. foldE f s' xs)"

lemma foldE_append: "foldE f s (xs @ ys) = bindE (foldE f s xs) (\<lambda>s'. foldE f s' ys)"
  by (induction xs arbitrary: s) (simp_all add: bindE_assoc)

lemma foldE_invariant:
  assumes "foldE f s xs = Inr t" and "P s"
    and "\<And>s x s'. P s \<Longrightarrow> x \<in> set xs \<Longrightarrow> f s x = Inr s' \<Longrightarrow> P s'"
  shows "P t"
  using assms
proof (induction xs arbitrary: s)
  case Nil
  then show ?case by simp
next
  case (Cons x xs)
  from Cons.prems(1) obtain s' where s': "f s x = Inr s'" and rest: "foldE f s' xs = Inr t"
    by (auto simp: bindE_eq_Inr)
  have "P s'" by (rule Cons.prems(3) [OF Cons.prems(2) _ s']) simp
  with rest show ?case by (rule Cons.IH) (rule Cons.prems(3), simp_all)
qed

section \<open>Python text\<close>

definition py_isspace :: "char \<Rightarrow> bool" where
  "py_isspace c \<longleftrightarrow> of_char c \<in> {9, 10, 11, 12, 13, 28, 29, 30, 31, 32, 133, 160 :: nat}"

text \<open>\<^verbatim>\<open>s.strip()\<close> and the test \<^verbatim>\<open>s == "" or s.strip() != s\<close> the validators share.\<close>

definition py_strip :: "string \<Rightarrow> string" where
  "py_strip s = rev (dropWhile py_isspace (rev (dropWhile py_isspace s)))"

definition blank_or_padded :: "string \<Rightarrow> bool" where
  "blank_or_padded s \<longleftrightarrow> s = [] \<or> py_strip s \<noteq> s"

section \<open>Association lists as Python dictionaries\<close>

text \<open>
  A dictionary keeps its keys in insertion order: storing at an existing key keeps the place,
  storing at a new key appends.
\<close>

fun dict_set :: "'k \<Rightarrow> 'v \<Rightarrow> ('k \<times> 'v) list \<Rightarrow> ('k \<times> 'v) list" where
  "dict_set k v [] = [(k, v)]"
| "dict_set k v ((k', v') # d) = (if k' = k then (k, v) # d else (k', v') # dict_set k v d)"

fun dict_pop :: "'k \<Rightarrow> ('k \<times> 'v) list \<Rightarrow> ('k \<times> 'v) list" where
  "dict_pop k [] = []"
| "dict_pop k ((k', v') # d) = (if k' = k then d else (k', v') # dict_pop k d)"

lemma map_of_dict_set: "map_of (dict_set k v d) = (map_of d)(k \<mapsto> v)"
  by (induction k v d rule: dict_set.induct) (auto simp: fun_eq_iff)

lemma keys_dict_set [simp]: "fst ` set (dict_set k v d) = insert k (fst ` set d)"
  by (induction k v d rule: dict_set.induct) auto

lemma distinct_dict_set: "distinct (map fst d) \<Longrightarrow> distinct (map fst (dict_set k v d))"
  by (induction k v d rule: dict_set.induct) auto

lemma keys_dict_pop [simp]:
  "distinct (map fst d) \<Longrightarrow> fst ` set (dict_pop k d) = fst ` set d - {k}"
  by (induction k d rule: dict_pop.induct) auto

lemma distinct_dict_pop: "distinct (map fst d) \<Longrightarrow> distinct (map fst (dict_pop k d))"
  by (induction k d rule: dict_pop.induct) auto

lemma map_of_dict_pop: "distinct (map fst d) \<Longrightarrow> map_of (dict_pop k d) = (map_of d)(k := None)"
  by (induction k d rule: dict_pop.induct) (auto simp: fun_eq_iff map_of_eq_None_iff)

end
