(* ===== verification/Decimals.thy ===== *)
theory Decimals
  imports Prelude
begin

text \<open>
  Python's \<^verbatim>\<open>decimal.Decimal\<close>, by value.

  A finite \<^verbatim>\<open>Decimal\<close> is the rational number it denotes; comparison, equality and
  hashing of decimals are by value, so they are those of \<open>rat\<close>. Every arithmetic operation
  (also unary minus and \<^verbatim>\<open>abs\<close>) rounds its exact result to the precision of the current
  context with ROUND_HALF_EVEN: 28 significant digits by default, 128 in the contexts that
  \<open>simulation/fee_models.py\<close> and \<open>simulation/slippage_models.py\<close> install. \<open>dec_round p\<close> is
  that rounding. \<^verbatim>\<open>min\<close>, \<^verbatim>\<open>max\<close> and comparisons do not round.

  Not represented: the spelling of a number (trailing zeros, the sign of zero), and the traps
  at adjusted exponents beyond 999999.

  The laws of rounding that accounting relies on are the locale \<open>rounding\<close>; it is interpreted
  for every positive precision, and \<open>d28\<close> and \<open>d128\<close> are the two contexts of the program.
\<close>

section \<open>Rounding to a number of significant digits\<close>

fun ndigits :: "nat \<Rightarrow> nat" where
  "ndigits n = (if n < 10 then 1 else Suc (ndigits (n div 10)))"

declare ndigits.simps [simp del]

definition adjusted :: "rat \<Rightarrow> int" where
  "adjusted x =
     (if 1 \<le> \<bar>x\<bar> then int (ndigits (nat \<lfloor>\<bar>x\<bar>\<rfloor>)) - 1
      else - int (ndigits (nat (\<lceil>1 / \<bar>x\<bar>\<rceil> - 1))))"

definition round_half_even :: "rat \<Rightarrow> int" where
  "round_half_even x =
     (let f = \<lfloor>x\<rfloor>; d = x - of_int f
      in if d < 1 / 2 then f
         else if 1 / 2 < d then f + 1
         else if even f then f else f + 1)"

definition quantum :: "nat \<Rightarrow> rat \<Rightarrow> rat" where
  "quantum p x = 10 powi (adjusted x - int p + 1)"

definition dec_round :: "nat \<Rightarrow> rat \<Rightarrow> rat" where
  "dec_round p x =
     (if x = 0 then 0 else of_int (round_half_even (x / quantum p x)) * quantum p x)"

lemma ndigits_bounds:
  assumes "0 < n"
  shows "10 ^ (ndigits n - 1) \<le> n" and "n < 10 ^ ndigits n" and "0 < ndigits n"
proof -
  have "0 < n \<Longrightarrow> 10 ^ (ndigits n - 1) \<le> n \<and> n < 10 ^ ndigits n \<and> 0 < ndigits n"
  proof (induction n rule: ndigits.induct)
    case (1 n)
    show ?case
    proof (cases "n < 10")
      case True
      with 1 show ?thesis by (simp add: ndigits.simps [of n])
    next
      case False
      then have pos: "0 < n div 10" by simp
      with 1 False have IH: "10 ^ (ndigits (n div 10) - 1) \<le> n div 10"
        "n div 10 < 10 ^ ndigits (n div 10)" "0 < ndigits (n div 10)"
        by auto
      obtain k where k: "ndigits (n div 10) = Suc k" using IH(3) by (cases "ndigits (n div 10)") auto
      have "10 * 10 ^ k \<le> n" using IH(1) k by simp
      moreover have "n < 10 * 10 ^ Suc k" using IH(2) k by simp
      ultimately show ?thesis using False k by (simp add: ndigits.simps [of n])
    qed
  qed
  with assms show "10 ^ (ndigits n - 1) \<le> n" "n < 10 ^ ndigits n" "0 < ndigits n" by auto
qed

lemma of_nat_le_pow10: "n \<le> 10 ^ k \<Longrightarrow> (of_nat n :: rat) \<le> 10 ^ k"
  using of_nat_le_iff [of n "10 ^ k", where 'a = rat] by simp

lemma pow10_le_of_nat: "10 ^ k \<le> n \<Longrightarrow> (10::rat) ^ k \<le> of_nat n"
  using of_nat_le_iff [of "10 ^ k" n, where 'a = rat] by simp

lemma adjusted_bounds:
  assumes "x \<noteq> 0"
  shows "10 powi adjusted x \<le> \<bar>x\<bar>" and "\<bar>x\<bar> < 10 powi (adjusted x + 1)"
proof -
  have "10 powi adjusted x \<le> \<bar>x\<bar> \<and> \<bar>x\<bar> < 10 powi (adjusted x + 1)"
  proof (cases "1 \<le> \<bar>x\<bar>")
    case True
    let ?n = "nat \<lfloor>\<bar>x\<bar>\<rfloor>"
    from True have fl: "1 \<le> \<lfloor>\<bar>x\<bar>\<rfloor>" by (simp add: le_floor_iff)
    then have n: "0 < ?n" by simp
    note b = ndigits_bounds [OF n]
    have e: "adjusted x = int (ndigits ?n - 1)" "adjusted x + 1 = int (ndigits ?n)"
      using True b(3) by (auto simp: adjusted_def of_nat_diff)
    have nf: "of_nat ?n = (of_int \<lfloor>\<bar>x\<bar>\<rfloor> :: rat)" using fl by (simp add: of_nat_nat)
    have "(10::rat) ^ (ndigits ?n - 1) \<le> of_nat ?n"
      using b(1) by (rule pow10_le_of_nat)
    also have "\<dots> \<le> \<bar>x\<bar>" unfolding nf by simp
    finally have lo: "(10::rat) ^ (ndigits ?n - 1) \<le> \<bar>x\<bar>" .
    have "?n + 1 \<le> 10 ^ ndigits ?n" using b(2) by linarith
    then have "(of_nat (?n + 1) :: rat) \<le> 10 ^ ndigits ?n" by (rule of_nat_le_pow10)
    moreover have "\<bar>x\<bar> < of_nat (?n + 1)" using nf by (simp del: of_nat_nat) linarith
    ultimately have "\<bar>x\<bar> < 10 ^ ndigits ?n" by linarith
    moreover have "10 powi adjusted x = (10::rat) ^ (ndigits ?n - 1)"
      by (simp only: e(1) power_int_of_nat)
    moreover have "10 powi (adjusted x + 1) = (10::rat) ^ ndigits ?n"
      by (simp only: e(2) power_int_of_nat)
    ultimately show ?thesis using lo by simp
  next
    case False
    let ?m = "\<lceil>1 / \<bar>x\<bar>\<rceil> - 1"
    have x0: "0 < \<bar>x\<bar>" using assms by simp
    from False x0 have "1 < 1 / \<bar>x\<bar>" by (simp add: field_simps)
    then have "1 < \<lceil>1 / \<bar>x\<bar>\<rceil>" by (simp add: less_ceiling_iff)
    then have m1: "0 < ?m" by linarith
    then have m: "0 < nat ?m" by (simp only: zero_less_nat_eq)
    have m0: "0 \<le> ?m" using m1 by (rule less_imp_le)
    note b = ndigits_bounds [OF m]
    let ?k = "ndigits (nat ?m)"
    have e: "adjusted x = - int ?k" using False by (simp add: adjusted_def)
    have mr: "(of_nat (nat ?m) :: rat) = of_int \<lceil>1 / \<bar>x\<bar>\<rceil> - 1"
      by (simp only: of_nat_nat [OF m0] of_int_diff of_int_1)
    have "nat ?m + 1 \<le> 10 ^ ?k" using b(2) by linarith
    then have "(of_nat (nat ?m + 1) :: rat) \<le> 10 ^ ?k" by (rule of_nat_le_pow10)
    then have "(of_nat (nat ?m) :: rat) + 1 \<le> 10 ^ ?k" by (simp only: of_nat_add of_nat_1)
    then have "1 / \<bar>x\<bar> \<le> 10 ^ ?k" using mr by linarith
    then have lo: "1 / 10 ^ ?k \<le> \<bar>x\<bar>" using x0 by (simp add: field_simps)
    have "(10::rat) ^ (?k - 1) \<le> of_nat (nat ?m)"
      using b(1) by (rule pow10_le_of_nat)
    also have "\<dots> < 1 / \<bar>x\<bar>" using mr by simp linarith
    finally have "10 ^ (?k - 1) < 1 / \<bar>x\<bar>" .
    then have hi: "\<bar>x\<bar> < 1 / 10 ^ (?k - 1)" using x0 by (simp add: field_simps)
    have e2: "adjusted x + 1 = - int (?k - 1)" using e b(3) by (simp add: of_nat_diff)
    have "10 powi adjusted x = 1 / (10::rat) ^ ?k"
      by (simp only: e power_int_minus power_int_of_nat inverse_eq_divide)
    moreover have "10 powi (adjusted x + 1) = 1 / (10::rat) ^ (?k - 1)"
      by (simp only: e2 power_int_minus power_int_of_nat inverse_eq_divide)
    ultimately show ?thesis using lo hi by simp
  qed
  then show "10 powi adjusted x \<le> \<bar>x\<bar>" "\<bar>x\<bar> < 10 powi (adjusted x + 1)" by auto
qed

lemma powi10_pos [simp]: "0 < (10::rat) powi e" "(10::rat) powi e \<noteq> 0"
  by simp_all

lemma powi10_mono: "a \<le> b \<Longrightarrow> (10::rat) powi a \<le> 10 powi b"
  by (simp add: power_int_increasing)

lemma powi10_less_imp: "(10::rat) powi a < 10 powi b \<Longrightarrow> a < b"
  using powi10_mono [of b a] by (meson linorder_not_le)

lemma powi10_nat: "a \<le> b \<Longrightarrow> (10::rat) powi b = 10 ^ nat (b - a) * 10 powi a"
  by (metis add.commute diff_add_cancel diff_ge_0_iff_ge int_nat_eq power_int_add power_int_of_nat zero_neq_numeral)

lemma adjusted_unique:
  assumes "10 powi a \<le> \<bar>x\<bar>" and "\<bar>x\<bar> < 10 powi (a + 1)"
  shows "adjusted x = a"
proof -
  have x: "x \<noteq> 0"
  proof
    assume "x = 0"
    with assms(1) powi10_pos(1) [of a] show False by simp
  qed
  note b = adjusted_bounds [OF x]
  have "10 powi a < (10::rat) powi (adjusted x + 1)" using assms(1) b(2) by linarith
  moreover have "10 powi adjusted x < (10::rat) powi (a + 1)" using assms(2) b(1) by linarith
  ultimately show ?thesis by (auto dest!: powi10_less_imp)
qed

lemma adjusted_mono: "x \<noteq> 0 \<Longrightarrow> \<bar>x\<bar> \<le> \<bar>y\<bar> \<Longrightarrow> adjusted x \<le> adjusted y"
proof -
  assume x: "x \<noteq> 0" and le: "\<bar>x\<bar> \<le> \<bar>y\<bar>"
  then have y: "y \<noteq> 0" by auto
  have "10 powi adjusted x < (10::rat) powi (adjusted y + 1)"
    using adjusted_bounds(1) [OF x] adjusted_bounds(2) [OF y] le by linarith
  then show ?thesis by (auto dest: powi10_less_imp)
qed

lemma adjusted_minus [simp]: "adjusted (- x) = adjusted x"
  by (simp add: adjusted_def)

lemma quantum_pos [simp]: "0 < quantum p x" "quantum p x \<noteq> 0"
  by (simp_all add: quantum_def)

lemma abs_quantum [simp]: "\<bar>quantum p x\<bar> = quantum p x"
  by (simp add: abs_of_pos)

lemma quantum_minus [simp]: "quantum p (- x) = quantum p x"
  by (simp add: quantum_def)

lemma round_half_even_of_int [simp]: "round_half_even (of_int k) = k"
  by (simp add: round_half_even_def)

lemma round_half_even_err: "\<bar>of_int (round_half_even x) - x\<bar> \<le> 1 / 2"
proof -
  define f d where "f = \<lfloor>x\<rfloor>" and "d = x - of_int \<lfloor>x\<rfloor>"
  have "0 \<le> d" "d < 1" using floor_correct [of x] unfolding d_def by linarith+
  moreover have "x = of_int f + d" by (simp add: f_def d_def)
  moreover have "round_half_even x = (if d < 1 / 2 then f else if 1 / 2 < d then f + 1
      else if even f then f else f + 1)"
    by (simp add: round_half_even_def Let_def f_def d_def)
  ultimately show ?thesis by (auto simp: abs_if)
qed

lemma round_half_even_mono: "x \<le> y \<Longrightarrow> round_half_even x \<le> round_half_even y"
proof -
  assume le: "x \<le> y"
  then have "\<lfloor>x\<rfloor> \<le> \<lfloor>y\<rfloor>" by (rule floor_mono)
  then consider "\<lfloor>x\<rfloor> = \<lfloor>y\<rfloor>" | "\<lfloor>x\<rfloor> + 1 \<le> \<lfloor>y\<rfloor>" by linarith
  then show ?thesis
  proof cases
    case 1
    with le show ?thesis by (auto simp: round_half_even_def Let_def)
  next
    case 2
    then show ?thesis by (auto simp: round_half_even_def Let_def)
  qed
qed

lemma round_half_even_minus: "round_half_even (- x) = - round_half_even x"
proof (cases "x = of_int \<lfloor>x\<rfloor>")
  case True
  then show ?thesis by (metis of_int_minus round_half_even_of_int)
next
  case False
  then have "\<lfloor>- x\<rfloor> = - \<lfloor>x\<rfloor> - 1"
    by (metis ceiling_altdef ceiling_def minus_equation_iff diff_minus_eq_add minus_add_distrib add.commute add_uminus_conv_diff)
  then show ?thesis by (auto simp: round_half_even_def Let_def)
qed

text \<open>Numbers a precision-\<open>p\<close> context represents exactly.\<close>

definition dec_fits :: "nat \<Rightarrow> rat \<Rightarrow> bool" where
  "dec_fits p x \<longleftrightarrow> (\<exists>c e. x = of_int c * 10 powi e \<and> \<bar>c\<bar> < 10 ^ p)"

lemma dec_fits_zero [simp]: "dec_fits p 0"
  by (auto simp: dec_fits_def intro: exI [of _ 0])

lemma dec_fits_minus [simp]: "dec_fits p (- x) = dec_fits p x"
proof -
  have *: "dec_fits p x \<Longrightarrow> dec_fits p (- x)" for x
    unfolding dec_fits_def by (metis abs_minus_cancel mult_minus_left of_int_minus)
  from * [of x] * [of "- x"] show ?thesis by auto
qed

lemma dec_round_zero [simp]: "dec_round p 0 = 0"
  by (simp add: dec_round_def)

lemma dec_round_minus: "dec_round p (- x) = - dec_round p x"
  by (simp add: dec_round_def round_half_even_minus flip: minus_divide_left)

lemma dec_round_exact:
  assumes "dec_fits p x"
  shows "dec_round p x = x"
proof (cases "x = 0")
  case True
  then show ?thesis by simp
next
  case False
  obtain c e where x: "x = of_int c * 10 powi e" and c: "\<bar>c\<bar> < 10 ^ p"
    using assms by (auto simp: dec_fits_def)
  let ?q = "adjusted x - int p + 1"
  have "\<bar>x\<bar> < 10 ^ p * 10 powi e"
  proof -
    have "\<bar>x\<bar> = of_int \<bar>c\<bar> * 10 powi e" by (simp add: x abs_mult)
    moreover have "(of_int \<bar>c\<bar> :: rat) < 10 ^ p"
      using c by (metis of_int_less_iff of_int_numeral of_int_power)
    ultimately show ?thesis by simp
  qed
  also have "\<dots> = 10 powi (int p + e)" by (simp add: power_int_add)
  finally have "10 powi adjusted x < (10::rat) powi (int p + e)"
    using adjusted_bounds(1) [OF False] by linarith
  then have le: "?q \<le> e" by (auto dest!: powi10_less_imp)
  have "x = of_int (c * 10 ^ nat (e - ?q)) * 10 powi ?q"
    using powi10_nat [OF le] by (simp add: x mult.assoc)
  then have "x / quantum p x = of_int (c * 10 ^ nat (e - ?q))"
    by (metis quantum_def powi10_pos(2) nonzero_mult_div_cancel_right)
  then show ?thesis
    using False by (metis dec_round_def round_half_even_of_int nonzero_eq_divide_eq quantum_pos(2))
qed

lemma dec_round_err: "\<bar>dec_round p x - x\<bar> \<le> quantum p x / 2"
proof (cases "x = 0")
  case True
  then show ?thesis by (simp add: quantum_def)
next
  case False
  let ?q = "quantum p x"
  have "dec_round p x - x = (of_int (round_half_even (x / ?q)) - x / ?q) * ?q"
    using False by (simp add: dec_round_def field_simps)
  then have "\<bar>dec_round p x - x\<bar> = \<bar>of_int (round_half_even (x / ?q)) - x / ?q\<bar> * ?q"
    by (simp add: abs_mult)
  also have "\<dots> \<le> 1 / 2 * ?q"
    by (intro mult_right_mono round_half_even_err) (simp add: less_imp_le)
  finally show ?thesis by simp
qed

lemma dec_round_rel_err:
  assumes "0 < p"
  shows "\<bar>dec_round p x - x\<bar> \<le> \<bar>x\<bar> * 10 powi (1 - int p) / 2"
proof (cases "x = 0")
  case True
  then show ?thesis by simp
next
  case False
  have "quantum p x = 10 powi adjusted x * 10 powi (1 - int p)"
    by (simp add: quantum_def flip: power_int_add) (simp add: algebra_simps)
  also have "\<dots> \<le> \<bar>x\<bar> * 10 powi (1 - int p)"
    by (intro mult_right_mono adjusted_bounds(1) [OF False]) (simp add: less_imp_le)
  finally show ?thesis using dec_round_err [of p x] by simp
qed

lemma dec_round_decade:
  assumes "0 < p" and "0 < x"
  shows "10 powi adjusted x \<le> dec_round p x" and "dec_round p x \<le> 10 powi (adjusted x + 1)"
proof -
  let ?q = "quantum p x"
  have x: "x \<noteq> 0" "\<bar>x\<bar> = x" using assms(2) by auto
  note b = adjusted_bounds [OF x(1), unfolded x(2)]
  have lo: "10 powi adjusted x = of_int (10 ^ (p - 1)) * ?q"
    using powi10_nat [of "adjusted x - int p + 1" "adjusted x"] assms(1)
    by (simp add: quantum_def nat_diff_distrib)
  have hi: "10 powi (adjusted x + 1) = of_int (10 ^ p) * ?q"
    using powi10_nat [of "adjusted x - int p + 1" "adjusted x + 1"]
    by (simp add: quantum_def)
  have "of_int (10 ^ (p - 1)) \<le> x / ?q" "x / ?q \<le> of_int (10 ^ p)"
    using b lo hi by (simp_all add: pos_le_divide_eq pos_divide_le_eq)
  then have "10 ^ (p - 1) \<le> round_half_even (x / ?q)" "round_half_even (x / ?q) \<le> 10 ^ p"
    by (metis round_half_even_mono round_half_even_of_int)+
  then have "of_int (10 ^ (p - 1)) * ?q \<le> dec_round p x" "dec_round p x \<le> of_int (10 ^ p) * ?q"
    using x(1) unfolding dec_round_def
    by (simp_all only: if_False) (intro mult_right_mono, simp_all only: of_int_le_iff quantum_pos less_imp_le)+
  then show "10 powi adjusted x \<le> dec_round p x" "dec_round p x \<le> 10 powi (adjusted x + 1)"
    by (simp_all only: lo hi)
qed

lemma dec_round_pos: "0 < p \<Longrightarrow> 0 < x \<Longrightarrow> 0 < dec_round p x"
  using dec_round_decade(1) [of p x] powi10_pos(1) [of "adjusted x"] by linarith

lemma dec_round_mono_pos:
  assumes "0 < p" and "0 < x" and "x \<le> y"
  shows "dec_round p x \<le> dec_round p y"
proof (cases "adjusted x = adjusted y")
  case True
  then have q: "quantum p x = quantum p y" by (simp add: quantum_def)
  have "round_half_even (x / quantum p y) \<le> round_half_even (y / quantum p y)"
    by (intro round_half_even_mono divide_right_mono assms) (simp add: less_imp_le)
  then have "(of_int (round_half_even (x / quantum p y)) :: rat) * quantum p y
      \<le> of_int (round_half_even (y / quantum p y)) * quantum p y"
    by (intro mult_right_mono) (simp_all add: less_imp_le)
  then show ?thesis using assms by (simp add: dec_round_def q)
next
  case False
  have "adjusted x \<le> adjusted y" using assms adjusted_mono [of x y] by simp
  with False have "adjusted x + 1 \<le> adjusted y" by simp
  then have "10 powi (adjusted x + 1) \<le> (10::rat) powi adjusted y" by (rule powi10_mono)
  with dec_round_decade(2) [of p x] dec_round_decade(1) [of p y] assms show ?thesis by linarith
qed

lemma dec_round_mono:
  assumes "0 < p" and "x \<le> y"
  shows "dec_round p x \<le> dec_round p y"
proof -
  consider "0 < x" | "x \<le> 0" "0 \<le> y" | "y < 0" by linarith
  then show ?thesis
  proof cases
    case 1
    with assms show ?thesis by (intro dec_round_mono_pos)
  next
    case 2
    have "0 \<le> dec_round p y" using 2 dec_round_pos [OF assms(1), of y] by (cases "y = 0") auto
    moreover have "dec_round p x \<le> 0"
      using 2 dec_round_pos [OF assms(1), of "- x"] by (cases "x = 0") (auto simp: dec_round_minus)
    ultimately show ?thesis by linarith
  next
    case 3
    with assms have "dec_round p (- y) \<le> dec_round p (- x)" by (intro dec_round_mono_pos) auto
    then show ?thesis by (simp add: dec_round_minus)
  qed
qed

lemma ndigits_small: "n < 10 \<Longrightarrow> ndigits n = 1"
  by (simp add: ndigits.simps [of n])

lemma ndigits_large: "10 \<le> n \<Longrightarrow> ndigits n = Suc (ndigits (n div 10))"
  by (simp add: ndigits.simps [of n])

lemma floor_rat_numeral:
  "\<lfloor>numeral a / numeral b :: rat\<rfloor> = numeral a div numeral b"
  "\<lfloor>- (numeral a / numeral b) :: rat\<rfloor> = - numeral a div numeral b"
  "\<lfloor>1 / numeral b :: rat\<rfloor> = 1 div numeral b"
  "\<lfloor>- (1 / numeral b) :: rat\<rfloor> = - 1 div numeral b"
  by (metis floor_divide_of_int_eq of_int_numeral of_int_minus of_int_1 minus_divide_left)+

lemmas dec_eval = dec_round_def quantum_def adjusted_def round_half_even_def ceiling_def
  floor_rat_numeral ndigits_small ndigits_large power_int_minus Let_def

lemma dec_fits_of_int_powi: "\<bar>c\<bar> \<le> 10 ^ p \<Longrightarrow> 0 < p \<Longrightarrow> dec_fits p (of_int c * 10 powi e)"
proof -
  assume c: "\<bar>c\<bar> \<le> 10 ^ p" and p: "0 < p"
  show ?thesis
  proof (cases "\<bar>c\<bar> < 10 ^ p")
    case True
    then show ?thesis by (auto simp: dec_fits_def)
  next
    case False
    with c have abs: "\<bar>c\<bar> = 10 ^ p" by linarith
    then have c_eq: "c = sgn c * 10 ^ p" using sgn_mult_abs [of c] by simp
    have "(of_int c :: rat) = of_int (sgn c) * 10 ^ p"
      by (subst c_eq) (simp only: of_int_mult of_int_power of_int_numeral)
    then have "of_int c * 10 powi e = (of_int (sgn c) * 10 powi (int p + e) :: rat)"
      by (simp add: power_int_add)
    moreover have "\<bar>sgn c\<bar> < 10 ^ p" using p abs by (auto simp: abs_sgn_eq)
    ultimately show ?thesis unfolding dec_fits_def by blast
  qed
qed

lemma dec_round_fits:
  assumes "0 < p"
  shows "dec_fits p (dec_round p x)"
proof -
  have pos: "dec_fits p (dec_round p x)" if x: "0 < x" for x
  proof -
    let ?n = "round_half_even (x / quantum p x)"
    have e: "dec_round p x = of_int ?n * quantum p x" using x by (simp add: dec_round_def)
    have hi: "10 powi (adjusted x + 1) = of_int (10 ^ p) * quantum p x"
      using powi10_nat [of "adjusted x - int p + 1" "adjusted x + 1"] by (simp add: quantum_def)
    have "of_int ?n * quantum p x \<le> of_int (10 ^ p) * quantum p x"
      using dec_round_decade(2) [OF assms x] by (simp only: e hi)
    then have "(of_int ?n :: rat) \<le> of_int (10 ^ p)"
      by (simp only: mult_le_cancel_right_pos quantum_pos)
    then have "?n \<le> 10 ^ p" by (simp only: of_int_le_iff)
    moreover have "0 < of_int ?n * quantum p x"
      using dec_round_pos [OF assms x] by (simp only: e)
    then have "(0::rat) < of_int ?n" by (rule zero_less_mult_pos2) simp
    then have "0 < ?n" by (simp only: of_int_0_less_iff)
    ultimately show ?thesis unfolding e quantum_def using assms by (intro dec_fits_of_int_powi) auto
  qed
  consider "x = 0" | "0 < x" | "0 < - x" by linarith
  then show ?thesis
  proof cases
    case 3
    then have "dec_fits p (dec_round p (- x))" by (rule pos)
    then show ?thesis by (simp add: dec_round_minus)
  qed (simp_all add: pos)
qed

section \<open>The laws of a decimal context\<close>

locale rounding =
  fixes rnd :: "rat \<Rightarrow> rat" and fits :: "rat \<Rightarrow> bool"
  assumes rnd_mono: "x \<le> y \<Longrightarrow> rnd x \<le> rnd y"
    and rnd_minus: "rnd (- x) = - rnd x"
    and rnd_exact: "fits x \<Longrightarrow> rnd x = x"
    and rnd_fits: "fits (rnd x)"
    and rnd_pos: "0 < x \<Longrightarrow> 0 < rnd x"
begin

lemma rnd_zero [simp]: "rnd 0 = 0"
  using rnd_minus [of 0] by simp

lemma rnd_idem [simp]: "rnd (rnd x) = rnd x"
  by (rule rnd_exact [OF rnd_fits])

lemma rnd_nonneg: "0 \<le> x \<Longrightarrow> 0 \<le> rnd x"
  using rnd_mono [of 0 x] by simp

lemma rnd_neg: "x < 0 \<Longrightarrow> rnd x < 0"
  using rnd_pos [of "- x"] by (simp add: rnd_minus)

lemma rnd_eq_0 [simp]: "rnd x = 0 \<longleftrightarrow> x = 0"
  using rnd_pos [of x] rnd_neg [of x] by (cases x "0::rat" rule: linorder_cases) auto

lemma rnd_less_0 [simp]: "rnd x < 0 \<longleftrightarrow> x < 0"
  using rnd_neg [of x] rnd_nonneg [of x] by (cases "x < 0") auto

lemma rnd_gt_0 [simp]: "0 < rnd x \<longleftrightarrow> 0 < x"
  using rnd_less_0 [of "- x"] by (simp add: rnd_minus)

lemma rnd_ge_0 [simp]: "0 \<le> rnd x \<longleftrightarrow> 0 \<le> x"
  using rnd_less_0 [of x] by (simp only: not_less [symmetric])

lemma rnd_le_0 [simp]: "rnd x \<le> 0 \<longleftrightarrow> x \<le> 0"
  using rnd_gt_0 [of x] by (simp only: not_less [symmetric])

lemma rnd_between: "fits a \<Longrightarrow> fits b \<Longrightarrow> a \<le> x \<Longrightarrow> x \<le> b \<Longrightarrow> a \<le> rnd x \<and> rnd x \<le> b"
  using rnd_mono [of a x] rnd_mono [of x b] rnd_exact by auto

lemma rnd_abs: "rnd \<bar>x\<bar> = \<bar>rnd x\<bar>"
  by (cases "0 \<le> x") (simp_all add: abs_if rnd_minus)

end

lemma rounding_dec_round: "0 < p \<Longrightarrow> rounding (dec_round p) (dec_fits p)"
  by unfold_locales
    (simp_all add: dec_round_mono dec_round_minus dec_round_exact dec_round_fits dec_round_pos)

interpretation d28: rounding "dec_round 28" "dec_fits 28"
  by (rule rounding_dec_round) simp

interpretation d128: rounding "dec_round 128" "dec_fits 128"
  by (rule rounding_dec_round) simp

section \<open>The operators of the default context\<close>

definition dadd :: "rat \<Rightarrow> rat \<Rightarrow> rat" where
  "dadd x y = dec_round 28 (x + y)"

definition dsub :: "rat \<Rightarrow> rat \<Rightarrow> rat" where
  "dsub x y = dec_round 28 (x - y)"

definition dmul :: "rat \<Rightarrow> rat \<Rightarrow> rat" where
  "dmul x y = dec_round 28 (x * y)"

definition ddiv :: "rat \<Rightarrow> rat \<Rightarrow> rat" where
  "ddiv x y = dec_round 28 (x / y)"

definition dneg :: "rat \<Rightarrow> rat" where
  "dneg x = dec_round 28 (- x)"

definition dabs :: "rat \<Rightarrow> rat" where
  "dabs x = dec_round 28 \<bar>x\<bar>"

text \<open>\<^verbatim>\<open>sum(xs, Decimal("0"))\<close>: a left fold, rounding after every addition.\<close>

definition dsum :: "rat list \<Rightarrow> rat" where
  "dsum xs = foldl dadd 0 xs"

lemmas dec_ops = dadd_def dsub_def dmul_def ddiv_def dneg_def dabs_def

text \<open>Signs survive rounding, without any bound on the operands.\<close>

lemma dec_signs [simp]:
  "dneg x = 0 \<longleftrightarrow> x = 0" "dneg x < 0 \<longleftrightarrow> 0 < x" "0 < dneg x \<longleftrightarrow> x < 0"
  "dabs x = 0 \<longleftrightarrow> x = 0" "0 \<le> dabs x" "0 < dabs x \<longleftrightarrow> x \<noteq> 0"
  "dadd x y = 0 \<longleftrightarrow> x + y = 0" "dadd x y < 0 \<longleftrightarrow> x + y < 0" "0 < dadd x y \<longleftrightarrow> 0 < x + y"
  "0 \<le> dadd x y \<longleftrightarrow> 0 \<le> x + y" "dadd x y \<le> 0 \<longleftrightarrow> x + y \<le> 0"
  "0 \<le> dsub x y \<longleftrightarrow> y \<le> x" "dsub x y \<le> 0 \<longleftrightarrow> x \<le> y"
  "dmul x y = 0 \<longleftrightarrow> x = 0 \<or> y = 0" "dmul x y < 0 \<longleftrightarrow> x * y < 0" "0 \<le> dmul x y \<longleftrightarrow> 0 \<le> x * y"
  "ddiv x y < 0 \<longleftrightarrow> x / y < 0" "0 \<le> ddiv x y \<longleftrightarrow> 0 \<le> x / y"
  "dsub x y = 0 \<longleftrightarrow> x = y" "dsub x y < 0 \<longleftrightarrow> x < y" "0 < dsub x y \<longleftrightarrow> y < x"
  by (simp_all add: dec_ops)

lemma dadd_zero: "dec_fits 28 x \<Longrightarrow> dadd 0 x = x" "dec_fits 28 x \<Longrightarrow> dadd x 0 = x"
  by (simp_all add: dadd_def d28.rnd_exact)

lemma dneg_exact: "dec_fits 28 x \<Longrightarrow> dneg x = - x"
  by (simp add: dneg_def d28.rnd_exact)

lemma dabs_exact: "dec_fits 28 x \<Longrightarrow> dabs x = \<bar>x\<bar>"
  by (simp add: dabs_def d28.rnd_abs d28.rnd_exact)

lemma dec_fits_ops [simp]:
  "dec_fits 28 (dadd x y)" "dec_fits 28 (dsub x y)" "dec_fits 28 (dmul x y)"
  "dec_fits 28 (ddiv x y)" "dec_fits 28 (dneg x)" "dec_fits 28 (dabs x)"
  by (simp_all add: dec_ops d28.rnd_fits)

section \<open>Fixed-point numbers: where decimal arithmetic is exact\<close>

text \<open>
  \<open>on_grid s n x\<close>: \<open>x\<close> has at most \<open>s\<close> fractional digits and is at most \<open>n\<close> units of the
  last place. Sums and products of such numbers are again on a grid, and a grid of at most
  \<open>10 ^ 28\<close> units is exact in the default context.
\<close>

definition on_grid :: "nat \<Rightarrow> nat \<Rightarrow> rat \<Rightarrow> bool" where
  "on_grid s n x \<longleftrightarrow> of_int \<lfloor>x * 10 ^ s\<rfloor> = x * 10 ^ s \<and> \<bar>x\<bar> * 10 ^ s \<le> of_nat n"

lemma on_gridI:
  assumes "x = of_int k / 10 ^ s" and "\<bar>k\<bar> \<le> int n"
  shows "on_grid s n x"
proof -
  have x: "x * 10 ^ s = of_int k" by (simp add: assms(1))
  have "\<bar>x\<bar> * 10 ^ s = \<bar>x * 10 ^ s\<bar>" by (simp add: abs_mult)
  also have "\<dots> = of_int \<bar>k\<bar>" by (simp add: x)
  also have "\<dots> \<le> (of_int (int n) :: rat)" using assms(2) by (simp only: of_int_le_iff)
  finally show ?thesis by (simp add: on_grid_def x)
qed

lemma on_gridE:
  assumes "on_grid s n x"
  obtains k where "x = of_int k / 10 ^ s" and "\<bar>k\<bar> \<le> int n"
proof
  have i: "of_int \<lfloor>x * 10 ^ s\<rfloor> = x * 10 ^ s" using assms unfolding on_grid_def by blast
  show "x = of_int \<lfloor>x * 10 ^ s\<rfloor> / 10 ^ s" unfolding i by simp
  have "of_int \<bar>\<lfloor>x * 10 ^ s\<rfloor>\<bar> = \<bar>x * 10 ^ s\<bar>" by (simp only: of_int_abs i)
  also have "\<dots> \<le> (of_int (int n) :: rat)" using assms by (simp add: on_grid_def abs_mult)
  finally show "\<bar>\<lfloor>x * 10 ^ s\<rfloor>\<bar> \<le> int n" by (simp only: of_int_le_iff)
qed

lemma on_grid_fits: "on_grid s n x \<Longrightarrow> n \<le> 10 ^ 28 \<Longrightarrow> dec_fits 28 x"
proof -
  assume g: "on_grid s n x" and n: "n \<le> 10 ^ 28"
  from g obtain k where x: "x = of_int k / 10 ^ s" and k: "\<bar>k\<bar> \<le> int n" by (rule on_gridE)
  have "int n \<le> int (10 ^ 28)" using n by (simp only: of_nat_le_iff)
  then have "int n \<le> 10 ^ 28" by (simp only: of_nat_power of_nat_numeral)
  with k have "dec_fits 28 (of_int k * 10 powi (- int s))" by (intro dec_fits_of_int_powi) linarith+
  moreover have "of_int k * 10 powi (- int s) = x" by (simp add: x power_int_minus divide_inverse)
  ultimately show ?thesis by simp
qed

lemma on_grid_zero: "on_grid s n 0"
  by (simp add: on_grid_def)

lemma on_grid_minus [simp]: "on_grid s n (- x) = on_grid s n x"
proof -
  have "on_grid s n x \<Longrightarrow> on_grid s n (- x)" for x
    by (erule on_gridE, rule on_gridI [where k = "- _"]) auto
  from this [of x] this [of "- x"] show ?thesis by auto
qed

lemma on_grid_abs [simp]: "on_grid s n \<bar>x\<bar> = on_grid s n x"
  by (simp add: abs_if)

lemma on_grid_mono: "on_grid s n x \<Longrightarrow> n \<le> m \<Longrightarrow> on_grid s m x"
  by (erule on_gridE, rule on_gridI) auto

lemma on_grid_add:
  assumes "on_grid s n x" and "on_grid s m y"
  shows "on_grid s (n + m) (x + y)"
proof -
  obtain j k where "x = of_int j / 10 ^ s" "\<bar>j\<bar> \<le> int n" "y = of_int k / 10 ^ s" "\<bar>k\<bar> \<le> int m"
    using assms by (auto elim!: on_gridE)
  then show ?thesis by (intro on_gridI [where k = "j + k"]) (auto simp: add_divide_distrib)
qed

lemma on_grid_diff: "on_grid s n x \<Longrightarrow> on_grid s m y \<Longrightarrow> on_grid s (n + m) (x - y)"
  using on_grid_add [of s n x m "- y"] by simp

lemma on_grid_mult:
  assumes "on_grid s n x" and "on_grid t m y"
  shows "on_grid (s + t) (n * m) (x * y)"
proof -
  obtain j k where "x = of_int j / 10 ^ s" "\<bar>j\<bar> \<le> int n" "y = of_int k / 10 ^ t" "\<bar>k\<bar> \<le> int m"
    using assms by (auto elim!: on_gridE)
  then show ?thesis
    by (intro on_gridI [where k = "j * k"]) (auto simp: power_add abs_mult intro: mult_mono)
qed

lemma on_grid_scale: "on_grid s n x \<Longrightarrow> on_grid (s + t) (n * 10 ^ t) x"
  using on_grid_mult [of s n x t "10 ^ t" 1] on_gridI [of 1 "10 ^ t" t "10 ^ t"] by simp

lemma on_grid_min: "on_grid s n x \<Longrightarrow> on_grid s n y \<Longrightarrow> on_grid s n (min x y)"
  by (simp add: min_def)

lemma on_grid_max: "on_grid s n x \<Longrightarrow> on_grid s n y \<Longrightarrow> on_grid s n (max x y)"
  by (simp add: max_def)

lemma on_grid_smaller:
  assumes "on_grid s m x" and "on_grid s n y" and "\<bar>x\<bar> \<le> \<bar>y\<bar>"
  shows "on_grid s n x"
proof -
  have "\<bar>x\<bar> * 10 ^ s \<le> \<bar>y\<bar> * 10 ^ s" using assms(3) by (rule mult_right_mono) simp
  also have "\<dots> \<le> of_nat n" using assms(2) unfolding on_grid_def by blast
  finally show ?thesis using assms(1) unfolding on_grid_def by blast
qed

text \<open>An exact sum: every prefix stays on the grid.\<close>

lemma foldl_dadd_exact:
  assumes "\<And>x. x \<in> set xs \<Longrightarrow> on_grid s n x" and "on_grid s m a"
    and "m + length xs * n \<le> 10 ^ 28"
  shows "foldl dadd a xs = a + sum_list xs"
  using assms
proof (induction xs arbitrary: a m)
  case Nil
  then show ?case by simp
next
  case (Cons x xs)
  have g: "on_grid s (m + n) (a + x)"
    using Cons.prems(1,2) by (intro on_grid_add) auto
  have b: "m + n + length xs * n \<le> 10 ^ 28" using Cons.prems(3) by simp
  then have e: "dadd a x = a + x"
    using g on_grid_fits [of s "m + n" "a + x"] by (simp add: dadd_def d28.rnd_exact)
  show ?case using Cons.IH [OF _ g b] Cons.prems(1) by (simp add: e add.assoc)
qed

lemma dsum_exact:
  assumes "\<And>x. x \<in> set xs \<Longrightarrow> on_grid s n x" and "length xs * n \<le> 10 ^ 28"
  shows "dsum xs = sum_list xs"
  unfolding dsum_def
  using foldl_dadd_exact [of xs s n 0 0] assms on_grid_zero [of s 0] by simp

section \<open>Rounding up to a factor\<close>

text \<open>\<open>near k x y\<close>: \<open>x\<close> is \<open>y\<close> up to \<open>k\<close> rounding factors of half a unit in the last place.\<close>

definition half_ulp :: rat where
  "half_ulp = 1 / (2 * 10 ^ 27)"

definition near :: "nat \<Rightarrow> rat \<Rightarrow> rat \<Rightarrow> bool" where
  "near k x y \<longleftrightarrow> y * (1 - half_ulp) ^ k \<le> x \<and> x \<le> y * (1 + half_ulp) ^ k"

lemma half_ulp_bounds: "0 < half_ulp" "half_ulp < 1"
  by (simp_all add: half_ulp_def)

lemma near_refl: "near 0 x x"
  by (simp add: near_def)

lemma near_nonneg: "near k x y \<Longrightarrow> 0 \<le> y \<Longrightarrow> 0 \<le> x"
proof -
  assume w: "near k x y" and y: "0 \<le> y"
  have "0 \<le> y * (1 - half_ulp) ^ k" using y half_ulp_bounds by simp
  with w show ?thesis by (simp add: near_def)
qed

lemma near_round:
  assumes "near k x y" and "0 \<le> y"
  shows "near (Suc k) (dec_round 28 x) y"
proof -
  have x: "0 \<le> x" using assms by (rule near_nonneg)
  have u: "(10::rat) powi (1 - int 28) / 2 = half_ulp" by (simp add: half_ulp_def power_int_minus)
  have "\<bar>dec_round 28 x - x\<bar> \<le> x * half_ulp"
    using dec_round_rel_err [of 28 x] x by (simp only: abs_of_nonneg u flip: times_divide_eq_right)
  then have r: "x * (1 - half_ulp) \<le> dec_round 28 x" "dec_round 28 x \<le> x * (1 + half_ulp)"
    by (simp_all add: algebra_simps abs_le_iff)
  have "y * (1 - half_ulp) ^ k * (1 - half_ulp) \<le> x * (1 - half_ulp)"
    using assms(1) half_ulp_bounds by (intro mult_right_mono) (auto simp: near_def)
  moreover have "x * (1 + half_ulp) \<le> y * (1 + half_ulp) ^ k * (1 + half_ulp)"
    using assms(1) half_ulp_bounds by (intro mult_right_mono) (auto simp: near_def)
  moreover have "y * (1 - half_ulp) ^ Suc k = y * (1 - half_ulp) ^ k * (1 - half_ulp)"
    "y * (1 + half_ulp) ^ Suc k = y * (1 + half_ulp) ^ k * (1 + half_ulp)"
    by (simp_all only: power_Suc2 mult.assoc)
  ultimately show ?thesis using r unfolding near_def by linarith
qed

lemma near_mult: "near k x y \<Longrightarrow> 0 \<le> a \<Longrightarrow> near k (x * a) (y * a)"
proof -
  assume w: "near k x y" and a: "0 \<le> a"
  have "y * (1 - half_ulp) ^ k * a \<le> x * a" "x * a \<le> y * (1 + half_ulp) ^ k * a"
    using w a by (auto simp: near_def intro: mult_right_mono)
  then show ?thesis by (simp add: near_def mult.assoc mult.left_commute mult.commute)
qed

lemma near_add: "near k x y \<Longrightarrow> near k x' y' \<Longrightarrow> near k (x + x') (y + y')"
  by (auto simp: near_def distrib_right intro: add_mono)

lemma near_weaken:
  assumes "near k x y" and "0 \<le> y" and "k \<le> l"
  shows "near l x y"
proof -
  have "(1 - half_ulp) ^ l \<le> (1 - half_ulp) ^ k"
    using assms(3) half_ulp_bounds by (intro power_decreasing) auto
  moreover have "(1 + half_ulp) ^ k \<le> (1 + half_ulp) ^ l"
    using assms(3) half_ulp_bounds by (intro power_increasing) auto
  ultimately have "y * (1 - half_ulp) ^ l \<le> y * (1 - half_ulp) ^ k"
    "y * (1 + half_ulp) ^ k \<le> y * (1 + half_ulp) ^ l"
    using assms(2) by (auto intro: mult_left_mono)
  with assms(1) show ?thesis by (auto simp: near_def)
qed

lemma near_trans:
  assumes "near k x y" and "near l y z"
  shows "near (k + l) x z"
proof -
  have "z * (1 - half_ulp) ^ l * (1 - half_ulp) ^ k \<le> y * (1 - half_ulp) ^ k"
    "y * (1 + half_ulp) ^ k \<le> z * (1 + half_ulp) ^ l * (1 + half_ulp) ^ k"
    using assms(2) half_ulp_bounds by (auto simp: near_def intro!: mult_right_mono)
  with assms(1) show ?thesis by (simp add: near_def power_add mult.assoc mult.commute mult.left_commute)
qed

lemma near_6: "near 6 x y \<Longrightarrow> 0 \<le> y \<Longrightarrow> \<bar>x - y\<bar> \<le> y / 10 ^ 26"
proof -
  assume w: "near 6 x y" and y: "0 \<le> y"
  have b: "1 - 1 / 10 ^ 26 \<le> (1 - half_ulp) ^ 6" "(1 + half_ulp) ^ 6 \<le> 1 + 1 / 10 ^ 26"
    by (simp_all add: half_ulp_def field_simps)
  have "y * (1 - 1 / 10 ^ 26) \<le> x" "x \<le> y * (1 + 1 / 10 ^ 26)"
    using mult_left_mono [OF b(1) y] mult_left_mono [OF b(2) y] w unfolding near_def by linarith+
  then show ?thesis
    by (simp only: right_diff_distrib distrib_left mult_1_right times_divide_eq_right abs_le_iff)
      linarith
qed


end
