(* ===== verification/Schemas.thy ===== *)
theory Schemas
  imports Decimals
begin

text \<open>
  The canonical schemas (\<open>src/pmrp/schemas\<close>) the accounting core works on: money, fills,
  positions, cash balances, journal entries and settlements, each a record with the fields of
  the pydantic class. \<open>mk_*\<close> is the class constructor: it runs the field constraints and the
  model validators of the class on the values and returns the record or the validation error.
  A record field carries the initials of its class (\<open>fl\<close> for \<^verbatim>\<open>Fill\<close>, \<open>ps\<close> for
  \<^verbatim>\<open>Position\<close>, \<open>cb\<close> for \<^verbatim>\<open>CashBalance\<close>, \<open>jl\<close> and \<open>je\<close> for journal lines and entries,
  \<open>st\<close> for \<^verbatim>\<open>Settlement\<close>), because several classes share a field name.

  The SHA-256 digest of \<open>schemas/serialization.py\<close> is a parameter \<open>H\<close> of the definitions that
  derive identifiers; the canonical data it is applied to is written out as a \<open>canon\<close> value.
\<close>

section \<open>Canonical data, digests and identifiers\<close>

datatype canon =
    CNull
  | CStr string
  | CInt int
  | CBool bool
  | CDec rat
  | CTime instant
  | CList "canon list"
  | CMap "(string \<times> canon) list"

type_synonym hasher = "canon \<Rightarrow> string"

text \<open>\<^verbatim>\<open>s.removeprefix(p)\<close> and the slice \<^verbatim>\<open>digest[:32]\<close> every derived identifier uses.\<close>

definition removeprefix :: "string \<Rightarrow> string \<Rightarrow> string" where
  "removeprefix p s = (if take (length p) s = p then drop (length p) s else s)"

definition short_digest :: "hasher \<Rightarrow> canon \<Rightarrow> string" where
  "short_digest H c = take 32 (removeprefix ''sha256:'' (H c))"

lemma short_digest_length [simp]: "32 \<le> k \<Longrightarrow> length (short_digest H x) \<le> k"
  by (simp add: short_digest_def)

fun canon_of_opt :: "string option \<Rightarrow> canon" where
  "canon_of_opt None = CNull"
| "canon_of_opt (Some s) = CStr s"

fun canon_of_time :: "instant option \<Rightarrow> canon" where
  "canon_of_time None = CNull"
| "canon_of_time (Some t) = CTime t"

fun canon_of_dec :: "rat option \<Rightarrow> canon" where
  "canon_of_dec None = CNull"
| "canon_of_dec (Some x) = CDec x"

section \<open>Money\<close>

definition is_upper :: "char \<Rightarrow> bool" where
  "is_upper c \<longleftrightarrow> 65 \<le> (of_char c :: nat) \<and> (of_char c :: nat) \<le> 90"

definition is_lower :: "char \<Rightarrow> bool" where
  "is_lower c \<longleftrightarrow> 97 \<le> (of_char c :: nat) \<and> (of_char c :: nat) \<le> 122"

definition is_digit :: "char \<Rightarrow> bool" where
  "is_digit c \<longleftrightarrow> 48 \<le> (of_char c :: nat) \<and> (of_char c :: nat) \<le> 57"

text \<open>\<^verbatim>\<open>str.split\<close> at one character.\<close>

fun segments :: "char \<Rightarrow> string \<Rightarrow> string list" where
  "segments dot [] = [[]]"
| "segments dot (c # cs) =
     (case segments dot cs of [] \<Rightarrow> [] | s # ss \<Rightarrow> if c = dot then [] # s # ss else (c # s) # ss)"

definition validate_currency :: "string \<Rightarrow> string result" where
  "validate_currency value =
     (if length value = 3 \<and> list_all is_upper value then Inr value else Inl (ValueError F_currency))"

record money =
  amount :: rat
  currency :: string

text \<open>
  \<^verbatim>\<open>Money(amount, currency)\<close> raises only for an invalid currency; the accounting code builds
  it with a currency that already passed \<open>validate_currency\<close>, so there it is the plain record.
\<close>

abbreviation valid_currency :: "string \<Rightarrow> bool" where
  "valid_currency c \<equiv> validate_currency c = Inr c"

lemma validate_currency_ok: "validate_currency c = Inr c' \<Longrightarrow> c' = c \<and> valid_currency c"
  by (auto simp: validate_currency_def split: if_splits)

lemma validate_currency_bind:
  "bindE (validate_currency c) f = Inr r \<longleftrightarrow> valid_currency c \<and> f c = Inr r"
  by (auto simp: validate_currency_def split: if_splits)

definition zero_money :: "string \<Rightarrow> money" where
  "zero_money c = \<lparr>amount = 0, currency = c\<rparr>"

lemma zero_money_sel [simp]: "amount (zero_money c) = 0" "currency (zero_money c) = c"
  by (simp_all add: zero_money_def)

section \<open>Orders: sides, liquidity roles and fills\<close>

datatype side = BUY | SELL

datatype liquidity_role = MAKER | TAKER | UNKNOWN_ROLE

record fill =
  fl_fill_id :: ident
  fl_exchange_fill_id :: string
  fl_order_id :: ident
  fl_exchange_order_id :: "string option"
  fl_client_order_id :: string
  fl_exchange :: string
  fl_account_id :: ident
  fl_market_id :: ident
  fl_contract_id :: ident
  fl_outcome_id :: ident
  fl_side :: side
  fl_price :: rat
  fl_quantity :: rat
  fl_liquidity_role :: liquidity_role
  fl_fee :: "money option"
  fl_rebate :: "money option"
  fl_exchange_occurred_at :: instant
  fl_received_at :: instant
  fl_trade_id :: "string option"

text \<open>
  The constraints a \<^verbatim>\<open>Fill\<close> object satisfies because its class checked them: a text length, a
  nonnegative price, a positive quantity.
\<close>

definition text_in :: "nat \<Rightarrow> nat \<Rightarrow> string \<Rightarrow> bool" where
  "text_in lo hi s \<longleftrightarrow> lo \<le> length s \<and> length s \<le> hi"

definition fill_valid :: "fill \<Rightarrow> bool" where
  "fill_valid f \<longleftrightarrow>
     text_in 1 256 (fl_exchange_fill_id f) \<and> pred_option (text_in 1 256) (fl_exchange_order_id f) \<and>
     text_in 1 256 (fl_client_order_id f) \<and> text_in 1 64 (fl_exchange f) \<and>
     0 \<le> fl_price f \<and> 0 < fl_quantity f \<and> pred_option (text_in 1 256) (fl_trade_id f)"

section \<open>Positions\<close>

record position =
  ps_position_id :: ident
  ps_exchange :: string
  ps_account_id :: ident
  ps_market_id :: ident
  ps_contract_id :: ident
  ps_outcome_id :: ident
  ps_quantity :: rat
  ps_average_entry_price :: "rat option"
  ps_realized_pnl :: money
  ps_unrealized_pnl :: money
  ps_fees_paid :: money
  ps_rebates_received :: money
  ps_opened_at :: "instant option"
  ps_last_updated_at :: instant
  ps_aggregate_version :: int

definition position_checks :: "position \<Rightarrow> (bool \<times> py_error) list" where
  "position_checks p =
     [(\<not> text_in 1 64 (ps_exchange p), ValidationError (Out_of_range F_exchange)),
      (\<not> pred_option (\<lambda>a. 0 \<le> a) (ps_average_entry_price p),
         ValidationError (Out_of_range F_average_entry_price)),
      (ps_aggregate_version p < 0, ValidationError (Out_of_range F_aggregate_version)),
      (\<not> pred_option (\<lambda>t. t \<le> ps_last_updated_at p) (ps_opened_at p),
         ValidationError Updated_before_opened),
      (amount (ps_fees_paid p) < 0, ValidationError (Out_of_range F_fees_paid)),
      (amount (ps_rebates_received p) < 0, ValidationError (Out_of_range F_rebates_received))]"

definition mk_position :: "position \<Rightarrow> position result" where
  "mk_position p = bindE (guards (position_checks p)) (\<lambda>_. Inr p)"

definition position_valid :: "position \<Rightarrow> bool" where
  "position_valid p \<longleftrightarrow> mk_position p = Inr p"

lemma mk_position_cases: "mk_position p = Inr q \<longleftrightarrow> q = p \<and> position_valid p"
  by (auto simp: mk_position_def position_valid_def bindE_eq_Inr)

lemma position_valid_iff:
  "position_valid p \<longleftrightarrow>
     text_in 1 64 (ps_exchange p) \<and> pred_option (\<lambda>a. 0 \<le> a) (ps_average_entry_price p) \<and>
     0 \<le> ps_aggregate_version p \<and> pred_option (\<lambda>t. t \<le> ps_last_updated_at p) (ps_opened_at p) \<and>
     0 \<le> amount (ps_fees_paid p) \<and> 0 \<le> amount (ps_rebates_received p)"
  by (auto simp: position_valid_def mk_position_def bindE_eq_Inr guards_ok_iff position_checks_def)

section \<open>Cash balances\<close>

record cash_balance =
  cb_balance_id :: string
  cb_exchange :: string
  cb_account_id :: ident
  cb_currency :: string
  cb_available :: rat
  cb_reserved :: rat
  cb_total :: rat
  cb_captured_at :: instant

definition mk_cash_balance :: "cash_balance \<Rightarrow> cash_balance result" where
  "mk_cash_balance b =
     bindE (guards
       [(\<not> text_in 1 128 (cb_balance_id b), ValidationError (Out_of_range F_balance_id)),
        (\<not> text_in 1 64 (cb_exchange b), ValidationError (Out_of_range F_exchange)),
        (\<not> valid_currency (cb_currency b), ValidationError (Out_of_range F_currency)),
        (cb_reserved b < 0, ValidationError (Out_of_range F_amount)),
        (dadd (cb_available b) (cb_reserved b) \<noteq> cb_total b, ValidationError Balance_identity_broken)])
       (\<lambda>_. Inr b)"

definition cash_balance_valid :: "cash_balance \<Rightarrow> bool" where
  "cash_balance_valid b \<longleftrightarrow> mk_cash_balance b = Inr b"

lemma mk_cash_balance_cases: "mk_cash_balance b = Inr c \<longleftrightarrow> c = b \<and> cash_balance_valid b"
  by (auto simp: mk_cash_balance_def cash_balance_valid_def bindE_eq_Inr)

lemma cash_balance_valid_iff:
  "cash_balance_valid b \<longleftrightarrow>
     text_in 1 128 (cb_balance_id b) \<and> text_in 1 64 (cb_exchange b) \<and>
     valid_currency (cb_currency b) \<and> 0 \<le> cb_reserved b \<and>
     dadd (cb_available b) (cb_reserved b) = cb_total b"
  by (auto simp: cash_balance_valid_def mk_cash_balance_def bindE_eq_Inr guards_ok_iff)

section \<open>Journal entries\<close>

record journal_line =
  jl_account_code :: string
  jl_amount :: rat
  jl_currency :: string
  jl_description :: "string option"

definition mk_journal_line :: "journal_line \<Rightarrow> journal_line result" where
  "mk_journal_line l =
     bindE (guards
       [(\<not> text_in 1 128 (jl_account_code l), ValidationError (Out_of_range F_text)),
        (\<not> valid_currency (jl_currency l), ValidationError (Out_of_range F_currency)),
        (\<not> pred_option (text_in 1 512) (jl_description l), ValidationError (Out_of_range F_text))])
       (\<lambda>_. Inr l)"

record journal_entry =
  je_journal_entry_id :: string
  je_occurred_at :: instant
  je_source_event_id :: ident
  je_reference_type :: string
  je_reference_id :: string
  je_lines :: "journal_line list"
  je_description :: string
  je_created_at :: instant

text \<open>The \<^verbatim>\<open>defaultdict\<close> of running totals per currency.\<close>

definition add_line_total :: "(string \<times> rat) list \<Rightarrow> journal_line \<Rightarrow> (string \<times> rat) list" where
  "add_line_total totals l =
     dict_set (jl_currency l)
       (dadd (case map_of totals (jl_currency l) of None \<Rightarrow> 0 | Some t \<Rightarrow> t) (jl_amount l)) totals"

definition totals_by_currency :: "journal_line list \<Rightarrow> (string \<times> rat) list" where
  "totals_by_currency lines = foldl add_line_total [] lines"

definition validate_journal_balance :: "journal_entry \<Rightarrow> unit result" where
  "validate_journal_balance e =
     guards
       [(je_lines e = [], ValidationError Journal_has_no_lines),
        (je_created_at e < je_occurred_at e, ValidationError Journal_created_before_occurred),
        (filter (\<lambda>(c, t). t \<noteq> 0) (totals_by_currency (je_lines e)) \<noteq> [],
           ValidationError Journal_unbalanced)]"

definition mk_journal_entry :: "journal_entry \<Rightarrow> journal_entry result" where
  "mk_journal_entry e =
     bindE (guards
       [(\<not> text_in 1 128 (je_journal_entry_id e), ValidationError (Out_of_range F_text)),
        (\<not> text_in 1 64 (je_reference_type e), ValidationError (Out_of_range F_text)),
        (\<not> text_in 1 128 (je_reference_id e), ValidationError (Out_of_range F_text)),
        (\<not> text_in 1 1024 (je_description e), ValidationError (Out_of_range F_text))]) (\<lambda>_.
     bindE (validate_journal_balance e) (\<lambda>_. Inr e))"

text \<open>What the balance check means: the total of each currency, in line order.\<close>

definition currency_total :: "string \<Rightarrow> journal_line list \<Rightarrow> rat" where
  "currency_total c lines = dsum (map jl_amount (filter (\<lambda>l. jl_currency l = c) lines))"

definition balanced :: "journal_line list \<Rightarrow> bool" where
  "balanced lines \<longleftrightarrow> (\<forall>c \<in> jl_currency ` set lines. currency_total c lines = 0)"

lemma totals_by_currency_gen:
  "map_of (foldl add_line_total d lines) c =
     (let ls = filter (\<lambda>l. jl_currency l = c) lines in
      if ls = [] then map_of d c
      else Some (foldl dadd (case map_of d c of None \<Rightarrow> 0 | Some t \<Rightarrow> t) (map jl_amount ls)))"
  by (induction lines arbitrary: d)
    (auto simp: Let_def add_line_total_def map_of_dict_set split: option.splits)

lemma totals_by_currency_distinct:
  "distinct (map fst d) \<Longrightarrow> distinct (map fst (foldl add_line_total d lines))"
  by (induction lines arbitrary: d) (simp_all add: add_line_total_def distinct_dict_set)

lemma totals_by_currency_eq:
  "map_of (totals_by_currency lines) c =
     (if c \<in> jl_currency ` set lines then Some (currency_total c lines) else None)"
proof -
  have "filter (\<lambda>l. jl_currency l = c) lines = [] \<longleftrightarrow> c \<notin> jl_currency ` set lines"
    by (auto simp: filter_empty_conv)
  then show ?thesis
    by (simp add: totals_by_currency_def totals_by_currency_gen Let_def currency_total_def dsum_def)
qed

lemma no_unbalanced_currency_iff:
  "filter (\<lambda>(c, t). t \<noteq> 0) (totals_by_currency lines) = [] \<longleftrightarrow> balanced lines"
proof -
  have d: "distinct (map fst (totals_by_currency lines))"
    unfolding totals_by_currency_def by (rule totals_by_currency_distinct) simp
  have "filter (\<lambda>(c, t). t \<noteq> 0) (totals_by_currency lines) = [] \<longleftrightarrow>
      (\<forall>c t. map_of (totals_by_currency lines) c = Some t \<longrightarrow> t = 0)"
    using d by (auto simp: filter_empty_conv)
  then show ?thesis by (auto simp: totals_by_currency_eq balanced_def)
qed

lemma mk_journal_entry_iff:
  "mk_journal_entry e = Inr e' \<longleftrightarrow>
     e' = e \<and> text_in 1 128 (je_journal_entry_id e) \<and> text_in 1 64 (je_reference_type e) \<and>
     text_in 1 128 (je_reference_id e) \<and> text_in 1 1024 (je_description e) \<and>
     je_lines e \<noteq> [] \<and> je_occurred_at e \<le> je_created_at e \<and> balanced (je_lines e)"
  by (auto simp: mk_journal_entry_def validate_journal_balance_def bindE_eq_Inr guards_ok_iff
      no_unbalanced_currency_iff)

section \<open>Settlements\<close>

datatype settlement_status =
    UNRESOLVED | PENDING_RESOLUTION | RESOLVED | DISPUTED | FINALIZED | SETTLED | CORRECTED

record settlement =
  st_settlement_id :: ident
  st_market_id :: ident
  st_exchange :: string
  st_status :: settlement_status
  st_winning_outcome_ids :: "ident list"
  st_resolved_at :: "instant option"
  st_finalized_at :: "instant option"
  st_settled_at :: "instant option"
  st_payout_per_unit :: "rat option"
  st_source :: string
  st_source_reference :: "string option"
  st_correction_of_settlement_id :: "ident option"

definition validate_settlement_lifecycle :: "settlement \<Rightarrow> unit result" where
  "validate_settlement_lifecycle s =
     (let bad = (\<lambda>e. ValidationError (Lifecycle e));
          has_resolution = st_winning_outcome_ids s \<noteq> [] \<or> st_resolved_at s \<noteq> None \<or>
            st_finalized_at s \<noteq> None \<or> st_settled_at s \<noteq> None \<or> st_payout_per_unit s \<noteq> None
      in
      if st_status s = UNRESOLVED \<or> st_status s = PENDING_RESOLUTION then
        guards
          [(has_resolution, bad Unresolved_has_resolution),
           (st_correction_of_settlement_id s \<noteq> None, bad Unresolved_corrects)]
      else
        guards
         ([(st_winning_outcome_ids s = [], bad Lacks_winners),
           (st_resolved_at s = None, bad Lacks_resolved_at),
           (st_payout_per_unit s = None, bad Lacks_payout)] @
          (case st_status s of
             RESOLVED \<Rightarrow> [(st_finalized_at s \<noteq> None \<or> st_settled_at s \<noteq> None, bad Nonfinal_has_finalization)]
           | DISPUTED \<Rightarrow> [(st_finalized_at s \<noteq> None \<or> st_settled_at s \<noteq> None, bad Nonfinal_has_finalization)]
           | FINALIZED \<Rightarrow>
               [(st_finalized_at s = None, bad Finalized_lacks_finalized_at),
                (st_settled_at s \<noteq> None, bad Finalized_has_settled_at)]
           | SETTLED \<Rightarrow>
               [(st_finalized_at s = None, bad Settled_lacks_finalized_at),
                (st_settled_at s = None, bad Settled_lacks_settled_at)]
           | CORRECTED \<Rightarrow> [(st_correction_of_settlement_id s = None, bad Corrected_lacks_reference)]
           | _ \<Rightarrow> []) @
          [(st_finalized_at s \<noteq> None \<and> st_resolved_at s = None, bad Lacks_resolved_at),
           (st_settled_at s \<noteq> None \<and> st_finalized_at s = None, bad Settled_lacks_finalized_at),
           (case (st_finalized_at s, st_resolved_at s) of (Some f, Some r) \<Rightarrow> f < r | _ \<Rightarrow> False,
              bad Finalized_before_resolved),
           (case (st_settled_at s, st_finalized_at s) of (Some t, Some f) \<Rightarrow> t < f | _ \<Rightarrow> False,
              bad Settled_before_finalized)]))"

definition mk_settlement :: "settlement \<Rightarrow> settlement result" where
  "mk_settlement s =
     bindE (guards
       [(\<not> text_in 1 64 (st_exchange s), ValidationError (Out_of_range F_exchange)),
        (\<not> pred_option (\<lambda>p. 0 \<le> p) (st_payout_per_unit s), ValidationError (Out_of_range F_price)),
        (\<not> text_in 1 128 (st_source s), ValidationError (Out_of_range F_text)),
        (\<not> pred_option (text_in 1 128) (st_source_reference s), ValidationError (Out_of_range F_text))]) (\<lambda>_.
     bindE (validate_settlement_lifecycle s) (\<lambda>_. Inr s))"

definition settlement_valid :: "settlement \<Rightarrow> bool" where
  "settlement_valid s \<longleftrightarrow> mk_settlement s = Inr s"

text \<open>A valid settled or corrected settlement carries what accounting needs, in time order.\<close>

lemma settlement_valid_settled:
  assumes "settlement_valid s" and "st_status s = SETTLED"
  obtains r f t p where "st_resolved_at s = Some r" "st_finalized_at s = Some f" "st_settled_at s = Some t"
    "st_payout_per_unit s = Some p" "r \<le> f" "f \<le> t" "0 \<le> p" "st_winning_outcome_ids s \<noteq> []"
  using assms unfolding settlement_valid_def mk_settlement_def validate_settlement_lifecycle_def
  by (auto simp: bindE_eq_Inr guards_ok_iff Let_def not_less split: if_splits)

lemma settlement_valid_corrected:
  assumes "settlement_valid s" and "st_status s = CORRECTED"
  obtains p where "st_payout_per_unit s = Some p" "0 \<le> p" "st_correction_of_settlement_id s \<noteq> None"
  using assms unfolding settlement_valid_def mk_settlement_def validate_settlement_lifecycle_def
  by (auto simp: bindE_eq_Inr guards_ok_iff Let_def split: if_splits)

section \<open>Numbers as text\<close>

text \<open>\<^verbatim>\<open>str\<close> of an integer.\<close>

fun nat_text :: "nat \<Rightarrow> string" where
  "nat_text n = (if n < 10 then [] else nat_text (n div 10)) @ [char_of (48 + n mod 10)]"

declare nat_text.simps [simp del]

definition int_text :: "int \<Rightarrow> string" where
  "int_text n = (if n < 0 then ''-'' else []) @ nat_text (nat \<bar>n\<bar>)"

lemma digit_not_space: "n < 10 \<Longrightarrow> \<not> py_isspace (char_of (48 + n :: nat))"
  by (simp add: py_isspace_def of_char_of)

lemma nat_text_last: "nat_text n \<noteq> [] \<and> \<not> py_isspace (last (nat_text n))"
  by (subst (1 2) nat_text.simps) (simp add: digit_not_space)

lemma nat_text_hd: "\<not> py_isspace (hd (nat_text n))"
  by (induction n rule: nat_text.induct) (subst nat_text.simps, auto simp: digit_not_space nat_text_last hd_append)

lemma int_text_last: "int_text n \<noteq> [] \<and> \<not> py_isspace (last (int_text n))"
  using nat_text_last by (simp add: int_text_def)

lemma int_text_unpadded: "0 \<le> n \<Longrightarrow> \<not> blank_or_padded (int_text n)"
proof -
  have unpadded: "\<not> blank_or_padded s" if "s \<noteq> []" "\<not> py_isspace (hd s)" "\<not> py_isspace (last s)" for s
  proof -
    have "dropWhile py_isspace s = s" using that by (cases s) simp_all
    moreover have "dropWhile py_isspace (rev s) = rev s" using that by (cases s rule: rev_cases) simp_all
    ultimately show ?thesis using that(1) by (simp add: blank_or_padded_def py_strip_def)
  qed
  assume "0 \<le> n"
  then show ?thesis using unpadded [of "nat_text (nat n)"] nat_text_last nat_text_hd by (simp add: int_text_def)
qed

end
