(* ===== verification/Positions.thy ===== *)
theory Positions
  imports Schemas
begin

text \<open>
  \<open>src/pmrp/portfolio/positions.py\<close>: weighted-average cost accounting of one position.

  \<open>apply_fill_to_position\<close> validates the fill against the position, computes the weighted
  average (\<open>apply_weighted_average_fill\<close>) and builds the new position. The lemmas show when it
  succeeds, what it keeps of the position, that closed and opened quantity add up to the fill,
  that the average stays between the two prices, and how far the cost basis can drift because
  the average is rounded to 28 digits.
\<close>

section \<open>Helpers\<close>

definition validate_money :: "money \<Rightarrow> string \<Rightarrow> field \<Rightarrow> (bool \<times> py_error)" where
  "validate_money m c fld =
     (currency m \<noteq> c, PortfolioProjectionError (Positions (Fill_currency_mismatch fld)))"

definition fill_money :: "money option \<Rightarrow> string \<Rightarrow> field \<Rightarrow> money result" where
  "fill_money m c fld =
     (case m of
        None \<Rightarrow> Inr (zero_money c)
      | Some m \<Rightarrow>
          bindE (guards
            [validate_money m c fld,
             (amount m < 0, PortfolioProjectionError (Positions (Fill_negative_amount fld)))])
            (\<lambda>_. Inr m))"

definition sign :: "rat \<Rightarrow> rat result" where
  "sign v =
     (if 0 < v then Inr 1 else if v < 0 then Inr (-1)
      else Inl (PortfolioProjectionError (Positions Zero_has_no_direction)))"

definition same_direction :: "rat \<Rightarrow> rat \<Rightarrow> bool result" where
  "same_direction l r = bindE (sign l) (\<lambda>a. bindE (sign r) (\<lambda>b. Inr (a = b)))"

definition signed_fill_quantity :: "fill \<Rightarrow> rat" where
  "signed_fill_quantity f = (case fl_side f of BUY \<Rightarrow> fl_quantity f | SELL \<Rightarrow> dneg (fl_quantity f))"

definition project_opened_at ::
  "rat \<Rightarrow> rat \<Rightarrow> instant option \<Rightarrow> fill \<Rightarrow> instant option result" where
  "project_opened_at q q' opened f =
     (if q' = 0 then Inr None
      else if q = 0 then Inr (Some (fl_exchange_occurred_at f))
      else case opened of
          None \<Rightarrow> Inr (Some (fl_exchange_occurred_at f))
        | Some t \<Rightarrow> bindE (same_direction q q') (\<lambda>same.
            Inr (Some (if same then min t (fl_exchange_occurred_at f)
                       else fl_exchange_occurred_at f))))"

definition project_updated_at :: "instant option \<Rightarrow> fill \<Rightarrow> instant" where
  "project_updated_at updated f =
     (case updated of None \<Rightarrow> fl_exchange_occurred_at f
      | Some t \<Rightarrow> max t (fl_exchange_occurred_at f))"

definition validate_existing_position ::
  "position \<Rightarrow> fill \<Rightarrow> string \<Rightarrow> ident option \<Rightarrow> (bool \<times> py_error) list" where
  "validate_existing_position p f c pid =
     (let bad = (\<lambda>e. PortfolioProjectionError (Positions e)) in
     [(pid \<noteq> None \<and> Some (ps_position_id p) \<noteq> pid, bad (Position_mismatch F_position_id)),
      (ps_exchange p \<noteq> fl_exchange f, bad (Position_mismatch F_exchange)),
      (ps_account_id p \<noteq> fl_account_id f, bad (Position_mismatch F_account_id)),
      (ps_market_id p \<noteq> fl_market_id f, bad (Position_mismatch F_market_id)),
      (ps_contract_id p \<noteq> fl_contract_id f, bad (Position_mismatch F_contract_id)),
      (ps_outcome_id p \<noteq> fl_outcome_id f, bad (Position_mismatch F_outcome_id)),
      (ps_quantity p = 0 \<and> ps_average_entry_price p \<noteq> None, bad Flat_position_has_average),
      (ps_quantity p \<noteq> 0 \<and> ps_average_entry_price p = None, bad Open_position_lacks_average),
      validate_money (ps_realized_pnl p) c F_realized_pnl,
      validate_money (ps_unrealized_pnl p) c F_unrealized_pnl,
      validate_money (ps_fees_paid p) c F_fees_paid,
      validate_money (ps_rebates_received p) c F_rebates_received])"

definition validate_fill_order :: "instant \<Rightarrow> fill \<Rightarrow> (bool \<times> py_error)" where
  "validate_fill_order updated f =
     (fl_exchange_occurred_at f < updated,
      PortfolioProjectionError (Positions Fill_older_than_position))"

definition derive_position_id :: "hasher \<Rightarrow> fill \<Rightarrow> ident" where
  "derive_position_id H f =
     ''pos_'' @ short_digest H (CMap
       [(''account_id'', CStr (fl_account_id f)),
        (''contract_id'', CStr (fl_contract_id f)),
        (''exchange'', CStr (fl_exchange f)),
        (''market_id'', CStr (fl_market_id f)),
        (''outcome_id'', CStr (fl_outcome_id f)),
        (''schema'', CStr ''pmrp.position_identity.v1'')])"

section \<open>The weighted-average step\<close>

record weighted_average =
  wa_quantity :: rat
  wa_average_entry_price :: "rat option"
  wa_realized_trading_pnl :: rat
  wa_closed_quantity :: rat
  wa_opened_quantity :: rat
  wa_closed_cost_basis :: rat
  wa_closed_trade_value :: rat
  wa_opened_notional :: rat

definition apply_weighted_average_fill ::
  "rat \<Rightarrow> rat option \<Rightarrow> fill \<Rightarrow> weighted_average result" where
  "apply_weighted_average_fill q avg f =
     (let fq = signed_fill_quantity f; q' = dadd q fq; price = fl_price f in
      if q = 0 then
        Inr \<lparr>wa_quantity = q', wa_average_entry_price = Some price,
             wa_realized_trading_pnl = 0, wa_closed_quantity = 0,
             wa_opened_quantity = dabs fq, wa_closed_cost_basis = 0,
             wa_closed_trade_value = 0, wa_opened_notional = dmul (dabs fq) price\<rparr>
      else case avg of
        None \<Rightarrow> Inl (PortfolioProjectionError (Positions Open_position_lacks_average))
      | Some a \<Rightarrow> bindE (same_direction q fq) (\<lambda>same.
          if same then
            Inr \<lparr>wa_quantity = q',
                 wa_average_entry_price =
                   Some (ddiv (dadd (dmul (dabs q) a) (dmul (dabs fq) price)) (dabs q')),
                 wa_realized_trading_pnl = 0, wa_closed_quantity = 0,
                 wa_opened_quantity = dabs fq, wa_closed_cost_basis = 0,
                 wa_closed_trade_value = 0, wa_opened_notional = dmul (dabs fq) price\<rparr>
          else
            bindE (sign q) (\<lambda>sg.
            let closed = min (dabs q) (dabs fq);
                realized = dmul (dmul closed (dsub price a)) sg;
                opened = max (dsub (dabs fq) (dabs q)) 0;
                result = (\<lambda>average. \<lparr>wa_quantity = q', wa_average_entry_price = average,
                   wa_realized_trading_pnl = realized, wa_closed_quantity = closed,
                   wa_opened_quantity = opened, wa_closed_cost_basis = dmul closed a,
                   wa_closed_trade_value = dmul closed price,
                   wa_opened_notional = dmul opened price\<rparr>)
            in if q' = 0 then Inr (result None)
               else bindE (same_direction q q') (\<lambda>still.
                 Inr (result (Some (if still then a else price)))))))"

section \<open>Applying a fill\<close>

record position_projection =
  pp_position :: position
  pp_realized_trading_pnl :: money
  pp_fee :: money
  pp_rebate :: money
  pp_trade_notional :: money
  pp_closed_quantity :: rat
  pp_opened_quantity :: rat
  pp_closed_cost_basis :: money
  pp_closed_trade_value :: money
  pp_opened_notional :: money

text \<open>The locals \<^verbatim>\<open>existing_*\<close>: what the projection starts from.\<close>

fun existing_quantity :: "position option \<Rightarrow> rat" where
  "existing_quantity None = 0"
| "existing_quantity (Some p) = ps_quantity p"

fun existing_average :: "position option \<Rightarrow> rat option" where
  "existing_average None = None"
| "existing_average (Some p) = ps_average_entry_price p"

fun existing_opened_at :: "position option \<Rightarrow> instant option" where
  "existing_opened_at None = None"
| "existing_opened_at (Some p) = ps_opened_at p"

fun existing_last_updated_at :: "position option \<Rightarrow> instant option" where
  "existing_last_updated_at None = None"
| "existing_last_updated_at (Some p) = Some (ps_last_updated_at p)"

fun existing_version :: "position option \<Rightarrow> int" where
  "existing_version None = 0"
| "existing_version (Some p) = ps_aggregate_version p"

fun existing_money :: "(position \<Rightarrow> money) \<Rightarrow> string \<Rightarrow> position option \<Rightarrow> money" where
  "existing_money sel c None = zero_money c"
| "existing_money sel c (Some p) = sel p"

fun resolved_position_id :: "hasher \<Rightarrow> fill \<Rightarrow> ident option \<Rightarrow> position option \<Rightarrow> ident" where
  "resolved_position_id H f pid (Some p) = ps_position_id p"
| "resolved_position_id H f (Some i) None = i"
| "resolved_position_id H f None None = derive_position_id H f"

fun existing_checks ::
  "position option \<Rightarrow> fill \<Rightarrow> string \<Rightarrow> ident option \<Rightarrow> (bool \<times> py_error) list" where
  "existing_checks None f c pid = []"
| "existing_checks (Some p) f c pid =
     validate_existing_position p f c pid @ [validate_fill_order (ps_last_updated_at p) f]"

text \<open>The two constructor calls at the end of the function.\<close>

definition projected_position ::
  "hasher \<Rightarrow> position option \<Rightarrow> fill \<Rightarrow> string \<Rightarrow> ident option \<Rightarrow> money \<Rightarrow> money \<Rightarrow>
   weighted_average \<Rightarrow> instant option \<Rightarrow> position" where
  "projected_position H position f c pid fee rebate w opened_at =
     \<lparr>ps_position_id = resolved_position_id H f pid position,
      ps_exchange = fl_exchange f, ps_account_id = fl_account_id f,
      ps_market_id = fl_market_id f, ps_contract_id = fl_contract_id f,
      ps_outcome_id = fl_outcome_id f, ps_quantity = wa_quantity w,
      ps_average_entry_price = wa_average_entry_price w,
      ps_realized_pnl =
        \<lparr>amount = dadd (amount (existing_money ps_realized_pnl c position))
                        (wa_realized_trading_pnl w), currency = c\<rparr>,
      ps_unrealized_pnl = zero_money c,
      ps_fees_paid =
        \<lparr>amount = dadd (amount (existing_money ps_fees_paid c position)) (amount fee),
         currency = c\<rparr>,
      ps_rebates_received =
        \<lparr>amount = dadd (amount (existing_money ps_rebates_received c position)) (amount rebate),
         currency = c\<rparr>,
      ps_opened_at = opened_at,
      ps_last_updated_at = project_updated_at (existing_last_updated_at position) f,
      ps_aggregate_version = existing_version position + 1\<rparr>"

definition projection_result ::
  "position \<Rightarrow> fill \<Rightarrow> string \<Rightarrow> money \<Rightarrow> money \<Rightarrow> weighted_average \<Rightarrow> position_projection" where
  "projection_result projected f c fee rebate w =
     \<lparr>pp_position = projected,
      pp_realized_trading_pnl = \<lparr>amount = wa_realized_trading_pnl w, currency = c\<rparr>,
      pp_fee = fee, pp_rebate = rebate,
      pp_trade_notional = \<lparr>amount = dmul (fl_quantity f) (fl_price f), currency = c\<rparr>,
      pp_closed_quantity = wa_closed_quantity w,
      pp_opened_quantity = wa_opened_quantity w,
      pp_closed_cost_basis = \<lparr>amount = wa_closed_cost_basis w, currency = c\<rparr>,
      pp_closed_trade_value = \<lparr>amount = wa_closed_trade_value w, currency = c\<rparr>,
      pp_opened_notional = \<lparr>amount = wa_opened_notional w, currency = c\<rparr>\<rparr>"

definition apply_fill_to_position ::
  "hasher \<Rightarrow> position option \<Rightarrow> fill \<Rightarrow> string \<Rightarrow> ident option \<Rightarrow> position_projection result" where
  "apply_fill_to_position H position f cur pid =
     bindE (validate_currency cur) (\<lambda>c.
     bindE (fill_money (fl_fee f) c F_fee) (\<lambda>fee.
     bindE (fill_money (fl_rebate f) c F_rebate) (\<lambda>rebate.
     bindE (guards (existing_checks position f c pid)) (\<lambda>_.
     bindE (apply_weighted_average_fill (existing_quantity position) (existing_average position) f) (\<lambda>w.
     bindE (project_opened_at (existing_quantity position) (wa_quantity w)
              (existing_opened_at position) f) (\<lambda>opened_at.
     bindE (mk_position (projected_position H position f c pid fee rebate w opened_at)) (\<lambda>projected.
     Inr (projection_result projected f c fee rebate w))))))))"

section \<open>The three shapes of the step\<close>

lemma sign_eq: "v \<noteq> 0 \<Longrightarrow> sign v = Inr (sgn v)"
  by (simp add: sign_def sgn_if)

lemma same_direction_eq: "l \<noteq> 0 \<Longrightarrow> r \<noteq> 0 \<Longrightarrow> same_direction l r = Inr (sgn l = sgn r)"
  by (simp add: same_direction_def sign_eq)

lemma signed_fill_quantity_sign:
  assumes "fill_valid f"
  shows "signed_fill_quantity f \<noteq> 0"
    and "sgn (signed_fill_quantity f) = (case fl_side f of BUY \<Rightarrow> 1 | SELL \<Rightarrow> -1)"
  using assms by (auto simp: signed_fill_quantity_def fill_valid_def sgn_if split: side.splits)

text \<open>The three shapes of the step, once the fill is known to be valid.\<close>

lemma wa_open:
  "apply_weighted_average_fill 0 avg f =
     Inr \<lparr>wa_quantity = dadd 0 (signed_fill_quantity f), wa_average_entry_price = Some (fl_price f),
          wa_realized_trading_pnl = 0, wa_closed_quantity = 0,
          wa_opened_quantity = dabs (signed_fill_quantity f), wa_closed_cost_basis = 0,
          wa_closed_trade_value = 0,
          wa_opened_notional = dmul (dabs (signed_fill_quantity f)) (fl_price f)\<rparr>"
  by (simp add: apply_weighted_average_fill_def Let_def)

lemma wa_increase:
  assumes "fill_valid f" "q \<noteq> 0" "sgn q = sgn (signed_fill_quantity f)"
  shows "apply_weighted_average_fill q (Some a) f =
     (let fq = signed_fill_quantity f; q' = dadd q fq in
      Inr \<lparr>wa_quantity = q',
          wa_average_entry_price =
            Some (ddiv (dadd (dmul (dabs q) a) (dmul (dabs fq) (fl_price f))) (dabs q')),
          wa_realized_trading_pnl = 0, wa_closed_quantity = 0,
          wa_opened_quantity = dabs fq, wa_closed_cost_basis = 0,
          wa_closed_trade_value = 0, wa_opened_notional = dmul (dabs fq) (fl_price f)\<rparr>)"
  using assms signed_fill_quantity_sign(1) [OF assms(1)]
  by (simp add: apply_weighted_average_fill_def Let_def same_direction_eq)

lemma wa_reduce:
  assumes "fill_valid f" "q \<noteq> 0" "sgn q \<noteq> sgn (signed_fill_quantity f)"
  shows "apply_weighted_average_fill q (Some a) f =
     (let fq = signed_fill_quantity f; q' = dadd q fq; price = fl_price f;
          closed = min (dabs q) (dabs fq); opened = max (dsub (dabs fq) (dabs q)) 0 in
      Inr \<lparr>wa_quantity = q',
          wa_average_entry_price =
            (if q' = 0 then None else Some (if sgn q = sgn q' then a else price)),
          wa_realized_trading_pnl = dmul (dmul closed (dsub price a)) (sgn q),
          wa_closed_quantity = closed, wa_opened_quantity = opened,
          wa_closed_cost_basis = dmul closed a, wa_closed_trade_value = dmul closed price,
          wa_opened_notional = dmul opened price\<rparr>)"
  using assms signed_fill_quantity_sign(1) [OF assms(1)]
  by (simp add: apply_weighted_average_fill_def Let_def same_direction_eq sign_eq)

lemma wa_exists:
  assumes "fill_valid f" "q \<noteq> 0 \<Longrightarrow> avg \<noteq> None"
  obtains w where "apply_weighted_average_fill q avg f = Inr w"
proof (cases "q = 0")
  case True
  then show ?thesis using that wa_open by blast
next
  case False
  with assms(2) obtain a where "avg = Some a" by auto
  with False that show ?thesis
    by (cases "sgn q = sgn (signed_fill_quantity f)")
      (auto simp: wa_increase [OF assms(1)] wa_reduce [OF assms(1)] Let_def)
qed

lemma same_sign_sum_nonzero: "q \<noteq> 0 \<Longrightarrow> sgn q = sgn (x::rat) \<Longrightarrow> q + x \<noteq> 0"
  by (auto simp: sgn_if split: if_splits)

lemma wa_shape:
  assumes "fill_valid f" "pred_option (\<lambda>a. 0 \<le> a) avg"
    and "apply_weighted_average_fill q avg f = Inr w"
  shows "wa_quantity w = dadd q (signed_fill_quantity f)"
    and "wa_quantity w = 0 \<longleftrightarrow> wa_average_entry_price w = None"
    and "pred_option (\<lambda>a. 0 \<le> a) (wa_average_entry_price w)"
    and "0 \<le> wa_closed_quantity w" "0 \<le> wa_opened_quantity w"
    and "0 \<le> wa_closed_cost_basis w" "0 \<le> wa_closed_trade_value w" "0 \<le> wa_opened_notional w"
proof -
  have fq: "signed_fill_quantity f \<noteq> 0" using assms(1) by (rule signed_fill_quantity_sign)
  have price: "0 \<le> fl_price f" using assms(1) by (simp add: fill_valid_def)
  have *: "wa_quantity w = dadd q (signed_fill_quantity f) \<and>
     (wa_quantity w = 0 \<longleftrightarrow> wa_average_entry_price w = None) \<and>
     pred_option (\<lambda>a. 0 \<le> a) (wa_average_entry_price w) \<and>
     0 \<le> wa_closed_quantity w \<and> 0 \<le> wa_opened_quantity w \<and>
     0 \<le> wa_closed_cost_basis w \<and> 0 \<le> wa_closed_trade_value w \<and> 0 \<le> wa_opened_notional w"
  proof (cases "q = 0")
    case True
    with assms(3) have "Inr w = apply_weighted_average_fill 0 avg f" by simp
    then show ?thesis using fq price by (simp add: wa_open True)
  next
    case False
    then obtain a where a: "avg = Some a"
      using assms(3) by (cases avg) (auto simp: apply_weighted_average_fill_def Let_def)
    then have a0: "0 \<le> a" using assms(2) by simp
    show ?thesis
    proof (cases "sgn q = sgn (signed_fill_quantity f)")
      case True
      show ?thesis
        using assms(3) same_sign_sum_nonzero [OF False True] a0 price
        by (auto simp: a wa_increase [OF assms(1) False True] Let_def
            intro!: divide_nonneg_nonneg add_nonneg_nonneg)
    next
      case False2: False
      show ?thesis
        using assms(3) a0 price
        by (auto simp: a wa_reduce [OF assms(1) False False2] Let_def split: if_splits)
    qed
  qed
  then show "wa_quantity w = dadd q (signed_fill_quantity f)"
    "wa_quantity w = 0 \<longleftrightarrow> wa_average_entry_price w = None"
    "pred_option (\<lambda>a. 0 \<le> a) (wa_average_entry_price w)"
    "0 \<le> wa_closed_quantity w" "0 \<le> wa_opened_quantity w"
    "0 \<le> wa_closed_cost_basis w" "0 \<le> wa_closed_trade_value w" "0 \<le> wa_opened_notional w"
    by blast+
qed

section \<open>When a fill is accepted\<close>

fun money_accepted :: "money option \<Rightarrow> string \<Rightarrow> bool" where
  "money_accepted None c = True"
| "money_accepted (Some m) c = (currency m = c \<and> 0 \<le> amount m)"

fun money_or_zero :: "money option \<Rightarrow> string \<Rightarrow> money" where
  "money_or_zero None c = zero_money c"
| "money_or_zero (Some m) c = m"

definition fill_accepted :: "position option \<Rightarrow> fill \<Rightarrow> string \<Rightarrow> ident option \<Rightarrow> bool" where
  "fill_accepted position f c pid \<longleftrightarrow>
     valid_currency c \<and> money_accepted (fl_fee f) c \<and> money_accepted (fl_rebate f) c \<and>
     list_all (\<lambda>g. \<not> fst g) (existing_checks position f c pid)"

lemma fill_money_iff:
  "fill_money m c fld = Inr r \<longleftrightarrow> money_accepted m c \<and> r = money_or_zero m c"
  by (cases m) (auto simp: fill_money_def validate_money_def)

lemma project_opened_at_exists:
  "\<exists>t. project_opened_at q q' opened f = Inr t"
  by (auto simp: project_opened_at_def same_direction_eq split: option.splits)

lemma project_opened_at_facts:
  assumes "project_opened_at q q' opened f = Inr t"
  shows "q' = 0 \<longleftrightarrow> t = None" and "pred_option (\<lambda>t. t \<le> project_updated_at updated f) t"
  using assms
  by (auto simp: project_opened_at_def project_updated_at_def same_direction_eq
      split: option.splits if_splits)

lemma money_or_zero_nonneg: "money_accepted m c \<Longrightarrow> 0 \<le> amount (money_or_zero m c)"
  by (cases m) auto

lemma existing_average_nonneg:
  "pred_option position_valid position \<Longrightarrow> pred_option (\<lambda>a. 0 \<le> a) (existing_average position)"
  by (cases position) (auto simp: position_valid_iff)

lemma existing_average_present:
  "list_all (\<lambda>g. \<not> fst g) (existing_checks position f c pid) \<Longrightarrow>
     existing_quantity position \<noteq> 0 \<Longrightarrow> existing_average position \<noteq> None"
  by (cases position) (auto simp: validate_existing_position_def Let_def)

text \<open>A successful application, with every intermediate value.\<close>

lemma apply_fill_Inr_iff:
  "apply_fill_to_position H position f c pid = Inr r \<longleftrightarrow>
     fill_accepted position f c pid \<and>
     (\<exists>w t. apply_weighted_average_fill (existing_quantity position) (existing_average position) f = Inr w \<and>
        project_opened_at (existing_quantity position) (wa_quantity w) (existing_opened_at position) f = Inr t \<and>
        position_valid (projected_position H position f c pid (money_or_zero (fl_fee f) c)
          (money_or_zero (fl_rebate f) c) w t) \<and>
        r = projection_result (projected_position H position f c pid (money_or_zero (fl_fee f) c)
          (money_or_zero (fl_rebate f) c) w t) f c (money_or_zero (fl_fee f) c)
          (money_or_zero (fl_rebate f) c) w)"
proof -
  have guards_iff: "guards gs = Inr u \<longleftrightarrow> list_all (\<lambda>g. \<not> fst g) gs" for gs :: "(bool \<times> py_error) list" and u
    by (auto simp: guards_ok_iff list_all_iff)
  show ?thesis
  proof (cases "valid_currency c")
    case True
    show ?thesis
      unfolding apply_fill_to_position_def True bindE_simps bindE_eq_Inr fill_money_iff
        mk_position_cases guards_iff fill_accepted_def sum.inject
      by (intro iffI; elim exE conjE; hypsubst) blast+
  next
    case False
    then have "\<exists>e. validate_currency c = Inl e"
      by (cases "validate_currency c") (auto dest: validate_currency_ok)
    with False show ?thesis by (auto simp: apply_fill_to_position_def fill_accepted_def)
  qed
qed

lemmas projection_sels [simp] = projection_result_def projected_position_def

lemma apply_fill_ok_iff:
  assumes "fill_valid f" and "pred_option position_valid position"
  shows "(\<exists>r. apply_fill_to_position H position f c pid = Inr r) \<longleftrightarrow> fill_accepted position f c pid"
proof
  assume "\<exists>r. apply_fill_to_position H position f c pid = Inr r"
  then show "fill_accepted position f c pid" by (simp only: apply_fill_Inr_iff) blast
next
  assume acc: "fill_accepted position f c pid"
  then have present: "existing_quantity position \<noteq> 0 \<Longrightarrow> existing_average position \<noteq> None"
    by (auto simp: fill_accepted_def dest: existing_average_present)
  obtain w where w: "apply_weighted_average_fill (existing_quantity position)
      (existing_average position) f = Inr w"
    by (rule wa_exists [OF assms(1) present])
  obtain t where t: "project_opened_at (existing_quantity position) (wa_quantity w)
      (existing_opened_at position) f = Inr t"
    using project_opened_at_exists by blast
  have nonneg: "0 \<le> amount (existing_money ps_fees_paid c position)"
    "0 \<le> amount (existing_money ps_rebates_received c position)" "0 \<le> existing_version position"
    using assms(2) by (cases position; simp add: position_valid_iff)+
  have "position_valid (projected_position H position f c pid (money_or_zero (fl_fee f) c)
      (money_or_zero (fl_rebate f) c) w t)"
    using acc assms(1) nonneg
      wa_shape(3) [OF assms(1) existing_average_nonneg [OF assms(2)] w]
      project_opened_at_facts(2) [OF t, of "existing_last_updated_at position"]
      money_or_zero_nonneg [of "fl_fee f" c] money_or_zero_nonneg [of "fl_rebate f" c]
    by (simp add: position_valid_iff fill_accepted_def fill_valid_def)
  with acc w t show "\<exists>r. apply_fill_to_position H position f c pid = Inr r"
    by (simp only: apply_fill_Inr_iff) blast
qed

text \<open>
  C25: \<open>apply_fill_to_position\<close> succeeds exactly for the accepted fills: the currency is valid, fee
  and rebate are in it and nonnegative, and an existing position belongs to the same account and
  contract, is consistent, uses the same currency and is not newer than the fill. In particular
  none of the internal checks (a zero direction, a missing average, the constructor of the new
  position) can fire on valid inputs.
\<close>

theorem apply_fill_succeeds_iff:
  assumes "fill_valid f" and "pred_option position_valid position"
  shows "(\<exists>r. apply_fill_to_position H position f c pid = Inr r) \<longleftrightarrow> fill_accepted position f c pid"
  using assms by (rule apply_fill_ok_iff)

section \<open>What an accepted fill makes of a position\<close>

text \<open>
  The projected position is valid again (the constructor's constraints), is flat exactly when
  it has no average entry price and exactly when it has no opening time, carries the signed sum of
  quantities, the identity of the fill, the fill's exchange time as its horizon, and the next
  version; realized PnL, fees and rebates accumulate and unrealized PnL is reset.
\<close>

theorem apply_fill_result:
  assumes "fill_valid f" and "pred_option position_valid position"
    and "apply_fill_to_position H position f c pid = Inr r"
  shows "position_valid (pp_position r) \<and>
    (ps_quantity (pp_position r) = 0 \<longleftrightarrow> ps_average_entry_price (pp_position r) = None) \<and>
    (ps_quantity (pp_position r) = 0 \<longleftrightarrow> ps_opened_at (pp_position r) = None) \<and>
    ps_quantity (pp_position r) = dadd (existing_quantity position) (signed_fill_quantity f) \<and>
    ps_last_updated_at (pp_position r) = fl_exchange_occurred_at f \<and>
    ps_aggregate_version (pp_position r) = existing_version position + 1 \<and>
    ps_market_id (pp_position r) = fl_market_id f \<and>
    ps_contract_id (pp_position r) = fl_contract_id f \<and>
    amount (ps_realized_pnl (pp_position r)) =
      dadd (amount (existing_money ps_realized_pnl c position)) (amount (pp_realized_trading_pnl r)) \<and>
    amount (ps_fees_paid (pp_position r)) =
      dadd (amount (existing_money ps_fees_paid c position)) (amount (pp_fee r)) \<and>
    amount (ps_unrealized_pnl (pp_position r)) = 0"
proof -
  from assms(3) obtain w t where acc: "fill_accepted position f c pid"
    and w: "apply_weighted_average_fill (existing_quantity position) (existing_average position) f = Inr w"
    and t: "project_opened_at (existing_quantity position) (wa_quantity w)
      (existing_opened_at position) f = Inr t"
    and valid: "position_valid (pp_position r)"
    and r: "r = projection_result (projected_position H position f c pid (money_or_zero (fl_fee f) c)
          (money_or_zero (fl_rebate f) c) w t) f c (money_or_zero (fl_fee f) c)
          (money_or_zero (fl_rebate f) c) w"
    unfolding apply_fill_Inr_iff by auto
  note shape = wa_shape [OF assms(1) existing_average_nonneg [OF assms(2)] w]
  have "project_updated_at (existing_last_updated_at position) f = fl_exchange_occurred_at f"
    using acc by (cases position) (auto simp: fill_accepted_def project_updated_at_def validate_fill_order_def)
  then show ?thesis
    using valid shape(1,2) project_opened_at_facts(1) [OF t] by (simp add: r)
qed

section \<open>Closing and opening\<close>

text \<open>Operands and results of the step on a fixed-point grid are exact.\<close>

lemma signed_fill_quantity_exact:
  assumes "dec_fits 28 (fl_quantity f)"
  shows "signed_fill_quantity f = (case fl_side f of BUY \<Rightarrow> fl_quantity f | SELL \<Rightarrow> - fl_quantity f)"
  using assms by (simp add: signed_fill_quantity_def dneg_exact split: side.splits)

lemma wa_closed_opened:
  assumes "fill_valid f" and "on_grid s n q" and "on_grid s n (fl_quantity f)" and "2 * n \<le> 10 ^ 28"
    and w: "apply_weighted_average_fill q avg f = Inr w"
  shows "wa_quantity w = q + (case fl_side f of BUY \<Rightarrow> fl_quantity f | SELL \<Rightarrow> - fl_quantity f)"
    and "wa_closed_quantity w + wa_opened_quantity w = fl_quantity f"
    and "wa_closed_quantity w \<le> \<bar>q\<bar>"
    and "0 < wa_closed_quantity w \<and> 0 < wa_opened_quantity w \<Longrightarrow> wa_closed_quantity w = \<bar>q\<bar>"
proof -
  have n: "n \<le> 10 ^ 28" using assms(4) by linarith
  have pos: "0 < fl_quantity f" using assms(1) by (simp add: fill_valid_def)
  have fits: "dec_fits 28 q" "dec_fits 28 (fl_quantity f)"
    using on_grid_fits [OF assms(2) n] on_grid_fits [OF assms(3) n] .
  define fq where "fq = (case fl_side f of BUY \<Rightarrow> fl_quantity f | SELL \<Rightarrow> - fl_quantity f)"
  have sfq: "signed_fill_quantity f = fq" using signed_fill_quantity_exact [OF fits(2)] by (simp add: fq_def)
  have fq: "on_grid s n fq" "dec_fits 28 fq" "\<bar>fq\<bar> = fl_quantity f"
    using assms(3) fits(2) pos by (auto simp: fq_def split: side.splits)
  have sum: "dadd q fq = q + fq"
    using on_grid_fits [OF on_grid_add [OF assms(2) fq(1)]] assms(4)
    by (simp add: dadd_def d28.rnd_exact mult_2)
  have diff: "dsub \<bar>fq\<bar> \<bar>q\<bar> = \<bar>fq\<bar> - \<bar>q\<bar>"
    using on_grid_fits [OF on_grid_diff [of s n "\<bar>fq\<bar>" n "\<bar>q\<bar>"]] assms(2,4) fq(1)
    by (simp add: dsub_def d28.rnd_exact mult_2)
  note ex = dabs_exact [OF fits(1)] dabs_exact [OF fq(2)]
  have *: "wa_quantity w = q + fq \<and> wa_closed_quantity w + wa_opened_quantity w = fl_quantity f \<and>
     wa_closed_quantity w \<le> \<bar>q\<bar> \<and>
     (0 < wa_closed_quantity w \<and> 0 < wa_opened_quantity w \<longrightarrow> wa_closed_quantity w = \<bar>q\<bar>)"
  proof (cases "q = 0")
    case True
    with w show ?thesis using fq sum by (auto simp: wa_open sfq ex)
  next
    case False
    then obtain a where a: "avg = Some a"
      using w by (cases avg) (auto simp: apply_weighted_average_fill_def Let_def)
    show ?thesis
    proof (cases "sgn q = sgn (signed_fill_quantity f)")
      case True
      show ?thesis
        using w fq sum by (auto simp: a wa_increase [OF assms(1) False True] Let_def sfq ex)
    next
      case opp: False
      show ?thesis
        using w fq(3) sum diff
        by (auto simp: a wa_reduce [OF assms(1) False opp] Let_def sfq ex min_def max_def
            split: if_splits)
    qed
  qed
  then show "wa_quantity w = q + (case fl_side f of BUY \<Rightarrow> fl_quantity f | SELL \<Rightarrow> - fl_quantity f)"
    "wa_closed_quantity w + wa_opened_quantity w = fl_quantity f" "wa_closed_quantity w \<le> \<bar>q\<bar>"
    "0 < wa_closed_quantity w \<and> 0 < wa_opened_quantity w \<Longrightarrow> wa_closed_quantity w = \<bar>q\<bar>"
    by (auto simp: fq_def)
qed

text \<open>The cost basis of an increased position, with the average rounded to 28 digits.\<close>

lemma wa_increase_cost_basis:
  assumes "fill_valid f" "q \<noteq> 0" "sgn q = sgn (signed_fill_quantity f)" "0 \<le> a"
    and w: "apply_weighted_average_fill q (Some a) f = Inr w"
    and a': "wa_average_entry_price w = Some a'"
  shows "\<bar>\<bar>wa_quantity w\<bar> * a' - (\<bar>q\<bar> * a + fl_quantity f * fl_price f)\<bar>
     \<le> (\<bar>q\<bar> * a + fl_quantity f * fl_price f) / 10 ^ 26"
proof (rule near_6)
  let ?fq = "signed_fill_quantity f" and ?p = "fl_price f"
  have p: "0 \<le> ?p" and qty: "0 < fl_quantity f" using assms(1) by (auto simp: fill_valid_def)
  then show "0 \<le> \<bar>q\<bar> * a + fl_quantity f * ?p" using assms(4) by simp
  have w': "wa_quantity w = dadd q ?fq"
    "a' = ddiv (dadd (dmul (dabs q) a) (dmul (dabs ?fq) ?p)) (dabs (dadd q ?fq))"
    using w a' by (auto simp: wa_increase [OF assms(1-3)] Let_def)
  define N where "N = dadd (dmul (dabs q) a) (dmul (dabs ?fq) ?p)"
  have D: "dabs (dadd q ?fq) = \<bar>wa_quantity w\<bar>" unfolding w' by (rule dabs_exact) simp
  have nz: "\<bar>wa_quantity w\<bar> \<noteq> 0"
    using same_sign_sum_nonzero [OF assms(2,3)] by (simp add: w')
  have q1: "near 2 (dmul (dabs q) a) (\<bar>q\<bar> * a)"
    using near_round [OF near_mult [OF near_round [OF near_refl [of "\<bar>q\<bar>"]] assms(4)]] assms(4)
    by (simp add: dmul_def dabs_def numeral_2_eq_2)
  have "near 1 \<bar>?fq\<bar> (fl_quantity f)"
  proof (cases "fl_side f")
    case BUY
    then show ?thesis
      using qty near_weaken [OF near_refl [of "fl_quantity f"]] by (simp add: signed_fill_quantity_def)
  next
    case SELL
    then have "\<bar>?fq\<bar> = dec_round 28 (fl_quantity f)"
      using qty by (simp add: signed_fill_quantity_def dneg_def dec_round_minus d28.rnd_nonneg)
    then show ?thesis using near_round [OF near_refl [of "fl_quantity f"]] qty by simp
  qed
  then have "near 3 (dmul (dabs ?fq) ?p) (fl_quantity f * ?p)"
    using near_round [OF near_mult [OF near_round [of 1 "\<bar>?fq\<bar>" "fl_quantity f"] p]] qty p
    by (simp add: dmul_def dabs_def numeral_3_eq_3 numeral_2_eq_2)
  then have "near 3 (dmul (dabs q) a + dmul (dabs ?fq) ?p) (\<bar>q\<bar> * a + fl_quantity f * ?p)"
    using near_weaken [OF q1, of 3] assms(4) by (intro near_add) auto
  then have "near (Suc 3) N (\<bar>q\<bar> * a + fl_quantity f * ?p)"
    unfolding N_def dadd_def using assms(4) p qty by (intro near_round) simp_all
  then have N: "near 4 N (\<bar>q\<bar> * a + fl_quantity f * ?p)" by (simp only: Suc_numeral add_num_simps)
  have N0: "0 \<le> N" using near_nonneg [OF N] assms(4) p qty by simp
  have "near 1 (dec_round 28 (N / \<bar>wa_quantity w\<bar>)) (N / \<bar>wa_quantity w\<bar>)"
    using near_round [OF near_refl [of "N / \<bar>wa_quantity w\<bar>"]] N0 by simp
  then have "near 1 (dec_round 28 (N / \<bar>wa_quantity w\<bar>) * \<bar>wa_quantity w\<bar>) N"
    using near_mult [of 1 _ "N / \<bar>wa_quantity w\<bar>" "\<bar>wa_quantity w\<bar>"] nz by simp
  then have "near 1 (\<bar>wa_quantity w\<bar> * a') N"
    by (simp add: w'(2) D N_def [symmetric] ddiv_def mult.commute)
  note n5 = near_trans [OF this N]
  show "near 6 (\<bar>wa_quantity w\<bar> * a') (\<bar>q\<bar> * a + fl_quantity f * ?p)"
    using assms(4) p qty by (intro near_weaken [OF n5]) simp_all
qed

text \<open>A reducing fill on a fixed-point grid: every amount is exact, and the books balance.\<close>

lemma wa_reduce_exact:
  assumes "fill_valid f" "q \<noteq> 0" "sgn q \<noteq> sgn (signed_fill_quantity f)"
    and grid: "on_grid s n q" "on_grid s n (fl_quantity f)" "on_grid t m a" "on_grid t m (fl_price f)"
    and bound: "2 * n \<le> 10 ^ 28" "2 * n * m \<le> 10 ^ 28"
    and w: "apply_weighted_average_fill q (Some a) f = Inr w"
  shows "wa_closed_cost_basis w = wa_closed_quantity w * a"
    and "wa_closed_trade_value w = wa_closed_quantity w * fl_price f"
    and "wa_opened_notional w = wa_opened_quantity w * fl_price f"
    and "wa_realized_trading_pnl w = wa_closed_quantity w * (fl_price f - a) * sgn q"
    and "wa_quantity w * (case wa_average_entry_price w of None \<Rightarrow> 0 | Some a' \<Rightarrow> a') =
      q * a + (wa_quantity w - q) * fl_price f + wa_realized_trading_pnl w"
    and "on_grid s n (wa_closed_quantity w)" "on_grid s n (wa_opened_quantity w)"
proof -
  have n: "n \<le> 10 ^ 28" using bound(1) by linarith
  have pos: "0 < fl_quantity f" using assms(1) by (simp add: fill_valid_def)
  have fits: "dec_fits 28 q" "dec_fits 28 (fl_quantity f)"
    using on_grid_fits [OF grid(1) n] on_grid_fits [OF grid(2) n] .
  define fq where "fq = signed_fill_quantity f"
  have fq: "on_grid s n fq" "dec_fits 28 fq" "\<bar>fq\<bar> = fl_quantity f"
    using grid(2) fits(2) pos signed_fill_quantity_exact [OF fits(2)]
    by (auto simp: fq_def split: side.splits)
  have sum: "dadd q fq = q + fq"
    using on_grid_fits [OF on_grid_add [OF grid(1) fq(1)]] bound(1)
    by (simp add: dadd_def d28.rnd_exact mult_2)
  have diff: "dsub \<bar>fq\<bar> \<bar>q\<bar> = \<bar>fq\<bar> - \<bar>q\<bar>"
    using on_grid_fits [OF on_grid_diff [of s n "\<bar>fq\<bar>" n "\<bar>q\<bar>"]] bound(1) grid(1) fq(1)
    by (simp add: dsub_def d28.rnd_exact mult_2)
  have closed_opened: "wa_closed_quantity w = min \<bar>q\<bar> \<bar>fq\<bar>" "wa_opened_quantity w = max (\<bar>fq\<bar> - \<bar>q\<bar>) 0"
    using w diff by (auto simp: wa_reduce [OF assms(1-3)] Let_def fq_def [symmetric]
        dabs_exact [OF fits(1)] dabs_exact [OF fq(2)])
  have co_grid: "on_grid s n (wa_closed_quantity w)" "on_grid s n (wa_opened_quantity w)"
  proof -
    show "on_grid s n (wa_closed_quantity w)"
      unfolding closed_opened using grid(1) fq(1) by (intro on_grid_min) simp_all
    have "on_grid s n (\<bar>fq\<bar> - \<bar>q\<bar>)" if "\<bar>q\<bar> \<le> \<bar>fq\<bar>"
    proof -
      have "on_grid s (n + n) (\<bar>fq\<bar> - \<bar>q\<bar>)" using grid(1) fq(1) by (intro on_grid_diff) simp_all
      then show ?thesis by (rule on_grid_smaller [OF _ fq(1)]) (use that in auto)
    qed
    then show "on_grid s n (wa_opened_quantity w)"
      unfolding closed_opened by (cases "\<bar>q\<bar> \<le> \<bar>fq\<bar>") (auto simp: max_def on_grid_zero)
  qed
  have prod: "dmul x y = x * y" if "on_grid s n x" "on_grid t (2 * m) y" for x y
    using on_grid_fits [OF on_grid_mult [OF that]] bound(2)
    by (simp add: dmul_def d28.rnd_exact mult.assoc mult.left_commute)
  have wide: "on_grid t (2 * m) a" "on_grid t (2 * m) (fl_price f)"
    using on_grid_mono [OF grid(3), of "2 * m"] on_grid_mono [OF grid(4), of "2 * m"] by simp_all
  have gap: "on_grid t (2 * m) (fl_price f - a)" using on_grid_diff [OF grid(4,3)] by (simp add: mult_2)
  have "n \<noteq> 0"
  proof
    assume "n = 0"
    with grid(1) have "\<bar>q\<bar> * 10 ^ s \<le> 0" by (simp add: on_grid_def)
    moreover have "0 < \<bar>q\<bar> * 10 ^ s" using assms(2) by simp
    ultimately show False by linarith
  qed
  then have "2 * m \<le> 2 * n * m" by simp
  then have m: "2 * m \<le> 10 ^ 28" using bound(2) by linarith
  have sub: "dsub (fl_price f) a = fl_price f - a"
    using on_grid_fits [OF gap m] by (simp add: dsub_def d28.rnd_exact)
  have sgn_mul: "dmul x (sgn q) = x * sgn q" if "dec_fits 28 x" for x
    using that assms(2) by (auto simp: dmul_def d28.rnd_exact sgn_if)
  let ?c = "wa_closed_quantity w" and ?o = "wa_opened_quantity w"
  have fields: "wa_closed_cost_basis w = dmul ?c a" "wa_closed_trade_value w = dmul ?c (fl_price f)"
    "wa_opened_notional w = dmul ?o (fl_price f)"
    "wa_realized_trading_pnl w = dmul (dmul ?c (dsub (fl_price f) a)) (sgn q)"
    "wa_quantity w = q + fq"
    "wa_average_entry_price w = (if q + fq = 0 then None else Some (if sgn q = sgn (q + fq) then a else fl_price f))"
    using w sum by (auto simp: wa_reduce [OF assms(1-3)] Let_def fq_def [symmetric])
  show cost: "wa_closed_cost_basis w = ?c * a" and val: "wa_closed_trade_value w = ?c * fl_price f"
    and opn: "wa_opened_notional w = ?o * fl_price f"
    using prod co_grid wide by (simp_all add: fields(1-3))
  show realized: "wa_realized_trading_pnl w = ?c * (fl_price f - a) * sgn q"
    using prod [OF co_grid(1) gap] sgn_mul [OF dec_fits_ops(3) [of ?c "fl_price f - a"]]
    by (simp only: fields(4) sub)
  show "on_grid s n ?c" "on_grid s n ?o" by (fact co_grid)+
  have opp: "0 < q \<and> fq < 0 \<or> q < 0 \<and> 0 < fq"
    using assms(2,3) signed_fill_quantity_sign(1) [OF assms(1)]
    by (auto simp: fq_def [symmetric] sgn_if split: if_splits)
  show "wa_quantity w * (case wa_average_entry_price w of None \<Rightarrow> 0 | Some a' \<Rightarrow> a') =
      q * a + (wa_quantity w - q) * fl_price f + wa_realized_trading_pnl w"
  proof (cases "q + fq = 0")
    case True
    then have "fq = - q" by simp
    with opp show ?thesis
      unfolding realized fields(5,6) closed_opened by (auto simp: sgn_if algebra_simps)
  next
    case False
    with opp show ?thesis
      unfolding realized fields(5,6) closed_opened
      by (auto simp: sgn_if min_def algebra_simps split: if_splits)
  qed
qed
text \<open>
  Quantities are conserved. With position and fill quantity in fixed point (at most \<open>s\<close>
  fractional digits, at most \<open>n\<close> units, \<open>2n \<le> 10^28\<close>), the new quantity is the exact signed sum,
  closed plus opened quantity is the fill's quantity, no more is closed than was held, and a fill
  that both closes and opens closes the whole position.
\<close>

theorem apply_fill_conserves_quantity:
  assumes "fill_valid f" and "on_grid s n (existing_quantity position)"
    and "on_grid s n (fl_quantity f)" and "2 * n \<le> 10 ^ 28"
    and "apply_fill_to_position H position f c pid = Inr r"
  shows "ps_quantity (pp_position r) =
      existing_quantity position + (case fl_side f of BUY \<Rightarrow> fl_quantity f | SELL \<Rightarrow> - fl_quantity f) \<and>
    pp_closed_quantity r + pp_opened_quantity r = fl_quantity f \<and>
    pp_closed_quantity r \<le> \<bar>existing_quantity position\<bar> \<and>
    (0 < pp_closed_quantity r \<and> 0 < pp_opened_quantity r \<longrightarrow>
       pp_closed_quantity r = \<bar>existing_quantity position\<bar>)"
proof -
  from assms(5) obtain w t where
    w: "apply_weighted_average_fill (existing_quantity position) (existing_average position) f = Inr w"
    and r: "r = projection_result (projected_position H position f c pid (money_or_zero (fl_fee f) c)
          (money_or_zero (fl_rebate f) c) w t) f c (money_or_zero (fl_fee f) c)
          (money_or_zero (fl_rebate f) c) w"
    unfolding apply_fill_Inr_iff by auto
  show ?thesis using wa_closed_opened [OF assms(1-4) w] by (simp add: r)
qed

text \<open>
  No drift beyond rounding. When a fill increases a position, the new cost basis
  \<open>|quantity| * average\<close> differs from the old cost basis plus the fill's notional by at most one
  part in \<open>10^26\<close>, whatever the number of digits of quantity, average and price.
\<close>

theorem increase_keeps_cost_basis:
  assumes "fill_valid f" and "position_valid p" and "ps_quantity p \<noteq> 0"
    and "sgn (ps_quantity p) = (case fl_side f of BUY \<Rightarrow> 1 | SELL \<Rightarrow> -1)"
    and "ps_average_entry_price p = Some a"
    and "apply_fill_to_position H (Some p) f c pid = Inr r"
  shows "\<exists>a'. ps_average_entry_price (pp_position r) = Some a' \<and>
    \<bar>\<bar>ps_quantity (pp_position r)\<bar> * a' - (\<bar>ps_quantity p\<bar> * a + fl_quantity f * fl_price f)\<bar>
      \<le> (\<bar>ps_quantity p\<bar> * a + fl_quantity f * fl_price f) / 10 ^ 26"
proof -
  from assms(5,6) obtain w t where
    w: "apply_weighted_average_fill (ps_quantity p) (Some a) f = Inr w"
    and r: "r = projection_result (projected_position H (Some p) f c pid (money_or_zero (fl_fee f) c)
          (money_or_zero (fl_rebate f) c) w t) f c (money_or_zero (fl_fee f) c)
          (money_or_zero (fl_rebate f) c) w"
    unfolding apply_fill_Inr_iff by auto
  have sg: "sgn (ps_quantity p) = sgn (signed_fill_quantity f)"
    using assms(4) signed_fill_quantity_sign(2) [OF assms(1)] by simp
  have a: "0 \<le> a" using assms(2,5) by (simp add: position_valid_iff)
  obtain a' where a': "wa_average_entry_price w = Some a'"
    using w by (auto simp: wa_increase [OF assms(1,3) sg] Let_def)
  show ?thesis
    using wa_increase_cost_basis [OF assms(1,3) sg a w a'] a' by (simp add: r)
qed

text \<open>
  C2: realized PnL is what the books say. For a fill against the position, with quantities and
  prices in fixed point, the change of the signed cost basis equals the signed trade value plus
  the realized PnL, and the realized PnL is the closed quantity times the price difference, in the
  direction of the position.
\<close>

theorem reduce_accounting_identity:
  assumes "fill_valid f" and "ps_quantity p \<noteq> 0"
    and "sgn (ps_quantity p) \<noteq> (case fl_side f of BUY \<Rightarrow> 1 | SELL \<Rightarrow> -1)"
    and "ps_average_entry_price p = Some a"
    and "on_grid s n (ps_quantity p)" and "on_grid s n (fl_quantity f)"
    and "on_grid t m a" and "on_grid t m (fl_price f)"
    and "2 * n \<le> 10 ^ 28" and "2 * n * m \<le> 10 ^ 28"
    and "apply_fill_to_position H (Some p) f c pid = Inr r"
  shows "amount (pp_realized_trading_pnl r) =
      pp_closed_quantity r * (fl_price f - a) * sgn (ps_quantity p) \<and>
    ps_quantity (pp_position r) *
        (case ps_average_entry_price (pp_position r) of None \<Rightarrow> 0 | Some a' \<Rightarrow> a') =
      ps_quantity p * a + (ps_quantity (pp_position r) - ps_quantity p) * fl_price f +
        amount (pp_realized_trading_pnl r)"
proof -
  from assms(4,11) obtain w t' where
    w: "apply_weighted_average_fill (ps_quantity p) (Some a) f = Inr w"
    and r: "r = projection_result (projected_position H (Some p) f c pid (money_or_zero (fl_fee f) c)
          (money_or_zero (fl_rebate f) c) w t') f c (money_or_zero (fl_fee f) c)
          (money_or_zero (fl_rebate f) c) w"
    unfolding apply_fill_Inr_iff by auto
  have sg: "sgn (ps_quantity p) \<noteq> sgn (signed_fill_quantity f)"
    using assms(3) signed_fill_quantity_sign(2) [OF assms(1)] by simp
  show ?thesis
    using wa_reduce_exact(4,5) [OF assms(1,2) sg assms(5-10) w] by (simp add: r)
qed

section \<open>Concrete fills\<close>

text \<open>A buy of 2 at 0.91, a second buy of 1 at 0.02, and sells at 0.39, in one contract.\<close>

definition sample_fill :: "ident \<Rightarrow> side \<Rightarrow> rat \<Rightarrow> rat \<Rightarrow> instant \<Rightarrow> fill" where
  "sample_fill i sd q p t =
     \<lparr>fl_fill_id = i, fl_exchange_fill_id = ''x'', fl_order_id = ''ord_1'',
      fl_exchange_order_id = None, fl_client_order_id = ''c'', fl_exchange = ''kalshi'',
      fl_account_id = ''acct_1'', fl_market_id = ''mkt_1'', fl_contract_id = ''ctr_1'',
      fl_outcome_id = ''out_1'', fl_side = sd, fl_price = p, fl_quantity = q,
      fl_liquidity_role = TAKER, fl_fee = None, fl_rebate = None,
      fl_exchange_occurred_at = t, fl_received_at = t, fl_trade_id = None\<rparr>"

definition sample_position :: "rat \<Rightarrow> rat \<Rightarrow> instant \<Rightarrow> position" where
  "sample_position q a t =
     \<lparr>ps_position_id = ''pos_1'', ps_exchange = ''kalshi'', ps_account_id = ''acct_1'',
      ps_market_id = ''mkt_1'', ps_contract_id = ''ctr_1'', ps_outcome_id = ''out_1'',
      ps_quantity = q, ps_average_entry_price = (if q = 0 then None else Some a),
      ps_realized_pnl = zero_money ''USD'', ps_unrealized_pnl = zero_money ''USD'',
      ps_fees_paid = zero_money ''USD'', ps_rebates_received = zero_money ''USD'',
      ps_opened_at = (if q = 0 then None else Some t), ps_last_updated_at = t,
      ps_aggregate_version = 1\<rparr>"

lemma usd_valid [simp]: "valid_currency ''USD''"
  by (simp add: validate_currency_def is_upper_def)

lemma sample_fill_valid: "0 < q \<Longrightarrow> 0 \<le> p \<Longrightarrow> fill_valid (sample_fill i sd q p t)"
  by (simp add: sample_fill_def fill_valid_def text_in_def)

lemma sample_position_valid: "0 \<le> a \<Longrightarrow> position_valid (sample_position q a t)"
  by (simp add: sample_position_def position_valid_iff text_in_def zero_money_def)

lemma sample_accepted:
  "t \<le> t' \<Longrightarrow> fill_accepted (Some (sample_position q a t)) (sample_fill i sd fq p t') ''USD'' None"
  "fill_accepted None (sample_fill i sd fq p t') ''USD'' None"
  by (simp_all add: fill_accepted_def sample_position_def sample_fill_def validate_existing_position_def
      validate_fill_order_def validate_money_def Let_def zero_money_def)

lemma sample_applies:
  assumes "0 < fq" "0 \<le> p" "0 \<le> a" "t \<le> t'"
  obtains r where
    "apply_fill_to_position H (Some (sample_position q a t)) (sample_fill i sd fq p t') ''USD'' None = Inr r"
  using sample_fill_valid [OF assms(1,2), of i sd t'] sample_position_valid [OF assms(3), of q t]
    sample_accepted(1) [OF assms(4), of q a i sd fq p]
    apply_fill_ok_iff [of "sample_fill i sd fq p t'" "Some (sample_position q a t)" H "''USD''" None]
  by auto

definition sample_hasher :: hasher where
  "sample_hasher _ = ''sha256:0123456789abcdef0123456789abcdef''"

theorem apply_fill_succeeds_iff_witness:
  "fill_valid (sample_fill ''fill_2'' BUY 1 (1/50) 20) \<and>
   pred_option position_valid (Some (sample_position 2 (91/100) 10)) \<and>
   (\<exists>r. apply_fill_to_position sample_hasher (Some (sample_position 2 (91/100) 10))
      (sample_fill ''fill_2'' BUY 1 (1/50) 20) ''USD'' None = Inr r)"
  using apply_fill_succeeds_iff [of "sample_fill ''fill_2'' BUY 1 (1/50) 20"
      "Some (sample_position 2 (91/100) 10)" sample_hasher "''USD''" None]
    sample_accepted(1) [of 10 20 2 "91/100" "''fill_2''" BUY 1 "1/50"]
    sample_position_valid [of "91/100" 2 10] sample_fill_valid [of 1 "1/50" "''fill_2''" BUY 20]
  by simp

theorem apply_fill_result_witness:
  "\<exists>r. apply_fill_to_position sample_hasher (Some (sample_position 2 (91/100) 10))
      (sample_fill ''fill_2'' BUY 1 (1/50) 20) ''USD'' None = Inr r \<and>
    position_valid (pp_position r) \<and> ps_last_updated_at (pp_position r) = 20 \<and>
    ps_aggregate_version (pp_position r) = 2"
proof -
  let ?f = "sample_fill ''fill_2'' BUY 1 (1/50) 20" and ?p = "sample_position 2 (91/100) 10"
  obtain r where r: "apply_fill_to_position sample_hasher (Some ?p) ?f ''USD'' None = Inr r"
    by (rule sample_applies [of 1 "1/50" "91/100" 10 20]) simp_all
  have "fill_valid ?f" "pred_option position_valid (Some ?p)"
    by (simp_all add: sample_fill_valid sample_position_valid)
  from apply_fill_result [OF this r] r show ?thesis
    by (auto simp: sample_fill_def sample_position_def)
qed

theorem apply_fill_conserves_quantity_witness:
  "\<exists>r. apply_fill_to_position sample_hasher (Some (sample_position 2 (91/100) 10))
      (sample_fill ''fill_2'' SELL 5 (39/100) 20) ''USD'' None = Inr r \<and>
    ps_quantity (pp_position r) = -3 \<and> pp_closed_quantity r + pp_opened_quantity r = 5"
proof -
  let ?f = "sample_fill ''fill_2'' SELL 5 (39/100) 20" and ?p = "sample_position 2 (91/100) 10"
  obtain r where r: "apply_fill_to_position sample_hasher (Some ?p) ?f ''USD'' None = Inr r"
    by (rule sample_applies [of 5 "39/100" "91/100" 10 20]) simp_all
  have "fill_valid ?f" "on_grid 0 10 (existing_quantity (Some ?p))" "on_grid 0 10 (fl_quantity ?f)"
    "2 * 10 \<le> (10 ^ 28 :: nat)"
    by (simp_all add: sample_fill_valid) (simp_all add: sample_fill_def sample_position_def on_grid_def)
  from apply_fill_conserves_quantity [OF this r] r show ?thesis
    by (auto simp: sample_fill_def sample_position_def)
qed

theorem increase_keeps_cost_basis_witness:
  "\<exists>r a'. apply_fill_to_position sample_hasher (Some (sample_position 2 (91/100) 10))
      (sample_fill ''fill_2'' BUY 1 (1/50) 20) ''USD'' None = Inr r \<and>
    ps_average_entry_price (pp_position r) = Some a' \<and>
    \<bar>\<bar>ps_quantity (pp_position r)\<bar> * a' - 184/100\<bar> \<le> 184/100 / 10 ^ 26"
proof -
  let ?f = "sample_fill ''fill_2'' BUY 1 (1/50) 20" and ?p = "sample_position 2 (91/100) 10"
  obtain r where r: "apply_fill_to_position sample_hasher (Some ?p) ?f ''USD'' None = Inr r"
    by (rule sample_applies [of 1 "1/50" "91/100" 10 20]) simp_all
  have "fill_valid ?f" "position_valid ?p" by (simp_all add: sample_fill_valid sample_position_valid)
  moreover have "ps_quantity ?p \<noteq> 0" "ps_average_entry_price ?p = Some (91/100)"
    "sgn (ps_quantity ?p) = (case fl_side ?f of BUY \<Rightarrow> 1 | SELL \<Rightarrow> -1)"
    by (simp_all add: sample_fill_def sample_position_def)
  ultimately show ?thesis
    using increase_keeps_cost_basis [of ?f ?p "91/100" sample_hasher "''USD''" None r] r
    by (auto simp: sample_fill_def sample_position_def)
qed

theorem reduce_accounting_identity_witness:
  "\<exists>r. apply_fill_to_position sample_hasher (Some (sample_position 2 (91/100) 10))
      (sample_fill ''fill_2'' SELL 2 (39/100) 20) ''USD'' None = Inr r \<and>
    amount (pp_realized_trading_pnl r) = pp_closed_quantity r * (39/100 - 91/100)"
proof -
  let ?f = "sample_fill ''fill_2'' SELL 2 (39/100) 20" and ?p = "sample_position 2 (91/100) 10"
  obtain r where r: "apply_fill_to_position sample_hasher (Some ?p) ?f ''USD'' None = Inr r"
    by (rule sample_applies [of 2 "39/100" "91/100" 10 20]) simp_all
  have "fill_valid ?f" by (simp add: sample_fill_valid)
  moreover have "ps_quantity ?p \<noteq> 0" "ps_average_entry_price ?p = Some (91/100)"
    "sgn (ps_quantity ?p) \<noteq> (case fl_side ?f of BUY \<Rightarrow> 1 | SELL \<Rightarrow> -1)"
    "on_grid 0 10 (ps_quantity ?p)" "on_grid 0 10 (fl_quantity ?f)"
    "on_grid 2 100 (91/100)" "on_grid 2 100 (fl_price ?f)"
    by (simp_all add: sample_fill_def sample_position_def on_grid_def)
  ultimately show ?thesis
    using reduce_accounting_identity [of ?f ?p "91/100" 0 10 2 100 sample_hasher "''USD''" None r] r
    by (auto simp: sample_fill_def sample_position_def)
qed

end
