(* ===== verification/Journal.thy ===== *)
theory Journal
  imports Positions
begin

text \<open>
  \<open>src/pmrp/portfolio/journal.py\<close>: the balanced journal entry of one fill.

  \<open>build_fill_journal_entry\<close> first re-validates the projection against the fill, then writes the
  cash, position-cost, PnL, fee and rebate lines; the entry's constructor checks that the lines
  of each currency sum to zero. The lemmas show that this always succeeds, and what the lines say,
  while the quantities, prices and the average are fixed-point numbers; the last section
  shows that it fails for an ordinary fill as soon as the average entry price has been rounded.
\<close>

definition ACCOUNT_CASH :: string where "ACCOUNT_CASH = ''cash''"
definition ACCOUNT_POSITION_COST :: string where "ACCOUNT_POSITION_COST = ''position_cost''"
definition ACCOUNT_REALIZED_TRADING_PNL :: string where
  "ACCOUNT_REALIZED_TRADING_PNL = ''realized_trading_pnl''"
definition ACCOUNT_SETTLEMENT_PNL :: string where "ACCOUNT_SETTLEMENT_PNL = ''settlement_pnl''"
definition ACCOUNT_FEES_PAID :: string where "ACCOUNT_FEES_PAID = ''fees_paid''"
definition ACCOUNT_REBATES_RECEIVED :: string where "ACCOUNT_REBATES_RECEIVED = ''rebates_received''"

lemmas account_codes = ACCOUNT_CASH_def ACCOUNT_POSITION_COST_def ACCOUNT_REALIZED_TRADING_PNL_def
  ACCOUNT_SETTLEMENT_PNL_def ACCOUNT_FEES_PAID_def ACCOUNT_REBATES_RECEIVED_def

definition fill_direction :: "fill \<Rightarrow> rat" where
  "fill_direction f = (case fl_side f of BUY \<Rightarrow> 1 | SELL \<Rightarrow> -1)"

definition validate_projection_for_fill :: "fill \<Rightarrow> position_projection \<Rightarrow> (bool \<times> py_error) list" where
  "validate_projection_for_fill f pr =
     (let bad = (\<lambda>e. PortfolioProjectionError (Journal e));
          c = currency (pp_trade_notional pr);
          same_currency = (\<lambda>m fld. (currency m \<noteq> c, bad (Journal_currency_mismatch fld)));
          nonneg = (\<lambda>m fld. (amount m < 0, bad (Journal_negative_amount fld)));
          p = pp_position pr
      in
     [(ps_exchange p \<noteq> fl_exchange f, bad (Journal_mismatch F_exchange)),
      (ps_account_id p \<noteq> fl_account_id f, bad (Journal_mismatch F_account_id)),
      (ps_market_id p \<noteq> fl_market_id f, bad (Journal_mismatch F_market_id)),
      (ps_contract_id p \<noteq> fl_contract_id f, bad (Journal_mismatch F_contract_id)),
      (ps_outcome_id p \<noteq> fl_outcome_id f, bad (Journal_mismatch F_outcome_id)),
      same_currency (pp_realized_trading_pnl pr) F_realized_trading_pnl,
      same_currency (pp_fee pr) F_fee,
      same_currency (pp_rebate pr) F_rebate,
      same_currency (pp_closed_cost_basis pr) F_closed_cost_basis,
      same_currency (pp_closed_trade_value pr) F_closed_trade_value,
      same_currency (pp_opened_notional pr) F_opened_notional,
      nonneg (pp_trade_notional pr) F_trade_notional,
      nonneg (pp_fee pr) F_fee,
      nonneg (pp_rebate pr) F_rebate,
      nonneg (pp_closed_cost_basis pr) F_closed_cost_basis,
      nonneg (pp_closed_trade_value pr) F_closed_trade_value,
      nonneg (pp_opened_notional pr) F_opened_notional,
      (amount (pp_trade_notional pr) \<noteq> dmul (fl_quantity f) (fl_price f),
         bad (Journal_mismatch F_trade_notional)),
      (pp_fee pr \<noteq> money_or_zero (fl_fee f) c, bad (Journal_mismatch F_fee)),
      (pp_rebate pr \<noteq> money_or_zero (fl_rebate f) c, bad (Journal_mismatch F_rebate)),
      (pp_closed_quantity pr < 0 \<or> pp_opened_quantity pr < 0, bad Journal_quantities_negative),
      (dadd (pp_closed_quantity pr) (pp_opened_quantity pr) \<noteq> fl_quantity f,
         bad Journal_quantities_not_fill),
      (amount (pp_closed_trade_value pr) \<noteq> dmul (pp_closed_quantity pr) (fl_price f),
         bad (Journal_mismatch F_closed_trade_value)),
      (amount (pp_opened_notional pr) \<noteq> dmul (pp_opened_quantity pr) (fl_price f),
         bad (Journal_mismatch F_opened_notional)),
      (amount (pp_realized_trading_pnl pr) \<noteq>
         dmul (dsub (amount (pp_closed_trade_value pr)) (amount (pp_closed_cost_basis pr)))
              (dneg (fill_direction f)),
         bad (Journal_mismatch F_realized_trading_pnl))])"

definition derive_fill_journal_entry_id :: "hasher \<Rightarrow> fill \<Rightarrow> string" where
  "derive_fill_journal_entry_id H f =
     ''journal_fill_'' @ short_digest H (CMap
       [(''fill_id'', CStr (fl_fill_id f)),
        (''schema'', CStr ''pmrp.fill_journal_entry.v1'')])"

abbreviation journal_line_of :: "string \<Rightarrow> rat \<Rightarrow> string \<Rightarrow> string \<Rightarrow> journal_line" where
  "journal_line_of code a c d \<equiv>
     \<lparr>jl_account_code = code, jl_amount = a, jl_currency = c, jl_description = Some d\<rparr>"

definition fill_journal_lines :: "fill \<Rightarrow> position_projection \<Rightarrow> journal_line list" where
  "fill_journal_lines f pr =
     (let c = currency (pp_trade_notional pr); dir = fill_direction f; closed_dir = dneg dir in
      [journal_line_of ACCOUNT_CASH (dmul (dneg dir) (amount (pp_trade_notional pr))) c
         ''Trade cash movement.''] @
      (if 0 < pp_closed_quantity pr then
         [journal_line_of ACCOUNT_POSITION_COST
            (dneg (dmul closed_dir (amount (pp_closed_cost_basis pr)))) c
            ''Closed position cost basis.'',
          journal_line_of ACCOUNT_REALIZED_TRADING_PNL
            (dneg (amount (pp_realized_trading_pnl pr))) c ''Realized trading PnL offset.'']
       else []) @
      (if 0 < pp_opened_quantity pr then
         [journal_line_of ACCOUNT_POSITION_COST (dmul dir (amount (pp_opened_notional pr))) c
            ''Opened position notional.'']
       else []) @
      (if 0 < amount (pp_fee pr) then
         [journal_line_of ACCOUNT_CASH (dneg (amount (pp_fee pr))) c ''Fee cash movement.'',
          journal_line_of ACCOUNT_FEES_PAID (amount (pp_fee pr)) c ''Fee expense.'']
       else []) @
      (if 0 < amount (pp_rebate pr) then
         [journal_line_of ACCOUNT_CASH (amount (pp_rebate pr)) c ''Rebate cash movement.'',
          journal_line_of ACCOUNT_REBATES_RECEIVED (dneg (amount (pp_rebate pr))) c
            ''Rebate income.'']
       else []))"

definition build_fill_journal_entry ::
  "hasher \<Rightarrow> fill \<Rightarrow> position_projection \<Rightarrow> ident \<Rightarrow> instant \<Rightarrow> journal_entry result" where
  "build_fill_journal_entry H f pr source_event_id created_at =
     bindE (guards (validate_projection_for_fill f pr)) (\<lambda>_.
     bindE (mapE mk_journal_line (fill_journal_lines f pr)) (\<lambda>lines.
     mk_journal_entry
       \<lparr>je_journal_entry_id = derive_fill_journal_entry_id H f,
        je_occurred_at = fl_exchange_occurred_at f, je_source_event_id = source_event_id,
        je_reference_type = ''fill'', je_reference_id = fl_fill_id f, je_lines = lines,
        je_description = ''Fill accounting for '' @ fl_fill_id f @ ''.'',
        je_created_at = created_at\<rparr>))"

section \<open>Amounts in fixed point\<close>

definition fill_on_grid :: "nat \<Rightarrow> nat \<Rightarrow> nat \<Rightarrow> nat \<Rightarrow> position option \<Rightarrow> fill \<Rightarrow> bool" where
  "fill_on_grid s n t m position f \<longleftrightarrow>
     on_grid s n (existing_quantity position) \<and> on_grid s n (fl_quantity f) \<and>
     pred_option (on_grid t m) (existing_average position) \<and> on_grid t m (fl_price f) \<and>
     pred_option (\<lambda>x. on_grid (s + t) (n * m) (amount x)) (fl_fee f) \<and>
     pred_option (\<lambda>x. on_grid (s + t) (n * m) (amount x)) (fl_rebate f)"

text \<open>Every amount of the weighted-average step, whatever its shape.\<close>

lemma wa_exact:
  assumes fv: "fill_valid f" and grid: "on_grid s n q" "on_grid s n (fl_quantity f)"
      "pred_option (on_grid t m) avg" "on_grid t m (fl_price f)"
    and bound: "2 * n \<le> 10 ^ 28" "2 * n * m \<le> 10 ^ 28"
    and w: "apply_weighted_average_fill q avg f = Inr w"
  obtains a where "on_grid t m a" "on_grid s n (wa_closed_quantity w)" "on_grid s n (wa_opened_quantity w)"
    "wa_closed_cost_basis w = wa_closed_quantity w * a"
    "wa_closed_trade_value w = wa_closed_quantity w * fl_price f"
    "wa_opened_notional w = wa_opened_quantity w * fl_price f"
    "wa_realized_trading_pnl w = wa_closed_quantity w * (fl_price f - a) * - fill_direction f"
proof (cases "q \<noteq> 0 \<and> sgn q \<noteq> sgn (signed_fill_quantity f)")
  case True
  then obtain a where a: "avg = Some a"
    using w by (cases avg) (auto simp: apply_weighted_average_fill_def Let_def)
  with grid(3) have ga: "on_grid t m a" by simp
  have "sgn q = - fill_direction f"
    using True signed_fill_quantity_sign(2) [OF fv]
    by (auto simp: fill_direction_def sgn_if split: side.splits if_splits)
  then show ?thesis
    using that [OF ga] wa_reduce_exact [OF fv _ _ grid(1,2) ga grid(4) bound w [unfolded a]] True
    by simp
next
  case False
  have n: "n \<le> 10 ^ 28" and nm: "n * m \<le> 10 ^ 28" using bound by linarith+
  have ex: "dabs (signed_fill_quantity f) = fl_quantity f"
    using fv on_grid_fits [OF grid(2) n]
    by (auto simp: signed_fill_quantity_def dneg_exact dabs_exact fill_valid_def split: side.splits)
  have mul: "dmul (fl_quantity f) (fl_price f) = fl_quantity f * fl_price f"
    using on_grid_fits [OF on_grid_mult [OF grid(2,4)] nm] by (simp add: dmul_def d28.rnd_exact)
  have "wa_closed_quantity w = 0 \<and> wa_opened_quantity w = fl_quantity f \<and> wa_closed_cost_basis w = 0 \<and>
    wa_closed_trade_value w = 0 \<and> wa_opened_notional w = fl_quantity f * fl_price f \<and>
    wa_realized_trading_pnl w = 0"
  proof (cases "q = 0")
    case True
    with w show ?thesis by (auto simp: wa_open ex mul)
  next
    case q: False
    then obtain a where a: "avg = Some a"
      using w by (cases avg) (auto simp: apply_weighted_average_fill_def Let_def)
    with q False w show ?thesis by (auto simp: wa_increase [OF fv] Let_def ex mul)
  qed
  then show ?thesis using that [of "fl_price f"] grid(2,4) on_grid_zero by simp
qed

section \<open>The journal of a fixed-point fill\<close>

lemma dir_mult:
  assumes "dec_fits 28 x"
  shows "dmul (fill_direction f) x = fill_direction f * x"
    and "dmul (dneg (fill_direction f)) x = - fill_direction f * x"
    and "dmul x (dneg (fill_direction f)) = - (x * fill_direction f)"
    and "dmul (- fill_direction f) x = - (fill_direction f * x)"
    and "dmul x (- fill_direction f) = - (fill_direction f * x)"
    and "dneg (fill_direction f * x) = - (fill_direction f * x)"
    and "dneg (- (fill_direction f * x)) = fill_direction f * x"
    and "dneg (fill_direction f) = - fill_direction f"
proof -
  have "dec_fits 28 (1::rat)" using on_grid_fits [of 0 1 1] by (simp add: on_grid_def)
  then have neg: "dneg (fill_direction f) = - fill_direction f"
    by (intro dneg_exact) (auto simp: fill_direction_def split: side.splits)
  show "dneg (fill_direction f) = - fill_direction f" by (rule neg)
  show "dmul (fill_direction f) x = fill_direction f * x"
    "dmul (dneg (fill_direction f)) x = - fill_direction f * x"
    "dmul x (dneg (fill_direction f)) = - (x * fill_direction f)"
    "dmul (- fill_direction f) x = - (fill_direction f * x)"
    "dmul x (- fill_direction f) = - (fill_direction f * x)"
    "dneg (fill_direction f * x) = - (fill_direction f * x)"
    "dneg (- (fill_direction f * x)) = fill_direction f * x"
    unfolding neg using assms by (auto simp: fill_direction_def dmul_def d28.rnd_exact dneg_exact split: side.splits)
qed

text \<open>The amounts of a projection that the journal relies on.\<close>

record fill_amounts =
  fa_closed :: rat
  fa_opened :: rat
  fa_average :: rat
  fa_fee :: rat
  fa_rebate :: rat

definition exact_lines :: "fill \<Rightarrow> string \<Rightarrow> fill_amounts \<Rightarrow> journal_line list" where
  "exact_lines f c x =
     (let d = fill_direction f; p = fl_price f in
      [journal_line_of ACCOUNT_CASH (- d * (fl_quantity f * p)) c ''Trade cash movement.''] @
      (if 0 < fa_closed x then
         [journal_line_of ACCOUNT_POSITION_COST (d * (fa_closed x * fa_average x)) c
            ''Closed position cost basis.'',
          journal_line_of ACCOUNT_REALIZED_TRADING_PNL (d * (fa_closed x * (p - fa_average x))) c
            ''Realized trading PnL offset.'']
       else []) @
      (if 0 < fa_opened x then
         [journal_line_of ACCOUNT_POSITION_COST (d * (fa_opened x * p)) c
            ''Opened position notional.'']
       else []) @
      (if 0 < fa_fee x then
         [journal_line_of ACCOUNT_CASH (- fa_fee x) c ''Fee cash movement.'',
          journal_line_of ACCOUNT_FEES_PAID (fa_fee x) c ''Fee expense.'']
       else []) @
      (if 0 < fa_rebate x then
         [journal_line_of ACCOUNT_CASH (fa_rebate x) c ''Rebate cash movement.'',
          journal_line_of ACCOUNT_REBATES_RECEIVED (- fa_rebate x) c ''Rebate income.'']
       else []))"

definition cash_of :: "journal_line list \<Rightarrow> rat" where
  "cash_of lines = sum_list (map jl_amount (filter (\<lambda>l. jl_account_code l = ACCOUNT_CASH) lines))"

lemma exact_lines_facts:
  assumes "fl_quantity f = fa_closed x + fa_opened x" "0 \<le> fa_closed x" "0 \<le> fa_opened x"
    "0 \<le> fa_fee x" "0 \<le> fa_rebate x"
  shows "sum_list (map jl_amount (exact_lines f c x)) = 0"
    and "cash_of (exact_lines f c x) =
      - fill_direction f * (fl_quantity f * fl_price f) - fa_fee x + fa_rebate x"
    and "jl_currency ` set (exact_lines f c x) = {c}"
    and "length (exact_lines f c x) \<le> 8"
    and "valid_currency c \<Longrightarrow> mapE mk_journal_line (exact_lines f c x) = Inr (exact_lines f c x)"
proof -
  show "sum_list (map jl_amount (exact_lines f c x)) = 0"
    using assms by (auto simp: exact_lines_def Let_def algebra_simps dest!: order_antisym)
  show "cash_of (exact_lines f c x) =
      - fill_direction f * (fl_quantity f * fl_price f) - fa_fee x + fa_rebate x"
    using assms(4,5) by (auto simp: exact_lines_def cash_of_def Let_def account_codes)
  show "jl_currency ` set (exact_lines f c x) = {c}" "length (exact_lines f c x) \<le> 8"
    by (auto simp: exact_lines_def Let_def)
  assume "valid_currency c"
  then show "mapE mk_journal_line (exact_lines f c x) = Inr (exact_lines f c x)"
    by (simp add: exact_lines_def Let_def mk_journal_line_def text_in_def account_codes)
qed

lemma exact_lines_grid:
  assumes "on_grid s n (fl_quantity f)" "on_grid t m (fl_price f)" "on_grid s n (fa_closed x)"
    "on_grid s n (fa_opened x)" "on_grid t m (fa_average x)" "on_grid (s + t) (n * m) (fa_fee x)"
    "on_grid (s + t) (n * m) (fa_rebate x)" "l \<in> set (exact_lines f c x)"
  shows "on_grid (s + t) (2 * n * m) (jl_amount l)"
proof -
  have d: "fill_direction f = 1 \<or> fill_direction f = -1" by (simp add: fill_direction_def split: side.splits)
  have big: "n * m \<le> 2 * n * m" by simp
  note wide = on_grid_mono [OF _ big]
  have "on_grid (s + t) (n * (m + m)) (fa_closed x * (fl_price f - fa_average x))"
    using assms by (intro on_grid_mult on_grid_diff)
  moreover have "n * (m + m) = 2 * n * m" by simp
  ultimately have "on_grid (s + t) (2 * n * m) (fa_closed x * (fl_price f - fa_average x))"
    by (simp only:)
  moreover have "on_grid (s + t) (2 * n * m) (fl_quantity f * fl_price f)"
    "on_grid (s + t) (2 * n * m) (fa_closed x * fa_average x)"
    "on_grid (s + t) (2 * n * m) (fa_opened x * fl_price f)"
    "on_grid (s + t) (2 * n * m) (fa_fee x)" "on_grid (s + t) (2 * n * m) (fa_rebate x)"
    using assms by (auto intro: wide on_grid_mult)
  ultimately show ?thesis
    using assms(8) d by (auto simp: exact_lines_def Let_def split: if_splits)
qed


text \<open>A projection that arises from an accepted fixed-point fill.\<close>

lemma projection_exact:
  assumes fv: "fill_valid f" and pv: "pred_option position_valid position"
    and grid: "fill_on_grid s n t m position f"
    and bound: "2 * n \<le> 10 ^ 28" "2 * n * m \<le> 10 ^ 28"
    and r: "apply_fill_to_position H position f c pid = Inr r"
  obtains x where
    "fl_quantity f = fa_closed x + fa_opened x" "0 \<le> fa_closed x" "0 \<le> fa_opened x"
    "0 \<le> fa_fee x" "0 \<le> fa_rebate x"
    "on_grid s n (fa_closed x)" "on_grid s n (fa_opened x)" "on_grid t m (fa_average x)"
    "fa_fee x = amount (money_or_zero (fl_fee f) c)" "fa_rebate x = amount (money_or_zero (fl_rebate f) c)"
    "list_all (\<lambda>g. \<not> fst g) (validate_projection_for_fill f r)"
    "fill_journal_lines f r = exact_lines f c x" "valid_currency c"
proof -
  from r obtain w t' where acc: "fill_accepted position f c pid"
    and w: "apply_weighted_average_fill (existing_quantity position) (existing_average position) f = Inr w"
    and r': "r = projection_result (projected_position H position f c pid (money_or_zero (fl_fee f) c)
          (money_or_zero (fl_rebate f) c) w t') f c (money_or_zero (fl_fee f) c)
          (money_or_zero (fl_rebate f) c) w"
    unfolding apply_fill_Inr_iff by auto
  have g: "on_grid s n (existing_quantity position)" "on_grid s n (fl_quantity f)"
    "pred_option (on_grid t m) (existing_average position)" "on_grid t m (fl_price f)"
    using grid by (auto simp: fill_on_grid_def)
  obtain a where ga: "on_grid t m a" and gc: "on_grid s n (wa_closed_quantity w)"
    and go: "on_grid s n (wa_opened_quantity w)"
    and amounts: "wa_closed_cost_basis w = wa_closed_quantity w * a"
      "wa_closed_trade_value w = wa_closed_quantity w * fl_price f"
      "wa_opened_notional w = wa_opened_quantity w * fl_price f"
      "wa_realized_trading_pnl w = wa_closed_quantity w * (fl_price f - a) * - fill_direction f"
    by (rule wa_exact [OF fv g bound w])
  note shape = wa_shape [OF fv existing_average_nonneg [OF pv] w]
  note qty = wa_closed_opened(2) [OF fv g(1,2) bound(1) w]
  define x where "x = \<lparr>fa_closed = wa_closed_quantity w, fa_opened = wa_opened_quantity w,
    fa_average = a, fa_fee = amount (money_or_zero (fl_fee f) c),
    fa_rebate = amount (money_or_zero (fl_rebate f) c)\<rparr>"
  have cur: "currency (money_or_zero (fl_fee f) c) = c" "currency (money_or_zero (fl_rebate f) c) = c"
    and nonneg: "0 \<le> amount (money_or_zero (fl_fee f) c)" "0 \<le> amount (money_or_zero (fl_rebate f) c)"
    using acc by (cases "fl_fee f"; cases "fl_rebate f"; auto simp: fill_accepted_def)+
  have n: "n \<le> 10 ^ 28" and nm: "n * m \<le> 10 ^ 28" using bound by linarith+
  have prod: "dmul u v = u * v" "dec_fits 28 (u * v)" if "on_grid s n u" "on_grid t m v" for u v
    using on_grid_fits [OF on_grid_mult [OF that] nm] by (simp_all add: dmul_def d28.rnd_exact)
  have gap: "dec_fits 28 (wa_closed_quantity w * (fl_price f - a))"
    using on_grid_fits [OF on_grid_mult [OF gc on_grid_diff [OF g(4) ga]]] bound(2)
    by (simp add: mult_2 distrib_left distrib_right mult.assoc)
  have sub: "dsub (wa_closed_quantity w * fl_price f) (wa_closed_quantity w * a) =
      wa_closed_quantity w * (fl_price f - a)"
    using gap by (simp add: dsub_def d28.rnd_exact right_diff_distrib)
  have add: "dadd (wa_closed_quantity w) (wa_opened_quantity w) = fl_quantity f"
    using qty on_grid_fits [OF g(2) n] by (simp add: dadd_def d28.rnd_exact)
  have fits_fee: "dec_fits 28 (amount (money_or_zero (fl_fee f) c))"
    "dec_fits 28 (amount (money_or_zero (fl_rebate f) c))"
    using grid nm by (cases "fl_fee f"; cases "fl_rebate f";
        auto simp: fill_on_grid_def intro: on_grid_fits)+
  have pos: "0 \<le> fl_quantity f * fl_price f" using fv by (simp add: fill_valid_def)
  have realized: "wa_realized_trading_pnl w = - (fill_direction f * (wa_closed_quantity w * (fl_price f - a)))"
    by (simp add: amounts(4))
  have valid: "list_all (\<lambda>g. \<not> fst g) (validate_projection_for_fill f r)"
    using shape(4-8) pos nonneg
    by (simp add: validate_projection_for_fill_def Let_def r' cur amounts(1-3) realized prod gc go g
        ga add sub dir_mult gap)
  have lines: "fill_journal_lines f r = exact_lines f c x"
    using fits_fee
    by (simp add: fill_journal_lines_def exact_lines_def Let_def r' x_def amounts(1-3) realized prod
        gc go g ga dir_mult gap dneg_exact)
  show ?thesis
    by (rule that [of x]) (use qty shape(4,5) nonneg gc go ga valid lines acc in
        \<open>simp_all add: x_def fill_accepted_def\<close>)
qed


lemma build_fill_journal_ok:
  assumes fv: "fill_valid f" and pv: "pred_option position_valid position"
    and grid: "fill_on_grid s n t m position f"
    and bound: "2 * n \<le> 10 ^ 28" "16 * n * m \<le> 10 ^ 28"
    and r: "apply_fill_to_position H position f c pid = Inr r"
    and ids: "text_in 1 128 (fl_fill_id f)" "fl_exchange_occurred_at f \<le> created_at"
  obtains e where "build_fill_journal_entry H f r source_event_id created_at = Inr e"
    and "sum_list (map jl_amount (je_lines e)) = 0"
    and "cash_of (je_lines e) = - fill_direction f * (fl_quantity f * fl_price f)
       - amount (money_or_zero (fl_fee f) c) + amount (money_or_zero (fl_rebate f) c)"
    and "je_occurred_at e = fl_exchange_occurred_at f" "je_reference_id e = fl_fill_id f"
    and "je_journal_entry_id e = derive_fill_journal_entry_id H f"
    and "jl_currency ` set (je_lines e) = {c}"
proof -
  have b2: "2 * n * m \<le> 10 ^ 28" using bound(2) by linarith
  obtain x where x: "fl_quantity f = fa_closed x + fa_opened x" "0 \<le> fa_closed x" "0 \<le> fa_opened x"
    "0 \<le> fa_fee x" "0 \<le> fa_rebate x"
    and g: "on_grid s n (fa_closed x)" "on_grid s n (fa_opened x)" "on_grid t m (fa_average x)"
    and fee: "fa_fee x = amount (money_or_zero (fl_fee f) c)"
      "fa_rebate x = amount (money_or_zero (fl_rebate f) c)"
    and valid: "list_all (\<lambda>g. \<not> fst g) (validate_projection_for_fill f r)"
    and lines: "fill_journal_lines f r = exact_lines f c x" and cur: "valid_currency c"
    by (rule projection_exact [OF fv pv grid bound(1) b2 r])
  note facts = exact_lines_facts [OF x, of c]
  have gf: "on_grid s n (fl_quantity f)" "on_grid t m (fl_price f)"
    "on_grid (s + t) (n * m) (fa_fee x)" "on_grid (s + t) (n * m) (fa_rebate x)"
    using grid by (cases "fl_fee f"; cases "fl_rebate f"; auto simp: fill_on_grid_def fee on_grid_zero)+
  have lg: "\<And>l. l \<in> set (exact_lines f c x) \<Longrightarrow> on_grid (s + t) (2 * n * m) (jl_amount l)"
    by (rule exact_lines_grid [OF gf(1,2) g(1,2,3) gf(3,4)])
  have "dsum (map jl_amount (exact_lines f c x)) = sum_list (map jl_amount (exact_lines f c x))"
  proof (rule dsum_exact [of _ "s + t" "2 * n * m"])
    have "length (exact_lines f c x) * (2 * n * m) \<le> 8 * (2 * n * m)"
      using facts(4) by (rule mult_le_mono1)
    also have "\<dots> = 16 * n * m" by simp
    finally show "length (map jl_amount (exact_lines f c x)) * (2 * n * m) \<le> 10 ^ 28"
      using bound(2) by (simp only: length_map)
  qed (use lg in auto)
  moreover have "filter (\<lambda>l. jl_currency l = c) (exact_lines f c x) = exact_lines f c x"
    using facts(3) by (auto simp: filter_id_conv)
  ultimately have bal: "balanced (exact_lines f c x)"
    using facts(1,3) by (simp add: balanced_def currency_total_def)
  have ne: "exact_lines f c x \<noteq> []" using facts(3) by auto
  show ?thesis
  proof (rule that)
    show "build_fill_journal_entry H f r source_event_id created_at = Inr
       \<lparr>je_journal_entry_id = derive_fill_journal_entry_id H f,
        je_occurred_at = fl_exchange_occurred_at f, je_source_event_id = source_event_id,
        je_reference_type = ''fill'', je_reference_id = fl_fill_id f, je_lines = exact_lines f c x,
        je_description = ''Fill accounting for '' @ fl_fill_id f @ ''.'', je_created_at = created_at\<rparr>"
      unfolding build_fill_journal_entry_def
      using valid ids ne bal facts(5) [OF cur]
      by (auto simp: bindE_eq_Inr guards_ok_iff list_all_iff lines mk_journal_entry_iff text_in_def
          derive_fill_journal_entry_id_def)
  qed (use facts fee in simp_all)
qed

text \<open>
  C26: the journal of an accepted fill balances. With quantities, prices, the average entry price,
  fee and rebate in fixed point (\<open>16 n m \<le> 10^28\<close>), \<open>build_fill_journal_entry\<close> accepts the projection
  that \<open>apply_fill_to_position\<close> computed, its lines sum to exactly zero, and its cash lines move
  the account by minus the signed notional, minus the fee, plus the rebate.
\<close>

theorem fill_journal_balances:
  assumes "fill_valid f" and "pred_option position_valid position"
    and "fill_on_grid s n t m position f" and "2 * n \<le> 10 ^ 28" and "16 * n * m \<le> 10 ^ 28"
    and "apply_fill_to_position H position f c pid = Inr r"
    and "text_in 1 128 (fl_fill_id f)" and "fl_exchange_occurred_at f \<le> created_at"
  shows "\<exists>e. build_fill_journal_entry H f r source_event_id created_at = Inr e \<and>
    sum_list (map jl_amount (je_lines e)) = 0 \<and>
    cash_of (je_lines e) = - fill_direction f * (fl_quantity f * fl_price f)
      - amount (money_or_zero (fl_fee f) c) + amount (money_or_zero (fl_rebate f) c)"
  by (rule build_fill_journal_ok [OF assms]) blast

theorem fill_journal_balances_witness:
  "\<exists>r e. apply_fill_to_position sample_hasher (Some (sample_position 2 (91/100) 10))
      (sample_fill ''fill_2'' SELL 5 (39/100) 20) ''USD'' None = Inr r \<and>
    build_fill_journal_entry sample_hasher (sample_fill ''fill_2'' SELL 5 (39/100) 20) r ''evt_1'' 30 = Inr e \<and>
    sum_list (map jl_amount (je_lines e)) = 0 \<and> cash_of (je_lines e) = 195/100"
proof -
  let ?f = "sample_fill ''fill_2'' SELL 5 (39/100) 20" and ?p = "sample_position 2 (91/100) 10"
  obtain r where r: "apply_fill_to_position sample_hasher (Some ?p) ?f ''USD'' None = Inr r"
    by (rule sample_applies [of 5 "39/100" "91/100" 10 20]) simp_all
  have "fill_valid ?f" "pred_option position_valid (Some ?p)"
    by (simp_all add: sample_fill_valid sample_position_valid)
  moreover have "fill_on_grid 0 10 2 100 (Some ?p) ?f" "text_in 1 128 (fl_fill_id ?f)"
    "fl_exchange_occurred_at ?f \<le> 30"
    by (simp_all add: fill_on_grid_def on_grid_def sample_fill_def sample_position_def text_in_def)
  ultimately show ?thesis
    using fill_journal_balances [of ?f "Some ?p" 0 10 2 100 sample_hasher "''USD''" None r 30 "''evt_1''"] r
    by (auto simp: sample_fill_def fill_direction_def)
qed

section \<open>A fill the journal rejects\<close>

text \<open>
  Buy 2 at 0.91 and 1 at 0.02: the average 1.84 / 3 is rounded to 28 digits. Then sell 2 at 0.39.
\<close>

definition rounded_average :: rat where
  "rounded_average = 6133333333333333333333333333 / 10 ^ 28"

lemma rounded_average_nonneg: "0 \<le> rounded_average" "\<not> rounded_average < 0"
  by (simp_all add: rounded_average_def)

lemmas dec_compute = dec_ops dec_eval

lemma sample_arithmetic:
  "dadd 0 2 = 2" "dabs 2 = 2" "dadd 2 1 = 3" "dabs 1 = 1" "dneg 2 = -2" "dadd 3 (-2) = 1" "dabs 3 = 3"
  "dabs (-2) = 2" "dsub 2 3 = -1" "dadd 0 0 = 0" "dadd 2 0 = 2" "dmul 2 (91/100) = 91/50"
  "dmul 1 (1/50) = 1/50" "dmul 0 (39/100) = 0" "dadd 0 1 = 1" "dmul 2 (39/100) = 39/50"
  "dneg (-1) = 1" "dadd (91/50) (1/50) = 46/25" "ddiv (46/25) 3 = rounded_average"
  by (simp_all add: dec_compute rounded_average_def)

text \<open>The two formulas for the realized PnL round differently: the last digits are 666 and 67.\<close>

lemma sample_realized:
  "dmul (dmul 2 (dsub (39/100) rounded_average)) 1 = - (4466666666666666666666666666 / 10 ^ 28)"
  "dmul (dsub (39/50) (dmul 2 rounded_average)) 1 = - (446666666666666666666666667 / 10 ^ 27)"
  by (simp_all add: dec_compute rounded_average_def)

lemmas fill_compute = apply_fill_to_position_def apply_weighted_average_fill_def fill_money_def
  project_opened_at_def project_updated_at_def validate_existing_position_def validate_fill_order_def
  validate_money_def mk_position_def position_checks_def signed_fill_quantity_def same_direction_def
  sign_def sample_fill_def Let_def text_in_def zero_money_def

text \<open>
  An ordinary sell is rejected once the average entry price has been rounded. After buying 2 at
  0.91 and 1 at 0.02, selling 2 at 0.39 passes \<open>apply_fill_to_position\<close>, but the journal recomputes
  the realized PnL in another order, gets another last digit, and raises.
\<close>

theorem journal_rejects_rounded_average:
 "\<exists>r1 r2 r3. apply_fill_to_position sample_hasher None
      (sample_fill ''fill_1'' BUY 2 (91/100) 10) ''USD'' None = Inr r1 \<and>
   apply_fill_to_position sample_hasher (Some (pp_position r1))
      (sample_fill ''fill_2'' BUY 1 (1/50) 20) ''USD'' None = Inr r2 \<and>
   apply_fill_to_position sample_hasher (Some (pp_position r2))
      (sample_fill ''fill_3'' SELL 2 (39/100) 30) ''USD'' None = Inr r3 \<and>
   build_fill_journal_entry sample_hasher (sample_fill ''fill_3'' SELL 2 (39/100) 30) r3 ''evt_3'' 40 =
     Inl (PortfolioProjectionError (Journal (Journal_mismatch F_realized_trading_pnl)))"
  by (simp add: fill_compute sample_arithmetic build_fill_journal_entry_def
      validate_projection_for_fill_def fill_direction_def sample_realized rounded_average_nonneg)

end
