(* ===== verification/Idempotence.thy ===== *)
theory Idempotence
  imports Prelude
begin

text \<open>
  The contract of the \<open>*_once\<close> operations of \<open>src/pmrp/portfolio\<close>: a command carries an
  identifier, the operation keeps the set of identifiers already applied, and a command whose
  identifier is in the set changes nothing. The locale \<open>apply_once\<close> states it for any such
  operation; each module interprets it on its own operation.

  \<open>step s ids a\<close> is the operation, \<open>key s a\<close> the identifier it derives, and \<open>accepts s a\<close> the
  validation it runs before it looks the identifier up.
\<close>

text \<open>The first occurrence of each command of a delivery, given those seen before.\<close>

fun firsts :: "'a list \<Rightarrow> 'a list \<Rightarrow> 'a list" where
  "firsts seen [] = []"
| "firsts seen (a # as) = (if a \<in> set seen then firsts seen as else a # firsts (a # seen) as)"

locale apply_once =
  fixes step :: "'s \<Rightarrow> string set \<Rightarrow> 'a \<Rightarrow> 'e + 's \<times> string set"
    and key :: "'s \<Rightarrow> 'a \<Rightarrow> string"
    and accepts :: "'s \<Rightarrow> 'a \<Rightarrow> bool"
  assumes duplicate: "accepts s a \<Longrightarrow> key s a \<in> ids \<Longrightarrow> step s ids a = Inr (s, ids)"
    and accepted: "step s ids a = Inr (s', ids') \<Longrightarrow> accepts s a"
    and recorded: "step s ids a = Inr (s', ids') \<Longrightarrow> ids' = insert (key s a) ids"
    and frame: "step s ids a = Inr (s', ids') \<Longrightarrow> key s' b = key s b \<and> accepts s' b = accepts s b"
begin

definition run :: "'s \<times> string set \<Rightarrow> 'a list \<Rightarrow> 'e + 's \<times> string set" where
  "run = foldE (\<lambda>(s, ids). step s ids)"

lemma run_simps [simp]:
  "run st [] = Inr st"
  "run (s, ids) (a # as) = bindE (step s ids a) (\<lambda>st. run st as)"
  by (simp_all add: run_def)

lemma run_append: "run st (as @ bs) = bindE (run st as) (\<lambda>st'. run st' bs)"
  by (simp add: run_def foldE_append)

lemma idempotent:
  assumes "step s ids a = Inr (s', ids')"
  shows "step s' ids' a = Inr (s', ids')"
  using assms duplicate [of s' a ids'] accepted [OF assms] recorded [OF assms] frame [OF assms, of a]
  by simp

text \<open>A run only grows the identifier set, and keeps identifiers and validation stable.\<close>

lemma run_frame:
  assumes "run (s, ids) as = Inr (t, J)"
  shows "ids \<subseteq> J" and "\<And>b. key t b = key s b" and "\<And>b. accepts t b = accepts s b"
    and "\<And>b. b \<in> set as \<Longrightarrow> key s b \<in> J" and "\<And>b. b \<in> set as \<Longrightarrow> accepts s b"
    and "J = ids \<union> key s ` set as"
proof -
  have "ids \<subseteq> J \<and> (\<forall>b. key t b = key s b \<and> accepts t b = accepts s b) \<and>
      (\<forall>b \<in> set as. key s b \<in> J \<and> accepts s b) \<and> J = ids \<union> key s ` set as"
    using assms
  proof (induction as arbitrary: s ids)
    case Nil
    then show ?case by simp
  next
    case (Cons a as)
    from Cons.prems obtain s' ids' where st: "step s ids a = Inr (s', ids')"
      and rest: "run (s', ids') as = Inr (t, J)"
      by (auto simp: bindE_eq_Inr)
    show ?case
      using Cons.IH [OF rest] accepted [OF st] recorded [OF st] frame [OF st] by auto
  qed
  then show "ids \<subseteq> J" "\<And>b. key t b = key s b" "\<And>b. accepts t b = accepts s b"
    "\<And>b. b \<in> set as \<Longrightarrow> key s b \<in> J" "\<And>b. b \<in> set as \<Longrightarrow> accepts s b"
    "J = ids \<union> key s ` set as"
    by auto
qed

text \<open>Commands that were applied before may be delivered again, in any order and number.\<close>

lemma run_known:
  assumes "\<And>b. b \<in> set bs \<Longrightarrow> key s b \<in> ids \<and> accepts s b"
  shows "run (s, ids) bs = Inr (s, ids)"
  using assms by (induction bs) (auto simp: duplicate)

lemma redelivery:
  assumes "run st as = Inr st'" and "set bs \<subseteq> set as"
  shows "run st (as @ bs) = Inr st'"
proof -
  obtain s ids t J where st: "st = (s, ids)" "st' = (t, J)" by (cases st; cases st')
  note run = run_frame [OF assms(1) [unfolded st]]
  have "run (t, J) bs = Inr (t, J)" using assms(2) by (intro run_known) (auto simp: run)
  with assms(1) show ?thesis by (simp add: run_append st)
qed

text \<open>
  At-least-once delivery is exactly-once delivery: the first occurrence of each command, in
  order, decides the result.
\<close>

lemma at_least_once:
  assumes "\<And>b. b \<in> set seen \<Longrightarrow> key s b \<in> ids \<and> accepts s b"
  shows "run (s, ids) (firsts seen as) = run (s, ids) as"
  using assms
proof (induction as arbitrary: s ids seen)
  case Nil
  then show ?case by simp
next
  case (Cons a as)
  show ?case
  proof (cases "a \<in> set seen")
    case True
    then have "step s ids a = Inr (s, ids)" using Cons.prems duplicate by blast
    with True Cons show ?thesis by simp
  next
    case False
    show ?thesis
    proof (cases "step s ids a")
      case (Inr st)
      obtain s' ids' where st: "st = (s', ids')" by (cases st)
      with Inr have step: "step s ids a = Inr (s', ids')" by simp
      have "run (s', ids') (firsts (a # seen) as) = run (s', ids') as"
        by (rule Cons.IH) (use Cons.prems accepted [OF step] recorded [OF step] frame [OF step] in auto)
      with False step show ?thesis by simp
    qed (use False in simp)
  qed
qed

end

end
