(* ===== verification/Balances.thy ===== *)
theory Balances
  imports Journal Idempotence
begin

text \<open>
  \<open>src/pmrp/portfolio/balances.py\<close>: applying the cash lines of a journal entry to a cash
  balance, and correcting a balance to an observed one. The lemmas say when an entry is accepted,
  that the identity \<open>available + reserved = total\<close> survives, that in fixed point the balance moves by
  exactly the cash lines, and that a correction lands on the observation, once.
\<close>

section \<open>Applying a journal entry\<close>

record cash_projection =
  cp_balance :: cash_balance
  cp_cash_delta :: money

record cash_application =
  ca_balance :: cash_balance
  ca_cash_projection :: "cash_projection option"
  ca_applied_journal_entry_ids :: "string set"
  ca_applied :: bool
  ca_duplicate_journal_entry :: bool

record cash_correction =
  cc_balance :: cash_balance
  cc_cash_projection :: "cash_projection option"
  cc_journal_entry :: "journal_entry option"
  cc_applied_journal_entry_ids :: "string set"
  cc_applied :: bool
  cc_duplicate_correction :: bool

definition balances_raise :: "balances_error \<Rightarrow> py_error" where
  "balances_raise e = PortfolioProjectionError (Balances e)"

definition cash_delta_for_currency :: "journal_entry \<Rightarrow> string \<Rightarrow> string \<Rightarrow> money result" where
  "cash_delta_for_currency e cur code =
     bindE (validate_currency cur) (\<lambda>c.
     let matching = filter (\<lambda>l. jl_account_code l = code \<and> jl_currency l = c) (je_lines e) in
     bindE (guards
       [(blank_or_padded code, balances_raise Cash_account_code_invalid),
        (matching = [], balances_raise No_cash_line)]) (\<lambda>_.
     Inr \<lparr>amount = dsum (map jl_amount matching), currency = c\<rparr>))"

definition apply_journal_to_cash_balance ::
  "cash_balance \<Rightarrow> journal_entry \<Rightarrow> string \<Rightarrow> cash_projection result" where
  "apply_journal_to_cash_balance b e code =
     bindE (guards [(je_occurred_at e < cb_captured_at b, balances_raise Journal_before_balance)]) (\<lambda>_.
     bindE (cash_delta_for_currency e (cb_currency b) code) (\<lambda>delta.
     bindE (mk_cash_balance (b\<lparr>cb_available := dadd (cb_available b) (amount delta),
              cb_total := dadd (cb_total b) (amount delta),
              cb_captured_at := je_occurred_at e\<rparr>)) (\<lambda>projected.
     Inr \<lparr>cp_balance = projected, cp_cash_delta = delta\<rparr>)))"

definition apply_journal_to_cash_balance_once ::
  "cash_balance \<Rightarrow> journal_entry \<Rightarrow> string set \<Rightarrow> cash_application result" where
  "apply_journal_to_cash_balance_once b e ids =
     (if je_journal_entry_id e \<in> ids then
        Inr \<lparr>ca_balance = b, ca_cash_projection = None, ca_applied_journal_entry_ids = ids,
             ca_applied = False, ca_duplicate_journal_entry = True\<rparr>
      else
        bindE (apply_journal_to_cash_balance b e ACCOUNT_CASH) (\<lambda>projection.
        Inr \<lparr>ca_balance = cp_balance projection, ca_cash_projection = Some projection,
             ca_applied_journal_entry_ids = ids \<union> {je_journal_entry_id e},
             ca_applied = True, ca_duplicate_journal_entry = False\<rparr>))"

section \<open>Corrections\<close>

definition ACCOUNT_BALANCE_CORRECTION :: string where
  "ACCOUNT_BALANCE_CORRECTION = ''balance_correction''"

definition validate_balance_correction_identity ::
  "cash_balance \<Rightarrow> cash_balance \<Rightarrow> string \<Rightarrow> (bool \<times> py_error) list" where
  "validate_balance_correction_identity b obs reference_id =
     [(reference_id = [], balances_raise Correction_reference_missing),
      (cb_balance_id obs \<noteq> cb_balance_id b, balances_raise (Correction_mismatch F_balance_id)),
      (cb_exchange obs \<noteq> cb_exchange b, balances_raise (Correction_mismatch F_exchange)),
      (cb_account_id obs \<noteq> cb_account_id b, balances_raise (Correction_mismatch F_account_id)),
      (cb_currency obs \<noteq> cb_currency b, balances_raise (Correction_mismatch F_currency))]"

definition validate_balance_correction_application ::
  "cash_balance \<Rightarrow> cash_balance \<Rightarrow> string \<Rightarrow> (bool \<times> py_error) list" where
  "validate_balance_correction_application b obs reference_id =
     validate_balance_correction_identity b obs reference_id @
     [(cb_captured_at obs < cb_captured_at b, balances_raise Correction_observed_stale),
      (cb_reserved obs \<noteq> cb_reserved b, balances_raise Correction_changes_reserved)]"

definition derive_balance_correction_journal_entry_id ::
  "hasher \<Rightarrow> cash_balance \<Rightarrow> cash_balance \<Rightarrow> string \<Rightarrow> string" where
  "derive_balance_correction_journal_entry_id H b obs reference_id =
     ''journal_balance_correction_'' @ short_digest H (CMap
       [(''balance_id'', CStr (cb_balance_id b)),
        (''observed_available'', CDec (cb_available obs)),
        (''observed_captured_at'', CTime (cb_captured_at obs)),
        (''observed_total'', CDec (cb_total obs)),
        (''reference_id'', CStr reference_id),
        (''schema'', CStr ''pmrp.balance_correction_journal_entry.v1'')])"

definition derive_cash_balance_id ::
  "hasher \<Rightarrow> string \<Rightarrow> ident \<Rightarrow> string \<Rightarrow> string result" where
  "derive_cash_balance_id H exchange account_id cur =
     bindE (validate_currency cur) (\<lambda>c.
     Inr (''cash_'' @ short_digest H (CMap
       [(''account_id'', CStr account_id), (''currency'', CStr c), (''exchange'', CStr exchange),
        (''schema'', CStr ''pmrp.cash_balance_identity.v1'')])))"

definition build_balance_correction_journal_entry ::
  "hasher \<Rightarrow> cash_balance \<Rightarrow> cash_balance \<Rightarrow> string \<Rightarrow> ident \<Rightarrow> instant \<Rightarrow> journal_entry result" where
  "build_balance_correction_journal_entry H b obs reference_id source_event_id created_at =
     bindE (guards (validate_balance_correction_application b obs reference_id)) (\<lambda>_.
     let delta = dsub (cb_available obs) (cb_available b) in
     bindE (guards [(delta = 0, balances_raise Correction_zero_delta)]) (\<lambda>_.
     bindE (mapE mk_journal_line
       [\<lparr>jl_account_code = ACCOUNT_CASH, jl_amount = delta, jl_currency = cb_currency b,
         jl_description = Some ''Balance correction cash movement.''\<rparr>,
        \<lparr>jl_account_code = ACCOUNT_BALANCE_CORRECTION, jl_amount = dneg delta,
         jl_currency = cb_currency b, jl_description = Some ''Balance correction offset.''\<rparr>]) (\<lambda>lines.
     mk_journal_entry
       \<lparr>je_journal_entry_id = derive_balance_correction_journal_entry_id H b obs reference_id,
        je_occurred_at = cb_captured_at obs, je_source_event_id = source_event_id,
        je_reference_type = ''balance_correction'', je_reference_id = reference_id,
        je_lines = lines,
        je_description = ''Cash balance correction for '' @ cb_balance_id b @ ''.'',
        je_created_at = created_at\<rparr>)))"

definition apply_balance_correction_once ::
  "hasher \<Rightarrow> cash_balance \<Rightarrow> cash_balance \<Rightarrow> string set \<Rightarrow> string \<Rightarrow> ident \<Rightarrow> instant \<Rightarrow>
   cash_correction result" where
  "apply_balance_correction_once H b obs ids reference_id source_event_id created_at =
     bindE (guards (validate_balance_correction_identity b obs reference_id)) (\<lambda>_.
     let entry_id = derive_balance_correction_journal_entry_id H b obs reference_id in
     if entry_id \<in> ids then
       Inr \<lparr>cc_balance = b, cc_cash_projection = None, cc_journal_entry = None,
            cc_applied_journal_entry_ids = ids, cc_applied = False,
            cc_duplicate_correction = True\<rparr>
     else
       bindE (build_balance_correction_journal_entry H b obs reference_id source_event_id created_at) (\<lambda>e.
       bindE (apply_journal_to_cash_balance b e ACCOUNT_CASH) (\<lambda>projection.
       Inr \<lparr>cc_balance = cp_balance projection, cc_cash_projection = Some projection,
            cc_journal_entry = Some e, cc_applied_journal_entry_ids = ids \<union> {entry_id},
            cc_applied = True, cc_duplicate_correction = False\<rparr>)))"

section \<open>What an accepted entry does\<close>

definition cash_lines :: "string \<Rightarrow> string \<Rightarrow> journal_entry \<Rightarrow> rat list" where
  "cash_lines code c e =
     map jl_amount (filter (\<lambda>l. jl_account_code l = code \<and> jl_currency l = c) (je_lines e))"

definition moved :: "cash_balance \<Rightarrow> rat \<Rightarrow> instant \<Rightarrow> cash_balance" where
  "moved b d t = b\<lparr>cb_available := dadd (cb_available b) d, cb_total := dadd (cb_total b) d,
     cb_captured_at := t\<rparr>"

lemma moved_sel [simp]:
  "cb_balance_id (moved b d t) = cb_balance_id b" "cb_exchange (moved b d t) = cb_exchange b"
  "cb_account_id (moved b d t) = cb_account_id b" "cb_currency (moved b d t) = cb_currency b"
  "cb_reserved (moved b d t) = cb_reserved b" "cb_captured_at (moved b d t) = t"
  "cb_available (moved b d t) = dadd (cb_available b) d" "cb_total (moved b d t) = dadd (cb_total b) d"
  by (simp_all add: moved_def)

lemma apply_journal_Inr_iff:
  "apply_journal_to_cash_balance b e code = Inr r \<longleftrightarrow>
     cb_captured_at b \<le> je_occurred_at e \<and> valid_currency (cb_currency b) \<and>
     \<not> blank_or_padded code \<and> cash_lines code (cb_currency b) e \<noteq> [] \<and>
     cash_balance_valid (moved b (dsum (cash_lines code (cb_currency b) e)) (je_occurred_at e)) \<and>
     r = \<lparr>cp_balance = moved b (dsum (cash_lines code (cb_currency b) e)) (je_occurred_at e),
          cp_cash_delta = \<lparr>amount = dsum (cash_lines code (cb_currency b) e), currency = cb_currency b\<rparr>\<rparr>"
proof (cases "valid_currency (cb_currency b)")
  case True
  then show ?thesis
    by (auto simp: apply_journal_to_cash_balance_def cash_delta_for_currency_def Let_def
        cash_lines_def moved_def mk_cash_balance_cases bindE_eq_Inr guards_ok_iff)
next
  case False
  then obtain err where "validate_currency (cb_currency b) = Inl err"
    by (simp add: validate_currency_def split: if_splits)
  then show ?thesis by (auto simp: apply_journal_to_cash_balance_def cash_delta_for_currency_def bindE_eq_Inr)
qed

text \<open>Cash in fixed point: at most \<open>n\<close> units of \<open>10 ^ -s\<close> in each part.\<close>

definition balance_on_grid :: "nat \<Rightarrow> nat \<Rightarrow> cash_balance \<Rightarrow> bool" where
  "balance_on_grid s n b \<longleftrightarrow> on_grid s n (cb_available b) \<and> on_grid s n (cb_reserved b)"

lemma balance_total_exact:
  assumes "cash_balance_valid b" and "balance_on_grid s n b" and "2 * n \<le> 10 ^ 28"
  shows "cb_total b = cb_available b + cb_reserved b" and "on_grid s (2 * n) (cb_total b)"
proof -
  have g: "on_grid s (n + n) (cb_available b + cb_reserved b)"
    using assms(2) by (auto simp: balance_on_grid_def intro: on_grid_add)
  then show e: "cb_total b = cb_available b + cb_reserved b"
    using assms(1,3) on_grid_fits [OF g] by (simp add: cash_balance_valid_iff dadd_def d28.rnd_exact)
  show "on_grid s (2 * n) (cb_total b)" using g by (simp add: e mult_2)
qed

lemma moved_exact:
  assumes v: "cash_balance_valid b" and g: "balance_on_grid s n b" and d: "on_grid s m d"
    and bound: "2 * n + m \<le> 10 ^ 28"
  shows "cash_balance_valid (moved b d t)"
    and "cb_available (moved b d t) = cb_available b + d"
    and "cb_total (moved b d t) = cb_total b + d"
    and "cb_available (moved b d t) + cb_reserved b = cb_total (moved b d t)"
proof -
  have n: "2 * n \<le> 10 ^ 28" "n + m \<le> 10 ^ 28" using bound by linarith+
  note total = balance_total_exact [OF v g n(1)]
  have ga: "on_grid s (n + m) (cb_available b + d)" and gt: "on_grid s (2 * n + m) (cb_total b + d)"
    using g d total(2) by (auto simp: balance_on_grid_def intro: on_grid_add)
  show a: "cb_available (moved b d t) = cb_available b + d"
    using on_grid_fits [OF ga n(2)] by (simp add: dadd_def d28.rnd_exact)
  show t: "cb_total (moved b d t) = cb_total b + d"
    using on_grid_fits [OF gt bound] by (simp add: dadd_def d28.rnd_exact)
  show i: "cb_available (moved b d t) + cb_reserved b = cb_total (moved b d t)"
    unfolding a t total(1) by simp
  have "dadd (cb_available b + d) (cb_reserved b) = cb_total b + d"
    using on_grid_fits [OF gt bound] by (simp add: dadd_def d28.rnd_exact total(1) ac_simps)
  then show "cash_balance_valid (moved b d t)"
    using v a t unfolding cash_balance_valid_iff by simp
qed

lemma sum_on_grid:
  assumes "\<And>x. x \<in> set xs \<Longrightarrow> on_grid s n x"
  shows "on_grid s (length xs * n) (sum_list xs)"
  using assms by (induction xs) (auto simp: on_grid_zero intro: on_grid_add)

lemma apply_journal_exact:
  assumes v: "cash_balance_valid b" and g: "balance_on_grid s n b"
    and lines: "\<And>x. x \<in> set (cash_lines code (cb_currency b) e) \<Longrightarrow> on_grid s m x"
    and bound: "2 * n + length (cash_lines code (cb_currency b) e) * m \<le> 10 ^ 28"
    and ok: "cb_captured_at b \<le> je_occurred_at e" "\<not> blank_or_padded code"
      "cash_lines code (cb_currency b) e \<noteq> []"
  shows "apply_journal_to_cash_balance b e code =
    Inr \<lparr>cp_balance = moved b (sum_list (cash_lines code (cb_currency b) e)) (je_occurred_at e),
         cp_cash_delta = \<lparr>amount = sum_list (cash_lines code (cb_currency b) e), currency = cb_currency b\<rparr>\<rparr>"
proof -
  let ?xs = "cash_lines code (cb_currency b) e"
  have "length ?xs * m \<le> 10 ^ 28" using bound by linarith
  then have d: "dsum ?xs = sum_list ?xs" using lines by (intro dsum_exact)
  have "cash_balance_valid (moved b (sum_list ?xs) (je_occurred_at e))"
    by (rule moved_exact(1) [OF v g sum_on_grid bound]) (rule lines)
  then show ?thesis using ok v by (simp add: apply_journal_Inr_iff d cash_balance_valid_iff)
qed

lemma cash_code_ok [simp]: "\<not> blank_or_padded ACCOUNT_CASH"
  by (simp add: blank_or_padded_def py_strip_def py_isspace_def ACCOUNT_CASH_def)

section \<open>Corrections land on the observation\<close>

definition correction_id_ok :: "cash_balance \<Rightarrow> cash_balance \<Rightarrow> string \<Rightarrow> bool" where
  "correction_id_ok b obs reference_id \<longleftrightarrow> reference_id \<noteq> [] \<and>
     cb_balance_id obs = cb_balance_id b \<and> cb_exchange obs = cb_exchange b \<and>
     cb_account_id obs = cb_account_id b \<and> cb_currency obs = cb_currency b"

lemma correction_identity_iff:
  "guards (validate_balance_correction_identity b obs r) = Inr u \<longleftrightarrow> correction_id_ok b obs r"
  by (auto simp: guards_ok_iff validate_balance_correction_identity_def correction_id_ok_def)

lemma correction_application_iff:
  "guards (validate_balance_correction_application b obs r) = Inr u \<longleftrightarrow>
     correction_id_ok b obs r \<and> cb_captured_at b \<le> cb_captured_at obs \<and> cb_reserved obs = cb_reserved b"
  by (auto simp: guards_ok_iff validate_balance_correction_application_def
      validate_balance_correction_identity_def correction_id_ok_def)

text \<open>Two lines that offset each other: the shape of every cash movement entry.\<close>

lemma offset_balanced:
  assumes "dec_fits 28 a"
  shows "balanced [journal_line_of x a c d, journal_line_of y (dneg a) c d']"
    and "balanced [journal_line_of x (dneg a) c d, journal_line_of y a c d']"
  using assms by (simp_all add: balanced_def currency_total_def dsum_def dneg_exact dadd_def d28.rnd_exact)

lemma build_correction_exact:
  assumes "valid_currency (cb_currency b)" "text_in 1 128 reference_id" "text_in 1 128 (cb_balance_id b)"
    and "correction_id_ok b obs reference_id" "cb_captured_at b \<le> cb_captured_at obs"
    and "cb_reserved obs = cb_reserved b" "cb_available obs \<noteq> cb_available b"
    and "cb_captured_at obs \<le> created_at"
  obtains e where
    "build_balance_correction_journal_entry H b obs reference_id source_event_id created_at = Inr e"
    and "je_journal_entry_id e = derive_balance_correction_journal_entry_id H b obs reference_id"
    and "je_occurred_at e = cb_captured_at obs"
    and "cash_lines ACCOUNT_CASH (cb_currency b) e = [dsub (cb_available obs) (cb_available b)]"
proof -
  let ?d = "dsub (cb_available obs) (cb_available b)"
  have bal: "balanced [journal_line_of ACCOUNT_CASH ?d (cb_currency b) ''Balance correction cash movement.'',
      journal_line_of ACCOUNT_BALANCE_CORRECTION (dneg ?d) (cb_currency b) ''Balance correction offset.'']"
    by (rule offset_balanced) simp
  have len: "length (derive_balance_correction_journal_entry_id H b obs reference_id) \<le> 128"
    using short_digest_length [of 101 H]
    by (simp add: derive_balance_correction_journal_entry_id_def)
  show ?thesis
  proof (rule that)
    show "build_balance_correction_journal_entry H b obs reference_id source_event_id created_at = Inr
       \<lparr>je_journal_entry_id = derive_balance_correction_journal_entry_id H b obs reference_id,
        je_occurred_at = cb_captured_at obs, je_source_event_id = source_event_id,
        je_reference_type = ''balance_correction'', je_reference_id = reference_id,
        je_lines = [journal_line_of ACCOUNT_CASH ?d (cb_currency b) ''Balance correction cash movement.'',
          journal_line_of ACCOUNT_BALANCE_CORRECTION (dneg ?d) (cb_currency b) ''Balance correction offset.''],
        je_description = ''Cash balance correction for '' @ cb_balance_id b @ ''.'',
        je_created_at = created_at\<rparr>"
      unfolding build_balance_correction_journal_entry_def bindE_eq_Inr correction_application_iff
        Let_def mk_journal_entry_iff
      using assms bal len
      by (auto simp: mk_journal_line_def text_in_def ACCOUNT_CASH_def ACCOUNT_BALANCE_CORRECTION_def
          derive_balance_correction_journal_entry_id_def)
  qed (simp_all add: cash_lines_def ACCOUNT_CASH_def ACCOUNT_BALANCE_CORRECTION_def)
qed

lemma correction_lands:
  assumes v: "cash_balance_valid b" "cash_balance_valid obs"
    and g: "balance_on_grid s n b" "balance_on_grid s n obs" and bound: "4 * n \<le> 10 ^ 28"
    and ok: "correction_id_ok b obs reference_id" "cb_captured_at b \<le> cb_captured_at obs"
      "cb_reserved obs = cb_reserved b" "cb_available obs \<noteq> cb_available b"
      "cb_captured_at obs \<le> created_at" "text_in 1 128 reference_id"
    and new: "derive_balance_correction_journal_entry_id H b obs reference_id \<notin> ids"
  obtains r where
    "apply_balance_correction_once H b obs ids reference_id source_event_id created_at = Inr r"
    and "cc_balance r = obs" "cc_applied r" "\<not> cc_duplicate_correction r"
    and "cc_applied_journal_entry_ids r =
      ids \<union> {derive_balance_correction_journal_entry_id H b obs reference_id}"
proof -
  let ?d = "cb_available obs - cb_available b"
  have cur: "valid_currency (cb_currency b)" "text_in 1 128 (cb_balance_id b)"
    using v(1) by (auto simp: cash_balance_valid_iff)
  obtain e where e: "build_balance_correction_journal_entry H b obs reference_id source_event_id created_at = Inr e"
    and t: "je_occurred_at e = cb_captured_at obs"
    and lines: "cash_lines ACCOUNT_CASH (cb_currency b) e = [dsub (cb_available obs) (cb_available b)]"
    by (rule build_correction_exact [OF cur(1) ok(6) cur(2) ok(1-5)])
  have n: "2 * n \<le> 10 ^ 28" "n + n \<le> 10 ^ 28" using bound by linarith+
  have gd: "on_grid s (n + n) ?d" using g by (auto simp: balance_on_grid_def intro: on_grid_diff)
  then have d: "dsub (cb_available obs) (cb_available b) = ?d"
    using on_grid_fits [OF gd n(2)] by (simp add: dsub_def d28.rnd_exact)
  have b2: "2 * n + length (cash_lines ACCOUNT_CASH (cb_currency b) e) * (n + n) \<le> 10 ^ 28"
    using bound by (simp add: lines)
  have ap: "apply_journal_to_cash_balance b e ACCOUNT_CASH =
      Inr \<lparr>cp_balance = moved b ?d (cb_captured_at obs),
           cp_cash_delta = \<lparr>amount = ?d, currency = cb_currency b\<rparr>\<rparr>"
    using apply_journal_exact [OF v(1) g(1) _ b2] gd ok(2) by (simp add: lines d t)
  have b1: "2 * n + (n + n) \<le> 10 ^ 28" using bound by linarith
  note total = balance_total_exact(1) [OF v(1) g(1) n(1)] balance_total_exact(1) [OF v(2) g(2) n(1)]
  have "moved b ?d (cb_captured_at obs) = obs"
    using moved_exact(2,3) [OF v(1) g(1) gd b1, of "cb_captured_at obs"] total ok(1,3)
    by (auto intro!: cash_balance.equality simp: correction_id_ok_def)
  then have "apply_balance_correction_once H b obs ids reference_id source_event_id created_at = Inr
      \<lparr>cc_balance = obs, cc_cash_projection = Some \<lparr>cp_balance = obs,
         cp_cash_delta = \<lparr>amount = ?d, currency = cb_currency b\<rparr>\<rparr>, cc_journal_entry = Some e,
       cc_applied_journal_entry_ids = ids \<union> {derive_balance_correction_journal_entry_id H b obs reference_id},
       cc_applied = True, cc_duplicate_correction = False\<rparr>"
    using new ok(1) correction_identity_iff [of b obs reference_id "()"]
    by (simp add: apply_balance_correction_once_def e ap)
  then show ?thesis by (rule that) simp_all
qed

section \<open>The apply-once contract\<close>

definition cash_step :: "cash_balance \<Rightarrow> string set \<Rightarrow> journal_entry \<Rightarrow> (cash_balance \<times> string set) result" where
  "cash_step b ids e = bindE (apply_journal_to_cash_balance_once b e ids)
     (\<lambda>r. Inr (ca_balance r, ca_applied_journal_entry_ids r))"

interpretation cash_once: apply_once cash_step "\<lambda>_. je_journal_entry_id" "\<lambda>_ _. True"
  by unfold_locales
    (auto simp: cash_step_def apply_journal_to_cash_balance_once_def bindE_eq_Inr split: if_splits)

definition same_account :: "cash_balance \<Rightarrow> cash_balance \<Rightarrow> bool" where
  "same_account b b' \<longleftrightarrow> cb_balance_id b' = cb_balance_id b \<and> cb_exchange b' = cb_exchange b \<and>
     cb_account_id b' = cb_account_id b \<and> cb_currency b' = cb_currency b"

lemma same_account_moved [simp]: "same_account b (moved b d t)" "same_account b b"
  by (simp_all add: same_account_def)

text \<open>The arguments of one correction besides the balance and the identifier set.\<close>

type_synonym correction = "cash_balance \<times> string \<times> ident \<times> instant"

fun correction_step ::
  "hasher \<Rightarrow> cash_balance \<Rightarrow> string set \<Rightarrow> correction \<Rightarrow> (cash_balance \<times> string set) result" where
  "correction_step H b ids (obs, reference_id, source_event_id, created_at) =
     bindE (apply_balance_correction_once H b obs ids reference_id source_event_id created_at)
       (\<lambda>r. Inr (cc_balance r, cc_applied_journal_entry_ids r))"

fun correction_key :: "hasher \<Rightarrow> cash_balance \<Rightarrow> correction \<Rightarrow> string" where
  "correction_key H b (obs, reference_id, source_event_id, created_at) =
     derive_balance_correction_journal_entry_id H b obs reference_id"

fun correction_accepts :: "cash_balance \<Rightarrow> correction \<Rightarrow> bool" where
  "correction_accepts b (obs, reference_id, source_event_id, created_at) =
     correction_id_ok b obs reference_id"

lemma correction_step_Inr:
  assumes "correction_step H b ids a = Inr (b', ids')"
  shows "correction_accepts b a" and "ids' = insert (correction_key H b a) ids"
    and "same_account b b'"
proof -
  obtain obs rf src cr where a: "a = (obs, rf, src, cr)" by (cases a)
  show "correction_accepts b a" "ids' = insert (correction_key H b a) ids"
    "same_account b b'"
    using assms unfolding a correction_step.simps apply_balance_correction_once_def bindE_eq_Inr
      correction_identity_iff
    by (auto simp: Let_def bindE_eq_Inr apply_journal_Inr_iff same_account_def split: if_splits)
qed

interpretation correction_once: apply_once "correction_step H" "correction_key H" correction_accepts
proof
  fix b a ids
  assume acc: "correction_accepts b a" and key: "correction_key H b a \<in> ids"
  obtain obs rf src cr where a: "a = (obs, rf, src, cr)" by (cases a)
  have "guards (validate_balance_correction_identity b obs rf) = Inr ()"
    using acc unfolding correction_identity_iff a by simp
  with key show "correction_step H b ids a = Inr (b, ids)"
    by (simp add: a apply_balance_correction_once_def)
next
  fix b ids a b' ids'
  assume st: "correction_step H b ids a = Inr (b', ids')"
  note out = correction_step_Inr [OF st]
  show "correction_accepts b a" "ids' = insert (correction_key H b a) ids" by (fact out)+
  fix c
  show "correction_key H b' c = correction_key H b c \<and> correction_accepts b' c = correction_accepts b c"
    using out(3) by (cases c) (auto simp: same_account_def derive_balance_correction_journal_entry_id_def correction_id_ok_def)
qed

section \<open>Properties\<close>

definition sample_balance :: "string \<Rightarrow> rat \<Rightarrow> rat \<Rightarrow> instant \<Rightarrow> cash_balance" where
  "sample_balance i available reserved t =
     \<lparr>cb_balance_id = i, cb_exchange = ''kalshi'', cb_account_id = ''acct_1'', cb_currency = ''USD'',
      cb_available = available, cb_reserved = reserved, cb_total = available + reserved,
      cb_captured_at = t\<rparr>"

definition sample_entry :: "string \<Rightarrow> rat \<Rightarrow> instant \<Rightarrow> journal_entry" where
  "sample_entry i a t =
     \<lparr>je_journal_entry_id = i, je_occurred_at = t, je_source_event_id = ''evt_1'',
      je_reference_type = ''fee'', je_reference_id = ''fee_1'',
      je_lines = [journal_line_of ACCOUNT_CASH (- a) ''USD'' ''Cash.'',
                  journal_line_of ACCOUNT_FEES_PAID a ''USD'' ''Fee.''],
      je_description = ''Fee.'', je_created_at = t\<rparr>"

lemma sample_balance_valid:
  assumes "on_grid s n a" "on_grid s n r" "2 * n \<le> 10 ^ 28" "0 \<le> r" "text_in 1 128 i"
  shows "cash_balance_valid (sample_balance i a r t)"
proof -
  have "on_grid s (2 * n) (a + r)" using on_grid_add [OF assms(1,2)] by (simp add: mult_2)
  from on_grid_fits [OF this assms(3)] show ?thesis
    using assms(4,5) usd_valid
    by (simp add: cash_balance_valid_iff sample_balance_def text_in_def dadd_def d28.rnd_exact)
qed

lemma sample_sel [simp]:
  "cb_available (sample_balance i a r t) = a" "cb_reserved (sample_balance i a r t) = r"
  "cb_total (sample_balance i a r t) = a + r" "cb_captured_at (sample_balance i a r t) = t"
  "cb_currency (sample_balance i a r t) = ''USD''" "cb_balance_id (sample_balance i a r t) = i"
  "je_occurred_at (sample_entry j x t) = t" "je_journal_entry_id (sample_entry j x t) = j"
  "cash_lines ACCOUNT_CASH ''USD'' (sample_entry j x t) = [- x]"
  by (simp_all add: sample_balance_def sample_entry_def cash_lines_def account_codes)

text \<open>
  An accepted journal entry moves a cash balance by exactly its cash lines. In fixed point
  (\<open>2 n + k m \<le> 10^28\<close> for \<open>k\<close> cash lines of at most \<open>m\<close> units), an entry that is not older than the
  balance and has a line for the cash account in its currency is accepted; available and total move
  by the sum of those lines, reserved cash and the account's identity stay, the balance takes the
  entry's time, and available plus reserved is the total.
\<close>

theorem journal_moves_cash_exactly:
  assumes "cash_balance_valid b" and "balance_on_grid s n b"
    and "\<And>x. x \<in> set (cash_lines code (cb_currency b) e) \<Longrightarrow> on_grid s m x"
    and "2 * n + length (cash_lines code (cb_currency b) e) * m \<le> 10 ^ 28"
    and "cb_captured_at b \<le> je_occurred_at e" and "\<not> blank_or_padded code"
    and "cash_lines code (cb_currency b) e \<noteq> []"
  shows "\<exists>r. apply_journal_to_cash_balance b e code = Inr r \<and> cash_balance_valid (cp_balance r) \<and>
    cb_available (cp_balance r) = cb_available b + sum_list (cash_lines code (cb_currency b) e) \<and>
    cb_total (cp_balance r) = cb_total b + sum_list (cash_lines code (cb_currency b) e) \<and>
    cb_reserved (cp_balance r) = cb_reserved b \<and> same_account b (cp_balance r) \<and>
    cb_captured_at (cp_balance r) = je_occurred_at e \<and>
    cb_available (cp_balance r) + cb_reserved (cp_balance r) = cb_total (cp_balance r)"
  using apply_journal_exact [OF assms] moved_exact [OF assms(1,2) sum_on_grid assms(4)] assms(3)
  by auto

theorem journal_moves_cash_exactly_witness:
  "\<exists>r. apply_journal_to_cash_balance (sample_balance ''b'' 100 7 10) (sample_entry ''j'' (3/2) 20) ACCOUNT_CASH = Inr r \<and>
    cb_available (cp_balance r) = 197/2 \<and> cb_total (cp_balance r) = 211/2"
proof -
  let ?b = "sample_balance ''b'' 100 7 10" and ?e = "sample_entry ''j'' (3/2) 20"
  have g: "on_grid 1 1000 100" "on_grid 1 1000 7" "on_grid 1 1000 (3/2)" by (simp_all add: on_grid_def)
  have "cash_balance_valid ?b"
    by (rule sample_balance_valid [OF g(1,2)]) (simp_all add: text_in_def)
  moreover have "balance_on_grid 1 1000 ?b" using g by (simp add: balance_on_grid_def)
  ultimately obtain r where "apply_journal_to_cash_balance ?b ?e ACCOUNT_CASH = Inr r"
    "cb_available (cp_balance r) = 100 + sum_list [- (3/2)]" "cb_total (cp_balance r) = 107 + sum_list [- (3/2)]"
    using journal_moves_cash_exactly [of ?b 1 1000 ACCOUNT_CASH ?e 1000] g(3) by auto
  then show ?thesis by auto
qed

text \<open>
  A balance correction lands on the observation, once. For valid fixed-point balances of the
  same account with the same reserved cash, a correction that is not stale and changes the
  available cash is accepted, the new balance is the observed balance, and applying the same
  correction again changes nothing and is reported as a duplicate.
\<close>

theorem correction_reaches_observation:
  assumes "cash_balance_valid b" and "cash_balance_valid obs"
    and "balance_on_grid s n b" and "balance_on_grid s n obs" and "4 * n \<le> 10 ^ 28"
    and "correction_id_ok b obs reference_id" and "cb_captured_at b \<le> cb_captured_at obs"
    and "cb_reserved obs = cb_reserved b" and "cb_available obs \<noteq> cb_available b"
    and "cb_captured_at obs \<le> created_at" and "text_in 1 128 reference_id"
    and "derive_balance_correction_journal_entry_id H b obs reference_id \<notin> ids"
  shows "\<exists>r again. apply_balance_correction_once H b obs ids reference_id source_event_id created_at = Inr r \<and>
    cc_balance r = obs \<and> cc_applied r \<and>
    apply_balance_correction_once H (cc_balance r) obs (cc_applied_journal_entry_ids r)
      reference_id source_event_id created_at = Inr again \<and>
    cc_balance again = obs \<and> cc_duplicate_correction again \<and> cc_journal_entry again = None \<and>
    cc_applied_journal_entry_ids again = cc_applied_journal_entry_ids r"
proof -
  obtain r where r: "apply_balance_correction_once H b obs ids reference_id source_event_id created_at = Inr r"
    "cc_balance r = obs" "cc_applied r"
    "cc_applied_journal_entry_ids r =
      ids \<union> {derive_balance_correction_journal_entry_id H b obs reference_id}"
    by (rule correction_lands [OF assms])
  have "correction_id_ok obs obs reference_id" using assms(6) by (simp add: correction_id_ok_def)
  then have "guards (validate_balance_correction_identity obs obs reference_id) = Inr ()"
    by (simp add: correction_identity_iff)
  moreover have "derive_balance_correction_journal_entry_id H obs obs reference_id =
      derive_balance_correction_journal_entry_id H b obs reference_id"
    using assms(6) by (simp add: derive_balance_correction_journal_entry_id_def correction_id_ok_def)
  ultimately show ?thesis using r by (simp add: apply_balance_correction_once_def)
qed

theorem correction_reaches_observation_witness:
  "\<exists>r. apply_balance_correction_once sample_hasher (sample_balance ''b'' 100 7 10) (sample_balance ''b'' 99 7 20)
      {} ''recon_1'' ''evt_1'' 30 = Inr r \<and> cc_balance r = sample_balance ''b'' 99 7 20"
proof -
  let ?b = "sample_balance ''b'' 100 7 10" and ?o = "sample_balance ''b'' 99 7 20"
  have g: "on_grid 0 1000 100" "on_grid 0 1000 7" "on_grid 0 1000 99" by (simp_all add: on_grid_def)
  have "cash_balance_valid ?b" "cash_balance_valid ?o"
    by (rule sample_balance_valid [OF g(1,2)] sample_balance_valid [OF g(3,2)]; simp add: text_in_def)+
  moreover have "balance_on_grid 0 1000 ?b" "balance_on_grid 0 1000 ?o"
    using g by (simp_all add: balance_on_grid_def sample_balance_def)
  moreover have "correction_id_ok ?b ?o ''recon_1''" by (simp add: correction_id_ok_def sample_balance_def)
  ultimately show ?thesis
    using correction_reaches_observation [of ?b ?o 0 1000 "''recon_1''" 30 sample_hasher "{}" "''evt_1''"]
    by (auto simp: sample_balance_def text_in_def)
qed

text \<open>
  Journal entries delivered at least once act exactly once. A delivery of journal entries with
  any repetitions in between has the same outcome (the same balance and set of applied entries,
  or the same error) as its first occurrences in order.
\<close>

theorem cash_delivery_at_least_once:
  "foldE (\<lambda>(b, ids). cash_step b ids) (b, ids) (firsts [] entries) =
   foldE (\<lambda>(b, ids). cash_step b ids) (b, ids) entries"
  unfolding cash_once.run_def [symmetric] by (rule cash_once.at_least_once) simp

end
