(* ===== verification/Fees.thy ===== *)
theory Fees
  imports Balances
begin

text \<open>
  \<open>src/pmrp/portfolio/fees.py\<close>: fees and rebates the exchange reports outside of a fill. Each is
  a two-line journal entry applied once to a cash balance. The lemmas give the exact effect on the
  balance, the apply-once contract of both operations, and that a rebate undoes a fee.
\<close>

section \<open>Validation and identifiers\<close>

definition movement_raise :: "movement_error \<Rightarrow> py_error" where
  "movement_raise e = PortfolioProjectionError (Movement e)"

definition validate_balance_currency :: "cash_balance \<Rightarrow> money \<Rightarrow> field \<Rightarrow> unit result" where
  "validate_balance_currency b m fld =
     guards [(cb_currency b \<noteq> currency m, movement_raise (Amount_currency_mismatch fld))]"

definition validate_positive_money :: "money \<Rightarrow> field \<Rightarrow> unit result" where
  "validate_positive_money m fld = guards [(amount m \<le> 0, movement_raise (Amount_not_positive fld))]"

definition validate_reference_id :: "string \<Rightarrow> field \<Rightarrow> string result" where
  "validate_reference_id value fld =
     bindE (guards
       [(blank_or_padded value, movement_raise (Reference_id_invalid fld)),
        (128 < length value, movement_raise (Reference_id_too_long fld))]) (\<lambda>_. Inr value)"

definition derive_fee_journal_entry_id :: "hasher \<Rightarrow> string \<Rightarrow> string result" where
  "derive_fee_journal_entry_id H fee_id =
     bindE (validate_reference_id fee_id F_fee) (\<lambda>i.
     Inr (''journal_fee_'' @ short_digest H (CMap
       [(''fee_id'', CStr i), (''schema'', CStr ''pmrp.fee_journal_entry.v1'')])))"

definition derive_rebate_journal_entry_id :: "hasher \<Rightarrow> string \<Rightarrow> string result" where
  "derive_rebate_journal_entry_id H rebate_id =
     bindE (validate_reference_id rebate_id F_rebate) (\<lambda>i.
     Inr (''journal_rebate_'' @ short_digest H (CMap
       [(''rebate_id'', CStr i), (''schema'', CStr ''pmrp.rebate_journal_entry.v1'')])))"

section \<open>Journal entries\<close>

definition build_fee_journal_entry ::
  "hasher \<Rightarrow> money \<Rightarrow> string \<Rightarrow> ident \<Rightarrow> instant \<Rightarrow> instant \<Rightarrow> journal_entry result" where
  "build_fee_journal_entry H m fee_id source_event_id occurred_at created_at =
     bindE (validate_reference_id fee_id F_fee) (\<lambda>i.
     bindE (validate_positive_money m F_fee) (\<lambda>_.
     bindE (derive_fee_journal_entry_id H i) (\<lambda>entry_id.
     bindE (mapE mk_journal_line
       [journal_line_of ACCOUNT_CASH (dneg (amount m)) (currency m) ''Fee cash movement.'',
        journal_line_of ACCOUNT_FEES_PAID (amount m) (currency m) ''Fee expense.'']) (\<lambda>lines.
     mk_journal_entry
       \<lparr>je_journal_entry_id = entry_id, je_occurred_at = occurred_at,
        je_source_event_id = source_event_id, je_reference_type = ''fee'', je_reference_id = i,
        je_lines = lines, je_description = ''Fee accounting for '' @ i @ ''.'',
        je_created_at = created_at\<rparr>))))"

definition build_rebate_journal_entry ::
  "hasher \<Rightarrow> money \<Rightarrow> string \<Rightarrow> ident \<Rightarrow> instant \<Rightarrow> instant \<Rightarrow> journal_entry result" where
  "build_rebate_journal_entry H m rebate_id source_event_id occurred_at created_at =
     bindE (validate_reference_id rebate_id F_rebate) (\<lambda>i.
     bindE (validate_positive_money m F_rebate) (\<lambda>_.
     bindE (derive_rebate_journal_entry_id H i) (\<lambda>entry_id.
     bindE (mapE mk_journal_line
       [journal_line_of ACCOUNT_CASH (amount m) (currency m) ''Rebate cash movement.'',
        journal_line_of ACCOUNT_REBATES_RECEIVED (dneg (amount m)) (currency m) ''Rebate income.'']) (\<lambda>lines.
     mk_journal_entry
       \<lparr>je_journal_entry_id = entry_id, je_occurred_at = occurred_at,
        je_source_event_id = source_event_id, je_reference_type = ''rebate'', je_reference_id = i,
        je_lines = lines, je_description = ''Rebate accounting for '' @ i @ ''.'',
        je_created_at = created_at\<rparr>))))"

section \<open>Applying a fee or a rebate once\<close>

record fee_application =
  fe_balance :: cash_balance
  fe_cash_projection :: "cash_projection option"
  fe_journal_entry :: "journal_entry option"
  fe_applied_journal_entry_ids :: "string set"
  fe_applied :: bool
  fe_duplicate_fee :: bool

record rebate_application =
  re_balance :: cash_balance
  re_cash_projection :: "cash_projection option"
  re_journal_entry :: "journal_entry option"
  re_applied_journal_entry_ids :: "string set"
  re_applied :: bool
  re_duplicate_rebate :: bool

definition apply_fee_once ::
  "hasher \<Rightarrow> cash_balance \<Rightarrow> money \<Rightarrow> string \<Rightarrow> string set \<Rightarrow> ident \<Rightarrow> instant \<Rightarrow> instant \<Rightarrow>
   fee_application result" where
  "apply_fee_once H b m fee_id ids source_event_id occurred_at created_at =
     bindE (validate_balance_currency b m F_fee) (\<lambda>_.
     bindE (derive_fee_journal_entry_id H fee_id) (\<lambda>entry_id.
     if entry_id \<in> ids then
       Inr \<lparr>fe_balance = b, fe_cash_projection = None, fe_journal_entry = None,
            fe_applied_journal_entry_ids = ids, fe_applied = False, fe_duplicate_fee = True\<rparr>
     else
       bindE (build_fee_journal_entry H m fee_id source_event_id occurred_at created_at) (\<lambda>e.
       bindE (apply_journal_to_cash_balance b e ACCOUNT_CASH) (\<lambda>projection.
       Inr \<lparr>fe_balance = cp_balance projection, fe_cash_projection = Some projection,
            fe_journal_entry = Some e, fe_applied_journal_entry_ids = ids \<union> {entry_id},
            fe_applied = True, fe_duplicate_fee = False\<rparr>))))"

definition apply_rebate_once ::
  "hasher \<Rightarrow> cash_balance \<Rightarrow> money \<Rightarrow> string \<Rightarrow> string set \<Rightarrow> ident \<Rightarrow> instant \<Rightarrow> instant \<Rightarrow>
   rebate_application result" where
  "apply_rebate_once H b m rebate_id ids source_event_id occurred_at created_at =
     bindE (validate_balance_currency b m F_rebate) (\<lambda>_.
     bindE (derive_rebate_journal_entry_id H rebate_id) (\<lambda>entry_id.
     if entry_id \<in> ids then
       Inr \<lparr>re_balance = b, re_cash_projection = None, re_journal_entry = None,
            re_applied_journal_entry_ids = ids, re_applied = False, re_duplicate_rebate = True\<rparr>
     else
       bindE (build_rebate_journal_entry H m rebate_id source_event_id occurred_at created_at) (\<lambda>e.
       bindE (apply_journal_to_cash_balance b e ACCOUNT_CASH) (\<lambda>projection.
       Inr \<lparr>re_balance = cp_balance projection, re_cash_projection = Some projection,
            re_journal_entry = Some e, re_applied_journal_entry_ids = ids \<union> {entry_id},
            re_applied = True, re_duplicate_rebate = False\<rparr>))))"

section \<open>What the entries contain\<close>

definition reference_ok :: "string \<Rightarrow> bool" where
  "reference_ok i \<longleftrightarrow> \<not> blank_or_padded i \<and> length i \<le> 128"

lemma validate_reference_id_iff: "validate_reference_id i fld = Inr j \<longleftrightarrow> reference_ok i \<and> j = i"
  by (auto simp: validate_reference_id_def reference_ok_def bindE_eq_Inr guards_ok_iff)

lemma reference_ok_text: "reference_ok i \<Longrightarrow> text_in 1 128 i"
  by (cases i) (simp_all add: reference_ok_def blank_or_padded_def text_in_def)

definition fee_id_of :: "hasher \<Rightarrow> string \<Rightarrow> string" where
  "fee_id_of H i = ''journal_fee_'' @ short_digest H (CMap
     [(''fee_id'', CStr i), (''schema'', CStr ''pmrp.fee_journal_entry.v1'')])"

definition rebate_id_of :: "hasher \<Rightarrow> string \<Rightarrow> string" where
  "rebate_id_of H i = ''journal_rebate_'' @ short_digest H (CMap
     [(''rebate_id'', CStr i), (''schema'', CStr ''pmrp.rebate_journal_entry.v1'')])"

lemma derive_fee_iff: "derive_fee_journal_entry_id H i = Inr k \<longleftrightarrow> reference_ok i \<and> k = fee_id_of H i"
  by (auto simp: derive_fee_journal_entry_id_def bindE_eq_Inr validate_reference_id_iff fee_id_of_def)

lemma derive_rebate_iff: "derive_rebate_journal_entry_id H i = Inr k \<longleftrightarrow> reference_ok i \<and> k = rebate_id_of H i"
  by (auto simp: derive_rebate_journal_entry_id_def bindE_eq_Inr validate_reference_id_iff rebate_id_of_def)

lemma ids_text: "text_in 1 128 (fee_id_of H i)" "text_in 1 128 (rebate_id_of H i)"
  using short_digest_length [of 100 H] by (simp_all add: fee_id_of_def rebate_id_of_def text_in_def)

definition movement_ok :: "money \<Rightarrow> string \<Rightarrow> instant \<Rightarrow> instant \<Rightarrow> bool" where
  "movement_ok m i occurred_at created_at \<longleftrightarrow>
     reference_ok i \<and> 0 < amount m \<and> dec_fits 28 (amount m) \<and> valid_currency (currency m) \<and>
     occurred_at \<le> created_at"

lemma build_fee_exact:
  assumes "movement_ok m i occurred_at created_at"
  obtains e where "build_fee_journal_entry H m i source_event_id occurred_at created_at = Inr e"
    and "je_occurred_at e = occurred_at" "je_journal_entry_id e = fee_id_of H i"
    and "cash_lines ACCOUNT_CASH (currency m) e = [- amount m]"
proof -
  let ?lines = "[journal_line_of ACCOUNT_CASH (dneg (amount m)) (currency m) ''Fee cash movement.'',
        journal_line_of ACCOUNT_FEES_PAID (amount m) (currency m) ''Fee expense.'']"
  have ok: "reference_ok i" "0 < amount m" "dec_fits 28 (amount m)" "valid_currency (currency m)"
    "occurred_at \<le> created_at" using assms by (auto simp: movement_ok_def)
  have len: "text_in 1 1024 (''Fee accounting for '' @ i @ ''.'')"
    using reference_ok_text [OF ok(1)] by (simp add: text_in_def)
  have "build_fee_journal_entry H m i source_event_id occurred_at created_at = Inr
      \<lparr>je_journal_entry_id = fee_id_of H i, je_occurred_at = occurred_at,
        je_source_event_id = source_event_id, je_reference_type = ''fee'', je_reference_id = i,
        je_lines = ?lines, je_description = ''Fee accounting for '' @ i @ ''.'', je_created_at = created_at\<rparr>"
    unfolding build_fee_journal_entry_def bindE_eq_Inr validate_reference_id_iff derive_fee_iff
      mk_journal_entry_iff
    using ok len ids_text [of H i] reference_ok_text [OF ok(1)] offset_balanced(2) [OF ok(3)]
    by (auto simp: validate_positive_money_def mk_journal_line_def account_codes, auto simp: text_in_def)
  then show ?thesis
    by (rule that) (use ok(3) in \<open>simp_all add: cash_lines_def account_codes dneg_exact\<close>)
qed

lemma build_rebate_exact:
  assumes "movement_ok m i occurred_at created_at"
  obtains e where "build_rebate_journal_entry H m i source_event_id occurred_at created_at = Inr e"
    and "je_occurred_at e = occurred_at" "je_journal_entry_id e = rebate_id_of H i"
    and "cash_lines ACCOUNT_CASH (currency m) e = [amount m]"
proof -
  let ?lines = "[journal_line_of ACCOUNT_CASH (amount m) (currency m) ''Rebate cash movement.'',
        journal_line_of ACCOUNT_REBATES_RECEIVED (dneg (amount m)) (currency m) ''Rebate income.'']"
  have ok: "reference_ok i" "0 < amount m" "dec_fits 28 (amount m)" "valid_currency (currency m)"
    "occurred_at \<le> created_at" using assms by (auto simp: movement_ok_def)
  have len: "text_in 1 1024 (''Rebate accounting for '' @ i @ ''.'')"
    using reference_ok_text [OF ok(1)] by (simp add: text_in_def)
  have "build_rebate_journal_entry H m i source_event_id occurred_at created_at = Inr
      \<lparr>je_journal_entry_id = rebate_id_of H i, je_occurred_at = occurred_at,
        je_source_event_id = source_event_id, je_reference_type = ''rebate'', je_reference_id = i,
        je_lines = ?lines, je_description = ''Rebate accounting for '' @ i @ ''.'', je_created_at = created_at\<rparr>"
    unfolding build_rebate_journal_entry_def bindE_eq_Inr validate_reference_id_iff derive_rebate_iff
      mk_journal_entry_iff
    using ok len ids_text [of H i] reference_ok_text [OF ok(1)] offset_balanced(1) [OF ok(3)]
    by (auto simp: validate_positive_money_def mk_journal_line_def account_codes, auto simp: text_in_def)
  then show ?thesis
    by (rule that) (simp_all add: cash_lines_def account_codes)
qed

section \<open>The exact effect on a balance\<close>

text \<open>Room in the grid: the balance, and one movement of at most \<open>n\<close> units.\<close>

definition movement_fits :: "nat \<Rightarrow> nat \<Rightarrow> cash_balance \<Rightarrow> money \<Rightarrow> bool" where
  "movement_fits s n b m \<longleftrightarrow> cash_balance_valid b \<and> balance_on_grid s n b \<and> on_grid s n (amount m) \<and>
     4 * n \<le> 10 ^ 28 \<and> currency m = cb_currency b"

lemma movement_fits_moved:
  assumes "movement_fits s n b m" and "d = amount m \<or> d = - amount m"
  shows "cash_balance_valid (moved b d t)" "balance_on_grid s (2 * n) (moved b d t)"
    "cb_available (moved b d t) = cb_available b + d" "cb_total (moved b d t) = cb_total b + d"
proof -
  have v: "cash_balance_valid b" "balance_on_grid s n b" and d: "on_grid s n d"
    and n: "2 * n + n \<le> 10 ^ 28" "n \<le> 2 * n"
    using assms by (auto simp: movement_fits_def)
  note ex = moved_exact [OF v d n(1), of t]
  show "cash_balance_valid (moved b d t)" "cb_available (moved b d t) = cb_available b + d"
    "cb_total (moved b d t) = cb_total b + d" by (fact ex)+
  show "balance_on_grid s (2 * n) (moved b d t)"
    using v(2) d on_grid_add [of s n "cb_available b" n d] on_grid_mono [OF _ n(2)]
    by (auto simp: balance_on_grid_def ex mult_2 simp del: moved_sel(7))
qed

lemma apply_one_line:
  assumes fit: "movement_fits s n b m" and d: "d = amount m \<or> d = - amount m"
    and lines: "cash_lines ACCOUNT_CASH (currency m) e = [d]" and t: "cb_captured_at b \<le> je_occurred_at e"
  shows "apply_journal_to_cash_balance b e ACCOUNT_CASH =
    Inr \<lparr>cp_balance = moved b d (je_occurred_at e), cp_cash_delta = \<lparr>amount = d, currency = cb_currency b\<rparr>\<rparr>"
proof -
  have v: "cash_balance_valid b" "balance_on_grid s n b" "on_grid s n d" "3 * n \<le> 10 ^ 28" "currency m = cb_currency b"
    using fit d by (auto simp: movement_fits_def)
  then show ?thesis using apply_journal_exact [OF v(1,2), of ACCOUNT_CASH e n] lines t by simp
qed

lemma apply_fee_exact:
  assumes fit: "movement_fits s n b m" and ok: "movement_ok m i occurred_at created_at"
    and t: "cb_captured_at b \<le> occurred_at" and new: "fee_id_of H i \<notin> ids"
  obtains r where "apply_fee_once H b m i ids source_event_id occurred_at created_at = Inr r"
    and "fe_balance r = moved b (- amount m) occurred_at" "fe_applied r"
    and "fe_applied_journal_entry_ids r = insert (fee_id_of H i) ids"
proof -
  obtain e where e: "build_fee_journal_entry H m i source_event_id occurred_at created_at = Inr e"
    "je_occurred_at e = occurred_at" "cash_lines ACCOUNT_CASH (currency m) e = [- amount m]"
    using build_fee_exact [OF ok, of H source_event_id thesis] by blast
  have ap: "apply_journal_to_cash_balance b e ACCOUNT_CASH =
      Inr \<lparr>cp_balance = moved b (- amount m) occurred_at,
           cp_cash_delta = \<lparr>amount = - amount m, currency = cb_currency b\<rparr>\<rparr>"
    using apply_one_line [OF fit _ e(3)] t by (simp add: e(2))
  have cur: "validate_balance_currency b m F_fee = Inr ()"
    using fit by (simp add: movement_fits_def validate_balance_currency_def)
  have "derive_fee_journal_entry_id H i = Inr (fee_id_of H i)"
    using ok by (simp add: derive_fee_iff movement_ok_def)
  then show ?thesis using that new by (auto simp: apply_fee_once_def cur e(1) ap)
qed

lemma apply_rebate_exact:
  assumes fit: "movement_fits s n b m" and ok: "movement_ok m i occurred_at created_at"
    and t: "cb_captured_at b \<le> occurred_at" and new: "rebate_id_of H i \<notin> ids"
  obtains r where "apply_rebate_once H b m i ids source_event_id occurred_at created_at = Inr r"
    and "re_balance r = moved b (amount m) occurred_at" "re_applied r"
    and "re_applied_journal_entry_ids r = insert (rebate_id_of H i) ids"
proof -
  obtain e where e: "build_rebate_journal_entry H m i source_event_id occurred_at created_at = Inr e"
    "je_occurred_at e = occurred_at" "cash_lines ACCOUNT_CASH (currency m) e = [amount m]"
    using build_rebate_exact [OF ok, of H source_event_id thesis] by blast
  have ap: "apply_journal_to_cash_balance b e ACCOUNT_CASH =
      Inr \<lparr>cp_balance = moved b (amount m) occurred_at,
           cp_cash_delta = \<lparr>amount = amount m, currency = cb_currency b\<rparr>\<rparr>"
    using apply_one_line [OF fit _ e(3)] t by (simp add: e(2))
  have cur: "validate_balance_currency b m F_rebate = Inr ()"
    using fit by (simp add: movement_fits_def validate_balance_currency_def)
  have "derive_rebate_journal_entry_id H i = Inr (rebate_id_of H i)"
    using ok by (simp add: derive_rebate_iff movement_ok_def)
  then show ?thesis using that new by (auto simp: apply_rebate_once_def cur e(1) ap)
qed

section \<open>The apply-once contract\<close>

text \<open>The arguments of one fee or rebate besides the balance and the identifier set.\<close>

type_synonym movement = "money \<times> string \<times> ident \<times> instant \<times> instant"

fun fee_step :: "hasher \<Rightarrow> cash_balance \<Rightarrow> string set \<Rightarrow> movement \<Rightarrow> (cash_balance \<times> string set) result" where
  "fee_step H b ids (m, i, source_event_id, occurred_at, created_at) =
     bindE (apply_fee_once H b m i ids source_event_id occurred_at created_at)
       (\<lambda>r. Inr (fe_balance r, fe_applied_journal_entry_ids r))"

fun rebate_step :: "hasher \<Rightarrow> cash_balance \<Rightarrow> string set \<Rightarrow> movement \<Rightarrow> (cash_balance \<times> string set) result" where
  "rebate_step H b ids (m, i, source_event_id, occurred_at, created_at) =
     bindE (apply_rebate_once H b m i ids source_event_id occurred_at created_at)
       (\<lambda>r. Inr (re_balance r, re_applied_journal_entry_ids r))"

definition movement_accepts :: "cash_balance \<Rightarrow> movement \<Rightarrow> bool" where
  "movement_accepts b a \<longleftrightarrow> cb_currency b = currency (fst a) \<and> reference_ok (fst (snd a))"

lemma validate_balance_currency_iff: "validate_balance_currency b m fld = Inr u \<longleftrightarrow> cb_currency b = currency m"
  by (auto simp: validate_balance_currency_def)

lemma fee_step_Inr:
  assumes "fee_step H b ids a = Inr (b', ids')"
  shows "movement_accepts b a" "ids' = insert (fee_id_of H (fst (snd a))) ids" "same_account b b'"
  using assms by (cases a; auto simp: apply_fee_once_def bindE_eq_Inr validate_balance_currency_iff
      derive_fee_iff movement_accepts_def apply_journal_Inr_iff split: if_splits)+

lemma rebate_step_Inr:
  assumes "rebate_step H b ids a = Inr (b', ids')"
  shows "movement_accepts b a" "ids' = insert (rebate_id_of H (fst (snd a))) ids" "same_account b b'"
  using assms by (cases a; auto simp: apply_rebate_once_def bindE_eq_Inr validate_balance_currency_iff
      derive_rebate_iff movement_accepts_def apply_journal_Inr_iff split: if_splits)+

lemma movement_accepts_cong: "same_account b b' \<Longrightarrow> movement_accepts b' a = movement_accepts b a"
  by (simp add: same_account_def movement_accepts_def)

interpretation fee_once: apply_once "fee_step H" "\<lambda>_ a. fee_id_of H (fst (snd a))" movement_accepts
proof
  fix b a ids
  assume acc: "movement_accepts b a" and key: "fee_id_of H (fst (snd a)) \<in> ids"
  have "derive_fee_journal_entry_id H (fst (snd a)) = Inr (fee_id_of H (fst (snd a)))"
    "validate_balance_currency b (fst a) F_fee = Inr ()"
    using acc by (simp_all add: derive_fee_iff movement_accepts_def validate_balance_currency_def)
  with key show "fee_step H b ids a = Inr (b, ids)" by (cases a) (simp add: apply_fee_once_def)
next
  fix b ids a b' ids'
  assume st: "fee_step H b ids a = Inr (b', ids')"
  note out = fee_step_Inr [OF st]
  show "movement_accepts b a" "ids' = insert (fee_id_of H (fst (snd a))) ids" by (fact out)+
  fix c
  show "fee_id_of H (fst (snd c)) = fee_id_of H (fst (snd c)) \<and> movement_accepts b' c = movement_accepts b c"
    by (simp add: movement_accepts_cong [OF out(3)])
qed

interpretation rebate_once: apply_once "rebate_step H" "\<lambda>_ a. rebate_id_of H (fst (snd a))" movement_accepts
proof
  fix b a ids
  assume acc: "movement_accepts b a" and key: "rebate_id_of H (fst (snd a)) \<in> ids"
  have "derive_rebate_journal_entry_id H (fst (snd a)) = Inr (rebate_id_of H (fst (snd a)))"
    "validate_balance_currency b (fst a) F_rebate = Inr ()"
    using acc by (simp_all add: derive_rebate_iff movement_accepts_def validate_balance_currency_def)
  with key show "rebate_step H b ids a = Inr (b, ids)" by (cases a) (simp add: apply_rebate_once_def)
next
  fix b ids a b' ids'
  assume st: "rebate_step H b ids a = Inr (b', ids')"
  note out = rebate_step_Inr [OF st]
  show "movement_accepts b a" "ids' = insert (rebate_id_of H (fst (snd a))) ids" by (fact out)+
  fix c
  show "rebate_id_of H (fst (snd c)) = rebate_id_of H (fst (snd c)) \<and> movement_accepts b' c = movement_accepts b c"
    by (simp add: movement_accepts_cong [OF out(3)])
qed

section \<open>Properties\<close>

text \<open>
  C29: a rebate undoes a fee of the same amount. In fixed point, a new fee with a positive amount is
  accepted and takes exactly that amount from available and total cash; a later rebate of the same
  amount is accepted and restores the balance, up to the time it was captured at. A second
  delivery of the fee in between is a no-op.
\<close>

theorem rebate_undoes_fee:
  assumes "movement_fits s n b m" and "8 * n \<le> 10 ^ 28"
    and "movement_ok m i t t'" and "movement_ok m j u u'" and "cb_captured_at b \<le> t" and "t \<le> u"
    and "fee_id_of H i \<notin> ids" and "rebate_id_of H j \<notin> insert (fee_id_of H i) ids"
  shows "\<exists>fee rebate. apply_fee_once H b m i ids e t t' = Inr fee \<and>
    cb_available (fe_balance fee) = cb_available b - amount m \<and>
    cb_total (fe_balance fee) = cb_total b - amount m \<and>
    fee_step H (fe_balance fee) (fe_applied_journal_entry_ids fee) (m, i, e, t, t') =
      Inr (fe_balance fee, fe_applied_journal_entry_ids fee) \<and>
    apply_rebate_once H (fe_balance fee) m j (fe_applied_journal_entry_ids fee) e' u u' = Inr rebate \<and>
    re_balance rebate = b\<lparr>cb_captured_at := u\<rparr>"
proof -
  obtain fee where fee: "apply_fee_once H b m i ids e t t' = Inr fee"
    "fe_balance fee = moved b (- amount m) t"
    "fe_applied_journal_entry_ids fee = insert (fee_id_of H i) ids"
    using apply_fee_exact [OF assms(1,3,5,7), of e thesis] by blast
  note after = movement_fits_moved [OF assms(1), of "- amount m" t]
  have fit: "movement_fits s (2 * n) (moved b (- amount m) t) m"
    using after(1,2) assms(1,2) on_grid_mono [of s n "amount m" "2 * n"]
    by (auto simp: movement_fits_def)
  obtain rebate where rebate:
    "apply_rebate_once H (fe_balance fee) m j (fe_applied_journal_entry_ids fee) e' u u' = Inr rebate"
    "re_balance rebate = moved (moved b (- amount m) t) (amount m) u"
    using apply_rebate_exact [OF fit assms(4), of H "insert (fee_id_of H i) ids" e' thesis] assms(6,8) fee
    by auto
  note restored = movement_fits_moved(3,4) [OF fit, of "amount m" u]
  have "moved (moved b (- amount m) t) (amount m) u = b\<lparr>cb_captured_at := u\<rparr>"
    using restored after(3,4)
    by (intro cash_balance.equality) (simp_all del: moved_sel(7,8) add: moved_sel(1-6))
  moreover have "fee_step H b ids (m, i, e, t, t') = Inr (fe_balance fee, fe_applied_journal_entry_ids fee)"
    by (simp add: fee(1))
  then have "fee_step H (fe_balance fee) (fe_applied_journal_entry_ids fee) (m, i, e, t, t') =
      Inr (fe_balance fee, fe_applied_journal_entry_ids fee)" by (rule fee_once.idempotent)
  moreover have "cb_available (fe_balance fee) = cb_available b - amount m"
    "cb_total (fe_balance fee) = cb_total b - amount m"
    unfolding fee(2) after(3,4) [OF disjI2 [OF refl]] by simp_all
  ultimately show ?thesis using fee(1) rebate by (intro exI conjI) simp_all
qed

theorem rebate_undoes_fee_witness:
  "\<exists>fee rebate. apply_fee_once sample_hasher (sample_balance ''b'' 100 7 10) \<lparr>amount = 3/4, currency = ''USD''\<rparr>
      ''fee_1'' {} ''evt_1'' 20 20 = Inr fee \<and> cb_available (fe_balance fee) = 397/4 \<and>
    apply_rebate_once sample_hasher (fe_balance fee) \<lparr>amount = 3/4, currency = ''USD''\<rparr> ''rebate_1''
      (fe_applied_journal_entry_ids fee) ''evt_2'' 30 30 = Inr rebate \<and>
    re_balance rebate = sample_balance ''b'' 100 7 30"
proof -
  let ?b = "sample_balance ''b'' 100 7 10" and ?m = "\<lparr>amount = 3/4, currency = ''USD''\<rparr>"
  have g: "on_grid 2 10000 100" "on_grid 2 10000 7" "on_grid 2 10000 (3/4)" by (simp_all add: on_grid_def)
  have "cash_balance_valid ?b" by (rule sample_balance_valid [OF g(1,2)]) (simp_all add: text_in_def)
  then have fit: "movement_fits 2 10000 ?b ?m" using g by (simp add: movement_fits_def balance_on_grid_def)
  have "dec_fits 28 (3/4)" by (rule on_grid_fits [OF g(3)]) simp
  then have ok: "movement_ok ?m ''fee_1'' 20 20" "movement_ok ?m ''rebate_1'' 30 30"
    using usd_valid by (simp_all add: movement_ok_def reference_ok_def blank_or_padded_def py_strip_def py_isspace_def)
  have ids: "rebate_id_of sample_hasher ''rebate_1'' \<noteq> fee_id_of sample_hasher ''fee_1''"
    by (simp add: fee_id_of_def rebate_id_of_def)
  have "?b\<lparr>cb_captured_at := 30\<rparr> = sample_balance ''b'' 100 7 30" by (simp add: sample_balance_def)
  then show ?thesis
    using rebate_undoes_fee [OF fit _ ok, of sample_hasher "{}" "''evt_1''" "''evt_2''"] ids by auto
qed

end
