(* ===== verification/Transfers.thy ===== *)
theory Transfers
  imports Fees
begin

text \<open>
  \<open>src/pmrp/portfolio/transfers.py\<close>: moving cash between two balances of one currency with one
  four-line journal entry, whose cash account codes name the two balances. The lemmas show that
  each balance sees only its own line, that the total is conserved, and the apply-once contract.
\<close>

section \<open>Definitions\<close>

definition ACCOUNT_CASH_TRANSFER :: string where
  "ACCOUNT_CASH_TRANSFER = ''cash_transfer''"

definition validate_transfer_id :: "string \<Rightarrow> unit result" where
  "validate_transfer_id transfer_id =
     guards [(blank_or_padded transfer_id, movement_raise Transfer_id_invalid)]"

definition cash_balance_account_code :: "cash_balance \<Rightarrow> string result" where
  "cash_balance_account_code b =
     (let code = ACCOUNT_CASH @ '':'' @ cb_balance_id b in
      if 128 < length code then Inl (movement_raise Transfer_account_code_too_long) else Inr code)"

definition validate_transfer_inputs ::
  "cash_balance \<Rightarrow> cash_balance \<Rightarrow> money \<Rightarrow> string \<Rightarrow> unit result" where
  "validate_transfer_inputs src dst m transfer_id =
     bindE (validate_transfer_id transfer_id) (\<lambda>_.
     bindE (guards
       [(cb_balance_id src = cb_balance_id dst, movement_raise Transfer_same_balance),
        (cb_currency src \<noteq> cb_currency dst, movement_raise Transfer_currency_differs)]) (\<lambda>_.
     bindE (validate_currency (currency m)) (\<lambda>c.
     bindE (guards
       [(cb_currency src \<noteq> c, movement_raise (Amount_currency_mismatch F_amount)),
        (amount m \<le> 0, movement_raise (Amount_not_positive F_amount))]) (\<lambda>_.
     bindE (cash_balance_account_code src) (\<lambda>_.
     bindE (cash_balance_account_code dst) (\<lambda>_. Inr ()))))))"

definition derive_cash_transfer_journal_entry_id :: "hasher \<Rightarrow> string \<Rightarrow> string result" where
  "derive_cash_transfer_journal_entry_id H transfer_id =
     bindE (validate_transfer_id transfer_id) (\<lambda>_.
     Inr (''journal_cash_transfer_'' @ short_digest H (CMap
       [(''schema'', CStr ''pmrp.cash_transfer_journal_entry.v1''),
        (''transfer_id'', CStr transfer_id)])))"

definition build_cash_transfer_journal_entry ::
  "hasher \<Rightarrow> cash_balance \<Rightarrow> cash_balance \<Rightarrow> money \<Rightarrow> string \<Rightarrow> ident \<Rightarrow> instant \<Rightarrow> instant \<Rightarrow>
   journal_entry result" where
  "build_cash_transfer_journal_entry H src dst m transfer_id source_event_id occurred_at created_at =
     bindE (validate_transfer_inputs src dst m transfer_id) (\<lambda>_.
     bindE (derive_cash_transfer_journal_entry_id H transfer_id) (\<lambda>entry_id.
     bindE (cash_balance_account_code src) (\<lambda>src_code.
     bindE (cash_balance_account_code dst) (\<lambda>dst_code.
     bindE (mapE mk_journal_line
       [journal_line_of src_code (dneg (amount m)) (currency m) ''Cash transfer outbound cash movement.'',
        journal_line_of ACCOUNT_CASH_TRANSFER (amount m) (currency m) ''Cash transfer outbound offset.'',
        journal_line_of dst_code (amount m) (currency m) ''Cash transfer inbound cash movement.'',
        journal_line_of ACCOUNT_CASH_TRANSFER (dneg (amount m)) (currency m)
          ''Cash transfer inbound offset.'']) (\<lambda>lines.
     mk_journal_entry
       \<lparr>je_journal_entry_id = entry_id, je_occurred_at = occurred_at,
        je_source_event_id = source_event_id, je_reference_type = ''transfer'',
        je_reference_id = transfer_id, je_lines = lines,
        je_description = ''Cash transfer accounting for '' @ transfer_id @ ''.'',
        je_created_at = created_at\<rparr>)))))"

record cash_transfer_application =
  ct_from_balance :: cash_balance
  ct_to_balance :: cash_balance
  ct_outbound_projection :: "cash_projection option"
  ct_inbound_projection :: "cash_projection option"
  ct_journal_entry :: "journal_entry option"
  ct_applied_journal_entry_ids :: "string set"
  ct_applied :: bool
  ct_duplicate_transfer :: bool

definition apply_cash_transfer_once ::
  "hasher \<Rightarrow> cash_balance \<Rightarrow> cash_balance \<Rightarrow> money \<Rightarrow> string \<Rightarrow> string set \<Rightarrow> ident \<Rightarrow> instant \<Rightarrow>
   instant \<Rightarrow> cash_transfer_application result" where
  "apply_cash_transfer_once H src dst m transfer_id ids source_event_id occurred_at created_at =
     bindE (validate_transfer_inputs src dst m transfer_id) (\<lambda>_.
     bindE (derive_cash_transfer_journal_entry_id H transfer_id) (\<lambda>entry_id.
     if entry_id \<in> ids then
       Inr \<lparr>ct_from_balance = src, ct_to_balance = dst, ct_outbound_projection = None,
            ct_inbound_projection = None, ct_journal_entry = None,
            ct_applied_journal_entry_ids = ids, ct_applied = False, ct_duplicate_transfer = True\<rparr>
     else
       bindE (build_cash_transfer_journal_entry H src dst m transfer_id source_event_id
                occurred_at created_at) (\<lambda>e.
       bindE (cash_balance_account_code src) (\<lambda>src_code.
       bindE (apply_journal_to_cash_balance src e src_code) (\<lambda>outbound.
       bindE (cash_balance_account_code dst) (\<lambda>dst_code.
       bindE (apply_journal_to_cash_balance dst e dst_code) (\<lambda>inbound.
       Inr \<lparr>ct_from_balance = cp_balance outbound, ct_to_balance = cp_balance inbound,
            ct_outbound_projection = Some outbound, ct_inbound_projection = Some inbound,
            ct_journal_entry = Some e, ct_applied_journal_entry_ids = ids \<union> {entry_id},
            ct_applied = True, ct_duplicate_transfer = False\<rparr>)))))))"

section \<open>Acceptance\<close>

definition transfer_code :: "cash_balance \<Rightarrow> string" where
  "transfer_code b = ACCOUNT_CASH @ '':'' @ cb_balance_id b"

definition transfer_ok :: "cash_balance \<Rightarrow> cash_balance \<Rightarrow> money \<Rightarrow> string \<Rightarrow> bool" where
  "transfer_ok src dst m i \<longleftrightarrow>
     \<not> blank_or_padded i \<and> cb_balance_id src \<noteq> cb_balance_id dst \<and> cb_currency src = currency m \<and>
     cb_currency dst = currency m \<and> valid_currency (currency m) \<and> 0 < amount m \<and>
     length (transfer_code src) \<le> 128 \<and> length (transfer_code dst) \<le> 128"

definition transfer_id_of :: "hasher \<Rightarrow> string \<Rightarrow> string" where
  "transfer_id_of H i = ''journal_cash_transfer_'' @ short_digest H (CMap
     [(''schema'', CStr ''pmrp.cash_transfer_journal_entry.v1''), (''transfer_id'', CStr i)])"

lemma account_code_iff:
  "cash_balance_account_code b = Inr c \<longleftrightarrow> length (transfer_code b) \<le> 128 \<and> c = transfer_code b"
  by (auto simp: cash_balance_account_code_def transfer_code_def Let_def)

lemma validate_transfer_inputs_iff:
  "validate_transfer_inputs src dst m i = Inr u \<longleftrightarrow> transfer_ok src dst m i"
  by (auto simp: validate_transfer_inputs_def validate_transfer_id_def transfer_ok_def
      bindE_eq_Inr [of "guards _"] bindE_eq_Inr [of "cash_balance_account_code _"]
      validate_currency_bind account_code_iff guards_ok_iff)

lemma derive_transfer_iff:
  "derive_cash_transfer_journal_entry_id H i = Inr k \<longleftrightarrow> \<not> blank_or_padded i \<and> k = transfer_id_of H i"
  by (auto simp: derive_cash_transfer_journal_entry_id_def validate_transfer_id_def bindE_eq_Inr
      transfer_id_of_def)

lemma transfer_codes_differ:
  assumes "cb_balance_id src \<noteq> cb_balance_id dst"
  shows "transfer_code src \<noteq> transfer_code dst" "transfer_code b \<noteq> ACCOUNT_CASH_TRANSFER"
    "ACCOUNT_CASH_TRANSFER \<noteq> transfer_code b"
  using assms by (simp_all add: transfer_code_def ACCOUNT_CASH_def ACCOUNT_CASH_TRANSFER_def)

section \<open>The entry and its two readings\<close>

lemma transfer_balanced:
  assumes "dec_fits 28 a"
  shows "balanced [journal_line_of w (dneg a) c d1, journal_line_of x a c d2,
    journal_line_of y a c d3, journal_line_of z (dneg a) c d4]"
  using assms
  by (simp add: balanced_def currency_total_def dsum_def dneg_exact dadd_def d28.rnd_exact)

lemma build_transfer_exact:
  assumes ok: "transfer_ok src dst m i" and fits: "dec_fits 28 (amount m)"
    and i: "length i \<le> 128" and t: "occurred_at \<le> created_at"
  obtains e where
    "build_cash_transfer_journal_entry H src dst m i source_event_id occurred_at created_at = Inr e"
    and "je_occurred_at e = occurred_at" "je_journal_entry_id e = transfer_id_of H i"
    and "cash_lines (transfer_code src) (currency m) e = [- amount m]"
    and "cash_lines (transfer_code dst) (currency m) e = [amount m]"
proof -
  let ?lines = "[journal_line_of (transfer_code src) (dneg (amount m)) (currency m)
          ''Cash transfer outbound cash movement.'',
        journal_line_of ACCOUNT_CASH_TRANSFER (amount m) (currency m) ''Cash transfer outbound offset.'',
        journal_line_of (transfer_code dst) (amount m) (currency m) ''Cash transfer inbound cash movement.'',
        journal_line_of ACCOUNT_CASH_TRANSFER (dneg (amount m)) (currency m) ''Cash transfer inbound offset.'']"
  have tx: "text_in 1 128 i" "text_in 1 1024 (''Cash transfer accounting for '' @ i @ ''.'')"
    "text_in 1 128 (transfer_id_of H i)" "text_in 1 128 (transfer_code src)" "text_in 1 128 (transfer_code dst)"
    using ok i short_digest_length [of 100 H]
    by (cases i; simp add: transfer_ok_def text_in_def blank_or_padded_def transfer_id_of_def transfer_code_def)+
  have cur: "valid_currency (currency m)" using ok by (simp add: transfer_ok_def)
  have "mapE mk_journal_line ?lines = Inr ?lines"
    using tx(4,5) cur by (simp add: mk_journal_line_def) (simp add: text_in_def ACCOUNT_CASH_TRANSFER_def)
  then have eq: "build_cash_transfer_journal_entry H src dst m i source_event_id occurred_at created_at = Inr
      \<lparr>je_journal_entry_id = transfer_id_of H i, je_occurred_at = occurred_at,
        je_source_event_id = source_event_id, je_reference_type = ''transfer'', je_reference_id = i,
        je_lines = ?lines, je_description = ''Cash transfer accounting for '' @ i @ ''.'',
        je_created_at = created_at\<rparr>"
    unfolding build_cash_transfer_journal_entry_def bindE_eq_Inr validate_transfer_inputs_iff
      derive_transfer_iff account_code_iff mk_journal_entry_iff
    using ok tx(1-3) t transfer_balanced [OF fits] by (auto simp: transfer_ok_def) (simp_all add: text_in_def)
  have "cb_balance_id src \<noteq> cb_balance_id dst" using ok by (simp add: transfer_ok_def)
  note differ = transfer_codes_differ [OF this]
  from eq show ?thesis
    by (rule that) (use fits differ in \<open>simp_all add: cash_lines_def dneg_exact\<close>)
qed

lemma apply_own_line:
  assumes v: "cash_balance_valid b" and g: "balance_on_grid s n b" and d: "on_grid s n d"
    and bound: "3 * n \<le> 10 ^ 28" and lines: "cash_lines code (cb_currency b) e = [d]"
    and t: "cb_captured_at b \<le> je_occurred_at e" and code: "\<not> blank_or_padded code"
  shows "apply_journal_to_cash_balance b e code = Inr \<lparr>cp_balance = moved b d (je_occurred_at e),
      cp_cash_delta = \<lparr>amount = d, currency = cb_currency b\<rparr>\<rparr>"
    and "cash_balance_valid (moved b d t')"
    and "cb_total (moved b d t') = cb_total b + d" "cb_available (moved b d t') = cb_available b + d"
proof -
  have n: "2 * n + n \<le> 10 ^ 28" using bound by simp
  show "cash_balance_valid (moved b d t')" "cb_total (moved b d t') = cb_total b + d"
    "cb_available (moved b d t') = cb_available b + d"
    by (rule moved_exact [OF v g d n])+
  show "apply_journal_to_cash_balance b e code = Inr \<lparr>cp_balance = moved b d (je_occurred_at e),
      cp_cash_delta = \<lparr>amount = d, currency = cb_currency b\<rparr>\<rparr>"
    using apply_journal_exact [OF v g, of code e n] d bound lines t code by simp
qed

lemma apply_transfer_exact:
  assumes v: "cash_balance_valid src" "cash_balance_valid dst"
    and g: "balance_on_grid s n src" "balance_on_grid s n dst" "on_grid s n (amount m)"
    and bound: "3 * n \<le> 10 ^ 28" and ok: "transfer_ok src dst m i" "length i \<le> 128"
    and t: "cb_captured_at src \<le> occurred_at" "cb_captured_at dst \<le> occurred_at" "occurred_at \<le> created_at"
    and codes: "\<not> blank_or_padded (transfer_code src)" "\<not> blank_or_padded (transfer_code dst)"
    and new: "transfer_id_of H i \<notin> ids"
  obtains r where
    "apply_cash_transfer_once H src dst m i ids source_event_id occurred_at created_at = Inr r"
    and "ct_from_balance r = moved src (- amount m) occurred_at"
    and "ct_to_balance r = moved dst (amount m) occurred_at"
    and "ct_applied r" "ct_applied_journal_entry_ids r = insert (transfer_id_of H i) ids"
proof -
  have n: "n \<le> 10 ^ 28" using bound by linarith
  obtain e where e:
    "build_cash_transfer_journal_entry H src dst m i source_event_id occurred_at created_at = Inr e"
    and te: "je_occurred_at e = occurred_at"
    and lines: "cash_lines (transfer_code src) (currency m) e = [- amount m]"
      "cash_lines (transfer_code dst) (currency m) e = [amount m]"
    by (rule build_transfer_exact [OF ok(1) on_grid_fits [OF g(3) n] ok(2) t(3)])
  have cur: "cb_currency src = currency m" "cb_currency dst = currency m"
    and len: "length (transfer_code src) \<le> 128" "length (transfer_code dst) \<le> 128"
    and id: "\<not> blank_or_padded i"
    using ok(1) by (auto simp: transfer_ok_def)
  have out: "apply_journal_to_cash_balance src e (transfer_code src) =
      Inr \<lparr>cp_balance = moved src (- amount m) occurred_at,
           cp_cash_delta = \<lparr>amount = - amount m, currency = currency m\<rparr>\<rparr>"
    using apply_own_line(1) [OF v(1) g(1), of "- amount m" "transfer_code src" e] g(3) bound lines(1) t(1) codes(1)
    by (simp add: cur te)
  have inb: "apply_journal_to_cash_balance dst e (transfer_code dst) =
      Inr \<lparr>cp_balance = moved dst (amount m) occurred_at,
           cp_cash_delta = \<lparr>amount = amount m, currency = currency m\<rparr>\<rparr>"
    using apply_own_line(1) [OF v(2) g(2,3) bound, of "transfer_code dst" e] lines(2) t(2) codes(2)
    by (simp add: cur te)
  have steps: "validate_transfer_inputs src dst m i = Inr ()"
    "derive_cash_transfer_journal_entry_id H i = Inr (transfer_id_of H i)"
    "cash_balance_account_code src = Inr (transfer_code src)"
    "cash_balance_account_code dst = Inr (transfer_code dst)"
    using ok(1) id len by (simp_all add: validate_transfer_inputs_iff derive_transfer_iff account_code_iff)
  show ?thesis using that new by (auto simp: apply_cash_transfer_once_def steps e out inb)
qed

section \<open>The apply-once contract\<close>

fun transfer_step ::
  "hasher \<Rightarrow> cash_balance \<times> cash_balance \<Rightarrow> string set \<Rightarrow> movement \<Rightarrow>
   ((cash_balance \<times> cash_balance) \<times> string set) result" where
  "transfer_step H (src, dst) ids (m, i, source_event_id, occurred_at, created_at) =
     bindE (apply_cash_transfer_once H src dst m i ids source_event_id occurred_at created_at)
       (\<lambda>r. Inr ((ct_from_balance r, ct_to_balance r), ct_applied_journal_entry_ids r))"

definition transfer_accepts :: "cash_balance \<times> cash_balance \<Rightarrow> movement \<Rightarrow> bool" where
  "transfer_accepts bs a \<longleftrightarrow> transfer_ok (fst bs) (snd bs) (fst a) (fst (snd a))"

lemma transfer_step_Inr:
  assumes "transfer_step H bs ids a = Inr (bs', ids')"
  shows "transfer_accepts bs a" "ids' = insert (transfer_id_of H (fst (snd a))) ids"
    "same_account (fst bs) (fst bs')" "same_account (snd bs) (snd bs')"
  using assms by (cases bs; cases a; auto simp: apply_cash_transfer_once_def bindE_eq_Inr
      validate_transfer_inputs_iff derive_transfer_iff account_code_iff transfer_accepts_def
      apply_journal_Inr_iff split: if_splits)+

interpretation transfer_once:
  apply_once "transfer_step H" "\<lambda>_ a. transfer_id_of H (fst (snd a))" transfer_accepts
proof
  fix bs a ids
  assume acc: "transfer_accepts bs a" and key: "transfer_id_of H (fst (snd a)) \<in> ids"
  have "validate_transfer_inputs (fst bs) (snd bs) (fst a) (fst (snd a)) = Inr ()"
    "derive_cash_transfer_journal_entry_id H (fst (snd a)) = Inr (transfer_id_of H (fst (snd a)))"
    using acc by (simp_all add: validate_transfer_inputs_iff transfer_accepts_def derive_transfer_iff transfer_ok_def)
  with key show "transfer_step H bs ids a = Inr (bs, ids)"
    by (cases bs; cases a) (simp add: apply_cash_transfer_once_def)
next
  fix bs ids a bs' ids'
  assume st: "transfer_step H bs ids a = Inr (bs', ids')"
  note out = transfer_step_Inr [OF st]
  show "transfer_accepts bs a" "ids' = insert (transfer_id_of H (fst (snd a))) ids" by (fact out)+
  fix c
  show "transfer_id_of H (fst (snd c)) = transfer_id_of H (fst (snd c)) \<and>
      transfer_accepts bs' c = transfer_accepts bs c"
    using out(3,4) by (simp add: transfer_accepts_def transfer_ok_def transfer_code_def same_account_def)
qed

section \<open>Properties\<close>

text \<open>
  C30: a cash transfer conserves money and happens once. In fixed point, a transfer between two
  distinct balances of the amount's currency is accepted; exactly the amount leaves the source and
  reaches the destination, so the combined total is unchanged; both balances stay valid, and
  delivering the transfer again changes neither balance.
\<close>

theorem transfer_conserves_cash:
  assumes "cash_balance_valid src" and "cash_balance_valid dst"
    and "balance_on_grid s n src" and "balance_on_grid s n dst" and "on_grid s n (amount m)"
    and "3 * n \<le> 10 ^ 28" and "transfer_ok src dst m i" and "length i \<le> 128"
    and "cb_captured_at src \<le> t" and "cb_captured_at dst \<le> t" and "t \<le> t'"
    and "\<not> blank_or_padded (transfer_code src)" and "\<not> blank_or_padded (transfer_code dst)"
    and "transfer_id_of H i \<notin> ids"
  shows "\<exists>r. apply_cash_transfer_once H src dst m i ids e t t' = Inr r \<and>
    cb_available (ct_from_balance r) = cb_available src - amount m \<and>
    cb_available (ct_to_balance r) = cb_available dst + amount m \<and>
    cb_total (ct_from_balance r) + cb_total (ct_to_balance r) = cb_total src + cb_total dst \<and>
    cash_balance_valid (ct_from_balance r) \<and> cash_balance_valid (ct_to_balance r) \<and>
    transfer_step H (ct_from_balance r, ct_to_balance r) (ct_applied_journal_entry_ids r) (m, i, e, t, t') =
      Inr ((ct_from_balance r, ct_to_balance r), ct_applied_journal_entry_ids r)"
proof -
  obtain r where r: "apply_cash_transfer_once H src dst m i ids e t t' = Inr r"
    "ct_from_balance r = moved src (- amount m) t" "ct_to_balance r = moved dst (amount m) t"
    using apply_transfer_exact [OF assms, of e thesis] by blast
  have n: "2 * n + n \<le> 10 ^ 28" using assms(6) by simp
  have neg: "on_grid s n (- amount m)" using assms(5) by simp
  note out = moved_exact [OF assms(1,3) neg n, of t] and inb = moved_exact [OF assms(2,4,5) n, of t]
  have "transfer_step H (src, dst) ids (m, i, e, t, t') =
      Inr ((ct_from_balance r, ct_to_balance r), ct_applied_journal_entry_ids r)" by (simp add: r(1))
  note again = transfer_once.idempotent [OF this]
  show ?thesis
    by (intro exI [of _ r] conjI) (fact r(1) again | simp add: r(2,3) out(1-3) inb(1-3) del: moved_sel(7,8))+
qed

theorem transfer_conserves_cash_witness:
  "\<exists>r. apply_cash_transfer_once sample_hasher (sample_balance ''a'' 100 7 10) (sample_balance ''b'' 5 0 10)
      \<lparr>amount = 25/2, currency = ''USD''\<rparr> ''move_1'' {} ''evt_1'' 20 20 = Inr r \<and>
    cb_available (ct_from_balance r) = 175/2 \<and> cb_available (ct_to_balance r) = 35/2"
proof -
  let ?a = "sample_balance ''a'' 100 7 10" and ?b = "sample_balance ''b'' 5 0 10"
  let ?m = "\<lparr>amount = 25/2, currency = ''USD''\<rparr>"
  have g: "on_grid 2 10000 100" "on_grid 2 10000 7" "on_grid 2 10000 5" "on_grid 2 10000 0" "on_grid 2 10000 (25/2)"
    by (simp_all add: on_grid_def)
  have v: "cash_balance_valid ?a" "cash_balance_valid ?b"
    by (rule sample_balance_valid [OF g(1,2)] sample_balance_valid [OF g(3,4)]; simp add: text_in_def)+
  have gb: "balance_on_grid 2 10000 ?a" "balance_on_grid 2 10000 ?b" "on_grid 2 10000 (amount ?m)"
    using g by (simp_all add: balance_on_grid_def)
  have ok: "transfer_ok ?a ?b ?m ''move_1''" "\<not> blank_or_padded (transfer_code ?a)"
    "\<not> blank_or_padded (transfer_code ?b)"
    using usd_valid by (simp_all add: transfer_ok_def transfer_code_def ACCOUNT_CASH_def blank_or_padded_def
        py_strip_def py_isspace_def)
  show ?thesis
    using transfer_conserves_cash [OF v gb _ ok(1), of 20 20 sample_hasher "{}" "''evt_1''"] ok(2,3) by auto
qed

end
