(* ===== verification/Projections.thy ===== *)
theory Projections
  imports Fees "HOL-Library.Product_Lexorder" "HOL-Library.List_Lexorder" "HOL-Library.Char_ord"
begin

text \<open>
  \<open>src/pmrp/portfolio/projections.py\<close>: applying fills to a position once, applying a batch of
  fills in exchange-time order, and building a portfolio snapshot. The lemmas show the apply-once
  contract of fills, that a batch does not depend on the order of its fills nor on repetitions, that
  it moves the position by exactly its new fills, and that the snapshot's net exposure is bounded
  by its gross exposure.
\<close>

section \<open>One fill\<close>

record fill_application =
  fa_position :: "position option"
  fa_position_projection :: "position_projection option"
  fa_journal_entry :: "journal_entry option"
  fa_applied_fill_ids :: "ident set"
  fa_applied :: bool
  fa_duplicate_fill :: bool

definition apply_fill_once ::
  "hasher \<Rightarrow> position option \<Rightarrow> fill \<Rightarrow> ident set \<Rightarrow> string \<Rightarrow> ident \<Rightarrow> instant \<Rightarrow> ident option \<Rightarrow>
   fill_application result" where
  "apply_fill_once H position f ids cur source_event_id created_at pid =
     (if fl_fill_id f \<in> ids then
        Inr \<lparr>fa_position = position, fa_position_projection = None, fa_journal_entry = None,
             fa_applied_fill_ids = ids, fa_applied = False, fa_duplicate_fill = True\<rparr>
      else
        bindE (apply_fill_to_position H position f cur pid) (\<lambda>projection.
        bindE (build_fill_journal_entry H f projection source_event_id created_at) (\<lambda>e.
        Inr \<lparr>fa_position = Some (pp_position projection), fa_position_projection = Some projection,
             fa_journal_entry = Some e, fa_applied_fill_ids = ids \<union> {fl_fill_id f},
             fa_applied = True, fa_duplicate_fill = False\<rparr>)))"

section \<open>A batch of fills\<close>

record fill_batch =
  fb_position :: "position option"
  fb_fill_results :: "fill_application list"
  fb_journal_entries :: "journal_entry list"
  fb_applied_fill_ids :: "ident set"
  fb_applied_count :: nat
  fb_duplicate_fill_count :: nat

definition fill_order_key :: "fill \<Rightarrow> instant \<times> instant \<times> string" where
  "fill_order_key f = (fl_exchange_occurred_at f, fl_received_at f, fl_fill_id f)"

fun index_fills :: "(ident \<times> fill) list \<Rightarrow> fill list \<Rightarrow> (ident \<times> fill) list result" where
  "index_fills by_id [] = Inr by_id"
| "index_fills by_id (f # fs) =
     (if \<not> pred_option (\<lambda>previous. previous = f) (map_of by_id (fl_fill_id f))
      then Inl (PortfolioProjectionError (Batch Batch_conflicting_fill))
      else index_fills (dict_set (fl_fill_id f) f by_id) fs)"

definition validate_fill_batch :: "fill list \<Rightarrow> (ident \<times> ident) list \<Rightarrow> unit result" where
  "validate_fill_batch fills source_event_ids =
     bindE (index_fills [] fills) (\<lambda>by_id.
     guards [(filter (\<lambda>(i, f). map_of source_event_ids i = None) by_id \<noteq> [],
       PortfolioProjectionError (Batch Batch_missing_source_event))])"

text \<open>The loop body: the current position, the current identifiers and the results so far.\<close>

type_synonym batch_state = "position option \<times> ident set \<times> fill_application list"

fun batch_step ::
  "hasher \<Rightarrow> string \<Rightarrow> (ident \<times> ident) list \<Rightarrow> instant \<Rightarrow> ident option \<Rightarrow> batch_state \<Rightarrow> fill \<Rightarrow>
   batch_state result" where
  "batch_step H cur source_event_ids created_at pid (position, ids, results) f =
     bindE (case map_of source_event_ids (fl_fill_id f) of None \<Rightarrow> Inl KeyError | Some e \<Rightarrow> Inr e) (\<lambda>source.
     bindE (apply_fill_once H position f ids cur source created_at pid) (\<lambda>r.
     Inr (fa_position r, fa_applied_fill_ids r, results @ [r])))"

definition apply_fills_once ::
  "hasher \<Rightarrow> position option \<Rightarrow> fill list \<Rightarrow> ident set \<Rightarrow> string \<Rightarrow> (ident \<times> ident) list \<Rightarrow>
   instant \<Rightarrow> ident option \<Rightarrow> fill_batch result" where
  "apply_fills_once H position fills ids cur source_event_ids created_at pid =
     bindE (validate_fill_batch fills source_event_ids) (\<lambda>_.
     bindE (foldE (batch_step H cur source_event_ids created_at pid) (position, ids, [])
              (sort_key fill_order_key fills)) (\<lambda>(position', ids', results).
     Inr \<lparr>fb_position = position', fb_fill_results = results,
          fb_journal_entries = List.map_filter fa_journal_entry results,
          fb_applied_fill_ids = ids',
          fb_applied_count = length (filter fa_applied results),
          fb_duplicate_fill_count = length (filter fa_duplicate_fill results)\<rparr>))"

section \<open>Portfolio snapshots\<close>

record portfolio_snapshot =
  sn_portfolio_id :: string
  sn_captured_at :: instant
  sn_positions :: "position list"
  sn_balances :: "cash_balance list"
  sn_realized_pnl :: "money list"
  sn_unrealized_pnl :: "money list"
  sn_gross_exposure :: "money list"
  sn_net_exposure :: "money list"
  sn_reconciliation_status :: string

definition mk_portfolio_snapshot :: "portfolio_snapshot \<Rightarrow> portfolio_snapshot result" where
  "mk_portfolio_snapshot s =
     bindE (guards
       [(\<not> text_in 1 128 (sn_portfolio_id s), ValidationError (Out_of_range F_text)),
        (\<not> text_in 1 64 (sn_reconciliation_status s), ValidationError (Out_of_range F_text)),
        (\<not> distinct (map ps_position_id (sn_positions s)), ValidationError (Duplicate_values F_positions)),
        (\<not> distinct (map cb_balance_id (sn_balances s)), ValidationError (Duplicate_values F_balances))])
       (\<lambda>_. Inr s)"

abbreviation snapshot_raise :: "batch_error \<Rightarrow> py_error" where
  "snapshot_raise e \<equiv> PortfolioProjectionError (Batch e)"

definition position_currency :: "position \<Rightarrow> string result" where
  "position_currency p =
     (let c = currency (ps_realized_pnl p) in
      bindE (guards
        [(currency (ps_unrealized_pnl p) \<noteq> c, snapshot_raise (Snapshot_currency_mismatch F_unrealized_pnl)),
         (currency (ps_fees_paid p) \<noteq> c, snapshot_raise (Snapshot_currency_mismatch F_fees_paid)),
         (currency (ps_rebates_received p) \<noteq> c,
            snapshot_raise (Snapshot_currency_mismatch F_rebates_received))]) (\<lambda>_. Inr c))"

definition position_exposure :: "position \<Rightarrow> rat result" where
  "position_exposure p =
     (if ps_quantity p = 0 then Inr 0
      else case ps_average_entry_price p of
        None \<Rightarrow> Inl (snapshot_raise Snapshot_lacks_average)
      | Some a \<Rightarrow> Inr (dmul (ps_quantity p) a))"

definition validate_snapshot_horizon ::
  "position list \<Rightarrow> cash_balance list \<Rightarrow> instant \<Rightarrow> unit result" where
  "validate_snapshot_horizon positions balances captured_at =
     bindE (mapE (\<lambda>p.
        bindE (guards [(captured_at < ps_last_updated_at p, snapshot_raise Snapshot_position_after)]) (\<lambda>_.
        bindE (position_currency p) (\<lambda>_.
        guards [(ps_quantity p \<noteq> 0 \<and> ps_average_entry_price p = None,
          snapshot_raise Snapshot_lacks_average)]))) positions) (\<lambda>_.
     guards (map (\<lambda>b. (captured_at < cb_captured_at b, snapshot_raise Snapshot_balance_after)) balances))"

definition add_to_total :: "string \<Rightarrow> rat \<Rightarrow> (string \<times> rat) list \<Rightarrow> (string \<times> rat) list" where
  "add_to_total c x totals =
     dict_set c (dadd (case map_of totals c of None \<Rightarrow> 0 | Some t \<Rightarrow> t) x) totals"

definition money_totals :: "(string \<times> rat) list \<Rightarrow> money list" where
  "money_totals totals =
     map (\<lambda>c. \<lparr>amount = (case map_of totals c of None \<Rightarrow> 0 | Some t \<Rightarrow> t), currency = c\<rparr>)
       (sort (map fst totals))"

definition sum_position_money :: "(position \<Rightarrow> money) \<Rightarrow> position list \<Rightarrow> money list" where
  "sum_position_money sel positions =
     money_totals (foldl (\<lambda>totals p. add_to_total (currency (sel p)) (amount (sel p)) totals) [] positions)"

definition sum_position_exposure :: "bool \<Rightarrow> position list \<Rightarrow> money list result" where
  "sum_position_exposure gross positions =
     bindE (foldE (\<lambda>totals p.
        bindE (position_currency p) (\<lambda>c.
        bindE (position_exposure p) (\<lambda>x.
        Inr (add_to_total c (if gross then dabs x else x) totals)))) [] positions) (\<lambda>totals.
     Inr (money_totals totals))"

definition build_portfolio_snapshot ::
  "string \<Rightarrow> position list \<Rightarrow> cash_balance list \<Rightarrow> instant \<Rightarrow> string \<Rightarrow> portfolio_snapshot result" where
  "build_portfolio_snapshot portfolio_id positions balances captured_at status =
     (let ps = sort_key ps_position_id positions; bs = sort_key cb_balance_id balances in
      bindE (validate_snapshot_horizon ps bs captured_at) (\<lambda>_.
      bindE (sum_position_exposure True ps) (\<lambda>gross.
      bindE (sum_position_exposure False ps) (\<lambda>net.
      mk_portfolio_snapshot
        \<lparr>sn_portfolio_id = portfolio_id, sn_captured_at = captured_at, sn_positions = ps,
         sn_balances = bs, sn_realized_pnl = sum_position_money ps_realized_pnl ps,
         sn_unrealized_pnl = sum_position_money ps_unrealized_pnl ps,
         sn_gross_exposure = gross, sn_net_exposure = net, sn_reconciliation_status = status\<rparr>))))"

section \<open>The batch check\<close>

lemma index_fills_cases:
  "index_fills d fs =
     (if (\<forall>f \<in> set fs. pred_option (\<lambda>g. g = f) (map_of d (fl_fill_id f))) \<and> inj_on fl_fill_id (set fs)
      then Inr (foldl (\<lambda>d f. dict_set (fl_fill_id f) f d) d fs)
      else Inl (PortfolioProjectionError (Batch Batch_conflicting_fill)))"
proof (induction d fs rule: index_fills.induct)
  case (1 d)
  then show ?case by simp
next
  case (2 d f fs)
  let ?ok = "\<lambda>d fs. (\<forall>f \<in> set fs. pred_option (\<lambda>g. g = f) (map_of d (fl_fill_id f))) \<and>
    inj_on fl_fill_id (set fs)"
  have "?ok d (f # fs) \<longleftrightarrow> pred_option (\<lambda>g. g = f) (map_of d (fl_fill_id f)) \<and>
      ?ok (dict_set (fl_fill_id f) f d) fs"
    by (auto simp: map_of_dict_set inj_on_def)
  with 2 show ?case by auto
qed

lemma keys_foldl_dict_set:
  "fst ` set (foldl (\<lambda>d f. dict_set (fl_fill_id f) f d) d fs) = fst ` set d \<union> fl_fill_id ` set fs"
  by (induction fs arbitrary: d) auto

lemma validate_fill_batch_cases:
  "validate_fill_batch fs src =
     (if \<not> inj_on fl_fill_id (set fs) then Inl (PortfolioProjectionError (Batch Batch_conflicting_fill))
      else if fl_fill_id ` set fs \<subseteq> dom (map_of src) then Inr ()
      else Inl (PortfolioProjectionError (Batch Batch_missing_source_event)))"
proof -
  let ?d = "foldl (\<lambda>d f. dict_set (fl_fill_id f) f d) [] fs"
  have "filter (\<lambda>(i, f). map_of src i = None) ?d = [] \<longleftrightarrow> (\<forall>i \<in> fst ` set ?d. map_of src i \<noteq> None)"
    by (auto simp: filter_empty_conv)
  also have "fst ` set ?d = fl_fill_id ` set fs" by (simp add: keys_foldl_dict_set)
  finally show ?thesis
    by (auto simp: validate_fill_batch_def index_fills_cases dom_def)
qed

lemma key_inj: "inj_on fl_fill_id S \<Longrightarrow> inj_on fill_order_key S"
  by (auto simp: inj_on_def fill_order_key_def)

lemma sort_fills_perm:
  assumes "mset xs = mset ys" and "inj_on fl_fill_id (set xs)"
  shows "sort_key fill_order_key xs = sort_key fill_order_key ys"
  using assms key_inj [OF assms(2)] by (intro sort_key_inj_key_eq) simp_all

section \<open>The apply-once contract\<close>

text \<open>The state a delivery of fills builds: the position and the journal.\<close>

type_synonym fill_state = "position option \<times> journal_entry list"
type_synonym fill_command = "fill \<times> string \<times> ident \<times> instant \<times> ident option"

fun fill_step :: "hasher \<Rightarrow> fill_state \<Rightarrow> ident set \<Rightarrow> fill_command \<Rightarrow> (fill_state \<times> ident set) result" where
  "fill_step H (position, journal) ids (f, cur, source_event_id, created_at, pid) =
     bindE (apply_fill_once H position f ids cur source_event_id created_at pid) (\<lambda>r.
     Inr ((fa_position r, journal @ (case fa_journal_entry r of None \<Rightarrow> [] | Some e \<Rightarrow> [e])),
          fa_applied_fill_ids r))"

interpretation fill_once: apply_once "fill_step H" "\<lambda>_ a. fl_fill_id (fst a)" "\<lambda>_ _. True"
proof
  fix s :: fill_state and a :: fill_command and ids s' ids'
  assume "fill_step H s ids a = Inr (s', ids')"
  then show "ids' = insert (fl_fill_id (fst a)) ids"
    by (cases s; cases a) (auto simp: apply_fill_once_def bindE_eq_Inr split: if_splits)
next
  fix s :: fill_state and a :: fill_command and ids
  assume "fl_fill_id (fst a) \<in> ids"
  then show "fill_step H s ids a = Inr (s, ids)" by (cases s; cases a) (simp add: apply_fill_once_def)
qed simp_all

text \<open>The batch loop is a run of that contract; its results are what it adds to the journal.\<close>

definition fill_commands ::
  "string \<Rightarrow> (ident \<times> ident) list \<Rightarrow> instant \<Rightarrow> ident option \<Rightarrow> fill list \<Rightarrow> fill_command list" where
  "fill_commands cur src created_at pid fs =
     map (\<lambda>f. (f, cur, case map_of src (fl_fill_id f) of None \<Rightarrow> [] | Some e \<Rightarrow> e, created_at, pid)) fs"

definition journal_of :: "fill_application list \<Rightarrow> journal_entry list" where
  "journal_of rs = List.map_filter fa_journal_entry rs"

definition well_formed_results :: "fill_application list \<Rightarrow> bool" where
  "well_formed_results rs \<longleftrightarrow>
     list_all (\<lambda>r. fa_duplicate_fill r = (\<not> fa_applied r) \<and> fa_applied r = (fa_journal_entry r \<noteq> None)) rs"

lemma apply_fill_once_flags:
  assumes "apply_fill_once H p f ids cur e t pid = Inr r"
  shows "fa_duplicate_fill r = (fl_fill_id f \<in> ids)" "fa_applied r = (fl_fill_id f \<notin> ids)"
    "fa_journal_entry r = None \<longleftrightarrow> fl_fill_id f \<in> ids"
    "fa_applied_fill_ids r = insert (fl_fill_id f) ids"
  using assms by (auto simp: apply_fill_once_def bindE_eq_Inr split: if_splits)

lemma batch_is_run:
  assumes "fl_fill_id ` set fs \<subseteq> dom (map_of src)"
  shows "map_sum id (\<lambda>(p, ids, rs). ((p, js @ journal_of rs), ids))
      (foldE (batch_step H cur src t pid) (p, ids, rs) fs) =
    fill_once.run H ((p, js @ journal_of rs), ids) (fill_commands cur src t pid fs)"
  using assms
proof (induction fs arbitrary: p ids rs)
  case Nil
  then show ?case by (simp add: fill_commands_def)
next
  case (Cons f fs)
  then obtain e where e: "map_of src (fl_fill_id f) = Some e" by auto
  show ?case
  proof (cases "apply_fill_once H p f ids cur e t pid")
    case (Inl err)
    then show ?thesis by (simp add: e fill_commands_def)
  next
    case (Inr r)
    have "js @ journal_of (rs @ [r]) =
        (js @ journal_of rs) @ (case fa_journal_entry r of None \<Rightarrow> [] | Some e \<Rightarrow> [e])"
      by (simp add: journal_of_def map_filter_def split: option.splits)
    with Inr Cons.IH [of "fa_position r" "fa_applied_fill_ids r" "rs @ [r]"] Cons.prems
    show ?thesis by (simp add: e fill_commands_def)
  qed
qed

lemma firsts_set [simp]: "set (firsts seen xs) = set xs - set seen"
  by (induction seen xs rule: firsts.induct) auto

lemma firsts_distinct: "distinct (firsts seen xs)"
  by (induction seen xs rule: firsts.induct) auto

lemma firsts_sorted: "sorted (map k xs) \<Longrightarrow> sorted (map k (firsts seen xs))"
  by (induction seen xs rule: firsts.induct) auto

lemma firsts_map: "inj g \<Longrightarrow> firsts (map g seen) (map g xs) = map g (firsts seen xs)"
  by (induction seen xs rule: firsts.induct) (auto simp: inj_image_mem_iff)

lemma sort_fills_set:
  assumes "set xs = set ys" and "inj_on fl_fill_id (set xs)"
  shows "firsts [] (sort_key fill_order_key xs) = firsts [] (sort_key fill_order_key ys)"
proof -
  have i: "inj_on fill_order_key (set ys)" using assms key_inj by metis
  show ?thesis
    using i assms(1)
    by (intro map_sorted_distinct_set_unique [of fill_order_key])
      (auto simp: firsts_distinct distinct_map inj_on_subset intro!: firsts_sorted)
qed

text \<open>What a batch leaves behind, apart from the list of its results.\<close>

definition batch_outcome :: "fill_batch \<Rightarrow> fill_state \<times> ident set" where
  "batch_outcome r = ((fb_position r, fb_journal_entries r), fb_applied_fill_ids r)"

lemma batch_outcome_run:
  assumes "inj_on fl_fill_id (set fs)" and "fl_fill_id ` set fs \<subseteq> dom (map_of src)"
  shows "map_sum id batch_outcome (apply_fills_once H p fs ids cur src t pid) =
    fill_once.run H ((p, []), ids) (fill_commands cur src t pid (firsts [] (sort_key fill_order_key fs)))"
proof -
  let ?fs = "sort_key fill_order_key fs" and ?st = "((p, []), ids) :: fill_state \<times> ident set"
  let ?g = "\<lambda>f. (f, cur, case map_of src (fl_fill_id f) of None \<Rightarrow> [] | Some e \<Rightarrow> e, t, pid)"
  have "map_sum id batch_outcome (apply_fills_once H p fs ids cur src t pid) =
      map_sum id (\<lambda>(p, ids, rs). ((p, [] @ journal_of rs), ids))
        (foldE (batch_step H cur src t pid) (p, ids, []) ?fs)"
    using assms
    by (cases "foldE (batch_step H cur src t pid) (p, ids, []) ?fs")
      (auto simp: apply_fills_once_def validate_fill_batch_cases batch_outcome_def journal_of_def)
  also have "\<dots> = fill_once.run H ?st (fill_commands cur src t pid ?fs)"
    using batch_is_run [of ?fs src "[]" H cur t pid p ids "[]"] assms(2)
    by (simp add: journal_of_def map_filter_simps)
  also have "\<dots> = fill_once.run H ?st (firsts [] (fill_commands cur src t pid ?fs))"
    by (rule fill_once.at_least_once [symmetric]) simp
  also have "firsts [] (fill_commands cur src t pid ?fs) = fill_commands cur src t pid (firsts [] ?fs)"
    using firsts_map [of ?g "[]" ?fs] by (simp add: fill_commands_def inj_def)
  finally show ?thesis .
qed

text \<open>Counting: one result per fill, applied exactly when it has a journal entry.\<close>

lemma batch_fold_counts:
  assumes "foldE (batch_step H cur src t pid) (p, ids, rs) fs = Inr (p', ids', rs')"
    and "well_formed_results rs"
  shows "well_formed_results rs'" and "length rs' = length rs + length fs"
  using assms
proof (induction fs arbitrary: p ids rs)
  case Nil
  { case 1 then show ?case using Nil by simp }
  { case 2 then show ?case using Nil by simp }
next
  case (Cons f fs)
  { case 1
    then obtain e r where e: "apply_fill_once H p f ids cur e t pid = Inr r"
      and rest: "foldE (batch_step H cur src t pid) (fa_position r, fa_applied_fill_ids r, rs @ [r]) fs =
        Inr (p', ids', rs')"
      by (auto simp: bindE_eq_Inr split: option.splits)
    have "well_formed_results (rs @ [r])"
      using 1(2) apply_fill_once_flags [OF e] by (auto simp: well_formed_results_def)
    with rest show ?case by (rule Cons.IH) }
  { case 2
    then obtain e r where e: "apply_fill_once H p f ids cur e t pid = Inr r"
      and rest: "foldE (batch_step H cur src t pid) (fa_position r, fa_applied_fill_ids r, rs @ [r]) fs =
        Inr (p', ids', rs')"
      by (auto simp: bindE_eq_Inr split: option.splits)
    have "well_formed_results (rs @ [r])"
      using 2(2) apply_fill_once_flags [OF e] by (auto simp: well_formed_results_def)
    with rest have "length rs' = length (rs @ [r]) + length fs" by (rule Cons.IH)
    then show ?case by simp }
qed

lemma well_formed_counts:
  "well_formed_results rs \<Longrightarrow> length (filter fa_applied rs) = length (journal_of rs) \<and>
     length (filter fa_applied rs) + length (filter fa_duplicate_fill rs) = length rs"
  by (induction rs) (auto simp: well_formed_results_def journal_of_def map_filter_def)

lemma batch_counts:
  assumes "apply_fills_once H p fs ids cur src t pid = Inr r"
  shows "fb_applied_count r = length (fb_journal_entries r)"
    and "fb_applied_count r + fb_duplicate_fill_count r = length fs"
proof -
  from assms obtain p' ids' rs where
    fold: "foldE (batch_step H cur src t pid) (p, ids, []) (sort_key fill_order_key fs) = Inr (p', ids', rs)"
    and r: "r = \<lparr>fb_position = p', fb_fill_results = rs, fb_journal_entries = journal_of rs,
      fb_applied_fill_ids = ids', fb_applied_count = length (filter fa_applied rs),
      fb_duplicate_fill_count = length (filter fa_duplicate_fill rs)\<rparr>"
    by (auto simp: apply_fills_once_def bindE_eq_Inr journal_of_def)
  have wf: "well_formed_results []" by (simp add: well_formed_results_def)
  show "fb_applied_count r = length (fb_journal_entries r)"
    "fb_applied_count r + fb_duplicate_fill_count r = length fs"
    using well_formed_counts [OF batch_fold_counts(1) [OF fold wf]] batch_fold_counts(2) [OF fold wf]
    by (simp_all add: r)
qed

section \<open>What a batch does to the position\<close>

definition exact_signed_quantity :: "fill \<Rightarrow> rat" where
  "exact_signed_quantity f = (case fl_side f of BUY \<Rightarrow> fl_quantity f | SELL \<Rightarrow> - fl_quantity f)"

lemma wa_quantity_eq:
  assumes "apply_weighted_average_fill q avg f = Inr w"
  shows "wa_quantity w = dadd q (signed_fill_quantity f)"
proof (cases "q = 0")
  case True
  with assms show ?thesis by (auto simp: wa_open)
next
  case False
  let ?fq = "signed_fill_quantity f"
  note def = assms [unfolded apply_weighted_average_fill_def Let_def]
  from False def obtain a same where a: "avg = Some a" and same: "same_direction q ?fq = Inr same"
    by (cases avg; cases "same_direction q ?fq") simp_all
  show ?thesis
  proof (cases same)
    case True
    with def False a same show ?thesis by auto
  next
    case opposite: False
    with def False a same show ?thesis
      by (cases "dadd q ?fq = 0") (auto simp: sign_eq same_direction_eq)
  qed
qed

lemma apply_fill_quantity:
  assumes "apply_fill_to_position H p f c pid = Inr r"
    and "on_grid s n (existing_quantity p)" "on_grid s m (fl_quantity f)" "n + m \<le> 10 ^ 28"
  shows "ps_quantity (pp_position r) = existing_quantity p + exact_signed_quantity f"
    and "on_grid s (n + m) (existing_quantity p + exact_signed_quantity f)"
    and "ps_aggregate_version (pp_position r) = existing_version p + 1"
proof -
  have m: "m \<le> 10 ^ 28" using assms(4) by linarith
  have e: "signed_fill_quantity f = exact_signed_quantity f"
    using signed_fill_quantity_exact [OF on_grid_fits [OF assms(3) m]] by (simp add: exact_signed_quantity_def)
  have "on_grid s m (exact_signed_quantity f)"
    using assms(3) by (simp add: exact_signed_quantity_def split: side.splits)
  with assms(2) show g: "on_grid s (n + m) (existing_quantity p + exact_signed_quantity f)"
    by (rule on_grid_add)
  from assms(1) obtain w t where
    w: "apply_weighted_average_fill (existing_quantity p) (existing_average p) f = Inr w"
    and r: "r = projection_result (projected_position H p f c pid (money_or_zero (fl_fee f) c)
          (money_or_zero (fl_rebate f) c) w t) f c (money_or_zero (fl_fee f) c)
          (money_or_zero (fl_rebate f) c) w"
    unfolding apply_fill_Inr_iff by - (elim conjE exE, rule that; assumption)
  show "ps_quantity (pp_position r) = existing_quantity p + exact_signed_quantity f"
    using wa_quantity_eq [OF w] on_grid_fits [OF g assms(4)] by (simp add: r e dadd_def d28.rnd_exact)
  show "ps_aggregate_version (pp_position r) = existing_version p + 1" by (simp add: r)
qed

lemma run_quantity:
  assumes "fill_once.run H ((p, js), ids) (fill_commands cur src t pid fs) = Inr ((p', js'), ids')"
    and "distinct (map fl_fill_id fs)" and "on_grid s n (existing_quantity p)"
    and "\<And>f. f \<in> set fs \<Longrightarrow> on_grid s m (fl_quantity f)" and "n + length fs * m \<le> 10 ^ 28"
  shows "existing_quantity p' = existing_quantity p +
      sum_list (map exact_signed_quantity (filter (\<lambda>f. fl_fill_id f \<notin> ids) fs)) \<and>
    existing_version p' = existing_version p + int (length (filter (\<lambda>f. fl_fill_id f \<notin> ids) fs)) \<and>
    length js' = length js + length (filter (\<lambda>f. fl_fill_id f \<notin> ids) fs)"
  using assms
proof (induction fs arbitrary: p js ids n)
  case Nil
  then show ?case by (simp add: fill_commands_def)
next
  case (Cons f fs)
  let ?e = "case map_of src (fl_fill_id f) of None \<Rightarrow> [] | Some e \<Rightarrow> e"
  from Cons.prems(1) obtain r where r: "apply_fill_once H p f ids cur ?e t pid = Inr r"
    and rest: "fill_once.run H ((fa_position r, js @ (case fa_journal_entry r of None \<Rightarrow> [] | Some e \<Rightarrow> [e])),
        fa_applied_fill_ids r) (fill_commands cur src t pid fs) = Inr ((p', js'), ids')"
    by (auto simp: fill_commands_def bindE_eq_Inr)
  note flags = apply_fill_once_flags [OF r]
  have same: "filter (\<lambda>g. fl_fill_id g \<notin> fa_applied_fill_ids r) fs = filter (\<lambda>g. fl_fill_id g \<notin> ids) fs"
    using Cons.prems(2) by (intro filter_cong) (auto simp: flags(4) rev_image_eqI)
  have d: "distinct (map fl_fill_id fs)" using Cons.prems(2) by simp
  have gf: "\<And>g. g \<in> set fs \<Longrightarrow> on_grid s m (fl_quantity g)" using Cons.prems(4) by simp
  have b: "n + m + length fs * m \<le> 10 ^ 28" using Cons.prems(5) by simp
  show ?case
  proof (cases "fl_fill_id f \<in> ids")
    case True
    then have "fa_position r = p" "fa_journal_entry r = None" using r by (auto simp: apply_fill_once_def)
    moreover have "n + length fs * m \<le> 10 ^ 28" using b by linarith
    ultimately show ?thesis
      using Cons.IH [OF rest d _ gf] Cons.prems(3) True same by simp
  next
    case False
    with r obtain pr e where pr: "apply_fill_to_position H p f cur pid = Inr pr"
      and "fa_position r = Some (pp_position pr)" and e: "fa_journal_entry r = Some e"
      by (auto simp: apply_fill_once_def bindE_eq_Inr)
    then have q: "existing_quantity (fa_position r) = ps_quantity (pp_position pr)"
      "existing_version (fa_position r) = ps_aggregate_version (pp_position pr)" by simp_all
    have nm: "n + m \<le> 10 ^ 28" using b by linarith
    note one = apply_fill_quantity [OF pr Cons.prems(3) _ nm]
    have gq: "on_grid s m (fl_quantity f)" using Cons.prems(4) by simp
    show ?thesis
      using Cons.IH [OF rest d _ gf b] one [OF gq] False same q e by simp
  qed
qed

lemma batch_success_valid:
  assumes "apply_fills_once H p fs ids cur src t pid = Inr r"
  shows "inj_on fl_fill_id (set fs)" "fl_fill_id ` set fs \<subseteq> dom (map_of src)"
  using assms by (auto simp: apply_fills_once_def bindE_eq_Inr validate_fill_batch_cases split: if_splits)

section \<open>Properties of batches\<close>

text \<open>
  C27: a batch of fills depends neither on the order in which its fills arrive nor on repetitions.
  Two batches with the same set of fills end in the same position, the same journal entries in the
  same order and the same applied identifiers, or raise the same error.
\<close>

theorem batch_order_and_repetition_irrelevant:
  assumes "set fs = set gs"
  shows "map_sum id batch_outcome (apply_fills_once H p fs ids cur src t pid) =
    map_sum id batch_outcome (apply_fills_once H p gs ids cur src t pid)"
proof (cases "inj_on fl_fill_id (set fs) \<and> fl_fill_id ` set fs \<subseteq> dom (map_of src)")
  case True
  then show ?thesis
    using batch_outcome_run [of fs src H p ids cur t pid] batch_outcome_run [of gs src H p ids cur t pid]
      sort_fills_set [OF assms] assms by simp
next
  case False
  then show ?thesis using assms by (auto simp: apply_fills_once_def validate_fill_batch_cases)
qed

theorem batch_order_and_repetition_irrelevant_witness:
  "map_sum id batch_outcome (apply_fills_once sample_hasher None
      [sample_fill ''fill_2'' SELL 1 (1/2) 20, sample_fill ''fill_1'' BUY 2 (1/4) 10] {} ''USD''
      [(''fill_1'', ''evt_1''), (''fill_2'', ''evt_2'')] 30 None) =
   map_sum id batch_outcome (apply_fills_once sample_hasher None
      [sample_fill ''fill_1'' BUY 2 (1/4) 10, sample_fill ''fill_2'' SELL 1 (1/2) 20,
       sample_fill ''fill_1'' BUY 2 (1/4) 10] {} ''USD''
      [(''fill_1'', ''evt_1''), (''fill_2'', ''evt_2'')] 30 None)"
  by (rule batch_order_and_repetition_irrelevant) auto

text \<open>
  C16: an accepted batch moves the position by exactly its new fills. The identifiers of all its
  fills are recorded; each distinct fill that was not applied before counts once, has one journal
  entry, raises the version by one, and (in fixed point) the quantity moves by the signed sum of those
  fills; every other occurrence is counted as a duplicate.
\<close>

theorem batch_applies_each_new_fill_once:
  assumes "apply_fills_once H p fs ids cur src t pid = Inr r"
    and "on_grid s n (existing_quantity p)" and "\<And>f. f \<in> set fs \<Longrightarrow> on_grid s m (fl_quantity f)"
    and "n + length fs * m \<le> 10 ^ 28"
  shows "existing_quantity (fb_position r) = existing_quantity p +
      (\<Sum>f \<in> {f \<in> set fs. fl_fill_id f \<notin> ids}. exact_signed_quantity f) \<and>
    fb_applied_count r = card {f \<in> set fs. fl_fill_id f \<notin> ids} \<and>
    fb_applied_count r = length (fb_journal_entries r) \<and>
    fb_applied_count r + fb_duplicate_fill_count r = length fs \<and>
    existing_version (fb_position r) = existing_version p + int (fb_applied_count r) \<and>
    fb_applied_fill_ids r = ids \<union> fl_fill_id ` set fs"
proof -
  note ok = batch_success_valid [OF assms(1)]
  let ?fs = "firsts [] (sort_key fill_order_key fs)" and ?new = "\<lambda>f. fl_fill_id f \<notin> ids"
  have set: "set ?fs = set fs" by simp
  have run: "fill_once.run H ((p, []), ids) (fill_commands cur src t pid ?fs) =
      Inr ((fb_position r, fb_journal_entries r), fb_applied_fill_ids r)"
    using batch_outcome_run [OF ok, of H p ids cur t pid] assms(1) by (simp add: batch_outcome_def)
  have d: "distinct (map fl_fill_id ?fs)" using ok(1) by (simp add: distinct_map firsts_distinct)
  have "length ?fs = card (set fs)" using distinct_card [OF firsts_distinct] set by metis
  then have "length ?fs * m \<le> length fs * m" by (simp add: card_length)
  then have b: "n + length ?fs * m \<le> 10 ^ 28" using assms(4) by linarith
  note q = run_quantity [OF run d assms(2) _ b]
  have sums: "sum_list (map exact_signed_quantity (filter ?new ?fs)) = (\<Sum>f \<in> {f \<in> set fs. ?new f}. exact_signed_quantity f)"
    "length (filter ?new ?fs) = card {f \<in> set fs. ?new f}"
    using sum_list_distinct_conv_sum_set [of "filter ?new ?fs" exact_signed_quantity]
      distinct_card [of "filter ?new ?fs"] by (simp_all add: firsts_distinct)
  have "fb_applied_fill_ids r = ids \<union> fl_fill_id ` set fs"
    using fill_once.run_frame(6) [OF run] by (simp add: fill_commands_def image_image)
  then show ?thesis using q [OF assms(3)] sums batch_counts [OF assms(1)] by simp
qed

theorem batch_applies_each_new_fill_once_witness:
  "\<exists>r. apply_fills_once sample_hasher None [sample_fill ''fill_1'' BUY 2 (1/4) 10, sample_fill ''fill_1'' BUY 2 (1/4) 10]
      {} ''USD'' [(''fill_1'', ''evt_1'')] 30 None = Inr r \<and>
    existing_quantity (fb_position r) = 2 \<and> fb_applied_count r = 1 \<and> fb_duplicate_fill_count r = 1"
proof -
  let ?f = "sample_fill ''fill_1'' BUY 2 (1/4) 10"
  have fv: "fill_valid ?f" "pred_option position_valid None" "fill_on_grid 0 10 2 100 None ?f"
    "text_in 1 128 (fl_fill_id ?f)" "fl_exchange_occurred_at ?f \<le> 30"
    by (simp_all add: sample_fill_valid) (simp_all add: fill_on_grid_def on_grid_def sample_fill_def text_in_def)
  obtain pr where pr: "apply_fill_to_position sample_hasher None ?f ''USD'' None = Inr pr"
    using apply_fill_ok_iff [OF fv(1,2)] sample_accepted(2) by blast
  obtain e where e: "build_fill_journal_entry sample_hasher ?f pr ''evt_1'' 30 = Inr e"
    by (rule build_fill_journal_ok [OF fv(1,2,3) _ _ pr fv(4,5)]) simp_all
  have i: "fl_fill_id ?f = ''fill_1''" "on_grid 0 10 (fl_quantity ?f)" "exact_signed_quantity ?f = 2"
    by (simp_all add: sample_fill_def on_grid_def exact_signed_quantity_def)
  have "\<exists>r. apply_fills_once sample_hasher None [?f, ?f] {} ''USD'' [(''fill_1'', ''evt_1'')] 30 None = Inr r"
    by (simp add: apply_fills_once_def validate_fill_batch_cases apply_fill_once_def i(1) pr e)
  then obtain r where r: "apply_fills_once sample_hasher None [?f, ?f] {} ''USD'' [(''fill_1'', ''evt_1'')] 30 None = Inr r"
    by blast
  have "{f \<in> set [?f, ?f]. fl_fill_id f \<notin> {}} = {?f}" by auto
  with batch_applies_each_new_fill_once [OF r, of 0 10 10] r i(2,3) show ?thesis by (auto simp: on_grid_zero)
qed

section \<open>Snapshots: net exposure is bounded by gross exposure\<close>

lemma position_currency_iff:
  "position_currency p = Inr c \<longleftrightarrow> c = currency (ps_realized_pnl p) \<and>
     currency (ps_unrealized_pnl p) = c \<and> currency (ps_fees_paid p) = c \<and> currency (ps_rebates_received p) = c"
  by (auto simp: position_currency_def Let_def bindE_eq_Inr guards_ok_iff)

definition total_of :: "(string \<times> rat) list \<Rightarrow> string \<Rightarrow> rat" where
  "total_of totals c = (case map_of totals c of None \<Rightarrow> 0 | Some t \<Rightarrow> t)"

lemma total_of_add: "total_of (add_to_total c x d) k = (if k = c then dadd (total_of d c) x else total_of d k)"
  by (simp add: total_of_def add_to_total_def map_of_dict_set)

lemma keys_add_to_total [simp]: "fst ` set (add_to_total c x d) = insert c (fst ` set d)"
  by (simp add: add_to_total_def)

text \<open>The two folds visit the same positions: same currencies, and the net total is dominated.\<close>

definition dominated :: "(string \<times> rat) list \<Rightarrow> (string \<times> rat) list \<Rightarrow> bool" where
  "dominated gross net \<longleftrightarrow> fst ` set gross = fst ` set net \<and> (\<forall>c. \<bar>total_of net c\<bar> \<le> total_of gross c)"

lemma dominated_add:
  assumes d: "dominated gross net" and x: "dec_fits 28 x"
  shows "dominated (add_to_total c (dabs x) gross) (add_to_total c x net)"
proof -
  have "\<bar>total_of net c\<bar> \<le> total_of gross c" using d by (simp add: dominated_def)
  then have le: "\<bar>total_of net c + x\<bar> \<le> total_of gross c + dabs x"
    using x by (simp add: dabs_exact)
  have "\<bar>dadd (total_of net c) x\<bar> = dec_round 28 \<bar>total_of net c + x\<bar>"
    by (simp add: dadd_def d28.rnd_abs)
  also have "\<dots> \<le> dadd (total_of gross c) (dabs x)"
    unfolding dadd_def using le by (rule d28.rnd_mono)
  finally show ?thesis using d by (simp add: dominated_def total_of_add)
qed

lemma exposure_folds_dominated:
  assumes "foldE (\<lambda>totals p. bindE (position_currency p) (\<lambda>c. bindE (position_exposure p) (\<lambda>x.
      Inr (add_to_total c (if True then dabs x else x) totals)))) gross ps = Inr gross'"
    and "foldE (\<lambda>totals p. bindE (position_currency p) (\<lambda>c. bindE (position_exposure p) (\<lambda>x.
      Inr (add_to_total c (if False then dabs x else x) totals)))) net ps = Inr net'"
    and "dominated gross net"
  shows "dominated gross' net'"
  using assms
proof (induction ps arbitrary: gross net)
  case Nil
  then show ?case by simp
next
  case (Cons p ps)
  from Cons.prems(1) obtain c x where c: "position_currency p = Inr c" and x: "position_exposure p = Inr x"
    by (auto simp: bindE_eq_Inr)
  have "dec_fits 28 x" using x by (auto simp: position_exposure_def split: if_splits option.splits)
  then have "dominated (add_to_total c (dabs x) gross) (add_to_total c x net)"
    using Cons.prems(3) by (intro dominated_add)
  with Cons.prems(1,2) c x show ?case by (intro Cons.IH) simp_all
qed

lemma money_totals_currencies: "map currency (money_totals d) = sort (map fst d)"
  by (simp add: money_totals_def comp_def)

lemma money_totals_amount: "m \<in> set (money_totals d) \<Longrightarrow> amount m = total_of d (currency m)"
  by (auto simp: money_totals_def total_of_def)

lemma add_to_total_distinct: "distinct (map fst d) \<Longrightarrow> distinct (map fst (add_to_total c x d))"
  by (simp add: add_to_total_def distinct_dict_set)

lemma exposure_distinct:
  assumes "foldE (\<lambda>totals p. bindE (position_currency p) (\<lambda>c. bindE (position_exposure p) (\<lambda>x.
      Inr (add_to_total c (if g then dabs x else x) totals)))) [] ps = Inr d"
  shows "distinct (map fst d)"
  using assms by (rule foldE_invariant) (auto simp: bindE_eq_Inr add_to_total_distinct)

text \<open>
  C28: a portfolio snapshot is deterministic and its net exposure is bounded by its gross exposure.
  An accepted snapshot holds the given positions and balances, ordered by identifier with no identifier
  twice, none of them newer than the snapshot, and the same positions and balances in any other order give the
  same snapshot; its gross and net exposures list the same currencies,
  each once, in order, and in each currency the net exposure is at most the gross exposure in
  absolute value, whatever the rounding.
\<close>

theorem snapshot_net_within_gross:
  assumes "build_portfolio_snapshot portfolio_id positions balances captured_at status = Inr s"
  shows "mset (sn_positions s) = mset positions \<and> sorted (map ps_position_id (sn_positions s)) \<and>
    distinct (map ps_position_id (sn_positions s)) \<and>
    mset (sn_balances s) = mset balances \<and> sorted (map cb_balance_id (sn_balances s)) \<and>
    distinct (map cb_balance_id (sn_balances s)) \<and> sn_captured_at s = captured_at \<and>
    (\<forall>ps bs. mset ps = mset positions \<longrightarrow> mset bs = mset balances \<longrightarrow>
       build_portfolio_snapshot portfolio_id ps bs captured_at status = Inr s) \<and>
    (\<forall>p \<in> set positions. ps_last_updated_at p \<le> sn_captured_at s) \<and>
    (\<forall>b \<in> set balances. cb_captured_at b \<le> sn_captured_at s) \<and>
    map currency (sn_net_exposure s) = map currency (sn_gross_exposure s) \<and>
    sorted (map currency (sn_gross_exposure s)) \<and> distinct (map currency (sn_gross_exposure s)) \<and>
    list_all2 (\<lambda>net gross. \<bar>amount net\<bar> \<le> amount gross) (sn_net_exposure s) (sn_gross_exposure s)"
proof -
  let ?ps = "sort_key ps_position_id positions" and ?bs = "sort_key cb_balance_id balances"
  from assms obtain gross net where
    horizon: "validate_snapshot_horizon ?ps ?bs captured_at = Inr ()"
    and folds: "foldE (\<lambda>totals p. bindE (position_currency p) (\<lambda>c. bindE (position_exposure p) (\<lambda>x.
        Inr (add_to_total c (if True then dabs x else x) totals)))) [] ?ps = Inr gross"
      "foldE (\<lambda>totals p. bindE (position_currency p) (\<lambda>c. bindE (position_exposure p) (\<lambda>x.
        Inr (add_to_total c (if False then dabs x else x) totals)))) [] ?ps = Inr net"
    and s: "s = \<lparr>sn_portfolio_id = portfolio_id, sn_captured_at = captured_at, sn_positions = ?ps,
         sn_balances = ?bs, sn_realized_pnl = sum_position_money ps_realized_pnl ?ps,
         sn_unrealized_pnl = sum_position_money ps_unrealized_pnl ?ps,
         sn_gross_exposure = money_totals gross, sn_net_exposure = money_totals net,
         sn_reconciliation_status = status\<rparr>"
    and distinct: "distinct (map ps_position_id ?ps)" "distinct (map cb_balance_id ?bs)"
    unfolding build_portfolio_snapshot_def sum_position_exposure_def mk_portfolio_snapshot_def Let_def
      bindE_eq_Inr guards_ok_iff
    by auto
  have same: "build_portfolio_snapshot portfolio_id ps bs captured_at status = Inr s"
    if "mset ps = mset positions" "mset bs = mset balances" for ps bs
  proof -
    have "inj_on ps_position_id (set positions)" "inj_on cb_balance_id (set balances)"
      using distinct by (simp_all add: distinct_map)
    then have "sort_key ps_position_id ps = ?ps" "sort_key cb_balance_id bs = ?bs"
      using that mset_eq_setD [OF that(1)] mset_eq_setD [OF that(2)] by (auto intro!: sort_key_inj_key_eq)
    then show ?thesis using assms by (simp add: build_portfolio_snapshot_def)
  qed
  have dom: "dominated gross net"
    by (rule exposure_folds_dominated [OF folds]) (simp add: dominated_def total_of_def)
  note d = exposure_distinct [OF folds(1)] exposure_distinct [OF folds(2)]
  have keys: "sort (map fst net) = sort (map fst gross)"
    using dom d by (intro sorted_distinct_set_unique) (simp_all add: dominated_def)
  have cur: "map currency (money_totals net) = map currency (money_totals gross)"
    by (simp only: money_totals_currencies keys)
  have len: "length (money_totals net) = length (money_totals gross)" using cur by (metis length_map)
  have "\<bar>amount (money_totals net ! i)\<bar> \<le> amount (money_totals gross ! i)"
    if "i < length (money_totals gross)" for i
  proof -
    have "currency (money_totals net ! i) = currency (money_totals gross ! i)"
      using cur len that by (metis nth_map)
    then show ?thesis
      using dom len that money_totals_amount [of "money_totals net ! i" net]
        money_totals_amount [of "money_totals gross ! i" gross] by (simp add: dominated_def)
  qed
  then have "list_all2 (\<lambda>net gross. \<bar>amount net\<bar> \<le> amount gross) (money_totals net) (money_totals gross)"
    using len by (simp add: list_all2_conv_all_nth)
  moreover have "\<forall>p \<in> set positions. ps_last_updated_at p \<le> captured_at"
    "\<forall>b \<in> set balances. cb_captured_at b \<le> captured_at"
    using horizon by (auto simp: validate_snapshot_horizon_def bindE_eq_Inr guards_ok_iff not_less dest!: mapE_all
        split: if_splits)
  ultimately show ?thesis using distinct d cur same [unfolded s] by (simp add: s money_totals_currencies)
qed

theorem snapshot_net_within_gross_witness:
  "\<exists>s. build_portfolio_snapshot ''p'' [sample_position 2 (1/4) 10] [] 20 ''ok'' = Inr s \<and>
    list_all2 (\<lambda>net gross. \<bar>amount net\<bar> \<le> amount gross) (sn_net_exposure s) (sn_gross_exposure s)"
proof -
  have "\<exists>s. build_portfolio_snapshot ''p'' [sample_position 2 (1/4) 10] [] 20 ''ok'' = Inr s"
    by (simp add: build_portfolio_snapshot_def validate_snapshot_horizon_def position_currency_def
        sum_position_exposure_def position_exposure_def mk_portfolio_snapshot_def sample_position_def text_in_def
        Let_def)
  then show ?thesis using snapshot_net_within_gross by blast
qed

end
