(* ===== verification/Settlements.thy ===== *)
theory Settlements
  imports Balances
begin

text \<open>
  \<open>src/pmrp/portfolio/settlement.py\<close>: closing a position when its market settles, and replacing an
  applied settlement by a corrected one. The lemmas show that a settlement entry balances for every
  input, what a settlement does to position and cash, that settling and then correcting is the
  same as settling with the corrected outcome, and the apply-once contract of both operations.
\<close>

section \<open>Accounting amounts\<close>

record settlement_accounting =
  sa_cash_delta :: money
  sa_position_cost_basis :: money
  sa_settlement_pnl :: money
  sa_settled_quantity :: rat
  sa_winning_position :: bool

definition settlement_raise :: "settlement_error \<Rightarrow> py_error" where
  "settlement_raise e = PortfolioProjectionError (Settlements e)"

definition validate_settlement_money :: "money \<Rightarrow> string \<Rightarrow> field \<Rightarrow> bool \<times> py_error" where
  "validate_settlement_money m c fld = (currency m \<noteq> c, settlement_raise (Settlement_currency_mismatch fld))"

definition validate_position_moneys :: "position \<Rightarrow> string \<Rightarrow> (bool \<times> py_error) list" where
  "validate_position_moneys p c =
     [validate_settlement_money (ps_realized_pnl p) c F_realized_pnl,
      validate_settlement_money (ps_unrealized_pnl p) c F_unrealized_pnl,
      validate_settlement_money (ps_fees_paid p) c F_fees_paid,
      validate_settlement_money (ps_rebates_received p) c F_rebates_received]"

definition validate_settlement_position ::
  "position \<Rightarrow> settlement \<Rightarrow> string \<Rightarrow> settlement_status \<Rightarrow> (bool \<times> py_error) list" where
  "validate_settlement_position p s c allowed =
     [(st_status s \<noteq> allowed, settlement_raise Settlement_status_not_allowed),
      (st_settled_at s = None, settlement_raise Settlement_lacks_settled_at),
      (st_payout_per_unit s = None, settlement_raise Settlement_lacks_payout),
      (ps_exchange p \<noteq> st_exchange s, settlement_raise (Settlement_mismatch F_exchange)),
      (ps_market_id p \<noteq> st_market_id s, settlement_raise (Settlement_mismatch F_market_id)),
      (ps_quantity p = 0, settlement_raise Settlement_flat_position),
      (ps_average_entry_price p = None, settlement_raise Settlement_lacks_average)] @
     validate_position_moneys p c"

definition settlement_amounts ::
  "position \<Rightarrow> settlement \<Rightarrow> string \<Rightarrow> settlement_status \<Rightarrow> settlement_accounting result" where
  "settlement_amounts p s c allowed =
     bindE (guards (validate_settlement_position p s c allowed)) (\<lambda>_.
     case (st_payout_per_unit s, ps_average_entry_price p) of
       (Some payout, Some average) \<Rightarrow>
         let cost = dmul (ps_quantity p) average;
             winning = ps_outcome_id p \<in> set (st_winning_outcome_ids s);
             cash = dmul (ps_quantity p) (if winning then payout else 0);
             pnl = dsub cash cost
         in Inr \<lparr>sa_cash_delta = \<lparr>amount = cash, currency = c\<rparr>,
                 sa_position_cost_basis = \<lparr>amount = cost, currency = c\<rparr>,
                 sa_settlement_pnl = \<lparr>amount = pnl, currency = c\<rparr>,
                 sa_settled_quantity = dabs (ps_quantity p), sa_winning_position = winning\<rparr>
     | _ \<Rightarrow> Inl AssertionError)"

definition build_settlement_accounting_result ::
  "position \<Rightarrow> settlement \<Rightarrow> string \<Rightarrow> settlement_accounting result" where
  "build_settlement_accounting_result p s cur =
     bindE (validate_currency cur) (\<lambda>c. settlement_amounts p s c SETTLED)"

section \<open>Settling\<close>

record settlement_projection =
  sp_position :: position
  sp_settlement_accounting :: settlement_accounting

definition apply_settlement_to_position ::
  "position \<Rightarrow> settlement \<Rightarrow> string \<Rightarrow> settlement_projection result" where
  "apply_settlement_to_position p s cur =
     bindE (validate_currency cur) (\<lambda>c.
     bindE (guards (validate_settlement_position p s c SETTLED)) (\<lambda>_.
     case st_settled_at s of
       None \<Rightarrow> Inl AssertionError
     | Some settled_at \<Rightarrow>
         bindE (guards [(settled_at < ps_last_updated_at p,
                  settlement_raise Settlement_older_than_position)]) (\<lambda>_.
         bindE (build_settlement_accounting_result p s c) (\<lambda>accounting.
         bindE (mk_position (p\<lparr>ps_quantity := 0, ps_average_entry_price := None,
             ps_realized_pnl := \<lparr>amount = dadd (amount (ps_realized_pnl p))
                (amount (sa_settlement_pnl accounting)), currency = c\<rparr>,
             ps_unrealized_pnl := zero_money c, ps_opened_at := None,
             ps_last_updated_at := settled_at,
             ps_aggregate_version := ps_aggregate_version p + 1\<rparr>)) (\<lambda>projected.
         Inr \<lparr>sp_position = projected, sp_settlement_accounting = accounting\<rparr>)))))"

definition derive_settlement_journal_entry_id :: "hasher \<Rightarrow> position \<Rightarrow> settlement \<Rightarrow> string" where
  "derive_settlement_journal_entry_id H p s =
     ''journal_settlement_'' @ short_digest H (CMap
       [(''position_id'', CStr (ps_position_id p)),
        (''schema'', CStr ''pmrp.settlement_journal_entry.v1''),
        (''settlement_id'', CStr (st_settlement_id s))])"

definition build_settlement_journal_entry ::
  "hasher \<Rightarrow> position \<Rightarrow> settlement \<Rightarrow> string \<Rightarrow> ident \<Rightarrow> instant \<Rightarrow> journal_entry result" where
  "build_settlement_journal_entry H p s cur source_event_id created_at =
     bindE (build_settlement_accounting_result p s cur) (\<lambda>a.
     case st_settled_at s of
       None \<Rightarrow> Inl AssertionError
     | Some settled_at \<Rightarrow>
         bindE (mapE mk_journal_line
           [journal_line_of ACCOUNT_CASH (amount (sa_cash_delta a)) (currency (sa_cash_delta a))
              ''Settlement cash movement.'',
            journal_line_of ACCOUNT_POSITION_COST (dneg (amount (sa_position_cost_basis a)))
              (currency (sa_position_cost_basis a)) ''Settlement clears position cost basis.'',
            journal_line_of ACCOUNT_SETTLEMENT_PNL (dneg (amount (sa_settlement_pnl a)))
              (currency (sa_settlement_pnl a)) ''Settlement PnL offset.'']) (\<lambda>lines.
         mk_journal_entry
           \<lparr>je_journal_entry_id = derive_settlement_journal_entry_id H p s,
            je_occurred_at = settled_at, je_source_event_id = source_event_id,
            je_reference_type = ''settlement'', je_reference_id = st_settlement_id s,
            je_lines = lines,
            je_description = ''Settlement accounting for '' @ ps_position_id p @ ''.'',
            je_created_at = created_at\<rparr>))"

definition validate_cash_balance_for_position ::
  "cash_balance \<Rightarrow> position \<Rightarrow> string \<Rightarrow> (bool \<times> py_error) list" where
  "validate_cash_balance_for_position b p c =
     [(cb_exchange b \<noteq> ps_exchange p, settlement_raise (Cash_balance_mismatch F_exchange)),
      (cb_account_id b \<noteq> ps_account_id p, settlement_raise (Cash_balance_mismatch F_account_id)),
      (cb_currency b \<noteq> c, settlement_raise (Cash_balance_mismatch F_currency))]"

record settlement_application =
  sm_position :: position
  sm_cash_balance :: cash_balance
  sm_position_projection :: "settlement_projection option"
  sm_cash_projection :: "cash_projection option"
  sm_journal_entry :: "journal_entry option"
  sm_applied_journal_entry_ids :: "string set"
  sm_applied :: bool
  sm_duplicate_settlement :: bool

definition apply_settlement_once ::
  "hasher \<Rightarrow> position \<Rightarrow> cash_balance \<Rightarrow> settlement \<Rightarrow> string set \<Rightarrow> string \<Rightarrow> ident \<Rightarrow> instant \<Rightarrow>
   settlement_application result" where
  "apply_settlement_once H p b s ids cur source_event_id created_at =
     bindE (validate_currency cur) (\<lambda>c.
     bindE (guards (validate_cash_balance_for_position b p c)) (\<lambda>_.
     let entry_id = derive_settlement_journal_entry_id H p s in
     if entry_id \<in> ids then
       Inr \<lparr>sm_position = p, sm_cash_balance = b, sm_position_projection = None,
            sm_cash_projection = None, sm_journal_entry = None,
            sm_applied_journal_entry_ids = ids, sm_applied = False, sm_duplicate_settlement = True\<rparr>
     else
       bindE (apply_settlement_to_position p s c) (\<lambda>projection.
       bindE (build_settlement_journal_entry H p s c source_event_id created_at) (\<lambda>e.
       bindE (apply_journal_to_cash_balance b e ACCOUNT_CASH) (\<lambda>cash.
       Inr \<lparr>sm_position = sp_position projection, sm_cash_balance = cp_balance cash,
            sm_position_projection = Some projection, sm_cash_projection = Some cash,
            sm_journal_entry = Some e, sm_applied_journal_entry_ids = ids \<union> {entry_id},
            sm_applied = True, sm_duplicate_settlement = False\<rparr>)))))"

section \<open>Correcting\<close>

record settlement_correction_accounting =
  sc_previous_accounting :: settlement_accounting
  sc_corrected_accounting :: settlement_accounting
  sc_cash_delta :: money
  sc_position_cost_basis_delta :: money
  sc_settlement_pnl_delta :: money

definition validate_corrected_settlement ::
  "position \<Rightarrow> settlement \<Rightarrow> settlement \<Rightarrow> string \<Rightarrow> (bool \<times> py_error) list" where
  "validate_corrected_settlement original previous corrected c =
     [(st_status corrected \<noteq> CORRECTED, settlement_raise Settlement_not_corrected_status),
      (st_correction_of_settlement_id corrected \<noteq> Some (st_settlement_id previous),
         settlement_raise Settlement_wrong_reference)] @
     validate_settlement_position original previous c SETTLED @
     validate_settlement_position original corrected c CORRECTED"

definition build_settlement_correction_accounting_result ::
  "position \<Rightarrow> settlement \<Rightarrow> settlement \<Rightarrow> string \<Rightarrow> settlement_correction_accounting result" where
  "build_settlement_correction_accounting_result original previous corrected cur =
     bindE (validate_currency cur) (\<lambda>c.
     bindE (guards (validate_corrected_settlement original previous corrected c)) (\<lambda>_.
     bindE (settlement_amounts original previous c SETTLED) (\<lambda>pa.
     bindE (settlement_amounts original corrected c CORRECTED) (\<lambda>ca.
     Inr \<lparr>sc_previous_accounting = pa, sc_corrected_accounting = ca,
          sc_cash_delta =
            \<lparr>amount = dsub (amount (sa_cash_delta ca)) (amount (sa_cash_delta pa)), currency = c\<rparr>,
          sc_position_cost_basis_delta =
            \<lparr>amount = dsub (amount (sa_position_cost_basis ca)) (amount (sa_position_cost_basis pa)),
             currency = c\<rparr>,
          sc_settlement_pnl_delta =
            \<lparr>amount = dsub (amount (sa_settlement_pnl ca)) (amount (sa_settlement_pnl pa)),
             currency = c\<rparr>\<rparr>))))"

definition validate_position_identity :: "position \<Rightarrow> position \<Rightarrow> (bool \<times> py_error) list" where
  "validate_position_identity original settled =
     [(ps_position_id original \<noteq> ps_position_id settled, settlement_raise (Settlement_identity_differs F_position_id)),
      (ps_exchange original \<noteq> ps_exchange settled, settlement_raise (Settlement_identity_differs F_exchange)),
      (ps_account_id original \<noteq> ps_account_id settled, settlement_raise (Settlement_identity_differs F_account_id)),
      (ps_market_id original \<noteq> ps_market_id settled, settlement_raise (Settlement_identity_differs F_market_id)),
      (ps_contract_id original \<noteq> ps_contract_id settled, settlement_raise (Settlement_identity_differs F_contract_id)),
      (ps_outcome_id original \<noteq> ps_outcome_id settled, settlement_raise (Settlement_identity_differs F_outcome_id))]"

definition validate_settlement_correction_identity ::
  "position \<Rightarrow> position \<Rightarrow> cash_balance \<Rightarrow> settlement \<Rightarrow> settlement \<Rightarrow> string \<Rightarrow> (bool \<times> py_error) list" where
  "validate_settlement_correction_identity original settled b previous corrected c =
     validate_cash_balance_for_position b settled c @
     validate_corrected_settlement original previous corrected c @
     validate_position_identity original settled @
     [(ps_quantity settled \<noteq> 0, settlement_raise Settlement_position_not_flat),
      (ps_average_entry_price settled \<noteq> None, settlement_raise Settlement_flat_has_average)] @
     validate_position_moneys settled c"

definition validate_settlement_correction_application :: "position \<Rightarrow> settlement \<Rightarrow> unit result" where
  "validate_settlement_correction_application settled corrected =
     (case st_settled_at corrected of
        None \<Rightarrow> Inl AssertionError
      | Some t \<Rightarrow> guards [(t < ps_last_updated_at settled, settlement_raise Settlement_older_than_position)])"

definition derive_settlement_correction_journal_entry_id ::
  "hasher \<Rightarrow> position \<Rightarrow> settlement \<Rightarrow> settlement \<Rightarrow> string" where
  "derive_settlement_correction_journal_entry_id H original previous corrected =
     ''journal_settlement_correction_'' @ short_digest H (CMap
       [(''corrected_settlement_id'', CStr (st_settlement_id corrected)),
        (''original_position_id'', CStr (ps_position_id original)),
        (''previous_settlement_id'', CStr (st_settlement_id previous)),
        (''schema'', CStr ''pmrp.settlement_correction_journal_entry.v1'')])"

definition build_settlement_correction_journal_entry ::
  "hasher \<Rightarrow> position \<Rightarrow> settlement \<Rightarrow> settlement \<Rightarrow> string \<Rightarrow> ident \<Rightarrow> instant \<Rightarrow> journal_entry result" where
  "build_settlement_correction_journal_entry H original previous corrected cur source_event_id created_at =
     bindE (build_settlement_correction_accounting_result original previous corrected cur) (\<lambda>a.
     case st_settled_at corrected of
       None \<Rightarrow> Inl AssertionError
     | Some settled_at \<Rightarrow>
         bindE (mapE mk_journal_line
           [journal_line_of ACCOUNT_CASH (amount (sc_cash_delta a)) (currency (sc_cash_delta a))
              ''Settlement correction cash delta.'',
            journal_line_of ACCOUNT_POSITION_COST (dneg (amount (sc_position_cost_basis_delta a)))
              (currency (sc_position_cost_basis_delta a)) ''Settlement correction position cost delta.'',
            journal_line_of ACCOUNT_SETTLEMENT_PNL (dneg (amount (sc_settlement_pnl_delta a)))
              (currency (sc_settlement_pnl_delta a)) ''Settlement correction PnL delta.'']) (\<lambda>lines.
         mk_journal_entry
           \<lparr>je_journal_entry_id = derive_settlement_correction_journal_entry_id H original previous corrected,
            je_occurred_at = settled_at, je_source_event_id = source_event_id,
            je_reference_type = ''settlement'', je_reference_id = st_settlement_id corrected,
            je_lines = lines,
            je_description = ''Settlement correction accounting for '' @ ps_position_id original @
              '' replacing '' @ st_settlement_id previous @ ''.'',
            je_created_at = created_at\<rparr>))"

record settlement_correction_application =
  sx_position :: position
  sx_cash_balance :: cash_balance
  sx_correction_accounting :: "settlement_correction_accounting option"
  sx_cash_projection :: "cash_projection option"
  sx_journal_entry :: "journal_entry option"
  sx_applied_journal_entry_ids :: "string set"
  sx_applied :: bool
  sx_duplicate_correction :: bool

definition apply_settlement_correction_once ::
  "hasher \<Rightarrow> position \<Rightarrow> position \<Rightarrow> cash_balance \<Rightarrow> settlement \<Rightarrow> settlement \<Rightarrow> string set \<Rightarrow> string \<Rightarrow>
   ident \<Rightarrow> instant \<Rightarrow> settlement_correction_application result" where
  "apply_settlement_correction_once H original settled b previous corrected ids cur source_event_id created_at =
     bindE (validate_currency cur) (\<lambda>c.
     bindE (guards (validate_settlement_correction_identity original settled b previous corrected c)) (\<lambda>_.
     let entry_id = derive_settlement_correction_journal_entry_id H original previous corrected in
     if entry_id \<in> ids then
       Inr \<lparr>sx_position = settled, sx_cash_balance = b, sx_correction_accounting = None,
            sx_cash_projection = None, sx_journal_entry = None,
            sx_applied_journal_entry_ids = ids, sx_applied = False, sx_duplicate_correction = True\<rparr>
     else
       bindE (validate_settlement_correction_application settled corrected) (\<lambda>_.
       bindE (build_settlement_correction_accounting_result original previous corrected c) (\<lambda>accounting.
       bindE (build_settlement_correction_journal_entry H original previous corrected c
                source_event_id created_at) (\<lambda>e.
       bindE (apply_journal_to_cash_balance b e ACCOUNT_CASH) (\<lambda>cash.
       case st_settled_at corrected of
         None \<Rightarrow> Inl AssertionError
       | Some settled_at \<Rightarrow>
           bindE (mk_position (settled\<lparr>ps_quantity := 0, ps_average_entry_price := None,
               ps_realized_pnl := \<lparr>amount = dadd (amount (ps_realized_pnl settled))
                  (amount (sc_settlement_pnl_delta accounting)), currency = c\<rparr>,
               ps_unrealized_pnl := zero_money c, ps_opened_at := None,
               ps_last_updated_at := settled_at,
               ps_aggregate_version := ps_aggregate_version settled + 1\<rparr>)) (\<lambda>corrected_position.
           Inr \<lparr>sx_position = corrected_position, sx_cash_balance = cp_balance cash,
                sx_correction_accounting = Some accounting, sx_cash_projection = Some cash,
                sx_journal_entry = Some e, sx_applied_journal_entry_ids = ids \<union> {entry_id},
                sx_applied = True, sx_duplicate_correction = False\<rparr>)))))))"

section \<open>When a settlement applies, and its amounts\<close>

definition settles :: "position \<Rightarrow> settlement \<Rightarrow> settlement_status \<Rightarrow> string \<Rightarrow> bool" where
  "settles p s st c \<longleftrightarrow> list_all (\<lambda>g. \<not> fst g) (validate_settlement_position p s c st)"

definition payout_for :: "position \<Rightarrow> settlement \<Rightarrow> rat" where
  "payout_for p s = (if ps_outcome_id p \<in> set (st_winning_outcome_ids s)
     then (case st_payout_per_unit s of None \<Rightarrow> 0 | Some x \<Rightarrow> x) else 0)"

definition average_of :: "position \<Rightarrow> rat" where
  "average_of p = (case ps_average_entry_price p of None \<Rightarrow> 0 | Some a \<Rightarrow> a)"

definition cash_amount :: "position \<Rightarrow> settlement \<Rightarrow> rat" where
  "cash_amount p s = dmul (ps_quantity p) (payout_for p s)"

definition cost_amount :: "position \<Rightarrow> rat" where
  "cost_amount p = dmul (ps_quantity p) (average_of p)"

definition pnl_amount :: "position \<Rightarrow> settlement \<Rightarrow> rat" where
  "pnl_amount p s = dsub (cash_amount p s) (cost_amount p)"

lemma guards_list_all: "guards gs = Inr u \<longleftrightarrow> list_all (\<lambda>g. \<not> fst g) gs"
  by (auto simp: guards_ok_iff list_all_iff)

lemma settles_simps:
  "settles p s st c \<longleftrightarrow> st_status s = st \<and> st_settled_at s \<noteq> None \<and> st_payout_per_unit s \<noteq> None \<and>
     ps_exchange p = st_exchange s \<and> ps_market_id p = st_market_id s \<and> ps_quantity p \<noteq> 0 \<and>
     ps_average_entry_price p \<noteq> None \<and> currency (ps_realized_pnl p) = c \<and>
     currency (ps_unrealized_pnl p) = c \<and> currency (ps_fees_paid p) = c \<and>
     currency (ps_rebates_received p) = c"
  by (auto simp: settles_def validate_settlement_position_def validate_position_moneys_def
      validate_settlement_money_def)

lemma settlement_amounts_iff:
  "settlement_amounts p s c st = Inr a \<longleftrightarrow> settles p s st c \<and>
     a = \<lparr>sa_cash_delta = \<lparr>amount = cash_amount p s, currency = c\<rparr>,
          sa_position_cost_basis = \<lparr>amount = cost_amount p, currency = c\<rparr>,
          sa_settlement_pnl = \<lparr>amount = pnl_amount p s, currency = c\<rparr>,
          sa_settled_quantity = dabs (ps_quantity p),
          sa_winning_position = (ps_outcome_id p \<in> set (st_winning_outcome_ids s))\<rparr>"
proof (cases "settles p s st c")
  case True
  then obtain x y where "st_payout_per_unit s = Some x" "ps_average_entry_price p = Some y"
    by (auto simp: settles_simps)
  with True show ?thesis
    by (auto simp: settlement_amounts_def bindE_eq_Inr guards_list_all settles_def Let_def
        cash_amount_def cost_amount_def pnl_amount_def payout_for_def average_of_def)
next
  case False
  then show ?thesis
    by (auto simp: settlement_amounts_def bindE_eq_Inr guards_list_all settles_def)
qed

lemma settlement_result_iff:
  "build_settlement_accounting_result p s c = Inr a \<longleftrightarrow> valid_currency c \<and> settlement_amounts p s c SETTLED = Inr a"
  by (simp add: build_settlement_accounting_result_def validate_currency_bind)

text \<open>
  The lines cash, minus cost, minus PnL sum to zero without any bound: the PnL is the rounded
  difference of the first two, and that is what the running total is when it meets the third line.
\<close>

lemma three_lines_balanced:
  assumes "dec_fits 28 cash" "dec_fits 28 cost"
  shows "balanced [journal_line_of x cash c d1, journal_line_of y (dneg cost) c d2,
    journal_line_of z (dneg (dsub cash cost)) c d3]"
proof -
  have "dadd (dadd (dadd 0 cash) (dneg cost)) (dneg (dsub cash cost)) = 0"
    using assms by (simp add: dadd_zero dneg_exact) (simp add: dadd_def dsub_def)
  then show ?thesis by (simp add: balanced_def currency_total_def dsum_def)
qed

section \<open>Entries and their effect\<close>

text \<open>Identifiers fit the fields of the journal entry: at most 128 characters each.\<close>

definition settlement_texts :: "position \<Rightarrow> settlement \<Rightarrow> bool" where
  "settlement_texts p s \<longleftrightarrow> text_in 1 128 (st_settlement_id s) \<and> length (ps_position_id p) \<le> 128"

lemma build_settlement_journal_exact:
  assumes cur: "valid_currency c" and ok: "settles p s SETTLED c" and tx: "settlement_texts p s"
    and t: "st_settled_at s = Some t" "t \<le> created_at"
  obtains e where "build_settlement_journal_entry H p s c source_event_id created_at = Inr e"
    and "je_occurred_at e = t" "je_journal_entry_id e = derive_settlement_journal_entry_id H p s"
    and "cash_lines ACCOUNT_CASH c e = [cash_amount p s]"
    and "map jl_amount (je_lines e) = [cash_amount p s, - cost_amount p, - pnl_amount p s]"
    and "balanced (je_lines e)"
proof -
  let ?lines = "[journal_line_of ACCOUNT_CASH (cash_amount p s) c ''Settlement cash movement.'',
      journal_line_of ACCOUNT_POSITION_COST (dneg (cost_amount p)) c ''Settlement clears position cost basis.'',
      journal_line_of ACCOUNT_SETTLEMENT_PNL (dneg (pnl_amount p s)) c ''Settlement PnL offset.'']"
  have bal: "balanced ?lines"
    unfolding pnl_amount_def by (rule three_lines_balanced) (simp_all add: cash_amount_def cost_amount_def)
  have lines: "mapE mk_journal_line ?lines = Inr ?lines"
    using cur by (simp add: mk_journal_line_def text_in_def account_codes)
  have len: "text_in 1 128 (derive_settlement_journal_entry_id H p s)"
    "text_in 1 1024 (''Settlement accounting for '' @ ps_position_id p @ ''.'')"
    using tx short_digest_length [of 100 H]
    by (simp_all add: derive_settlement_journal_entry_id_def settlement_texts_def text_in_def)
  have amounts: "settlement_amounts p s c SETTLED = Inr
      \<lparr>sa_cash_delta = \<lparr>amount = cash_amount p s, currency = c\<rparr>,
       sa_position_cost_basis = \<lparr>amount = cost_amount p, currency = c\<rparr>,
       sa_settlement_pnl = \<lparr>amount = pnl_amount p s, currency = c\<rparr>,
       sa_settled_quantity = dabs (ps_quantity p),
       sa_winning_position = (ps_outcome_id p \<in> set (st_winning_outcome_ids s))\<rparr>"
    using ok by (simp add: settlement_amounts_iff)
  have eq: "build_settlement_journal_entry H p s c source_event_id created_at = Inr
      \<lparr>je_journal_entry_id = derive_settlement_journal_entry_id H p s, je_occurred_at = t,
       je_source_event_id = source_event_id, je_reference_type = ''settlement'',
       je_reference_id = st_settlement_id s, je_lines = ?lines,
       je_description = ''Settlement accounting for '' @ ps_position_id p @ ''.'', je_created_at = created_at\<rparr>"
    unfolding build_settlement_journal_entry_def bindE_eq_Inr settlement_result_iff
    using cur amounts t(2) lines len bal tx
    by (auto simp: t(1) mk_journal_entry_iff settlement_texts_def) (simp_all add: text_in_def)
  have fits: "dec_fits 28 (cost_amount p)" "dec_fits 28 (pnl_amount p s)"
    by (simp_all add: cost_amount_def pnl_amount_def)
  show ?thesis
    by (rule that [OF eq]) (use bal fits in \<open>simp_all add: cash_lines_def account_codes dneg_exact\<close>)
qed

definition settled_position :: "position \<Rightarrow> string \<Rightarrow> rat \<Rightarrow> instant \<Rightarrow> position" where
  "settled_position p c d t = p\<lparr>ps_quantity := 0, ps_average_entry_price := None,
     ps_realized_pnl := \<lparr>amount = dadd (amount (ps_realized_pnl p)) d, currency = c\<rparr>,
     ps_unrealized_pnl := zero_money c, ps_opened_at := None, ps_last_updated_at := t,
     ps_aggregate_version := ps_aggregate_version p + 1\<rparr>"

lemma settled_position_valid: "position_valid p \<Longrightarrow> position_valid (settled_position p c d t)"
  by (auto simp: position_valid_iff settled_position_def)

lemma apply_settlement_to_position_iff:
  "apply_settlement_to_position p s c = Inr r \<longleftrightarrow>
     valid_currency c \<and> settles p s SETTLED c \<and>
     (\<exists>t a. st_settled_at s = Some t \<and> ps_last_updated_at p \<le> t \<and> settlement_amounts p s c SETTLED = Inr a \<and>
        position_valid (settled_position p c (pnl_amount p s) t) \<and>
        r = \<lparr>sp_position = settled_position p c (pnl_amount p s) t, sp_settlement_accounting = a\<rparr>)"
  unfolding apply_settlement_to_position_def validate_currency_bind
  by (cases "st_settled_at s")
    (auto simp: bindE_eq_Inr guards_list_all settlement_result_iff mk_position_cases settles_def [symmetric] settled_position_def
      settlement_amounts_iff)

definition cash_matches :: "cash_balance \<Rightarrow> position \<Rightarrow> string \<Rightarrow> bool" where
  "cash_matches b p c \<longleftrightarrow> cb_exchange b = ps_exchange p \<and> cb_account_id b = ps_account_id p \<and> cb_currency b = c"

lemma cash_matches_iff:
  "guards (validate_cash_balance_for_position b p c) = Inr u \<longleftrightarrow> cash_matches b p c"
  by (auto simp: validate_cash_balance_for_position_def guards_ok_iff cash_matches_def)

lemma apply_settlement_exact:
  assumes v: "position_valid p" "cash_balance_valid b" and cur: "valid_currency c"
    and ok: "settles p s SETTLED c" "settlement_texts p s" "cash_matches b p c"
    and t: "st_settled_at s = Some t" "ps_last_updated_at p \<le> t" "cb_captured_at b \<le> t" "t \<le> created_at"
    and g: "balance_on_grid k n b" "on_grid k m (cash_amount p s)" "2 * n + m \<le> 10 ^ 28"
    and new: "derive_settlement_journal_entry_id H p s \<notin> ids"
  obtains r where "apply_settlement_once H p b s ids c source_event_id created_at = Inr r"
    and "sm_position r = settled_position p c (pnl_amount p s) t"
    and "sm_cash_balance r = moved b (cash_amount p s) t" "sm_applied r"
    and "sm_applied_journal_entry_ids r = insert (derive_settlement_journal_entry_id H p s) ids"
proof -
  obtain e where e: "build_settlement_journal_entry H p s c source_event_id created_at = Inr e"
    and te: "je_occurred_at e = t" and lines: "cash_lines ACCOUNT_CASH c e = [cash_amount p s]"
    by (rule build_settlement_journal_exact [OF cur ok(1,2) t(1,4)])
  have c: "cb_currency b = c" using ok(3) by (simp add: cash_matches_def)
  have ap: "apply_journal_to_cash_balance b e ACCOUNT_CASH = Inr
      \<lparr>cp_balance = moved b (cash_amount p s) t, cp_cash_delta = \<lparr>amount = cash_amount p s, currency = c\<rparr>\<rparr>"
    using apply_journal_exact [OF v(2) g(1), of ACCOUNT_CASH e m] g(2,3) lines t(3) by (simp add: te c)
  have m: "guards (validate_cash_balance_for_position b p c) = Inr ()" using ok(3) by (simp add: cash_matches_iff)
  obtain pr where pr: "apply_settlement_to_position p s c = Inr pr"
    "sp_position pr = settled_position p c (pnl_amount p s) t"
    using cur ok(1) t(1,2) settled_position_valid [OF v(1)]
    by (auto simp: apply_settlement_to_position_iff settlement_amounts_iff)
  show ?thesis
    using that new cur by (auto simp: apply_settlement_once_def m pr e ap Let_def)
qed

section \<open>Fixed-point amounts\<close>

definition settlement_grid :: "nat \<Rightarrow> nat \<Rightarrow> nat \<Rightarrow> nat \<Rightarrow> position \<Rightarrow> settlement \<Rightarrow> bool" where
  "settlement_grid k n l m p s \<longleftrightarrow>
     on_grid k n (ps_quantity p) \<and> on_grid l m (average_of p) \<and> on_grid l m (payout_for p s)"

lemma settlement_amounts_exact:
  assumes g: "settlement_grid k n l m p s" and bound: "2 * (n * m) \<le> 10 ^ 28"
  shows "cash_amount p s = ps_quantity p * payout_for p s"
    and "pnl_amount p s = ps_quantity p * (payout_for p s - average_of p)"
    and "on_grid (k + l) (n * m) (cash_amount p s)" "on_grid (k + l) (2 * (n * m)) (pnl_amount p s)"
proof -
  have gq: "on_grid k n (ps_quantity p)" and ga: "on_grid l m (average_of p)" and gp: "on_grid l m (payout_for p s)"
    using g by (auto simp: settlement_grid_def)
  have nm: "n * m \<le> 10 ^ 28" using bound by linarith
  have cash: "on_grid (k + l) (n * m) (ps_quantity p * payout_for p s)" using gq gp by (rule on_grid_mult)
  have cost: "on_grid (k + l) (n * m) (ps_quantity p * average_of p)" using gq ga by (rule on_grid_mult)
  show c: "cash_amount p s = ps_quantity p * payout_for p s"
    using on_grid_fits [OF cash nm] by (simp add: cash_amount_def dmul_def d28.rnd_exact)
  have d: "cost_amount p = ps_quantity p * average_of p"
    using on_grid_fits [OF cost nm] by (simp add: cost_amount_def dmul_def d28.rnd_exact)
  have diff: "on_grid (k + l) (2 * (n * m)) (ps_quantity p * payout_for p s - ps_quantity p * average_of p)"
    using on_grid_diff [OF cash cost] by (simp only: mult_2)
  show e: "pnl_amount p s = ps_quantity p * (payout_for p s - average_of p)"
    using on_grid_fits [OF diff bound]
    by (simp add: pnl_amount_def c d dsub_def d28.rnd_exact right_diff_distrib)
  show "on_grid (k + l) (n * m) (cash_amount p s)" unfolding c by (rule cash)
  show "on_grid (k + l) (2 * (n * m)) (pnl_amount p s)" unfolding e right_diff_distrib by (rule diff)
qed

lemma correction_amounts_exact:
  assumes g: "settlement_grid k n l m p s1" "settlement_grid k n l m p s2" and bound: "2 * (n * m) \<le> 10 ^ 28"
  shows "dsub (cash_amount p s2) (cash_amount p s1) = ps_quantity p * (payout_for p s2 - payout_for p s1)"
    and "dsub (pnl_amount p s2) (pnl_amount p s1) = ps_quantity p * (payout_for p s2 - payout_for p s1)"
    and "on_grid (k + l) (2 * (n * m)) (ps_quantity p * (payout_for p s2 - payout_for p s1))"
proof -
  note a1 = settlement_amounts_exact [OF g(1) bound] and a2 = settlement_amounts_exact [OF g(2) bound]
  have diff: "on_grid (k + l) (2 * (n * m)) (cash_amount p s2 - cash_amount p s1)"
    using on_grid_diff [OF a2(3) a1(3)] by (simp only: mult_2)
  show grid: "on_grid (k + l) (2 * (n * m)) (ps_quantity p * (payout_for p s2 - payout_for p s1))"
    using diff by (simp only: a1(1) a2(1) right_diff_distrib)
  note fits = on_grid_fits [OF grid bound]
  show "dsub (cash_amount p s2) (cash_amount p s1) = ps_quantity p * (payout_for p s2 - payout_for p s1)"
    using fits by (simp add: dsub_def d28.rnd_exact a1(1) a2(1) right_diff_distrib)
  have "pnl_amount p s2 - pnl_amount p s1 = ps_quantity p * (payout_for p s2 - payout_for p s1)"
    unfolding a1(2) a2(2) by (simp add: algebra_simps)
  then show "dsub (pnl_amount p s2) (pnl_amount p s1) = ps_quantity p * (payout_for p s2 - payout_for p s1)"
    using fits by (simp add: dsub_def d28.rnd_exact)
qed

section \<open>The effect of a correction\<close>

definition corrects :: "position \<Rightarrow> settlement \<Rightarrow> settlement \<Rightarrow> string \<Rightarrow> bool" where
  "corrects p previous corrected c \<longleftrightarrow>
     st_correction_of_settlement_id corrected = Some (st_settlement_id previous) \<and>
     settles p previous SETTLED c \<and> settles p corrected CORRECTED c"

lemma validate_corrected_iff:
  "list_all (\<lambda>g. \<not> fst g) (validate_corrected_settlement p s1 s2 c) \<longleftrightarrow> corrects p s1 s2 c"
  by (auto simp: validate_corrected_settlement_def corrects_def settles_def [symmetric])
    (auto simp: settles_simps)

lemma correction_accounting_iff:
  "build_settlement_correction_accounting_result p s1 s2 c = Inr a \<longleftrightarrow>
     valid_currency c \<and> corrects p s1 s2 c \<and>
     (\<exists>pa ca. settlement_amounts p s1 c SETTLED = Inr pa \<and> settlement_amounts p s2 c CORRECTED = Inr ca \<and>
        a = \<lparr>sc_previous_accounting = pa, sc_corrected_accounting = ca,
          sc_cash_delta = \<lparr>amount = dsub (cash_amount p s2) (cash_amount p s1), currency = c\<rparr>,
          sc_position_cost_basis_delta = \<lparr>amount = 0, currency = c\<rparr>,
          sc_settlement_pnl_delta = \<lparr>amount = dsub (pnl_amount p s2) (pnl_amount p s1), currency = c\<rparr>\<rparr>)"
  unfolding build_settlement_correction_accounting_result_def validate_currency_bind
  by (auto simp: bindE_eq_Inr guards_list_all validate_corrected_iff settlement_amounts_iff dsub_def)

lemma build_correction_journal_exact:
  assumes cur: "valid_currency c" and ok: "corrects p s1 s2 c"
    and tx: "settlement_texts p s2" "length (st_settlement_id s1) \<le> 128"
    and t: "st_settled_at s2 = Some t" "t \<le> created_at"
    and d: "dsub (cash_amount p s2) (cash_amount p s1) = d" "dsub (pnl_amount p s2) (pnl_amount p s1) = d"
  obtains e where
    "build_settlement_correction_journal_entry H p s1 s2 c source_event_id created_at = Inr e"
    and "je_occurred_at e = t" "cash_lines ACCOUNT_CASH c e = [d]"
proof -
  let ?lines = "[journal_line_of ACCOUNT_CASH d c ''Settlement correction cash delta.'',
      journal_line_of ACCOUNT_POSITION_COST (dneg 0) c ''Settlement correction position cost delta.'',
      journal_line_of ACCOUNT_SETTLEMENT_PNL (dneg d) c ''Settlement correction PnL delta.'']"
  have fits: "dec_fits 28 d" using d(1) dec_fits_ops(2) by metis
  have bal: "balanced ?lines"
    using three_lines_balanced [OF fits dec_fits_zero] fits by (simp add: dsub_def d28.rnd_exact)
  have lines: "mapE mk_journal_line ?lines = Inr ?lines"
    using cur by (simp add: mk_journal_line_def text_in_def account_codes)
  have len: "text_in 1 128 (derive_settlement_correction_journal_entry_id H p s1 s2)"
    "text_in 1 1024 (''Settlement correction accounting for '' @ ps_position_id p @ '' replacing '' @
        st_settlement_id s1 @ ''.'')"
    using tx short_digest_length [of 98 H]
    by (simp_all add: derive_settlement_correction_journal_entry_id_def settlement_texts_def text_in_def)
  obtain pa ca where a: "settlement_amounts p s1 c SETTLED = Inr pa" "settlement_amounts p s2 c CORRECTED = Inr ca"
    using ok by (simp add: corrects_def settlement_amounts_iff)
  have acc: "build_settlement_correction_accounting_result p s1 s2 c = Inr
      \<lparr>sc_previous_accounting = pa, sc_corrected_accounting = ca,
       sc_cash_delta = \<lparr>amount = d, currency = c\<rparr>,
       sc_position_cost_basis_delta = \<lparr>amount = 0, currency = c\<rparr>,
       sc_settlement_pnl_delta = \<lparr>amount = d, currency = c\<rparr>\<rparr>"
    using cur ok a d by (simp add: correction_accounting_iff)
  have eq: "build_settlement_correction_journal_entry H p s1 s2 c source_event_id created_at = Inr
      \<lparr>je_journal_entry_id = derive_settlement_correction_journal_entry_id H p s1 s2, je_occurred_at = t,
       je_source_event_id = source_event_id, je_reference_type = ''settlement'',
       je_reference_id = st_settlement_id s2, je_lines = ?lines,
       je_description = ''Settlement correction accounting for '' @ ps_position_id p @ '' replacing '' @
         st_settlement_id s1 @ ''.'', je_created_at = created_at\<rparr>"
    unfolding build_settlement_correction_journal_entry_def acc
    using t(2) lines len bal tx
    by (auto simp: t(1) mk_journal_entry_iff settlement_texts_def bindE_eq_Inr) (simp_all add: text_in_def)
  show ?thesis
    by (rule that [OF eq]) (simp_all add: cash_lines_def account_codes)
qed

definition correction_accepts_state ::
  "position \<Rightarrow> position \<Rightarrow> cash_balance \<Rightarrow> settlement \<Rightarrow> settlement \<Rightarrow> string \<Rightarrow> bool" where
  "correction_accepts_state p settled b s1 s2 c \<longleftrightarrow>
     cash_matches b settled c \<and> corrects p s1 s2 c \<and>
     ps_position_id p = ps_position_id settled \<and> ps_exchange p = ps_exchange settled \<and>
     ps_account_id p = ps_account_id settled \<and> ps_market_id p = ps_market_id settled \<and>
     ps_contract_id p = ps_contract_id settled \<and> ps_outcome_id p = ps_outcome_id settled \<and>
     ps_quantity settled = 0 \<and> ps_average_entry_price settled = None \<and>
     currency (ps_realized_pnl settled) = c \<and> currency (ps_unrealized_pnl settled) = c \<and>
     currency (ps_fees_paid settled) = c \<and> currency (ps_rebates_received settled) = c"

lemma correction_identity_ok:
  "guards (validate_settlement_correction_identity p settled b s1 s2 c) = Inr u \<longleftrightarrow>
     correction_accepts_state p settled b s1 s2 c"
  unfolding guards_list_all validate_settlement_correction_identity_def list_all_append validate_corrected_iff
  by (auto simp: correction_accepts_state_def validate_cash_balance_for_position_def cash_matches_def
      validate_position_identity_def validate_position_moneys_def validate_settlement_money_def)

lemma apply_correction_exact:
  assumes v: "position_valid settled" "cash_balance_valid b" and cur: "valid_currency c"
    and ok: "correction_accepts_state p settled b s1 s2 c" "settlement_texts p s2"
      "length (st_settlement_id s1) \<le> 128"
    and t: "st_settled_at s2 = Some t" "ps_last_updated_at settled \<le> t" "cb_captured_at b \<le> t" "t \<le> created_at"
    and d: "dsub (cash_amount p s2) (cash_amount p s1) = d" "dsub (pnl_amount p s2) (pnl_amount p s1) = d"
    and g: "balance_on_grid k n b" "on_grid k m d" "2 * n + m \<le> 10 ^ 28"
    and new: "derive_settlement_correction_journal_entry_id H p s1 s2 \<notin> ids"
  obtains r where
    "apply_settlement_correction_once H p settled b s1 s2 ids c source_event_id created_at = Inr r"
    and "sx_position r = settled_position settled c d t" "sx_cash_balance r = moved b d t" "sx_applied r"
    and "sx_applied_journal_entry_ids r = insert (derive_settlement_correction_journal_entry_id H p s1 s2) ids"
proof -
  have cr: "corrects p s1 s2 c" and cb: "cb_currency b = c"
    using ok(1) by (auto simp: correction_accepts_state_def cash_matches_def)
  obtain e where e: "build_settlement_correction_journal_entry H p s1 s2 c source_event_id created_at = Inr e"
    and te: "je_occurred_at e = t" and lines: "cash_lines ACCOUNT_CASH c e = [d]"
    by (rule build_correction_journal_exact [OF cur cr ok(2,3) t(1,4) d])
  have ap: "apply_journal_to_cash_balance b e ACCOUNT_CASH = Inr
      \<lparr>cp_balance = moved b d t, cp_cash_delta = \<lparr>amount = d, currency = c\<rparr>\<rparr>"
    using apply_journal_exact [OF v(2) g(1), of ACCOUNT_CASH e m] g(2,3) lines t(3) by (simp add: te cb)
  obtain a where a: "build_settlement_correction_accounting_result p s1 s2 c = Inr a"
    "amount (sc_settlement_pnl_delta a) = d"
    using cur cr d(2) by (auto simp: correction_accounting_iff corrects_def settlement_amounts_iff)
  have i: "guards (validate_settlement_correction_identity p settled b s1 s2 c) = Inr ()"
    using ok(1) by (simp add: correction_identity_ok)
  have h: "validate_settlement_correction_application settled s2 = Inr ()"
    using t(1,2) by (simp add: validate_settlement_correction_application_def)
  have mk: "mk_position (settled\<lparr>ps_quantity := 0, ps_average_entry_price := None,
       ps_realized_pnl := \<lparr>amount = dadd (amount (ps_realized_pnl settled)) d, currency = c\<rparr>,
       ps_unrealized_pnl := zero_money c, ps_opened_at := None, ps_last_updated_at := t,
       ps_aggregate_version := ps_aggregate_version settled + 1\<rparr>) = Inr (settled_position settled c d t)"
    using settled_position_valid [OF v(1), of c d t] unfolding position_valid_def settled_position_def .
  show ?thesis
    using that new cur by (auto simp: apply_settlement_correction_once_def i h a e ap t(1) mk Let_def)
qed

section \<open>The apply-once contracts\<close>

type_synonym settlement_state = "position \<times> cash_balance"
type_synonym settlement_command = "settlement \<times> string \<times> ident \<times> instant"

fun settlement_step ::
  "hasher \<Rightarrow> settlement_state \<Rightarrow> string set \<Rightarrow> settlement_command \<Rightarrow> (settlement_state \<times> string set) result" where
  "settlement_step H (p, b) ids (s, cur, source_event_id, created_at) =
     bindE (apply_settlement_once H p b s ids cur source_event_id created_at)
       (\<lambda>r. Inr ((sm_position r, sm_cash_balance r), sm_applied_journal_entry_ids r))"

fun settlement_accepts :: "settlement_state \<Rightarrow> settlement_command \<Rightarrow> bool" where
  "settlement_accepts (p, b) (s, cur, source_event_id, created_at) =
     (valid_currency cur \<and> cash_matches b p cur)"

fun settlement_key :: "hasher \<Rightarrow> settlement_state \<Rightarrow> settlement_command \<Rightarrow> string" where
  "settlement_key H (p, b) (s, cur, source_event_id, created_at) = derive_settlement_journal_entry_id H p s"

lemma settled_position_ids [simp]:
  "ps_position_id (settled_position p c d t) = ps_position_id p"
  "ps_exchange (settled_position p c d t) = ps_exchange p"
  "ps_account_id (settled_position p c d t) = ps_account_id p"
  "ps_market_id (settled_position p c d t) = ps_market_id p"
  "ps_contract_id (settled_position p c d t) = ps_contract_id p"
  "ps_outcome_id (settled_position p c d t) = ps_outcome_id p"
  "ps_quantity (settled_position p c d t) = 0"
  "ps_average_entry_price (settled_position p c d t) = None"
  "ps_last_updated_at (settled_position p c d t) = t"
  "currency (ps_realized_pnl (settled_position p c d t)) = c"
  "amount (ps_realized_pnl (settled_position p c d t)) = dadd (amount (ps_realized_pnl p)) d"
  "currency (ps_unrealized_pnl (settled_position p c d t)) = c"
  "ps_fees_paid (settled_position p c d t) = ps_fees_paid p"
  "ps_rebates_received (settled_position p c d t) = ps_rebates_received p"
  "ps_aggregate_version (settled_position p c d t) = ps_aggregate_version p + 1"
  by (simp_all add: settled_position_def)

definition same_position :: "position \<Rightarrow> position \<Rightarrow> bool" where
  "same_position p p' \<longleftrightarrow> ps_position_id p' = ps_position_id p \<and> ps_exchange p' = ps_exchange p \<and>
     ps_account_id p' = ps_account_id p \<and> ps_market_id p' = ps_market_id p \<and>
     ps_contract_id p' = ps_contract_id p \<and> ps_outcome_id p' = ps_outcome_id p"

lemma same_position_settled [simp]: "same_position p (settled_position p c d t)" "same_position p p"
  by (simp_all add: same_position_def)

lemma apply_settlement_once_Inr:
  assumes "apply_settlement_once H p b s ids cur e t = Inr r"
  shows "valid_currency cur" "cash_matches b p cur"
    "sm_applied_journal_entry_ids r = insert (derive_settlement_journal_entry_id H p s) ids"
    "same_position p (sm_position r)"
    "same_account b (sm_cash_balance r)"
  using assms unfolding apply_settlement_once_def validate_currency_bind
  by (auto simp: bindE_eq_Inr cash_matches_iff Let_def apply_settlement_to_position_iff
      apply_journal_Inr_iff split: if_splits)

interpretation settlement_once: apply_once "settlement_step H" "settlement_key H" settlement_accepts
proof
  fix st :: settlement_state and a :: settlement_command and ids
  assume acc: "settlement_accepts st a" and key: "settlement_key H st a \<in> ids"
  obtain p b s cur e t where st: "st = (p, b)" and a: "a = (s, cur, e, t)" by (cases st; cases a)
  have "guards (validate_cash_balance_for_position b p cur) = Inr ()"
    using acc by (simp add: st a cash_matches_iff)
  with acc key show "settlement_step H st ids a = Inr (st, ids)"
    by (simp add: st a apply_settlement_once_def)
next
  fix st :: settlement_state and a ids st' ids'
  assume run: "settlement_step H st ids a = Inr (st', ids')"
  obtain p b s cur e t where st: "st = (p, b)" and a: "a = (s, cur, e, t)" by (cases st; cases a)
  from run obtain r where r: "apply_settlement_once H p b s ids cur e t = Inr r"
    and st': "st' = (sm_position r, sm_cash_balance r)" and ids': "ids' = sm_applied_journal_entry_ids r"
    by (auto simp: st a bindE_eq_Inr)
  note out = apply_settlement_once_Inr [OF r]
  show "settlement_accepts st a" using out(1,2) by (simp add: st a)
  show "ids' = insert (settlement_key H st a) ids" using out(3) by (simp add: st a ids')
  fix a' :: settlement_command
  show "settlement_key H st' a' = settlement_key H st a' \<and> settlement_accepts st' a' = settlement_accepts st a'"
    using out(4,5) by (cases a') (auto simp: st st' derive_settlement_journal_entry_id_def cash_matches_def same_account_def
        same_position_def)
qed

type_synonym settlement_fix = "position \<times> settlement \<times> settlement \<times> string \<times> ident \<times> instant"

fun settlement_fix_step ::
  "hasher \<Rightarrow> settlement_state \<Rightarrow> string set \<Rightarrow> settlement_fix \<Rightarrow> (settlement_state \<times> string set) result" where
  "settlement_fix_step H (settled, b) ids (p, s1, s2, cur, source_event_id, created_at) =
     bindE (apply_settlement_correction_once H p settled b s1 s2 ids cur source_event_id created_at)
       (\<lambda>r. Inr ((sx_position r, sx_cash_balance r), sx_applied_journal_entry_ids r))"

fun settlement_fix_accepts :: "settlement_state \<Rightarrow> settlement_fix \<Rightarrow> bool" where
  "settlement_fix_accepts (settled, b) (p, s1, s2, cur, source_event_id, created_at) =
     (valid_currency cur \<and> correction_accepts_state p settled b s1 s2 cur)"

fun settlement_fix_key :: "hasher \<Rightarrow> settlement_state \<Rightarrow> settlement_fix \<Rightarrow> string" where
  "settlement_fix_key H st (p, s1, s2, cur, source_event_id, created_at) =
     derive_settlement_correction_journal_entry_id H p s1 s2"

lemma correction_position_step:
  assumes "mk_position (settled\<lparr>ps_quantity := 0, ps_average_entry_price := None,
       ps_realized_pnl := \<lparr>amount = dadd (amount (ps_realized_pnl settled)) d, currency = c\<rparr>,
       ps_unrealized_pnl := zero_money c, ps_opened_at := None, ps_last_updated_at := t,
       ps_aggregate_version := ps_aggregate_version settled + 1\<rparr>) = Inr p'"
    and "correction_accepts_state p settled b s1 s2 c"
  shows "correction_accepts_state q p' b' u1 u2 c' = correction_accepts_state q settled b' u1 u2 c'"
proof -
  have "p' = settled_position settled c d t"
    using assms(1) by (simp add: mk_position_cases settled_position_def)
  with assms(2) show ?thesis by (auto simp: correction_accepts_state_def cash_matches_def)
qed

lemma correction_accepts_cash: "same_account b b' \<Longrightarrow>
    correction_accepts_state q p b' u1 u2 c = correction_accepts_state q p b u1 u2 c"
  by (simp add: correction_accepts_state_def cash_matches_def same_account_def)

lemma apply_correction_once_Inr:
  assumes "apply_settlement_correction_once H p settled b s1 s2 ids cur e t = Inr r"
  shows "valid_currency cur" "correction_accepts_state p settled b s1 s2 cur"
    "sx_applied_journal_entry_ids r = insert (derive_settlement_correction_journal_entry_id H p s1 s2) ids"
    "same_account b (sx_cash_balance r)"
    "correction_accepts_state q (sx_position r) b' u1 u2 c' = correction_accepts_state q settled b' u1 u2 c'"
proof -
  show cur: "valid_currency cur" and acc: "correction_accepts_state p settled b s1 s2 cur"
    using assms unfolding apply_settlement_correction_once_def validate_currency_bind
    by (auto simp: bindE_eq_Inr correction_identity_ok)
  show "sx_applied_journal_entry_ids r = insert (derive_settlement_correction_journal_entry_id H p s1 s2) ids"
    "same_account b (sx_cash_balance r)"
    "correction_accepts_state q (sx_position r) b' u1 u2 c' = correction_accepts_state q settled b' u1 u2 c'"
    using assms unfolding apply_settlement_correction_once_def validate_currency_bind
    by (auto simp: bindE_eq_Inr Let_def apply_journal_Inr_iff correction_position_step [OF _ acc]
        split: if_splits option.splits)
qed

interpretation settlement_fix_once:
  apply_once "settlement_fix_step H" "settlement_fix_key H" settlement_fix_accepts
proof
  fix st :: settlement_state and a :: settlement_fix and ids
  assume acc: "settlement_fix_accepts st a" and key: "settlement_fix_key H st a \<in> ids"
  obtain settled b p s1 s2 cur e t where st: "st = (settled, b)" and a: "a = (p, s1, s2, cur, e, t)"
    by (cases st; cases a)
  have "guards (validate_settlement_correction_identity p settled b s1 s2 cur) = Inr ()"
    using acc by (simp add: st a correction_identity_ok)
  with acc key show "settlement_fix_step H st ids a = Inr (st, ids)"
    by (simp add: st a apply_settlement_correction_once_def)
next
  fix st :: settlement_state and a ids st' ids'
  assume run: "settlement_fix_step H st ids a = Inr (st', ids')"
  obtain settled b p s1 s2 cur e t where st: "st = (settled, b)" and a: "a = (p, s1, s2, cur, e, t)"
    by (cases st; cases a)
  from run obtain r where r: "apply_settlement_correction_once H p settled b s1 s2 ids cur e t = Inr r"
    and st': "st' = (sx_position r, sx_cash_balance r)" and ids': "ids' = sx_applied_journal_entry_ids r"
    by (auto simp: st a bindE_eq_Inr)
  note out = apply_correction_once_Inr [OF r]
  show "settlement_fix_accepts st a" using out(1,2) by (simp add: st a)
  show "ids' = insert (settlement_fix_key H st a) ids" using out(3) by (simp add: st a ids')
  fix a' :: settlement_fix
  show "settlement_fix_key H st' a' = settlement_fix_key H st a' \<and>
      settlement_fix_accepts st' a' = settlement_fix_accepts st a'"
    by (cases a') (simp add: st st' out(5) correction_accepts_cash [OF out(4)])
qed

section \<open>Settle, then correct\<close>

lemma moved_on_grid:
  assumes "cash_balance_valid b" "balance_on_grid s n b" "on_grid s m d" "2 * n + m \<le> 10 ^ 28"
  shows "balance_on_grid s (n + m) (moved b d t)"
  using assms(2) on_grid_add [of s n "cb_available b" m d] on_grid_mono [of s n "cb_reserved b" "n + m"]
    moved_exact(2) [OF assms, of t] assms(3)
  by (simp add: balance_on_grid_def del: moved_sel(7))

text \<open>A position, its cash and a settlement that applies to them, in fixed point.\<close>

definition settlement_setup ::
  "nat \<Rightarrow> nat \<Rightarrow> nat \<Rightarrow> nat \<Rightarrow> position \<Rightarrow> cash_balance \<Rightarrow> settlement \<Rightarrow> string \<Rightarrow> instant \<Rightarrow> bool" where
  "settlement_setup k n l m p b s c t \<longleftrightarrow>
     position_valid p \<and> cash_balance_valid b \<and> valid_currency c \<and> settles p s SETTLED c \<and>
     settlement_texts p s \<and> cash_matches b p c \<and> st_settled_at s = Some t \<and>
     ps_last_updated_at p \<le> t \<and> cb_captured_at b \<le> t \<and> settlement_grid k n l m p s \<and>
     balance_on_grid (k + l) (n * m) b \<and> on_grid (k + l) (n * m) (amount (ps_realized_pnl p)) \<and>
     16 * (n * m) \<le> 10 ^ 28"

text \<open>What the state is after settling, or after correcting: everything exact.\<close>

definition settled_state ::
  "nat \<Rightarrow> nat \<Rightarrow> position \<Rightarrow> cash_balance \<Rightarrow> string \<Rightarrow> instant \<Rightarrow> rat \<Rightarrow> int \<Rightarrow> position \<Rightarrow> cash_balance \<Rightarrow> bool" where
  "settled_state g N p b c t payout v p' b' \<longleftrightarrow>
     position_valid p' \<and> cash_balance_valid b' \<and> same_position p p' \<and> same_account b b' \<and>
     ps_quantity p' = 0 \<and> ps_average_entry_price p' = None \<and> ps_last_updated_at p' = t \<and>
     currency (ps_realized_pnl p') = c \<and> currency (ps_unrealized_pnl p') = c \<and>
     ps_fees_paid p' = ps_fees_paid p \<and> ps_rebates_received p' = ps_rebates_received p \<and>
     ps_aggregate_version p' = ps_aggregate_version p + v \<and>
     amount (ps_realized_pnl p') = amount (ps_realized_pnl p) + ps_quantity p * (payout - average_of p) \<and>
     cb_available b' = cb_available b + ps_quantity p * payout \<and>
     cb_total b' = cb_total b + ps_quantity p * payout \<and> cb_reserved b' = cb_reserved b \<and>
     cb_captured_at b' = t \<and> balance_on_grid g N b' \<and> on_grid g N (amount (ps_realized_pnl p'))"

lemma settle_reaches:
  assumes su: "settlement_setup k n l m p b s c t" and t: "t \<le> created_at"
    and new: "derive_settlement_journal_entry_id H p s \<notin> ids"
  obtains r where "apply_settlement_once H p b s ids c source_event_id created_at = Inr r"
    and "settled_state (k + l) (3 * (n * m)) p b c t (payout_for p s) 1 (sm_position r) (sm_cash_balance r)"
    and "sm_applied_journal_entry_ids r = insert (derive_settlement_journal_entry_id H p s) ids"
proof -
  let ?N = "n * m"
  have v: "position_valid p" "cash_balance_valid b" "valid_currency c"
    and ok: "settles p s SETTLED c" "settlement_texts p s" "cash_matches b p c"
    and ts: "st_settled_at s = Some t" "ps_last_updated_at p \<le> t" "cb_captured_at b \<le> t"
    and g: "settlement_grid k n l m p s" "balance_on_grid (k + l) ?N b"
      "on_grid (k + l) ?N (amount (ps_realized_pnl p))" and bound: "16 * ?N \<le> 10 ^ 28"
    using su by (auto simp: settlement_setup_def)
  have b2: "2 * ?N \<le> 10 ^ 28" and b3: "2 * ?N + ?N \<le> 10 ^ 28" and b4: "3 * ?N \<le> 10 ^ 28" using bound by linarith+
  note amounts = settlement_amounts_exact [OF g(1) b2]
  obtain r where r: "apply_settlement_once H p b s ids c source_event_id created_at = Inr r"
    "sm_position r = settled_position p c (pnl_amount p s) t"
    "sm_cash_balance r = moved b (cash_amount p s) t"
    "sm_applied_journal_entry_ids r = insert (derive_settlement_journal_entry_id H p s) ids"
    using apply_settlement_exact [OF v ok ts t g(2) amounts(3) b3 new, of source_event_id thesis] by blast
  have R: "on_grid (k + l) (3 * ?N) (amount (ps_realized_pnl p) + pnl_amount p s)"
    using on_grid_add [OF g(3) amounts(4)] by (simp add: mult.commute)
  have realized: "dadd (amount (ps_realized_pnl p)) (pnl_amount p s) = amount (ps_realized_pnl p) + pnl_amount p s"
    using on_grid_fits [OF R b4] by (simp add: dadd_def d28.rnd_exact)
  note mv = moved_exact [OF v(2) g(2) amounts(3) b3, of t]
  have gb: "balance_on_grid (k + l) (3 * ?N) (moved b (cash_amount p s) t)"
    using moved_on_grid [OF v(2) g(2) amounts(3) b3, of t] on_grid_mono [of "k + l" "?N + ?N" _ "3 * ?N"]
    by (auto simp: balance_on_grid_def)
  have "settled_state (k + l) (3 * ?N) p b c t (payout_for p s) 1 (sm_position r) (sm_cash_balance r)"
    unfolding settled_state_def r(2,3)
    using settled_position_valid [OF v(1)] mv gb R
    by (simp add: realized [unfolded amounts(2)] amounts(1,2) del: moved_sel(7,8))
  with r(1,4) show ?thesis by (intro that)
qed

lemma correct_reaches:
  assumes st: "settled_state (k + l) N p b c t x v p1 b1"
    and ok: "corrects p s1 s2 c" "cash_matches b p c" "valid_currency c" "settlement_texts p s2"
      "length (st_settlement_id s1) \<le> 128"
    and t: "st_settled_at s2 = Some t2" "t \<le> t2" "t2 \<le> created_at"
    and g: "settlement_grid k n l m p s1" "settlement_grid k n l m p s2" "2 * N + 2 * (n * m) \<le> 10 ^ 28"
    and new: "derive_settlement_correction_journal_entry_id H p s1 s2 \<notin> ids"
  obtains r where
    "apply_settlement_correction_once H p p1 b1 s1 s2 ids c source_event_id created_at = Inr r"
    and "settled_state (k + l) (N + 2 * (n * m)) p b c t2 (x + payout_for p s2 - payout_for p s1) (v + 1)
      (sx_position r) (sx_cash_balance r)"
    and "sx_applied_journal_entry_ids r = insert (derive_settlement_correction_journal_entry_id H p s1 s2) ids"
proof -
  define d where "d = ps_quantity p * (payout_for p s2 - payout_for p s1)"
  have b2: "2 * (n * m) \<le> 10 ^ 28" and b1': "N + 2 * (n * m) \<le> 10 ^ 28" using g(3) by linarith+
  note amounts = correction_amounts_exact [OF g(1,2) b2, folded d_def]
  have s: "position_valid p1" "cash_balance_valid b1" "same_position p p1" "same_account b b1"
    "ps_quantity p1 = 0" "ps_average_entry_price p1 = None" "ps_last_updated_at p1 = t"
    "currency (ps_realized_pnl p1) = c" "currency (ps_unrealized_pnl p1) = c"
    "ps_fees_paid p1 = ps_fees_paid p" "ps_rebates_received p1 = ps_rebates_received p"
    "ps_aggregate_version p1 = ps_aggregate_version p + v"
    "amount (ps_realized_pnl p1) = amount (ps_realized_pnl p) + ps_quantity p * (x - average_of p)"
    "cb_available b1 = cb_available b + ps_quantity p * x" "cb_total b1 = cb_total b + ps_quantity p * x"
    "cb_reserved b1 = cb_reserved b" "cb_captured_at b1 = t" "balance_on_grid (k + l) N b1"
    "on_grid (k + l) N (amount (ps_realized_pnl p1))"
    using st unfolding settled_state_def by blast+
  have acc: "correction_accepts_state p p1 b1 s1 s2 c"
    using s(3-11) ok(1,2)
    by (auto simp: correction_accepts_state_def same_position_def same_account_def cash_matches_def
        corrects_def settles_simps)
  obtain r where r: "apply_settlement_correction_once H p p1 b1 s1 s2 ids c source_event_id created_at = Inr r"
    "sx_position r = settled_position p1 c d t2" "sx_cash_balance r = moved b1 d t2"
    "sx_applied_journal_entry_ids r = insert (derive_settlement_correction_journal_entry_id H p s1 s2) ids"
    using apply_correction_exact [OF s(1,2) ok(3) acc ok(4,5) t(1) _ _ t(3) amounts(1,2) s(18) amounts(3) g(3) new,
        of source_event_id thesis] s(7,17) t(2) by auto
  have R: "on_grid (k + l) (N + 2 * (n * m)) (amount (ps_realized_pnl p1) + d)"
    using s(19) amounts(3) by (rule on_grid_add)
  have realized: "dadd (amount (ps_realized_pnl p1)) d = amount (ps_realized_pnl p1) + d"
    using on_grid_fits [OF R b1'] by (simp add: dadd_def d28.rnd_exact)
  note mv = moved_exact [OF s(2,18) amounts(3) g(3), of t2]
  have same: "same_position p (settled_position p1 c d t2)" "same_account b (moved b1 d t2)"
    using s(3,4) by (simp_all add: same_position_def same_account_def)
  have sums: "ps_quantity p * (x + payout_for p s2 - payout_for p s1 - average_of p) =
      ps_quantity p * (x - average_of p) + d"
    "ps_quantity p * (x + payout_for p s2 - payout_for p s1) = ps_quantity p * x + d"
    by (simp_all add: d_def algebra_simps)
  have "settled_state (k + l) (N + 2 * (n * m)) p b c t2 (x + payout_for p s2 - payout_for p s1) (v + 1)
      (sx_position r) (sx_cash_balance r)"
    unfolding settled_state_def r(2,3) sums
    using settled_position_valid [OF s(1)] mv R same s moved_on_grid [OF s(2,18) amounts(3) g(3), of t2]
    by (simp add: realized [unfolded s(13)] ac_simps del: moved_sel(7,8))
  with r(1,4) show ?thesis by (intro that)
qed

section \<open>Properties\<close>

text \<open>
  The journal entry of a settlement always balances. For every position and settled settlement
  that pass validation, with no bound on the numbers, \<open>build_settlement_journal_entry\<close> is accepted: its
  lines are the cash received, minus the cost basis, minus the PnL, and their running total in 28-digit
  arithmetic is zero.
\<close>

theorem settlement_entry_always_balances:
  assumes "valid_currency c" and "settles p s SETTLED c" and "settlement_texts p s"
    and "st_settled_at s = Some t" and "t \<le> created_at"
  shows "\<exists>e. build_settlement_journal_entry H p s c source_event_id created_at = Inr e \<and>
    balanced (je_lines e) \<and> je_occurred_at e = t \<and>
    map jl_amount (je_lines e) = [cash_amount p s, - cost_amount p, - pnl_amount p s]"
  by (rule build_settlement_journal_exact [OF assms, of H source_event_id]) (intro exI conjI)

text \<open>
  C31: settling closes the position and pays its value. In fixed point, an applicable settlement is
  accepted; the position becomes flat with the next version, available and total cash both grow by quantity
  times payout while reserved cash stays, realized PnL grows by quantity times payout minus average, so that the cash
  received is the cost basis plus the PnL; delivering it again changes nothing.
\<close>

theorem settlement_closes_position:
  assumes "settlement_setup k n l m p b s c t" and "t \<le> created_at"
    and "derive_settlement_journal_entry_id H p s \<notin> ids"
  shows "\<exists>r. apply_settlement_once H p b s ids c e created_at = Inr r \<and>
    ps_quantity (sm_position r) = 0 \<and> ps_average_entry_price (sm_position r) = None \<and>
    ps_aggregate_version (sm_position r) = ps_aggregate_version p + 1 \<and>
    cb_available (sm_cash_balance r) = cb_available b + ps_quantity p * payout_for p s \<and>
    cb_total (sm_cash_balance r) = cb_total b + ps_quantity p * payout_for p s \<and>
    cb_reserved (sm_cash_balance r) = cb_reserved b \<and>
    amount (ps_realized_pnl (sm_position r)) = amount (ps_realized_pnl p) + ps_quantity p * (payout_for p s - average_of p) \<and>
    cb_total (sm_cash_balance r) - cb_total b =
      ps_quantity p * average_of p + (amount (ps_realized_pnl (sm_position r)) - amount (ps_realized_pnl p)) \<and>
    position_valid (sm_position r) \<and> cash_balance_valid (sm_cash_balance r) \<and>
    settlement_step H (sm_position r, sm_cash_balance r) (sm_applied_journal_entry_ids r) (s, c, e, created_at) =
      Inr ((sm_position r, sm_cash_balance r), sm_applied_journal_entry_ids r)"
proof -
  obtain r where r: "apply_settlement_once H p b s ids c e created_at = Inr r"
    and st: "settled_state (k + l) (3 * (n * m)) p b c t (payout_for p s) 1 (sm_position r) (sm_cash_balance r)"
    using settle_reaches [OF assms, of e thesis] by blast
  have "settlement_step H (p, b) ids (s, c, e, created_at) =
      Inr ((sm_position r, sm_cash_balance r), sm_applied_journal_entry_ids r)" by (simp add: r)
  note again = settlement_once.idempotent [OF this]
  show ?thesis
    using st again r by (intro exI [of _ r]) (simp add: settled_state_def algebra_simps)
qed

text \<open>
  C32: settling and then correcting is settling with the corrected outcome. In fixed point, after an
  applied settlement a correction that refers to it is accepted, and position and cash are what
  they would be had the corrected payout been settled in the first place, two versions later.
\<close>

theorem settle_then_correct:
  assumes "settlement_setup k n l m p b s1 c t" and "t \<le> created_at"
    and "corrects p s1 s2 c" and "settlement_texts p s2" and "st_settled_at s2 = Some t2" and "t \<le> t2"
    and "t2 \<le> created_at2" and "settlement_grid k n l m p s2"
    and "derive_settlement_journal_entry_id H p s1 \<notin> ids"
    and "derive_settlement_correction_journal_entry_id H p s1 s2 \<notin>
      insert (derive_settlement_journal_entry_id H p s1) ids"
  shows "\<exists>r r2. apply_settlement_once H p b s1 ids c e created_at = Inr r \<and>
    apply_settlement_correction_once H p (sm_position r) (sm_cash_balance r) s1 s2
      (sm_applied_journal_entry_ids r) c e2 created_at2 = Inr r2 \<and>
    ps_quantity (sx_position r2) = 0 \<and> ps_aggregate_version (sx_position r2) = ps_aggregate_version p + 2 \<and>
    amount (ps_realized_pnl (sx_position r2)) =
      amount (ps_realized_pnl p) + ps_quantity p * (payout_for p s2 - average_of p) \<and>
    cb_available (sx_cash_balance r2) = cb_available b + ps_quantity p * payout_for p s2 \<and>
    cb_total (sx_cash_balance r2) = cb_total b + ps_quantity p * payout_for p s2"
proof -
  obtain r where r: "apply_settlement_once H p b s1 ids c e created_at = Inr r"
    and st: "settled_state (k + l) (3 * (n * m)) p b c t (payout_for p s1) 1 (sm_position r) (sm_cash_balance r)"
    and ids: "sm_applied_journal_entry_ids r = insert (derive_settlement_journal_entry_id H p s1) ids"
    using settle_reaches [OF assms(1,2,9), of e thesis] by blast
  have ok: "cash_matches b p c" "valid_currency c" "length (st_settlement_id s1) \<le> 128"
    "settlement_grid k n l m p s1" and bound: "2 * (3 * (n * m)) + 2 * (n * m) \<le> 10 ^ 28"
    using assms(1) by (auto simp: settlement_setup_def settlement_texts_def text_in_def)
  obtain r2 where "apply_settlement_correction_once H p (sm_position r) (sm_cash_balance r) s1 s2
      (sm_applied_journal_entry_ids r) c e2 created_at2 = Inr r2"
    and "settled_state (k + l) (3 * (n * m) + 2 * (n * m)) p b c t2
      (payout_for p s1 + payout_for p s2 - payout_for p s1) (1 + 1) (sx_position r2) (sx_cash_balance r2)"
    using correct_reaches [OF st assms(3) ok(1,2) assms(4) ok(3) assms(5-7) ok(4) assms(8) bound, of H
        "sm_applied_journal_entry_ids r" e2 thesis] assms(10) ids by auto
  with r show ?thesis by (intro exI [of _ r] exI [of _ r2]) (simp add: settled_state_def)
qed

text \<open>
  C40: two corrections of the same settlement add up instead of replacing each other. In fixed point, after a
  settlement, a correction and a second correction that also refers to the original settlement are both
  accepted, and the cash received is the sum of both corrected payouts minus the original one, not the
  payout of the last correction.
\<close>

theorem corrections_accumulate:
  assumes "settlement_setup k n l m p b s0 c t" and "t \<le> created_at"
    and "corrects p s0 s1 c" and "settlement_texts p s1" and "st_settled_at s1 = Some t1" and "t \<le> t1"
    and "t1 \<le> created_at" and "settlement_grid k n l m p s1"
    and "corrects p s0 s2 c" and "settlement_texts p s2" and "st_settled_at s2 = Some t2" and "t1 \<le> t2"
    and "t2 \<le> created_at" and "settlement_grid k n l m p s2"
    and "distinct [derive_settlement_journal_entry_id H p s0,
      derive_settlement_correction_journal_entry_id H p s0 s1, derive_settlement_correction_journal_entry_id H p s0 s2]"
  shows "\<exists>r r1 r2. apply_settlement_once H p b s0 {} c e created_at = Inr r \<and>
    apply_settlement_correction_once H p (sm_position r) (sm_cash_balance r) s0 s1
      (sm_applied_journal_entry_ids r) c e1 created_at = Inr r1 \<and>
    apply_settlement_correction_once H p (sx_position r1) (sx_cash_balance r1) s0 s2
      (sx_applied_journal_entry_ids r1) c e2 created_at = Inr r2 \<and>
    cb_total (sx_cash_balance r2) =
      cb_total b + ps_quantity p * (payout_for p s1 + payout_for p s2 - payout_for p s0)"
proof -
  obtain r where r: "apply_settlement_once H p b s0 {} c e created_at = Inr r"
    and st: "settled_state (k + l) (3 * (n * m)) p b c t (payout_for p s0) 1 (sm_position r) (sm_cash_balance r)"
    and ids: "sm_applied_journal_entry_ids r = {derive_settlement_journal_entry_id H p s0}"
    using settle_reaches [OF assms(1,2), of H "{}" e thesis] by simp
  have ok: "cash_matches b p c" "valid_currency c" "length (st_settlement_id s0) \<le> 128"
    "settlement_grid k n l m p s0" and bound: "2 * (3 * (n * m)) + 2 * (n * m) \<le> 10 ^ 28"
    "2 * (3 * (n * m) + 2 * (n * m)) + 2 * (n * m) \<le> 10 ^ 28"
    using assms(1) by (auto simp: settlement_setup_def settlement_texts_def text_in_def)
  obtain r1 where r1: "apply_settlement_correction_once H p (sm_position r) (sm_cash_balance r) s0 s1
      (sm_applied_journal_entry_ids r) c e1 created_at = Inr r1"
    and st1: "settled_state (k + l) (3 * (n * m) + 2 * (n * m)) p b c t1
      (payout_for p s0 + payout_for p s1 - payout_for p s0) (1 + 1) (sx_position r1) (sx_cash_balance r1)"
    and ids1: "sx_applied_journal_entry_ids r1 = insert (derive_settlement_correction_journal_entry_id H p s0 s1)
      (sm_applied_journal_entry_ids r)"
    using correct_reaches [OF st assms(3) ok(1,2) assms(4) ok(3) assms(5-7) ok(4) assms(8) bound(1), of H
        "sm_applied_journal_entry_ids r" e1 thesis] assms(15) ids by auto
  obtain r2 where r2: "apply_settlement_correction_once H p (sx_position r1) (sx_cash_balance r1) s0 s2
      (sx_applied_journal_entry_ids r1) c e2 created_at = Inr r2"
    and "settled_state (k + l) (3 * (n * m) + 2 * (n * m) + 2 * (n * m)) p b c t2
      (payout_for p s0 + payout_for p s1 - payout_for p s0 + payout_for p s2 - payout_for p s0) (1 + 1 + 1)
      (sx_position r2) (sx_cash_balance r2)"
    using correct_reaches [OF st1 assms(9) ok(1,2) assms(10) ok(3) assms(11-13) ok(4) assms(14) bound(2), of H
        "sx_applied_journal_entry_ids r1" e2 thesis] assms(15) ids ids1 by auto
  with r r1 show ?thesis
    by (intro exI [of _ r] exI [of _ r1] exI [of _ r2]) (simp add: settled_state_def)
qed

section \<open>Witnesses\<close>

definition sample_settlement ::
  "ident \<Rightarrow> settlement_status \<Rightarrow> ident \<Rightarrow> rat \<Rightarrow> instant \<Rightarrow> ident option \<Rightarrow> settlement" where
  "sample_settlement i st winner payout t correction =
     \<lparr>st_settlement_id = i, st_market_id = ''mkt_1'', st_exchange = ''kalshi'', st_status = st,
      st_winning_outcome_ids = [winner], st_resolved_at = Some t, st_finalized_at = Some t,
      st_settled_at = Some t, st_payout_per_unit = Some payout, st_source = ''exchange'',
      st_source_reference = None, st_correction_of_settlement_id = correction\<rparr>"

text \<open>Long 5 at 0.4; the first settlement loses, the corrections pay 1 and 1/2 per unit.\<close>

definition sample_long :: position where
  "sample_long = sample_position 5 (2/5) 10"
definition sample_cash :: cash_balance where
  "sample_cash = sample_balance ''b'' 100 0 10"
definition sample_loss :: settlement where
  "sample_loss = sample_settlement ''stl_0'' SETTLED ''out_2'' 1 20 None"
definition sample_win :: settlement where
  "sample_win = sample_settlement ''stl_1'' CORRECTED ''out_1'' 1 30 (Some ''stl_0'')"
definition sample_half :: settlement where
  "sample_half = sample_settlement ''stl_2'' CORRECTED ''out_1'' (1/2) 40 (Some ''stl_0'')"

lemmas sample_settlements = sample_long_def sample_cash_def sample_loss_def sample_win_def sample_half_def
  sample_settlement_def

lemma sample_cash_valid: "cash_balance_valid sample_cash"
  unfolding sample_cash_def
  by (rule sample_balance_valid [of 0 1000]) (simp_all add: on_grid_def text_in_def)

lemma sample_setup: "settlement_setup 0 10 1 1000 sample_long sample_cash sample_loss ''USD'' 20"
  using sample_cash_valid sample_position_valid [of "2/5" 5 10]
  by (simp add: settlement_setup_def settles_simps settlement_texts_def cash_matches_def settlement_grid_def
      balance_on_grid_def payout_for_def average_of_def sample_long_def sample_loss_def sample_settlement_def del: not_None_eq)
    (simp add: sample_position_def sample_cash_def sample_balance_def on_grid_def text_in_def del: not_None_eq)

lemma sample_corrects:
  "corrects sample_long sample_loss sample_win ''USD''" "corrects sample_long sample_loss sample_half ''USD''"
  "settlement_texts sample_long sample_win" "settlement_texts sample_long sample_half"
  "settlement_grid 0 10 1 1000 sample_long sample_win" "settlement_grid 0 10 1 1000 sample_long sample_half"
  "st_settled_at sample_win = Some 30" "st_settled_at sample_half = Some 40"
  "payout_for sample_long sample_win = 1" "payout_for sample_long sample_half = 1/2"
  "payout_for sample_long sample_loss = 0" "average_of sample_long = 2/5" "ps_quantity sample_long = 5"
  "cb_total sample_cash = 100" "cb_available sample_cash = 100" "amount (ps_realized_pnl sample_long) = 0"
  by (simp_all add: corrects_def settles_simps settlement_texts_def settlement_grid_def payout_for_def
      average_of_def sample_settlements sample_position_def on_grid_def text_in_def del: not_None_eq)

text \<open>An identifier scheme that keeps different requests apart, for the witness.\<close>

fun tag :: "canon \<Rightarrow> string" where
  "tag (CStr s) = s"
| "tag (CMap kvs) = concat (map (\<lambda>(k, v). case v of CStr s \<Rightarrow> s | _ \<Rightarrow> []) kvs)"
| "tag _ = []"

lemma sample_keys:
  "distinct [derive_settlement_journal_entry_id tag sample_long sample_loss,
     derive_settlement_correction_journal_entry_id tag sample_long sample_loss sample_win,
     derive_settlement_correction_journal_entry_id tag sample_long sample_loss sample_half]"
  by (simp add: derive_settlement_journal_entry_id_def derive_settlement_correction_journal_entry_id_def
      short_digest_def removeprefix_def sample_settlements sample_position_def)

theorem settlement_entry_always_balances_witness:
  "\<exists>e. build_settlement_journal_entry sample_hasher sample_long sample_loss ''USD'' ''evt_1'' 50 = Inr e \<and>
    balanced (je_lines e)"
  using settlement_entry_always_balances [of "''USD''" sample_long sample_loss 20 50 sample_hasher "''evt_1''"]
    sample_setup by (auto simp: settlement_setup_def)

theorem settlement_closes_position_witness:
  "\<exists>r. apply_settlement_once sample_hasher sample_long sample_cash sample_loss {} ''USD'' ''evt_1'' 50 = Inr r \<and>
    ps_quantity (sm_position r) = 0 \<and> cb_available (sm_cash_balance r) = 100"
  using settlement_closes_position [OF sample_setup, of 50 sample_hasher "{}" "''evt_1''"] sample_corrects by auto

theorem settle_then_correct_witness:
  "\<exists>r r2. apply_settlement_once tag sample_long sample_cash sample_loss {} ''USD'' ''evt_1'' 50 = Inr r \<and>
    apply_settlement_correction_once tag sample_long (sm_position r) (sm_cash_balance r) sample_loss sample_win
      (sm_applied_journal_entry_ids r) ''USD'' ''evt_2'' 50 = Inr r2 \<and>
    cb_total (sx_cash_balance r2) = 105 \<and> amount (ps_realized_pnl (sx_position r2)) = 3"
  using settle_then_correct [OF sample_setup _ sample_corrects(1,3,7) _ _ sample_corrects(5), of 50 50 tag "{}"
      "''evt_1''" "''evt_2''"] sample_corrects sample_keys by auto

theorem corrections_accumulate_witness:
  "\<exists>r r1 r2. apply_settlement_once tag sample_long sample_cash sample_loss {} ''USD'' ''evt_1'' 50 = Inr r \<and>
    apply_settlement_correction_once tag sample_long (sm_position r) (sm_cash_balance r) sample_loss sample_win
      (sm_applied_journal_entry_ids r) ''USD'' ''evt_2'' 50 = Inr r1 \<and>
    apply_settlement_correction_once tag sample_long (sx_position r1) (sx_cash_balance r1) sample_loss sample_half
      (sx_applied_journal_entry_ids r1) ''USD'' ''evt_3'' 50 = Inr r2 \<and>
    cb_total (sx_cash_balance r2) = 215/2"
  using corrections_accumulate [OF sample_setup _ sample_corrects(1,3,7) _ _ sample_corrects(5)
      sample_corrects(2,4,8) _ _ sample_corrects(6) sample_keys, of 50 "''evt_1''" "''evt_2''" "''evt_3''"]
    sample_corrects by auto

end
