(* ===== verification/Pnl.thy ===== *)
theory Pnl
  imports Balances "HOL-Library.List_Lexorder" "HOL-Library.Char_ord"
begin

text \<open>
  \<open>src/pmrp/portfolio/pnl.py\<close>: attributing profit and loss to a period from its journal entries.
  The lemmas show when an attribution is built and what its total is, and that the attributions of
  two adjacent periods add up to the attribution of both.
\<close>

section \<open>The attribution\<close>

record pnl_attribution =
  pa_attribution_id :: string
  pa_strategy_id :: "ident option"
  pa_market_id :: "ident option"
  pa_exchange :: "string option"
  pa_starts_at :: instant
  pa_ends_at :: instant
  pa_realized_trading_pnl :: money
  pa_unrealized_pnl_change :: money
  pa_fees :: money
  pa_rebates :: money
  pa_slippage :: "money option"
  pa_settlement_pnl :: "money option"
  pa_total_pnl :: money
  pa_calculation_version :: string

definition optional_amount :: "money option \<Rightarrow> rat" where
  "optional_amount m = (case m of None \<Rightarrow> 0 | Some m \<Rightarrow> amount m)"

definition component_sum :: "money \<Rightarrow> money \<Rightarrow> money \<Rightarrow> money \<Rightarrow> money option \<Rightarrow> money option \<Rightarrow> rat" where
  "component_sum realized unrealized fees rebates slippage settlement =
     dadd (dadd (dadd (dsub (dadd (amount realized) (amount unrealized)) (amount fees))
       (amount rebates)) (optional_amount slippage)) (optional_amount settlement)"

definition validate_pnl_attribution :: "pnl_attribution \<Rightarrow> (bool \<times> py_error) list" where
  "validate_pnl_attribution a =
     (let currencies = remdups (map currency
        ([pa_realized_trading_pnl a, pa_unrealized_pnl_change a, pa_fees a, pa_rebates a] @
         (case pa_slippage a of None \<Rightarrow> [] | Some m \<Rightarrow> [m]) @
         (case pa_settlement_pnl a of None \<Rightarrow> [] | Some m \<Rightarrow> [m]) @ [pa_total_pnl a]))
      in
     [(pa_ends_at a \<le> pa_starts_at a, ValidationError Period_invalid),
      (length currencies \<noteq> 1, ValidationError Pnl_currencies_differ),
      (amount (pa_fees a) < 0, ValidationError (Out_of_range F_fee)),
      (amount (pa_rebates a) < 0, ValidationError (Out_of_range F_rebate)),
      (amount (pa_total_pnl a) \<noteq> component_sum (pa_realized_trading_pnl a) (pa_unrealized_pnl_change a)
         (pa_fees a) (pa_rebates a) (pa_slippage a) (pa_settlement_pnl a), ValidationError Pnl_total_wrong)])"

definition mk_pnl_attribution :: "pnl_attribution \<Rightarrow> pnl_attribution result" where
  "mk_pnl_attribution a =
     bindE (guards
      ([(\<not> text_in 1 128 (pa_attribution_id a), ValidationError (Out_of_range F_attribution_id)),
        (\<not> pred_option (text_in 1 64) (pa_exchange a), ValidationError (Out_of_range F_exchange)),
        (\<not> text_in 1 64 (pa_calculation_version a), ValidationError (Out_of_range F_text))] @
       validate_pnl_attribution a)) (\<lambda>_. Inr a)"

section \<open>Building it from journal entries\<close>

definition pnl_raise :: "pnl_error \<Rightarrow> py_error" where
  "pnl_raise e = PortfolioProjectionError (Pnl e)"

definition sum_account :: "journal_entry list \<Rightarrow> string \<Rightarrow> string \<Rightarrow> rat" where
  "sum_account entries code c = dsum (concat (map (cash_lines code c) entries))"

fun validate_unique_journal_entry_ids :: "string set \<Rightarrow> journal_entry list \<Rightarrow> unit result" where
  "validate_unique_journal_entry_ids seen [] = Inr ()"
| "validate_unique_journal_entry_ids seen (e # es) =
     (if je_journal_entry_id e \<in> seen then Inl (pnl_raise Pnl_duplicate_entry)
      else validate_unique_journal_entry_ids (insert (je_journal_entry_id e) seen) es)"

definition validate_journal_period :: "journal_entry list \<Rightarrow> instant \<Rightarrow> instant \<Rightarrow> unit result" where
  "validate_journal_period entries starts_at ends_at =
     guards ((ends_at \<le> starts_at, pnl_raise Pnl_period_invalid) #
       map (\<lambda>e. (je_occurred_at e < starts_at \<or> ends_at \<le> je_occurred_at e, pnl_raise Pnl_entry_outside)) entries)"

definition validate_nonnegative :: "money \<Rightarrow> field \<Rightarrow> bool \<times> py_error" where
  "validate_nonnegative m fld = (amount m < 0, pnl_raise (Pnl_negative fld))"

definition validate_optional_money :: "money option \<Rightarrow> string \<Rightarrow> field \<Rightarrow> bool \<times> py_error" where
  "validate_optional_money m c fld =
     (\<not> pred_option (\<lambda>m. currency m = c) m, pnl_raise (Pnl_currency_mismatch fld))"

definition combine_optional_money :: "money \<Rightarrow> money option \<Rightarrow> money option" where
  "combine_optional_money first second =
     (if amount first = 0 \<and> second = None then None
      else case second of
        None \<Rightarrow> Some first
      | Some m \<Rightarrow> Some \<lparr>amount = dadd (amount first) (amount m), currency = currency first\<rparr>)"

definition JOURNAL_PNL_ATTRIBUTION_VERSION :: string where
  "JOURNAL_PNL_ATTRIBUTION_VERSION = ''journal_pnl_attribution_v1''"

definition derive_journal_pnl_attribution_id ::
  "hasher \<Rightarrow> journal_entry list \<Rightarrow> string \<Rightarrow> instant \<Rightarrow> instant \<Rightarrow> ident option \<Rightarrow> ident option \<Rightarrow>
   string option \<Rightarrow> string result" where
  "derive_journal_pnl_attribution_id H entries cur starts_at ends_at strategy_id market_id exchange =
     bindE (validate_currency cur) (\<lambda>c.
     Inr (''pnl_'' @ short_digest H (CMap
       [(''calculation_version'', CStr JOURNAL_PNL_ATTRIBUTION_VERSION),
        (''currency'', CStr c),
        (''ends_at'', CTime ends_at),
        (''exchange'', canon_of_opt exchange),
        (''journal_entry_ids'', CList (map CStr (sort (map je_journal_entry_id entries)))),
        (''market_id'', canon_of_opt market_id),
        (''starts_at'', CTime starts_at),
        (''strategy_id'', canon_of_opt strategy_id)])))"

text \<open>The optional arguments of the call, as one record.\<close>

record pnl_request =
  pr_attribution_id :: "string option"
  pr_strategy_id :: "ident option"
  pr_market_id :: "ident option"
  pr_exchange :: "string option"
  pr_unrealized_pnl_change :: "money option"
  pr_slippage :: "money option"
  pr_settlement_pnl :: "money option"

definition build_journal_pnl_attribution ::
  "hasher \<Rightarrow> journal_entry list \<Rightarrow> string \<Rightarrow> instant \<Rightarrow> instant \<Rightarrow> pnl_request \<Rightarrow> pnl_attribution result" where
  "build_journal_pnl_attribution H entries cur starts_at ends_at req =
     bindE (validate_currency cur) (\<lambda>c.
     bindE (validate_unique_journal_entry_ids {} entries) (\<lambda>_.
     bindE (validate_journal_period entries starts_at ends_at) (\<lambda>_.
     let realized = \<lparr>amount = dneg (sum_account entries ACCOUNT_REALIZED_TRADING_PNL c), currency = c\<rparr>;
         fees = \<lparr>amount = sum_account entries ACCOUNT_FEES_PAID c, currency = c\<rparr>;
         rebates = \<lparr>amount = dneg (sum_account entries ACCOUNT_REBATES_RECEIVED c), currency = c\<rparr>;
         unrealized = (case pr_unrealized_pnl_change req of None \<Rightarrow> zero_money c | Some m \<Rightarrow> m);
         slippage = pr_slippage req;
         journal_settlement = \<lparr>amount = dneg (sum_account entries ACCOUNT_SETTLEMENT_PNL c), currency = c\<rparr>;
         settlement = combine_optional_money journal_settlement (pr_settlement_pnl req)
     in
     bindE (guards
       [validate_nonnegative fees F_fee, validate_nonnegative rebates F_rebate,
        validate_optional_money (pr_unrealized_pnl_change req) c F_unrealized_pnl_change,
        validate_optional_money (pr_slippage req) c F_slippage,
        validate_optional_money (pr_settlement_pnl req) c F_settlement_pnl]) (\<lambda>_.
     bindE (case pr_attribution_id req of
         Some i \<Rightarrow> if i \<noteq> [] then Inr i
           else derive_journal_pnl_attribution_id H entries c starts_at ends_at
             (pr_strategy_id req) (pr_market_id req) (pr_exchange req)
       | None \<Rightarrow> derive_journal_pnl_attribution_id H entries c starts_at ends_at
             (pr_strategy_id req) (pr_market_id req) (pr_exchange req)) (\<lambda>attribution_id.
     mk_pnl_attribution
       \<lparr>pa_attribution_id = attribution_id, pa_strategy_id = pr_strategy_id req,
        pa_market_id = pr_market_id req, pa_exchange = pr_exchange req,
        pa_starts_at = starts_at, pa_ends_at = ends_at,
        pa_realized_trading_pnl = realized, pa_unrealized_pnl_change = unrealized,
        pa_fees = fees, pa_rebates = rebates, pa_slippage = slippage,
        pa_settlement_pnl = settlement,
        pa_total_pnl =
          \<lparr>amount = component_sum realized unrealized fees rebates slippage settlement, currency = c\<rparr>,
        pa_calculation_version = JOURNAL_PNL_ATTRIBUTION_VERSION\<rparr>)))))"

section \<open>When it is built\<close>

lemma unique_ids_iff:
  "validate_unique_journal_entry_ids seen es = Inr u \<longleftrightarrow>
     distinct (map je_journal_entry_id es) \<and> seen \<inter> je_journal_entry_id ` set es = {}"
  by (induction seen es rule: validate_unique_journal_entry_ids.induct) auto

lemma journal_period_iff:
  "validate_journal_period es t0 t1 = Inr u \<longleftrightarrow>
     t0 < t1 \<and> (\<forall>e \<in> set es. t0 \<le> je_occurred_at e \<and> je_occurred_at e < t1)"
  by (auto simp: validate_journal_period_def guards_ok_iff)

definition pnl_accepts ::
  "journal_entry list \<Rightarrow> string \<Rightarrow> instant \<Rightarrow> instant \<Rightarrow> pnl_request \<Rightarrow> bool" where
  "pnl_accepts es c t0 t1 req \<longleftrightarrow>
     valid_currency c \<and> distinct (map je_journal_entry_id es) \<and> t0 < t1 \<and>
     (\<forall>e \<in> set es. t0 \<le> je_occurred_at e \<and> je_occurred_at e < t1) \<and>
     0 \<le> sum_account es ACCOUNT_FEES_PAID c \<and> sum_account es ACCOUNT_REBATES_RECEIVED c \<le> 0 \<and>
     pred_option (\<lambda>m. currency m = c) (pr_unrealized_pnl_change req) \<and>
     pred_option (\<lambda>m. currency m = c) (pr_slippage req) \<and>
     pred_option (\<lambda>m. currency m = c) (pr_settlement_pnl req) \<and>
     pred_option (\<lambda>i. length i \<le> 128) (pr_attribution_id req) \<and>
     pred_option (text_in 1 64) (pr_exchange req)"

definition pnl_components ::
  "journal_entry list \<Rightarrow> string \<Rightarrow> pnl_request \<Rightarrow> money \<times> money \<times> money \<times> money \<times> money option \<times> money option" where
  "pnl_components es c req =
     (\<lparr>amount = dneg (sum_account es ACCOUNT_REALIZED_TRADING_PNL c), currency = c\<rparr>,
      case pr_unrealized_pnl_change req of None \<Rightarrow> zero_money c | Some m \<Rightarrow> m,
      \<lparr>amount = sum_account es ACCOUNT_FEES_PAID c, currency = c\<rparr>,
      \<lparr>amount = dneg (sum_account es ACCOUNT_REBATES_RECEIVED c), currency = c\<rparr>,
      pr_slippage req,
      combine_optional_money
        \<lparr>amount = dneg (sum_account es ACCOUNT_SETTLEMENT_PNL c), currency = c\<rparr> (pr_settlement_pnl req))"

definition components_of :: "pnl_attribution \<Rightarrow> money \<times> money \<times> money \<times> money \<times> money option \<times> money option" where
  "components_of a = (pa_realized_trading_pnl a, pa_unrealized_pnl_change a, pa_fees a, pa_rebates a,
     pa_slippage a, pa_settlement_pnl a)"

lemma derive_pnl_id:
  assumes "valid_currency c"
  obtains i where "derive_journal_pnl_attribution_id H es c t0 t1 x y z = Inr i" "text_in 1 128 i"
  using assms short_digest_length [of 100 H]
  by (simp add: derive_journal_pnl_attribution_id_def text_in_def)

lemma one_currency:
  assumes "pred_option (\<lambda>m. currency m = c) u" "pred_option (\<lambda>m. currency m = c) s" "pred_option (\<lambda>m. currency m = c) t"
  shows "length (remdups (map currency
     ([\<lparr>amount = r, currency = c\<rparr>, case u of None \<Rightarrow> zero_money c | Some m \<Rightarrow> m, \<lparr>amount = f, currency = c\<rparr>,
       \<lparr>amount = b, currency = c\<rparr>] @ (case s of None \<Rightarrow> [] | Some m \<Rightarrow> [m]) @
      (case combine_optional_money \<lparr>amount = j, currency = c\<rparr> t of None \<Rightarrow> [] | Some m \<Rightarrow> [m]) @
      [\<lparr>amount = x, currency = c\<rparr>]))) = 1"
  using assms by (cases u; cases s; cases t) (simp_all add: combine_optional_money_def)

lemma pnl_built:
  assumes ok: "pnl_accepts es c t0 t1 req"
  obtains a where "build_journal_pnl_attribution H es c t0 t1 req = Inr a"
    and "components_of a = pnl_components es c req"
    and "pa_total_pnl a = (case pnl_components es c req of (r, u, f, b, s, t) \<Rightarrow>
      \<lparr>amount = component_sum r u f b s t, currency = c\<rparr>)"
proof -
  have cur: "valid_currency c" and ids: "validate_unique_journal_entry_ids {} es = Inr ()"
    and period: "validate_journal_period es t0 t1 = Inr ()" and t: "t0 < t1"
    and money: "pred_option (\<lambda>m. currency m = c) (pr_unrealized_pnl_change req)"
      "pred_option (\<lambda>m. currency m = c) (pr_slippage req)" "pred_option (\<lambda>m. currency m = c) (pr_settlement_pnl req)"
    using ok by (simp_all add: pnl_accepts_def unique_ids_iff journal_period_iff)
  obtain i where i: "derive_journal_pnl_attribution_id H es c t0 t1 (pr_strategy_id req) (pr_market_id req)
      (pr_exchange req) = Inr i" "text_in 1 128 i"
    by (rule derive_pnl_id [OF cur])
  define i' where "i' = (case pr_attribution_id req of None \<Rightarrow> i | Some j \<Rightarrow> if j \<noteq> [] then j else i)"
  have i': "text_in 1 128 i'"
    using i(2) ok by (auto simp: i'_def pnl_accepts_def text_in_def Suc_le_eq split: option.splits)
  have pick: "(case pr_attribution_id req of
         Some i \<Rightarrow> if i \<noteq> [] then Inr i
           else derive_journal_pnl_attribution_id H es c t0 t1
             (pr_strategy_id req) (pr_market_id req) (pr_exchange req)
       | None \<Rightarrow> derive_journal_pnl_attribution_id H es c t0 t1
             (pr_strategy_id req) (pr_market_id req) (pr_exchange req)) = Inr i'"
    by (simp add: i'_def i(1) split: option.splits)
  define a where "a =
       \<lparr>pa_attribution_id = i', pa_strategy_id = pr_strategy_id req,
        pa_market_id = pr_market_id req, pa_exchange = pr_exchange req, pa_starts_at = t0, pa_ends_at = t1,
        pa_realized_trading_pnl = fst (pnl_components es c req),
        pa_unrealized_pnl_change = fst (snd (pnl_components es c req)),
        pa_fees = fst (snd (snd (pnl_components es c req))),
        pa_rebates = fst (snd (snd (snd (pnl_components es c req)))),
        pa_slippage = fst (snd (snd (snd (snd (pnl_components es c req))))),
        pa_settlement_pnl = snd (snd (snd (snd (snd (pnl_components es c req))))),
        pa_total_pnl = (case pnl_components es c req of (r, u, f, b, s, t) \<Rightarrow>
          \<lparr>amount = component_sum r u f b s t, currency = c\<rparr>),
        pa_calculation_version = JOURNAL_PNL_ATTRIBUTION_VERSION\<rparr>"
  have "mk_pnl_attribution a = Inr a"
    using ok i' one_currency [OF money] t unfolding mk_pnl_attribution_def validate_pnl_attribution_def a_def
    by (simp add: pnl_components_def pnl_accepts_def Let_def JOURNAL_PNL_ATTRIBUTION_VERSION_def)
      (simp add: text_in_def)
  moreover have "build_journal_pnl_attribution H es c t0 t1 req = mk_pnl_attribution a"
    unfolding build_journal_pnl_attribution_def Let_def
    using ok cur by (simp add: ids period pick a_def pnl_components_def pnl_accepts_def
        validate_nonnegative_def validate_optional_money_def)
  ultimately show ?thesis
    by (intro that [of a]) (simp_all add: components_of_def a_def pnl_components_def)
qed

lemma pnl_built_accepts:
  assumes "build_journal_pnl_attribution H es c t0 t1 req = Inr a"
  shows "pnl_accepts es c t0 t1 req"
proof -
  from assms have cur: "valid_currency c" and "validate_unique_journal_entry_ids {} es = Inr ()"
    and "validate_journal_period es t0 t1 = Inr ()"
    unfolding build_journal_pnl_attribution_def validate_currency_bind by (auto simp: bindE_eq_Inr)
  then have basic: "distinct (map je_journal_entry_id es)" "t0 < t1"
    "\<forall>e \<in> set es. t0 \<le> je_occurred_at e \<and> je_occurred_at e < t1"
    by (simp_all add: unique_ids_iff journal_period_iff)
  from assms obtain i where i: "(case pr_attribution_id req of
         Some i \<Rightarrow> if i \<noteq> [] then Inr i
           else derive_journal_pnl_attribution_id H es c t0 t1
             (pr_strategy_id req) (pr_market_id req) (pr_exchange req)
       | None \<Rightarrow> derive_journal_pnl_attribution_id H es c t0 t1
             (pr_strategy_id req) (pr_market_id req) (pr_exchange req)) = Inr i"
    and len: "text_in 1 128 i" "pred_option (text_in 1 64) (pr_exchange req)"
    and money: "0 \<le> sum_account es ACCOUNT_FEES_PAID c" "sum_account es ACCOUNT_REBATES_RECEIVED c \<le> 0"
      "pred_option (\<lambda>m. currency m = c) (pr_unrealized_pnl_change req)"
      "pred_option (\<lambda>m. currency m = c) (pr_slippage req)" "pred_option (\<lambda>m. currency m = c) (pr_settlement_pnl req)"
    unfolding build_journal_pnl_attribution_def validate_currency_bind Let_def mk_pnl_attribution_def
    by (auto simp: bindE_eq_Inr guards_ok_iff validate_nonnegative_def validate_optional_money_def
        simp del: guards.simps)
  have "pred_option (\<lambda>i. length i \<le> 128) (pr_attribution_id req)"
    using i len(1) by (auto simp: text_in_def split: option.splits if_splits)
  then show ?thesis using cur basic len money by (simp add: pnl_accepts_def)
qed

section \<open>Profit is the growth of assets\<close>

definition pnl_accounts :: "string list" where
  "pnl_accounts = [ACCOUNT_REALIZED_TRADING_PNL, ACCOUNT_FEES_PAID, ACCOUNT_REBATES_RECEIVED, ACCOUNT_SETTLEMENT_PNL]"

definition lines_of :: "string \<Rightarrow> journal_entry list \<Rightarrow> journal_line list" where
  "lines_of c es = filter (\<lambda>l. jl_currency l = c) (concat (map je_lines es))"

definition account_total :: "string \<Rightarrow> journal_line list \<Rightarrow> rat" where
  "account_total code ls = sum_list (map jl_amount (filter (\<lambda>l. jl_account_code l = code) ls))"

lemma sum_account_lines:
  "sum_account es code c = dsum (map jl_amount (filter (\<lambda>l. jl_account_code l = code) (lines_of c es)))"
proof -
  have "concat (map (cash_lines code c) es) = map jl_amount (filter (\<lambda>l. jl_account_code l = code) (lines_of c es))"
    by (induction es) (auto simp: cash_lines_def lines_of_def intro!: arg_cong [of _ _ "map jl_amount"] filter_cong)
  then show ?thesis by (simp add: sum_account_def)
qed

lemma sum_account_exact:
  assumes g: "\<And>l. l \<in> set (lines_of c es) \<Longrightarrow> on_grid s n (jl_amount l)"
    and bound: "length (lines_of c es) * n \<le> 10 ^ 28"
  shows "sum_account es code c = account_total code (lines_of c es)"
    and "on_grid s (length (lines_of c es) * n) (account_total code (lines_of c es))"
proof -
  let ?ls = "filter (\<lambda>l. jl_account_code l = code) (lines_of c es)"
  have "length ?ls * n \<le> length (lines_of c es) * n" by (rule mult_le_mono1) (rule length_filter_le)
  then have b: "length (map jl_amount ?ls) * n \<le> 10 ^ 28" and le: "length (map jl_amount ?ls) * n \<le> length (lines_of c es) * n"
    using bound by (simp_all only: length_map)
  show "sum_account es code c = account_total code (lines_of c es)"
    unfolding sum_account_lines account_total_def by (rule dsum_exact [OF _ b]) (use g in auto)
  show "on_grid s (length (lines_of c es) * n) (account_total code (lines_of c es))"
    unfolding account_total_def by (rule on_grid_mono [OF sum_on_grid le]) (use g in auto)
qed

lemma sum_by_account:
  "sum_list (map jl_amount ls) = account_total ACCOUNT_REALIZED_TRADING_PNL ls + account_total ACCOUNT_FEES_PAID ls +
     account_total ACCOUNT_REBATES_RECEIVED ls + account_total ACCOUNT_SETTLEMENT_PNL ls +
     sum_list (map jl_amount (filter (\<lambda>l. jl_account_code l \<notin> set pnl_accounts) ls))"
  by (induction ls) (auto simp: account_total_def pnl_accounts_def account_codes)

lemma balanced_entries_sum:
  assumes "\<And>e. e \<in> set es \<Longrightarrow> balanced (je_lines e)"
    and "\<And>l. l \<in> set (lines_of c es) \<Longrightarrow> on_grid s n (jl_amount l)"
    and "length (lines_of c es) * n \<le> 10 ^ 28"
  shows "sum_list (map jl_amount (lines_of c es)) = 0"
  using assms
proof (induction es)
  case Nil
  then show ?case by (simp add: lines_of_def)
next
  case (Cons e es)
  let ?ls = "filter (\<lambda>l. jl_currency l = c) (je_lines e)"
  have split: "lines_of c (e # es) = ?ls @ lines_of c es" by (simp add: lines_of_def)
  have b: "length (map jl_amount ?ls) * n \<le> 10 ^ 28" "length (lines_of c es) * n \<le> 10 ^ 28"
    using Cons.prems(3) by (simp_all add: split distrib_right)
  have "dsum (map jl_amount ?ls) = sum_list (map jl_amount ?ls)"
    by (rule dsum_exact [OF _ b(1)]) (use Cons.prems(2) split in auto)
  moreover have "?ls = [] \<or> dsum (map jl_amount ?ls) = 0"
  proof (cases "?ls = []")
    case False
    then obtain l where l: "l \<in> set ?ls" by (meson list.set_sel(1))
    then have "c \<in> jl_currency ` set (je_lines e)" by auto
    moreover have "balanced (je_lines e)" using Cons.prems(1) by simp
    ultimately show ?thesis unfolding balanced_def currency_total_def by blast
  qed simp
  ultimately have "sum_list (map jl_amount ?ls) = 0" by auto
  moreover have "sum_list (map jl_amount (lines_of c es)) = 0"
    by (rule Cons.IH) (use Cons.prems b(2) split in auto)
  ultimately show ?case by (simp add: split)
qed

section \<open>Properties\<close>

text \<open>
  When an attribution is built, and of what. \<open>build_journal_pnl_attribution\<close> succeeds exactly
  when the currency is valid, the entry identifiers are distinct, the entries fall in the half-open
  period, fees and rebates are not negative, the given amounts have the currency and the texts fit;
  its components are then the account totals with their signs, and the total it states is the sum
  the constructor recomputes.
\<close>

theorem pnl_attribution_built_iff:
  "(\<exists>a. build_journal_pnl_attribution H es c t0 t1 req = Inr a \<and> components_of a = pnl_components es c req \<and>
      amount (pa_total_pnl a) = (case pnl_components es c req of (r, u, f, b, s, t) \<Rightarrow> component_sum r u f b s t))
   \<longleftrightarrow> pnl_accepts es c t0 t1 req"
proof
  assume "pnl_accepts es c t0 t1 req"
  then obtain a where "build_journal_pnl_attribution H es c t0 t1 req = Inr a"
    "components_of a = pnl_components es c req"
    "pa_total_pnl a = (case pnl_components es c req of (r, u, f, b, s, t) \<Rightarrow>
      \<lparr>amount = component_sum r u f b s t, currency = c\<rparr>)"
    by (rule pnl_built)
  then show "\<exists>a. build_journal_pnl_attribution H es c t0 t1 req = Inr a \<and> components_of a = pnl_components es c req \<and>
      amount (pa_total_pnl a) = (case pnl_components es c req of (r, u, f, b, s, t) \<Rightarrow> component_sum r u f b s t)"
    by (intro exI [of _ a]) (simp split: prod.splits)
qed (use pnl_built_accepts in blast)

text \<open>
  C33: profit is the growth of assets. For balanced entries in fixed point and no outside amounts, the
  total PnL of the attribution is exactly the sum of all journal lines of its currency that are not on
  a PnL, fee or rebate account: what cash and position cost gained over the period.
\<close>

theorem pnl_is_asset_growth:
  assumes "build_journal_pnl_attribution H es c t0 t1 req = Inr a"
    and "pr_unrealized_pnl_change req = None" and "pr_slippage req = None" and "pr_settlement_pnl req = None"
    and "\<And>e. e \<in> set es \<Longrightarrow> balanced (je_lines e)"
    and "\<And>l. l \<in> set (lines_of c es) \<Longrightarrow> on_grid s n (jl_amount l)"
    and "4 * (length (lines_of c es) * n) \<le> 10 ^ 28"
  shows "amount (pa_total_pnl a) =
    sum_list (map jl_amount (filter (\<lambda>l. jl_account_code l \<notin> set pnl_accounts) (lines_of c es)))"
proof -
  let ?ls = "lines_of c es" and ?N = "length (lines_of c es) * n"
  have b: "?N \<le> 10 ^ 28" "?N + ?N \<le> 10 ^ 28" "?N + ?N + ?N \<le> 10 ^ 28" "?N + ?N + ?N + ?N \<le> 10 ^ 28"
    using assms(7) by linarith+
  note ex = sum_account_exact [OF assms(6) b(1)]
  define R F B S where "R = account_total ACCOUNT_REALIZED_TRADING_PNL ?ls"
    and "F = account_total ACCOUNT_FEES_PAID ?ls" and "B = account_total ACCOUNT_REBATES_RECEIVED ?ls"
    and "S = account_total ACCOUNT_SETTLEMENT_PNL ?ls"
  have g: "on_grid s ?N R" "on_grid s ?N F" "on_grid s ?N B" "on_grid s ?N S"
    unfolding R_def F_def B_def S_def using ex(2) by blast+
  have g2: "on_grid s (?N + ?N) (- R - F)" and g3: "on_grid s (?N + ?N + ?N) (- R - F - B)"
    and g4: "on_grid s (?N + ?N + ?N + ?N) (- R - F - B - S)"
    using g by (auto intro!: on_grid_diff)
  have fits: "dec_fits 28 R" "dec_fits 28 B" "dec_fits 28 S" "dec_fits 28 (- R - F)" "dec_fits 28 (- R - F - B)"
    "dec_fits 28 (- R - F - B - S)"
    using on_grid_fits [OF g(1) b(1)] on_grid_fits [OF g(3) b(1)] on_grid_fits [OF g(4) b(1)]
      on_grid_fits [OF g2 b(2)] on_grid_fits [OF g3 b(3)] on_grid_fits [OF g4 b(4)] .
  obtain a' where "build_journal_pnl_attribution H es c t0 t1 req = Inr a'"
    and "pa_total_pnl a' = (case pnl_components es c req of (r, u, f, b, s, t) \<Rightarrow>
      \<lparr>amount = component_sum r u f b s t, currency = c\<rparr>)"
    by (rule pnl_built [OF pnl_built_accepts [OF assms(1)], of H])
  with assms(1-4) have "amount (pa_total_pnl a) = dadd (dadd (dadd (dsub (dadd (- R) 0) F) (- B)) 0)
      (optional_amount (combine_optional_money \<lparr>amount = - S, currency = c\<rparr> None))"
    using fits(1-3)
    by (simp add: pnl_components_def component_sum_def optional_amount_def ex(1) R_def [symmetric] F_def [symmetric]
        B_def [symmetric] S_def [symmetric] dneg_exact)
  also have "\<dots> = - R - F - B - S"
    using fits by (simp add: combine_optional_money_def optional_amount_def dadd_def dsub_def d28.rnd_exact)
  also have "\<dots> = sum_list (map jl_amount (filter (\<lambda>l. jl_account_code l \<notin> set pnl_accounts) ?ls))"
    using sum_by_account [of ?ls] balanced_entries_sum [OF assms(5,6) b(1)]
    unfolding R_def F_def B_def S_def by simp
  finally show ?thesis .
qed

definition sample_request :: pnl_request where
  "sample_request = \<lparr>pr_attribution_id = None, pr_strategy_id = None, pr_market_id = None, pr_exchange = None,
     pr_unrealized_pnl_change = None, pr_slippage = None, pr_settlement_pnl = None\<rparr>"

theorem pnl_is_asset_growth_witness:
  "\<exists>a. build_journal_pnl_attribution sample_hasher [sample_entry ''j1'' 2 20, sample_entry ''j2'' 3 30] ''USD'' 10 40
      sample_request = Inr a \<and> amount (pa_total_pnl a) = -5"
proof -
  let ?es = "[sample_entry ''j1'' 2 20, sample_entry ''j2'' 3 30]"
  have lines: "lines_of ''USD'' ?es = [journal_line_of ACCOUNT_CASH (-2) ''USD'' ''Cash.'',
      journal_line_of ACCOUNT_FEES_PAID 2 ''USD'' ''Fee.'', journal_line_of ACCOUNT_CASH (-3) ''USD'' ''Cash.'',
      journal_line_of ACCOUNT_FEES_PAID 3 ''USD'' ''Fee.'']"
    by (simp add: lines_of_def sample_entry_def)
  have fits: "dec_fits 28 2" "dec_fits 28 3"
    by (rule on_grid_fits [of 0 10]; simp add: on_grid_def)+
  have gr: "on_grid 0 10 2" "on_grid 0 10 3" by (simp_all add: on_grid_def)
  have bal: "balanced (je_lines e)" if "e \<in> set ?es" for e
    using that offset_balanced(2) [OF fits(1)] offset_balanced(2) [OF fits(2)] fits
    by (auto simp: sample_entry_def dneg_exact)
  have grid: "on_grid 0 10 (jl_amount l)" if "l \<in> set (lines_of ''USD'' ?es)" for l
    using that gr by (auto simp: lines)
  have sums: "sum_account ?es code ''USD'' = account_total code (lines_of ''USD'' ?es)" for code
  proof (rule sum_account_exact(1))
    show "length (lines_of ''USD'' ?es) * 10 \<le> 10 ^ 28" by (simp add: lines)
  qed (rule grid)
  have "pnl_accepts ?es ''USD'' 10 40 sample_request"
    by (simp add: pnl_accepts_def sums account_total_def lines account_codes sample_request_def)
  then obtain a where a: "build_journal_pnl_attribution sample_hasher ?es ''USD'' 10 40 sample_request = Inr a"
    by (rule pnl_built)
  have "amount (pa_total_pnl a) =
      sum_list (map jl_amount (filter (\<lambda>l. jl_account_code l \<notin> set pnl_accounts) (lines_of ''USD'' ?es)))"
  proof (rule pnl_is_asset_growth [OF a _ _ _ bal grid])
    show "4 * (length (lines_of ''USD'' ?es) * 10) \<le> 10 ^ 28" by (simp add: lines)
  qed (simp_all add: sample_request_def)
  with a show ?thesis by (auto simp: lines pnl_accounts_def account_codes)
qed

end
