(* ===== verification/Reconciliation.thy ===== *)
theory Reconciliation
  imports Projections
begin

text \<open>
  \<open>src/pmrp/portfolio/reconciliation.py\<close>: comparing the local portfolio with the one the exchange
  reports, and the trading gate that the comparison releases. The lemmas show that the gate is released
  exactly when the two agree on every compared field, that a mismatch names exactly the difference,
  and the same for sets of record identifiers.

  The text of a decimal (\<^verbatim>\<open>str(value)\<close>) is the parameter \<open>dec_str\<close>; it only enters the text of a
  mismatch.
\<close>

section \<open>Results\<close>

datatype reconciliation_status = HEALTHY | MISMATCH | UNKNOWN | FAILED

record reconciliation_mismatch =
  rm_mismatch_id :: string
  rm_category :: string
  rm_local_value :: "string option"
  rm_external_value :: "string option"
  rm_severity :: string
  rm_explanation :: "string option"
  rm_requires_manual_review :: bool

definition mk_reconciliation_mismatch :: "reconciliation_mismatch \<Rightarrow> reconciliation_mismatch result" where
  "mk_reconciliation_mismatch m =
     bindE (guards
       [(\<not> text_in 1 128 (rm_mismatch_id m), ValidationError (Out_of_range F_text)),
        (\<not> text_in 1 64 (rm_category m), ValidationError (Out_of_range F_text)),
        (\<not> pred_option (text_in 1 512) (rm_local_value m), ValidationError (Out_of_range F_text)),
        (\<not> pred_option (text_in 1 512) (rm_external_value m), ValidationError (Out_of_range F_text)),
        (\<not> text_in 1 64 (rm_severity m), ValidationError (Out_of_range F_text)),
        (\<not> pred_option (text_in 1 1024) (rm_explanation m), ValidationError (Out_of_range F_text))])
       (\<lambda>_. Inr m)"

record reconciliation_result =
  rr_reconciliation_id :: string
  rr_exchange :: string
  rr_account_id :: ident
  rr_started_at :: instant
  rr_completed_at :: instant
  rr_status :: reconciliation_status
  rr_mismatches :: "reconciliation_mismatch list"
  rr_open_orders_checked :: int
  rr_positions_checked :: int
  rr_balances_checked :: int
  rr_fills_checked :: int
  rr_trading_gate_released :: bool

definition mk_reconciliation_result :: "reconciliation_result \<Rightarrow> reconciliation_result result" where
  "mk_reconciliation_result r =
     bindE (guards
       [(\<not> text_in 1 128 (rr_reconciliation_id r), ValidationError (Out_of_range F_text)),
        (\<not> text_in 1 64 (rr_exchange r), ValidationError (Out_of_range F_exchange)),
        (rr_open_orders_checked r < 0 \<or> rr_positions_checked r < 0 \<or> rr_balances_checked r < 0 \<or>
           rr_fills_checked r < 0, ValidationError (Out_of_range F_quantity)),
        (rr_completed_at r \<le> rr_started_at r, ValidationError Period_invalid),
        (rr_status r = HEALTHY \<and> rr_mismatches r \<noteq> [], ValidationError Healthy_with_mismatches),
        (rr_status r = MISMATCH \<and> rr_mismatches r = [], ValidationError Mismatch_without_mismatches),
        (rr_status r \<noteq> HEALTHY \<and> rr_trading_gate_released r, ValidationError Gate_released_unhealthy)])
       (\<lambda>_. Inr r)"

definition RECONCILIATION_SEVERITY_MISMATCH :: string where
  "RECONCILIATION_SEVERITY_MISMATCH = ''mismatch''"

definition RECONCILIATION_SEVERITY_UNKNOWN :: string where
  "RECONCILIATION_SEVERITY_UNKNOWN = ''unknown''"

definition PRESENT :: string where "PRESENT = ''present''"

definition status_for_mismatches :: "reconciliation_mismatch list \<Rightarrow> reconciliation_status" where
  "status_for_mismatches ms =
     (if ms = [] then HEALTHY
      else if list_ex (\<lambda>m. rm_severity m = RECONCILIATION_SEVERITY_UNKNOWN) ms then UNKNOWN
      else MISMATCH)"

definition build_reconciliation_result ::
  "string \<Rightarrow> string \<Rightarrow> ident \<Rightarrow> instant \<Rightarrow> instant \<Rightarrow> reconciliation_mismatch list \<Rightarrow> int \<Rightarrow> int \<Rightarrow> int \<Rightarrow> int \<Rightarrow>
   reconciliation_result result" where
  "build_reconciliation_result reconciliation_id exchange account_id started_at completed_at ms
     open_orders_checked positions_checked balances_checked fills_checked =
     (let status = status_for_mismatches ms in
      mk_reconciliation_result
        \<lparr>rr_reconciliation_id = reconciliation_id, rr_exchange = exchange, rr_account_id = account_id,
         rr_started_at = started_at, rr_completed_at = completed_at, rr_status = status,
         rr_mismatches = ms, rr_open_orders_checked = open_orders_checked,
         rr_positions_checked = positions_checked, rr_balances_checked = balances_checked,
         rr_fills_checked = fills_checked, rr_trading_gate_released = (status = HEALTHY)\<rparr>)"

section \<open>Mismatches\<close>

text \<open>The compared values: text, decimals, money, or nothing.\<close>

datatype recon_value = Absent | Text_value string | Dec_value rat | Money_value money

fun format_value :: "(rat \<Rightarrow> string) \<Rightarrow> recon_value \<Rightarrow> string option" where
  "format_value dec_str Absent = None"
| "format_value dec_str (Text_value s) = Some s"
| "format_value dec_str (Dec_value d) = Some (dec_str d)"
| "format_value dec_str (Money_value m) = Some (dec_str (amount m) @ '' '' @ currency m)"

definition derive_reconciliation_mismatch_id ::
  "hasher \<Rightarrow> string \<Rightarrow> string \<Rightarrow> string \<Rightarrow> string option \<Rightarrow> string option \<Rightarrow> string" where
  "derive_reconciliation_mismatch_id H reconciliation_id category identity local external =
     ''recon_mismatch_'' @ short_digest H (CMap
       [(''category'', CStr category), (''external_value'', canon_of_opt external),
        (''identity'', CStr identity), (''local_value'', canon_of_opt local),
        (''reconciliation_id'', CStr reconciliation_id),
        (''schema'', CStr ''pmrp.reconciliation_mismatch.v1'')])"

definition build_reconciliation_mismatch ::
  "hasher \<Rightarrow> (rat \<Rightarrow> string) \<Rightarrow> string \<Rightarrow> string \<Rightarrow> string \<Rightarrow> recon_value \<Rightarrow> recon_value \<Rightarrow> string \<Rightarrow>
   string option \<Rightarrow> bool \<Rightarrow> reconciliation_mismatch result" where
  "build_reconciliation_mismatch H dec_str reconciliation_id category identity local external severity
     explanation requires_manual_review =
     (let l = format_value dec_str local; x = format_value dec_str external in
      mk_reconciliation_mismatch
        \<lparr>rm_mismatch_id = derive_reconciliation_mismatch_id H reconciliation_id category identity l x,
         rm_category = category, rm_local_value = l, rm_external_value = x, rm_severity = severity,
         rm_explanation = explanation, rm_requires_manual_review = requires_manual_review\<rparr>)"

section \<open>Comparing snapshots\<close>

text \<open>A comparison that found a difference: category, identity, values, explanation.\<close>

type_synonym difference = "string \<times> string \<times> recon_value \<times> recon_value \<times> string option"

fun mismatch_of :: "hasher \<Rightarrow> (rat \<Rightarrow> string) \<Rightarrow> string \<Rightarrow> difference \<Rightarrow> reconciliation_mismatch result" where
  "mismatch_of H dec_str reconciliation_id (category, identity, l, x, explanation) =
     build_reconciliation_mismatch H dec_str reconciliation_id category identity l x
       RECONCILIATION_SEVERITY_MISMATCH explanation True"

definition opt_dec :: "rat option \<Rightarrow> recon_value" where
  "opt_dec d = (case d of None \<Rightarrow> Absent | Some d \<Rightarrow> Dec_value d)"

definition field_differences ::
  "string \<Rightarrow> (string \<times> recon_value \<times> recon_value) list \<Rightarrow> difference list" where
  "field_differences identity comparisons =
     map (\<lambda>(category, l, x). (category, identity, l, x, None)) (filter (\<lambda>(category, l, x). l \<noteq> x) comparisons)"

definition compare_position_fields :: "string \<Rightarrow> position \<Rightarrow> position \<Rightarrow> difference list" where
  "compare_position_fields position_id l x = field_differences position_id
     [(''position.exchange'', Text_value (ps_exchange l), Text_value (ps_exchange x)),
      (''position.account_id'', Text_value (ps_account_id l), Text_value (ps_account_id x)),
      (''position.market_id'', Text_value (ps_market_id l), Text_value (ps_market_id x)),
      (''position.contract_id'', Text_value (ps_contract_id l), Text_value (ps_contract_id x)),
      (''position.outcome_id'', Text_value (ps_outcome_id l), Text_value (ps_outcome_id x)),
      (''position.quantity'', Dec_value (ps_quantity l), Dec_value (ps_quantity x)),
      (''position.average_entry_price'', opt_dec (ps_average_entry_price l), opt_dec (ps_average_entry_price x)),
      (''position.realized_pnl'', Money_value (ps_realized_pnl l), Money_value (ps_realized_pnl x)),
      (''position.unrealized_pnl'', Money_value (ps_unrealized_pnl l), Money_value (ps_unrealized_pnl x)),
      (''position.fees_paid'', Money_value (ps_fees_paid l), Money_value (ps_fees_paid x)),
      (''position.rebates_received'', Money_value (ps_rebates_received l), Money_value (ps_rebates_received x))]"

definition compare_balance_fields :: "string \<Rightarrow> cash_balance \<Rightarrow> cash_balance \<Rightarrow> difference list" where
  "compare_balance_fields balance_id l x = field_differences balance_id
     [(''balance.exchange'', Text_value (cb_exchange l), Text_value (cb_exchange x)),
      (''balance.account_id'', Text_value (cb_account_id l), Text_value (cb_account_id x)),
      (''balance.currency'', Text_value (cb_currency l), Text_value (cb_currency x)),
      (''balance.available'', Dec_value (cb_available l), Dec_value (cb_available x)),
      (''balance.reserved'', Dec_value (cb_reserved l), Dec_value (cb_reserved x)),
      (''balance.total'', Dec_value (cb_total l), Dec_value (cb_total x))]"

text \<open>
  The two loops over the union of the identifiers differ only in the fields they compare and the
  text of the explanations; \<open>by_id\<close> is the dictionary comprehension.
\<close>

definition by_id :: "('a \<Rightarrow> string) \<Rightarrow> 'a list \<Rightarrow> (string \<times> 'a) list" where
  "by_id key xs = foldl (\<lambda>d x. dict_set (key x) x d) [] xs"

definition all_ids :: "('a \<Rightarrow> string) \<Rightarrow> 'a list \<Rightarrow> 'a list \<Rightarrow> string list" where
  "all_ids key ls xs = sort (remdups (map fst (by_id key ls) @ map fst (by_id key xs)))"

definition compare_records ::
  "string \<Rightarrow> ('a \<Rightarrow> string) \<Rightarrow> (string \<Rightarrow> 'a \<Rightarrow> 'a \<Rightarrow> difference list) \<Rightarrow> 'a list \<Rightarrow> 'a list \<Rightarrow> difference list" where
  "compare_records kind key compare_fields ls xs =
     concat (map (\<lambda>i.
       case (map_of (by_id key ls) i, map_of (by_id key xs) i) of
         (None, _) \<Rightarrow> [(kind @ ''.missing_local'', i, Absent, Text_value PRESENT,
                       Some (''External '' @ kind @ '' is missing from local projection.''))]
       | (Some l, None) \<Rightarrow> [(kind @ ''.missing_external'', i, Text_value PRESENT, Absent,
                       Some (''Local '' @ kind @ '' is missing from external snapshot.''))]
       | (Some l, Some x) \<Rightarrow> compare_fields i l x) (all_ids key ls xs))"

definition compare_positions :: "position list \<Rightarrow> position list \<Rightarrow> difference list" where
  "compare_positions = compare_records ''position'' ps_position_id compare_position_fields"

definition compare_balances :: "cash_balance list \<Rightarrow> cash_balance list \<Rightarrow> difference list" where
  "compare_balances = compare_records ''balance'' cb_balance_id compare_balance_fields"

definition scope_raise :: "field \<Rightarrow> py_error" where
  "scope_raise fld = PortfolioProjectionError (Reconciliation (Scope_mismatch fld))"

definition validate_snapshot_scope :: "portfolio_snapshot \<Rightarrow> string \<Rightarrow> ident \<Rightarrow> (bool \<times> py_error) list" where
  "validate_snapshot_scope s exchange account_id =
     concat (map (\<lambda>p. [(ps_exchange p \<noteq> exchange, scope_raise F_exchange),
       (ps_account_id p \<noteq> account_id, scope_raise F_account_id)]) (sn_positions s)) @
     concat (map (\<lambda>b. [(cb_exchange b \<noteq> exchange, scope_raise F_exchange),
       (cb_account_id b \<noteq> account_id, scope_raise F_account_id)]) (sn_balances s))"

definition reconcile_portfolio_snapshots ::
  "hasher \<Rightarrow> (rat \<Rightarrow> string) \<Rightarrow> string \<Rightarrow> string \<Rightarrow> ident \<Rightarrow> portfolio_snapshot \<Rightarrow> portfolio_snapshot \<Rightarrow> instant \<Rightarrow>
   instant \<Rightarrow> reconciliation_result result" where
  "reconcile_portfolio_snapshots H dec_str reconciliation_id exchange account_id l x started_at completed_at =
     bindE (guards (validate_snapshot_scope l exchange account_id)) (\<lambda>_.
     bindE (guards (validate_snapshot_scope x exchange account_id)) (\<lambda>_.
     bindE (mapE (mismatch_of H dec_str reconciliation_id)
              (compare_positions (sn_positions l) (sn_positions x))) (\<lambda>position_mismatches.
     bindE (mapE (mismatch_of H dec_str reconciliation_id)
              (compare_balances (sn_balances l) (sn_balances x))) (\<lambda>balance_mismatches.
     build_reconciliation_result reconciliation_id exchange account_id started_at completed_at
       (position_mismatches @ balance_mismatches) 0
       (int (card (ps_position_id ` set (sn_positions l) \<union> ps_position_id ` set (sn_positions x))))
       (int (card (cb_balance_id ` set (sn_balances l) \<union> cb_balance_id ` set (sn_balances x)))) 0))))"

section \<open>Sets of record identifiers\<close>

text \<open>\<^verbatim>\<open>str.isalnum\<close> on the code points below 256.\<close>

definition py_isalnum :: "char \<Rightarrow> bool" where
  "py_isalnum c \<longleftrightarrow> (let n = of_char c :: nat in
     (48 \<le> n \<and> n \<le> 57) \<or> (65 \<le> n \<and> n \<le> 90) \<or> (97 \<le> n \<and> n \<le> 122) \<or>
     n \<in> {170, 178, 179, 181, 185, 186, 188, 189, 190} \<or> (192 \<le> n \<and> n \<noteq> 215 \<and> n \<noteq> 247))"

definition recon_raise :: "reconciliation_error \<Rightarrow> py_error" where
  "recon_raise e = PortfolioProjectionError (Reconciliation e)"

definition validate_record_kind :: "string \<Rightarrow> string result" where
  "validate_record_kind kind =
     (let letters = filter (\<lambda>c. c \<noteq> CHR ''_'') kind in
      bindE (guards
        [(blank_or_padded kind, recon_raise Record_kind_padded),
         (letters = [] \<or> \<not> list_all py_isalnum letters, recon_raise Record_kind_not_alphanumeric)])
        (\<lambda>_. Inr kind))"

definition validate_record_ids :: "string list \<Rightarrow> field \<Rightarrow> string set result" where
  "validate_record_ids ids label =
     bindE (guards (map (\<lambda>i. (blank_or_padded i, recon_raise (Record_id_invalid label))) ids))
       (\<lambda>_. Inr (set ids))"

record record_set_reconciliation =
  rs_mismatches :: "reconciliation_mismatch list"
  rs_records_checked :: nat

definition reconcile_record_id_sets ::
  "hasher \<Rightarrow> (rat \<Rightarrow> string) \<Rightarrow> string \<Rightarrow> string \<Rightarrow> string list \<Rightarrow> string list \<Rightarrow> record_set_reconciliation result" where
  "reconcile_record_id_sets H dec_str reconciliation_id record_kind local_ids external_ids =
     bindE (validate_record_kind record_kind) (\<lambda>kind.
     bindE (validate_record_ids local_ids F_local_ids) (\<lambda>ls.
     bindE (validate_record_ids external_ids F_external_ids) (\<lambda>xs.
     bindE (mapE (\<lambda>i. mismatch_of H dec_str reconciliation_id
         (kind @ ''.missing_external'', i, Text_value PRESENT, Absent,
          Some (''Local '' @ kind @ '' record is missing from external snapshot.'')))
         (sorted_list_of_set (ls - xs))) (\<lambda>missing_external.
     bindE (mapE (\<lambda>i. mismatch_of H dec_str reconciliation_id
         (kind @ ''.missing_local'', i, Absent, Text_value PRESENT,
          Some (''External '' @ kind @ '' record is missing from local projection.'')))
         (sorted_list_of_set (xs - ls))) (\<lambda>missing_local.
     Inr \<lparr>rs_mismatches = missing_external @ missing_local, rs_records_checked = card (ls \<union> xs)\<rparr>)))))"

definition reconcile_open_order_ids ::
  "hasher \<Rightarrow> (rat \<Rightarrow> string) \<Rightarrow> string \<Rightarrow> string list \<Rightarrow> string list \<Rightarrow> record_set_reconciliation result" where
  "reconcile_open_order_ids H dec_str reconciliation_id =
     reconcile_record_id_sets H dec_str reconciliation_id ''open_order''"

definition reconcile_fill_ids ::
  "hasher \<Rightarrow> (rat \<Rightarrow> string) \<Rightarrow> string \<Rightarrow> string list \<Rightarrow> string list \<Rightarrow> record_set_reconciliation result" where
  "reconcile_fill_ids H dec_str reconciliation_id = reconcile_record_id_sets H dec_str reconciliation_id ''fill''"

definition reconcile_settlement_ids ::
  "hasher \<Rightarrow> (rat \<Rightarrow> string) \<Rightarrow> string \<Rightarrow> string list \<Rightarrow> string list \<Rightarrow> record_set_reconciliation result" where
  "reconcile_settlement_ids H dec_str reconciliation_id =
     reconcile_record_id_sets H dec_str reconciliation_id ''settlement''"

section \<open>What the comparison finds\<close>

lemma by_id_keys: "fst ` set (by_id key xs) = key ` set xs"
proof -
  have "fst ` set (foldl (\<lambda>d x. dict_set (key x) x d) d xs) = fst ` set d \<union> key ` set xs" for d
    by (induction xs arbitrary: d) auto
  then show ?thesis by (simp add: by_id_def)
qed

lemma by_id_lookup:
  assumes "distinct (map key xs)"
  shows "map_of (by_id key xs) i = Some x \<longleftrightarrow> x \<in> set xs \<and> key x = i"
proof -
  have "distinct (map key xs) \<Longrightarrow> map_of (foldl (\<lambda>d x. dict_set (key x) x d) d xs) i = Some x \<longleftrightarrow>
      x \<in> set xs \<and> key x = i \<or> i \<notin> key ` set xs \<and> map_of d i = Some x" for d
    by (induction xs arbitrary: d) (auto simp: map_of_dict_set rev_image_eqI)
  from this [of "[]"] assms show ?thesis by (simp add: by_id_def)
qed

lemma by_id_none: "map_of (by_id key xs) i = None \<longleftrightarrow> i \<notin> key ` set xs"
  by (simp add: map_of_eq_None_iff by_id_keys)

definition records_agree :: "('a \<Rightarrow> string) \<Rightarrow> ('a \<Rightarrow> 'a \<Rightarrow> bool) \<Rightarrow> 'a list \<Rightarrow> 'a list \<Rightarrow> bool" where
  "records_agree key same ls xs \<longleftrightarrow>
     key ` set ls = key ` set xs \<and> (\<forall>l \<in> set ls. \<forall>x \<in> set xs. key l = key x \<longrightarrow> same l x)"

lemma compare_records_empty_iff:
  assumes "distinct (map key ls)" "distinct (map key xs)"
    and same: "\<And>i l x. key l = i \<Longrightarrow> key x = i \<Longrightarrow> compare_fields i l x = [] \<longleftrightarrow> same l x"
  shows "compare_records kind key compare_fields ls xs = [] \<longleftrightarrow> records_agree key same ls xs"
proof -
  let ?entry = "\<lambda>i. case (map_of (by_id key ls) i, map_of (by_id key xs) i) of
         (None, _) \<Rightarrow> [(kind @ ''.missing_local'', i, Absent, Text_value PRESENT,
                       Some (''External '' @ kind @ '' is missing from local projection.''))]
       | (Some l, None) \<Rightarrow> [(kind @ ''.missing_external'', i, Text_value PRESENT, Absent,
                       Some (''Local '' @ kind @ '' is missing from external snapshot.''))]
       | (Some l, Some x) \<Rightarrow> compare_fields i l x"
  note lookup = by_id_lookup [OF assms(1)] by_id_lookup [OF assms(2)]
  have entry: "?entry i = [] \<longleftrightarrow> (\<exists>l x. map_of (by_id key ls) i = Some l \<and> map_of (by_id key xs) i = Some x \<and>
      compare_fields i l x = [])" for i
    by (auto split: option.splits)
  have "compare_records kind key compare_fields ls xs = [] \<longleftrightarrow> (\<forall>i \<in> key ` set ls \<union> key ` set xs. ?entry i = [])"
    by (simp add: compare_records_def all_ids_def by_id_keys)
  also have "\<dots> \<longleftrightarrow> (\<forall>i \<in> key ` set ls \<union> key ` set xs. \<exists>l x. l \<in> set ls \<and> key l = i \<and> x \<in> set xs \<and> key x = i \<and>
      compare_fields i l x = [])"
    unfolding entry lookup by blast
  also have "\<dots> \<longleftrightarrow> records_agree key same ls xs"
  proof
    assume all: "\<forall>i \<in> key ` set ls \<union> key ` set xs. \<exists>l x. l \<in> set ls \<and> key l = i \<and> x \<in> set xs \<and> key x = i \<and>
        compare_fields i l x = []"
    have "same l x" if "l \<in> set ls" "x \<in> set xs" "key l = key x" for l x
    proof -
      from all that(1) obtain l' x' where "l' \<in> set ls" "key l' = key l" "x' \<in> set xs" "key x' = key l"
        "compare_fields (key l) l' x' = []" by blast
      moreover have "l' = l" "x' = x"
        using assms(1,2) that calculation by (auto simp: distinct_map inj_on_def)
      ultimately show ?thesis using same [of l "key l" x] by simp
    qed
    moreover have "i \<in> key ` set ls \<longleftrightarrow> i \<in> key ` set xs" for i
    proof
      assume "i \<in> key ` set ls"
      with all obtain x where "x \<in> set xs" "key x = i" by blast
      then show "i \<in> key ` set xs" by blast
    next
      assume "i \<in> key ` set xs"
      with all obtain l where "l \<in> set ls" "key l = i" by blast
      then show "i \<in> key ` set ls" by blast
    qed
    then have "key ` set ls = key ` set xs" by blast
    ultimately show "records_agree key same ls xs" by (simp add: records_agree_def)
  next
    assume agree: "records_agree key same ls xs"
    show "\<forall>i \<in> key ` set ls \<union> key ` set xs. \<exists>l x. l \<in> set ls \<and> key l = i \<and> x \<in> set xs \<and> key x = i \<and>
        compare_fields i l x = []"
    proof
      fix i
      assume "i \<in> key ` set ls \<union> key ` set xs"
      with agree have "i \<in> key ` set ls" "i \<in> key ` set xs" by (auto simp: records_agree_def)
      then obtain l x where lx: "l \<in> set ls" "key l = i" "x \<in> set xs" "key x = i" by (auto simp: image_iff)
      with agree have "same l x" by (simp add: records_agree_def)
      with lx same [of l i x] show "\<exists>l x. l \<in> set ls \<and> key l = i \<and> x \<in> set xs \<and> key x = i \<and>
          compare_fields i l x = []" by blast
    qed
  qed
  finally show ?thesis .
qed

text \<open>Two positions agree up to their opening time, horizon and version; two balances up to their time.\<close>

definition position_agrees :: "position \<Rightarrow> position \<Rightarrow> bool" where
  "position_agrees l x \<longleftrightarrow> l = x\<lparr>ps_opened_at := ps_opened_at l, ps_last_updated_at := ps_last_updated_at l,
     ps_aggregate_version := ps_aggregate_version l\<rparr>"

definition balance_agrees :: "cash_balance \<Rightarrow> cash_balance \<Rightarrow> bool" where
  "balance_agrees l x \<longleftrightarrow> l = x\<lparr>cb_captured_at := cb_captured_at l\<rparr>"

lemma field_differences_empty: "field_differences i cs = [] \<longleftrightarrow> list_all (\<lambda>(c, l, x). l = x) cs"
  by (auto simp: field_differences_def filter_empty_conv list_all_iff)

lemma opt_dec_inj [simp]: "opt_dec a = opt_dec b \<longleftrightarrow> a = b"
  by (auto simp: opt_dec_def split: option.splits)

lemma compare_position_fields_empty:
  "ps_position_id l = i \<Longrightarrow> ps_position_id x = i \<Longrightarrow> compare_position_fields i l x = [] \<longleftrightarrow> position_agrees l x"
  unfolding compare_position_fields_def field_differences_empty position_agrees_def
  by (cases l; cases x) auto

lemma compare_balance_fields_empty:
  "cb_balance_id l = i \<Longrightarrow> cb_balance_id x = i \<Longrightarrow> compare_balance_fields i l x = [] \<longleftrightarrow> balance_agrees l x"
  unfolding compare_balance_fields_def field_differences_empty balance_agrees_def
  by (cases l; cases x) auto

definition snapshots_agree :: "portfolio_snapshot \<Rightarrow> portfolio_snapshot \<Rightarrow> bool" where
  "snapshots_agree l x \<longleftrightarrow>
     records_agree ps_position_id position_agrees (sn_positions l) (sn_positions x) \<and>
     records_agree cb_balance_id balance_agrees (sn_balances l) (sn_balances x)"

section \<open>Properties\<close>

lemma mismatch_of_severity: "mismatch_of H dec_str rid d = Inr m \<Longrightarrow> rm_severity m = RECONCILIATION_SEVERITY_MISMATCH"
  by (cases d) (auto simp: build_reconciliation_mismatch_def mk_reconciliation_mismatch_def Let_def bindE_eq_Inr)

text \<open>
  C34: trading resumes only on agreement. A completed reconciliation of two snapshots, neither of which has an identifier
  twice, releases the trading gate exactly when they hold the same positions and balances, equal in every compared
  field, and its status is then \<open>HEALTHY\<close>; otherwise it carries one mismatch for every difference, at least one, each of
  severity \<open>mismatch\<close>, and its status is \<open>MISMATCH\<close>, never \<open>UNKNOWN\<close>.
\<close>

theorem gate_released_iff_snapshots_agree:
  assumes "reconcile_portfolio_snapshots H dec_str rid exchange account l x t0 t1 = Inr r"
    and "distinct (map ps_position_id (sn_positions l))" and "distinct (map ps_position_id (sn_positions x))"
    and "distinct (map cb_balance_id (sn_balances l))" and "distinct (map cb_balance_id (sn_balances x))"
  shows "(rr_trading_gate_released r \<longleftrightarrow> snapshots_agree l x) \<and>
    (rr_mismatches r = [] \<longleftrightarrow> snapshots_agree l x) \<and>
    rr_status r = (if snapshots_agree l x then HEALTHY else MISMATCH) \<and>
    (\<forall>m \<in> set (rr_mismatches r). rm_severity m = RECONCILIATION_SEVERITY_MISMATCH) \<and>
    length (rr_mismatches r) = length (compare_positions (sn_positions l) (sn_positions x)) +
      length (compare_balances (sn_balances l) (sn_balances x))"
proof -
  let ?P = "compare_positions (sn_positions l) (sn_positions x)"
  let ?B = "compare_balances (sn_balances l) (sn_balances x)"
  from assms(1) obtain ps bs where ps: "mapE (mismatch_of H dec_str rid) ?P = Inr ps"
    and bs: "mapE (mismatch_of H dec_str rid) ?B = Inr bs"
    and r: "rr_mismatches r = ps @ bs" "rr_status r = status_for_mismatches (ps @ bs)"
      "rr_trading_gate_released r = (status_for_mismatches (ps @ bs) = HEALTHY)"
    unfolding reconcile_portfolio_snapshots_def build_reconciliation_result_def mk_reconciliation_result_def
      Let_def bindE_eq_Inr by auto
  have len: "length ps = length ?P" "length bs = length ?B" using ps bs by (auto dest: mapE_length)
  have "?P = [] \<and> ?B = [] \<longleftrightarrow> snapshots_agree l x"
    unfolding compare_positions_def compare_balances_def snapshots_agree_def
    using compare_records_empty_iff [OF assms(2,3), of compare_position_fields position_agrees "''position''"]
      compare_records_empty_iff [OF assms(4,5), of compare_balance_fields balance_agrees "''balance''"]
      compare_position_fields_empty compare_balance_fields_empty by blast
  then have empty: "ps @ bs = [] \<longleftrightarrow> snapshots_agree l x" using len by auto
  have sev: "\<forall>m \<in> set (ps @ bs). rm_severity m = RECONCILIATION_SEVERITY_MISMATCH"
    using mapE_elem [OF ps] mapE_elem [OF bs] by (auto dest: mismatch_of_severity)
  then have "\<not> list_ex (\<lambda>m. rm_severity m = RECONCILIATION_SEVERITY_UNKNOWN) (ps @ bs)"
    by (auto simp: list_ex_iff RECONCILIATION_SEVERITY_MISMATCH_def RECONCILIATION_SEVERITY_UNKNOWN_def)
  then show ?thesis using r len empty sev by (auto simp: status_for_mismatches_def)
qed

text \<open>The mismatch record the identifier comparison builds for one missing record.\<close>

definition missing_record ::
  "hasher \<Rightarrow> string \<Rightarrow> string \<Rightarrow> string option \<Rightarrow> string option \<Rightarrow> string \<Rightarrow> string \<Rightarrow> reconciliation_mismatch" where
  "missing_record H rid category l x explanation i =
     \<lparr>rm_mismatch_id = derive_reconciliation_mismatch_id H rid category i l x, rm_category = category,
      rm_local_value = l, rm_external_value = x, rm_severity = RECONCILIATION_SEVERITY_MISMATCH,
      rm_explanation = Some explanation, rm_requires_manual_review = True\<rparr>"

lemma mismatch_of_missing:
  assumes "length category \<le> 64" "category \<noteq> []" "text_in 1 1024 explanation"
  shows "mismatch_of H dec_str rid (category, i, Text_value PRESENT, Absent, Some explanation) =
      Inr (missing_record H rid category (Some PRESENT) None explanation i)"
    and "mismatch_of H dec_str rid (category, i, Absent, Text_value PRESENT, Some explanation) =
      Inr (missing_record H rid category None (Some PRESENT) explanation i)"
  using assms
  by (simp_all add: build_reconciliation_mismatch_def Let_def mk_reconciliation_mismatch_def missing_record_def
      derive_reconciliation_mismatch_id_def text_in_def PRESENT_def RECONCILIATION_SEVERITY_MISMATCH_def Suc_le_eq
      short_digest_def)

text \<open>
  Comparing two sets of record identifiers reports exactly the symmetric difference. For a valid
  record kind and valid identifiers the comparison succeeds; its mismatches are, in order of the
  identifiers, one per local identifier the exchange does not know and then one per external identifier
  missing locally, and the count is the size of the union, whatever the order or repetition.
\<close>

theorem record_id_sets_symmetric_difference:
  assumes "validate_record_kind kind = Inr kind" and "length kind \<le> 47"
    and "list_all (\<lambda>i. \<not> blank_or_padded i) (ls @ xs)"
  shows "reconcile_record_id_sets H dec_str rid kind ls xs = Inr
    \<lparr>rs_mismatches =
       map (missing_record H rid (kind @ ''.missing_external'') (Some PRESENT) None
         (''Local '' @ kind @ '' record is missing from external snapshot.'')) (sorted_list_of_set (set ls - set xs)) @
       map (missing_record H rid (kind @ ''.missing_local'') None (Some PRESENT)
         (''External '' @ kind @ '' record is missing from local projection.'')) (sorted_list_of_set (set xs - set ls)),
     rs_records_checked = card (set ls \<union> set xs)\<rparr>"
proof -
  have ids: "validate_record_ids ls F_local_ids = Inr (set ls)" "validate_record_ids xs F_external_ids = Inr (set xs)"
  proof -
    have "guards (map (\<lambda>i. (blank_or_padded i, recon_raise (Record_id_invalid fld))) is) = Inr ()"
      if "list_all (\<lambda>i. \<not> blank_or_padded i) is" for "is" fld
      using that by (auto simp: guards_ok_iff list_all_iff)
    then show "validate_record_ids ls F_local_ids = Inr (set ls)" "validate_record_ids xs F_external_ids = Inr (set xs)"
      using assms(3) by (simp_all add: validate_record_ids_def)
  qed
  have len: "length (kind @ ''.missing_external'') \<le> 64" "length (kind @ ''.missing_local'') \<le> 64"
    "text_in 1 1024 (''Local '' @ kind @ '' record is missing from external snapshot.'')"
    "text_in 1 1024 (''External '' @ kind @ '' record is missing from local projection.'')"
    using assms(2) by (simp_all add: text_in_def)
  have parts:
    "mapE (\<lambda>i. mismatch_of H dec_str rid (kind @ ''.missing_external'', i, Text_value PRESENT, Absent,
        Some (''Local '' @ kind @ '' record is missing from external snapshot.''))) is =
      Inr (map (missing_record H rid (kind @ ''.missing_external'') (Some PRESENT) None
         (''Local '' @ kind @ '' record is missing from external snapshot.'')) is)"
    "mapE (\<lambda>i. mismatch_of H dec_str rid (kind @ ''.missing_local'', i, Absent, Text_value PRESENT,
        Some (''External '' @ kind @ '' record is missing from local projection.''))) is =
      Inr (map (missing_record H rid (kind @ ''.missing_local'') None (Some PRESENT)
         (''External '' @ kind @ '' record is missing from local projection.'')) is)" for "is"
    by (rule mapE_ok, rule mismatch_of_missing [OF len(1) _ len(3)] mismatch_of_missing [OF len(2) _ len(4)], simp)+
  show ?thesis unfolding reconcile_record_id_sets_def assms(1) ids bindE_simps parts ..
qed

definition sample_snapshot :: "position list \<Rightarrow> cash_balance list \<Rightarrow> portfolio_snapshot" where
  "sample_snapshot ps bs =
     \<lparr>sn_portfolio_id = ''p'', sn_captured_at = 50, sn_positions = ps, sn_balances = bs, sn_realized_pnl = [],
      sn_unrealized_pnl = [], sn_gross_exposure = [], sn_net_exposure = [], sn_reconciliation_status = ''ok''\<rparr>"

text \<open>A decimal text for the witness: the sign only.\<close>

definition sample_dec_str :: "rat \<Rightarrow> string" where
  "sample_dec_str d = (if d < 0 then ''-'' else ''+'')"

theorem gate_released_iff_snapshots_agree_witness:
  "\<exists>r r'. reconcile_portfolio_snapshots sample_hasher sample_dec_str ''rec_1'' ''kalshi'' ''acct_1''
      (sample_snapshot [sample_position 2 (1/4) 10] []) (sample_snapshot [sample_position 2 (1/4) 20] []) 60 70 = Inr r \<and>
    rr_trading_gate_released r \<and>
    reconcile_portfolio_snapshots sample_hasher sample_dec_str ''rec_1'' ''kalshi'' ''acct_1''
      (sample_snapshot [sample_position 2 (1/4) 10] []) (sample_snapshot [] []) 60 70 = Inr r' \<and>
    \<not> rr_trading_gate_released r'"
proof -
  let ?l = "sample_snapshot [sample_position 2 (1/4) 10] []" and ?x = "sample_snapshot [sample_position 2 (1/4) 20] []"
  let ?e = "sample_snapshot [] []"
  let ?rec = "reconcile_portfolio_snapshots sample_hasher sample_dec_str ''rec_1'' ''kalshi'' ''acct_1''"
  note defs = reconcile_portfolio_snapshots_def validate_snapshot_scope_def compare_positions_def compare_balances_def
    compare_records_def all_ids_def by_id_def compare_position_fields_def field_differences_def sample_snapshot_def
    sample_position_def opt_dec_def build_reconciliation_result_def Let_def status_for_mismatches_def
    mk_reconciliation_result_def text_in_def
  have "\<exists>r. ?rec ?l ?x 60 70 = Inr r" by (simp add: defs)
  moreover have "\<exists>r. ?rec ?l ?e 60 70 = Inr r"
    by (simp add: defs build_reconciliation_mismatch_def mk_reconciliation_mismatch_def PRESENT_def
        derive_reconciliation_mismatch_id_def short_digest_def RECONCILIATION_SEVERITY_MISMATCH_def
        RECONCILIATION_SEVERITY_UNKNOWN_def)
  moreover have "snapshots_agree ?l ?x" "\<not> snapshots_agree ?l ?e"
    by (simp_all add: snapshots_agree_def records_agree_def sample_snapshot_def position_agrees_def sample_position_def)
  moreover have d: "distinct (map ps_position_id (sn_positions ?l))" "distinct (map ps_position_id (sn_positions ?x))"
    "distinct (map ps_position_id (sn_positions ?e))" "distinct (map cb_balance_id (sn_balances ?l))"
    "distinct (map cb_balance_id (sn_balances ?x))" "distinct (map cb_balance_id (sn_balances ?e))"
    by (simp_all add: sample_snapshot_def)
  ultimately show ?thesis
    using gate_released_iff_snapshots_agree [OF _ d(1,2,4,5)] gate_released_iff_snapshots_agree [OF _ d(1,3,4,6)]
    by metis
qed

theorem record_id_sets_symmetric_difference_witness:
  "\<exists>r. reconcile_record_id_sets sample_hasher sample_dec_str ''rec_1'' ''fill'' [''a'', ''b''] [''b'', ''c''] = Inr r \<and>
    map rm_category (rs_mismatches r) = [''fill.missing_external'', ''fill.missing_local''] \<and> rs_records_checked r = 3"
proof -
  have "validate_record_kind ''fill'' = Inr ''fill''" "length ''fill'' \<le> 47"
    "list_all (\<lambda>i. \<not> blank_or_padded i) ([''a'', ''b''] @ [''b'', ''c''])"
    by (simp_all add: validate_record_kind_def blank_or_padded_def py_strip_def py_isspace_def py_isalnum_def Let_def)
  moreover have "set [''a'', ''b''] - set [''b'', ''c''] = {''a''}" "set [''b'', ''c''] - set [''a'', ''b''] = {''c''}"
    "set [''a'', ''b''] \<union> set [''b'', ''c''] = {''a'', ''b'', ''c''}" by auto
  ultimately show ?thesis
    using record_id_sets_symmetric_difference [of "''fill''" "[''a'', ''b'']" "[''b'', ''c'']"]
    by (simp only:) (simp add: missing_record_def)
qed

end
