(* ===== verification/Bounded_Decimals.thy ===== *)
theory Bounded_Decimals
  imports Schemas
begin

text \<open>
  The bounded decimals of the simulation models and their 128-digit arithmetic.

  \<open>fee_models.py\<close>, \<open>slippage_models.py\<close> and \<open>settlement.py\<close> (under \<open>src/pmrp/simulation\<close>) each have
  the same \<open>_validate_decimal_bounds\<close>: at most 28 digits, at most 18 of them after the point, and an
  adjusted exponent of at most 36. These bounds look at the spelling of a decimal, so an
  input is a coefficient and an exponent here. The models then compute in a context of 128 digits. The
  lemmas of the last section say how large a result may be and still be exact there.
\<close>

section \<open>Spelled decimals\<close>

record decimal_tuple =
  dt_coefficient :: int
  dt_exponent :: int

definition dec_value :: "decimal_tuple \<Rightarrow> rat" where
  "dec_value d = of_int (dt_coefficient d) * 10 powi dt_exponent d"

definition dt_digits :: "decimal_tuple \<Rightarrow> nat" where
  "dt_digits d = ndigits (nat \<bar>dt_coefficient d\<bar>)"

definition dt_adjusted :: "decimal_tuple \<Rightarrow> int" where
  "dt_adjusted d = dt_exponent d + int (dt_digits d) - 1"

definition validate_decimal_bounds :: "field \<Rightarrow> decimal_tuple \<Rightarrow> unit result" where
  "validate_decimal_bounds f d =
     guards
       [(28 < dt_digits d, DecimalBoundsError Too_many_digits f),
        (18 < max (- dt_exponent d) 0, DecimalBoundsError Too_many_fractional_digits f),
        (36 < dt_adjusted d, DecimalBoundsError Exponent_too_large f)]"

definition parse_bounded_decimal :: "field \<Rightarrow> decimal_tuple \<Rightarrow> rat result" where
  "parse_bounded_decimal f d = bindE (validate_decimal_bounds f d) (\<lambda>_. Inr (dec_value d))"

definition parse_bounded_nonnegative_decimal :: "field \<Rightarrow> decimal_tuple \<Rightarrow> rat result" where
  "parse_bounded_nonnegative_decimal f d =
     bindE (parse_bounded_decimal f d) (\<lambda>x. if x < 0 then Inl (ValueError f) else Inr x)"

definition parse_positive_decimal :: "field \<Rightarrow> decimal_tuple \<Rightarrow> rat result" where
  "parse_positive_decimal f d =
     bindE (parse_bounded_decimal f d) (\<lambda>x. if x \<le> 0 then Inl (ValueError f) else Inr x)"

definition bounded :: "decimal_tuple \<Rightarrow> bool" where
  "bounded d \<longleftrightarrow> dt_digits d \<le> 28 \<and> - 18 \<le> dt_exponent d \<and> dt_adjusted d \<le> 36"

lemma validate_decimal_bounds_iff: "validate_decimal_bounds f d = Inr u \<longleftrightarrow> bounded d"
  by (auto simp: validate_decimal_bounds_def bounded_def guards_ok_iff simp del: guards.simps)

lemma parse_bounded_iff:
  "parse_bounded_decimal f d = Inr x \<longleftrightarrow> x = dec_value d \<and> bounded d"
  "parse_bounded_nonnegative_decimal f d = Inr x \<longleftrightarrow> x = dec_value d \<and> bounded d \<and> 0 \<le> x"
  "parse_positive_decimal f d = Inr x \<longleftrightarrow> x = dec_value d \<and> bounded d \<and> 0 < x"
  by (auto simp: parse_bounded_decimal_def parse_bounded_nonnegative_decimal_def parse_positive_decimal_def
      bindE_eq_Inr validate_decimal_bounds_iff)

section \<open>The 128-digit context\<close>

definition cadd :: "rat \<Rightarrow> rat \<Rightarrow> rat" where
  "cadd x y = dec_round 128 (x + y)"

definition csub :: "rat \<Rightarrow> rat \<Rightarrow> rat" where
  "csub x y = dec_round 128 (x - y)"

definition cmul :: "rat \<Rightarrow> rat \<Rightarrow> rat" where
  "cmul x y = dec_round 128 (x * y)"

definition cdiv :: "rat \<Rightarrow> rat \<Rightarrow> rat" where
  "cdiv x y = dec_round 128 (x / y)"

definition cabs :: "rat \<Rightarrow> rat" where
  "cabs x = dec_round 128 \<bar>x\<bar>"

lemmas context_ops = cadd_def csub_def cmul_def cdiv_def cabs_def

section \<open>Multiples of a power of ten\<close>

definition mult_of :: "int \<Rightarrow> rat \<Rightarrow> bool" where
  "mult_of e x \<longleftrightarrow> (\<exists>k. x = of_int k * 10 powi e)"

lemma mult_of_add: "mult_of e x \<Longrightarrow> mult_of e y \<Longrightarrow> mult_of e (x + y)"
  unfolding mult_of_def by (metis distrib_right of_int_add)

lemma mult_of_minus: "mult_of e x \<Longrightarrow> mult_of e (- x)"
  unfolding mult_of_def by (metis minus_mult_left of_int_minus)

lemma mult_of_diff: "mult_of e x \<Longrightarrow> mult_of e y \<Longrightarrow> mult_of e (x - y)"
  using mult_of_add [of e x "- y"] mult_of_minus by simp

lemma mult_of_abs: "mult_of e x \<Longrightarrow> mult_of e \<bar>x\<bar>"
  by (simp add: abs_if mult_of_minus)

lemma mult_of_mult: "mult_of a x \<Longrightarrow> mult_of b y \<Longrightarrow> mult_of (a + b) (x * y)"
proof -
  assume "mult_of a x" "mult_of b y"
  then obtain j k where "x = of_int j * 10 powi a" "y = of_int k * 10 powi b" by (auto simp: mult_of_def)
  then have "x * y = of_int (j * k) * 10 powi (a + b)" by (simp add: power_int_add)
  then show ?thesis unfolding mult_of_def by blast
qed

lemma mult_of_coarser: "mult_of a x \<Longrightarrow> b \<le> a \<Longrightarrow> mult_of b x"
proof -
  assume "mult_of a x" "b \<le> a"
  then obtain k where "x = of_int k * 10 powi a" by (auto simp: mult_of_def)
  with powi10_nat [OF \<open>b \<le> a\<close>] have "x = of_int (k * 10 ^ nat (a - b)) * 10 powi b" by simp
  then show ?thesis unfolding mult_of_def by blast
qed

lemma mult_of_bps: "mult_of e x \<Longrightarrow> mult_of (e - 4) (x / 10000)"
proof -
  have "(1 / 10000 :: rat) = of_int 1 * 10 powi (- 4)" by (simp add: power_int_minus)
  then have "mult_of (- 4) (1 / 10000)" unfolding mult_of_def by blast
  then show "mult_of e x \<Longrightarrow> ?thesis" using mult_of_mult [of e x "- 4" "1 / 10000"] by simp
qed

lemma mult_of_zero: "mult_of e 0"
  unfolding mult_of_def by (rule exI [of _ 0]) simp

lemma exact_128:
  assumes "mult_of e x" and "\<bar>x\<bar> \<le> 10 powi (e + 128)"
  shows "dec_round 128 x = x"
proof -
  from assms(1) obtain k where k: "x = of_int k * 10 powi e" by (auto simp: mult_of_def)
  have "\<bar>of_int k\<bar> * 10 powi e \<le> (10 ^ 128 :: rat) * 10 powi e"
    using assms(2) by (simp add: k abs_mult power_int_add)
  then have "\<bar>of_int k :: rat\<bar> \<le> 10 ^ 128" using powi10_pos(1) [of e] mult_le_cancel_right_pos by blast
  then have "of_int \<bar>k\<bar> \<le> (of_int (10 ^ 128) :: rat)" by simp
  then have "\<bar>k\<bar> \<le> 10 ^ 128" by (simp only: of_int_le_iff)
  then have "dec_fits 128 x" unfolding k by (rule dec_fits_of_int_powi) simp
  then show ?thesis by (rule d128.rnd_exact)
qed

text \<open>What the bounds say of the value.\<close>

lemma bounded_value:
  assumes "bounded d"
  shows "mult_of (dt_exponent d) (dec_value d)" and "- 18 \<le> dt_exponent d"
    and "\<bar>dec_value d\<bar> \<le> 10 powi (dt_exponent d + 28)" and "\<bar>dec_value d\<bar> \<le> 10 powi 37"
proof -
  show "mult_of (dt_exponent d) (dec_value d)" by (auto simp: mult_of_def dec_value_def)
  show "- 18 \<le> dt_exponent d" using assms by (simp add: bounded_def)
  have "\<bar>dt_coefficient d\<bar> \<le> 10 ^ dt_digits d"
  proof (cases "dt_coefficient d = 0")
    case False
    then have "nat \<bar>dt_coefficient d\<bar> < 10 ^ dt_digits d" unfolding dt_digits_def by (intro ndigits_bounds(2)) simp
    then have "int (nat \<bar>dt_coefficient d\<bar>) \<le> int (10 ^ dt_digits d)" by linarith
    then show ?thesis by simp
  qed simp
  then have "of_int \<bar>dt_coefficient d\<bar> \<le> (of_int (10 ^ dt_digits d) :: rat)" by (simp only: of_int_le_iff)
  then have "\<bar>dec_value d\<bar> \<le> 10 ^ dt_digits d * 10 powi dt_exponent d"
    by (simp add: dec_value_def abs_mult)
  also have "\<dots> = 10 powi (dt_exponent d + int (dt_digits d))" by (simp add: power_int_add)
  finally have v: "\<bar>dec_value d\<bar> \<le> 10 powi (dt_exponent d + int (dt_digits d))" .
  show "\<bar>dec_value d\<bar> \<le> 10 powi (dt_exponent d + 28)"
    by (rule order_trans [OF v powi10_mono]) (use assms in \<open>simp add: bounded_def\<close>)
  show "\<bar>dec_value d\<bar> \<le> 10 powi 37"
    by (rule order_trans [OF v powi10_mono]) (use assms in \<open>simp add: bounded_def dt_adjusted_def\<close>)
qed

lemma abs_mult_powi:
  assumes "\<bar>x\<bar> \<le> 10 powi a" and "\<bar>y\<bar> \<le> 10 powi b"
  shows "\<bar>x * y :: rat\<bar> \<le> 10 powi (a + b)"
  using mult_mono [OF assms] by (simp add: abs_mult power_int_add)

lemma abs_bps: "\<bar>x\<bar> \<le> 10 powi a \<Longrightarrow> \<bar>x / 10000 :: rat\<bar> \<le> 10 powi (a - 4)"
  by (simp add: power_int_diff field_simps)

lemma powi_weaken: "\<bar>x :: rat\<bar> \<le> 10 powi a \<Longrightarrow> a \<le> b \<Longrightarrow> \<bar>x\<bar> \<le> 10 powi b"
  using powi10_mono [of a b] by linarith

lemma powi_step: "10 * (10::rat) powi e = 10 powi (e + 1)"
  by (simp add: power_int_add)

end
