(* ===== verification/Fee_Models.thy ===== *)
theory Fee_Models
  imports Bounded_Decimals
begin

text \<open>
  \<open>src/pmrp/simulation/fee_models.py\<close>: the exchange fee table of the simulator.

  A table is a list of rules without two for the same exchange and role; an estimate multiplies and
  adds in a context of 128 digits. The theorem is that this context is wide enough: for every
  table and every input the code admits, the amounts are the exact rational ones.
\<close>

record fee_rule =
  fr_exchange :: string
  fr_liquidity_role :: liquidity_role
  fr_currency :: string
  fr_fee_rate_bps :: decimal_tuple
  fr_fixed_fee :: decimal_tuple
  fr_rebate_rate_bps :: decimal_tuple
  fr_fixed_rebate :: decimal_tuple

record fee_estimate =
  fs_exchange :: string
  fs_liquidity_role :: liquidity_role
  fs_currency :: string
  fs_notional :: rat
  fs_fee_amount :: rat
  fs_rebate_amount :: rat
  fs_net_fee_amount :: rat

definition fee_validate_text :: "field \<Rightarrow> string \<Rightarrow> string result" where
  "fee_validate_text f s = (if blank_or_padded s then Inl (ValueError f) else Inr s)"

definition mk_fee_rule :: "fee_rule \<Rightarrow> fee_rule result" where
  "mk_fee_rule r =
     bindE (fee_validate_text F_exchange (fr_exchange r)) (\<lambda>_.
     bindE (validate_currency (fr_currency r)) (\<lambda>_.
     bindE (parse_bounded_nonnegative_decimal F_fee (fr_fee_rate_bps r)) (\<lambda>_.
     bindE (parse_bounded_nonnegative_decimal F_fee (fr_fixed_fee r)) (\<lambda>_.
     bindE (parse_bounded_nonnegative_decimal F_rebate (fr_rebate_rate_bps r)) (\<lambda>_.
     bindE (parse_bounded_nonnegative_decimal F_rebate (fr_fixed_rebate r)) (\<lambda>_. Inr r))))))"

definition dec_zero :: decimal_tuple where
  "dec_zero = \<lparr>dt_coefficient = 0, dt_exponent = 0\<rparr>"

definition zero_fee_rule :: "string \<Rightarrow> liquidity_role \<Rightarrow> string \<Rightarrow> fee_rule result" where
  "zero_fee_rule exchange role cur =
     mk_fee_rule \<lparr>fr_exchange = exchange, fr_liquidity_role = role, fr_currency = cur, fr_fee_rate_bps = dec_zero,
       fr_fixed_fee = dec_zero, fr_rebate_rate_bps = dec_zero, fr_fixed_rebate = dec_zero\<rparr>"

text \<open>\<^verbatim>\<open>FeeTableModel.__post_init__\<close>: the loop with its set of seen keys.\<close>

type_synonym rule_key = "string \<times> liquidity_role"

definition rule_key :: "fee_rule \<Rightarrow> rule_key" where
  "rule_key r = (fr_exchange r, fr_liquidity_role r)"

fun check_rules :: "rule_key list \<Rightarrow> fee_rule list \<Rightarrow> unit result" where
  "check_rules seen [] = Inr ()"
| "check_rules seen (r # rs) =
     (if rule_key r \<in> set seen then Inl (SimulationConfigurationError Fee_rule_duplicate)
      else check_rules (rule_key r # seen) rs)"

definition mk_fee_table :: "fee_rule list \<Rightarrow> fee_rule list result" where
  "mk_fee_table rules =
     (if rules = [] then Inl (ValueError F_fee) else bindE (check_rules [] rules) (\<lambda>_. Inr rules))"

fun rule_for :: "fee_rule list \<Rightarrow> string \<Rightarrow> liquidity_role \<Rightarrow> fee_rule result" where
  "rule_for [] exchange role = Inl (SimulationConfigurationError Fee_rule_missing)"
| "rule_for (r # rs) exchange role =
     (if fr_exchange r = exchange \<and> fr_liquidity_role r = role then Inr r else rule_for rs exchange role)"

definition fee_estimate ::
  "fee_rule list \<Rightarrow> string \<Rightarrow> decimal_tuple \<Rightarrow> decimal_tuple \<Rightarrow> liquidity_role \<Rightarrow> fee_estimate result" where
  "fee_estimate rules exchange price quantity role =
     bindE (fee_validate_text F_exchange exchange) (\<lambda>exchange.
     bindE (parse_bounded_decimal F_price price) (\<lambda>parsed_price.
     bindE (parse_bounded_decimal F_quantity quantity) (\<lambda>parsed_quantity.
     bindE (guards [(parsed_price < 0, ValueError F_price), (parsed_quantity \<le> 0, ValueError F_quantity)]) (\<lambda>_.
     bindE (rule_for rules exchange role) (\<lambda>rule.
       let notional = cmul parsed_price parsed_quantity;
           fee_amount = cadd (cdiv (cmul notional (dec_value (fr_fee_rate_bps rule))) 10000)
             (dec_value (fr_fixed_fee rule));
           rebate_amount = cadd (cdiv (cmul notional (dec_value (fr_rebate_rate_bps rule))) 10000)
             (dec_value (fr_fixed_rebate rule));
           net_fee_amount = csub fee_amount rebate_amount
       in Inr \<lparr>fs_exchange = exchange, fs_liquidity_role = role, fs_currency = fr_currency rule,
               fs_notional = notional, fs_fee_amount = fee_amount, fs_rebate_amount = rebate_amount,
               fs_net_fee_amount = net_fee_amount\<rparr>)))))"

section \<open>Tables\<close>

lemma check_rules_iff:
  "check_rules seen rs = Inr u \<longleftrightarrow> distinct (map rule_key rs) \<and> set (map rule_key rs) \<inter> set seen = {}"
  by (induction seen rs rule: check_rules.induct) auto

lemma mk_fee_table_iff: "mk_fee_table rs = Inr rs' \<longleftrightarrow> rs' = rs \<and> rs \<noteq> [] \<and> distinct (map rule_key rs)"
  by (auto simp: mk_fee_table_def bindE_eq_Inr check_rules_iff)

lemma rule_for_iff:
  assumes "distinct (map rule_key rs)"
  shows "rule_for rs exchange role = Inr r \<longleftrightarrow> r \<in> set rs \<and> rule_key r = (exchange, role)"
  using assms by (induction rs) (auto simp: rule_key_def image_iff)

lemma rule_for_missing:
  "rule_for rs exchange role = Inl e \<longleftrightarrow>
     e = SimulationConfigurationError Fee_rule_missing \<and> (exchange, role) \<notin> set (map rule_key rs)"
  by (induction rs) (auto simp: rule_key_def)

definition rule_valid :: "fee_rule \<Rightarrow> bool" where
  "rule_valid r \<longleftrightarrow> mk_fee_rule r = Inr r"

lemma rule_valid_iff:
  "rule_valid r \<longleftrightarrow> \<not> blank_or_padded (fr_exchange r) \<and> valid_currency (fr_currency r) \<and>
     (\<forall>d \<in> {fr_fee_rate_bps r, fr_fixed_fee r, fr_rebate_rate_bps r, fr_fixed_rebate r}.
        bounded d \<and> 0 \<le> dec_value d)"
  by (auto simp: rule_valid_def mk_fee_rule_def fee_validate_text_def bindE_eq_Inr
      parse_bounded_iff split: if_splits dest: validate_currency_ok)

section \<open>Exactness of the 128-digit context\<close>

text \<open>
  One amount of an estimate: notional times a rate in basis points. All amounts of an
  estimate are multiples of one power of ten \<open>m\<close>, at most \<open>10 powi (m + 127)\<close> in size.
\<close>

lemma notional_bounds:
  assumes "bounded p" and "bounded q"
  defines "e \<equiv> dt_exponent p + dt_exponent q"
  shows "mult_of e (dec_value p * dec_value q)" "\<bar>dec_value p * dec_value q\<bar> \<le> 10 powi (e + 56)"
    "\<bar>dec_value p * dec_value q\<bar> \<le> 10 powi 74" "- 36 \<le> e"
proof -
  note p = bounded_value [OF assms(1)] and q = bounded_value [OF assms(2)]
  show "mult_of e (dec_value p * dec_value q)" unfolding e_def using p(1) q(1) by (rule mult_of_mult)
  show "\<bar>dec_value p * dec_value q\<bar> \<le> 10 powi (e + 56)"
    using abs_mult_powi [OF p(3) q(3)] by (simp add: e_def algebra_simps)
  show "\<bar>dec_value p * dec_value q\<bar> \<le> 10 powi 74"
    using abs_mult_powi [OF p(4) q(4)] by simp
  show "- 36 \<le> e" using p(2) q(2) by (simp add: e_def)
qed

lemma charge_exact:
  assumes N: "mult_of e n" "\<bar>n\<bar> \<le> 10 powi (e + 56)" "\<bar>n\<bar> \<le> 10 powi 74" "- 36 \<le> e"
    and "bounded r" and "bounded x"
  defines "m \<equiv> min (e - 22) (- 18)"
  shows "cdiv (cmul n (dec_value r)) 10000 = n * dec_value r / 10000"
    and "cadd (n * dec_value r / 10000) (dec_value x) = n * dec_value r / 10000 + dec_value x"
    and "mult_of m (n * dec_value r / 10000 + dec_value x)"
    and "\<bar>n * dec_value r / 10000 + dec_value x\<bar> \<le> 2 * 10 powi (m + 127)"
proof -
  note r = bounded_value [OF assms(5)] and x = bounded_value [OF assms(6)]
  let ?a = "n * dec_value r / 10000"
  have nr: "mult_of (e + dt_exponent r) (n * dec_value r)" using N(1) r(1) by (rule mult_of_mult)
  have nr_abs: "\<bar>n * dec_value r\<bar> \<le> 10 powi (e + dt_exponent r + 84)"
    using abs_mult_powi [OF N(2) r(3)] by (simp add: algebra_simps)
  have "cmul n (dec_value r) = n * dec_value r"
    unfolding cmul_def by (rule exact_128 [OF nr powi_weaken [OF nr_abs]]) simp
  moreover have a: "mult_of (e + dt_exponent r - 4) ?a" using nr by (rule mult_of_bps)
  have "dec_round 128 ?a = ?a"
    by (rule exact_128 [OF a powi_weaken [OF abs_bps [OF nr_abs]]]) simp
  ultimately show "cdiv (cmul n (dec_value r)) 10000 = ?a" by (simp add: cdiv_def)
  have am: "mult_of m ?a" by (rule mult_of_coarser [OF a]) (use r(2) in \<open>simp add: m_def\<close>)
  have xm: "mult_of m (dec_value x)" by (rule mult_of_coarser [OF x(1)]) (use x(2) in \<open>simp add: m_def\<close>)
  show sum: "mult_of m (?a + dec_value x)" using am xm by (rule mult_of_add)
  have "\<bar>?a\<bar> \<le> 10 powi (m + 127)"
  proof (cases "e - 22 \<le> - 18")
    case True
    have "\<bar>?a\<bar> \<le> 10 powi (e + 56 + 37 - 4)" by (rule abs_bps [OF abs_mult_powi [OF N(2) r(4)]])
    then show ?thesis by (rule powi_weaken) (use True in \<open>simp add: m_def\<close>)
  next
    case False
    have "\<bar>?a\<bar> \<le> 10 powi (74 + 37 - 4)" by (rule abs_bps [OF abs_mult_powi [OF N(3) r(4)]])
    then show ?thesis by (rule powi_weaken) (use False in \<open>simp add: m_def\<close>)
  qed
  moreover have "\<bar>dec_value x\<bar> \<le> 10 powi (m + 127)"
    using x(4) by (rule powi_weaken) (use N(4) in \<open>simp add: m_def\<close>)
  ultimately show le: "\<bar>?a + dec_value x\<bar> \<le> 2 * 10 powi (m + 127)" by linarith
  then have "\<bar>?a + dec_value x\<bar> \<le> 10 powi (m + 128)"
    using powi_step [of "m + 127"] powi10_pos(1) [of "m + 127"] by (simp add: add.assoc)
  then show "cadd ?a (dec_value x) = ?a + dec_value x" unfolding cadd_def by (rule exact_128 [OF sum])
qed

definition exact_fee :: "rat \<Rightarrow> decimal_tuple \<Rightarrow> decimal_tuple \<Rightarrow> rat" where
  "exact_fee notional rate_bps fixed = notional * dec_value rate_bps / 10000 + dec_value fixed"

lemma fee_arithmetic_exact:
  assumes "rule_valid r" and "bounded p" and "bounded q"
  defines "n \<equiv> dec_value p * dec_value q"
  shows "cmul (dec_value p) (dec_value q) = n"
    and "cadd (cdiv (cmul n (dec_value (fr_fee_rate_bps r))) 10000) (dec_value (fr_fixed_fee r)) =
      exact_fee n (fr_fee_rate_bps r) (fr_fixed_fee r)"
    and "cadd (cdiv (cmul n (dec_value (fr_rebate_rate_bps r))) 10000) (dec_value (fr_fixed_rebate r)) =
      exact_fee n (fr_rebate_rate_bps r) (fr_fixed_rebate r)"
    and "csub (exact_fee n (fr_fee_rate_bps r) (fr_fixed_fee r)) (exact_fee n (fr_rebate_rate_bps r) (fr_fixed_rebate r)) =
      exact_fee n (fr_fee_rate_bps r) (fr_fixed_fee r) - exact_fee n (fr_rebate_rate_bps r) (fr_fixed_rebate r)"
proof -
  have b: "bounded (fr_fee_rate_bps r)" "bounded (fr_fixed_fee r)" "bounded (fr_rebate_rate_bps r)"
    "bounded (fr_fixed_rebate r)"
    using assms(1) by (auto simp: rule_valid_iff)
  note N = notional_bounds [OF assms(2,3), folded n_def]
  let ?m = "min (dt_exponent p + dt_exponent q - 22) (- 18)"
  note f = charge_exact [OF N b(1,2)] and g = charge_exact [OF N b(3,4)]
  show "cmul (dec_value p) (dec_value q) = n"
    unfolding cmul_def n_def [symmetric] by (rule exact_128 [OF N(1) powi_weaken [OF N(2)]]) simp
  show "cadd (cdiv (cmul n (dec_value (fr_fee_rate_bps r))) 10000) (dec_value (fr_fixed_fee r)) =
      exact_fee n (fr_fee_rate_bps r) (fr_fixed_fee r)"
    by (simp only: f(1,2) exact_fee_def)
  show "cadd (cdiv (cmul n (dec_value (fr_rebate_rate_bps r))) 10000) (dec_value (fr_fixed_rebate r)) =
      exact_fee n (fr_rebate_rate_bps r) (fr_fixed_rebate r)"
    by (simp only: g(1,2) exact_fee_def)
  have "\<bar>exact_fee n (fr_fee_rate_bps r) (fr_fixed_fee r) - exact_fee n (fr_rebate_rate_bps r) (fr_fixed_rebate r)\<bar> \<le>
      10 powi (?m + 127 + 1)"
    using f(4) g(4) powi10_pos(1) [of "?m + 127"] unfolding exact_fee_def powi_step [symmetric] by linarith
  then show "csub (exact_fee n (fr_fee_rate_bps r) (fr_fixed_fee r)) (exact_fee n (fr_rebate_rate_bps r) (fr_fixed_rebate r)) =
      exact_fee n (fr_fee_rate_bps r) (fr_fixed_fee r) - exact_fee n (fr_rebate_rate_bps r) (fr_fixed_rebate r)"
    unfolding csub_def
    by (intro exact_128 [where e = ?m] mult_of_diff) (use f(3) g(3) in \<open>simp_all add: exact_fee_def add.assoc\<close>)
qed

section \<open>Properties\<close>

text \<open>
  Simulated fees are exact. For every fee table the code can build and every price and
  quantity it admits (a nonnegative price, a positive quantity, both within the decimal bounds), an
  estimate for an exchange and role succeeds iff the table has a rule for them, whatever
  the order of the rules, and its notional, fee, rebate and net amounts are the exact products and sums:
  the 128-digit context never rounds.
\<close>

theorem fee_estimate_exact:
  assumes "mk_fee_table rules = Inr rules" and "list_all rule_valid rules"
    and "bounded price" and "bounded quantity" and "0 \<le> dec_value price" and "0 < dec_value quantity"
    and "\<not> blank_or_padded exchange"
  shows "fee_estimate rules exchange price quantity role = Inr est \<longleftrightarrow>
    (\<exists>r \<in> set rules. rule_key r = (exchange, role) \<and>
      (let n = dec_value price * dec_value quantity;
           fee = exact_fee n (fr_fee_rate_bps r) (fr_fixed_fee r);
           rebate = exact_fee n (fr_rebate_rate_bps r) (fr_fixed_rebate r)
       in est = \<lparr>fs_exchange = exchange, fs_liquidity_role = role, fs_currency = fr_currency r, fs_notional = n,
            fs_fee_amount = fee, fs_rebate_amount = rebate, fs_net_fee_amount = fee - rebate\<rparr> \<and>
          0 \<le> fee \<and> 0 \<le> rebate))"
proof -
  have table: "distinct (map rule_key rules)" using assms(1) by (simp add: mk_fee_table_iff)
  have pos: "0 \<le> exact_fee (dec_value price * dec_value quantity) (fr_fee_rate_bps r) (fr_fixed_fee r)"
    "0 \<le> exact_fee (dec_value price * dec_value quantity) (fr_rebate_rate_bps r) (fr_fixed_rebate r)"
    if "r \<in> set rules" for r
    using that assms(2,5,6) by (auto simp: list_all_iff rule_valid_iff exact_fee_def)
  have parse: "parse_bounded_decimal F_price price = Inr (dec_value price)"
    "parse_bounded_decimal F_quantity quantity = Inr (dec_value quantity)"
    using assms(3,4) by (simp_all add: parse_bounded_iff)
  have exact: "r \<in> set rules \<Longrightarrow> rule_valid r" for r using assms(2) by (simp add: list_all_iff)
  show ?thesis
    using assms(5-7) pos
    by (simp add: fee_estimate_def fee_validate_text_def parse bindE_eq_Inr rule_for_iff [OF table] Let_def)
      (auto simp: fee_arithmetic_exact [OF exact assms(3,4)])
qed

theorem fee_estimate_exact_witness:
  "\<exists>est. fee_estimate
      [\<lparr>fr_exchange = ''e'', fr_liquidity_role = TAKER, fr_currency = ''USD'',
        fr_fee_rate_bps = \<lparr>dt_coefficient = 25, dt_exponent = 0\<rparr>, fr_fixed_fee = \<lparr>dt_coefficient = 1, dt_exponent = - 2\<rparr>,
        fr_rebate_rate_bps = dec_zero, fr_fixed_rebate = dec_zero\<rparr>]
      ''e'' \<lparr>dt_coefficient = 5, dt_exponent = - 1\<rparr> \<lparr>dt_coefficient = 8, dt_exponent = 0\<rparr> TAKER = Inr est \<and>
    fs_notional est = 4 \<and> fs_net_fee_amount est = 2 / 100"
proof -
  let ?r = "\<lparr>fr_exchange = ''e'', fr_liquidity_role = TAKER, fr_currency = ''USD'',
        fr_fee_rate_bps = \<lparr>dt_coefficient = 25, dt_exponent = 0\<rparr>, fr_fixed_fee = \<lparr>dt_coefficient = 1, dt_exponent = - 2\<rparr>,
        fr_rebate_rate_bps = dec_zero, fr_fixed_rebate = dec_zero\<rparr>"
  let ?p = "\<lparr>dt_coefficient = 5, dt_exponent = - 1\<rparr>" and ?q = "\<lparr>dt_coefficient = 8, dt_exponent = 0\<rparr>"
  have nb: "\<not> blank_or_padded ''e''" by (simp add: blank_or_padded_def py_strip_def py_isspace_def)
  have "rule_valid ?r"
    using nb by (simp add: rule_valid_iff validate_currency_def is_upper_def bounded_def dt_digits_def dt_adjusted_def
        dec_value_def dec_zero_def ndigits_small ndigits_large)
  moreover have "bounded ?p" "bounded ?q" "0 \<le> dec_value ?p" "0 < dec_value ?q"
    by (simp_all add: bounded_def dt_digits_def dt_adjusted_def dec_value_def ndigits_small)
  moreover have "mk_fee_table [?r] = Inr [?r]" by (simp add: mk_fee_table_iff)
  ultimately show ?thesis
    using fee_estimate_exact [of "[?r]" ?p ?q "''e''" TAKER] nb
    by (simp add: rule_key_def Let_def exact_fee_def) (simp add: dec_value_def dec_zero_def power_int_minus)
qed

end
