(* ===== verification/Simulation_Config.thy ===== *)
theory Simulation_Config
  imports Bounded_Decimals
begin

text \<open>
  \<open>src/pmrp/schemas/simulation.py\<close>, the configuration from which the simulation models are built, and
  the reading of decimals from its text parameters (\<^verbatim>\<open>parse_decimal\<close> of \<open>src/pmrp/schemas/numeric.py\<close> on a
  string, which is the grammar of Python's \<^verbatim>\<open>Decimal\<close> constructor).
\<close>

record simulation_configuration =
  sc_simulation_version :: string
  sc_fill_model :: string
  sc_queue_model :: string
  sc_latency_model :: string
  sc_fee_model :: string
  sc_rejection_model :: string
  sc_slippage_model :: string
  sc_settlement_model :: string
  sc_random_seed :: int
  sc_fixed_latency_ms :: "int option"
  sc_maker_fill_probability :: "decimal_tuple option"
  sc_taker_slippage_bps :: "decimal_tuple option"
  sc_parameters :: "(string \<times> string) list"

definition validate_string_mapping :: "(string \<times> string) list \<Rightarrow> (bool \<times> py_error) list" where
  "validate_string_mapping m =
     map (\<lambda>(k, v). (blank_or_padded k \<or> blank_or_padded v, ValidationError (Out_of_range F_text))) m"

definition mk_simulation_configuration :: "simulation_configuration \<Rightarrow> simulation_configuration result" where
  "mk_simulation_configuration c =
     bindE (guards
       (map (\<lambda>s. (\<not> text_in 1 128 s, ValidationError (Out_of_range F_text)))
          [sc_simulation_version c, sc_fill_model c, sc_queue_model c, sc_latency_model c, sc_fee_model c,
           sc_rejection_model c, sc_slippage_model c, sc_settlement_model c] @
        [(sc_random_seed c < 0, ValidationError (Out_of_range F_sequence)),
         (\<not> pred_option (\<lambda>n. 0 \<le> n) (sc_fixed_latency_ms c), ValidationError (Out_of_range F_sequence)),
         (\<not> pred_option (\<lambda>d. 0 \<le> dec_value d \<and> dec_value d \<le> 1) (sc_maker_fill_probability c),
            ValidationError (Out_of_range F_amount)),
         (\<not> pred_option (\<lambda>d. 0 \<le> dec_value d) (sc_taker_slippage_bps c), ValidationError (Out_of_range F_amount))] @
        validate_string_mapping (sc_parameters c))) (\<lambda>_. Inr c)"

section \<open>Decimals in text\<close>

text \<open>
  Python removes underscores, then reads an optional sign, digits with at most one point (at least one
  digit in all), and an optional exponent. Infinities and NaNs are read and then refused as not
  finite, so both are a \<^verbatim>\<open>ValueError\<close> here. Only ASCII digits are represented.
\<close>

definition digit_value :: "char \<Rightarrow> nat" where
  "digit_value c = of_char c - 48"

definition read_digits :: "string \<Rightarrow> nat" where
  "read_digits s = foldl (\<lambda>n c. 10 * n + digit_value c) 0 s"

definition read_sign :: "string \<Rightarrow> int \<times> string" where
  "read_sign s = (case s of [] \<Rightarrow> (1, []) | c # cs \<Rightarrow>
     if c = CHR ''-'' then (- 1, cs) else if c = CHR ''+'' then (1, cs) else (1, s))"

definition read_exponent :: "string \<Rightarrow> int option" where
  "read_exponent s = (case s of
       [] \<Rightarrow> Some 0
     | c # cs \<Rightarrow>
         if c = CHR ''e'' \<or> c = CHR ''E'' then
           (case read_sign cs of (sg, ds) \<Rightarrow>
              if ds \<noteq> [] \<and> list_all is_digit ds then Some (sg * int (read_digits ds)) else None)
         else None)"

definition read_decimal :: "string \<Rightarrow> decimal_tuple option" where
  "read_decimal s =
     (case read_sign (filter (\<lambda>c. c \<noteq> CHR ''_'') s) of (sg, body) \<Rightarrow>
      let whole = takeWhile is_digit body; rest = dropWhile is_digit body;
          fraction = (case rest of [] \<Rightarrow> [] | c # cs \<Rightarrow> if c = CHR ''.'' then takeWhile is_digit cs else []);
          tail = (case rest of [] \<Rightarrow> [] | c # cs \<Rightarrow> if c = CHR ''.'' then dropWhile is_digit cs else rest)
      in if whole = [] \<and> fraction = [] then None
         else map_option (\<lambda>e. \<lparr>dt_coefficient = sg * int (read_digits (whole @ fraction)),
                               dt_exponent = e - int (length fraction)\<rparr>) (read_exponent tail))"

definition parse_decimal_text :: "field \<Rightarrow> string \<Rightarrow> decimal_tuple result" where
  "parse_decimal_text f s =
     (if blank_or_padded s then Inl (ValueError f)
      else case read_decimal s of None \<Rightarrow> Inl (ValueError f) | Some d \<Rightarrow> Inr d)"

lemma read_decimal_examples:
  "read_decimal ''12.50'' = Some \<lparr>dt_coefficient = 1250, dt_exponent = - 2\<rparr>"
  "read_decimal ''-.5e+1'' = Some \<lparr>dt_coefficient = - 5, dt_exponent = 0\<rparr>"
  "read_decimal ''1_0'' = Some \<lparr>dt_coefficient = 10, dt_exponent = 0\<rparr>"
  "read_decimal ''.'' = None" "read_decimal ''1.2.3'' = None" "read_decimal ''NaN'' = None"
  by (simp_all add: read_decimal_def read_sign_def read_exponent_def read_digits_def is_digit_def digit_value_def Let_def)

end
