(* ===== verification/Slippage_Models.thy ===== *)
theory Slippage_Models
  imports Simulation_Config
begin

text \<open>
  \<open>src/pmrp/simulation/slippage_models.py\<close>: the price adjustment of a simulated fill. The protocol
  \<^verbatim>\<open>SlippageModel\<close> is the locale \<open>slippage_model\<close>; \<^verbatim>\<open>NoSlippageModel\<close> and \<^verbatim>\<open>BpsSlippageModel\<close> are its
  interpretations.
\<close>

record slippage_estimate =
  se_side :: side
  se_liquidity_role :: liquidity_role
  se_input_price :: rat
  se_adjusted_price :: rat
  se_quantity :: rat
  se_slippage_bps :: rat
  se_slippage_amount_per_unit :: rat
  se_total_slippage :: rat

definition validate_slippage_inputs :: "decimal_tuple \<Rightarrow> decimal_tuple \<Rightarrow> (rat \<times> rat) result" where
  "validate_slippage_inputs price quantity =
     bindE (parse_bounded_decimal F_price price) (\<lambda>parsed_price.
     bindE (parse_bounded_decimal F_quantity quantity) (\<lambda>parsed_quantity.
     bindE (guards [(parsed_price < 0, ValueError F_price), (parsed_quantity \<le> 0, ValueError F_quantity)]) (\<lambda>_.
       Inr (parsed_price, parsed_quantity))))"

definition unadjusted :: "side \<Rightarrow> rat \<Rightarrow> rat \<Rightarrow> liquidity_role \<Rightarrow> slippage_estimate" where
  "unadjusted sd price quantity role =
     \<lparr>se_side = sd, se_liquidity_role = role, se_input_price = price, se_adjusted_price = price,
      se_quantity = quantity, se_slippage_bps = 0, se_slippage_amount_per_unit = 0, se_total_slippage = 0\<rparr>"

definition no_slippage_from_configuration :: "simulation_configuration \<Rightarrow> unit result" where
  "no_slippage_from_configuration c =
     guards [(sc_slippage_model c \<noteq> ''none_v1'', SimulationConfigurationError Slippage_model_unsupported)]"

definition no_slippage_estimate ::
  "side \<Rightarrow> decimal_tuple \<Rightarrow> decimal_tuple \<Rightarrow> liquidity_role \<Rightarrow> slippage_estimate result" where
  "no_slippage_estimate sd price quantity role =
     bindE (validate_slippage_inputs price quantity) (\<lambda>(p, q). Inr (unadjusted sd p q role))"

text \<open>\<^verbatim>\<open>BpsSlippageModel\<close>: the constructors and the estimate.\<close>

definition mk_bps_slippage_model :: "decimal_tuple \<Rightarrow> decimal_tuple result" where
  "mk_bps_slippage_model bps = bindE (parse_bounded_nonnegative_decimal F_slippage bps) (\<lambda>_. Inr bps)"

definition bps_slippage_from_configuration :: "simulation_configuration \<Rightarrow> decimal_tuple result" where
  "bps_slippage_from_configuration c =
     (if sc_slippage_model c \<noteq> ''bps_slippage_v1'' then Inl (SimulationConfigurationError Slippage_model_unsupported)
      else case sc_taker_slippage_bps c of
          None \<Rightarrow> Inl (SimulationConfigurationError Taker_slippage_missing)
        | Some bps \<Rightarrow> mk_bps_slippage_model bps)"

definition bps_slippage_estimate ::
  "decimal_tuple \<Rightarrow> side \<Rightarrow> decimal_tuple \<Rightarrow> decimal_tuple \<Rightarrow> liquidity_role \<Rightarrow> slippage_estimate result" where
  "bps_slippage_estimate taker_slippage_bps sd price quantity role =
     bindE (validate_slippage_inputs price quantity) (\<lambda>(p, q).
       let bps = dec_value taker_slippage_bps in
       if role \<noteq> TAKER \<or> bps = 0 then Inr (unadjusted sd p q role)
       else
         let price_impact = cdiv (cmul p bps) 10000;
             moved = (if sd = BUY then cadd p price_impact else csub p price_impact);
             adjusted_price = (if moved < 0 then 0 else moved);
             slippage_amount_per_unit = cabs (csub adjusted_price p);
             total_slippage = cmul slippage_amount_per_unit q
         in Inr \<lparr>se_side = sd, se_liquidity_role = role, se_input_price = p, se_adjusted_price = adjusted_price,
                 se_quantity = q, se_slippage_bps = bps, se_slippage_amount_per_unit = slippage_amount_per_unit,
                 se_total_slippage = total_slippage\<rparr>)"

section \<open>Exactness\<close>

definition slipped_price :: "side \<Rightarrow> rat \<Rightarrow> rat \<Rightarrow> rat" where
  "slipped_price sd p bps = (if sd = BUY then p * (1 + bps / 10000) else max 0 (p * (1 - bps / 10000)))"

lemma validate_slippage_inputs_iff:
  "validate_slippage_inputs price quantity = Inr pq \<longleftrightarrow>
     pq = (dec_value price, dec_value quantity) \<and> bounded price \<and> bounded quantity \<and>
     0 \<le> dec_value price \<and> 0 < dec_value quantity"
  by (cases pq) (auto simp: validate_slippage_inputs_def bindE_eq_Inr parse_bounded_iff guards_ok_iff
      simp del: guards.simps)

lemma slippage_arithmetic_exact:
  fixes sd :: side
  assumes "bounded price" and "bounded quantity" and "bounded rate"
    and "0 \<le> dec_value price" and "0 < dec_value quantity" and "0 \<le> dec_value rate"
  defines "p \<equiv> dec_value price" and "b \<equiv> dec_value rate" and "q \<equiv> dec_value quantity"
  defines "adj \<equiv> (let moved = (if sd = BUY then cadd p (cdiv (cmul p b) 10000) else csub p (cdiv (cmul p b) 10000))
                  in if moved < 0 then 0 else moved)"
  shows "adj = slipped_price sd p b"
    and "cabs (csub adj p) = \<bar>adj - p\<bar>" and "cmul \<bar>adj - p\<bar> q = \<bar>adj - p\<bar> * q"
proof -
  note vp = bounded_value [OF assms(1), folded p_def] and vb = bounded_value [OF assms(3), folded b_def]
    and vq = bounded_value [OF assms(2), folded q_def]
  let ?e = "dt_exponent price" and ?f = "dt_exponent rate"
  let ?i = "p * b / 10000"
  have pos: "0 \<le> p" "0 \<le> b" "0 < q" using assms(4-6) by (simp_all add: p_def b_def q_def)
  have pb: "mult_of (?e + ?f) (p * b)" using vp(1) vb(1) by (rule mult_of_mult)
  have pb_abs: "\<bar>p * b\<bar> \<le> 10 powi (?e + 28 + (?f + 28))" by (rule abs_mult_powi [OF vp(3) vb(3)])
  have "cmul p b = p * b"
    unfolding cmul_def by (rule exact_128 [OF pb powi_weaken [OF pb_abs]]) simp
  moreover have i: "mult_of (?e + ?f - 4) ?i" using pb by (rule mult_of_bps)
  have "dec_round 128 ?i = ?i" by (rule exact_128 [OF i powi_weaken [OF abs_bps [OF pb_abs]]]) simp
  ultimately have impact: "cdiv (cmul p b) 10000 = ?i" by (simp add: cdiv_def)
  have im: "mult_of (?e - 22) ?i" by (rule mult_of_coarser [OF i]) (use vb(2) in simp)
  have pm: "mult_of (?e - 22) p" by (rule mult_of_coarser [OF vp(1)]) simp
  have i_abs: "\<bar>?i\<bar> \<le> 10 powi (?e + 61)"
    by (rule powi_weaken [OF abs_bps [OF abs_mult_powi [OF vp(3) vb(4)]]]) simp
  have p_abs: "\<bar>p\<bar> \<le> 10 powi (?e + 61)" by (rule powi_weaken [OF vp(3)]) simp
  have step: "2 * (10::rat) powi (?e + 61) \<le> 10 powi (?e + 62)"
    using powi_step [of "?e + 61"] powi10_pos(1) [of "?e + 61"] by (simp only: add.assoc numeral_plus_numeral semiring_norm one_add_one numeral_plus_one)
  have exact: "dec_round 128 x = x" if "mult_of (?e - 22) x" "\<bar>x\<bar> \<le> 10 powi (?e + 62)" for x
    by (rule exact_128 [OF that(1) powi_weaken [OF that(2)]]) simp
  have "cadd p ?i = p + ?i" unfolding cadd_def
    by (rule exact [OF mult_of_add [OF pm im]]) (use p_abs i_abs step in linarith)
  moreover have "csub p ?i = p - ?i" unfolding csub_def
    by (rule exact [OF mult_of_diff [OF pm im]]) (use p_abs i_abs step in linarith)
  moreover have "0 \<le> p + ?i" using pos(1,2) by (intro add_nonneg_nonneg divide_nonneg_nonneg mult_nonneg_nonneg) simp_all
  ultimately have adj: "adj = (if sd = BUY then p + ?i else max 0 (p - ?i))"
    using \<open>0 \<le> p + ?i\<close> by (auto simp: adj_def Let_def impact max_def not_less)
  then show "adj = slipped_price sd p b" by (simp add: slipped_price_def algebra_simps)
  have am: "mult_of (?e - 22) (adj - p)" and a_abs: "\<bar>adj - p\<bar> \<le> 10 powi (?e + 61)"
    using pm im i_abs p_abs pos
    by (auto simp: adj max_def mult_of_minus mult_of_diff split: if_splits)
  then have "csub adj p = adj - p" unfolding csub_def by (rule exact_128 [OF _ powi_weaken]) simp_all
  moreover have "dec_round 128 \<bar>adj - p\<bar> = \<bar>adj - p\<bar>"
    by (rule exact_128 [OF mult_of_abs [OF am]], rule powi_weaken [where a = "?e + 61"]) (use a_abs in simp, simp)
  ultimately show "cabs (csub adj p) = \<bar>adj - p\<bar>" by (simp add: cabs_def)
  have aq: "mult_of (?e - 22 + dt_exponent quantity) (\<bar>adj - p\<bar> * q)"
    by (rule mult_of_mult [OF mult_of_abs [OF am] vq(1)])
  have aq_abs: "\<bar>\<bar>adj - p\<bar> * q\<bar> \<le> 10 powi (?e + 61 + (dt_exponent quantity + 28))"
    by (rule abs_mult_powi) (use a_abs vq(3) in simp_all)
  show "cmul \<bar>adj - p\<bar> q = \<bar>adj - p\<bar> * q"
    unfolding cmul_def by (rule exact_128 [OF aq powi_weaken [OF aq_abs]]) simp
qed

section \<open>The protocol\<close>

text \<open>
  A model is an object of type \<open>'m\<close> that its constructor accepted (\<open>valid\<close>); \<open>bps\<close> is the rate it applies to a
  liquidity role.
\<close>

locale slippage_model =
  fixes valid :: "'m \<Rightarrow> bool"
    and estimate :: "'m \<Rightarrow> side \<Rightarrow> decimal_tuple \<Rightarrow> decimal_tuple \<Rightarrow> liquidity_role \<Rightarrow> slippage_estimate result"
    and bps :: "'m \<Rightarrow> liquidity_role \<Rightarrow> rat"
  assumes accepts: "valid m \<Longrightarrow> (\<exists>e. estimate m sd price quantity role = Inr e) \<longleftrightarrow>
      bounded price \<and> bounded quantity \<and> 0 \<le> dec_value price \<and> 0 < dec_value quantity"
    and bps_nonneg: "valid m \<Longrightarrow> 0 \<le> bps m role"
    and moves: "valid m \<Longrightarrow> estimate m sd price quantity role = Inr e \<Longrightarrow>
      se_input_price e = dec_value price \<and> se_quantity e = dec_value quantity \<and>
      se_adjusted_price e = slipped_price sd (dec_value price) (bps m role) \<and>
      se_slippage_amount_per_unit e = \<bar>se_adjusted_price e - dec_value price\<bar> \<and>
      se_total_slippage e = se_slippage_amount_per_unit e * dec_value quantity"
begin

text \<open>Slippage never helps, and its total is what the order pays more or receives less.\<close>

lemma slippage_is_cost:
  assumes "valid m" and "estimate m sd price quantity role = Inr e"
  shows "0 \<le> se_adjusted_price e \<and> 0 \<le> se_total_slippage e \<and>
    se_total_slippage e =
      (if sd = BUY then se_adjusted_price e * se_quantity e - se_input_price e * se_quantity e
       else se_input_price e * se_quantity e - se_adjusted_price e * se_quantity e)"
proof -
  have ok: "0 \<le> dec_value price" "0 < dec_value quantity"
    using accepts [OF assms(1), of sd price quantity role] assms(2) by blast+
  note m = moves [OF assms]
  have dir: "if sd = BUY then dec_value price \<le> se_adjusted_price e
      else 0 \<le> se_adjusted_price e \<and> se_adjusted_price e \<le> dec_value price"
    using ok(1) bps_nonneg [OF assms(1), of role] m by (auto simp: slipped_price_def algebra_simps)
  have "se_slippage_amount_per_unit e =
      (if sd = BUY then se_adjusted_price e - dec_value price else dec_value price - se_adjusted_price e)"
    using m dir by (auto simp: abs_if split: if_splits)
  with m dir ok show ?thesis by (cases "sd = BUY") (simp_all add: left_diff_distrib)
qed

end

lemma bps_slippage_estimate_cases:
  assumes "bounded rate" and "0 \<le> dec_value rate"
  shows "bps_slippage_estimate rate sd price quantity role = Inr e \<longleftrightarrow>
    bounded price \<and> bounded quantity \<and> 0 \<le> dec_value price \<and> 0 < dec_value quantity \<and>
    (let p = dec_value price; q = dec_value quantity; b = (if role = TAKER then dec_value rate else 0);
         a = slipped_price sd p b
     in e = \<lparr>se_side = sd, se_liquidity_role = role, se_input_price = p, se_adjusted_price = a, se_quantity = q,
             se_slippage_bps = b, se_slippage_amount_per_unit = \<bar>a - p\<bar>, se_total_slippage = \<bar>a - p\<bar> * q\<rparr>)"
proof (cases "bounded price \<and> bounded quantity \<and> 0 \<le> dec_value price \<and> 0 < dec_value quantity")
  case False
  then show ?thesis by (auto simp: bps_slippage_estimate_def bindE_eq_Inr validate_slippage_inputs_iff)
next
  case True
  then have ok: "validate_slippage_inputs price quantity = Inr (dec_value price, dec_value quantity)"
    by (simp add: validate_slippage_inputs_iff)
  note x = slippage_arithmetic_exact [of price quantity rate sd] 
  show ?thesis
  proof (cases "role \<noteq> TAKER \<or> dec_value rate = 0")
    case True
    then have "slipped_price sd (dec_value price) (if role = TAKER then dec_value rate else 0) = dec_value price"
      using \<open>bounded price \<and> _\<close> by (auto simp: slipped_price_def)
    then show ?thesis using ok True \<open>bounded price \<and> _\<close>
      by (auto simp: bps_slippage_estimate_def unadjusted_def Let_def)
  next
    case taker: False
    then show ?thesis
      using ok True assms x by (auto simp: bps_slippage_estimate_def Let_def)
  qed
qed

definition bps_model_valid :: "decimal_tuple \<Rightarrow> bool" where
  "bps_model_valid rate \<longleftrightarrow> mk_bps_slippage_model rate = Inr rate"

lemma bps_model_valid_iff: "bps_model_valid rate \<longleftrightarrow> bounded rate \<and> 0 \<le> dec_value rate"
  by (auto simp: bps_model_valid_def mk_bps_slippage_model_def bindE_eq_Inr parse_bounded_iff)

interpretation no_slippage: slippage_model "\<lambda>_ :: unit. True" "\<lambda>_. no_slippage_estimate" "\<lambda>_ _. 0"
  by unfold_locales
    (auto simp: no_slippage_estimate_def bindE_eq_Inr validate_slippage_inputs_iff unadjusted_def slipped_price_def)

interpretation bps_slippage: slippage_model bps_model_valid bps_slippage_estimate
  "\<lambda>rate role. if role = TAKER then dec_value rate else 0"
  by unfold_locales (auto simp: bps_model_valid_iff bps_slippage_estimate_cases Let_def)

section \<open>Properties\<close>

text \<open>
  Slippage of the basis-point model is exact and never favourable. For every rate the model accepts,
  an estimate succeeds exactly for prices and quantities within the decimal bounds; a taker's price
  moves against it by the rate (a sell not below zero), others keep theirs; no step is rounded; and the total
  slippage is precisely the extra cost of a buy or the missing proceeds of a sell.
\<close>

theorem slippage_exact_and_adverse:
  assumes "bps_slippage_from_configuration c = Inr rate"
  shows "(\<exists>e. bps_slippage_estimate rate sd price quantity role = Inr e \<and>
      se_adjusted_price e = slipped_price sd (dec_value price) (if role = TAKER then dec_value rate else 0) \<and>
      0 \<le> se_adjusted_price e \<and> 0 \<le> se_total_slippage e \<and>
      se_total_slippage e =
        (if sd = BUY then se_adjusted_price e * dec_value quantity - dec_value price * dec_value quantity
         else dec_value price * dec_value quantity - se_adjusted_price e * dec_value quantity))
    \<longleftrightarrow> bounded price \<and> bounded quantity \<and> 0 \<le> dec_value price \<and> 0 < dec_value quantity"
proof -
  have v: "bps_model_valid rate"
    using assms by (auto simp: bps_slippage_from_configuration_def bps_model_valid_def mk_bps_slippage_model_def
        bindE_eq_Inr split: if_splits option.splits)
  show ?thesis
    using bps_slippage.accepts [OF v, of sd price quantity role] bps_slippage.moves [OF v, of sd price quantity role]
      bps_slippage.slippage_is_cost [OF v, of sd price quantity role]
    by fastforce
qed

theorem slippage_exact_and_adverse_witness:
  "\<exists>e. bps_slippage_estimate \<lparr>dt_coefficient = 50, dt_exponent = 0\<rparr> BUY \<lparr>dt_coefficient = 4, dt_exponent = - 1\<rparr>
      \<lparr>dt_coefficient = 10, dt_exponent = 0\<rparr> TAKER = Inr e \<and>
    se_adjusted_price e = 402 / 1000 \<and> se_total_slippage e = 2 / 100"
proof -
  let ?c = "\<lparr>sc_simulation_version = ''v'', sc_fill_model = ''f'', sc_queue_model = ''q'', sc_latency_model = ''l'',
    sc_fee_model = ''f'', sc_rejection_model = ''r'', sc_slippage_model = ''bps_slippage_v1'', sc_settlement_model = ''s'',
    sc_random_seed = 0, sc_fixed_latency_ms = None, sc_maker_fill_probability = None,
    sc_taker_slippage_bps = Some \<lparr>dt_coefficient = 50, dt_exponent = 0\<rparr>, sc_parameters = []\<rparr>"
  have "bps_slippage_from_configuration ?c = Inr \<lparr>dt_coefficient = 50, dt_exponent = 0\<rparr>"
    by (simp add: bps_slippage_from_configuration_def mk_bps_slippage_model_def bindE_eq_Inr parse_bounded_iff
        bounded_def dt_digits_def dt_adjusted_def dec_value_def ndigits_small ndigits_large)
  from slippage_exact_and_adverse [OF this, of BUY "\<lparr>dt_coefficient = 4, dt_exponent = - 1\<rparr>"
      "\<lparr>dt_coefficient = 10, dt_exponent = 0\<rparr>" TAKER]
  obtain e where
    "bps_slippage_estimate \<lparr>dt_coefficient = 50, dt_exponent = 0\<rparr> BUY \<lparr>dt_coefficient = 4, dt_exponent = - 1\<rparr>
      \<lparr>dt_coefficient = 10, dt_exponent = 0\<rparr> TAKER = Inr e"
    "se_adjusted_price e = slipped_price BUY (4 * 10 powi (- 1)) 50"
    "se_total_slippage e = se_adjusted_price e * 10 - 4 * 10 powi (- 1) * 10"
    by (auto simp: bounded_def dt_digits_def dt_adjusted_def dec_value_def ndigits_small ndigits_large)
  then show ?thesis by (intro exI [of _ e] conjI) (simp_all add: slipped_price_def power_int_minus)
qed

end
