(* ===== verification/Order_Book.thy ===== *)
theory Order_Book
  imports Schemas
begin

text \<open>
  \<open>src/pmrp/simulation/order_book.py\<close> and the market-data schemas it works on
  (\<open>src/pmrp/schemas/market_data.py\<close>): projecting an order book by applying deltas.

  The abstract book of a side is a finite map from price to level. The lemmas show that applying a
  delta refines the pointwise update of that map, that books stay strictly sorted, that the sequence
  advances by one per delta, when a delta is rejected, and what the top of the book is.
\<close>

section \<open>Market data\<close>

record order_book_level =
  lv_price :: rat
  lv_quantity :: rat
  lv_order_count :: "int option"

record order_book_snapshot =
  ob_market_id :: ident
  ob_contract_id :: ident
  ob_exchange :: string
  ob_sequence :: "int option"
  ob_exchange_occurred_at :: "instant option"
  ob_received_at :: instant
  ob_bids :: "order_book_level list"
  ob_asks :: "order_book_level list"
  ob_is_valid :: bool
  ob_snapshot_reason :: string

datatype order_book_delta_action = UPSERT | DELETE

record order_book_delta_level =
  dl_side :: side
  dl_price :: rat
  dl_quantity :: rat
  dl_action :: order_book_delta_action

record order_book_delta =
  od_market_id :: ident
  od_contract_id :: ident
  od_exchange :: string
  od_sequence :: "int option"
  od_previous_sequence :: "int option"
  od_exchange_occurred_at :: "instant option"
  od_received_at :: instant
  od_changes :: "order_book_delta_level list"

record trade =
  td_trade_id :: string
  td_exchange :: string
  td_exchange_trade_id :: string
  td_market_id :: ident
  td_contract_id :: ident
  td_outcome_id :: ident
  td_price :: rat
  td_quantity :: rat
  td_aggressor_side :: "side option"
  td_liquidity_role :: liquidity_role
  td_exchange_occurred_at :: instant
  td_received_at :: instant
  td_sequence :: "int option"

text \<open>The two ordering checks carry the previous value through the loop.\<close>

fun strictly_descending :: "rat option \<Rightarrow> rat list \<Rightarrow> bool" where
  "strictly_descending previous [] = True"
| "strictly_descending previous (v # vs) =
     (if (case previous of None \<Rightarrow> False | Some p \<Rightarrow> p \<le> v) then False
      else strictly_descending (Some v) vs)"

fun strictly_ascending :: "rat option \<Rightarrow> rat list \<Rightarrow> bool" where
  "strictly_ascending previous [] = True"
| "strictly_ascending previous (v # vs) =
     (if (case previous of None \<Rightarrow> False | Some p \<Rightarrow> v \<le> p) then False
      else strictly_ascending (Some v) vs)"

definition level_ok :: "order_book_level \<Rightarrow> bool" where
  "level_ok l \<longleftrightarrow> 0 \<le> lv_price l \<and> 0 \<le> lv_quantity l \<and> pred_option (\<lambda>n. 0 \<le> n) (lv_order_count l)"

definition mk_order_book_snapshot :: "order_book_snapshot \<Rightarrow> order_book_snapshot result" where
  "mk_order_book_snapshot s =
     bindE (guards
       [(\<not> text_in 1 64 (ob_exchange s), ValidationError (Out_of_range F_exchange)),
        (\<not> pred_option (\<lambda>n. 0 \<le> n) (ob_sequence s), ValidationError (Out_of_range F_sequence)),
        (\<not> list_all level_ok (ob_bids s @ ob_asks s), ValidationError (Out_of_range F_price)),
        (\<not> text_in 1 128 (ob_snapshot_reason s), ValidationError (Out_of_range F_text)),
        (\<not> strictly_descending None (map lv_price (ob_bids s)), ValidationError Bids_not_descending),
        (\<not> strictly_ascending None (map lv_price (ob_asks s)), ValidationError Asks_not_ascending)])
       (\<lambda>_. Inr s)"

definition delta_level_ok :: "order_book_delta_level \<Rightarrow> bool" where
  "delta_level_ok c \<longleftrightarrow> 0 \<le> dl_price c \<and> 0 \<le> dl_quantity c"

definition delta_valid :: "order_book_delta \<Rightarrow> bool" where
  "delta_valid d \<longleftrightarrow> text_in 1 64 (od_exchange d) \<and> pred_option (\<lambda>n. 0 \<le> n) (od_sequence d) \<and>
     pred_option (\<lambda>n. 0 \<le> n) (od_previous_sequence d) \<and> list_all delta_level_ok (od_changes d)"

definition book_valid :: "order_book_snapshot \<Rightarrow> bool" where
  "book_valid s \<longleftrightarrow> mk_order_book_snapshot s = Inr s"

section \<open>Reading the book\<close>

definition validate_snapshot :: "order_book_snapshot \<Rightarrow> unit result" where
  "validate_snapshot s = guards [(\<not> ob_is_valid s, SimulationInputError Snapshot_invalid)]"

definition best_bid :: "order_book_snapshot \<Rightarrow> order_book_level option result" where
  "best_bid s = bindE (validate_snapshot s) (\<lambda>_.
     Inr (case ob_bids s of [] \<Rightarrow> None | l # _ \<Rightarrow> Some l))"

definition best_ask :: "order_book_snapshot \<Rightarrow> order_book_level option result" where
  "best_ask s = bindE (validate_snapshot s) (\<lambda>_.
     Inr (case ob_asks s of [] \<Rightarrow> None | l # _ \<Rightarrow> Some l))"

definition spread :: "order_book_snapshot \<Rightarrow> rat option result" where
  "spread s = bindE (best_bid s) (\<lambda>bid. bindE (best_ask s) (\<lambda>ask.
     Inr (case (bid, ask) of (Some b, Some a) \<Rightarrow> Some (dsub (lv_price a) (lv_price b)) | _ \<Rightarrow> None)))"

definition is_crossed :: "order_book_snapshot \<Rightarrow> bool result" where
  "is_crossed s = bindE (spread s) (\<lambda>current. Inr (case current of None \<Rightarrow> False | Some x \<Rightarrow> x \<le> 0))"

section \<open>Applying deltas\<close>

definition validate_lineage :: "order_book_snapshot \<Rightarrow> order_book_delta \<Rightarrow> (bool \<times> py_error) list" where
  "validate_lineage s d =
     [(ob_market_id s \<noteq> od_market_id d, SimulationInputError Market_mismatch),
      (ob_contract_id s \<noteq> od_contract_id d, SimulationInputError Contract_mismatch),
      (ob_exchange s \<noteq> od_exchange d, SimulationInputError Exchange_mismatch)]"

definition validate_sequence :: "order_book_snapshot \<Rightarrow> order_book_delta \<Rightarrow> (bool \<times> py_error) list" where
  "validate_sequence s d =
     (let both = (\<lambda>P a b. case (a, b) of (Some x, Some y) \<Rightarrow> P x y | _ \<Rightarrow> False) in
     [(ob_sequence s = None \<and> (od_previous_sequence d \<noteq> None \<or> od_sequence d \<noteq> None),
         SimulationInputError Sequence_ambiguous),
      (ob_sequence s \<noteq> None \<and> od_sequence d = None, SimulationInputError Sequence_ambiguous),
      (both (\<lambda>x y. x \<noteq> y) (ob_sequence s) (od_previous_sequence d), SimulationInputError Sequence_mismatch),
      (both (\<lambda>x y. y \<le> x) (ob_sequence s) (od_sequence d), SimulationInputError Sequence_stale),
      (both (\<lambda>x y. y \<noteq> x + 1) (ob_sequence s) (od_sequence d), SimulationInputError Sequence_gap),
      (both (\<lambda>x y. y \<noteq> x + 1) (od_previous_sequence d) (od_sequence d),
         SimulationInputError Sequence_invalid)])"

definition validate_snapshot_reason :: "string \<Rightarrow> string result" where
  "validate_snapshot_reason reason =
     (if blank_or_padded reason then Inl (ValueError F_text) else Inr reason)"

type_synonym price_levels = "(rat \<times> order_book_level) list"

definition levels_by_price :: "order_book_level list \<Rightarrow> price_levels" where
  "levels_by_price ls = foldl (\<lambda>d l. dict_set (lv_price l) l d) [] ls"

definition change_side :: "order_book_delta_level \<Rightarrow> price_levels \<Rightarrow> price_levels" where
  "change_side c target =
     (if dl_action c = DELETE \<or> dl_quantity c = 0 then dict_pop (dl_price c) target
      else dict_set (dl_price c)
        \<lparr>lv_price = dl_price c, lv_quantity = dl_quantity c, lv_order_count = None\<rparr> target)"

fun apply_change :: "price_levels \<times> price_levels \<Rightarrow> order_book_delta_level \<Rightarrow> price_levels \<times> price_levels" where
  "apply_change (bids, asks) c =
     (if dl_side c = BUY then (change_side c bids, asks) else (bids, change_side c asks))"

definition sorted_levels :: "price_levels \<Rightarrow> bool \<Rightarrow> order_book_level list" where
  "sorted_levels levels reverse =
     sort_key (\<lambda>l. if reverse then - lv_price l else lv_price l) (map snd levels)"

definition apply_order_book_delta ::
  "order_book_snapshot \<Rightarrow> order_book_delta \<Rightarrow> string \<Rightarrow> order_book_snapshot result" where
  "apply_order_book_delta s d reason =
     bindE (validate_snapshot s) (\<lambda>_.
     bindE (guards (validate_lineage s d)) (\<lambda>_.
     bindE (guards (validate_sequence s d)) (\<lambda>_.
     bindE (validate_snapshot_reason reason) (\<lambda>reason.
     case foldl apply_change (levels_by_price (ob_bids s), levels_by_price (ob_asks s)) (od_changes d) of
       (bids, asks) \<Rightarrow>
         mk_order_book_snapshot
           \<lparr>ob_market_id = ob_market_id s, ob_contract_id = ob_contract_id s, ob_exchange = ob_exchange s,
            ob_sequence = (case od_sequence d of Some n \<Rightarrow> Some n | None \<Rightarrow> ob_sequence s),
            ob_exchange_occurred_at = od_exchange_occurred_at d, ob_received_at = od_received_at d,
            ob_bids = sorted_levels bids True, ob_asks = sorted_levels asks False,
            ob_is_valid = True, ob_snapshot_reason = reason\<rparr>))))"

definition apply_order_book_deltas ::
  "order_book_snapshot \<Rightarrow> order_book_delta list \<Rightarrow> string \<Rightarrow> order_book_snapshot result" where
  "apply_order_book_deltas s ds reason = foldE (\<lambda>projected d. apply_order_book_delta projected d reason) s ds"

section \<open>Sortedness and lookups\<close>

lemma strictly_descending_iff:
  "strictly_descending p vs \<longleftrightarrow> sorted_wrt (>) (case p of None \<Rightarrow> vs | Some x \<Rightarrow> x # vs)"
  by (induction p vs rule: strictly_descending.induct) (auto split: option.splits)

lemma strictly_ascending_iff:
  "strictly_ascending p vs \<longleftrightarrow> sorted_wrt (<) (case p of None \<Rightarrow> vs | Some x \<Rightarrow> x # vs)"
  by (induction p vs rule: strictly_ascending.induct) (auto split: option.splits)

lemma book_valid_iff:
  "book_valid s \<longleftrightarrow> text_in 1 64 (ob_exchange s) \<and> pred_option (\<lambda>n. 0 \<le> n) (ob_sequence s) \<and>
     list_all level_ok (ob_bids s) \<and> list_all level_ok (ob_asks s) \<and> text_in 1 128 (ob_snapshot_reason s) \<and>
     sorted_wrt (>) (map lv_price (ob_bids s)) \<and> sorted_wrt (<) (map lv_price (ob_asks s))"
  by (auto simp: book_valid_def mk_order_book_snapshot_def bindE_eq_Inr guards_ok_iff
      strictly_descending_iff strictly_ascending_iff)

lemma mk_order_book_snapshot_cases: "mk_order_book_snapshot s = Inr s' \<longleftrightarrow> s' = s \<and> book_valid s"
  by (auto simp: book_valid_def mk_order_book_snapshot_def bindE_eq_Inr)

text \<open>A dictionary of levels: distinct keys, and every level is stored at its price.\<close>

definition wf_levels :: "price_levels \<Rightarrow> bool" where
  "wf_levels d \<longleftrightarrow> distinct (map fst d) \<and> list_all (\<lambda>(p, l). p = lv_price l \<and> level_ok l) d"

lemma list_all_dict_set: "list_all P d \<Longrightarrow> P (k, v) \<Longrightarrow> list_all P (dict_set k v d)"
  by (induction k v d rule: dict_set.induct) auto

lemma list_all_dict_pop: "list_all P d \<Longrightarrow> list_all P (dict_pop k d)"
  by (induction k d rule: dict_pop.induct) auto

lemma wf_change_side: "wf_levels d \<Longrightarrow> delta_level_ok c \<Longrightarrow> wf_levels (change_side c d)"
  by (auto simp: wf_levels_def change_side_def delta_level_ok_def level_ok_def
      intro: distinct_dict_set distinct_dict_pop list_all_dict_set list_all_dict_pop)

lemma wf_levels_by_price: "list_all level_ok ls \<Longrightarrow> wf_levels (levels_by_price ls)"
proof -
  have "list_all level_ok ls \<Longrightarrow> wf_levels d \<Longrightarrow> wf_levels (foldl (\<lambda>d l. dict_set (lv_price l) l d) d ls)" for d
    by (induction ls arbitrary: d) (auto simp: wf_levels_def distinct_dict_set list_all_dict_set)
  then show "list_all level_ok ls \<Longrightarrow> ?thesis" by (simp add: levels_by_price_def wf_levels_def)
qed

text \<open>The abstract book of one side.\<close>

definition abs_levels :: "order_book_level list \<Rightarrow> rat \<Rightarrow> order_book_level option" where
  "abs_levels ls = map_of (map (\<lambda>l. (lv_price l, l)) ls)"

lemma levels_by_price_lookup:
  assumes "distinct (map lv_price ls)"
  shows "map_of (levels_by_price ls) = abs_levels ls"
proof -
  have "distinct (map lv_price ls) \<Longrightarrow> map_of (foldl (\<lambda>d l. dict_set (lv_price l) l d) d ls) p =
      (case abs_levels ls p of Some l \<Rightarrow> Some l | None \<Rightarrow> map_of d p)" for d p
    by (induction ls arbitrary: d)
      (auto simp: abs_levels_def map_of_dict_set map_of_eq_None_iff image_image split: option.splits
        dest!: map_of_SomeD)
  from this [of "[]"] assms show ?thesis
    by (auto simp: levels_by_price_def fun_eq_iff split: option.splits)
qed

definition abs_change :: "order_book_delta_level \<Rightarrow> (rat \<Rightarrow> order_book_level option) \<Rightarrow> rat \<Rightarrow> order_book_level option" where
  "abs_change c m =
     m(dl_price c := if dl_action c = DELETE \<or> dl_quantity c = 0 then None
       else Some \<lparr>lv_price = dl_price c, lv_quantity = dl_quantity c, lv_order_count = None\<rparr>)"

lemma change_side_lookup: "wf_levels d \<Longrightarrow> map_of (change_side c d) = abs_change c (map_of d)"
  by (simp add: wf_levels_def change_side_def abs_change_def map_of_dict_set map_of_dict_pop)

lemma sorted_levels_sorted:
  assumes "wf_levels d"
  shows "sorted_wrt (>) (map lv_price (sorted_levels d True))"
    and "sorted_wrt (<) (map lv_price (sorted_levels d False))"
    and "list_all level_ok (sorted_levels d r)" and "abs_levels (sorted_levels d r) = map_of d"
proof -
  have keys: "map fst d = map lv_price (map snd d)" and ok: "list_all level_ok (map snd d)"
    using assms by (auto simp: wf_levels_def list_all_iff)
  have dist: "distinct (map lv_price (map snd d))" using assms keys by (metis wf_levels_def)
  then have dist': "distinct (map lv_price (sorted_levels d r))" for r
    by (simp add: sorted_levels_def distinct_map inj_on_def) blast
  show "sorted_wrt (<) (map lv_price (sorted_levels d False))"
    using dist' [of False] by (simp add: strict_sorted_iff sorted_levels_def)
  have "sorted (map (\<lambda>l. - lv_price l) (sorted_levels d True))" by (simp add: sorted_levels_def)
  moreover have "distinct (map (\<lambda>l. - lv_price l) (sorted_levels d True))"
    using dist' [of True] by (simp add: distinct_map inj_on_def)
  ultimately have "sorted_wrt (<) (map (\<lambda>l. - lv_price l) (sorted_levels d True))"
    by (simp add: strict_sorted_iff)
  then show "sorted_wrt (>) (map lv_price (sorted_levels d True))" by (simp add: sorted_wrt_map)
  show "list_all level_ok (sorted_levels d r)" using ok by (simp add: sorted_levels_def list_all_iff)
  have "set (map (\<lambda>l. (lv_price l, l)) (sorted_levels d r)) = set d"
  proof -
    have "map (\<lambda>l. (lv_price l, l)) (map snd d) = d"
      using assms by (induction d) (auto simp: wf_levels_def)
    then have "set d = (\<lambda>l. (lv_price l, l)) ` set (map snd d)" by (metis set_map)
    then show ?thesis by (simp add: sorted_levels_def)
  qed
  moreover have "distinct (map fst (map (\<lambda>l. (lv_price l, l)) (sorted_levels d r)))"
    using dist' by (simp add: comp_def)
  ultimately show "abs_levels (sorted_levels d r) = map_of d"
    using assms unfolding abs_levels_def wf_levels_def by (simp add: map_of_inject_set)
qed

section \<open>One delta\<close>

definition abs_book :: "order_book_snapshot \<Rightarrow> side \<Rightarrow> rat \<Rightarrow> order_book_level option" where
  "abs_book s sd = abs_levels (case sd of BUY \<Rightarrow> ob_bids s | SELL \<Rightarrow> ob_asks s)"

definition abs_apply :: "(side \<Rightarrow> rat \<Rightarrow> order_book_level option) \<Rightarrow> order_book_delta_level \<Rightarrow>
   side \<Rightarrow> rat \<Rightarrow> order_book_level option" where
  "abs_apply m c = m(dl_side c := abs_change c (m (dl_side c)))"

definition abs_dicts :: "price_levels \<times> price_levels \<Rightarrow> side \<Rightarrow> rat \<Rightarrow> order_book_level option" where
  "abs_dicts ds sd = map_of (case sd of BUY \<Rightarrow> fst ds | SELL \<Rightarrow> snd ds)"

lemma fold_changes:
  assumes "wf_levels (fst ds)" "wf_levels (snd ds)" "list_all delta_level_ok cs"
  shows "wf_levels (fst (foldl apply_change ds cs))" "wf_levels (snd (foldl apply_change ds cs))"
    and "abs_dicts (foldl apply_change ds cs) = foldl abs_apply (abs_dicts ds) cs"
proof -
  have "wf_levels (fst (foldl apply_change ds cs)) \<and> wf_levels (snd (foldl apply_change ds cs)) \<and>
      abs_dicts (foldl apply_change ds cs) = foldl abs_apply (abs_dicts ds) cs"
    using assms
  proof (induction cs arbitrary: ds)
    case Nil
    then show ?case by simp
  next
    case (Cons c cs)
    obtain b a where ds: "ds = (b, a)" by (cases ds)
    have wf: "wf_levels b" "wf_levels a" "delta_level_ok c" using Cons.prems ds by auto
    have "wf_levels (fst (apply_change ds c))" "wf_levels (snd (apply_change ds c))"
      using wf wf_change_side by (auto simp: ds)
    moreover have "abs_dicts (apply_change ds c) = abs_apply (abs_dicts ds) c"
      using change_side_lookup [of b c] change_side_lookup [of a c] wf
      by (cases "dl_side c") (auto simp: ds abs_dicts_def abs_apply_def fun_eq_iff split: side.splits)
    ultimately show ?case using Cons by simp
  qed
  then show "wf_levels (fst (foldl apply_change ds cs))" "wf_levels (snd (foldl apply_change ds cs))"
    "abs_dicts (foldl apply_change ds cs) = foldl abs_apply (abs_dicts ds) cs" by auto
qed

definition next_sequence :: "int option \<Rightarrow> order_book_delta \<Rightarrow> bool" where
  "next_sequence sq d \<longleftrightarrow>
     (case sq of
        None \<Rightarrow> od_sequence d = None \<and> od_previous_sequence d = None
      | Some n \<Rightarrow> od_sequence d = Some (n + 1) \<and> (od_previous_sequence d = None \<or> od_previous_sequence d = Some n))"

lemma validate_sequence_iff: "guards (validate_sequence s d) = Inr u \<longleftrightarrow> next_sequence (ob_sequence s) d"
  by (cases "ob_sequence s"; cases "od_sequence d"; cases "od_previous_sequence d")
    (auto simp: validate_sequence_def guards_ok_iff next_sequence_def Let_def simp del: guards.simps)

definition delta_accepted :: "order_book_snapshot \<Rightarrow> order_book_delta \<Rightarrow> string \<Rightarrow> bool" where
  "delta_accepted s d reason \<longleftrightarrow>
     ob_is_valid s \<and> ob_market_id s = od_market_id d \<and> ob_contract_id s = od_contract_id d \<and>
     ob_exchange s = od_exchange d \<and> next_sequence (ob_sequence s) d \<and>
     \<not> blank_or_padded reason \<and> length reason \<le> 128"

definition projected_book :: "order_book_snapshot \<Rightarrow> order_book_delta \<Rightarrow> string \<Rightarrow> order_book_snapshot" where
  "projected_book s d reason =
     (let ds = foldl apply_change (levels_by_price (ob_bids s), levels_by_price (ob_asks s)) (od_changes d) in
      \<lparr>ob_market_id = ob_market_id s, ob_contract_id = ob_contract_id s, ob_exchange = ob_exchange s,
       ob_sequence = (case od_sequence d of Some n \<Rightarrow> Some n | None \<Rightarrow> ob_sequence s),
       ob_exchange_occurred_at = od_exchange_occurred_at d, ob_received_at = od_received_at d,
       ob_bids = sorted_levels (fst ds) True, ob_asks = sorted_levels (snd ds) False,
       ob_is_valid = True, ob_snapshot_reason = reason\<rparr>)"

lemma descending_distinct: "sorted_wrt (>) xs \<Longrightarrow> distinct (xs :: rat list)"
  by (induction xs) auto

lemma ascending_distinct: "sorted_wrt (<) xs \<Longrightarrow> distinct (xs :: rat list)"
  by (simp add: strict_sorted_iff)

lemma projected_book_valid:
  assumes "book_valid s" "delta_valid d" "\<not> blank_or_padded reason" "length reason \<le> 128"
  shows "book_valid (projected_book s d reason)"
    and "abs_book (projected_book s d reason) = foldl abs_apply (abs_book s) (od_changes d)"
proof -
  let ?ds = "(levels_by_price (ob_bids s), levels_by_price (ob_asks s))"
  have s: "list_all level_ok (ob_bids s)" "list_all level_ok (ob_asks s)"
    "distinct (map lv_price (ob_bids s))" "distinct (map lv_price (ob_asks s))"
    using assms(1) by (auto simp: book_valid_iff dest: descending_distinct ascending_distinct)
  have changes: "list_all delta_level_ok (od_changes d)" using assms(2) by (simp add: delta_valid_def)
  note f = fold_changes [of ?ds, OF _ _ changes]
  have wf: "wf_levels (fst (foldl apply_change ?ds (od_changes d)))"
    "wf_levels (snd (foldl apply_change ?ds (od_changes d)))"
    and abs: "abs_dicts (foldl apply_change ?ds (od_changes d)) = foldl abs_apply (abs_dicts ?ds) (od_changes d)"
    using f s(1,2) by (simp_all add: wf_levels_by_price)
  have "1 \<le> length reason" using assms(3) by (cases reason) (auto simp: blank_or_padded_def)
  moreover have "pred_option (\<lambda>n. 0 \<le> n) (case od_sequence d of Some n \<Rightarrow> Some n | None \<Rightarrow> ob_sequence s)"
    using assms(1,2) by (auto simp: book_valid_iff delta_valid_def split: option.splits)
  ultimately show "book_valid (projected_book s d reason)"
    using sorted_levels_sorted [OF wf(1)] sorted_levels_sorted [OF wf(2)] assms(1,4)
    by (simp add: book_valid_iff projected_book_def Let_def) (simp add: text_in_def)
  have "abs_book (projected_book s d reason) = abs_dicts (foldl apply_change ?ds (od_changes d))"
    using sorted_levels_sorted(4) [OF wf(1)] sorted_levels_sorted(4) [OF wf(2)]
    by (auto simp: abs_book_def abs_dicts_def projected_book_def Let_def fun_eq_iff split: side.splits)
  moreover have "abs_dicts ?ds = abs_book s"
    using levels_by_price_lookup [OF s(3)] levels_by_price_lookup [OF s(4)]
    by (auto simp: abs_book_def abs_dicts_def fun_eq_iff split: side.splits)
  ultimately show "abs_book (projected_book s d reason) = foldl abs_apply (abs_book s) (od_changes d)"
    using abs by simp
qed

lemma apply_delta_cases:
  assumes "book_valid s" "delta_valid d"
  shows "apply_order_book_delta s d reason = Inr s' \<longleftrightarrow> delta_accepted s d reason \<and> s' = projected_book s d reason"
proof -
  have eq: "apply_order_book_delta s d reason =
      bindE (validate_snapshot s) (\<lambda>_. bindE (guards (validate_lineage s d)) (\<lambda>_.
      bindE (guards (validate_sequence s d)) (\<lambda>_. bindE (validate_snapshot_reason reason) (\<lambda>reason.
        mk_order_book_snapshot (projected_book s d reason)))))"
    by (simp add: apply_order_book_delta_def projected_book_def Let_def case_prod_beta')
  have reason: "book_valid (projected_book s d reason) \<Longrightarrow> length reason \<le> 128"
    by (simp add: book_valid_iff projected_book_def Let_def text_in_def)
  show ?thesis
    using projected_book_valid(1) [OF assms, of reason] reason
    unfolding eq bindE_eq_Inr validate_sequence_iff mk_order_book_snapshot_cases
    by (auto simp: validate_snapshot_def validate_lineage_def guards_ok_iff validate_snapshot_reason_def
        delta_accepted_def simp del: guards.simps split: if_splits)
qed

text \<open>A small sequenced book and the delta that follows it, for the witnesses.\<close>

definition level_at :: "rat \<Rightarrow> rat \<Rightarrow> order_book_level" where
  "level_at p q = \<lparr>lv_price = p, lv_quantity = q, lv_order_count = None\<rparr>"

definition sample_book :: order_book_snapshot where
  "sample_book =
     \<lparr>ob_market_id = ''m'', ob_contract_id = ''c'', ob_exchange = ''e'', ob_sequence = Some 4,
      ob_exchange_occurred_at = None, ob_received_at = 1, ob_bids = [level_at (1 / 2) 3, level_at (2 / 5) 1],
      ob_asks = [level_at (3 / 5) 2], ob_is_valid = True, ob_snapshot_reason = ''r''\<rparr>"

definition sample_delta :: order_book_delta where
  "sample_delta =
     \<lparr>od_market_id = ''m'', od_contract_id = ''c'', od_exchange = ''e'', od_sequence = Some 5,
      od_previous_sequence = Some 4, od_exchange_occurred_at = None, od_received_at = 2,
      od_changes = [\<lparr>dl_side = BUY, dl_price = 11 / 20, dl_quantity = 7, dl_action = UPSERT\<rparr>,
        \<lparr>dl_side = BUY, dl_price = 2 / 5, dl_quantity = 0, dl_action = UPSERT\<rparr>]\<rparr>"

lemma sample_valid: "book_valid sample_book" "delta_valid sample_delta" "ob_is_valid sample_book"
  "delta_accepted sample_book sample_delta ''d''"
  by (simp_all add: book_valid_iff delta_valid_def delta_accepted_def sample_book_def sample_delta_def
      level_at_def level_ok_def delta_level_ok_def text_in_def next_sequence_def blank_or_padded_def py_strip_def py_isspace_def)

section \<open>Properties\<close>

text \<open>
  A delta is accepted exactly when it belongs to the book and carries the next sequence, and
  then it refines the map update. For a valid book and delta, \<open>apply_order_book_delta\<close> succeeds iff
  market, contract and exchange agree, the sequence is the next one (or neither side is sequenced) and
  the reason is a proper text; the new book is valid, and on each side it is the old price map with
  the changes applied in order: an upsert replaces the level, a delete or a zero quantity removes it.
\<close>

theorem delta_refines_map_update:
  assumes "book_valid s" and "delta_valid d"
  shows "(\<exists>s'. apply_order_book_delta s d reason = Inr s' \<and> book_valid s' \<and> ob_is_valid s' \<and>
      abs_book s' = foldl abs_apply (abs_book s) (od_changes d) \<and>
      ob_sequence s' = map_option (\<lambda>n. n + 1) (ob_sequence s) \<and> ob_received_at s' = od_received_at d)
    \<longleftrightarrow> delta_accepted s d reason"
proof
  assume acc: "delta_accepted s d reason"
  then have "\<not> blank_or_padded reason" "length reason \<le> 128" "next_sequence (ob_sequence s) d"
    by (auto simp: delta_accepted_def)
  moreover have "ob_sequence (projected_book s d reason) = map_option (\<lambda>n. n + 1) (ob_sequence s)"
    using \<open>next_sequence (ob_sequence s) d\<close>
    by (simp add: projected_book_def Let_def next_sequence_def split: option.splits)
  ultimately show "\<exists>s'. apply_order_book_delta s d reason = Inr s' \<and> book_valid s' \<and> ob_is_valid s' \<and>
      abs_book s' = foldl abs_apply (abs_book s) (od_changes d) \<and>
      ob_sequence s' = map_option (\<lambda>n. n + 1) (ob_sequence s) \<and> ob_received_at s' = od_received_at d"
    using acc projected_book_valid [OF assms] apply_delta_cases [OF assms, of reason]
    by (intro exI [of _ "projected_book s d reason"]) (simp add: projected_book_def Let_def)
qed (use apply_delta_cases [OF assms] in blast)

theorem delta_refines_map_update_witness:
  "(\<exists>s'. apply_order_book_delta sample_book sample_delta ''d'' = Inr s' \<and> book_valid s' \<and> ob_is_valid s' \<and>
      abs_book s' = foldl abs_apply (abs_book sample_book) (od_changes sample_delta) \<and>
      ob_sequence s' = Some 5 \<and> ob_received_at s' = 2)"
  using delta_refines_map_update [OF sample_valid(1,2), of "''d''"] sample_valid(4)
  by (simp add: sample_book_def sample_delta_def)

lemma deltas_run:
  assumes "book_valid s" and "list_all delta_valid ds" and "apply_order_book_deltas s ds reason = Inr s'"
  shows "book_valid s' \<and> abs_book s' = foldl abs_apply (abs_book s) (concat (map od_changes ds)) \<and>
    ob_sequence s' = map_option (\<lambda>n. n + int (length ds)) (ob_sequence s) \<and>
    (\<forall>n. ob_sequence s = Some n \<longrightarrow> map od_sequence ds = map (\<lambda>i. Some (n + 1 + int i)) [0..<length ds])"
  using assms
proof (induction ds arbitrary: s)
  case Nil
  then show ?case by (cases "ob_sequence s'") (auto simp: apply_order_book_deltas_def)
next
  case (Cons d ds)
  from Cons.prems(3) obtain s1 where s1: "apply_order_book_delta s d reason = Inr s1"
    and rest: "apply_order_book_deltas s1 ds reason = Inr s'"
    by (auto simp: apply_order_book_deltas_def bindE_eq_Inr)
  have dv: "delta_valid d" "list_all delta_valid ds" using Cons.prems(2) by auto
  from s1 have acc: "delta_accepted s d reason" and eq: "s1 = projected_book s d reason"
    using apply_delta_cases [OF Cons.prems(1) dv(1)] by auto
  have ok: "\<not> blank_or_padded reason" "length reason \<le> 128" and sq: "next_sequence (ob_sequence s) d"
    using acc by (auto simp: delta_accepted_def)
  note pv = projected_book_valid [OF Cons.prems(1) dv(1) ok, folded eq]
  have seq: "ob_sequence s1 = map_option (\<lambda>n. n + 1) (ob_sequence s)"
    using sq by (simp add: eq projected_book_def Let_def next_sequence_def split: option.splits)
  note IH = Cons.IH [OF pv(1) dv(2) rest]
  have shift: "map (\<lambda>i. Some (n + 1 + int i)) [0..<Suc (length ds)] =
      Some (n + 1) # map (\<lambda>i. Some (n + 1 + 1 + int i)) [0..<length ds]" for n
    by (simp only: upt_conv_Cons zero_less_Suc list.map map_Suc_upt [symmetric] map_map) (simp add: comp_def)
  show ?case
  proof (cases "ob_sequence s")
    case None
    then show ?thesis using IH pv(2) seq by simp
  next
    case (Some n)
    then have "od_sequence d = Some (n + 1)" using sq by (simp add: next_sequence_def)
    then show ?thesis using IH pv(2) seq Some shift [of n] by (auto simp del: upt_Suc)
  qed
qed

text \<open>
  C10: a replayed stream of deltas loses nothing. When every delta of a stream is accepted, the final
  book is valid, its price maps are the initial ones with all changes of all deltas applied in order,
  and on a sequenced book the deltas carried exactly the sequences after the initial one, in
  order and without a gap.
\<close>

theorem delta_stream_refines_map_updates:
  assumes "book_valid s" and "list_all delta_valid ds" and "apply_order_book_deltas s ds reason = Inr s'"
  shows "book_valid s' \<and> abs_book s' = foldl abs_apply (abs_book s) (concat (map od_changes ds)) \<and>
    ob_sequence s' = map_option (\<lambda>n. n + int (length ds)) (ob_sequence s) \<and>
    (\<forall>n. ob_sequence s = Some n \<longrightarrow> map od_sequence ds = map (\<lambda>i. Some (n + 1 + int i)) [0..<length ds])"
  using assms by (rule deltas_run)

theorem delta_stream_refines_map_updates_witness:
  "\<exists>s'. apply_order_book_deltas sample_book [sample_delta] ''d'' = Inr s' \<and>
     abs_book s' = foldl abs_apply (abs_book sample_book) (od_changes sample_delta) \<and> ob_sequence s' = Some 5"
proof -
  have run: "apply_order_book_deltas sample_book [sample_delta] ''d'' =
      Inr (projected_book sample_book sample_delta ''d'')"
    using apply_delta_cases [OF sample_valid(1,2), of "''d''" "projected_book sample_book sample_delta ''d''"]
      sample_valid(4)
    by (simp add: apply_order_book_deltas_def)
  then show ?thesis
    using delta_stream_refines_map_updates [OF sample_valid(1) _ run] sample_valid(2) by (simp add: sample_book_def)
qed

lemma best_levels:
  assumes "ob_is_valid s"
  shows "best_bid s = Inr (if ob_bids s = [] then None else Some (hd (ob_bids s)))"
    and "best_ask s = Inr (if ob_asks s = [] then None else Some (hd (ob_asks s)))"
  using assms by (simp_all add: best_bid_def best_ask_def validate_snapshot_def split: list.splits)

lemma is_crossed_eq:
  assumes "ob_is_valid s"
  shows "is_crossed s = Inr (ob_bids s \<noteq> [] \<and> ob_asks s \<noteq> [] \<and>
    lv_price (hd (ob_asks s)) \<le> lv_price (hd (ob_bids s)))"
  using best_levels [OF assms] by (simp add: is_crossed_def spread_def)

lemma top_is_extreme:
  "sorted_wrt (>) (map lv_price ls) \<Longrightarrow> ls \<noteq> [] \<Longrightarrow> \<forall>k \<in> set ls. lv_price k \<le> lv_price (hd ls)"
  by (cases ls) auto

lemma top_is_extreme':
  "sorted_wrt (<) (map lv_price ls) \<Longrightarrow> ls \<noteq> [] \<Longrightarrow> \<forall>k \<in> set ls. lv_price (hd ls) \<le> lv_price k"
  by (cases ls) auto

text \<open>
  The top of the book. In a valid book the best bid is the bid with the highest price and the
  best ask the ask with the lowest, each absent exactly when its side is empty; and the book counts
  as crossed exactly when some bid is priced at or above some ask, in spite of the rounding of the
  spread.
\<close>

theorem top_of_book:
  assumes "book_valid s" and "ob_is_valid s"
  shows "\<exists>b a x. best_bid s = Inr b \<and> best_ask s = Inr a \<and> is_crossed s = Inr x \<and>
    (b = None \<longleftrightarrow> ob_bids s = []) \<and> (a = None \<longleftrightarrow> ob_asks s = []) \<and>
    (\<forall>l. b = Some l \<longrightarrow> l \<in> set (ob_bids s) \<and> (\<forall>k \<in> set (ob_bids s). lv_price k \<le> lv_price l)) \<and>
    (\<forall>l. a = Some l \<longrightarrow> l \<in> set (ob_asks s) \<and> (\<forall>k \<in> set (ob_asks s). lv_price l \<le> lv_price k)) \<and>
    (x \<longleftrightarrow> (\<exists>k \<in> set (ob_bids s). \<exists>l \<in> set (ob_asks s). lv_price l \<le> lv_price k))"
proof -
  have sorted: "sorted_wrt (>) (map lv_price (ob_bids s))" "sorted_wrt (<) (map lv_price (ob_asks s))"
    using assms(1) by (auto simp: book_valid_iff)
  note top = best_levels [OF assms(2)] top_is_extreme [OF sorted(1)] top_is_extreme' [OF sorted(2)]
  show ?thesis
  proof (cases "ob_bids s = [] \<or> ob_asks s = []")
    case True
    then show ?thesis using top by (auto simp: is_crossed_eq [OF assms(2)])
  next
    case False
    then have ne: "ob_bids s \<noteq> []" "ob_asks s \<noteq> []" by auto
    have "(lv_price (hd (ob_asks s)) \<le> lv_price (hd (ob_bids s))) \<longleftrightarrow>
        (\<exists>k \<in> set (ob_bids s). \<exists>l \<in> set (ob_asks s). lv_price l \<le> lv_price k)"
      using top(3) [OF ne(1)] top(4) [OF ne(2)] ne by (meson hd_in_set order_trans)
    then show ?thesis using top ne by (simp add: is_crossed_eq [OF assms(2)])
  qed
qed

theorem top_of_book_witness:
  "\<exists>b a x. best_bid sample_book = Inr b \<and> best_ask sample_book = Inr a \<and> is_crossed sample_book = Inr x \<and>
    b \<noteq> None \<and> a \<noteq> None \<and> \<not> x"
proof -
  from top_of_book [OF sample_valid(1,3)] obtain b a x where
    "best_bid sample_book = Inr b" "best_ask sample_book = Inr a" "is_crossed sample_book = Inr x"
    "b = None \<longleftrightarrow> ob_bids sample_book = []" "a = None \<longleftrightarrow> ob_asks sample_book = []"
    "x \<longleftrightarrow> (\<exists>k \<in> set (ob_bids sample_book). \<exists>l \<in> set (ob_asks sample_book). lv_price l \<le> lv_price k)"
    by (elim exE conjE) (rule that; assumption)
  moreover have "ob_bids sample_book = [level_at (1 / 2) 3, level_at (2 / 5) 1]"
    "ob_asks sample_book = [level_at (3 / 5) 2]"
    by (simp_all add: sample_book_def)
  ultimately show ?thesis
    by (intro exI [of _ b] exI [of _ a] exI [of _ x] conjI) (simp_all add: level_at_def del: not_None_eq)
qed

end
