(* ===== verification/Fill_Models.thy ===== *)
theory Fill_Models
  imports Order_Book
begin

text \<open>
  \<open>src/pmrp/simulation/fill_models.py\<close>: fills of a simulated limit order against displayed depth.

  The protocol \<^verbatim>\<open>FillModel\<close> is the locale \<open>fill_model\<close>; the touch and the trade-through model are its
  two interpretations. The loop over the book is proved equal to a closed form (\<open>waterfall\<close>) in
  which the share of each level depends only on the depth before it.
\<close>

section \<open>Estimates\<close>

record fill_component =
  fc_price :: rat
  fc_quantity :: rat
  fc_liquidity_role :: liquidity_role

record fill_estimate =
  fe_side :: side
  fe_limit_price :: rat
  fe_order_quantity :: rat
  fe_filled_quantity :: rat
  fe_remaining_quantity :: rat
  fe_average_fill_price :: "rat option"
  fe_liquidity_role :: liquidity_role
  fe_components :: "fill_component list"
  fe_reason_code :: string

definition has_fill :: "fill_estimate \<Rightarrow> bool" where
  "has_fill e \<longleftrightarrow> 0 < fe_filled_quantity e"

definition is_partial :: "fill_estimate \<Rightarrow> bool" where
  "is_partial e \<longleftrightarrow> 0 < fe_filled_quantity e \<and> fe_filled_quantity e < fe_order_quantity e"

definition is_full :: "fill_estimate \<Rightarrow> bool" where
  "is_full e \<longleftrightarrow> fe_filled_quantity e = fe_order_quantity e"

definition validate_fill_inputs :: "order_book_snapshot \<Rightarrow> rat \<Rightarrow> rat \<Rightarrow> unit result" where
  "validate_fill_inputs s limit_price quantity =
     guards
       [(\<not> ob_is_valid s, SimulationInputError Fill_snapshot_invalid),
        (limit_price < 0, ValueError F_price),
        (quantity \<le> 0, ValueError F_quantity)]"

definition opposite_side_levels :: "order_book_snapshot \<Rightarrow> side \<Rightarrow> order_book_level list" where
  "opposite_side_levels s sd = (if sd = BUY then ob_asks s else ob_bids s)"

definition is_executable :: "side \<Rightarrow> rat \<Rightarrow> rat \<Rightarrow> bool \<Rightarrow> bool" where
  "is_executable sd limit_price level_price allow_touch =
     (if sd = BUY then (if allow_touch then level_price \<le> limit_price else level_price < limit_price)
      else (if allow_touch then limit_price \<le> level_price else limit_price < level_price))"

definition average_fill_price :: "fill_component list \<Rightarrow> rat option" where
  "average_fill_price cs =
     (let filled = dsum (map fc_quantity cs) in
      if filled = 0 then None
      else Some (ddiv (dsum (map (\<lambda>c. dmul (fc_price c) (fc_quantity c)) cs)) filled))"

definition fill_reason_code :: "string \<Rightarrow> rat \<Rightarrow> rat \<Rightarrow> string" where
  "fill_reason_code prefix filled quantity =
     (if filled = 0 then prefix @ ''_no_fill''
      else if filled < quantity then prefix @ ''_partial_fill''
      else prefix @ ''_full_fill'')"

text \<open>The loop over the levels, with the remaining quantity as its state.\<close>

fun take_levels ::
  "side \<Rightarrow> rat \<Rightarrow> bool \<Rightarrow> rat \<Rightarrow> order_book_level list \<Rightarrow> fill_component list \<times> rat" where
  "take_levels sd limit touch remaining [] = ([], remaining)"
| "take_levels sd limit touch remaining (l # ls) =
     (if remaining = 0 \<or> \<not> is_executable sd limit (lv_price l) touch then ([], remaining)
      else let fill_quantity = min remaining (lv_quantity l) in
        if fill_quantity = 0 then take_levels sd limit touch remaining ls
        else case take_levels sd limit touch (dsub remaining fill_quantity) ls of
          (cs, rest) \<Rightarrow>
            (\<lparr>fc_price = lv_price l, fc_quantity = fill_quantity, fc_liquidity_role = TAKER\<rparr> # cs, rest))"

definition estimate_book_fill ::
  "bool \<Rightarrow> string \<Rightarrow> order_book_snapshot \<Rightarrow> side \<Rightarrow> rat \<Rightarrow> rat \<Rightarrow> fill_estimate result" where
  "estimate_book_fill touch reason_prefix s sd limit_price quantity =
     bindE (validate_fill_inputs s limit_price quantity) (\<lambda>_.
     case take_levels sd limit_price touch quantity (opposite_side_levels s sd) of
       (components, remaining) \<Rightarrow>
         let filled_quantity = dsub quantity remaining in
         Inr \<lparr>fe_side = sd, fe_limit_price = limit_price, fe_order_quantity = quantity,
              fe_filled_quantity = filled_quantity, fe_remaining_quantity = remaining,
              fe_average_fill_price = average_fill_price components,
              fe_liquidity_role = (if components \<noteq> [] then TAKER else UNKNOWN_ROLE),
              fe_components = components,
              fe_reason_code = fill_reason_code reason_prefix filled_quantity quantity\<rparr>)"

definition touch_fill :: "order_book_snapshot \<Rightarrow> side \<Rightarrow> rat \<Rightarrow> rat \<Rightarrow> fill_estimate result" where
  "touch_fill = estimate_book_fill True ''simulation_touch''"

definition trade_through_fill :: "order_book_snapshot \<Rightarrow> side \<Rightarrow> rat \<Rightarrow> rat \<Rightarrow> fill_estimate result" where
  "trade_through_fill = estimate_book_fill False ''simulation_trade_through''"

section \<open>The closed form\<close>

definition level_share :: "rat \<Rightarrow> order_book_level list \<Rightarrow> nat \<Rightarrow> rat" where
  "level_share quantity ls i =
     min (lv_quantity (ls ! i)) (quantity - sum_list (map lv_quantity (take i ls)))"

definition waterfall :: "rat \<Rightarrow> order_book_level list \<Rightarrow> fill_component list" where
  "waterfall quantity ls =
     map (\<lambda>i. \<lparr>fc_price = lv_price (ls ! i), fc_quantity = level_share quantity ls i,
               fc_liquidity_role = TAKER\<rparr>)
       (filter (\<lambda>i. 0 < level_share quantity ls i) [0..<length ls])"

definition executable_levels :: "order_book_snapshot \<Rightarrow> side \<Rightarrow> rat \<Rightarrow> bool \<Rightarrow> order_book_level list" where
  "executable_levels s sd limit touch =
     filter (\<lambda>l. is_executable sd limit (lv_price l) touch) (opposite_side_levels s sd)"

definition depth :: "order_book_level list \<Rightarrow> rat" where
  "depth ls = sum_list (map lv_quantity ls)"

lemma level_share_Cons:
  "level_share q (l # ls) 0 = min (lv_quantity l) q"
  "level_share q (l # ls) (Suc i) = level_share (q - lv_quantity l) ls i"
  by (simp_all add: level_share_def algebra_simps)

lemma waterfall_Cons:
  "waterfall q (l # ls) =
     (if 0 < min (lv_quantity l) q
      then [\<lparr>fc_price = lv_price l, fc_quantity = min (lv_quantity l) q, fc_liquidity_role = TAKER\<rparr>] else []) @
     waterfall (q - lv_quantity l) ls"
proof -
  have "[0..<length (l # ls)] = 0 # map Suc [0..<length ls]" by (simp add: upt_conv_Cons map_Suc_upt del: upt_Suc)
  then show ?thesis
    by (simp add: waterfall_def filter_map comp_def level_share_Cons del: upt_Suc)
qed

lemma waterfall_nonpos:
  assumes "q \<le> 0" and "list_all (\<lambda>l. 0 \<le> lv_quantity l) ls"
  shows "waterfall q ls = []"
  using assms by (induction ls arbitrary: q) (simp_all add: waterfall_Cons, simp add: waterfall_def)

lemma depth_nonneg: "list_all (\<lambda>l. 0 \<le> lv_quantity l) ls \<Longrightarrow> 0 \<le> depth ls"
  by (induction ls) (auto simp: depth_def)

lemma waterfall_total:
  assumes "0 \<le> q" and "list_all (\<lambda>l. 0 \<le> lv_quantity l) ls"
  shows "sum_list (map fc_quantity (waterfall q ls)) = min q (depth ls)"
  using assms
proof (induction ls arbitrary: q)
  case Nil
  then show ?case by (simp add: waterfall_def depth_def)
next
  case (Cons l ls)
  have nonneg: "0 \<le> depth ls" using Cons.prems(2) by (auto intro: depth_nonneg)
  show ?case
  proof (cases "lv_quantity l \<le> q")
    case True
    then have "sum_list (map fc_quantity (waterfall (q - lv_quantity l) ls)) = min (q - lv_quantity l) (depth ls)"
      using Cons by auto
    with True Cons.prems show ?thesis by (auto simp: waterfall_Cons depth_def min_def)
  next
    case False
    then have "waterfall (q - lv_quantity l) ls = []" using Cons.prems by (intro waterfall_nonpos) auto
    with False nonneg Cons.prems show ?thesis by (auto simp: waterfall_Cons depth_def min_def)
  qed
qed

text \<open>A component takes at most a level of the book, at that level's price.\<close>

lemma waterfall_from_book:
  assumes "c \<in> set (waterfall q ls)"
  obtains l where "l \<in> set ls" "fc_price c = lv_price l" "0 < fc_quantity c" "fc_quantity c \<le> lv_quantity l"
    "fc_liquidity_role c = TAKER"
proof -
  from assms obtain i where i: "i < length ls" "0 < level_share q ls i"
    and c: "c = \<lparr>fc_price = lv_price (ls ! i), fc_quantity = level_share q ls i, fc_liquidity_role = TAKER\<rparr>"
    by (auto simp: waterfall_def)
  show thesis by (rule that [of "ls ! i"]) (use i in \<open>simp_all add: c level_share_def\<close>)
qed

section \<open>The loop computes the closed form\<close>

definition grid_levels :: "nat \<Rightarrow> order_book_level list \<Rightarrow> bool" where
  "grid_levels s ls \<longleftrightarrow> list_all (\<lambda>l. 0 \<le> lv_quantity l \<and> on_grid s (10 ^ 28) (lv_quantity l)) ls"

lemma dsub_grid:
  assumes "on_grid s (10 ^ 28) x" and "on_grid s (10 ^ 28) y" and "0 \<le> y" and "y \<le> x"
  shows "dsub x y = x - y" and "on_grid s (10 ^ 28) (x - y)"
proof -
  show g: "on_grid s (10 ^ 28) (x - y)"
    using on_grid_diff [OF assms(1,2)] assms by (rule_tac on_grid_smaller [where y = x]) auto
  show "dsub x y = x - y" using on_grid_fits [OF g] by (simp add: dsub_def d28.rnd_exact)
qed

lemma take_levels_waterfall:
  assumes "grid_levels s ls" and "on_grid s (10 ^ 28) q" and "0 \<le> q"
  shows "take_levels sd limit touch q ls =
    (let es = takeWhile (\<lambda>l. is_executable sd limit (lv_price l) touch) ls
     in (waterfall q es, q - min q (depth es)))"
  using assms
proof (induction ls arbitrary: q)
  case Nil
  then show ?case by (simp add: waterfall_def depth_def)
next
  case (Cons l ls)
  let ?E = "\<lambda>l. is_executable sd limit (lv_price l) touch"
  let ?es = "takeWhile ?E ls"
  have gl: "grid_levels s ls" "0 \<le> lv_quantity l" "on_grid s (10 ^ 28) (lv_quantity l)"
    using Cons.prems(1) by (auto simp: grid_levels_def)
  have nonneg: "list_all (\<lambda>l. 0 \<le> lv_quantity l) ?es" "0 \<le> depth ?es"
    using gl(1) by (auto simp: grid_levels_def list_all_iff intro!: depth_nonneg dest!: set_takeWhileD)
  consider "q = 0 \<or> \<not> ?E l" | "q \<noteq> 0" "?E l" "lv_quantity l = 0" | "q \<noteq> 0" "?E l" "0 < lv_quantity l"
    using gl(2) by linarith
  then show ?case
  proof cases
    case 1
    have w0: "waterfall 0 (takeWhile ?E (l # ls)) = []" "0 \<le> depth (takeWhile ?E (l # ls))"
      using nonneg gl(2) by (auto intro!: waterfall_nonpos simp: depth_def)
    show ?thesis
      using 1 w0 Cons.prems(3) by (auto simp: waterfall_def depth_def Let_def min_def)
  next
    case 2
    then show ?thesis
      using Cons.IH [OF gl(1) Cons.prems(2,3)] Cons.prems(3) by (simp add: Let_def waterfall_Cons depth_def min_def)
  next
    case 3
    let ?f = "min q (lv_quantity l)"
    have f: "on_grid s (10 ^ 28) ?f" "0 < ?f" "?f \<le> q"
      using 3 Cons.prems(2,3) gl(3) by (auto intro: on_grid_min)
    note d = dsub_grid [OF Cons.prems(2) f(1) less_imp_le [OF f(2)] f(3)]
    have IH: "take_levels sd limit touch (q - ?f) ls = (waterfall (q - ?f) ?es, q - ?f - min (q - ?f) (depth ?es))"
      using Cons.IH [OF gl(1) d(2)] f(3) by (simp add: Let_def)
    have w: "waterfall (q - ?f) ?es = waterfall (q - lv_quantity l) ?es"
      using nonneg by (cases "lv_quantity l \<le> q") (simp_all add: waterfall_nonpos)
    have r: "q - ?f - min (q - ?f) (depth ?es) = q - min q (lv_quantity l + depth ?es)"
      using nonneg(2) gl(2) by (auto simp: min_def)
    show ?thesis
      using 3 f(2) less_imp_neq [OF f(2), symmetric] 
      by (simp add: Let_def d(1) IH w waterfall_Cons min.commute) (use r in \<open>simp add: depth_def\<close>)
  qed
qed

text \<open>In a sorted book the executable levels are a prefix of the opposite side.\<close>

lemma takeWhile_executable:
  assumes "book_valid s"
  shows "takeWhile (\<lambda>l. is_executable sd limit (lv_price l) touch) (opposite_side_levels s sd) =
    executable_levels s sd limit touch"
proof -
  have prefix: "sorted_wrt R ls \<Longrightarrow> (\<And>a b. R a b \<Longrightarrow> P b \<Longrightarrow> P a) \<Longrightarrow> takeWhile P ls = filter P ls"
    for P and R :: "order_book_level \<Rightarrow> order_book_level \<Rightarrow> bool" and ls
    by (induction ls) (simp, metis (no_types, lifting) filter_False filter.simps(2) sorted_wrt.simps(2) takeWhile.simps(2))
  have "sorted_wrt (\<lambda>a b. lv_price a < lv_price b) (ob_asks s)" "sorted_wrt (\<lambda>a b. lv_price b < lv_price a) (ob_bids s)"
    using assms by (auto simp: book_valid_iff sorted_wrt_map)
  note sorted = this
  show ?thesis
  proof (cases sd)
    case BUY
    show ?thesis
      unfolding executable_levels_def opposite_side_levels_def if_P [OF BUY]
      by (rule prefix [OF sorted(1)]) (auto simp: is_executable_def BUY split: if_splits)
  next
    case SELL
    then have "sd \<noteq> BUY" by simp
    show ?thesis
      unfolding executable_levels_def opposite_side_levels_def if_not_P [OF \<open>sd \<noteq> BUY\<close>]
      by (rule prefix [OF sorted(2)]) (auto simp: is_executable_def SELL split: if_splits)
  qed
qed

section \<open>Averages\<close>

text \<open>Being on a grid of any size: a whole number of units.\<close>

definition in_units :: "nat \<Rightarrow> rat \<Rightarrow> bool" where
  "in_units s x \<longleftrightarrow> (\<exists>n. on_grid s n x)"

lemma in_unitsI: "on_grid s n x \<Longrightarrow> in_units s x"
  by (auto simp: in_units_def)

lemma in_units_ops:
  "in_units s x \<Longrightarrow> in_units s y \<Longrightarrow> in_units s (x + y)"
  "in_units s x \<Longrightarrow> in_units s y \<Longrightarrow> in_units s (x - y)"
  "in_units s x \<Longrightarrow> in_units s y \<Longrightarrow> in_units s (min x y)"
  by (auto simp: in_units_def min_def intro: on_grid_add on_grid_diff)

lemma in_units_sum: "list_all (in_units s) xs \<Longrightarrow> in_units s (sum_list xs)"
  by (induction xs) (auto intro: in_units_ops in_unitsI [OF on_grid_zero])

lemma in_units_smaller: "in_units s x \<Longrightarrow> on_grid s n y \<Longrightarrow> \<bar>x\<bar> \<le> \<bar>y\<bar> \<Longrightarrow> on_grid s n x"
  by (auto simp: in_units_def intro: on_grid_smaller)

lemma dsum_bounded:
  assumes "\<And>x. x \<in> set xs \<Longrightarrow> 0 \<le> x \<and> in_units s x" and "sum_list xs \<le> t"
    and t: "on_grid s n t" "n \<le> 10 ^ 28"
  shows "dsum xs = sum_list xs"
proof -
  have "0 \<le> a \<Longrightarrow> in_units s a \<Longrightarrow> a + sum_list xs \<le> t \<Longrightarrow> foldl dadd a xs = a + sum_list xs" for a
    using assms(1)
  proof (induction xs arbitrary: a)
    case Nil
    then show ?case by simp
  next
    case (Cons x xs)
    have x: "0 \<le> x" "in_units s x" and rest: "0 \<le> sum_list xs"
      using Cons.prems(4) by (auto intro: sum_list_nonneg)
    have ax: "in_units s (a + x)" "0 \<le> a + x" using Cons.prems(1,2) x by (auto intro: in_units_ops)
    have "on_grid s n (a + x)"
      by (rule in_units_smaller [OF ax(1) t(1)]) (use ax(2) rest Cons.prems(3) in auto)
    then have "dadd a x = a + x" using on_grid_fits t(2) by (simp add: dadd_def d28.rnd_exact)
    then show ?case using Cons.IH [OF ax(2,1)] Cons.prems by (simp add: add.assoc)
  qed
  from this [of 0] show ?thesis using assms(2) by (simp add: dsum_def in_unitsI [OF on_grid_zero])
qed

lemma waterfall_units:
  assumes "list_all (\<lambda>l. in_units g (lv_quantity l)) ls" and "in_units g q" and "c \<in> set (waterfall q ls)"
  shows "in_units g (fc_quantity c)"
  using assms
proof (induction ls arbitrary: q)
  case Nil
  then show ?case by (simp add: waterfall_def)
next
  case (Cons l ls)
  have "in_units g (q - lv_quantity l)" using Cons.prems by (auto intro: in_units_ops)
  note IH = Cons.IH [OF _ this]
  show ?case using Cons.prems IH by (auto simp: waterfall_Cons in_units_ops split: if_splits)
qed

text \<open>When the total quantity and the prices are on grids whose product fits the context, the average
  is the exact weighted average, rounded once.\<close>

lemma average_rounded_once:
  assumes cs: "\<And>c. c \<in> set cs \<Longrightarrow> 0 \<le> fc_price c \<and> 0 < fc_quantity c \<and>
      on_grid t m (fc_price c) \<and> in_units g (fc_quantity c)"
    and tot: "sum_list (map fc_quantity cs) \<le> q" and q: "on_grid g n q" and "n * m \<le> 10 ^ 28" "n \<le> 10 ^ 28"
    and av: "average_fill_price cs = Some a"
  shows "a = dec_round 28 (sum_list (map (\<lambda>c. fc_price c * fc_quantity c) cs) / sum_list (map fc_quantity cs))"
    and "0 < sum_list (map fc_quantity cs)"
proof -
  have F: "dsum (map fc_quantity cs) = sum_list (map fc_quantity cs)"
    by (rule dsum_bounded [OF _ tot q assms(5)]) (use cs in \<open>auto simp: less_imp_le\<close>)
  have nonneg: "0 \<le> sum_list (map fc_quantity cs)"
    by (rule sum_list_nonneg) (use cs in \<open>auto simp: less_imp_le\<close>)
  with av F show pos: "0 < sum_list (map fc_quantity cs)"
    by (simp add: average_fill_price_def Let_def split: if_splits)
  have each: "fc_quantity c \<le> q" if "c \<in> set cs" for c
  proof -
    have "fc_quantity c \<le> sum_list (map fc_quantity cs)"
      by (rule member_le_sum_list) (use that cs in \<open>auto simp: less_imp_le\<close>)
    then show ?thesis using tot by simp
  qed
  have prod: "on_grid (t + g) (m * n) (fc_price c * fc_quantity c)" if "c \<in> set cs" for c
    by (intro on_grid_mult in_units_smaller [OF _ q]) (use that cs [OF that] each [OF that] in auto)
  have mul: "map (\<lambda>c. dmul (fc_price c) (fc_quantity c)) cs = map (\<lambda>c. fc_price c * fc_quantity c) cs"
    using on_grid_fits [OF prod] assms(4) by (simp add: dmul_def d28.rnd_exact mult.commute)
  have price: "fc_price c \<le> of_nat m / 10 ^ t" if "c \<in> set cs" for c
    using cs [OF that] by (auto simp: on_grid_def field_simps)
  have "sum_list (map (\<lambda>c. fc_price c * fc_quantity c) cs) \<le> sum_list (map (\<lambda>c. of_nat m / 10 ^ t * fc_quantity c) cs)"
    by (intro sum_list_mono mult_right_mono price) (use cs in \<open>auto simp: less_imp_le\<close>)
  also have "\<dots> = of_nat m / 10 ^ t * sum_list (map fc_quantity cs)" by (rule sum_list_const_mult)
  also have "\<dots> \<le> of_nat m / 10 ^ t * q" by (rule mult_left_mono [OF tot]) simp
  finally have N: "sum_list (map (\<lambda>c. fc_price c * fc_quantity c) cs) \<le> of_nat m / 10 ^ t * q" .
  have "on_grid t m (of_nat m / 10 ^ t)" by (rule on_gridI [where k = "int m"]) simp_all
  then have T: "on_grid (t + g) (m * n) (of_nat m / 10 ^ t * q)" by (rule on_grid_mult [OF _ q])
  have "dsum (map (\<lambda>c. fc_price c * fc_quantity c) cs) = sum_list (map (\<lambda>c. fc_price c * fc_quantity c) cs)"
    by (rule dsum_bounded [OF _ N T]) (use cs prod assms(4) in \<open>auto simp: less_imp_le mult.commute intro: in_unitsI\<close>)
  then show "a = dec_round 28 (sum_list (map (\<lambda>c. fc_price c * fc_quantity c) cs) / sum_list (map fc_quantity cs))"
    using av pos by (simp add: average_fill_price_def Let_def mul F ddiv_def)
qed

section \<open>The protocol\<close>

text \<open>
  What a client of \<^verbatim>\<open>FillModel\<close> relies on: which inputs are refused, which prices are traded at, that
  the components are the closed form on the levels in reach, and how the average is formed.
\<close>

locale fill_model =
  fixes evaluate :: "order_book_snapshot \<Rightarrow> side \<Rightarrow> rat \<Rightarrow> rat \<Rightarrow> fill_estimate result"
    and reach :: "side \<Rightarrow> rat \<Rightarrow> rat \<Rightarrow> bool"
  assumes reach_limit: "reach sd limit p \<Longrightarrow> (if sd = BUY then p \<le> limit else limit \<le> p)"
    and accepts: "(\<exists>e. evaluate s sd limit q = Inr e) \<longleftrightarrow> ob_is_valid s \<and> 0 \<le> limit \<and> 0 < q"
    and fills: "book_valid s \<Longrightarrow> grid_levels g (opposite_side_levels s sd) \<Longrightarrow> on_grid g (10 ^ 28) q \<Longrightarrow>
      evaluate s sd limit q = Inr e \<Longrightarrow>
      fe_components e = waterfall q (filter (\<lambda>l. reach sd limit (lv_price l)) (opposite_side_levels s sd)) \<and>
      fe_filled_quantity e = min q (depth (filter (\<lambda>l. reach sd limit (lv_price l)) (opposite_side_levels s sd))) \<and>
      fe_remaining_quantity e = q - fe_filled_quantity e"
    and averages: "evaluate s sd limit q = Inr e \<Longrightarrow> fe_average_fill_price e = average_fill_price (fe_components e)"
begin

lemma component_in_reach:
  assumes "book_valid s" and "grid_levels g (opposite_side_levels s sd)" and "on_grid g (10 ^ 28) q"
    and "evaluate s sd limit q = Inr e" and "c \<in> set (fe_components e)"
  shows "(if sd = BUY then fc_price c \<le> limit else limit \<le> fc_price c) \<and> 0 < fc_quantity c \<and>
    (\<exists>l \<in> set (opposite_side_levels s sd). fc_price c = lv_price l \<and> fc_quantity c \<le> lv_quantity l)"
proof -
  have "c \<in> set (waterfall q (filter (\<lambda>l. reach sd limit (lv_price l)) (opposite_side_levels s sd)))"
    using fills [OF assms(1-4)] assms(5) by simp
  then show ?thesis by (rule waterfall_from_book) (use reach_limit [of sd limit] in auto)
qed

lemma components_total:
  assumes "book_valid s" and "grid_levels g (opposite_side_levels s sd)" and "on_grid g (10 ^ 28) q"
    and "evaluate s sd limit q = Inr e"
  shows "sum_list (map fc_quantity (fe_components e)) = fe_filled_quantity e"
proof -
  have "0 < q" using accepts [of s sd limit q] assms(4) by blast
  moreover have "list_all (\<lambda>l. 0 \<le> lv_quantity l) (filter (\<lambda>l. reach sd limit (lv_price l)) (opposite_side_levels s sd))"
    using assms(2) by (auto simp: grid_levels_def list_all_iff)
  ultimately show ?thesis using fills [OF assms] by (simp add: waterfall_total)
qed

lemma average_within_limit:
  assumes "book_valid s" and "grid_levels g (opposite_side_levels s sd)" and "on_grid g n q"
    and "evaluate s sd limit q = Inr e"
    and prices: "list_all (\<lambda>l. on_grid t m (lv_price l)) (opposite_side_levels s sd)"
    and "n * m \<le> 10 ^ 28" and "n \<le> 10 ^ 28" and "dec_fits 28 limit"
    and "fe_average_fill_price e = Some a"
  shows "if sd = BUY then a \<le> limit else limit \<le> a"
proof -
  let ?cs = "fe_components e"
  have q: "on_grid g (10 ^ 28) q" using assms(3,7) by (rule on_grid_mono)
  have "0 < q" using accepts [of s sd limit q] assms(4) by blast
  note reach = component_in_reach [OF assms(1,2) q assms(4)]
  have tot: "sum_list (map fc_quantity ?cs) \<le> q"
    using components_total [OF assms(1,2) q assms(4)] fills [OF assms(1,2) q assms(4)] by simp
  have cs: "\<And>c. c \<in> set ?cs \<Longrightarrow> 0 \<le> fc_price c \<and> 0 < fc_quantity c \<and> on_grid t m (fc_price c)"
    using reach prices assms(1) by (fastforce simp: list_all_iff book_valid_iff level_ok_def opposite_side_levels_def split: if_splits)
  have units: "\<And>c. c \<in> set ?cs \<Longrightarrow> in_units g (fc_quantity c)"
    by (rule waterfall_units [where q = q])
      (use fills [OF assms(1,2) q assms(4)] assms(2) q in
        \<open>auto simp: grid_levels_def list_all_iff intro: in_unitsI\<close>)
  have av: "average_fill_price ?cs = Some a" using averages [OF assms(4)] assms(9) by simp
  note avg = average_rounded_once [OF _ tot assms(3,6,7) av, of t]
  let ?N = "sum_list (map (\<lambda>c. fc_price c * fc_quantity c) ?cs)" and ?F = "sum_list (map fc_quantity ?cs)"
  have a: "a = dec_round 28 (?N / ?F)" and F: "0 < ?F" by (rule avg; use cs units in blast)+
  have scale: "limit * ?F = sum_list (map (\<lambda>c. limit * fc_quantity c) ?cs)" by (simp add: sum_list_const_mult)
  show ?thesis
  proof (cases "sd = BUY")
    case True
    have "?N \<le> limit * ?F"
      unfolding scale by (intro sum_list_mono mult_right_mono) (use reach cs True in \<open>auto simp: less_imp_le\<close>)
    then have "?N / ?F \<le> limit" using F by (simp add: pos_divide_le_eq)
    with d28.rnd_mono [OF this] show ?thesis using True assms(8) by (simp add: a d28.rnd_exact)
  next
    case False
    have "limit * ?F \<le> ?N"
      unfolding scale by (intro sum_list_mono mult_right_mono) (use reach cs False in \<open>auto simp: less_imp_le\<close>)
    then have "limit \<le> ?N / ?F" using F by (simp add: pos_le_divide_eq)
    with d28.rnd_mono [OF this] show ?thesis using False assms(8) by (simp add: a d28.rnd_exact)
  qed
qed

end

lemma estimate_cases:
  assumes "book_valid s" and "grid_levels g (opposite_side_levels s sd)" and "on_grid g (10 ^ 28) q"
    and "estimate_book_fill touch prefix s sd limit q = Inr e"
  shows "fe_components e = waterfall q (executable_levels s sd limit touch)"
    and "fe_filled_quantity e = min q (depth (executable_levels s sd limit touch))"
    and "fe_remaining_quantity e = q - fe_filled_quantity e"
    and "fe_reason_code e = fill_reason_code prefix (fe_filled_quantity e) q"
proof -
  let ?d = "depth (executable_levels s sd limit touch)"
  have ok: "validate_fill_inputs s limit q = Inr ()" and q: "0 < q"
    using assms(4) by (auto simp: estimate_book_fill_def bindE_eq_Inr validate_fill_inputs_def guards_ok_iff
        simp del: guards.simps)
  have run: "take_levels sd limit touch q (opposite_side_levels s sd) =
      (waterfall q (executable_levels s sd limit touch), q - min q ?d)"
    using take_levels_waterfall [OF assms(2,3), of sd limit touch] q
    by (simp add: Let_def takeWhile_executable [OF assms(1)])
  have pos: "0 \<le> ?d"
    using assms(2) by (intro depth_nonneg) (auto simp: grid_levels_def executable_levels_def list_all_iff)
  have "in_units g (min q ?d)"
  proof -
    have "list_all (\<lambda>l. in_units g (lv_quantity l)) (executable_levels s sd limit touch)"
      using assms(2) by (auto simp: grid_levels_def executable_levels_def list_all_iff intro: in_unitsI)
    then have "in_units g ?d" by (auto simp: depth_def list_all_iff intro!: in_units_sum)
    then show ?thesis by (intro in_units_ops in_unitsI [OF assms(3)])
  qed
  then have "on_grid g (10 ^ 28) (min q ?d)" by (rule in_units_smaller [OF _ assms(3)]) (use q pos in auto)
  then have "dsub q (q - min q ?d) = min q ?d" using on_grid_fits by (simp add: dsub_def d28.rnd_exact)
  with assms(4) ok run
  show "fe_components e = waterfall q (executable_levels s sd limit touch)"
    "fe_filled_quantity e = min q ?d" "fe_remaining_quantity e = q - fe_filled_quantity e"
    "fe_reason_code e = fill_reason_code prefix (fe_filled_quantity e) q"
    by (auto simp: estimate_book_fill_def Let_def)
qed

lemma estimate_accepts:
  "(\<exists>e. estimate_book_fill touch prefix s sd limit q = Inr e) \<longleftrightarrow> ob_is_valid s \<and> 0 \<le> limit \<and> 0 < q"
  by (auto simp: estimate_book_fill_def validate_fill_inputs_def Let_def split: prod.splits)

lemma estimate_average:
  "estimate_book_fill touch prefix s sd limit q = Inr e \<Longrightarrow>
     fe_average_fill_price e = average_fill_price (fe_components e)"
  by (auto simp: estimate_book_fill_def bindE_eq_Inr Let_def split: prod.splits)

lemma fill_model_estimate:
  "fill_model (estimate_book_fill touch prefix) (\<lambda>sd limit p. is_executable sd limit p touch)"
proof
  show "is_executable sd limit p touch \<Longrightarrow> if sd = BUY then p \<le> limit else limit \<le> p" for sd limit p
    by (auto simp: is_executable_def split: if_splits)
qed (use estimate_cases estimate_accepts estimate_average in \<open>auto simp: executable_levels_def\<close>)

interpretation touch: fill_model touch_fill "\<lambda>sd limit p. is_executable sd limit p True"
  unfolding touch_fill_def by (rule fill_model_estimate)

interpretation through: fill_model trade_through_fill "\<lambda>sd limit p. is_executable sd limit p False"
  unfolding trade_through_fill_def by (rule fill_model_estimate)

section \<open>Properties\<close>

text \<open>
  C21: a simulated fill is the price-priority waterfall over the executable depth. On a valid book,
  for quantities on one decimal grid, the loop of \<open>_estimate_book_fill\<close> succeeds and returns exactly the
  closed form: each level whose price is executable is taken up to what the depth before it
  leaves of the order, the filled quantity is the smaller of the order and the executable depth, and
  nothing is lost between filled, remaining and components.
\<close>

theorem fill_is_waterfall:
  assumes "book_valid s" and "ob_is_valid s" and "0 \<le> limit" and "0 < q"
    and "grid_levels g (opposite_side_levels s sd)" and "on_grid g (10 ^ 28) q"
  shows "\<exists>e. estimate_book_fill touch prefix s sd limit q = Inr e \<and>
    fe_components e = waterfall q (executable_levels s sd limit touch) \<and>
    fe_filled_quantity e = min q (depth (executable_levels s sd limit touch)) \<and>
    fe_filled_quantity e + fe_remaining_quantity e = q \<and>
    sum_list (map fc_quantity (fe_components e)) = fe_filled_quantity e \<and>
    fe_reason_code e = fill_reason_code prefix (fe_filled_quantity e) q"
proof -
  from assms(2-4) obtain e where e: "estimate_book_fill touch prefix s sd limit q = Inr e"
    using estimate_accepts [of touch prefix s sd limit q] by blast
  note c = estimate_cases [OF assms(1,5,6) e]
  have "sum_list (map fc_quantity (fe_components e)) = fe_filled_quantity e"
    by (rule fill_model.components_total [OF fill_model_estimate assms(1,5,6) e])
  then show ?thesis using e c by simp
qed

lemma sample_book_grid:
  "grid_levels 0 (opposite_side_levels sample_book BUY)" "on_grid 0 5 (5::rat)" "on_grid 0 (10 ^ 28) (5::rat)"
  "list_all (\<lambda>l. on_grid 1 10 (lv_price l)) (opposite_side_levels sample_book BUY)"
  by (simp_all add: grid_levels_def opposite_side_levels_def sample_book_def level_at_def on_grid_def floor_rat_numeral)

theorem fill_is_waterfall_witness:
  "\<exists>e. touch_fill sample_book BUY (7 / 10) 5 = Inr e \<and>
     fe_components e = [\<lparr>fc_price = 3 / 5, fc_quantity = 2, fc_liquidity_role = TAKER\<rparr>] \<and>
     fe_filled_quantity e = 2 \<and> fe_remaining_quantity e = 3"
proof -
  have ex: "executable_levels sample_book BUY (7 / 10) True = [level_at (3 / 5) 2]"
    by (simp add: executable_levels_def opposite_side_levels_def is_executable_def sample_book_def level_at_def)
  have w: "waterfall 5 [level_at (3 / 5) 2] = [\<lparr>fc_price = 3 / 5, fc_quantity = 2, fc_liquidity_role = TAKER\<rparr>]"
    by (simp add: waterfall_Cons) (simp add: waterfall_def level_at_def)
  from fill_is_waterfall [OF sample_valid(1,3) _ _ sample_book_grid(1,3), of "7 / 10" True "''simulation_touch''"]
  obtain e where "touch_fill sample_book BUY (7 / 10) 5 = Inr e"
    "fe_components e = waterfall 5 (executable_levels sample_book BUY (7 / 10) True)"
    "fe_filled_quantity e = min 5 (depth (executable_levels sample_book BUY (7 / 10) True))"
    "fe_filled_quantity e + fe_remaining_quantity e = 5"
    by (auto simp: touch_fill_def)
  then show ?thesis by (intro exI [of _ e] conjI) (simp_all add: ex w [unfolded level_at_def] depth_def level_at_def)
qed

text \<open>
  The average price of a simulated fill is never worse than the limit, under both models and
  in spite of rounding: at most the limit of a buy, at least the limit of a sell. The
  order quantity and the prices are on decimal grids whose product fits the 28-digit context, and
  the limit is a 28-digit decimal. (Every single component respects the limit too.)
\<close>

theorem average_never_worse_than_limit:
  assumes "book_valid s" and "grid_levels g (opposite_side_levels s sd)" and "on_grid g n q"
    and "list_all (\<lambda>l. on_grid t m (lv_price l)) (opposite_side_levels s sd)"
    and "n * m \<le> 10 ^ 28" and "n \<le> 10 ^ 28" and "dec_fits 28 limit"
    and "touch_fill s sd limit q = Inr e \<or> trade_through_fill s sd limit q = Inr e"
  shows "\<forall>p. fe_average_fill_price e = Some p \<or> p \<in> fc_price ` set (fe_components e) \<longrightarrow>
    (if sd = BUY then p \<le> limit else limit \<le> p)"
proof -
  note q = on_grid_mono [OF assms(3,6)]
  show ?thesis
    using assms(8) touch.average_within_limit [OF assms(1-3) _ assms(4-7)]
      through.average_within_limit [OF assms(1-3) _ assms(4-7)]
      touch.component_in_reach [OF assms(1,2) q] through.component_in_reach [OF assms(1,2) q]
    by blast
qed

theorem average_never_worse_than_limit_witness:
  "\<exists>e a. touch_fill sample_book BUY (7 / 10) 5 = Inr e \<and> fe_average_fill_price e = Some a \<and> a \<le> 7 / 10"
proof -
  have fits: "dec_fits 28 (7 / 10)" by (rule on_grid_fits [of 1 7]) (simp_all add: on_grid_def floor_rat_numeral)
  have run: "touch_fill sample_book BUY (7 / 10) 5 = Inr
      \<lparr>fe_side = BUY, fe_limit_price = 7 / 10, fe_order_quantity = 5, fe_filled_quantity = dsub 5 (dsub 5 2),
       fe_remaining_quantity = dsub 5 2,
       fe_average_fill_price = Some (ddiv (dsum [dmul (3 / 5) 2]) (dsum [2])), fe_liquidity_role = TAKER,
       fe_components = [\<lparr>fc_price = 3 / 5, fc_quantity = 2, fc_liquidity_role = TAKER\<rparr>],
       fe_reason_code = fill_reason_code ''simulation_touch'' (dsub 5 (dsub 5 2)) 5\<rparr>"
    by (simp add: touch_fill_def estimate_book_fill_def validate_fill_inputs_def opposite_side_levels_def
        is_executable_def average_fill_price_def sample_book_def level_at_def Let_def dsum_def)
  then show ?thesis
    using average_never_worse_than_limit [OF sample_valid(1) sample_book_grid(1,2,4) _ _ fits disjI1 [OF run]] by auto
qed

end
