(* ===== verification/Queue_Models.thy ===== *)
theory Queue_Models
  imports Fill_Models
begin

text \<open>
  \<open>src/pmrp/simulation/queue_models.py\<close>: where a simulated order stands in the queue. The protocol
  \<^verbatim>\<open>QueueModel\<close> is the locale \<open>queue_model\<close>, interpreted for both models.
\<close>

record queue_estimate =
  qe_side :: side
  qe_price :: rat
  qe_quantity :: rat
  qe_volume_ahead :: rat
  qe_queue_position :: rat
  qe_crosses_spread :: bool
  qe_rests_on_book :: bool

definition validate_queue_inputs :: "order_book_snapshot \<Rightarrow> rat \<Rightarrow> rat \<Rightarrow> unit result" where
  "validate_queue_inputs s price quantity =
     guards
       [(\<not> ob_is_valid s, SimulationInputError Queue_snapshot_invalid),
        (price < 0, ValueError F_price),
        (quantity \<le> 0, ValueError F_quantity)]"

definition top_price :: "order_book_level list \<Rightarrow> rat option" where
  "top_price levels = (case levels of [] \<Rightarrow> None | l # _ \<Rightarrow> Some (lv_price l))"

definition crosses_spread :: "order_book_snapshot \<Rightarrow> side \<Rightarrow> rat \<Rightarrow> bool" where
  "crosses_spread s sd price =
     (if sd = BUY then (case top_price (ob_asks s) of None \<Rightarrow> False | Some ask \<Rightarrow> ask \<le> price)
      else (case top_price (ob_bids s) of None \<Rightarrow> False | Some bid \<Rightarrow> price \<le> bid))"

definition same_side_volume_ahead :: "order_book_snapshot \<Rightarrow> side \<Rightarrow> rat \<Rightarrow> rat" where
  "same_side_volume_ahead s sd price =
     (if sd = BUY then dsum (map lv_quantity (filter (\<lambda>l. price \<le> lv_price l) (ob_bids s)))
      else dsum (map lv_quantity (filter (\<lambda>l. lv_price l \<le> price) (ob_asks s))))"

definition immediate_touch_queue ::
  "order_book_snapshot \<Rightarrow> side \<Rightarrow> rat \<Rightarrow> rat \<Rightarrow> queue_estimate result" where
  "immediate_touch_queue s sd price quantity =
     bindE (validate_queue_inputs s price quantity) (\<lambda>_.
     let crosses = crosses_spread s sd price in
     Inr \<lparr>qe_side = sd, qe_price = price, qe_quantity = quantity, qe_volume_ahead = 0, qe_queue_position = 0,
          qe_crosses_spread = crosses, qe_rests_on_book = (\<not> crosses)\<rparr>)"

definition volume_ahead_queue ::
  "order_book_snapshot \<Rightarrow> side \<Rightarrow> rat \<Rightarrow> rat \<Rightarrow> queue_estimate result" where
  "volume_ahead_queue s sd price quantity =
     bindE (validate_queue_inputs s price quantity) (\<lambda>_.
     let crosses = crosses_spread s sd price;
         volume_ahead = (if crosses then 0 else same_side_volume_ahead s sd price) in
     Inr \<lparr>qe_side = sd, qe_price = price, qe_quantity = quantity, qe_volume_ahead = volume_ahead,
          qe_queue_position = volume_ahead, qe_crosses_spread = crosses, qe_rests_on_book = (\<not> crosses)\<rparr>)"

section \<open>Crossing and executability\<close>

lemma crosses_iff_executable:
  assumes "book_valid s"
  shows "crosses_spread s sd price \<longleftrightarrow> executable_levels s sd price True \<noteq> []"
proof -
  have sorted: "sorted_wrt (>) (map lv_price (ob_bids s))" "sorted_wrt (<) (map lv_price (ob_asks s))"
    using assms by (auto simp: book_valid_iff)
  have asks: "(\<exists>l \<in> set (ob_asks s). lv_price l \<le> price) \<longleftrightarrow> ob_asks s \<noteq> [] \<and> lv_price (hd (ob_asks s)) \<le> price"
    using top_is_extreme' [OF sorted(2)] by (metis hd_in_set empty_iff list.set(1) order_trans)
  have bids: "(\<exists>l \<in> set (ob_bids s). price \<le> lv_price l) \<longleftrightarrow> ob_bids s \<noteq> [] \<and> price \<le> lv_price (hd (ob_bids s))"
    using top_is_extreme [OF sorted(1)] by (metis hd_in_set empty_iff list.set(1) order_trans)
  show ?thesis
    using asks bids
    by (cases sd) (auto simp: crosses_spread_def executable_levels_def opposite_side_levels_def is_executable_def
        top_price_def filter_empty_conv split: list.splits)
qed

section \<open>The protocol\<close>

locale queue_model =
  fixes estimate :: "order_book_snapshot \<Rightarrow> side \<Rightarrow> rat \<Rightarrow> rat \<Rightarrow> queue_estimate result"
  assumes accepts: "(\<exists>e. estimate s sd price q = Inr e) \<longleftrightarrow> ob_is_valid s \<and> 0 \<le> price \<and> 0 < q"
    and crossing: "estimate s sd price q = Inr e \<Longrightarrow> qe_crosses_spread e = crosses_spread s sd price \<and>
      qe_rests_on_book e = (\<not> qe_crosses_spread e) \<and> (qe_crosses_spread e \<longrightarrow> qe_volume_ahead e = 0) \<and>
      qe_queue_position e = qe_volume_ahead e"
begin

text \<open>Queue and fill models agree on the same book: what rests has nothing to trade with, what crosses has.\<close>

lemma rests_iff_no_executable_level:
  assumes "book_valid s" and "estimate s sd price q = Inr e"
  shows "qe_rests_on_book e \<longleftrightarrow> executable_levels s sd price True = []"
  using crossing [OF assms(2)] crosses_iff_executable [OF assms(1)] by simp

lemma resting_order_does_not_fill:
  assumes "book_valid s" and "estimate s sd price q = Inr e" and "qe_rests_on_book e"
    and "grid_levels g (opposite_side_levels s sd)" and "on_grid g (10 ^ 28) q"
    and "touch_fill s sd price q = Inr f"
  shows "fe_filled_quantity f = 0 \<and> fe_components f = []"
proof -
  have "executable_levels s sd price True = []" using rests_iff_no_executable_level [OF assms(1,2)] assms(3) by simp
  moreover have "0 < q" using accepts [of s sd price q] assms(2) by blast
  ultimately show ?thesis
    using estimate_cases [OF assms(1,4,5), of True "''simulation_touch''" price f] assms(6)
    by (simp add: touch_fill_def waterfall_def depth_def)
qed

end

lemma queue_inputs_iff: "validate_queue_inputs s price q = Inr u \<longleftrightarrow> ob_is_valid s \<and> 0 \<le> price \<and> 0 < q"
  by (auto simp: validate_queue_inputs_def guards_ok_iff simp del: guards.simps)

interpretation immediate_queue: queue_model immediate_touch_queue
  by unfold_locales (auto simp: immediate_touch_queue_def bindE_eq_Inr queue_inputs_iff Let_def)

interpretation ahead_queue: queue_model volume_ahead_queue
  by unfold_locales (auto simp: volume_ahead_queue_def bindE_eq_Inr queue_inputs_iff Let_def)

section \<open>Properties\<close>

text \<open>
  The queue models and the fill models describe the same market. On a valid book an order that
  either queue model puts at rest gets no fill at all from the touch model, and an order it lets cross
  finds at least one executable level; a resting order is queued behind all displayed volume of its
  side at its price or better.
\<close>

theorem resting_orders_do_not_fill:
  assumes "book_valid s" and "grid_levels g (opposite_side_levels s sd)" and "on_grid g (10 ^ 28) q"
    and "volume_ahead_queue s sd price q = Inr e" and "touch_fill s sd price q = Inr f"
  shows "(qe_rests_on_book e \<longrightarrow> fe_filled_quantity f = 0 \<and> qe_volume_ahead e = same_side_volume_ahead s sd price) \<and>
    (\<not> qe_rests_on_book e \<longrightarrow> executable_levels s sd price True \<noteq> [] \<and> qe_volume_ahead e = 0)"
proof -
  have "qe_rests_on_book e \<Longrightarrow> qe_volume_ahead e = same_side_volume_ahead s sd price"
    using assms(4) by (auto simp: volume_ahead_queue_def bindE_eq_Inr Let_def)
  then show ?thesis
    using ahead_queue.resting_order_does_not_fill [OF assms(1,4) _ assms(2,3,5)]
      ahead_queue.rests_iff_no_executable_level [OF assms(1,4)] ahead_queue.crossing [OF assms(4)]
    by auto
qed

theorem resting_orders_do_not_fill_witness:
  "\<exists>e f. volume_ahead_queue sample_book BUY (1 / 2) 5 = Inr e \<and> touch_fill sample_book BUY (1 / 2) 5 = Inr f \<and>
     qe_rests_on_book e \<and> fe_filled_quantity f = 0"
proof -
  obtain e f where e: "volume_ahead_queue sample_book BUY (1 / 2) 5 = Inr e"
    and f: "touch_fill sample_book BUY (1 / 2) 5 = Inr f"
    using ahead_queue.accepts [of sample_book BUY "1 / 2" 5] touch.accepts [of sample_book BUY "1 / 2" 5] sample_valid(3)
    by auto
  have "executable_levels sample_book BUY (1 / 2) True = []"
    by (simp add: executable_levels_def opposite_side_levels_def is_executable_def sample_book_def level_at_def)
  then have "qe_rests_on_book e" using ahead_queue.rests_iff_no_executable_level [OF sample_valid(1) e] by simp
  with resting_orders_do_not_fill [OF sample_valid(1) sample_book_grid(1,3) e f] e f show ?thesis by blast
qed

end
