(* ===== verification/Orders.thy ===== *)
theory Orders
  imports Schemas
begin

text \<open>
  The order contracts of \<open>src/pmrp/schemas/orders.py\<close> and the enums of \<open>src/pmrp/schemas/enums.py\<close> that the
  risk engine and the simulator share. Each \<open>mk_*\<close> is the constructor with its field constraints and
  model validators. Enum members whose names other enums of the development also have carry a prefix.
\<close>

text \<open>\<^verbatim>\<open>ExchangeName\<close>.\<close>

datatype exchange_name = KALSHI | POLYMARKET

fun exchange_value :: "exchange_name \<Rightarrow> string" where
  "exchange_value KALSHI = ''kalshi''"
| "exchange_value POLYMARKET = ''polymarket''"

datatype market_status =
    DISCOVERED | OPEN | HALTED | CLOSED | MS_PENDING_RESOLUTION | MS_RESOLVED | MS_FINALIZED | MS_SETTLED
  | MS_CANCELLED | MS_UNKNOWN

datatype order_type = LIMIT | MARKET

datatype time_in_force = GTC | IOC | FOK | DAY | GTD

record order_intent =
  oi_intent_id :: ident
  oi_strategy_id :: ident
  oi_market_id :: ident
  oi_contract_id :: ident
  oi_outcome_id :: ident
  oi_side :: side
  oi_quantity :: rat
  oi_limit_price :: "rat option"
  oi_order_type :: order_type
  oi_time_in_force :: time_in_force
  oi_post_only :: bool
  oi_reduce_only :: bool
  oi_urgency :: "rat option"
  oi_created_at :: instant
  oi_expires_at :: "instant option"
  oi_signal_ids :: "ident list"
  oi_correlation_id :: ident
  oi_idempotency_key :: string

definition validate_order_pricing :: "order_type \<Rightarrow> rat option \<Rightarrow> bool \<Rightarrow> (bool \<times> py_error) list" where
  "validate_order_pricing ty limit_price post_only =
     [(ty = LIMIT \<and> limit_price = None, ValidationError (Message ''limit orders require limit_price'')),
      (ty = MARKET \<and> post_only, ValidationError (Message ''post_only is invalid for market orders''))]"

definition validate_expiry :: "instant \<Rightarrow> instant option \<Rightarrow> (bool \<times> py_error) list" where
  "validate_expiry starts_at expires_at =
     [(case expires_at of None \<Rightarrow> False | Some t \<Rightarrow> t \<le> starts_at,
         ValidationError (Message ''expiry must be after the creation timestamp''))]"

definition mk_order_intent :: "order_intent \<Rightarrow> order_intent result" where
  "mk_order_intent i =
     bindE (guards
       ([(oi_quantity i \<le> 0, ValidationError (Out_of_range F_quantity)),
         (\<not> pred_option (\<lambda>p. 0 \<le> p) (oi_limit_price i), ValidationError (Out_of_range F_price)),
         (\<not> pred_option (\<lambda>u. 0 \<le> u \<and> u \<le> 1) (oi_urgency i), ValidationError (Out_of_range F_amount)),
         (\<not> text_in 1 256 (oi_idempotency_key i), ValidationError (Out_of_range F_text))] @
        validate_order_pricing (oi_order_type i) (oi_limit_price i) (oi_post_only i) @
        validate_expiry (oi_created_at i) (oi_expires_at i))) (\<lambda>_. Inr i)"

definition intent_valid :: "order_intent \<Rightarrow> bool" where
  "intent_valid i \<longleftrightarrow> mk_order_intent i = Inr i"

lemma intent_valid_iff:
  "intent_valid i \<longleftrightarrow> 0 < oi_quantity i \<and> pred_option (\<lambda>p. 0 \<le> p) (oi_limit_price i) \<and>
     pred_option (\<lambda>u. 0 \<le> u \<and> u \<le> 1) (oi_urgency i) \<and> text_in 1 256 (oi_idempotency_key i) \<and>
     (oi_order_type i = LIMIT \<longrightarrow> oi_limit_price i \<noteq> None) \<and> (oi_order_type i = MARKET \<longrightarrow> \<not> oi_post_only i) \<and>
     (\<forall>t. oi_expires_at i = Some t \<longrightarrow> oi_created_at i < t)"
  by (auto simp: intent_valid_def mk_order_intent_def bindE_eq_Inr guards_ok_iff validate_order_pricing_def
      validate_expiry_def simp del: guards.simps split: option.splits)

record approved_order =
  ao_order_id :: ident
  ao_intent_id :: ident
  ao_strategy_id :: ident
  ao_risk_decision_id :: ident
  ao_exchange :: string
  ao_account_id :: ident
  ao_market_id :: ident
  ao_contract_id :: ident
  ao_outcome_id :: ident
  ao_side :: side
  ao_quantity :: rat
  ao_limit_price :: "rat option"
  ao_order_type :: order_type
  ao_time_in_force :: time_in_force
  ao_post_only :: bool
  ao_reduce_only :: bool
  ao_approved_at :: instant
  ao_approval_expires_at :: "instant option"
  ao_client_order_id :: string
  ao_idempotency_key :: string
  ao_correlation_id :: ident

definition mk_approved_order :: "approved_order \<Rightarrow> approved_order result" where
  "mk_approved_order a =
     bindE (guards
       ([(\<not> text_in 1 64 (ao_exchange a), ValidationError (Out_of_range F_exchange)),
         (ao_quantity a \<le> 0, ValidationError (Out_of_range F_quantity)),
         (\<not> pred_option (\<lambda>p. 0 \<le> p) (ao_limit_price a), ValidationError (Out_of_range F_price)),
         (\<not> text_in 1 256 (ao_client_order_id a), ValidationError (Out_of_range F_text)),
         (\<not> text_in 1 256 (ao_idempotency_key a), ValidationError (Out_of_range F_text))] @
        validate_order_pricing (ao_order_type a) (ao_limit_price a) (ao_post_only a) @
        validate_expiry (ao_approved_at a) (ao_approval_expires_at a))) (\<lambda>_. Inr a)"

record cancel_order_request =
  cr_cancel_request_id :: string
  cr_order_id :: ident
  cr_exchange :: string
  cr_account_id :: ident
  cr_client_order_id :: string
  cr_exchange_order_id :: "string option"
  cr_requested_at :: instant
  cr_idempotency_key :: string
  cr_correlation_id :: ident

definition mk_cancel_order_request :: "cancel_order_request \<Rightarrow> cancel_order_request result" where
  "mk_cancel_order_request c =
     bindE (guards
       [(\<not> text_in 1 128 (cr_cancel_request_id c), ValidationError (Out_of_range F_text)),
        (\<not> text_in 1 64 (cr_exchange c), ValidationError (Out_of_range F_exchange)),
        (\<not> text_in 1 256 (cr_client_order_id c), ValidationError (Out_of_range F_text)),
        (\<not> pred_option (text_in 1 256) (cr_exchange_order_id c), ValidationError (Out_of_range F_text)),
        (\<not> text_in 1 256 (cr_idempotency_key c), ValidationError (Out_of_range F_text))]) (\<lambda>_. Inr c)"

text \<open>An intent for the witnesses.\<close>

definition sample_intent :: order_intent where
  "sample_intent =
     \<lparr>oi_intent_id = ''i'', oi_strategy_id = ''s'', oi_market_id = ''m'', oi_contract_id = ''c'', oi_outcome_id = ''o'',
      oi_side = BUY, oi_quantity = 10, oi_limit_price = Some 1, oi_order_type = LIMIT, oi_time_in_force = GTC,
      oi_post_only = False, oi_reduce_only = False, oi_urgency = None, oi_created_at = 0, oi_expires_at = None,
      oi_signal_ids = [], oi_correlation_id = ''x'', oi_idempotency_key = ''k''\<rparr>"

lemma sample_intent_valid: "intent_valid sample_intent"
  by (simp add: intent_valid_iff sample_intent_def text_in_def)

end
