(* ===== verification/Exchange.thy ===== *)
theory Exchange
  imports Orders Simulation_Config
begin

text \<open>
  Admission of a simulated order: \<open>rejection_models.py\<close>, \<open>latency_models.py\<close> and \<open>exchange.py\<close> of
  \<open>src/pmrp/simulation\<close>.

  The protocols \<^verbatim>\<open>RejectionModel\<close> and \<^verbatim>\<open>LatencyModel\<close> are locales, interpreted for the bounded rejection
  model and the fixed latency model; \<open>admission\<close> extends both and proves once, for any two such models,
  what \<^verbatim>\<open>DeterministicSimulatedExchange.admit_order\<close> returns.
\<close>

section \<open>Rejection\<close>

datatype rejection_reason =
    ORDER_ACCEPTED | INSUFFICIENT_BALANCE | INVALID_PRICE | INVALID_QUANTITY | MARKET_CLOSED | POST_ONLY_WOULD_CROSS

record rejection_decision =
  rd_accepted :: bool
  rd_reason_code :: rejection_reason
  rd_reason_text :: string

record bounded_rejection_model =
  br_min_price :: rat
  br_max_price :: "rat option"
  br_min_quantity :: rat
  br_max_quantity :: "rat option"
  br_open_statuses :: "market_status list"

definition mk_bounded_rejection_model :: "bounded_rejection_model \<Rightarrow> bounded_rejection_model result" where
  "mk_bounded_rejection_model m =
     bindE (guards
       [(br_min_price m < 0, ValueError F_price),
        (case br_max_price m of None \<Rightarrow> False | Some p \<Rightarrow> p < 0, ValueError F_price),
        (br_min_quantity m \<le> 0, ValueError F_quantity),
        (case br_max_quantity m of None \<Rightarrow> False | Some q \<Rightarrow> q \<le> 0, ValueError F_quantity),
        (case br_max_price m of None \<Rightarrow> False | Some p \<Rightarrow> p < br_min_price m, ValueError F_price),
        (case br_max_quantity m of None \<Rightarrow> False | Some q \<Rightarrow> q < br_min_quantity m, ValueError F_quantity),
        (br_open_statuses m = [], ValueError F_text)]) (\<lambda>_. Inr m)"

text \<open>The ladder of \<^verbatim>\<open>return _reject(...)\<close> statements: the first one that applies decides.\<close>

definition rejection_ladder ::
  "bounded_rejection_model \<Rightarrow> market_status \<Rightarrow> rat option \<Rightarrow> rat \<Rightarrow> rat option \<Rightarrow> rat option \<Rightarrow>
     (bool \<times> rejection_reason \<times> string) list" where
  "rejection_ladder m status price quantity required available =
     (let p = (case price of None \<Rightarrow> 0 | Some p \<Rightarrow> p) in
     [(price = None, INVALID_PRICE, ''price is required''),
      (p < 0, INVALID_PRICE, ''price must be nonnegative''),
      (p < br_min_price m, INVALID_PRICE, ''price is below the minimum''),
      (case br_max_price m of None \<Rightarrow> False | Some hi \<Rightarrow> hi < p, INVALID_PRICE, ''price is above the maximum''),
      (quantity \<le> 0, INVALID_QUANTITY, ''quantity must be positive''),
      (quantity < br_min_quantity m, INVALID_QUANTITY, ''quantity is below the minimum''),
      (case br_max_quantity m of None \<Rightarrow> False | Some hi \<Rightarrow> hi < quantity, INVALID_QUANTITY, ''quantity is above the maximum''),
      (status \<notin> set (br_open_statuses m), MARKET_CLOSED, ''market is not open for trading''),
      (required \<noteq> None \<and> available = None, INSUFFICIENT_BALANCE, ''available balance is unavailable''),
      (case (available, required) of (Some a, Some r) \<Rightarrow> a < r | _ \<Rightarrow> False, INSUFFICIENT_BALANCE,
         ''available balance is below required balance'')])"

definition bounded_evaluate ::
  "bounded_rejection_model \<Rightarrow> market_status \<Rightarrow> rat option \<Rightarrow> rat \<Rightarrow> rat option \<Rightarrow> rat option \<Rightarrow>
     rejection_decision result" where
  "bounded_evaluate m status price quantity required available =
     bindE (guards
       [(\<not> pred_option (\<lambda>r. 0 \<le> r) required, ValueError F_amount),
        (\<not> pred_option (\<lambda>a. 0 \<le> a) available, ValueError F_amount)]) (\<lambda>_.
     Inr (case guards (rejection_ladder m status price quantity required available) of
            Inl (code, reason) \<Rightarrow> \<lparr>rd_accepted = False, rd_reason_code = code, rd_reason_text = reason\<rparr>
          | Inr _ \<Rightarrow> \<lparr>rd_accepted = True, rd_reason_code = ORDER_ACCEPTED,
                      rd_reason_text = ''order accepted by simulation rejection model''\<rparr>))"

section \<open>Latency\<close>

text \<open>A \<^verbatim>\<open>FixedLatencyModel\<close> is its \<^verbatim>\<open>timedelta\<close>, in microseconds; the latest datetime is the end of year 9999.\<close>

definition max_datetime :: instant where
  "max_datetime = 253402300799999999"

definition max_timedelta :: int where
  "max_timedelta = 86399999999999999999"

definition mk_fixed_latency :: "int \<Rightarrow> int result" where
  "mk_fixed_latency latency = (if latency < 0 then Inl (ValueError F_amount) else Inr latency)"

definition fixed_latency_from_milliseconds :: "int \<Rightarrow> int result" where
  "fixed_latency_from_milliseconds ms =
     (if ms < 0 then Inl (ValueError F_amount)
      else if max_timedelta < ms * 1000 then Inl OverflowError
      else mk_fixed_latency (ms * 1000))"

definition fixed_latency_from_configuration :: "simulation_configuration \<Rightarrow> int result" where
  "fixed_latency_from_configuration c =
     (if sc_latency_model c \<noteq> ''fixed_latency_v1'' then Inl (SimulationConfigurationError Latency_model_unsupported)
      else case sc_fixed_latency_ms c of
          None \<Rightarrow> Inl (SimulationConfigurationError Fixed_latency_missing)
        | Some ms \<Rightarrow> fixed_latency_from_milliseconds ms)"

definition activation_time :: "int \<Rightarrow> instant \<Rightarrow> instant result" where
  "activation_time latency accepted_at =
     (if max_datetime < accepted_at + latency then Inl (SimulationConfigurationError Latency_datetime_overflow)
      else Inr (accepted_at + latency))"

section \<open>Admission\<close>

datatype simulation_source_type = INFERRED_BEHAVIOR | OBSERVED_FACT | SIMULATED_OUTPUT | STOCHASTIC_ASSUMPTION

record order_admission =
  ad_intent :: order_intent
  ad_market_status :: market_status
  ad_rejection_decision :: rejection_decision
  ad_submitted_at :: instant
  ad_accepted_at :: "instant option"
  ad_activates_at :: "instant option"
  ad_required_balance :: "rat option"
  ad_available_balance :: "rat option"
  ad_source_type :: simulation_source_type

definition validate_activation_lineage :: "rejection_decision \<Rightarrow> instant option \<Rightarrow> instant option \<Rightarrow> (bool \<times> py_error) list" where
  "validate_activation_lineage d accepted_at activates_at =
     (if rd_accepted d
      then [(accepted_at = None \<or> activates_at = None, SimulationConfigurationError Activation_missing)]
      else [(accepted_at \<noteq> None \<or> activates_at \<noteq> None, SimulationConfigurationError Rejected_activation_invalid)])"

definition mk_order_admission :: "order_admission \<Rightarrow> order_admission result" where
  "mk_order_admission a =
     bindE (guards
       (validate_activation_lineage (ad_rejection_decision a) (ad_accepted_at a) (ad_activates_at a) @
        [(case (ad_accepted_at a, ad_activates_at a) of (Some x, Some y) \<Rightarrow> y < x | _ \<Rightarrow> False,
            SimulationConfigurationError Activation_order_invalid),
         (ad_source_type a \<noteq> SIMULATED_OUTPUT, SimulationConfigurationError Admission_source_type_invalid)])) (\<lambda>_. Inr a)"

text \<open>The exchange is composed from the two models it is given.\<close>

type_synonym evaluator = "market_status \<Rightarrow> rat option \<Rightarrow> rat \<Rightarrow> rat option \<Rightarrow> rat option \<Rightarrow> rejection_decision result"

definition admit_order ::
  "evaluator \<Rightarrow> (instant \<Rightarrow> instant result) \<Rightarrow> order_intent \<Rightarrow> market_status \<Rightarrow> instant \<Rightarrow> rat option \<Rightarrow> rat option \<Rightarrow>
     order_admission result" where
  "admit_order evaluate activates intent status submitted_at required available =
     bindE (evaluate status (oi_limit_price intent) (oi_quantity intent) required available) (\<lambda>decision.
     bindE (if rd_accepted decision then bindE (activates submitted_at) (\<lambda>t. Inr (Some t)) else Inr None) (\<lambda>activates_at.
     mk_order_admission
       \<lparr>ad_intent = intent, ad_market_status = status, ad_rejection_decision = decision, ad_submitted_at = submitted_at,
        ad_accepted_at = (if rd_accepted decision then Some submitted_at else None), ad_activates_at = activates_at,
        ad_required_balance = required, ad_available_balance = available, ad_source_type = SIMULATED_OUTPUT\<rparr>))"

section \<open>The protocols\<close>

definition admission_of ::
  "order_intent \<Rightarrow> market_status \<Rightarrow> instant \<Rightarrow> rat option \<Rightarrow> rat option \<Rightarrow> rejection_decision \<Rightarrow> instant option \<Rightarrow>
     order_admission" where
  "admission_of i status t required available d u =
     \<lparr>ad_intent = i, ad_market_status = status, ad_rejection_decision = d, ad_submitted_at = t,
      ad_accepted_at = (if rd_accepted d then Some t else None), ad_activates_at = u,
      ad_required_balance = required, ad_available_balance = available, ad_source_type = SIMULATED_OUTPUT\<rparr>"

lemma admission_of_ok:
  assumes "if rd_accepted d then \<exists>v. u = Some v \<and> t \<le> v else u = None"
  shows "mk_order_admission (admission_of i status t required available d u) =
    Inr (admission_of i status t required available d u)"
  using assms
  by (auto simp: mk_order_admission_def admission_of_def validate_activation_lineage_def split: if_splits)

lemma admit_order_eq:
  "admit_order evaluate activates i status t required available =
     bindE (evaluate status (oi_limit_price i) (oi_quantity i) required available) (\<lambda>d.
     if rd_accepted d then bindE (activates t) (\<lambda>u. mk_order_admission (admission_of i status t required available d (Some u)))
     else mk_order_admission (admission_of i status t required available d None))"
  by (simp add: admit_order_def admission_of_def bindE_def split: sum.splits)

locale rejection_model =
  fixes valid :: "'r \<Rightarrow> bool" and evaluate :: "'r \<Rightarrow> evaluator"
  assumes evaluates: "valid m \<Longrightarrow> (\<exists>d. evaluate m status price q required available = Inr d) \<longleftrightarrow>
      pred_option (\<lambda>r. 0 \<le> r) required \<and> pred_option (\<lambda>a. 0 \<le> a) available"
    and accepts_only: "valid m \<Longrightarrow> evaluate m status price q required available = Inr d \<Longrightarrow> rd_accepted d \<Longrightarrow>
      price \<noteq> None \<and> 0 < q \<and> (\<forall>r. required = Some r \<longrightarrow> (\<exists>a. available = Some a \<and> r \<le> a))"

locale latency_model =
  fixes valid_latency :: "'l \<Rightarrow> bool" and activates :: "'l \<Rightarrow> instant \<Rightarrow> instant result"
  assumes not_before: "valid_latency l \<Longrightarrow> activates l t = Inr u \<Longrightarrow> t \<le> u"
    and only_overflow: "activates l t = Inl e \<Longrightarrow> e = SimulationConfigurationError Latency_datetime_overflow"

locale admission = rejection_model valid evaluate + latency_model valid_latency activates
  for valid :: "'r \<Rightarrow> bool" and evaluate :: "'r \<Rightarrow> evaluator"
    and valid_latency :: "'l \<Rightarrow> bool" and activates :: "'l \<Rightarrow> instant \<Rightarrow> instant result"
begin

text \<open>The admission is always well formed: the checks of its constructor cannot fail, so the only errors are
  those of the inputs and of a time beyond the calendar.\<close>

lemma admit_decided:
  assumes "valid m" and "valid_latency l"
    and d: "evaluate m status (oi_limit_price i) (oi_quantity i) required available = Inr d"
  shows "admit_order (evaluate m) (activates l) i status t required available =
    (if rd_accepted d then bindE (activates l t) (\<lambda>u. Inr (admission_of i status t required available d (Some u)))
     else Inr (admission_of i status t required available d None))"
proof (cases "rd_accepted d")
  case True
  then show ?thesis
    using not_before [OF assms(2), of t]
    by (cases "activates l t") (simp_all add: admit_order_eq d admission_of_ok)
next
  case False
  then show ?thesis by (simp add: admit_order_eq d admission_of_ok)
qed

lemma admit_cases:
  assumes "valid m" and "valid_latency l"
    and "pred_option (\<lambda>r. 0 \<le> r) required" and "pred_option (\<lambda>b. 0 \<le> b) available"
  obtains (overflow) e where "admit_order (evaluate m) (activates l) i status t required available =
      Inl (SimulationConfigurationError Latency_datetime_overflow)" "activates l t = Inl e"
  | (accepted) d u where "evaluate m status (oi_limit_price i) (oi_quantity i) required available = Inr d"
      "rd_accepted d" "activates l t = Inr u" "t \<le> u"
      "admit_order (evaluate m) (activates l) i status t required available =
        Inr (admission_of i status t required available d (Some u))"
  | (rejected) d where "evaluate m status (oi_limit_price i) (oi_quantity i) required available = Inr d"
      "\<not> rd_accepted d" "admit_order (evaluate m) (activates l) i status t required available =
        Inr (admission_of i status t required available d None)"
proof -
  obtain d where d: "evaluate m status (oi_limit_price i) (oi_quantity i) required available = Inr d"
    using evaluates [OF assms(1)] assms(3,4) by blast
  note dec = admit_decided [OF assms(1,2) d, of t]
  show thesis
  proof (cases "rd_accepted d")
    case False
    with d dec show thesis by (intro rejected) simp_all
  next
    case True
    show thesis
    proof (cases "activates l t")
      case (Inl e)
      then show thesis using dec True only_overflow [OF Inl] by (intro overflow) simp_all
    next
      case (Inr u)
      then show thesis using d dec True not_before [OF assms(2) Inr] by (intro accepted) simp_all
    qed
  qed
qed

text \<open>Whatever the models, an accepted order has a price, a quantity and cover, and activates after it was sent.\<close>

lemma admitted_is_tradable:
  assumes "valid m" and "valid_latency l"
    and "pred_option (\<lambda>r. 0 \<le> r) required" and "pred_option (\<lambda>b. 0 \<le> b) available"
    and "admit_order (evaluate m) (activates l) i status t required available = Inr a"
    and "rd_accepted (ad_rejection_decision a)"
  shows "oi_limit_price i \<noteq> None \<and> 0 < oi_quantity i \<and>
      (\<forall>r. required = Some r \<longrightarrow> (\<exists>b. available = Some b \<and> r \<le> b)) \<and>
      ad_accepted_at a = Some t \<and> (\<exists>u. ad_activates_at a = Some u \<and> t \<le> u)"
  using assms(1-4)
proof (cases rule: admit_cases [of m l required available i status t])
  case (accepted d u)
  then show ?thesis using accepts_only [OF assms(1) accepted(1,2)] assms(5) by (auto simp: admission_of_def)
qed (use assms(5,6) in \<open>auto simp: admission_of_def\<close>)

end

definition rejection_model_valid :: "bounded_rejection_model \<Rightarrow> bool" where
  "rejection_model_valid m \<longleftrightarrow> mk_bounded_rejection_model m = Inr m"

definition latency_valid :: "int \<Rightarrow> bool" where
  "latency_valid l \<longleftrightarrow> mk_fixed_latency l = Inr l"

definition within_bounds ::
  "bounded_rejection_model \<Rightarrow> market_status \<Rightarrow> rat option \<Rightarrow> rat \<Rightarrow> rat option \<Rightarrow> rat option \<Rightarrow> bool" where
  "within_bounds m status price q required available \<longleftrightarrow>
     (\<exists>p. price = Some p \<and> 0 \<le> p \<and> br_min_price m \<le> p \<and> pred_option (\<lambda>hi. p \<le> hi) (br_max_price m)) \<and>
     0 < q \<and> br_min_quantity m \<le> q \<and> pred_option (\<lambda>hi. q \<le> hi) (br_max_quantity m) \<and>
     status \<in> set (br_open_statuses m) \<and>
     (\<forall>r. required = Some r \<longrightarrow> (\<exists>b. available = Some b \<and> r \<le> b))"

lemma ladder_iff:
  "guards (rejection_ladder m status price q required available) = Inr () \<longleftrightarrow>
     within_bounds m status price q required available"
  by (cases price; cases required; cases available; cases "br_max_price m"; cases "br_max_quantity m")
    (auto simp: within_bounds_def rejection_ladder_def guards_ok_iff Let_def not_less not_le simp del: guards.simps)

lemma bounded_evaluate_accepts:
  assumes "bounded_evaluate m status price q required available = Inr d"
  shows "rd_accepted d \<longleftrightarrow> within_bounds m status price q required available"
  unfolding ladder_iff [symmetric]
  using assms
  by (cases "guards (rejection_ladder m status price q required available)")
    (auto simp: bounded_evaluate_def bindE_eq_Inr)

interpretation bounded_rejection: rejection_model rejection_model_valid bounded_evaluate
proof
  show "(\<exists>d. bounded_evaluate m status price q required available = Inr d) \<longleftrightarrow>
      pred_option (\<lambda>r. 0 \<le> r) required \<and> pred_option (\<lambda>a. 0 \<le> a) available" for m status price q required available
    by (auto simp: bounded_evaluate_def bindE_eq_Inr guards_ok_iff simp del: guards.simps)
next
  fix m status price q required available d
  assume "bounded_evaluate m status price q required available = Inr d" "rd_accepted d"
  then show "price \<noteq> None \<and> 0 < q \<and> (\<forall>r. required = Some r \<longrightarrow> (\<exists>a. available = Some a \<and> r \<le> a))"
    using bounded_evaluate_accepts [of m status price q required available d] by (auto simp: within_bounds_def)
qed

interpretation fixed_latency: latency_model latency_valid activation_time
  by unfold_locales (auto simp: latency_valid_def mk_fixed_latency_def activation_time_def split: if_splits)

interpretation exchange: admission rejection_model_valid bounded_evaluate latency_valid activation_time
  by unfold_locales

section \<open>Properties\<close>

text \<open>
  What the simulated exchange admits. For models their constructors accept and nonnegative
  balances, \<open>admit_order\<close> either returns an admission or reports an activation time beyond the
  calendar; no other check can fail. The order is accepted exactly when its price lies within
  the bounds, its quantity within the limits, the market status is an open one and the available balance
  covers the required one; then it is accepted at its submission and activates no earlier, and a
  rejected order has no such times.
\<close>

theorem exchange_admission:
  assumes "rejection_model_valid m" and "latency_valid l"
    and "pred_option (\<lambda>r. 0 \<le> r) required" and "pred_option (\<lambda>b. 0 \<le> b) available"
  shows "case admit_order (bounded_evaluate m) (activation_time l) i status t required available of
      Inl e \<Rightarrow> e = SimulationConfigurationError Latency_datetime_overflow \<and> max_datetime < t + l
    | Inr a \<Rightarrow>
        (rd_accepted (ad_rejection_decision a) \<longleftrightarrow>
          within_bounds m status (oi_limit_price i) (oi_quantity i) required available) \<and>
        (if rd_accepted (ad_rejection_decision a)
         then ad_accepted_at a = Some t \<and> ad_activates_at a = Some (t + l) \<and> t \<le> t + l
         else ad_accepted_at a = None \<and> ad_activates_at a = None)"
proof -
  show ?thesis
    using assms
  proof (cases rule: exchange.admit_cases [of m l required available i status t])
    case (overflow e)
    then show ?thesis by (auto simp: activation_time_def split: if_splits)
  next
    case (accepted d u)
    then have "u = t + l" by (simp add: activation_time_def split: if_splits)
    then show ?thesis
      using accepted bounded_evaluate_accepts [OF accepted(1)] by (simp add: admission_of_def)
  next
    case (rejected d)
    then show ?thesis using bounded_evaluate_accepts [OF rejected(1)] by (simp add: admission_of_def)
  qed
qed

text \<open>The default bounds of the rejection model.\<close>

definition default_rejection_model :: bounded_rejection_model where
  "default_rejection_model =
     \<lparr>br_min_price = 0, br_max_price = Some 1, br_min_quantity = 1 / 10 ^ 8, br_max_quantity = None, br_open_statuses = [OPEN]\<rparr>"

theorem exchange_admission_witness:
  "\<exists>a. admit_order (bounded_evaluate default_rejection_model) (activation_time 250) sample_intent OPEN 1000 (Some 5) (Some 8) =
      Inr a \<and> rd_accepted (ad_rejection_decision a) \<and> ad_activates_at a = Some 1250"
proof -
  have v: "rejection_model_valid default_rejection_model" "latency_valid 250"
    by (simp_all add: rejection_model_valid_def mk_bounded_rejection_model_def default_rejection_model_def
        latency_valid_def mk_fixed_latency_def)
  have w: "within_bounds default_rejection_model OPEN (oi_limit_price sample_intent) (oi_quantity sample_intent) (Some 5) (Some 8)"
    by (simp add: within_bounds_def default_rejection_model_def sample_intent_def)
  from exchange_admission [OF v, where required = "Some 5" and available = "Some 8" and i = sample_intent and status = OPEN and t = 1000]
  show ?thesis by (simp add: w max_datetime_def split: sum.splits)
qed

end
