(* ===== verification/Settlement_Models.thy ===== *)
theory Settlement_Models
  imports Simulation_Config
begin

text \<open>
  \<open>src/pmrp/simulation/settlement.py\<close>: the simulated payout of an outcome position. The protocol
  \<^verbatim>\<open>SettlementModel\<close> is the locale \<open>settlement_model\<close>, interpreted for the binary model and the model that leaves
  everything unresolved.
\<close>

record settlement_estimate =
  sm_outcome_id :: ident
  sm_quantity :: rat
  sm_status :: settlement_status
  sm_winning_outcome_ids :: "ident list"
  sm_payout_per_unit :: rat
  sm_payout_amount :: rat
  sm_is_winning_outcome :: bool

definition validate_winning_outcome_ids :: "bool \<Rightarrow> ident list \<Rightarrow> unit result" where
  "validate_winning_outcome_ids allow_empty winners =
     guards
       [(winners = [] \<and> \<not> allow_empty, SimulationInputError Winners_missing),
        (\<not> distinct winners, SimulationInputError Winners_duplicate)]"

definition no_settlement_from_configuration :: "simulation_configuration \<Rightarrow> unit result" where
  "no_settlement_from_configuration c =
     guards [(sc_settlement_model c \<noteq> ''none_v1'', SimulationConfigurationError Settlement_model_unsupported)]"

definition no_settlement_estimate :: "ident \<Rightarrow> decimal_tuple \<Rightarrow> ident list \<Rightarrow> settlement_estimate result" where
  "no_settlement_estimate outcome quantity winners =
     bindE (parse_positive_decimal F_quantity quantity) (\<lambda>q.
     bindE (validate_winning_outcome_ids True winners) (\<lambda>_.
     bindE (guards [(winners \<noteq> [], SimulationInputError No_settlement_has_winners)]) (\<lambda>_.
     Inr \<lparr>sm_outcome_id = outcome, sm_quantity = q, sm_status = UNRESOLVED, sm_winning_outcome_ids = winners,
          sm_payout_per_unit = 0, sm_payout_amount = 0, sm_is_winning_outcome = False\<rparr>)))"

text \<open>\<^verbatim>\<open>BinarySettlementModel\<close> is its payout per unit.\<close>

definition mk_binary_settlement :: "decimal_tuple \<Rightarrow> decimal_tuple result" where
  "mk_binary_settlement payout = bindE (parse_positive_decimal F_amount payout) (\<lambda>_. Inr payout)"

definition binary_settlement_from_configuration :: "simulation_configuration \<Rightarrow> decimal_tuple result" where
  "binary_settlement_from_configuration c =
     (if sc_settlement_model c \<noteq> ''binary_settlement_v1''
      then Inl (SimulationConfigurationError Settlement_model_unsupported)
      else case map_of (sc_parameters c) ''settlement_payout_per_unit'' of
          None \<Rightarrow> mk_binary_settlement \<lparr>dt_coefficient = 1, dt_exponent = 0\<rparr>
        | Some s \<Rightarrow> bindE (parse_decimal_text F_amount s) mk_binary_settlement)"

definition binary_settlement_estimate ::
  "decimal_tuple \<Rightarrow> ident \<Rightarrow> decimal_tuple \<Rightarrow> ident list \<Rightarrow> settlement_estimate result" where
  "binary_settlement_estimate payout outcome quantity winners =
     bindE (parse_positive_decimal F_quantity quantity) (\<lambda>q.
     bindE (validate_winning_outcome_ids False winners) (\<lambda>_.
     bindE (guards [(length winners \<noteq> 1, SimulationInputError Winner_count_invalid)]) (\<lambda>_.
       let is_winning_outcome = (outcome = winners ! 0);
           payout_amount = (if is_winning_outcome then cmul (dec_value payout) q else 0)
       in Inr \<lparr>sm_outcome_id = outcome, sm_quantity = q, sm_status = SETTLED, sm_winning_outcome_ids = winners,
               sm_payout_per_unit = dec_value payout, sm_payout_amount = payout_amount,
               sm_is_winning_outcome = is_winning_outcome\<rparr>)))"

section \<open>The protocol\<close>

locale settlement_model =
  fixes valid :: "'m \<Rightarrow> bool" and estimate :: "'m \<Rightarrow> ident \<Rightarrow> decimal_tuple \<Rightarrow> ident list \<Rightarrow> settlement_estimate result"
  assumes pays: "valid m \<Longrightarrow> estimate m outcome quantity winners = Inr e \<Longrightarrow>
      sm_payout_amount e = (if sm_is_winning_outcome e then sm_payout_per_unit e * dec_value quantity else 0)"
    and wins: "valid m \<Longrightarrow> estimate m outcome quantity winners = Inr e \<Longrightarrow>
      sm_is_winning_outcome e \<Longrightarrow> outcome \<in> set winners"
    and resolves: "valid m \<Longrightarrow> estimate m outcome quantity winners = Inr e \<Longrightarrow> sm_status e = SETTLED \<Longrightarrow>
      length winners = 1 \<and> (outcome \<in> set winners \<longrightarrow> sm_is_winning_outcome e)"
    and rate: "valid m \<Longrightarrow> estimate m o1 q1 winners = Inr e1 \<Longrightarrow> estimate m o2 q2 winners = Inr e2 \<Longrightarrow>
      sm_payout_per_unit e1 = sm_payout_per_unit e2"
begin

text \<open>Two positions in different outcomes of one resolved market: exactly one is paid, so equal
  holdings of all outcomes together are worth one payout.\<close>

lemma complementary_positions:
  assumes "valid m" and "o1 \<noteq> o2" and "winners = [o1] \<or> winners = [o2]"
    and "estimate m o1 quantity winners = Inr e1" and "estimate m o2 quantity winners = Inr e2"
    and "sm_status e1 = SETTLED" and "sm_status e2 = SETTLED"
  shows "sm_payout_amount e1 + sm_payout_amount e2 = sm_payout_per_unit e1 * dec_value quantity"
  using pays [OF assms(1,4)] pays [OF assms(1,5)] wins [OF assms(1,4)] wins [OF assms(1,5)]
    resolves [OF assms(1,4,6)] resolves [OF assms(1,5,7)] rate [OF assms(1,4,5)] assms(2,3)
  by auto

end

definition binary_valid :: "decimal_tuple \<Rightarrow> bool" where
  "binary_valid payout \<longleftrightarrow> mk_binary_settlement payout = Inr payout"

lemma binary_valid_iff: "binary_valid payout \<longleftrightarrow> bounded payout \<and> 0 < dec_value payout"
  by (auto simp: binary_valid_def mk_binary_settlement_def bindE_eq_Inr parse_bounded_iff)

lemma payout_exact:
  assumes "bounded p" and "bounded q"
  shows "cmul (dec_value p) (dec_value q) = dec_value p * dec_value q"
proof -
  note vp = bounded_value [OF assms(1)] and vq = bounded_value [OF assms(2)]
  show ?thesis
    unfolding cmul_def
    by (rule exact_128 [OF mult_of_mult [OF vp(1) vq(1)] powi_weaken [OF abs_mult_powi [OF vp(3) vq(3)]]]) simp
qed

lemma winners_ok_iff:
  "validate_winning_outcome_ids allow_empty winners = Inr u \<longleftrightarrow> distinct winners \<and> (winners = [] \<longrightarrow> allow_empty)"
  by (auto simp: validate_winning_outcome_ids_def guards_ok_iff simp del: guards.simps)

lemma binary_estimate_iff:
  assumes "binary_valid payout"
  shows "binary_settlement_estimate payout outcome quantity winners = Inr e \<longleftrightarrow>
    bounded quantity \<and> 0 < dec_value quantity \<and>
    (\<exists>w. winners = [w] \<and>
      e = \<lparr>sm_outcome_id = outcome, sm_quantity = dec_value quantity, sm_status = SETTLED, sm_winning_outcome_ids = winners,
           sm_payout_per_unit = dec_value payout,
           sm_payout_amount = (if outcome = w then dec_value payout * dec_value quantity else 0),
           sm_is_winning_outcome = (outcome = w)\<rparr>)"
proof (cases "bounded quantity \<and> 0 < dec_value quantity")
  case False
  then show ?thesis by (auto simp: binary_settlement_estimate_def bindE_eq_Inr parse_bounded_iff)
next
  case True
  then have q: "parse_positive_decimal F_quantity quantity = Inr (dec_value quantity)" by (simp add: parse_bounded_iff)
  have exact: "cmul (dec_value payout) (dec_value quantity) = dec_value payout * dec_value quantity"
    using assms True by (intro payout_exact) (simp_all add: binary_valid_iff)
  show ?thesis
  proof (cases "\<exists>w. winners = [w]")
    case one: True
    then obtain w where w: "winners = [w]" by blast
    have "binary_settlement_estimate payout outcome quantity winners =
        Inr \<lparr>sm_outcome_id = outcome, sm_quantity = dec_value quantity, sm_status = SETTLED, sm_winning_outcome_ids = winners,
             sm_payout_per_unit = dec_value payout,
             sm_payout_amount = (if outcome = w then dec_value payout * dec_value quantity else 0),
             sm_is_winning_outcome = (outcome = w)\<rparr>"
      by (simp add: binary_settlement_estimate_def q exact w validate_winning_outcome_ids_def Let_def)
    with True w show ?thesis by auto
  next
    case False
    then have "length winners \<noteq> 1" by (auto simp: length_Suc_conv)
    then have "binary_settlement_estimate payout outcome quantity winners \<noteq> Inr e"
      by (auto simp: binary_settlement_estimate_def bindE_eq_Inr)
    with False show ?thesis by blast
  qed
qed

interpretation binary_settlement: settlement_model binary_valid binary_settlement_estimate
  by unfold_locales (auto simp: binary_estimate_iff)

interpretation no_settlement: settlement_model "\<lambda>_ :: unit. True" "\<lambda>_. no_settlement_estimate"
  by unfold_locales (auto simp: no_settlement_estimate_def bindE_eq_Inr parse_bounded_iff)

end
