(* ===== verification/Risk_Context.thy ===== *)
theory Risk_Context
  imports Orders Reconciliation
begin

text \<open>
  The inputs and outputs of a pre-trade risk decision: the immutable state snapshots of
  \<open>src/pmrp/risk/context.py\<close>, the kill-switch records and the derivation of the kill-switch state
  (\<open>src/pmrp/risk/kill_switches.py\<close>), and the rule results and decisions of \<open>src/pmrp/schemas/risk.py\<close>.

  Each \<open>mk_*\<close> is a constructor with the checks of its \<^verbatim>\<open>__post_init__\<close> or validator. The frozen mappings of the
  context are partial functions; their key and value type checks hold by typing.
\<close>

section \<open>State snapshots\<close>

record risk_boolean_state =
  bs_value :: bool
  bs_observed_at :: instant

record risk_market_status_state =
  ms_status :: market_status
  ms_observed_at :: instant

record risk_price_bounds_state =
  pb_min_price :: rat
  pb_max_price :: rat
  pb_observed_at :: instant
  pb_tick_size :: "rat option"

definition mk_price_bounds :: "risk_price_bounds_state \<Rightarrow> risk_price_bounds_state result" where
  "mk_price_bounds b =
     bindE (guards
       [(pb_min_price b < 0, RiskConfigurationError ''min_price must be nonnegative''),
        (pb_max_price b < pb_min_price b,
           RiskConfigurationError ''max_price must be greater than or equal to min_price''),
        (case pb_tick_size b of None \<Rightarrow> False | Some t \<Rightarrow> t \<le> 0, RiskConfigurationError ''tick_size must be positive'')])
       (\<lambda>_. Inr b)"

record risk_quantity_limits_state =
  ql_min_quantity :: rat
  ql_max_quantity :: rat
  ql_quantity_increment :: rat
  ql_observed_at :: instant

definition mk_quantity_limits :: "risk_quantity_limits_state \<Rightarrow> risk_quantity_limits_state result" where
  "mk_quantity_limits l =
     bindE (guards
       [(ql_min_quantity l < 0, RiskConfigurationError ''min_quantity must be nonnegative''),
        (ql_max_quantity l < ql_min_quantity l,
           RiskConfigurationError ''max_quantity must be greater than or equal to min_quantity''),
        (ql_quantity_increment l \<le> 0, RiskConfigurationError ''quantity_increment must be positive'')]) (\<lambda>_. Inr l)"

record risk_notional_limit_state =
  nl_max_notional :: rat
  nl_observed_at :: instant

definition mk_notional_limit :: "risk_notional_limit_state \<Rightarrow> risk_notional_limit_state result" where
  "mk_notional_limit l =
     bindE (guards [(nl_max_notional l \<le> 0, RiskConfigurationError ''max_notional must be positive'')]) (\<lambda>_. Inr l)"

record risk_market_position_state =
  mp_current_position :: rat
  mp_max_position :: rat
  mp_observed_at :: instant
  mp_open_order_position_delta :: rat
  mp_reserved_position_delta :: rat

definition mk_market_position :: "risk_market_position_state \<Rightarrow> risk_market_position_state result" where
  "mk_market_position p =
     bindE (guards [(mp_max_position p \<le> 0, RiskConfigurationError ''max_position must be positive'')]) (\<lambda>_. Inr p)"

definition effective_position :: "risk_market_position_state \<Rightarrow> rat" where
  "effective_position p =
     dadd (dadd (mp_current_position p) (mp_open_order_position_delta p)) (mp_reserved_position_delta p)"

record risk_portfolio_gross_state =
  pg_current_gross_exposure :: rat
  pg_max_gross_exposure :: rat
  pg_observed_at :: instant
  pg_open_order_gross_exposure :: rat
  pg_reserved_gross_exposure :: rat

definition mk_portfolio_gross :: "risk_portfolio_gross_state \<Rightarrow> risk_portfolio_gross_state result" where
  "mk_portfolio_gross g =
     bindE (guards
       [(pg_current_gross_exposure g < 0, RiskConfigurationError ''current_gross_exposure must be nonnegative''),
        (pg_open_order_gross_exposure g < 0, RiskConfigurationError ''open_order_gross_exposure must be nonnegative''),
        (pg_reserved_gross_exposure g < 0, RiskConfigurationError ''reserved_gross_exposure must be nonnegative''),
        (pg_max_gross_exposure g \<le> 0, RiskConfigurationError ''max_gross_exposure must be positive'')]) (\<lambda>_. Inr g)"

definition effective_gross_exposure :: "risk_portfolio_gross_state \<Rightarrow> rat" where
  "effective_gross_exposure g =
     dadd (dadd (pg_current_gross_exposure g) (pg_open_order_gross_exposure g)) (pg_reserved_gross_exposure g)"

record risk_portfolio_net_state =
  pn_current_net_exposure :: rat
  pn_max_net_exposure :: rat
  pn_observed_at :: instant
  pn_open_order_net_exposure_delta :: rat
  pn_reserved_net_exposure_delta :: rat

definition mk_portfolio_net :: "risk_portfolio_net_state \<Rightarrow> risk_portfolio_net_state result" where
  "mk_portfolio_net n =
     bindE (guards [(pn_max_net_exposure n \<le> 0, RiskConfigurationError ''max_net_exposure must be positive'')]) (\<lambda>_. Inr n)"

definition effective_net_exposure :: "risk_portfolio_net_state \<Rightarrow> rat" where
  "effective_net_exposure n =
     dadd (dadd (pn_current_net_exposure n) (pn_open_order_net_exposure_delta n)) (pn_reserved_net_exposure_delta n)"

record risk_capital_state =
  cs_current_capital_used :: rat
  cs_max_capital :: rat
  cs_observed_at :: instant
  cs_open_order_capital :: rat
  cs_reserved_capital :: rat

text \<open>\<^verbatim>\<open>RiskStrategyCapitalState\<close> and \<^verbatim>\<open>RiskExchangeCapitalState\<close> differ only in the name of the maximum.\<close>

definition mk_capital_state :: "string \<Rightarrow> risk_capital_state \<Rightarrow> risk_capital_state result" where
  "mk_capital_state max_name s =
     bindE (guards
       [(cs_current_capital_used s < 0, RiskConfigurationError ''current_capital_used must be nonnegative''),
        (cs_open_order_capital s < 0, RiskConfigurationError ''open_order_capital must be nonnegative''),
        (cs_reserved_capital s < 0, RiskConfigurationError ''reserved_capital must be nonnegative''),
        (cs_max_capital s \<le> 0, RiskConfigurationError (max_name @ '' must be positive''))]) (\<lambda>_. Inr s)"

definition effective_capital_used :: "risk_capital_state \<Rightarrow> rat" where
  "effective_capital_used s = dadd (dadd (cs_current_capital_used s) (cs_open_order_capital s)) (cs_reserved_capital s)"

record risk_daily_loss_state =
  dy_daily_realized_pnl :: rat
  dy_daily_unrealized_pnl :: rat
  dy_max_daily_loss :: rat
  dy_observed_at :: instant

definition mk_daily_loss :: "risk_daily_loss_state \<Rightarrow> risk_daily_loss_state result" where
  "mk_daily_loss d =
     bindE (guards [(dy_max_daily_loss d \<le> 0, RiskConfigurationError ''max_daily_loss must be positive'')]) (\<lambda>_. Inr d)"

definition current_daily_loss :: "risk_daily_loss_state \<Rightarrow> rat" where
  "current_daily_loss d =
     (let net = dadd (dy_daily_realized_pnl d) (dy_daily_unrealized_pnl d) in if 0 \<le> net then 0 else dneg net)"

record risk_open_order_limit_state =
  ol_current_open_orders :: int
  ol_max_open_orders :: int
  ol_observed_at :: instant
  ol_pending_cancel_orders :: int
  ol_reserved_open_orders :: int

definition mk_open_order_limit :: "risk_open_order_limit_state \<Rightarrow> risk_open_order_limit_state result" where
  "mk_open_order_limit l =
     bindE (guards
       [(ol_current_open_orders l < 0, RiskConfigurationError ''current_open_orders must be nonnegative''),
        (ol_max_open_orders l \<le> 0, RiskConfigurationError ''max_open_orders must be positive''),
        (ol_pending_cancel_orders l < 0, RiskConfigurationError ''pending_cancel_orders must be nonnegative''),
        (ol_reserved_open_orders l < 0, RiskConfigurationError ''reserved_open_orders must be nonnegative'')]) (\<lambda>_. Inr l)"

definition effective_open_order_count :: "risk_open_order_limit_state \<Rightarrow> int" where
  "effective_open_order_count l = ol_current_open_orders l + ol_pending_cancel_orders l + ol_reserved_open_orders l"

record risk_duplicate_guard_state =
  dg_observed_at :: instant
  dg_known_intent_ids :: "ident set"
  dg_known_idempotency_keys :: "string set"

definition mk_duplicate_guard :: "risk_duplicate_guard_state \<Rightarrow> risk_duplicate_guard_state result" where
  "mk_duplicate_guard g =
     bindE (guards
       [([] \<in> dg_known_idempotency_keys g,
           RiskConfigurationError ''known_idempotency_keys values must not be empty''),
        (\<exists>k \<in> dg_known_idempotency_keys g. 256 < length k,
           RiskConfigurationError ''known_idempotency_keys values must be at most 256 characters'')]) (\<lambda>_. Inr g)"

record risk_available_balance_state =
  ab_available_balance :: rat
  ab_observed_at :: instant
  ab_reserved_balance :: rat

definition mk_available_balance :: "risk_available_balance_state \<Rightarrow> risk_available_balance_state result" where
  "mk_available_balance b =
     bindE (guards [(ab_reserved_balance b < 0, RiskConfigurationError ''reserved_balance must be nonnegative'')]) (\<lambda>_. Inr b)"

definition effective_available_balance :: "risk_available_balance_state \<Rightarrow> rat" where
  "effective_available_balance b = dsub (ab_available_balance b) (ab_reserved_balance b)"

record risk_reconciliation_state =
  rh_status :: reconciliation_status
  rh_trading_gate_released :: bool
  rh_observed_at :: instant
  rh_unresolved_mismatch_count :: int
  rh_manual_review_count :: int

definition mk_reconciliation_state :: "risk_reconciliation_state \<Rightarrow> risk_reconciliation_state result" where
  "mk_reconciliation_state r =
     bindE (guards
       [(rh_unresolved_mismatch_count r < 0, RiskConfigurationError ''unresolved_mismatch_count must be nonnegative''),
        (rh_manual_review_count r < 0, RiskConfigurationError ''manual_review_count must be nonnegative'')]) (\<lambda>_. Inr r)"

definition reconciliation_is_healthy :: "risk_reconciliation_state \<Rightarrow> bool" where
  "reconciliation_is_healthy r \<longleftrightarrow>
     rh_status r = HEALTHY \<and> rh_trading_gate_released r \<and> rh_unresolved_mismatch_count r = 0 \<and>
     rh_manual_review_count r = 0"

datatype kill_switch_scope = KS_GLOBAL | KS_EXCHANGE | KS_ACCOUNT | KS_STRATEGY | KS_MARKET | KS_EXECUTION_GATEWAY

record risk_kill_switch_state =
  kc_clear :: bool
  kc_observed_at :: instant
  kc_active_scopes :: "kill_switch_scope set"

definition mk_kill_switch_clear :: "risk_kill_switch_state \<Rightarrow> risk_kill_switch_state result" where
  "mk_kill_switch_clear k =
     bindE (guards
       [(kc_clear k \<and> kc_active_scopes k \<noteq> {},
           RiskConfigurationError ''clear kill switch state cannot contain active scopes'')]) (\<lambda>_. Inr k)"

record risk_arbitrage_state =
  al_current_unhedged_quantity :: rat
  al_max_unhedged_quantity :: rat
  al_observed_at :: instant
  al_hedge_deadline_at :: "instant option"
  al_submitted_legs :: int
  al_accepted_legs :: int
  al_filled_legs :: int

definition mk_arbitrage_leg :: "risk_arbitrage_state \<Rightarrow> risk_arbitrage_state result" where
  "mk_arbitrage_leg a =
     bindE (guards
       [(al_current_unhedged_quantity a < 0, RiskConfigurationError ''current_unhedged_quantity must be nonnegative''),
        (al_max_unhedged_quantity a < 0, RiskConfigurationError ''max_unhedged_quantity must be nonnegative''),
        (al_submitted_legs a < 0, RiskConfigurationError ''submitted_legs must be nonnegative''),
        (al_accepted_legs a < 0, RiskConfigurationError ''accepted_legs must be nonnegative''),
        (al_filled_legs a < 0, RiskConfigurationError ''filled_legs must be nonnegative''),
        (al_submitted_legs a < al_accepted_legs a, RiskConfigurationError ''accepted_legs must not exceed submitted_legs''),
        (al_accepted_legs a < al_filled_legs a, RiskConfigurationError ''filled_legs must not exceed accepted_legs'')])
       (\<lambda>_. Inr a)"

record risk_context =
  rc_evaluated_at :: instant
  rc_strategy_enabled :: "ident \<rightharpoonup> risk_boolean_state"
  rc_market_enabled :: "ident \<rightharpoonup> risk_boolean_state"
  rc_market_status :: "ident \<rightharpoonup> risk_market_status_state"
  rc_market_data_fresh :: "ident \<rightharpoonup> risk_boolean_state"
  rc_price_bounds :: "ident \<rightharpoonup> risk_price_bounds_state"
  rc_quantity_limits :: "ident \<rightharpoonup> risk_quantity_limits_state"
  rc_notional_limits :: "ident \<rightharpoonup> risk_notional_limit_state"
  rc_market_positions :: "ident \<rightharpoonup> risk_market_position_state"
  rc_portfolio_gross_exposure :: "risk_portfolio_gross_state option"
  rc_portfolio_net_exposure :: "risk_portfolio_net_state option"
  rc_strategy_capital :: "ident \<rightharpoonup> risk_capital_state"
  rc_market_exchanges :: "ident \<rightharpoonup> ident"
  rc_exchange_capital :: "ident \<rightharpoonup> risk_capital_state"
  rc_daily_loss :: "risk_daily_loss_state option"
  rc_open_order_limit :: "risk_open_order_limit_state option"
  rc_duplicate_order_guard :: "risk_duplicate_guard_state option"
  rc_available_balance :: "risk_available_balance_state option"
  rc_reconciliation_health :: "risk_reconciliation_state option"
  rc_kill_switch_clear :: "risk_kill_switch_state option"
  rc_arbitrage_leg :: "risk_arbitrage_state option"

section \<open>Kill switches\<close>

record kill_switch_state =
  kw_kill_switch_id :: string
  kw_scope :: kill_switch_scope
  kw_scope_id :: "string option"
  kw_active :: bool
  kw_activated_at :: "instant option"
  kw_activated_by :: "string option"
  kw_activation_reason :: "string option"
  kw_released_at :: "instant option"
  kw_released_by :: "string option"
  kw_release_reason :: "string option"
  kw_version :: int

definition validate_activation_lifecycle :: "kill_switch_state \<Rightarrow> (bool \<times> py_error) list" where
  "validate_activation_lifecycle k =
     (let has_activation = kw_activated_at k \<noteq> None \<or> kw_activated_by k \<noteq> None \<or> kw_activation_reason k \<noteq> None;
          all_activation = kw_activated_at k \<noteq> None \<and> kw_activated_by k \<noteq> None \<and> kw_activation_reason k \<noteq> None;
          has_release = kw_released_at k \<noteq> None \<or> kw_released_by k \<noteq> None \<or> kw_release_reason k \<noteq> None;
          all_release = kw_released_at k \<noteq> None \<and> kw_released_by k \<noteq> None \<and> kw_release_reason k \<noteq> None;
          bad = (\<lambda>m. ValidationError (Message m))
      in
     [(kw_active k \<and> \<not> all_activation, bad ''active kill switch requires activation audit fields''),
      (kw_active k \<and> has_release, bad ''active kill switch cannot contain release fields''),
      (\<not> kw_active k \<and> has_release \<and> \<not> all_release, bad ''released kill switch requires release audit fields''),
      (\<not> kw_active k \<and> has_release \<and> \<not> all_activation, bad ''released kill switch requires activation audit fields''),
      (\<not> kw_active k \<and> has_activation \<and> \<not> has_release,
         bad ''inactive activated kill switch requires release audit fields''),
      (case (kw_released_at k, kw_activated_at k) of (Some r, Some a) \<Rightarrow> r \<le> a | _ \<Rightarrow> False,
         bad ''released_at must be after activated_at'')])"

definition mk_kill_switch_state :: "kill_switch_state \<Rightarrow> kill_switch_state result" where
  "mk_kill_switch_state k =
     bindE (guards
       ([(\<not> text_in 1 128 (kw_kill_switch_id k), ValidationError (Out_of_range F_text)),
         (\<not> pred_option (text_in 1 256) (kw_scope_id k), ValidationError (Out_of_range F_text)),
         (\<not> pred_option (text_in 1 128) (kw_activated_by k), ValidationError (Out_of_range F_text)),
         (\<not> pred_option (text_in 1 1024) (kw_activation_reason k), ValidationError (Out_of_range F_text)),
         (\<not> pred_option (text_in 1 128) (kw_released_by k), ValidationError (Out_of_range F_text)),
         (\<not> pred_option (text_in 1 1024) (kw_release_reason k), ValidationError (Out_of_range F_text)),
         (kw_version k < 0, ValidationError (Out_of_range F_aggregate_version))] @
        validate_activation_lifecycle k)) (\<lambda>_. Inr k)"

record kill_switch_subject =
  ksub_strategy_id :: ident
  ksub_market_id :: ident
  ksub_exchange_id :: "ident option"
  ksub_account_id :: "ident option"
  ksub_execution_gateway_id :: "string option"

definition mk_kill_switch_subject :: "kill_switch_subject \<Rightarrow> kill_switch_subject result" where
  "mk_kill_switch_subject k =
     bindE (guards
       [(ksub_execution_gateway_id k = Some [], RiskConfigurationError ''execution_gateway_id must not be empty''),
        (case ksub_execution_gateway_id k of None \<Rightarrow> False | Some g \<Rightarrow> 256 < length g,
           RiskConfigurationError ''execution_gateway_id must be at most 256 characters'')]) (\<lambda>_. Inr k)"

definition subject_from_intent ::
  "order_intent \<Rightarrow> risk_context \<Rightarrow> ident option \<Rightarrow> string option \<Rightarrow> kill_switch_subject result" where
  "subject_from_intent i c account_id gateway_id =
     mk_kill_switch_subject
       \<lparr>ksub_strategy_id = oi_strategy_id i, ksub_market_id = oi_market_id i,
        ksub_exchange_id = rc_market_exchanges c (oi_market_id i), ksub_account_id = account_id,
        ksub_execution_gateway_id = gateway_id\<rparr>"

definition matches_subject :: "kill_switch_state \<Rightarrow> kill_switch_subject \<Rightarrow> bool result" where
  "matches_subject k sub =
     (if kw_scope k = KS_GLOBAL then Inr True
      else case kw_scope_id k of
          None \<Rightarrow> Inl (RiskConfigurationError ''active non-global kill switch requires scope_id'')
        | Some scope_id \<Rightarrow> Inr
            (case kw_scope k of
               KS_STRATEGY \<Rightarrow> scope_id = ksub_strategy_id sub
             | KS_MARKET \<Rightarrow> scope_id = ksub_market_id sub
             | KS_EXCHANGE \<Rightarrow> ksub_exchange_id sub = Some scope_id
             | KS_ACCOUNT \<Rightarrow> ksub_account_id sub = Some scope_id
             | KS_EXECUTION_GATEWAY \<Rightarrow> ksub_execution_gateway_id sub = Some scope_id
             | KS_GLOBAL \<Rightarrow> False))"

definition clear_state_for_subject ::
  "kill_switch_state list \<Rightarrow> kill_switch_subject \<Rightarrow> instant \<Rightarrow> risk_kill_switch_state result" where
  "clear_state_for_subject switches sub observed_at =
     bindE (foldE (\<lambda>active_scopes k.
         if \<not> kw_active k then Inr active_scopes
         else bindE (matches_subject k sub) (\<lambda>hit. Inr (if hit then insert (kw_scope k) active_scopes else active_scopes)))
       {} switches) (\<lambda>active_scopes.
     if active_scopes = {}
     then mk_kill_switch_clear \<lparr>kc_clear = True, kc_observed_at = observed_at, kc_active_scopes = {}\<rparr>
     else mk_kill_switch_clear \<lparr>kc_clear = False, kc_observed_at = observed_at, kc_active_scopes = active_scopes\<rparr>)"

section \<open>Rule results and decisions\<close>

record risk_rule_result =
  ru_rule_id :: string
  ru_rule_version :: string
  ru_passed :: bool
  ru_reason_code :: string
  ru_reason_text :: "string option"
  ru_observed_value :: "rat option"
  ru_limit_value :: "rat option"
  ru_unit :: "string option"
  ru_evaluated_at :: instant

datatype risk_decision_status = RD_APPROVED | RD_REJECTED | RD_ERROR

record risk_decision =
  de_risk_decision_id :: ident
  de_intent_id :: ident
  de_status :: risk_decision_status
  de_evaluated_at :: instant
  de_input_snapshot_id :: string
  de_rule_results :: "risk_rule_result list"
  de_approved_quantity :: "rat option"
  de_approved_limit_price :: "rat option"
  de_approval_expires_at :: "instant option"
  de_configuration_hash :: string
  de_correlation_id :: ident

definition validate_decision_state :: "risk_decision \<Rightarrow> (bool \<times> py_error) list" where
  "validate_decision_state d =
     (let bad = (\<lambda>m. ValidationError (Message m));
          has_approval = de_approved_quantity d \<noteq> None \<or> de_approved_limit_price d \<noteq> None \<or> de_approval_expires_at d \<noteq> None
      in
      [(de_rule_results d = [], bad ''risk decision requires at least one rule result'')] @
      (if de_status d = RD_APPROVED then
         [(\<not> list_all ru_passed (de_rule_results d), bad ''approved risk decision cannot contain failed rule results''),
          (de_approved_quantity d = None \<or> de_approved_limit_price d = None,
             bad ''approved risk decision requires approved quantity and limit price'')]
       else
         [(has_approval, bad ''non-approved risk decision cannot contain approval fields''),
          (list_all ru_passed (de_rule_results d),
             bad ''non-approved risk decision requires at least one failed rule result'')]) @
      [(case de_approval_expires_at d of None \<Rightarrow> False | Some t \<Rightarrow> t \<le> de_evaluated_at d,
          bad ''approval_expires_at must be after evaluated_at'')])"

definition mk_risk_decision :: "risk_decision \<Rightarrow> risk_decision result" where
  "mk_risk_decision d =
     bindE (guards
       ([(\<not> text_in 1 128 (de_input_snapshot_id d), ValidationError (Out_of_range F_text)),
         (\<not> pred_option (\<lambda>q. 0 < q) (de_approved_quantity d), ValidationError (Out_of_range F_quantity)),
         (\<not> pred_option (\<lambda>p. 0 \<le> p) (de_approved_limit_price d), ValidationError (Out_of_range F_price)),
         (\<not> text_in 1 128 (de_configuration_hash d), ValidationError (Out_of_range F_text))] @
        validate_decision_state d)) (\<lambda>_. Inr d)"

section \<open>What the kill-switch state says\<close>

text \<open>An active switch concerns the subject.\<close>

definition switch_applies :: "kill_switch_state \<Rightarrow> kill_switch_subject \<Rightarrow> bool" where
  "switch_applies k sub \<longleftrightarrow> kw_active k \<and> matches_subject k sub = Inr True"

definition scopes_complete :: "kill_switch_state list \<Rightarrow> bool" where
  "scopes_complete ks \<longleftrightarrow> list_all (\<lambda>k. kw_active k \<longrightarrow> kw_scope k = KS_GLOBAL \<or> kw_scope_id k \<noteq> None) ks"

lemma matches_subject_ok: "kw_scope k = KS_GLOBAL \<or> kw_scope_id k \<noteq> None \<Longrightarrow> \<exists>b. matches_subject k sub = Inr b"
  by (auto simp: matches_subject_def)

lemma active_scopes_run:
  "scopes_complete ks \<Longrightarrow>
   foldE (\<lambda>active_scopes k.
         if \<not> kw_active k then Inr active_scopes
         else bindE (matches_subject k sub) (\<lambda>hit. Inr (if hit then insert (kw_scope k) active_scopes else active_scopes)))
     a ks = Inr (a \<union> kw_scope ` {k \<in> set ks. switch_applies k sub})"
proof (induction ks arbitrary: a)
  case Nil
  then show ?case by simp
next
  case (Cons k ks)
  have sc: "scopes_complete ks" using Cons.prems by (simp add: scopes_complete_def)
  show ?case
  proof (cases "kw_active k")
    case False
    then have "{k' \<in> set (k # ks). switch_applies k' sub} = {k' \<in> set ks. switch_applies k' sub}"
      by (auto simp: switch_applies_def)
    then show ?thesis using Cons.IH [OF sc, of a] False by simp
  next
    case True
    then obtain b where b: "matches_subject k sub = Inr b"
      using Cons.prems matches_subject_ok [of k sub] by (auto simp: scopes_complete_def)
    have "{k' \<in> set (k # ks). switch_applies k' sub} =
        (if b then insert k {k' \<in> set ks. switch_applies k' sub} else {k' \<in> set ks. switch_applies k' sub})"
      using True b by (auto simp: switch_applies_def)
    then show ?thesis using Cons.IH [OF sc] True b by simp
  qed
qed

lemma clear_state_eq:
  assumes "scopes_complete ks"
  shows "clear_state_for_subject ks sub t =
    (let active = kw_scope ` {k \<in> set ks. switch_applies k sub}
     in Inr \<lparr>kc_clear = (active = {}), kc_observed_at = t, kc_active_scopes = active\<rparr>)"
  unfolding clear_state_for_subject_def active_scopes_run [OF assms]
  by (simp add: mk_kill_switch_clear_def Let_def)

end
