(* ===== verification/Risk_Rules.thy ===== *)
theory Risk_Rules
  imports Risk_Context
begin

text \<open>
  The pre-trade risk rules of \<open>src/pmrp/risk/rules\<close>, RISK-001 and RISK-003 to RISK-020.

  A rule is a function of an intent and a context; it returns its result, or raises when \<^verbatim>\<open>Decimal\<close>'s remainder
  operation does. Every rule fails closed: a missing, stale or future state is a failed result. For each
  rule one lemma says exactly when it passes.
\<close>

section \<open>What the rules share\<close>

text \<open>\<^verbatim>\<open>_timedelta_milliseconds\<close>, of a duration in microseconds.\<close>

definition timedelta_milliseconds :: "int \<Rightarrow> rat" where
  "timedelta_milliseconds us = ddiv (of_int us) 1000"

text \<open>\<^verbatim>\<open>_result\<close>: the version of every rule is \<open>1.0\<close>, the reason text is never set.\<close>

definition rule_result ::
  "string \<Rightarrow> instant \<Rightarrow> bool \<Rightarrow> string \<Rightarrow> rat option \<Rightarrow> rat option \<Rightarrow> string \<Rightarrow> risk_rule_result" where
  "rule_result rule_id evaluated_at passed reason_code observed limit_value unit_name =
     \<lparr>ru_rule_id = rule_id, ru_rule_version = ''1.0'', ru_passed = passed, ru_reason_code = reason_code,
      ru_reason_text = None, ru_observed_value = observed, ru_limit_value = limit_value, ru_unit = Some unit_name,
      ru_evaluated_at = evaluated_at\<rparr>"

text \<open>The age check: \<^verbatim>\<open>_state_age_result\<close>, inline in the rules on flags.\<close>

definition state_age_result ::
  "string \<Rightarrow> int \<Rightarrow> instant \<Rightarrow> risk_context \<Rightarrow> string \<Rightarrow> string \<Rightarrow> risk_rule_result option" where
  "state_age_result rule_id max_state_age observed_at c future_reason stale_reason =
     (let now = rc_evaluated_at c; age = now - observed_at in
      if now < observed_at
      then Some (rule_result rule_id now False future_reason (Some (timedelta_milliseconds (observed_at - now))) (Some 0)
        ''milliseconds'')
      else if max_state_age < age
      then Some (rule_result rule_id now False stale_reason (Some (timedelta_milliseconds age))
        (Some (timedelta_milliseconds max_state_age)) ''milliseconds'')
      else None)"

text \<open>\<^verbatim>\<open>__post_init__\<close> of the rules.\<close>

definition mk_rule_age :: "int \<Rightarrow> int result" where
  "mk_rule_age max_state_age =
     (if max_state_age \<le> 0 then Inl (RiskConfigurationError ''max_state_age must be positive'') else Inr max_state_age)"

text \<open>
  The remainder of two decimals: the sign of the dividend, and an exception when the integral
  quotient has more digits than the context.
\<close>

definition dec_trunc :: "rat \<Rightarrow> int" where
  "dec_trunc x = (if 0 \<le> x then \<lfloor>x\<rfloor> else \<lceil>x\<rceil>)"

definition drem :: "rat \<Rightarrow> rat \<Rightarrow> rat result" where
  "drem x y =
     (if 10 ^ 28 \<le> \<bar>dec_trunc (x / y)\<bar> then Inl InvalidOperation
      else Inr (dec_round 28 (x - y * of_int (dec_trunc (x / y)))))"

definition fresh :: "int \<Rightarrow> risk_context \<Rightarrow> instant \<Rightarrow> bool" where
  "fresh max_state_age c t \<longleftrightarrow> t \<le> rc_evaluated_at c \<and> rc_evaluated_at c - t \<le> max_state_age"

lemma rule_result_sel [simp]:
  "ru_passed (rule_result r t p c ob l u) = p" "ru_evaluated_at (rule_result r t p c ob l u) = t"
  "ru_rule_id (rule_result r t p c ob l u) = r" "ru_reason_code (rule_result r t p c ob l u) = c"
  by (simp_all add: rule_result_def)

lemma state_age_None: "state_age_result r a t c f s = None \<longleftrightarrow> fresh a c t"
  by (auto simp: state_age_result_def fresh_def Let_def not_less)

lemma state_age_Some: "state_age_result r a t c f s = Some x \<Longrightarrow> \<not> ru_passed x \<and> \<not> fresh a c t"
  by (auto simp: state_age_result_def fresh_def Let_def split: if_splits)

section \<open>Rules on flags\<close>

definition strategy_enabled_rule :: "int \<Rightarrow> order_intent \<Rightarrow> risk_context \<Rightarrow> risk_rule_result result" where
  "strategy_enabled_rule max_state_age i c =
     (let res = rule_result ''RISK-001'' (rc_evaluated_at c) in
      case rc_strategy_enabled c (oi_strategy_id i) of
        None \<Rightarrow> Inr (res False ''RISK_STRATEGY_STATE_MISSING'' None (Some 1) ''enabled_flag'')
      | Some s \<Rightarrow>
          (case state_age_result ''RISK-001'' max_state_age (bs_observed_at s) c ''RISK_STRATEGY_STATE_FUTURE'' ''RISK_STRATEGY_STATE_STALE'' of
             Some r \<Rightarrow> Inr r
           | None \<Rightarrow> Inr (res (bs_value s) (if bs_value s then ''RISK_STRATEGY_ENABLED'' else ''RISK_STRATEGY_DISABLED'')
               (Some (if bs_value s then 1 else 0)) (Some 1) ''enabled_flag'')))"

definition market_enabled_rule :: "int \<Rightarrow> order_intent \<Rightarrow> risk_context \<Rightarrow> risk_rule_result result" where
  "market_enabled_rule max_state_age i c =
     (let res = rule_result ''RISK-003'' (rc_evaluated_at c) in
      case rc_market_enabled c (oi_market_id i) of
        None \<Rightarrow> Inr (res False ''RISK_MARKET_STATE_MISSING'' None (Some 1) ''enabled_flag'')
      | Some s \<Rightarrow>
          (case state_age_result ''RISK-003'' max_state_age (bs_observed_at s) c ''RISK_MARKET_STATE_FUTURE'' ''RISK_MARKET_STATE_STALE'' of
             Some r \<Rightarrow> Inr r
           | None \<Rightarrow> Inr (res (bs_value s) (if bs_value s then ''RISK_MARKET_ENABLED'' else ''RISK_MARKET_DISABLED'')
               (Some (if bs_value s then 1 else 0)) (Some 1) ''enabled_flag'')))"

definition market_data_freshness_rule :: "int \<Rightarrow> order_intent \<Rightarrow> risk_context \<Rightarrow> risk_rule_result result" where
  "market_data_freshness_rule max_state_age i c =
     (let res = rule_result ''RISK-005'' (rc_evaluated_at c) in
      case rc_market_data_fresh c (oi_market_id i) of
        None \<Rightarrow> Inr (res False ''RISK_MARKET_DATA_MISSING'' None (Some 1) ''fresh_flag'')
      | Some s \<Rightarrow>
          (case state_age_result ''RISK-005'' max_state_age (bs_observed_at s) c ''RISK_MARKET_DATA_FUTURE'' ''RISK_MARKET_DATA_STALE'' of
             Some r \<Rightarrow> Inr r
           | None \<Rightarrow> Inr (res (bs_value s) (if bs_value s then ''RISK_MARKET_DATA_FRESH'' else ''RISK_MARKET_DATA_NOT_FRESH'')
               (Some (if bs_value s then 1 else 0)) (Some 1) ''fresh_flag'')))"

definition market_open_rule ::
  "int \<Rightarrow> market_status list \<Rightarrow> order_intent \<Rightarrow> risk_context \<Rightarrow> risk_rule_result result" where
  "market_open_rule max_state_age open_statuses i c =
     (let res = rule_result ''RISK-004'' (rc_evaluated_at c) in
      case rc_market_status c (oi_market_id i) of
        None \<Rightarrow> Inr (res False ''RISK_MARKET_STATUS_MISSING'' None (Some 1) ''open_status'')
      | Some s \<Rightarrow>
          (case state_age_result ''RISK-004'' max_state_age (ms_observed_at s) c ''RISK_MARKET_STATUS_FUTURE''
              ''RISK_MARKET_STATUS_STALE'' of
             Some r \<Rightarrow> Inr r
           | None \<Rightarrow>
               let passed = ms_status s \<in> set open_statuses in
               Inr (res passed (if passed then ''RISK_MARKET_OPEN'' else ''RISK_MARKET_NOT_OPEN'')
                 (Some (if passed then 1 else 0)) (Some 1) ''open_status'')))"

section \<open>Rules on the order\<close>

definition order_price_valid_rule :: "int \<Rightarrow> order_intent \<Rightarrow> risk_context \<Rightarrow> risk_rule_result result" where
  "order_price_valid_rule max_state_age i c =
     (let res = rule_result ''RISK-006'' (rc_evaluated_at c) in
      case oi_limit_price i of
        None \<Rightarrow> Inr (res True ''RISK_ORDER_PRICE_NOT_REQUIRED'' None None ''price'')
      | Some price \<Rightarrow>
      (case rc_price_bounds c (oi_market_id i) of
        None \<Rightarrow> Inr (res False ''RISK_ORDER_PRICE_BOUNDS_MISSING'' (Some price) None ''price'')
      | Some b \<Rightarrow>
      (case state_age_result ''RISK-006'' max_state_age (pb_observed_at b) c ''RISK_ORDER_PRICE_BOUNDS_FUTURE''
          ''RISK_ORDER_PRICE_BOUNDS_STALE'' of
        Some r \<Rightarrow> Inr r
      | None \<Rightarrow>
        if price < pb_min_price b
        then Inr (res False ''RISK_ORDER_PRICE_BELOW_MIN'' (Some price) (Some (pb_min_price b)) ''min_price'')
        else if pb_max_price b < price
        then Inr (res False ''RISK_ORDER_PRICE_ABOVE_MAX'' (Some price) (Some (pb_max_price b)) ''max_price'')
        else
          bindE (case pb_tick_size b of None \<Rightarrow> Inr 0 | Some tick \<Rightarrow> drem (dsub price (pb_min_price b)) tick) (\<lambda>off.
          if off \<noteq> 0
          then Inr (res False ''RISK_ORDER_PRICE_OFF_TICK'' (Some price) (pb_tick_size b) ''tick_size'')
          else Inr (res True ''RISK_ORDER_PRICE_VALID'' (Some price) (Some (pb_max_price b)) ''price'')))))"

definition order_quantity_limit_rule :: "int \<Rightarrow> order_intent \<Rightarrow> risk_context \<Rightarrow> risk_rule_result result" where
  "order_quantity_limit_rule max_state_age i c =
     (let res = rule_result ''RISK-007'' (rc_evaluated_at c); q = oi_quantity i in
      case rc_quantity_limits c (oi_contract_id i) of
        None \<Rightarrow> Inr (res False ''RISK_ORDER_QUANTITY_LIMITS_MISSING'' (Some q) None ''quantity'')
      | Some l \<Rightarrow>
      (case state_age_result ''RISK-007'' max_state_age (ql_observed_at l) c ''RISK_ORDER_QUANTITY_LIMITS_FUTURE''
          ''RISK_ORDER_QUANTITY_LIMITS_STALE'' of
        Some r \<Rightarrow> Inr r
      | None \<Rightarrow>
        if q < ql_min_quantity l
        then Inr (res False ''RISK_ORDER_QUANTITY_BELOW_MIN'' (Some q) (Some (ql_min_quantity l)) ''min_quantity'')
        else if ql_max_quantity l < q
        then Inr (res False ''RISK_ORDER_QUANTITY_ABOVE_MAX'' (Some q) (Some (ql_max_quantity l)) ''max_quantity'')
        else
          bindE (drem (dsub q (ql_min_quantity l)) (ql_quantity_increment l)) (\<lambda>off.
          if off \<noteq> 0
          then Inr (res False ''RISK_ORDER_QUANTITY_OFF_INCREMENT'' (Some q) (Some (ql_quantity_increment l))
            ''quantity_increment'')
          else Inr (res True ''RISK_ORDER_QUANTITY_VALID'' (Some q) (Some (ql_max_quantity l)) ''quantity''))))"

definition order_notional_limit_rule :: "int \<Rightarrow> order_intent \<Rightarrow> risk_context \<Rightarrow> risk_rule_result result" where
  "order_notional_limit_rule max_state_age i c =
     (let res = rule_result ''RISK-008'' (rc_evaluated_at c) in
      case oi_limit_price i of
        None \<Rightarrow> Inr (res False ''RISK_ORDER_NOTIONAL_PRICE_MISSING'' None None ''notional'')
      | Some price \<Rightarrow>
      let amount = dmul (oi_quantity i) price in
      (case rc_notional_limits c (oi_contract_id i) of
        None \<Rightarrow> Inr (res False ''RISK_ORDER_NOTIONAL_LIMIT_MISSING'' (Some amount) None ''notional'')
      | Some s \<Rightarrow>
      (case state_age_result ''RISK-008'' max_state_age (nl_observed_at s) c ''RISK_ORDER_NOTIONAL_LIMIT_FUTURE''
          ''RISK_ORDER_NOTIONAL_LIMIT_STALE'' of
        Some r \<Rightarrow> Inr r
      | None \<Rightarrow>
        let projected = amount in
        if nl_max_notional s < projected
        then Inr (res False ''RISK_ORDER_NOTIONAL_ABOVE_MAX'' (Some projected) (Some (nl_max_notional s)) ''notional'')
        else Inr (res True ''RISK_ORDER_NOTIONAL_VALID'' (Some projected) (Some (nl_max_notional s)) ''notional''))))"

section \<open>Rules on exposure and capital\<close>

definition signed_quantity :: "order_intent \<Rightarrow> rat" where
  "signed_quantity i = (if oi_side i = BUY then oi_quantity i else dneg (oi_quantity i))"

definition signed_notional :: "rat \<Rightarrow> rat \<Rightarrow> side \<Rightarrow> rat" where
  "signed_notional quantity limit_price sd =
     (let notional = dmul quantity limit_price in if sd = BUY then notional else dneg notional)"

definition market_position_limit_rule :: "int \<Rightarrow> order_intent \<Rightarrow> risk_context \<Rightarrow> risk_rule_result result" where
  "market_position_limit_rule max_state_age i c =
     (let res = rule_result ''RISK-009'' (rc_evaluated_at c) in
      (case rc_market_positions c (oi_market_id i) of
        None \<Rightarrow> Inr (res False ''RISK_MARKET_POSITION_STATE_MISSING'' None None ''position'')
      | Some s \<Rightarrow>
      (case state_age_result ''RISK-009'' max_state_age (mp_observed_at s) c ''RISK_MARKET_POSITION_STATE_FUTURE''
          ''RISK_MARKET_POSITION_STATE_STALE'' of
        Some r \<Rightarrow> Inr r
      | None \<Rightarrow>
        let projected = dabs (dadd (effective_position s) (signed_quantity i)) in
        if mp_max_position s < projected
        then Inr (res False ''RISK_MARKET_POSITION_ABOVE_MAX'' (Some projected) (Some (mp_max_position s)) ''position'')
        else Inr (res True ''RISK_MARKET_POSITION_VALID'' (Some projected) (Some (mp_max_position s)) ''position''))))"

definition portfolio_gross_limit_rule :: "int \<Rightarrow> order_intent \<Rightarrow> risk_context \<Rightarrow> risk_rule_result result" where
  "portfolio_gross_limit_rule max_state_age i c =
     (let res = rule_result ''RISK-010'' (rc_evaluated_at c) in
      case oi_limit_price i of
        None \<Rightarrow> Inr (res False ''RISK_PORTFOLIO_GROSS_PRICE_MISSING'' None None ''gross_exposure'')
      | Some price \<Rightarrow>
      let amount = dmul (oi_quantity i) price in
      (case rc_portfolio_gross_exposure c of
        None \<Rightarrow> Inr (res False ''RISK_PORTFOLIO_GROSS_STATE_MISSING'' (Some amount) None ''gross_exposure'')
      | Some s \<Rightarrow>
      (case state_age_result ''RISK-010'' max_state_age (pg_observed_at s) c ''RISK_PORTFOLIO_GROSS_STATE_FUTURE''
          ''RISK_PORTFOLIO_GROSS_STATE_STALE'' of
        Some r \<Rightarrow> Inr r
      | None \<Rightarrow>
        let projected = dadd (effective_gross_exposure s) amount in
        if pg_max_gross_exposure s < projected
        then Inr (res False ''RISK_PORTFOLIO_GROSS_ABOVE_MAX'' (Some projected) (Some (pg_max_gross_exposure s)) ''gross_exposure'')
        else Inr (res True ''RISK_PORTFOLIO_GROSS_VALID'' (Some projected) (Some (pg_max_gross_exposure s)) ''gross_exposure''))))"

definition portfolio_net_limit_rule :: "int \<Rightarrow> order_intent \<Rightarrow> risk_context \<Rightarrow> risk_rule_result result" where
  "portfolio_net_limit_rule max_state_age i c =
     (let res = rule_result ''RISK-011'' (rc_evaluated_at c) in
      case oi_limit_price i of
        None \<Rightarrow> Inr (res False ''RISK_PORTFOLIO_NET_PRICE_MISSING'' None None ''net_exposure'')
      | Some price \<Rightarrow>
      let amount = signed_notional (oi_quantity i) price (oi_side i) in
      (case rc_portfolio_net_exposure c of
        None \<Rightarrow> Inr (res False ''RISK_PORTFOLIO_NET_STATE_MISSING'' (Some (dabs amount)) None ''net_exposure'')
      | Some s \<Rightarrow>
      (case state_age_result ''RISK-011'' max_state_age (pn_observed_at s) c ''RISK_PORTFOLIO_NET_STATE_FUTURE''
          ''RISK_PORTFOLIO_NET_STATE_STALE'' of
        Some r \<Rightarrow> Inr r
      | None \<Rightarrow>
        let projected = dabs (dadd (effective_net_exposure s) amount) in
        if pn_max_net_exposure s < projected
        then Inr (res False ''RISK_PORTFOLIO_NET_ABOVE_MAX'' (Some projected) (Some (pn_max_net_exposure s)) ''net_exposure'')
        else Inr (res True ''RISK_PORTFOLIO_NET_VALID'' (Some projected) (Some (pn_max_net_exposure s)) ''net_exposure''))))"

definition strategy_capital_limit_rule :: "int \<Rightarrow> order_intent \<Rightarrow> risk_context \<Rightarrow> risk_rule_result result" where
  "strategy_capital_limit_rule max_state_age i c =
     (let res = rule_result ''RISK-012'' (rc_evaluated_at c) in
      case oi_limit_price i of
        None \<Rightarrow> Inr (res False ''RISK_STRATEGY_CAPITAL_PRICE_MISSING'' None None ''capital'')
      | Some price \<Rightarrow>
      let amount = dmul (oi_quantity i) price in
      (case rc_strategy_capital c (oi_strategy_id i) of
        None \<Rightarrow> Inr (res False ''RISK_STRATEGY_CAPITAL_STATE_MISSING'' (Some amount) None ''capital'')
      | Some s \<Rightarrow>
      (case state_age_result ''RISK-012'' max_state_age (cs_observed_at s) c ''RISK_STRATEGY_CAPITAL_STATE_FUTURE''
          ''RISK_STRATEGY_CAPITAL_STATE_STALE'' of
        Some r \<Rightarrow> Inr r
      | None \<Rightarrow>
        let projected = dadd (effective_capital_used s) amount in
        if cs_max_capital s < projected
        then Inr (res False ''RISK_STRATEGY_CAPITAL_ABOVE_MAX'' (Some projected) (Some (cs_max_capital s)) ''capital'')
        else Inr (res True ''RISK_STRATEGY_CAPITAL_VALID'' (Some projected) (Some (cs_max_capital s)) ''capital''))))"

definition exchange_capital_limit_rule :: "int \<Rightarrow> order_intent \<Rightarrow> risk_context \<Rightarrow> risk_rule_result result" where
  "exchange_capital_limit_rule max_state_age i c =
     (let res = rule_result ''RISK-013'' (rc_evaluated_at c) in
      case oi_limit_price i of
        None \<Rightarrow> Inr (res False ''RISK_EXCHANGE_CAPITAL_PRICE_MISSING'' None None ''capital'')
      | Some price \<Rightarrow>
      let amount = dmul (oi_quantity i) price in
      (case rc_market_exchanges c (oi_market_id i) of
        None \<Rightarrow> Inr (res False ''RISK_EXCHANGE_CAPITAL_EXCHANGE_MISSING'' (Some amount) None ''capital'')
      | Some exchange_id \<Rightarrow>
      (case rc_exchange_capital c exchange_id of
        None \<Rightarrow> Inr (res False ''RISK_EXCHANGE_CAPITAL_STATE_MISSING'' (Some amount) None ''capital'')
      | Some s \<Rightarrow>
      (case state_age_result ''RISK-013'' max_state_age (cs_observed_at s) c ''RISK_EXCHANGE_CAPITAL_STATE_FUTURE''
          ''RISK_EXCHANGE_CAPITAL_STATE_STALE'' of
        Some r \<Rightarrow> Inr r
      | None \<Rightarrow>
        let projected = dadd (effective_capital_used s) amount in
        if cs_max_capital s < projected
        then Inr (res False ''RISK_EXCHANGE_CAPITAL_ABOVE_MAX'' (Some projected) (Some (cs_max_capital s)) ''capital'')
        else Inr (res True ''RISK_EXCHANGE_CAPITAL_VALID'' (Some projected) (Some (cs_max_capital s)) ''capital'')))))"

definition daily_loss_limit_rule :: "int \<Rightarrow> order_intent \<Rightarrow> risk_context \<Rightarrow> risk_rule_result result" where
  "daily_loss_limit_rule max_state_age i c =
     (let res = rule_result ''RISK-014'' (rc_evaluated_at c) in
      (case rc_daily_loss c of
        None \<Rightarrow> Inr (res False ''RISK_DAILY_LOSS_STATE_MISSING'' None None ''loss'')
      | Some s \<Rightarrow>
      (case state_age_result ''RISK-014'' max_state_age (dy_observed_at s) c ''RISK_DAILY_LOSS_STATE_FUTURE''
          ''RISK_DAILY_LOSS_STATE_STALE'' of
        Some r \<Rightarrow> Inr r
      | None \<Rightarrow>
        let projected = current_daily_loss s in
        if dy_max_daily_loss s < projected
        then Inr (res False ''RISK_DAILY_LOSS_ABOVE_MAX'' (Some projected) (Some (dy_max_daily_loss s)) ''loss'')
        else Inr (res True ''RISK_DAILY_LOSS_VALID'' (Some projected) (Some (dy_max_daily_loss s)) ''loss''))))"

section \<open>Rules on operations\<close>

definition open_order_limit_rule :: "int \<Rightarrow> order_intent \<Rightarrow> risk_context \<Rightarrow> risk_rule_result result" where
  "open_order_limit_rule max_state_age i c =
     (let res = rule_result ''RISK-015'' (rc_evaluated_at c) in
      (case rc_open_order_limit c of
        None \<Rightarrow> Inr (res False ''RISK_OPEN_ORDER_LIMIT_STATE_MISSING'' None None ''orders'')
      | Some s \<Rightarrow>
      (case state_age_result ''RISK-015'' max_state_age (ol_observed_at s) c ''RISK_OPEN_ORDER_LIMIT_STATE_FUTURE''
          ''RISK_OPEN_ORDER_LIMIT_STATE_STALE'' of
        Some r \<Rightarrow> Inr r
      | None \<Rightarrow>
        let projected = dadd (of_int (effective_open_order_count s)) 1 in
        if of_int (ol_max_open_orders s) < projected
        then Inr (res False ''RISK_OPEN_ORDER_LIMIT_ABOVE_MAX'' (Some projected) (Some (of_int (ol_max_open_orders s))) ''orders'')
        else Inr (res True ''RISK_OPEN_ORDER_LIMIT_VALID'' (Some projected) (Some (of_int (ol_max_open_orders s))) ''orders''))))"

definition duplicate_order_guard_rule :: "int \<Rightarrow> order_intent \<Rightarrow> risk_context \<Rightarrow> risk_rule_result result" where
  "duplicate_order_guard_rule max_state_age i c =
     (let res = rule_result ''RISK-016'' (rc_evaluated_at c) in
      case rc_duplicate_order_guard c of
        None \<Rightarrow> Inr (res False ''RISK_DUPLICATE_ORDER_STATE_MISSING'' None (Some 0) ''duplicate_count'')
      | Some s \<Rightarrow>
      (case state_age_result ''RISK-016'' max_state_age (dg_observed_at s) c ''RISK_DUPLICATE_ORDER_STATE_FUTURE''
          ''RISK_DUPLICATE_ORDER_STATE_STALE'' of
        Some r \<Rightarrow> Inr r
      | None \<Rightarrow>
        if oi_intent_id i \<in> dg_known_intent_ids s
        then Inr (res False ''RISK_DUPLICATE_INTENT_ID'' (Some 1) (Some 0) ''duplicate_count'')
        else if oi_idempotency_key i \<in> dg_known_idempotency_keys s
        then Inr (res False ''RISK_DUPLICATE_IDEMPOTENCY_KEY'' (Some 1) (Some 0) ''duplicate_count'')
        else Inr (res True ''RISK_DUPLICATE_ORDER_VALID'' (Some 0) (Some 0) ''duplicate_count'')))"

definition available_balance_rule :: "int \<Rightarrow> order_intent \<Rightarrow> risk_context \<Rightarrow> risk_rule_result result" where
  "available_balance_rule max_state_age i c =
     (let res = rule_result ''RISK-017'' (rc_evaluated_at c) in
      case oi_limit_price i of
        None \<Rightarrow> Inr (res False ''RISK_AVAILABLE_BALANCE_PRICE_MISSING'' None None ''balance'')
      | Some price \<Rightarrow>
      let required_balance = dmul (oi_quantity i) price in
      (case rc_available_balance c of
        None \<Rightarrow> Inr (res False ''RISK_AVAILABLE_BALANCE_STATE_MISSING'' (Some required_balance) None ''balance'')
      | Some s \<Rightarrow>
      (case state_age_result ''RISK-017'' max_state_age (ab_observed_at s) c ''RISK_AVAILABLE_BALANCE_STATE_FUTURE''
          ''RISK_AVAILABLE_BALANCE_STATE_STALE'' of
        Some r \<Rightarrow> Inr r
      | None \<Rightarrow>
        if effective_available_balance s < required_balance
        then Inr (res False ''RISK_AVAILABLE_BALANCE_INSUFFICIENT'' (Some required_balance)
          (Some (effective_available_balance s)) ''balance'')
        else Inr (res True ''RISK_AVAILABLE_BALANCE_VALID'' (Some required_balance)
          (Some (effective_available_balance s)) ''balance''))))"

definition reconciliation_health_rule :: "int \<Rightarrow> order_intent \<Rightarrow> risk_context \<Rightarrow> risk_rule_result result" where
  "reconciliation_health_rule max_state_age i c =
     (let res = rule_result ''RISK-018'' (rc_evaluated_at c) in
      case rc_reconciliation_health c of
        None \<Rightarrow> Inr (res False ''RISK_RECONCILIATION_HEALTH_STATE_MISSING'' None (Some 1) ''healthy_flag'')
      | Some s \<Rightarrow>
      (case state_age_result ''RISK-018'' max_state_age (rh_observed_at s) c ''RISK_RECONCILIATION_HEALTH_STATE_FUTURE''
          ''RISK_RECONCILIATION_HEALTH_STATE_STALE'' of
        Some r \<Rightarrow> Inr r
      | None \<Rightarrow>
        if rh_status s \<noteq> HEALTHY
        then Inr (res False ''RISK_RECONCILIATION_UNHEALTHY_STATUS'' (Some 0) (Some 1) ''healthy_flag'')
        else if \<not> rh_trading_gate_released s
        then Inr (res False ''RISK_RECONCILIATION_GATE_HELD'' (Some 0) (Some 1) ''healthy_flag'')
        else if 0 < rh_manual_review_count s
        then Inr (res False ''RISK_RECONCILIATION_MANUAL_REVIEW_REQUIRED'' (Some (of_int (rh_manual_review_count s)))
          (Some 0) ''manual_review_count'')
        else if 0 < rh_unresolved_mismatch_count s
        then Inr (res False ''RISK_RECONCILIATION_MISMATCHES_PRESENT'' (Some (of_int (rh_unresolved_mismatch_count s)))
          (Some 0) ''mismatch_count'')
        else Inr (res True ''RISK_RECONCILIATION_HEALTHY'' (Some 1) (Some 1) ''healthy_flag'')))"

definition kill_switch_clear_rule :: "int \<Rightarrow> order_intent \<Rightarrow> risk_context \<Rightarrow> risk_rule_result result" where
  "kill_switch_clear_rule max_state_age i c =
     (let res = rule_result ''RISK-019'' (rc_evaluated_at c) in
      case rc_kill_switch_clear c of
        None \<Rightarrow> Inr (res False ''RISK_KILL_SWITCH_STATE_MISSING'' None (Some 1) ''clear_flag'')
      | Some s \<Rightarrow>
      (case state_age_result ''RISK-019'' max_state_age (kc_observed_at s) c ''RISK_KILL_SWITCH_STATE_FUTURE''
          ''RISK_KILL_SWITCH_STATE_STALE'' of
        Some r \<Rightarrow> Inr r
      | None \<Rightarrow>
        if kc_active_scopes s \<noteq> {}
        then Inr (res False ''RISK_KILL_SWITCH_ACTIVE'' (Some (of_nat (card (kc_active_scopes s)))) (Some 0)
          ''active_scope_count'')
        else if \<not> kc_clear s
        then Inr (res False ''RISK_KILL_SWITCH_NOT_CLEAR'' (Some 0) (Some 1) ''clear_flag'')
        else Inr (res True ''RISK_KILL_SWITCH_CLEAR'' (Some 1) (Some 1) ''clear_flag'')))"

definition arbitrage_leg_rule :: "int \<Rightarrow> order_intent \<Rightarrow> risk_context \<Rightarrow> risk_rule_result result" where
  "arbitrage_leg_rule max_state_age i c =
     (let res = rule_result ''RISK-020'' (rc_evaluated_at c) in
      case rc_arbitrage_leg c of
        None \<Rightarrow> Inr (res False ''RISK_ARBITRAGE_LEG_STATE_MISSING'' None None ''quantity'')
      | Some s \<Rightarrow>
      (case state_age_result ''RISK-020'' max_state_age (al_observed_at s) c ''RISK_ARBITRAGE_LEG_STATE_FUTURE''
          ''RISK_ARBITRAGE_LEG_STATE_STALE'' of
        Some r \<Rightarrow> Inr r
      | None \<Rightarrow>
        let current = al_current_unhedged_quantity s; cap = al_max_unhedged_quantity s in
        if cap < current
        then Inr (res False ''RISK_ARBITRAGE_LEG_EXPOSURE_ABOVE_MAX'' (Some current) (Some cap) ''quantity'')
        else if 0 < current \<and> al_hedge_deadline_at s = None
        then Inr (res False ''RISK_ARBITRAGE_HEDGE_DEADLINE_MISSING'' None None ''deadline'')
        else
          (case al_hedge_deadline_at s of
             Some deadline \<Rightarrow>
               if 0 < current \<and> deadline < rc_evaluated_at c
               then Inr (res False ''RISK_ARBITRAGE_HEDGE_TIMEOUT_EXPIRED''
                 (Some (timedelta_milliseconds (rc_evaluated_at c - deadline))) (Some 0) ''milliseconds'')
               else Inr (res True ''RISK_ARBITRAGE_LEG_VALID'' (Some current) (Some cap) ''quantity'')
           | None \<Rightarrow> Inr (res True ''RISK_ARBITRAGE_LEG_VALID'' (Some current) (Some cap) ''quantity''))))"

section \<open>When the rules pass\<close>

definition passes :: "risk_rule_result result \<Rightarrow> bool" where
  "passes r \<longleftrightarrow> (case r of Inl _ \<Rightarrow> False | Inr x \<Rightarrow> ru_passed x)"

lemma passes_simps [simp]: "passes (Inl e) = False" "passes (Inr x) = ru_passed x"
  by (simp_all add: passes_def)

lemma old_state_fails: "(\<exists>x. state_age_result r a t c f s = Some x \<and> ru_passed x) \<longleftrightarrow> False"
  using state_age_Some [of r a t c f s] by blast

lemma passes_option_case: "passes (case v of None \<Rightarrow> a | Some x \<Rightarrow> b x) \<longleftrightarrow>
    (v = None \<and> passes a) \<or> (\<exists>x. v = Some x \<and> passes (b x))"
  by (cases v) auto

lemma drem_zero_iff:
  assumes "0 < y"
  shows "drem x y = Inr 0 \<longleftrightarrow> (\<exists>k. x = of_int k * y \<and> \<bar>k\<bar> < 10 ^ 28)"
proof
  assume "drem x y = Inr 0"
  then have "x = of_int (dec_trunc (x / y)) * y \<and> \<bar>dec_trunc (x / y)\<bar> < 10 ^ 28"
    by (simp add: drem_def not_le mult.commute split: if_splits)
  then show "\<exists>k. x = of_int k * y \<and> \<bar>k\<bar> < 10 ^ 28" by blast
next
  assume "\<exists>k. x = of_int k * y \<and> \<bar>k\<bar> < 10 ^ 28"
  then obtain k where k: "x = of_int k * y" "\<bar>k\<bar> < 10 ^ 28" by blast
  then have "dec_trunc (x / y) = k" using assms by (simp add: dec_trunc_def)
  then show "drem x y = Inr 0" using k by (simp add: drem_def mult.commute)
qed

lemmas rule_passes = passes_option_case state_age_None old_state_fails Let_def

lemma strategy_enabled_rule_passes:
  "passes (strategy_enabled_rule a i c) \<longleftrightarrow> (\<exists>s. rc_strategy_enabled c (oi_strategy_id i) = Some s \<and> fresh a c (bs_observed_at s) \<and> bs_value s)"
  by (auto simp: strategy_enabled_rule_def rule_passes)

lemma market_enabled_rule_passes:
  "passes (market_enabled_rule a i c) \<longleftrightarrow> (\<exists>s. rc_market_enabled c (oi_market_id i) = Some s \<and> fresh a c (bs_observed_at s) \<and> bs_value s)"
  by (auto simp: market_enabled_rule_def rule_passes)

lemma market_data_freshness_rule_passes:
  "passes (market_data_freshness_rule a i c) \<longleftrightarrow> (\<exists>s. rc_market_data_fresh c (oi_market_id i) = Some s \<and> fresh a c (bs_observed_at s) \<and> bs_value s)"
  by (auto simp: market_data_freshness_rule_def rule_passes)

lemma market_open_rule_passes:
  "passes (market_open_rule a sts i c) \<longleftrightarrow> (\<exists>s. rc_market_status c (oi_market_id i) = Some s \<and> fresh a c (ms_observed_at s) \<and> ms_status s \<in> set sts)"
  by (auto simp: market_open_rule_def rule_passes)

lemma order_notional_limit_rule_passes:
  "passes (order_notional_limit_rule a i c) \<longleftrightarrow> (\<exists>p. oi_limit_price i = Some p \<and>
       (\<exists>s. rc_notional_limits c (oi_contract_id i) = Some s \<and> fresh a c (nl_observed_at s) \<and> dmul (oi_quantity i) p \<le> nl_max_notional s))"
  by (auto simp: order_notional_limit_rule_def rule_passes not_less)

lemma market_position_limit_rule_passes:
  "passes (market_position_limit_rule a i c) \<longleftrightarrow> (\<exists>s. rc_market_positions c (oi_market_id i) = Some s \<and> fresh a c (mp_observed_at s) \<and> dabs (dadd (effective_position s) (signed_quantity i)) \<le> mp_max_position s)"
  by (auto simp: market_position_limit_rule_def rule_passes not_less)

lemma portfolio_gross_limit_rule_passes:
  "passes (portfolio_gross_limit_rule a i c) \<longleftrightarrow> (\<exists>p. oi_limit_price i = Some p \<and>
       (\<exists>s. rc_portfolio_gross_exposure c = Some s \<and> fresh a c (pg_observed_at s) \<and> dadd (effective_gross_exposure s) (dmul (oi_quantity i) p) \<le> pg_max_gross_exposure s))"
  by (auto simp: portfolio_gross_limit_rule_def rule_passes not_less)

lemma portfolio_net_limit_rule_passes:
  "passes (portfolio_net_limit_rule a i c) \<longleftrightarrow> (\<exists>p. oi_limit_price i = Some p \<and>
       (\<exists>s. rc_portfolio_net_exposure c = Some s \<and> fresh a c (pn_observed_at s) \<and> dabs (dadd (effective_net_exposure s) (signed_notional (oi_quantity i) p (oi_side i))) \<le> pn_max_net_exposure s))"
  by (auto simp: portfolio_net_limit_rule_def rule_passes not_less)

lemma strategy_capital_limit_rule_passes:
  "passes (strategy_capital_limit_rule a i c) \<longleftrightarrow> (\<exists>p. oi_limit_price i = Some p \<and>
       (\<exists>s. rc_strategy_capital c (oi_strategy_id i) = Some s \<and> fresh a c (cs_observed_at s) \<and> dadd (effective_capital_used s) (dmul (oi_quantity i) p) \<le> cs_max_capital s))"
  by (auto simp: strategy_capital_limit_rule_def rule_passes not_less)

lemma exchange_capital_limit_rule_passes:
  "passes (exchange_capital_limit_rule a i c) \<longleftrightarrow> (\<exists>p. oi_limit_price i = Some p \<and>
       (\<exists>x. rc_market_exchanges c (oi_market_id i) = Some x \<and> (\<exists>s. rc_exchange_capital c x = Some s \<and> fresh a c (cs_observed_at s) \<and> dadd (effective_capital_used s) (dmul (oi_quantity i) p) \<le> cs_max_capital s)))"
  by (auto simp: exchange_capital_limit_rule_def rule_passes not_less)

lemma daily_loss_limit_rule_passes:
  "passes (daily_loss_limit_rule a i c) \<longleftrightarrow> (\<exists>s. rc_daily_loss c = Some s \<and> fresh a c (dy_observed_at s) \<and> current_daily_loss s \<le> dy_max_daily_loss s)"
  by (auto simp: daily_loss_limit_rule_def rule_passes not_less)

lemma open_order_limit_rule_passes:
  "passes (open_order_limit_rule a i c) \<longleftrightarrow> (\<exists>s. rc_open_order_limit c = Some s \<and> fresh a c (ol_observed_at s) \<and> dadd (of_int (effective_open_order_count s)) 1 \<le> of_int (ol_max_open_orders s))"
  by (auto simp: open_order_limit_rule_def rule_passes not_less)

lemma duplicate_order_guard_rule_passes:
  "passes (duplicate_order_guard_rule a i c) \<longleftrightarrow> (\<exists>s. rc_duplicate_order_guard c = Some s \<and> fresh a c (dg_observed_at s) \<and> oi_intent_id i \<notin> dg_known_intent_ids s \<and> oi_idempotency_key i \<notin> dg_known_idempotency_keys s)"
  by (auto simp: duplicate_order_guard_rule_def rule_passes)

lemma available_balance_rule_passes:
  "passes (available_balance_rule a i c) \<longleftrightarrow> (\<exists>p. oi_limit_price i = Some p \<and>
       (\<exists>s. rc_available_balance c = Some s \<and> fresh a c (ab_observed_at s) \<and> dmul (oi_quantity i) p \<le> effective_available_balance s))"
  by (auto simp: available_balance_rule_def rule_passes not_less)

lemma reconciliation_health_rule_passes:
  "passes (reconciliation_health_rule a i c) \<longleftrightarrow> (\<exists>s. rc_reconciliation_health c = Some s \<and> fresh a c (rh_observed_at s) \<and> rh_status s = HEALTHY \<and>
       rh_trading_gate_released s \<and> rh_manual_review_count s \<le> 0 \<and> rh_unresolved_mismatch_count s \<le> 0)"
  by (auto simp: reconciliation_health_rule_def rule_passes not_less)

lemma kill_switch_clear_rule_passes:
  "passes (kill_switch_clear_rule a i c) \<longleftrightarrow> (\<exists>s. rc_kill_switch_clear c = Some s \<and> fresh a c (kc_observed_at s) \<and> kc_active_scopes s = {} \<and> kc_clear s)"
  by (auto simp: kill_switch_clear_rule_def rule_passes)

lemma arbitrage_leg_rule_passes:
  "passes (arbitrage_leg_rule a i c) \<longleftrightarrow> (\<exists>s. rc_arbitrage_leg c = Some s \<and> fresh a c (al_observed_at s) \<and> al_current_unhedged_quantity s \<le> al_max_unhedged_quantity s \<and>
       (0 < al_current_unhedged_quantity s \<longrightarrow> (\<exists>d. al_hedge_deadline_at s = Some d \<and> rc_evaluated_at c \<le> d)))"
  by (auto simp: arbitrage_leg_rule_def rule_passes not_less)

lemma passes_bindE: "passes (bindE m f) \<longleftrightarrow> (\<exists>x. m = Inr x \<and> passes (f x))"
  by (cases m) auto

lemma order_price_valid_rule_passes:
  "passes (order_price_valid_rule a i c) \<longleftrightarrow> oi_limit_price i = None \<or>
     (\<exists>p b. oi_limit_price i = Some p \<and> rc_price_bounds c (oi_market_id i) = Some b \<and> fresh a c (pb_observed_at b) \<and>
       pb_min_price b \<le> p \<and> p \<le> pb_max_price b \<and>
       (\<forall>t. pb_tick_size b = Some t \<longrightarrow> drem (dsub p (pb_min_price b)) t = Inr 0))"
  by (auto simp: order_price_valid_rule_def rule_passes not_less passes_bindE split: option.splits)

lemma order_quantity_limit_rule_passes:
  "passes (order_quantity_limit_rule a i c) \<longleftrightarrow>
     (\<exists>l. rc_quantity_limits c (oi_contract_id i) = Some l \<and> fresh a c (ql_observed_at l) \<and>
       ql_min_quantity l \<le> oi_quantity i \<and> oi_quantity i \<le> ql_max_quantity l \<and>
       drem (dsub (oi_quantity i) (ql_min_quantity l)) (ql_quantity_increment l) = Inr 0)"
  by (auto simp: order_quantity_limit_rule_def rule_passes not_less passes_bindE)

end
