(* ===== verification/Risk_Engine.thy ===== *)
theory Risk_Engine
  imports Risk_Rules
begin

text \<open>
  \<open>src/pmrp/risk/engine.py\<close>: evaluating a configured list of rules into one decision.

  A rule object is its identity and its \<^verbatim>\<open>evaluate\<close> method, which returns a result, raises, or returns something
  else; the engine turns the last two into failed results and stops. The identifier generator and the hash of the
  rule configuration are arguments. The locale \<open>risk_rule\<close> is the contract of the protocol \<^verbatim>\<open>RiskRule\<close>; every
  rule of \<open>Risk_Rules\<close> is an interpretation of it.
\<close>

section \<open>Rules as objects\<close>

datatype rule_outcome = Raised string | Not_a_result | Returned risk_rule_result

record risk_rule =
  rk_rule_id :: string
  rk_version :: string
  rk_evaluate :: "order_intent \<Rightarrow> risk_context \<Rightarrow> rule_outcome"

fun exception_name :: "py_error \<Rightarrow> string" where
  "exception_name (PortfolioProjectionError _) = ''PortfolioProjectionError''"
| "exception_name (ValidationError _) = ''ValidationError''"
| "exception_name (ValueError _) = ''ValueError''"
| "exception_name (SimulationInputError _) = ''SimulationInputError''"
| "exception_name (SimulationConfigurationError _) = ''SimulationConfigurationError''"
| "exception_name (DecimalBoundsError _ _) = ''ValueError''"
| "exception_name (RiskConfigurationError _) = ''RiskConfigurationError''"
| "exception_name (RiskInputError _) = ''RiskInputError''"
| "exception_name (AssertionError) = ''AssertionError''"
| "exception_name (KeyError) = ''KeyError''"
| "exception_name (InvalidOperation) = ''InvalidOperation''"
| "exception_name (OverflowError) = ''OverflowError''"
| "exception_name (Exc cls _) = cls"

definition rule_object ::
  "string \<Rightarrow> (order_intent \<Rightarrow> risk_context \<Rightarrow> risk_rule_result result) \<Rightarrow> risk_rule" where
  "rule_object rule_id f =
     \<lparr>rk_rule_id = rule_id, rk_version = ''1.0'',
      rk_evaluate = (\<lambda>i c. case f i c of Inl e \<Rightarrow> Raised (exception_name e) | Inr r \<Rightarrow> Returned r)\<rparr>"

definition rule_identity :: "risk_rule \<Rightarrow> (string \<times> string) result" where
  "rule_identity r =
     (if rk_rule_id r = [] then Inl (RiskConfigurationError ''risk rules must expose a nonempty rule_id'')
      else if rk_version r = [] then Inl (RiskConfigurationError ''risk rules must expose a nonempty version'')
      else Inr (rk_rule_id r, rk_version r))"

fun check_rule_keys :: "(string \<times> string) list \<Rightarrow> risk_rule list \<Rightarrow> unit result" where
  "check_rule_keys seen [] = Inr ()"
| "check_rule_keys seen (r # rs) =
     bindE (rule_identity r) (\<lambda>key.
       if key \<in> set seen then Inl (RiskConfigurationError ''risk rule identifiers must be unique by version'')
       else check_rule_keys (key # seen) rs)"

definition freeze_rules :: "risk_rule list \<Rightarrow> risk_rule list result" where
  "freeze_rules rules =
     (if rules = [] then Inl (RiskConfigurationError ''risk engine requires at least one rule'')
      else bindE (check_rule_keys [] rules) (\<lambda>_. Inr rules))"

section \<open>The engine\<close>

record risk_engine =
  en_rules :: "risk_rule list"
  en_configuration_hash :: string
  en_approval_ttl :: "int option"
  en_decision_id :: "order_intent \<Rightarrow> instant \<Rightarrow> string \<Rightarrow> string \<Rightarrow> risk_rule_result list \<Rightarrow> ident"

text \<open>\<open>hash_of\<close> is the hash of the frozen rules and the lifetime, used when no hash is given.\<close>

definition mk_risk_engine ::
  "(risk_rule list \<Rightarrow> int option \<Rightarrow> string) \<Rightarrow> risk_rule list \<Rightarrow> string option \<Rightarrow> int option \<Rightarrow>
     (order_intent \<Rightarrow> instant \<Rightarrow> string \<Rightarrow> string \<Rightarrow> risk_rule_result list \<Rightarrow> ident) \<Rightarrow> risk_engine result" where
  "mk_risk_engine hash_of rules configuration_hash approval_ttl decision_id =
     bindE (freeze_rules rules) (\<lambda>frozen.
     bindE (guards
       [(case approval_ttl of None \<Rightarrow> False | Some ttl \<Rightarrow> ttl \<le> 0, RiskConfigurationError ''approval_ttl must be positive''),
        (configuration_hash = Some [], RiskConfigurationError ''configuration_hash must not be empty'')]) (\<lambda>_.
     Inr \<lparr>en_rules = frozen,
          en_configuration_hash = (case configuration_hash of None \<Rightarrow> hash_of frozen approval_ttl | Some h \<Rightarrow> h),
          en_approval_ttl = approval_ttl, en_decision_id = decision_id\<rparr>))"

definition mk_risk_rule_result :: "risk_rule_result \<Rightarrow> risk_rule_result result" where
  "mk_risk_rule_result r =
     bindE (guards
       [(\<not> text_in 1 128 (ru_rule_id r), ValidationError (Out_of_range F_text)),
        (\<not> text_in 1 64 (ru_rule_version r), ValidationError (Out_of_range F_text)),
        (\<not> text_in 1 128 (ru_reason_code r), ValidationError (Out_of_range F_text)),
        (\<not> pred_option (text_in 1 1024) (ru_reason_text r), ValidationError (Out_of_range F_text)),
        (\<not> pred_option (text_in 1 64) (ru_unit r), ValidationError (Out_of_range F_text))]) (\<lambda>_. Inr r)"

definition rule_error_result :: "string \<Rightarrow> string \<Rightarrow> risk_context \<Rightarrow> string \<Rightarrow> string \<Rightarrow> risk_rule_result result" where
  "rule_error_result rule_id rule_version c reason_code reason_text =
     mk_risk_rule_result
       \<lparr>ru_rule_id = rule_id, ru_rule_version = rule_version, ru_passed = False, ru_reason_code = reason_code,
        ru_reason_text = Some reason_text, ru_observed_value = None, ru_limit_value = None, ru_unit = None,
        ru_evaluated_at = rc_evaluated_at c\<rparr>"

definition RULE_ERROR :: string where "RULE_ERROR = ''RISK_ENGINE_RULE_ERROR''"
definition RULE_RESULT_INVALID :: string where "RULE_RESULT_INVALID = ''RISK_ENGINE_RULE_RESULT_INVALID''"

fun evaluate_rules :: "risk_rule list \<Rightarrow> order_intent \<Rightarrow> risk_context \<Rightarrow> risk_rule_result list result" where
  "evaluate_rules [] i c = Inr []"
| "evaluate_rules (r # rs) i c =
     bindE (rule_identity r) (\<lambda>(rule_id, rule_version).
     case rk_evaluate r i c of
       Raised name \<Rightarrow>
         bindE (rule_error_result rule_id rule_version c RULE_ERROR (''rule evaluation raised '' @ name)) (\<lambda>x. Inr [x])
     | Not_a_result \<Rightarrow>
         bindE (rule_error_result rule_id rule_version c RULE_RESULT_INVALID ''rule returned non-RiskRuleResult'') (\<lambda>x. Inr [x])
     | Returned x \<Rightarrow> bindE (evaluate_rules rs i c) (\<lambda>xs. Inr (x # xs)))"

definition decision_status :: "risk_rule_result list \<Rightarrow> risk_decision_status" where
  "decision_status results =
     (if \<exists>r \<in> set results. \<not> ru_passed r \<and> ru_reason_code r \<in> {RULE_ERROR, RULE_RESULT_INVALID} then RD_ERROR
      else if list_all ru_passed results then RD_APPROVED
      else RD_REJECTED)"

definition validate_input_snapshot_id :: "string \<Rightarrow> (bool \<times> py_error) list" where
  "validate_input_snapshot_id s =
     [(s = [], RiskInputError ''input_snapshot_id must not be empty''),
      (128 < length s, RiskInputError ''input_snapshot_id must be at most 128 characters'')]"

text \<open>Times are bounded by the calendar, as in \<open>Exchange\<close>: the expiry is added before anything is stored.\<close>

definition last_datetime :: instant where
  "last_datetime = 253402300799999999"

definition engine_evaluate :: "risk_engine \<Rightarrow> order_intent \<Rightarrow> risk_context \<Rightarrow> string \<Rightarrow> risk_decision result" where
  "engine_evaluate en i c snapshot_id =
     bindE (guards (validate_input_snapshot_id snapshot_id)) (\<lambda>_.
     bindE (evaluate_rules (en_rules en) i c) (\<lambda>rule_results.
     bindE (if decision_status rule_results = RD_APPROVED \<and> oi_limit_price i = None
            then bindE (rule_error_result ''RISK-ENGINE'' ''1.0'' c ''RISK_ENGINE_APPROVAL_LIMIT_PRICE_MISSING''
                   ''approved decision requires intent limit_price'') (\<lambda>x. Inr (rule_results @ [x], RD_REJECTED))
            else Inr (rule_results, decision_status rule_results)) (\<lambda>(rule_results, status).
     bindE (case en_approval_ttl en of
              None \<Rightarrow> Inr None
            | Some ttl \<Rightarrow>
                if status \<noteq> RD_APPROVED then Inr None
                else if last_datetime < rc_evaluated_at c + ttl then Inl OverflowError
                else Inr (Some (rc_evaluated_at c + ttl))) (\<lambda>approval_expires_at.
     mk_risk_decision
       \<lparr>de_risk_decision_id = en_decision_id en i (rc_evaluated_at c) snapshot_id (en_configuration_hash en) rule_results,
        de_intent_id = oi_intent_id i, de_status = status, de_evaluated_at = rc_evaluated_at c,
        de_input_snapshot_id = snapshot_id, de_rule_results = rule_results,
        de_approved_quantity = (if status = RD_APPROVED then Some (oi_quantity i) else None),
        de_approved_limit_price = (if status = RD_APPROVED then oi_limit_price i else None),
        de_approval_expires_at = approval_expires_at, de_configuration_hash = en_configuration_hash en,
        de_correlation_id = oi_correlation_id i\<rparr>))))"

section \<open>The contract of a rule\<close>

text \<open>
  A result carries the identity of its rule and the time of the context, fits the field limits, and never
  uses the reason codes that the engine reserves for errors.
\<close>

definition honest_result :: "string \<Rightarrow> risk_context \<Rightarrow> risk_rule_result \<Rightarrow> bool" where
  "honest_result rule_id c r \<longleftrightarrow>
     ru_rule_id r = rule_id \<and> ru_rule_version r = ''1.0'' \<and> ru_evaluated_at r = rc_evaluated_at c \<and>
     ru_reason_code r \<notin> {RULE_ERROR, RULE_RESULT_INVALID} \<and> ru_reason_text r = None"

definition honest_object :: "risk_rule \<Rightarrow> bool" where
  "honest_object r \<longleftrightarrow> text_in 1 128 (rk_rule_id r) \<and> text_in 1 64 (rk_version r) \<and>
     (\<forall>i c. case rk_evaluate r i c of
        Raised name \<Rightarrow> length name \<le> 1000
      | Not_a_result \<Rightarrow> True
      | Returned x \<Rightarrow> ru_reason_code x \<notin> {RULE_ERROR, RULE_RESULT_INVALID})"

locale risk_rule =
  fixes rule_id :: string and rule :: "order_intent \<Rightarrow> risk_context \<Rightarrow> risk_rule_result result"
  assumes honest: "rule i c = Inr r \<Longrightarrow> honest_result rule_id c r"
    and raises_only: "rule i c = Inl e \<Longrightarrow> e = InvalidOperation"
    and identified: "text_in 1 128 rule_id"
begin

lemma object_outcome:
  "rk_evaluate (rule_object rule_id rule) i c = Raised ''InvalidOperation'' \<or>
   (\<exists>r. rk_evaluate (rule_object rule_id rule) i c = Returned r \<and> honest_result rule_id c r)"
  using honest [of i c] raises_only [of i c] by (cases "rule i c") (auto simp: rule_object_def)

lemma object_honest: "honest_object (rule_object rule_id rule)"
proof -
  have "case rk_evaluate (rule_object rule_id rule) i c of
      Raised name \<Rightarrow> length name \<le> 1000 | Not_a_result \<Rightarrow> True
    | Returned x \<Rightarrow> ru_reason_code x \<notin> {RULE_ERROR, RULE_RESULT_INVALID}" for i c
    using object_outcome [of i c] by (auto simp: honest_result_def)
  then show ?thesis using identified by (simp add: honest_object_def) (simp add: rule_object_def text_in_def)
qed

lemma object_passes:
  "(\<exists>r. rk_evaluate (rule_object rule_id rule) i c = Returned r \<and> ru_passed r) \<longleftrightarrow> passes (rule i c)"
  by (cases "rule i c") (auto simp: rule_object_def)

end

lemma honest_rule_result:
  "honest_result rid c (rule_result rid (rc_evaluated_at c) p code ob l u) \<longleftrightarrow> code \<noteq> RULE_ERROR \<and> code \<noteq> RULE_RESULT_INVALID"
  by (auto simp: honest_result_def rule_result_def)

lemma honest_age:
  "state_age_result rid a t c f s = Some r \<Longrightarrow> {f, s} \<inter> {RULE_ERROR, RULE_RESULT_INVALID} = {} \<Longrightarrow> honest_result rid c r"
  by (auto simp: state_age_result_def honest_rule_result Let_def split: if_splits)

lemmas reserved_codes = RULE_ERROR_def RULE_RESULT_INVALID_def

section \<open>Every rule keeps the contract\<close>

lemma drem_raises: "drem x y = Inl e \<Longrightarrow> e = InvalidOperation"
  by (auto simp: drem_def split: if_splits)

lemmas rule_contract = honest_rule_result reserved_codes text_in_def Let_def bindE_eq_Inr bindE_eq_Inl

interpretation strategy_enabled_rule: risk_rule "''RISK-001''" "strategy_enabled_rule a" for a
  by unfold_locales
    (auto simp: strategy_enabled_rule_def rule_contract dest: honest_age drem_raises split: option.splits if_splits)

interpretation market_enabled_rule: risk_rule "''RISK-003''" "market_enabled_rule a" for a
  by unfold_locales
    (auto simp: market_enabled_rule_def rule_contract dest: honest_age drem_raises split: option.splits if_splits)

interpretation market_open_rule: risk_rule "''RISK-004''" "market_open_rule a sts" for a sts
  by unfold_locales
    (auto simp: market_open_rule_def rule_contract dest: honest_age drem_raises split: option.splits if_splits)

interpretation data_fresh_rule: risk_rule "''RISK-005''" "market_data_freshness_rule a" for a
  by unfold_locales
    (auto simp: market_data_freshness_rule_def rule_contract dest: honest_age drem_raises split: option.splits if_splits)

interpretation order_price_rule: risk_rule "''RISK-006''" "order_price_valid_rule a" for a
  by unfold_locales
    (auto simp: order_price_valid_rule_def rule_contract dest: honest_age drem_raises split: option.splits if_splits)

interpretation order_quantity_rule: risk_rule "''RISK-007''" "order_quantity_limit_rule a" for a
  by unfold_locales
    (auto simp: order_quantity_limit_rule_def rule_contract dest: honest_age drem_raises split: option.splits if_splits)

interpretation order_notional_rule: risk_rule "''RISK-008''" "order_notional_limit_rule a" for a
  by unfold_locales
    (auto simp: order_notional_limit_rule_def rule_contract dest: honest_age drem_raises split: option.splits if_splits)

interpretation market_position_rule: risk_rule "''RISK-009''" "market_position_limit_rule a" for a
  by unfold_locales
    (auto simp: market_position_limit_rule_def rule_contract dest: honest_age drem_raises split: option.splits if_splits)

interpretation portfolio_gross_rule: risk_rule "''RISK-010''" "portfolio_gross_limit_rule a" for a
  by unfold_locales
    (auto simp: portfolio_gross_limit_rule_def rule_contract dest: honest_age drem_raises split: option.splits if_splits)

interpretation portfolio_net_rule: risk_rule "''RISK-011''" "portfolio_net_limit_rule a" for a
  by unfold_locales
    (auto simp: portfolio_net_limit_rule_def rule_contract dest: honest_age drem_raises split: option.splits if_splits)

interpretation strategy_capital_rule: risk_rule "''RISK-012''" "strategy_capital_limit_rule a" for a
  by unfold_locales
    (auto simp: strategy_capital_limit_rule_def rule_contract dest: honest_age drem_raises split: option.splits if_splits)

interpretation exchange_capital_rule: risk_rule "''RISK-013''" "exchange_capital_limit_rule a" for a
  by unfold_locales
    (auto simp: exchange_capital_limit_rule_def rule_contract dest: honest_age drem_raises split: option.splits if_splits)

interpretation daily_loss_rule: risk_rule "''RISK-014''" "daily_loss_limit_rule a" for a
  by unfold_locales
    (auto simp: daily_loss_limit_rule_def rule_contract dest: honest_age drem_raises split: option.splits if_splits)

interpretation open_orders_rule: risk_rule "''RISK-015''" "open_order_limit_rule a" for a
  by unfold_locales
    (auto simp: open_order_limit_rule_def rule_contract dest: honest_age drem_raises split: option.splits if_splits)

interpretation duplicate_guard_rule: risk_rule "''RISK-016''" "duplicate_order_guard_rule a" for a
  by unfold_locales
    (auto simp: duplicate_order_guard_rule_def rule_contract dest: honest_age drem_raises split: option.splits if_splits)

interpretation balance_rule: risk_rule "''RISK-017''" "available_balance_rule a" for a
  by unfold_locales
    (auto simp: available_balance_rule_def rule_contract dest: honest_age drem_raises split: option.splits if_splits)

interpretation reconciliation_rule: risk_rule "''RISK-018''" "reconciliation_health_rule a" for a
  by unfold_locales
    (auto simp: reconciliation_health_rule_def rule_contract dest: honest_age drem_raises split: option.splits if_splits)

interpretation kill_switch_rule: risk_rule "''RISK-019''" "kill_switch_clear_rule a" for a
  by unfold_locales
    (auto simp: kill_switch_clear_rule_def rule_contract dest: honest_age drem_raises split: option.splits if_splits)

interpretation arbitrage_rule: risk_rule "''RISK-020''" "arbitrage_leg_rule a" for a
  by unfold_locales
    (auto simp: arbitrage_leg_rule_def rule_contract dest: honest_age drem_raises split: option.splits if_splits)

section \<open>From rules to decisions\<close>

definition rule_passes_for :: "order_intent \<Rightarrow> risk_context \<Rightarrow> risk_rule \<Rightarrow> bool" where
  "rule_passes_for i c r \<longleftrightarrow> (\<exists>x. rk_evaluate r i c = Returned x \<and> ru_passed x)"

definition rule_fails_to_answer :: "order_intent \<Rightarrow> risk_context \<Rightarrow> risk_rule \<Rightarrow> bool" where
  "rule_fails_to_answer i c r \<longleftrightarrow> (\<forall>x. rk_evaluate r i c \<noteq> Returned x)"

lemma rule_error_not_passed: "rule_error_result a b c k t = Inr x \<Longrightarrow> \<not> ru_passed x \<and> ru_reason_code x = k"
  by (auto simp: rule_error_result_def mk_risk_rule_result_def bindE_eq_Inr)

lemma all_passed_iff:
  "evaluate_rules rules i c = Inr xs \<Longrightarrow> list_all ru_passed xs \<longleftrightarrow> list_all (rule_passes_for i c) rules"
proof (induction rules i c arbitrary: xs rule: evaluate_rules.induct)
  case (1 i c)
  then show ?case by simp
next
  case (2 r rs i c)
  from "2.prems" obtain key where key: "rule_identity r = Inr key"
    by (auto simp: bindE_eq_Inr)
  show ?case
  proof (cases "rk_evaluate r i c")
    case (Returned x)
    then obtain ys where ys: "evaluate_rules rs i c = Inr ys" "xs = x # ys"
      using "2.prems" key by (auto simp: bindE_eq_Inr split: prod.splits)
    have "list_all ru_passed ys = list_all (rule_passes_for i c) rs"
      by (rule "2.IH" [OF Returned ys(1)])
    then show ?thesis using Returned ys(2) by (simp add: rule_passes_for_def [of i c r])
  qed (use "2.prems" key in \<open>auto simp: bindE_eq_Inr rule_passes_for_def dest!: rule_error_not_passed split: prod.splits\<close>)
qed

lemma approved_iff_all_passed: "decision_status xs = RD_APPROVED \<longleftrightarrow> list_all ru_passed xs"
  by (auto simp: decision_status_def list_all_iff)

lemma error_iff_no_answer:
  assumes "evaluate_rules rules i c = Inr xs" and "list_all honest_object rules"
  shows "decision_status xs = RD_ERROR \<longleftrightarrow> (\<exists>r \<in> set rules. rule_fails_to_answer i c r)"
proof -
  have "(\<exists>x \<in> set xs. \<not> ru_passed x \<and> ru_reason_code x \<in> {RULE_ERROR, RULE_RESULT_INVALID}) \<longleftrightarrow>
      (\<exists>r \<in> set rules. rule_fails_to_answer i c r)"
    using assms
  proof (induction rules arbitrary: xs)
    case Nil
    then show ?case by simp
  next
    case (Cons r rs)
    from Cons.prems(1) obtain key where key: "rule_identity r = Inr key" by (auto simp: bindE_eq_Inr)
    have honest: "honest_object r" "list_all honest_object rs" using Cons.prems(2) by auto
    show ?case
    proof (cases "rk_evaluate r i c")
      case (Returned x)
      then obtain ys where ys: "evaluate_rules rs i c = Inr ys" "xs = x # ys"
        using Cons.prems(1) key by (auto simp: bindE_eq_Inr split: prod.splits)
      have "case rk_evaluate r i c of Raised name \<Rightarrow> length name \<le> 1000 | Not_a_result \<Rightarrow> True
          | Returned x \<Rightarrow> ru_reason_code x \<notin> {RULE_ERROR, RULE_RESULT_INVALID}"
        using honest(1) unfolding honest_object_def by blast
      then have "ru_reason_code x \<notin> {RULE_ERROR, RULE_RESULT_INVALID}" by (simp add: Returned)
      moreover have "\<not> rule_fails_to_answer i c r" using Returned by (simp add: rule_fails_to_answer_def)
      ultimately show ?thesis using Cons.IH [OF ys(1) honest(2)] ys(2) by auto
    qed (use Cons.prems(1) key in \<open>auto simp: bindE_eq_Inr rule_fails_to_answer_def dest!: rule_error_not_passed
          split: prod.splits\<close>)
  qed
  then show ?thesis by (simp add: decision_status_def)
qed

lemma evaluate_rules_total:
  assumes "list_all honest_object rules"
  shows "\<exists>xs. evaluate_rules rules i c = Inr xs \<and> (xs = [] \<longleftrightarrow> rules = [])"
  using assms
proof (induction rules)
  case Nil
  then show ?case by simp
next
  case (Cons r rs)
  have r: "text_in 1 128 (rk_rule_id r)" "text_in 1 64 (rk_version r)"
    and out: "case rk_evaluate r i c of Raised name \<Rightarrow> length name \<le> 1000 | Not_a_result \<Rightarrow> True
        | Returned x \<Rightarrow> ru_reason_code x \<notin> {RULE_ERROR, RULE_RESULT_INVALID}"
    using Cons.prems unfolding honest_object_def by auto
  have id: "rule_identity r = Inr (rk_rule_id r, rk_version r)" using r by (auto simp: rule_identity_def text_in_def)
  obtain ys where "evaluate_rules rs i c = Inr ys" using Cons by auto
  then show ?case
    using r out id
    by (cases "rk_evaluate r i c")
      (auto simp: rule_error_result_def mk_risk_rule_result_def text_in_def reserved_codes)
qed

definition engine_ready :: "risk_engine \<Rightarrow> bool" where
  "engine_ready en \<longleftrightarrow> en_rules en \<noteq> [] \<and> list_all honest_object (en_rules en) \<and>
     text_in 1 128 (en_configuration_hash en) \<and> pred_option (\<lambda>ttl. 0 < ttl) (en_approval_ttl en)"

definition expiry_of :: "risk_engine \<Rightarrow> risk_context \<Rightarrow> instant option" where
  "expiry_of en c = map_option (\<lambda>ttl. rc_evaluated_at c + ttl) (en_approval_ttl en)"

definition approves :: "risk_engine \<Rightarrow> order_intent \<Rightarrow> risk_context \<Rightarrow> bool" where
  "approves en i c \<longleftrightarrow> list_all (rule_passes_for i c) (en_rules en) \<and> oi_limit_price i \<noteq> None"

text \<open>What any returned decision says, without a hypothesis on the rules.\<close>

lemma approved_decision:
  assumes "engine_evaluate en i c sid = Inr d" and "de_status d = RD_APPROVED"
  shows "approves en i c" and "de_approved_quantity d = Some (oi_quantity i)"
    and "de_approved_limit_price d = oi_limit_price i" and "de_intent_id d = oi_intent_id i"
    and "de_evaluated_at d = rc_evaluated_at c" and "de_approval_expires_at d = expiry_of en c"
    and "de_correlation_id d = oi_correlation_id i"
proof -
  from assms obtain xs where xs: "evaluate_rules (en_rules en) i c = Inr xs" "decision_status xs = RD_APPROVED"
      "oi_limit_price i \<noteq> None"
    and d: "de_approved_quantity d = Some (oi_quantity i)" "de_approved_limit_price d = oi_limit_price i"
      "de_intent_id d = oi_intent_id i" "de_evaluated_at d = rc_evaluated_at c"
      "de_approval_expires_at d = expiry_of en c" "de_correlation_id d = oi_correlation_id i"
    by (auto simp: engine_evaluate_def bindE_eq_Inr mk_risk_decision_def expiry_of_def split: if_splits option.splits)
  show "approves en i c"
    using xs all_passed_iff [OF xs(1)] approved_iff_all_passed [of xs] by (simp add: approves_def)
  show "de_approved_quantity d = Some (oi_quantity i)" "de_approved_limit_price d = oi_limit_price i"
    "de_intent_id d = oi_intent_id i" "de_evaluated_at d = rc_evaluated_at c"
    "de_approval_expires_at d = expiry_of en c" "de_correlation_id d = oi_correlation_id i"
    using d by auto
qed

lemma unapproved_decision:
  assumes "engine_evaluate en i c sid = Inr d" and "de_status d \<noteq> RD_APPROVED"
  shows "de_approved_quantity d = None" and "de_approved_limit_price d = None" and "de_approval_expires_at d = None"
  using assms by (auto simp: engine_evaluate_def bindE_eq_Inr mk_risk_decision_def split: if_splits option.splits)

lemma decision_returned:
  assumes "engine_ready en" and "intent_valid i" and "text_in 1 128 sid"
    and "approves en i c \<Longrightarrow> pred_option (\<lambda>t. t \<le> last_datetime) (expiry_of en c)"
  shows "\<exists>d. engine_evaluate en i c sid = Inr d \<and>
    de_status d = (if approves en i c then RD_APPROVED
                   else if \<exists>r \<in> set (en_rules en). rule_fails_to_answer i c r then RD_ERROR else RD_REJECTED)"
proof -
  have rules: "en_rules en \<noteq> []" "list_all honest_object (en_rules en)" and h: "text_in 1 128 (en_configuration_hash en)"
    and ttl: "pred_option (\<lambda>ttl. 0 < ttl) (en_approval_ttl en)"
    using assms(1) by (auto simp: engine_ready_def)
  obtain xs where xs: "evaluate_rules (en_rules en) i c = Inr xs" "xs \<noteq> []"
    using evaluate_rules_total [OF rules(2), of i c] rules(1) by auto
  have ap: "decision_status xs = RD_APPROVED \<longleftrightarrow> list_all (rule_passes_for i c) (en_rules en)"
    using all_passed_iff [OF xs(1)] approved_iff_all_passed [of xs] by simp
  have er: "decision_status xs = RD_ERROR \<longleftrightarrow> (\<exists>r \<in> set (en_rules en). rule_fails_to_answer i c r)"
    by (rule error_iff_no_answer [OF xs(1) rules(2)])
  have iv: "0 < oi_quantity i" "pred_option (\<lambda>p. 0 \<le> p) (oi_limit_price i)"
    using assms(2) by (auto simp: intent_valid_iff)
  have sid: "guards (validate_input_snapshot_id sid) = Inr ()"
    using assms(3) by (auto simp: validate_input_snapshot_id_def text_in_def)
  obtain x where x: "rule_error_result ''RISK-ENGINE'' ''1.0'' c ''RISK_ENGINE_APPROVAL_LIMIT_PRICE_MISSING''
      ''approved decision requires intent limit_price'' = Inr x" "\<not> ru_passed x"
    by (simp add: rule_error_result_def mk_risk_rule_result_def text_in_def)
  consider (ok) "decision_status xs = RD_APPROVED" "oi_limit_price i \<noteq> None"
    | (noprice) "decision_status xs = RD_APPROVED" "oi_limit_price i = None"
    | (no) "decision_status xs \<noteq> RD_APPROVED" by blast
  then show ?thesis
  proof cases
    case ok
    then have app: "approves en i c" using ap by (simp add: approves_def)
    have passed: "list_all ru_passed xs" using ok(1) by (simp add: approved_iff_all_passed)
    from ok(2) obtain p where p: "oi_limit_price i = Some p" by auto
    show ?thesis
      using ok(1) xs(2) p iv h assms(3) ttl assms(4) [OF app] passed app
      by (cases "en_approval_ttl en")
        (auto simp: engine_evaluate_def sid xs(1) mk_risk_decision_def validate_decision_state_def expiry_of_def)
  next
    case noprice
    then have "\<not> approves en i c" "\<not> (\<exists>r \<in> set (en_rules en). rule_fails_to_answer i c r)"
      using er by (auto simp: approves_def)
    then show ?thesis
      using noprice x h assms(3)
      by (cases "en_approval_ttl en")
        (auto simp: engine_evaluate_def sid xs(1) mk_risk_decision_def validate_decision_state_def)
  next
    case no
    then have nap: "\<not> approves en i c" using ap by (simp add: approves_def)
    have "\<not> list_all ru_passed xs" using no by (simp add: approved_iff_all_passed)
    moreover have "decision_status xs = RD_ERROR \<or> decision_status xs = RD_REJECTED"
      using no by (cases "decision_status xs") auto
    ultimately show ?thesis
      using no xs(2) h assms(3) nap er
      by (cases "en_approval_ttl en")
        (auto simp: engine_evaluate_def sid xs(1) mk_risk_decision_def validate_decision_state_def)
  qed
qed

lemma approved_passes:
  assumes "engine_evaluate en i c sid = Inr d" and "de_status d = RD_APPROVED" and "rule_object rid f \<in> set (en_rules en)"
  shows "passes (f i c)"
proof -
  have "rule_passes_for i c (rule_object rid f)"
    using approved_decision(1) [OF assms(1,2)] assms(3) by (simp add: approves_def list_all_iff)
  then show ?thesis by (cases "f i c") (auto simp: rule_passes_for_def rule_object_def)
qed

lemma foldE_steps: "foldE f s xs = Inr t \<Longrightarrow> x \<in> set xs \<Longrightarrow> \<exists>u v. f u x = Inr v"
  by (induction xs arbitrary: s) (auto simp: bindE_eq_Inr)

lemma clear_state_scopes: "clear_state_for_subject ks sub t = Inr st \<Longrightarrow> scopes_complete ks"
  unfolding clear_state_for_subject_def bindE_eq_Inr scopes_complete_def list_all_iff
  by (auto dest!: foldE_steps simp: matches_subject_def bindE_eq_Inr split: if_splits option.splits)

lemmas rule_conditions =
  strategy_enabled_rule_passes market_enabled_rule_passes market_open_rule_passes
  order_price_valid_rule_passes order_quantity_limit_rule_passes order_notional_limit_rule_passes
  market_position_limit_rule_passes daily_loss_limit_rule_passes duplicate_order_guard_rule_passes
  available_balance_rule_passes reconciliation_health_rule_passes kill_switch_clear_rule_passes
  market_data_freshness_rule_passes portfolio_gross_limit_rule_passes portfolio_net_limit_rule_passes
  strategy_capital_limit_rule_passes exchange_capital_limit_rule_passes open_order_limit_rule_passes arbitrage_leg_rule_passes

text \<open>A context and an engine for the witnesses: the balance rule and the kill-switch rule.\<close>

definition sample_context :: "risk_kill_switch_state \<Rightarrow> risk_context" where
  "sample_context k =
     \<lparr>rc_evaluated_at = 5, rc_strategy_enabled = Map.empty, rc_market_enabled = Map.empty, rc_market_status = Map.empty,
      rc_market_data_fresh = Map.empty, rc_price_bounds = Map.empty, rc_quantity_limits = Map.empty,
      rc_notional_limits = Map.empty, rc_market_positions = Map.empty, rc_portfolio_gross_exposure = None,
      rc_portfolio_net_exposure = None, rc_strategy_capital = Map.empty, rc_market_exchanges = Map.empty,
      rc_exchange_capital = Map.empty, rc_daily_loss = None, rc_open_order_limit = None, rc_duplicate_order_guard = None,
      rc_available_balance = Some \<lparr>ab_available_balance = 100, ab_observed_at = 3, ab_reserved_balance = 90\<rparr>,
      rc_reconciliation_health = None, rc_kill_switch_clear = Some k, rc_arbitrage_leg = None\<rparr>"

definition sample_rules :: "risk_rule list" where
  "sample_rules = [rule_object ''RISK-017'' (available_balance_rule 10), rule_object ''RISK-019'' (kill_switch_clear_rule 10)]"

definition sample_engine :: risk_engine where
  "sample_engine = \<lparr>en_rules = sample_rules, en_configuration_hash = ''h'', en_approval_ttl = Some 60,
     en_decision_id = (\<lambda>_ _ _ _ _. ''risk_1'')\<rparr>"

abbreviation no_kill_switch :: risk_kill_switch_state where
  "no_kill_switch \<equiv> \<lparr>kc_clear = True, kc_observed_at = 4, kc_active_scopes = {}\<rparr>"

lemma sample_engine_facts:
  "mk_risk_engine (\<lambda>_ _. ''x'') sample_rules (Some ''h'') (Some 60) (\<lambda>_ _ _ _ _. ''risk_1'') = Inr sample_engine"
  "list_all honest_object sample_rules" "engine_ready sample_engine"
  "rule_object ''RISK-019'' (kill_switch_clear_rule 10) \<in> set (en_rules sample_engine)"
proof -
  show "mk_risk_engine (\<lambda>_ _. ''x'') sample_rules (Some ''h'') (Some 60) (\<lambda>_ _ _ _ _. ''risk_1'') = Inr sample_engine"
    by (simp add: mk_risk_engine_def freeze_rules_def sample_rules_def sample_engine_def rule_identity_def rule_object_def)
  show honest: "list_all honest_object sample_rules"
    by (simp add: sample_rules_def balance_rule.object_honest kill_switch_rule.object_honest)
  then show "engine_ready sample_engine"
    by (simp add: engine_ready_def sample_engine_def text_in_def) (simp add: sample_rules_def)
  show "rule_object ''RISK-019'' (kill_switch_clear_rule 10) \<in> set (en_rules sample_engine)"
    by (simp add: sample_engine_def sample_rules_def)
qed

lemma sample_passes: "list_all (rule_passes_for sample_intent (sample_context no_kill_switch)) sample_rules"
proof -
  have m: "dmul 10 1 = 10"
    unfolding dmul_def by (simp, rule d28.rnd_exact, rule on_grid_fits [of 0 10]) (simp_all add: on_grid_def)
  have b: "dsub 100 90 = 10"
    unfolding dsub_def by (simp, rule d28.rnd_exact, rule on_grid_fits [of 0 10]) (simp_all add: on_grid_def)
  have "passes (available_balance_rule 10 sample_intent (sample_context no_kill_switch))"
    by (simp add: available_balance_rule_passes sample_intent_def sample_context_def fresh_def effective_available_balance_def m b)
  moreover have "passes (kill_switch_clear_rule 10 sample_intent (sample_context no_kill_switch))"
    by (simp add: kill_switch_clear_rule_passes sample_context_def fresh_def)
  ultimately show ?thesis
    by (simp add: sample_rules_def rule_passes_for_def balance_rule.object_passes kill_switch_rule.object_passes)
qed

lemma sample_approved:
  "\<exists>d. engine_evaluate sample_engine sample_intent (sample_context no_kill_switch) ''s'' = Inr d \<and> de_status d = RD_APPROVED"
proof -
  have "approves sample_engine sample_intent (sample_context no_kill_switch)"
    using sample_passes by (simp add: approves_def sample_engine_def) (simp add: sample_intent_def)
  then show ?thesis
    using decision_returned [OF sample_engine_facts(3) sample_intent_valid, of "''s''" "sample_context no_kill_switch"]
    by (simp add: text_in_def expiry_of_def sample_engine_def last_datetime_def sample_context_def)
qed

section \<open>Properties\<close>

text \<open>
  C22: the engine always decides, and decides by its rules. An engine that was constructed, with
  rules that keep the contract and a configuration hash within its field limit, returns a decision for every valid intent and
  every snapshot identifier of 1 to 128 characters (unless the expiry leaves the calendar): approved exactly when every rule returned a passing result and the intent has a limit price, an
  error exactly when some rule raised or returned no result, otherwise rejected. The validators of the
  decision never fail. An approval carries the quantity and the limit price of the intent and its expiry; any other
  decision carries none of the three.
\<close>

theorem engine_always_decides:
  assumes "mk_risk_engine hash_of rules h ttl gen = Inr en" and "list_all honest_object rules"
    and "text_in 1 128 (en_configuration_hash en)" and "intent_valid i" and "text_in 1 128 sid"
    and "pred_option (\<lambda>t. rc_evaluated_at c + t \<le> last_datetime) ttl"
  shows "\<exists>d. engine_evaluate en i c sid = Inr d \<and>
    de_status d = (if list_all (rule_passes_for i c) rules \<and> oi_limit_price i \<noteq> None then RD_APPROVED
                   else if \<exists>r \<in> set rules. rule_fails_to_answer i c r then RD_ERROR else RD_REJECTED) \<and>
    (de_status d = RD_APPROVED \<longrightarrow> de_approved_quantity d = Some (oi_quantity i) \<and>
       de_approved_limit_price d = oi_limit_price i \<and> de_approval_expires_at d = map_option (\<lambda>t. rc_evaluated_at c + t) ttl) \<and>
    (de_status d \<noteq> RD_APPROVED \<longrightarrow> de_approved_quantity d = None \<and> de_approved_limit_price d = None \<and> de_approval_expires_at d = None)"
proof -
  from assms(1) have en: "en_rules en = rules" "en_approval_ttl en = ttl" "rules \<noteq> []" "pred_option (\<lambda>t. 0 < t) ttl"
    by (auto simp: mk_risk_engine_def freeze_rules_def bindE_eq_Inr split: if_splits option.splits)
  then have ready: "engine_ready en" using assms(2,3) by (simp add: engine_ready_def)
  have cal: "pred_option (\<lambda>t. t \<le> last_datetime) (expiry_of en c)"
    using assms(6) en(2) by (cases ttl) (simp_all add: expiry_of_def)
  from decision_returned [OF ready assms(4,5) cal] obtain d where d: "engine_evaluate en i c sid = Inr d"
    "de_status d = (if approves en i c then RD_APPROVED
       else if \<exists>r \<in> set (en_rules en). rule_fails_to_answer i c r then RD_ERROR else RD_REJECTED)" by blast
  show ?thesis
    using d approved_decision [OF d(1)] unapproved_decision [OF d(1)] en(1,2)
    by (intro exI [of _ d]) (simp add: approves_def expiry_of_def)
qed

theorem engine_always_decides_witness:
  "\<exists>d. engine_evaluate sample_engine sample_intent (sample_context no_kill_switch) ''s'' = Inr d \<and>
     de_status d = RD_APPROVED \<and> de_approved_quantity d = Some 10 \<and> de_approval_expires_at d = Some 65"
proof -
  have price: "oi_limit_price sample_intent \<noteq> None" by (simp add: sample_intent_def)
  have "\<exists>d. engine_evaluate sample_engine sample_intent (sample_context no_kill_switch) ''s'' = Inr d \<and>
      de_status d = RD_APPROVED \<and> (de_status d = RD_APPROVED \<longrightarrow> de_approved_quantity d = Some (oi_quantity sample_intent) \<and>
        de_approved_limit_price d = oi_limit_price sample_intent \<and>
        de_approval_expires_at d = Some (rc_evaluated_at (sample_context no_kill_switch) + 60)) \<and>
      (de_status d \<noteq> RD_APPROVED \<longrightarrow> de_approved_quantity d = None \<and> de_approved_limit_price d = None \<and> de_approval_expires_at d = None)"
    using engine_always_decides [OF sample_engine_facts(1,2) _ sample_intent_valid, of "''s''" "sample_context no_kill_switch"]
      sample_passes price
    by (simp add: text_in_def last_datetime_def sample_engine_def sample_context_def)
  then show ?thesis by (auto simp: sample_intent_def sample_context_def)
qed

text \<open>
  C1: an approval respects every limit. When the engine approves an intent, the intent has a limit price and, for each
  of the nineteen rules that the engine is configured with, the state that rule checks is present, neither stale nor from
  the future, and the rule's condition holds: strategy and market enabled, market open, market data fresh, price and
  quantity within their bounds and on the tick and the increment, order notional, position, gross and net exposure, strategy and
  exchange capital, daily loss, number of open orders and balance within their limits (open orders and reservations counted),
  no known duplicate, reconciliation healthy with its gate released and nothing left to resolve, no kill switch active, the
  unhedged quantity within its cap with its hedge deadline not passed. The amounts are the ones the rules compute in
  decimals of 28 digits.
\<close>

theorem approval_respects_limits:
  assumes "engine_evaluate en i c sid = Inr d" and "de_status d = RD_APPROVED"
  shows "\<exists>p. oi_limit_price i = Some p \<and> de_approved_quantity d = Some (oi_quantity i) \<and>
    (\<forall>a. rule_object ''RISK-001'' (strategy_enabled_rule a) \<in> set (en_rules en) \<longrightarrow>
       (\<exists>s. rc_strategy_enabled c (oi_strategy_id i) = Some s \<and> fresh a c (bs_observed_at s) \<and> bs_value s)) \<and>
    (\<forall>a. rule_object ''RISK-003'' (market_enabled_rule a) \<in> set (en_rules en) \<longrightarrow>
       (\<exists>s. rc_market_enabled c (oi_market_id i) = Some s \<and> fresh a c (bs_observed_at s) \<and> bs_value s)) \<and>
    (\<forall>a sts. rule_object ''RISK-004'' (market_open_rule a sts) \<in> set (en_rules en) \<longrightarrow>
       (\<exists>s. rc_market_status c (oi_market_id i) = Some s \<and> fresh a c (ms_observed_at s) \<and> ms_status s \<in> set sts)) \<and>
    (\<forall>a. rule_object ''RISK-005'' (market_data_freshness_rule a) \<in> set (en_rules en) \<longrightarrow>
       (\<exists>s. rc_market_data_fresh c (oi_market_id i) = Some s \<and> fresh a c (bs_observed_at s) \<and> bs_value s)) \<and>
    (\<forall>a. rule_object ''RISK-006'' (order_price_valid_rule a) \<in> set (en_rules en) \<longrightarrow>
       (\<exists>b. rc_price_bounds c (oi_market_id i) = Some b \<and> fresh a c (pb_observed_at b) \<and> pb_min_price b \<le> p \<and> p \<le> pb_max_price b \<and>
         (\<forall>t. pb_tick_size b = Some t \<longrightarrow> drem (dsub p (pb_min_price b)) t = Inr 0))) \<and>
    (\<forall>a. rule_object ''RISK-007'' (order_quantity_limit_rule a) \<in> set (en_rules en) \<longrightarrow>
       (\<exists>l. rc_quantity_limits c (oi_contract_id i) = Some l \<and> fresh a c (ql_observed_at l) \<and> ql_min_quantity l \<le> oi_quantity i \<and>
         oi_quantity i \<le> ql_max_quantity l \<and> drem (dsub (oi_quantity i) (ql_min_quantity l)) (ql_quantity_increment l) = Inr 0)) \<and>
    (\<forall>a. rule_object ''RISK-008'' (order_notional_limit_rule a) \<in> set (en_rules en) \<longrightarrow>
       (\<exists>l. rc_notional_limits c (oi_contract_id i) = Some l \<and> fresh a c (nl_observed_at l) \<and> dmul (oi_quantity i) p \<le> nl_max_notional l)) \<and>
    (\<forall>a. rule_object ''RISK-009'' (market_position_limit_rule a) \<in> set (en_rules en) \<longrightarrow>
       (\<exists>s. rc_market_positions c (oi_market_id i) = Some s \<and> fresh a c (mp_observed_at s) \<and>
         dabs (dadd (effective_position s) (signed_quantity i)) \<le> mp_max_position s)) \<and>
    (\<forall>a. rule_object ''RISK-010'' (portfolio_gross_limit_rule a) \<in> set (en_rules en) \<longrightarrow>
       (\<exists>s. rc_portfolio_gross_exposure c = Some s \<and> fresh a c (pg_observed_at s) \<and>
         dadd (effective_gross_exposure s) (dmul (oi_quantity i) p) \<le> pg_max_gross_exposure s)) \<and>
    (\<forall>a. rule_object ''RISK-011'' (portfolio_net_limit_rule a) \<in> set (en_rules en) \<longrightarrow>
       (\<exists>s. rc_portfolio_net_exposure c = Some s \<and> fresh a c (pn_observed_at s) \<and>
         dabs (dadd (effective_net_exposure s) (signed_notional (oi_quantity i) p (oi_side i))) \<le> pn_max_net_exposure s)) \<and>
    (\<forall>a. rule_object ''RISK-012'' (strategy_capital_limit_rule a) \<in> set (en_rules en) \<longrightarrow>
       (\<exists>s. rc_strategy_capital c (oi_strategy_id i) = Some s \<and> fresh a c (cs_observed_at s) \<and>
         dadd (effective_capital_used s) (dmul (oi_quantity i) p) \<le> cs_max_capital s)) \<and>
    (\<forall>a. rule_object ''RISK-013'' (exchange_capital_limit_rule a) \<in> set (en_rules en) \<longrightarrow>
       (\<exists>x s. rc_market_exchanges c (oi_market_id i) = Some x \<and> rc_exchange_capital c x = Some s \<and> fresh a c (cs_observed_at s) \<and>
         dadd (effective_capital_used s) (dmul (oi_quantity i) p) \<le> cs_max_capital s)) \<and>
    (\<forall>a. rule_object ''RISK-014'' (daily_loss_limit_rule a) \<in> set (en_rules en) \<longrightarrow>
       (\<exists>s. rc_daily_loss c = Some s \<and> fresh a c (dy_observed_at s) \<and> current_daily_loss s \<le> dy_max_daily_loss s)) \<and>
    (\<forall>a. rule_object ''RISK-015'' (open_order_limit_rule a) \<in> set (en_rules en) \<longrightarrow>
       (\<exists>s. rc_open_order_limit c = Some s \<and> fresh a c (ol_observed_at s) \<and>
         dadd (of_int (effective_open_order_count s)) 1 \<le> of_int (ol_max_open_orders s))) \<and>
    (\<forall>a. rule_object ''RISK-016'' (duplicate_order_guard_rule a) \<in> set (en_rules en) \<longrightarrow>
       (\<exists>s. rc_duplicate_order_guard c = Some s \<and> fresh a c (dg_observed_at s) \<and> oi_intent_id i \<notin> dg_known_intent_ids s \<and>
         oi_idempotency_key i \<notin> dg_known_idempotency_keys s)) \<and>
    (\<forall>a. rule_object ''RISK-017'' (available_balance_rule a) \<in> set (en_rules en) \<longrightarrow>
       (\<exists>s. rc_available_balance c = Some s \<and> fresh a c (ab_observed_at s) \<and> dmul (oi_quantity i) p \<le> effective_available_balance s)) \<and>
    (\<forall>a. rule_object ''RISK-018'' (reconciliation_health_rule a) \<in> set (en_rules en) \<longrightarrow>
       (\<exists>s. rc_reconciliation_health c = Some s \<and> fresh a c (rh_observed_at s) \<and> rh_status s = HEALTHY \<and> rh_trading_gate_released s \<and>
         rh_manual_review_count s \<le> 0 \<and> rh_unresolved_mismatch_count s \<le> 0)) \<and>
    (\<forall>a. rule_object ''RISK-019'' (kill_switch_clear_rule a) \<in> set (en_rules en) \<longrightarrow>
       (\<exists>s. rc_kill_switch_clear c = Some s \<and> fresh a c (kc_observed_at s) \<and> kc_clear s \<and> kc_active_scopes s = {})) \<and>
    (\<forall>a. rule_object ''RISK-020'' (arbitrage_leg_rule a) \<in> set (en_rules en) \<longrightarrow>
       (\<exists>s. rc_arbitrage_leg c = Some s \<and> fresh a c (al_observed_at s) \<and> al_current_unhedged_quantity s \<le> al_max_unhedged_quantity s \<and>
         (0 < al_current_unhedged_quantity s \<longrightarrow> (\<exists>d. al_hedge_deadline_at s = Some d \<and> rc_evaluated_at c \<le> d))))"
proof -
  obtain p where p: "oi_limit_price i = Some p"
    using approved_decision(1) [OF assms] by (auto simp: approves_def)
  note passed = approved_passes [OF assms]
  show ?thesis
    by (intro exI [of _ p] conjI)
      (rule p approved_decision(2) [OF assms] | (intro allI impI, drule passed, simp add: p rule_conditions; blast))+
qed

theorem approval_respects_limits_witness:
  "\<exists>d. engine_evaluate sample_engine sample_intent (sample_context no_kill_switch) ''s'' = Inr d \<and> de_status d = RD_APPROVED \<and>
     dmul 10 1 \<le> dsub 100 90"
proof -
  obtain d where d: "engine_evaluate sample_engine sample_intent (sample_context no_kill_switch) ''s'' = Inr d"
    "de_status d = RD_APPROVED" using sample_approved by blast
  have "rule_object ''RISK-017'' (available_balance_rule 10) \<in> set (en_rules sample_engine)"
    by (simp add: sample_engine_def sample_rules_def)
  moreover from approval_respects_limits [OF d] obtain p where "oi_limit_price sample_intent = Some p"
    and "\<forall>a. rule_object ''RISK-017'' (available_balance_rule a) \<in> set (en_rules sample_engine) \<longrightarrow>
      (\<exists>s. rc_available_balance (sample_context no_kill_switch) = Some s \<and>
         fresh a (sample_context no_kill_switch) (ab_observed_at s) \<and> dmul (oi_quantity sample_intent) p \<le> effective_available_balance s)"
    by (elim exE conjE) (rule that, assumption+)
  ultimately have "\<exists>s. rc_available_balance (sample_context no_kill_switch) = Some s \<and>
      dmul (oi_quantity sample_intent) p \<le> effective_available_balance s" and "p = 1"
    by (auto simp: sample_intent_def)
  then show ?thesis
    using d by (auto simp: sample_intent_def sample_context_def effective_available_balance_def)
qed

text \<open>
  C23: a kill switch stops trading. If the kill-switch state of the context was derived for the intent from
  a list of switches and one of them is active and applies to the intent's strategy, market,
  exchange, account or gateway, or is global, then an engine with the kill-switch rule does not approve
  the intent, whatever its other rules say.
\<close>

theorem kill_switch_blocks:
  assumes "subject_from_intent i c account gateway = Inr sub" and "clear_state_for_subject switches sub t = Inr st"
    and "rc_kill_switch_clear c = Some st" and "k \<in> set switches" and "switch_applies k sub"
    and "rule_object ''RISK-019'' (kill_switch_clear_rule a) \<in> set (en_rules en)"
    and "engine_evaluate en i c sid = Inr d"
  shows "de_status d \<noteq> RD_APPROVED"
proof
  assume "de_status d = RD_APPROVED"
  from approved_passes [OF assms(7) this assms(6)] have "kc_active_scopes st = {}"
    using assms(3) by (simp add: kill_switch_clear_rule_passes)
  moreover have "kc_active_scopes st = kw_scope ` {k \<in> set switches. switch_applies k sub}"
    using assms(2) clear_state_eq [OF clear_state_scopes [OF assms(2)], of sub t] by (auto simp: Let_def)
  ultimately show False using assms(4,5) by auto
qed

theorem kill_switch_blocks_witness:
  "\<exists>d. engine_evaluate sample_engine sample_intent
      (sample_context \<lparr>kc_clear = False, kc_observed_at = 4, kc_active_scopes = {KS_GLOBAL}\<rparr>) ''s'' = Inr d \<and>
    de_status d \<noteq> RD_APPROVED"
proof -
  let ?st = "\<lparr>kc_clear = False, kc_observed_at = 4, kc_active_scopes = {KS_GLOBAL}\<rparr>"
  let ?k = "\<lparr>kw_kill_switch_id = ''k'', kw_scope = KS_GLOBAL, kw_scope_id = None, kw_active = True, kw_activated_at = Some 1,
    kw_activated_by = Some ''ops'', kw_activation_reason = Some ''halt'', kw_released_at = None, kw_released_by = None,
    kw_release_reason = None, kw_version = 1\<rparr>"
  let ?sub = "\<lparr>ksub_strategy_id = ''s'', ksub_market_id = ''m'', ksub_exchange_id = None, ksub_account_id = None,
    ksub_execution_gateway_id = None\<rparr>"
  have sub: "subject_from_intent sample_intent (sample_context ?st) None None = Inr ?sub"
    by (simp add: subject_from_intent_def mk_kill_switch_subject_def sample_intent_def sample_context_def)
  have app: "switch_applies ?k ?sub" by (simp add: switch_applies_def matches_subject_def)
  have st: "clear_state_for_subject [?k] ?sub 4 = Inr ?st"
    by (simp add: clear_state_for_subject_def matches_subject_def mk_kill_switch_clear_def)
  have rc: "rc_kill_switch_clear (sample_context ?st) = Some ?st" by (simp add: sample_context_def)
  obtain d where d: "engine_evaluate sample_engine sample_intent (sample_context ?st) ''s'' = Inr d"
    using decision_returned [OF sample_engine_facts(3) sample_intent_valid, of "''s''" "sample_context ?st"]
    by (auto simp: text_in_def expiry_of_def sample_engine_def last_datetime_def sample_context_def)
  show ?thesis
    using kill_switch_blocks [OF sub st rc _ app sample_engine_facts(4) d] d by auto
qed

end
