(* ===== verification/Risk_Artifacts.thy ===== *)
theory Risk_Artifacts
  imports Risk_Engine
begin

text \<open>
  What an approved or rejected decision gives rise to: approved orders (\<open>src/pmrp/risk/approvals.py\<close>),
  capital reservations (\<open>src/pmrp/risk/reservations.py\<close>) and breaches (\<open>src/pmrp/risk/breaches.py\<close>). The generator
  protocols are function arguments, and each hashing generator of the source is one such function.
\<close>

section \<open>Authorisation by a decision\<close>

text \<open>The checks that \<^verbatim>\<open>_validate_approval_pair\<close> and \<^verbatim>\<open>_validate_reservation_pair\<close> share.\<close>

definition validate_decision_pair :: "string \<Rightarrow> order_intent \<Rightarrow> risk_decision \<Rightarrow> (bool \<times> py_error) list" where
  "validate_decision_pair what i d =
     [(de_status d \<noteq> RD_APPROVED, RiskInputError (what @ '' construction requires an approved risk decision'')),
      (de_intent_id d \<noteq> oi_intent_id i, RiskInputError ''risk decision intent_id must match order intent''),
      (de_correlation_id d \<noteq> oi_correlation_id i, RiskInputError ''risk decision correlation_id must match order intent''),
      (de_approved_quantity d = None \<or> de_approved_limit_price d = None,
         RiskInputError ''approved risk decision requires quantity and limit price''),
      (case de_approved_quantity d of None \<Rightarrow> False | Some q \<Rightarrow> oi_quantity i < q,
         RiskInputError ''approved quantity cannot exceed requested intent quantity'')]"

definition approved_values :: "risk_decision \<Rightarrow> (rat \<times> rat) result" where
  "approved_values d =
     (case (de_approved_quantity d, de_approved_limit_price d) of
        (Some q, Some p) \<Rightarrow> Inr (q, p)
      | _ \<Rightarrow> Inl (RiskInputError ''approved risk decision requires quantity and limit price''))"

definition approval_payload :: "order_intent \<Rightarrow> risk_decision \<Rightarrow> string \<Rightarrow> ident \<Rightarrow> (string \<times> canon) list" where
  "approval_payload i d exchange account_id =
     [(''account_id'', CStr account_id), (''approval_expires_at'', canon_of_time (de_approval_expires_at d)),
      (''approved_limit_price'', canon_of_dec (de_approved_limit_price d)),
      (''approved_quantity'', canon_of_dec (de_approved_quantity d)), (''correlation_id'', CStr (de_correlation_id d)),
      (''evaluated_at'', CTime (de_evaluated_at d)), (''exchange'', CStr exchange), (''intent_id'', CStr (oi_intent_id i)),
      (''risk_decision_id'', CStr (de_risk_decision_id d))]"

section \<open>Approved orders\<close>

record order_references =
  or_order_id :: ident
  or_client_order_id :: string
  or_idempotency_key :: string

definition validate_generated_reference :: "string \<Rightarrow> string \<Rightarrow> (bool \<times> py_error) list" where
  "validate_generated_reference field_name ref =
     [(ref = [], RiskConfigurationError (field_name @ '' must not be empty'')),
      (256 < length ref, RiskConfigurationError (field_name @ '' must be at most 256 characters''))]"

definition mk_order_references :: "order_references \<Rightarrow> order_references result" where
  "mk_order_references r =
     bindE (guards (validate_generated_reference ''client_order_id'' (or_client_order_id r) @
       validate_generated_reference ''idempotency_key'' (or_idempotency_key r))) (\<lambda>_. Inr r)"

type_synonym reference_generator =
  "order_intent \<Rightarrow> risk_decision \<Rightarrow> string \<Rightarrow> ident \<Rightarrow> order_references result"

text \<open>\<^verbatim>\<open>HashingApprovedOrderReferenceGenerator\<close>: the prefixes are its configuration.\<close>

definition validate_reference_prefix :: "string \<Rightarrow> string \<Rightarrow> (bool \<times> py_error) list" where
  "validate_reference_prefix field_name prefix =
     [(prefix = [], RiskConfigurationError (field_name @ '' must not be empty'')),
      (64 < length prefix, RiskConfigurationError (field_name @ '' must be at most 64 characters''))]"

definition mk_hashing_references :: "hasher \<Rightarrow> string \<Rightarrow> string \<Rightarrow> reference_generator result" where
  "mk_hashing_references H client_order_prefix idempotency_prefix =
     bindE (guards (validate_reference_prefix ''client_order_prefix'' client_order_prefix @
       validate_reference_prefix ''idempotency_prefix'' idempotency_prefix)) (\<lambda>_.
     Inr (\<lambda>i d exchange account_id.
       let digest = removeprefix ''sha256:'' (H (CMap (approval_payload i d exchange account_id))) in
       mk_order_references
         \<lparr>or_order_id = ''ord_'' @ take 32 digest,
          or_client_order_id = client_order_prefix @ ''-'' @ take 48 digest,
          or_idempotency_key = idempotency_prefix @ ''-'' @ take 48 digest\<rparr>))"

definition validate_exchange :: "string \<Rightarrow> (bool \<times> py_error) list" where
  "validate_exchange exchange =
     [(exchange = [], RiskInputError ''approved order exchange must not be empty''),
      (64 < length exchange, RiskInputError ''approved order exchange must be at most 64 characters'')]"

definition build_approved_order ::
  "reference_generator \<Rightarrow> order_intent \<Rightarrow> risk_decision \<Rightarrow> string \<Rightarrow> ident \<Rightarrow> approved_order result" where
  "build_approved_order references i d exchange account_id =
     bindE (guards (validate_decision_pair ''approved order'' i d @ validate_exchange exchange)) (\<lambda>_.
     bindE (approved_values d) (\<lambda>(approved_quantity, approved_limit_price).
     bindE (references i d exchange account_id) (\<lambda>refs.
     mk_approved_order
       \<lparr>ao_order_id = or_order_id refs, ao_intent_id = oi_intent_id i, ao_strategy_id = oi_strategy_id i,
        ao_risk_decision_id = de_risk_decision_id d, ao_exchange = exchange, ao_account_id = account_id,
        ao_market_id = oi_market_id i, ao_contract_id = oi_contract_id i, ao_outcome_id = oi_outcome_id i,
        ao_side = oi_side i, ao_quantity = approved_quantity, ao_limit_price = Some approved_limit_price,
        ao_order_type = oi_order_type i, ao_time_in_force = oi_time_in_force i, ao_post_only = oi_post_only i,
        ao_reduce_only = oi_reduce_only i, ao_approved_at = de_evaluated_at d,
        ao_approval_expires_at = de_approval_expires_at d, ao_client_order_id = or_client_order_id refs,
        ao_idempotency_key = or_idempotency_key refs, ao_correlation_id = oi_correlation_id i\<rparr>)))"

section \<open>Capital reservations\<close>

datatype reservation_status = ACTIVE | RELEASED | EXPIRED

record capital_reservation =
  cv_reservation_id :: string
  cv_intent_id :: ident
  cv_strategy_id :: ident
  cv_exchange :: exchange_name
  cv_account_id :: ident
  cv_market_id :: ident
  cv_quantity :: rat
  cv_notional :: rat
  cv_currency :: string
  cv_status :: reservation_status
  cv_created_at :: instant
  cv_expires_at :: instant
  cv_released_at :: "instant option"

definition validate_reservation_id :: "string \<Rightarrow> (bool \<times> py_error) list" where
  "validate_reservation_id rid =
     [(rid = [], RiskConfigurationError ''capital reservation ID must not be empty''),
      (128 < length rid, RiskConfigurationError ''capital reservation ID must be at most 128 characters'')]"

definition mk_capital_reservation :: "capital_reservation \<Rightarrow> capital_reservation result" where
  "mk_capital_reservation r =
     bindE (guards
       (validate_reservation_id (cv_reservation_id r) @
        [(cv_quantity r \<le> 0, RiskConfigurationError ''capital reservation quantity must be positive''),
         (cv_notional r \<le> 0, RiskConfigurationError ''capital reservation notional must be positive''),
         (cv_expires_at r \<le> cv_created_at r, RiskConfigurationError ''capital reservation expires_at must be after created_at''),
         (cv_status r = ACTIVE \<and> cv_released_at r \<noteq> None,
            RiskConfigurationError ''active capital reservation cannot have released_at''),
         (cv_status r \<noteq> ACTIVE \<and> cv_released_at r = None,
            RiskConfigurationError ''released capital reservation requires released_at''),
         (case cv_released_at r of None \<Rightarrow> False | Some t \<Rightarrow> t < cv_created_at r,
            RiskConfigurationError ''capital reservation released_at cannot precede created_at'')])) (\<lambda>_.
     bindE (validate_currency (cv_currency r)) (\<lambda>c. Inr (r\<lparr>cv_currency := c\<rparr>)))"

type_synonym reservation_id_generator =
  "order_intent \<Rightarrow> risk_decision \<Rightarrow> exchange_name \<Rightarrow> ident \<Rightarrow> string \<Rightarrow> string"

definition hashing_reservation_id :: "hasher \<Rightarrow> reservation_id_generator" where
  "hashing_reservation_id H i d exchange account_id ccy =
     ''reserve_'' @ short_digest H (CMap
       [(''account_id'', CStr account_id), (''approval_expires_at'', canon_of_time (de_approval_expires_at d)),
        (''approved_limit_price'', canon_of_dec (de_approved_limit_price d)),
        (''approved_quantity'', canon_of_dec (de_approved_quantity d)), (''correlation_id'', CStr (de_correlation_id d)),
        (''currency'', CStr ccy), (''evaluated_at'', CTime (de_evaluated_at d)),
        (''exchange'', CStr (exchange_value exchange)), (''intent_id'', CStr (oi_intent_id i)),
        (''risk_decision_id'', CStr (de_risk_decision_id d))])"

definition build_capital_reservation ::
  "reservation_id_generator \<Rightarrow> order_intent \<Rightarrow> risk_decision \<Rightarrow> exchange_name \<Rightarrow> ident \<Rightarrow> string \<Rightarrow>
     capital_reservation result" where
  "build_capital_reservation reservation_id i d exchange account_id ccy =
     bindE (guards (validate_decision_pair ''capital reservation'' i d)) (\<lambda>_.
     bindE (validate_currency ccy) (\<lambda>ccy.
     bindE (approved_values d) (\<lambda>(approved_quantity, approved_limit_price).
     case de_approval_expires_at d of
       None \<Rightarrow> Inl (RiskInputError ''capital reservation requires approval_expires_at'')
     | Some expires_at \<Rightarrow>
         let rid = reservation_id i d exchange account_id ccy in
         bindE (guards (validate_reservation_id rid)) (\<lambda>_.
         mk_capital_reservation
           \<lparr>cv_reservation_id = rid, cv_intent_id = oi_intent_id i, cv_strategy_id = oi_strategy_id i,
            cv_exchange = exchange, cv_account_id = account_id, cv_market_id = oi_market_id i,
            cv_quantity = approved_quantity, cv_notional = dmul approved_quantity approved_limit_price,
            cv_currency = ccy, cv_status = ACTIVE, cv_created_at = de_evaluated_at d,
            cv_expires_at = expires_at, cv_released_at = None\<rparr>))))"

section \<open>Breaches\<close>

datatype risk_limit_scope = SCOPE_GLOBAL | SCOPE_EXCHANGE | SCOPE_ACCOUNT | SCOPE_STRATEGY | SCOPE_MARKET

fun scope_value :: "risk_limit_scope \<Rightarrow> string" where
  "scope_value SCOPE_GLOBAL = ''global''"
| "scope_value SCOPE_EXCHANGE = ''exchange''"
| "scope_value SCOPE_ACCOUNT = ''account''"
| "scope_value SCOPE_STRATEGY = ''strategy''"
| "scope_value SCOPE_MARKET = ''market''"

record breach_policy =
  bp_rule_id :: string
  bp_scope :: risk_limit_scope
  bp_severity :: string
  bp_action_taken :: string
  bp_scope_id :: "string option"
  bp_reason_code :: "string option"

definition validate_policy_text :: "string \<Rightarrow> nat \<Rightarrow> string \<Rightarrow> (bool \<times> py_error) list" where
  "validate_policy_text field_name max_length value =
     [(value = [], RiskConfigurationError (''risk breach policy '' @ field_name @ '' must not be empty'')),
      (max_length < length value, RiskConfigurationError (''risk breach policy '' @ field_name @ '' is too long''))]"

definition mk_breach_policy :: "breach_policy \<Rightarrow> breach_policy result" where
  "mk_breach_policy p =
     bindE (guards
       (validate_policy_text ''rule_id'' 128 (bp_rule_id p) @ validate_policy_text ''severity'' 64 (bp_severity p) @
        validate_policy_text ''action_taken'' 128 (bp_action_taken p) @
        (case bp_scope_id p of None \<Rightarrow> [] | Some s \<Rightarrow> validate_policy_text ''scope_id'' 256 s) @
        (case bp_reason_code p of None \<Rightarrow> [] | Some s \<Rightarrow> validate_policy_text ''reason_code'' 128 s))) (\<lambda>_. Inr p)"

definition policy_key :: "breach_policy \<Rightarrow> string \<times> string option" where
  "policy_key p = (bp_rule_id p, bp_reason_code p)"

definition freeze_policies :: "breach_policy list \<Rightarrow> breach_policy list result" where
  "freeze_policies ps =
     bindE (guards
       [(ps = [], RiskConfigurationError ''risk breach factory requires at least one policy''),
        (\<not> distinct (map policy_key ps), RiskConfigurationError ''risk breach policy keys must be unique'')]) (\<lambda>_. Inr ps)"

text \<open>The scan of \<^verbatim>\<open>_policy_for_result\<close>: the last match of each kind, the reason match first.\<close>

fun match_policies ::
  "risk_rule_result \<Rightarrow> breach_policy option \<times> breach_policy option \<Rightarrow> breach_policy list \<Rightarrow>
     breach_policy option \<times> breach_policy option" where
  "match_policies r acc [] = acc"
| "match_policies r (reason_match, rule_match) (p # ps) =
     (if bp_rule_id p \<noteq> ru_rule_id r then match_policies r (reason_match, rule_match) ps
      else if bp_reason_code p = Some (ru_reason_code r) then match_policies r (Some p, rule_match) ps
      else if bp_reason_code p = None then match_policies r (reason_match, Some p) ps
      else match_policies r (reason_match, rule_match) ps)"

definition policy_for_result :: "breach_policy list \<Rightarrow> risk_rule_result \<Rightarrow> breach_policy option" where
  "policy_for_result ps r =
     (case match_policies r (None, None) ps of (Some p, _) \<Rightarrow> Some p | (None, rule_match) \<Rightarrow> rule_match)"

record risk_breach =
  br_breach_id :: string
  br_rule_id :: string
  br_rule_version :: string
  br_scope :: risk_limit_scope
  br_scope_id :: "string option"
  br_severity :: string
  br_detected_at :: instant
  br_observed_value :: "rat option"
  br_limit_value :: "rat option"
  br_unit :: "string option"
  br_action_taken :: string
  br_correlation_id :: ident

definition mk_risk_breach :: "risk_breach \<Rightarrow> risk_breach result" where
  "mk_risk_breach b =
     bindE (guards
       [(\<not> text_in 1 128 (br_breach_id b), ValidationError (Out_of_range F_text)),
        (\<not> text_in 1 128 (br_rule_id b), ValidationError (Out_of_range F_text)),
        (\<not> text_in 1 64 (br_rule_version b), ValidationError (Out_of_range F_text)),
        (\<not> pred_option (text_in 1 256) (br_scope_id b), ValidationError (Out_of_range F_text)),
        (\<not> text_in 1 64 (br_severity b), ValidationError (Out_of_range F_text)),
        (\<not> pred_option (text_in 1 64) (br_unit b), ValidationError (Out_of_range F_text)),
        (\<not> text_in 1 128 (br_action_taken b), ValidationError (Out_of_range F_text))]) (\<lambda>_. Inr b)"

type_synonym breach_id_generator = "risk_decision \<Rightarrow> risk_rule_result \<Rightarrow> nat \<Rightarrow> breach_policy \<Rightarrow> string"

definition hashing_breach_id :: "hasher \<Rightarrow> breach_id_generator" where
  "hashing_breach_id H d r result_index p =
     ''breach_'' @ short_digest H (CMap
       [(''action_taken'', CStr (bp_action_taken p)), (''intent_id'', CStr (de_intent_id d)),
        (''reason_code'', CStr (ru_reason_code r)), (''result_index'', CInt (int result_index)),
        (''risk_decision_id'', CStr (de_risk_decision_id d)), (''rule_id'', CStr (ru_rule_id r)),
        (''rule_version'', CStr (ru_rule_version r)), (''scope'', CStr (scope_value (bp_scope p))),
        (''scope_id'', canon_of_opt (bp_scope_id p)), (''severity'', CStr (bp_severity p))])"

record breach_factory =
  bf_policies :: "breach_policy list"
  bf_breach_id :: breach_id_generator

definition breach_of :: "breach_factory \<Rightarrow> risk_decision \<Rightarrow> nat \<Rightarrow> risk_rule_result \<Rightarrow> breach_policy \<Rightarrow> risk_breach" where
  "breach_of f d k r p =
     \<lparr>br_breach_id = bf_breach_id f d r k p, br_rule_id = ru_rule_id r, br_rule_version = ru_rule_version r,
      br_scope = bp_scope p, br_scope_id = bp_scope_id p, br_severity = bp_severity p,
      br_detected_at = ru_evaluated_at r, br_observed_value = ru_observed_value r, br_limit_value = ru_limit_value r,
      br_unit = ru_unit r, br_action_taken = bp_action_taken p, br_correlation_id = de_correlation_id d\<rparr>"

fun breaches_from :: "breach_factory \<Rightarrow> risk_decision \<Rightarrow> nat \<Rightarrow> risk_rule_result list \<Rightarrow> risk_breach list result" where
  "breaches_from f d k [] = Inr []"
| "breaches_from f d k (r # rs) =
     (if ru_passed r then breaches_from f d (Suc k) rs
      else case policy_for_result (bf_policies f) r of
        None \<Rightarrow> breaches_from f d (Suc k) rs
      | Some p \<Rightarrow>
          bindE (mk_risk_breach (breach_of f d k r p)) (\<lambda>b.
          bindE (breaches_from f d (Suc k) rs) (\<lambda>bs. Inr (b # bs))))"

definition breaches_for_decision :: "breach_factory \<Rightarrow> risk_decision \<Rightarrow> risk_breach list result" where
  "breaches_for_decision f d = breaches_from f d 0 (de_rule_results d)"

section \<open>What the builders return\<close>

lemma dmul_pos_iff: "0 < q \<Longrightarrow> 0 < dmul q p \<longleftrightarrow> 0 < p"
  by (simp add: dmul_def zero_less_mult_iff)

lemma decision_pair_ok:
  "guards (validate_decision_pair what i d) = Inr u \<longleftrightarrow>
     de_status d = RD_APPROVED \<and> de_intent_id d = oi_intent_id i \<and> de_correlation_id d = oi_correlation_id i \<and>
     (\<exists>q p. de_approved_quantity d = Some q \<and> de_approved_limit_price d = Some p \<and> q \<le> oi_quantity i)"
  by (auto simp: validate_decision_pair_def not_less split: option.splits)

lemma reservation_id_ok: "guards (validate_reservation_id rid) = Inr u \<longleftrightarrow> text_in 1 128 rid"
  by (cases rid) (auto simp: validate_reservation_id_def text_in_def)

lemma mk_capital_reservation_iff:
  "mk_capital_reservation r = Inr r' \<longleftrightarrow>
     text_in 1 128 (cv_reservation_id r) \<and> 0 < cv_quantity r \<and> 0 < cv_notional r \<and> cv_created_at r < cv_expires_at r \<and>
     (cv_status r = ACTIVE \<longleftrightarrow> cv_released_at r = None) \<and> pred_option (\<lambda>t. cv_created_at r \<le> t) (cv_released_at r) \<and>
     valid_currency (cv_currency r) \<and> r' = r"
proof (cases "valid_currency (cv_currency r)")
  case False
  then show ?thesis by (auto simp: mk_capital_reservation_def bindE_eq_Inr dest: validate_currency_ok simp del: guards.simps)
next
  case True
  have "(case cv_released_at r of None \<Rightarrow> False | Some t \<Rightarrow> t < cv_created_at r) \<longleftrightarrow>
      \<not> pred_option (\<lambda>t. cv_created_at r \<le> t) (cv_released_at r)"
    by (simp add: not_le split: option.split)
  then show ?thesis
    using True
    by (simp add: mk_capital_reservation_def guards_append bindE_eq_Inr reservation_id_ok guards_ok_iff not_le not_less
        del: guards.simps) (auto simp: text_in_def validate_reservation_id_def Suc_le_eq)
qed

text \<open>The reservation of a decision, exactly when it is built.\<close>

lemma capital_reservation_built_iff:
  "build_capital_reservation gen i d x a ccy = Inr r \<longleftrightarrow>
     de_status d = RD_APPROVED \<and> de_intent_id d = oi_intent_id i \<and> de_correlation_id d = oi_correlation_id i \<and>
     valid_currency ccy \<and> text_in 1 128 (gen i d x a ccy) \<and>
     (\<exists>q p t. de_approved_quantity d = Some q \<and> de_approved_limit_price d = Some p \<and> de_approval_expires_at d = Some t \<and>
        q \<le> oi_quantity i \<and> 0 < q \<and> 0 < p \<and> de_evaluated_at d < t \<and>
        r = \<lparr>cv_reservation_id = gen i d x a ccy, cv_intent_id = oi_intent_id i, cv_strategy_id = oi_strategy_id i,
             cv_exchange = x, cv_account_id = a, cv_market_id = oi_market_id i, cv_quantity = q, cv_notional = dmul q p,
             cv_currency = ccy, cv_status = ACTIVE, cv_created_at = de_evaluated_at d, cv_expires_at = t,
             cv_released_at = None\<rparr>)" (is "?lhs \<longleftrightarrow> ?rhs")
proof (cases "guards (validate_decision_pair ''capital reservation'' i d) = Inr () \<and> valid_currency ccy")
  case False
  then have "\<not> ?lhs"
    by (auto simp: build_capital_reservation_def bindE_eq_Inr dest: validate_currency_ok)
  moreover have "\<not> ?rhs" using False by (auto simp: decision_pair_ok)
  ultimately show ?thesis by blast
next
  case True
  then obtain q p where qp: "de_approved_quantity d = Some q" "de_approved_limit_price d = Some p" "q \<le> oi_quantity i"
    and d: "de_status d = RD_APPROVED" "de_intent_id d = oi_intent_id i" "de_correlation_id d = oi_correlation_id i"
    by (auto simp: decision_pair_ok)
  show ?thesis
    using True qp d
    by (cases "de_approval_expires_at d")
      (auto simp: build_capital_reservation_def approved_values_def Let_def bindE_eq_Inr mk_capital_reservation_iff
        reservation_id_ok dmul_pos_iff)
qed

text \<open>The order of a decision copies the intent and the approved values.\<close>

lemma approved_order_fields:
  assumes "build_approved_order refs i d x a = Inr o'"
  shows "de_status d = RD_APPROVED" "ao_intent_id o' = oi_intent_id i" "ao_risk_decision_id o' = de_risk_decision_id d"
    "ao_side o' = oi_side i" "Some (ao_quantity o') = de_approved_quantity d" "ao_limit_price o' = de_approved_limit_price d"
    "ao_quantity o' \<le> oi_quantity i" "ao_approval_expires_at o' = de_approval_expires_at d"
    "ao_correlation_id o' = oi_correlation_id i" "ao_market_id o' = oi_market_id i"
  using assms
  by (auto simp: build_approved_order_def guards_append bindE_eq_Inr decision_pair_ok approved_values_def mk_approved_order_def)

text \<open>The hashing generators give references that fit the contracts.\<close>

lemma hashing_reservation_id_fits: "text_in 1 128 (hashing_reservation_id H i d x a ccy)"
  by (simp add: hashing_reservation_id_def text_in_def short_digest_def)

text \<open>A policy is chosen by reason code first, by rule otherwise, when the keys are unique.\<close>

lemma match_policies_last:
  "match_policies r (a, b) ps =
     ((case [p \<leftarrow> rev ps. policy_key p = (ru_rule_id r, Some (ru_reason_code r))] of [] \<Rightarrow> a | p # _ \<Rightarrow> Some p),
      (case [p \<leftarrow> rev ps. policy_key p = (ru_rule_id r, None)] of [] \<Rightarrow> b | p # _ \<Rightarrow> Some p))"
proof (induction ps arbitrary: a b)
  case Nil
  then show ?case by simp
next
  case (Cons p ps)
  show ?case
    by (auto simp: Cons policy_key_def split: list.splits)
qed

end
