(* ===== verification/Risk_Service.thy ===== *)
theory Risk_Service
  imports Risk_Artifacts
begin

text \<open>
  \<open>src/pmrp/risk/service.py\<close>: one transaction that evaluates an intent, stores the decision and what follows
  from it, and commits; and the reservation table of
  \<open>src/pmrp/storage/repositories/capital_reservations.py\<close>.

  The unit of work is the record of its store operations on a state of any type: an operation returns the
  new state or raises, and an exception before the commit leaves the committed state as it was
  (\<open>src/pmrp/storage/transactions.py\<close>). The reservation table is one such state. How the database rounds a value to a column
  \<^verbatim>\<open>Numeric(38, 18)\<close> is the argument \<open>num\<close>, with the documented laws \<open>numeric_column\<close> as hypothesis.
\<close>

section \<open>Requests and results\<close>

record risk_input_snapshot =
  sn_risk_input_snapshot_id :: string
  sn_captured_at :: instant
  sn_strategy_id :: ident
  sn_exchange :: string
  sn_account_id :: ident
  sn_market_id :: ident
  sn_current_position :: rat
  sn_open_order_quantity :: rat
  sn_available_balance :: rat
  sn_gross_exposure :: rat
  sn_net_exposure :: rat
  sn_daily_realized_pnl :: rat
  sn_daily_unrealized_pnl :: rat
  sn_market_data_age_ms :: int
  sn_reconciliation_healthy :: bool
  sn_kill_switch_clear :: bool

record order_request =
  oq_exchange :: exchange_name
  oq_account_id :: ident

record reservation_request =
  rq_exchange :: exchange_name
  rq_account_id :: ident
  rq_currency :: string

definition mk_reservation_request :: "reservation_request \<Rightarrow> reservation_request result" where
  "mk_reservation_request q = bindE (validate_currency (rq_currency q)) (\<lambda>c. Inr (q\<lparr>rq_currency := c\<rparr>))"

record evaluation_result =
  er_decision :: risk_decision
  er_approved_order :: "approved_order option"
  er_capital_reservation :: "capital_reservation option"
  er_breaches :: "risk_breach list"

definition order_matches_decision :: "approved_order \<Rightarrow> risk_decision \<Rightarrow> (bool \<times> py_error) list" where
  "order_matches_decision a d =
     [(ao_risk_decision_id a \<noteq> de_risk_decision_id d, Exc ''ValueError'' ''approved order risk_decision_id must match decision''),
      (ao_intent_id a \<noteq> de_intent_id d, Exc ''ValueError'' ''approved order intent_id must match decision''),
      (ao_correlation_id a \<noteq> de_correlation_id d, Exc ''ValueError'' ''approved order correlation_id must match decision'')]"

definition mk_evaluation_result :: "evaluation_result \<Rightarrow> evaluation_result result" where
  "mk_evaluation_result r =
     bindE (guards
       ([(\<not> list_all (\<lambda>b. br_correlation_id b = de_correlation_id (er_decision r)) (er_breaches r),
            Exc ''ValueError'' ''risk evaluation breach correlation_id must match decision'')] @
        (if de_status (er_decision r) \<noteq> RD_APPROVED then
           [(er_approved_order r \<noteq> None, Exc ''ValueError'' ''non-approved risk decisions cannot include an approved order''),
            (er_capital_reservation r \<noteq> None,
               Exc ''ValueError'' ''non-approved risk decisions cannot include a capital reservation'')]
         else
           (case er_approved_order r of None \<Rightarrow> [] | Some a \<Rightarrow> order_matches_decision a (er_decision r)) @
           (case er_capital_reservation r of None \<Rightarrow> [] | Some v \<Rightarrow>
              [(cv_intent_id v \<noteq> de_intent_id (er_decision r),
                  Exc ''ValueError'' ''capital reservation intent_id must match decision'')])))) (\<lambda>_. Inr r)"

section \<open>The unit of work\<close>

record 's risk_stores =
  uw_add_input_snapshot :: "risk_input_snapshot \<Rightarrow> 's \<Rightarrow> 's result"
  uw_add_decision :: "risk_decision \<Rightarrow> 's \<Rightarrow> 's result"
  uw_add_breach :: "risk_breach \<Rightarrow> 's \<Rightarrow> 's result"
  uw_add_reservation :: "capital_reservation \<Rightarrow> 's \<Rightarrow> 's result"
  uw_commit :: "'s \<Rightarrow> unit result"

text \<open>\<^verbatim>\<open>async with unit_of_work\<close>: without a commit the changes are rolled back.\<close>

definition unit_of_work :: "'s risk_stores \<Rightarrow> ('s \<Rightarrow> ('a \<times> 's) result) \<Rightarrow> 's \<Rightarrow> 'a result \<times> 's" where
  "unit_of_work stores body s =
     (case bindE (body s) (\<lambda>(x, s'). bindE (uw_commit stores s') (\<lambda>_. Inr (x, s'))) of
        Inl e \<Rightarrow> (Inl e, s)
      | Inr (x, s') \<Rightarrow> (Inr x, s'))"

record risk_service =
  sv_evaluate :: "order_intent \<Rightarrow> risk_context \<Rightarrow> string \<Rightarrow> risk_decision result"
  sv_references :: reference_generator
  sv_breach_factory :: "breach_factory option"
  sv_reservation_id :: reservation_id_generator

type_synonym 's before_commit = "'s \<Rightarrow> evaluation_result \<Rightarrow> 's result"

text \<open>The three optional steps of the transaction, each with the state it leaves.\<close>

definition reserve_step ::
  "'s risk_stores \<Rightarrow> risk_service \<Rightarrow> order_intent \<Rightarrow> risk_decision \<Rightarrow> reservation_request option \<Rightarrow> 's \<Rightarrow>
     (capital_reservation option \<times> 's) result" where
  "reserve_step stores sv i d reservation_request s =
     (case reservation_request of
        None \<Rightarrow> Inr (None, s)
      | Some q \<Rightarrow>
          if de_status d \<noteq> RD_APPROVED then Inr (None, s)
          else bindE (build_capital_reservation (sv_reservation_id sv) i d (rq_exchange q) (rq_account_id q) (rq_currency q)) (\<lambda>v.
            bindE (uw_add_reservation stores v s) (\<lambda>s'. Inr (Some v, s'))))"

definition order_step ::
  "risk_service \<Rightarrow> order_intent \<Rightarrow> risk_decision \<Rightarrow> order_request option \<Rightarrow> approved_order option result" where
  "order_step sv i d approved_order_request =
     (case approved_order_request of
        None \<Rightarrow> Inr None
      | Some q \<Rightarrow>
          if de_status d \<noteq> RD_APPROVED then Inr None
          else bindE (build_approved_order (sv_references sv) i d (exchange_value (oq_exchange q)) (oq_account_id q)) (\<lambda>a.
            Inr (Some a)))"

definition breach_step ::
  "'s risk_stores \<Rightarrow> risk_service \<Rightarrow> risk_decision \<Rightarrow> 's \<Rightarrow> (risk_breach list \<times> 's) result" where
  "breach_step stores sv d s =
     (case sv_breach_factory sv of
        None \<Rightarrow> Inr ([], s)
      | Some f \<Rightarrow>
          bindE (breaches_for_decision f d) (\<lambda>bs.
          bindE (foldE (\<lambda>s b. uw_add_breach stores b s) s bs) (\<lambda>s'. Inr (bs, s'))))"

definition evaluate_and_persist_result ::
  "'s risk_stores \<Rightarrow> risk_service \<Rightarrow> order_intent \<Rightarrow> risk_context \<Rightarrow> string \<Rightarrow> risk_input_snapshot option \<Rightarrow>
     order_request option \<Rightarrow> reservation_request option \<Rightarrow> 's before_commit option \<Rightarrow> 's \<Rightarrow>
     evaluation_result result \<times> 's" where
  "evaluate_and_persist_result stores sv i c snapshot_id input_snapshot order_req reservation_req before_commit s =
     (if pred_option (\<lambda>sn. sn_risk_input_snapshot_id sn = snapshot_id) input_snapshot then
        unit_of_work stores (\<lambda>s.
          bindE (sv_evaluate sv i c snapshot_id) (\<lambda>d.
          bindE (guards [(de_input_snapshot_id d \<noteq> snapshot_id,
            Exc ''ValueError'' ''risk decision input_snapshot_id must match requested snapshot'')]) (\<lambda>_.
          bindE (case input_snapshot of None \<Rightarrow> Inr s | Some sn \<Rightarrow> uw_add_input_snapshot stores sn s) (\<lambda>s1.
          bindE (uw_add_decision stores d s1) (\<lambda>s2.
          bindE (reserve_step stores sv i d reservation_req s2) (\<lambda>(reservation, s3).
          bindE (order_step sv i d order_req) (\<lambda>approved.
          bindE (breach_step stores sv d s3) (\<lambda>(breaches, s4).
          bindE (mk_evaluation_result
            \<lparr>er_decision = d, er_approved_order = approved, er_capital_reservation = reservation, er_breaches = breaches\<rparr>) (\<lambda>r.
          bindE (case before_commit of None \<Rightarrow> Inr s4 | Some hook \<Rightarrow> hook s4 r) (\<lambda>s5.
          Inr (r, s5))))))))))) s
      else (Inl (Exc ''ValueError'' ''risk input snapshot ID must match requested snapshot''), s))"

section \<open>The reservation table\<close>

definition DUPLICATE_RECORD :: py_error where
  "DUPLICATE_RECORD = Exc ''DuplicateRecordError'' ''database record already exists''"

definition reservation_to_row :: "(rat \<Rightarrow> rat result) \<Rightarrow> capital_reservation \<Rightarrow> capital_reservation result" where
  "reservation_to_row num v =
     bindE (num (cv_quantity v)) (\<lambda>q. bindE (num (cv_notional v)) (\<lambda>n. Inr (v\<lparr>cv_quantity := q, cv_notional := n\<rparr>)))"

text \<open>Both the primary key and the intent are unique (\<open>storage/models/risk.py\<close>).\<close>

definition reservation_add ::
  "(rat \<Rightarrow> rat result) \<Rightarrow> capital_reservation \<Rightarrow> capital_reservation list \<Rightarrow> capital_reservation list result" where
  "reservation_add num v rows =
     bindE (reservation_to_row num v) (\<lambda>row.
       if list_ex (\<lambda>w. cv_reservation_id w = cv_reservation_id row \<or> cv_intent_id w = cv_intent_id row) rows
       then Inl DUPLICATE_RECORD else Inr (rows @ [row]))"

definition reservation_get :: "string \<Rightarrow> capital_reservation list \<Rightarrow> capital_reservation option" where
  "reservation_get rid rows = find (\<lambda>w. cv_reservation_id w = rid) rows"

definition reservation_get_by_intent :: "ident \<Rightarrow> capital_reservation list \<Rightarrow> capital_reservation option" where
  "reservation_get_by_intent i rows = find (\<lambda>w. cv_intent_id w = i) rows"

definition reservation_active :: "instant \<Rightarrow> capital_reservation \<Rightarrow> bool" where
  "reservation_active as_of w \<longleftrightarrow> cv_status w = ACTIVE \<and> cv_released_at w = None \<and> as_of < cv_expires_at w"

record reservation_scope =
  vs_exchange :: "exchange_name option"
  vs_account_id :: "ident option"
  vs_strategy_id :: "ident option"
  vs_market_id :: "ident option"
  vs_currency :: "string option"

definition in_reservation_scope :: "reservation_scope \<Rightarrow> capital_reservation \<Rightarrow> bool" where
  "in_reservation_scope sc w \<longleftrightarrow>
     pred_option (\<lambda>x. cv_exchange w = x) (vs_exchange sc) \<and> pred_option (\<lambda>x. cv_account_id w = x) (vs_account_id sc) \<and>
     pred_option (\<lambda>x. cv_strategy_id w = x) (vs_strategy_id sc) \<and> pred_option (\<lambda>x. cv_market_id w = x) (vs_market_id sc) \<and>
     pred_option (\<lambda>x. cv_currency w = x) (vs_currency sc)"

text \<open>\<^verbatim>\<open>SELECT coalesce(sum(notional), 0)\<close>: the sum of a numeric column is exact.\<close>

definition active_notional_sum :: "instant \<Rightarrow> reservation_scope \<Rightarrow> capital_reservation list \<Rightarrow> rat" where
  "active_notional_sum as_of sc rows =
     sum_list (map cv_notional [w \<leftarrow> rows. reservation_active as_of w \<and> in_reservation_scope sc w])"

definition reservation_release :: "string \<Rightarrow> instant \<Rightarrow> capital_reservation list \<Rightarrow> capital_reservation list" where
  "reservation_release rid released_at rows =
     map (\<lambda>w. if cv_reservation_id w = rid \<and> cv_status w = ACTIVE \<and> cv_released_at w = None
              then w\<lparr>cv_status := RELEASED, cv_released_at := Some released_at\<rparr> else w) rows"

definition release_expired :: "instant \<Rightarrow> capital_reservation list \<Rightarrow> capital_reservation list" where
  "release_expired as_of rows =
     map (\<lambda>w. if cv_status w = ACTIVE \<and> cv_released_at w = None \<and> cv_expires_at w \<le> as_of
              then w\<lparr>cv_status := EXPIRED, cv_released_at := Some as_of\<rparr> else w) rows"

text \<open>The unit of work over the reservation table, beside any other tables.\<close>

definition reservation_stores ::
  "(rat \<Rightarrow> rat result) \<Rightarrow> (risk_input_snapshot \<Rightarrow> 'o \<Rightarrow> 'o result) \<Rightarrow> (risk_decision \<Rightarrow> 'o \<Rightarrow> 'o result) \<Rightarrow>
   (risk_breach \<Rightarrow> 'o \<Rightarrow> 'o result) \<Rightarrow> (capital_reservation list \<times> 'o \<Rightarrow> unit result) \<Rightarrow>
   (capital_reservation list \<times> 'o) risk_stores" where
  "reservation_stores num add_snapshot add_decision add_breach commit =
     \<lparr>uw_add_input_snapshot = (\<lambda>x (rows, s). bindE (add_snapshot x s) (\<lambda>s'. Inr (rows, s'))),
      uw_add_decision = (\<lambda>x (rows, s). bindE (add_decision x s) (\<lambda>s'. Inr (rows, s'))),
      uw_add_breach = (\<lambda>x (rows, s). bindE (add_breach x s) (\<lambda>s'. Inr (rows, s'))),
      uw_add_reservation = (\<lambda>v (rows, s). bindE (reservation_add num v rows) (\<lambda>rows'. Inr (rows', s))),
      uw_commit = commit\<rparr>"

text \<open>The same unit of work without the reservation table: what a transaction does to the other tables.\<close>

definition other_stores ::
  "(risk_input_snapshot \<Rightarrow> 'o \<Rightarrow> 'o result) \<Rightarrow> (risk_decision \<Rightarrow> 'o \<Rightarrow> 'o result) \<Rightarrow>
   (risk_breach \<Rightarrow> 'o \<Rightarrow> 'o result) \<Rightarrow> ('o \<Rightarrow> unit result) \<Rightarrow> 'o risk_stores" where
  "other_stores add_snapshot add_decision add_breach commit =
     \<lparr>uw_add_input_snapshot = add_snapshot, uw_add_decision = add_decision, uw_add_breach = add_breach,
      uw_add_reservation = (\<lambda>_ s. Inr s), uw_commit = commit\<rparr>"

text \<open>
  Hooks before the commit. The hook of the risk workflow stores the events of the evaluation and nothing else
  (\<open>src/pmrp/risk/workflow.py\<close>): it leaves the reservation table as it is. \<open>table_hook\<close> lifts a hook that neither
  reads nor writes the reservation table.
\<close>

definition hook_keeps :: "('s \<Rightarrow> capital_reservation list) \<Rightarrow> 's before_commit option \<Rightarrow> bool" where
  "hook_keeps rows hook \<longleftrightarrow> (\<forall>h s r s'. hook = Some h \<longrightarrow> h s r = Inr s' \<longrightarrow> rows s' = rows s)"

definition table_hook :: "'o before_commit \<Rightarrow> (capital_reservation list \<times> 'o) before_commit" where
  "table_hook h = (\<lambda>(rows, s) r. bindE (h s r) (\<lambda>s'. Inr (rows, s')))"

lemma hook_keeps_simps [simp]: "hook_keeps rows None" "hook_keeps fst (map_option table_hook h)"
  by (auto simp: hook_keeps_def table_hook_def bindE_eq_Inr)

lemma hook_keepsD:
  "hook_keeps rows hook \<Longrightarrow> (case hook of None \<Rightarrow> Inr s | Some h \<Rightarrow> h s r) = Inr s' \<Longrightarrow> rows s' = rows s"
  by (cases hook) (auto simp: hook_keeps_def)

section \<open>What a transaction does\<close>

lemma transaction_iff:
  "evaluate_and_persist_result stores sv i c sid sn oq rq hook s = (Inr r, s') \<longleftrightarrow>
     pred_option (\<lambda>x. sn_risk_input_snapshot_id x = sid) sn \<and> sv_evaluate sv i c sid = Inr (er_decision r) \<and>
     de_input_snapshot_id (er_decision r) = sid \<and> order_step sv i (er_decision r) oq = Inr (er_approved_order r) \<and>
     mk_evaluation_result r = Inr r \<and> uw_commit stores s' = Inr () \<and>
     (\<exists>s1 s2 s3 s4. (case sn of None \<Rightarrow> Inr s | Some x \<Rightarrow> uw_add_input_snapshot stores x s) = Inr s1 \<and>
        uw_add_decision stores (er_decision r) s1 = Inr s2 \<and>
        reserve_step stores sv i (er_decision r) rq s2 = Inr (er_capital_reservation r, s3) \<and>
        breach_step stores sv (er_decision r) s3 = Inr (er_breaches r, s4) \<and>
        (case hook of None \<Rightarrow> Inr s4 | Some h \<Rightarrow> h s4 r) = Inr s')"
    (is "?run \<longleftrightarrow> ?steps")
proof
  assume ?run
  then show ?steps
    by (auto simp: evaluate_and_persist_result_def unit_of_work_def bindE_eq_Inr mk_evaluation_result_def split: if_splits sum.splits)
next
  assume st: ?steps
  then obtain s1 s2 s3 s4 where
    "(case sn of None \<Rightarrow> Inr s | Some x \<Rightarrow> uw_add_input_snapshot stores x s) = Inr s1"
    "uw_add_decision stores (er_decision r) s1 = Inr s2"
    "reserve_step stores sv i (er_decision r) rq s2 = Inr (er_capital_reservation r, s3)"
    "breach_step stores sv (er_decision r) s3 = Inr (er_breaches r, s4)"
    "(case hook of None \<Rightarrow> Inr s4 | Some h \<Rightarrow> h s4 r) = Inr s'" by blast
  moreover have whole: "\<lparr>er_decision = er_decision r, er_approved_order = er_approved_order r,
      er_capital_reservation = er_capital_reservation r, er_breaches = er_breaches r\<rparr> = r" by (cases r) simp
  have "mk_evaluation_result \<lparr>er_decision = er_decision r, er_approved_order = er_approved_order r,
      er_capital_reservation = er_capital_reservation r, er_breaches = er_breaches r\<rparr> = Inr r"
    unfolding whole using st by blast
  ultimately show ?run
    using st by (simp add: evaluate_and_persist_result_def unit_of_work_def)
qed

text \<open>
  A transaction over the reservation table is the transaction over the other tables together with the new row:
  nothing it does reads the table, and only the row can be refused by it.
\<close>

lemma reserve_step_tables:
  "reserve_step (reservation_stores num sa da ba cm) sv i d rq (rows, s) = Inr (v, (rows', s')) \<longleftrightarrow>
     reserve_step (other_stores sa da ba cm') sv i d rq s = Inr (v, s') \<and>
     (case v of None \<Rightarrow> rows' = rows | Some w \<Rightarrow> reservation_add num w rows = Inr rows')"
  by (auto simp: reserve_step_def reservation_stores_def other_stores_def bindE_eq_Inr split: option.splits)

lemma breaches_tables:
  "foldE (\<lambda>s b. uw_add_breach (reservation_stores num sa da ba cm) b s) (rows, s) bs = Inr (rows', s') \<longleftrightarrow>
     rows' = rows \<and> foldE (\<lambda>s b. uw_add_breach (other_stores sa da ba cm') b s) s bs = Inr s'"
  by (induction bs arbitrary: s) (auto simp: reservation_stores_def other_stores_def bindE_eq_Inr)

lemma breach_step_tables:
  "breach_step (reservation_stores num sa da ba cm) sv d (rows, s) = Inr (bs, (rows', s')) \<longleftrightarrow>
     rows' = rows \<and> breach_step (other_stores sa da ba cm') sv d s = Inr (bs, s')"
  by (auto simp: breach_step_def bindE_eq_Inr breaches_tables [where cm' = cm'] split: option.splits)

lemma transaction_tables:
  "evaluate_and_persist_result (reservation_stores num sa da ba (cm \<circ> snd)) sv i c sid sn oq rq (map_option table_hook h) (rows, s) =
     (Inr r, (rows', s')) \<longleftrightarrow>
   evaluate_and_persist_result (other_stores sa da ba cm) sv i c sid sn oq rq h s = (Inr r, s') \<and>
     (case er_capital_reservation r of None \<Rightarrow> rows' = rows | Some w \<Rightarrow> reservation_add num w rows = Inr rows')"
proof -
  let ?S = "reservation_stores num sa da ba (cm \<circ> snd)" and ?O = "other_stores sa da ba cm"
  have add: "(case sn of None \<Rightarrow> Inr (rows, s) | Some x \<Rightarrow> uw_add_input_snapshot ?S x (rows, s)) = Inr (rs, s1) \<longleftrightarrow>
      rs = rows \<and> (case sn of None \<Rightarrow> Inr s | Some x \<Rightarrow> uw_add_input_snapshot ?O x s) = Inr s1" for rs s1
    by (auto simp: reservation_stores_def other_stores_def bindE_eq_Inr split: option.splits)
  have dec: "uw_add_decision ?S d (rs, s1) = Inr (rs', s2) \<longleftrightarrow> rs' = rs \<and> uw_add_decision ?O d s1 = Inr s2" for d rs s1 rs' s2
    by (auto simp: reservation_stores_def other_stores_def bindE_eq_Inr)
  have hook: "(case map_option table_hook h of None \<Rightarrow> Inr (rs, s4) | Some g \<Rightarrow> g (rs, s4) r) = Inr (rs', s5) \<longleftrightarrow>
      rs' = rs \<and> (case h of None \<Rightarrow> Inr s4 | Some g \<Rightarrow> g s4 r) = Inr s5" for rs s4 rs' s5
    by (auto simp: table_hook_def bindE_eq_Inr split: option.splits)
  have cm: "uw_commit ?S (rows', s') = uw_commit ?O s'" by (simp add: reservation_stores_def other_stores_def)
  show ?thesis
    unfolding transaction_iff cm split_paired_Ex add dec reserve_step_tables [where cm' = cm] breach_step_tables [where cm' = cm] hook
    by blast
qed

lemma transaction_cases:
  assumes "evaluate_and_persist_result stores sv i c sid sn oq rq hook s = (res, s')"
  obtains (raised) e where "res = Inl e" "s' = s"
  | (committed) r s1 s2 s3 s4 where "res = Inr r"
      "sv_evaluate sv i c sid = Inr (er_decision r)"
      "(case sn of None \<Rightarrow> Inr s | Some x \<Rightarrow> uw_add_input_snapshot stores x s) = Inr s1"
      "uw_add_decision stores (er_decision r) s1 = Inr s2"
      "reserve_step stores sv i (er_decision r) rq s2 = Inr (er_capital_reservation r, s3)"
      "order_step sv i (er_decision r) oq = Inr (er_approved_order r)"
      "breach_step stores sv (er_decision r) s3 = Inr (er_breaches r, s4)"
      "(case hook of None \<Rightarrow> Inr s4 | Some h \<Rightarrow> h s4 r) = Inr s'"
proof (cases res)
  case (Inl e)
  with assms have "s' = s"
    by (auto simp: evaluate_and_persist_result_def unit_of_work_def split: if_splits sum.splits)
  then show ?thesis using Inl raised by blast
next
  case (Inr r)
  note Eq = assms [unfolded evaluate_and_persist_result_def unit_of_work_def Inr]
  from Eq show ?thesis
    by (auto simp: bindE_eq_Inr mk_evaluation_result_def split: if_splits sum.splits intro: committed [OF Inr])
qed

text \<open>
  The contract of a unit of work with a reservation table: adding a reservation appends its row, the other
  operations leave the table alone.
\<close>

locale reservation_store =
  fixes stores :: "'s risk_stores" and rows :: "'s \<Rightarrow> capital_reservation list" and num :: "rat \<Rightarrow> rat result"
  assumes snapshot_keeps: "uw_add_input_snapshot stores x s = Inr s' \<Longrightarrow> rows s' = rows s"
    and decision_keeps: "uw_add_decision stores d s = Inr s' \<Longrightarrow> rows s' = rows s"
    and breach_keeps: "uw_add_breach stores b s = Inr s' \<Longrightarrow> rows s' = rows s"
    and reservation_appends: "uw_add_reservation stores v s = Inr s' \<Longrightarrow>
      \<exists>row. reservation_to_row num v = Inr row \<and> rows s' = rows s @ [row]"
begin

lemma breaches_keep: "foldE (\<lambda>s b. uw_add_breach stores b s) s bs = Inr s' \<Longrightarrow> rows s' = rows s"
  by (induction bs arbitrary: s) (auto simp: bindE_eq_Inr dest: breach_keeps)

lemma reserve_appends:
  assumes "reserve_step stores sv i d rq s = Inr (v, s')"
  shows "v = None \<and> rows s' = rows s \<or>
    (\<exists>w row q. v = Some w \<and> rq = Some q \<and> reservation_to_row num w = Inr row \<and> rows s' = rows s @ [row] \<and>
       build_capital_reservation (sv_reservation_id sv) i d (rq_exchange q) (rq_account_id q) (rq_currency q) = Inr w)"
  using assms
  by (auto simp: reserve_step_def bindE_eq_Inr dest!: reservation_appends split: option.splits if_splits)

lemma transaction_appends:
  assumes "evaluate_and_persist_result stores sv i c sid sn oq rq hook s = (res, s')" and hook: "hook_keeps rows hook"
  shows "rows s' = rows s \<or>
    (\<exists>r w row q. res = Inr r \<and> er_capital_reservation r = Some w \<and> rq = Some q \<and> reservation_to_row num w = Inr row \<and>
       rows s' = rows s @ [row] \<and> sv_evaluate sv i c sid = Inr (er_decision r) \<and>
       build_capital_reservation (sv_reservation_id sv) i (er_decision r) (rq_exchange q) (rq_account_id q) (rq_currency q) = Inr w)"
  using assms(1)
proof (cases rule: transaction_cases)
  case (committed r s1 s2 s3 s4)
  have "rows s1 = rows s" using committed(3) by (auto dest: snapshot_keeps split: option.splits)
  moreover have "rows s2 = rows s1" using committed(4) by (rule decision_keeps)
  moreover have "rows s4 = rows s3" using committed(7)
    by (auto simp: breach_step_def bindE_eq_Inr dest: breaches_keep split: option.splits)
  moreover have "rows s' = rows s4" by (rule hook_keepsD [OF hook committed(8)])
  ultimately show ?thesis using reserve_appends [OF committed(5)] committed(1,2) by auto
qed simp

end

interpretation reservation_tables: reservation_store "reservation_stores num sa da ba cm" fst num for num sa da ba cm
  by unfold_locales (auto simp: reservation_stores_def reservation_add_def bindE_eq_Inr split: if_splits)

section \<open>Reserved capital\<close>

text \<open>
  What is documented of a column \<^verbatim>\<open>Numeric(38, 18)\<close>: it holds values of eighteen fractional digits, keeps those
  of at most 38 digits as they are, and rounds monotonically.
\<close>

definition numeric_column :: "(rat \<Rightarrow> rat result) \<Rightarrow> bool" where
  "numeric_column num \<longleftrightarrow>
     (\<forall>x y. num x = Inr y \<longrightarrow> (\<exists>n. on_grid 18 n y)) \<and> (\<forall>x. on_grid 18 (10 ^ 37) x \<longrightarrow> num x = Inr x) \<and>
     (\<forall>x y x' y'. num x = Inr x' \<longrightarrow> num y = Inr y' \<longrightarrow> x \<le> y \<longrightarrow> x' \<le> y')"

definition account_scope :: "reservation_request \<Rightarrow> reservation_scope" where
  "account_scope q = \<lparr>vs_exchange = Some (rq_exchange q), vs_account_id = Some (rq_account_id q), vs_strategy_id = None,
     vs_market_id = None, vs_currency = Some (rq_currency q)\<rparr>"

definition rows_ok :: "capital_reservation list \<Rightarrow> bool" where
  "rows_ok rows \<longleftrightarrow> (\<forall>w \<in> set rows. 0 \<le> cv_notional w \<and> (\<exists>n. on_grid 18 n (cv_notional w)))"

lemma active_sum_Nil [simp]: "active_notional_sum t sc [] = 0"
  by (simp add: active_notional_sum_def)

lemma active_sum_Cons:
  "active_notional_sum t sc (w # ws) =
     (if reservation_active t w \<and> in_reservation_scope sc w then cv_notional w else 0) + active_notional_sum t sc ws"
  by (simp add: active_notional_sum_def)

lemma active_sum_append: "active_notional_sum t sc (xs @ ys) = active_notional_sum t sc xs + active_notional_sum t sc ys"
  by (simp add: active_notional_sum_def)

lemma rows_ok_simps [simp]:
  "rows_ok []" "rows_ok (w # ws) \<longleftrightarrow> 0 \<le> cv_notional w \<and> (\<exists>n. on_grid 18 n (cv_notional w)) \<and> rows_ok ws"
  "rows_ok (xs @ ys) \<longleftrightarrow> rows_ok xs \<and> rows_ok ys"
  by (auto simp: rows_ok_def)

lemma active_sum_grid: "rows_ok rows \<Longrightarrow> 0 \<le> active_notional_sum t sc rows \<and> (\<exists>n. on_grid 18 n (active_notional_sum t sc rows))"
proof (induction rows)
  case Nil
  then show ?case using on_grid_zero by auto
next
  case (Cons w ws)
  then show ?case by (auto simp: active_sum_Cons intro: on_grid_add)
qed

text \<open>Ending reservations and the passing of time only lower the sum.\<close>

lemma active_sum_update:
  assumes "rows_ok rows"
    and "\<And>w. cv_notional (f w) = cv_notional w"
    and "\<And>w. reservation_active t' (f w) \<and> in_reservation_scope sc (f w) \<Longrightarrow> reservation_active t w \<and> in_reservation_scope sc w"
  shows "active_notional_sum t' sc (map f rows) \<le> active_notional_sum t sc rows" and "rows_ok (map f rows)"
proof -
  show "active_notional_sum t' sc (map f rows) \<le> active_notional_sum t sc rows"
    using assms(1)
  proof (induction rows)
    case (Cons w ws)
    then show ?case using assms(3) [of w] by (auto simp: active_sum_Cons assms(2))
  qed simp
  show "rows_ok (map f rows)" using assms(1) by (induction rows) (auto simp: assms(2))
qed

lemma release_lowers:
  assumes "rows_ok rows"
  shows "active_notional_sum t sc (reservation_release rid u rows) \<le> active_notional_sum t sc rows"
    and "rows_ok (reservation_release rid u rows)"
  unfolding reservation_release_def
  by (rule active_sum_update [OF assms]; auto simp: reservation_active_def in_reservation_scope_def split: if_splits)+

lemma expiry_lowers:
  assumes "rows_ok rows"
  shows "active_notional_sum t sc (release_expired u rows) \<le> active_notional_sum t sc rows" and "rows_ok (release_expired u rows)"
  unfolding release_expired_def
  by (rule active_sum_update [OF assms]; auto simp: reservation_active_def in_reservation_scope_def split: if_splits)+

lemma time_lowers: "rows_ok rows \<Longrightarrow> t \<le> t' \<Longrightarrow> active_notional_sum t' sc rows \<le> active_notional_sum t sc rows"
  using active_sum_update(1) [of rows id t' sc t] by (auto simp: reservation_active_def)

text \<open>Releasing what has expired changes no sum: an expired reservation no longer counts.\<close>

lemma release_expired_same: "u \<le> t \<Longrightarrow> active_notional_sum t sc (release_expired u rows) = active_notional_sum t sc rows"
  by (induction rows) (auto simp: release_expired_def active_sum_Cons reservation_active_def in_reservation_scope_def)

section \<open>Runs of the reservation table\<close>

text \<open>
  A run for one account, on the time, the account's balance, the reservation table and the other tables: evaluations whose
  context carries the balance and the reserved sum of the table as they are, evaluations for other accounts or without a
  reservation, releases, expiries, time, and changes of the balance (deposits, fills, withdrawals) to a value that still
  covers what is reserved. A transaction may run any hook before its commit that leaves the reservation table
  alone. \<open>q\<close> names the account.
\<close>

inductive reservation_step ::
  "(rat \<Rightarrow> rat result) \<Rightarrow> reservation_request \<Rightarrow> instant \<times> rat \<times> capital_reservation list \<times> 'o \<Rightarrow>
     instant \<times> rat \<times> capital_reservation list \<times> 'o \<Rightarrow> bool"
  for num q where
  step_evaluate: "sv_evaluate sv = engine_evaluate en \<Longrightarrow>
     rule_object ''RISK-017'' (available_balance_rule age) \<in> set (en_rules en) \<Longrightarrow> rc_evaluated_at c = now \<Longrightarrow>
     rc_available_balance c =
       Some \<lparr>ab_available_balance = A, ab_observed_at = obs, ab_reserved_balance = active_notional_sum now (account_scope q) rows\<rparr> \<Longrightarrow>
     hook_keeps fst hook \<Longrightarrow>
     evaluate_and_persist_result (reservation_stores num sa da ba cm) sv i c sid sn oq (Some q) hook (rows, s) = (res, (rows', s')) \<Longrightarrow>
     reservation_step num q (now, A, rows, s) (now, A, rows', s')"
| step_other: "rq \<noteq> Some q \<Longrightarrow> hook_keeps fst hook \<Longrightarrow>
     evaluate_and_persist_result (reservation_stores num sa da ba cm) sv i c sid sn oq rq hook (rows, s) = (res, (rows', s')) \<Longrightarrow>
     reservation_step num q (now, A, rows, s) (now, A, rows', s')"
| step_release: "reservation_step num q (now, A, rows, s) (now, A, reservation_release rid t rows, s)"
| step_expire: "reservation_step num q (now, A, rows, s) (now, A, release_expired t rows, s)"
| step_time: "now \<le> now' \<Longrightarrow> reservation_step num q (now, A, rows, s) (now', A, rows, s)"
| step_balance: "on_grid 18 (10 ^ 28) A' \<Longrightarrow> active_notional_sum now (account_scope q) rows \<le> A' \<Longrightarrow>
     reservation_step num q (now, A, rows, s) (now, A', rows, s)"

definition within_balance :: "reservation_request \<Rightarrow> instant \<times> rat \<times> capital_reservation list \<times> 'o \<Rightarrow> bool" where
  "within_balance q st \<longleftrightarrow>
     (case st of (now, A, rows, s) \<Rightarrow>
        on_grid 18 (10 ^ 28) A \<and> rows_ok rows \<and> active_notional_sum now (account_scope q) rows \<le> A)"

text \<open>The row of a reservation: the column rounds its notional, which keeps it below a bound with eighteen digits.\<close>

lemma reservation_row:
  assumes "numeric_column num" and "reservation_to_row num w = Inr row" and "0 \<le> cv_notional w"
  shows "0 \<le> cv_notional row" and "\<exists>n. on_grid 18 n (cv_notional row)"
    and "on_grid 18 (10 ^ 37) b \<Longrightarrow> cv_notional w \<le> b \<Longrightarrow> cv_notional row \<le> b"
    and "cv_exchange row = cv_exchange w" and "cv_account_id row = cv_account_id w" and "cv_currency row = cv_currency w"
proof -
  from assms(2) have n: "num (cv_notional w) = Inr (cv_notional row)"
    by (auto simp: reservation_to_row_def bindE_eq_Inr)
  have keep: "num x = Inr x" if "on_grid 18 (10 ^ 37) x" for x
    using assms(1) that unfolding numeric_column_def by blast
  have mono: "x' \<le> y'" if "num x = Inr x'" "num y = Inr y'" "x \<le> y" for x y x' y'
    using assms(1) that unfolding numeric_column_def by blast
  show "0 \<le> cv_notional row" by (rule mono [OF keep [OF on_grid_zero] n assms(3)])
  show "\<exists>n. on_grid 18 n (cv_notional row)" using assms(1) n unfolding numeric_column_def by blast
  show "on_grid 18 (10 ^ 37) b \<Longrightarrow> cv_notional w \<le> b \<Longrightarrow> cv_notional row \<le> b" by (rule mono [OF n keep])
  show "cv_exchange row = cv_exchange w" "cv_account_id row = cv_account_id w" "cv_currency row = cv_currency w"
    using assms(2) by (auto simp: reservation_to_row_def bindE_eq_Inr)
qed

lemma built_reservation:
  assumes "build_capital_reservation gen i d x a ccy = Inr w"
  shows "cv_exchange w = x" "cv_account_id w = a" "cv_currency w = ccy" "0 < cv_notional w"
    "\<exists>q p. de_approved_quantity d = Some q \<and> de_approved_limit_price d = Some p \<and> cv_notional w = dmul q p"
    "de_status d = RD_APPROVED"
  using assms by (auto simp: capital_reservation_built_iff dmul_pos_iff)

text \<open>An approval by the balance rule leaves the notional below what is left of the balance.\<close>

lemma approved_notional_fits:
  assumes "engine_evaluate en i c sid = Inr d" and "build_capital_reservation gen i d x a ccy = Inr w"
    and "rule_object ''RISK-017'' (available_balance_rule age) \<in> set (en_rules en)" and "rc_available_balance c = Some b"
  shows "cv_notional w \<le> dsub (ab_available_balance b) (ab_reserved_balance b)"
proof -
  have ap: "de_status d = RD_APPROVED" by (rule built_reservation(6) [OF assms(2)])
  obtain q p where qp: "de_approved_quantity d = Some q" "de_approved_limit_price d = Some p" "cv_notional w = dmul q p"
    using built_reservation(5) [OF assms(2)] by auto
  have "q = oi_quantity i" "oi_limit_price i = Some p"
    using approved_decision(2,3) [OF assms(1) ap] qp(1,2) by auto
  then show ?thesis
    using approved_passes [OF assms(1) ap assms(3)] assms(4) qp(3)
    by (simp add: available_balance_rule_passes effective_available_balance_def)
qed

text \<open>The row of a reservation counts for its account at the moment of the evaluation.\<close>

lemma counted_reservation:
  assumes "evaluate_and_persist_result stores sv i c sid sn oq (Some q) hook s = (Inr r, s')"
    and "sv_evaluate sv = engine_evaluate en" and "er_capital_reservation r = Some w" and "reservation_to_row num w = Inr row"
  shows "reservation_active (rc_evaluated_at c) row \<and> in_reservation_scope (account_scope q) row"
proof -
  from assms(1) have e: "engine_evaluate en i c sid = Inr (er_decision r)"
    and "build_capital_reservation (sv_reservation_id sv) i (er_decision r) (rq_exchange q) (rq_account_id q) (rq_currency q) = Inr w"
    using assms(2,3) unfolding transaction_iff by (auto simp: reserve_step_def bindE_eq_Inr split: if_splits)
  then show ?thesis
    using assms(4) approved_decision(5) [OF e]
    by (auto simp: capital_reservation_built_iff reservation_to_row_def bindE_eq_Inr reservation_active_def in_reservation_scope_def
        account_scope_def)
qed

lemma dsub_exact_18:
  assumes "on_grid 18 (10 ^ 28) A" and "on_grid 18 n R" and "0 \<le> R" and "R \<le> A"
  shows "dsub A R = A - R" and "on_grid 18 (10 ^ 37) (A - R)"
proof -
  have g: "on_grid 18 (10 ^ 28) (A - R)"
    using on_grid_smaller [OF on_grid_diff [OF assms(1,2)] assms(1)] assms(3,4) by simp
  then show "dsub A R = A - R"
    unfolding dsub_def by (intro d28.rnd_exact on_grid_fits [OF g]) simp
  show "on_grid 18 (10 ^ 37) (A - R)" by (rule on_grid_mono [OF g]) simp
qed

lemma evaluate_keeps_balance:
  assumes num: "numeric_column num" and inv: "within_balance q (now, A, rows, s)"
    and sv: "sv_evaluate sv = engine_evaluate en" "rule_object ''RISK-017'' (available_balance_rule age) \<in> set (en_rules en)"
    and c: "rc_available_balance c = Some \<lparr>ab_available_balance = A, ab_observed_at = obs,
      ab_reserved_balance = active_notional_sum now (account_scope q) rows\<rparr>"
    and hook: "hook_keeps fst hook"
    and run: "evaluate_and_persist_result (reservation_stores num sa da ba cm) sv i c sid sn oq (Some q) hook (rows, s) = (res, (rows', s'))"
  shows "within_balance q (now, A, rows', s')"
proof -
  let ?R = "active_notional_sum now (account_scope q) rows"
  have A: "on_grid 18 (10 ^ 28) A" using inv by (simp add: within_balance_def)
  from reservation_tables.transaction_appends [OF run hook] consider (same) "rows' = rows"
    | (new) d w row where "reservation_to_row num w = Inr row" "rows' = rows @ [row]" "engine_evaluate en i c sid = Inr d"
      "build_capital_reservation (sv_reservation_id sv) i d (rq_exchange q) (rq_account_id q) (rq_currency q) = Inr w"
    by (auto simp: sv(1))
  then show ?thesis
  proof cases
    case same
    then show ?thesis using inv by (simp add: within_balance_def)
  next
    case new
    have ok: "rows_ok rows" "?R \<le> A" using inv by (simp_all add: within_balance_def)
    obtain n where R: "0 \<le> ?R" "on_grid 18 n ?R" using active_sum_grid [OF ok(1)] by blast
    have "cv_notional w \<le> A - ?R"
      using approved_notional_fits [OF new(3,4) sv(2) c] dsub_exact_18(1) [OF A R(2,1) ok(2)] by simp
    moreover have w0: "0 \<le> cv_notional w" using built_reservation(4) [OF new(4)] by simp
    ultimately have "cv_notional row \<le> A - ?R"
      by (intro reservation_row(3) [OF num new(1)] dsub_exact_18(2) [OF A R(2,1) ok(2)])
    then show ?thesis
      using A ok reservation_row(1,2) [OF num new(1) w0]
      by (auto simp: within_balance_def new(2) active_sum_append active_sum_Cons)
  qed
qed

lemma other_keeps_balance:
  assumes num: "numeric_column num" and inv: "within_balance q (now, A, rows, s)" and rq: "rq \<noteq> Some q" and hook: "hook_keeps fst hook"
    and run: "evaluate_and_persist_result (reservation_stores num sa da ba cm) sv i c sid sn oq rq hook (rows, s) = (res, (rows', s'))"
  shows "within_balance q (now, A, rows', s')"
proof -
  from reservation_tables.transaction_appends [OF run hook] consider (same) "rows' = rows"
    | (new) q' w row d where "reservation_to_row num w = Inr row" "rows' = rows @ [row]" "rq = Some q'"
      "build_capital_reservation (sv_reservation_id sv) i d (rq_exchange q') (rq_account_id q') (rq_currency q') = Inr w"
    by auto
  then show ?thesis
  proof cases
    case same
    then show ?thesis using inv by (simp add: within_balance_def)
  next
    case new
    have "q' \<noteq> q" using rq new(3) by simp
    have w0: "0 \<le> cv_notional w" using built_reservation(4) [OF new(4)] by simp
    note row = reservation_row [OF num new(1) w0]
    have "\<not> in_reservation_scope (account_scope q) row"
      using \<open>q' \<noteq> q\<close> row(4,5,6) built_reservation(1,2,3) [OF new(4)]
      by (auto simp: in_reservation_scope_def account_scope_def)
    then show ?thesis
      using inv row(1,2) by (auto simp: within_balance_def new(2) active_sum_append active_sum_Cons)
  qed
qed

lemma step_keeps_balance:
  assumes "reservation_step num q st st'" and num: "numeric_column num" and "within_balance q st"
  shows "within_balance q st'"
  using assms(1,3)
proof (induction rule: reservation_step.induct)
  case step_evaluate
  show ?case by (rule evaluate_keeps_balance [OF num step_evaluate(7,1,2,4,5,6)])
next
  case step_other
  show ?case by (rule other_keeps_balance [OF num step_other(4,1,2,3)])
next
  case (step_release now A rows s rid t)
  then show ?case
    using release_lowers(1) [of rows now "account_scope q" rid t] release_lowers(2) [of rows rid t] by (auto simp: within_balance_def)
next
  case (step_expire now A rows s t)
  then show ?case using expiry_lowers(1) [of rows now "account_scope q" t] expiry_lowers(2) [of rows t] by (auto simp: within_balance_def)
next
  case (step_time now now' A rows s)
  then show ?case using time_lowers [where rows = rows and t = now and t' = now' and sc = "account_scope q"] by (auto simp: within_balance_def)
next
  case step_balance
  then show ?case by (auto simp: within_balance_def)
qed

text \<open>
  The engine approves an intent with limit price zero, but a reservation needs a positive notional: with a
  reservation requested no transaction ever returns such an approval.
\<close>

lemma zero_price_approval_raises:
  assumes "evaluate_and_persist_result stores sv i c sid sn oq (Some q) hook s = (Inr r, s')"
    and "sv_evaluate sv = engine_evaluate en" and "oi_limit_price i = Some 0"
  shows "de_status (er_decision r) \<noteq> RD_APPROVED"
proof
  assume ap: "de_status (er_decision r) = RD_APPROVED"
  from assms(1) show False
  proof (cases rule: transaction_cases)
    case (committed r' s1 s2 s3 s4)
    then have e: "engine_evaluate en i c sid = Inr (er_decision r)" and "r' = r" using assms(2) by simp_all
    from committed(5) ap \<open>r' = r\<close> obtain w where
      "build_capital_reservation (sv_reservation_id sv) i (er_decision r) (rq_exchange q) (rq_account_id q) (rq_currency q) = Inr w"
      by (auto simp: reserve_step_def bindE_eq_Inr)
    then show False using approved_decision(3) [OF e ap] assms(3) by (auto simp: capital_reservation_built_iff)
  qed simp
qed

section \<open>A sample account\<close>

definition balance_context :: "rat \<Rightarrow> rat \<Rightarrow> risk_context" where
  "balance_context A R = (sample_context no_kill_switch)\<lparr>rc_available_balance :=
     Some \<lparr>ab_available_balance = A, ab_observed_at = 3, ab_reserved_balance = R\<rparr>\<rparr>"

definition sample_request :: reservation_request where
  "sample_request = \<lparr>rq_exchange = KALSHI, rq_account_id = ''a'', rq_currency = ''USD''\<rparr>"

definition intent_named :: "ident \<Rightarrow> order_intent" where
  "intent_named x = sample_intent\<lparr>oi_intent_id := x\<rparr>"

definition sample_service :: risk_service where
  "sample_service = \<lparr>sv_evaluate = engine_evaluate sample_engine,
     sv_references = (\<lambda>_ _ _ _. Inr \<lparr>or_order_id = ''ord'', or_client_order_id = ''c'', or_idempotency_key = ''k''\<rparr>),
     sv_breach_factory = None, sv_reservation_id = (\<lambda>i _ _ _ _. ''r'' @ oi_intent_id i)\<rparr>"

definition round_18 :: "rat \<Rightarrow> rat" where
  "round_18 x = of_int \<lfloor>x * 10 ^ 18 + 1 / 2\<rfloor> / 10 ^ 18"

definition sample_column :: "rat \<Rightarrow> rat result" where
  "sample_column x = Inr (round_18 x)"

definition sample_stores :: "(capital_reservation list \<times> unit) risk_stores" where
  "sample_stores = reservation_stores sample_column (\<lambda>_ u. Inr u) (\<lambda>_ u. Inr u) (\<lambda>_ u. Inr u) (\<lambda>_. Inr ())"

definition sample_reservation :: "ident \<Rightarrow> capital_reservation" where
  "sample_reservation x = \<lparr>cv_reservation_id = ''r'' @ x, cv_intent_id = x, cv_strategy_id = ''s'', cv_exchange = KALSHI,
     cv_account_id = ''a'', cv_market_id = ''m'', cv_quantity = 10, cv_notional = 10, cv_currency = ''USD'', cv_status = ACTIVE,
     cv_created_at = 5, cv_expires_at = 65, cv_released_at = None\<rparr>"

lemma sample_column_law: "numeric_column sample_column"
proof -
  have grid: "\<exists>n. on_grid 18 n (round_18 x)" for x
    unfolding round_18_def
    by (rule exI [of _ "nat \<bar>\<lfloor>x * 10 ^ 18 + 1 / 2\<rfloor>\<bar>"], rule on_gridI [where k = "\<lfloor>x * 10 ^ 18 + 1 / 2\<rfloor>"]) simp_all
  have keep: "round_18 x = x" if g: "on_grid 18 n x" for x n
  proof -
    obtain k where x: "x = of_int k / 10 ^ 18" using g by (rule on_gridE)
    then have "x * 10 ^ 18 = of_int k" by simp
    moreover have "\<lfloor>of_int k + 1 / 2 :: rat\<rfloor> = k" by (simp add: floor_eq_iff)
    ultimately show ?thesis unfolding round_18_def by (simp only: x)
  qed
  have mono: "round_18 x \<le> round_18 y" if "x \<le> y" for x y
    unfolding round_18_def using that by (intro divide_right_mono of_int_le_iff [THEN iffD2] floor_mono) simp_all
  show ?thesis
    unfolding numeric_column_def sample_column_def
    using grid keep mono by auto
qed

lemma sample_numbers: "dmul 10 1 = 10" "dsub 10 0 = 10" "sample_column 10 = Inr 10"
proof -
  have g: "on_grid 0 10 (10 :: rat)" by (simp add: on_grid_def)
  then have f: "dec_fits 28 (10 :: rat)" by (rule on_grid_fits) simp
  show "dmul 10 1 = 10" "dsub 10 0 = 10" using d28.rnd_exact [OF f] by (simp_all add: dmul_def dsub_def)
  have "\<lfloor>10000000000000000000 + 1 / 2 :: rat\<rfloor> = 10000000000000000000" by (simp add: floor_eq_iff)
  then show "sample_column 10 = Inr 10" by (simp add: sample_column_def round_18_def)
qed

lemma sample_decision:
  "\<exists>d. engine_evaluate sample_engine (intent_named x) (balance_context 10 0) ''s'' = Inr d \<and> de_status d = RD_APPROVED"
proof -
  let ?i = "intent_named x" and ?c = "balance_context 10 0"
  have "passes (available_balance_rule 10 ?i ?c)"
    by (simp add: available_balance_rule_passes intent_named_def balance_context_def sample_intent_def sample_context_def
        fresh_def effective_available_balance_def sample_numbers)
  moreover have "passes (kill_switch_clear_rule 10 ?i ?c)"
    by (simp add: kill_switch_clear_rule_passes balance_context_def sample_context_def fresh_def)
  ultimately have "approves sample_engine ?i ?c"
    by (simp add: approves_def sample_engine_def sample_rules_def rule_passes_for_def balance_rule.object_passes
        kill_switch_rule.object_passes) (simp add: intent_named_def sample_intent_def)
  moreover have "intent_valid ?i"
    by (simp add: intent_valid_iff intent_named_def sample_intent_def text_in_def)
  ultimately show ?thesis
    using decision_returned [OF sample_engine_facts(3), of ?i "''s''" ?c]
    by (simp add: text_in_def expiry_of_def sample_engine_def last_datetime_def balance_context_def sample_context_def)
qed

lemma engine_snapshot_id: "engine_evaluate en i c sid = Inr d \<Longrightarrow> de_input_snapshot_id d = sid"
  by (auto simp: engine_evaluate_def bindE_eq_Inr mk_risk_decision_def)

text \<open>With the whole balance free in the context, an order of ten at one is approved and reserved.\<close>

lemma sample_reserves:
  assumes "list_all (\<lambda>w. cv_intent_id w \<noteq> x \<and> cv_reservation_id w \<noteq> ''r'' @ x) rows" and "length x \<le> 100"
  shows "\<exists>r. evaluate_and_persist_result sample_stores sample_service (intent_named x) (balance_context 10 0) ''s'' None None
    (Some sample_request) None (rows, ()) = (Inr r, (rows @ [sample_reservation x], ())) \<and>
    er_capital_reservation r = Some (sample_reservation x)"
proof -
  let ?i = "intent_named x" and ?c = "balance_context 10 0"
  obtain d where d: "engine_evaluate sample_engine ?i ?c ''s'' = Inr d" "de_status d = RD_APPROVED"
    using sample_decision by blast
  note ap = approved_decision [OF d]
  have dv: "de_approved_quantity d = Some 10" "de_approved_limit_price d = Some 1" "de_intent_id d = x"
      "de_evaluated_at d = 5" "de_approval_expires_at d = Some 65" "de_correlation_id d = oi_correlation_id ?i"
    using ap by (auto simp: intent_named_def sample_intent_def balance_context_def sample_context_def expiry_of_def sample_engine_def)
  have w: "build_capital_reservation (sv_reservation_id sample_service) ?i d KALSHI ''a'' ''USD'' = Inr (sample_reservation x)"
    unfolding capital_reservation_built_iff
    using d(2) dv assms(2)
    by (simp add: sample_service_def sample_reservation_def intent_named_def sample_intent_def sample_numbers text_in_def
        validate_currency_def is_upper_def)
  have sid: "de_input_snapshot_id d = ''s''" by (rule engine_snapshot_id [OF d(1)])
  have "\<not> list_ex (\<lambda>w. cv_reservation_id w = ''r'' @ x \<or> cv_intent_id w = x) rows"
    using assms(1) by (auto simp: list_all_iff list_ex_iff)
  then have add: "reservation_add sample_column (sample_reservation x) rows = Inr (rows @ [sample_reservation x])"
    by (simp add: reservation_add_def reservation_to_row_def sample_numbers sample_reservation_def)
  have sv: "sv_evaluate sample_service ?i ?c ''s'' = Inr d" "sv_breach_factory sample_service = None"
    using d(1) by (simp_all add: sample_service_def)
  have iid: "cv_intent_id (sample_reservation x) = x" by (simp add: sample_reservation_def)
  show ?thesis
    by (simp add: evaluate_and_persist_result_def unit_of_work_def sample_stores_def sample_request_def
        reserve_step_def order_step_def breach_step_def reservation_stores_def d(2) dv(3) sv sid w add iid
        mk_evaluation_result_def)
qed

section \<open>Properties\<close>

text \<open>
  C5: a transaction stores everything or nothing. If \<^verbatim>\<open>evaluate_and_persist_result\<close> with the risk engine raises, the
  reservation table and the other tables are what they were. If it returns, the decision is the engine's;
  an order and a reservation exist exactly when they were asked for and the decision is an approval; the order has the
  intent's quantity, price and side; the table gained the row of that reservation and nothing else, and the
  reservation covers the notional of the order until the approval expires. The transaction may run any hook before its
  commit that leaves the reservation table alone, as the one of the risk workflow does, or none.
\<close>

theorem service_transaction:
  assumes "evaluate_and_persist_result (reservation_stores num sa da ba cm) sv i c sid sn oq rq hook (rows, s) = (res, (rows', s'))"
    and "sv_evaluate sv = engine_evaluate en" and "hook_keeps fst hook"
  shows "case res of
      Inl e \<Rightarrow> rows' = rows \<and> s' = s
    | Inr r \<Rightarrow>
        engine_evaluate en i c sid = Inr (er_decision r) \<and>
        (er_capital_reservation r \<noteq> None \<longleftrightarrow> de_status (er_decision r) = RD_APPROVED \<and> rq \<noteq> None) \<and>
        (er_approved_order r \<noteq> None \<longleftrightarrow> de_status (er_decision r) = RD_APPROVED \<and> oq \<noteq> None) \<and>
        (\<forall>a. er_approved_order r = Some a \<longrightarrow> ao_quantity a = oi_quantity i \<and> ao_limit_price a = oi_limit_price i \<and>
           ao_side a = oi_side i \<and> ao_risk_decision_id a = de_risk_decision_id (er_decision r)) \<and>
        (case er_capital_reservation r of
           None \<Rightarrow> rows' = rows
         | Some w \<Rightarrow> \<exists>p. oi_limit_price i = Some p \<and> cv_notional w = dmul (oi_quantity i) p \<and> cv_status w = ACTIVE \<and>
             de_approval_expires_at (er_decision r) = Some (cv_expires_at w) \<and> reservation_add num w rows = Inr rows')"
  using assms(1)
proof (cases rule: transaction_cases)
  case (committed r s1 s2 s3 s4)
  have e: "engine_evaluate en i c sid = Inr (er_decision r)" using committed(2) assms(2) by simp
  let ?d = "er_decision r"
  have vals: "de_approved_quantity ?d = Some (oi_quantity i)" "de_approved_limit_price ?d = oi_limit_price i"
    if "de_status ?d = RD_APPROVED" using approved_decision(2,3) [OF e that] by auto
  have order: "er_approved_order r \<noteq> None \<longleftrightarrow> de_status ?d = RD_APPROVED \<and> oq \<noteq> None"
    using committed(6) by (cases "er_approved_order r") (auto simp: order_step_def bindE_eq_Inr split: option.splits if_splits)
  have fields: "ao_quantity a = oi_quantity i \<and> ao_limit_price a = oi_limit_price i \<and>
      ao_side a = oi_side i \<and> ao_risk_decision_id a = de_risk_decision_id ?d" if a: "er_approved_order r = Some a" for a
  proof -
    obtain x y where "build_approved_order (sv_references sv) i ?d x y = Inr a"
      using committed(6) a by (auto simp: order_step_def bindE_eq_Inr split: option.splits if_splits)
    from approved_order_fields [OF this] vals show ?thesis by auto
  qed
  have res: "er_capital_reservation r \<noteq> None \<longleftrightarrow> de_status ?d = RD_APPROVED \<and> rq \<noteq> None"
    using committed(5)
    by (cases "er_capital_reservation r") (auto simp: reserve_step_def bindE_eq_Inr split: option.splits if_splits)
  have s12: "fst s1 = rows" "fst s2 = fst s1"
    using committed(3) reservation_tables.decision_keeps [OF committed(4)]
    by (auto dest: reservation_tables.snapshot_keeps split: option.splits)
  have s34: "rows' = fst s3"
    using committed(7) hook_keepsD [OF assms(3) committed(8)]
    by (auto simp: breach_step_def bindE_eq_Inr dest: reservation_tables.breaches_keep split: option.splits)
  have table: "case er_capital_reservation r of None \<Rightarrow> rows' = rows
      | Some w \<Rightarrow> \<exists>p. oi_limit_price i = Some p \<and> cv_notional w = dmul (oi_quantity i) p \<and> cv_status w = ACTIVE \<and>
             de_approval_expires_at ?d = Some (cv_expires_at w) \<and> reservation_add num w rows = Inr rows'"
  proof (cases "er_capital_reservation r")
    case None
    then show ?thesis using committed(5) s12 s34
      by (auto simp: reserve_step_def bindE_eq_Inr split: option.splits if_splits)
  next
    case (Some w)
    obtain x y z where w: "build_capital_reservation (sv_reservation_id sv) i ?d x y z = Inr w"
        and add: "uw_add_reservation (reservation_stores num sa da ba cm) w s2 = Inr s3"
      using committed(5) Some by (auto simp: reserve_step_def bindE_eq_Inr split: option.splits if_splits)
    have "reservation_add num w rows = Inr rows'"
      using add s12 s34 by (cases s2) (auto simp: reservation_stores_def bindE_eq_Inr)
    then show ?thesis using w vals Some by (auto simp: capital_reservation_built_iff)
  qed
  show ?thesis unfolding committed(1) sum.case using e res order fields table by blast
qed simp

text \<open>
  C4: reserved capital never exceeds the balance, in fixed point. Take an account whose balance always has at most eighteen
  fractional digits and is at most \<open>10 ^ 10\<close>, and a notional column that keeps eighteen fractional digits and rounds
  monotonically. Along every run from the empty table in which each evaluation for the account sees its current
  balance and the sum currently reserved for it, with an engine that has the balance rule and with hooks that leave the
  reservation table alone, and in which reservations are also released, expire and are made for other accounts, time passes and
  the balance changes to values that still cover what is reserved, the active notional of the account stays within
  the balance of the moment. (Beyond that size the subtraction in 28 digits can round up what is left.)
\<close>

theorem reservations_never_overspend:
  assumes "(reservation_step num q)\<^sup>*\<^sup>* (t0, A0, [], s0) (t, A, rows, s)" and "numeric_column num" and "on_grid 18 (10 ^ 28) A0" and "0 \<le> A0"
  shows "active_notional_sum t (account_scope q) rows \<le> A"
proof -
  have "within_balance q (t0, A0, [], s0)" using assms(3,4) by (simp add: within_balance_def)
  with assms(1) have "within_balance q (t, A, rows, s)"
    by (induction rule: rtranclp_induct) (auto intro: step_keeps_balance [OF _ assms(2)])
  then show ?thesis by (simp add: within_balance_def)
qed

theorem service_transaction_witness:
  "\<exists>r rows'. evaluate_and_persist_result sample_stores sample_service (intent_named ''i'') (balance_context 10 0) ''s'' None None
      (Some sample_request) None ([], ()) = (Inr r, (rows', ())) \<and> er_approved_order r = None \<and>
    (\<exists>w. er_capital_reservation r = Some w \<and> cv_notional w = dmul 10 1)"
proof -
  obtain r where r: "evaluate_and_persist_result sample_stores sample_service (intent_named ''i'') (balance_context 10 0) ''s'' None None
      (Some sample_request) None ([], ()) = (Inr r, ([] @ [sample_reservation ''i''], ()))"
    using sample_reserves [of "''i''" "[]"] by auto
  have sv: "sv_evaluate sample_service = engine_evaluate sample_engine" by (simp add: sample_service_def)
  obtain d where d: "engine_evaluate sample_engine (intent_named ''i'') (balance_context 10 0) ''s'' = Inr d" "de_status d = RD_APPROVED"
    using sample_decision by blast
  from service_transaction [OF r [unfolded sample_stores_def] sv] d
  have "er_capital_reservation r \<noteq> None" "er_approved_order r = None"
    "\<forall>w. er_capital_reservation r = Some w \<longrightarrow> cv_notional w = dmul 10 1"
    by (auto simp: intent_named_def sample_intent_def)
  then show ?thesis using r by auto
qed

theorem reservations_never_overspend_witness:
  "(reservation_step sample_column sample_request)\<^sup>*\<^sup>* (5, 15, [], ()) (5, 10, [sample_reservation ''i''], ()) \<and>
   active_notional_sum 5 (account_scope sample_request) [sample_reservation ''i''] \<le> 10"
proof -
  have grid: "on_grid 18 (10 ^ 28) 10" by (rule on_gridI [where k = "10 ^ 19"]) simp_all
  have grid': "on_grid 18 (10 ^ 28) 15" by (rule on_gridI [where k = "15 * 10 ^ 18"]) simp_all
  obtain r where r: "evaluate_and_persist_result sample_stores sample_service (intent_named ''i'') (balance_context 10 0) ''s'' None None
      (Some sample_request) None ([], ()) = (Inr r, ([] @ [sample_reservation ''i''], ()))"
    using sample_reserves [of "''i''" "[]"] by auto
  have "reservation_step sample_column sample_request (5, 15, [], ()) (5, 10, [], ())"
    by (rule step_balance [OF grid]) simp
  then have "(reservation_step sample_column sample_request)\<^sup>*\<^sup>* (5, 15, [], ()) (5, 10, [], ())" ..
  also have "reservation_step sample_column sample_request (5, 10, [], ()) (5, 10, [] @ [sample_reservation ''i''], ())"
    by (rule step_evaluate [OF _ _ _ _ _ r [unfolded sample_stores_def], where en = sample_engine and age = 10 and obs = 3])
      (simp_all add: sample_service_def sample_engine_def sample_rules_def balance_context_def sample_context_def)
  finally have run: "(reservation_step sample_column sample_request)\<^sup>*\<^sup>* (5, 15, [], ()) (5, 10, [sample_reservation ''i''], ())" by simp
  from reservations_never_overspend [OF run sample_column_law grid'] run show ?thesis by simp
qed

text \<open>
  C36: the reserved sum in the context must be current. Take two transactions of the service for one account, evaluated at
  the same time on contexts that were both taken from the same table, each of which would reserve capital on that table. Unless
  their intents or reservation identifiers coincide, the second one run after the first returns the very same result,
  although its context no longer describes the table, and the reserved sum of the account grows by both notionals: the
  transaction never reads the table again, so the reservations exceed every balance that does not cover both. (The hooks before the
  commit neither read nor write the reservation table, and the commit does not depend on it.)
\<close>

theorem concurrent_contexts_overspend:
  assumes stores: "stores = reservation_stores num sa da ba (cm \<circ> snd)"
    and first: "evaluate_and_persist_result stores sv i c sid sn oq (Some q) (map_option table_hook h) (rows, s) = (Inr r1, (rows1, s1))"
    and second: "evaluate_and_persist_result stores sv j c' sid' sn' oq' (Some q) (map_option table_hook h') (rows, s1) = (Inr r2, (rows2, s2))"
    and engine: "sv_evaluate sv = engine_evaluate en"
    and reserved: "er_capital_reservation r1 = Some w1" "er_capital_reservation r2 = Some w2"
    and distinct: "cv_reservation_id w1 \<noteq> cv_reservation_id w2" "cv_intent_id w1 \<noteq> cv_intent_id w2"
    and time: "rc_evaluated_at c = now" "rc_evaluated_at c' = now"
  shows "\<exists>n1 n2 rows'. num (cv_notional w1) = Inr n1 \<and> num (cv_notional w2) = Inr n2 \<and>
    evaluate_and_persist_result stores sv j c' sid' sn' oq' (Some q) (map_option table_hook h') (rows1, s1) = (Inr r2, (rows', s2)) \<and>
    active_notional_sum now (account_scope q) rows' = active_notional_sum now (account_scope q) rows + n1 + n2"
proof -
  have add1: "reservation_add num w1 rows = Inr rows1" and add2: "reservation_add num w2 rows = Inr rows2"
    using first second reserved unfolding stores transaction_tables by simp_all
  obtain row1 where row1: "reservation_to_row num w1 = Inr row1" "rows1 = rows @ [row1]"
    using add1 by (auto simp: reservation_add_def bindE_eq_Inr split: if_splits)
  obtain row2 where row2: "reservation_to_row num w2 = Inr row2" "rows2 = rows @ [row2]"
    using add2 by (auto simp: reservation_add_def bindE_eq_Inr split: if_splits)
  have again: "reservation_add num w2 rows1 = Inr (rows1 @ [row2])"
    using add2 row1 row2(1) distinct
    by (auto simp: reservation_add_def reservation_to_row_def bindE_eq_Inr split: if_splits)
  have counts: "reservation_active now row1 \<and> in_reservation_scope (account_scope q) row1"
      "reservation_active now row2 \<and> in_reservation_scope (account_scope q) row2"
    using counted_reservation [OF first [unfolded stores] engine reserved(1) row1(1)]
      counted_reservation [OF second [unfolded stores] engine reserved(2) row2(1)] time by simp_all
  show ?thesis
  proof (intro exI conjI)
    show "num (cv_notional w1) = Inr (cv_notional row1)" "num (cv_notional w2) = Inr (cv_notional row2)"
      using row1(1) row2(1) by (auto simp: reservation_to_row_def bindE_eq_Inr)
    show "evaluate_and_persist_result stores sv j c' sid' sn' oq' (Some q) (map_option table_hook h') (rows1, s1) =
        (Inr r2, (rows1 @ [row2], s2))"
      using second reserved(2) again unfolding stores transaction_tables by simp
    show "active_notional_sum now (account_scope q) (rows1 @ [row2]) =
        active_notional_sum now (account_scope q) rows + cv_notional row1 + cv_notional row2"
      using counts by (simp add: row1(2) active_sum_append active_sum_Cons)
  qed
qed

theorem concurrent_contexts_overspend_witness:
  "\<exists>r1 r2 rows1 rows2. sv_evaluate sample_service = engine_evaluate sample_engine \<and>
     rule_object ''RISK-017'' (available_balance_rule 10) \<in> set (en_rules sample_engine) \<and>
     rc_available_balance (balance_context 10 0) = Some \<lparr>ab_available_balance = 10, ab_observed_at = 3,
       ab_reserved_balance = active_notional_sum 5 (account_scope sample_request) []\<rparr> \<and>
     evaluate_and_persist_result sample_stores sample_service (intent_named ''i'') (balance_context 10 0) ''s'' None None
       (Some sample_request) None ([], ()) = (Inr r1, (rows1, ())) \<and>
     evaluate_and_persist_result sample_stores sample_service (intent_named ''j'') (balance_context 10 0) ''s'' None None
       (Some sample_request) None (rows1, ()) = (Inr r2, (rows2, ())) \<and>
     10 < active_notional_sum 5 (account_scope sample_request) rows2"
proof -
  obtain r1 r2 where r: "evaluate_and_persist_result sample_stores sample_service (intent_named ''i'') (balance_context 10 0) ''s'' None None
      (Some sample_request) None ([], ()) = (Inr r1, ([sample_reservation ''i''], ()))"
    "evaluate_and_persist_result sample_stores sample_service (intent_named ''j'') (balance_context 10 0) ''s'' None None
      (Some sample_request) None ([], ()) = (Inr r2, ([sample_reservation ''j''], ()))"
    and res: "er_capital_reservation r1 = Some (sample_reservation ''i'')" "er_capital_reservation r2 = Some (sample_reservation ''j'')"
    using sample_reserves [of "''i''" "[]"] sample_reserves [of "''j''" "[]"] by auto
  have sv: "sv_evaluate sample_service = engine_evaluate sample_engine" by (simp add: sample_service_def)
  have st: "sample_stores = reservation_stores sample_column (\<lambda>_ u. Inr u) (\<lambda>_ u. Inr u) (\<lambda>_ u. Inr u) ((\<lambda>_. Inr ()) \<circ> snd)"
    by (simp add: sample_stores_def comp_def)
  have now: "rc_evaluated_at (balance_context 10 0) = 5" by (simp add: balance_context_def sample_context_def)
  have "\<exists>rows2. evaluate_and_persist_result sample_stores sample_service (intent_named ''j'') (balance_context 10 0) ''s'' None None
      (Some sample_request) None ([sample_reservation ''i''], ()) = (Inr r2, (rows2, ())) \<and>
    active_notional_sum 5 (account_scope sample_request) rows2 = 20"
    using concurrent_contexts_overspend [where h = None and h' = None, simplified, OF st r sv res _ _ now now]
    by (auto simp: sample_reservation_def sample_numbers)
  then show ?thesis
    using r(1) sv by (auto simp: sample_engine_def sample_rules_def balance_context_def sample_context_def)
qed

end
