(* ===== verification/Event_Bus.thy ===== *)
theory Event_Bus
  imports Prelude "HOL-Library.Product_Lexorder" "HOL-Library.List_Lexorder" "HOL-Library.Char_ord"
begin

text \<open>
  \<open>src/pmrp/bus\<close>: the in-process event bus (\<open>in_process.py\<close>) and its bounded FIFO subscriptions (\<open>subscription.py\<close>).

  Subscription objects live in a heap, a list indexed by their identity, because a consumer keeps its object
  after the bus has dropped it from the dictionary of consumer names. The body of \<^verbatim>\<open>publish\<close> runs under a lock and
  never suspends, and neither do \<^verbatim>\<open>subscribe\<close> and \<^verbatim>\<open>close\<close> of a subscription, so each is one atomic
  operation on the state. An event is its classes (those \<^verbatim>\<open>isinstance\<close> accepts, by module and
  qualified name), its \<^verbatim>\<open>market_id\<close> attribute if it has one, and a payload.
\<close>

section \<open>State\<close>

type_synonym class_name = "string \<times> string"

record 'p bus_event =
  be_classes :: "class_name list"
  be_market_id :: "string option"
  be_payload :: 'p

datatype 'p queue_item = Item "'p bus_event" | Closed_mark

record 'p subscription =
  su_event_type :: class_name
  su_consumer_name :: string
  su_partition_key :: "string option"
  su_queue_size :: int
  su_queue :: "'p queue_item list"
  su_pending_events :: int
  su_closed :: bool

record 'p event_bus =
  bu_default_queue_size :: int
  bu_deterministic :: bool
  bu_heap :: "'p subscription list"
  bu_subscriptions :: "(string \<times> nat) list"
  bu_closed :: bool
  bu_published_events :: nat
  bu_delivered_events :: nat
  bu_backpressure_events :: nat
  bu_last_delivery_order :: "string list"

definition mk_event_bus :: "int \<Rightarrow> bool \<Rightarrow> rat \<Rightarrow> 'p event_bus result" where
  "mk_event_bus default_queue_size deterministic shutdown_timeout_seconds =
     bindE (guards
       [(default_queue_size < 1, Exc ''ValueError'' ''default_queue_size must be positive''),
        (shutdown_timeout_seconds < 0, Exc ''ValueError'' ''shutdown_timeout_seconds must not be negative'')]) (\<lambda>_.
     Inr \<lparr>bu_default_queue_size = default_queue_size, bu_deterministic = deterministic, bu_heap = [], bu_subscriptions = [],
          bu_closed = False, bu_published_events = 0, bu_delivered_events = 0, bu_backpressure_events = 0,
          bu_last_delivery_order = []\<rparr>)"

section \<open>Subscriptions\<close>

definition BUS_CLOSED :: py_error where "BUS_CLOSED = Exc ''EventBusClosedError'' ''event bus is closed''"
definition BACKPRESSURE :: py_error where "BACKPRESSURE = Exc ''EventBusBackpressureError'' ''event bus subscriber queue is full''"

definition mk_subscription :: "class_name \<Rightarrow> string \<Rightarrow> string option \<Rightarrow> int \<Rightarrow> 'p subscription result" where
  "mk_subscription event_type consumer_name partition_key queue_size =
     (if queue_size < 1 then Inl (Exc ''InvalidQueueSizeError'' ''queue_size must be positive'')
      else Inr \<lparr>su_event_type = event_type, su_consumer_name = consumer_name, su_partition_key = partition_key,
        su_queue_size = queue_size, su_queue = [], su_pending_events = 0, su_closed = False\<rparr>)"

definition sub_full :: "'p subscription \<Rightarrow> bool" where
  "sub_full u \<longleftrightarrow> su_queue_size u \<le> su_pending_events u"

text \<open>The queue itself holds one item more than the limit, for the closing mark.\<close>

definition publish_nowait :: "'p bus_event \<Rightarrow> 'p subscription \<Rightarrow> 'p subscription result" where
  "publish_nowait e u =
     (if su_closed u then Inl (Exc ''EventBusClosedError'' ''event subscription is closed'')
      else if sub_full u then Inl BACKPRESSURE
      else if su_queue_size u + 1 \<le> int (length (su_queue u)) then Inl BACKPRESSURE
      else Inr (u\<lparr>su_queue := su_queue u @ [Item e], su_pending_events := su_pending_events u + 1\<rparr>))"

text \<open>\<^verbatim>\<open>__anext__\<close>: waits on an empty queue, takes an event, or ends the iteration at the closing mark.\<close>

datatype 'p next_outcome = Waits | Takes "'p bus_event" | Ends

definition sub_next :: "'p subscription \<Rightarrow> 'p next_outcome \<times> 'p subscription" where
  "sub_next u =
     (case su_queue u of
        [] \<Rightarrow> (Waits, u)
      | Closed_mark # q \<Rightarrow> (Ends, u\<lparr>su_queue := q\<rparr>)
      | Item e # q \<Rightarrow> (Takes e, u\<lparr>su_queue := q, su_pending_events := su_pending_events u - 1\<rparr>))"

text \<open>\<^verbatim>\<open>close\<close> up to its callback: the flag is set before the mark is put.\<close>

definition sub_mark_closed :: "'p subscription \<Rightarrow> unit result \<times> 'p subscription" where
  "sub_mark_closed u =
     (let u' = u\<lparr>su_closed := True\<rparr> in
      if su_queue_size u + 1 \<le> int (length (su_queue u)) then (Inl (Exc ''QueueFull'' []), u')
      else (Inr (), u'\<lparr>su_queue := su_queue u @ [Closed_mark]\<rparr>))"

section \<open>Operations of the bus\<close>

definition upd_sub :: "nat \<Rightarrow> 'p subscription \<Rightarrow> 'p event_bus \<Rightarrow> 'p event_bus" where
  "upd_sub k u b = b\<lparr>bu_heap := (bu_heap b)[k := u]\<rparr>"

definition subscribe ::
  "class_name \<Rightarrow> string \<Rightarrow> string option \<Rightarrow> int option \<Rightarrow> 'p event_bus \<Rightarrow> (nat \<times> 'p event_bus) result" where
  "subscribe event_type consumer_name partition_key queue_size b =
     bindE (guards
       [(bu_closed b, BUS_CLOSED),
        (blank_or_padded consumer_name, Exc ''ValueError'' ''consumer_name must be nonempty without surrounding whitespace''),
        (consumer_name \<in> fst ` set (bu_subscriptions b), Exc ''DuplicateConsumerError'' consumer_name)]) (\<lambda>_.
     bindE (mk_subscription event_type consumer_name partition_key
       (case queue_size of None \<Rightarrow> bu_default_queue_size b | Some n \<Rightarrow> n)) (\<lambda>u.
     Inr (length (bu_heap b),
          b\<lparr>bu_heap := bu_heap b @ [u],
            bu_subscriptions := dict_set consumer_name (length (bu_heap b)) (bu_subscriptions b)\<rparr>)))"

definition event_partition_key :: "'p bus_event \<Rightarrow> string option \<Rightarrow> string option" where
  "event_partition_key e explicit = (case explicit of Some k \<Rightarrow> Some k | None \<Rightarrow> be_market_id e)"

definition order_key :: "'p subscription \<Rightarrow> string \<times> string \<times> string \<times> string" where
  "order_key u = (su_consumer_name u, fst (su_event_type u), snd (su_event_type u),
     (case su_partition_key u of None \<Rightarrow> [] | Some k \<Rightarrow> k))"

definition ordered_subscriptions :: "'p event_bus \<Rightarrow> nat list" where
  "ordered_subscriptions b =
     (let ks = map snd (bu_subscriptions b) in
      if bu_deterministic b then sort_key (\<lambda>k. order_key (bu_heap b ! k)) ks else ks)"

definition sub_matches :: "'p subscription \<Rightarrow> 'p bus_event \<Rightarrow> string option \<Rightarrow> bool" where
  "sub_matches u e partition_key \<longleftrightarrow> \<not> su_closed u \<and> su_event_type u \<in> set (be_classes e) \<and>
     (su_partition_key u = None \<or> su_partition_key u = partition_key)"

definition matching_subscriptions :: "'p bus_event \<Rightarrow> string option \<Rightarrow> 'p event_bus \<Rightarrow> nat list" where
  "matching_subscriptions e partition_key b =
     [k \<leftarrow> ordered_subscriptions b. sub_matches (bu_heap b ! k) e partition_key]"

fun deliver :: "'p bus_event \<Rightarrow> nat list \<Rightarrow> 'p subscription list \<Rightarrow> unit result \<times> 'p subscription list" where
  "deliver e [] h = (Inr (), h)"
| "deliver e (k # ks) h =
     (case publish_nowait e (h ! k) of Inl err \<Rightarrow> (Inl err, h) | Inr u \<Rightarrow> deliver e ks (h[k := u]))"

definition publish :: "'p bus_event \<Rightarrow> string option \<Rightarrow> 'p event_bus \<Rightarrow> unit result \<times> 'p event_bus" where
  "publish e explicit b =
     (if bu_closed b then (Inl BUS_CLOSED, b)
      else
        let ks = matching_subscriptions e (event_partition_key e explicit) b in
        if list_ex (\<lambda>k. sub_full (bu_heap b ! k)) ks
        then (Inl BACKPRESSURE, b\<lparr>bu_backpressure_events := bu_backpressure_events b + 1\<rparr>)
        else case deliver e ks (bu_heap b) of
          (Inl err, h) \<Rightarrow> (Inl err, b\<lparr>bu_heap := h\<rparr>)
        | (Inr _, h) \<Rightarrow> (Inr (), b\<lparr>bu_heap := h, bu_published_events := bu_published_events b + 1,
            bu_delivered_events := bu_delivered_events b + length ks,
            bu_last_delivery_order := map (\<lambda>k. su_consumer_name (bu_heap b ! k)) ks\<rparr>))"

definition consume_next :: "nat \<Rightarrow> 'p event_bus \<Rightarrow> 'p next_outcome \<times> 'p event_bus" where
  "consume_next k b = (case sub_next (bu_heap b ! k) of (out, u) \<Rightarrow> (out, upd_sub k u b))"

text \<open>\<^verbatim>\<open>QueuedEventSubscription.close\<close> with its callback \<^verbatim>\<open>_remove_subscription\<close>.\<close>

definition close_subscription :: "nat \<Rightarrow> 'p event_bus \<Rightarrow> unit result \<times> 'p event_bus" where
  "close_subscription k b =
     (let u = bu_heap b ! k in
      if su_closed u then (Inr (), b)
      else case sub_mark_closed u of
        (Inl err, u') \<Rightarrow> (Inl err, upd_sub k u' b)
      | (Inr _, u') \<Rightarrow>
          (Inr (), (upd_sub k u' b)\<lparr>bu_subscriptions := dict_pop (su_consumer_name u) (bu_subscriptions b)\<rparr>))"

fun close_all :: "nat list \<Rightarrow> 'p event_bus \<Rightarrow> unit result \<times> 'p event_bus" where
  "close_all [] b = (Inr (), b)"
| "close_all (k # ks) b =
     (case close_subscription k b of (Inl err, b') \<Rightarrow> (Inl err, b') | (Inr _, b') \<Rightarrow> close_all ks b')"

text \<open>\<^verbatim>\<open>close\<close> of the bus up to the point where it waits for its consumer tasks.\<close>

definition close_bus :: "'p event_bus \<Rightarrow> unit result \<times> 'p event_bus" where
  "close_bus b =
     (if bu_closed b then (Inr (), b) else close_all (map snd (bu_subscriptions b)) (b\<lparr>bu_closed := True\<rparr>))"

section \<open>Health\<close>

record subscription_health =
  sh_consumer_name :: string
  sh_event_type :: string
  sh_partition_key :: "string option"
  sh_queue_depth :: int
  sh_max_queue_size :: int
  sh_closed :: bool

definition subscription_health_of :: "'p subscription \<Rightarrow> subscription_health" where
  "subscription_health_of u =
     \<lparr>sh_consumer_name = su_consumer_name u, sh_event_type = fst (su_event_type u) @ ''.'' @ snd (su_event_type u),
      sh_partition_key = su_partition_key u, sh_queue_depth = su_pending_events u, sh_max_queue_size = su_queue_size u,
      sh_closed = su_closed u\<rparr>"

record bus_health =
  bh_closed :: bool
  bh_deterministic :: bool
  bh_subscriptions :: "subscription_health list"
  bh_published_events :: nat
  bh_delivered_events :: nat
  bh_backpressure_events :: nat
  bh_consumer_failures :: nat
  bh_last_delivery_order :: "string list"

text \<open>The failure counts of the managed consumers are an argument.\<close>

definition bus_health_of :: "nat list \<Rightarrow> 'p event_bus \<Rightarrow> bus_health" where
  "bus_health_of failure_counts b =
     \<lparr>bh_closed = bu_closed b, bh_deterministic = bu_deterministic b,
      bh_subscriptions = map (\<lambda>k. subscription_health_of (bu_heap b ! k)) (ordered_subscriptions b),
      bh_published_events = bu_published_events b, bh_delivered_events = bu_delivered_events b,
      bh_backpressure_events = bu_backpressure_events b, bh_consumer_failures = sum_list failure_counts,
      bh_last_delivery_order = bu_last_delivery_order b\<rparr>"

section \<open>The invariant of a subscription\<close>

definition queued_events :: "'p subscription \<Rightarrow> 'p bus_event list" where
  "queued_events u = List.map_filter (\<lambda>x. case x of Item e \<Rightarrow> Some e | Closed_mark \<Rightarrow> None) (su_queue u)"

definition sub_inv :: "'p subscription \<Rightarrow> bool" where
  "sub_inv u \<longleftrightarrow> 1 \<le> su_queue_size u \<and> su_pending_events u \<le> su_queue_size u \<and>
     (\<exists>es. su_pending_events u = int (length es) \<and>
        (su_queue u = map Item es \<or> su_closed u \<and> su_queue u = map Item es @ [Closed_mark]))"

lemma queued_items:
  "queued_events (u\<lparr>su_queue := map Item es\<rparr>) = es" "queued_events (u\<lparr>su_queue := map Item es @ [Closed_mark]\<rparr>) = es"
proof -
  have "List.map_filter (\<lambda>x. case x of Item e \<Rightarrow> Some e | Closed_mark \<Rightarrow> None) (map Item es @ q) =
      es @ List.map_filter (\<lambda>x. case x of Item e \<Rightarrow> Some e | Closed_mark \<Rightarrow> None) q" for q :: "'a queue_item list"
    by (induction es) simp_all
  from this [of "[]"] this [of "[Closed_mark]"]
  show "queued_events (u\<lparr>su_queue := map Item es\<rparr>) = es" "queued_events (u\<lparr>su_queue := map Item es @ [Closed_mark]\<rparr>) = es"
    by (simp_all add: queued_events_def)
qed

lemma queued_eq:
  assumes "su_queue u = map Item es \<or> su_queue u = map Item es @ [Closed_mark]"
  shows "queued_events u = es"
  using assms queued_items [where u = u and es = es] by (auto simp: queued_events_def)

text \<open>The two shapes of a queue: events, and events before the closing mark.\<close>

lemma sub_invE:
  assumes "sub_inv u"
  obtains (items) es where "su_queue u = map Item es" "queued_events u = es" "su_pending_events u = int (length es)"
      "1 \<le> su_queue_size u" "int (length es) \<le> su_queue_size u"
  | (mark) es where "su_queue u = map Item es @ [Closed_mark]" "queued_events u = es" "su_pending_events u = int (length es)"
      "1 \<le> su_queue_size u" "int (length es) \<le> su_queue_size u" "su_closed u"
  using assms queued_eq [of u] by (auto simp: sub_inv_def)

lemma sub_inv_items:
  "su_queue u = map Item es \<Longrightarrow> su_pending_events u = int (length es) \<Longrightarrow> 1 \<le> su_queue_size u \<Longrightarrow>
   int (length es) \<le> su_queue_size u \<Longrightarrow> sub_inv u \<and> queued_events u = es"
  using queued_eq [of u es] by (auto simp: sub_inv_def)

lemma sub_inv_mark:
  "su_queue u = map Item es @ [Closed_mark] \<Longrightarrow> su_closed u \<Longrightarrow> su_pending_events u = int (length es) \<Longrightarrow>
   1 \<le> su_queue_size u \<Longrightarrow> int (length es) \<le> su_queue_size u \<Longrightarrow> sub_inv u \<and> queued_events u = es"
  using queued_eq [of u es] by (auto simp: sub_inv_def)

lemma new_sub_inv:
  "mk_subscription ty n pk sz = Inr u \<Longrightarrow> sub_inv u \<and> queued_events u = [] \<and> \<not> su_closed u \<and> su_consumer_name u = n \<and>
     su_event_type u = ty \<and> su_partition_key u = pk"
  by (auto simp: mk_subscription_def sub_inv_def queued_events_def split: if_splits)

text \<open>A queue that is neither closed nor full takes the event: the queue behind the limit never overflows.\<close>

lemma publish_nowait_ok:
  assumes "sub_inv u" and "\<not> su_closed u" and "\<not> sub_full u"
  shows "\<exists>u'. publish_nowait e u = Inr u' \<and> sub_inv u' \<and> queued_events u' = queued_events u @ [e] \<and> su_closed u' = su_closed u \<and>
    su_consumer_name u' = su_consumer_name u \<and> su_event_type u' = su_event_type u \<and> su_partition_key u' = su_partition_key u"
  using assms(1)
proof (cases rule: sub_invE)
  case (items es)
  let ?u = "u\<lparr>su_queue := su_queue u @ [Item e], su_pending_events := su_pending_events u + 1\<rparr>"
  have "publish_nowait e u = Inr ?u"
    using assms(2,3) items by (simp add: publish_nowait_def sub_full_def)
  moreover have "sub_inv ?u \<and> queued_events ?u = es @ [e]"
    using items assms(3) by (intro sub_inv_items) (auto simp: sub_full_def)
  ultimately show ?thesis using items(2) by simp
qed (use assms(2) in simp)

lemma sub_next_inv:
  assumes "sub_inv u" and "sub_next u = (out, u')"
  shows "sub_inv u' \<and> su_closed u' = su_closed u \<and> su_consumer_name u' = su_consumer_name u \<and>
      su_event_type u' = su_event_type u \<and> su_partition_key u' = su_partition_key u \<and>
      queued_events u = (case out of Takes e \<Rightarrow> e # queued_events u' | _ \<Rightarrow> queued_events u')"
  using assms(1)
proof (cases rule: sub_invE)
  case (items es)
  show ?thesis
  proof (cases es)
    case Nil
    then show ?thesis using items assms by (simp add: sub_next_def)
  next
    case (Cons e es')
    then have u': "out = Takes e" "u' = u\<lparr>su_queue := map Item es', su_pending_events := int (length es')\<rparr>"
      using items assms(2) by (auto simp: sub_next_def)
    have "sub_inv u' \<and> queued_events u' = es'" using items Cons by (intro sub_inv_items) (auto simp: u'(2))
    then show ?thesis using items(2) Cons u' by simp
  qed
next
  case (mark es)
  show ?thesis
  proof (cases es)
    case Nil
    then have u': "out = Ends" "u' = u\<lparr>su_queue := map Item []\<rparr>" using mark assms(2) by (auto simp: sub_next_def)
    have "sub_inv u' \<and> queued_events u' = []" using mark Nil by (intro sub_inv_items) (auto simp: u'(2))
    then show ?thesis using mark(2) Nil u' by simp
  next
    case (Cons e es')
    then have u': "out = Takes e" "u' = u\<lparr>su_queue := map Item es' @ [Closed_mark], su_pending_events := int (length es')\<rparr>"
      using mark assms(2) by (auto simp: sub_next_def)
    have "sub_inv u' \<and> queued_events u' = es'" using mark Cons by (intro sub_inv_mark) (auto simp: u'(2))
    then show ?thesis using mark(2) Cons u' by simp
  qed
qed

lemma mark_closed_inv:
  assumes "sub_inv u" and "\<not> su_closed u"
  shows "\<exists>u'. sub_mark_closed u = (Inr (), u') \<and> sub_inv u' \<and> su_closed u' \<and> queued_events u' = queued_events u \<and>
    su_consumer_name u' = su_consumer_name u"
  using assms(1)
proof (cases rule: sub_invE)
  case (items es)
  let ?u = "u\<lparr>su_closed := True, su_queue := su_queue u @ [Closed_mark]\<rparr>"
  have "sub_mark_closed u = (Inr (), ?u)" using items by (simp add: sub_mark_closed_def Let_def)
  moreover have "sub_inv ?u \<and> queued_events ?u = es" using items by (intro sub_inv_mark) auto
  ultimately show ?thesis using items(2) by simp
qed (use assms(2) in simp)

section \<open>The invariant of the bus\<close>

definition bus_inv :: "'p event_bus \<Rightarrow> bool" where
  "bus_inv b \<longleftrightarrow>
     (\<forall>u \<in> set (bu_heap b). sub_inv u) \<and> distinct (map fst (bu_subscriptions b)) \<and>
     (\<forall>(n, k) \<in> set (bu_subscriptions b). k < length (bu_heap b) \<and> su_consumer_name (bu_heap b ! k) = n) \<and>
     (\<forall>k < length (bu_heap b). su_closed (bu_heap b ! k) \<longleftrightarrow> k \<notin> snd ` set (bu_subscriptions b))"

lemma bus_invD:
  assumes "bus_inv b"
  shows "k < length (bu_heap b) \<Longrightarrow> sub_inv (bu_heap b ! k)" and "distinct (map fst (bu_subscriptions b))"
    and "(n, k) \<in> set (bu_subscriptions b) \<Longrightarrow> k < length (bu_heap b) \<and> su_consumer_name (bu_heap b ! k) = n"
    and "k < length (bu_heap b) \<Longrightarrow> su_closed (bu_heap b ! k) \<longleftrightarrow> k \<notin> snd ` set (bu_subscriptions b)"
  using assms by (auto simp: bus_inv_def)

lemma bus_inv_new: "mk_event_bus n d t = Inr b \<Longrightarrow> bus_inv b \<and> bu_heap b = []"
  by (auto simp: mk_event_bus_def bus_inv_def bindE_eq_Inr)

lemma subscriptions_distinct:
  assumes "bus_inv b"
  shows "distinct (map snd (bu_subscriptions b))"
proof -
  have "inj_on snd (set (bu_subscriptions b))"
    by (rule inj_onI) (use bus_invD(3) [OF assms] in \<open>metis prod.collapse\<close>)
  moreover have "distinct (bu_subscriptions b)" using bus_invD(2) [OF assms] by (simp add: distinct_map)
  ultimately show ?thesis by (simp add: distinct_map)
qed

lemma ordered_set: "set (ordered_subscriptions b) = snd ` set (bu_subscriptions b)"
  by (simp add: ordered_subscriptions_def Let_def)

lemma ordered_distinct: "bus_inv b \<Longrightarrow> distinct (ordered_subscriptions b)"
  by (simp add: ordered_subscriptions_def Let_def subscriptions_distinct)

lemma matching_set:
  assumes "bus_inv b"
  shows "set (matching_subscriptions e p b) = {k. k < length (bu_heap b) \<and> sub_matches (bu_heap b ! k) e p}"
  using bus_invD(3,4) [OF assms] by (force simp: matching_subscriptions_def ordered_set sub_matches_def)

text \<open>A subscription keeps what identifies it.\<close>

definition same_identity :: "'p subscription \<Rightarrow> 'p subscription \<Rightarrow> bool" where
  "same_identity u u' \<longleftrightarrow> su_consumer_name u' = su_consumer_name u \<and> su_event_type u' = su_event_type u \<and>
     su_partition_key u' = su_partition_key u"

lemma deliver_ok:
  assumes "distinct ks" and "\<forall>k \<in> set ks. k < length h \<and> sub_inv (h ! k) \<and> \<not> su_closed (h ! k) \<and> \<not> sub_full (h ! k)"
  shows "\<exists>h'. deliver e ks h = (Inr (), h') \<and> length h' = length h \<and>
    (\<forall>j < length h. if j \<in> set ks then sub_inv (h' ! j) \<and> queued_events (h' ! j) = queued_events (h ! j) @ [e] \<and>
       su_closed (h' ! j) = su_closed (h ! j) \<and> same_identity (h ! j) (h' ! j) else h' ! j = h ! j)"
  using assms
proof (induction ks arbitrary: h)
  case Nil
  then show ?case by simp
next
  case (Cons k ks)
  obtain u where u: "publish_nowait e (h ! k) = Inr u" "sub_inv u" "queued_events u = queued_events (h ! k) @ [e]"
      "su_closed u = su_closed (h ! k)" "same_identity (h ! k) u"
    using publish_nowait_ok [of "h ! k" e] Cons.prems(2) by (auto simp: same_identity_def)
  have "\<forall>j \<in> set ks. j < length (h[k := u]) \<and> sub_inv (h[k := u] ! j) \<and> \<not> su_closed (h[k := u] ! j) \<and> \<not> sub_full (h[k := u] ! j)"
    using Cons.prems by (auto simp: nth_list_update)
  from Cons.IH [OF _ this] Cons.prems(1) obtain h' where h': "deliver e ks (h[k := u]) = (Inr (), h')" "length h' = length h"
    and each: "\<forall>j < length h. if j \<in> set ks then sub_inv (h' ! j) \<and> queued_events (h' ! j) = queued_events (h[k := u] ! j) @ [e] \<and>
       su_closed (h' ! j) = su_closed (h[k := u] ! j) \<and> same_identity (h[k := u] ! j) (h' ! j) else h' ! j = h[k := u] ! j"
    by auto
  have "if j \<in> set (k # ks) then sub_inv (h' ! j) \<and> queued_events (h' ! j) = queued_events (h ! j) @ [e] \<and>
       su_closed (h' ! j) = su_closed (h ! j) \<and> same_identity (h ! j) (h' ! j) else h' ! j = h ! j" if "j < length h" for j
    using each that u Cons.prems(1) by (cases "j = k") (auto split: if_splits)
  then show ?case using u(1) h' by auto
qed

text \<open>Publication is all or nothing: every matching queue takes the event, or none does.\<close>

lemma publish_effect:
  assumes "bus_inv b" and "publish e x b = (r, b')"
  shows "bus_inv b'" and "length (bu_heap b') = length (bu_heap b)"
    and "r = Inl err \<Longrightarrow> bu_heap b' = bu_heap b \<and> (bu_closed b \<or>
           (\<exists>k < length (bu_heap b). sub_matches (bu_heap b ! k) e (event_partition_key e x) \<and> sub_full (bu_heap b ! k)))"
    and "r = Inr () \<Longrightarrow> j < length (bu_heap b) \<Longrightarrow>
           queued_events (bu_heap b' ! j) = queued_events (bu_heap b ! j) @
             (if sub_matches (bu_heap b ! j) e (event_partition_key e x) then [e] else []) \<and>
           su_closed (bu_heap b' ! j) = su_closed (bu_heap b ! j) \<and> same_identity (bu_heap b ! j) (bu_heap b' ! j)"
proof -
  let ?p = "event_partition_key e x"
  let ?ks = "matching_subscriptions e ?p b"
  consider (closed) "bu_closed b" | (full) "\<not> bu_closed b" "list_ex (\<lambda>k. sub_full (bu_heap b ! k)) ?ks"
    | (free) "\<not> bu_closed b" "\<not> list_ex (\<lambda>k. sub_full (bu_heap b ! k)) ?ks" by blast
  then have "bus_inv b' \<and> length (bu_heap b') = length (bu_heap b) \<and>
    (\<forall>err. r = Inl err \<longrightarrow> bu_heap b' = bu_heap b \<and> (bu_closed b \<or>
           (\<exists>k < length (bu_heap b). sub_matches (bu_heap b ! k) e ?p \<and> sub_full (bu_heap b ! k)))) \<and>
    (r = Inr () \<longrightarrow> (\<forall>j < length (bu_heap b).
           queued_events (bu_heap b' ! j) = queued_events (bu_heap b ! j) @ (if sub_matches (bu_heap b ! j) e ?p then [e] else []) \<and>
           su_closed (bu_heap b' ! j) = su_closed (bu_heap b ! j) \<and> same_identity (bu_heap b ! j) (bu_heap b' ! j)))"
  proof cases
    case closed
    then show ?thesis using assms by (auto simp: publish_def)
  next
    case full
    then have "r = Inl BACKPRESSURE" "b' = b\<lparr>bu_backpressure_events := bu_backpressure_events b + 1\<rparr>"
      using assms(2) by (auto simp: publish_def Let_def)
    then show ?thesis using full(2) assms(1) matching_set [OF assms(1), of e ?p] by (auto simp: list_ex_iff bus_inv_def)
  next
    case free
    have ks: "k < length (bu_heap b) \<and> sub_inv (bu_heap b ! k) \<and> \<not> su_closed (bu_heap b ! k) \<and> \<not> sub_full (bu_heap b ! k)"
      if "k \<in> set ?ks" for k
      using that free(2) matching_set [OF assms(1), of e ?p] bus_invD(1) [OF assms(1)] by (auto simp: list_ex_iff sub_matches_def)
    have "distinct ?ks" using ordered_distinct [OF assms(1)] by (simp add: matching_subscriptions_def)
    from deliver_ok [OF this, of "bu_heap b" e] ks obtain h where h: "deliver e ?ks (bu_heap b) = (Inr (), h)" "length h = length (bu_heap b)"
      and each: "\<forall>j < length (bu_heap b). if j \<in> set ?ks then sub_inv (h ! j) \<and> queued_events (h ! j) = queued_events (bu_heap b ! j) @ [e] \<and>
       su_closed (h ! j) = su_closed (bu_heap b ! j) \<and> same_identity (bu_heap b ! j) (h ! j) else h ! j = bu_heap b ! j"
      by blast
    have b': "r = Inr ()" "bu_heap b' = h" "bu_subscriptions b' = bu_subscriptions b" "bu_closed b' = bu_closed b"
      using assms(2) free h(1) by (auto simp: publish_def Let_def)
    have eff: "sub_inv (h ! j) \<and> queued_events (h ! j) = queued_events (bu_heap b ! j) @ (if sub_matches (bu_heap b ! j) e ?p then [e] else []) \<and>
           su_closed (h ! j) = su_closed (bu_heap b ! j) \<and> same_identity (bu_heap b ! j) (h ! j)" if "j < length (bu_heap b)" for j
      using that each matching_set [OF assms(1), of e ?p] bus_invD(1) [OF assms(1) that]
      by (cases "sub_matches (bu_heap b ! j) e ?p") (auto simp: same_identity_def)
    have "bus_inv b'"
      using assms(1) eff h(2) unfolding bus_inv_def b'
      by (auto simp: same_identity_def in_set_conv_nth)
    then show ?thesis using b' h(2) eff by auto
  qed
  then show "bus_inv b'" and "length (bu_heap b') = length (bu_heap b)"
    and "r = Inl err \<Longrightarrow> bu_heap b' = bu_heap b \<and> (bu_closed b \<or>
           (\<exists>k < length (bu_heap b). sub_matches (bu_heap b ! k) e ?p \<and> sub_full (bu_heap b ! k)))"
    and "r = Inr () \<Longrightarrow> j < length (bu_heap b) \<Longrightarrow>
           queued_events (bu_heap b' ! j) = queued_events (bu_heap b ! j) @ (if sub_matches (bu_heap b ! j) e ?p then [e] else []) \<and>
           su_closed (bu_heap b' ! j) = su_closed (bu_heap b ! j) \<and> same_identity (bu_heap b ! j) (bu_heap b' ! j)"
    by simp_all
qed

section \<open>The other operations keep the invariant\<close>

lemma set_dict_pop: "distinct (map fst d) \<Longrightarrow> set (dict_pop k d) = {x \<in> set d. fst x \<noteq> k}"
  by (induction k d rule: dict_pop.induct) force+

lemma dict_set_new: "k \<notin> fst ` set d \<Longrightarrow> dict_set k v d = d @ [(k, v)]"
  by (induction k v d rule: dict_set.induct) auto

lemma subscribe_effect:
  assumes "bus_inv b" and "subscribe ty n pk sz b = Inr (k, b')"
  shows "bus_inv b'" and "k = length (bu_heap b)" and "\<exists>u. bu_heap b' = bu_heap b @ [u] \<and> \<not> su_closed u \<and> queued_events u = [] \<and>
    su_event_type u = ty \<and> su_partition_key u = pk"
proof -
  from assms(2) obtain u where b': "\<not> bu_closed b" "n \<notin> fst ` set (bu_subscriptions b)" "k = length (bu_heap b)"
      "b' = b\<lparr>bu_heap := bu_heap b @ [u], bu_subscriptions := dict_set n (length (bu_heap b)) (bu_subscriptions b)\<rparr>"
    and mk: "mk_subscription ty n pk (case sz of None \<Rightarrow> bu_default_queue_size b | Some n \<Rightarrow> n) = Inr u"
    by (auto simp: subscribe_def bindE_eq_Inr split: if_splits)
  note u = new_sub_inv [OF mk]
  note new = dict_set_new
  show "bus_inv b'"
    unfolding bus_inv_def
  proof (intro conjI)
    show "\<forall>u\<in>set (bu_heap b'). sub_inv u" using assms(1) u by (auto simp: b'(4) bus_inv_def)
    show "distinct (map fst (bu_subscriptions b'))" using bus_invD(2) [OF assms(1)] by (simp add: b'(4) distinct_dict_set)
    show "\<forall>(m, j)\<in>set (bu_subscriptions b'). j < length (bu_heap b') \<and> su_consumer_name (bu_heap b' ! j) = m"
      using u by (auto simp: b'(4) new [OF b'(2)] nth_append dest: bus_invD(3) [OF assms(1)])
    show "\<forall>j<length (bu_heap b'). su_closed (bu_heap b' ! j) \<longleftrightarrow> j \<notin> snd ` set (bu_subscriptions b')"
    proof (intro allI impI)
      fix j assume "j < length (bu_heap b')"
      then consider "j < length (bu_heap b)" | "j = length (bu_heap b)" by (auto simp: b'(4) less_Suc_eq)
      then show "su_closed (bu_heap b' ! j) \<longleftrightarrow> j \<notin> snd ` set (bu_subscriptions b')"
        using bus_invD(4) [OF assms(1), of j] u by cases (auto simp: b'(4) new [OF b'(2)] nth_append)
    qed
  qed
  show "k = length (bu_heap b)" by (rule b'(3))
  show "\<exists>u. bu_heap b' = bu_heap b @ [u] \<and> \<not> su_closed u \<and> queued_events u = [] \<and> su_event_type u = ty \<and> su_partition_key u = pk"
    using u by (auto simp: b'(4))
qed

lemma bus_inv_upd:
  assumes "bus_inv b" and "k < length (bu_heap b)" and "sub_inv u" and "same_identity (bu_heap b ! k) u"
    and "su_closed u = su_closed (bu_heap b ! k)"
  shows "bus_inv (upd_sub k u b)"
  using assms by (auto simp: bus_inv_def upd_sub_def nth_list_update same_identity_def dest: set_update_subset_insert [THEN subsetD] split: if_splits)

lemma next_effect:
  assumes "bus_inv b" and "k < length (bu_heap b)" and "consume_next k b = (out, b')"
  shows "bus_inv b'" and "length (bu_heap b') = length (bu_heap b)" and "bu_closed b' = bu_closed b"
    and "j < length (bu_heap b) \<Longrightarrow> su_closed (bu_heap b' ! j) = su_closed (bu_heap b ! j) \<and> same_identity (bu_heap b ! j) (bu_heap b' ! j) \<and>
      queued_events (bu_heap b ! j) = (case out of Takes e \<Rightarrow> if j = k then [e] else [] | _ \<Rightarrow> []) @ queued_events (bu_heap b' ! j)"
proof -
  obtain u where u: "sub_next (bu_heap b ! k) = (out, u)" "b' = upd_sub k u b"
    using assms(3) by (auto simp: consume_next_def split: prod.splits)
  note n = sub_next_inv [OF bus_invD(1) [OF assms(1,2)] u(1)]
  show "bus_inv b'" using n unfolding u(2) by (intro bus_inv_upd [OF assms(1,2)]) (auto simp: same_identity_def)
  show "length (bu_heap b') = length (bu_heap b)" "bu_closed b' = bu_closed b" by (simp_all add: u(2) upd_sub_def)
  show "j < length (bu_heap b) \<Longrightarrow> su_closed (bu_heap b' ! j) = su_closed (bu_heap b ! j) \<and> same_identity (bu_heap b ! j) (bu_heap b' ! j) \<and>
      queued_events (bu_heap b ! j) = (case out of Takes e \<Rightarrow> if j = k then [e] else [] | _ \<Rightarrow> []) @ queued_events (bu_heap b' ! j)"
    using n assms(2) by (cases "j = k") (auto simp: u(2) upd_sub_def same_identity_def split: next_outcome.splits)
qed

lemma close_effect:
  assumes "bus_inv b" and "k < length (bu_heap b)"
  shows "\<exists>b'. close_subscription k b = (Inr (), b') \<and> bus_inv b' \<and> length (bu_heap b') = length (bu_heap b) \<and> bu_closed b' = bu_closed b \<and>
    set (bu_subscriptions b') = {x \<in> set (bu_subscriptions b). snd x \<noteq> k} \<and>
    (\<forall>j < length (bu_heap b). su_closed (bu_heap b' ! j) = (j = k \<or> su_closed (bu_heap b ! j)) \<and>
       queued_events (bu_heap b' ! j) = queued_events (bu_heap b ! j) \<and> (j \<noteq> k \<longrightarrow> bu_heap b' ! j = bu_heap b ! j))"
proof (cases "su_closed (bu_heap b ! k)")
  case True
  then have "k \<notin> snd ` set (bu_subscriptions b)" using bus_invD(4) [OF assms(1,2)] by simp
  then show ?thesis using True assms(1) by (auto simp: close_subscription_def Let_def)
next
  case False
  let ?n = "su_consumer_name (bu_heap b ! k)"
  obtain u where u: "sub_mark_closed (bu_heap b ! k) = (Inr (), u)" "sub_inv u" "su_closed u"
      "queued_events u = queued_events (bu_heap b ! k)" "su_consumer_name u = ?n"
    using mark_closed_inv [OF bus_invD(1) [OF assms] False] by auto
  let ?b = "(upd_sub k u b)\<lparr>bu_subscriptions := dict_pop ?n (bu_subscriptions b)\<rparr>"
  have run: "close_subscription k b = (Inr (), ?b)" using False u(1) by (simp add: close_subscription_def)
  have inS: "(?n, k) \<in> set (bu_subscriptions b)"
  proof -
    from bus_invD(4) [OF assms] False obtain m where m: "(m, k) \<in> set (bu_subscriptions b)" by auto
    then show ?thesis using bus_invD(3) [OF assms(1) m] by simp
  qed
  have dp: "set (dict_pop ?n (bu_subscriptions b)) = {x \<in> set (bu_subscriptions b). fst x \<noteq> ?n}"
    using bus_invD(2) [OF assms(1)] by (rule set_dict_pop)
  have "fst x \<noteq> ?n \<longleftrightarrow> snd x \<noteq> k" if "x \<in> set (bu_subscriptions b)" for x
  proof -
    obtain m j where x: "x = (m, j)" by (cases x)
    have "j = k" if "m = ?n"
      using eq_key_imp_eq_value [OF bus_invD(2) [OF assms(1)] _ inS, of j] \<open>x \<in> _\<close> that by (simp add: x)
    moreover have "su_consumer_name (bu_heap b ! j) = m" using bus_invD(3) [OF assms(1), of m j] \<open>x \<in> _\<close> by (simp add: x)
    ultimately show ?thesis by (auto simp: x)
  qed
  then have subs: "set (bu_subscriptions ?b) = {x \<in> set (bu_subscriptions b). snd x \<noteq> k}" using dp by auto
  have heap: "bu_heap ?b = (bu_heap b)[k := u]" by (simp add: upd_sub_def)
  have "bus_inv ?b"
    unfolding bus_inv_def
  proof (intro conjI)
    show "\<forall>u\<in>set (bu_heap ?b). sub_inv u"
      using assms(1) u(2) unfolding heap by (auto simp: bus_inv_def dest: set_update_subset_insert [THEN subsetD])
    show "distinct (map fst (bu_subscriptions ?b))" using bus_invD(2) [OF assms(1)] by (simp add: distinct_dict_pop)
    show "\<forall>(m, j)\<in>set (bu_subscriptions ?b). j < length (bu_heap ?b) \<and> su_consumer_name (bu_heap ?b ! j) = m"
      unfolding subs heap using bus_invD(3) [OF assms(1)] by auto
    show "\<forall>j<length (bu_heap ?b). su_closed (bu_heap ?b ! j) \<longleftrightarrow> j \<notin> snd ` set (bu_subscriptions ?b)"
    proof (intro allI impI)
      fix j assume j: "j < length (bu_heap ?b)"
      have "snd ` {x \<in> set (bu_subscriptions b). snd x \<noteq> k} = snd ` set (bu_subscriptions b) - {k}" by auto
      then show "su_closed (bu_heap ?b ! j) \<longleftrightarrow> j \<notin> snd ` set (bu_subscriptions ?b)"
        unfolding subs heap using bus_invD(4) [OF assms(1), of j] j u(3) by (cases "j = k") (simp_all add: heap)
    qed
  qed
  moreover have "su_closed (bu_heap ?b ! j) = (j = k \<or> su_closed (bu_heap b ! j)) \<and>
       queued_events (bu_heap ?b ! j) = queued_events (bu_heap b ! j) \<and> (j \<noteq> k \<longrightarrow> bu_heap ?b ! j = bu_heap b ! j)"
    if "j < length (bu_heap b)" for j
    unfolding heap using that u(3,4) by (cases "j = k") simp_all
  moreover have "length (bu_heap ?b) = length (bu_heap b)" "bu_closed ?b = bu_closed b" by (simp_all add: upd_sub_def)
  ultimately show ?thesis using run subs by blast
qed

section \<open>Runs of the bus\<close>

text \<open>What the clients of a bus see: subscriptions made, events accepted, events taken, subscriptions closed.\<close>

datatype 'p log_entry =
    Subscribed nat class_name "string option"
  | Published "'p bus_event" "string option"
  | Taken nat "'p bus_event"
  | Closed nat
  | Closed_all

inductive bus_step :: "'p event_bus \<Rightarrow> 'p log_entry list \<Rightarrow> 'p event_bus \<Rightarrow> bool" where
  step_subscribe: "subscribe ty n pk sz b = Inr (k, b') \<Longrightarrow> bus_step b [Subscribed k ty pk] b'"
| step_publish: "publish e x b = (Inr (), b') \<Longrightarrow> bus_step b [Published e (event_partition_key e x)] b'"
| step_refused: "publish e x b = (Inl err, b') \<Longrightarrow> bus_step b [] b'"
| step_take: "k < length (bu_heap b) \<Longrightarrow> consume_next k b = (Takes e, b') \<Longrightarrow> bus_step b [Taken k e] b'"
| step_idle: "k < length (bu_heap b) \<Longrightarrow> consume_next k b = (out, b') \<Longrightarrow> out \<in> {Waits, Ends} \<Longrightarrow> bus_step b [] b'"
| step_close: "k < length (bu_heap b) \<Longrightarrow> close_subscription k b = (r, b') \<Longrightarrow> bus_step b [Closed k] b'"
| step_close_bus: "close_bus b = (r, b') \<Longrightarrow> bus_step b [Closed_all] b'"

inductive bus_run :: "'p event_bus \<Rightarrow> 'p log_entry list \<Rightarrow> 'p event_bus \<Rightarrow> bool" for b where
  run_start: "bus_run b [] b"
| run_step: "bus_run b l b' \<Longrightarrow> bus_step b' l' b'' \<Longrightarrow> bus_run b (l @ l') b''"

text \<open>
  The specification of one subscription: what it is interested in, while it is, and every event
  accepted in that time that is of its class and partition, in the order of acceptance.
\<close>

fun spec_step ::
  "nat \<Rightarrow> (class_name \<times> string option) option \<times> 'p bus_event list \<Rightarrow> 'p log_entry \<Rightarrow>
     (class_name \<times> string option) option \<times> 'p bus_event list" where
  "spec_step k (st, es) (Subscribed j ty pk) = (if j = k then (Some (ty, pk), es) else (st, es))"
| "spec_step k (st, es) (Published e p) =
     (case st of Some (ty, pk) \<Rightarrow> if ty \<in> set (be_classes e) \<and> (pk = None \<or> pk = p) then (st, es @ [e]) else (st, es)
      | None \<Rightarrow> (st, es))"
| "spec_step k (st, es) (Taken j e) = (st, es)"
| "spec_step k (st, es) (Closed j) = (if j = k then (None, es) else (st, es))"
| "spec_step k (st, es) Closed_all = (None, es)"

definition subscription_spec :: "nat \<Rightarrow> 'p log_entry list \<Rightarrow> (class_name \<times> string option) option \<times> 'p bus_event list" where
  "subscription_spec k l = foldl (spec_step k) (None, []) l"

definition expected_events :: "nat \<Rightarrow> 'p log_entry list \<Rightarrow> 'p bus_event list" where
  "expected_events k l = snd (subscription_spec k l)"

fun taken_by :: "nat \<Rightarrow> 'p log_entry \<Rightarrow> 'p bus_event list" where
  "taken_by k (Taken j e) = (if j = k then [e] else [])"
| "taken_by k _ = []"

definition taken_events :: "nat \<Rightarrow> 'p log_entry list \<Rightarrow> 'p bus_event list" where
  "taken_events k l = concat (map (taken_by k) l)"

definition interest :: "'p subscription \<Rightarrow> (class_name \<times> string option) option" where
  "interest u = (if su_closed u then None else Some (su_event_type u, su_partition_key u))"

text \<open>The simulation between the log and the heap.\<close>

definition log_agrees :: "'p log_entry list \<Rightarrow> 'p event_bus \<Rightarrow> bool" where
  "log_agrees l b \<longleftrightarrow> (\<forall>k.
     if k < length (bu_heap b)
     then subscription_spec k l = (interest (bu_heap b ! k), taken_events k l @ queued_events (bu_heap b ! k))
     else subscription_spec k l = (None, []) \<and> taken_events k l = [])"

lemma spec_snoc [simp]: "subscription_spec k (l @ [x]) = spec_step k (subscription_spec k l) x"
  by (simp add: subscription_spec_def)

lemma taken_snoc [simp]: "taken_events k (l @ [x]) = taken_events k l @ taken_by k x"
  by (simp add: taken_events_def)

lemma close_all_effect:
  assumes "bus_inv b" and "\<forall>k \<in> set ks. k < length (bu_heap b)" and "snd ` set (bu_subscriptions b) \<subseteq> set ks"
  shows "\<exists>b'. close_all ks b = (Inr (), b') \<and> bus_inv b' \<and> length (bu_heap b') = length (bu_heap b) \<and> bu_subscriptions b' = [] \<and>
    (\<forall>j < length (bu_heap b). queued_events (bu_heap b' ! j) = queued_events (bu_heap b ! j))"
  using assms
proof (induction ks arbitrary: b)
  case Nil
  then show ?case by auto
next
  case (Cons k ks)
  from close_effect [OF Cons.prems(1), of k] Cons.prems(2) obtain b1 where b1: "close_subscription k b = (Inr (), b1)" "bus_inv b1"
      "length (bu_heap b1) = length (bu_heap b)" "set (bu_subscriptions b1) = {x \<in> set (bu_subscriptions b). snd x \<noteq> k}"
      "\<forall>j < length (bu_heap b). queued_events (bu_heap b1 ! j) = queued_events (bu_heap b ! j)" by auto
  have "snd ` set (bu_subscriptions b1) \<subseteq> set ks" using Cons.prems(3) b1(4) by auto
  from Cons.IH [OF b1(2) _ this] Cons.prems(2) b1(3) obtain b2 where "close_all ks b1 = (Inr (), b2)" "bus_inv b2"
      "length (bu_heap b2) = length (bu_heap b1)" "bu_subscriptions b2 = []"
      "\<forall>j < length (bu_heap b1). queued_events (bu_heap b2 ! j) = queued_events (bu_heap b1 ! j)" by auto
  then show ?case using b1 by auto
qed

definition bus_ok :: "'p event_bus \<Rightarrow> bool" where
  "bus_ok b \<longleftrightarrow> bus_inv b \<and> (bu_closed b \<longrightarrow> bu_subscriptions b = [])"

lemma log_agreesI:
  assumes "\<And>k. k < length (bu_heap b) \<Longrightarrow>
      subscription_spec k l = (interest (bu_heap b ! k), taken_events k l @ queued_events (bu_heap b ! k))"
    and "\<And>k. length (bu_heap b) \<le> k \<Longrightarrow> subscription_spec k l = (None, []) \<and> taken_events k l = []"
  shows "log_agrees l b"
  unfolding log_agrees_def using assms by (auto simp: not_less)

lemma log_agreesD:
  assumes "log_agrees l b"
  shows "k < length (bu_heap b) \<Longrightarrow>
      subscription_spec k l = (interest (bu_heap b ! k), taken_events k l @ queued_events (bu_heap b ! k))"
    and "length (bu_heap b) \<le> k \<Longrightarrow> subscription_spec k l = (None, [])"
    and "length (bu_heap b) \<le> k \<Longrightarrow> taken_events k l = []"
  using assms unfolding log_agrees_def by (auto simp: not_less split: if_splits)

lemma all_closed: "bus_inv b \<Longrightarrow> bu_subscriptions b = [] \<Longrightarrow> k < length (bu_heap b) \<Longrightarrow> su_closed (bu_heap b ! k)"
  using bus_invD(4) [of b k] by simp

lemma log_agrees_snoc:
  assumes "log_agrees l b" and "length (bu_heap b') = length (bu_heap b)"
    and "\<And>j es. j < length (bu_heap b) \<Longrightarrow> spec_step j (interest (bu_heap b ! j), es @ queued_events (bu_heap b ! j)) x =
      (interest (bu_heap b' ! j), es @ taken_by j x @ queued_events (bu_heap b' ! j))"
    and "\<And>j. length (bu_heap b) \<le> j \<Longrightarrow> spec_step j (None, []) x = (None, []) \<and> taken_by j x = []"
  shows "log_agrees (l @ [x]) b'"
  by (rule log_agreesI) (use assms(2-4) log_agreesD [OF assms(1)] in simp_all)

lemma subscribe_keeps_log:
  assumes "subscribe ty n pk sz b = Inr (k, b')" and "bus_ok b" and "log_agrees l b"
  shows "bus_ok b' \<and> log_agrees (l @ [Subscribed k ty pk]) b'"
proof -
  have inv: "bus_inv b" using assms(2) by (simp add: bus_ok_def)
  note eff = subscribe_effect [OF inv assms(1)]
  obtain u where u: "bu_heap b' = bu_heap b @ [u]" "\<not> su_closed u" "queued_events u = []" "su_event_type u = ty" "su_partition_key u = pk"
    using eff(3) by auto
  have "\<not> bu_closed b" "bu_closed b' = bu_closed b" using assms(1) by (auto simp: subscribe_def bindE_eq_Inr split: if_splits)
  then have "bus_ok b'" using eff(1) by (simp add: bus_ok_def)
  moreover have "log_agrees (l @ [Subscribed k ty pk]) b'"
  proof (rule log_agreesI)
    fix j assume j: "j < length (bu_heap b')"
    show "subscription_spec j (l @ [Subscribed k ty pk]) =
        (interest (bu_heap b' ! j), taken_events j (l @ [Subscribed k ty pk]) @ queued_events (bu_heap b' ! j))"
    proof (cases "j = k")
      case True
      then show ?thesis using u eff(2) log_agreesD(2,3) [OF assms(3), of j] by (simp add: interest_def)
    next
      case False
      then have "j < length (bu_heap b)" using j u(1) eff(2) by simp
      then show ?thesis using False u(1) log_agreesD(1) [OF assms(3), of j] by (simp add: nth_append)
    qed
  next
    fix j assume "length (bu_heap b') \<le> j"
    then show "subscription_spec j (l @ [Subscribed k ty pk]) = (None, []) \<and> taken_events j (l @ [Subscribed k ty pk]) = []"
      using u(1) eff(2) log_agreesD(2,3) [OF assms(3), of j] by simp
  qed
  ultimately show ?thesis ..
qed

lemma publish_keeps_log:
  assumes "publish e x b = (Inr (), b')" and "bus_ok b" and "log_agrees l b"
  shows "bus_ok b' \<and> log_agrees (l @ [Published e (event_partition_key e x)]) b'"
proof -
  have inv: "bus_inv b" using assms(2) by (simp add: bus_ok_def)
  note eff = publish_effect [OF inv assms(1)]
  have "\<not> bu_closed b" "bu_closed b' = bu_closed b"
    using assms(1) by (auto simp: publish_def Let_def split: if_splits prod.splits sum.splits)
  then have "bus_ok b'" using eff(1) by (simp add: bus_ok_def)
  moreover have "log_agrees (l @ [Published e (event_partition_key e x)]) b'"
    by (rule log_agrees_snoc [OF assms(3) eff(2)])
      (use eff(4) [OF refl] in \<open>auto simp: interest_def same_identity_def sub_matches_def\<close>)
  ultimately show ?thesis ..
qed

lemma refused_keeps_log:
  assumes "publish e x b = (Inl err, b')" and "bus_ok b" and "log_agrees l b"
  shows "bus_ok b' \<and> log_agrees l b'"
proof -
  have inv: "bus_inv b" using assms(2) by (simp add: bus_ok_def)
  note eff = publish_effect [OF inv assms(1)]
  have "bu_heap b' = bu_heap b" using eff(3) [OF refl] by simp
  moreover have "bu_subscriptions b' = bu_subscriptions b" "bu_closed b' = bu_closed b"
    using assms(1) by (auto simp: publish_def Let_def split: if_splits prod.splits sum.splits)
  ultimately show ?thesis using assms(2,3) eff(1) by (simp add: bus_ok_def log_agrees_def)
qed

lemma next_keeps_ok:
  assumes "consume_next k b = (out, b')" and "k < length (bu_heap b)" and "bus_ok b"
  shows "bus_ok b'"
proof -
  have "bu_subscriptions b' = bu_subscriptions b" using assms(1) by (auto simp: consume_next_def upd_sub_def split: prod.splits)
  then show ?thesis using next_effect(1,3) [OF _ assms(2,1)] assms(3) by (simp add: bus_ok_def)
qed

lemma take_keeps_log:
  assumes "consume_next k b = (Takes e, b')" and "k < length (bu_heap b)" and "bus_ok b" and "log_agrees l b"
  shows "log_agrees (l @ [Taken k e]) b'"
proof -
  have inv: "bus_inv b" using assms(3) by (simp add: bus_ok_def)
  note eff = next_effect [OF inv assms(2,1)]
  show ?thesis
    by (rule log_agrees_snoc [OF assms(4) eff(2)])
      (use eff(4) assms(2) in \<open>auto simp: interest_def same_identity_def\<close>)
qed

lemma idle_keeps_log:
  assumes "consume_next k b = (out, b')" and "k < length (bu_heap b)" and "out \<in> {Waits, Ends}" and "bus_ok b" and "log_agrees l b"
  shows "log_agrees l b'"
proof -
  have inv: "bus_inv b" using assms(4) by (simp add: bus_ok_def)
  note eff = next_effect [OF inv assms(2,1)]
  have "interest (bu_heap b' ! j) = interest (bu_heap b ! j) \<and> queued_events (bu_heap b' ! j) = queued_events (bu_heap b ! j)"
    if "j < length (bu_heap b)" for j
    using eff(4) [OF that] assms(3) by (auto simp: interest_def same_identity_def)
  then show ?thesis using assms(5) eff(2) by (simp add: log_agrees_def)
qed

lemma close_keeps_log:
  assumes "close_subscription k b = (r, b')" and "k < length (bu_heap b)" and "bus_ok b" and "log_agrees l b"
  shows "bus_ok b' \<and> log_agrees (l @ [Closed k]) b'"
proof -
  have inv: "bus_inv b" using assms(3) by (simp add: bus_ok_def)
  from close_effect [OF inv assms(2)] assms(1)
  have eff: "bus_inv b'" "length (bu_heap b') = length (bu_heap b)" "bu_closed b' = bu_closed b"
      "set (bu_subscriptions b') = {x \<in> set (bu_subscriptions b). snd x \<noteq> k}"
    and each: "\<And>j. j < length (bu_heap b) \<Longrightarrow> su_closed (bu_heap b' ! j) = (j = k \<or> su_closed (bu_heap b ! j)) \<and>
       queued_events (bu_heap b' ! j) = queued_events (bu_heap b ! j) \<and> (j \<noteq> k \<longrightarrow> bu_heap b' ! j = bu_heap b ! j)" by auto
  have "bu_closed b' \<longrightarrow> bu_subscriptions b' = []" using assms(3) eff(3,4) by (auto simp: bus_ok_def)
  then have "bus_ok b'" using eff(1) by (simp add: bus_ok_def)
  moreover have "log_agrees (l @ [Closed k]) b'"
    by (rule log_agrees_snoc [OF assms(4) eff(2)]) (use each in \<open>auto simp: interest_def\<close>)
  ultimately show ?thesis ..
qed

lemma close_bus_keeps_log:
  assumes "close_bus b = (r, b')" and "bus_ok b" and "log_agrees l b"
  shows "bus_ok b' \<and> log_agrees (l @ [Closed_all]) b'"
proof -
  have inv: "bus_inv b" using assms(2) by (simp add: bus_ok_def)
  have "\<exists>b''. close_bus b = (Inr (), b'') \<and> bus_inv b'' \<and> length (bu_heap b'') = length (bu_heap b) \<and> bu_subscriptions b'' = [] \<and>
    (\<forall>j < length (bu_heap b). queued_events (bu_heap b'' ! j) = queued_events (bu_heap b ! j))"
  proof (cases "bu_closed b")
    case True
    then show ?thesis using assms(2) by (simp add: close_bus_def bus_ok_def)
  next
    case False
    let ?b = "b\<lparr>bu_closed := True\<rparr>"
    have "bus_inv ?b" using inv by (simp add: bus_inv_def)
    moreover have "\<forall>k \<in> set (map snd (bu_subscriptions b)). k < length (bu_heap ?b)" using bus_invD(3) [OF inv] by auto
    ultimately show ?thesis using False close_all_effect [of ?b "map snd (bu_subscriptions b)"] by (simp add: close_bus_def)
  qed
  then have eff: "bus_inv b'" "length (bu_heap b') = length (bu_heap b)" "bu_subscriptions b' = []"
    and each: "\<And>j. j < length (bu_heap b) \<Longrightarrow> queued_events (bu_heap b' ! j) = queued_events (bu_heap b ! j)"
    using assms(1) by auto
  have "log_agrees (l @ [Closed_all]) b'"
    by (rule log_agrees_snoc [OF assms(3) eff(2)])
      (use each all_closed [OF eff(1,3)] eff(2) in \<open>auto simp: interest_def\<close>)
  then show ?thesis using eff(1,3) by (simp add: bus_ok_def)
qed

lemma step_keeps_log: "bus_step b l' b' \<Longrightarrow> bus_ok b \<Longrightarrow> log_agrees l b \<Longrightarrow> bus_ok b' \<and> log_agrees (l @ l') b'"
  by (induction rule: bus_step.induct)
    (simp_all add: subscribe_keeps_log publish_keeps_log refused_keeps_log next_keeps_ok take_keeps_log idle_keeps_log
      close_keeps_log close_bus_keeps_log)

lemma run_keeps_log:
  assumes "bus_run b l b'" and "mk_event_bus n d t = Inr b"
  shows "bus_ok b' \<and> log_agrees l b'"
  using assms(1)
proof (induction rule: bus_run.induct)
  case run_start
  have "bus_ok b" "bu_heap b = []" using bus_inv_new [OF assms(2)] assms(2) by (auto simp: bus_ok_def mk_event_bus_def bindE_eq_Inr)
  then show ?case by (simp add: log_agrees_def subscription_spec_def taken_events_def)
next
  case (run_step l b' l' b'')
  then show ?case using step_keeps_log by blast
qed

section \<open>A sample run\<close>

definition sample_event :: "nat bus_event" where
  "sample_event = \<lparr>be_classes = [(''m'', ''E''), (''builtins'', ''object'')], be_market_id = Some ''k'', be_payload = 7\<rparr>"

text \<open>A subscription to all objects, an event, and the consumer taking it.\<close>

lemma sample_run:
  "\<exists>b b'. mk_event_bus 1 False 0 = Inr b \<and>
     bus_run b [Subscribed 0 (''builtins'', ''object'') None, Published sample_event (Some ''k''), Taken 0 sample_event] b' \<and>
     length (bu_heap b') = 1"
proof -
  let ?b0 = "\<lparr>bu_default_queue_size = 1, bu_deterministic = False, bu_heap = [], bu_subscriptions = [], bu_closed = False,
    bu_published_events = 0, bu_delivered_events = 0, bu_backpressure_events = 0, bu_last_delivery_order = []\<rparr> :: nat event_bus"
  let ?u = "\<lparr>su_event_type = (''builtins'', ''object''), su_consumer_name = ''c'', su_partition_key = None, su_queue_size = 1,
    su_queue = [], su_pending_events = 0, su_closed = False\<rparr> :: nat subscription"
  let ?b1 = "?b0\<lparr>bu_heap := [?u], bu_subscriptions := [(''c'', 0)]\<rparr>"
  let ?b2 = "?b1\<lparr>bu_heap := [?u\<lparr>su_queue := [Item sample_event], su_pending_events := 1\<rparr>], bu_published_events := 1,
    bu_delivered_events := 1, bu_last_delivery_order := [''c'']\<rparr>"
  let ?b3 = "?b2\<lparr>bu_heap := [?u]\<rparr>"
  have "subscribe (''builtins'', ''object'') ''c'' None None ?b0 = Inr (0, ?b1)"
    by (simp add: subscribe_def mk_subscription_def blank_or_padded_def py_strip_def py_isspace_def)
  then have s1: "bus_step ?b0 [Subscribed 0 (''builtins'', ''object'') None] ?b1" by (rule step_subscribe)
  have "publish sample_event None ?b1 = (Inr (), ?b2)"
    by (simp add: publish_def matching_subscriptions_def ordered_subscriptions_def sub_matches_def sub_full_def publish_nowait_def
        event_partition_key_def) (simp add: sample_event_def)
  then have s2: "bus_step ?b1 [Published sample_event (event_partition_key sample_event None)] ?b2" by (rule step_publish)
  have "consume_next 0 ?b2 = (Takes sample_event, ?b3)" by (simp add: consume_next_def sub_next_def upd_sub_def)
  then have s3: "bus_step ?b2 [Taken 0 sample_event] ?b3" by (intro step_take) simp_all
  have "bus_run ?b0 ((([] @ [Subscribed 0 (''builtins'', ''object'') None]) @ [Published sample_event (event_partition_key sample_event None)]) @
      [Taken 0 sample_event]) ?b3"
    by (rule run_step [OF run_step [OF run_step [OF run_start s1] s2] s3])
  then have "bus_run ?b0 [Subscribed 0 (''builtins'', ''object'') None, Published sample_event (Some ''k''), Taken 0 sample_event] ?b3"
    by (simp add: event_partition_key_def) (simp add: sample_event_def)
  moreover have "mk_event_bus 1 False 0 = Inr ?b0" by (simp add: mk_event_bus_def)
  ultimately show ?thesis by (intro exI [of _ ?b0] exI [of _ ?b3]) simp
qed

section \<open>Properties\<close>

text \<open>
  C3: delivery is complete, in order and bounded. On a bus that was constructed and then used in any
  way, what the consumer of a subscription took, followed by what is still in its queue, is exactly the
  sequence of accepted events of its class and partition from its subscription until its closing; nothing is lost,
  duplicated or reordered, even after the subscription was closed. The queue never holds more events than its limit, and
  its counter is right.
\<close>

theorem delivery_refines_fifo:
  assumes "mk_event_bus n d t = Inr b" and "bus_run b l b'" and "k < length (bu_heap b')"
  shows "taken_events k l @ queued_events (bu_heap b' ! k) = expected_events k l \<and>
    su_pending_events (bu_heap b' ! k) = int (length (queued_events (bu_heap b' ! k))) \<and>
    su_pending_events (bu_heap b' ! k) \<le> su_queue_size (bu_heap b' ! k)"
proof -
  have ok: "bus_ok b'" "log_agrees l b'" using run_keeps_log [OF assms(2,1)] by auto
  have "sub_inv (bu_heap b' ! k)" using ok(1) bus_invD(1) [OF _ assms(3)] by (simp add: bus_ok_def)
  then have "su_pending_events (bu_heap b' ! k) = int (length (queued_events (bu_heap b' ! k))) \<and>
      su_pending_events (bu_heap b' ! k) \<le> su_queue_size (bu_heap b' ! k)"
    by (auto elim: sub_invE)
  then show ?thesis using log_agreesD(1) [OF ok(2) assms(3)] by (simp add: expected_events_def)
qed

theorem delivery_refines_fifo_witness:
  "\<exists>b b' l. mk_event_bus 1 False 0 = Inr b \<and> bus_run b l b' \<and> 0 < length (bu_heap b') \<and>
     taken_events 0 l = [sample_event] \<and> queued_events (bu_heap b' ! 0) = []"
proof -
  let ?l = "[Subscribed 0 (''builtins'', ''object'') None, Published sample_event (Some ''k''), Taken 0 sample_event]"
  obtain b b' where b: "mk_event_bus 1 False 0 = Inr b" "bus_run b ?l b'" "length (bu_heap b') = 1" using sample_run by blast
  have "taken_events 0 ?l @ queued_events (bu_heap b' ! 0) = expected_events 0 ?l"
    using delivery_refines_fifo [OF b(1,2), of 0] b(3) by simp
  moreover have "expected_events 0 ?l = [sample_event]" "taken_events 0 ?l = [sample_event]"
    by (simp_all add: expected_events_def subscription_spec_def taken_events_def) (simp add: sample_event_def)
  ultimately have "queued_events (bu_heap b' ! 0) = []" by simp
  then show ?thesis using b \<open>taken_events 0 ?l = [sample_event]\<close> by (intro exI [of _ b] exI [of _ b'] exI [of _ ?l]) simp
qed

end
