(* ===== verification/Replay.thy ===== *)
theory Replay
  imports Schemas Event_Bus
begin

text \<open>
  \<open>src/pmrp/replay\<close> and \<open>src/pmrp/clock/replay.py\<close>: a dataset of recorded events is sorted, and published one by one
  under a bounded virtual clock. The event bus is an argument, its \<^verbatim>\<open>publish\<close> a function on a state of any type; the
  hash of one event is an argument too. The session that a run returns is checked by the validators of
  \<open>src/pmrp/schemas/replay.py\<close>.
\<close>

section \<open>Envelopes\<close>

datatype attribute = A_Null | A_Bool bool | A_Int int | A_Dec rat | A_Str string | A_List "attribute list" | A_Map "(string \<times> attribute) list"

record event_envelope =
  ev_event_id :: ident
  ev_event_type :: string
  ev_schema_version :: int
  ev_occurred_at :: instant
  ev_received_at :: instant
  ev_published_at :: instant
  ev_producer :: string
  ev_exchange :: "string option"
  ev_market_id :: "ident option"
  ev_account_id :: "ident option"
  ev_strategy_id :: "ident option"
  ev_order_id :: "ident option"
  ev_correlation_id :: ident
  ev_causation_id :: "ident option"
  ev_trace_id :: "string option"
  ev_replay_session_id :: "ident option"
  ev_simulation_session_id :: "ident option"
  ev_quality_flags :: "string list"
  ev_attributes :: "(string \<times> attribute) list"

definition attribute_get :: "string \<Rightarrow> event_envelope \<Rightarrow> attribute option" where
  "attribute_get name e = (case map_of (ev_attributes e) name of Some A_Null \<Rightarrow> None | r \<Rightarrow> r)"

section \<open>Ordering\<close>

definition replay_ordering_error :: "string \<Rightarrow> py_error" where
  "replay_ordering_error reason_code = Exc ''ReplayOrderingError'' reason_code"

definition exchange_sequence_key :: "event_envelope \<Rightarrow> (int \<times> int) result" where
  "exchange_sequence_key e =
     (case attribute_get ''exchange_sequence'' e of
        None \<Rightarrow> Inr (1, 0)
      | Some (A_Int n) \<Rightarrow> if n < 0 then Inl (replay_ordering_error ''replay_ordering_sequence_invalid'') else Inr (0, n)
      | Some _ \<Rightarrow> Inl (replay_ordering_error ''replay_ordering_sequence_invalid''))"

definition source_partition :: "event_envelope \<Rightarrow> string result" where
  "source_partition e =
     (case attribute_get ''source_partition'' e of
        None \<Rightarrow> Inr []
      | Some (A_Str s) \<Rightarrow> if blank_or_padded s then Inl (replay_ordering_error ''replay_ordering_partition_invalid'') else Inr s
      | Some _ \<Rightarrow> Inl (replay_ordering_error ''replay_ordering_partition_invalid''))"

type_synonym ordering_key = "instant \<times> (int \<times> int) \<times> instant \<times> string \<times> string"

definition replay_event_ordering_key :: "event_envelope \<Rightarrow> ordering_key result" where
  "replay_event_ordering_key e =
     bindE (exchange_sequence_key e) (\<lambda>sequence_key.
     bindE (source_partition e) (\<lambda>partition.
     Inr (ev_occurred_at e, sequence_key, ev_received_at e, partition, ev_event_id e)))"

text \<open>\<^verbatim>\<open>sorted(events, key=...)\<close>: all keys first, then a stable sort by key.\<close>

definition sort_replay_events :: "event_envelope list \<Rightarrow> event_envelope list result" where
  "sort_replay_events events =
     bindE (mapE replay_event_ordering_key events) (\<lambda>keys. Inr (map snd (sort_key fst (zip keys events))))"

section \<open>The replay clock\<close>

record replay_clock =
  rk_starts_at :: instant
  rk_ends_at :: instant
  rk_current_time :: instant

definition normalize_replay_time :: "replay_clock \<Rightarrow> instant \<Rightarrow> instant result" where
  "normalize_replay_time c t =
     (if t < rk_starts_at c \<or> rk_ends_at c < t
      then Inl (Exc ''ValueError'' ''replay clock time must be within the replay window'') else Inr t)"

definition mk_replay_clock :: "instant \<Rightarrow> instant \<Rightarrow> instant option \<Rightarrow> replay_clock result" where
  "mk_replay_clock starts_at ends_at current_time =
     (if ends_at < starts_at then Inl (Exc ''ValueError'' ''replay clock ends_at must not precede starts_at'')
      else let c = \<lparr>rk_starts_at = starts_at, rk_ends_at = ends_at, rk_current_time = starts_at\<rparr> in
        bindE (normalize_replay_time c (case current_time of None \<Rightarrow> starts_at | Some t \<Rightarrow> t)) (\<lambda>t.
        Inr (c\<lparr>rk_current_time := t\<rparr>)))"

definition clock_advance_to :: "instant \<Rightarrow> replay_clock \<Rightarrow> replay_clock result" where
  "clock_advance_to t c = bindE (normalize_replay_time c t) (\<lambda>t. Inr (c\<lparr>rk_current_time := t\<rparr>))"

definition clock_advance :: "int \<Rightarrow> replay_clock \<Rightarrow> replay_clock result" where
  "clock_advance duration c =
     (if duration < 0 then Inl (Exc ''ValueError'' ''sleep duration must not be negative'')
      else clock_advance_to (rk_current_time c + duration) c)"

definition clock_reset :: "replay_clock \<Rightarrow> replay_clock" where
  "clock_reset c = c\<lparr>rk_current_time := rk_starts_at c\<rparr>"

section \<open>Manifests, datasets and sessions\<close>

record replay_manifest =
  mf_replay_session_id :: ident
  mf_dataset_id :: string
  mf_dataset_checksum :: string
  mf_starts_at :: instant
  mf_ends_at :: instant
  mf_speed :: rat
  mf_deterministic :: bool
  mf_random_seed :: int
  mf_event_ordering_policy_version :: string
  mf_strategy_versions :: "(string \<times> string) list"
  mf_model_versions :: "(string \<times> string) list"
  mf_configuration_hash :: string
  mf_code_commit :: string
  mf_dependency_lock_hash :: string
  mf_created_at :: instant
  mf_created_by :: string

definition version_mapping_ok :: "(string \<times> string) list \<Rightarrow> bool" where
  "version_mapping_ok m \<longleftrightarrow> list_all (\<lambda>(k, v). \<not> blank_or_padded k \<and> \<not> blank_or_padded v) m"

definition mk_replay_manifest :: "replay_manifest \<Rightarrow> replay_manifest result" where
  "mk_replay_manifest m =
     bindE (guards
       [(\<not> text_in 1 128 (mf_dataset_id m), ValidationError (Out_of_range F_text)),
        (\<not> text_in 1 256 (mf_dataset_checksum m), ValidationError (Out_of_range F_text)),
        (mf_speed m \<le> 0, ValidationError (Out_of_range F_amount)),
        (mf_random_seed m < 0, ValidationError (Out_of_range F_amount)),
        (\<not> text_in 1 64 (mf_event_ordering_policy_version m), ValidationError (Out_of_range F_text)),
        (\<not> version_mapping_ok (mf_strategy_versions m), ValidationError (Out_of_range F_text)),
        (\<not> version_mapping_ok (mf_model_versions m), ValidationError (Out_of_range F_text)),
        (\<not> text_in 1 256 (mf_configuration_hash m), ValidationError (Out_of_range F_text)),
        (\<not> text_in 1 128 (mf_code_commit m), ValidationError (Out_of_range F_text)),
        (\<not> text_in 1 256 (mf_dependency_lock_hash m), ValidationError (Out_of_range F_text)),
        (\<not> text_in 1 128 (mf_created_by m), ValidationError (Out_of_range F_text)),
        (mf_ends_at m \<le> mf_starts_at m, ValidationError (Message ''ends_at must be after starts_at''))]) (\<lambda>_. Inr m)"

record replay_dataset =
  ds_manifest :: replay_manifest
  ds_events :: "event_envelope list"
  ds_dataset_checksum :: string

definition event_in_dataset :: "replay_manifest \<Rightarrow> event_envelope \<Rightarrow> bool" where
  "event_in_dataset m e \<longleftrightarrow> ev_replay_session_id e = Some (mf_replay_session_id m) \<and>
     mf_starts_at m \<le> ev_occurred_at e \<and> ev_occurred_at e \<le> mf_ends_at m"

definition mk_replay_dataset :: "replay_dataset \<Rightarrow> replay_dataset result" where
  "mk_replay_dataset d =
     bindE (guards
       [(ds_events d = [], ValidationError (Out_of_range F_text)),
        (\<not> text_in 1 256 (ds_dataset_checksum d), ValidationError (Out_of_range F_text)),
        (ds_dataset_checksum d \<noteq> mf_dataset_checksum (ds_manifest d),
           ValidationError (Message ''dataset_checksum must match manifest dataset_checksum''))]) (\<lambda>_.
     bindE (mapE (\<lambda>e. guards
       [(ev_replay_session_id e \<noteq> Some (mf_replay_session_id (ds_manifest d)),
           ValidationError (Message ''event replay_session_id must match manifest replay_session_id'')),
        (ev_occurred_at e < mf_starts_at (ds_manifest d) \<or> mf_ends_at (ds_manifest d) < ev_occurred_at e,
           ValidationError (Message ''event occurred_at must be within manifest replay window''))]) (ds_events d)) (\<lambda>_. Inr d))"

datatype replay_state = RS_CREATED | RS_LOADING | RS_READY | RS_RUNNING | RS_PAUSED | RS_COMPLETED | RS_FAILED | RS_CANCELLED

record replay_session =
  ses_replay_session_id :: ident
  ses_manifest :: replay_manifest
  ses_state :: replay_state
  ses_current_time :: "instant option"
  ses_processed_events :: int
  ses_rejected_events :: int
  ses_started_at :: "instant option"
  ses_completed_at :: "instant option"
  ses_result_checksum :: "string option"
  ses_failure_message :: "string option"

definition before_opt :: "instant option \<Rightarrow> instant \<Rightarrow> bool" where
  "before_opt x t \<longleftrightarrow> (case x of None \<Rightarrow> False | Some u \<Rightarrow> u < t)"

definition validate_session_lifecycle :: "replay_session \<Rightarrow> (bool \<times> py_error) list" where
  "validate_session_lifecycle s =
     (let m = ses_manifest s; bad = (\<lambda>msg. ValidationError (Message msg)) in
      [(ses_replay_session_id s \<noteq> mf_replay_session_id m, bad ''replay_session_id must match manifest replay_session_id''),
       (\<not> pred_option (\<lambda>t. mf_starts_at m \<le> t \<and> t \<le> mf_ends_at m) (ses_current_time s),
          bad ''current_time must be within the manifest replay window''),
       (before_opt (ses_started_at s) (mf_created_at m), bad ''started_at must not be before manifest created_at''),
       (before_opt (ses_completed_at s) (mf_created_at m), bad ''completed_at must not be before manifest created_at''),
       (case ses_started_at s of None \<Rightarrow> False | Some t \<Rightarrow> before_opt (ses_completed_at s) t,
          bad ''completed_at must not be before started_at'')] @
      (if ses_state s \<in> {RS_RUNNING, RS_PAUSED} then
         [(ses_started_at s = None, bad ''active replay session requires started_at''),
          (ses_current_time s = None, bad ''active replay session requires current_time''),
          (ses_completed_at s \<noteq> None \<or> ses_result_checksum s \<noteq> None,
             bad ''active replay session cannot contain terminal result fields'')]
       else []) @
      [(ses_state s \<in> {RS_COMPLETED, RS_FAILED, RS_CANCELLED} \<and> ses_completed_at s = None,
          bad ''terminal replay session requires completed_at'')] @
      (if ses_state s = RS_COMPLETED then
         [(ses_started_at s = None, bad ''completed replay session requires started_at''),
          (ses_result_checksum s = None, bad ''completed replay session requires result_checksum''),
          (ses_failure_message s \<noteq> None, bad ''completed replay session cannot contain failure_message'')]
       else if ses_state s = RS_FAILED then
         [(ses_failure_message s = None, bad ''failed replay session requires failure_message''),
          (ses_result_checksum s \<noteq> None, bad ''failed replay session cannot contain result_checksum'')]
       else [(ses_result_checksum s \<noteq> None, bad ''non-completed replay session cannot contain result_checksum'')]) @
      [(ses_state s \<noteq> RS_FAILED \<and> ses_failure_message s \<noteq> None, bad ''non-failed replay session cannot contain failure_message'')])"

definition mk_replay_session :: "replay_session \<Rightarrow> replay_session result" where
  "mk_replay_session s =
     bindE (guards
       ([(ses_processed_events s < 0, ValidationError (Out_of_range F_amount)),
         (ses_rejected_events s < 0, ValidationError (Out_of_range F_amount)),
         (\<not> pred_option (text_in 1 256) (ses_result_checksum s), ValidationError (Out_of_range F_text)),
         (\<not> pred_option (text_in 1 1024) (ses_failure_message s), ValidationError (Out_of_range F_text))] @
        validate_session_lifecycle s)) (\<lambda>_. Inr s)"

section \<open>Advancing the clock to an event\<close>

definition replay_clock_error :: "string \<Rightarrow> py_error" where
  "replay_clock_error reason_code = Exc ''ReplayClockError'' reason_code"

definition build_replay_clock :: "replay_manifest \<Rightarrow> instant option \<Rightarrow> replay_clock result" where
  "build_replay_clock m current_time =
     (case mk_replay_clock (mf_starts_at m) (mf_ends_at m) current_time of
        Inl _ \<Rightarrow> Inl (replay_clock_error ''replay_clock_initialization_failed'')
      | Inr c \<Rightarrow> Inr c)"

definition advance_replay_clock_to_event :: "replay_clock \<Rightarrow> event_envelope \<Rightarrow> ident option \<Rightarrow> replay_clock result" where
  "advance_replay_clock_to_event c e session_id =
     bindE (guards
       [(ev_replay_session_id e = None, replay_clock_error ''replay_clock_event_session_missing''),
        (session_id \<noteq> None \<and> ev_replay_session_id e \<noteq> session_id, replay_clock_error ''replay_clock_event_session_mismatch''),
        (ev_occurred_at e < rk_current_time c, replay_clock_error ''replay_clock_event_time_reversed'')]) (\<lambda>_.
     case clock_advance_to (ev_occurred_at e) c of
       Inl _ \<Rightarrow> Inl (replay_clock_error ''replay_clock_event_out_of_window'')
     | Inr c' \<Rightarrow> Inr c')"

section \<open>The engine\<close>

definition replay_engine_error :: "string \<Rightarrow> py_error" where
  "replay_engine_error reason_code = Exc ''ReplayEngineError'' reason_code"

definition REPLAY_ORDERING_POLICY_VERSION :: string where
  "REPLAY_ORDERING_POLICY_VERSION = ''occurred-sequence-received-v1''"

definition validate_engine_inputs :: "replay_manifest \<Rightarrow> replay_clock \<Rightarrow> (bool \<times> py_error) list" where
  "validate_engine_inputs m c =
     [(mf_event_ordering_policy_version m \<noteq> REPLAY_ORDERING_POLICY_VERSION,
         replay_engine_error ''replay_engine_ordering_policy_unsupported''),
      (rk_starts_at c \<noteq> mf_starts_at m \<or> rk_ends_at c \<noteq> mf_ends_at m, replay_engine_error ''replay_engine_clock_window_mismatch'')]"

definition calculate_replay_result_checksum ::
  "hasher \<Rightarrow> (event_envelope \<Rightarrow> string) \<Rightarrow> replay_manifest \<Rightarrow> event_envelope list \<Rightarrow> string" where
  "calculate_replay_result_checksum H event_hash m ordered =
     H (CMap
       [(''dataset_checksum'', CStr (mf_dataset_checksum m)), (''dataset_id'', CStr (mf_dataset_id m)),
        (''engine_version'', CStr ''replay_engine_v1''), (''event_hashes'', CList (map (\<lambda>e. CStr (event_hash e)) ordered)),
        (''event_ordering_policy_version'', CStr (mf_event_ordering_policy_version m)),
        (''processed_events'', CInt (int (length ordered))), (''replay_session_id'', CStr (mf_replay_session_id m))])"

type_synonym 's publisher = "event_envelope \<Rightarrow> 's \<Rightarrow> unit result \<times> 's"

fun replay_loop ::
  "'s publisher \<Rightarrow> ident \<Rightarrow> event_envelope list \<Rightarrow> nat \<Rightarrow> replay_clock \<Rightarrow> 's \<Rightarrow> nat result \<times> replay_clock \<times> 's" where
  "replay_loop publish_event session_id [] processed c s = (Inr processed, c, s)"
| "replay_loop publish_event session_id (e # es) processed c s =
     (case advance_replay_clock_to_event c e (Some session_id) of
        Inl err \<Rightarrow> (Inl err, c, s)
      | Inr c' \<Rightarrow>
          (case publish_event e s of
             (Inl _, s') \<Rightarrow> (Inl (replay_engine_error ''replay_engine_event_publish_failed''), c', s')
           | (Inr _, s') \<Rightarrow> replay_loop publish_event session_id es (Suc processed) c' s'))"

definition completed_session :: "replay_manifest \<Rightarrow> nat \<Rightarrow> instant \<Rightarrow> string \<Rightarrow> replay_session" where
  "completed_session m processed completed_at checksum =
     \<lparr>ses_replay_session_id = mf_replay_session_id m, ses_manifest = m, ses_state = RS_COMPLETED,
      ses_current_time = Some completed_at, ses_processed_events = int processed, ses_rejected_events = 0,
      ses_started_at = Some (mf_starts_at m), ses_completed_at = Some completed_at,
      ses_result_checksum = Some checksum, ses_failure_message = None\<rparr>"

definition replay_run ::
  "hasher \<Rightarrow> (event_envelope \<Rightarrow> string) \<Rightarrow> 's publisher \<Rightarrow> replay_dataset \<Rightarrow> replay_clock \<Rightarrow> 's \<Rightarrow>
     replay_session result \<times> replay_clock \<times> 's" where
  "replay_run H event_hash publish_event d c s =
     (case bindE (guards (validate_engine_inputs (ds_manifest d) c)) (\<lambda>_. sort_replay_events (ds_events d)) of
        Inl err \<Rightarrow> (Inl err, c, s)
      | Inr ordered \<Rightarrow>
          (let checksum = calculate_replay_result_checksum H event_hash (ds_manifest d) ordered in
           case replay_loop publish_event (mf_replay_session_id (ds_manifest d)) ordered 0 c s of
             (Inl err, c', s') \<Rightarrow> (Inl err, c', s')
           | (Inr processed, c', s') \<Rightarrow>
               (mk_replay_session (completed_session (ds_manifest d) processed (rk_current_time c') checksum), c', s')))"

section \<open>Sorting\<close>

text \<open>The key of an event whose attributes are in order.\<close>

definition orderable :: "event_envelope \<Rightarrow> bool" where
  "orderable e \<longleftrightarrow> (case replay_event_ordering_key e of Inr _ \<Rightarrow> True | Inl _ \<Rightarrow> False)"

definition event_key :: "event_envelope \<Rightarrow> ordering_key" where
  "event_key e = (case replay_event_ordering_key e of Inr k \<Rightarrow> k | Inl _ \<Rightarrow> (0, (0, 0), 0, [], []))"

lemma orderable_key: "orderable e \<Longrightarrow> replay_event_ordering_key e = Inr (event_key e)"
  by (auto simp: orderable_def event_key_def split: sum.splits)

lemma key_parts: "orderable e \<Longrightarrow> fst (event_key e) = ev_occurred_at e \<and> snd (snd (snd (snd (event_key e)))) = ev_event_id e"
  by (auto simp: orderable_def event_key_def replay_event_ordering_key_def bindE_eq_Inr split: sum.splits)

lemma sort_decorated: "map snd (sort_key fst (map (\<lambda>x. (f x, x)) xs)) = sort_key f xs"
proof -
  have ins: "insort_key fst (f x, x) (map (\<lambda>x. (f x, x)) ys) = map (\<lambda>x. (f x, x)) (insort_key f x ys)" for x ys
    by (induction ys) auto
  have "sort_key fst (map (\<lambda>x. (f x, x)) xs) = map (\<lambda>x. (f x, x)) (sort_key f xs)"
    by (induction xs) (simp_all add: ins)
  then show ?thesis by (simp add: comp_def)
qed

lemma sort_replay_events_eq:
  assumes "list_all orderable events"
  shows "sort_replay_events events = Inr (sort_key event_key events)"
proof -
  have "mapE replay_event_ordering_key events = Inr (map event_key events)"
    using assms by (intro mapE_ok) (simp add: list_all_iff orderable_key)
  moreover have "zip (map event_key events) events = map (\<lambda>x. (event_key x, x)) events"
    by (induction events) simp_all
  ultimately show ?thesis by (simp add: sort_replay_events_def sort_decorated)
qed

lemma sort_replay_events_iff: "(\<exists>ordered. sort_replay_events events = Inr ordered) \<longleftrightarrow> list_all orderable events"
proof
  assume "\<exists>ordered. sort_replay_events events = Inr ordered"
  then obtain keys where "mapE replay_event_ordering_key events = Inr keys" by (auto simp: sort_replay_events_def bindE_eq_Inr)
  from mapE_all [OF this] show "list_all orderable events" by (force simp: list_all_iff orderable_def split: sum.splits)
qed (simp add: sort_replay_events_eq)

lemma sorted_fst:
  fixes f :: "'x \<Rightarrow> 'a::linorder \<times> 'b::linorder"
  assumes "sorted (map f xs)"
  shows "sorted (map (\<lambda>x. fst (f x)) xs)"
proof -
  have "f x \<le> f y \<Longrightarrow> fst (f x) \<le> fst (f y)" for x y by (auto simp: less_eq_prod_def)
  then show ?thesis using assms unfolding sorted_map by (auto elim: sorted_wrt_mono_rel [rotated])
qed

lemma sorted_occurred:
  assumes "list_all orderable events"
  shows "sorted (map ev_occurred_at (sort_key event_key events))"
proof -
  have "sorted (map (\<lambda>e. fst (event_key e)) (sort_key event_key events))" by (rule sorted_fst) simp
  moreover have "map (\<lambda>e. fst (event_key e)) (sort_key event_key events) = map ev_occurred_at (sort_key event_key events)"
    using assms by (auto simp: list_all_iff key_parts)
  ultimately show ?thesis by (simp only:)
qed

lemma sort_events_perm:
  assumes "mset xs = mset ys" and "list_all orderable xs" and "inj_on ev_event_id (set xs)"
  shows "sort_key event_key xs = sort_key event_key ys"
proof (rule sort_key_inj_key_eq)
  show "mset xs = mset (sort_key event_key ys)" using assms(1) by simp
  show "inj_on event_key (set xs)"
  proof (rule inj_onI)
    fix x y assume "x \<in> set xs" "y \<in> set xs" "event_key x = event_key y"
    moreover from this have "ev_event_id x = ev_event_id y" using key_parts [of x] key_parts [of y] assms(2) by (simp add: list_all_iff)
    ultimately show "x = y" using assms(3) by (simp add: inj_on_def)
  qed
  show "sorted (map event_key (sort_key event_key ys))" by simp
qed

section \<open>The loop\<close>

fun publishes :: "'s publisher \<Rightarrow> event_envelope list \<Rightarrow> 's \<Rightarrow> bool" where
  "publishes publish_event [] s \<longleftrightarrow> True"
| "publishes publish_event (e # es) s \<longleftrightarrow> fst (publish_event e s) = Inr () \<and> publishes publish_event es (snd (publish_event e s))"

definition publish_all :: "'s publisher \<Rightarrow> event_envelope list \<Rightarrow> 's \<Rightarrow> 's" where
  "publish_all publish_event es s = foldl (\<lambda>s e. snd (publish_event e s)) s es"

lemma advance_ok:
  assumes "ev_replay_session_id e = Some sid" and "rk_current_time c \<le> ev_occurred_at e"
    and "rk_starts_at c \<le> ev_occurred_at e" and "ev_occurred_at e \<le> rk_ends_at c"
  shows "advance_replay_clock_to_event c e (Some sid) = Inr (c\<lparr>rk_current_time := ev_occurred_at e\<rparr>)"
  using assms by (simp add: advance_replay_clock_to_event_def clock_advance_to_def normalize_replay_time_def)

lemma replay_loop_ok:
  assumes "publishes p es s" and "sorted (map ev_occurred_at es)" and "\<forall>e \<in> set es. ev_replay_session_id e = Some sid \<and>
      rk_current_time c \<le> ev_occurred_at e \<and> rk_starts_at c \<le> ev_occurred_at e \<and> ev_occurred_at e \<le> rk_ends_at c"
  shows "replay_loop p sid es n c s =
    (Inr (n + length es), c\<lparr>rk_current_time := (if es = [] then rk_current_time c else ev_occurred_at (last es))\<rparr>, publish_all p es s)"
  using assms
proof (induction es arbitrary: n c s)
  case Nil
  then show ?case by (simp add: publish_all_def)
next
  case (Cons e es)
  let ?c = "c\<lparr>rk_current_time := ev_occurred_at e\<rparr>"
  have adv: "advance_replay_clock_to_event c e (Some sid) = Inr ?c" using Cons.prems(3) by (intro advance_ok) simp_all
  obtain s' where s': "p e s = (Inr (), s')" "publishes p es s'" using Cons.prems(1) by (cases "p e s") auto
  have "\<forall>e' \<in> set es. ev_replay_session_id e' = Some sid \<and> rk_current_time ?c \<le> ev_occurred_at e' \<and>
      rk_starts_at ?c \<le> ev_occurred_at e' \<and> ev_occurred_at e' \<le> rk_ends_at ?c"
    using Cons.prems(2,3) by auto
  from Cons.IH [OF s'(2) _ this, of "Suc n"] Cons.prems(2) show ?case by (auto simp: adv s'(1) publish_all_def)
qed

section \<open>Datasets and sessions\<close>

lemma dataset_events:
  assumes "mk_replay_dataset d = Inr d'"
  shows "d' = d" and "ds_events d \<noteq> []" and "list_all (event_in_dataset (ds_manifest d)) (ds_events d)"
proof -
  from assms have ok: "\<not> ds_events d = []" "d' = d" and "\<exists>us. mapE (\<lambda>e. guards
       [(ev_replay_session_id e \<noteq> Some (mf_replay_session_id (ds_manifest d)),
           ValidationError (Message ''event replay_session_id must match manifest replay_session_id'')),
        (ev_occurred_at e < mf_starts_at (ds_manifest d) \<or> mf_ends_at (ds_manifest d) < ev_occurred_at e,
           ValidationError (Message ''event occurred_at must be within manifest replay window''))]) (ds_events d) = Inr us"
    by (auto simp: mk_replay_dataset_def bindE_eq_Inr guards_ok_iff simp del: guards.simps)
  then obtain us where us: "mapE (\<lambda>e. guards
       [(ev_replay_session_id e \<noteq> Some (mf_replay_session_id (ds_manifest d)),
           ValidationError (Message ''event replay_session_id must match manifest replay_session_id'')),
        (ev_occurred_at e < mf_starts_at (ds_manifest d) \<or> mf_ends_at (ds_manifest d) < ev_occurred_at e,
           ValidationError (Message ''event occurred_at must be within manifest replay window''))]) (ds_events d) = Inr us" by blast
  show "d' = d" "ds_events d \<noteq> []" using ok by auto
  show "list_all (event_in_dataset (ds_manifest d)) (ds_events d)"
    unfolding list_all_iff using mapE_all [OF us]
    by (auto simp: event_in_dataset_def guards_ok_iff not_less simp del: guards.simps)
qed

lemma completed_session_iff:
  assumes "mf_starts_at m \<le> t" and "t \<le> mf_ends_at m" and "text_in 1 256 checksum"
  shows "mk_replay_session (completed_session m n t checksum) =
    (if mf_created_at m \<le> mf_starts_at m then Inr (completed_session m n t checksum)
     else Inl (ValidationError (Message ''started_at must not be before manifest created_at'')))"
  using assms
  by (auto simp: mk_replay_session_def completed_session_def validate_session_lifecycle_def before_opt_def Let_def)

lemma fresh_clock:
  assumes "build_replay_clock m None = Inr c"
  shows "rk_starts_at c = mf_starts_at m" and "rk_ends_at c = mf_ends_at m" and "rk_current_time c = mf_starts_at m"
  using assms
  by (auto simp: build_replay_clock_def mk_replay_clock_def normalize_replay_time_def Let_def split: if_splits sum.splits)

lemma last_sorted_Max:
  assumes "sorted (map f es)" and "es \<noteq> []"
  shows "f (last es) = Max (f ` set es)"
proof -
  have "f x \<le> f (last es)" if "x \<in> set es" for x
    using assms that by (induction es) auto
  then show ?thesis using assms(2) by (intro Max_eqI [symmetric]) auto
qed

text \<open>A run over a valid dataset with a fresh clock, when the bus accepts every event.\<close>

lemma replay_run_eq:
  assumes "mk_replay_dataset d = Inr d'" and "mf_event_ordering_policy_version (ds_manifest d) = REPLAY_ORDERING_POLICY_VERSION"
    and "build_replay_clock (ds_manifest d) None = Inr c" and "list_all orderable (ds_events d)"
    and "publishes p (sort_key event_key (ds_events d)) s"
  shows "replay_run H h p d c s =
    (let ordered = sort_key event_key (ds_events d); t = Max (ev_occurred_at ` set (ds_events d)) in
     (mk_replay_session (completed_session (ds_manifest d) (length (ds_events d)) t
        (calculate_replay_result_checksum H h (ds_manifest d) ordered)),
      c\<lparr>rk_current_time := t\<rparr>, publish_all p ordered s))"
proof -
  let ?m = "ds_manifest d" and ?o = "sort_key event_key (ds_events d)"
  note ds = dataset_events [OF assms(1)] and ck = fresh_clock [OF assms(3)]
  have guard: "guards (validate_engine_inputs ?m c) = Inr ()" using assms(2) ck by (simp add: validate_engine_inputs_def)
  have ne: "?o \<noteq> []" using ds(2) by (metis set_empty2 set_sort)
  have sorted: "sorted (map ev_occurred_at ?o)" by (rule sorted_occurred [OF assms(4)])
  have "\<forall>e \<in> set ?o. ev_replay_session_id e = Some (mf_replay_session_id ?m) \<and>
      rk_current_time c \<le> ev_occurred_at e \<and> rk_starts_at c \<le> ev_occurred_at e \<and> ev_occurred_at e \<le> rk_ends_at c"
    using ds(3) by (auto simp: list_all_iff event_in_dataset_def ck)
  from replay_loop_ok [OF assms(5) sorted this, of 0] ne
  have "replay_loop p (mf_replay_session_id ?m) ?o 0 c s =
      (Inr (length (ds_events d)), c\<lparr>rk_current_time := ev_occurred_at (last ?o)\<rparr>, publish_all p ?o s)" by simp
  moreover have "ev_occurred_at (last ?o) = Max (ev_occurred_at ` set (ds_events d))"
    using last_sorted_Max [OF sorted ne] by simp
  ultimately show ?thesis by (simp add: replay_run_def guard sort_replay_events_eq [OF assms(4)] Let_def)
qed

section \<open>The in-process bus as publisher\<close>

text \<open>An envelope on the bus: its classes are those of \<^verbatim>\<open>EventEnvelope\<close>, its \<^verbatim>\<open>market_id\<close> is the partition.\<close>

definition bus_event_of :: "event_envelope \<Rightarrow> event_envelope bus_event" where
  "bus_event_of e =
     \<lparr>be_classes = [(''pmrp.schemas.events'', ''EventEnvelope''), (''pmrp.schemas.base'', ''CanonicalModel''),
        (''pydantic.main'', ''BaseModel''), (''builtins'', ''object'')],
      be_market_id = ev_market_id e, be_payload = e\<rparr>"

definition bus_publisher :: "event_envelope event_bus publisher" where
  "bus_publisher e b = publish (bus_event_of e) None b"

definition wants :: "event_envelope subscription \<Rightarrow> event_envelope \<Rightarrow> bool" where
  "wants u e \<longleftrightarrow> sub_matches u (bus_event_of e) (ev_market_id e)"

lemma publish_all_bus:
  assumes "bus_inv b" and "publishes bus_publisher es b" and "k < length (bu_heap b)"
  shows "queued_events (bu_heap (publish_all bus_publisher es b) ! k) =
    queued_events (bu_heap b ! k) @ map bus_event_of (filter (wants (bu_heap b ! k)) es)"
  using assms
proof (induction es arbitrary: b)
  case Nil
  then show ?case by (simp add: publish_all_def)
next
  case (Cons e es)
  obtain b' where "bus_publisher e b = (Inr (), b')" and pub: "publishes bus_publisher es b'"
    using Cons.prems(2) by (cases "bus_publisher e b") auto
  then have b': "publish (bus_event_of e) None b = (Inr (), b')" "publishes bus_publisher es b'"
    by (simp_all add: bus_publisher_def [of e])
  note eff = publish_effect [OF Cons.prems(1) b'(1)]
  have part: "event_partition_key (bus_event_of e) None = ev_market_id e" by (simp add: event_partition_key_def bus_event_of_def)
  have same: "wants (bu_heap b' ! k) = wants (bu_heap b ! k)"
    using eff(4) [OF refl Cons.prems(3)] by (auto simp: wants_def sub_matches_def same_identity_def)
  have "publish_all bus_publisher (e # es) b = publish_all bus_publisher es b'"
    by (simp add: publish_all_def bus_publisher_def b'(1))
  then show ?case
    using Cons.IH [OF eff(1) b'(2)] eff(2) Cons.prems(3) eff(4) [OF refl Cons.prems(3)] part
    by (simp add: same wants_def)
qed

section \<open>A sample dataset\<close>

definition sample_envelope :: "ident \<Rightarrow> instant \<Rightarrow> event_envelope" where
  "sample_envelope i t =
     \<lparr>ev_event_id = i, ev_event_type = ''market.trade_observed'', ev_schema_version = 1, ev_occurred_at = t, ev_received_at = t,
      ev_published_at = t, ev_producer = ''p'', ev_exchange = None, ev_market_id = Some ''m'', ev_account_id = None,
      ev_strategy_id = None, ev_order_id = None, ev_correlation_id = ''c'', ev_causation_id = None, ev_trace_id = None,
      ev_replay_session_id = Some ''r'', ev_simulation_session_id = None, ev_quality_flags = [], ev_attributes = []\<rparr>"

definition sample_manifest :: "instant \<Rightarrow> replay_manifest" where
  "sample_manifest created =
     \<lparr>mf_replay_session_id = ''r'', mf_dataset_id = ''d'', mf_dataset_checksum = ''x'', mf_starts_at = 10, mf_ends_at = 20, mf_speed = 1,
      mf_deterministic = True, mf_random_seed = 0, mf_event_ordering_policy_version = REPLAY_ORDERING_POLICY_VERSION,
      mf_strategy_versions = [], mf_model_versions = [], mf_configuration_hash = ''h'', mf_code_commit = ''g'',
      mf_dependency_lock_hash = ''l'', mf_created_at = created, mf_created_by = ''u''\<rparr>"

definition sample_dataset :: "instant \<Rightarrow> event_envelope list \<Rightarrow> replay_dataset" where
  "sample_dataset created es = \<lparr>ds_manifest = sample_manifest created, ds_events = es, ds_dataset_checksum = ''x''\<rparr>"

lemma sample_orderable: "orderable (sample_envelope i t)"
  by (simp add: orderable_def replay_event_ordering_key_def exchange_sequence_key_def source_partition_def attribute_get_def sample_envelope_def)

lemma sample_dataset_ok:
  "10 \<le> t \<Longrightarrow> t \<le> 20 \<Longrightarrow> mk_replay_dataset (sample_dataset created [sample_envelope i t]) = Inr (sample_dataset created [sample_envelope i t])"
  by (simp add: mk_replay_dataset_def sample_dataset_def sample_manifest_def text_in_def sample_envelope_def)

lemma sample_clock: "build_replay_clock (sample_manifest created) None = Inr \<lparr>rk_starts_at = 10, rk_ends_at = 20, rk_current_time = 10\<rparr>"
  by (simp add: build_replay_clock_def mk_replay_clock_def normalize_replay_time_def sample_manifest_def)

section \<open>Properties\<close>

text \<open>
  C24: a replay does not depend on the order of its files. Two datasets with the same manifest and the same
  events in any order, with distinct event identifiers and well-formed ordering attributes, give the same session (or the same
  exception), the same clock and the same state of the bus: the ordering key leaves no ties.
\<close>

theorem replay_order_independent:
  assumes "mset (ds_events d) = mset (ds_events d')" and "ds_manifest d = ds_manifest d'" and "list_all orderable (ds_events d)"
    and "inj_on ev_event_id (set (ds_events d))"
  shows "replay_run H h p d c s = replay_run H h p d' c s"
proof -
  have "set (ds_events d) = set (ds_events d')" using assms(1) by (rule mset_eq_setD)
  then have "list_all orderable (ds_events d')" using assms(3) by (simp add: list_all_iff)
  then have "sort_replay_events (ds_events d) = sort_replay_events (ds_events d')"
    by (simp add: sort_replay_events_eq assms(3) sort_events_perm [OF assms(1,3,4)])
  then show ?thesis by (simp only: replay_run_def assms(2))
qed

theorem replay_order_independent_witness:
  "replay_run (\<lambda>_. ''sum'') (\<lambda>_. ''e'') (\<lambda>e n. (Inr (), Suc n)) (sample_dataset 0 [sample_envelope ''b'' 15, sample_envelope ''a'' 12])
     \<lparr>rk_starts_at = 10, rk_ends_at = 20, rk_current_time = 10\<rparr> 0 =
   replay_run (\<lambda>_. ''sum'') (\<lambda>_. ''e'') (\<lambda>e n. (Inr (), Suc n)) (sample_dataset 0 [sample_envelope ''a'' 12, sample_envelope ''b'' 15])
     \<lparr>rk_starts_at = 10, rk_ends_at = 20, rk_current_time = 10\<rparr> 0"
  by (rule replay_order_independent) (simp_all add: sample_dataset_def sample_orderable, simp add: sample_envelope_def)

text \<open>
  C19: the outcome of a replay. For a valid dataset, the supported ordering policy, a fresh clock of the manifest,
  well-formed ordering attributes and a bus that accepts the events, every event is published, in the order of the
  keys, and the clock ends at the latest event. The session is then returned exactly when the manifest was created no later than the
  start of the replayed window; otherwise \<^verbatim>\<open>run\<close> raises after it has published everything.
\<close>

theorem replay_outcome:
  assumes "mk_replay_dataset d = Inr d'" and "mf_event_ordering_policy_version (ds_manifest d) = REPLAY_ORDERING_POLICY_VERSION"
    and "build_replay_clock (ds_manifest d) None = Inr c" and "list_all orderable (ds_events d)"
    and "publishes p (sort_key event_key (ds_events d)) s"
    and "text_in 1 256 (calculate_replay_result_checksum H h (ds_manifest d) (sort_key event_key (ds_events d)))"
  shows "\<exists>res. replay_run H h p d c s =
      (res, c\<lparr>rk_current_time := Max (ev_occurred_at ` set (ds_events d))\<rparr>, publish_all p (sort_key event_key (ds_events d)) s) \<and>
    (if mf_created_at (ds_manifest d) \<le> mf_starts_at (ds_manifest d)
     then \<exists>ses. res = Inr ses \<and> ses_state ses = RS_COMPLETED \<and> ses_processed_events ses = int (length (ds_events d)) \<and>
       ses_completed_at ses = Some (Max (ev_occurred_at ` set (ds_events d)))
     else \<exists>err. res = Inl err)"
proof -
  let ?t = "Max (ev_occurred_at ` set (ds_events d))"
  note ds = dataset_events [OF assms(1)]
  have "?t \<in> ev_occurred_at ` set (ds_events d)" using ds(2) by (intro Max_in) auto
  then have "mf_starts_at (ds_manifest d) \<le> ?t" "?t \<le> mf_ends_at (ds_manifest d)"
    using ds(3) by (auto simp: list_all_iff event_in_dataset_def)
  then show ?thesis
    using completed_session_iff [OF _ _ assms(6)] by (simp add: replay_run_eq [OF assms(1-5)] Let_def) (simp add: completed_session_def)
qed

theorem replay_outcome_witness:
  "\<exists>res c'. replay_run (\<lambda>_. ''sum'') (\<lambda>_. ''e'') (\<lambda>e n. (Inr (), Suc n)) (sample_dataset 12 [sample_envelope ''a'' 15])
     \<lparr>rk_starts_at = 10, rk_ends_at = 20, rk_current_time = 10\<rparr> 0 = (Inl res, c', 1)"
proof -
  have m: "ds_manifest (sample_dataset 12 [sample_envelope ''a'' 15]) = sample_manifest 12"
    "ds_events (sample_dataset 12 [sample_envelope ''a'' 15]) = [sample_envelope ''a'' 15]"
    by (simp_all add: sample_dataset_def)
  have pol: "mf_event_ordering_policy_version (sample_manifest 12) = REPLAY_ORDERING_POLICY_VERSION"
    "mf_created_at (sample_manifest 12) = 12" "mf_starts_at (sample_manifest 12) = 10" by (simp_all add: sample_manifest_def)
  have "mk_replay_dataset (sample_dataset 12 [sample_envelope ''a'' 15]) = Inr (sample_dataset 12 [sample_envelope ''a'' 15])"
    by (rule sample_dataset_ok) simp_all
  from replay_outcome [OF this, where c = "\<lparr>rk_starts_at = 10, rk_ends_at = 20, rk_current_time = 10\<rparr>"
      and p = "\<lambda>e n. (Inr (), Suc n)" and s = 0 and H = "\<lambda>_. ''sum''" and h = "\<lambda>_. ''e''"]
  show ?thesis
    by (auto simp: m pol sample_clock sample_orderable calculate_replay_result_checksum_def text_in_def publish_all_def)
qed

text \<open>
  Replay and bus together. If such a replay is published through the in-process bus and the bus accepts the events, then
  every subscription finds, after what it had queued, exactly the recorded events of its class and partition in
  the order of the replay keys.
\<close>

theorem replay_delivers_in_order:
  assumes "mk_replay_dataset d = Inr d'" and "mf_event_ordering_policy_version (ds_manifest d) = REPLAY_ORDERING_POLICY_VERSION"
    and "build_replay_clock (ds_manifest d) None = Inr c" and "list_all orderable (ds_events d)"
    and "mk_event_bus n det t = Inr b0" and "bus_run b0 l b"
    and "publishes bus_publisher (sort_key event_key (ds_events d)) b" and "k < length (bu_heap b)"
    and "replay_run H h bus_publisher d c b = (res, c', b')"
  shows "queued_events (bu_heap b' ! k) =
    queued_events (bu_heap b ! k) @ map bus_event_of (filter (wants (bu_heap b ! k)) (sort_key event_key (ds_events d)))"
proof -
  have "bus_inv b" using run_keeps_log [OF assms(6,5)] by (simp add: bus_ok_def)
  moreover have "b' = publish_all bus_publisher (sort_key event_key (ds_events d)) b"
    using replay_run_eq [OF assms(1-4,7), of H h] assms(9) by (simp add: Let_def)
  ultimately show ?thesis using publish_all_bus assms(7,8) by simp
qed

theorem replay_delivers_in_order_witness:
  "\<exists>b b' res c'. bus_run (\<lparr>bu_default_queue_size = 1, bu_deterministic = False, bu_heap = [], bu_subscriptions = [], bu_closed = False,
       bu_published_events = 0, bu_delivered_events = 0, bu_backpressure_events = 0, bu_last_delivery_order = []\<rparr>)
       [Subscribed 0 (''builtins'', ''object'') None] b \<and>
     replay_run (\<lambda>_. ''sum'') (\<lambda>_. ''e'') bus_publisher (sample_dataset 0 [sample_envelope ''a'' 15])
       \<lparr>rk_starts_at = 10, rk_ends_at = 20, rk_current_time = 10\<rparr> b = (res, c', b') \<and>
     queued_events (bu_heap b' ! 0) = [bus_event_of (sample_envelope ''a'' 15)]"
proof -
  let ?d = "sample_dataset 0 [sample_envelope ''a'' 15]" and ?c = "\<lparr>rk_starts_at = 10, rk_ends_at = 20, rk_current_time = 10\<rparr>"
  let ?b0 = "\<lparr>bu_default_queue_size = 1, bu_deterministic = False, bu_heap = [], bu_subscriptions = [], bu_closed = False,
    bu_published_events = 0, bu_delivered_events = 0, bu_backpressure_events = 0, bu_last_delivery_order = []\<rparr> :: event_envelope event_bus"
  let ?u = "\<lparr>su_event_type = (''builtins'', ''object''), su_consumer_name = ''c'', su_partition_key = None, su_queue_size = 1,
    su_queue = [], su_pending_events = 0, su_closed = False\<rparr> :: event_envelope subscription"
  let ?b1 = "?b0\<lparr>bu_heap := [?u], bu_subscriptions := [(''c'', 0)]\<rparr>"
  have "subscribe (''builtins'', ''object'') ''c'' None None ?b0 = Inr (0, ?b1)"
    by (simp add: subscribe_def mk_subscription_def blank_or_padded_def py_strip_def py_isspace_def)
  then have "bus_run ?b0 ([] @ [Subscribed 0 (''builtins'', ''object'') None]) ?b1"
    by (rule run_step [OF run_start step_subscribe])
  then have run: "bus_run ?b0 [Subscribed 0 (''builtins'', ''object'') None] ?b1" by simp
  have m: "ds_manifest ?d = sample_manifest 0" "ds_events ?d = [sample_envelope ''a'' 15]" by (simp_all add: sample_dataset_def)
  have pol: "mf_event_ordering_policy_version (sample_manifest 0) = REPLAY_ORDERING_POLICY_VERSION" by (simp add: sample_manifest_def)
  have new: "mk_event_bus 1 False 0 = Inr ?b0" by (simp add: mk_event_bus_def)
  have ds: "mk_replay_dataset ?d = Inr ?d" by (rule sample_dataset_ok) simp_all
  have pub: "publishes bus_publisher (sort_key event_key (ds_events ?d)) ?b1"
    by (simp add: m bus_publisher_def publish_def matching_subscriptions_def ordered_subscriptions_def sub_matches_def sub_full_def
        publish_nowait_def bus_event_of_def)
  obtain res c' b' where r: "replay_run (\<lambda>_. ''sum'') (\<lambda>_. ''e'') bus_publisher ?d ?c ?b1 = (res, c', b')" by (cases "replay_run (\<lambda>_. ''sum'') (\<lambda>_. ''e'') bus_publisher ?d ?c ?b1")
  have "queued_events (bu_heap b' ! 0) = queued_events (bu_heap ?b1 ! 0) @
      map bus_event_of (filter (wants (bu_heap ?b1 ! 0)) (sort_key event_key (ds_events ?d)))"
    by (rule replay_delivers_in_order [OF ds _ _ _ new run pub _ r]) (simp_all add: m pol sample_clock sample_orderable)
  then have "queued_events (bu_heap b' ! 0) = [bus_event_of (sample_envelope ''a'' 15)]"
    by (simp add: m wants_def sub_matches_def bus_event_of_def queued_events_def)
  then show ?thesis using run r by blast
qed

end
