(* ===== verification/Strategy_Lifecycle.thy ===== *)
theory Strategy_Lifecycle
  imports Prelude
begin

text \<open>
  The lifecycle of a strategy: the transition table of \<open>src/pmrp/strategies/lifecycle.py\<close> and the restart policies of
  \<open>src/pmrp/strategies/restart.py\<close>. The locale \<open>restart_policy\<close> is the contract of the protocol
  \<^verbatim>\<open>StrategyRestartPolicy\<close>; both policies of the source are interpretations of it.
\<close>

section \<open>States and transitions\<close>

datatype strategy_state = CREATED | INITIALIZING | RUNNING | DEGRADED | DRAINING | STOPPED | FAILED

datatype health_status = H_HEALTHY | H_DEGRADED | H_UNHEALTHY | H_UNKNOWN

definition TERMINAL_STRATEGY_STATES :: "strategy_state set" where
  "TERMINAL_STRATEGY_STATES = {STOPPED, FAILED}"

fun allowed_transitions :: "strategy_state \<Rightarrow> strategy_state list" where
  "allowed_transitions CREATED = [INITIALIZING, STOPPED, FAILED]"
| "allowed_transitions INITIALIZING = [RUNNING, DEGRADED, STOPPED, FAILED]"
| "allowed_transitions RUNNING = [DEGRADED, DRAINING, STOPPED, FAILED]"
| "allowed_transitions DEGRADED = [DRAINING, STOPPED, FAILED]"
| "allowed_transitions DRAINING = [STOPPED, FAILED]"
| "allowed_transitions STOPPED = []"
| "allowed_transitions FAILED = []"

definition LIFECYCLE_ERROR :: py_error where
  "LIFECYCLE_ERROR = Exc ''StrategyLifecycleError'' ''strategy_lifecycle_transition_invalid''"

definition validate_strategy_state_transition :: "strategy_state \<Rightarrow> strategy_state \<Rightarrow> unit result" where
  "validate_strategy_state_transition previous_state next_state =
     (if previous_state = next_state then Inr ()
      else if next_state \<notin> set (allowed_transitions previous_state) then Inl LIFECYCLE_ERROR
      else Inr ())"

definition transition_strategy_state :: "strategy_state \<Rightarrow> strategy_state \<Rightarrow> strategy_state result" where
  "transition_strategy_state previous_state next_state =
     bindE (validate_strategy_state_transition previous_state next_state) (\<lambda>_. Inr next_state)"

lemma transition_ok_iff:
  "transition_strategy_state s t = Inr u \<longleftrightarrow> u = t \<and> (s = t \<or> t \<in> set (allowed_transitions s))"
  by (auto simp: transition_strategy_state_def validate_strategy_state_transition_def split: if_splits)

lemma transition_raises: "transition_strategy_state s t = Inl e \<Longrightarrow> e = LIFECYCLE_ERROR"
  by (auto simp: transition_strategy_state_def validate_strategy_state_transition_def split: if_splits)

text \<open>How far a state is from the end: every proper transition lowers it.\<close>

fun lifecycle_rank :: "strategy_state \<Rightarrow> nat" where
  "lifecycle_rank CREATED = 5"
| "lifecycle_rank INITIALIZING = 4"
| "lifecycle_rank RUNNING = 3"
| "lifecycle_rank DEGRADED = 2"
| "lifecycle_rank DRAINING = 1"
| "lifecycle_rank STOPPED = 0"
| "lifecycle_rank FAILED = 0"

lemma allowed_lowers_rank: "t \<in> set (allowed_transitions s) \<Longrightarrow> lifecycle_rank t < lifecycle_rank s"
  by (cases s) auto

lemma terminal_iff_no_transition: "s \<in> TERMINAL_STRATEGY_STATES \<longleftrightarrow> allowed_transitions s = []"
  by (cases s) (auto simp: TERMINAL_STRATEGY_STATES_def)

lemma terminal_reachable: "s \<notin> TERMINAL_STRATEGY_STATES \<Longrightarrow> STOPPED \<in> set (allowed_transitions s) \<and> FAILED \<in> set (allowed_transitions s)"
  by (cases s) (auto simp: TERMINAL_STRATEGY_STATES_def)

section \<open>Restart decisions\<close>

datatype failure_kind = INITIALIZATION | SUBSCRIPTION | EVENT_PROCESSING | SHUTDOWN

record restart_failure =
  rf_strategy_id :: ident
  rf_failure_kind :: failure_kind
  rf_reason_code :: string
  rf_previous_restart_attempts :: int
  rf_first_failure_at :: instant
  rf_latest_failure_at :: instant

definition restart_error :: "string \<Rightarrow> py_error" where
  "restart_error reason_code = Exc ''StrategyRestartPolicyError'' reason_code"

definition mk_restart_failure :: "restart_failure \<Rightarrow> restart_failure result" where
  "mk_restart_failure f =
     bindE (guards
       [(blank_or_padded (rf_reason_code f), restart_error ''strategy_restart_text_invalid''),
        (rf_previous_restart_attempts f < 0, restart_error ''strategy_restart_count_invalid''),
        (rf_latest_failure_at f < rf_first_failure_at f, restart_error ''strategy_restart_failure_time_order_invalid'')]) (\<lambda>_. Inr f)"

record restart_decision =
  rd_should_restart :: bool
  rd_reason_code :: string
  rd_next_attempt :: "int option"
  rd_restart_after :: "instant option"
  rd_backoff :: int
  rd_jitter :: int

definition mk_restart_decision :: "restart_decision \<Rightarrow> restart_decision result" where
  "mk_restart_decision d =
     bindE (guards
       ([(blank_or_padded (rd_reason_code d), restart_error ''strategy_restart_text_invalid''),
         (rd_backoff d < 0, restart_error ''strategy_restart_duration_invalid''),
         (rd_jitter d < 0, restart_error ''strategy_restart_duration_invalid'')] @
        (if rd_should_restart d then
           [(\<not> (case rd_next_attempt d of None \<Rightarrow> False | Some n \<Rightarrow> 1 \<le> n), restart_error ''strategy_restart_count_invalid''),
            (rd_restart_after d = None, restart_error ''strategy_restart_decision_invalid'')]
         else
           [(rd_next_attempt d \<noteq> None, restart_error ''strategy_restart_decision_invalid''),
            (rd_restart_after d \<noteq> None, restart_error ''strategy_restart_decision_invalid'')]))) (\<lambda>_. Inr d)"

definition denial :: "string \<Rightarrow> restart_decision" where
  "denial reason_code = \<lparr>rd_should_restart = False, rd_reason_code = reason_code, rd_next_attempt = None, rd_restart_after = None,
     rd_backoff = 0, rd_jitter = 0\<rparr>"

text \<open>\<^verbatim>\<open>NeverRestartPolicy\<close> with its reason code.\<close>

definition mk_never_restart :: "string \<Rightarrow> string result" where
  "mk_never_restart reason_code =
     (if blank_or_padded reason_code then Inl (restart_error ''strategy_restart_text_invalid'') else Inr reason_code)"

definition never_restart_decide :: "string \<Rightarrow> restart_failure \<Rightarrow> restart_decision result" where
  "never_restart_decide reason_code f = mk_restart_decision (denial reason_code)"

record bounded_policy =
  bo_max_attempts :: int
  bo_restartable_failure_kinds :: "failure_kind list"
  bo_backoff :: int
  bo_deadline :: int
  bo_jitter :: int

definition mk_bounded_policy :: "bounded_policy \<Rightarrow> bounded_policy result" where
  "mk_bounded_policy p =
     bindE (guards
       [(bo_max_attempts p < 1, restart_error ''strategy_restart_count_invalid''),
        (bo_restartable_failure_kinds p = [], restart_error ''strategy_restart_failure_kinds_invalid''),
        (bo_backoff p < 0, restart_error ''strategy_restart_duration_invalid''),
        (bo_deadline p \<le> 0, restart_error ''strategy_restart_duration_invalid''),
        (bo_jitter p < 0, restart_error ''strategy_restart_duration_invalid'')]) (\<lambda>_. Inr p)"

text \<open>A timestamp plus a duration, which raises past the last day of the calendar.\<close>

definition datetime_plus :: "instant \<Rightarrow> int \<Rightarrow> instant result" where
  "datetime_plus t d = (if 253402300799999999 < t + d then Inl OverflowError else Inr (t + d))"

definition bounded_decide :: "bounded_policy \<Rightarrow> restart_failure \<Rightarrow> restart_decision result" where
  "bounded_decide p f =
     (if rf_failure_kind f \<notin> set (bo_restartable_failure_kinds p)
      then mk_restart_decision (denial ''strategy_restart_failure_kind_not_restartable'')
      else if bo_max_attempts p \<le> rf_previous_restart_attempts f
      then mk_restart_decision (denial ''strategy_restart_attempts_exhausted'')
      else
        bindE (datetime_plus (rf_first_failure_at f) (bo_deadline p)) (\<lambda>deadline_at.
        if deadline_at < rf_latest_failure_at f then mk_restart_decision (denial ''strategy_restart_deadline_exceeded'')
        else
          bindE (datetime_plus (rf_latest_failure_at f) (bo_backoff p)) (\<lambda>restart_after.
          bindE (datetime_plus restart_after (bo_jitter p)) (\<lambda>latest_scheduled_restart.
          if deadline_at < latest_scheduled_restart then mk_restart_decision (denial ''strategy_restart_deadline_exceeded'')
          else mk_restart_decision
            \<lparr>rd_should_restart = True, rd_reason_code = ''strategy_restart_allowed'',
             rd_next_attempt = Some (rf_previous_restart_attempts f + 1), rd_restart_after = Some restart_after,
             rd_backoff = bo_backoff p, rd_jitter = bo_jitter p\<rparr>))))"

text \<open>
  A run of failures and restarts of one strategy: each restart was decided, and the next failure counts it, keeps the time
  of the first failure and comes no earlier than the restart.
\<close>

inductive restart_run ::
  "(restart_failure \<Rightarrow> restart_decision result) \<Rightarrow> restart_failure \<Rightarrow> nat \<Rightarrow> restart_failure \<Rightarrow> bool"
  for decide f where
  run_none: "restart_run decide f 0 f"
| run_restart: "restart_run decide f n g \<Longrightarrow> decide g = Inr d \<Longrightarrow> rd_should_restart d \<Longrightarrow>
     rd_next_attempt d = Some (rf_previous_restart_attempts g') \<Longrightarrow> rf_first_failure_at g' = rf_first_failure_at g \<Longrightarrow>
     rd_restart_after d = Some t \<Longrightarrow> t \<le> rf_latest_failure_at g' \<Longrightarrow> restart_run decide f (Suc n) g'"

section \<open>The contract of a policy\<close>

definition decision_ok :: "restart_decision \<Rightarrow> bool" where
  "decision_ok d \<longleftrightarrow> (rd_should_restart d \<longleftrightarrow> rd_next_attempt d \<noteq> None) \<and> (rd_should_restart d \<longleftrightarrow> rd_restart_after d \<noteq> None)"

locale restart_policy =
  fixes decide :: "restart_failure \<Rightarrow> restart_decision result" and limit :: int
  assumes consistent: "decide f = Inr d \<Longrightarrow> decision_ok d"
    and counts: "decide f = Inr d \<Longrightarrow> rd_should_restart d \<Longrightarrow>
      rf_previous_restart_attempts f < limit \<and> rd_next_attempt d = Some (rf_previous_restart_attempts f + 1)"
begin

lemma run_counts: "restart_run decide f n g \<Longrightarrow> rf_previous_restart_attempts g = rf_previous_restart_attempts f + int n"
proof (induction rule: restart_run.induct)
  case (run_restart n g d g' t)
  then show ?case using counts [of g d] by simp
qed simp

lemma run_bounded: "restart_run decide f n g \<Longrightarrow> 0 < n \<Longrightarrow> rf_previous_restart_attempts f + int n \<le> limit"
proof (induction rule: restart_run.induct)
  case (run_restart n g d g' t)
  then show ?case using counts [of g d] run_counts [OF run_restart(1)] by simp
qed simp

lemma run_keeps_first: "restart_run decide f n g \<Longrightarrow> rf_first_failure_at g = rf_first_failure_at f"
  by (induction rule: restart_run.induct) simp_all

end

lemma mk_decision_id: "mk_restart_decision d = Inr d' \<Longrightarrow> d' = d"
  by (auto simp: mk_restart_decision_def bindE_eq_Inr simp del: guards.simps)

lemma denial_ok: "decision_ok (denial r)" "\<not> rd_should_restart (denial r)"
  by (simp_all add: decision_ok_def denial_def)

lemma bounded_restart:
  assumes "bounded_decide p f = Inr d"
  shows "decision_ok d" and "rd_should_restart d \<Longrightarrow> rf_previous_restart_attempts f < bo_max_attempts p"
    and "rd_should_restart d \<Longrightarrow> rd_next_attempt d = Some (rf_previous_restart_attempts f + 1)"
    and "rd_should_restart d \<Longrightarrow> rf_failure_kind f \<in> set (bo_restartable_failure_kinds p)"
    and "rd_should_restart d \<Longrightarrow> rd_restart_after d = Some (rf_latest_failure_at f + bo_backoff p)"
    and "rd_should_restart d \<Longrightarrow> rf_latest_failure_at f + bo_backoff p + bo_jitter p \<le> rf_first_failure_at f + bo_deadline p"
proof -
  consider (no) r where "d = denial r"
    | (yes) "rf_previous_restart_attempts f < bo_max_attempts p" "rf_failure_kind f \<in> set (bo_restartable_failure_kinds p)"
      "rf_latest_failure_at f + bo_backoff p + bo_jitter p \<le> rf_first_failure_at f + bo_deadline p"
      "d = \<lparr>rd_should_restart = True, rd_reason_code = ''strategy_restart_allowed'',
             rd_next_attempt = Some (rf_previous_restart_attempts f + 1), rd_restart_after = Some (rf_latest_failure_at f + bo_backoff p),
             rd_backoff = bo_backoff p, rd_jitter = bo_jitter p\<rparr>"
    using assms unfolding bounded_decide_def
    by (auto simp: bindE_eq_Inr datetime_plus_def dest!: mk_decision_id split: if_splits)
  then have "decision_ok d \<and> (rd_should_restart d \<longrightarrow> rf_previous_restart_attempts f < bo_max_attempts p \<and>
      rd_next_attempt d = Some (rf_previous_restart_attempts f + 1) \<and> rf_failure_kind f \<in> set (bo_restartable_failure_kinds p) \<and>
      rd_restart_after d = Some (rf_latest_failure_at f + bo_backoff p) \<and>
      rf_latest_failure_at f + bo_backoff p + bo_jitter p \<le> rf_first_failure_at f + bo_deadline p)"
    by cases (simp_all add: denial_ok, simp add: decision_ok_def)
  then show "decision_ok d" and "rd_should_restart d \<Longrightarrow> rf_previous_restart_attempts f < bo_max_attempts p"
    and "rd_should_restart d \<Longrightarrow> rd_next_attempt d = Some (rf_previous_restart_attempts f + 1)"
    and "rd_should_restart d \<Longrightarrow> rf_failure_kind f \<in> set (bo_restartable_failure_kinds p)"
    and "rd_should_restart d \<Longrightarrow> rd_restart_after d = Some (rf_latest_failure_at f + bo_backoff p)"
    and "rd_should_restart d \<Longrightarrow> rf_latest_failure_at f + bo_backoff p + bo_jitter p \<le> rf_first_failure_at f + bo_deadline p"
    by simp_all
qed

interpretation bounded: restart_policy "bounded_decide p" "bo_max_attempts p" for p
  by unfold_locales (use bounded_restart in blast)+

interpretation never: restart_policy "never_restart_decide r" 0 for r
  by unfold_locales (auto simp: never_restart_decide_def denial_ok dest!: mk_decision_id)

text \<open>A policy that was constructed decides: the constructor of the decision never rejects it.\<close>

lemma denial_valid: "\<not> blank_or_padded r \<Longrightarrow> mk_restart_decision (denial r) = Inr (denial r)"
  by (simp add: mk_restart_decision_def denial_def)

lemma bounded_decides:
  assumes "mk_bounded_policy p = Inr p'" and "mk_restart_failure f = Inr f'"
    and "rf_first_failure_at f + bo_deadline p \<le> 253402300799999999"
    and "rf_latest_failure_at f + bo_backoff p + bo_jitter p \<le> 253402300799999999"
  shows "\<exists>d. bounded_decide p f = Inr d"
proof -
  have p: "0 \<le> bo_backoff p" "0 \<le> bo_jitter p" and f: "0 \<le> rf_previous_restart_attempts f"
    using assms(1,2) by (auto simp: mk_bounded_policy_def mk_restart_failure_def bindE_eq_Inr split: if_splits)
  have nb: "\<not> blank_or_padded ''strategy_restart_failure_kind_not_restartable''" "\<not> blank_or_padded ''strategy_restart_attempts_exhausted''"
    "\<not> blank_or_padded ''strategy_restart_deadline_exceeded''" "\<not> blank_or_padded ''strategy_restart_allowed''"
    by (simp_all add: blank_or_padded_def py_strip_def py_isspace_def)
  have "mk_restart_decision
      \<lparr>rd_should_restart = True, rd_reason_code = ''strategy_restart_allowed'',
       rd_next_attempt = Some (rf_previous_restart_attempts f + 1), rd_restart_after = Some t,
       rd_backoff = bo_backoff p, rd_jitter = bo_jitter p\<rparr> =
     Inr \<lparr>rd_should_restart = True, rd_reason_code = ''strategy_restart_allowed'',
       rd_next_attempt = Some (rf_previous_restart_attempts f + 1), rd_restart_after = Some t,
       rd_backoff = bo_backoff p, rd_jitter = bo_jitter p\<rparr>" for t
    using p f nb(4) by (simp add: mk_restart_decision_def)
  then show ?thesis
    using assms(3,4) p by (simp add: bounded_decide_def denial_valid nb datetime_plus_def)
qed

section \<open>Properties\<close>

text \<open>
  C20: automatic restarts end. With a bounded policy, from a failure with some restarts already behind it,
  there are never more restarts than the policy has attempts left, each counted once; every restart that the policy schedules,
  jitter included, lies within the deadline after the first failure, and is for a kind of failure that was configured.
\<close>

theorem restarts_are_bounded:
  assumes "restart_run (bounded_decide p) f n g"
  shows "int n \<le> max 0 (bo_max_attempts p - rf_previous_restart_attempts f) \<and>
    rf_previous_restart_attempts g = rf_previous_restart_attempts f + int n \<and>
    (\<forall>d. bounded_decide p g = Inr d \<longrightarrow> rd_should_restart d \<longrightarrow>
       (\<exists>t. rd_restart_after d = Some t \<and> t + bo_jitter p \<le> rf_first_failure_at f + bo_deadline p) \<and>
       rf_failure_kind g \<in> set (bo_restartable_failure_kinds p))"
proof -
  have "int n \<le> max 0 (bo_max_attempts p - rf_previous_restart_attempts f)"
    using bounded.run_bounded [OF assms] by (cases n) auto
  then show ?thesis
    using bounded.run_counts [OF assms] bounded.run_keeps_first [OF assms] bounded_restart(4,5,6) [of p g] by auto
qed

theorem restarts_are_bounded_witness:
  "restart_run (bounded_decide \<lparr>bo_max_attempts = 1, bo_restartable_failure_kinds = [SUBSCRIPTION], bo_backoff = 2, bo_deadline = 10, bo_jitter = 1\<rparr>)
     \<lparr>rf_strategy_id = ''s'', rf_failure_kind = SUBSCRIPTION, rf_reason_code = ''x'', rf_previous_restart_attempts = 0,
      rf_first_failure_at = 0, rf_latest_failure_at = 0\<rparr> 1
     \<lparr>rf_strategy_id = ''s'', rf_failure_kind = SUBSCRIPTION, rf_reason_code = ''x'', rf_previous_restart_attempts = 1,
      rf_first_failure_at = 0, rf_latest_failure_at = 5\<rparr> \<and> int 1 \<le> max 0 (1 - 0)"
proof -
  let ?p = "\<lparr>bo_max_attempts = 1, bo_restartable_failure_kinds = [SUBSCRIPTION], bo_backoff = 2, bo_deadline = 10, bo_jitter = 1\<rparr>"
  let ?f = "\<lparr>rf_strategy_id = ''s'', rf_failure_kind = SUBSCRIPTION, rf_reason_code = ''x'', rf_previous_restart_attempts = 0,
      rf_first_failure_at = 0, rf_latest_failure_at = 0\<rparr>"
  let ?g = "\<lparr>rf_strategy_id = ''s'', rf_failure_kind = SUBSCRIPTION, rf_reason_code = ''x'', rf_previous_restart_attempts = 1,
      rf_first_failure_at = 0, rf_latest_failure_at = 5\<rparr>"
  have "\<not> blank_or_padded ''strategy_restart_allowed''" by (simp add: blank_or_padded_def py_strip_def py_isspace_def)
  then have "bounded_decide ?p ?f = Inr \<lparr>rd_should_restart = True, rd_reason_code = ''strategy_restart_allowed'', rd_next_attempt = Some 1,
      rd_restart_after = Some 2, rd_backoff = 2, rd_jitter = 1\<rparr>"
    by (simp add: bounded_decide_def datetime_plus_def mk_restart_decision_def)
  then have "restart_run (bounded_decide ?p) ?f (Suc 0) ?g"
    by (rule run_restart [OF run_none, where t = 2]) simp_all
  then have run: "restart_run (bounded_decide ?p) ?f 1 ?g" by simp
  show ?thesis using run restarts_are_bounded [OF run] by simp
qed

end
