(* ===== verification/Strategy_Runtime.thy ===== *)
theory Strategy_Runtime
  imports Strategy_Lifecycle
begin

text \<open>
  \<open>src/pmrp/strategies/runtime.py\<close>: starting, running, degrading and stopping one strategy, with the three
  coroutines of a handle interleaved. \<^verbatim>\<open>_start_strategy\<close>, the consumer task \<^verbatim>\<open>_consume_strategy_events\<close> and
  \<^verbatim>\<open>_stop_strategy\<close> run in one event loop and can only lose control where they await: the strategy's own
  \<^verbatim>\<open>initialize\<close>, \<^verbatim>\<open>on_event\<close> and \<^verbatim>\<open>shutdown\<close>, the next event, the end of the task, and the publication of a lifecycle
  event. Each stretch between two awaits is a function on the handle; each coroutine has a program counter; a step of
  the relation \<open>runtime_step\<close> is one stretch, whose outcome the awaited call decides. The handles of different strategies
  share nothing but the runtime's flag \<^verbatim>\<open>_started\<close>.
\<close>

section \<open>Handles\<close>

datatype subscription_state = No_subscription | Open_subscription | Closed_subscription

record handle =
  hd_state :: strategy_state
  hd_health_status :: health_status
  hd_health_message :: "string option"
  hd_subscription :: subscription_state
  hd_processed_events :: nat
  hd_ignored_events :: nat
  hd_failed_events :: nat
  hd_started_at :: "instant option"
  hd_stopped_at :: "instant option"
  hd_last_event_at :: "instant option"
  hd_last_failure_at :: "instant option"
  hd_order_intents_enabled :: bool

definition new_handle :: "bool \<Rightarrow> handle" where
  "new_handle order_intents_enabled =
     \<lparr>hd_state = CREATED, hd_health_status = H_UNKNOWN, hd_health_message = None, hd_subscription = No_subscription,
      hd_processed_events = 0, hd_ignored_events = 0, hd_failed_events = 0, hd_started_at = None, hd_stopped_at = None,
      hd_last_event_at = None, hd_last_failure_at = None, hd_order_intents_enabled = order_intents_enabled\<rparr>"

definition transition_to :: "strategy_state \<Rightarrow> handle \<Rightarrow> handle result" where
  "transition_to next_state h = bindE (transition_strategy_state (hd_state h) next_state) (\<lambda>s. Inr (h\<lparr>hd_state := s\<rparr>))"

text \<open>The order-intent gate only closes; closing a subscription again does nothing.\<close>

definition disable_order_intents :: "handle \<Rightarrow> handle" where
  "disable_order_intents h = h\<lparr>hd_order_intents_enabled := False\<rparr>"

definition close_handle_subscription :: "handle \<Rightarrow> handle" where
  "close_handle_subscription h =
     h\<lparr>hd_subscription := (case hd_subscription h of No_subscription \<Rightarrow> No_subscription | _ \<Rightarrow> Closed_subscription)\<rparr>"

section \<open>Stretches between awaits\<close>

text \<open>
  A stretch mutates the handle; where it raises, the changes made before remain. So it returns its outcome and
  the handle as it is then. \<open>step_transition\<close> is \<^verbatim>\<open>transition_to\<close> in that form.
\<close>

definition step_transition :: "strategy_state \<Rightarrow> (handle \<Rightarrow> handle) \<Rightarrow> handle \<Rightarrow> unit result \<times> handle" where
  "step_transition next_state rest h =
     (case transition_to next_state h of Inl e \<Rightarrow> (Inl e, h) | Inr h' \<Rightarrow> (Inr (), rest h'))"

definition mark_start_failure :: "instant \<Rightarrow> string \<Rightarrow> handle \<Rightarrow> unit result \<times> handle" where
  "mark_start_failure occurred_at message h =
     (let h1 = disable_order_intents h in
      step_transition FAILED (\<lambda>h. h\<lparr>hd_health_status := H_UNHEALTHY, hd_health_message := Some message\<rparr>)
        (h1\<lparr>hd_failed_events := hd_failed_events h1 + 1, hd_last_failure_at := Some occurred_at\<rparr>))"

text \<open>\<^verbatim>\<open>_start_strategy\<close> after \<^verbatim>\<open>initialize\<close> and \<^verbatim>\<open>subscribe\<close> succeeded, up to the publication.\<close>

definition enter_running :: "instant \<Rightarrow> handle \<Rightarrow> unit result \<times> handle" where
  "enter_running now h =
     step_transition RUNNING (\<lambda>h. h\<lparr>hd_health_status := H_HEALTHY, hd_health_message := None\<rparr>)
       (h\<lparr>hd_subscription := Open_subscription, hd_started_at := Some now\<rparr>)"

text \<open>\<^verbatim>\<open>_degrade_strategy\<close> up to the publication.\<close>

definition degrade_strategy :: "instant \<Rightarrow> handle \<Rightarrow> unit result \<times> handle" where
  "degrade_strategy now h =
     (let h1 = disable_order_intents h in
      step_transition DEGRADED
        (\<lambda>h. close_handle_subscription
          (h\<lparr>hd_health_status := H_DEGRADED, hd_health_message := Some ''strategy event processing failed''\<rparr>))
        (h1\<lparr>hd_failed_events := hd_failed_events h1 + 1, hd_last_failure_at := Some now\<rparr>))"

text \<open>\<^verbatim>\<open>_stop_strategy\<close> before it waits for the task.\<close>

definition begin_drain :: "handle \<Rightarrow> unit result \<times> handle" where
  "begin_drain h =
     (if hd_state h \<in> {RUNNING, DEGRADED} then step_transition DRAINING close_handle_subscription h
      else (Inr (), close_handle_subscription h))"

text \<open>\<^verbatim>\<open>_stop_strategy\<close> after \<^verbatim>\<open>shutdown\<close> returned or raised.\<close>

definition end_stop :: "bool \<Rightarrow> instant \<Rightarrow> handle \<Rightarrow> unit result \<times> handle" where
  "end_stop shutdown now h =
     (if shutdown
      then step_transition STOPPED (\<lambda>h. h\<lparr>hd_health_status := H_UNKNOWN, hd_health_message := None\<rparr>) (h\<lparr>hd_stopped_at := Some now\<rparr>)
      else step_transition FAILED
        (\<lambda>h. h\<lparr>hd_health_status := H_UNHEALTHY, hd_health_message := Some ''strategy shutdown failed''\<rparr>) (h\<lparr>hd_stopped_at := Some now\<rparr>))"

section \<open>Coroutines\<close>

datatype start_pc = Start_idle | Start_initializing | Start_publishing | Start_done | Start_raised py_error

datatype task_pc = No_task | Task_waiting | Task_processing | Task_publishing | Task_done | Task_raised py_error

datatype stop_pc = Stop_idle | Stop_joining | Stop_in_shutdown | Stop_publishing | Stop_done | Stop_raised py_error

record runtime =
  rt_handle :: handle
  rt_start :: start_pc
  rt_task :: task_pc
  rt_stop :: stop_pc

definition new_runtime :: "bool \<Rightarrow> runtime" where
  "new_runtime enabled = \<lparr>rt_handle = new_handle enabled, rt_start = Start_idle, rt_task = No_task, rt_stop = Stop_idle\<rparr>"

text \<open>What awaiting a publication leads to: it may raise.\<close>

definition after_start :: "unit result \<Rightarrow> start_pc" where
  "after_start r = (case r of Inl e \<Rightarrow> Start_raised e | Inr _ \<Rightarrow> Start_publishing)"

definition after_task :: "unit result \<Rightarrow> task_pc" where
  "after_task r = (case r of Inl e \<Rightarrow> Task_raised e | Inr _ \<Rightarrow> Task_publishing)"

definition after_stop :: "unit result \<Rightarrow> stop_pc" where
  "after_stop r = (case r of Inl e \<Rightarrow> Stop_raised e | Inr _ \<Rightarrow> Stop_publishing)"

inductive runtime_step :: "runtime \<Rightarrow> runtime \<Rightarrow> bool" where
  start_skip: "rt_start r \<in> {Start_idle, Start_done} \<union> range Start_raised \<Longrightarrow>
     hd_state (rt_handle r) \<in> TERMINAL_STRATEGY_STATES \<union> {RUNNING} \<Longrightarrow> runtime_step r (r\<lparr>rt_start := Start_done\<rparr>)"
| start_begin: "rt_start r \<in> {Start_idle, Start_done} \<union> range Start_raised \<Longrightarrow>
     hd_state (rt_handle r) \<notin> TERMINAL_STRATEGY_STATES \<union> {RUNNING} \<Longrightarrow>
     step_transition INITIALIZING (\<lambda>h. h) (rt_handle r) = (res, h) \<Longrightarrow>
     runtime_step r (r\<lparr>rt_handle := h, rt_start := (case res of Inl e \<Rightarrow> Start_raised e | Inr _ \<Rightarrow> Start_initializing)\<rparr>)"
| start_fail: "rt_start r = Start_initializing \<Longrightarrow>
     message \<in> {''strategy initialization failed'', ''strategy subscription failed''} \<Longrightarrow>
     mark_start_failure now message (rt_handle r) = (res, h) \<Longrightarrow>
     runtime_step r (r\<lparr>rt_handle := h, rt_start := after_start res\<rparr>)"
| start_run: "rt_start r = Start_initializing \<Longrightarrow> enter_running now (rt_handle r) = (res, h) \<Longrightarrow>
     runtime_step r (r\<lparr>rt_handle := h, rt_start := after_start res,
       rt_task := (case res of Inl _ \<Rightarrow> rt_task r | Inr _ \<Rightarrow> Task_waiting)\<rparr>)"
| start_published: "rt_start r = Start_publishing \<Longrightarrow>
     runtime_step r (r\<lparr>rt_start := (case (res :: unit result) of Inl e \<Rightarrow> Start_raised e | Inr _ \<Rightarrow> Start_done)\<rparr>)"
| task_break: "rt_task r = Task_waiting \<Longrightarrow> hd_state (rt_handle r) \<noteq> RUNNING \<Longrightarrow> runtime_step r (r\<lparr>rt_task := Task_done\<rparr>)"
| task_ignore: "rt_task r = Task_waiting \<Longrightarrow> hd_state (rt_handle r) = RUNNING \<Longrightarrow> hd_subscription (rt_handle r) \<noteq> No_subscription \<Longrightarrow>
     runtime_step r (r\<lparr>rt_handle := (rt_handle r)\<lparr>hd_ignored_events := hd_ignored_events (rt_handle r) + 1\<rparr>\<rparr>)"
| task_take: "rt_task r = Task_waiting \<Longrightarrow> hd_state (rt_handle r) = RUNNING \<Longrightarrow> hd_subscription (rt_handle r) \<noteq> No_subscription \<Longrightarrow>
     runtime_step r (r\<lparr>rt_task := Task_processing\<rparr>)"
| task_end: "rt_task r = Task_waiting \<Longrightarrow> hd_subscription (rt_handle r) = Closed_subscription \<Longrightarrow>
     runtime_step r (r\<lparr>rt_task := Task_done\<rparr>)"
| task_processed: "rt_task r = Task_processing \<Longrightarrow>
     runtime_step r (r\<lparr>rt_handle := (rt_handle r)\<lparr>hd_last_event_at := Some now, hd_processed_events := hd_processed_events (rt_handle r) + 1\<rparr>,
       rt_task := Task_waiting\<rparr>)"
| task_failed: "rt_task r = Task_processing \<Longrightarrow>
     degrade_strategy now' ((rt_handle r)\<lparr>hd_last_event_at := Some now\<rparr>) = (res, h) \<Longrightarrow>
     runtime_step r (r\<lparr>rt_handle := h, rt_task := after_task res\<rparr>)"
| task_published: "rt_task r = Task_publishing \<Longrightarrow>
     runtime_step r (r\<lparr>rt_task := (case (res :: unit result) of Inl e \<Rightarrow> Task_raised e | Inr _ \<Rightarrow> Task_done)\<rparr>)"
| stop_skip: "rt_stop r \<in> {Stop_idle, Stop_done} \<union> range Stop_raised \<Longrightarrow> hd_state (rt_handle r) \<in> TERMINAL_STRATEGY_STATES \<Longrightarrow>
     runtime_step r (r\<lparr>rt_stop := Stop_done\<rparr>)"
| stop_begin: "rt_stop r \<in> {Stop_idle, Stop_done} \<union> range Stop_raised \<Longrightarrow> hd_state (rt_handle r) \<notin> TERMINAL_STRATEGY_STATES \<Longrightarrow>
     begin_drain (rt_handle r) = (res, h) \<Longrightarrow>
     runtime_step r (r\<lparr>rt_handle := h, rt_stop := (case res of Inl e \<Rightarrow> Stop_raised e | Inr _ \<Rightarrow> Stop_joining)\<rparr>)"
| stop_joined: "rt_stop r = Stop_joining \<Longrightarrow> rt_task r \<in> {No_task, Task_done} \<Longrightarrow> runtime_step r (r\<lparr>rt_stop := Stop_in_shutdown\<rparr>)"
| stop_task_raised: "rt_stop r = Stop_joining \<Longrightarrow> rt_task r = Task_raised e \<Longrightarrow> runtime_step r (r\<lparr>rt_stop := Stop_raised e\<rparr>)"
| stop_end: "rt_stop r = Stop_in_shutdown \<Longrightarrow> end_stop shutdown now (rt_handle r) = (res, h) \<Longrightarrow>
     runtime_step r (r\<lparr>rt_handle := h, rt_stop := after_stop res\<rparr>)"
| stop_published: "rt_stop r = Stop_publishing \<Longrightarrow>
     runtime_step r (r\<lparr>rt_stop := (case (res :: unit result) of Inl e \<Rightarrow> Stop_raised e | Inr _ \<Rightarrow> Stop_done)\<rparr>)"

inductive_cases runtime_stepE: "runtime_step r r'"

section \<open>Stretches\<close>

text \<open>A state either stays or moves along the transition table.\<close>

definition legal_move :: "strategy_state \<Rightarrow> strategy_state \<Rightarrow> bool" where
  "legal_move s t \<longleftrightarrow> t = s \<or> t \<in> set (allowed_transitions s)"

lemma step_transition_cases:
  assumes "step_transition t rest h = (res, h')"
  obtains (moved) "res = Inr ()" "h' = rest (h\<lparr>hd_state := t\<rparr>)" "legal_move (hd_state h) t"
  | (refused) "res = Inl LIFECYCLE_ERROR" "h' = h" "\<not> legal_move (hd_state h) t"
proof (cases "transition_strategy_state (hd_state h) t")
  case (Inl e)
  then have "\<not> legal_move (hd_state h) t" by (auto simp: legal_move_def transition_strategy_state_def validate_strategy_state_transition_def split: if_splits)
  then show ?thesis using assms Inl transition_raises [OF Inl] refused by (auto simp: step_transition_def transition_to_def)
next
  case (Inr u)
  then have "u = t" "legal_move (hd_state h) t" by (auto simp: transition_ok_iff legal_move_def)
  then show ?thesis using assms Inr moved by (auto simp: step_transition_def transition_to_def)
qed

lemmas stretches = mark_start_failure_def enter_running_def degrade_strategy_def begin_drain_def end_stop_def Let_def
  disable_order_intents_def close_handle_subscription_def

text \<open>What every stretch of the runtime keeps, and how the state may move.\<close>

definition handle_ok :: "handle \<Rightarrow> bool" where
  "handle_ok h \<longleftrightarrow> (0 < hd_failed_events h \<longrightarrow> \<not> hd_order_intents_enabled h)"

definition stretch_ok :: "handle \<Rightarrow> handle \<Rightarrow> bool" where
  "stretch_ok h h' \<longleftrightarrow> legal_move (hd_state h) (hd_state h') \<and> (handle_ok h \<longrightarrow> handle_ok h') \<and>
     (hd_order_intents_enabled h' \<longrightarrow> hd_order_intents_enabled h)"

lemma legal_refl [simp]: "legal_move s s"
  by (simp add: legal_move_def)

lemma stretch_refl [simp]: "stretch_ok h h"
  by (simp add: stretch_ok_def)

lemma start_failure_ok:
  assumes "mark_start_failure t m h = (res, h')"
  shows "stretch_ok h h'"
  using assms unfolding mark_start_failure_def Let_def
  by (rule step_transition_cases) (auto simp: stretch_ok_def handle_ok_def disable_order_intents_def)

lemma enter_running_ok:
  assumes "enter_running t h = (res, h')"
  shows "stretch_ok h h'"
  using assms unfolding enter_running_def
  by (rule step_transition_cases) (auto simp: stretch_ok_def handle_ok_def)

lemma degrade_ok:
  assumes "degrade_strategy t h = (res, h')"
  shows "stretch_ok h h'" and "\<not> hd_order_intents_enabled h'"
proof -
  have "stretch_ok h h' \<and> \<not> hd_order_intents_enabled h'"
    using assms unfolding degrade_strategy_def Let_def
    by (rule step_transition_cases) (auto simp: stretch_ok_def handle_ok_def disable_order_intents_def close_handle_subscription_def)
  then show "stretch_ok h h'" and "\<not> hd_order_intents_enabled h'" by auto
qed

lemma close_handle_keeps [simp]:
  "hd_state (close_handle_subscription h) = hd_state h"
  "hd_failed_events (close_handle_subscription h) = hd_failed_events h"
  "hd_order_intents_enabled (close_handle_subscription h) = hd_order_intents_enabled h"
  by (simp_all add: close_handle_subscription_def)

lemma drain_ok:
  assumes "begin_drain h = (res, h')"
  shows "stretch_ok h h'" and "res = Inr ()"
proof -
  have "stretch_ok h h' \<and> res = Inr ()"
  proof (cases "hd_state h \<in> {RUNNING, DEGRADED}")
    case True
    then have "step_transition DRAINING close_handle_subscription h = (res, h')" using assms by (simp add: begin_drain_def)
    then show ?thesis by (rule step_transition_cases) (use True in \<open>auto simp: stretch_ok_def handle_ok_def legal_move_def\<close>)
  next
    case False
    then show ?thesis using assms by (auto simp: begin_drain_def stretch_ok_def handle_ok_def)
  qed
  then show "stretch_ok h h'" and "res = Inr ()" by auto
qed

lemma end_stop_ok:
  assumes "end_stop b t h = (res, h')"
  shows "stretch_ok h h'" and "res = Inr () \<Longrightarrow> hd_state h' \<in> TERMINAL_STRATEGY_STATES"
proof -
  have "stretch_ok h h' \<and> (res = Inr () \<longrightarrow> hd_state h' \<in> TERMINAL_STRATEGY_STATES)"
  proof (cases b)
    case True
    then have "step_transition STOPPED (\<lambda>h. h\<lparr>hd_health_status := H_UNKNOWN, hd_health_message := None\<rparr>)
        (h\<lparr>hd_stopped_at := Some t\<rparr>) = (res, h')" using assms by (simp add: end_stop_def)
    then show ?thesis by (rule step_transition_cases) (auto simp: stretch_ok_def handle_ok_def TERMINAL_STRATEGY_STATES_def)
  next
    case False
    then have "step_transition FAILED (\<lambda>h. h\<lparr>hd_health_status := H_UNHEALTHY, hd_health_message := Some ''strategy shutdown failed''\<rparr>)
        (h\<lparr>hd_stopped_at := Some t\<rparr>) = (res, h')" using assms by (simp add: end_stop_def)
    then show ?thesis by (rule step_transition_cases) (auto simp: stretch_ok_def handle_ok_def TERMINAL_STRATEGY_STATES_def)
  qed
  then show "stretch_ok h h'" and "res = Inr () \<Longrightarrow> hd_state h' \<in> TERMINAL_STRATEGY_STATES" by auto
qed

section \<open>Invariants of the interleaving\<close>

lemma step_stretch: "runtime_step r r' \<Longrightarrow> stretch_ok (rt_handle r) (rt_handle r')"
proof (induction rule: runtime_step.induct)
  case (start_begin r res h)
  show ?case using start_begin(3) by (rule step_transition_cases) (auto simp: stretch_ok_def handle_ok_def)
next
  case (task_failed r now' now res h)
  then show ?case using degrade_ok(1) [of now' "(rt_handle r)\<lparr>hd_last_event_at := Some now\<rparr>" res h]
    by (simp add: stretch_ok_def handle_ok_def)
qed (auto dest: start_failure_ok enter_running_ok drain_ok(1) end_stop_ok(1) simp: stretch_ok_def handle_ok_def)

lemma terminal_moves: "legal_move s t \<Longrightarrow> s \<in> TERMINAL_STRATEGY_STATES \<Longrightarrow> t = s"
  by (auto simp: legal_move_def terminal_iff_no_transition)

definition runtime_inv :: "runtime \<Rightarrow> bool" where
  "runtime_inv r \<longleftrightarrow> handle_ok (rt_handle r) \<and>
     (rt_stop r \<in> {Stop_publishing, Stop_done} \<longrightarrow> hd_state (rt_handle r) \<in> TERMINAL_STRATEGY_STATES)"

lemma runtime_inv_step:
  assumes "runtime_step r r'" and "runtime_inv r"
  shows "runtime_inv r'"
proof -
  have s: "stretch_ok (rt_handle r) (rt_handle r')" by (rule step_stretch [OF assms(1)])
  then have keep: "hd_state (rt_handle r') \<in> TERMINAL_STRATEGY_STATES" if "hd_state (rt_handle r) \<in> TERMINAL_STRATEGY_STATES"
    using terminal_moves that unfolding stretch_ok_def by metis
  have "rt_stop r' \<in> {Stop_publishing, Stop_done} \<longrightarrow> hd_state (rt_handle r') \<in> TERMINAL_STRATEGY_STATES"
    using assms(1)
  proof cases
    case (stop_begin res h)
    then show ?thesis using drain_ok(2) [OF stop_begin(4)] by simp
  next
    case (stop_end shutdown now res h)
    then show ?thesis using end_stop_ok(2) [OF stop_end(3)] by (auto simp: after_stop_def split: sum.splits)
  qed (use assms(2) keep in \<open>auto simp: runtime_inv_def split: sum.splits\<close>)
  then show ?thesis using s assms(2) by (simp add: runtime_inv_def stretch_ok_def)
qed

lemma runtime_inv_reachable: "runtime_step\<^sup>*\<^sup>* (new_runtime b) r \<Longrightarrow> runtime_inv r"
proof (induction rule: rtranclp_induct)
  case base
  show ?case by (simp add: runtime_inv_def new_runtime_def new_handle_def handle_ok_def)
qed (rule runtime_inv_step)

section \<open>Two races\<close>

lemmas evaluate_stretch = step_transition_def transition_to_def transition_strategy_state_def validate_strategy_state_transition_def
  stretches new_runtime_def new_handle_def TERMINAL_STRATEGY_STATES_def after_start_def after_task_def after_stop_def

definition running_handle :: handle where
  "running_handle = (new_handle True)\<lparr>hd_state := RUNNING, hd_health_status := H_HEALTHY, hd_subscription := Open_subscription,
     hd_started_at := Some 1\<rparr>"

lemma run_cons: "runtime_step a b \<Longrightarrow> runtime_step\<^sup>*\<^sup>* b c \<Longrightarrow> runtime_step\<^sup>*\<^sup>* a c"
  by (rule converse_rtranclp_into_rtranclp)

lemma run_one: "runtime_step a b \<Longrightarrow> runtime_step\<^sup>*\<^sup>* a b"
  by (rule r_into_rtranclp)

lemma reach_initializing:
  "runtime_step\<^sup>*\<^sup>* (new_runtime True) ((new_runtime True)\<lparr>rt_handle := (new_handle True)\<lparr>hd_state := INITIALIZING\<rparr>, rt_start := Start_initializing\<rparr>)"
proof -
  have t: "step_transition INITIALIZING (\<lambda>h. h) (rt_handle (new_runtime True)) = (Inr (), (new_handle True)\<lparr>hd_state := INITIALIZING\<rparr>)"
    by (simp add: evaluate_stretch)
  show ?thesis
    using runtime_step.start_begin [OF _ _ t] by (intro r_into_rtranclp) (simp add: new_runtime_def new_handle_def TERMINAL_STRATEGY_STATES_def)
qed

lemma initializing_runs:
  assumes "rt_start r = Start_initializing" and "rt_handle r = (new_handle True)\<lparr>hd_state := INITIALIZING\<rparr>"
  shows "runtime_step r (r\<lparr>rt_handle := running_handle, rt_start := Start_publishing, rt_task := Task_waiting\<rparr>)"
proof -
  have e: "enter_running 1 (rt_handle r) = (Inr (), running_handle)"
    by (simp add: assms(2) evaluate_stretch running_handle_def)
  show ?thesis using start_run [OF assms(1) e] by (simp add: after_start_def)
qed

text \<open>A handler that fails while the runtime waits for its task: the task raises, and so does stopping.\<close>

definition blocked :: "runtime \<Rightarrow> bool" where
  "blocked r \<longleftrightarrow> hd_state (rt_handle r) = DRAINING \<and> rt_task r = Task_raised LIFECYCLE_ERROR \<and>
     rt_start r \<in> {Start_done} \<union> range Start_raised \<and> rt_stop r \<in> {Stop_joining} \<union> range Stop_raised"

lemma blocked_step:
  assumes "runtime_step r r'" and "blocked r"
  shows "blocked r'"
  using assms(1)
proof cases
  case (start_begin res h)
  show ?thesis
    using start_begin(4) assms(2) start_begin(1)
    by (auto elim!: step_transition_cases simp: blocked_def legal_move_def)
next
  case (stop_begin res h)
  have "h = close_handle_subscription (rt_handle r)" "res = Inr ()"
    using stop_begin(4) assms(2) by (auto simp: begin_drain_def blocked_def)
  then show ?thesis using assms(2) stop_begin(1) by (auto simp: blocked_def)
qed (use assms(2) in \<open>auto simp: blocked_def TERMINAL_STRATEGY_STATES_def\<close>)

lemma blocked_forever: "runtime_step\<^sup>*\<^sup>* r r' \<Longrightarrow> blocked r \<Longrightarrow> blocked r'"
  by (induction rule: rtranclp_induct) (auto dest: blocked_step)

lemma reach_blocked: "\<exists>r. runtime_step\<^sup>*\<^sup>* (new_runtime True) r \<and> blocked r \<and> rt_stop r = Stop_raised LIFECYCLE_ERROR"
proof -
  let ?r1 = "(new_runtime True)\<lparr>rt_handle := (new_handle True)\<lparr>hd_state := INITIALIZING\<rparr>, rt_start := Start_initializing\<rparr>"
  let ?r2 = "?r1\<lparr>rt_handle := running_handle, rt_start := Start_publishing, rt_task := Task_waiting\<rparr>"
  let ?r3 = "?r2\<lparr>rt_start := Start_done\<rparr>"
  let ?r4 = "?r3\<lparr>rt_task := Task_processing\<rparr>"
  let ?h5 = "running_handle\<lparr>hd_state := DRAINING, hd_subscription := Closed_subscription\<rparr>"
  let ?r5 = "?r4\<lparr>rt_handle := ?h5, rt_stop := Stop_joining\<rparr>"
  let ?h6 = "?h5\<lparr>hd_last_event_at := Some 2, hd_failed_events := 1, hd_last_failure_at := Some 2, hd_order_intents_enabled := False\<rparr>"
  let ?r6 = "?r5\<lparr>rt_handle := ?h6, rt_task := Task_raised LIFECYCLE_ERROR\<rparr>"
  let ?r7 = "?r6\<lparr>rt_stop := Stop_raised LIFECYCLE_ERROR\<rparr>"
  have s2: "runtime_step ?r1 ?r2" by (rule initializing_runs) simp_all
  have s3: "runtime_step ?r2 ?r3" using start_published [of ?r2 "Inr ()"] by simp
  have s4: "runtime_step ?r3 ?r4" by (rule task_take) (simp_all add: running_handle_def)
  have d: "begin_drain (rt_handle ?r4) = (Inr (), ?h5)" by (simp add: evaluate_stretch running_handle_def)
  have s5: "runtime_step ?r4 ?r5"
    using stop_begin [OF _ _ d] by (simp add: new_runtime_def running_handle_def TERMINAL_STRATEGY_STATES_def)
  have f: "degrade_strategy 2 ((rt_handle ?r5)\<lparr>hd_last_event_at := Some 2\<rparr>) = (Inl LIFECYCLE_ERROR, ?h6)"
    by (simp add: evaluate_stretch running_handle_def)
  have s6: "runtime_step ?r5 ?r6" using task_failed [OF _ f] by (simp add: after_task_def)
  have s7: "runtime_step ?r6 ?r7" by (rule stop_task_raised) simp_all
  have "runtime_step\<^sup>*\<^sup>* (new_runtime True) ?r7"
    by (rule rtranclp_trans [OF reach_initializing])
      (rule run_cons [OF s2 run_cons [OF s3 run_cons [OF s4 run_cons [OF s5 run_cons [OF s6 run_one [OF s7]]]]]])
  moreover have "blocked ?r7" by (simp add: blocked_def)
  ultimately show ?thesis by (intro exI [of _ ?r7]) simp
qed

text \<open>Stopping while \<^verbatim>\<open>initialize\<close> is awaited: there is no subscription to close yet.\<close>

definition leaked :: "runtime \<Rightarrow> bool" where
  "leaked r \<longleftrightarrow> hd_state (rt_handle r) = STOPPED \<and> hd_subscription (rt_handle r) = Open_subscription \<and>
     rt_start r \<notin> {Start_initializing} \<and> rt_task r \<in> {Task_waiting, Task_done} \<and> rt_stop r \<in> {Stop_publishing, Stop_done} \<union> range Stop_raised"

lemma leaked_step:
  assumes "runtime_step r r'" and "leaked r"
  shows "leaked r'"
  using assms(1)
proof cases
  case (start_published res)
  then show ?thesis using assms(2) by (cases res) (auto simp: leaked_def)
next
  case (stop_published res)
  then show ?thesis using assms(2) by (cases res) (auto simp: leaked_def)
qed (use assms(2) in \<open>simp_all add: leaked_def TERMINAL_STRATEGY_STATES_def, (auto)?\<close>)

lemma leaked_forever: "runtime_step\<^sup>*\<^sup>* r r' \<Longrightarrow> leaked r \<Longrightarrow> leaked r'"
  by (induction rule: rtranclp_induct) (auto dest: leaked_step)

lemma reach_leaked: "\<exists>r. runtime_step\<^sup>*\<^sup>* (new_runtime True) r \<and> leaked r"
proof -
  let ?h1 = "(new_handle True)\<lparr>hd_state := INITIALIZING\<rparr>"
  let ?r1 = "(new_runtime True)\<lparr>rt_handle := ?h1, rt_start := Start_initializing\<rparr>"
  let ?r2 = "?r1\<lparr>rt_stop := Stop_joining\<rparr>"
  let ?r3 = "?r2\<lparr>rt_stop := Stop_in_shutdown\<rparr>"
  let ?r4 = "?r3\<lparr>rt_handle := running_handle, rt_start := Start_publishing, rt_task := Task_waiting\<rparr>"
  let ?h5 = "running_handle\<lparr>hd_state := STOPPED, hd_health_status := H_UNKNOWN, hd_stopped_at := Some 2\<rparr>"
  let ?r5 = "?r4\<lparr>rt_handle := ?h5, rt_stop := Stop_publishing\<rparr>"
  have d: "begin_drain (rt_handle ?r1) = (Inr (), ?h1)" by (simp add: evaluate_stretch)
  have s2: "runtime_step ?r1 ?r2"
    using stop_begin [OF _ _ d] by (simp add: new_runtime_def new_handle_def TERMINAL_STRATEGY_STATES_def)
  have s3: "runtime_step ?r2 ?r3" by (rule stop_joined) (simp_all add: new_runtime_def)
  have s4: "runtime_step ?r3 ?r4" by (rule initializing_runs) simp_all
  have e: "end_stop True 2 (rt_handle ?r4) = (Inr (), ?h5)" by (simp add: evaluate_stretch running_handle_def)
  have s5: "runtime_step ?r4 ?r5" using stop_end [OF _ e] by (simp add: after_stop_def)
  have "runtime_step\<^sup>*\<^sup>* (new_runtime True) ?r5"
    by (rule rtranclp_trans [OF reach_initializing])
      (rule run_cons [OF s2 run_cons [OF s3 run_cons [OF s4 run_one [OF s5]]]])
  moreover have "leaked ?r5" by (simp add: leaked_def running_handle_def)
  ultimately show ?thesis by blast
qed

section \<open>Properties\<close>

text \<open>
  C17: the runtime respects the lifecycle. However starting, event processing and stopping of a strategy interleave, and whatever
  the strategy's methods and the publisher do, every reachable step moves the state along the transition
  table or not at all, so that its rank never rises and a terminal state is final; a strategy that
  failed to start or to process an event can no longer emit order intents; and stopping returns only when the state is terminal.
\<close>

theorem runtime_respects_lifecycle:
  assumes "runtime_step\<^sup>*\<^sup>* (new_runtime enabled) r" and "runtime_step r r'"
  shows "(hd_state (rt_handle r') = hd_state (rt_handle r) \<or> hd_state (rt_handle r') \<in> set (allowed_transitions (hd_state (rt_handle r)))) \<and>
    lifecycle_rank (hd_state (rt_handle r')) \<le> lifecycle_rank (hd_state (rt_handle r)) \<and>
    (hd_state (rt_handle r) \<in> TERMINAL_STRATEGY_STATES \<longrightarrow> hd_state (rt_handle r') = hd_state (rt_handle r)) \<and>
    (0 < hd_failed_events (rt_handle r') \<longrightarrow> \<not> hd_order_intents_enabled (rt_handle r')) \<and>
    (rt_stop r' = Stop_done \<longrightarrow> hd_state (rt_handle r') \<in> TERMINAL_STRATEGY_STATES)"
proof -
  have s: "stretch_ok (rt_handle r) (rt_handle r')" by (rule step_stretch [OF assms(2)])
  then have m: "legal_move (hd_state (rt_handle r)) (hd_state (rt_handle r'))" by (simp add: stretch_ok_def)
  have i: "runtime_inv r'" by (rule runtime_inv_step [OF assms(2) runtime_inv_reachable [OF assms(1)]])
  have "lifecycle_rank (hd_state (rt_handle r')) \<le> lifecycle_rank (hd_state (rt_handle r))"
    using m allowed_lowers_rank by (fastforce simp: legal_move_def)
  then show ?thesis
    using m i terminal_moves [OF m] by (auto simp: legal_move_def runtime_inv_def handle_ok_def)
qed

theorem runtime_respects_lifecycle_witness:
  "\<exists>r r'. runtime_step\<^sup>*\<^sup>* (new_runtime True) r \<and> runtime_step r r' \<and> hd_state (rt_handle r') \<in> set (allowed_transitions (hd_state (rt_handle r)))"
proof -
  let ?r = "(new_runtime True)\<lparr>rt_handle := (new_handle True)\<lparr>hd_state := INITIALIZING\<rparr>, rt_start := Start_initializing\<rparr>"
  let ?r' = "?r\<lparr>rt_handle := running_handle, rt_start := Start_publishing, rt_task := Task_waiting\<rparr>"
  have s: "runtime_step ?r ?r'" by (rule initializing_runs) simp_all
  have "hd_state (rt_handle ?r') = RUNNING" "hd_state (rt_handle ?r) = INITIALIZING" by (simp_all add: running_handle_def)
  then have "hd_state (rt_handle ?r') \<in> set (allowed_transitions (hd_state (rt_handle ?r)))"
    using runtime_respects_lifecycle [OF reach_initializing s] by auto
  then show ?thesis using reach_initializing s by blast
qed

text \<open>
  C38: a handler that fails during a stop blocks the strategy for good. There is a run in which an event is being processed
  while stopping waits for the task, the handler raises, the move from draining to degraded is refused, and the
  exception leaves the task and then \<^verbatim>\<open>stop\<close>; from there on, whatever is called, the strategy stays in the draining state: it is never
  stopped or failed, and its \<^verbatim>\<open>shutdown\<close> is never called.
\<close>

theorem failing_handler_blocks_stop:
  "\<exists>r. runtime_step\<^sup>*\<^sup>* (new_runtime True) r \<and> rt_stop r = Stop_raised LIFECYCLE_ERROR \<and>
     (\<forall>r'. runtime_step\<^sup>*\<^sup>* r r' \<longrightarrow> hd_state (rt_handle r') = DRAINING \<and> rt_stop r' \<notin> {Stop_in_shutdown, Stop_publishing, Stop_done})"
proof -
  obtain r where r: "runtime_step\<^sup>*\<^sup>* (new_runtime True) r" "blocked r" "rt_stop r = Stop_raised LIFECYCLE_ERROR"
    using reach_blocked by blast
  have "hd_state (rt_handle r') = DRAINING \<and> rt_stop r' \<notin> {Stop_in_shutdown, Stop_publishing, Stop_done}"
    if "runtime_step\<^sup>*\<^sup>* r r'" for r'
    using blocked_forever [OF that r(2)] by (auto simp: blocked_def)
  then show ?thesis using r by blast
qed

theorem failing_handler_blocks_stop_witness:
  "\<exists>r. runtime_step\<^sup>*\<^sup>* (new_runtime True) r \<and> rt_stop r = Stop_raised LIFECYCLE_ERROR \<and> hd_state (rt_handle r) = DRAINING"
proof -
  obtain r where "runtime_step\<^sup>*\<^sup>* (new_runtime True) r" "rt_stop r = Stop_raised LIFECYCLE_ERROR"
    and "\<And>r'. runtime_step\<^sup>*\<^sup>* r r' \<Longrightarrow> hd_state (rt_handle r') = DRAINING"
    using failing_handler_blocks_stop by blast
  then show ?thesis by blast
qed

text \<open>
  Stopping during a start leaks the subscription. There is a run in which \<^verbatim>\<open>stop\<close> is called while the strategy is being
  initialized; the start then subscribes and the stop ends in the stopped state, with the subscription open. It
  stays open for ever, so its queue on the bus is never read again and never removed.
\<close>

theorem stop_during_start_leaks:
  "\<exists>r. runtime_step\<^sup>*\<^sup>* (new_runtime True) r \<and>
     (\<forall>r'. runtime_step\<^sup>*\<^sup>* r r' \<longrightarrow> hd_state (rt_handle r') = STOPPED \<and> hd_subscription (rt_handle r') = Open_subscription)"
proof -
  obtain r where r: "runtime_step\<^sup>*\<^sup>* (new_runtime True) r" "leaked r" using reach_leaked by blast
  have "hd_state (rt_handle r') = STOPPED \<and> hd_subscription (rt_handle r') = Open_subscription" if "runtime_step\<^sup>*\<^sup>* r r'" for r'
    using leaked_forever [OF that r(2)] by (simp add: leaked_def)
  then show ?thesis using r by blast
qed

theorem stop_during_start_leaks_witness:
  "\<exists>r. runtime_step\<^sup>*\<^sup>* (new_runtime True) r \<and> hd_state (rt_handle r) = STOPPED \<and> hd_subscription (rt_handle r) = Open_subscription"
proof -
  obtain r where "runtime_step\<^sup>*\<^sup>* (new_runtime True) r"
    and "\<And>r'. runtime_step\<^sup>*\<^sup>* r r' \<Longrightarrow> hd_state (rt_handle r') = STOPPED \<and> hd_subscription (rt_handle r') = Open_subscription"
    using stop_during_start_leaks by blast
  then show ?thesis by blast
qed

end
