(* ===== verification/Registries.thy ===== *)
theory Registries
  imports Schemas
begin

text \<open>
  The registries that map a type name to what handles it: \<open>src/pmrp/commands/registry.py\<close> and
  \<open>src/pmrp/events/registry.py\<close>. Both keep a dictionary, refuse to register a name twice and validate a name
  before they look it up. The locale \<open>registry\<close> states what their clients rely on; both modules interpret it.
\<close>

section \<open>Names\<close>

text \<open>
  \<^verbatim>\<open>[a-z][a-z0-9_]*\<close> is \<open>snake_case\<close>; the dotted pattern \<^verbatim>\<open>[a-z][a-z0-9_]*(\.[a-z][a-z0-9_]*)+\<close> is two or more such segments
  between dots.
\<close>

definition snake_case :: "string \<Rightarrow> bool" where
  "snake_case s \<longleftrightarrow> (case s of [] \<Rightarrow> False | c # cs \<Rightarrow> is_lower c \<and> list_all (\<lambda>d. is_lower d \<or> is_digit d \<or> d = CHR ''_'') cs)"

definition dotted_name :: "string \<Rightarrow> bool" where
  "dotted_name s \<longleftrightarrow> 2 \<le> length (segments CHR ''.'' s) \<and> list_all snake_case (segments CHR ''.'' s)"

definition parse_schema_version :: "int \<Rightarrow> int result" where
  "parse_schema_version v = (if v < 1 then Inl (Exc ''ValueError'' ''schema version must be positive'') else Inr v)"

section \<open>The contract of a registry\<close>

text \<open>
  \<open>key r\<close> is the name a registration is stored under, \<open>register r d\<close> adds it to the dictionary \<open>d\<close>, \<open>get k d\<close> looks a
  name up.
\<close>

locale registry =
  fixes key :: "'r \<Rightarrow> 'k"
    and valid :: "'k \<Rightarrow> bool"
    and register :: "'r \<Rightarrow> ('k \<times> 'r) list \<Rightarrow> 'e + ('k \<times> 'r) list"
    and get :: "'k \<Rightarrow> ('k \<times> 'r) list \<Rightarrow> 'e + 'r"
  assumes register_fresh: "key r \<notin> fst ` set d \<Longrightarrow> register r d = Inr (d @ [(key r, r)])"
    and register_taken: "key r \<in> fst ` set d \<Longrightarrow> \<exists>e. register r d = Inl e"
    and get_ok: "get k d = Inr r \<longleftrightarrow> valid k \<and> map_of d k = Some r"
begin

definition build :: "'r list \<Rightarrow> ('k \<times> 'r) list \<Rightarrow> 'e + ('k \<times> 'r) list" where
  "build rs d = foldE (\<lambda>d r. register r d) d rs"

lemma build_simps [simp]:
  "build [] d = Inr d"
  "build (r # rs) d = bindE (register r d) (\<lambda>d. build rs d)"
  by (simp_all add: build_def)

lemma build_distinct:
  "distinct (map fst d @ map key rs) \<Longrightarrow> build rs d = Inr (d @ map (\<lambda>r. (key r, r)) rs)"
proof (induction rs arbitrary: d)
  case Nil
  then show ?case by simp
next
  case (Cons r rs)
  have "key r \<notin> fst ` set d" using Cons.prems by auto
  then have "register r d = Inr (d @ [(key r, r)])" by (rule register_fresh)
  then show ?case using Cons.IH [of "d @ [(key r, r)]"] Cons.prems by simp
qed

lemma build_clash:
  "\<not> distinct (map fst d @ map key rs) \<Longrightarrow> distinct (map fst d) \<Longrightarrow> \<exists>e. build rs d = Inl e"
proof (induction rs arbitrary: d)
  case Nil
  then show ?case by simp
next
  case (Cons r rs)
  show ?case
  proof (cases "key r \<in> fst ` set d")
    case True
    then obtain e where "register r d = Inl e" using register_taken by blast
    then show ?thesis by simp
  next
    case False
    then have s: "register r d = Inr (d @ [(key r, r)])" by (rule register_fresh)
    have d: "distinct (map fst (d @ [(key r, r)]))" using False Cons.prems(2) by simp
    have n: "\<not> distinct (map fst (d @ [(key r, r)]) @ map key rs)" using Cons.prems(1) False by auto
    show ?thesis using s Cons.IH [OF n d] by simp
  qed
qed

lemma build_ok_iff: "(\<exists>d. build rs [] = Inr d) \<longleftrightarrow> distinct (map key rs)"
  using build_distinct [of "[]" rs] build_clash [of "[]" rs] by (cases "distinct (map key rs)") auto

text \<open>A registry answers exactly for the valid names of its registrations, and keeps their order.\<close>

lemma get_after_build:
  assumes "build rs [] = Inr d"
  shows "get k d = Inr r \<longleftrightarrow> valid k \<and> r \<in> set rs \<and> key r = k"
proof -
  have dist: "distinct (map key rs)" using assms build_ok_iff [of rs] by blast
  then have d: "d = map (\<lambda>r. (key r, r)) rs" using build_distinct [of "[]" rs] assms by simp
  then have "distinct (map fst d)" using dist by (simp add: comp_def)
  then show ?thesis unfolding get_ok by (auto simp: d map_of_eq_Some_iff comp_def)
qed

lemma registrations_after_build: "build rs [] = Inr d \<Longrightarrow> map snd d = rs"
  using build_ok_iff [of rs] build_distinct [of "[]" rs] by (simp add: comp_def)

end

section \<open>Commands (\<open>src/pmrp/commands/registry.py\<close>)\<close>

record command_envelope =
  cm_command_id :: ident
  cm_command_type :: string
  cm_schema_version :: int
  cm_issued_at :: instant
  cm_issuer :: string
  cm_correlation_id :: ident
  cm_causation_id :: "ident option"
  cm_trace_id :: "string option"
  cm_idempotency_key :: string
  cm_deadline_at :: "instant option"
  cm_priority :: int
  cm_attributes :: canon

record command_context =
  cc_command_id :: ident
  cc_command_type :: string
  cc_issued_at :: instant
  cc_issuer :: string
  cc_correlation_id :: ident
  cc_causation_id :: "ident option"
  cc_trace_id :: "string option"
  cc_idempotency_key :: string
  cc_deadline_at :: "instant option"
  cc_priority :: int

definition context_from_command :: "command_envelope \<Rightarrow> command_context" where
  "context_from_command c =
     \<lparr>cc_command_id = cm_command_id c, cc_command_type = cm_command_type c, cc_issued_at = cm_issued_at c,
      cc_issuer = cm_issuer c, cc_correlation_id = cm_correlation_id c, cc_causation_id = cm_causation_id c,
      cc_trace_id = cm_trace_id c, cc_idempotency_key = cm_idempotency_key c, cc_deadline_at = cm_deadline_at c,
      cc_priority = cm_priority c\<rparr>"

record 'h command_registration =
  cr_command_type :: string
  cr_schema_name :: string
  cr_schema_version :: int
  cr_handler :: 'h

definition validate_command_type :: "string \<Rightarrow> (bool \<times> py_error) list" where
  "validate_command_type s = [(\<not> dotted_name s, Exc ''ValueError'' ''command_type must use dotted lowercase segments'')]"

definition validate_schema_name :: "string \<Rightarrow> (bool \<times> py_error) list" where
  "validate_schema_name s = [(\<not> snake_case s, Exc ''ValueError'' ''schema_name must use lowercase snake_case'')]"

definition mk_command_registration :: "'h command_registration \<Rightarrow> 'h command_registration result" where
  "mk_command_registration r =
     bindE (guards (validate_command_type (cr_command_type r) @ validate_schema_name (cr_schema_name r))) (\<lambda>_.
     bindE (parse_schema_version (cr_schema_version r)) (\<lambda>v. Inr (r\<lparr>cr_schema_version := v\<rparr>)))"

type_synonym 'h command_registry = "(string \<times> 'h command_registration) list"

definition register_command :: "'h command_registration \<Rightarrow> 'h command_registry \<Rightarrow> 'h command_registry result" where
  "register_command r d =
     (if cr_command_type r \<in> fst ` set d then Inl (Exc ''ValueError'' ''command type is already registered'')
      else Inr (dict_set (cr_command_type r) r d))"

definition command_registry_get :: "string \<Rightarrow> 'h command_registry \<Rightarrow> 'h command_registration result" where
  "command_registry_get command_type d =
     bindE (guards (validate_command_type command_type)) (\<lambda>_.
     case map_of d command_type of
       None \<Rightarrow> Inl (Exc ''UnknownCommandTypeError'' ''command type is not registered'')
     | Some r \<Rightarrow> Inr r)"

definition mk_command_registry :: "'h command_registration list \<Rightarrow> 'h command_registry result" where
  "mk_command_registry rs = foldE (\<lambda>d r. register_command r d) [] rs"

lemma dict_set_fresh: "k \<notin> fst ` set d \<Longrightarrow> dict_set k v d = d @ [(k, v)]"
  by (induction k v d rule: dict_set.induct) auto

interpretation commands: registry cr_command_type dotted_name register_command command_registry_get
  by unfold_locales
    (auto simp: register_command_def command_registry_get_def validate_command_type_def dict_set_fresh split: option.splits)

section \<open>Events (\<open>src/pmrp/events/registry.py\<close>)\<close>

record event_registration =
  et_event_type :: string
  et_schema_name :: string
  et_schema_version :: int

definition validate_event_type :: "string \<Rightarrow> (bool \<times> py_error) list" where
  "validate_event_type s = [(\<not> dotted_name s, Exc ''ValueError'' ''event_type must use dotted lowercase segments'')]"

definition mk_event_registration :: "event_registration \<Rightarrow> event_registration result" where
  "mk_event_registration r =
     bindE (guards (validate_event_type (et_event_type r) @ validate_schema_name (et_schema_name r))) (\<lambda>_.
     bindE (parse_schema_version (et_schema_version r)) (\<lambda>_. Inr r))"

type_synonym event_registry = "(string \<times> event_registration) list"

definition register_event :: "event_registration \<Rightarrow> event_registry \<Rightarrow> event_registry result" where
  "register_event r d =
     (if et_event_type r \<in> fst ` set d then Inl (Exc ''ValueError'' ''event type is already registered'')
      else Inr (dict_set (et_event_type r) r d))"

definition event_registry_get :: "string \<Rightarrow> event_registry \<Rightarrow> event_registration result" where
  "event_registry_get event_type d =
     bindE (guards (validate_event_type event_type)) (\<lambda>_.
     case map_of d event_type of
       None \<Rightarrow> Inl (Exc ''UnknownEventTypeError'' ''event type is not registered'')
     | Some r \<Rightarrow> Inr r)"

definition schema_version_for :: "string \<Rightarrow> event_registry \<Rightarrow> int result" where
  "schema_version_for event_type d = bindE (event_registry_get event_type d) (\<lambda>r. Inr (et_schema_version r))"

definition mk_event_registry :: "event_registration list \<Rightarrow> event_registry result" where
  "mk_event_registry rs = foldE (\<lambda>d r. register_event r d) [] rs"

interpretation events: registry et_event_type dotted_name register_event event_registry_get
  by unfold_locales
    (auto simp: register_event_def event_registry_get_def validate_event_type_def dict_set_fresh split: option.splits)

definition CANONICAL_EVENT_TYPE_SCHEMAS :: "(string \<times> string) list" where
  "CANONICAL_EVENT_TYPE_SCHEMAS =
     [(''market.order_book_snapshot'', ''order_book_snapshot_event''),
      (''market.order_book_delta'', ''order_book_delta_event''),
      (''market.trade_observed'', ''trade_observed_event''),
      (''strategy.started'', ''strategy_started_event''),
      (''strategy.stopped'', ''strategy_stopped_event''),
      (''strategy.health_changed'', ''strategy_health_changed_event''),
      (''strategy.signal_generated'', ''signal_generated_event''),
      (''risk.check_requested'', ''risk_check_requested_event''),
      (''risk.approved'', ''risk_approved_event''),
      (''risk.rejected'', ''risk_rejected_event''),
      (''risk.limit_breached'', ''risk_limit_breached_event''),
      (''risk.kill_switch_activated'', ''kill_switch_activated_event''),
      (''risk.kill_switch_released'', ''kill_switch_released_event''),
      (''portfolio.position_changed'', ''position_changed_event''),
      (''portfolio.cash_balance_changed'', ''cash_balance_changed_event''),
      (''portfolio.pnl_updated'', ''pnl_updated_event''),
      (''portfolio.reconciled'', ''portfolio_reconciled_event''),
      (''portfolio.mismatch_detected'', ''portfolio_mismatch_detected_event'')]"

definition default_event_type_registrations :: "event_registration list result" where
  "default_event_type_registrations =
     mapE (\<lambda>(event_type, schema_name). mk_event_registration
       \<lparr>et_event_type = event_type, et_schema_name = schema_name, et_schema_version = 1\<rparr>) CANONICAL_EVENT_TYPE_SCHEMAS"

definition default_event_type_registry :: "event_registry result" where
  "default_event_type_registry = bindE default_event_type_registrations mk_event_registry"

text \<open>
  The default registry is built without error, and knows exactly the canonical event types, at version 1.
\<close>

lemma default_registrations_ok:
  "default_event_type_registrations =
     Inr (map (\<lambda>(t, n). \<lparr>et_event_type = t, et_schema_name = n, et_schema_version = 1\<rparr>) CANONICAL_EVENT_TYPE_SCHEMAS)"
  by code_simp

lemma default_event_types_distinct: "distinct (map fst CANONICAL_EVENT_TYPE_SCHEMAS)"
  by code_simp

lemma mk_event_registration_dotted: "mk_event_registration r = Inr r' \<Longrightarrow> dotted_name (et_event_type r)"
  by (auto simp: mk_event_registration_def validate_event_type_def bindE_eq_Inr split: if_splits)

lemma canonical_types_dotted:
  assumes "t \<in> fst ` set CANONICAL_EVENT_TYPE_SCHEMAS"
  shows "dotted_name t"
proof -
  obtain n where n: "(t, n) \<in> set CANONICAL_EVENT_TYPE_SCHEMAS" using assms by auto
  obtain r where "mk_event_registration \<lparr>et_event_type = t, et_schema_name = n, et_schema_version = 1\<rparr> = Inr r"
    using mapE_all [OF default_registrations_ok [unfolded default_event_type_registrations_def] n] by auto
  then show ?thesis using mk_event_registration_dotted by fastforce
qed

lemma default_registry_version:
  "\<exists>d. default_event_type_registry = Inr d \<and>
     (\<forall>t v. schema_version_for t d = Inr v \<longleftrightarrow> t \<in> fst ` set CANONICAL_EVENT_TYPE_SCHEMAS \<and> v = 1)"
proof -
  let ?rs = "map (\<lambda>(t, n). \<lparr>et_event_type = t, et_schema_name = n, et_schema_version = 1\<rparr>) CANONICAL_EVENT_TYPE_SCHEMAS"
  have keys: "map et_event_type ?rs = map fst CANONICAL_EVENT_TYPE_SCHEMAS" by (simp add: comp_def case_prod_beta)
  then obtain d where d: "events.build ?rs [] = Inr d"
    using events.build_ok_iff default_event_types_distinct by metis
  have "schema_version_for t d = Inr v \<longleftrightarrow> t \<in> fst ` set CANONICAL_EVENT_TYPE_SCHEMAS \<and> v = 1" for t v
    unfolding schema_version_for_def bindE_eq_Inr events.get_after_build [OF d]
    using canonical_types_dotted by (force simp: case_prod_beta)
  then show ?thesis
    using d by (auto simp: default_event_type_registry_def default_registrations_ok mk_event_registry_def events.build_def)
qed

end
