(* ===== verification/Commands.thy ===== *)
theory Commands
  imports Registries
begin

text \<open>
  \<open>src/pmrp/commands/dispatcher.py\<close>: dispatching a command to its handler, at most once per idempotency key. The hook that
  remembers what was done is a protocol (record \<open>hook\<close>, contract \<open>idempotency_hook\<close>); \<open>memory_hook\<close> is the bounded
  in-memory implementation. A dispatch awaits only its handler (the lock of the in-memory hook is never held across an
  await), so it is two stretches, \<open>dispatch_begin\<close> and \<open>dispatch_end\<close>, and dispatches interleave between them.
  A task that is cancelled in its handler runs neither.
\<close>

section \<open>Outcomes\<close>

datatype dispatch_status = DS_COMPLETED | DS_DUPLICATE | DS_REJECTED | DS_FAILED

datatype command_failure_kind =
    UNKNOWN_COMMAND_TYPE | SCHEMA_VERSION_MISMATCH | DEADLINE_EXCEEDED | FK_DUPLICATE_IN_PROGRESS | IDEMPOTENCY_CONFLICT
  | IDEMPOTENCY_REJECTED | IDEMPOTENCY_HOOK_ERROR | HANDLER_REJECTED | HANDLER_ERROR

record command_failure =
  cf_kind :: command_failure_kind
  cf_message :: string
  cf_retryable :: bool

text \<open>A result is an object or \<^verbatim>\<open>None\<close>; objects are the type variable \<open>'v\<close>.\<close>

record 'v dispatch_result =
  dr_command_id :: ident
  dr_command_type :: string
  dr_correlation_id :: ident
  dr_status :: dispatch_status
  dr_result :: "'v option"
  dr_failure :: "command_failure option"

datatype idempotency_status = CLAIMED | DUPLICATE_COMPLETED | DUPLICATE_FAILED | DUPLICATE_IN_PROGRESS | CONFLICT | IS_REJECTED

record 'v idempotency_decision =
  dc_status :: idempotency_status
  dc_result :: "'v option"
  dc_failure :: "command_failure option"
  dc_reason :: "string option"

definition claimed :: "'v idempotency_decision" where
  "claimed = \<lparr>dc_status = CLAIMED, dc_result = None, dc_failure = None, dc_reason = None\<rparr>"

definition duplicate_completed :: "'v option \<Rightarrow> 'v idempotency_decision" where
  "duplicate_completed result = \<lparr>dc_status = DUPLICATE_COMPLETED, dc_result = result, dc_failure = None, dc_reason = None\<rparr>"

definition duplicate_failed :: "command_failure \<Rightarrow> 'v idempotency_decision" where
  "duplicate_failed failure = \<lparr>dc_status = DUPLICATE_FAILED, dc_result = None, dc_failure = Some failure, dc_reason = None\<rparr>"

definition refusal :: "idempotency_status \<Rightarrow> string \<Rightarrow> 'v idempotency_decision" where
  "refusal status reason = \<lparr>dc_status = status, dc_result = None, dc_failure = None, dc_reason = Some reason\<rparr>"

section \<open>The in-memory hook\<close>

datatype entry_status = IN_PROGRESS | ENTRY_COMPLETED | ENTRY_FAILED

record 'v idempotency_entry =
  ie_fingerprint :: string
  ie_status :: entry_status
  ie_result :: "'v option"
  ie_failure :: "command_failure option"

record 'v memory_hook =
  mh_max_entries :: int
  mh_entries :: "(string \<times> 'v idempotency_entry) list"

definition mk_memory_hook :: "int \<Rightarrow> 'v memory_hook result" where
  "mk_memory_hook max_entries =
     (if max_entries < 1 then Inl (Exc ''ValueError'' ''max_entries must be positive'')
      else Inr \<lparr>mh_max_entries = max_entries, mh_entries = []\<rparr>)"

definition command_fingerprint :: "hasher \<Rightarrow> command_envelope \<Rightarrow> string" where
  "command_fingerprint H c =
     H (CMap [(''attributes'', cm_attributes c), (''command_type'', CStr (cm_command_type c)),
       (''deadline_at'', canon_of_time (cm_deadline_at c)), (''issuer'', CStr (cm_issuer c)),
       (''priority'', CInt (cm_priority c)), (''schema_version'', CInt (cm_schema_version c))])"

definition move_to_end :: "'k \<Rightarrow> ('k \<times> 'v) list \<Rightarrow> ('k \<times> 'v) list" where
  "move_to_end k d = (case map_of d k of None \<Rightarrow> d | Some v \<Rightarrow> dict_pop k d @ [(k, v)])"

fun evict_oldest :: "string option \<Rightarrow> (string \<times> 'v idempotency_entry) list \<Rightarrow> bool \<times> (string \<times> 'v idempotency_entry) list" where
  "evict_oldest protected_key [] = (False, [])"
| "evict_oldest protected_key ((k, e) # d) =
     (if Some k = protected_key \<or> ie_status e = IN_PROGRESS
      then (case evict_oldest protected_key d of (removed, d') \<Rightarrow> (removed, (k, e) # d'))
      else (True, d))"

lemma evict_length: "evict_oldest p d = (removed, d') \<Longrightarrow> length d = length d' + (if removed then 1 else 0)"
  by (induction p d arbitrary: d' rule: evict_oldest.induct) (auto split: if_splits prod.splits)

function trim_to_capacity :: "int \<Rightarrow> string \<Rightarrow> (string \<times> 'v idempotency_entry) list \<Rightarrow> (string \<times> 'v idempotency_entry) list" where
  "trim_to_capacity max_entries k d =
     (if int (length d) \<le> max_entries then d
      else case evict_oldest (Some k) d of (removed, d') \<Rightarrow> if removed then trim_to_capacity max_entries k d' else d')"
  by auto
termination
  by (relation "measure (\<lambda>(n, k, d). length d)") (auto dest!: evict_length [OF sym])

declare trim_to_capacity.simps [simp del]

definition decision_for_entry :: "hasher \<Rightarrow> command_envelope \<Rightarrow> 'v idempotency_entry \<Rightarrow> 'v idempotency_decision" where
  "decision_for_entry H c e =
     (if ie_fingerprint e \<noteq> command_fingerprint H c
      then refusal CONFLICT ''command idempotency key conflicts with a different command request''
      else if ie_status e = IN_PROGRESS then refusal DUPLICATE_IN_PROGRESS ''command idempotency key is already in progress''
      else if ie_status e = ENTRY_COMPLETED then duplicate_completed (ie_result e)
      else case ie_failure e of
        None \<Rightarrow> refusal IS_REJECTED ''command idempotency key has a failed record without failure metadata''
      | Some f \<Rightarrow> duplicate_failed f)"

definition new_entry :: "hasher \<Rightarrow> command_envelope \<Rightarrow> 'v idempotency_entry" where
  "new_entry H c =
     \<lparr>ie_fingerprint = command_fingerprint H c, ie_status = IN_PROGRESS, ie_result = None, ie_failure = None\<rparr>"

definition before_dispatch :: "hasher \<Rightarrow> command_envelope \<Rightarrow> 'v memory_hook \<Rightarrow> 'v idempotency_decision \<times> 'v memory_hook" where
  "before_dispatch H c h =
     (case map_of (mh_entries h) (cm_idempotency_key c) of
        Some e \<Rightarrow> (decision_for_entry H c e, h\<lparr>mh_entries := move_to_end (cm_idempotency_key c) (mh_entries h)\<rparr>)
      | None \<Rightarrow>
          let d = (if mh_max_entries h \<le> int (length (mh_entries h)) then snd (evict_oldest None (mh_entries h)) else mh_entries h) in
          if mh_max_entries h \<le> int (length d)
          then (refusal IS_REJECTED ''command idempotency hook capacity is exhausted'', h\<lparr>mh_entries := d\<rparr>)
          else (claimed, h\<lparr>mh_entries := dict_set (cm_idempotency_key c) (new_entry H c) d\<rparr>))"

definition store_entry :: "string \<Rightarrow> 'v idempotency_entry \<Rightarrow> 'v memory_hook \<Rightarrow> 'v memory_hook" where
  "store_entry k e h = h\<lparr>mh_entries := trim_to_capacity (mh_max_entries h) k (move_to_end k (dict_set k e (mh_entries h)))\<rparr>"

definition completed_entry :: "hasher \<Rightarrow> command_envelope \<Rightarrow> 'v option \<Rightarrow> 'v idempotency_entry" where
  "completed_entry H c result =
     \<lparr>ie_fingerprint = command_fingerprint H c, ie_status = ENTRY_COMPLETED, ie_result = result, ie_failure = None\<rparr>"

definition failed_entry :: "hasher \<Rightarrow> command_envelope \<Rightarrow> command_failure \<Rightarrow> 'v idempotency_entry" where
  "failed_entry H c failure =
     \<lparr>ie_fingerprint = command_fingerprint H c, ie_status = ENTRY_FAILED, ie_result = None, ie_failure = Some failure\<rparr>"

definition record_success :: "hasher \<Rightarrow> command_envelope \<Rightarrow> 'v option \<Rightarrow> 'v memory_hook \<Rightarrow> 'v memory_hook" where
  "record_success H c result h = store_entry (cm_idempotency_key c) (completed_entry H c result) h"

definition record_failure :: "hasher \<Rightarrow> command_envelope \<Rightarrow> command_failure \<Rightarrow> 'v memory_hook \<Rightarrow> 'v memory_hook" where
  "record_failure H c failure h = store_entry (cm_idempotency_key c) (failed_entry H c failure) h"

section \<open>Dispatching\<close>

text \<open>The hook the dispatcher is given; each operation may raise, and keeps a state of its own.\<close>

record ('v, 's) hook =
  hk_before :: "command_envelope \<Rightarrow> 's \<Rightarrow> 'v idempotency_decision result \<times> 's"
  hk_success :: "command_envelope \<Rightarrow> 'v option \<Rightarrow> 's \<Rightarrow> unit result \<times> 's"
  hk_failure :: "command_envelope \<Rightarrow> command_failure \<Rightarrow> 's \<Rightarrow> unit result \<times> 's"

definition in_memory :: "hasher \<Rightarrow> ('v, 'v memory_hook) hook" where
  "in_memory H =
     \<lparr>hk_before = (\<lambda>c h. (Inr (fst (before_dispatch H c h)), snd (before_dispatch H c h))),
      hk_success = (\<lambda>c r h. (Inr (), record_success H c r h)),
      hk_failure = (\<lambda>c f h. (Inr (), record_failure H c f h))\<rparr>"

definition result_of :: "command_envelope \<Rightarrow> dispatch_status \<Rightarrow> 'v option \<Rightarrow> command_failure option \<Rightarrow> 'v dispatch_result" where
  "result_of c status r f =
     \<lparr>dr_command_id = cm_command_id c, dr_command_type = cm_command_type c, dr_correlation_id = cm_correlation_id c,
      dr_status = status, dr_result = r, dr_failure = f\<rparr>"

definition result_for_failure :: "command_envelope \<Rightarrow> command_failure \<Rightarrow> dispatch_status \<Rightarrow> 'v dispatch_result" where
  "result_for_failure c f status = result_of c status None (Some f)"

definition failure_of :: "command_failure_kind \<Rightarrow> string \<Rightarrow> bool \<Rightarrow> command_failure" where
  "failure_of kind message retryable = \<lparr>cf_kind = kind, cf_message = message, cf_retryable = retryable\<rparr>"

definition hook_error_result :: "command_envelope \<Rightarrow> 'v dispatch_result" where
  "hook_error_result c =
     result_for_failure c (failure_of IDEMPOTENCY_HOOK_ERROR ''command idempotency hook raised an exception'' True) DS_FAILED"

text \<open>\<^verbatim>\<open>reason or default\<close>: a missing or empty reason gives the default.\<close>

definition or_default :: "string option \<Rightarrow> string \<Rightarrow> string" where
  "or_default reason d = (case reason of None \<Rightarrow> d | Some s \<Rightarrow> if s = [] then d else s)"

definition result_for_idempotency_decision :: "command_envelope \<Rightarrow> 'v idempotency_decision \<Rightarrow> 'v dispatch_result option" where
  "result_for_idempotency_decision c d =
     (case dc_status d of
        CLAIMED \<Rightarrow> None
      | DUPLICATE_COMPLETED \<Rightarrow> Some (result_of c DS_DUPLICATE (dc_result d) None)
      | DUPLICATE_FAILED \<Rightarrow> Some (result_for_failure c
          (case dc_failure d of
             None \<Rightarrow> failure_of IDEMPOTENCY_REJECTED ''duplicate command has no failure metadata'' False
           | Some f \<Rightarrow> f) DS_DUPLICATE)
      | DUPLICATE_IN_PROGRESS \<Rightarrow> Some (result_for_failure c
          (failure_of FK_DUPLICATE_IN_PROGRESS (or_default (dc_reason d) ''command idempotency key is already in progress'') True)
          DS_REJECTED)
      | CONFLICT \<Rightarrow> Some (result_for_failure c
          (failure_of IDEMPOTENCY_CONFLICT (or_default (dc_reason d) ''command idempotency key conflicts with another request'') False)
          DS_REJECTED)
      | IS_REJECTED \<Rightarrow> Some (result_for_failure c
          (failure_of IDEMPOTENCY_REJECTED (or_default (dc_reason d) ''command idempotency hook rejected command'') True)
          DS_REJECTED))"

definition record_failure_result ::
  "('v, 's) hook \<Rightarrow> command_envelope \<Rightarrow> command_failure \<Rightarrow> dispatch_status \<Rightarrow> 's \<Rightarrow> 'v dispatch_result \<times> 's" where
  "record_failure_result hk c f status s =
     (case hk_failure hk c f s of
        (Inl _, s') \<Rightarrow> (hook_error_result c, s')
      | (Inr _, s') \<Rightarrow> (result_for_failure c f status, s'))"

text \<open>What the handler did: it returned, or raised one of the two exceptions meant for it, or any other.\<close>

datatype 'v handler_outcome =
    Handler_returns "'v option"
  | Handler_rejects string bool
  | Handler_errors command_failure_kind string bool
  | Handler_raises string

datatype ('v, 'h) begun = Answers "'v dispatch_result" | Calls "'h command_registration" command_context

definition dispatch_begin ::
  "'h command_registry \<Rightarrow> ('v, 's) hook \<Rightarrow> instant \<Rightarrow> command_envelope \<Rightarrow> 's \<Rightarrow> ('v, 'h) begun \<times> 's" where
  "dispatch_begin reg hk now c s =
     (case command_registry_get (cm_command_type c) reg of
        Inl _ \<Rightarrow> (Answers (result_for_failure c (failure_of UNKNOWN_COMMAND_TYPE ''command type is not registered'' False) DS_REJECTED), s)
      | Inr registration \<Rightarrow>
          if cr_schema_version registration \<noteq> cm_schema_version c
          then (Answers (result_for_failure c
            (failure_of SCHEMA_VERSION_MISMATCH ''command schema version does not match registered handler'' False) DS_REJECTED), s)
          else case hk_before hk c s of
            (Inl _, s1) \<Rightarrow> (Answers (hook_error_result c), s1)
          | (Inr decision, s1) \<Rightarrow>
              (case result_for_idempotency_decision c decision of
                 Some r \<Rightarrow> (Answers r, s1)
               | None \<Rightarrow>
                   if (case cm_deadline_at c of None \<Rightarrow> False | Some deadline \<Rightarrow> deadline < now)
                   then (case record_failure_result hk c
                       (failure_of DEADLINE_EXCEEDED ''command deadline has expired'' False) DS_REJECTED s1 of
                     (r, s2) \<Rightarrow> (Answers r, s2))
                   else (Calls registration (context_from_command c), s1)))"

definition dispatch_end ::
  "('v, 's) hook \<Rightarrow> command_envelope \<Rightarrow> 'v handler_outcome \<Rightarrow> 's \<Rightarrow> 'v dispatch_result \<times> 's" where
  "dispatch_end hk c outcome s =
     (case outcome of
        Handler_rejects message retryable \<Rightarrow> record_failure_result hk c (failure_of HANDLER_REJECTED message retryable) DS_REJECTED s
      | Handler_errors kind message retryable \<Rightarrow> record_failure_result hk c (failure_of kind message retryable) DS_FAILED s
      | Handler_raises class \<Rightarrow>
          record_failure_result hk c (failure_of HANDLER_ERROR (class @ '' raised by command handler'') False) DS_FAILED s
      | Handler_returns r \<Rightarrow>
          (case hk_success hk c r s of
             (Inl _, s') \<Rightarrow> (hook_error_result c, s')
           | (Inr _, s') \<Rightarrow> (result_of c DS_COMPLETED r None, s')))"

section \<open>Interleaved dispatches\<close>

text \<open>
  The state is the hook's and the commands whose handlers run. The log says, in order, what happened: a reply without a handler call,
  the start of a handler, its end with the reply, or its cancellation.
\<close>

datatype 'v dispatch_log =
    Replied command_envelope "'v dispatch_result"
  | Started command_envelope
  | Finished command_envelope "'v dispatch_result"
  | Cancelled command_envelope

inductive dispatch_step ::
  "'h command_registry \<Rightarrow> ('v, 's) hook \<Rightarrow> 's \<times> command_envelope list \<Rightarrow> 'v dispatch_log \<Rightarrow> 's \<times> command_envelope list \<Rightarrow> bool"
  for reg hk where
  reply: "dispatch_begin reg hk now c s = (Answers r, s') \<Longrightarrow> dispatch_step reg hk (s, cs) (Replied c r) (s', cs)"
| start: "dispatch_begin reg hk now c s = (Calls g ctx, s') \<Longrightarrow> dispatch_step reg hk (s, cs) (Started c) (s', c # cs)"
| finish: "c \<in> set cs \<Longrightarrow> dispatch_end hk c outcome s = (r, s') \<Longrightarrow> dispatch_step reg hk (s, cs) (Finished c r) (s', remove1 c cs)"
| cancel: "c \<in> set cs \<Longrightarrow> dispatch_step reg hk (s, cs) (Cancelled c) (s, remove1 c cs)"

inductive dispatch_run ::
  "'h command_registry \<Rightarrow> ('v, 's) hook \<Rightarrow> 's \<times> command_envelope list \<Rightarrow> 'v dispatch_log list \<Rightarrow> 's \<times> command_envelope list \<Rightarrow> bool"
  for reg hk where
  run_nil: "dispatch_run reg hk a [] a"
| run_snoc: "dispatch_run reg hk a tr b \<Longrightarrow> dispatch_step reg hk b l b' \<Longrightarrow> dispatch_run reg hk a (tr @ [l]) b'"

inductive_cases dispatch_stepE: "dispatch_step reg hk (s, cs) l (s', cs')"

fun log_command :: "'v dispatch_log \<Rightarrow> command_envelope" where
  "log_command (Replied c r) = c"
| "log_command (Started c) = c"
| "log_command (Finished c r) = c"
| "log_command (Cancelled c) = c"

abbreviation log_key :: "'v dispatch_log \<Rightarrow> string" where
  "log_key l \<equiv> cm_idempotency_key (log_command l)"

definition starts_key :: "string \<Rightarrow> 'v dispatch_log \<Rightarrow> bool" where
  "starts_key k l \<longleftrightarrow> (\<exists>c. l = Started c \<and> cm_idempotency_key c = k)"

text \<open>Two commands are the same request when all the dispatcher looks at agrees.\<close>

definition same_request :: "hasher \<Rightarrow> command_envelope \<Rightarrow> command_envelope \<Rightarrow> bool" where
  "same_request H c c' \<longleftrightarrow> cm_idempotency_key c' = cm_idempotency_key c \<and> cm_command_type c' = cm_command_type c \<and>
     cm_schema_version c' = cm_schema_version c \<and> command_fingerprint H c' = command_fingerprint H c"

definition accepts_command :: "'h command_registry \<Rightarrow> command_envelope \<Rightarrow> bool" where
  "accepts_command reg c \<longleftrightarrow>
     (\<exists>g. command_registry_get (cm_command_type c) reg = Inr g \<and> cr_schema_version g = cm_schema_version c)"

definition in_progress_reply :: "command_envelope \<Rightarrow> 'v dispatch_result" where
  "in_progress_reply c =
     result_for_failure c (failure_of FK_DUPLICATE_IN_PROGRESS ''command idempotency key is already in progress'' True) DS_REJECTED"

lemma dispatch_run_split:
  assumes "dispatch_run reg hk a (pre @ l # post) b"
  shows "\<exists>m m'. dispatch_run reg hk a pre m \<and> dispatch_step reg hk m l m' \<and> dispatch_run reg hk m' post b"
  using assms
proof (induction post arbitrary: b rule: rev_induct)
  case Nil
  then obtain m where "dispatch_run reg hk a pre m" and "dispatch_step reg hk m l b"
    by (cases rule: dispatch_run.cases) auto
  then show ?case by (blast intro: run_nil)
next
  case (snoc x xs)
  from snoc.prems obtain b' where "dispatch_run reg hk a (pre @ l # xs) b'" and "dispatch_step reg hk b' x b"
    by (cases rule: dispatch_run.cases) auto
  with snoc.IH show ?case by (blast intro: run_snoc)
qed

section \<open>Entries and replies\<close>

text \<open>The reply that an entry gives to a further command under its key.\<close>

definition entry_reply :: "hasher \<Rightarrow> command_envelope \<Rightarrow> 'v idempotency_entry \<Rightarrow> 'v dispatch_result" where
  "entry_reply H c e = the (result_for_idempotency_decision c (decision_for_entry H c e))"

text \<open>An entry that keeps what a handler's reply said.\<close>

definition remembers :: "hasher \<Rightarrow> command_envelope \<Rightarrow> 'v dispatch_result \<Rightarrow> 'v idempotency_entry \<Rightarrow> bool" where
  "remembers H c r e \<longleftrightarrow> ie_fingerprint e = command_fingerprint H c \<and>
     (e = completed_entry H c (dr_result r) \<and> dr_failure r = None \<or>
      (\<exists>f. e = failed_entry H c f \<and> dr_failure r = Some f \<and> dr_result r = None))"

definition forgets :: "(string \<Rightarrow> 'v idempotency_entry option) \<Rightarrow> (string \<Rightarrow> 'v idempotency_entry option) \<Rightarrow> bool" where
  "forgets v m \<longleftrightarrow> (\<forall>k e. m k = Some e \<longrightarrow> v k = Some e) \<and> (\<forall>k e. v k = Some e \<longrightarrow> ie_status e = IN_PROGRESS \<longrightarrow> m k = Some e)"

lemma forgets_refl: "forgets v v"
  by (simp add: forgets_def)

lemma forgets_keeps: "forgets v m \<Longrightarrow> v k = Some e \<Longrightarrow> ie_status e = IN_PROGRESS \<Longrightarrow> m k = Some e"
  unfolding forgets_def by blast

lemma forgets_none: "forgets v m \<Longrightarrow> v k = None \<Longrightarrow> m k = None"
  unfolding forgets_def by (metis not_None_eq)

lemma decision_for_entry_replies:
  "result_for_idempotency_decision c (decision_for_entry H c e) = Some (entry_reply H c e)"
  by (auto simp: entry_reply_def result_for_idempotency_decision_def decision_for_entry_def refusal_def duplicate_completed_def
      duplicate_failed_def split: option.splits)

lemma entry_statuses [simp]:
  "ie_status (new_entry H c) = IN_PROGRESS" "ie_fingerprint (new_entry H c) = command_fingerprint H c"
  "ie_status (completed_entry H c r) = ENTRY_COMPLETED" "ie_status (failed_entry H c f) = ENTRY_FAILED"
  by (simp_all add: new_entry_def completed_entry_def failed_entry_def)

lemma remembers_terminal: "remembers H c r e \<Longrightarrow> ie_status e \<noteq> IN_PROGRESS"
  by (auto simp: remembers_def)

lemma remembers_reply:
  assumes "remembers H c r e" and "same_request H c c'"
  shows "dr_status (entry_reply H c' e) = DS_DUPLICATE \<and> dr_result (entry_reply H c' e) = dr_result r \<and>
    dr_failure (entry_reply H c' e) = dr_failure r"
  using assms
  by (auto simp: remembers_def same_request_def entry_reply_def decision_for_entry_def completed_entry_def failed_entry_def
      duplicate_completed_def duplicate_failed_def result_for_idempotency_decision_def result_for_failure_def result_of_def)

lemma in_progress_entry_reply:
  "ie_fingerprint e = command_fingerprint H c \<Longrightarrow> ie_status e = IN_PROGRESS \<Longrightarrow> entry_reply H c e = in_progress_reply c"
  by (simp add: entry_reply_def decision_for_entry_def refusal_def result_for_idempotency_decision_def in_progress_reply_def
      or_default_def)

section \<open>The contract of an idempotency hook\<close>

text \<open>
  \<open>view s\<close> maps the keys the hook remembers to their entries. A remembered key is answered from its entry; a new key is claimed or
  refused; claiming may forget other keys, but none that is in progress. \<open>bounded_hook\<close> adds that nothing is
  forgotten while the keys fit.
\<close>

locale idempotency_hook =
  fixes hk :: "('v, 's) hook"
    and H :: hasher
    and ok :: "'s \<Rightarrow> bool"
    and view :: "'s \<Rightarrow> string \<Rightarrow> 'v idempotency_entry option"
  assumes before_known: "ok s \<Longrightarrow> view s (cm_idempotency_key c) = Some e \<Longrightarrow>
      \<exists>s'. hk_before hk c s = (Inr (decision_for_entry H c e), s') \<and> ok s' \<and> view s' = view s"
    and before_new: "ok s \<Longrightarrow> view s (cm_idempotency_key c) = None \<Longrightarrow>
      \<exists>s' m. forgets (view s) m \<and> ok s' \<and>
        (hk_before hk c s = (Inr claimed, s') \<and> view s' = m(cm_idempotency_key c \<mapsto> new_entry H c) \<or>
         (\<exists>reason. hk_before hk c s = (Inr (refusal IS_REJECTED reason), s') \<and> view s' = m))"
    and success: "ok s \<Longrightarrow> view s (cm_idempotency_key c) \<noteq> None \<Longrightarrow>
      \<exists>s'. hk_success hk c r s = (Inr (), s') \<and> ok s' \<and> view s' = (view s)(cm_idempotency_key c \<mapsto> completed_entry H c r)"
    and failure: "ok s \<Longrightarrow> view s (cm_idempotency_key c) \<noteq> None \<Longrightarrow>
      \<exists>s'. hk_failure hk c f s = (Inr (), s') \<and> ok s' \<and> view s' = (view s)(cm_idempotency_key c \<mapsto> failed_entry H c f)"
begin

lemma begin_refused:
  assumes "\<not> accepts_command reg c" and "dispatch_begin reg hk now c s = (b, s')"
  shows "s' = s \<and> (\<exists>r. b = Answers r)"
  using assms by (auto simp: dispatch_begin_def accepts_command_def split: sum.splits if_splits)

lemma begin_known:
  assumes "ok s" and "view s (cm_idempotency_key c) = Some e" and "accepts_command reg c"
    and b: "dispatch_begin reg hk now c s = (b, s')"
  shows "b = Answers (entry_reply H c e) \<and> ok s' \<and> view s' = view s"
proof -
  obtain s1 where "hk_before hk c s = (Inr (decision_for_entry H c e), s1)" "ok s1" "view s1 = view s"
    using before_known [OF assms(1,2)] by blast
  then show ?thesis
    using b assms(3) by (auto simp: dispatch_begin_def accepts_command_def decision_for_entry_replies)
qed

lemma begin_claimed:
  assumes acc: "accepts_command reg c" and b: "dispatch_begin reg hk now c s = (b, s')"
    and c1: "hk_before hk c s = (Inr claimed, s1)" and ok1: "ok s1" and v1: "view s1 = m(cm_idempotency_key c \<mapsto> new_entry H c)"
  shows "ok s' \<and> (\<exists>x. view s' = m(cm_idempotency_key c \<mapsto> x) \<and>
     ((\<exists>r. b = Answers r) \<or> (\<exists>g ctx. b = Calls g ctx) \<and> x = new_entry H c))"
proof -
  obtain g where g: "command_registry_get (cm_command_type c) reg = Inr g" "cr_schema_version g = cm_schema_version c"
    using acc by (auto simp: accepts_command_def)
  show ?thesis
  proof (cases "case cm_deadline_at c of None \<Rightarrow> False | Some deadline \<Rightarrow> deadline < now")
    case True
    let ?f = "failure_of DEADLINE_EXCEEDED ''command deadline has expired'' False"
    obtain s2 where s2: "hk_failure hk c ?f s1 = (Inr (), s2)" "ok s2" "view s2 = (view s1)(cm_idempotency_key c \<mapsto> failed_entry H c ?f)"
      using failure [OF ok1, of c ?f] v1 by auto
    have "b = Answers (result_for_failure c ?f DS_REJECTED) \<and> s' = s2"
      using b g c1 s2(1) True
      by (auto simp: dispatch_begin_def result_for_idempotency_decision_def claimed_def record_failure_result_def)
    then show ?thesis using s2 v1 by auto
  next
    case False
    have "b = Calls g (context_from_command c) \<and> s' = s1"
      using b g c1 False by (auto simp: dispatch_begin_def result_for_idempotency_decision_def claimed_def)
    then show ?thesis using v1 ok1 by auto
  qed
qed

lemma begin_new:
  assumes "ok s" and n: "view s (cm_idempotency_key c) = None" and acc: "accepts_command reg c"
    and b: "dispatch_begin reg hk now c s = (b, s')"
  shows "ok s' \<and> (\<exists>m x. forgets (view s) m \<and> view s' = m(cm_idempotency_key c := x) \<and>
     ((\<exists>r. b = Answers r) \<or> (\<exists>g ctx. b = Calls g ctx) \<and> x = Some (new_entry H c)))"
proof -
  obtain s1 m where m: "forgets (view s) m" and ok1: "ok s1"
    and cases: "hk_before hk c s = (Inr claimed, s1) \<and> view s1 = m(cm_idempotency_key c \<mapsto> new_entry H c) \<or>
      (\<exists>reason. hk_before hk c s = (Inr (refusal IS_REJECTED reason), s1) \<and> view s1 = m)"
    using before_new [OF assms(1,2)] by blast
  from cases show ?thesis
  proof
    assume "hk_before hk c s = (Inr claimed, s1) \<and> view s1 = m(cm_idempotency_key c \<mapsto> new_entry H c)"
    then show ?thesis using begin_claimed [OF acc b _ ok1] m by blast
  next
    assume "\<exists>reason. hk_before hk c s = (Inr (refusal IS_REJECTED reason), s1) \<and> view s1 = m"
    then have "(\<exists>r. b = Answers r) \<and> s' = s1 \<and> view s1 = m"
      using b acc by (auto simp: dispatch_begin_def accepts_command_def result_for_idempotency_decision_def refusal_def)
    moreover have "m (cm_idempotency_key c) = None" by (rule forgets_none [OF m n])
    ultimately show ?thesis using m ok1 by (intro conjI exI [of _ m] exI [of _ None]) (auto simp: fun_upd_idem)
  qed
qed

lemma end_effect:
  assumes "ok s" and "view s (cm_idempotency_key c) \<noteq> None" and e: "dispatch_end hk c outcome s = (r, s')"
  shows "ok s' \<and> (\<exists>e. view s' = (view s)(cm_idempotency_key c \<mapsto> e) \<and> remembers H c r e)"
proof -
  have f: "ok s' \<and> (\<exists>e. view s' = (view s)(cm_idempotency_key c \<mapsto> e) \<and> remembers H c r e)"
    if "record_failure_result hk c f status s = (r, s')" for f status
    using failure [OF assms(1,2), of f] that
    by (auto simp: record_failure_result_def result_for_failure_def result_of_def remembers_def failed_entry_def)
  show ?thesis
  proof (cases outcome)
    case (Handler_returns v)
    then show ?thesis
      using success [OF assms(1,2), of v] e by (auto simp: dispatch_end_def result_of_def remembers_def completed_entry_def)
  qed (use e f in \<open>simp_all add: dispatch_end_def\<close>)
qed

text \<open>Every running command holds the entry of its key, in progress, and no two run under the same key.\<close>

definition inv :: "'h command_registry \<Rightarrow> 's \<times> command_envelope list \<Rightarrow> bool" where
  "inv reg st \<longleftrightarrow> ok (fst st) \<and> distinct (map cm_idempotency_key (snd st)) \<and>
     (\<forall>c \<in> set (snd st). accepts_command reg c \<and>
        (\<exists>e. view (fst st) (cm_idempotency_key c) = Some e \<and> ie_status e = IN_PROGRESS \<and> ie_fingerprint e = command_fingerprint H c))"

lemma inv_view:
  assumes "inv reg (s, cs)" and "ok s'"
    and "\<And>c e. c \<in> set cs \<Longrightarrow> view s (cm_idempotency_key c) = Some e \<Longrightarrow> ie_status e = IN_PROGRESS \<Longrightarrow>
      view s' (cm_idempotency_key c) = Some e"
  shows "inv reg (s', cs)"
  using assms by (fastforce simp: inv_def)

lemma begin_keeps_inv:
  assumes i: "inv reg (s, cs)" and b: "dispatch_begin reg hk now c s = (b, s')"
  shows "inv reg (s', cs) \<and> ((\<exists>g ctx. b = Calls g ctx) \<longrightarrow> inv reg (s', c # cs))"
proof -
  have ok: "ok s" using i by (simp add: inv_def)
  have running: "view s (cm_idempotency_key c') \<noteq> None" if "c' \<in> set cs" for c' using i that by (auto simp: inv_def)
  consider (refused) "\<not> accepts_command reg c"
    | (known) e where "accepts_command reg c" "view s (cm_idempotency_key c) = Some e"
    | (new) "accepts_command reg c" "view s (cm_idempotency_key c) = None"
    by (cases "view s (cm_idempotency_key c)") auto
  then show ?thesis
  proof cases
    case refused
    then show ?thesis using begin_refused [OF refused b] i by auto
  next
    case known
    have "inv reg (s', cs)" using begin_known [OF ok known(2,1) b] by (intro inv_view [OF i]) auto
    then show ?thesis using begin_known [OF ok known(2,1) b] by auto
  next
    case new
    obtain m x where ok': "ok s'" and m: "forgets (view s) m" and v: "view s' = m(cm_idempotency_key c := x)"
      and calls: "(\<exists>r. b = Answers r) \<or> (\<exists>g ctx. b = Calls g ctx) \<and> x = Some (new_entry H c)"
      using begin_new [OF ok new(2,1) b] by blast
    have other: "cm_idempotency_key c' \<noteq> cm_idempotency_key c" if "c' \<in> set cs" for c'
      using running [OF that] new(2) by (intro notI) simp
    have base: "inv reg (s', cs)"
    proof (rule inv_view [OF i ok'])
      fix c' e assume c': "c' \<in> set cs" and e: "view s (cm_idempotency_key c') = Some e" "ie_status e = IN_PROGRESS"
      have "m (cm_idempotency_key c') = Some e" by (rule forgets_keeps [OF m e(1,2)])
      then show "view s' (cm_idempotency_key c') = Some e" using v other [OF c'] by simp
    qed
    moreover have "inv reg (s', c # cs)" if "\<exists>g ctx. b = Calls g ctx"
    proof -
      have "view s' (cm_idempotency_key c) = Some (new_entry H c)" using calls that v by auto
      moreover have "cm_idempotency_key c \<notin> cm_idempotency_key ` set cs" using other by force
      ultimately show ?thesis using base new(1) by (simp add: inv_def)
    qed
    ultimately show ?thesis by (intro conjI impI)
  qed
qed

lemma inv_drop: "inv reg (s, cs) \<Longrightarrow> inv reg (s, remove1 c cs)"
  by (auto simp: inv_def distinct_map distinct_remove1 dest: set_remove1_subset [THEN subsetD] intro: inj_on_diff)

lemma removed_key:
  "inv reg (s, cs) \<Longrightarrow> c \<in> set cs \<Longrightarrow> c' \<in> set (remove1 c cs) \<Longrightarrow> cm_idempotency_key c' \<noteq> cm_idempotency_key c"
  by (auto simp: inv_def distinct_map inj_on_def)

lemma finish_keeps_inv:
  assumes i: "inv reg (s, cs)" and c: "c \<in> set cs" and e: "dispatch_end hk c outcome s = (r, s')"
  shows "inv reg (s', remove1 c cs)"
proof -
  have n: "view s (cm_idempotency_key c) \<noteq> None" and ok: "ok s" using i c by (auto simp: inv_def)
  show ?thesis
    using end_effect [OF ok n e] removed_key [OF i c]
    by (intro inv_view [OF inv_drop [OF i]]) auto
qed

lemma inv_step: "dispatch_step reg hk st l st' \<Longrightarrow> inv reg st \<Longrightarrow> inv reg st'"
  by (induction rule: dispatch_step.induct) (auto dest: begin_keeps_inv finish_keeps_inv inv_drop)

lemma inv_run: "dispatch_run reg hk st tr st' \<Longrightarrow> inv reg st \<Longrightarrow> inv reg st'"
  by (induction rule: dispatch_run.induct) (auto dest: inv_step)

text \<open>A key that is in progress without a running command is never served again.\<close>

definition stuck :: "command_envelope \<Rightarrow> 's \<times> command_envelope list \<Rightarrow> bool" where
  "stuck c st \<longleftrightarrow> cm_idempotency_key c \<notin> cm_idempotency_key ` set (snd st) \<and>
     (\<exists>e. view (fst st) (cm_idempotency_key c) = Some e \<and> ie_status e = IN_PROGRESS \<and> ie_fingerprint e = command_fingerprint H c)"

definition blocked_log :: "command_envelope \<Rightarrow> 'v dispatch_log \<Rightarrow> bool" where
  "blocked_log c l \<longleftrightarrow> \<not> starts_key (cm_idempotency_key c) l \<and>
     (\<forall>c' r. l = Replied c' r \<longrightarrow> same_request H c c' \<longrightarrow> r = in_progress_reply c')"

lemma stuck_step:
  assumes step: "dispatch_step reg hk st l st'" and i: "inv reg st" and stuck: "stuck c st" and acc: "accepts_command reg c"
  shows "stuck c st' \<and> blocked_log c l"
proof -
  obtain e where e: "view (fst st) (cm_idempotency_key c) = Some e" "ie_status e = IN_PROGRESS"
    "ie_fingerprint e = command_fingerprint H c" and nk: "cm_idempotency_key c \<notin> cm_idempotency_key ` set (snd st)"
    using stuck by (auto simp: stuck_def)
  have ok: "ok (fst st)" using i by (simp add: inv_def)
  have begin_keeps: "view s' (cm_idempotency_key c) = Some e \<and>
      (cm_idempotency_key c' = cm_idempotency_key c \<longrightarrow> (\<exists>r. b = Answers r \<and> (same_request H c c' \<longrightarrow> r = in_progress_reply c')))"
    if b: "dispatch_begin reg hk now c' (fst st) = (b, s')" for now c' b s'
  proof (cases "accepts_command reg c'")
    case False
    then show ?thesis using begin_refused [OF False b] e acc by (auto simp: same_request_def accepts_command_def)
  next
    case True
    show ?thesis
    proof (cases "view (fst st) (cm_idempotency_key c')")
      case None
      then have k: "cm_idempotency_key c' \<noteq> cm_idempotency_key c" using e by auto
      obtain m x where m: "forgets (view (fst st)) m" and s': "view s' = m(cm_idempotency_key c' := x)"
        using begin_new [OF ok None True b] by blast
      have "m (cm_idempotency_key c) = Some e" by (rule forgets_keeps [OF m e(1,2)])
      then show ?thesis using s' k by auto
    next
      case (Some e')
      have "b = Answers (entry_reply H c' e') \<and> view s' = view (fst st)" using begin_known [OF ok Some True b] by simp
      moreover have "entry_reply H c' e' = in_progress_reply c'"
        if "same_request H c c'"
        using that Some e in_progress_entry_reply [of e H c'] by (auto simp: same_request_def)
      ultimately show ?thesis using e by auto
    qed
  qed
  show ?thesis
    using step
  proof cases
    case (reply now c' s r s' cs)
    have "view s' (cm_idempotency_key c) = Some e" using begin_keeps [of now c' "Answers r" s'] reply by simp
    moreover have "same_request H c c' \<longrightarrow> r = in_progress_reply c'"
      using begin_keeps [of now c' "Answers r" s'] reply by (simp add: same_request_def)
    ultimately show ?thesis using reply nk e by (simp add: stuck_def blocked_log_def starts_key_def)
  next
    case (start now c' s g ctx s' cs)
    have "view s' (cm_idempotency_key c) = Some e \<and> cm_idempotency_key c' \<noteq> cm_idempotency_key c"
      using begin_keeps [of now c' "Calls g ctx" s'] start by auto
    then show ?thesis using start nk e by (auto simp: stuck_def blocked_log_def starts_key_def)
  next
    case (finish c' cs outcome s r s')
    then have n: "view s (cm_idempotency_key c') \<noteq> None" using i by (auto simp: inv_def)
    have k: "cm_idempotency_key c' \<noteq> cm_idempotency_key c" 
    proof
      assume "cm_idempotency_key c' = cm_idempotency_key c"
      then show False using nk finish by (metis imageI snd_conv)
    qed
    show ?thesis using end_effect [OF ok [unfolded finish fst_conv] n finish(5)] k finish nk e
      by (auto simp: stuck_def blocked_log_def starts_key_def dest: set_remove1_subset [THEN subsetD])
  next
    case (cancel c' cs s)
    then show ?thesis using nk e
      by (auto simp: stuck_def blocked_log_def starts_key_def dest: set_remove1_subset [THEN subsetD])
  qed
qed

lemma stuck_run:
  assumes "dispatch_run reg hk st tr st'" and "inv reg st" and "stuck c st" and "accepts_command reg c"
  shows "stuck c st' \<and> (\<forall>l \<in> set tr. blocked_log c l)"
  using assms
proof (induction rule: dispatch_run.induct)
  case (run_nil a)
  then show ?case by simp
next
  case (run_snoc a tr b l b')
  have "inv reg b" using inv_run run_snoc by blast
  then show ?case using stuck_step run_snoc by fastforce
qed

lemma cancelled_key_stuck:
  assumes "inv reg (s, [])" and run: "dispatch_run reg hk (s, []) (pre @ Cancelled c # post) st"
  shows "\<forall>l \<in> set post. blocked_log c l"
proof -
  obtain m m' where m: "dispatch_run reg hk (s, []) pre m" "dispatch_step reg hk m (Cancelled c) m'" "dispatch_run reg hk m' post st"
    using dispatch_run_split [OF run] by blast
  have i: "inv reg m" "inv reg m'" using inv_run [OF m(1) assms(1)] inv_step [OF m(2)] by blast+
  obtain s1 cs where c: "m = (s1, cs)" "c \<in> set cs" "m' = (s1, remove1 c cs)" using m(2) by (cases rule: dispatch_step.cases) auto
  have "cm_idempotency_key c \<notin> cm_idempotency_key ` set (remove1 c cs)"
    using removed_key [of reg s1 cs c] i(1) c by (metis imageE)
  then have "stuck c m'" "accepts_command reg c"
    using i(1) c by (auto simp: stuck_def inv_def)
  then show ?thesis using stuck_run [OF m(3) i(2)] by blast
qed

end

locale bounded_hook = idempotency_hook hk H ok view
  for hk :: "('v, 's) hook" and H ok view +
  fixes capacity :: int
  assumes room: "ok s \<Longrightarrow> finite K \<Longrightarrow> int (card K) \<le> capacity \<Longrightarrow> dom (view s) \<subseteq> K \<Longrightarrow> cm_idempotency_key c \<in> K \<Longrightarrow>
      view s (cm_idempotency_key c) = None \<Longrightarrow>
      \<exists>s'. hk_before hk c s = (Inr claimed, s') \<and> ok s' \<and> view s' = (view s)(cm_idempotency_key c \<mapsto> new_entry H c)"
begin

lemma begin_room:
  assumes "ok s" and "finite K" "int (card K) \<le> capacity" "dom (view s) \<subseteq> K" "cm_idempotency_key c \<in> K"
    and b: "dispatch_begin reg hk now c s = (b, s')"
  shows "view s' = view s \<and> (\<exists>r. b = Answers r) \<or>
    view s (cm_idempotency_key c) = None \<and> (\<exists>x. view s' = (view s)(cm_idempotency_key c \<mapsto> x))"
proof (cases "accepts_command reg c")
  case False
  then show ?thesis using begin_refused [OF False b] by auto
next
  case True
  show ?thesis
  proof (cases "view s (cm_idempotency_key c)")
    case None
    obtain s1 where s1: "hk_before hk c s = (Inr claimed, s1)" "ok s1" "view s1 = (view s)(cm_idempotency_key c \<mapsto> new_entry H c)"
      using room [OF assms(1-5) None] by blast
    then show ?thesis using begin_claimed [OF True b s1] None by auto
  next
    case (Some e)
    then show ?thesis using begin_known [OF assms(1) Some True b] by auto
  qed
qed

lemma claim_grows:
  assumes "v' = v \<or> v k0 = None \<and> (\<exists>x. v' = v(k0 \<mapsto> x))" and "dom v \<subseteq> K" and "k0 \<in> K"
  shows "dom v \<subseteq> dom v' \<and> dom v' \<subseteq> K \<and> (\<forall>k e. v k = Some e \<longrightarrow> v' k = Some e)"
proof (cases "v' = v")
  case False
  then obtain x where n: "v k0 = None" and x: "v' = v(k0 \<mapsto> x)" using assms(1) by blast
  have "dom v' = insert k0 (dom v)" by (simp add: x)
  moreover have "\<forall>k e. v k = Some e \<longrightarrow> v' k = Some e" using n by (auto simp: x)
  ultimately show ?thesis using assms(2,3) by (simp add: subset_insertI)
qed (use assms in simp)

text \<open>While the keys fit, entries never go, and terminal entries never change.\<close>

lemma step_grows:
  assumes step: "dispatch_step reg hk st l st'" and i: "inv reg st" and K: "finite K" "int (card K) \<le> capacity"
    and d: "dom (view (fst st)) \<subseteq> K" and lk: "log_key l \<in> K"
  shows "dom (view (fst st)) \<subseteq> dom (view (fst st')) \<and> dom (view (fst st')) \<subseteq> K \<and>
    (\<forall>k e. view (fst st) k = Some e \<longrightarrow> ie_status e \<noteq> IN_PROGRESS \<longrightarrow> view (fst st') k = Some e) \<and>
    (starts_key k l \<longrightarrow> view (fst st) k = None \<and> view (fst st') k \<noteq> None)"
proof -
  have ok: "ok (fst st)" using i by (simp add: inv_def)
  show ?thesis
    using step
  proof cases
    case (reply now c s r s' cs)
    then have "view s' = view s \<or> view s (cm_idempotency_key c) = None \<and> (\<exists>x. view s' = (view s)(cm_idempotency_key c \<mapsto> x))"
      using begin_room [OF _ K, of s c reg now "Answers r" s'] ok d lk by auto
    from claim_grows [OF this] show ?thesis using reply d lk by (simp add: starts_key_def)
  next
    case (start now c s g ctx s' cs)
    then have c: "view s (cm_idempotency_key c) = None \<and> (\<exists>x. view s' = (view s)(cm_idempotency_key c \<mapsto> x))"
      using begin_room [OF _ K, of s c reg now "Calls g ctx" s'] ok d lk by auto
    have "cm_idempotency_key c = k \<longrightarrow> view s k = None \<and> view s' k \<noteq> None" using c by auto
    then show ?thesis using start d lk claim_grows [OF disjI2 [OF c], of K] by (simp add: starts_key_def)
  next
    case (finish c cs outcome s r s')
    then obtain e where e: "view s (cm_idempotency_key c) = Some e" "ie_status e = IN_PROGRESS" using i by (auto simp: inv_def)
    then obtain x where "view s' = (view s)(cm_idempotency_key c \<mapsto> x)"
      using end_effect [of s c outcome r s'] finish ok by auto
    moreover from this have "dom (view s') = dom (view s)" using e by auto
    ultimately show ?thesis using finish e d by (auto simp: starts_key_def)
  next
    case (cancel c cs s)
    then show ?thesis using d by (auto simp: starts_key_def)
  qed
qed

lemma run_grows:
  assumes "dispatch_run reg hk st tr st'" and "inv reg st" and "finite K" "int (card K) \<le> capacity"
    and "dom (view (fst st)) \<subseteq> K" and "log_key ` set tr \<subseteq> K"
  shows "dom (view (fst st')) \<subseteq> K \<and>
    (\<forall>k e. view (fst st) k = Some e \<longrightarrow> ie_status e \<noteq> IN_PROGRESS \<longrightarrow> view (fst st') k = Some e) \<and>
    length (filter (starts_key k) tr) \<le> 1 \<and>
    (view (fst st) k \<noteq> None \<longrightarrow> filter (starts_key k) tr = []) \<and>
    (view (fst st) k \<noteq> None \<or> filter (starts_key k) tr \<noteq> [] \<longrightarrow> view (fst st') k \<noteq> None)"
  using assms
proof (induction rule: dispatch_run.induct)
  case (run_nil a)
  then show ?case by simp
next
  case (run_snoc a tr b l b')
  have i: "inv reg b" using inv_run run_snoc by blast
  have ih: "dom (view (fst b)) \<subseteq> K" "\<forall>k e. view (fst a) k = Some e \<longrightarrow> ie_status e \<noteq> IN_PROGRESS \<longrightarrow> view (fst b) k = Some e"
    "length (filter (starts_key k) tr) \<le> 1" "view (fst a) k \<noteq> None \<longrightarrow> filter (starts_key k) tr = []"
    "view (fst a) k \<noteq> None \<or> filter (starts_key k) tr \<noteq> [] \<longrightarrow> view (fst b) k \<noteq> None"
    using run_snoc by simp_all
  have lk: "log_key l \<in> K" using run_snoc.prems by simp
  note g = step_grows [OF run_snoc(2) i assms(3,4) ih(1) lk, of k]
  then have "view (fst b) k \<noteq> None \<Longrightarrow> view (fst b') k \<noteq> None" by (auto simp: dom_def)
  moreover have "starts_key k l \<Longrightarrow> filter (starts_key k) tr = [] \<and> view (fst a) k = None \<and> view (fst b') k \<noteq> None"
    using g ih(5) by auto
  ultimately show ?case using g ih by (cases "starts_key k l") auto
qed

text \<open>What a handler's end said is what every later dispatch of the same request is told.\<close>

lemma finished_is_remembered:
  assumes i: "inv reg st" and run: "dispatch_run reg hk st (pre @ Finished c r # mid @ Replied c' r' # post) st'"
    and K: "finite K" "int (card K) \<le> capacity" and d: "dom (view (fst st)) \<subseteq> K"
    and lk: "log_key ` set (pre @ Finished c r # mid @ Replied c' r' # post) \<subseteq> K" and same: "same_request H c c'"
  shows "dr_status r' = DS_DUPLICATE \<and> dr_result r' = dr_result r \<and> dr_failure r' = dr_failure r"
proof -
  obtain m1 m2 where m1: "dispatch_run reg hk st pre m1" "dispatch_step reg hk m1 (Finished c r) m2"
    "dispatch_run reg hk m2 (mid @ Replied c' r' # post) st'"
    using dispatch_run_split [OF run] by blast
  obtain m3 m4 where m3: "dispatch_run reg hk m2 mid m3" "dispatch_step reg hk m3 (Replied c' r') m4"
    using dispatch_run_split [OF m1(3)] by blast
  have i1: "inv reg m1" and i2: "inv reg m2" and i3: "inv reg m3"
    using inv_run [OF m1(1) i] inv_step [OF m1(2)] inv_run [OF m3(1)] by blast+
  have d1: "dom (view (fst m1)) \<subseteq> K" using run_grows [OF m1(1) i K d, THEN conjunct1] lk by (simp add: image_Un)
  have d2: "dom (view (fst m2)) \<subseteq> K" using step_grows [OF m1(2) i1 K d1] lk by simp
  obtain s1 cs outcome s2 where f: "m1 = (s1, cs)" "c \<in> set cs" "dispatch_end hk c outcome s1 = (r, s2)" "m2 = (s2, remove1 c cs)"
    using m1(2) by (cases rule: dispatch_step.cases) auto
  have acc: "accepts_command reg c" and "ok s1" and "view s1 (cm_idempotency_key c) \<noteq> None" using i1 f by (auto simp: inv_def)
  then obtain e where e: "view s2 (cm_idempotency_key c) = Some e" "remembers H c r e"
    using end_effect [of s1 c outcome r s2] f(3) by auto
  have e3: "view (fst m3) (cm_idempotency_key c) = Some e"
    using run_grows [OF m3(1) i2 K d2, THEN conjunct2, THEN conjunct1] lk e f(4) remembers_terminal [OF e(2)] by (simp add: image_Un)
  obtain now s3 s4 cs3 where rp: "m3 = (s3, cs3)" "dispatch_begin reg hk now c' s3 = (Answers r', s4)"
    using m3(2) by (cases rule: dispatch_step.cases) auto
  have "ok s3" "view s3 (cm_idempotency_key c') = Some e" "accepts_command reg c'"
    using i3 rp e3 same acc by (auto simp: inv_def same_request_def accepts_command_def)
  then have "r' = entry_reply H c' e" using begin_known [of s3 c' e reg now "Answers r'" s4] rp(2) by auto
  then show ?thesis using remembers_reply [OF e(2) same] by simp
qed

end

section \<open>The in-memory hook keeps the contract\<close>

definition memory_ok :: "int \<Rightarrow> 'v memory_hook \<Rightarrow> bool" where
  "memory_ok n h \<longleftrightarrow> mh_max_entries h = n \<and> distinct (map fst (mh_entries h)) \<and> int (length (mh_entries h)) \<le> n"

definition memory_view :: "'v memory_hook \<Rightarrow> string \<Rightarrow> 'v idempotency_entry option" where
  "memory_view h = map_of (mh_entries h)"

lemma move_to_end_ok:
  assumes "distinct (map fst d)"
  shows "map_of (move_to_end k d) = map_of d" and "distinct (map fst (move_to_end k d))" and "length (move_to_end k d) = length d"
proof -
  have len: "Suc (length (dict_pop k d)) = length d" if "k \<in> fst ` set d" for d :: "('a \<times> 'b) list"
    using that by (induction k d rule: dict_pop.induct) auto
  show "map_of (move_to_end k d) = map_of d"
    using assms by (auto simp: move_to_end_def map_of_dict_pop fun_eq_iff map_add_def split: option.split)
  show "distinct (map fst (move_to_end k d))"
    using assms distinct_dict_pop [OF assms, of k] keys_dict_pop [OF assms, of k]
    by (auto simp: move_to_end_def split: option.split)
  show "length (move_to_end k d) = length d"
  proof (cases "map_of d k")
    case (Some v)
    then have k: "k \<in> fst ` set d" by (force dest: map_of_SomeD)
    then show ?thesis using Some len [OF k] by (simp add: move_to_end_def)
  qed (simp add: move_to_end_def)
qed

lemma evict_keeps:
  assumes "evict_oldest p d = (removed, d')" and "distinct (map fst d)"
  shows "distinct (map fst d') \<and> set d' \<subseteq> set d \<and> (\<forall>k e. (k, e) \<in> set d \<longrightarrow> ie_status e = IN_PROGRESS \<longrightarrow> (k, e) \<in> set d')"
  using assms
proof (induction p d arbitrary: d' rule: evict_oldest.induct)
  case (1 p)
  then show ?case by simp
next
  case (2 p k e d)
  show ?case
  proof (cases "Some k = p \<or> ie_status e = IN_PROGRESS")
    case True
    obtain d1 where d1: "evict_oldest p d = (removed, d1)" "d' = (k, e) # d1" using 2(2) True by (auto split: prod.splits)
    have "distinct (map fst d1) \<and> set d1 \<subseteq> set d \<and> (\<forall>k e. (k, e) \<in> set d \<longrightarrow> ie_status e = IN_PROGRESS \<longrightarrow> (k, e) \<in> set d1)"
      using 2(1) [OF True d1(1)] 2(3) by simp
    moreover have "k \<notin> fst ` set d1" using calculation 2(3) by auto
    ultimately show ?thesis using d1(2) by auto
  next
    case False
    then show ?thesis using 2(2,3) by auto
  qed
qed

lemma evict_forgets:
  assumes "evict_oldest p d = (removed, d')" and "distinct (map fst d)"
  shows "forgets (map_of d) (map_of d')"
  using evict_keeps [OF assms] assms(2) unfolding forgets_def by (auto simp: map_of_eq_Some_iff)

lemma store_entry_ok:
  assumes ok: "memory_ok n h" and k: "memory_view h k \<noteq> None"
  shows "memory_ok n (store_entry k e h) \<and> memory_view (store_entry k e h) = (memory_view h)(k \<mapsto> e)"
proof -
  have d: "distinct (map fst (dict_set k e (mh_entries h)))" using ok by (simp add: memory_ok_def distinct_dict_set)
  have "length (dict_set k e d) = length d" if "k \<in> fst ` set d" for d
    using that by (induction k e d rule: dict_set.induct) auto
  moreover have "k \<in> fst ` set (mh_entries h)" using k by (auto simp: memory_view_def map_of_eq_None_iff)
  ultimately have len: "int (length (move_to_end k (dict_set k e (mh_entries h)))) \<le> n"
    using ok move_to_end_ok(3) [OF d, of k] by (simp add: memory_ok_def)
  then show ?thesis
    using ok move_to_end_ok(1,2) [OF d, of k]
    by (simp add: store_entry_def trim_to_capacity.simps memory_ok_def memory_view_def map_of_dict_set)
qed

lemma claim_ok:
  assumes "distinct (map fst d)" and "int (length d) < n" and "map_of d k = None"
  shows "memory_ok n \<lparr>mh_max_entries = n, mh_entries = dict_set k e d\<rparr> \<and>
    memory_view \<lparr>mh_max_entries = n, mh_entries = dict_set k e d\<rparr> = (map_of d)(k \<mapsto> e)"
proof -
  have "length (dict_set k e d) = Suc (length d)" using assms(3) dict_set_fresh [of k d e] by (simp add: map_of_eq_None_iff)
  then show ?thesis using assms(1,2) by (simp add: memory_ok_def memory_view_def map_of_dict_set distinct_dict_set)
qed

lemma in_memory_new:
  assumes ok: "memory_ok n h" and new: "memory_view h (cm_idempotency_key c) = None"
  shows "\<exists>h' m. forgets (memory_view h) m \<and> memory_ok n h' \<and>
    (hk_before (in_memory H) c h = (Inr claimed, h') \<and> memory_view h' = m(cm_idempotency_key c \<mapsto> new_entry H c) \<or>
     (\<exists>reason. hk_before (in_memory H) c h = (Inr (refusal IS_REJECTED reason), h') \<and> memory_view h' = m))"
proof -
  let ?k = "cm_idempotency_key c"
  define d where "d = (if mh_max_entries h \<le> int (length (mh_entries h)) then snd (evict_oldest None (mh_entries h)) else mh_entries h)"
  have n: "mh_max_entries h = n" and dist: "distinct (map fst (mh_entries h))" using ok by (simp_all add: memory_ok_def)
  obtain removed d1 where d1: "evict_oldest None (mh_entries h) = (removed, d1)" by (cases "evict_oldest None (mh_entries h)")
  have f: "forgets (memory_view h) (map_of d)" and dd: "distinct (map fst d)" and len: "int (length d) \<le> n"
    using evict_forgets [OF d1 dist] evict_keeps [OF d1 dist] evict_length [OF d1] d1 dist ok
    by (auto simp: d_def memory_view_def memory_ok_def forgets_refl split: if_splits)
  have before: "hk_before (in_memory H) c h = (if n \<le> int (length d)
      then (Inr (refusal IS_REJECTED ''command idempotency hook capacity is exhausted''), h\<lparr>mh_entries := d\<rparr>)
      else (Inr claimed, h\<lparr>mh_entries := dict_set ?k (new_entry H c) d\<rparr>))"
    using new n by (simp add: in_memory_def before_dispatch_def memory_view_def d_def Let_def)
  show ?thesis
  proof (cases "n \<le> int (length d)")
    case True
    then show ?thesis
      using before f dd len n by (intro exI [of _ "h\<lparr>mh_entries := d\<rparr>"] exI [of _ "map_of d"]) (auto simp: memory_ok_def memory_view_def)
  next
    case False
    have "map_of d ?k = None" using f new by (rule forgets_none)
    then have "memory_ok n (h\<lparr>mh_entries := dict_set ?k (new_entry H c) d\<rparr>) \<and>
        memory_view (h\<lparr>mh_entries := dict_set ?k (new_entry H c) d\<rparr>) = (map_of d)(?k \<mapsto> new_entry H c)"
      using claim_ok [OF dd, of n ?k "new_entry H c"] False n by (simp add: memory_ok_def memory_view_def)
    then show ?thesis using before False f by auto
  qed
qed

lemma in_memory_room:
  assumes ok: "memory_ok n h" and K: "finite K" "int (card K) \<le> n" "dom (memory_view h) \<subseteq> K" "cm_idempotency_key c \<in> K"
    and new: "memory_view h (cm_idempotency_key c) = None"
  shows "\<exists>h'. hk_before (in_memory H) c h = (Inr claimed, h') \<and> memory_ok n h' \<and>
    memory_view h' = (memory_view h)(cm_idempotency_key c \<mapsto> new_entry H c)"
proof -
  let ?k = "cm_idempotency_key c"
  have n: "mh_max_entries h = n" and dist: "distinct (map fst (mh_entries h))" using ok by (simp_all add: memory_ok_def)
  have "dom (memory_view h) \<subset> K" using K(3,4) new by (auto simp: dom_def)
  then have "card (dom (memory_view h)) < card K" using K(1) by (rule psubset_card_mono [rotated])
  moreover have "card (dom (memory_view h)) = length (mh_entries h)"
    using distinct_card [OF dist] by (simp add: memory_view_def dom_map_of_conv_image_fst)
  ultimately have len: "int (length (mh_entries h)) < n" using K(2) by simp
  then have "hk_before (in_memory H) c h = (Inr claimed, h\<lparr>mh_entries := dict_set ?k (new_entry H c) (mh_entries h)\<rparr>)"
    using new n by (simp add: in_memory_def before_dispatch_def memory_view_def Let_def)
  then show ?thesis
    using claim_ok [OF dist len, of ?k "new_entry H c"] new n by (simp add: memory_ok_def memory_view_def)
qed

interpretation memory: bounded_hook "in_memory H" H "memory_ok n" memory_view n for H n
proof
  fix s :: "'v memory_hook" and c :: command_envelope and e
  assume ok: "memory_ok n s" and e: "memory_view s (cm_idempotency_key c) = Some e"
  then show "\<exists>s'. hk_before (in_memory H) c s = (Inr (decision_for_entry H c e), s') \<and> memory_ok n s' \<and> memory_view s' = memory_view s"
    by (simp add: in_memory_def before_dispatch_def memory_ok_def memory_view_def move_to_end_ok)
next
  fix s :: "'v memory_hook" and c :: command_envelope
  assume "memory_ok n s" and "memory_view s (cm_idempotency_key c) = None"
  then show "\<exists>s' m. forgets (memory_view s) m \<and> memory_ok n s' \<and>
      (hk_before (in_memory H) c s = (Inr claimed, s') \<and> memory_view s' = m(cm_idempotency_key c \<mapsto> new_entry H c) \<or>
       (\<exists>reason. hk_before (in_memory H) c s = (Inr (refusal IS_REJECTED reason), s') \<and> memory_view s' = m))"
    by (rule in_memory_new)
next
  fix s :: "'v memory_hook" and c :: command_envelope and r
  assume "memory_ok n s" and "memory_view s (cm_idempotency_key c) \<noteq> None"
  then show "\<exists>s'. hk_success (in_memory H) c r s = (Inr (), s') \<and> memory_ok n s' \<and>
      memory_view s' = (memory_view s)(cm_idempotency_key c \<mapsto> completed_entry H c r)"
    using store_entry_ok by (simp add: in_memory_def record_success_def)
next
  fix s :: "'v memory_hook" and c :: command_envelope and f
  assume "memory_ok n s" and "memory_view s (cm_idempotency_key c) \<noteq> None"
  then show "\<exists>s'. hk_failure (in_memory H) c f s = (Inr (), s') \<and> memory_ok n s' \<and>
      memory_view s' = (memory_view s)(cm_idempotency_key c \<mapsto> failed_entry H c f)"
    using store_entry_ok by (simp add: in_memory_def record_failure_def)
next
  fix s :: "'v memory_hook" and K and c :: command_envelope
  assume "memory_ok n s" and "finite K" and "int (card K) \<le> n" and "dom (memory_view s) \<subseteq> K" and "cm_idempotency_key c \<in> K"
    and "memory_view s (cm_idempotency_key c) = None"
  then show "\<exists>s'. hk_before (in_memory H) c s = (Inr claimed, s') \<and> memory_ok n s' \<and>
      memory_view s' = (memory_view s)(cm_idempotency_key c \<mapsto> new_entry H c)"
    by (rule in_memory_room)
qed

lemma new_memory_hook_inv: "mk_memory_hook n = Inr h \<Longrightarrow> memory.inv H n reg (h, []) \<and> memory_view h = Map.empty"
  by (auto simp: mk_memory_hook_def memory.inv_def memory_ok_def memory_view_def split: if_splits)

section \<open>A concrete run\<close>

definition sample_command :: "instant option \<Rightarrow> command_envelope" where
  "sample_command deadline =
     \<lparr>cm_command_id = ''cmd_1'', cm_command_type = ''order.submit'', cm_schema_version = 1, cm_issued_at = 0, cm_issuer = ''operator'',
      cm_correlation_id = ''corr_1'', cm_causation_id = None, cm_trace_id = None, cm_idempotency_key = ''key_1'',
      cm_deadline_at = deadline, cm_priority = 0, cm_attributes = CMap []\<rparr>"

definition sample_registry :: "unit command_registry" where
  "sample_registry =
     [(''order.submit'', \<lparr>cr_command_type = ''order.submit'', cr_schema_name = ''submit_order'', cr_schema_version = 1, cr_handler = ()\<rparr>)]"

definition sample_hook :: "nat memory_hook" where
  "sample_hook = \<lparr>mh_max_entries = 1, mh_entries = []\<rparr>"

definition hook_with :: "nat idempotency_entry \<Rightarrow> nat memory_hook" where
  "hook_with e = \<lparr>mh_max_entries = 1, mh_entries = [(''key_1'', e)]\<rparr>"

lemma sample_get: "command_registry_get ''order.submit'' sample_registry = Inr (snd (hd sample_registry))"
  by (simp add: command_registry_get_def sample_registry_def validate_command_type_def dotted_name_def snake_case_def is_lower_def is_digit_def)

lemmas run_sample =
  dispatch_begin_def dispatch_end_def in_memory_def before_dispatch_def sample_command_def sample_get [unfolded sample_registry_def, simplified]
  result_for_idempotency_decision_def claimed_def hook_with_def sample_hook_def record_success_def store_entry_def move_to_end_def
  trim_to_capacity.simps decision_for_entry_def duplicate_completed_def refusal_def or_default_def

lemma sample_start:
  "\<exists>g ctx. dispatch_begin sample_registry (in_memory H) now (sample_command None) sample_hook =
     (Calls g ctx, hook_with (new_entry H (sample_command None)))"
  by (simp add: run_sample sample_registry_def)

lemma sample_finish:
  "dispatch_end (in_memory H) (sample_command None) (Handler_returns (Some 7)) (hook_with (new_entry H (sample_command None))) =
     (result_of (sample_command None) DS_COMPLETED (Some 7) None, hook_with (completed_entry H (sample_command None) (Some 7)))"
  by (simp add: run_sample)

lemma sample_known:
  "dispatch_begin sample_registry (in_memory H) now (sample_command None) (hook_with e) = (Answers (entry_reply H (sample_command None) e), hook_with e)"
proof -
  have "hk_before (in_memory H) (sample_command None) (hook_with e) = (Inr (decision_for_entry H (sample_command None) e), hook_with e)"
    by (simp add: in_memory_def before_dispatch_def sample_command_def hook_with_def move_to_end_def)
  moreover have "cm_command_type (sample_command None) = ''order.submit''" "cm_schema_version (sample_command None) = 1"
    "cr_schema_version (snd (hd sample_registry)) = 1"
    by (simp_all add: sample_command_def sample_registry_def)
  ultimately show ?thesis by (simp add: dispatch_begin_def decision_for_entry_replies sample_get)
qed

lemma sample_run_start: "dispatch_run sample_registry (in_memory H) (sample_hook, []) [Started (sample_command None)]
    (hook_with (new_entry H (sample_command None)), [sample_command None])"
proof -
  obtain g ctx where "dispatch_begin sample_registry (in_memory H) 0 (sample_command None) sample_hook =
      (Calls g ctx, hook_with (new_entry H (sample_command None)))"
    using sample_start by blast
  from run_snoc [OF run_nil start [OF this]] show ?thesis by simp
qed

lemma sample_run_twice: "dispatch_run sample_registry (in_memory H) (sample_hook, [])
    ([Started (sample_command None)] @ Finished (sample_command None) (result_of (sample_command None) DS_COMPLETED (Some 7) None) # [] @
     Replied (sample_command None) (entry_reply H (sample_command None) (completed_entry H (sample_command None) (Some 7))) # [])
    (hook_with (completed_entry H (sample_command None) (Some 7)), [])"
  using run_snoc [OF run_snoc [OF sample_run_start finish [OF _ sample_finish]] reply [OF sample_known]] by simp

lemma sample_run_cancelled: "dispatch_run sample_registry (in_memory H) (sample_hook, [])
    ([Started (sample_command None)] @ Cancelled (sample_command None) #
     [Replied (sample_command None) (entry_reply H (sample_command None) (new_entry H (sample_command None)))])
    (hook_with (new_entry H (sample_command None)), [])"
  using run_snoc [OF run_snoc [OF sample_run_start cancel] reply [OF sample_known]] by simp

section \<open>Properties\<close>

text \<open>
  C18: a command takes effect at most once. However dispatches interleave, succeed, fail or are cancelled, as long as no more
  idempotency keys are used than the hook may hold, at most one handler is ever started for a key; and once it has ended, every
  later dispatch of the same request is answered as a duplicate with the result and the failure of that first reply.
\<close>

theorem command_effects_at_most_once:
  assumes "mk_memory_hook n = Inr h" and "dispatch_run reg (in_memory H) (h, []) tr st"
    and "int (card (log_key ` set tr)) \<le> n"
  shows "length (filter (starts_key k) tr) \<le> 1 \<and>
    (\<forall>pre c r mid c' r' post. tr = pre @ Finished c r # mid @ Replied c' r' # post \<longrightarrow> same_request H c c' \<longrightarrow>
       dr_status r' = DS_DUPLICATE \<and> dr_result r' = dr_result r \<and> dr_failure r' = dr_failure r)"
proof (intro conjI allI impI)
  note i = new_memory_hook_inv [OF assms(1), THEN conjunct1]
  have d: "dom (memory_view (fst (h, []))) \<subseteq> log_key ` set tr" using new_memory_hook_inv [OF assms(1), THEN conjunct2] by simp
  show "length (filter (starts_key k) tr) \<le> 1"
    using memory.run_grows [OF assms(2) i _ assms(3) d] by blast
  fix pre c r mid c' r' post
  assume tr: "tr = pre @ Finished c r # mid @ Replied c' r' # post" and same: "same_request H c c'"
  note m = memory.finished_is_remembered [OF i assms(2) [unfolded tr] _ assms(3) [unfolded tr] d [unfolded tr] subset_refl same]
  show "dr_status r' = DS_DUPLICATE" "dr_result r' = dr_result r" "dr_failure r' = dr_failure r"
    using m by simp_all
qed

theorem command_effects_at_most_once_witness:
  "dr_status (entry_reply (\<lambda>_. []) (sample_command None) (completed_entry (\<lambda>_. []) (sample_command None) (Some (7 :: nat)))) = DS_DUPLICATE"
proof -
  have h: "mk_memory_hook 1 = Inr sample_hook" by (simp add: mk_memory_hook_def sample_hook_def)
  note run = sample_run_twice [of "\<lambda>_. []"]
  have "int (card (log_key ` set ([Started (sample_command None)] @
      Finished (sample_command None) (result_of (sample_command None) DS_COMPLETED (Some (7 :: nat)) None) # [] @
      Replied (sample_command None) (entry_reply (\<lambda>_. []) (sample_command None)
        (completed_entry (\<lambda>_. []) (sample_command None) (Some 7))) # []))) \<le> 1"
    by simp
  note t = command_effects_at_most_once [OF h run this, THEN conjunct2, rule_format, OF refl]
  show ?thesis by (rule t [THEN conjunct1]) (simp add: same_request_def)
qed

text \<open>
  C37: a cancelled command blocks its key. When the task of a dispatch is cancelled while its handler runs, neither outcome is recorded; from
  then on no handler is ever started for that key, whatever else is dispatched and however small the hook is, and
  every further dispatch of the same request is told that it is in progress and may be retried.
\<close>

theorem cancelled_command_blocks_key:
  assumes "mk_memory_hook n = Inr h" and "dispatch_run reg (in_memory H) (h, []) (pre @ Cancelled c # post) st" and "l \<in> set post"
  shows "\<not> starts_key (cm_idempotency_key c) l \<and>
    (\<forall>c' r. l = Replied c' r \<longrightarrow> same_request H c c' \<longrightarrow> r = in_progress_reply c' \<and> cf_retryable (the (dr_failure r)))"
proof -
  have "memory.blocked_log H c l"
    using memory.cancelled_key_stuck [OF new_memory_hook_inv [OF assms(1), THEN conjunct1] assms(2)] assms(3) by blast
  then show ?thesis
    by (auto simp: memory.blocked_log_def in_progress_reply_def result_for_failure_def result_of_def failure_of_def)
qed

theorem cancelled_command_blocks_key_witness:
  "entry_reply (\<lambda>_. []) (sample_command None) (new_entry (\<lambda>_. []) (sample_command None) :: nat idempotency_entry) =
     in_progress_reply (sample_command None)"
proof -
  have h: "mk_memory_hook 1 = Inr sample_hook" by (simp add: mk_memory_hook_def sample_hook_def)
  show ?thesis
    using cancelled_command_blocks_key [OF h sample_run_cancelled [of "\<lambda>_. []"], OF list.set_intros(1)] by (simp add: same_request_def)
qed

end
