(* ===== verification/Simulation_Results.thy ===== *)
theory Simulation_Results
  imports Exchange "HOL-Library.List_Lexorder" "HOL-Library.Char_ord" "HOL-Library.Product_Lexorder"
begin

text \<open>
  \<open>src/pmrp/simulation/results.py\<close>: the artifacts and metrics of a simulated run and the checksum over them. A result
  keeps its artifacts in the order of their sequences and its metrics in the order of their names, whatever order the caller
  gives them in.

  \<^bold>\<open>digests H\<close> says what the code relies on of SHA-256: that every digest has the canonical form.
\<close>

section \<open>Text and digests\<close>

definition valid_text :: "string \<Rightarrow> bool" where
  "valid_text s \<longleftrightarrow> \<not> blank_or_padded s \<and> length s \<le> 128"

definition is_hex :: "char \<Rightarrow> bool" where
  "is_hex c \<longleftrightarrow> is_digit c \<or> (97 \<le> (of_char c :: nat) \<and> (of_char c :: nat) \<le> 102)"

definition sha256_digest :: "string \<Rightarrow> bool" where
  "sha256_digest s \<longleftrightarrow> take 7 s = ''sha256:'' \<and> length s = 71 \<and> list_all is_hex (drop 7 s)"

definition valid_hash :: "string \<Rightarrow> bool" where
  "valid_hash s \<longleftrightarrow> valid_text s \<and> sha256_digest s"

definition digests :: "hasher \<Rightarrow> bool" where
  "digests H \<longleftrightarrow> (\<forall>c. valid_hash (H c))"

definition config_error :: "string \<Rightarrow> py_error" where
  "config_error reason_code = Exc ''SimulationConfigurationError'' reason_code"

section \<open>Artifacts and metrics\<close>

fun source_value :: "simulation_source_type \<Rightarrow> string" where
  "source_value INFERRED_BEHAVIOR = ''inferred_behavior''"
| "source_value OBSERVED_FACT = ''observed_fact''"
| "source_value SIMULATED_OUTPUT = ''simulated_output''"
| "source_value STOCHASTIC_ASSUMPTION = ''stochastic_assumption''"

record simulation_artifact =
  at_sequence :: int
  at_artifact_type :: string
  at_artifact_id :: string
  at_artifact_hash :: string
  at_source_type :: simulation_source_type

definition mk_simulation_artifact :: "simulation_artifact \<Rightarrow> simulation_artifact result" where
  "mk_simulation_artifact a =
     bindE (guards
       [(at_sequence a < 0, ValueError F_sequence),
        (\<not> valid_text (at_artifact_type a), ValueError F_text),
        (\<not> valid_text (at_artifact_id a), ValueError F_text),
        (\<not> valid_hash (at_artifact_hash a), ValueError F_text)]) (\<lambda>_. Inr a)"

definition artifact_payload :: "simulation_artifact \<Rightarrow> canon" where
  "artifact_payload a =
     CMap [(''artifact_hash'', CStr (at_artifact_hash a)), (''artifact_id'', CStr (at_artifact_id a)),
       (''artifact_type'', CStr (at_artifact_type a)), (''sequence'', CInt (at_sequence a)),
       (''source_type'', CStr (source_value (at_source_type a)))]"

record simulation_metric =
  mt_name :: string
  mt_value :: rat
  mt_unit :: string

definition mk_simulation_metric :: "simulation_metric \<Rightarrow> simulation_metric result" where
  "mk_simulation_metric m =
     bindE (guards [(\<not> valid_text (mt_name m), ValueError F_text), (\<not> valid_text (mt_unit m), ValueError F_text)]) (\<lambda>_. Inr m)"

definition metric_payload :: "simulation_metric \<Rightarrow> canon" where
  "metric_payload m = CMap [(''name'', CStr (mt_name m)), (''unit'', CStr (mt_unit m)), (''value'', CDec (mt_value m))]"

definition normalize_artifacts :: "simulation_artifact list \<Rightarrow> simulation_artifact list result" where
  "normalize_artifacts artifacts =
     (let sorted_artifacts = sort_key at_sequence artifacts in
      if \<not> distinct (map at_sequence sorted_artifacts)
      then Inl (config_error ''simulation_result_artifact_sequence_duplicate'') else Inr sorted_artifacts)"

definition metric_key :: "simulation_metric \<Rightarrow> string \<times> string" where
  "metric_key m = (mt_name m, mt_unit m)"

definition normalize_metrics :: "simulation_metric list \<Rightarrow> simulation_metric list result" where
  "normalize_metrics metrics =
     (let sorted_metrics = sort_key metric_key metrics in
      if \<not> distinct (map metric_key sorted_metrics)
      then Inl (config_error ''simulation_result_metric_duplicate'') else Inr sorted_metrics)"

section \<open>Results\<close>

definition configuration_canon :: "simulation_configuration \<Rightarrow> canon" where
  "configuration_canon c =
     CMap [(''fee_model'', CStr (sc_fee_model c)), (''fill_model'', CStr (sc_fill_model c)),
       (''fixed_latency_ms'', case sc_fixed_latency_ms c of None \<Rightarrow> CNull | Some n \<Rightarrow> CInt n),
       (''latency_model'', CStr (sc_latency_model c)),
       (''maker_fill_probability'', canon_of_dec (map_option dec_value (sc_maker_fill_probability c))),
       (''parameters'', CMap (map (\<lambda>(k, v). (k, CStr v)) (sort_key fst (sc_parameters c)))),
       (''queue_model'', CStr (sc_queue_model c)), (''random_seed'', CInt (sc_random_seed c)),
       (''rejection_model'', CStr (sc_rejection_model c)), (''settlement_model'', CStr (sc_settlement_model c)),
       (''simulation_version'', CStr (sc_simulation_version c)), (''slippage_model'', CStr (sc_slippage_model c)),
       (''taker_slippage_bps'', canon_of_dec (map_option dec_value (sc_taker_slippage_bps c)))]"

text \<open>The keys of the payload, in the order of canonical JSON; the checksum itself is a key only once it is known.\<close>

definition result_payload ::
  "hasher \<Rightarrow> simulation_configuration \<Rightarrow> simulation_artifact list \<Rightarrow> simulation_metric list \<Rightarrow> string option \<Rightarrow> canon result" where
  "result_payload H c artifacts metrics result_checksum =
     bindE (guards [(\<not> pred_option valid_hash result_checksum, ValueError F_text)]) (\<lambda>_.
     Inr (CMap
      ([(''artifacts'', CList (map artifact_payload artifacts)), (''checksum_version'', CStr ''simulation_result_checksum_v1''),
        (''configuration_hash'', CStr (H (configuration_canon c))), (''fee_model'', CStr (sc_fee_model c)),
        (''fill_model'', CStr (sc_fill_model c)), (''latency_model'', CStr (sc_latency_model c)),
        (''metrics'', CList (map metric_payload metrics)), (''queue_model'', CStr (sc_queue_model c)),
        (''random_seed'', CInt (sc_random_seed c)), (''rejection_model'', CStr (sc_rejection_model c))] @
       (case result_checksum of None \<Rightarrow> [] | Some x \<Rightarrow> [(''result_checksum'', CStr x)]) @
       [(''settlement_model'', CStr (sc_settlement_model c)), (''simulation_version'', CStr (sc_simulation_version c)),
        (''slippage_model'', CStr (sc_slippage_model c))])))"

definition calculate_simulation_result_checksum ::
  "hasher \<Rightarrow> simulation_configuration \<Rightarrow> simulation_artifact list \<Rightarrow> simulation_metric list \<Rightarrow> string result" where
  "calculate_simulation_result_checksum H c artifacts metrics =
     bindE (normalize_artifacts artifacts) (\<lambda>artifacts.
     bindE (normalize_metrics metrics) (\<lambda>metrics.
     bindE (result_payload H c artifacts metrics None) (\<lambda>payload. Inr (H payload))))"

record simulation_result =
  sl_configuration :: simulation_configuration
  sl_artifacts :: "simulation_artifact list"
  sl_metrics :: "simulation_metric list"
  sl_result_checksum :: string

definition mk_simulation_result :: "hasher \<Rightarrow> simulation_result \<Rightarrow> simulation_result result" where
  "mk_simulation_result H r =
     bindE (normalize_artifacts (sl_artifacts r)) (\<lambda>artifacts.
     bindE (normalize_metrics (sl_metrics r)) (\<lambda>metrics.
     bindE (guards [(\<not> valid_hash (sl_result_checksum r), ValueError F_text)]) (\<lambda>_.
     bindE (calculate_simulation_result_checksum H (sl_configuration r) artifacts metrics) (\<lambda>expected_checksum.
     if sl_result_checksum r \<noteq> expected_checksum then Inl (config_error ''simulation_result_checksum_mismatch'')
     else Inr (r\<lparr>sl_artifacts := artifacts, sl_metrics := metrics\<rparr>)))))"

definition build_simulation_result ::
  "hasher \<Rightarrow> simulation_configuration \<Rightarrow> simulation_artifact list \<Rightarrow> simulation_metric list \<Rightarrow> simulation_result result" where
  "build_simulation_result H c artifacts metrics =
     bindE (normalize_artifacts artifacts) (\<lambda>artifacts.
     bindE (normalize_metrics metrics) (\<lambda>metrics.
     bindE (calculate_simulation_result_checksum H c artifacts metrics) (\<lambda>result_checksum.
     mk_simulation_result H
       \<lparr>sl_configuration = c, sl_artifacts = artifacts, sl_metrics = metrics, sl_result_checksum = result_checksum\<rparr>)))"

section \<open>Lemmas\<close>

lemma sort_key_idem: "sort_key f (sort_key f xs) = sort_key f xs"
  by (rule sort_key_id_if_sorted) simp

lemma distinct_map_sort_key: "distinct (map g (sort_key f xs)) = distinct (map g xs)"
proof -
  have "distinct (map g xs) \<longleftrightarrow> distinct (map g ys)" if "mset xs = mset ys" for xs ys
    using that mset_map [of g xs] mset_map [of g ys] mset_eq_imp_distinct_iff [of "map g xs" "map g ys"] by simp
  then show ?thesis by (metis mset_sort)
qed

lemma sort_key_unique_order:
  assumes "mset xs = mset ys" and "distinct (map f xs)"
  shows "sort_key f xs = sort_key f ys"
proof (rule properties_for_sort_key)
  show "mset (sort_key f ys) = mset xs" using assms(1) by simp
  show "sorted (map f (sort_key f ys))" by simp
  fix k assume "k \<in> set (sort_key f ys)"
  then have k: "k \<in> set xs" using assms(1) mset_eq_setD by fastforce
  have uniq: "filter (\<lambda>x. f k = f x) zs = [k]" if "mset zs = mset xs" for zs
  proof -
    have d: "distinct (map f zs)"
      using assms(2) mset_eq_imp_distinct_iff [of "map f zs" "map f xs"] by (simp add: that)
    have "k \<in> set zs" using that k mset_eq_setD by blast
    with d show ?thesis
    proof (induction zs)
      case (Cons z zs)
      show ?case
      proof (cases "z = k")
        case True
        then have "filter (\<lambda>x. f k = f x) zs = []" using Cons.prems(1) by (auto simp: filter_empty_conv image_iff)
        then show ?thesis using True by simp
      next
        case False
        then have "k \<in> set zs" using Cons.prems(2) by simp
        moreover have "f z \<noteq> f k" using Cons.prems(1) \<open>k \<in> set zs\<close> by (auto simp: image_iff)
        ultimately show ?thesis using Cons by simp
      qed
    qed simp
  qed
  show "filter (\<lambda>x. f k = f x) (sort_key f ys) = filter (\<lambda>x. f k = f x) xs"
    using assms(1) by (simp add: uniq)
qed

lemma normalize_artifacts_iff:
  "normalize_artifacts as = Inr bs \<longleftrightarrow> distinct (map at_sequence as) \<and> bs = sort_key at_sequence as"
  by (auto simp: normalize_artifacts_def Let_def distinct_map_sort_key)

lemma normalize_metrics_iff:
  "normalize_metrics ms = Inr ns \<longleftrightarrow> distinct (map metric_key ms) \<and> ns = sort_key metric_key ms"
  by (auto simp: normalize_metrics_def Let_def distinct_map_sort_key)

text \<open>A result is built exactly when no two artifacts share a sequence and no two metrics a name and unit.\<close>

definition result_of_run :: "hasher \<Rightarrow> simulation_configuration \<Rightarrow> simulation_artifact list \<Rightarrow> simulation_metric list \<Rightarrow> simulation_result" where
  "result_of_run H c artifacts metrics =
     (let as = sort_key at_sequence artifacts; ms = sort_key metric_key metrics in
      \<lparr>sl_configuration = c, sl_artifacts = as, sl_metrics = ms,
       sl_result_checksum = (case result_payload H c as ms None of Inr p \<Rightarrow> H p | Inl _ \<Rightarrow> [])\<rparr>)"

lemma build_simulation_result_eq:
  assumes "digests H" and "distinct (map at_sequence as)" and "distinct (map metric_key ms)"
  shows "build_simulation_result H c as ms = Inr (result_of_run H c as ms)"
proof -
  have n: "normalize_artifacts as = Inr (sort_key at_sequence as)" "normalize_metrics ms = Inr (sort_key metric_key ms)"
    using assms(2,3) by (simp_all add: normalize_artifacts_iff normalize_metrics_iff)
  have m: "normalize_artifacts (sort_key at_sequence as) = Inr (sort_key at_sequence as)"
    "normalize_metrics (sort_key metric_key ms) = Inr (sort_key metric_key ms)"
    using assms(2,3) by (simp_all add: normalize_artifacts_iff normalize_metrics_iff sort_key_idem distinct_map_sort_key)
  obtain p where p: "result_payload H c (sort_key at_sequence as) (sort_key metric_key ms) None = Inr p"
    by (simp add: result_payload_def)
  have "valid_hash (H p)" using assms(1) by (simp add: digests_def)
  then show ?thesis
    by (simp add: build_simulation_result_def n m mk_simulation_result_def calculate_simulation_result_checksum_def p
        result_of_run_def Let_def)
qed

lemma build_order_irrelevant:
  assumes "mset as = mset bs" and "mset ms = mset ns"
  shows "build_simulation_result H c as ms = build_simulation_result H c bs ns"
proof -
  have "normalize_artifacts as = normalize_artifacts bs"
    using assms(1) sort_key_unique_order [OF assms(1), of at_sequence] mset_eq_imp_distinct_iff [of "map at_sequence as" "map at_sequence bs"]
    by (auto simp: normalize_artifacts_def Let_def distinct_map_sort_key)
  moreover have "normalize_metrics ms = normalize_metrics ns"
    using assms(2) sort_key_unique_order [OF assms(2), of metric_key] mset_eq_imp_distinct_iff [of "map metric_key ms" "map metric_key ns"]
    by (auto simp: normalize_metrics_def Let_def distinct_map_sort_key)
  ultimately show ?thesis by (simp add: build_simulation_result_def)
qed

end
