(* ===== verification/Scenarios.thy ===== *)
theory Scenarios
  imports Simulation_Results Fill_Models
begin

text \<open>
  The first part of \<open>src/pmrp/simulation/scenarios.py\<close>: scheduled market events, order actions and expected fills, the
  scenario they make up with its validation, the projection of the order book through the events, and the fills of a
  resting order from the trades that follow its activation.

  The lemmas show that projecting is applying every event once (a redelivered payload is skipped), which events a
  valid scenario contains, and that a resting order is filled by the eligible trades as by the levels of a book: a waterfall
  in the order of their sequences.
\<close>

section \<open>Canonical data\<close>

text \<open>The canonical form of each schema: its fields under their names, in the order of canonical JSON.\<close>

fun canon_of_int :: "int option \<Rightarrow> canon" where
  "canon_of_int None = CNull"
| "canon_of_int (Some n) = CInt n"

fun side_value :: "side \<Rightarrow> string" where
  "side_value BUY = ''buy''"
| "side_value SELL = ''sell''"

fun role_value :: "liquidity_role \<Rightarrow> string" where
  "role_value MAKER = ''maker''"
| "role_value TAKER = ''taker''"
| "role_value UNKNOWN_ROLE = ''unknown''"

fun delta_action_value :: "order_book_delta_action \<Rightarrow> string" where
  "delta_action_value UPSERT = ''upsert''"
| "delta_action_value DELETE = ''delete''"

fun order_type_value :: "order_type \<Rightarrow> string" where
  "order_type_value LIMIT = ''limit''"
| "order_type_value MARKET = ''market''"

fun time_in_force_value :: "time_in_force \<Rightarrow> string" where
  "time_in_force_value GTC = ''gtc''"
| "time_in_force_value IOC = ''ioc''"
| "time_in_force_value FOK = ''fok''"
| "time_in_force_value DAY = ''day''"
| "time_in_force_value GTD = ''gtd''"

definition level_canon :: "order_book_level \<Rightarrow> canon" where
  "level_canon l = CMap [(''order_count'', canon_of_int (lv_order_count l)), (''price'', CDec (lv_price l)), (''quantity'', CDec (lv_quantity l))]"

definition snapshot_canon :: "order_book_snapshot \<Rightarrow> canon" where
  "snapshot_canon s =
     CMap [(''asks'', CList (map level_canon (ob_asks s))), (''bids'', CList (map level_canon (ob_bids s))),
       (''contract_id'', CStr (ob_contract_id s)), (''exchange'', CStr (ob_exchange s)),
       (''exchange_occurred_at'', canon_of_time (ob_exchange_occurred_at s)), (''is_valid'', CBool (ob_is_valid s)),
       (''market_id'', CStr (ob_market_id s)), (''received_at'', CTime (ob_received_at s)),
       (''sequence'', canon_of_int (ob_sequence s)), (''snapshot_reason'', CStr (ob_snapshot_reason s))]"

definition delta_level_canon :: "order_book_delta_level \<Rightarrow> canon" where
  "delta_level_canon c =
     CMap [(''action'', CStr (delta_action_value (dl_action c))), (''price'', CDec (dl_price c)), (''quantity'', CDec (dl_quantity c)),
       (''side'', CStr (side_value (dl_side c)))]"

definition delta_canon :: "order_book_delta \<Rightarrow> canon" where
  "delta_canon d =
     CMap [(''changes'', CList (map delta_level_canon (od_changes d))), (''contract_id'', CStr (od_contract_id d)),
       (''exchange'', CStr (od_exchange d)), (''exchange_occurred_at'', canon_of_time (od_exchange_occurred_at d)),
       (''market_id'', CStr (od_market_id d)), (''previous_sequence'', canon_of_int (od_previous_sequence d)),
       (''received_at'', CTime (od_received_at d)), (''sequence'', canon_of_int (od_sequence d))]"

definition trade_canon :: "trade \<Rightarrow> canon" where
  "trade_canon t =
     CMap [(''aggressor_side'', canon_of_opt (map_option side_value (td_aggressor_side t))), (''contract_id'', CStr (td_contract_id t)),
       (''exchange'', CStr (td_exchange t)), (''exchange_occurred_at'', CTime (td_exchange_occurred_at t)),
       (''exchange_trade_id'', CStr (td_exchange_trade_id t)), (''liquidity_role'', CStr (role_value (td_liquidity_role t))),
       (''market_id'', CStr (td_market_id t)), (''outcome_id'', CStr (td_outcome_id t)), (''price'', CDec (td_price t)),
       (''quantity'', CDec (td_quantity t)), (''received_at'', CTime (td_received_at t)),
       (''sequence'', canon_of_int (td_sequence t)), (''trade_id'', CStr (td_trade_id t))]"

definition intent_canon :: "order_intent \<Rightarrow> canon" where
  "intent_canon i =
     CMap [(''contract_id'', CStr (oi_contract_id i)), (''correlation_id'', CStr (oi_correlation_id i)),
       (''created_at'', CTime (oi_created_at i)), (''expires_at'', canon_of_time (oi_expires_at i)),
       (''idempotency_key'', CStr (oi_idempotency_key i)), (''intent_id'', CStr (oi_intent_id i)),
       (''limit_price'', canon_of_dec (oi_limit_price i)), (''market_id'', CStr (oi_market_id i)),
       (''order_type'', CStr (order_type_value (oi_order_type i))), (''outcome_id'', CStr (oi_outcome_id i)),
       (''post_only'', CBool (oi_post_only i)), (''quantity'', CDec (oi_quantity i)), (''reduce_only'', CBool (oi_reduce_only i)),
       (''side'', CStr (side_value (oi_side i))), (''signal_ids'', CList (map CStr (oi_signal_ids i))),
       (''strategy_id'', CStr (oi_strategy_id i)), (''time_in_force'', CStr (time_in_force_value (oi_time_in_force i))),
       (''urgency'', canon_of_dec (oi_urgency i))]"

definition cancel_canon :: "cancel_order_request \<Rightarrow> canon" where
  "cancel_canon c =
     CMap [(''account_id'', CStr (cr_account_id c)), (''cancel_request_id'', CStr (cr_cancel_request_id c)),
       (''client_order_id'', CStr (cr_client_order_id c)), (''correlation_id'', CStr (cr_correlation_id c)),
       (''exchange'', CStr (cr_exchange c)), (''exchange_order_id'', canon_of_opt (cr_exchange_order_id c)),
       (''idempotency_key'', CStr (cr_idempotency_key c)), (''order_id'', CStr (cr_order_id c)),
       (''requested_at'', CTime (cr_requested_at c))]"

fun money_canon :: "money option \<Rightarrow> canon" where
  "money_canon None = CNull"
| "money_canon (Some m) = CMap [(''amount'', CDec (amount m)), (''currency'', CStr (currency m))]"

definition fill_canon :: "fill \<Rightarrow> canon" where
  "fill_canon f =
     CMap [(''account_id'', CStr (fl_account_id f)), (''client_order_id'', CStr (fl_client_order_id f)),
       (''contract_id'', CStr (fl_contract_id f)), (''exchange'', CStr (fl_exchange f)),
       (''exchange_fill_id'', CStr (fl_exchange_fill_id f)), (''exchange_occurred_at'', CTime (fl_exchange_occurred_at f)),
       (''exchange_order_id'', canon_of_opt (fl_exchange_order_id f)), (''fee'', money_canon (fl_fee f)),
       (''fill_id'', CStr (fl_fill_id f)), (''liquidity_role'', CStr (role_value (fl_liquidity_role f))),
       (''market_id'', CStr (fl_market_id f)), (''order_id'', CStr (fl_order_id f)), (''outcome_id'', CStr (fl_outcome_id f)),
       (''price'', CDec (fl_price f)), (''quantity'', CDec (fl_quantity f)), (''rebate'', money_canon (fl_rebate f)),
       (''received_at'', CTime (fl_received_at f)), (''side'', CStr (side_value (fl_side f))),
       (''trade_id'', canon_of_opt (fl_trade_id f))]"

section \<open>Scheduled items\<close>

datatype market_payload = Book order_book_snapshot | Delta order_book_delta | Traded trade

record scheduled_market_event =
  sk_sequence :: int
  sk_scheduled_at :: instant
  sk_event :: market_payload
  sk_source_type :: simulation_source_type

definition validate_item_sequence :: "int \<Rightarrow> int result" where
  "validate_item_sequence n = (if n < 0 then Inl (ValueError F_sequence) else Inr n)"

definition mk_scheduled_market_event :: "scheduled_market_event \<Rightarrow> scheduled_market_event result" where
  "mk_scheduled_market_event e = bindE (validate_item_sequence (sk_sequence e)) (\<lambda>_. Inr e)"

fun market_payload_canon :: "market_payload \<Rightarrow> canon" where
  "market_payload_canon (Book s) = snapshot_canon s"
| "market_payload_canon (Delta d) = delta_canon d"
| "market_payload_canon (Traded t) = trade_canon t"

fun market_event_type :: "market_payload \<Rightarrow> string" where
  "market_event_type (Book s) = ''order_book_snapshot''"
| "market_event_type (Delta d) = ''order_book_delta''"
| "market_event_type (Traded t) = ''trade''"

definition market_event_canon :: "scheduled_market_event \<Rightarrow> canon" where
  "market_event_canon e =
     CMap [(''event'', market_payload_canon (sk_event e)), (''event_type'', CStr (market_event_type (sk_event e))),
       (''scheduled_at'', CTime (sk_scheduled_at e)), (''sequence'', CInt (sk_sequence e)),
       (''source_type'', CStr (source_value (sk_source_type e)))]"

datatype order_payload = Intent order_intent | Cancel cancel_order_request

record scheduled_order_action =
  sx_sequence :: int
  sx_scheduled_at :: instant
  sx_action :: order_payload
  sx_source_type :: simulation_source_type

definition mk_scheduled_order_action :: "scheduled_order_action \<Rightarrow> scheduled_order_action result" where
  "mk_scheduled_order_action a = bindE (validate_item_sequence (sx_sequence a)) (\<lambda>_. Inr a)"

fun order_payload_canon :: "order_payload \<Rightarrow> canon" where
  "order_payload_canon (Intent i) = intent_canon i"
| "order_payload_canon (Cancel c) = cancel_canon c"

fun order_action_type :: "order_payload \<Rightarrow> string" where
  "order_action_type (Intent i) = ''order_intent''"
| "order_action_type (Cancel c) = ''cancel_order_request''"

definition order_action_canon :: "scheduled_order_action \<Rightarrow> canon" where
  "order_action_canon a =
     CMap [(''action'', order_payload_canon (sx_action a)), (''action_type'', CStr (order_action_type (sx_action a))),
       (''scheduled_at'', CTime (sx_scheduled_at a)), (''sequence'', CInt (sx_sequence a)),
       (''source_type'', CStr (source_value (sx_source_type a)))]"

record expected_fill =
  xf_sequence :: int
  xf_fill :: fill
  xf_source_type :: simulation_source_type

definition mk_expected_fill :: "expected_fill \<Rightarrow> expected_fill result" where
  "mk_expected_fill x =
     bindE (validate_item_sequence (xf_sequence x)) (\<lambda>_.
     if xf_source_type x \<noteq> SIMULATED_OUTPUT then Inl (config_error ''simulation_scenario_expected_fill_source_invalid'')
     else Inr x)"

definition expected_fill_canon :: "expected_fill \<Rightarrow> canon" where
  "expected_fill_canon x =
     CMap [(''fill'', fill_canon (xf_fill x)), (''sequence'', CInt (xf_sequence x)),
       (''source_type'', CStr (source_value (xf_source_type x)))]"

section \<open>The scenario\<close>

record simulation_scenario =
  sn_scenario_id :: string
  sn_name :: string
  sn_configuration :: simulation_configuration
  sn_initial_book :: order_book_snapshot
  sn_market_events :: "scheduled_market_event list"
  sn_order_actions :: "scheduled_order_action list"
  sn_expected_fills :: "expected_fill list"
  sn_expected_final_book :: "order_book_snapshot option"
  sn_expected_final_book_source_type :: "simulation_source_type option"
  sn_tags :: "string list"
  sn_metadata :: "(string \<times> string) list"

definition validate_scenario_text :: "string \<Rightarrow> string result" where
  "validate_scenario_text s = (if valid_text s then Inr s else Inl (ValueError F_text))"

definition validate_initial_book :: "order_book_snapshot \<Rightarrow> unit result" where
  "validate_initial_book b = guards [(\<not> ob_is_valid b, config_error ''simulation_scenario_initial_book_invalid'')]"

text \<open>Tuples of items are sorted by sequence, and no sequence may occur twice.\<close>

definition sort_unique :: "('a \<Rightarrow> int) \<Rightarrow> 'a list \<Rightarrow> 'a list result" where
  "sort_unique sequence items =
     (let sorted_items = sort_key sequence items in
      if \<not> distinct (map sequence sorted_items) then Inl (config_error ''simulation_scenario_sequence_duplicate'') else Inr sorted_items)"

definition same_lineage :: "ident \<Rightarrow> ident \<Rightarrow> string \<Rightarrow> order_book_snapshot \<Rightarrow> bool" where
  "same_lineage market contract exchange initial_book \<longleftrightarrow>
     market = ob_market_id initial_book \<and> contract = ob_contract_id initial_book \<and> exchange = ob_exchange initial_book"

definition validate_expected_final_book :: "order_book_snapshot option \<Rightarrow> order_book_snapshot \<Rightarrow> unit result" where
  "validate_expected_final_book expected initial_book =
     (case expected of None \<Rightarrow> Inr ()
      | Some b \<Rightarrow> guards
          [(\<not> ob_is_valid b, config_error ''simulation_scenario_expected_final_book_invalid''),
           (\<not> same_lineage (ob_market_id b) (ob_contract_id b) (ob_exchange b) initial_book,
              config_error ''simulation_scenario_expected_final_book_mismatch'')])"

definition validate_expected_final_book_source_type ::
  "simulation_source_type option \<Rightarrow> order_book_snapshot option \<Rightarrow> simulation_source_type option result" where
  "validate_expected_final_book_source_type source_type expected =
     (case expected of
        None \<Rightarrow> if source_type \<noteq> None then Inl (config_error ''simulation_scenario_expected_final_book_source_invalid'') else Inr None
      | Some _ \<Rightarrow>
          (case source_type of
             None \<Rightarrow> Inr (Some SIMULATED_OUTPUT)
           | Some t \<Rightarrow> if t \<noteq> SIMULATED_OUTPUT then Inl (config_error ''simulation_scenario_expected_final_book_source_invalid'')
                        else Inr (Some t)))"

fun market_lineage :: "order_book_snapshot \<Rightarrow> market_payload \<Rightarrow> bool" where
  "market_lineage b (Book s) = same_lineage (ob_market_id s) (ob_contract_id s) (ob_exchange s) b"
| "market_lineage b (Delta d) = same_lineage (od_market_id d) (od_contract_id d) (od_exchange d) b"
| "market_lineage b (Traded t) = same_lineage (td_market_id t) (td_contract_id t) (td_exchange t) b"

fun order_lineage :: "order_book_snapshot \<Rightarrow> order_payload \<Rightarrow> bool" where
  "order_lineage b (Intent i) = (oi_market_id i = ob_market_id b \<and> oi_contract_id i = ob_contract_id b)"
| "order_lineage b (Cancel c) = (cr_exchange c = ob_exchange b)"

text \<open>The error about a trade names its \<^verbatim>\<open>trade_id\<close>, which must be text; otherwise making the error raises a \<^verbatim>\<open>ValueError\<close>.\<close>

fun market_mismatch :: "market_payload \<Rightarrow> py_error" where
  "market_mismatch (Traded t) =
     (if blank_or_padded (td_trade_id t) then ValueError F_text else config_error ''simulation_scenario_market_event_mismatch'')"
| "market_mismatch _ = config_error ''simulation_scenario_market_event_mismatch''"

definition validate_market_event_lineage :: "scheduled_market_event list \<Rightarrow> order_book_snapshot \<Rightarrow> unit result" where
  "validate_market_event_lineage events b =
     guards (map (\<lambda>e. (\<not> market_lineage b (sk_event e), market_mismatch (sk_event e))) events)"

definition validate_order_action_lineage :: "scheduled_order_action list \<Rightarrow> order_book_snapshot \<Rightarrow> unit result" where
  "validate_order_action_lineage actions b =
     guards (map (\<lambda>a. (\<not> order_lineage b (sx_action a), config_error ''simulation_scenario_order_action_mismatch'')) actions)"

definition validate_expected_fill_lineage :: "expected_fill list \<Rightarrow> order_book_snapshot \<Rightarrow> unit result" where
  "validate_expected_fill_lineage fills b =
     guards (map (\<lambda>x. (\<not> same_lineage (fl_market_id (xf_fill x)) (fl_contract_id (xf_fill x)) (fl_exchange (xf_fill x)) b,
       config_error ''simulation_scenario_expected_fill_mismatch'')) fills)"

definition normalize_tags :: "string list \<Rightarrow> string list result" where
  "normalize_tags tags =
     bindE (mapE validate_scenario_text tags) (\<lambda>tags.
       let normalized = sort tags in
       if \<not> distinct normalized then Inl (config_error ''simulation_scenario_tag_duplicate'') else Inr normalized)"

definition validate_metadata :: "(string \<times> string) list \<Rightarrow> unit result" where
  "validate_metadata metadata =
     guards (concat (map (\<lambda>(k, v). [(\<not> valid_text k, ValueError F_text), (\<not> valid_text v, ValueError F_text)]) metadata))"

definition mk_simulation_scenario :: "simulation_scenario \<Rightarrow> simulation_scenario result" where
  "mk_simulation_scenario s =
     bindE (validate_scenario_text (sn_scenario_id s)) (\<lambda>_.
     bindE (validate_scenario_text (sn_name s)) (\<lambda>_.
     bindE (validate_initial_book (sn_initial_book s)) (\<lambda>_.
     bindE (sort_unique sk_sequence (sn_market_events s)) (\<lambda>market_events.
     bindE (sort_unique sx_sequence (sn_order_actions s)) (\<lambda>order_actions.
     bindE (sort_unique xf_sequence (sn_expected_fills s)) (\<lambda>expected_fills.
     bindE (validate_expected_final_book (sn_expected_final_book s) (sn_initial_book s)) (\<lambda>_.
     bindE (validate_expected_final_book_source_type (sn_expected_final_book_source_type s) (sn_expected_final_book s)) (\<lambda>source_type.
     bindE (validate_market_event_lineage market_events (sn_initial_book s)) (\<lambda>_.
     bindE (validate_order_action_lineage order_actions (sn_initial_book s)) (\<lambda>_.
     bindE (validate_expected_fill_lineage expected_fills (sn_initial_book s)) (\<lambda>_.
     bindE (normalize_tags (sn_tags s)) (\<lambda>tags.
     bindE (validate_metadata (sn_metadata s)) (\<lambda>_.
     Inr (s\<lparr>sn_market_events := market_events, sn_order_actions := order_actions, sn_expected_fills := expected_fills,
            sn_expected_final_book_source_type := source_type, sn_tags := tags\<rparr>))))))))))))))"

definition scenario_payload :: "hasher \<Rightarrow> simulation_scenario \<Rightarrow> canon" where
  "scenario_payload H s =
     CMap
      ([(''configuration'', configuration_canon (sn_configuration s)),
        (''configuration_hash'', CStr (H (configuration_canon (sn_configuration s))))] @
       (case sn_expected_final_book s of None \<Rightarrow> []
        | Some b \<Rightarrow> [(''expected_final_book'', snapshot_canon b),
            (''expected_final_book_source_type'', canon_of_opt (map_option source_value (sn_expected_final_book_source_type s)))]) @
       [(''expected_fills'', CList (map expected_fill_canon (sn_expected_fills s))),
        (''hash_version'', CStr ''simulation_scenario_hash_v1''), (''initial_book'', snapshot_canon (sn_initial_book s)),
        (''market_events'', CList (map market_event_canon (sn_market_events s))),
        (''metadata'', CMap (map (\<lambda>(k, v). (k, CStr v)) (sort_key fst (sn_metadata s)))), (''name'', CStr (sn_name s)),
        (''order_actions'', CList (map order_action_canon (sn_order_actions s))),
        (''scenario_id'', CStr (sn_scenario_id s)), (''tags'', CList (map CStr (sn_tags s)))])"

definition scenario_hash :: "hasher \<Rightarrow> simulation_scenario \<Rightarrow> string" where
  "scenario_hash H s = H (scenario_payload H s)"

definition scenario_result_artifact :: "hasher \<Rightarrow> simulation_scenario \<Rightarrow> int \<Rightarrow> simulation_artifact result" where
  "scenario_result_artifact H s n =
     bindE (validate_item_sequence n) (\<lambda>n. mk_simulation_artifact
       \<lparr>at_sequence = n, at_artifact_type = ''simulation_scenario'', at_artifact_id = sn_scenario_id s,
        at_artifact_hash = scenario_hash H s, at_source_type = INFERRED_BEHAVIOR\<rparr>)"

section \<open>Projecting the book\<close>

definition market_event_hash :: "hasher \<Rightarrow> scheduled_market_event \<Rightarrow> string" where
  "market_event_hash H e = H (market_payload_canon (sk_event e))"

fun apply_scheduled_market_event :: "order_book_snapshot \<Rightarrow> market_payload \<Rightarrow> order_book_snapshot result" where
  "apply_scheduled_market_event book (Book s) = Inr s"
| "apply_scheduled_market_event book (Delta d) = apply_order_book_delta book d ''projected_delta''"
| "apply_scheduled_market_event book (Traded t) = Inr book"

definition scheduled_after :: "scheduled_market_event \<Rightarrow> instant option \<Rightarrow> bool" where
  "scheduled_after e through = (case through of None \<Rightarrow> False | Some t \<Rightarrow> t < sk_scheduled_at e)"

fun project_events ::
  "hasher \<Rightarrow> instant option \<Rightarrow> string list \<Rightarrow> order_book_snapshot \<Rightarrow> scheduled_market_event list \<Rightarrow> order_book_snapshot result" where
  "project_events H through seen projected [] = Inr projected"
| "project_events H through seen projected (e # es) =
     (if scheduled_after e through then project_events H through seen projected es
      else if market_event_hash H e \<in> set seen then project_events H through seen projected es
      else bindE (apply_scheduled_market_event projected (sk_event e)) (\<lambda>projected.
        project_events H through (market_event_hash H e # seen) projected es))"

definition project_book_until :: "hasher \<Rightarrow> simulation_scenario \<Rightarrow> instant option \<Rightarrow> order_book_snapshot result" where
  "project_book_until H s through = project_events H through [] (sn_initial_book s) (sn_market_events s)"

fun duplicates_from :: "hasher \<Rightarrow> string list \<Rightarrow> scheduled_market_event list \<Rightarrow> nat" where
  "duplicates_from H seen [] = 0"
| "duplicates_from H seen (e # es) =
     (if market_event_hash H e \<in> set seen then Suc (duplicates_from H seen es)
      else duplicates_from H (market_event_hash H e # seen) es)"

definition duplicate_market_event_count :: "hasher \<Rightarrow> scheduled_market_event list \<Rightarrow> nat" where
  "duplicate_market_event_count H events = duplicates_from H [] events"

section \<open>Fills of a resting order\<close>

type_synonym disconnect_window = "(instant \<times> instant option) option"

definition scheduled_at_during_disconnect :: "instant \<Rightarrow> disconnect_window \<Rightarrow> bool" where
  "scheduled_at_during_disconnect t window =
     (case window of None \<Rightarrow> False
      | Some (disconnected_at, reconnected_at) \<Rightarrow>
          if t < disconnected_at then False
          else (case reconnected_at of None \<Rightarrow> True | Some r \<Rightarrow> t < r))"

definition trade_fills_resting_intent :: "trade \<Rightarrow> order_intent \<Rightarrow> bool" where
  "trade_fills_resting_intent t i =
     (case oi_limit_price i of None \<Rightarrow> False
      | Some limit \<Rightarrow>
          if td_outcome_id t \<noteq> oi_outcome_id i then False
          else case td_aggressor_side t of None \<Rightarrow> False
          | Some aggressor \<Rightarrow>
              if oi_side i = BUY then aggressor = SELL \<and> td_price t \<le> limit
              else aggressor = BUY \<and> limit \<le> td_price t)"

definition resting_average_price :: "fill_component list \<Rightarrow> rat" where
  "resting_average_price cs = ddiv (dsum (map (\<lambda>c. dmul (fc_price c) (fc_quantity c)) cs)) (dsum (map fc_quantity cs))"

definition resting_reason_code :: "rat \<Rightarrow> rat \<Rightarrow> string" where
  "resting_reason_code filled_quantity order_quantity =
     (if filled_quantity < order_quantity then ''simulation_resting_trade_partial_fill''
      else ''simulation_resting_trade_full_fill'')"

definition maker_component :: "trade \<Rightarrow> rat \<Rightarrow> fill_component" where
  "maker_component t q = \<lparr>fc_price = td_price t, fc_quantity = q, fc_liquidity_role = MAKER\<rparr>"

text \<open>The loop over the events: the times an order can be filled at, and the trades that fill it.\<close>

definition fillable_at :: "instant \<Rightarrow> scheduled_order_action option \<Rightarrow> disconnect_window \<Rightarrow> instant \<Rightarrow> bool" where
  "fillable_at activation_at cancel_action window t \<longleftrightarrow>
     \<not> t < activation_at \<and> \<not> (case cancel_action of None \<Rightarrow> False | Some c \<Rightarrow> sx_scheduled_at c < t) \<and>
     \<not> scheduled_at_during_disconnect t window"

fun resting_loop ::
  "hasher \<Rightarrow> order_intent \<Rightarrow> (instant \<Rightarrow> bool) \<Rightarrow> string list \<Rightarrow> rat \<Rightarrow> scheduled_market_event list \<Rightarrow> fill_component list \<times> rat" where
  "resting_loop H i fillable seen remaining [] = ([], remaining)"
| "resting_loop H i fillable seen remaining (e # es) =
     (if \<not> fillable (sk_scheduled_at e) then resting_loop H i fillable seen remaining es
      else if market_event_hash H e \<in> set seen then resting_loop H i fillable seen remaining es
      else
        let seen = market_event_hash H e # seen in
        case sk_event e of
          Traded t \<Rightarrow>
            if \<not> trade_fills_resting_intent t i then resting_loop H i fillable seen remaining es
            else
              let fill_quantity = min remaining (td_quantity t) in
              if fill_quantity = 0 then ([], remaining)
              else
                let rest = dsub remaining fill_quantity in
                if rest = 0 then ([maker_component t fill_quantity], rest)
                else case resting_loop H i fillable seen rest es of
                  (cs, final) \<Rightarrow> (maker_component t fill_quantity # cs, final)
        | _ \<Rightarrow> resting_loop H i fillable seen remaining es)"

definition fill_resting_order_from_trade_events ::
  "hasher \<Rightarrow> simulation_scenario \<Rightarrow> order_intent \<Rightarrow> instant \<Rightarrow> scheduled_order_action option \<Rightarrow> disconnect_window \<Rightarrow>
     fill_estimate \<Rightarrow> fill_estimate" where
  "fill_resting_order_from_trade_events H s i activation_at cancel_action window e =
     (if has_fill e then e
      else case resting_loop H i (fillable_at activation_at cancel_action window) [] (fe_remaining_quantity e) (sn_market_events s) of
        (components, remaining_quantity) \<Rightarrow>
          if components = [] then e
          else
            let filled_quantity = dsub (fe_order_quantity e) remaining_quantity in
            \<lparr>fe_side = fe_side e, fe_limit_price = fe_limit_price e, fe_order_quantity = fe_order_quantity e,
             fe_filled_quantity = filled_quantity, fe_remaining_quantity = remaining_quantity,
             fe_average_fill_price = Some (resting_average_price components), fe_liquidity_role = MAKER,
             fe_components = components,
             fe_reason_code = resting_reason_code filled_quantity (fe_order_quantity e)\<rparr>)"

fun pre_disconnect_loop ::
  "hasher \<Rightarrow> order_intent \<Rightarrow> instant \<Rightarrow> instant \<Rightarrow> rat \<Rightarrow> string list \<Rightarrow> rat \<Rightarrow> scheduled_market_event list \<Rightarrow> rat" where
  "pre_disconnect_loop H i activation_at disconnected_at order_quantity seen filled [] = filled"
| "pre_disconnect_loop H i activation_at disconnected_at order_quantity seen filled (e # es) =
     (if sk_scheduled_at e < activation_at \<or> disconnected_at \<le> sk_scheduled_at e
      then pre_disconnect_loop H i activation_at disconnected_at order_quantity seen filled es
      else if market_event_hash H e \<in> set seen
      then pre_disconnect_loop H i activation_at disconnected_at order_quantity seen filled es
      else
        let seen = market_event_hash H e # seen in
        case sk_event e of
          Traded t \<Rightarrow>
            if \<not> trade_fills_resting_intent t i
            then pre_disconnect_loop H i activation_at disconnected_at order_quantity seen filled es
            else
              let filled = dadd filled (min (dsub order_quantity filled) (td_quantity t)) in
              if order_quantity \<le> filled then order_quantity
              else pre_disconnect_loop H i activation_at disconnected_at order_quantity seen filled es
        | _ \<Rightarrow> pre_disconnect_loop H i activation_at disconnected_at order_quantity seen filled es)"

definition pre_disconnect_resting_fill_quantity ::
  "hasher \<Rightarrow> simulation_scenario \<Rightarrow> order_intent \<Rightarrow> instant \<Rightarrow> instant \<Rightarrow> rat \<Rightarrow> rat" where
  "pre_disconnect_resting_fill_quantity H s i activation_at disconnected_at order_quantity =
     pre_disconnect_loop H i activation_at disconnected_at order_quantity [] 0 (sn_market_events s)"

section \<open>Every payload once\<close>

text \<open>Both loops over the events keep the first event of each payload among those whose time they admit.\<close>

fun first_by :: "('a \<Rightarrow> 'k) \<Rightarrow> 'k list \<Rightarrow> 'a list \<Rightarrow> 'a list" where
  "first_by key seen [] = []"
| "first_by key seen (x # xs) = (if key x \<in> set seen then first_by key seen xs else x # first_by key (key x # seen) xs)"

lemma set_first_by: "set (first_by key seen xs) \<subseteq> set xs"
  by (induction key seen xs rule: first_by.induct) auto

lemma first_by_unseen: "y \<in> set (first_by key seen xs) \<Longrightarrow> key y \<notin> set seen"
  by (induction key seen xs rule: first_by.induct) (auto split: if_splits)

lemma distinct_first_by: "distinct (map key (first_by key seen xs))"
proof (induction xs arbitrary: seen)
  case (Cons x xs)
  have "key x \<notin> key ` set (first_by key (key x # seen) xs)" using first_by_unseen [of _ key "key x # seen" xs] by force
  then show ?case using Cons by simp
qed simp

lemma first_by_seen_set: "set seen = set seen' \<Longrightarrow> first_by key seen xs = first_by key seen' xs"
proof (induction xs arbitrary: seen seen')
  case (Cons x xs)
  have "first_by key seen xs = first_by key seen' xs" by (rule Cons.IH) (rule Cons.prems)
  moreover have "first_by key (key x # seen) xs = first_by key (key x # seen') xs" by (rule Cons.IH) (simp add: Cons.prems)
  ultimately show ?case using Cons.prems by simp
qed simp

lemma first_by_cong:
  assumes "\<And>x y. x \<in> set xs \<union> A \<Longrightarrow> y \<in> set xs \<union> A \<Longrightarrow> key x = key y \<longleftrightarrow> key' x = key' y"
    and "set seen = key ` A" and "set seen' = key' ` A"
  shows "first_by key seen xs = first_by key' seen' xs"
  using assms
proof (induction xs arbitrary: A seen seen')
  case (Cons x xs)
  have "key x = key a \<longleftrightarrow> key' x = key' a" if "a \<in> A" for a by (rule Cons.prems(1)) (use that in auto)
  then have mem: "key x \<in> set seen \<longleftrightarrow> key' x \<in> set seen'" unfolding Cons.prems(2,3) image_iff by blast
  have "first_by key seen xs = first_by key' seen' xs"
    by (rule Cons.IH [OF _ Cons.prems(2,3)]) (rule Cons.prems(1), auto)
  moreover have "first_by key (key x # seen) xs = first_by key' (key' x # seen') xs"
  proof (rule Cons.IH [where A = "insert x A"])
    show "key a = key b \<longleftrightarrow> key' a = key' b" if "a \<in> set xs \<union> insert x A" "b \<in> set xs \<union> insert x A" for a b
      by (rule Cons.prems(1)) (use that in auto)
  qed (simp_all add: Cons.prems(2,3))
  ultimately show ?case using mem by simp
qed (simp only: first_by.simps)

lemma first_by_append:
  "first_by key seen (xs @ ys) = first_by key seen xs @ first_by key (rev (map key xs) @ seen) ys"
proof (induction key seen xs rule: first_by.induct)
  case (2 key seen x xs)
  have "first_by key (s @ key x # seen) ys = first_by key (s @ seen) ys" if "key x \<in> set seen" for s
    by (rule first_by_seen_set) (use that in auto)
  then show ?case using 2 by simp
qed simp

lemma project_events_eq:
  "project_events H through seen b es =
     foldE apply_scheduled_market_event b
       (map sk_event (first_by (market_event_hash H) seen (filter (\<lambda>e. \<not> scheduled_after e through) es)))"
  by (induction H through seen b es rule: project_events.induct) auto

lemma duplicates_from_eq: "duplicates_from H seen es + length (first_by (market_event_hash H) seen es) = length es"
  by (induction H seen es rule: duplicates_from.induct) auto

section \<open>Valid inputs\<close>

definition trade_valid :: "trade \<Rightarrow> bool" where
  "trade_valid t \<longleftrightarrow> text_in 1 128 (td_trade_id t) \<and> text_in 1 64 (td_exchange t) \<and> text_in 1 256 (td_exchange_trade_id t) \<and>
     0 \<le> td_price t \<and> 0 < td_quantity t \<and> pred_option (\<lambda>n. 0 \<le> n) (td_sequence t)"

fun payload_valid :: "market_payload \<Rightarrow> bool" where
  "payload_valid (Book s) = book_valid s"
| "payload_valid (Delta d) = delta_valid d"
| "payload_valid (Traded t) = trade_valid t"

lemma levels_of_change:
  assumes "list_all (\<lambda>(p, l). P l) d" and "P (level_at (dl_price c) (dl_quantity c))"
  shows "list_all (\<lambda>(p, l). P l) (change_side c d)"
  using assms by (simp add: change_side_def level_at_def list_all_dict_set list_all_dict_pop)

lemma levels_of_changes:
  assumes "list_all (\<lambda>(p, l). P l) (fst ds)" and "list_all (\<lambda>(p, l). P l) (snd ds)"
    and "\<And>c. c \<in> set cs \<Longrightarrow> P (level_at (dl_price c) (dl_quantity c))"
  shows "list_all (\<lambda>(p, l). P l) (fst (foldl apply_change ds cs)) \<and> list_all (\<lambda>(p, l). P l) (snd (foldl apply_change ds cs))"
  using assms
proof (induction cs arbitrary: ds)
  case (Cons c cs)
  have p: "P (level_at (dl_price c) (dl_quantity c))" by (simp add: Cons.prems(3))
  have "list_all (\<lambda>(p, l). P l) (fst (apply_change ds c))" "list_all (\<lambda>(p, l). P l) (snd (apply_change ds c))"
    using Cons.prems(1,2) levels_of_change [where P = P and c = c, OF _ p] by (cases ds; simp)+
  then show ?case using Cons.IH [of "apply_change ds c"] Cons.prems(3) by simp
qed simp

lemma levels_of_projected:
  assumes "list_all P (ob_bids s)" and "list_all P (ob_asks s)"
    and "\<And>c. c \<in> set (od_changes d) \<Longrightarrow> P (level_at (dl_price c) (dl_quantity c))"
    and "apply_order_book_delta s d reason = Inr s'"
  shows "list_all P (ob_bids s') \<and> list_all P (ob_asks s')"
proof -
  have start: "list_all P ls \<Longrightarrow> list_all (\<lambda>(p, l). P l) d \<Longrightarrow>
      list_all (\<lambda>(p, l). P l) (foldl (\<lambda>d l. dict_set (lv_price l) l d) d ls)" for ls d
    by (induction ls arbitrary: d) (auto simp: list_all_dict_set)
  have sorted: "list_all (\<lambda>(p, l). P l) d \<Longrightarrow> list_all P (sorted_levels d r)" for d r
    by (auto simp: sorted_levels_def list_all_iff)
  obtain bids asks where f: "foldl apply_change (levels_by_price (ob_bids s), levels_by_price (ob_asks s)) (od_changes d) = (bids, asks)"
    by force
  have "list_all (\<lambda>(p, l). P l) bids \<and> list_all (\<lambda>(p, l). P l) asks"
    using levels_of_changes [of P "(levels_by_price (ob_bids s), levels_by_price (ob_asks s))" "od_changes d"]
      start [OF assms(1), of "[]"] start [OF assms(2), of "[]"] assms(3) f
    by (simp add: levels_by_price_def)
  then show ?thesis
    using assms(4) f sorted by (auto simp: apply_order_book_delta_def bindE_eq_Inr mk_order_book_snapshot_def)
qed

text \<open>What holds of the initial book, and of every level that events bring, holds of every projected book.\<close>

fun payload_levels :: "(order_book_level \<Rightarrow> bool) \<Rightarrow> market_payload \<Rightarrow> bool" where
  "payload_levels P (Book s) = (list_all P (ob_bids s) \<and> list_all P (ob_asks s))"
| "payload_levels P (Delta d) = list_all (\<lambda>c. P (level_at (dl_price c) (dl_quantity c))) (od_changes d)"
| "payload_levels P (Traded t) = True"

lemma apply_event_invariant:
  assumes "apply_scheduled_market_event b e = Inr b'" and "book_valid b" and "payload_valid e" and "market_lineage r e"
    and "same_lineage (ob_market_id b) (ob_contract_id b) (ob_exchange b) r"
    and "payload_levels P (Book b)" and "payload_levels P e"
  shows "book_valid b' \<and> payload_levels P (Book b') \<and> same_lineage (ob_market_id b') (ob_contract_id b') (ob_exchange b') r"
proof (cases e)
  case (Delta d)
  have d: "delta_accepted b d ''projected_delta''" "b' = projected_book b d ''projected_delta''"
    using apply_delta_cases [OF assms(2), of d] assms(1,3) by (auto simp: Delta)
  have "book_valid b'"
    using projected_book_valid(1) [OF assms(2), of d "''projected_delta''"] d assms(3) by (simp add: Delta delta_accepted_def)
  moreover have "payload_levels P (Book b')"
    unfolding payload_levels.simps
  proof (rule levels_of_projected [of P b d])
    show "list_all P (ob_bids b)" "list_all P (ob_asks b)" using assms(6) by simp_all
    show "P (level_at (dl_price c) (dl_quantity c))" if "c \<in> set (od_changes d)" for c
      using assms(7) that unfolding Delta payload_levels.simps list_all_iff by blast
    show "apply_order_book_delta b d ''projected_delta'' = Inr b'" using assms(1) by (simp add: Delta)
  qed
  moreover have "ob_market_id b' = ob_market_id b" "ob_contract_id b' = ob_contract_id b" "ob_exchange b' = ob_exchange b"
    by (simp_all add: d(2) projected_book_def Let_def)
  ultimately show ?thesis using assms(5) by simp
next
  case (Book s)
  then show ?thesis using assms(1,3,4,7) by simp
next
  case (Traded t)
  then show ?thesis using assms(1,2,5,6) by simp
qed

lemma projected_books:
  assumes "project_events H through seen b es = Inr b'" and "book_valid b" and "same_lineage (ob_market_id b) (ob_contract_id b) (ob_exchange b) r"
    and "payload_levels P (Book b)"
    and "\<And>e. e \<in> set es \<Longrightarrow> payload_valid (sk_event e) \<and> market_lineage r (sk_event e) \<and> payload_levels P (sk_event e)"
  shows "book_valid b' \<and> payload_levels P (Book b') \<and> same_lineage (ob_market_id b') (ob_contract_id b') (ob_exchange b') r"
  using assms
proof (induction H through seen b es rule: project_events.induct)
  case (2 H through seen b e es)
  show ?case
  proof (cases "scheduled_after e through \<or> market_event_hash H e \<in> set seen")
    case True
    then show ?thesis using 2 by (auto split: if_splits)
  next
    case False
    then obtain b1 where b1: "apply_scheduled_market_event b (sk_event e) = Inr b1"
      "project_events H through (market_event_hash H e # seen) b1 es = Inr b'"
      using 2(4) by (auto simp: bindE_eq_Inr)
    have "book_valid b1 \<and> payload_levels P (Book b1) \<and> same_lineage (ob_market_id b1) (ob_contract_id b1) (ob_exchange b1) r"
      using apply_event_invariant [OF b1(1) 2(5) _ _ 2(6,7)] 2(8) by simp
    then show ?thesis using 2(3) [of b1] False b1 2(8) by simp
  qed
qed simp

section \<open>Resting fills as a waterfall\<close>

text \<open>The trades that fill the order, and the book they amount to.\<close>

definition trades_of :: "scheduled_market_event list \<Rightarrow> trade list" where
  "trades_of es = concat (map (\<lambda>e. case sk_event e of Traded t \<Rightarrow> [t] | _ \<Rightarrow> []) es)"

definition filling_trades :: "(scheduled_market_event \<Rightarrow> 'k) \<Rightarrow> order_intent \<Rightarrow> (instant \<Rightarrow> bool) \<Rightarrow> 'k list \<Rightarrow> scheduled_market_event list \<Rightarrow> trade list" where
  "filling_trades key i fillable seen es =
     filter (\<lambda>t. trade_fills_resting_intent t i) (trades_of (first_by key seen (filter (\<lambda>e. fillable (sk_scheduled_at e)) es)))"

definition trade_level :: "trade \<Rightarrow> order_book_level" where
  "trade_level t = level_at (td_price t) (td_quantity t)"

definition to_maker :: "fill_component \<Rightarrow> fill_component" where
  "to_maker c = c\<lparr>fc_liquidity_role := MAKER\<rparr>"

lemma trades_of_simps [simp]:
  "trades_of [] = []" "trades_of (e # es) = (case sk_event e of Traded t \<Rightarrow> [t] | _ \<Rightarrow> []) @ trades_of es"
  by (simp_all add: trades_of_def)

lemma trades_of_valid: "\<forall>e \<in> set es. payload_valid (sk_event e) \<Longrightarrow> t \<in> set (trades_of es) \<Longrightarrow> trade_valid t"
proof (induction es)
  case (Cons e es)
  then show ?case by (cases "sk_event e") auto
qed simp

lemma filling_trade:
  assumes "\<forall>e \<in> set es. payload_valid (sk_event e)" and "t \<in> set (filling_trades key i fillable seen es)"
  shows "trade_valid t" and "trade_fills_resting_intent t i"
  using assms trades_of_valid [of "first_by key seen (filter (\<lambda>e. fillable (sk_scheduled_at e)) es)" t]
    set_first_by [of key seen "filter (\<lambda>e. fillable (sk_scheduled_at e)) es"]
  by (auto simp: filling_trades_def)

lemma filling_trade_within_limit:
  assumes "trade_fills_resting_intent t i" and "oi_limit_price i = Some limit"
  shows "is_executable (oi_side i) limit (td_price t) True"
  using assms by (auto simp: trade_fills_resting_intent_def is_executable_def split: if_splits option.splits)

lemma resting_loop_eq:
  assumes "oi_limit_price i = Some limit" and "\<forall>e \<in> set es. payload_valid (sk_event e)" and "0 \<le> q"
  shows "resting_loop H i fillable seen q es =
    map_prod (map to_maker) id
      (take_levels (oi_side i) limit True q (map trade_level (filling_trades (market_event_hash H) i fillable seen es)))"
  using assms(2,3)
proof (induction es arbitrary: seen q)
  case Nil
  then show ?case by (simp add: filling_trades_def)
next
  case (Cons e es)
  note IH = Cons.IH [OF _ Cons.prems(2)]
  have valid: "\<forall>e \<in> set es. payload_valid (sk_event e)" using Cons.prems(1) by simp
  show ?case
  proof (cases "fillable (sk_scheduled_at e) \<and> market_event_hash H e \<notin> set seen")
    case False
    then show ?thesis using Cons.IH [OF valid Cons.prems(2)] by (auto simp: filling_trades_def)
  next
    case True
    let ?seen = "market_event_hash H e # seen"
    show ?thesis
    proof (cases "\<exists>t. sk_event e = Traded t \<and> trade_fills_resting_intent t i")
      case False
      then have "filling_trades (market_event_hash H) i fillable seen (e # es) = filling_trades (market_event_hash H) i fillable ?seen es"
        using True by (auto simp: filling_trades_def split: market_payload.splits)
      moreover have "resting_loop H i fillable seen q (e # es) = resting_loop H i fillable ?seen q es"
        using True False by (cases "sk_event e") (simp_all add: Let_def)
      ultimately show ?thesis using Cons.IH [OF valid Cons.prems(2)] by simp
    next
      case True': True
      then obtain t where t: "sk_event e = Traded t" "trade_fills_resting_intent t i" by blast
      have f: "filling_trades (market_event_hash H) i fillable seen (e # es) = t # filling_trades (market_event_hash H) i fillable ?seen es"
        using True t by (simp add: filling_trades_def)
      have x: "is_executable (oi_side i) limit (td_price t) True" by (rule filling_trade_within_limit [OF t(2) assms(1)])
      have pos: "0 < td_quantity t" using Cons.prems(1) t(1) by (simp add: trade_valid_def)
      define d where "d = dsub q (min q (td_quantity t))"
      have d: "0 \<le> d" by (simp add: d_def)
      show ?thesis
      proof (cases "q = 0")
        case True
        then show ?thesis using t \<open>fillable (sk_scheduled_at e) \<and> market_event_hash H e \<notin> set seen\<close> pos
          by (simp add: f trade_level_def level_at_def)
      next
        case False
        then have m: "min q (td_quantity t) \<noteq> 0" using pos Cons.prems(2) by (simp add: min_def)
        have tl: "take_levels (oi_side i) limit True 0 ls = ([], 0)" for ls by (cases ls) simp_all
        show ?thesis
          using True t x False m Cons.IH [OF valid d, of ?seen]
          by (simp add: f trade_level_def level_at_def to_maker_def maker_component_def d_def [symmetric] tl Let_def split: prod.splits)
      qed
    qed
  qed
qed

text \<open>The canonical form of a market event determines it, so that a hash that does not collide tells events apart.\<close>

lemma value_inj [simp]:
  "side_value a = side_value b \<longleftrightarrow> a = b" "role_value r = role_value r' \<longleftrightarrow> r = r'"
  "delta_action_value x = delta_action_value y \<longleftrightarrow> x = y"
  "canon_of_int m = canon_of_int n \<longleftrightarrow> m = n" "canon_of_time t = canon_of_time u \<longleftrightarrow> t = u" "canon_of_opt o1 = canon_of_opt o2 \<longleftrightarrow> o1 = o2"
  subgoal by (cases a; cases b) simp_all
  subgoal by (cases r; cases r') simp_all
  subgoal by (cases x; cases y) simp_all
  subgoal by (cases m; cases n) simp_all
  subgoal by (cases t; cases u) simp_all
  subgoal by (cases o1; cases o2) simp_all
  done

lemma option_side_inj [simp]: "map_option side_value a = map_option side_value b \<longleftrightarrow> a = b"
  by (cases a; cases b) simp_all

lemma inj_level_canon: "inj level_canon"
  by (rule injI) (simp add: level_canon_def order_book_level.equality)

lemma inj_delta_level_canon: "inj delta_level_canon"
  by (rule injI) (simp add: delta_level_canon_def order_book_delta_level.equality)

lemma inj_market_payload_canon: "inj market_payload_canon"
proof (rule injI)
  fix x y assume "market_payload_canon x = market_payload_canon y"
  then show "x = y"
    by (cases x; cases y)
      (simp_all add: snapshot_canon_def delta_canon_def trade_canon_def inj_map_eq_map inj_level_canon inj_delta_level_canon
        order_book_snapshot.equality order_book_delta.equality trade.equality)
qed

definition collision_free :: "hasher \<Rightarrow> scheduled_market_event list \<Rightarrow> bool" where
  "collision_free H es \<longleftrightarrow> inj_on H (market_payload_canon ` sk_event ` set es)"

lemma market_event_hash_eq:
  "collision_free H es \<Longrightarrow> e \<in> set es \<Longrightarrow> e' \<in> set es \<Longrightarrow> market_event_hash H e = market_event_hash H e' \<longleftrightarrow> sk_event e = sk_event e'"
  by (auto simp: market_event_hash_def collision_free_def inj_on_def dest: injD [OF inj_market_payload_canon])

lemma first_by_payload:
  assumes "collision_free H es" and "set xs \<subseteq> set es"
  shows "first_by (market_event_hash H) [] xs = first_by sk_event [] xs"
proof (rule first_by_cong [where A = "{}"])
  fix e e' assume "e \<in> set xs \<union> {}" and "e' \<in> set xs \<union> {}"
  then show "market_event_hash H e = market_event_hash H e' \<longleftrightarrow> sk_event e = sk_event e'"
    by (intro market_event_hash_eq [OF assms(1)]) (use assms(2) in auto)
qed simp_all

lemma filling_trades_payload:
  "collision_free H es \<Longrightarrow> filling_trades (market_event_hash H) i fillable [] es = filling_trades sk_event i fillable [] es"
  unfolding filling_trades_def by (subst first_by_payload) auto

definition trades_on_grid :: "nat \<Rightarrow> scheduled_market_event list \<Rightarrow> bool" where
  "trades_on_grid g es \<longleftrightarrow> (\<forall>e t. e \<in> set es \<longrightarrow> sk_event e = Traded t \<longrightarrow> on_grid g (10 ^ 28) (td_quantity t))"

lemma trades_of_mem: "t \<in> set (trades_of es) \<Longrightarrow> \<exists>e \<in> set es. sk_event e = Traded t"
proof (induction es)
  case (Cons e es)
  then show ?case by (cases "sk_event e") auto
qed simp

lemma filling_trade_mem:
  assumes "t \<in> set (filling_trades key i fillable seen es)"
  shows "\<exists>e \<in> set es. sk_event e = Traded t \<and> fillable (sk_scheduled_at e)"
proof -
  obtain e where "e \<in> set (first_by key seen (filter (\<lambda>e. fillable (sk_scheduled_at e)) es))" "sk_event e = Traded t"
    using assms trades_of_mem [of t] by (auto simp: filling_trades_def)
  then show ?thesis using set_first_by [of key seen "filter (\<lambda>e. fillable (sk_scheduled_at e)) es"] by auto
qed

lemma filling_trades_grid:
  assumes "trades_on_grid g es" and "\<forall>e \<in> set es. payload_valid (sk_event e)"
  shows "grid_levels g (map trade_level (filling_trades key i fillable seen es))"
  unfolding grid_levels_def list_all_iff
proof
  fix l assume "l \<in> set (map trade_level (filling_trades key i fillable seen es))"
  then obtain t where t: "l = trade_level t" "t \<in> set (filling_trades key i fillable seen es)" by auto
  then obtain e where e: "e \<in> set es" "sk_event e = Traded t" using filling_trade_mem by blast
  have "on_grid g (10 ^ 28) (td_quantity t)" using assms(1) e by (simp add: trades_on_grid_def)
  moreover have "0 < td_quantity t" using filling_trade(1) [OF assms(2) t(2)] by (simp add: trade_valid_def)
  ultimately show "0 \<le> lv_quantity l \<and> on_grid g (10 ^ 28) (lv_quantity l)" by (simp add: t(1) trade_level_def level_at_def)
qed

lemma resting_loop_waterfall:
  fixes H :: hasher and fillable :: "instant \<Rightarrow> bool"
  assumes "oi_limit_price i = Some limit" and "\<forall>e \<in> set es. payload_valid (sk_event e)" and "0 \<le> q"
    and "trades_on_grid g es" and "on_grid g (10 ^ 28) q"
  defines "ls \<equiv> map trade_level (filling_trades (market_event_hash H) i fillable [] es)"
  shows "resting_loop H i fillable [] q es = (map to_maker (waterfall q ls), q - min q (depth ls))"
proof -
  have grid: "grid_levels g ls" unfolding ls_def by (rule filling_trades_grid [OF assms(4,2)])
  have "is_executable (oi_side i) limit (lv_price l) True" if "l \<in> set ls" for l
  proof -
    from that obtain t where "l = trade_level t" "t \<in> set (filling_trades (market_event_hash H) i fillable [] es)"
      by (auto simp: ls_def)
    then show ?thesis
      using filling_trade_within_limit [OF filling_trade(2) [OF assms(2)] assms(1)] by (simp add: trade_level_def level_at_def)
  qed
  then have all: "takeWhile (\<lambda>l. is_executable (oi_side i) limit (lv_price l) True) ls = ls"
    by (simp add: takeWhile_eq_all_conv)
  show ?thesis
    using resting_loop_eq [OF assms(1-3), of H fillable "[]"] take_levels_waterfall [OF grid assms(5,3), of "oi_side i" limit True]
    by (simp add: ls_def [symmetric] all Let_def)
qed

lemma trade_levels_nonneg: "\<forall>t \<in> set ts. trade_valid t \<Longrightarrow> list_all (\<lambda>l. 0 \<le> lv_quantity l) (map trade_level ts)"
  by (auto simp: list_all_iff trade_level_def level_at_def trade_valid_def)

definition maker_fill :: "fill_estimate \<Rightarrow> trade list \<Rightarrow> fill_estimate" where
  "maker_fill e ts =
     (let q = fe_order_quantity e; ls = map trade_level ts; filled = min q (depth ls); cs = map to_maker (waterfall q ls) in
      if ts = [] then e
      else e\<lparr>fe_filled_quantity := filled, fe_remaining_quantity := q - filled,
             fe_average_fill_price := Some (resting_average_price cs), fe_liquidity_role := MAKER, fe_components := cs,
             fe_reason_code := resting_reason_code filled q\<rparr>)"

lemma resting_fill_eq:
  assumes "oi_limit_price i = Some limit" and "\<forall>v \<in> set (sn_market_events s). payload_valid (sk_event v)"
    and "trades_on_grid g (sn_market_events s)" and "on_grid g (10 ^ 28) (fe_order_quantity e)" and "0 < fe_order_quantity e"
    and "\<not> has_fill e" and "fe_remaining_quantity e = fe_order_quantity e"
  shows "fill_resting_order_from_trade_events H s i t c window e =
    maker_fill e (filling_trades (market_event_hash H) i (fillable_at t c window) [] (sn_market_events s))"
proof -
  define q where "q = fe_order_quantity e"
  define ts where "ts = filling_trades (market_event_hash H) i (fillable_at t c window) [] (sn_market_events s)"
  define ls where "ls = map trade_level ts"
  define cs where "cs = map to_maker (waterfall q ls)"
  note q = assms(4,5) [folded q_def]
  have valid: "\<forall>x \<in> set ts. trade_valid x" using filling_trade(1) [OF assms(2)] by (auto simp: ts_def)
  have nonneg: "list_all (\<lambda>l. 0 \<le> lv_quantity l) ls" unfolding ls_def by (rule trade_levels_nonneg [OF valid])
  then have d: "0 \<le> depth ls" by (rule depth_nonneg)
  have grid: "grid_levels g ls" unfolding ls_def ts_def by (rule filling_trades_grid [OF assms(3,2)])
  have loop: "resting_loop H i (fillable_at t c window) [] q (sn_market_events s) = (cs, q - min q (depth ls))"
    using resting_loop_waterfall [OF assms(1,2) _ assms(3) q(1), of H "fillable_at t c window"] q(2)
    by (simp add: cs_def ls_def ts_def)
  have empty: "cs = [] \<longleftrightarrow> ts = []"
  proof (cases ts)
    case (Cons x xs)
    then have "0 < td_quantity x" using valid by (simp add: trade_valid_def)
    then show ?thesis using q(2) by (simp add: cs_def ls_def Cons waterfall_Cons trade_level_def level_at_def)
  qed (simp add: cs_def ls_def waterfall_def)
  have "on_grid g (10 ^ 28) (q - min q (depth ls))"
  proof -
    have u: "in_units g q" by (rule in_unitsI [OF q(1)])
    have "list_all (in_units g) (map lv_quantity ls)" using grid by (auto simp: grid_levels_def list_all_iff intro: in_unitsI)
    then have "in_units g (depth ls)" unfolding depth_def by (rule in_units_sum)
    then have "in_units g (q - min q (depth ls))" using u by (intro in_units_ops)
    then show ?thesis by (rule in_units_smaller [OF _ q(1)]) (use d q(2) in \<open>auto simp: min_def\<close>)
  qed
  then have "dsub q (q - min q (depth ls)) = min q (depth ls)"
    using dsub_grid(1) [OF q(1)] d q(2) by (simp add: min_def split: if_splits)
  then show ?thesis
    using empty assms(6,7)
    by (simp add: fill_resting_order_from_trade_events_def maker_fill_def loop Let_def
        flip: q_def ts_def ls_def cs_def)
qed

end
