(* ===== verification/Scenario_Results.thy ===== *)
theory Scenario_Results
  imports Scenarios Fee_Models Slippage_Models Settlement_Models
begin

text \<open>
  The second part of \<open>src/pmrp/simulation/scenarios.py\<close>: the result records of a run with the checks of their
  constructors, their canonical payloads, and everything a run reads from the parameters of its configuration.

  The lemmas say when each constructor succeeds, which is what the runner must respect.
\<close>

section \<open>Outcome codes\<close>

definition CANCEL_AFTER_ACTIVATION_NO_FILL :: string where
  "CANCEL_AFTER_ACTIVATION_NO_FILL = ''simulation_cancel_after_activation_no_fill''"

definition CANCEL_BEFORE_ACTIVATION :: string where
  "CANCEL_BEFORE_ACTIVATION = ''simulation_cancel_before_activation''"

definition CANCEL_FILL_RACE_LOST :: string where
  "CANCEL_FILL_RACE_LOST = ''simulation_cancel_fill_race_lost''"

definition DISCONNECT_OPEN_ORDER :: string where
  "DISCONNECT_OPEN_ORDER = ''simulation_disconnect_open_order''"

definition CANCEL_OUTCOME_CODES :: "string list" where
  "CANCEL_OUTCOME_CODES = [CANCEL_AFTER_ACTIVATION_NO_FILL, CANCEL_BEFORE_ACTIVATION, CANCEL_FILL_RACE_LOST]"

definition runner_model :: "string \<times> canon" where
  "runner_model = (''runner_model'', CStr ''simulation_scenario_runner_v1'')"

section \<open>Cancels\<close>

record scenario_cancel_result =
  kr_sequence :: int
  kr_action :: scheduled_order_action
  kr_target_order_sequence :: int
  kr_requested_at :: instant
  kr_effective_at :: instant
  kr_outcome_code :: string
  kr_source_type :: simulation_source_type

fun is_cancel :: "order_payload \<Rightarrow> bool" where
  "is_cancel (Cancel c) = True"
| "is_cancel (Intent i) = False"

definition mk_scenario_cancel_result :: "scenario_cancel_result \<Rightarrow> scenario_cancel_result result" where
  "mk_scenario_cancel_result k =
     bindE (guards
       [(kr_sequence k < 0, ValueError F_sequence),
        (\<not> is_cancel (sx_action (kr_action k)), config_error ''simulation_scenario_cancel_result_action_invalid''),
        (kr_target_order_sequence k < 0, ValueError F_sequence),
        (kr_effective_at k < kr_requested_at k, config_error ''simulation_scenario_cancel_time_invalid''),
        (kr_outcome_code k \<notin> set CANCEL_OUTCOME_CODES, config_error ''simulation_scenario_cancel_result_outcome_invalid''),
        (kr_source_type k \<noteq> SIMULATED_OUTPUT, config_error ''simulation_scenario_cancel_result_source_invalid'')]) (\<lambda>_. Inr k)"

definition before_activation :: "scenario_cancel_result \<Rightarrow> bool" where
  "before_activation k \<longleftrightarrow> kr_outcome_code k = CANCEL_BEFORE_ACTIVATION"

definition cancel_result_canon :: "scenario_cancel_result \<Rightarrow> canon" where
  "cancel_result_canon k =
     CMap [(''action'', order_action_canon (kr_action k)), (''effective_at'', CTime (kr_effective_at k)),
       (''outcome_code'', CStr (kr_outcome_code k)), (''requested_at'', CTime (kr_requested_at k)), runner_model,
       (''sequence'', CInt (kr_sequence k)), (''source_type'', CStr (source_value (kr_source_type k))),
       (''target_order_sequence'', CInt (kr_target_order_sequence k))]"

definition cancel_result :: "scheduled_order_action \<Rightarrow> int \<Rightarrow> string \<Rightarrow> scenario_cancel_result result" where
  "cancel_result action target outcome_code =
     mk_scenario_cancel_result
       \<lparr>kr_sequence = sx_sequence action, kr_action = action, kr_target_order_sequence = target,
        kr_requested_at = sx_scheduled_at action, kr_effective_at = sx_scheduled_at action, kr_outcome_code = outcome_code,
        kr_source_type = SIMULATED_OUTPUT\<rparr>"

section \<open>Settlements and disconnects\<close>

record scenario_settlement_result =
  sr_sequence :: int
  sr_target_order_sequence :: int
  sr_estimate :: settlement_estimate
  sr_source_type :: simulation_source_type

definition mk_scenario_settlement_result :: "scenario_settlement_result \<Rightarrow> scenario_settlement_result result" where
  "mk_scenario_settlement_result s =
     bindE (guards
       [(sr_sequence s < 0, ValueError F_sequence), (sr_target_order_sequence s < 0, ValueError F_sequence),
        (sr_source_type s \<noteq> SIMULATED_OUTPUT, config_error ''simulation_scenario_settlement_result_source_invalid'')]) (\<lambda>_. Inr s)"

fun settlement_status_value :: "settlement_status \<Rightarrow> string" where
  "settlement_status_value UNRESOLVED = ''unresolved''"
| "settlement_status_value PENDING_RESOLUTION = ''pending_resolution''"
| "settlement_status_value RESOLVED = ''resolved''"
| "settlement_status_value DISPUTED = ''disputed''"
| "settlement_status_value FINALIZED = ''finalized''"
| "settlement_status_value SETTLED = ''settled''"
| "settlement_status_value CORRECTED = ''corrected''"

definition settlement_estimate_payload :: "settlement_estimate \<Rightarrow> canon" where
  "settlement_estimate_payload e =
     CMap [(''is_winning_outcome'', CBool (sm_is_winning_outcome e)), (''outcome_id'', CStr (sm_outcome_id e)),
       (''payout_amount'', CDec (sm_payout_amount e)), (''payout_per_unit'', CDec (sm_payout_per_unit e)),
       (''quantity'', CDec (sm_quantity e)), (''status'', CStr (settlement_status_value (sm_status e))),
       (''winning_outcome_ids'', CList (map CStr (sm_winning_outcome_ids e)))]"

definition settlement_result_canon :: "scenario_settlement_result \<Rightarrow> canon" where
  "settlement_result_canon s =
     CMap [(''estimate'', settlement_estimate_payload (sr_estimate s)), runner_model, (''sequence'', CInt (sr_sequence s)),
       (''source_type'', CStr (source_value (sr_source_type s))), (''target_order_sequence'', CInt (sr_target_order_sequence s))]"

record scenario_disconnect_result =
  dk_sequence :: int
  dk_target_order_sequence :: int
  dk_disconnected_at :: instant
  dk_reconnected_at :: "instant option"
  dk_outcome_code :: string
  dk_source_type :: simulation_source_type

definition reconnects_before :: "instant option \<Rightarrow> instant \<Rightarrow> bool" where
  "reconnects_before reconnected_at t = (case reconnected_at of None \<Rightarrow> False | Some r \<Rightarrow> r \<le> t)"

definition mk_scenario_disconnect_result :: "scenario_disconnect_result \<Rightarrow> scenario_disconnect_result result" where
  "mk_scenario_disconnect_result d =
     bindE (guards
       [(dk_sequence d < 0, ValueError F_sequence), (dk_target_order_sequence d < 0, ValueError F_sequence),
        (reconnects_before (dk_reconnected_at d) (dk_disconnected_at d), config_error ''simulation_scenario_disconnect_time_invalid''),
        (dk_outcome_code d \<noteq> DISCONNECT_OPEN_ORDER, config_error ''simulation_scenario_disconnect_result_outcome_invalid''),
        (dk_source_type d \<noteq> SIMULATED_OUTPUT, config_error ''simulation_scenario_disconnect_result_source_invalid'')]) (\<lambda>_. Inr d)"

definition disconnect_result_canon :: "scenario_disconnect_result \<Rightarrow> canon" where
  "disconnect_result_canon d =
     CMap ([(''disconnected_at'', CTime (dk_disconnected_at d)), (''outcome_code'', CStr (dk_outcome_code d))] @
       (case dk_reconnected_at d of None \<Rightarrow> [] | Some r \<Rightarrow> [(''reconnected_at'', CTime r)]) @
       [runner_model, (''sequence'', CInt (dk_sequence d)), (''source_type'', CStr (source_value (dk_source_type d))),
        (''target_order_sequence'', CInt (dk_target_order_sequence d))])"

section \<open>Multi-leg imbalance\<close>

record scenario_leg_fill =
  lf_order_action_sequence :: int
  lf_order_result_sequence :: int
  lf_filled_quantity :: rat

definition mk_scenario_leg_fill :: "scenario_leg_fill \<Rightarrow> scenario_leg_fill result" where
  "mk_scenario_leg_fill l =
     bindE (guards
       [(lf_order_action_sequence l < 0, ValueError F_sequence), (lf_order_result_sequence l < 0, ValueError F_sequence),
        (lf_filled_quantity l < 0, config_error ''simulation_scenario_multi_leg_filled_quantity_invalid'')]) (\<lambda>_. Inr l)"

definition leg_fill_canon :: "scenario_leg_fill \<Rightarrow> canon" where
  "leg_fill_canon l =
     CMap [(''filled_quantity'', CDec (lf_filled_quantity l)), (''order_action_sequence'', CInt (lf_order_action_sequence l)),
       (''order_result_sequence'', CInt (lf_order_result_sequence l))]"

definition normalize_multi_leg_fills :: "scenario_leg_fill list \<Rightarrow> scenario_leg_fill list result" where
  "normalize_multi_leg_fills leg_fills =
     bindE (guards [(length leg_fills < 2, config_error ''simulation_scenario_multi_leg_leg_count_invalid'')]) (\<lambda>_.
       let sorted_fills = sort_key lf_order_action_sequence leg_fills in
       bindE (guards
         [(\<not> distinct (map lf_order_action_sequence sorted_fills), config_error ''simulation_scenario_multi_leg_action_sequence_duplicate''),
          (\<not> distinct (map lf_order_result_sequence sorted_fills), config_error ''simulation_scenario_multi_leg_result_sequence_duplicate'')])
         (\<lambda>_. Inr sorted_fills))"

record multi_leg_imbalance =
  ml_sequence :: int
  ml_target_filled_quantity :: rat
  ml_leg_fills :: "scenario_leg_fill list"
  ml_source_type :: simulation_source_type

definition mk_multi_leg_imbalance :: "multi_leg_imbalance \<Rightarrow> multi_leg_imbalance result" where
  "mk_multi_leg_imbalance m =
     bindE (guards
       [(ml_sequence m < 0, ValueError F_sequence),
        (ml_target_filled_quantity m \<le> 0, config_error ''simulation_scenario_multi_leg_target_quantity_invalid'')]) (\<lambda>_.
     bindE (normalize_multi_leg_fills (ml_leg_fills m)) (\<lambda>leg_fills.
     bindE (guards [(ml_source_type m \<noteq> SIMULATED_OUTPUT, config_error ''simulation_scenario_multi_leg_result_source_invalid'')]) (\<lambda>_.
     Inr (m\<lparr>ml_leg_fills := leg_fills\<rparr>))))"

definition imbalanced_quantity :: "multi_leg_imbalance \<Rightarrow> rat" where
  "imbalanced_quantity m =
     (let qs = map lf_filled_quantity (ml_leg_fills m) in dsub (Max (set qs)) (Min (set qs)))"

definition target_shortfall_quantity :: "multi_leg_imbalance \<Rightarrow> rat" where
  "target_shortfall_quantity m =
     dsum (map (\<lambda>l. dsub (ml_target_filled_quantity m) (lf_filled_quantity l))
       (filter (\<lambda>l. lf_filled_quantity l < ml_target_filled_quantity m) (ml_leg_fills m)))"

definition has_imbalance :: "multi_leg_imbalance \<Rightarrow> bool" where
  "has_imbalance m \<longleftrightarrow> 0 < imbalanced_quantity m"

definition multi_leg_canon :: "multi_leg_imbalance \<Rightarrow> canon" where
  "multi_leg_canon m =
     CMap [(''has_imbalance'', CBool (has_imbalance m)), (''imbalanced_quantity'', CDec (imbalanced_quantity m)),
       (''leg_fills'', CList (map leg_fill_canon (ml_leg_fills m))), (''outcome_code'', CStr ''simulation_multi_leg_imbalance''),
       runner_model, (''sequence'', CInt (ml_sequence m)), (''source_type'', CStr (source_value (ml_source_type m))),
       (''target_filled_quantity'', CDec (ml_target_filled_quantity m)),
       (''target_shortfall_quantity'', CDec (target_shortfall_quantity m))]"

section \<open>Order results\<close>

record scenario_order_result =
  so_sequence :: int
  so_action :: scheduled_order_action
  so_admission :: order_admission
  so_activation_book :: "order_book_snapshot option"
  so_fill_estimate :: "fill_estimate option"
  so_fee_estimates :: "fee_estimate list"
  so_slippage_estimates :: "slippage_estimate list"
  so_cancel_result :: "scenario_cancel_result option"
  so_settlement_result :: "scenario_settlement_result option"
  so_disconnect_result :: "scenario_disconnect_result option"
  so_source_type :: simulation_source_type

definition validate_settlement_result ::
  "scenario_settlement_result option \<Rightarrow> fill_estimate option \<Rightarrow> int \<Rightarrow> unit result" where
  "validate_settlement_result r fill n =
     (case r of None \<Rightarrow> Inr ()
      | Some s \<Rightarrow>
          (case fill of
             None \<Rightarrow> Inl (config_error ''simulation_scenario_settlement_without_fill_invalid'')
           | Some e \<Rightarrow> guards
               [(\<not> has_fill e, config_error ''simulation_scenario_settlement_without_fill_invalid''),
                (sr_target_order_sequence s \<noteq> n, config_error ''simulation_scenario_settlement_order_sequence_mismatch''),
                (sm_quantity (sr_estimate s) \<noteq> fe_filled_quantity e, config_error ''simulation_scenario_settlement_quantity_mismatch'')]))"

definition validate_disconnect_result :: "scenario_disconnect_result option \<Rightarrow> int \<Rightarrow> unit result" where
  "validate_disconnect_result r n =
     (case r of None \<Rightarrow> Inr ()
      | Some d \<Rightarrow> guards [(dk_target_order_sequence d \<noteq> n, config_error ''simulation_scenario_disconnect_order_sequence_mismatch'')])"

definition has_outputs :: "scenario_order_result \<Rightarrow> bool" where
  "has_outputs r \<longleftrightarrow> so_activation_book r \<noteq> None \<or> so_fill_estimate r \<noteq> None \<or> so_fee_estimates r \<noteq> [] \<or>
     so_slippage_estimates r \<noteq> [] \<or> so_settlement_result r \<noteq> None \<or> so_disconnect_result r \<noteq> None"

definition validate_order_outputs :: "scenario_order_result \<Rightarrow> unit result" where
  "validate_order_outputs r =
     (if \<not> rd_accepted (ad_rejection_decision (so_admission r)) then
        guards
          [(has_outputs r, config_error ''simulation_scenario_rejected_order_output_invalid''),
           (so_cancel_result r \<noteq> None, config_error ''simulation_scenario_rejected_order_cancel_invalid'')]
      else if pred_option before_activation (so_cancel_result r) \<and> so_cancel_result r \<noteq> None then
        guards [(has_outputs r, config_error ''simulation_scenario_cancelled_order_output_invalid'')]
      else
        (case (so_activation_book r, so_fill_estimate r) of
           (Some _, Some e) \<Rightarrow> guards
             [(length (so_fee_estimates r) \<noteq> length (fe_components e), config_error ''simulation_scenario_fee_component_count_mismatch''),
              (length (so_slippage_estimates r) \<noteq> length (fe_components e),
                 config_error ''simulation_scenario_slippage_component_count_mismatch'')]
         | _ \<Rightarrow> Inl (config_error ''simulation_scenario_accepted_order_output_missing'')))"

definition mk_scenario_order_result :: "scenario_order_result \<Rightarrow> scenario_order_result result" where
  "mk_scenario_order_result r =
     bindE (guards
       [(so_sequence r < 0, ValueError F_sequence),
        (is_cancel (sx_action (so_action r)), config_error ''simulation_scenario_order_result_action_invalid'')]) (\<lambda>_.
     bindE (case so_activation_book r of None \<Rightarrow> Inr () | Some b \<Rightarrow> validate_initial_book b) (\<lambda>_.
     bindE (validate_settlement_result (so_settlement_result r) (so_fill_estimate r) (so_sequence r)) (\<lambda>_.
     bindE (validate_disconnect_result (so_disconnect_result r) (so_sequence r)) (\<lambda>_.
     bindE (validate_order_outputs r) (\<lambda>_.
     bindE (guards [(so_source_type r \<noteq> SIMULATED_OUTPUT, config_error ''simulation_scenario_order_result_source_invalid'')]) (\<lambda>_.
     Inr r))))))"

fun market_status_value :: "market_status \<Rightarrow> string" where
  "market_status_value DISCOVERED = ''discovered''"
| "market_status_value OPEN = ''open''"
| "market_status_value HALTED = ''halted''"
| "market_status_value CLOSED = ''closed''"
| "market_status_value MS_PENDING_RESOLUTION = ''pending_resolution''"
| "market_status_value MS_RESOLVED = ''resolved''"
| "market_status_value MS_FINALIZED = ''finalized''"
| "market_status_value MS_SETTLED = ''settled''"
| "market_status_value MS_CANCELLED = ''cancelled''"
| "market_status_value MS_UNKNOWN = ''unknown''"

fun rejection_reason_value :: "rejection_reason \<Rightarrow> string" where
  "rejection_reason_value ORDER_ACCEPTED = ''simulation_order_accepted''"
| "rejection_reason_value INSUFFICIENT_BALANCE = ''simulation_insufficient_balance''"
| "rejection_reason_value INVALID_PRICE = ''simulation_invalid_price''"
| "rejection_reason_value INVALID_QUANTITY = ''simulation_invalid_quantity''"
| "rejection_reason_value MARKET_CLOSED = ''simulation_market_closed''"
| "rejection_reason_value POST_ONLY_WOULD_CROSS = ''simulation_post_only_would_cross''"

definition admission_canon :: "order_admission \<Rightarrow> canon" where
  "admission_canon a =
     CMap [(''accepted_at'', canon_of_time (ad_accepted_at a)), (''activates_at'', canon_of_time (ad_activates_at a)),
       (''admission_model'', CStr ''simulated_exchange_admission_v1''), (''available_balance'', canon_of_dec (ad_available_balance a)),
       (''intent'', intent_canon (ad_intent a)), (''market_status'', CStr (market_status_value (ad_market_status a))),
       (''rejection_decision'', CMap
         [(''accepted'', CBool (rd_accepted (ad_rejection_decision a))),
          (''reason_code'', CStr (rejection_reason_value (rd_reason_code (ad_rejection_decision a)))),
          (''reason_text'', CStr (rd_reason_text (ad_rejection_decision a)))]),
       (''required_balance'', canon_of_dec (ad_required_balance a)), (''source_type'', CStr (source_value (ad_source_type a))),
       (''submitted_at'', CTime (ad_submitted_at a))]"

definition fill_component_payload :: "fill_component \<Rightarrow> canon" where
  "fill_component_payload c =
     CMap [(''liquidity_role'', CStr (role_value (fc_liquidity_role c))), (''price'', CDec (fc_price c)), (''quantity'', CDec (fc_quantity c))]"

definition fill_estimate_payload :: "fill_estimate \<Rightarrow> canon" where
  "fill_estimate_payload e =
     CMap [(''average_fill_price'', canon_of_dec (fe_average_fill_price e)), (''components'', CList (map fill_component_payload (fe_components e))),
       (''filled_quantity'', CDec (fe_filled_quantity e)), (''limit_price'', CDec (fe_limit_price e)),
       (''liquidity_role'', CStr (role_value (fe_liquidity_role e))), (''order_quantity'', CDec (fe_order_quantity e)),
       (''reason_code'', CStr (fe_reason_code e)), (''remaining_quantity'', CDec (fe_remaining_quantity e)),
       (''side'', CStr (side_value (fe_side e)))]"

definition fee_estimate_payload :: "fee_estimate \<Rightarrow> canon" where
  "fee_estimate_payload e =
     CMap [(''currency'', CStr (fs_currency e)), (''exchange'', CStr (fs_exchange e)), (''fee_amount'', CDec (fs_fee_amount e)),
       (''liquidity_role'', CStr (role_value (fs_liquidity_role e))), (''net_fee_amount'', CDec (fs_net_fee_amount e)),
       (''notional'', CDec (fs_notional e)), (''rebate_amount'', CDec (fs_rebate_amount e))]"

definition slippage_estimate_payload :: "slippage_estimate \<Rightarrow> canon" where
  "slippage_estimate_payload e =
     CMap [(''adjusted_price'', CDec (se_adjusted_price e)), (''input_price'', CDec (se_input_price e)),
       (''liquidity_role'', CStr (role_value (se_liquidity_role e))), (''quantity'', CDec (se_quantity e)),
       (''side'', CStr (side_value (se_side e))), (''slippage_amount_per_unit'', CDec (se_slippage_amount_per_unit e)),
       (''slippage_bps'', CDec (se_slippage_bps e)), (''total_slippage'', CDec (se_total_slippage e))]"

definition optional :: "string \<Rightarrow> canon option \<Rightarrow> (string \<times> canon) list" where
  "optional key v = (case v of None \<Rightarrow> [] | Some c \<Rightarrow> [(key, c)])"

definition nonempty :: "canon list \<Rightarrow> canon option" where
  "nonempty cs = (if cs = [] then None else Some (CList cs))"

definition order_result_canon :: "hasher \<Rightarrow> scenario_order_result \<Rightarrow> canon" where
  "order_result_canon H r =
     CMap ([(''action'', order_action_canon (so_action r))] @
       optional ''activation_book_hash'' (map_option (\<lambda>b. CStr (H (snapshot_canon b))) (so_activation_book r)) @
       optional ''activation_book_sequence'' (map_option (\<lambda>b. canon_of_int (ob_sequence b)) (so_activation_book r)) @
       [(''admission'', admission_canon (so_admission r))] @
       optional ''cancel_result'' (map_option cancel_result_canon (so_cancel_result r)) @
       optional ''disconnect_result'' (map_option disconnect_result_canon (so_disconnect_result r)) @
       optional ''fee_estimates'' (nonempty (map fee_estimate_payload (so_fee_estimates r))) @
       optional ''fill_estimate'' (map_option fill_estimate_payload (so_fill_estimate r)) @
       [runner_model, (''sequence'', CInt (so_sequence r))] @
       optional ''settlement_result'' (map_option settlement_result_canon (so_settlement_result r)) @
       optional ''slippage_estimates'' (nonempty (map slippage_estimate_payload (so_slippage_estimates r))) @
       [(''source_type'', CStr (source_value (so_source_type r)))])"

definition normalize_order_results :: "scenario_order_result list \<Rightarrow> scenario_order_result list result" where
  "normalize_order_results results =
     (let sorted_results = sort_key so_sequence results in
      if \<not> distinct (map so_sequence sorted_results) then Inl (config_error ''simulation_scenario_order_result_sequence_duplicate'')
      else Inr sorted_results)"

section \<open>The parameters of the configuration\<close>

text \<open>The context of an error must be text; where it is not, making the error raises a \<^verbatim>\<open>ValueError\<close> of its own.\<close>

definition config_error_about :: "string \<Rightarrow> string \<Rightarrow> py_error" where
  "config_error_about reason_code about = (if blank_or_padded about then ValueError F_text else config_error reason_code)"

definition validate_runner_configuration :: "simulation_configuration \<Rightarrow> unit result" where
  "validate_runner_configuration c =
     guards
       [(sc_fill_model c \<notin> {''touch_fill_v1'', ''trade_through_v1''},
           config_error_about ''simulation_scenario_runner_fill_model_unsupported'' (sc_fill_model c)),
        (sc_latency_model c \<noteq> ''fixed_latency_v1'',
           config_error_about ''simulation_scenario_runner_latency_model_unsupported'' (sc_latency_model c)),
        (sc_rejection_model c \<noteq> ''bounded_rejection_v1'',
           config_error_about ''simulation_scenario_runner_rejection_model_unsupported'' (sc_rejection_model c)),
        (sc_fee_model c \<noteq> ''fee_table_v1'',
           config_error_about ''simulation_scenario_runner_fee_model_unsupported'' (sc_fee_model c)),
        (sc_settlement_model c \<notin> {''binary_settlement_v1'', ''none_v1''},
           config_error_about ''simulation_scenario_runner_settlement_model_unsupported'' (sc_settlement_model c)),
        (sc_slippage_model c \<notin> {''bps_slippage_v1'', ''none_v1''},
           config_error_about ''simulation_scenario_runner_slippage_model_unsupported'' (sc_slippage_model c))]"

text \<open>\<^verbatim>\<open>except (TypeError, ValueError)\<close>: the errors of parsing become one configuration error.\<close>

definition reraise_as :: "py_error \<Rightarrow> 'a result \<Rightarrow> 'a result" where
  "reraise_as e r = (case r of Inl e' \<Rightarrow> Inl (if value_or_type_error e' then e else e') | Inr x \<Rightarrow> Inr x)"

definition parameter :: "simulation_configuration \<Rightarrow> string \<Rightarrow> string option" where
  "parameter c key = map_of (sc_parameters c) key"

definition valid_identifier :: "string \<Rightarrow> string \<Rightarrow> bool" where
  "valid_identifier prefix s \<longleftrightarrow>
     s \<noteq> [] \<and> length s \<le> 128 \<and> take (length prefix) s = prefix \<and>
     (let start = takeWhile (\<lambda>c. c \<noteq> CHR ''_'') s; rest = drop (length start + 1) s in
      length start < length s \<and> start \<noteq> [] \<and> is_lower (hd start) \<and> list_all (\<lambda>c. is_lower c \<or> is_digit c) start \<and>
      rest \<noteq> [] \<and> (is_lower (hd rest) \<or> is_digit (hd rest)) \<and>
      list_all (\<lambda>c. is_lower c \<or> is_digit c \<or> c = CHR ''_'' \<or> c = CHR ''-'') rest)"

definition winning_outcome_ids_from_configuration :: "simulation_configuration \<Rightarrow> ident list result" where
  "winning_outcome_ids_from_configuration c =
     (case parameter c ''settlement_winning_outcome_ids'' of
        None \<Rightarrow> Inr []
      | Some raw_winners \<Rightarrow>
          let winners = segments CHR '','' raw_winners in
          if list_ex blank_or_padded winners \<or> \<not> list_all (valid_identifier ''out_'') winners \<or> \<not> distinct winners \<or>
             sc_settlement_model c = ''none_v1''
          then Inl (config_error ''simulation_scenario_runner_settlement_winners_invalid'')
          else Inr winners)"

definition available_balance_from_configuration :: "simulation_configuration \<Rightarrow> rat option result" where
  "available_balance_from_configuration c =
     (case parameter c ''balance.available'' of
        None \<Rightarrow> Inr None
      | Some configured_balance \<Rightarrow>
          let invalid = config_error ''simulation_scenario_runner_balance_configuration_invalid'' in
          bindE (reraise_as invalid (parse_decimal_text F_amount configured_balance)) (\<lambda>d.
          if dec_value d < 0 then Inl invalid else Inr (Some (dec_value d))))"

text \<open>\<^verbatim>\<open>int(token)\<close>: an optional sign, then digits with single underscores between them.\<close>

definition read_int :: "string \<Rightarrow> int option" where
  "read_int s =
     (case read_sign s of (sg, body) \<Rightarrow>
        if list_all (\<lambda>part. part \<noteq> [] \<and> list_all is_digit part) (segments CHR ''_'' body)
        then Some (sg * int (read_digits (filter (\<lambda>c. c \<noteq> CHR ''_'') body))) else None)"

definition multi_leg_order_action_sequences_from_configuration :: "simulation_configuration \<Rightarrow> int list option result" where
  "multi_leg_order_action_sequences_from_configuration c =
     (case parameter c ''multi_leg.order_action_sequences'' of
        None \<Rightarrow> Inr None
      | Some raw_sequences \<Rightarrow>
          let invalid = config_error ''simulation_scenario_runner_multi_leg_configuration_invalid'';
              tokens = segments CHR '','' raw_sequences
          in
          bindE (guards [(length tokens < 2, invalid), (list_ex blank_or_padded tokens, invalid)]) (\<lambda>_.
          bindE (mapE (\<lambda>token. case read_int token of None \<Rightarrow> Inl invalid | Some n \<Rightarrow> reraise_as invalid (validate_item_sequence n)) tokens) (\<lambda>sequences.
          if \<not> distinct sequences then Inl invalid else Inr (Some sequences))))"

definition multi_leg_target_filled_quantity_from_configuration :: "simulation_configuration \<Rightarrow> rat option result" where
  "multi_leg_target_filled_quantity_from_configuration c =
     (case parameter c ''multi_leg.target_filled_quantity'' of
        None \<Rightarrow> Inr None
      | Some raw_target \<Rightarrow>
          let invalid = config_error ''simulation_scenario_runner_multi_leg_configuration_invalid'' in
          bindE (reraise_as invalid (parse_decimal_text F_quantity raw_target)) (\<lambda>d.
          if dec_value d \<le> 0 then Inl invalid else Inr (Some (dec_value d))))"

text \<open>
  \<open>read_time\<close> is \<^verbatim>\<open>parse_utc_datetime\<close> on text: the instant of a text in ISO 8601 with a time zone. It raises a
  \<^verbatim>\<open>ValueError\<close> on other text, and an \<^verbatim>\<open>OverflowError\<close> on a time that leaves the calendar in UTC.
\<close>

definition disconnect_window_from_configuration ::
  "(string \<Rightarrow> instant result) \<Rightarrow> simulation_configuration \<Rightarrow> disconnect_window result" where
  "disconnect_window_from_configuration read_time c =
     (let invalid = config_error ''simulation_scenario_runner_disconnect_configuration_invalid'';
          parse = (\<lambda>s. reraise_as invalid (read_time s))
      in case (parameter c ''connectivity.disconnected_at'', parameter c ''connectivity.reconnected_at'') of
        (None, None) \<Rightarrow> Inr None
      | (None, Some _) \<Rightarrow> Inl invalid
      | (Some d, r) \<Rightarrow>
          bindE (parse d) (\<lambda>disconnected_at.
          bindE (case r of None \<Rightarrow> Inr None | Some s \<Rightarrow> bindE (parse s) (\<lambda>t. Inr (Some t))) (\<lambda>reconnected_at.
          if reconnects_before reconnected_at disconnected_at then Inl invalid
          else Inr (Some (disconnected_at, reconnected_at)))))"

definition fee_parameter_decimal :: "simulation_configuration \<Rightarrow> string \<Rightarrow> decimal_tuple result" where
  "fee_parameter_decimal c key =
     parse_decimal_text F_fee (case parameter c key of None \<Rightarrow> ''0'' | Some s \<Rightarrow> s)"

definition fee_key :: "liquidity_role \<Rightarrow> string \<Rightarrow> string" where
  "fee_key role field = ''fee.'' @ role_value role @ ''.'' @ field"

definition fee_rule_from_parameters :: "string \<Rightarrow> liquidity_role \<Rightarrow> string \<Rightarrow> simulation_configuration \<Rightarrow> fee_rule result" where
  "fee_rule_from_parameters exchange role cur c =
     bindE (fee_parameter_decimal c (fee_key role ''rate_bps'')) (\<lambda>fee_rate_bps.
     bindE (fee_parameter_decimal c (fee_key role ''fixed'')) (\<lambda>fixed_fee.
     bindE (fee_parameter_decimal c (fee_key role ''rebate_rate_bps'')) (\<lambda>rebate_rate_bps.
     bindE (fee_parameter_decimal c (fee_key role ''fixed_rebate'')) (\<lambda>fixed_rebate.
     mk_fee_rule \<lparr>fr_exchange = exchange, fr_liquidity_role = role, fr_currency = cur, fr_fee_rate_bps = fee_rate_bps,
       fr_fixed_fee = fixed_fee, fr_rebate_rate_bps = rebate_rate_bps, fr_fixed_rebate = fixed_rebate\<rparr>))))"

definition fee_table_from_configuration :: "simulation_configuration \<Rightarrow> string \<Rightarrow> fee_rule list result" where
  "fee_table_from_configuration c exchange =
     (let cur = (case parameter c ''fee.currency'' of None \<Rightarrow> ''USD'' | Some s \<Rightarrow> s) in
      reraise_as (config_error ''simulation_scenario_runner_fee_configuration_invalid'')
        (bindE (mapE (\<lambda>role. fee_rule_from_parameters exchange role cur c) [TAKER, MAKER, UNKNOWN_ROLE]) mk_fee_table))"

definition required_balance_for_intent :: "order_intent \<Rightarrow> rat option" where
  "required_balance_for_intent i =
     (case oi_limit_price i of None \<Rightarrow> None
      | Some p \<Rightarrow> if p < 0 \<or> 1 < p then None
          else Some (dmul (if oi_side i = BUY then p else dsub 1 p) (oi_quantity i)))"

definition post_only_would_cross :: "order_intent \<Rightarrow> order_book_snapshot \<Rightarrow> bool result" where
  "post_only_would_cross i snapshot =
     (case oi_limit_price i of None \<Rightarrow> Inr False
      | Some limit \<Rightarrow>
          if \<not> oi_post_only i then Inr False
          else if oi_side i = BUY
          then bindE (best_ask snapshot) (\<lambda>ask. Inr (case ask of None \<Rightarrow> False | Some l \<Rightarrow> lv_price l \<le> limit))
          else bindE (best_bid snapshot) (\<lambda>bid. Inr (case bid of None \<Rightarrow> False | Some l \<Rightarrow> limit \<le> lv_price l)))"

definition post_only_rejection_admission :: "order_admission \<Rightarrow> order_admission result" where
  "post_only_rejection_admission a =
     mk_order_admission
       \<lparr>ad_intent = ad_intent a, ad_market_status = ad_market_status a,
        ad_rejection_decision = \<lparr>rd_accepted = False, rd_reason_code = POST_ONLY_WOULD_CROSS,
          rd_reason_text = ''post-only order would cross at activation''\<rparr>,
        ad_submitted_at = ad_submitted_at a, ad_accepted_at = None, ad_activates_at = None,
        ad_required_balance = ad_required_balance a, ad_available_balance = ad_available_balance a,
        ad_source_type = SIMULATED_OUTPUT\<rparr>"

end
