(* ===== verification/Scenario_Runner.thy ===== *)
theory Scenario_Runner
  imports Scenario_Results
begin

text \<open>
  The last part of \<open>src/pmrp/simulation/scenarios.py\<close>: \<^verbatim>\<open>DeterministicScenarioRunner\<close>, which runs the order intents of a
  scenario one by one against the projected books and trades, and the artifacts and metrics of the run.

  The models a runner is composed of are protocols: fields of the record \<open>runner\<close>, functions over the values of a fill. The
  models that the runner builds itself from the configuration are those of \<open>Exchange\<close>, \<open>Fill_Models\<close>,
  \<open>Fee_Models\<close>, \<open>Slippage_Models\<close> and \<open>Settlement_Models\<close>. Those of the last three look at the digits
  and the exponent of a Decimal; they are given the values of a fill in their shortest form (\<open>shortest_decimal\<close>), so that a
  quantity with more than eighteen fractional digits is rejected, as in the code, while trailing zeros do not count.
\<close>

section \<open>The models\<close>

definition shortest_decimal :: "rat \<Rightarrow> decimal_tuple" where
  "shortest_decimal x =
     (let s = (case find (\<lambda>s. of_int \<lfloor>x * 10 ^ s\<rfloor> = x * 10 ^ s) [0..<64] of Some s \<Rightarrow> s | None \<Rightarrow> 64) in
      \<lparr>dt_coefficient = \<lfloor>x * 10 ^ s\<rfloor>, dt_exponent = - int s\<rparr>)"

type_synonym admission_model = "order_intent \<Rightarrow> market_status \<Rightarrow> instant \<Rightarrow> rat option \<Rightarrow> rat option \<Rightarrow> order_admission result"
type_synonym book_fill_model = "order_book_snapshot \<Rightarrow> side \<Rightarrow> rat \<Rightarrow> rat \<Rightarrow> fill_estimate result"
type_synonym fill_fee_model = "string \<Rightarrow> rat \<Rightarrow> rat \<Rightarrow> liquidity_role \<Rightarrow> fee_estimate result"
type_synonym fill_slippage_model = "side \<Rightarrow> rat \<Rightarrow> rat \<Rightarrow> liquidity_role \<Rightarrow> slippage_estimate result"

text \<open>A settlement model, and whether it is a \<^verbatim>\<open>NoSettlementModel\<close>.\<close>

type_synonym fill_settlement_model = "bool \<times> (ident \<Rightarrow> rat \<Rightarrow> ident list \<Rightarrow> settlement_estimate result)"

record runner =
  rm_admit :: admission_model
  rm_fill :: book_fill_model
  rm_fee :: "fill_fee_model option"
  rm_settlement :: "fill_settlement_model option"
  rm_slippage :: "fill_slippage_model option"
  rm_market_status :: market_status

definition runner_from_configuration :: "simulation_configuration \<Rightarrow> market_status \<Rightarrow> runner result" where
  "runner_from_configuration c status =
     bindE (validate_runner_configuration c) (\<lambda>_.
     bindE (mk_bounded_rejection_model default_rejection_model) (\<lambda>rejection.
     bindE (fixed_latency_from_configuration c) (\<lambda>latency.
     Inr \<lparr>rm_admit = admit_order (bounded_evaluate rejection) (activation_time latency),
          rm_fill = (if sc_fill_model c = ''touch_fill_v1'' then touch_fill else trade_through_fill),
          rm_fee = None, rm_settlement = None, rm_slippage = None, rm_market_status = status\<rparr>)))"

definition table_fee_model :: "fee_rule list \<Rightarrow> fill_fee_model" where
  "table_fee_model rules exchange price quantity role =
     fee_estimate rules exchange (shortest_decimal price) (shortest_decimal quantity) role"

definition fee_model_for_scenario :: "simulation_scenario \<Rightarrow> fill_fee_model option \<Rightarrow> fill_fee_model result" where
  "fee_model_for_scenario s fees =
     (case fees of Some m \<Rightarrow> Inr m
      | None \<Rightarrow> bindE (fee_table_from_configuration (sn_configuration s) (ob_exchange (sn_initial_book s))) (\<lambda>rules.
          Inr (table_fee_model rules)))"

definition slippage_model_for_scenario :: "simulation_scenario \<Rightarrow> fill_slippage_model option \<Rightarrow> fill_slippage_model result" where
  "slippage_model_for_scenario s slippage =
     (case slippage of Some m \<Rightarrow> Inr m
      | None \<Rightarrow>
          if sc_slippage_model (sn_configuration s) = ''none_v1''
          then bindE (no_slippage_from_configuration (sn_configuration s)) (\<lambda>_.
            Inr (\<lambda>sd p q role. no_slippage_estimate sd (shortest_decimal p) (shortest_decimal q) role))
          else bindE (bps_slippage_from_configuration (sn_configuration s)) (\<lambda>bps.
            Inr (\<lambda>sd p q role. bps_slippage_estimate bps sd (shortest_decimal p) (shortest_decimal q) role)))"

definition settlement_model_for_scenario :: "simulation_scenario \<Rightarrow> fill_settlement_model option \<Rightarrow> fill_settlement_model result" where
  "settlement_model_for_scenario s settling =
     (case settling of Some m \<Rightarrow> Inr m
      | None \<Rightarrow>
          reraise_as (config_error ''simulation_scenario_runner_settlement_configuration_invalid'')
            (if sc_settlement_model (sn_configuration s) = ''none_v1''
             then bindE (no_settlement_from_configuration (sn_configuration s)) (\<lambda>_.
               Inr (True, \<lambda>outcome q winners. no_settlement_estimate outcome (shortest_decimal q) winners))
             else bindE (binary_settlement_from_configuration (sn_configuration s)) (\<lambda>payout.
               Inr (False, \<lambda>outcome q winners. binary_settlement_estimate payout outcome (shortest_decimal q) winners))))"

section \<open>Matching cancels\<close>

definition order_intent_actions :: "scheduled_order_action list \<Rightarrow> scheduled_order_action list" where
  "order_intent_actions actions = filter (\<lambda>a. \<not> is_cancel (sx_action a)) actions"

definition cancel_request_actions :: "scheduled_order_action list \<Rightarrow> scheduled_order_action list" where
  "cancel_request_actions actions = filter (\<lambda>a. is_cancel (sx_action a)) actions"

definition cancel_matches_order_intent ::
  "scheduled_order_action \<Rightarrow> scheduled_order_action \<Rightarrow> string \<Rightarrow> int list \<Rightarrow> bool" where
  "cancel_matches_order_intent cancel_action action exchange used_cancel_sequences =
     (if sx_sequence cancel_action \<in> set used_cancel_sequences then False
      else case (sx_action cancel_action, sx_action action) of
        (Cancel c, Intent i) \<Rightarrow>
          sx_scheduled_at action \<le> sx_scheduled_at cancel_action \<and> cr_exchange c = exchange \<and> cr_correlation_id c = oi_correlation_id i
      | _ \<Rightarrow> False)"

definition matching_cancel_action ::
  "simulation_scenario \<Rightarrow> scheduled_order_action \<Rightarrow> int list \<Rightarrow> scheduled_order_action option" where
  "matching_cancel_action s action used_cancel_sequences =
     (let candidates = filter (\<lambda>c. cancel_matches_order_intent c action (ob_exchange (sn_initial_book s)) used_cancel_sequences)
            (cancel_request_actions (sn_order_actions s))
      in if candidates = [] then None
         else Some (arg_min_list (\<lambda>c. (sx_scheduled_at c, sx_sequence c)) candidates))"

definition validate_no_unmatched_cancel_actions :: "scheduled_order_action list \<Rightarrow> int list \<Rightarrow> unit result" where
  "validate_no_unmatched_cancel_actions actions used_cancel_sequences =
     guards [(filter (\<lambda>a. sx_sequence a \<notin> set used_cancel_sequences) (cancel_request_actions actions) \<noteq> [],
       config_error ''simulation_scenario_cancel_unmatched'')]"

section \<open>One order\<close>

definition estimate_fees :: "fill_fee_model \<Rightarrow> string \<Rightarrow> fill_estimate \<Rightarrow> fee_estimate list result" where
  "estimate_fees fees exchange e =
     mapE (\<lambda>c. fees exchange (fc_price c) (fc_quantity c) (fc_liquidity_role c)) (fe_components e)"

definition estimate_slippage :: "fill_slippage_model \<Rightarrow> fill_estimate \<Rightarrow> slippage_estimate list result" where
  "estimate_slippage slippage e =
     mapE (\<lambda>c. slippage (fe_side e) (fc_price c) (fc_quantity c) (fc_liquidity_role c)) (fe_components e)"

definition estimate_settlement ::
  "fill_settlement_model \<Rightarrow> fill_estimate \<Rightarrow> order_intent \<Rightarrow> int \<Rightarrow> ident list \<Rightarrow> scenario_settlement_result option result" where
  "estimate_settlement settling e i n winners =
     (if \<not> has_fill e then Inr None
      else if winners = [] \<and> \<not> fst settling then Inr None
      else bindE (snd settling (oi_outcome_id i) (fe_filled_quantity e) winners) (\<lambda>estimate.
        bindE (mk_scenario_settlement_result
          \<lparr>sr_sequence = n, sr_target_order_sequence = n, sr_estimate = estimate, sr_source_type = SIMULATED_OUTPUT\<rparr>)
        (\<lambda>r. Inr (Some r))))"

definition disconnect_result_for_order ::
  "hasher \<Rightarrow> simulation_scenario \<Rightarrow> order_intent \<Rightarrow> int \<Rightarrow> instant \<Rightarrow> scenario_cancel_result option \<Rightarrow> disconnect_window \<Rightarrow>
     fill_estimate \<Rightarrow> scenario_disconnect_result option result" where
  "disconnect_result_for_order H s i n activation_at cancel window e =
     (case window of None \<Rightarrow> Inr None
      | Some (disconnected_at, reconnected_at) \<Rightarrow>
          if disconnected_at \<le> activation_at then Inr None
          else if (case cancel of None \<Rightarrow> False | Some k \<Rightarrow> kr_effective_at k \<le> disconnected_at) then Inr None
          else
            let filled = (if fe_liquidity_role e = TAKER then fe_filled_quantity e else 0) in
            if fe_order_quantity e \<le> filled then Inr None
            else
              let filled = dadd filled
                (pre_disconnect_resting_fill_quantity H s i activation_at disconnected_at (dsub (fe_order_quantity e) filled)) in
              if fe_order_quantity e \<le> filled then Inr None
              else bindE (mk_scenario_disconnect_result
                \<lparr>dk_sequence = n, dk_target_order_sequence = n, dk_disconnected_at = disconnected_at,
                 dk_reconnected_at = reconnected_at, dk_outcome_code = DISCONNECT_OPEN_ORDER, dk_source_type = SIMULATED_OUTPUT\<rparr>)
                (\<lambda>d. Inr (Some d)))"

text \<open>What a run reads from its configuration before the first order.\<close>

record run_setup =
  ru_admit :: admission_model
  ru_fill :: book_fill_model
  ru_fee :: fill_fee_model
  ru_slippage :: fill_slippage_model
  ru_settlement :: fill_settlement_model
  ru_market_status :: market_status
  ru_winners :: "ident list"
  ru_available_balance :: "rat option"
  ru_window :: disconnect_window

definition no_outputs :: "int \<Rightarrow> scheduled_order_action \<Rightarrow> order_admission \<Rightarrow> scenario_order_result" where
  "no_outputs n action adm =
     \<lparr>so_sequence = n, so_action = action, so_admission = adm, so_activation_book = None, so_fill_estimate = None,
      so_fee_estimates = [], so_slippage_estimates = [], so_cancel_result = None, so_settlement_result = None,
      so_disconnect_result = None, so_source_type = SIMULATED_OUTPUT\<rparr>"

definition cancelled_before :: "scheduled_order_action option \<Rightarrow> instant \<Rightarrow> bool" where
  "cancelled_before cancel_action t = (case cancel_action of None \<Rightarrow> False | Some c \<Rightarrow> sx_scheduled_at c < t)"

text \<open>The order rests or is filled at its activation; then come fees, slippage, settlement and the connectivity result.\<close>

definition execute_order ::
  "hasher \<Rightarrow> simulation_scenario \<Rightarrow> run_setup \<Rightarrow> scheduled_order_action \<Rightarrow> order_intent \<Rightarrow> rat \<Rightarrow> int \<Rightarrow> scheduled_order_action option \<Rightarrow>
     order_admission \<Rightarrow> instant \<Rightarrow> order_book_snapshot \<Rightarrow> scenario_order_result result" where
  "execute_order H s u action i limit n cancel_action adm activates_at activation_book =
     bindE (ru_fill u activation_book (oi_side i) limit (oi_quantity i)) (\<lambda>book_estimate.
     let e = fill_resting_order_from_trade_events H s i activates_at cancel_action (ru_window u) book_estimate in
     bindE (estimate_fees (ru_fee u) (ob_exchange (sn_initial_book s)) e) (\<lambda>fee_estimates.
     bindE (estimate_slippage (ru_slippage u) e) (\<lambda>slippage_estimates.
     bindE (case cancel_action of None \<Rightarrow> Inr None
            | Some c \<Rightarrow> bindE (cancel_result c n (if has_fill e then CANCEL_FILL_RACE_LOST else CANCEL_AFTER_ACTIVATION_NO_FILL)) (\<lambda>k. Inr (Some k)))
       (\<lambda>cancel.
     bindE (estimate_settlement (ru_settlement u) e i n (ru_winners u)) (\<lambda>settlement.
     bindE (disconnect_result_for_order H s i n activates_at cancel (ru_window u) e) (\<lambda>disconnect.
     mk_scenario_order_result
       \<lparr>so_sequence = n, so_action = action, so_admission = adm, so_activation_book = Some activation_book,
        so_fill_estimate = Some e, so_fee_estimates = fee_estimates, so_slippage_estimates = slippage_estimates,
        so_cancel_result = cancel, so_settlement_result = settlement, so_disconnect_result = disconnect,
        so_source_type = SIMULATED_OUTPUT\<rparr>))))))"

definition run_order_action ::
  "hasher \<Rightarrow> simulation_scenario \<Rightarrow> run_setup \<Rightarrow> scheduled_order_action \<Rightarrow> int \<Rightarrow> scheduled_order_action option \<Rightarrow>
     scenario_order_result result" where
  "run_order_action H s u action n cancel_action =
     (case sx_action action of
        Cancel _ \<Rightarrow> Inl (config_error ''simulation_scenario_order_action_invalid'')
      | Intent i \<Rightarrow>
          bindE (ru_admit u i (ru_market_status u) (sx_scheduled_at action)
              (if ru_available_balance u \<noteq> None then required_balance_for_intent i else None) (ru_available_balance u)) (\<lambda>adm.
          if \<not> rd_accepted (ad_rejection_decision adm) then mk_scenario_order_result (no_outputs n action adm)
          else case ad_activates_at adm of
            None \<Rightarrow> Inl (config_error ''simulation_scenario_activation_missing'')
          | Some activates_at \<Rightarrow>
              if cancelled_before cancel_action activates_at then
                bindE (cancel_result (the cancel_action) n CANCEL_BEFORE_ACTIVATION) (\<lambda>k.
                mk_scenario_order_result ((no_outputs n action adm)\<lparr>so_cancel_result := Some k\<rparr>))
              else case oi_limit_price i of
                None \<Rightarrow> Inl (config_error ''simulation_scenario_fill_price_missing'')
              | Some limit \<Rightarrow>
                  bindE (project_book_until H s (Some activates_at)) (\<lambda>activation_book.
                  bindE (post_only_would_cross i activation_book) (\<lambda>crosses.
                  if crosses then
                    bindE (post_only_rejection_admission adm) (\<lambda>rejected. mk_scenario_order_result (no_outputs n action rejected))
                  else execute_order H s u action i limit n cancel_action adm activates_at activation_book))))"

fun run_order_actions ::
  "hasher \<Rightarrow> simulation_scenario \<Rightarrow> run_setup \<Rightarrow> int \<Rightarrow> int list \<Rightarrow> scheduled_order_action list \<Rightarrow>
     (scenario_order_result list \<times> int list) result" where
  "run_order_actions H s u n used_cancel_sequences [] = Inr ([], used_cancel_sequences)"
| "run_order_actions H s u n used_cancel_sequences (action # actions) =
     bindE (run_order_action H s u action n (matching_cancel_action s action used_cancel_sequences)) (\<lambda>r.
     bindE (run_order_actions H s u (n + 1)
        (case so_cancel_result r of None \<Rightarrow> used_cancel_sequences | Some k \<Rightarrow> kr_sequence k # used_cancel_sequences) actions)
       (\<lambda>(rs, used). Inr (r # rs, used)))"

section \<open>Artifacts\<close>

definition output_artifact :: "int \<Rightarrow> string \<Rightarrow> string \<Rightarrow> string \<Rightarrow> simulation_artifact" where
  "output_artifact n type artifact_id hash =
     \<lparr>at_sequence = n, at_artifact_type = type, at_artifact_id = artifact_id, at_artifact_hash = hash, at_source_type = SIMULATED_OUTPUT\<rparr>"

definition when_some :: "'a option \<Rightarrow> ('a \<Rightarrow> 'b) \<Rightarrow> 'b list" where
  "when_some v f = (case v of None \<Rightarrow> [] | Some x \<Rightarrow> [f x])"

text \<open>Seven sequences are set aside for every order, from ten on.\<close>

definition order_artifacts :: "hasher \<Rightarrow> string \<Rightarrow> int \<Rightarrow> scenario_order_result \<Rightarrow> simulation_artifact list" where
  "order_artifacts H scenario_id base r =
     (let artifact_id = (\<lambda>part. scenario_id @ part @ int_text (so_sequence r)) in
      [output_artifact base ''simulation_order_result'' (artifact_id '':order:'') (H (order_result_canon H r))] @
      when_some (so_fill_estimate r) (\<lambda>e.
        output_artifact (base + 1) ''simulation_fill_estimate'' (artifact_id '':fill:'') (H (fill_estimate_payload e))) @
      when_some (nonempty (map fee_estimate_payload (so_fee_estimates r))) (\<lambda>c.
        output_artifact (base + 2) ''simulation_fee_estimates'' (artifact_id '':fees:'') (H c)) @
      when_some (nonempty (map slippage_estimate_payload (so_slippage_estimates r))) (\<lambda>c.
        output_artifact (base + 3) ''simulation_slippage_estimates'' (artifact_id '':slippage:'') (H c)) @
      when_some (so_cancel_result r) (\<lambda>k.
        output_artifact (base + 4) ''simulation_cancel_result'' (artifact_id '':cancel:'') (H (cancel_result_canon k))) @
      when_some (so_settlement_result r) (\<lambda>x.
        output_artifact (base + 5) ''simulation_settlement_result'' (artifact_id '':settlement:'') (H (settlement_result_canon x))) @
      when_some (so_disconnect_result r) (\<lambda>d.
        output_artifact (base + 6) ''simulation_disconnect_result'' (artifact_id '':disconnect:'') (H (disconnect_result_canon d))))"

fun orders_artifacts :: "hasher \<Rightarrow> string \<Rightarrow> int \<Rightarrow> scenario_order_result list \<Rightarrow> simulation_artifact list" where
  "orders_artifacts H scenario_id base [] = []"
| "orders_artifacts H scenario_id base (r # rs) = order_artifacts H scenario_id base r @ orders_artifacts H scenario_id (base + 7) rs"

definition scenario_run_artifacts ::
  "hasher \<Rightarrow> simulation_scenario \<Rightarrow> order_book_snapshot \<Rightarrow> scenario_order_result list \<Rightarrow> multi_leg_imbalance option \<Rightarrow>
     simulation_artifact list result" where
  "scenario_run_artifacts H s final_book results ml =
     bindE (scenario_result_artifact H s 0) (\<lambda>first.
     bindE (mapE mk_simulation_artifact
       ([output_artifact 1 ''simulation_final_book'' (sn_scenario_id s @ '':final_book'') (H (snapshot_canon final_book))] @
        orders_artifacts H (sn_scenario_id s) 10 results @
        when_some ml (\<lambda>m. output_artifact (10 + int (length results) * 7) ''simulation_multi_leg_imbalance_result''
          (sn_scenario_id s @ '':multi_leg_imbalance'') (H (multi_leg_canon m))))) (\<lambda>artifacts.
     Inr (first # artifacts)))"

section \<open>Metrics\<close>

definition fills :: "scenario_order_result list \<Rightarrow> fill_estimate list" where
  "fills results = concat (map (\<lambda>r. when_some (so_fill_estimate r) (\<lambda>e. e)) results)"

definition fees_of :: "scenario_order_result list \<Rightarrow> fee_estimate list" where
  "fees_of results = concat (map so_fee_estimates results)"

definition settled :: "scenario_order_result list \<Rightarrow> settlement_estimate list" where
  "settled results = concat (map (\<lambda>r. when_some (so_settlement_result r) sr_estimate) results)"

definition fee_metric_currency :: "simulation_scenario \<Rightarrow> scenario_order_result list \<Rightarrow> string result" where
  "fee_metric_currency s results =
     (case fees_of results of
        e # _ \<Rightarrow> Inr (fs_currency e)
      | [] \<Rightarrow> bindE (fee_table_from_configuration (sn_configuration s) (ob_exchange (sn_initial_book s))) (\<lambda>rules.
          Inr (fr_currency (rules ! 0))))"

definition metric_rows ::
  "simulation_scenario \<Rightarrow> scenario_order_result list \<Rightarrow> multi_leg_imbalance option \<Rightarrow> disconnect_window \<Rightarrow> nat \<Rightarrow> string \<Rightarrow>
     (string \<times> rat \<times> string) list" where
  "metric_rows s results ml window duplicates fee_currency =
     (let count = (\<lambda>P. length (filter P results)) in
         [(''accepted_order_count'', of_nat (count (\<lambda>r. rd_accepted (ad_rejection_decision (so_admission r)))), ''count''),
          (''filled_order_count'', of_nat (count (\<lambda>r. so_fill_estimate r \<noteq> None \<and> pred_option has_fill (so_fill_estimate r))), ''count''),
          (''cancel_action_count'', of_nat (count (\<lambda>r. so_cancel_result r \<noteq> None)), ''count''),
          (''cancel_fill_race_count'', of_nat (count (\<lambda>r. map_option kr_outcome_code (so_cancel_result r) = Some CANCEL_FILL_RACE_LOST)), ''count''),
          (''canceled_before_activation_count'', of_nat (count (\<lambda>r. map_option kr_outcome_code (so_cancel_result r) = Some CANCEL_BEFORE_ACTIVATION)), ''count''),
          (''disconnect_window_count'', (if window = None then 0 else 1), ''count''),
          (''filled_quantity'', dsum (map fe_filled_quantity (fills results)), ''contracts''),
          (''open_order_disconnect_count'', of_nat (count (\<lambda>r. so_disconnect_result r \<noteq> None)), ''count''),
          (''duplicate_market_event_count'', of_nat duplicates, ''count''),
          (''projected_market_event_count'', of_nat (length (sn_market_events s)) - of_nat duplicates, ''count''),
          (''settled_payout_amount'', dsum (map sm_payout_amount (settled results)), ''payout_units''),
          (''settled_winning_quantity'', dsum (map sm_quantity (filter sm_is_winning_outcome (settled results))), ''contracts''),
          (''settlement_estimate_count'', of_nat (length (settled results)), ''count''),
          (''slippage_estimate_count'', of_nat (length (concat (map so_slippage_estimates results))), ''count''),
          (''total_fee_amount'', dsum (map fs_fee_amount (fees_of results)), fee_currency),
          (''total_filled_notional'', dsum (map fs_notional (fees_of results)), fee_currency),
          (''total_net_fee_amount'', dsum (map fs_net_fee_amount (fees_of results)), fee_currency),
          (''total_rebate_amount'', dsum (map fs_rebate_amount (fees_of results)), fee_currency),
          (''total_slippage_amount'', dsum (map se_total_slippage (concat (map so_slippage_estimates results))), ''price_units''),
          (''market_event_count'', of_nat (length (sn_market_events s)), ''count''),
          (''multi_leg_imbalance_count'', (case ml of Some m \<Rightarrow> if has_imbalance m then 1 else 0 | None \<Rightarrow> 0), ''count''),
          (''multi_leg_imbalance_quantity'', (case ml of Some m \<Rightarrow> imbalanced_quantity m | None \<Rightarrow> 0), ''contracts''),
          (''multi_leg_leg_count'', (case ml of Some m \<Rightarrow> of_nat (length (ml_leg_fills m)) | None \<Rightarrow> 0), ''count''),
          (''multi_leg_target_shortfall_quantity'', (case ml of Some m \<Rightarrow> target_shortfall_quantity m | None \<Rightarrow> 0), ''contracts''),
          (''order_action_count'', of_nat (length (sn_order_actions s)), ''count''),
          (''partial_fill_count'', of_nat (count (\<lambda>r. so_fill_estimate r \<noteq> None \<and> pred_option is_partial (so_fill_estimate r))), ''count''),
          (''rejected_order_count'', of_nat (count (\<lambda>r. \<not> rd_accepted (ad_rejection_decision (so_admission r)))), ''count'')])"

definition scenario_run_metrics ::
  "hasher \<Rightarrow> (string \<Rightarrow> instant result) \<Rightarrow> simulation_scenario \<Rightarrow> scenario_order_result list \<Rightarrow> multi_leg_imbalance option \<Rightarrow>
     simulation_metric list result" where
  "scenario_run_metrics H read_time s results ml =
     bindE (disconnect_window_from_configuration read_time (sn_configuration s)) (\<lambda>window.
     bindE (fee_metric_currency s results) (\<lambda>fee_currency.
     mapE (\<lambda>(name, x, unit_name). mk_simulation_metric \<lparr>mt_name = name, mt_value = x, mt_unit = unit_name\<rparr>)
       (metric_rows s results ml window (duplicate_market_event_count H (sn_market_events s)) fee_currency)))"

section \<open>The run\<close>

definition multi_leg_imbalance_from_configuration ::
  "simulation_configuration \<Rightarrow> scenario_order_result list \<Rightarrow> multi_leg_imbalance option result" where
  "multi_leg_imbalance_from_configuration c results =
     bindE (multi_leg_order_action_sequences_from_configuration c) (\<lambda>order_action_sequences.
     bindE (multi_leg_target_filled_quantity_from_configuration c) (\<lambda>target.
     let invalid = config_error ''simulation_scenario_runner_multi_leg_configuration_invalid'' in
     case (order_action_sequences, target) of
       (None, None) \<Rightarrow> Inr None
     | (Some sequences, Some target) \<Rightarrow>
         bindE (normalize_order_results results) (\<lambda>results.
         let by_action_sequence = foldl (\<lambda>d r. dict_set (sx_sequence (so_action r)) r d) [] results in
         bindE (mapE (\<lambda>n. case map_of by_action_sequence n of
               None \<Rightarrow> Inl invalid
             | Some r \<Rightarrow> mk_scenario_leg_fill
                 \<lparr>lf_order_action_sequence = n, lf_order_result_sequence = so_sequence r,
                  lf_filled_quantity = (case so_fill_estimate r of None \<Rightarrow> 0 | Some e \<Rightarrow> fe_filled_quantity e)\<rparr>) sequences) (\<lambda>leg_fills.
         bindE (mk_multi_leg_imbalance
           \<lparr>ml_sequence = 0, ml_target_filled_quantity = target, ml_leg_fills = leg_fills, ml_source_type = SIMULATED_OUTPUT\<rparr>)
           (\<lambda>m. Inr (Some m))))
     | _ \<Rightarrow> Inl invalid))"

definition build_scenario_run_result ::
  "hasher \<Rightarrow> (string \<Rightarrow> instant result) \<Rightarrow> simulation_scenario \<Rightarrow> order_book_snapshot \<Rightarrow> scenario_order_result list \<Rightarrow>
     multi_leg_imbalance option \<Rightarrow> simulation_result result" where
  "build_scenario_run_result H read_time s final_book results ml =
     bindE (normalize_order_results results) (\<lambda>results.
     bindE (scenario_run_artifacts H s final_book results ml) (\<lambda>artifacts.
     bindE (scenario_run_metrics H read_time s results ml) (\<lambda>metrics.
     build_simulation_result H (sn_configuration s) artifacts metrics)))"

record scenario_run =
  rn_scenario :: simulation_scenario
  rn_final_book :: order_book_snapshot
  rn_order_results :: "scenario_order_result list"
  rn_result :: simulation_result
  rn_multi_leg_imbalance_result :: "multi_leg_imbalance option"
  rn_source_type :: simulation_source_type

definition mk_scenario_run :: "hasher \<Rightarrow> (string \<Rightarrow> instant result) \<Rightarrow> scenario_run \<Rightarrow> scenario_run result" where
  "mk_scenario_run H read_time r =
     bindE (validate_expected_final_book (Some (rn_final_book r)) (sn_initial_book (rn_scenario r))) (\<lambda>_.
     bindE (normalize_order_results (rn_order_results r)) (\<lambda>order_results.
     bindE (build_scenario_run_result H read_time (rn_scenario r) (rn_final_book r) order_results (rn_multi_leg_imbalance_result r)) (\<lambda>expected_result.
     if rn_result r \<noteq> expected_result then Inl (config_error ''simulation_scenario_run_result_mismatch'')
     else if rn_source_type r \<noteq> SIMULATED_OUTPUT then Inl (config_error ''simulation_scenario_run_source_invalid'')
     else Inr (r\<lparr>rn_order_results := order_results\<rparr>))))"

definition prepare_run :: "(string \<Rightarrow> instant result) \<Rightarrow> runner \<Rightarrow> simulation_scenario \<Rightarrow> run_setup result" where
  "prepare_run read_time rn s =
     bindE (validate_runner_configuration (sn_configuration s)) (\<lambda>_.
     bindE (fee_model_for_scenario s (rm_fee rn)) (\<lambda>fees.
     bindE (slippage_model_for_scenario s (rm_slippage rn)) (\<lambda>slippage.
     bindE (settlement_model_for_scenario s (rm_settlement rn)) (\<lambda>settling.
     bindE (winning_outcome_ids_from_configuration (sn_configuration s)) (\<lambda>winners.
     bindE (available_balance_from_configuration (sn_configuration s)) (\<lambda>available_balance.
     bindE (disconnect_window_from_configuration read_time (sn_configuration s)) (\<lambda>window.
     Inr \<lparr>ru_admit = rm_admit rn, ru_fill = rm_fill rn, ru_fee = fees, ru_slippage = slippage, ru_settlement = settling,
          ru_market_status = rm_market_status rn, ru_winners = winners, ru_available_balance = available_balance,
          ru_window = window\<rparr>)))))))"

definition run_scenario :: "hasher \<Rightarrow> (string \<Rightarrow> instant result) \<Rightarrow> runner \<Rightarrow> simulation_scenario \<Rightarrow> scenario_run result" where
  "run_scenario H read_time rn s =
     bindE (prepare_run read_time rn s) (\<lambda>u.
     bindE (project_book_until H s None) (\<lambda>final_book.
     bindE (run_order_actions H s u 0 [] (order_intent_actions (sn_order_actions s))) (\<lambda>(order_results, used_cancel_sequences).
     bindE (validate_no_unmatched_cancel_actions (sn_order_actions s) used_cancel_sequences) (\<lambda>_.
     bindE (multi_leg_imbalance_from_configuration (sn_configuration s) order_results) (\<lambda>ml.
     bindE (build_scenario_run_result H read_time s final_book order_results ml) (\<lambda>result.
     mk_scenario_run H read_time
       \<lparr>rn_scenario = s, rn_final_book = final_book, rn_order_results = order_results, rn_result = result,
        rn_multi_leg_imbalance_result = ml, rn_source_type = SIMULATED_OUTPUT\<rparr>))))))"

section \<open>Hashes and counts\<close>

definition scenario_run_payload :: "hasher \<Rightarrow> scenario_run \<Rightarrow> canon result" where
  "scenario_run_payload H r =
     bindE (result_payload H (sl_configuration (rn_result r)) (sl_artifacts (rn_result r)) (sl_metrics (rn_result r))
       (Some (sl_result_checksum (rn_result r)))) (\<lambda>result.
     Inr (CMap ([(''final_book'', snapshot_canon (rn_final_book r))] @
       optional ''multi_leg_imbalance_result'' (map_option multi_leg_canon (rn_multi_leg_imbalance_result r)) @
       [(''order_results'', CList (map (order_result_canon H) (rn_order_results r))), (''result'', result), runner_model,
        (''scenario_hash'', CStr (scenario_hash H (rn_scenario r))), (''scenario_id'', CStr (sn_scenario_id (rn_scenario r))),
        (''source_type'', CStr (source_value (rn_source_type r)))])))"

definition run_hash :: "hasher \<Rightarrow> scenario_run \<Rightarrow> string result" where
  "run_hash H r = bindE (scenario_run_payload H r) (\<lambda>c. Inr (H c))"

text \<open>A \<^verbatim>\<open>Counter\<close>: how often each source type occurs, in the order of the first occurrence.\<close>

definition source_counts :: "simulation_source_type list \<Rightarrow> (simulation_source_type \<times> nat) list" where
  "source_counts types =
     foldl (\<lambda>counts t. dict_set t (Suc (case map_of counts t of None \<Rightarrow> 0 | Some n \<Rightarrow> n)) counts) [] types"

definition scenario_source_type_counts :: "simulation_scenario \<Rightarrow> (simulation_source_type \<times> nat) list" where
  "scenario_source_type_counts s =
     source_counts ([OBSERVED_FACT] @ map sk_source_type (sn_market_events s) @ map sx_source_type (sn_order_actions s) @
       map xf_source_type (sn_expected_fills s) @
       (case (sn_expected_final_book s, sn_expected_final_book_source_type s) of (Some _, Some t) \<Rightarrow> [t] | _ \<Rightarrow> []))"

definition result_source_type_counts :: "simulation_result \<Rightarrow> (simulation_source_type \<times> nat) list" where
  "result_source_type_counts r = source_counts (map at_source_type (sl_artifacts r))"

end
