(* ===== verification/Scenario_Orders.thy ===== *)
theory Scenario_Orders
  imports Scenario_Runner
begin

text \<open>
  What a run of \<open>Scenario_Runner\<close> does to each order. The locale \<open>order_execution\<close> states what the runner relies on of the
  models it is composed of (admission, fills, settlement); its lemmas say what an order result is on every branch of
  \<^verbatim>\<open>_run_order_action\<close>, and that the checks of the result constructors never reject what the runner builds. The
  default models interpret it.
\<close>

section \<open>Constructors\<close>

lemma cancel_result_ok:
  "cancel_result c n code = Inr k \<longleftrightarrow>
     0 \<le> sx_sequence c \<and> 0 \<le> n \<and> is_cancel (sx_action c) \<and> code \<in> set CANCEL_OUTCOME_CODES \<and>
     k = \<lparr>kr_sequence = sx_sequence c, kr_action = c, kr_target_order_sequence = n, kr_requested_at = sx_scheduled_at c,
          kr_effective_at = sx_scheduled_at c, kr_outcome_code = code, kr_source_type = SIMULATED_OUTPUT\<rparr>"
  by (auto simp: cancel_result_def mk_scenario_cancel_result_def bindE_eq_Inr guards_ok_iff simp del: guards.simps)

lemma outcome_codes [simp]:
  "CANCEL_BEFORE_ACTIVATION \<in> set CANCEL_OUTCOME_CODES" "CANCEL_FILL_RACE_LOST \<in> set CANCEL_OUTCOME_CODES"
  "CANCEL_AFTER_ACTIVATION_NO_FILL \<in> set CANCEL_OUTCOME_CODES"
  "CANCEL_BEFORE_ACTIVATION \<noteq> CANCEL_FILL_RACE_LOST" "CANCEL_BEFORE_ACTIVATION \<noteq> CANCEL_AFTER_ACTIVATION_NO_FILL"
  "CANCEL_FILL_RACE_LOST \<noteq> CANCEL_AFTER_ACTIVATION_NO_FILL"
  by (simp_all add: CANCEL_OUTCOME_CODES_def CANCEL_BEFORE_ACTIVATION_def CANCEL_FILL_RACE_LOST_def
      CANCEL_AFTER_ACTIVATION_NO_FILL_def)

lemma mk_order_result_id: "mk_scenario_order_result r = Inr r' \<Longrightarrow> r' = r"
  by (auto simp: mk_scenario_order_result_def bindE_eq_Inr simp del: guards.simps)

lemma mk_order_admission_ok:
  assumes "mk_order_admission a = Inr b"
  shows "b = a" and "rd_accepted (ad_rejection_decision a) \<Longrightarrow> \<exists>t u. ad_accepted_at a = Some t \<and> ad_activates_at a = Some u \<and> t \<le> u"
    and "\<not> rd_accepted (ad_rejection_decision a) \<Longrightarrow> ad_activates_at a = None"
  using assms
  by (auto simp: mk_order_admission_def bindE_eq_Inr guards_ok_iff validate_activation_lineage_def split: if_splits option.splits
      simp del: guards.simps)

lemmas outcome_codes_sym [simp] = outcome_codes(4-6) [symmetric]

text \<open>The results without outputs: a rejected order, and one that is cancelled before it is activated.\<close>

lemma rejected_result_ok:
  assumes "\<not> rd_accepted (ad_rejection_decision adm)" and "0 \<le> n" and "\<not> is_cancel (sx_action a)"
  shows "mk_scenario_order_result (no_outputs n a adm) = Inr (no_outputs n a adm)"
  using assms
  by (simp add: mk_scenario_order_result_def no_outputs_def validate_settlement_result_def validate_disconnect_result_def
      validate_order_outputs_def has_outputs_def)

lemma cancelled_result_ok:
  assumes "rd_accepted (ad_rejection_decision adm)" and "0 \<le> n" and "\<not> is_cancel (sx_action a)" and "before_activation k"
  shows "mk_scenario_order_result ((no_outputs n a adm)\<lparr>so_cancel_result := Some k\<rparr>) = Inr ((no_outputs n a adm)\<lparr>so_cancel_result := Some k\<rparr>)"
  using assms
  by (simp add: mk_scenario_order_result_def no_outputs_def validate_settlement_result_def validate_disconnect_result_def
      validate_order_outputs_def has_outputs_def)

section \<open>Valid scenarios in fixed point\<close>

definition scenario_valid :: "simulation_scenario \<Rightarrow> bool" where
  "scenario_valid s \<longleftrightarrow> mk_simulation_scenario s = Inr s \<and> book_valid (sn_initial_book s) \<and>
     (\<forall>e \<in> set (sn_market_events s). payload_valid (sk_event e) \<and> mk_scheduled_market_event e = Inr e) \<and>
     (\<forall>a \<in> set (sn_order_actions s). mk_scheduled_order_action a = Inr a)"

definition fixed_point :: "nat \<Rightarrow> simulation_scenario \<Rightarrow> bool" where
  "fixed_point g s \<longleftrightarrow>
     payload_levels (\<lambda>l. on_grid g (10 ^ 28) (lv_quantity l)) (Book (sn_initial_book s)) \<and>
     (\<forall>e \<in> set (sn_market_events s). payload_levels (\<lambda>l. on_grid g (10 ^ 28) (lv_quantity l)) (sk_event e)) \<and>
     trades_on_grid g (sn_market_events s) \<and>
     (\<forall>a i. a \<in> set (sn_order_actions s) \<longrightarrow> sx_action a = Intent i \<longrightarrow> on_grid g (10 ^ 28) (oi_quantity i))"

lemma sort_unique_ok: "sort_unique f xs = Inr ys \<longleftrightarrow> distinct (map f xs) \<and> ys = sort_key f xs"
  by (auto simp: sort_unique_def Let_def distinct_map_sort_key)

lemma scenario_facts:
  assumes "scenario_valid s"
  shows "valid_text (sn_scenario_id s)" and "ob_is_valid (sn_initial_book s)" and "book_valid (sn_initial_book s)"
    and "\<And>e. e \<in> set (sn_market_events s) \<Longrightarrow> payload_valid (sk_event e) \<and> market_lineage (sn_initial_book s) (sk_event e)"
    and "distinct (map sx_sequence (sn_order_actions s))" and "\<And>a. a \<in> set (sn_order_actions s) \<Longrightarrow> 0 \<le> sx_sequence a"
proof -
  have m: "mk_simulation_scenario s = Inr s" using assms by (simp add: scenario_valid_def)
  obtain x events actions where p: "validate_scenario_text (sn_scenario_id s) = Inr x"
    "validate_initial_book (sn_initial_book s) = Inr ()" "sort_unique sk_sequence (sn_market_events s) = Inr events"
    "sort_unique sx_sequence (sn_order_actions s) = Inr actions"
    "validate_market_event_lineage events (sn_initial_book s) = Inr ()"
    using m by (auto simp: mk_simulation_scenario_def bindE_eq_Inr simp del: guards.simps)
  have events: "set events = set (sn_market_events s)" using p(3) by (simp add: sort_unique_ok)
  show "valid_text (sn_scenario_id s)" using p(1) by (simp add: validate_scenario_text_def split: if_splits)
  show "ob_is_valid (sn_initial_book s)" using p(2) by (simp add: validate_initial_book_def split: if_splits)
  show "book_valid (sn_initial_book s)" using assms by (simp add: scenario_valid_def)
  show "distinct (map sx_sequence (sn_order_actions s))" using p(4) by (simp add: sort_unique_ok)
  show "payload_valid (sk_event e) \<and> market_lineage (sn_initial_book s) (sk_event e)" if "e \<in> set (sn_market_events s)" for e
    using p(5) assms that
    by (auto simp: validate_market_event_lineage_def guards_ok_iff scenario_valid_def events simp del: guards.simps)
  show "0 \<le> sx_sequence a" if "a \<in> set (sn_order_actions s)" for a
    using assms that
    by (auto simp: scenario_valid_def mk_scheduled_order_action_def validate_item_sequence_def bindE_eq_Inr split: if_splits)
qed

lemma activation_book:
  assumes "scenario_valid s" and "fixed_point g s" and "project_book_until H s through = Inr b"
  shows "book_valid b" and "grid_levels g (opposite_side_levels b sd)"
    and "same_lineage (ob_market_id b) (ob_contract_id b) (ob_exchange b) (sn_initial_book s)"
proof -
  note p = projected_books [where P = "\<lambda>l. on_grid g (10 ^ 28) (lv_quantity l)" and r = "sn_initial_book s",
      OF assms(3) [unfolded project_book_until_def] scenario_facts(3) [OF assms(1)]]
  have b: "book_valid b \<and> payload_levels (\<lambda>l. on_grid g (10 ^ 28) (lv_quantity l)) (Book b) \<and>
      same_lineage (ob_market_id b) (ob_contract_id b) (ob_exchange b) (sn_initial_book s)"
    by (rule p) (use assms(2) scenario_facts(4) [OF assms(1)] in \<open>simp_all add: same_lineage_def fixed_point_def\<close>)
  then show "book_valid b" "same_lineage (ob_market_id b) (ob_contract_id b) (ob_exchange b) (sn_initial_book s)" by simp_all
  have "list_all level_ok (ob_bids b)" "list_all level_ok (ob_asks b)" using b by (simp_all add: book_valid_iff)
  then show "grid_levels g (opposite_side_levels b sd)"
    using b by (auto simp: grid_levels_def opposite_side_levels_def list_all_iff level_ok_def)
qed

section \<open>What an order result says\<close>

text \<open>The three ends of an order: rejected, cancelled before its activation, executed.\<close>

definition executed_result ::
  "int \<Rightarrow> scheduled_order_action \<Rightarrow> order_admission \<Rightarrow> order_book_snapshot \<Rightarrow> fill_estimate \<Rightarrow> fee_estimate list \<Rightarrow>
     slippage_estimate list \<Rightarrow> scenario_cancel_result option \<Rightarrow> scenario_settlement_result option \<Rightarrow>
     scenario_disconnect_result option \<Rightarrow> scenario_order_result" where
  "executed_result n a adm book e fs ss k st d =
     \<lparr>so_sequence = n, so_action = a, so_admission = adm, so_activation_book = Some book, so_fill_estimate = Some e,
      so_fee_estimates = fs, so_slippage_estimates = ss, so_cancel_result = k, so_settlement_result = st,
      so_disconnect_result = d, so_source_type = SIMULATED_OUTPUT\<rparr>"

definition cancel_outcome :: "scheduled_order_action option \<Rightarrow> int \<Rightarrow> fill_estimate \<Rightarrow> scenario_cancel_result option result" where
  "cancel_outcome c n e =
     (case c of None \<Rightarrow> Inr None
      | Some c \<Rightarrow> bindE (cancel_result c n (if has_fill e then CANCEL_FILL_RACE_LOST else CANCEL_AFTER_ACTIVATION_NO_FILL)) (\<lambda>k. Inr (Some k)))"

text \<open>
  What an executed order amounts to: its components add up to what is filled, none is beyond the limit, and each comes
  from a level of the activation book or from a trade at a time the order can be filled at.
\<close>

definition component_sound ::
  "simulation_scenario \<Rightarrow> order_intent \<Rightarrow> rat \<Rightarrow> order_book_snapshot \<Rightarrow> (instant \<Rightarrow> bool) \<Rightarrow> fill_component \<Rightarrow> bool" where
  "component_sound s i limit book fillable c \<longleftrightarrow>
     0 < fc_quantity c \<and> (if oi_side i = BUY then fc_price c \<le> limit else limit \<le> fc_price c) \<and>
     (fc_liquidity_role c = TAKER \<and>
        (\<exists>l \<in> set (opposite_side_levels book (oi_side i)). fc_price c = lv_price l \<and> fc_quantity c \<le> lv_quantity l) \<or>
      fc_liquidity_role c = MAKER \<and>
        (\<exists>v \<in> set (sn_market_events s). \<exists>t. sk_event v = Traded t \<and> fillable (sk_scheduled_at v) \<and>
           td_outcome_id t = oi_outcome_id i \<and> td_aggressor_side t = Some (if oi_side i = BUY then SELL else BUY) \<and>
           fc_price c = td_price t \<and> fc_quantity c \<le> td_quantity t))"

definition fill_sound ::
  "simulation_scenario \<Rightarrow> order_intent \<Rightarrow> rat \<Rightarrow> order_book_snapshot \<Rightarrow> (instant \<Rightarrow> bool) \<Rightarrow> fill_estimate \<Rightarrow> bool" where
  "fill_sound s i limit book fillable e \<longleftrightarrow>
     fe_order_quantity e = oi_quantity i \<and> fe_filled_quantity e + fe_remaining_quantity e = oi_quantity i \<and>
     0 \<le> fe_filled_quantity e \<and> 0 \<le> fe_remaining_quantity e \<and>
     sum_list (map fc_quantity (fe_components e)) = fe_filled_quantity e \<and>
     (\<forall>c \<in> set (fe_components e). component_sound s i limit book fillable c)"

text \<open>An order can be filled from its activation until its cancel, except while the exchange is disconnected.\<close>

definition active_at :: "disconnect_window \<Rightarrow> instant \<Rightarrow> scenario_order_result \<Rightarrow> instant \<Rightarrow> bool" where
  "active_at window t r t' \<longleftrightarrow>
     t \<le> t' \<and> pred_option (\<lambda>k. t' \<le> kr_effective_at k) (so_cancel_result r) \<and> \<not> scheduled_at_during_disconnect t' window"

definition order_sound :: "hasher \<Rightarrow> simulation_scenario \<Rightarrow> disconnect_window \<Rightarrow> scenario_order_result \<Rightarrow> bool" where
  "order_sound H s window r \<longleftrightarrow>
     (\<exists>i. sx_action (so_action r) = Intent i \<and>
       (case so_fill_estimate r of
          None \<Rightarrow> \<not> rd_accepted (ad_rejection_decision (so_admission r)) \<or>
            (\<exists>k. so_cancel_result r = Some k \<and> (\<exists>t. ad_activates_at (so_admission r) = Some t \<and> kr_effective_at k < t))
        | Some e \<Rightarrow> rd_accepted (ad_rejection_decision (so_admission r)) \<and>
            (\<exists>t limit book. ad_activates_at (so_admission r) = Some t \<and> sx_scheduled_at (so_action r) \<le> t \<and>
               oi_limit_price i = Some limit \<and> so_activation_book r = Some book \<and> project_book_until H s (Some t) = Inr book \<and>
               fill_sound s i limit book (active_at window t r) e)))"

section \<open>The contract of the models\<close>

locale order_execution = fill_model evaluate reach
  for evaluate :: book_fill_model and reach :: "side \<Rightarrow> rat \<Rightarrow> rat \<Rightarrow> bool" +
  fixes admit :: admission_model and settle :: "ident \<Rightarrow> rat \<Rightarrow> ident list \<Rightarrow> settlement_estimate result"
  assumes admits: "admit i status t required available = Inr a \<Longrightarrow> rd_accepted (ad_rejection_decision a) \<Longrightarrow>
      (\<exists>u. ad_activates_at a = Some u \<and> t \<le> u) \<and> oi_limit_price i \<noteq> None \<and> 0 < oi_quantity i"
    and admitted_intent: "admit i status t required available = Inr a \<Longrightarrow> ad_intent a = i \<and> ad_submitted_at a = t"
    and settles: "settle outcome q winners = Inr e \<Longrightarrow> sm_quantity e = q"
    and describes: "evaluate b sd limit q = Inr x \<Longrightarrow> fe_order_quantity x = q \<and> fe_side x = sd \<and> fe_limit_price x = limit \<and>
      (fe_liquidity_role x = TAKER \<longleftrightarrow> fe_components x \<noteq> [])"
begin

lemma settlement_ok:
  assumes "estimate_settlement (b, settle) e i n winners = Inr r" and "0 \<le> n"
  shows "validate_settlement_result r (Some e) n = Inr ()"
  using assms settles
  by (auto simp: estimate_settlement_def mk_scenario_settlement_result_def validate_settlement_result_def bindE_eq_Inr
      guards_ok_iff split: if_splits simp del: guards.simps)

lemma disconnect_ok:
  assumes "disconnect_result_for_order H s i n t k window e = Inr r"
  shows "validate_disconnect_result r n = Inr ()"
  using assms
  by (auto simp: disconnect_result_for_order_def mk_scenario_disconnect_result_def validate_disconnect_result_def bindE_eq_Inr
      guards_ok_iff Let_def split: if_splits option.splits simp del: guards.simps)

lemma execute_order_eq:
  "execute_order H s u a i limit n c adm t book =
     bindE (ru_fill u book (oi_side i) limit (oi_quantity i)) (\<lambda>e0.
     let e = fill_resting_order_from_trade_events H s i t c (ru_window u) e0 in
     bindE (estimate_fees (ru_fee u) (ob_exchange (sn_initial_book s)) e) (\<lambda>fs.
     bindE (estimate_slippage (ru_slippage u) e) (\<lambda>ss.
     bindE (cancel_outcome c n e) (\<lambda>k.
     bindE (estimate_settlement (ru_settlement u) e i n (ru_winners u)) (\<lambda>st.
     bindE (disconnect_result_for_order H s i n t k (ru_window u) e) (\<lambda>d.
     mk_scenario_order_result (executed_result n a adm book e fs ss k st d)))))))"
  unfolding execute_order_def executed_result_def cancel_outcome_def ..

text \<open>The constructor accepts what the execution of an admitted order has computed.\<close>

lemma executed_result_ok:
  assumes "evaluate book sd limit q = Inr e0" and "rd_accepted (ad_rejection_decision adm)" and "0 \<le> n"
    and "sx_action a = Intent i" and "estimate_fees fees ex e = Inr fs" and "estimate_slippage slippage e = Inr ss"
    and "cancel_outcome c n e = Inr k" and "estimate_settlement (b, settle) e i n winners = Inr st"
    and "disconnect_result_for_order H s i n t k window e = Inr d"
  shows "mk_scenario_order_result (executed_result n a adm book e fs ss k st d) = Inr (executed_result n a adm book e fs ss k st d)"
proof -
  have v: "ob_is_valid book" using accepts [of book sd limit q] assms(1) by blast
  have k: "\<not> (pred_option before_activation k \<and> k \<noteq> None)"
    using assms(7) by (auto simp: cancel_outcome_def bindE_eq_Inr cancel_result_ok before_activation_def split: option.splits if_splits)
  have "length fs = length (fe_components e)" "length ss = length (fe_components e)"
    using assms(5,6) mapE_length by (auto simp: estimate_fees_def estimate_slippage_def)
  then have "validate_order_outputs (executed_result n a adm book e fs ss k st d) = Inr ()"
    using assms(2) k by (auto simp: validate_order_outputs_def executed_result_def)
  then show ?thesis
    using settlement_ok [OF assms(8,3)] disconnect_ok [OF assms(9)] assms(3,4) v
    by (simp add: mk_scenario_order_result_def executed_result_def validate_initial_book_def)
qed

lemma run_order_cases:
  assumes run: "run_order_action H s u a n c = Inr r"
    and u: "ru_fill u = evaluate" "ru_admit u = admit" "snd (ru_settlement u) = settle" and n: "0 \<le> n"
  obtains (rejected) i adm where "sx_action a = Intent i" "r = no_outputs n a adm" "\<not> rd_accepted (ad_rejection_decision adm)"
      "ad_intent adm = i"
  | (cancelled) i adm c' k t where "sx_action a = Intent i" "rd_accepted (ad_rejection_decision adm)" "ad_activates_at adm = Some t"
      "c = Some c'" "sx_scheduled_at c' < t" "cancel_result c' n CANCEL_BEFORE_ACTIVATION = Inr k" "ad_intent adm = i"
      "r = (no_outputs n a adm)\<lparr>so_cancel_result := Some k\<rparr>" "sx_scheduled_at a \<le> t"
  | (executed) i adm t limit book e0 e fs ss k st d where "sx_action a = Intent i" "rd_accepted (ad_rejection_decision adm)"
      "ad_activates_at adm = Some t" "\<not> cancelled_before c t" "oi_limit_price i = Some limit" "0 < oi_quantity i"
      "sx_scheduled_at a \<le> t" "ad_intent adm = i"
      "project_book_until H s (Some t) = Inr book" "evaluate book (oi_side i) limit (oi_quantity i) = Inr e0"
      "e = fill_resting_order_from_trade_events H s i t c (ru_window u) e0"
      "estimate_fees (ru_fee u) (ob_exchange (sn_initial_book s)) e = Inr fs" "estimate_slippage (ru_slippage u) e = Inr ss"
      "cancel_outcome c n e = Inr k" "estimate_settlement (ru_settlement u) e i n (ru_winners u) = Inr st"
      "disconnect_result_for_order H s i n t k (ru_window u) e = Inr d" "r = executed_result n a adm book e fs ss k st d"
proof (cases "sx_action a")
  case (Cancel x)
  then show thesis using run by (simp add: run_order_action_def)
next
  case (Intent i)
  let ?required = "if ru_available_balance u \<noteq> None then required_balance_for_intent i else None"
  obtain adm where adm: "admit i (ru_market_status u) (sx_scheduled_at a) ?required (ru_available_balance u) = Inr adm"
    and rest: "(if \<not> rd_accepted (ad_rejection_decision adm) then mk_scenario_order_result (no_outputs n a adm)
      else case ad_activates_at adm of None \<Rightarrow> Inl (config_error ''simulation_scenario_activation_missing'')
        | Some t \<Rightarrow> if cancelled_before c t then
              bindE (cancel_result (the c) n CANCEL_BEFORE_ACTIVATION) (\<lambda>k.
                mk_scenario_order_result ((no_outputs n a adm)\<lparr>so_cancel_result := Some k\<rparr>))
            else case oi_limit_price i of None \<Rightarrow> Inl (config_error ''simulation_scenario_fill_price_missing'')
              | Some limit \<Rightarrow> bindE (project_book_until H s (Some t)) (\<lambda>book.
                  bindE (post_only_would_cross i book) (\<lambda>crosses.
                  if crosses then bindE (post_only_rejection_admission adm) (\<lambda>x. mk_scenario_order_result (no_outputs n a x))
                  else execute_order H s u a i limit n c adm t book))) = Inr r"
    using run unfolding run_order_action_def Intent u(2) by (auto simp: bindE_eq_Inr)
  note intent = admitted_intent [OF adm]
  show thesis
  proof (cases "rd_accepted (ad_rejection_decision adm)")
    case False
    then show thesis using rest intent by (intro rejected [OF Intent _ False]) (auto dest: mk_order_result_id)
  next
    case True
    then obtain t where t: "ad_activates_at adm = Some t" "sx_scheduled_at a \<le> t" and q: "0 < oi_quantity i"
      and lp: "oi_limit_price i \<noteq> None"
      using admits [OF adm True] by blast
    then obtain limit where limit: "oi_limit_price i = Some limit" by blast
    show thesis
    proof (cases "cancelled_before c t")
      case cb: True
      then obtain c' where c': "c = Some c'" "sx_scheduled_at c' < t" by (auto simp: cancelled_before_def split: option.splits)
      then obtain k where k: "cancel_result c' n CANCEL_BEFORE_ACTIVATION = Inr k"
        "r = (no_outputs n a adm)\<lparr>so_cancel_result := Some k\<rparr>"
        using rest True t(1) cb by (auto simp: bindE_eq_Inr dest: mk_order_result_id)
      show thesis using cancelled [OF Intent True t(1) c' k(1) _ k(2) t(2)] intent by blast
    next
      case cb: False
      obtain book crosses where book: "project_book_until H s (Some t) = Inr book" "post_only_would_cross i book = Inr crosses"
        and more: "(if crosses then bindE (post_only_rejection_admission adm) (\<lambda>x. mk_scenario_order_result (no_outputs n a x))
          else execute_order H s u a i limit n c adm t book) = Inr r"
        using rest True t(1) cb limit by (auto simp: bindE_eq_Inr)
      show thesis
      proof (cases crosses)
        case True
        then obtain x where x: "post_only_rejection_admission adm = Inr x" "r = no_outputs n a x"
          using more by (auto simp: bindE_eq_Inr dest: mk_order_result_id)
        have "\<not> rd_accepted (ad_rejection_decision x)" "ad_intent x = i"
          using mk_order_admission_ok(1) [OF x(1) [unfolded post_only_rejection_admission_def]] intent by simp_all
        then show thesis by (intro rejected [OF Intent x(2)])
      next
        case False
        obtain e0 where e0: "evaluate book (oi_side i) limit (oi_quantity i) = Inr e0"
          using more False u(1) by (auto simp: execute_order_eq bindE_eq_Inr)
        define e where "e = fill_resting_order_from_trade_events H s i t c (ru_window u) e0"
        obtain fs ss k st d where parts: "estimate_fees (ru_fee u) (ob_exchange (sn_initial_book s)) e = Inr fs"
          "estimate_slippage (ru_slippage u) e = Inr ss" "cancel_outcome c n e = Inr k"
          "estimate_settlement (ru_settlement u) e i n (ru_winners u) = Inr st"
          "disconnect_result_for_order H s i n t k (ru_window u) e = Inr d"
          "mk_scenario_order_result (executed_result n a adm book e fs ss k st d) = Inr r"
          using more False u(1) e0 by (auto simp: execute_order_eq bindE_eq_Inr Let_def e_def)
        show thesis
          using executed [OF Intent True t(1) cb limit q t(2) _ book(1) e0 e_def parts(1-5)] mk_order_result_id [OF parts(6)] intent
          by blast
      qed
    qed
  qed
qed

lemma book_fill_sound:
  assumes "evaluate book (oi_side i) limit (oi_quantity i) = Inr e"
    and "book_valid book" and "grid_levels g (opposite_side_levels book (oi_side i))" and "on_grid g (10 ^ 28) (oi_quantity i)"
    and "0 < oi_quantity i"
  shows "fill_sound s i limit book fillable e"
    and "\<not> has_fill e \<Longrightarrow> fe_components e = [] \<and> fe_filled_quantity e = 0"
proof -
  let ?ls = "filter (\<lambda>l. reach (oi_side i) limit (lv_price l)) (opposite_side_levels book (oi_side i))"
  note f = fills [OF assms(2-4,1)]
  have nonneg: "list_all (\<lambda>l. 0 \<le> lv_quantity l) ?ls" using assms(3) by (auto simp: grid_levels_def list_all_iff)
  then have d: "0 \<le> depth ?ls" by (rule depth_nonneg)
  have comps: "component_sound s i limit book fillable c" if "c \<in> set (fe_components e)" for c
  proof -
    have "c \<in> set (waterfall (oi_quantity i) ?ls)" using that f by simp
    then obtain l where l: "l \<in> set ?ls" "fc_price c = lv_price l" "0 < fc_quantity c" "fc_quantity c \<le> lv_quantity l"
      "fc_liquidity_role c = TAKER" by (rule waterfall_from_book)
    then show ?thesis using reach_limit by (auto simp: component_sound_def split: if_splits)
  qed
  have total: "sum_list (map fc_quantity (fe_components e)) = fe_filled_quantity e" by (rule components_total [OF assms(2-4,1)])
  show "fill_sound s i limit book fillable e"
    using f d comps total assms(5) describes [OF assms(1)] by (auto simp: fill_sound_def)
  assume "\<not> has_fill e"
  then have z: "fe_filled_quantity e = 0" using f d assms(5) by (simp add: has_fill_def)
  have pos: "0 < fc_quantity c" if "c \<in> set (fe_components e)" for c using comps [OF that] by (simp add: component_sound_def)
  have "\<forall>x \<in> set (map fc_quantity (fe_components e)). 0 \<le> x" using pos by fastforce
  then have "\<forall>x \<in> set (map fc_quantity (fe_components e)). x = 0"
    using total z sum_list_nonneg_eq_0_iff [of "map fc_quantity (fe_components e)"] by auto
  then have "fe_components e = []" using pos by (cases "fe_components e") force+
  then show "fe_components e = [] \<and> fe_filled_quantity e = 0" using z by simp
qed

lemma resting_fill_sound:
  assumes "evaluate book (oi_side i) limit (oi_quantity i) = Inr e0"
    and "book_valid book" and "grid_levels g (opposite_side_levels book (oi_side i))" and "on_grid g (10 ^ 28) (oi_quantity i)"
    and "0 < oi_quantity i" and "oi_limit_price i = Some limit"
    and "\<forall>v \<in> set (sn_market_events s). payload_valid (sk_event v)" and "trades_on_grid g (sn_market_events s)"
  shows "fill_sound s i limit book (fillable_at t c window) (fill_resting_order_from_trade_events H s i t c window e0)"
proof (cases "has_fill e0")
  case True
  then show ?thesis using book_fill_sound(1) [OF assms(1-5)] by (simp add: fill_resting_order_from_trade_events_def)
next
  case False
  let ?q = "oi_quantity i" and ?fillable = "fillable_at t c window"
  let ?ts = "filling_trades (market_event_hash H) i ?fillable [] (sn_market_events s)"
  let ?cs = "map to_maker (waterfall ?q (map trade_level ?ts))"
  note z = book_fill_sound(2) [OF assms(1-5) False]
  have r: "fe_remaining_quantity e0 = ?q" and o: "fe_order_quantity e0 = ?q"
    using fills [OF assms(2-4,1)] z describes [OF assms(1)] by simp_all
  have fill: "fill_resting_order_from_trade_events H s i t c window e0 = maker_fill e0 ?ts"
    by (rule resting_fill_eq [OF assms(6-8)]) (use assms(4,5) r o False in simp_all)
  have nonneg: "list_all (\<lambda>l. 0 \<le> lv_quantity l) (map trade_level ?ts)"
    by (rule trade_levels_nonneg) (use filling_trade(1) [OF assms(7)] in blast)
  then have d: "0 \<le> depth (map trade_level ?ts)" by (rule depth_nonneg)
  have comps: "component_sound s i limit book ?fillable x" if "x \<in> set ?cs" for x
  proof -
    from that obtain y where y: "y \<in> set (waterfall ?q (map trade_level ?ts))" "x = to_maker y" by auto
    from y(1) obtain l where l: "l \<in> set (map trade_level ?ts)" "fc_price y = lv_price l" "0 < fc_quantity y" "fc_quantity y \<le> lv_quantity l"
      by (rule waterfall_from_book)
    then obtain tr where tr: "tr \<in> set ?ts" "l = trade_level tr" by auto
    obtain v where v: "v \<in> set (sn_market_events s)" "sk_event v = Traded tr" "?fillable (sk_scheduled_at v)"
      using filling_trade_mem [OF tr(1)] by blast
    have m: "trade_fills_resting_intent tr i" by (rule filling_trade(2) [OF assms(7) tr(1)])
    have t: "(if oi_side i = BUY then td_price tr \<le> limit else limit \<le> td_price tr) \<and> td_outcome_id tr = oi_outcome_id i \<and>
        td_aggressor_side tr = Some (if oi_side i = BUY then SELL else BUY)"
      using m assms(6) by (auto simp: trade_fills_resting_intent_def split: if_splits option.splits)
    have p: "fc_price y = td_price tr" "fc_quantity y \<le> td_quantity tr"
      using l(2,4) by (simp_all add: tr(2) trade_level_def level_at_def)
    have "\<exists>v \<in> set (sn_market_events s). \<exists>tr. sk_event v = Traded tr \<and> ?fillable (sk_scheduled_at v) \<and>
        td_outcome_id tr = oi_outcome_id i \<and> td_aggressor_side tr = Some (if oi_side i = BUY then SELL else BUY) \<and>
        fc_price x = td_price tr \<and> fc_quantity x \<le> td_quantity tr"
      using v t p by (intro bexI [OF _ v(1)] exI [of _ tr]) (simp add: y(2) to_maker_def)
    then show ?thesis using l(3) t p(1) by (simp add: component_sound_def y(2) to_maker_def)
  qed
  have total: "sum_list (map fc_quantity ?cs) = min ?q (depth (map trade_level ?ts))"
    using waterfall_total [OF _ nonneg, of ?q] assms(5) by (simp add: comp_def to_maker_def)
  show ?thesis
  proof (cases "?ts = []")
    case True
    then show ?thesis using book_fill_sound(1) [OF assms(1-5)] by (simp add: fill maker_fill_def)
  next
    case False
    then show ?thesis using total comps d assms(5) o by (simp add: fill maker_fill_def Let_def fill_sound_def)
  qed
qed

lemma run_order_identity:
  assumes "run_order_action H s u a n c = Inr r"
    and "ru_fill u = evaluate" and "ru_admit u = admit" and "snd (ru_settlement u) = settle" and "0 \<le> n"
  shows "so_sequence r = n \<and> so_action r = a"
  using assms by (cases rule: run_order_cases) (simp_all add: no_outputs_def executed_result_def)

lemma fillable_is_active:
  assumes "cancel_outcome c n e = Inr k"
  shows "fillable_at t c window = active_at window t (executed_result n a adm book e fs ss k st d)"
  using assms
  by (auto simp: fun_eq_iff fillable_at_def active_at_def executed_result_def cancel_outcome_def bindE_eq_Inr cancel_result_ok not_less
      split: option.splits)

lemma run_order_sound:
  assumes "run_order_action H s u a n c = Inr r"
    and "ru_fill u = evaluate" and "ru_admit u = admit" and "snd (ru_settlement u) = settle" and "0 \<le> n"
    and "scenario_valid s" and "fixed_point g s" and "a \<in> set (sn_order_actions s)"
  shows "order_sound H s (ru_window u) r"
  using assms(1-5)
proof (cases rule: run_order_cases)
  case (rejected i adm)
  then show ?thesis by (simp add: no_outputs_def order_sound_def)
next
  case (cancelled i adm c' k t)
  then show ?thesis by (auto simp: no_outputs_def cancel_result_ok order_sound_def)
next
  case (executed i adm t limit book e0 e fs ss k st d)
  have g: "on_grid g (10 ^ 28) (oi_quantity i)" and tg: "trades_on_grid g (sn_market_events s)"
    using assms(7,8) executed(1) by (auto simp: fixed_point_def)
  have v: "\<forall>v \<in> set (sn_market_events s). payload_valid (sk_event v)" using scenario_facts(4) [OF assms(6)] by blast
  note b = activation_book [OF assms(6,7) executed(9)]
  have "fill_sound s i limit book (fillable_at t c (ru_window u)) e"
    unfolding executed(11) by (rule resting_fill_sound [OF executed(10) b(1,2) g executed(6,5) v tg])
  then have "fill_sound s i limit book (active_at (ru_window u) t r) e"
    unfolding executed(17) fillable_is_active [OF executed(14), symmetric] .
  then show ?thesis using executed by (simp add: executed_result_def order_sound_def)
qed

lemma run_actions:
  assumes "run_order_actions H s u n used as = Inr (rs, used')"
    and "ru_fill u = evaluate" and "ru_admit u = admit" and "snd (ru_settlement u) = settle" and "0 \<le> n"
  shows "map so_action rs = as \<and> map so_sequence rs = map (\<lambda>j. n + int j) [0..<length as] \<and>
    (\<forall>r \<in> set rs. \<exists>us. run_order_action H s u (so_action r) (so_sequence r) (matching_cancel_action s (so_action r) us) = Inr r)"
  using assms(1,5)
proof (induction as arbitrary: n used rs)
  case (Cons a as)
  obtain r rs' where r: "run_order_action H s u a n (matching_cancel_action s a used) = Inr r" "rs = r # rs'"
    "run_order_actions H s u (n + 1) (case so_cancel_result r of None \<Rightarrow> used | Some k \<Rightarrow> kr_sequence k # used) as = Inr (rs', used')"
    using Cons.prems(1) by (auto simp: bindE_eq_Inr)
  note id = run_order_identity [OF r(1) assms(2-4) Cons.prems(2)]
  have "map (\<lambda>j. n + int j) [0..<length (a # as)] = n # map (\<lambda>j. n + 1 + int j) [0..<length as]"
    by (simp add: upt_conv_Cons map_Suc_upt [symmetric] comp_def del: upt_Suc)
  then show ?case using Cons.IH [OF r(3)] Cons.prems(2) id r(1,2) by auto
qed simp

end

section \<open>The default models\<close>

lemma find_shortest:
  assumes "find (\<lambda>s. of_int \<lfloor>x * 10 ^ s\<rfloor> = x * 10 ^ s) xs = Some n"
  shows "of_int \<lfloor>x * 10 ^ n\<rfloor> = (x * 10 ^ n :: rat)"
  using assms by (auto simp: find_Some_iff)

text \<open>A decimal within the bounds is one that its shortest form stands for.\<close>

lemma shortest_decimal_value:
  assumes "validate_decimal_bounds f (shortest_decimal x) = Inr u"
  shows "dec_value (shortest_decimal x) = x"
proof (cases "find (\<lambda>s. of_int \<lfloor>x * 10 ^ s\<rfloor> = x * 10 ^ s) [0..<64]")
  case None
  then show ?thesis
    using assms by (auto simp: shortest_decimal_def validate_decimal_bounds_def guards_ok_iff simp del: guards.simps)
next
  case (Some n)
  then have "shortest_decimal x = \<lparr>dt_coefficient = \<lfloor>x * 10 ^ n\<rfloor>, dt_exponent = - int n\<rparr>"
    by (simp only: shortest_decimal_def option.simps Let_def)
  then have "dec_value (shortest_decimal x) = x * 10 ^ n * 10 powi (- int n)"
    by (simp only: dec_value_def decimal_tuple.simps find_shortest [OF Some])
  then show ?thesis by (simp add: power_int_minus)
qed

definition configured_settlement :: "decimal_tuple option \<Rightarrow> ident \<Rightarrow> rat \<Rightarrow> ident list \<Rightarrow> settlement_estimate result" where
  "configured_settlement payout outcome q winners =
     (case payout of None \<Rightarrow> no_settlement_estimate outcome (shortest_decimal q) winners
      | Some p \<Rightarrow> binary_settlement_estimate p outcome (shortest_decimal q) winners)"

lemma configured_settlement_quantity:
  assumes "configured_settlement payout outcome q winners = Inr e"
  shows "sm_quantity e = q"
proof -
  have "parse_positive_decimal f (shortest_decimal q) = Inr x \<Longrightarrow> x = q" for f x
    by (auto simp: parse_positive_decimal_def parse_bounded_decimal_def bindE_eq_Inr dest: shortest_decimal_value split: if_splits)
  then show ?thesis
    using assms
    by (auto simp: configured_settlement_def no_settlement_estimate_def binary_settlement_estimate_def bindE_eq_Inr Let_def
        split: option.splits simp del: guards.simps)
qed

lemma admitted_order:
  assumes "admit_order (bounded_evaluate m) (activation_time l) i status t required available = Inr a"
  shows "ad_intent a = i \<and> ad_submitted_at a = t"
    and "rd_accepted (ad_rejection_decision a) \<Longrightarrow> (\<exists>u. ad_activates_at a = Some u \<and> t \<le> u) \<and> oi_limit_price i \<noteq> None \<and> 0 < oi_quantity i"
proof -
  obtain d u where d: "bounded_evaluate m status (oi_limit_price i) (oi_quantity i) required available = Inr d"
    and a: "mk_order_admission
       \<lparr>ad_intent = i, ad_market_status = status, ad_rejection_decision = d, ad_submitted_at = t,
        ad_accepted_at = (if rd_accepted d then Some t else None), ad_activates_at = u,
        ad_required_balance = required, ad_available_balance = available, ad_source_type = SIMULATED_OUTPUT\<rparr> = Inr a"
    using assms by (auto simp: admit_order_def bindE_eq_Inr)
  note ok = mk_order_admission_ok [OF a]
  show "ad_intent a = i \<and> ad_submitted_at a = t" by (simp add: ok(1))
  assume "rd_accepted (ad_rejection_decision a)"
  then show "(\<exists>u. ad_activates_at a = Some u \<and> t \<le> u) \<and> oi_limit_price i \<noteq> None \<and> 0 < oi_quantity i"
    using ok(2) bounded_evaluate_accepts [OF d] by (auto simp: ok(1) within_bounds_def)
qed

lemma estimate_describes:
  assumes "estimate_book_fill touch prefix b sd limit q = Inr x"
  shows "fe_order_quantity x = q \<and> fe_side x = sd \<and> fe_limit_price x = limit \<and>
    (fe_liquidity_role x = TAKER \<longleftrightarrow> fe_components x \<noteq> [])"
  using assms by (auto simp: estimate_book_fill_def bindE_eq_Inr Let_def split: prod.splits)

lemma order_execution_default:
  "order_execution (estimate_book_fill touch prefix) (\<lambda>sd limit p. is_executable sd limit p touch)
     (admit_order (bounded_evaluate m) (activation_time l)) (configured_settlement payout)"
  by (intro order_execution.intro order_execution_axioms.intro fill_model_estimate)
    (blast dest: admitted_order configured_settlement_quantity estimate_describes)+

interpretation default: order_execution "estimate_book_fill touch prefix" "\<lambda>sd limit p. is_executable sd limit p touch"
  "admit_order (bounded_evaluate m) (activation_time l)" "configured_settlement payout"
  for touch prefix m l payout
  by (rule order_execution_default)

end
