(* ===== verification/Scenario_Reports.thy ===== *)
theory Scenario_Reports
  imports Scenario_Orders
begin

text \<open>
  The report of a run of \<open>Scenario_Runner\<close>: its artifacts, its metrics and the result over them. The lemmas show that the
  checks of the artifact, metric, result and run constructors accept whatever the orders of a run have produced, as long as
  the identifier of the scenario leaves room for the suffixes that the report appends to it.
\<close>

section \<open>Text\<close>

lemma not_padded_iff: "\<not> blank_or_padded s \<longleftrightarrow> s \<noteq> [] \<and> \<not> py_isspace (hd s) \<and> \<not> py_isspace (last s)"
proof (cases "s = [] \<or> py_isspace (hd s)")
  case True
  have "length (py_strip s) < length s" if "s \<noteq> []" "py_isspace (hd s)"
  proof -
    have "length (dropWhile py_isspace s) < length s" using that length_dropWhile_le [of py_isspace "tl s"] by (cases s) auto
    moreover have "length (py_strip s) \<le> length (dropWhile py_isspace s)"
      unfolding py_strip_def using length_dropWhile_le [of py_isspace "rev (dropWhile py_isspace s)"] by simp
    ultimately show ?thesis by simp
  qed
  then show ?thesis using True by (auto simp: blank_or_padded_def)
next
  case False
  then have d: "dropWhile py_isspace s = s" by (cases s) auto
  have "rev (dropWhile py_isspace (rev s)) = s \<longleftrightarrow> dropWhile py_isspace (rev s) = rev s" using rev_swap by auto
  also have "\<dots> \<longleftrightarrow> \<not> py_isspace (last s)"
  proof
    assume "\<not> py_isspace (last s)"
    then show "dropWhile py_isspace (rev s) = rev s" using False by (cases s rule: rev_cases) auto
  next
    assume e: "dropWhile py_isspace (rev s) = rev s"
    show "\<not> py_isspace (last s)"
    proof
      assume l: "py_isspace (last s)"
      obtain t x where "s = t @ [x]" using False by (cases s rule: rev_cases) auto
      then show False using e l length_dropWhile_le [of py_isspace "rev t"] by (auto dest: arg_cong [of _ _ length])
    qed
  qed
  finally show ?thesis using False by (simp add: blank_or_padded_def py_strip_def d)
qed

lemma text_append:
  assumes "\<not> blank_or_padded s" and "t \<noteq> []" and "\<not> py_isspace (last t)"
  shows "\<not> blank_or_padded (s @ t)"
  using assms by (simp add: not_padded_iff)

lemma length_nat_text: "n < 10 ^ Suc k \<Longrightarrow> length (nat_text n) \<le> Suc k"
proof (induction k arbitrary: n)
  case 0
  then show ?case by (subst nat_text.simps) simp
next
  case (Suc k)
  have "n div 10 < 10 ^ Suc k" using Suc.prems by (simp add: less_mult_imp_div_less mult.commute)
  then show ?case using Suc.IH [of "n div 10"] by (subst nat_text.simps) simp
qed

lemma numbered_text:
  assumes "valid_text s" and "length s \<le> 100" and "length part \<le> 12" and "0 \<le> n" and "n < 10 ^ 16"
  shows "valid_text (s @ part @ int_text n)"
proof -
  have "nat n < 10 ^ Suc 15" using assms(4,5) by simp
  then have "length (int_text n) \<le> 16" using length_nat_text [of "nat n" 15] assms(4) by (simp add: int_text_def)
  moreover have "\<not> blank_or_padded (s @ (part @ int_text n))"
    by (rule text_append) (use assms(1) int_text_last in \<open>simp_all add: valid_text_def\<close>)
  ultimately show ?thesis using assms(2,3) by (simp add: valid_text_def)
qed

section \<open>Artifacts\<close>

definition artifact_ok :: "simulation_artifact \<Rightarrow> bool" where
  "artifact_ok a \<longleftrightarrow> 0 \<le> at_sequence a \<and> valid_text (at_artifact_type a) \<and> valid_text (at_artifact_id a) \<and> valid_hash (at_artifact_hash a)"

lemma mk_artifact_iff: "mk_simulation_artifact a = Inr b \<longleftrightarrow> b = a \<and> artifact_ok a"
  by (auto simp: mk_simulation_artifact_def bindE_eq_Inr guards_ok_iff artifact_ok_def simp del: guards.simps)

lemma mapE_artifacts: "list_all artifact_ok as \<Longrightarrow> mapE mk_simulation_artifact as = Inr as"
  by (induction as) (auto simp: bindE_eq_Inr mk_artifact_iff)

lemma artifact_types:
  "valid_text ''simulation_order_result''" "valid_text ''simulation_fill_estimate''" "valid_text ''simulation_fee_estimates''"
  "valid_text ''simulation_slippage_estimates''" "valid_text ''simulation_cancel_result''" "valid_text ''simulation_settlement_result''"
  "valid_text ''simulation_disconnect_result''" "valid_text ''simulation_final_book''" "valid_text ''simulation_multi_leg_imbalance_result''"
  "valid_text ''simulation_scenario''"
  by (simp_all add: valid_text_def not_padded_iff py_isspace_def)

lemma when_some_simps [simp]:
  "list_all P (when_some v f) \<longleftrightarrow> pred_option (\<lambda>x. P (f x)) v" "map g (when_some v f) = when_some v (\<lambda>x. g (f x))"
  "distinct (when_some v f')" "set (when_some v f) = f ` set_option v"
  by (cases v; simp add: when_some_def)+

lemma output_artifact_simps [simp]:
  "at_sequence (output_artifact n t i h) = n"
  "artifact_ok (output_artifact n t i h) \<longleftrightarrow> 0 \<le> n \<and> valid_text t \<and> valid_text i \<and> valid_hash h"
  by (simp_all add: output_artifact_def artifact_ok_def)

lemma order_artifacts_ok:
  assumes "digests H" and "valid_text s" and "length s \<le> 100" and "0 \<le> base" and "0 \<le> so_sequence r" and "so_sequence r < 10 ^ 16"
  shows "list_all artifact_ok (order_artifacts H s base r)"
proof -
  have id: "valid_text (s @ part @ int_text (so_sequence r))" if "length part \<le> 12" for part
    by (rule numbered_text [OF assms(2,3) that assms(5,6)])
  have "valid_hash (H c)" for c using assms(1) by (simp add: digests_def)
  then show ?thesis
    using assms(4) id [of "'':order:''"] id [of "'':fill:''"] id [of "'':fees:''"] id [of "'':slippage:''"] id [of "'':cancel:''"]
      id [of "'':settlement:''"] id [of "'':disconnect:''"] artifact_types
    by (simp add: order_artifacts_def Let_def pred_option_def)
qed

lemma order_artifacts_sequences:
  "distinct (map at_sequence (order_artifacts H s base r)) \<and>
   set (map at_sequence (order_artifacts H s base r)) \<subseteq> {base..<base + 7}"
  unfolding order_artifacts_def Let_def map_append when_some_simps output_artifact_simps list.map set_append list.set
  by auto

lemma orders_artifacts_sequences:
  "distinct (map at_sequence (orders_artifacts H s base rs)) \<and>
   set (map at_sequence (orders_artifacts H s base rs)) \<subseteq> {base..<base + int (length rs) * 7}"
proof (induction rs arbitrary: base)
  case (Cons r rs)
  show ?case using order_artifacts_sequences [of H s base r] Cons [of "base + 7"] by (fastforce simp: disjoint_iff)
qed simp

lemma orders_artifacts_ok:
  assumes "digests H" and "valid_text s" and "length s \<le> 100" and "\<forall>r \<in> set rs. 0 \<le> so_sequence r \<and> so_sequence r < 10 ^ 16"
  shows "0 \<le> base \<Longrightarrow> list_all artifact_ok (orders_artifacts H s base rs)"
  using assms(4)
proof (induction rs arbitrary: base)
  case (Cons r rs)
  then show ?case using order_artifacts_ok [OF assms(1-3) Cons.prems(1), of r] by simp
qed simp

lemma run_artifacts_ok:
  assumes "digests H" and "valid_text (sn_scenario_id s)" and "length (sn_scenario_id s) \<le> 100"
    and "\<forall>r \<in> set rs. 0 \<le> so_sequence r \<and> so_sequence r < 10 ^ 16"
  obtains as where "scenario_run_artifacts H s book rs ml = Inr as" "distinct (map at_sequence as)"
proof -
  let ?id = "sn_scenario_id s"
  define first where "first = \<lparr>at_sequence = 0, at_artifact_type = ''simulation_scenario'', at_artifact_id = ?id,
    at_artifact_hash = scenario_hash H s, at_source_type = INFERRED_BEHAVIOR\<rparr>"
  define rest where "rest = [output_artifact 1 ''simulation_final_book'' (?id @ '':final_book'') (H (snapshot_canon book))] @
        orders_artifacts H ?id 10 rs @
        when_some ml (\<lambda>m. output_artifact (10 + int (length rs) * 7) ''simulation_multi_leg_imbalance_result''
          (?id @ '':multi_leg_imbalance'') (H (multi_leg_canon m)))"
  have hash: "valid_hash (H c)" for c using assms(1) by (simp add: digests_def)
  have suffix: "valid_text (?id @ '':final_book'')" "valid_text (?id @ '':multi_leg_imbalance'')"
    using assms(2,3) text_append [of ?id "'':final_book''"] text_append [of ?id "'':multi_leg_imbalance''"]
    by (simp_all add: valid_text_def py_isspace_def)
  have "artifact_ok first"
    using assms(2) artifact_types hash by (simp add: first_def artifact_ok_def scenario_hash_def)
  then have f: "scenario_result_artifact H s 0 = Inr first"
    by (simp add: scenario_result_artifact_def validate_item_sequence_def mk_artifact_iff flip: first_def)
  have "list_all artifact_ok rest"
    using orders_artifacts_ok [OF assms, of 10] suffix artifact_types hash
    by (simp add: rest_def pred_option_def)
  then have r: "mapE mk_simulation_artifact rest = Inr rest" by (rule mapE_artifacts)
  have "scenario_run_artifacts H s book rs ml = Inr (first # rest)"
    unfolding scenario_run_artifacts_def f rest_def [symmetric] by (simp add: r)
  moreover have "distinct (map at_sequence (first # rest))"
    using orders_artifacts_sequences [of H ?id 10 rs]
    by (fastforce simp: first_def rest_def)
  ultimately show thesis by (rule that)
qed

section \<open>Metrics\<close>

definition metric_ok :: "simulation_metric \<Rightarrow> bool" where
  "metric_ok m \<longleftrightarrow> valid_text (mt_name m) \<and> valid_text (mt_unit m)"

lemma mapE_metrics:
  assumes "list_all (\<lambda>(name, x, u). valid_text name \<and> valid_text u) rows"
  obtains ms where "mapE (\<lambda>(name, x, u). mk_simulation_metric \<lparr>mt_name = name, mt_value = x, mt_unit = u\<rparr>) rows = Inr ms"
    "map mt_name ms = map fst rows"
  using assms
proof (induction rows arbitrary: thesis)
  case (Cons row rows)
  obtain name x u where row: "row = (name, x, u)" by (cases row)
  obtain ms where "mapE (\<lambda>(name, x, u). mk_simulation_metric \<lparr>mt_name = name, mt_value = x, mt_unit = u\<rparr>) rows = Inr ms"
    "map mt_name ms = map fst rows" using Cons.IH Cons.prems(2) by auto
  then show ?case
    using Cons.prems(2) by (intro Cons.prems(1)) (auto simp: row mk_simulation_metric_def)
qed simp

lemma metric_names:
  "map fst (metric_rows s rs ml window d cur) =
     [''accepted_order_count'', ''filled_order_count'', ''cancel_action_count'', ''cancel_fill_race_count'',
      ''canceled_before_activation_count'', ''disconnect_window_count'', ''filled_quantity'', ''open_order_disconnect_count'',
      ''duplicate_market_event_count'', ''projected_market_event_count'', ''settled_payout_amount'', ''settled_winning_quantity'',
      ''settlement_estimate_count'', ''slippage_estimate_count'', ''total_fee_amount'', ''total_filled_notional'',
      ''total_net_fee_amount'', ''total_rebate_amount'', ''total_slippage_amount'', ''market_event_count'',
      ''multi_leg_imbalance_count'', ''multi_leg_imbalance_quantity'', ''multi_leg_leg_count'',
      ''multi_leg_target_shortfall_quantity'', ''order_action_count'', ''partial_fill_count'', ''rejected_order_count'']"
  by (simp add: metric_rows_def Let_def)

lemma metric_names_distinct: "distinct (map fst (metric_rows s rs ml window d cur))"
  by (simp add: metric_names)

definition plain :: "string \<Rightarrow> bool" where
  "plain s \<longleftrightarrow> s \<noteq> [] \<and> length s \<le> 128 \<and> list_all (\<lambda>c. c = CHR ''_'' \<or> is_lower c) s"

lemma plain_text:
  assumes "plain s"
  shows "valid_text s"
proof -
  have "\<not> py_isspace c" if "c = CHR ''_'' \<or> is_lower c" for c using that by (auto simp: py_isspace_def is_lower_def)
  then show ?thesis using assms by (auto simp: plain_def valid_text_def not_padded_iff list_all_iff)
qed

lemma metric_names_text: "list_all plain (map fst (metric_rows s rs ml window d cur))"
  unfolding metric_names by code_simp

lemma metric_units: "list_all (\<lambda>u. u \<in> {''count'', ''contracts'', ''payout_units'', ''price_units'', cur})
    (map (\<lambda>r. snd (snd r)) (metric_rows s rs ml window d cur))"
  by (simp add: metric_rows_def Let_def)

lemma metric_rows_text:
  assumes "valid_text cur"
  shows "list_all (\<lambda>(name, x, u). valid_text name \<and> valid_text u) (metric_rows s rs ml window d cur)"
proof -
  have "plain ''count''" "plain ''contracts''" "plain ''payout_units''" "plain ''price_units''" by code_simp+
  then have "valid_text u" if "u \<in> {''count'', ''contracts'', ''payout_units'', ''price_units'', cur}" for u
    using that assms plain_text by blast
  then show ?thesis
    using metric_names_text [of s rs ml window d cur] metric_units [of cur s rs ml window d] plain_text
    unfolding list_all_iff by fastforce
qed

lemma run_metrics_ok:
  assumes "disconnect_window_from_configuration read_time (sn_configuration s) = Inr window"
    and "fee_metric_currency s rs = Inr cur" and "valid_text cur"
  obtains ms where "scenario_run_metrics H read_time s rs ml = Inr ms" "distinct (map metric_key ms)"
proof -
  let ?rows = "metric_rows s rs ml window (duplicate_market_event_count H (sn_market_events s)) cur"
  obtain ms where ms: "mapE (\<lambda>(name, x, u). mk_simulation_metric \<lparr>mt_name = name, mt_value = x, mt_unit = u\<rparr>) ?rows = Inr ms"
    "map mt_name ms = map fst ?rows" by (rule mapE_metrics [OF metric_rows_text [OF assms(3)]])
  have "map fst (map metric_key ms) = map mt_name ms" by (simp add: metric_key_def)
  then have "distinct (map fst (map metric_key ms))" using metric_names_distinct by (simp only: ms(2))
  then have "distinct (map metric_key ms)" by (rule distinct_map [THEN iffD1, THEN conjunct1])
  moreover have "scenario_run_metrics H read_time s rs ml = Inr ms"
    by (simp add: scenario_run_metrics_def assms(1,2) ms(1))
  ultimately show thesis using that by blast
qed

section \<open>The steps of a run\<close>

lemma prepared_default:
  assumes "runner_from_configuration c status = Inr rn" and "prepare_run read_time rn s = Inr u"
  obtains touch prefix m l payout where
    "ru_fill u = estimate_book_fill touch prefix" "ru_admit u = admit_order (bounded_evaluate m) (activation_time l)"
    "snd (ru_settlement u) = configured_settlement payout"
    "disconnect_window_from_configuration read_time (sn_configuration s) = Inr (ru_window u)"
    "m = default_rejection_model" "ru_market_status u = status"
    "\<exists>rules. fee_table_from_configuration (sn_configuration s) (ob_exchange (sn_initial_book s)) = Inr rules \<and>
       ru_fee u = table_fee_model rules"
proof -
  obtain m l where rn: "mk_bounded_rejection_model default_rejection_model = Inr m"
    "rn = \<lparr>rm_admit = admit_order (bounded_evaluate m) (activation_time l),
          rm_fill = (if sc_fill_model c = ''touch_fill_v1'' then touch_fill else trade_through_fill),
          rm_fee = None, rm_settlement = None, rm_slippage = None, rm_market_status = status\<rparr>"
    using assms(1) by (auto simp: runner_from_configuration_def bindE_eq_Inr)
  have m: "m = default_rejection_model" using rn(1) by (auto simp: mk_bounded_rejection_model_def bindE_eq_Inr)
  obtain fees slippage settling winners balance window where
    st: "settlement_model_for_scenario s None = Inr settling" and fees: "fee_model_for_scenario s None = Inr fees"
    and w: "disconnect_window_from_configuration read_time (sn_configuration s) = Inr window"
    and u: "u = \<lparr>ru_admit = rm_admit rn, ru_fill = rm_fill rn, ru_fee = fees, ru_slippage = slippage, ru_settlement = settling,
      ru_market_status = rm_market_status rn, ru_winners = winners, ru_available_balance = balance, ru_window = window\<rparr>"
    using assms(2) rn(2) by (auto simp: prepare_run_def bindE_eq_Inr simp del: guards.simps)
  obtain payout where "snd settling = configured_settlement payout"
  proof (cases "sc_settlement_model (sn_configuration s) = ''none_v1''")
    case True
    then have "snd settling = configured_settlement None"
      using st by (auto simp: settlement_model_for_scenario_def reraise_as_def bindE_eq_Inr configured_settlement_def fun_eq_iff
          split: sum.splits simp del: guards.simps)
    then show thesis by (rule that)
  next
    case False
    then obtain p where "settling = (False, \<lambda>outcome q winners. binary_settlement_estimate p outcome (shortest_decimal q) winners)"
      using st by (auto simp: settlement_model_for_scenario_def reraise_as_def bindE_eq_Inr split: sum.splits simp del: guards.simps)
    then have "snd settling = configured_settlement (Some p)" by (simp add: configured_settlement_def fun_eq_iff)
    then show thesis by (rule that)
  qed
  then show thesis
    using that [of "sc_fill_model c = ''touch_fill_v1''"
        "if sc_fill_model c = ''touch_fill_v1'' then ''simulation_touch'' else ''simulation_trade_through''" m l payout]
    fees
    by (auto simp: u rn(2) w m touch_fill_def trade_through_fill_def fee_model_for_scenario_def bindE_eq_Inr)
qed

lemma run_steps:
  assumes "run_scenario H read_time rn s = Inr R"
  obtains u rs used ml where "prepare_run read_time rn s = Inr u" "project_book_until H s None = Inr (rn_final_book R)"
    "run_order_actions H s u 0 [] (order_intent_actions (sn_order_actions s)) = Inr (rs, used)"
    "validate_no_unmatched_cancel_actions (sn_order_actions s) used = Inr ()"
    "multi_leg_imbalance_from_configuration (sn_configuration s) rs = Inr ml"
    "build_scenario_run_result H read_time s (rn_final_book R) rs ml = Inr (rn_result R)"
    "normalize_order_results rs = Inr (rn_order_results R)" "rn_scenario R = s" "rn_multi_leg_imbalance_result R = ml"
    "validate_expected_final_book (Some (rn_final_book R)) (sn_initial_book s) = Inr ()"
proof -
  obtain u book rs used ml result where p: "prepare_run read_time rn s = Inr u" "project_book_until H s None = Inr book"
    "run_order_actions H s u 0 [] (order_intent_actions (sn_order_actions s)) = Inr (rs, used)"
    "validate_no_unmatched_cancel_actions (sn_order_actions s) used = Inr ()"
    "multi_leg_imbalance_from_configuration (sn_configuration s) rs = Inr ml"
    "build_scenario_run_result H read_time s book rs ml = Inr result"
    and mk: "mk_scenario_run H read_time
       \<lparr>rn_scenario = s, rn_final_book = book, rn_order_results = rs, rn_result = result,
        rn_multi_leg_imbalance_result = ml, rn_source_type = SIMULATED_OUTPUT\<rparr> = Inr R"
    using assms by (auto simp: run_scenario_def bindE_eq_Inr)
  then obtain os where os: "normalize_order_results rs = Inr os" "validate_expected_final_book (Some book) (sn_initial_book s) = Inr ()" "R = \<lparr>rn_scenario = s, rn_final_book = book, rn_order_results = os,
      rn_result = result, rn_multi_leg_imbalance_result = ml, rn_source_type = SIMULATED_OUTPUT\<rparr>"
    by (auto simp: mk_scenario_run_def bindE_eq_Inr split: if_splits)
  show thesis by (rule that [of u rs used ml]) (use p os in simp_all)
qed

lemma sequences_normal:
  assumes "map so_sequence rs = map (\<lambda>j. 0 + int j) [0..<n]"
  shows "normalize_order_results rs = Inr rs"
proof -
  have "sorted (map so_sequence rs)" "distinct (map so_sequence rs)"
    by (simp_all add: assms sorted_map distinct_map inj_on_def)
  then show ?thesis by (simp add: normalize_order_results_def sort_key_id_if_sorted Let_def)
qed

lemma no_cancels: "a \<in> set (order_intent_actions as) \<Longrightarrow> a \<in> set as \<and> \<not> is_cancel (sx_action a)"
  by (simp add: order_intent_actions_def)

section \<open>When a run completes\<close>

lemma currency_text: "valid_currency c \<Longrightarrow> valid_text c"
proof -
  assume "valid_currency c"
  then have c: "length c = 3" "list_all is_upper c" by (simp_all add: validate_currency_def split: if_splits)
  have "\<not> py_isspace x" if "is_upper x" for x using that by (auto simp: py_isspace_def is_upper_def)
  moreover have "c \<noteq> []" using c(1) by auto
  ultimately show "valid_text c" using c by (simp add: valid_text_def not_padded_iff list_all_iff)
qed

lemma fee_table_currency:
  assumes "fee_table_from_configuration c exchange = Inr rules"
  shows "rules \<noteq> []" and "distinct (map rule_key rules)" and "\<And>r. r \<in> set rules \<Longrightarrow> valid_currency (fr_currency r)"
proof -
  define rs where "rs = bindE (mapE (\<lambda>role. fee_rule_from_parameters exchange role
      (case parameter c ''fee.currency'' of None \<Rightarrow> ''USD'' | Some s \<Rightarrow> s) c) [TAKER, MAKER, UNKNOWN_ROLE]) mk_fee_table"
  have "rs = Inr rules"
    using assms unfolding fee_table_from_configuration_def Let_def rs_def [symmetric] by (cases rs) (simp_all add: reraise_as_def)
  then obtain cur where p: "mapE (\<lambda>role. fee_rule_from_parameters exchange role cur c) [TAKER, MAKER, UNKNOWN_ROLE] = Inr rules"
    "mk_fee_table rules = Inr rules" unfolding rs_def bindE_eq_Inr mk_fee_table_iff by blast
  show "rules \<noteq> []" "distinct (map rule_key rules)" using p(2) by (simp_all add: mk_fee_table_iff)
  have "valid_currency (fr_currency r)" if "fee_rule_from_parameters exchange role cur c = Inr r" for role r
    using that by (auto simp: fee_rule_from_parameters_def mk_fee_rule_def bindE_eq_Inr dest: validate_currency_ok)
  then show "valid_currency (fr_currency r)" if "r \<in> set rules" for r using mapE_elem [OF p(1) that] by blast
qed

lemma table_fee_currency:
  assumes "table_fee_model rules exchange p q role = Inr e" and "distinct (map rule_key rules)"
    and "\<And>r. r \<in> set rules \<Longrightarrow> valid_currency (fr_currency r)"
  shows "valid_currency (fs_currency e)"
  using assms by (auto simp: table_fee_model_def fee_estimate_def bindE_eq_Inr Let_def rule_for_iff simp del: guards.simps)

context order_execution
begin

lemma order_fee_currency:
  assumes "run_order_action H s u a n c = Inr r"
    and "ru_fill u = evaluate" and "ru_admit u = admit" and "snd (ru_settlement u) = settle" and "0 \<le> n"
    and "ru_fee u = table_fee_model rules" and "distinct (map rule_key rules)"
    and "\<And>r. r \<in> set rules \<Longrightarrow> valid_currency (fr_currency r)" and "e \<in> set (so_fee_estimates r)"
  shows "valid_currency (fs_currency e)"
  using assms(1-5)
proof (cases rule: run_order_cases)
  case (executed i adm t limit book e0 e' fs ss k st d)
  have e: "e \<in> set fs" using assms(9) by (simp add: executed(17) executed_result_def)
  obtain x :: fill_component where "table_fee_model rules (ob_exchange (sn_initial_book s)) (fc_price x) (fc_quantity x) (fc_liquidity_role x) = Inr e"
    using mapE_elem [OF executed(12) [unfolded estimate_fees_def assms(6)] e] by blast
  then show ?thesis by (rule table_fee_currency [OF _ assms(7,8)])
next
  case (rejected i adm)
  show ?thesis using assms(9) by (simp add: rejected(2) no_outputs_def)
next
  case (cancelled i adm c' k t)
  show ?thesis using assms(9) by (simp add: cancelled(8) no_outputs_def)
qed

end

lemma final_book:
  assumes "scenario_valid s" and "project_book_until H s None = Inr b"
  shows "validate_expected_final_book (Some b) (sn_initial_book s) = Inr () \<longleftrightarrow> ob_is_valid b"
proof -
  note p = projected_books [where P = "\<lambda>_. True" and r = "sn_initial_book s",
      OF assms(2) [unfolded project_book_until_def] scenario_facts(3) [OF assms(1)]]
  have levels: "payload_levels (\<lambda>_. True) e" for e by (cases e) (simp_all add: list_all_iff)
  have "same_lineage (ob_market_id b) (ob_contract_id b) (ob_exchange b) (sn_initial_book s)"
    by (rule p [THEN conjunct2, THEN conjunct2])
      (use scenario_facts(4) [OF assms(1)] levels in \<open>simp_all add: same_lineage_def\<close>)
  then show ?thesis by (auto simp: validate_expected_final_book_def guards_ok_iff simp del: guards.simps)
qed

lemma run_fee_currency:
  assumes "runner_from_configuration c status = Inr rn" and "prepare_run read_time rn s = Inr u"
    and "run_order_actions H s u 0 [] as = Inr (rs, used)"
  obtains cur where "fee_metric_currency s rs = Inr cur" "valid_text cur"
proof -
  obtain touch prefix m l payout rules where u: "ru_fill u = estimate_book_fill touch prefix"
    "ru_admit u = admit_order (bounded_evaluate m) (activation_time l)" "snd (ru_settlement u) = configured_settlement payout"
    and fees: "fee_table_from_configuration (sn_configuration s) (ob_exchange (sn_initial_book s)) = Inr rules"
      "ru_fee u = table_fee_model rules" using prepared_default [OF assms(1,2)] by metis
  note table = fee_table_currency [OF fees(1)]
  note ra = default.run_actions [OF assms(3) u order.refl]
  show thesis
  proof (cases "fees_of rs")
    case Nil
    have "valid_currency (fr_currency (rules ! 0))" using table(1) by (intro table(3)) simp
    then show thesis using that Nil fees(1) currency_text by (simp add: fee_metric_currency_def)
  next
    case (Cons e es)
    then have "e \<in> set (fees_of rs)" by simp
    then obtain r where r: "r \<in> set rs" "e \<in> set (so_fee_estimates r)" by (auto simp: fees_of_def)
    obtain us where step: "run_order_action H s u (so_action r) (so_sequence r) (matching_cancel_action s (so_action r) us) = Inr r"
      using ra r(1) by blast
    have "so_sequence r \<in> set (map so_sequence rs)" using r(1) by simp
    then have n: "0 \<le> so_sequence r" using ra by auto
    have "valid_currency (fs_currency e)"
      by (rule default.order_fee_currency [OF step u n fees(2) table(2,3) r(2)])
    then show thesis using that Cons currency_text by (simp add: fee_metric_currency_def)
  qed
qed

lemma report_ok:
  assumes "digests H" and "scenario_valid s" and "length (sn_scenario_id s) \<le> 100" and "length (sn_order_actions s) < 10 ^ 16"
    and "runner_from_configuration c status = Inr rn" and "prepare_run read_time rn s = Inr u"
    and "run_order_actions H s u 0 [] (order_intent_actions (sn_order_actions s)) = Inr (rs, used)"
  obtains R where "build_scenario_run_result H read_time s book rs ml = Inr R" "normalize_order_results rs = Inr rs"
proof -
  obtain touch prefix m l payout where u: "ru_fill u = estimate_book_fill touch prefix"
    "ru_admit u = admit_order (bounded_evaluate m) (activation_time l)" "snd (ru_settlement u) = configured_settlement payout"
    and w: "disconnect_window_from_configuration read_time (sn_configuration s) = Inr (ru_window u)"
    by (rule prepared_default [OF assms(5,6)])
  note ra = default.run_actions [OF assms(7) u order.refl]
  have norm: "normalize_order_results rs = Inr rs" using sequences_normal ra by simp
  have "length (order_intent_actions (sn_order_actions s)) < 10 ^ 16"
    using assms(4) length_filter_le [of _ "sn_order_actions s"] unfolding order_intent_actions_def by (rule le_less_trans [rotated])
  then have "0 \<le> n \<and> n < 10 ^ 16" if "n \<in> set (map so_sequence rs)" for n using that ra by auto
  then have seqs: "\<forall>r \<in> set rs. 0 \<le> so_sequence r \<and> so_sequence r < 10 ^ 16" by simp
  obtain as where as: "scenario_run_artifacts H s book rs ml = Inr as" "distinct (map at_sequence as)"
    by (rule run_artifacts_ok [OF assms(1) scenario_facts(1) [OF assms(2)] assms(3) seqs])
  obtain cur where cur: "fee_metric_currency s rs = Inr cur" "valid_text cur" by (rule run_fee_currency [OF assms(5-7)])
  obtain ms where ms: "scenario_run_metrics H read_time s rs ml = Inr ms" "distinct (map metric_key ms)"
    by (rule run_metrics_ok [OF w cur])
  have "build_scenario_run_result H read_time s book rs ml = Inr (result_of_run H (sn_configuration s) as ms)"
    by (simp add: build_scenario_run_result_def norm as(1) ms(1) build_simulation_result_eq [OF assms(1) as(2) ms(2)])
  then show thesis using norm by (rule that)
qed

section \<open>Cancels\<close>

lemma matching_some:
  assumes "matching_cancel_action s a used = Some c"
  shows "c \<in> set (cancel_request_actions (sn_order_actions s))" and "cancel_matches_order_intent c a (ob_exchange (sn_initial_book s)) used"
proof -
  define cs where "cs = filter (\<lambda>c. cancel_matches_order_intent c a (ob_exchange (sn_initial_book s)) used)
    (cancel_request_actions (sn_order_actions s))"
  have "cs \<noteq> [] \<and> c = arg_min_list (\<lambda>c. (sx_scheduled_at c, sx_sequence c)) cs"
    using assms by (simp add: matching_cancel_action_def cs_def [symmetric] Let_def split: if_splits)
  then have "c \<in> set cs" by (simp add: arg_min_list_in)
  then show "c \<in> set (cancel_request_actions (sn_order_actions s))" "cancel_matches_order_intent c a (ob_exchange (sn_initial_book s)) used"
    by (simp_all add: cs_def)
qed

text \<open>What a result says of its cancel.\<close>

definition cancel_outcome_code :: "fill_estimate option \<Rightarrow> string" where
  "cancel_outcome_code fill =
     (case fill of None \<Rightarrow> CANCEL_BEFORE_ACTIVATION
      | Some e \<Rightarrow> if has_fill e then CANCEL_FILL_RACE_LOST else CANCEL_AFTER_ACTIVATION_NO_FILL)"

definition cancels :: "scenario_order_result list \<Rightarrow> scenario_cancel_result list" where
  "cancels results = concat (map (\<lambda>r. when_some (so_cancel_result r) (\<lambda>k. k)) results)"

definition cancel_of_order :: "simulation_scenario \<Rightarrow> scenario_order_result \<Rightarrow> scenario_cancel_result \<Rightarrow> bool" where
  "cancel_of_order s r k \<longleftrightarrow>
     (\<exists>c i. sx_action (kr_action k) = Cancel c \<and> sx_action (so_action r) = Intent i \<and> cr_correlation_id c = oi_correlation_id i \<and>
        cr_exchange c = ob_exchange (sn_initial_book s)) \<and>
     rd_accepted (ad_rejection_decision (so_admission r)) \<and> kr_target_order_sequence k = so_sequence r \<and>
     sx_scheduled_at (so_action r) \<le> kr_effective_at k \<and> kr_effective_at k = sx_scheduled_at (kr_action k) \<and>
     kr_outcome_code k = cancel_outcome_code (so_fill_estimate r)"

context order_execution
begin

lemma order_cancel:
  assumes "run_order_action H s u a n c = Inr r"
    and "ru_fill u = evaluate" and "ru_admit u = admit" and "snd (ru_settlement u) = settle" and "0 \<le> n"
  shows "(rd_accepted (ad_rejection_decision (so_admission r)) \<longrightarrow> map_option kr_action (so_cancel_result r) = c) \<and>
    (\<forall>k. so_cancel_result r = Some k \<longrightarrow>
      c = Some (kr_action k) \<and> kr_sequence k = sx_sequence (kr_action k) \<and>
      rd_accepted (ad_rejection_decision (so_admission r)) \<and> kr_target_order_sequence k = so_sequence r \<and>
      kr_effective_at k = sx_scheduled_at (kr_action k) \<and> kr_outcome_code k = cancel_outcome_code (so_fill_estimate r))"
  using assms(1-5)
proof (cases rule: run_order_cases)
  case (rejected i adm)
  show ?thesis by (simp add: rejected(2,3) no_outputs_def)
next
  case (cancelled i adm c' k' t)
  show ?thesis using cancelled(6) by (auto simp: cancelled(2,4,8) no_outputs_def cancel_result_ok cancel_outcome_code_def)
next
  case (executed i adm t limit book e0 e fs ss k' st d)
  show ?thesis
    using executed(14)
    by (auto simp: executed(2,17) executed_result_def cancel_outcome_def bindE_eq_Inr cancel_result_ok cancel_outcome_code_def
        split: option.splits)
qed

lemma order_cancel_matches:
  assumes "run_order_action H s u a n (matching_cancel_action s a used) = Inr r"
    and "ru_fill u = evaluate" and "ru_admit u = admit" and "snd (ru_settlement u) = settle" and "0 \<le> n"
    and "so_cancel_result r = Some k"
  shows "cancel_of_order s r k" and "kr_sequence k = sx_sequence (kr_action k)" and "kr_sequence k \<notin> set used"
    and "kr_action k \<in> set (cancel_request_actions (sn_order_actions s))"
proof -
  have k: "matching_cancel_action s a used = Some (kr_action k)" "kr_sequence k = sx_sequence (kr_action k)"
    "rd_accepted (ad_rejection_decision (so_admission r))" "kr_target_order_sequence k = so_sequence r"
    "kr_effective_at k = sx_scheduled_at (kr_action k)" "kr_outcome_code k = cancel_outcome_code (so_fill_estimate r)"
    using order_cancel [OF assms(1-5)] assms(6) by blast+
  have a: "so_action r = a" using run_order_identity [OF assms(1-5)] by simp
  note m = matching_some [OF k(1)]
  show "kr_sequence k = sx_sequence (kr_action k)" by (rule k(2))
  show "kr_sequence k \<notin> set used" using m(2) k(2) by (simp add: cancel_matches_order_intent_def split: if_splits)
  show "kr_action k \<in> set (cancel_request_actions (sn_order_actions s))" by (rule m(1))
  show "cancel_of_order s r k"
    using m(2) k by (auto simp: cancel_of_order_def a cancel_matches_order_intent_def split: if_splits order_payload.splits)
qed

lemma run_cancels:
  assumes "run_order_actions H s u n used as = Inr (rs, used')"
    and "ru_fill u = evaluate" and "ru_admit u = admit" and "snd (ru_settlement u) = settle" and "0 \<le> n"
  shows "set used' = set (map kr_sequence (cancels rs)) \<union> set used \<and>
    distinct (map kr_sequence (cancels rs)) \<and> set (map kr_sequence (cancels rs)) \<inter> set used = {} \<and>
    (\<forall>r \<in> set rs. \<forall>k. so_cancel_result r = Some k \<longrightarrow> cancel_of_order s r k \<and> kr_sequence k = sx_sequence (kr_action k) \<and>
      kr_action k \<in> set (cancel_request_actions (sn_order_actions s)))"
  using assms(1,5)
proof (induction as arbitrary: n used rs)
  case (Cons a as)
  obtain r rs' where r: "run_order_action H s u a n (matching_cancel_action s a used) = Inr r" "rs = r # rs'"
    "run_order_actions H s u (n + 1) (case so_cancel_result r of None \<Rightarrow> used | Some k \<Rightarrow> kr_sequence k # used) as = Inr (rs', used')"
    using Cons.prems(1) by (auto simp: bindE_eq_Inr)
  have n: "0 \<le> n + 1" using Cons.prems(2) by simp
  note IH = Cons.IH [OF r(3) n]
  show ?case
  proof (cases "so_cancel_result r")
    case None
    then show ?thesis using IH by (simp add: r(2) cancels_def when_some_def)
  next
    case (Some k)
    then show ?thesis using IH order_cancel_matches [OF r(1) assms(2-4) Cons.prems(2) Some] by (auto simp: r(2) cancels_def when_some_def)
  qed
qed (simp add: cancels_def)

end

end
