(* ===== verification/Scenario_Samples.thy ===== *)
theory Scenario_Samples
  imports Scenario_Reports
begin

text \<open>
  A configuration, a resting order, trades and cancels for the witnesses of \<open>Scenario_Properties\<close>: an order to buy ten
  contracts at one half, below the best ask of \<open>sample_book\<close>, which rests until sellers trade with it.
\<close>

definition sample_hash :: hasher where
  "sample_hash _ = ''sha256:'' @ replicate 64 CHR ''0''"

definition sample_configuration :: simulation_configuration where
  "sample_configuration =
     \<lparr>sc_simulation_version = ''v1'', sc_fill_model = ''touch_fill_v1'', sc_queue_model = ''none_v1'', sc_latency_model = ''fixed_latency_v1'',
      sc_fee_model = ''fee_table_v1'', sc_rejection_model = ''bounded_rejection_v1'', sc_slippage_model = ''none_v1'',
      sc_settlement_model = ''none_v1'', sc_random_seed = 0, sc_fixed_latency_ms = Some 0, sc_maker_fill_probability = None,
      sc_taker_slippage_bps = None, sc_parameters = []\<rparr>"

definition sample_trade :: "rat \<Rightarrow> trade" where
  "sample_trade q =
     \<lparr>td_trade_id = ''t'', td_exchange = ''e'', td_exchange_trade_id = ''x'', td_market_id = ''m'', td_contract_id = ''c'',
      td_outcome_id = ''o'', td_price = 1 / 2, td_quantity = q, td_aggressor_side = Some SELL, td_liquidity_role = UNKNOWN_ROLE,
      td_exchange_occurred_at = 0, td_received_at = 0, td_sequence = None\<rparr>"

definition sample_cancel :: cancel_order_request where
  "sample_cancel =
     \<lparr>cr_cancel_request_id = ''q'', cr_order_id = ''ord'', cr_exchange = ''e'', cr_account_id = ''acc'', cr_client_order_id = ''cl'',
      cr_exchange_order_id = None, cr_requested_at = 0, cr_idempotency_key = ''k'', cr_correlation_id = ''x''\<rparr>"

definition scheduled :: "int \<Rightarrow> instant \<Rightarrow> order_payload \<Rightarrow> scheduled_order_action" where
  "scheduled n t p = \<lparr>sx_sequence = n, sx_scheduled_at = t, sx_action = p, sx_source_type = INFERRED_BEHAVIOR\<rparr>"

definition traded :: "int \<Rightarrow> instant \<Rightarrow> rat \<Rightarrow> scheduled_market_event" where
  "traded n t q = \<lparr>sk_sequence = n, sk_scheduled_at = t, sk_event = Traded (sample_trade q), sk_source_type = OBSERVED_FACT\<rparr>"

definition sample_scenario :: "scheduled_market_event list \<Rightarrow> scheduled_order_action list \<Rightarrow> simulation_scenario" where
  "sample_scenario events actions =
     \<lparr>sn_scenario_id = ''s1'', sn_name = ''sample'', sn_configuration = sample_configuration, sn_initial_book = sample_book,
      sn_market_events = events, sn_order_actions = actions, sn_expected_fills = [], sn_expected_final_book = None,
      sn_expected_final_book_source_type = None, sn_tags = [], sn_metadata = []\<rparr>"

definition resting_intent :: order_intent where
  "resting_intent = sample_intent\<lparr>oi_limit_price := Some (1 / 2)\<rparr>"

definition resting_actions :: "scheduled_order_action list" where
  "resting_actions = [scheduled 0 1000 (Intent resting_intent), scheduled 1 5000 (Cancel sample_cancel)]"

definition resting_scenario :: simulation_scenario where
  "resting_scenario = sample_scenario [traded 0 2000 4] resting_actions"

lemma sample_scenario_simps [simp]:
  "sn_scenario_id (sample_scenario es as) = ''s1''" "sn_configuration (sample_scenario es as) = sample_configuration"
  "sn_initial_book (sample_scenario es as) = sample_book" "sn_market_events (sample_scenario es as) = es"
  "sn_order_actions (sample_scenario es as) = as"
  by (simp_all add: sample_scenario_def)

lemma scheduled_simps [simp]:
  "sx_sequence (scheduled n t p) = n" "sx_scheduled_at (scheduled n t p) = t" "sx_action (scheduled n t p) = p"
  "sk_sequence (traded n t q) = n" "sk_scheduled_at (traded n t q) = t" "sk_event (traded n t q) = Traded (sample_trade q)"
  by (simp_all add: scheduled_def traded_def)

lemma resting_intent_simps [simp]:
  "oi_limit_price resting_intent = Some (1 / 2)" "oi_quantity resting_intent = 10" "oi_side resting_intent = BUY"
  "oi_outcome_id resting_intent = ''o''" "oi_correlation_id resting_intent = ''x''" "oi_post_only resting_intent = False"
  by (simp_all add: resting_intent_def sample_intent_def)

lemma sample_digests: "digests sample_hash"
proof -
  have "valid_hash (''sha256:'' @ replicate 64 CHR ''0'')" by code_simp
  then show ?thesis by (simp add: digests_def sample_hash_def)
qed

section \<open>The models of the sample\<close>

definition sample_rules :: "fee_rule list" where
  "sample_rules = map (\<lambda>role. \<lparr>fr_exchange = ''e'', fr_liquidity_role = role, fr_currency = ''USD'', fr_fee_rate_bps = dec_zero,
     fr_fixed_fee = dec_zero, fr_rebate_rate_bps = dec_zero, fr_fixed_rebate = dec_zero\<rparr>) [TAKER, MAKER, UNKNOWN_ROLE]"

definition sample_runner :: "market_status \<Rightarrow> runner" where
  "sample_runner status =
     \<lparr>rm_admit = admit_order (bounded_evaluate default_rejection_model) (activation_time 0), rm_fill = touch_fill,
      rm_fee = None, rm_settlement = None, rm_slippage = None, rm_market_status = status\<rparr>"

definition sample_setup :: "market_status \<Rightarrow> run_setup" where
  "sample_setup status =
     \<lparr>ru_admit = admit_order (bounded_evaluate default_rejection_model) (activation_time 0), ru_fill = touch_fill,
      ru_fee = table_fee_model sample_rules,
      ru_slippage = (\<lambda>sd p q role. no_slippage_estimate sd (shortest_decimal p) (shortest_decimal q) role),
      ru_settlement = (True, \<lambda>outcome q winners. no_settlement_estimate outcome (shortest_decimal q) winners),
      ru_market_status = status, ru_winners = [], ru_available_balance = None, ru_window = None\<rparr>"

lemma sample_runner_built: "runner_from_configuration sample_configuration status = Inr (sample_runner status)"
  by (simp add: runner_from_configuration_def validate_runner_configuration_def sample_configuration_def
      fixed_latency_from_configuration_def sample_runner_def mk_bounded_rejection_model_def default_rejection_model_def
      fixed_latency_from_milliseconds_def mk_fixed_latency_def max_timedelta_def)

lemma sample_fee_table: "fee_table_from_configuration sample_configuration ''e'' = Inr sample_rules"
  by code_simp

lemma sample_prepared: "prepare_run read_time (sample_runner status) (sample_scenario es as) = Inr (sample_setup status)"
proof -
  have "validate_runner_configuration sample_configuration = Inr ()" by code_simp
  moreover have "winning_outcome_ids_from_configuration sample_configuration = Inr []" by code_simp
  moreover have "available_balance_from_configuration sample_configuration = Inr None" by code_simp
  moreover have "disconnect_window_from_configuration read_time sample_configuration = Inr None"
    by (simp add: disconnect_window_from_configuration_def parameter_def sample_configuration_def)
  moreover have "ob_exchange sample_book = ''e''" by (simp add: sample_book_def)
  ultimately show ?thesis
    by (simp add: prepare_run_def sample_runner_def fee_model_for_scenario_def sample_fee_table slippage_model_for_scenario_def
        settlement_model_for_scenario_def sample_setup_def no_slippage_from_configuration_def no_settlement_from_configuration_def
        reraise_as_def)
      (simp add: sample_configuration_def)
qed

section \<open>The resting order\<close>

definition resting_admission :: "instant \<Rightarrow> order_admission" where
  "resting_admission t =
     \<lparr>ad_intent = resting_intent, ad_market_status = OPEN,
      ad_rejection_decision = \<lparr>rd_accepted = True, rd_reason_code = ORDER_ACCEPTED,
        rd_reason_text = ''order accepted by simulation rejection model''\<rparr>,
      ad_submitted_at = t, ad_accepted_at = Some t, ad_activates_at = Some t, ad_required_balance = None,
      ad_available_balance = None, ad_source_type = SIMULATED_OUTPUT\<rparr>"

lemma resting_admitted:
  "t \<le> max_datetime \<Longrightarrow>
     admit_order (bounded_evaluate default_rejection_model) (activation_time 0) resting_intent OPEN t None None = Inr (resting_admission t)"
  by (simp add: admit_order_def bounded_evaluate_def rejection_ladder_def default_rejection_model_def activation_time_def
      mk_order_admission_def validate_activation_lineage_def resting_admission_def)

definition resting_estimate :: "rat \<Rightarrow> fill_estimate" where
  "resting_estimate q =
     \<lparr>fe_side = BUY, fe_limit_price = 1 / 2, fe_order_quantity = 10, fe_filled_quantity = q, fe_remaining_quantity = 10 - q,
      fe_average_fill_price = (if q = 0 then None else Some (1 / 2)), fe_liquidity_role = (if q = 0 then UNKNOWN_ROLE else MAKER),
      fe_components = (if q = 0 then [] else [\<lparr>fc_price = 1 / 2, fc_quantity = q, fc_liquidity_role = MAKER\<rparr>]),
      fe_reason_code = (if q = 0 then ''simulation_touch_no_fill'' else ''simulation_resting_trade_partial_fill'')\<rparr>"

lemma resting_not_taken: "touch_fill sample_book BUY (1 / 2) 10 = Inr (resting_estimate 0)"
  by code_simp

lemma four_of_ten: "dsub 10 4 = (6 :: rat)" "dsub 10 6 = (4 :: rat)" "resting_average_price [\<lparr>fc_price = 1 / 2, fc_quantity = 4, fc_liquidity_role = MAKER\<rparr>] = 1 / 2"
  by code_simp+

lemma sample_digits:
  "shortest_decimal (1 / 2) = \<lparr>dt_coefficient = 5, dt_exponent = - 1\<rparr>" "shortest_decimal 4 = \<lparr>dt_coefficient = 4, dt_exponent = 0\<rparr>"
  by code_simp+

lemma sample_bounded:
  "bounded \<lparr>dt_coefficient = 5, dt_exponent = - 1\<rparr>" "bounded \<lparr>dt_coefficient = 4, dt_exponent = 0\<rparr>"
  "dec_value \<lparr>dt_coefficient = 5, dt_exponent = - 1\<rparr> = 1 / 2" "dec_value \<lparr>dt_coefficient = 4, dt_exponent = 0\<rparr> = 4"
  by (simp_all add: bounded_def dt_digits_def dt_adjusted_def dec_value_def ndigits_small power_int_minus)

lemma four_charged:
  obtains f x where "table_fee_model sample_rules ''e'' (1 / 2) 4 MAKER = Inr f"
    "no_slippage_estimate BUY (shortest_decimal (1 / 2)) (shortest_decimal 4) MAKER = Inr x"
proof -
  have p: "parse_bounded_decimal f \<lparr>dt_coefficient = 5, dt_exponent = - 1\<rparr> = Inr (1 / 2)"
    "parse_bounded_decimal f \<lparr>dt_coefficient = 4, dt_exponent = 0\<rparr> = Inr 4" for f
    using sample_bounded by (simp_all add: parse_bounded_iff)
  have "fee_validate_text F_exchange ''e'' = Inr ''e''" by code_simp
  then have "\<exists>f. table_fee_model sample_rules ''e'' (1 / 2) 4 MAKER = Inr f"
    unfolding table_fee_model_def fee_estimate_def sample_digits by (simp add: p sample_rules_def Let_def)
  moreover have "\<exists>x. no_slippage_estimate BUY (shortest_decimal (1 / 2)) (shortest_decimal 4) MAKER = Inr x"
    unfolding no_slippage_estimate_def sample_digits using sample_bounded by (auto simp: bindE_eq_Inr validate_slippage_inputs_iff)
  ultimately show thesis using that by blast
qed

section \<open>The run of the resting order\<close>

lemma no_shifts: "project_book_until H (sample_scenario [traded n t q] as) through = Inr sample_book"
  by (simp add: project_book_until_def)

lemma resting_filled:
  assumes "1000 \<le> t" and "case c of None \<Rightarrow> True | Some a \<Rightarrow> t \<le> sx_scheduled_at a"
  shows "fill_resting_order_from_trade_events H (sample_scenario [traded n t 4] as) resting_intent 1000 c None (resting_estimate 0) =
    resting_estimate 4"
proof -
  have "fillable_at 1000 c None t" using assms by (auto simp: fillable_at_def scheduled_at_during_disconnect_def split: option.splits)
  then show ?thesis
    by (simp add: fill_resting_order_from_trade_events_def resting_estimate_def has_fill_def trade_fills_resting_intent_def
        sample_trade_def maker_component_def four_of_ten resting_reason_code_def Let_def min_def)
qed

definition resting_cancel :: scenario_cancel_result where
  "resting_cancel =
     \<lparr>kr_sequence = 1, kr_action = scheduled 1 5000 (Cancel sample_cancel), kr_target_order_sequence = 0, kr_requested_at = 5000,
      kr_effective_at = 5000, kr_outcome_code = CANCEL_FILL_RACE_LOST, kr_source_type = SIMULATED_OUTPUT\<rparr>"

lemma resting_order_runs:
  obtains r where "run_order_actions H resting_scenario (sample_setup OPEN) 0 [] (order_intent_actions resting_actions) = Inr ([r], [1])"
    "so_fill_estimate r = Some (resting_estimate 4)" "so_cancel_result r = Some resting_cancel"
proof -
  obtain f x where charged: "table_fee_model sample_rules ''e'' (1 / 2) 4 MAKER = Inr f"
    "no_slippage_estimate BUY (shortest_decimal (1 / 2)) (shortest_decimal 4) MAKER = Inr x" by (rule four_charged)
  let ?a = "scheduled 0 1000 (Intent resting_intent)" and ?c = "scheduled 1 5000 (Cancel sample_cancel)"
  have ex: "ob_exchange sample_book = ''e''" by (simp add: sample_book_def)
  have c: "matching_cancel_action resting_scenario ?a [] = Some ?c"
    by (simp add: matching_cancel_action_def resting_scenario_def resting_actions_def cancel_request_actions_def
        cancel_matches_order_intent_def ex sample_cancel_def Let_def)
  have filled: "fill_resting_order_from_trade_events H resting_scenario resting_intent 1000 (Some ?c) (ru_window (sample_setup OPEN)) (resting_estimate 0) =
      resting_estimate 4"
    using resting_filled [where t = 2000 and c = "Some ?c" and H = H and n = 0 and as = resting_actions] by (simp add: resting_scenario_def sample_setup_def)
  have k: "cancel_result ?c 0 CANCEL_FILL_RACE_LOST = Inr resting_cancel"
    by (simp add: cancel_result_ok resting_cancel_def)
  have fees: "estimate_fees (ru_fee (sample_setup OPEN)) ''e'' (resting_estimate 4) = Inr [f]"
    "estimate_slippage (ru_slippage (sample_setup OPEN)) (resting_estimate 4) = Inr [x]"
    using charged by (simp_all add: estimate_fees_def estimate_slippage_def sample_setup_def resting_estimate_def)
  have q: "parse_positive_decimal F_quantity (shortest_decimal 4) = Inr 4"
    unfolding sample_digits parse_positive_decimal_def using sample_bounded by (simp add: parse_bounded_iff bindE_eq_Inr)
  have "\<exists>st. estimate_settlement (ru_settlement (sample_setup OPEN)) (resting_estimate 4) resting_intent 0 (ru_winners (sample_setup OPEN)) = Inr st"
    by (simp add: estimate_settlement_def sample_setup_def resting_estimate_def has_fill_def no_settlement_estimate_def q
        validate_winning_outcome_ids_def mk_scenario_settlement_result_def)
  then obtain st where st: "estimate_settlement (ru_settlement (sample_setup OPEN)) (resting_estimate 4) resting_intent 0 (ru_winners (sample_setup OPEN)) = Inr st"
    by blast
  let ?r = "executed_result 0 ?a (resting_admission 1000) sample_book (resting_estimate 4) [f] [x] (Some resting_cancel) st None"
  have d: "disconnect_result_for_order H resting_scenario resting_intent 0 1000 (Some resting_cancel) (ru_window (sample_setup OPEN)) (resting_estimate 4) = Inr None"
    by (simp add: disconnect_result_for_order_def sample_setup_def)
  have o: "cancel_outcome (Some ?c) 0 (resting_estimate 4) = Inr (Some resting_cancel)"
    by (simp add: cancel_outcome_def k has_fill_def resting_estimate_def)
  have admitted: "rd_accepted (ad_rejection_decision (resting_admission 1000))" "ad_activates_at (resting_admission 1000) = Some 1000"
    by (simp_all add: resting_admission_def)
  have s: "ru_settlement (sample_setup OPEN) = (True, configured_settlement None)" by (simp add: sample_setup_def configured_settlement_def fun_eq_iff)
  have ok: "mk_scenario_order_result ?r = Inr ?r"
    by (rule default.executed_result_ok [OF resting_not_taken [unfolded touch_fill_def] admitted(1) _ _ fees o st [unfolded s] d]) simp_all
  have taken: "ru_fill (sample_setup OPEN) sample_book BUY (1 / 2) 10 = Inr (resting_estimate 0)" by (simp add: sample_setup_def resting_not_taken)
  have scenario: "sn_initial_book resting_scenario = sample_book" by (simp add: resting_scenario_def)
  have executed: "execute_order H resting_scenario (sample_setup OPEN) ?a resting_intent (1 / 2) 0 (Some ?c) (resting_admission 1000) 1000 sample_book = Inr ?r"
    by (simp add: default.execute_order_eq taken scenario ex filled fees o st d ok Let_def)
  have run: "run_order_action H resting_scenario (sample_setup OPEN) ?a 0 (Some ?c) = Inr ?r"
  proof -
    have m: "ru_admit (sample_setup OPEN) resting_intent (ru_market_status (sample_setup OPEN)) 1000 None None = Inr (resting_admission 1000)"
      "ru_available_balance (sample_setup OPEN) = None"
      using resting_admitted [of 1000] by (simp_all add: sample_setup_def max_datetime_def)
    have b: "project_book_until H resting_scenario (Some 1000) = Inr sample_book" by (simp add: resting_scenario_def no_shifts)
    show ?thesis by (simp add: run_order_action_def m admitted executed cancelled_before_def post_only_would_cross_def b)
  qed
  show thesis
    by (rule that [of ?r])
      (simp_all add: run resting_actions_def order_intent_actions_def c executed_result_def resting_cancel_def)
qed

lemma resting_scenario_valid: "scenario_valid resting_scenario" "fixed_point 0 resting_scenario"
proof -
  have "mk_simulation_scenario resting_scenario = Inr resting_scenario"
    by (simp add: mk_simulation_scenario_def resting_scenario_def resting_actions_def sample_scenario_def validate_scenario_text_def
        valid_text_def not_padded_iff py_isspace_def validate_initial_book_def sample_valid(3) sort_unique_def Let_def
        validate_expected_final_book_def validate_expected_final_book_source_type_def validate_market_event_lineage_def
        validate_order_action_lineage_def validate_expected_fill_lineage_def normalize_tags_def validate_metadata_def)
      (simp add: same_lineage_def sample_book_def sample_trade_def resting_intent_def sample_intent_def sample_cancel_def)
  moreover have "payload_valid (Traded (sample_trade 4))" by (simp add: trade_valid_def sample_trade_def text_in_def)
  ultimately show "scenario_valid resting_scenario"
    by (simp add: scenario_valid_def resting_scenario_def resting_actions_def sample_valid(1) mk_scheduled_market_event_def
        mk_scheduled_order_action_def validate_item_sequence_def)
  show "fixed_point 0 resting_scenario"
    by (simp add: fixed_point_def resting_scenario_def resting_actions_def trades_on_grid_def)
      (simp add: on_grid_def sample_trade_def sample_book_def level_at_def)
qed

lemma resting_run:
  obtains R r where "run_scenario sample_hash read_time (sample_runner OPEN) resting_scenario = Inr R" "rn_order_results R = [r]"
    "so_fill_estimate r = Some (resting_estimate 4)" "so_cancel_result r = Some resting_cancel"
proof -
  obtain r where r: "run_order_actions sample_hash resting_scenario (sample_setup OPEN) 0 [] (order_intent_actions resting_actions) = Inr ([r], [1])"
    "so_fill_estimate r = Some (resting_estimate 4)" "so_cancel_result r = Some resting_cancel" by (rule resting_order_runs)
  have p: "prepare_run read_time (sample_runner OPEN) resting_scenario = Inr (sample_setup OPEN)" "sn_order_actions resting_scenario = resting_actions"
    "project_book_until sample_hash resting_scenario None = Inr sample_book" "sn_configuration resting_scenario = sample_configuration"
    by (simp_all add: resting_scenario_def sample_prepared no_shifts)
  have v: "validate_no_unmatched_cancel_actions resting_actions [1] = Inr ()"
    by (simp add: validate_no_unmatched_cancel_actions_def resting_actions_def cancel_request_actions_def)
  have ml: "multi_leg_imbalance_from_configuration sample_configuration [r] = Inr None"
    by (simp add: multi_leg_imbalance_from_configuration_def multi_leg_order_action_sequences_from_configuration_def
        multi_leg_target_filled_quantity_from_configuration_def parameter_def sample_configuration_def)
  obtain R where R: "build_scenario_run_result sample_hash read_time resting_scenario sample_book [r] None = Inr R"
    "normalize_order_results [r] = Inr [r]"
    by (rule report_ok [OF sample_digests resting_scenario_valid(1) _ _ sample_runner_built p(1) r(1) [folded p(2)]])
      (simp_all add: resting_scenario_def resting_actions_def)
  have "validate_expected_final_book (Some sample_book) (sn_initial_book resting_scenario) = Inr ()"
    using final_book [OF resting_scenario_valid(1) p(3)] sample_valid(3) by blast
  then have "run_scenario sample_hash read_time (sample_runner OPEN) resting_scenario =
      Inr \<lparr>rn_scenario = resting_scenario, rn_final_book = sample_book, rn_order_results = [r], rn_result = R,
           rn_multi_leg_imbalance_result = None, rn_source_type = SIMULATED_OUTPUT\<rparr>"
    by (simp add: run_scenario_def mk_scenario_run_def p r(1) v ml R)
  then show thesis by (rule that [OF _ _ r(2,3)]) simp
qed

section \<open>The same order in a closed market\<close>

definition closed_admission :: order_admission where
  "closed_admission =
     \<lparr>ad_intent = resting_intent, ad_market_status = CLOSED,
      ad_rejection_decision = \<lparr>rd_accepted = False, rd_reason_code = MARKET_CLOSED, rd_reason_text = ''market is not open for trading''\<rparr>,
      ad_submitted_at = 1000, ad_accepted_at = None, ad_activates_at = None, ad_required_balance = None,
      ad_available_balance = None, ad_source_type = SIMULATED_OUTPUT\<rparr>"

lemma closed_order_runs:
  "run_order_actions H resting_scenario (sample_setup CLOSED) 0 [] (order_intent_actions resting_actions) =
     Inr ([no_outputs 0 (scheduled 0 1000 (Intent resting_intent)) closed_admission], [])"
proof -
  let ?a = "scheduled 0 1000 (Intent resting_intent)"
  have "admit_order (bounded_evaluate default_rejection_model) (activation_time 0) resting_intent CLOSED 1000 None None = Inr closed_admission"
    by (simp add: admit_order_def bounded_evaluate_def rejection_ladder_def default_rejection_model_def
        mk_order_admission_def validate_activation_lineage_def closed_admission_def)
  then have m: "ru_admit (sample_setup CLOSED) resting_intent (ru_market_status (sample_setup CLOSED)) 1000 None None = Inr closed_admission"
    "ru_available_balance (sample_setup CLOSED) = None" by (simp_all add: sample_setup_def)
  have rejected: "\<not> rd_accepted (ad_rejection_decision closed_admission)" by (simp add: closed_admission_def)
  have "mk_scenario_order_result (no_outputs 0 ?a closed_admission) = Inr (no_outputs 0 ?a closed_admission)"
    by (rule rejected_result_ok [OF rejected]) simp_all
  then have "run_order_action H resting_scenario (sample_setup CLOSED) ?a 0 c = Inr (no_outputs 0 ?a closed_admission)" for c
    by (simp add: run_order_action_def m rejected)
  then show ?thesis by (simp add: resting_actions_def order_intent_actions_def no_outputs_def)
qed

end
