(* ===== verification/Scenario_Properties.thy ===== *)
theory Scenario_Properties
  imports Scenario_Samples
begin

text \<open>
  Properties of whole runs of the scenario runner: what happens to every order, that cancels and orders are matched one
  to one, when a run completes, and four behaviours that a user of the runner should know.
\<close>

section \<open>Every order\<close>

text \<open>
  C6: what a run says of its orders. For a valid scenario in fixed point and the default models, a run has
  one result per order intent, in their order. An order without a fill estimate was rejected, or cancelled before its
  activation. Every other order was admitted, with a limit price; its components add up to the filled quantity, filled and
  remaining quantity to the quantity of the order; no component is beyond the limit; and each was taken from
  a level of the book projected to the activation, or was made by an opposite trade of the same outcome at a time between
  activation and cancel at which the exchange was connected.
\<close>

theorem scenario_orders_are_sound:
  assumes "scenario_valid s" and "fixed_point g s" and "runner_from_configuration c status = Inr rn"
    and "run_scenario H read_time rn s = Inr R"
  shows "map so_action (rn_order_results R) = order_intent_actions (sn_order_actions s) \<and>
    (\<exists>window. disconnect_window_from_configuration read_time (sn_configuration s) = Inr window \<and>
       (\<forall>r \<in> set (rn_order_results R). order_sound H s window r))"
proof -
  obtain u rs used ml where run: "prepare_run read_time rn s = Inr u"
    "run_order_actions H s u 0 [] (order_intent_actions (sn_order_actions s)) = Inr (rs, used)"
    "normalize_order_results rs = Inr (rn_order_results R)" by (rule run_steps [OF assms(4)])
  obtain touch prefix m l payout where u: "ru_fill u = estimate_book_fill touch prefix"
    "ru_admit u = admit_order (bounded_evaluate m) (activation_time l)" "snd (ru_settlement u) = configured_settlement payout"
    and w: "disconnect_window_from_configuration read_time (sn_configuration s) = Inr (ru_window u)"
    by (rule prepared_default [OF assms(3) run(1)])
  note ra = default.run_actions [OF run(2) u order.refl]
  have R: "rn_order_results R = rs" using sequences_normal ra run(3) by simp
  have "order_sound H s (ru_window u) r" if r: "r \<in> set rs" for r
  proof -
    obtain us where step: "run_order_action H s u (so_action r) (so_sequence r) (matching_cancel_action s (so_action r) us) = Inr r"
      using ra r by blast
    have "so_sequence r \<in> set (map so_sequence rs)" "so_action r \<in> set (map so_action rs)" using r by simp_all
    then have n: "0 \<le> so_sequence r" and mem: "so_action r \<in> set (sn_order_actions s)" using ra no_cancels by auto
    show ?thesis by (rule default.run_order_sound [OF step u n assms(1,2) mem])
  qed
  then show ?thesis using ra w R by blast
qed

theorem scenario_orders_are_sound_witness:
  "\<exists>R r i t. run_scenario sample_hash (\<lambda>_. Inr 0) (sample_runner OPEN) resting_scenario = Inr R \<and> rn_order_results R = [r] \<and>
     so_fill_estimate r = Some (resting_estimate 4) \<and> sx_action (so_action r) = Intent i \<and> oi_quantity i = 10 \<and>
     (\<exists>book limit. fill_sound resting_scenario i limit book (active_at None t r) (resting_estimate 4))"
proof -
  obtain R r where r: "run_scenario sample_hash (\<lambda>_. Inr 0) (sample_runner OPEN) resting_scenario = Inr R" "rn_order_results R = [r]"
    "so_fill_estimate r = Some (resting_estimate 4)" by (rule resting_run)
  have w: "disconnect_window_from_configuration (\<lambda>_. Inr 0) (sn_configuration resting_scenario) = Inr None"
    by (simp add: disconnect_window_from_configuration_def parameter_def resting_scenario_def sample_configuration_def)
  note s = scenario_orders_are_sound [OF resting_scenario_valid sample_runner_built r(1)]
  then have "order_sound sample_hash resting_scenario None r" using w r(2) by simp
  then obtain i t limit book where i: "sx_action (so_action r) = Intent i"
    "fill_sound resting_scenario i limit book (active_at None t r) (resting_estimate 4)"
    using r(3) by (auto simp: order_sound_def)
  then have "oi_quantity i = 10" by (simp add: fill_sound_def resting_estimate_def)
  then show ?thesis using r i by blast
qed

section \<open>When a run completes\<close>

text \<open>
  C7: a run of a valid scenario whose identifier has at most 100 characters and which has fewer than \<open>10 ^ 16\<close> order actions, with the
  default models and a hash that gives SHA-256 digests (64 hexadecimal digits), completes exactly if the configuration can be read, every
  event can be applied and leaves a valid book, every order can be executed, every cancel belongs to an order and the legs of
  the configuration are orders of the scenario; what it reports are the results of the orders. The constructors of the report
  reject nothing that the orders have produced. (With a longer identifier the identifiers of the report can exceed their
  limit, see \<open>long_scenario_id_never_runs\<close>.)
\<close>

theorem run_completes:
  assumes "digests H" and "scenario_valid s" and "runner_from_configuration c status = Inr rn"
    and "length (sn_scenario_id s) \<le> 100" and "length (sn_order_actions s) < 10 ^ 16"
  shows "(\<exists>R. run_scenario H read_time rn s = Inr R \<and> rn_order_results R = rs \<and> rn_final_book R = book \<and>
      rn_multi_leg_imbalance_result R = ml) \<longleftrightarrow>
    (\<exists>u used. prepare_run read_time rn s = Inr u \<and> project_book_until H s None = Inr book \<and> ob_is_valid book \<and>
      run_order_actions H s u 0 [] (order_intent_actions (sn_order_actions s)) = Inr (rs, used) \<and>
      validate_no_unmatched_cancel_actions (sn_order_actions s) used = Inr () \<and>
      multi_leg_imbalance_from_configuration (sn_configuration s) rs = Inr ml)" (is "?run \<longleftrightarrow> ?parts")
proof
  assume ?parts
  then obtain u used where p: "prepare_run read_time rn s = Inr u" "project_book_until H s None = Inr book" "ob_is_valid book"
    "run_order_actions H s u 0 [] (order_intent_actions (sn_order_actions s)) = Inr (rs, used)"
    "validate_no_unmatched_cancel_actions (sn_order_actions s) used = Inr ()"
    "multi_leg_imbalance_from_configuration (sn_configuration s) rs = Inr ml" by blast
  obtain r where r: "build_scenario_run_result H read_time s book rs ml = Inr r" "normalize_order_results rs = Inr rs"
    by (rule report_ok [OF assms(1,2,4,5,3) p(1,4)])
  have "validate_expected_final_book (Some book) (sn_initial_book s) = Inr ()" using final_book [OF assms(2) p(2)] p(3) by blast
  then show ?run by (simp add: run_scenario_def mk_scenario_run_def p r)
next
  assume ?run
  then obtain R where R: "run_scenario H read_time rn s = Inr R" "rn_order_results R = rs" "rn_final_book R = book"
    "rn_multi_leg_imbalance_result R = ml" by blast
  obtain u rs' used ml' where p: "prepare_run read_time rn s = Inr u" "project_book_until H s None = Inr book"
    "run_order_actions H s u 0 [] (order_intent_actions (sn_order_actions s)) = Inr (rs', used)"
    "validate_no_unmatched_cancel_actions (sn_order_actions s) used = Inr ()"
    "multi_leg_imbalance_from_configuration (sn_configuration s) rs' = Inr ml'"
    "normalize_order_results rs' = Inr rs" "rn_multi_leg_imbalance_result R = ml'" "ob_is_valid book"
    by (rule run_steps [OF R(1)]) (use R final_book [OF assms(2)] in auto)
  obtain r where "normalize_order_results rs' = Inr rs'"
    by (rule report_ok [where book = book and ml = ml, OF assms(1,2,4,5,3) p(1,3)])
  then have "rs' = rs" using p(6) by simp
  then show ?parts using p R(4) by auto
qed

theorem run_completes_witness:
  "\<exists>R r. run_scenario sample_hash (\<lambda>_. Inr 0) (sample_runner OPEN) resting_scenario = Inr R \<and> rn_order_results R = [r] \<and>
     rn_final_book R = sample_book"
proof -
  obtain R r where r: "run_scenario sample_hash (\<lambda>_. Inr 0) (sample_runner OPEN) resting_scenario = Inr R" "rn_order_results R = [r]"
    by (rule resting_run)
  have "length (sn_scenario_id resting_scenario) \<le> 100" "length (sn_order_actions resting_scenario) < 10 ^ 16"
    by (simp_all add: resting_scenario_def resting_actions_def)
  note c = run_completes [OF sample_digests resting_scenario_valid(1) sample_runner_built [of OPEN] this, of "\<lambda>_. Inr 0"]
  have "project_book_until sample_hash resting_scenario None = Inr (rn_final_book R)"
    using c [of "[r]" "rn_final_book R" "rn_multi_leg_imbalance_result R"] r by blast
  then have "rn_final_book R = sample_book" by (simp add: resting_scenario_def no_shifts)
  then show ?thesis using r by blast
qed

text \<open>
  A scenario whose identifier has more than 117 characters never runs, although an identifier may have 128: the report
  appends \<^verbatim>\<open>:final_book\<close> to it, and the text it gets is not accepted as the identifier of an artifact.
\<close>

theorem long_scenario_id_never_runs:
  assumes "117 < length (sn_scenario_id s)"
  shows "\<exists>e. run_scenario H read_time rn s = Inl e"
proof (rule ccontr)
  assume "\<not> ?thesis"
  then obtain R where R: "run_scenario H read_time rn s = Inr R" by (cases "run_scenario H read_time rn s") auto
  obtain rs ml where b: "build_scenario_run_result H read_time s (rn_final_book R) rs ml = Inr (rn_result R)"
    by (rule run_steps [OF R])
  have "\<not> valid_text (sn_scenario_id s @ '':final_book'')" using assms by (simp add: valid_text_def)
  then show False
    using b by (auto simp: build_scenario_run_result_def scenario_run_artifacts_def bindE_eq_Inr mk_artifact_iff)
qed

theorem long_scenario_id_never_runs_witness:
  "valid_text (replicate 118 CHR ''a'') \<and>
   (\<exists>e. run_scenario sample_hash (\<lambda>_. Inr 0) (sample_runner OPEN) (resting_scenario\<lparr>sn_scenario_id := replicate 118 CHR ''a''\<rparr>) = Inl e)"
  using long_scenario_id_never_runs [of "resting_scenario\<lparr>sn_scenario_id := replicate 118 CHR ''a''\<rparr>" sample_hash "\<lambda>_. Inr 0" "sample_runner OPEN"]
  by (simp add: valid_text_def not_padded_iff py_isspace_def)

section \<open>Cancels\<close>

text \<open>
  C8: in a run of a valid scenario with the default models that completes, cancels and orders are matched one to one. Every
  cancel request of the scenario has
  exactly one cancel result, which belongs to an accepted order with the same correlation identifier that was submitted no later than
  the cancel; its outcome is \<^verbatim>\<open>before activation\<close> iff the order has no fill estimate, \<^verbatim>\<open>fill race lost\<close> iff it was filled.
\<close>

theorem cancels_match_once:
  assumes "scenario_valid s" and "runner_from_configuration c status = Inr rn" and "run_scenario H read_time rn s = Inr R"
  shows "distinct (map kr_action (cancels (rn_order_results R))) \<and>
    set (map kr_action (cancels (rn_order_results R))) = set (cancel_request_actions (sn_order_actions s)) \<and>
    (\<forall>r \<in> set (rn_order_results R). \<forall>k. so_cancel_result r = Some k \<longrightarrow> cancel_of_order s r k)"
proof -
  obtain u rs used ml where run: "prepare_run read_time rn s = Inr u"
    "run_order_actions H s u 0 [] (order_intent_actions (sn_order_actions s)) = Inr (rs, used)"
    "normalize_order_results rs = Inr (rn_order_results R)" "validate_no_unmatched_cancel_actions (sn_order_actions s) used = Inr ()"
    by (rule run_steps [OF assms(3)])
  obtain touch prefix m l payout where u: "ru_fill u = estimate_book_fill touch prefix"
    "ru_admit u = admit_order (bounded_evaluate m) (activation_time l)" "snd (ru_settlement u) = configured_settlement payout"
    by (rule prepared_default [OF assms(2) run(1)])
  have R: "rn_order_results R = rs" using sequences_normal default.run_actions [OF run(2) u order.refl] run(3) by simp
  note rc = default.run_cancels [OF run(2) u order.refl]
  let ?cs = "set (cancel_request_actions (sn_order_actions s))"
  have k: "kr_sequence k = sx_sequence (kr_action k) \<and> kr_action k \<in> ?cs" if "k \<in> set (cancels rs)" for k
    using that rc by (auto simp: cancels_def when_some_def split: option.splits)
  then have seqs: "map kr_sequence (cancels rs) = map sx_sequence (map kr_action (cancels rs))" by simp
  have "distinct (map sx_sequence (map kr_action (cancels rs)))" unfolding seqs [symmetric] using rc by blast
  then have d: "distinct (map kr_action (cancels rs))" by (rule distinct_map [THEN iffD1, THEN conjunct1])
  have "c \<in> set (map kr_action (cancels rs))" if c: "c \<in> ?cs" for c
  proof -
    have "sx_sequence c \<in> set used"
      using run(4) c by (auto simp: validate_no_unmatched_cancel_actions_def guards_ok_iff filter_empty_conv simp del: guards.simps)
    then have "sx_sequence c \<in> sx_sequence ` set (map kr_action (cancels rs))"
      using rc unfolding seqs set_map [of sx_sequence] by simp
    then obtain c' where c': "c' \<in> set (map kr_action (cancels rs))" "sx_sequence c' = sx_sequence c"
      by (elim imageE) (rule that, assumption, simp)
    then have "c' \<in> set (sn_order_actions s)" "c \<in> set (sn_order_actions s)"
      using k c by (auto simp: cancel_request_actions_def)
    then have "c' = c" using scenario_facts(5) [OF assms(1)] c'(2) by (auto simp: distinct_map dest: inj_onD)
    then show ?thesis using c'(1) by simp
  qed
  then show ?thesis using d k rc by (auto simp: R)
qed

theorem cancels_match_once_witness:
  "\<exists>R. run_scenario sample_hash (\<lambda>_. Inr 0) (sample_runner OPEN) resting_scenario = Inr R \<and>
     map kr_action (cancels (rn_order_results R)) = [scheduled 1 5000 (Cancel sample_cancel)]"
proof -
  obtain R r where r: "run_scenario sample_hash (\<lambda>_. Inr 0) (sample_runner OPEN) resting_scenario = Inr R" "rn_order_results R = [r]"
    "so_cancel_result r = Some resting_cancel" by (rule resting_run)
  have "set (map kr_action (cancels [r])) = set (cancel_request_actions (sn_order_actions resting_scenario))"
    using cancels_match_once [OF resting_scenario_valid(1) sample_runner_built r(1), THEN conjunct2, THEN conjunct1] unfolding r(2) .
  moreover have c: "cancel_request_actions (sn_order_actions resting_scenario) = [scheduled 1 5000 (Cancel sample_cancel)]"
    by (simp add: resting_scenario_def resting_actions_def cancel_request_actions_def)
  moreover have k: "cancels (rn_order_results R) = [resting_cancel]" by (simp add: r(2,3) cancels_def when_some_def)
  ultimately have "{kr_action resting_cancel} = {scheduled 1 5000 (Cancel sample_cancel)}" unfolding c r(2) [symmetric] k by simp
  then have "map kr_action (cancels (rn_order_results R)) = [scheduled 1 5000 (Cancel sample_cancel)]" unfolding k by simp
  then show ?thesis by (intro exI [of _ R] conjI r(1))
qed

text \<open>
  C35: a cancel that belongs only to rejected orders fails the whole run. A valid scenario is run with the default
  models; each of its orders has been executed, but a
  rejected order takes no cancel, so that the cancel is left over and the run raises \<^verbatim>\<open>simulation_scenario_cancel_unmatched\<close>.
\<close>

theorem cancel_of_rejected_order_fails_run:
  assumes "scenario_valid s" and "runner_from_configuration c status = Inr rn" and "prepare_run read_time rn s = Inr u"
    and "project_book_until H s None = Inr book"
    and "run_order_actions H s u 0 [] (order_intent_actions (sn_order_actions s)) = Inr (rs, used)"
    and "cancel \<in> set (cancel_request_actions (sn_order_actions s))" and "sx_action cancel = Cancel request"
    and "\<And>r i. r \<in> set rs \<Longrightarrow> sx_action (so_action r) = Intent i \<Longrightarrow> oi_correlation_id i = cr_correlation_id request \<Longrightarrow>
      \<not> rd_accepted (ad_rejection_decision (so_admission r))"
  shows "run_scenario H read_time rn s = Inl (config_error ''simulation_scenario_cancel_unmatched'')"
proof -
  obtain touch prefix m l payout where u: "ru_fill u = estimate_book_fill touch prefix"
    "ru_admit u = admit_order (bounded_evaluate m) (activation_time l)" "snd (ru_settlement u) = configured_settlement payout"
    by (rule prepared_default [OF assms(2,3)])
  note rc = default.run_cancels [OF assms(5) u order.refl]
  have "sx_sequence cancel \<notin> set used"
  proof
    assume "sx_sequence cancel \<in> set used"
    then obtain k where k: "k \<in> set (cancels rs)" "kr_sequence k = sx_sequence cancel" using rc by auto
    then obtain r where r: "r \<in> set rs" "so_cancel_result r = Some k" by (auto simp: cancels_def when_some_def split: option.splits)
    then have m: "cancel_of_order s r k" "kr_sequence k = sx_sequence (kr_action k)"
      "kr_action k \<in> set (cancel_request_actions (sn_order_actions s))" using rc by blast+
    then have "kr_action k \<in> set (sn_order_actions s)" "cancel \<in> set (sn_order_actions s)"
      using assms(6) by (simp_all add: cancel_request_actions_def)
    then have "kr_action k = cancel"
      using scenario_facts(5) [OF assms(1)] k(2) m(2) by (auto simp: distinct_map dest: inj_onD)
    then show False using m(1) assms(7,8) r(1) by (auto simp: cancel_of_order_def)
  qed
  then have "validate_no_unmatched_cancel_actions (sn_order_actions s) used = Inl (config_error ''simulation_scenario_cancel_unmatched'')"
    using assms(6) by (auto simp: validate_no_unmatched_cancel_actions_def filter_empty_conv)
  then show ?thesis using assms(3-5) by (simp add: run_scenario_def)
qed

theorem cancel_of_rejected_order_fails_run_witness:
  "run_scenario sample_hash (\<lambda>_. Inr 0) (sample_runner CLOSED) resting_scenario = Inl (config_error ''simulation_scenario_cancel_unmatched'')"
proof -
  have s: "sn_order_actions resting_scenario = resting_actions" by (simp add: resting_scenario_def)
  have p: "prepare_run (\<lambda>_. Inr 0) (sample_runner CLOSED) resting_scenario = Inr (sample_setup CLOSED)"
    "project_book_until sample_hash resting_scenario None = Inr sample_book"
    by (simp_all add: resting_scenario_def sample_prepared no_shifts)
  have c: "scheduled 1 5000 (Cancel sample_cancel) \<in> set (cancel_request_actions (sn_order_actions resting_scenario))"
    by (simp add: s resting_actions_def cancel_request_actions_def)
  have rejected: "\<not> rd_accepted (ad_rejection_decision (so_admission r))"
    if "r \<in> set [no_outputs 0 (scheduled 0 1000 (Intent resting_intent)) closed_admission]" for r
    using that by (simp add: no_outputs_def closed_admission_def)
  show ?thesis
    by (rule cancel_of_rejected_order_fails_run [OF resting_scenario_valid(1) sample_runner_built p closed_order_runs [folded s] c])
      (simp, rule rejected)
qed

section \<open>Resting orders\<close>

text \<open>
  C9: a resting order is filled by the trades of the scenario as by the levels of a book. The scenario is valid and in fixed
  point (every quantity is a multiple of \<open>10 ^ -g\<close> that 28 digits can hold), the hash tells its event payloads
  apart, and the order has a limit price, a positive quantity on the same grid and nothing filled yet. Of the events whose time the order
  can be filled at, the first of each payload counts; those that are trades of the outcome by the other side at the limit or better
  fill the order in sequence, each up to its quantity, until nothing remains. The average price is over these components.
\<close>

theorem resting_fill_is_waterfall:
  assumes "scenario_valid s" and "fixed_point g s" and "collision_free H (sn_market_events s)"
    and "oi_limit_price i = Some limit" and "on_grid g (10 ^ 28) (fe_order_quantity e)" and "0 < fe_order_quantity e"
    and "\<not> has_fill e" and "fe_remaining_quantity e = fe_order_quantity e"
  shows "fill_resting_order_from_trade_events H s i t c window e =
    maker_fill e (filling_trades sk_event i (fillable_at t c window) [] (sn_market_events s))"
proof -
  have v: "\<forall>v \<in> set (sn_market_events s). payload_valid (sk_event v)" using scenario_facts(4) [OF assms(1)] by blast
  have g: "trades_on_grid g (sn_market_events s)" using assms(2) by (simp add: fixed_point_def)
  show ?thesis
    unfolding filling_trades_payload [OF assms(3), symmetric] by (rule resting_fill_eq [OF assms(4) v g assms(5-8)])
qed

theorem resting_fill_is_waterfall_witness:
  "fill_resting_order_from_trade_events sample_hash resting_scenario resting_intent 1000 None None (resting_estimate 0) =
     maker_fill (resting_estimate 0) [sample_trade 4]"
proof -
  have e: "fe_order_quantity (resting_estimate 0) = 10" "fe_remaining_quantity (resting_estimate 0) = 10"
    "\<not> has_fill (resting_estimate 0)" by (simp_all add: resting_estimate_def has_fill_def)
  have "collision_free sample_hash (sn_market_events resting_scenario)" by (simp add: collision_free_def resting_scenario_def)
  moreover have "on_grid 0 (10 ^ 28) (10 :: rat)" by (simp add: on_grid_def)
  moreover have "filling_trades sk_event resting_intent (fillable_at 1000 None None) [] (sn_market_events resting_scenario) = [sample_trade 4]"
    by (simp add: filling_trades_def resting_scenario_def fillable_at_def scheduled_at_during_disconnect_def
        trade_fills_resting_intent_def sample_trade_def)
  ultimately show ?thesis
    using resting_fill_is_waterfall [OF resting_scenario_valid, of sample_hash resting_intent "1 / 2" "resting_estimate 0" 1000 None None] e
    by simp
qed

text \<open>
  A redelivered trade fills an order that its first delivery did not. Of two events with the same trade, the second
  counts as a duplicate; but the loop remembers only the events whose time it has admitted, and so a trade that happened before the
  activation of the order fills it when it is delivered once more after the activation.
\<close>

theorem redelivered_trade_fills_order:
  assumes "sn_market_events s = [first, again]" and "sk_event first = Traded t" and "sk_event again = Traded t"
    and "trade_fills_resting_intent t i" and "0 < td_quantity t"
    and "sk_scheduled_at first < activation_at" and "fillable_at activation_at c window (sk_scheduled_at again)"
    and "\<not> has_fill e" and "0 < fe_remaining_quantity e"
  shows "duplicate_market_event_count H (sn_market_events s) = 1 \<and>
    fe_components (fill_resting_order_from_trade_events H s i activation_at c window e) =
      [maker_component t (min (fe_remaining_quantity e) (td_quantity t))]"
proof -
  have h: "market_event_hash H first = market_event_hash H again" by (simp add: market_event_hash_def assms(2,3))
  have f: "\<not> fillable_at activation_at c window (sk_scheduled_at first)" using assms(6) by (simp add: fillable_at_def)
  have q: "min (fe_remaining_quantity e) (td_quantity t) \<noteq> 0" using assms(5,9) by (simp add: min_def)
  show ?thesis
    using assms(4,7,8) f h q
    by (simp add: duplicate_market_event_count_def assms(1-3) fill_resting_order_from_trade_events_def Let_def)
qed

theorem redelivered_trade_fills_order_witness:
  "duplicate_market_event_count sample_hash [traded 0 500 4, traded 1 2000 4] = 1 \<and>
   fe_components (fill_resting_order_from_trade_events sample_hash
     (sample_scenario [traded 0 500 4, traded 1 2000 4] []) resting_intent 1000 None None (resting_estimate 0)) =
     [\<lparr>fc_price = 1 / 2, fc_quantity = 4, fc_liquidity_role = MAKER\<rparr>]"
proof -
  have "trade_fills_resting_intent (sample_trade 4) resting_intent" "0 < td_quantity (sample_trade 4)"
    "fillable_at 1000 None None 2000" "\<not> has_fill (resting_estimate 0)" "fe_remaining_quantity (resting_estimate 0) = 10"
    by (simp_all add: trade_fills_resting_intent_def sample_trade_def fillable_at_def scheduled_at_during_disconnect_def
        has_fill_def resting_estimate_def)
  then show ?thesis
    using redelivered_trade_fills_order [of "sample_scenario [traded 0 500 4, traded 1 2000 4] []" "traded 0 500 4" "traded 1 2000 4"
        "sample_trade 4" resting_intent 1000 None None "resting_estimate 0" sample_hash]
    by (simp add: maker_component_def sample_trade_def)
qed

section \<open>Time in force\<close>

abbreviation retimed :: "time_in_force \<Rightarrow> instant option \<Rightarrow> order_intent \<Rightarrow> order_intent" where
  "retimed f x i \<equiv> i\<lparr>oi_time_in_force := f, oi_expires_at := x\<rparr>"

lemma bindE_map_sum: "bindE (map_sum id h m) f = bindE m (\<lambda>x. f (h x))"
  by (cases m) simp_all

lemma map_sum_bindE: "map_sum id h (bindE m f) = bindE m (\<lambda>x. map_sum id h (f x))"
  by (cases m) simp_all

lemma trade_fills_retimed: "trade_fills_resting_intent t (retimed f x i) = trade_fills_resting_intent t i"
  by (auto simp: trade_fills_resting_intent_def split: option.splits)

lemma mk_admission_intent:
  "mk_order_admission (adm\<lparr>ad_intent := i\<rparr>) = map_sum id (\<lambda>b. b\<lparr>ad_intent := i\<rparr>) (mk_order_admission adm)"
  by (simp add: mk_order_admission_def map_sum_bindE)

lemma admit_retimed:
  "admit_order (bounded_evaluate m) l (retimed f x i) status t required available =
     map_sum id (\<lambda>a. a\<lparr>ad_intent := retimed f x i\<rparr>) (admit_order (bounded_evaluate m) l i status t required available)"
  by (simp add: admit_order_def map_sum_bindE flip: mk_admission_intent)

lemma resting_loop_retimed: "resting_loop H (retimed f x i) p seen q es = resting_loop H i p seen q es"
  by (induction es arbitrary: seen q) (simp_all add: trade_fills_retimed Let_def split: market_payload.splits)

lemma pre_disconnect_retimed:
  "pre_disconnect_loop H (retimed f x i) t d q seen filled es = pre_disconnect_loop H i t d q seen filled es"
  by (induction es arbitrary: seen filled) (simp_all add: trade_fills_retimed Let_def split: market_payload.splits)

text \<open>The result of the order, with another intent.\<close>

abbreviation with_intent :: "scheduled_order_action \<Rightarrow> order_intent \<Rightarrow> scenario_order_result \<Rightarrow> scenario_order_result" where
  "with_intent a i r \<equiv> r\<lparr>so_action := a, so_admission := (so_admission r)\<lparr>ad_intent := i\<rparr>\<rparr>"

lemma with_intent_sel:
  "so_activation_book (with_intent a i r) = so_activation_book r" "so_fill_estimate (with_intent a i r) = so_fill_estimate r"
  "so_fee_estimates (with_intent a i r) = so_fee_estimates r" "so_slippage_estimates (with_intent a i r) = so_slippage_estimates r"
  "so_settlement_result (with_intent a i r) = so_settlement_result r" "so_disconnect_result (with_intent a i r) = so_disconnect_result r"
  "so_cancel_result (with_intent a i r) = so_cancel_result r"
  "ad_rejection_decision (so_admission (with_intent a i r)) = ad_rejection_decision (so_admission r)"
  by simp_all

lemma mk_result_intent:
  assumes "\<not> is_cancel (sx_action a)" and "\<not> is_cancel (sx_action (so_action r))"
  shows "mk_scenario_order_result (with_intent a i r) = map_sum id (with_intent a i) (mk_scenario_order_result r)"
proof -
  have "validate_order_outputs (with_intent a i r) = validate_order_outputs r"
    unfolding validate_order_outputs_def has_outputs_def with_intent_sel ..
  then show ?thesis
    using assms(1,2) by (simp add: mk_scenario_order_result_def map_sum_bindE)
qed

lemma no_outputs_intent: "no_outputs n a (adm\<lparr>ad_intent := i\<rparr>) = with_intent a i (no_outputs n b adm)"
  by (simp add: no_outputs_def)

lemma mk_no_outputs_intent:
  assumes "\<not> is_cancel (sx_action a)" and "\<not> is_cancel (sx_action b)"
  shows "mk_scenario_order_result (no_outputs n a (adm\<lparr>ad_intent := i\<rparr>)) =
      map_sum id (with_intent a i) (mk_scenario_order_result (no_outputs n b adm))"
    and "mk_scenario_order_result ((no_outputs n a (adm\<lparr>ad_intent := i\<rparr>))\<lparr>so_cancel_result := k\<rparr>) =
      map_sum id (with_intent a i) (mk_scenario_order_result ((no_outputs n b adm)\<lparr>so_cancel_result := k\<rparr>))"
  using mk_result_intent [OF assms(1), of "no_outputs n b adm" i]
    mk_result_intent [OF assms(1), of "(no_outputs n b adm)\<lparr>so_cancel_result := k\<rparr>" i] assms(2)
  by (simp_all add: no_outputs_def)

lemma post_only_intent:
  "post_only_rejection_admission (adm\<lparr>ad_intent := i\<rparr>) = map_sum id (\<lambda>b. b\<lparr>ad_intent := i\<rparr>) (post_only_rejection_admission adm)"
  unfolding post_only_rejection_admission_def by (simp flip: mk_admission_intent)

lemma retimed_inputs:
  "required_balance_for_intent (retimed f x i) = required_balance_for_intent i"
  "post_only_would_cross (retimed f x i) book = post_only_would_cross i book"
  "fill_resting_order_from_trade_events H s (retimed f x i) t c w e = fill_resting_order_from_trade_events H s i t c w e"
  "estimate_settlement st e (retimed f x i) n ws = estimate_settlement st e i n ws"
  "disconnect_result_for_order H s (retimed f x i) n t k w e = disconnect_result_for_order H s i n t k w e"
proof -
  have pre: "pre_disconnect_resting_fill_quantity H s (retimed f x i) = pre_disconnect_resting_fill_quantity H s i"
    by (simp add: fun_eq_iff pre_disconnect_resting_fill_quantity_def pre_disconnect_retimed)
  show "disconnect_result_for_order H s (retimed f x i) n t k w e = disconnect_result_for_order H s i n t k w e"
    unfolding disconnect_result_for_order_def pre ..
qed (cases "oi_limit_price i"; simp add: required_balance_for_intent_def post_only_would_cross_def
    fill_resting_order_from_trade_events_def resting_loop_retimed estimate_settlement_def)+

lemma execute_retimed:
  assumes "\<not> is_cancel (sx_action a')" and "\<not> is_cancel (sx_action a)"
  shows "execute_order H s u a' (retimed f x i) limit n c (adm\<lparr>ad_intent := retimed f x i\<rparr>) t book =
    map_sum id (with_intent a' (retimed f x i)) (execute_order H s u a i limit n c adm t book)"
proof -
  have "mk_scenario_order_result (executed_result n a' (adm\<lparr>ad_intent := retimed f x i\<rparr>) book e fs ss k st d) =
      map_sum id (with_intent a' (retimed f x i)) (mk_scenario_order_result (executed_result n a adm book e fs ss k st d))" for e fs ss k st d
    using mk_result_intent [OF assms(1), of "executed_result n a adm book e fs ss k st d" "retimed f x i"] assms(2)
    by (simp add: executed_result_def)
  then show ?thesis by (simp add: default.execute_order_eq map_sum_bindE retimed_inputs Let_def)
qed

text \<open>What \<^verbatim>\<open>_run_order_action\<close> does after the admission.\<close>

definition after_admission ::
  "hasher \<Rightarrow> simulation_scenario \<Rightarrow> run_setup \<Rightarrow> scheduled_order_action \<Rightarrow> int \<Rightarrow> scheduled_order_action option \<Rightarrow>
     order_intent \<Rightarrow> order_admission \<Rightarrow> scenario_order_result result" where
  "after_admission H s u a n c i adm =
     (if \<not> rd_accepted (ad_rejection_decision adm) then mk_scenario_order_result (no_outputs n a adm)
      else case ad_activates_at adm of None \<Rightarrow> Inl (config_error ''simulation_scenario_activation_missing'')
        | Some t \<Rightarrow> if cancelled_before c t then
              bindE (cancel_result (the c) n CANCEL_BEFORE_ACTIVATION) (\<lambda>k.
                mk_scenario_order_result ((no_outputs n a adm)\<lparr>so_cancel_result := Some k\<rparr>))
            else case oi_limit_price i of None \<Rightarrow> Inl (config_error ''simulation_scenario_fill_price_missing'')
              | Some limit \<Rightarrow> bindE (project_book_until H s (Some t)) (\<lambda>book.
                  bindE (post_only_would_cross i book) (\<lambda>crosses.
                  if crosses then bindE (post_only_rejection_admission adm) (\<lambda>x. mk_scenario_order_result (no_outputs n a x))
                  else execute_order H s u a i limit n c adm t book)))"

lemma run_order_action_eq:
  assumes "sx_action a = Intent i"
  shows "run_order_action H s u a n c =
    bindE (ru_admit u i (ru_market_status u) (sx_scheduled_at a)
      (if ru_available_balance u \<noteq> None then required_balance_for_intent i else None) (ru_available_balance u))
      (after_admission H s u a n c i)"
  unfolding run_order_action_def after_admission_def assms order_payload.case ..

lemma after_admission_retimed:
  assumes "\<not> is_cancel (sx_action a')" and "\<not> is_cancel (sx_action a)"
  shows "after_admission H s u a' n c (retimed f x i) (adm\<lparr>ad_intent := retimed f x i\<rparr>) =
    map_sum id (with_intent a' (retimed f x i)) (after_admission H s u a n c i adm)"
  by (simp add: after_admission_def mk_no_outputs_intent [OF assms] execute_retimed [OF assms] retimed_inputs post_only_intent
      bindE_map_sum map_sum_bindE if_distrib [of "map_sum id h" for h] cong: if_cong split: option.split)

text \<open>
  The time in force of an intent and its expiry are never looked at. With another time in force an order is admitted
  at the same time, and filled by the same levels and trades: an immediate-or-cancel order rests and is filled by later
  trades, a fill-or-kill order is filled in part, and an expired one is filled.
\<close>

theorem time_in_force_ignored:
  fixes f :: time_in_force and x :: "instant option"
  assumes "ru_admit u = admit_order (bounded_evaluate m) l" and "sx_action a = Intent i"
  defines "a' \<equiv> a\<lparr>sx_action := Intent (retimed f x i)\<rparr>"
  shows "run_order_action H s u a' n c = map_sum id (with_intent a' (retimed f x i)) (run_order_action H s u a n c)"
proof -
  have a': "sx_action a' = Intent (retimed f x i)" "sx_scheduled_at a' = sx_scheduled_at a" by (simp_all add: a'_def)
  show ?thesis
    by (simp add: run_order_action_eq a' assms(1,2) retimed_inputs admit_retimed bindE_map_sum map_sum_bindE after_admission_retimed [of a' a])
qed

theorem time_in_force_ignored_witness:
  "\<exists>c r. run_order_action sample_hash resting_scenario (sample_setup OPEN)
     (scheduled 0 1000 (Intent (retimed IOC None resting_intent))) 0 c = Inr r \<and> so_fill_estimate r = Some (resting_estimate 4)"
proof -
  let ?a = "scheduled 0 1000 (Intent resting_intent)"
  obtain r where r: "run_order_actions sample_hash resting_scenario (sample_setup OPEN) 0 [] (order_intent_actions resting_actions) = Inr ([r], [1])"
    "so_fill_estimate r = Some (resting_estimate 4)" by (rule resting_order_runs)
  have "order_intent_actions resting_actions = [?a]" by (simp add: order_intent_actions_def resting_actions_def)
  then have run: "run_order_action sample_hash resting_scenario (sample_setup OPEN) ?a 0 (matching_cancel_action resting_scenario ?a []) = Inr r"
    using r(1) by (auto simp: bindE_eq_Inr)
  have u: "ru_admit (sample_setup OPEN) = admit_order (bounded_evaluate default_rejection_model) (activation_time 0)"
    by (simp add: sample_setup_def)
  have a: "?a\<lparr>sx_action := Intent (retimed IOC None resting_intent)\<rparr> = scheduled 0 1000 (Intent (retimed IOC None resting_intent))"
    by (simp add: scheduled_def)
  show ?thesis
    using time_in_force_ignored [OF u, where a = ?a and i = resting_intent and f = IOC and x = None and H = sample_hash
        and s = resting_scenario and n = 0 and c = "matching_cancel_action resting_scenario ?a []"]
      r(2)
    unfolding run a by (intro exI conjI) (simp, simp)
qed

end
