(* ===== verification/Adapter_Payloads.thy ===== *)
theory Adapter_Payloads
  imports Schemas
begin

text \<open>
  What the exchange adapters share: decoded JSON and its immutable form
  (\<open>src/pmrp/schemas/immutability.py\<close>), the helpers that read a payload, the strict field types of the
  raw models, and the errors of an adapter (\<open>src/pmrp/adapters/base/errors.py\<close>).

  A decoded object is the list of its items in the order of the text, with distinct keys. A float keeps only its literal,
  since every raw model rejects it. Reading text as JSON (\<open>loads\<close>) and as a time in ISO 8601
  (\<open>read_time\<close>) are parameters, with the exceptions they raise: \<^verbatim>\<open>json.loads\<close> raises a \<^verbatim>\<open>JSONDecodeError\<close> on text that is
  not JSON, but a plain \<^verbatim>\<open>ValueError\<close> on an integer of more digits than the interpreter reads and a \<^verbatim>\<open>RecursionError\<close> on
  deep nesting; \<^verbatim>\<open>parse_utc_datetime\<close> raises a \<^verbatim>\<open>ValueError\<close> on text that is no time with a zone, and an
  \<^verbatim>\<open>OverflowError\<close> on a time that leaves the calendar in UTC. The depth of the interpreter's stack is not modelled
  otherwise: what has been decoded can be copied.
\<close>

section \<open>Decoded JSON\<close>

datatype json =
    J_Null | J_Bool bool | J_Int int | J_Float string | J_Str string
  | J_Array "json list" | J_Object "(string \<times> json) list"

type_synonym payload = "(string \<times> json) list"

definition value_error :: "string \<Rightarrow> py_error" where
  "value_error msg = Exc ''ValueError'' msg"

definition type_error :: "string \<Rightarrow> py_error" where
  "type_error msg = Exc ''TypeError'' msg"

text \<open>\<^verbatim>\<open>payload.get(key)\<close> and \<^verbatim>\<open>payload.get(key, default)\<close>.\<close>

definition payload_get :: "payload \<Rightarrow> string \<Rightarrow> json" where
  "payload_get p k = (case map_of p k of None \<Rightarrow> J_Null | Some v \<Rightarrow> v)"

definition payload_get_or :: "payload \<Rightarrow> string \<Rightarrow> json \<Rightarrow> json" where
  "payload_get_or p k d = (case map_of p k of None \<Rightarrow> d | Some v \<Rightarrow> v)"

definition validate_mapping_key :: "string \<Rightarrow> unit result" where
  "validate_mapping_key k =
     (if blank_or_padded k then Inl (value_error ''keys must be nonempty strings without surrounding whitespace'')
      else Inr ())"

text \<open>An immutable copy has the same value, so freezing either returns its argument or raises.\<close>

fun freeze_canonical_value :: "json \<Rightarrow> json result"
  and freeze_items :: "json list \<Rightarrow> json list result"
  and freeze_canonical_mapping :: "payload \<Rightarrow> payload result" where
  "freeze_canonical_value (J_Object p) = bindE (freeze_canonical_mapping p) (\<lambda>q. Inr (J_Object q))"
| "freeze_canonical_value (J_Array xs) = bindE (freeze_items xs) (\<lambda>ys. Inr (J_Array ys))"
| "freeze_canonical_value (J_Float _) = Inl (type_error ''values must not contain floats'')"
| "freeze_canonical_value J_Null = Inr J_Null"
| "freeze_canonical_value (J_Bool b) = Inr (J_Bool b)"
| "freeze_canonical_value (J_Int n) = Inr (J_Int n)"
| "freeze_canonical_value (J_Str s) = Inr (J_Str s)"
| "freeze_items [] = Inr []"
| "freeze_items (v # vs) = bindE (freeze_canonical_value v) (\<lambda>w. bindE (freeze_items vs) (\<lambda>ws. Inr (w # ws)))"
| "freeze_canonical_mapping [] = Inr []"
| "freeze_canonical_mapping ((k, v) # p) =
     bindE (validate_mapping_key k) (\<lambda>_.
     bindE (freeze_canonical_value v) (\<lambda>w.
     bindE (freeze_canonical_mapping p) (\<lambda>q. Inr ((k, w) # q))))"

text \<open>\<^verbatim>\<open>freeze_string_mapping\<close>, whose values are text by their type.\<close>

fun freeze_string_mapping :: "(string \<times> string) list \<Rightarrow> (string \<times> string) list result" where
  "freeze_string_mapping [] = Inr []"
| "freeze_string_mapping ((k, v) # p) =
     bindE (validate_mapping_key k) (\<lambda>_.
     if blank_or_padded v then Inl (value_error ''values must be nonempty strings without surrounding whitespace'')
     else bindE (freeze_string_mapping p) (\<lambda>q. Inr ((k, v) # q)))"

text \<open>What can be frozen: no float anywhere, and no blank or padded key.\<close>

fun freezable :: "json \<Rightarrow> bool" where
  "freezable (J_Object p) = list_all (\<lambda>(k, v). \<not> blank_or_padded k \<and> freezable v) p"
| "freezable (J_Array xs) = list_all freezable xs"
| "freezable (J_Float _) = False"
| "freezable _ = True"

lemma freeze_eq:
  "freeze_canonical_value v = Inr w \<longleftrightarrow> freezable v \<and> w = v"
  "freeze_items vs = Inr ws \<longleftrightarrow> list_all freezable vs \<and> ws = vs"
  "freeze_canonical_mapping p = Inr q \<longleftrightarrow> freezable (J_Object p) \<and> q = p"
  by (induction v and vs and p arbitrary: w and ws and q
      rule: freeze_canonical_value_freeze_items_freeze_canonical_mapping.induct)
    (auto simp: bindE_eq_Inr validate_mapping_key_def)

text \<open>The validators of the models turn a \<open>TypeError\<close> of freezing into a \<open>ValueError\<close>.\<close>

definition freeze_payload :: "payload \<Rightarrow> payload result" where
  "freeze_payload p =
     (case freeze_canonical_mapping p of
        Inl (Exc c msg) \<Rightarrow> Inl (if c = ''TypeError'' then value_error msg else Exc c msg)
      | r \<Rightarrow> r)"

lemma freeze_payload_eq: "freeze_payload p = Inr q \<longleftrightarrow> freezable (J_Object p) \<and> q = p"
proof -
  have "freeze_payload p = Inr q \<longleftrightarrow> freeze_canonical_mapping p = Inr q"
    by (auto simp: freeze_payload_def split: sum.splits py_error.splits)
  then show ?thesis by (simp only: freeze_eq)
qed

section \<open>Reading a payload\<close>

definition required_payload_item :: "payload \<Rightarrow> string \<Rightarrow> json result" where
  "required_payload_item p k =
     (let v = payload_get p k in
      if v = J_Null then Inl (value_error (k @ '' is required'')) else Inr v)"

definition first_present_payload_item :: "payload \<Rightarrow> string \<Rightarrow> string \<Rightarrow> json" where
  "first_present_payload_item p k fallback_key =
     (let v = payload_get p k in if v \<noteq> J_Null then v else payload_get p fallback_key)"

definition required_first_present_payload_item :: "payload \<Rightarrow> string \<Rightarrow> string \<Rightarrow> json result" where
  "required_first_present_payload_item p k fallback_key =
     (let v = first_present_payload_item p k fallback_key in
      if v = J_Null then Inl (value_error (k @ '' is required'')) else Inr v)"

text \<open>The optional object nested under \<^verbatim>\<open>"msg"\<close>.\<close>

definition message_payload :: "payload \<Rightarrow> payload result" where
  "message_payload p =
     (case payload_get p ''msg'' of
        J_Null \<Rightarrow> Inr p
      | J_Object m \<Rightarrow> Inr m
      | _ \<Rightarrow> Inl (value_error ''msg must be a JSON object''))"

text \<open>
  Strict field types: \<open>None\<close> is what the validation rejects. A strict integer is not a bool and not a
  float. The text validator rejects blank and padded text and text above its limit.
\<close>

definition int_field :: "int \<Rightarrow> int option \<Rightarrow> json \<Rightarrow> int option" where
  "int_field lo hi v =
     (case v of J_Int n \<Rightarrow> if lo \<le> n \<and> pred_option (\<lambda>h. n \<le> h) hi then Some n else None | _ \<Rightarrow> None)"

definition raw_text_ok :: "string \<Rightarrow> bool" where
  "raw_text_ok s \<longleftrightarrow> \<not> blank_or_padded s \<and> length s \<le> 4096"

definition str_field :: "nat \<Rightarrow> json \<Rightarrow> string option" where
  "str_field hi v =
     (case v of J_Str s \<Rightarrow> if text_in 1 hi s \<and> raw_text_ok s then Some s else None | _ \<Rightarrow> None)"

definition optional_field :: "(json \<Rightarrow> 'a option) \<Rightarrow> json \<Rightarrow> 'a option option" where
  "optional_field read v = (if v = J_Null then Some None else map_option Some (read v))"

text \<open>The first field that the model rejects, by its name.\<close>

definition raw_field :: "string \<Rightarrow> 'a option \<Rightarrow> 'a result" where
  "raw_field name r = (case r of None \<Rightarrow> Inl (ValidationError (Message name)) | Some x \<Rightarrow> Inr x)"

lemma raw_field_eq_Inr [simp]: "raw_field name r = Inr x \<longleftrightarrow> r = Some x"
  by (simp add: raw_field_def split: option.splits)

lemma raw_field_eq_Inl: "raw_field name r = Inl e \<longleftrightarrow> r = None \<and> e = ValidationError (Message name)"
  by (auto simp: raw_field_def split: option.splits)

lemma if_raise_eq_Inr: "(if b then Inl e else r) = Inr x \<longleftrightarrow> \<not> b \<and> r = Inr x"
  by simp

lemma int_field_eq: "int_field lo hi v = Some n \<longleftrightarrow> v = J_Int n \<and> lo \<le> n \<and> pred_option (\<lambda>h. n \<le> h) hi"
  by (auto simp: int_field_def split: json.splits if_splits)

lemma str_field_eq: "str_field hi v = Some s \<longleftrightarrow> v = J_Str s \<and> text_in 1 hi s \<and> raw_text_ok s"
  by (auto simp: str_field_def split: json.splits if_splits)

lemma optional_field_eq:
  "optional_field read v = Some r \<longleftrightarrow> (v = J_Null \<and> r = None) \<or> (v \<noteq> J_Null \<and> (\<exists>x. read v = Some x \<and> r = Some x))"
  by (auto simp: optional_field_def)

lemma optional_int_range:
  "optional_field (int_field lo hi) v = Some r \<Longrightarrow> pred_option (\<lambda>n. lo \<le> n) r"
  "optional_field (int_field lo (Some h)) v = Some r \<Longrightarrow> pred_option (\<lambda>n. lo \<le> n \<and> n \<le> h) r"
  by (auto simp: optional_field_eq int_field_eq)

lemma optional_text_range:
  "optional_field (str_field n) v = Some r \<Longrightarrow> pred_option (\<lambda>s. \<not> blank_or_padded s) r"
  by (auto simp: optional_field_eq str_field_eq raw_text_ok_def)

text \<open>
  A time field is converted by \<open>parse_utc_datetime\<close> before validation. The validation turns a \<^verbatim>\<open>ValueError\<close> of it
  into the error of the field (\<open>time_field\<close>); any other exception leaves the construction as it is (\<open>time_escape\<close>), such as
  the \<^verbatim>\<open>TypeError\<close> on anything but text.
\<close>

definition datetime_type_error :: py_error where
  "datetime_type_error = type_error ''datetime value must be a datetime or ISO 8601 string''"

definition parse_utc_datetime :: "(string \<Rightarrow> instant result) \<Rightarrow> json \<Rightarrow> instant result" where
  "parse_utc_datetime read_time v = (case v of J_Str s \<Rightarrow> read_time s | _ \<Rightarrow> Inl datetime_type_error)"

definition validation_catches :: "py_error \<Rightarrow> bool" where
  "validation_catches e \<longleftrightarrow> caught_value_error e \<or> e = AssertionError"

definition time_field :: "(string \<Rightarrow> instant result) \<Rightarrow> json \<Rightarrow> instant option" where
  "time_field read_time v = (case parse_utc_datetime read_time v of Inl _ \<Rightarrow> None | Inr t \<Rightarrow> Some t)"

definition time_escape :: "(string \<Rightarrow> instant result) \<Rightarrow> json \<Rightarrow> py_error option" where
  "time_escape read_time v =
     (case parse_utc_datetime read_time v of
        Inl e \<Rightarrow> if validation_catches e then None else Some e
      | Inr _ \<Rightarrow> None)"

definition optional_time_escape :: "(string \<Rightarrow> instant result) \<Rightarrow> json \<Rightarrow> py_error option" where
  "optional_time_escape read_time v = (if v = J_Null then None else time_escape read_time v)"

text \<open>An exception that the validation does not catch wins over every error that it collects.\<close>

definition unless_escape :: "py_error option \<Rightarrow> 'a result \<Rightarrow> 'a result" where
  "unless_escape x m = (case x of Some e \<Rightarrow> Inl e | None \<Rightarrow> m)"

lemma unless_escape_eq_Inr: "unless_escape x m = Inr r \<longleftrightarrow> x = None \<and> m = Inr r"
  by (simp add: unless_escape_def split: option.splits)

lemma unless_escape_simps [simp]: "unless_escape None m = m" "unless_escape (Some e) m = Inl e"
  by (simp_all add: unless_escape_def)

text \<open>\<^verbatim>\<open>json.loads\<close> in a \<^verbatim>\<open>try\<close> that catches \<^verbatim>\<open>JSONDecodeError\<close>.\<close>

definition json_decode_error :: "py_error \<Rightarrow> bool" where
  "json_decode_error e \<longleftrightarrow> (case e of Exc c _ \<Rightarrow> c = ''JSONDecodeError'' | _ \<Rightarrow> False)"

section \<open>What can be raised\<close>

lemma datetime_type_error_simps [simp]:
  "\<not> caught_value_error datetime_type_error" "value_or_type_error datetime_type_error" "\<not> validation_catches datetime_type_error"
  by (simp_all add: datetime_type_error_def type_error_def validation_catches_def)

lemma message_error_simps [simp]:
  "caught_value_error (value_error msg)" "value_or_type_error (value_error msg)" "value_or_type_error (type_error msg)"
  by (simp_all add: value_error_def type_error_def)

text \<open>What building the raw models can raise.\<close>

lemma freeze_raises:
  "freeze_canonical_value v = Inl e \<Longrightarrow> caught_value_error e \<or> e = type_error ''values must not contain floats''"
  "freeze_items vs = Inl e \<Longrightarrow> caught_value_error e \<or> e = type_error ''values must not contain floats''"
  "freeze_canonical_mapping p = Inl e \<Longrightarrow> caught_value_error e \<or> e = type_error ''values must not contain floats''"
  by (induction v and vs and p rule: freeze_canonical_value_freeze_items_freeze_canonical_mapping.induct)
    (auto simp: bindE_eq_Inl validate_mapping_key_def split: if_splits)

definition only_raises :: "(py_error \<Rightarrow> bool) \<Rightarrow> 'a result \<Rightarrow> bool" where
  "only_raises P m \<longleftrightarrow> (\<forall>e. m = Inl e \<longrightarrow> P e)"

lemma only_raises_bindE: "only_raises P m \<Longrightarrow> (\<And>x. only_raises P (f x)) \<Longrightarrow> only_raises P (bindE m f)"
  by (cases m) (auto simp: only_raises_def)

lemma only_raises_if: "(b \<Longrightarrow> only_raises P m) \<Longrightarrow> (\<not> b \<Longrightarrow> only_raises P n) \<Longrightarrow> only_raises P (if b then m else n)"
  by simp

lemma only_raises_Inl: "P e \<Longrightarrow> only_raises P (Inl e)"
  by (simp add: only_raises_def)

lemma only_raises_Inr: "only_raises P (Inr x)"
  by (simp add: only_raises_def)

lemma only_raises_mapE: "(\<And>x. only_raises P (f x)) \<Longrightarrow> only_raises P (mapE f xs)"
  by (induction xs) (auto intro: only_raises_bindE only_raises_Inr)

lemma only_raises_mono: "only_raises P m \<Longrightarrow> (\<And>e. P e \<Longrightarrow> Q e) \<Longrightarrow> only_raises Q m"
  by (auto simp: only_raises_def)

lemmas only_raises = only_raises_bindE only_raises_if only_raises_Inl only_raises_Inr only_raises_mapE

lemma raw_field_raises: "only_raises caught_value_error (raw_field k r)"
  by (auto simp: only_raises_def raw_field_eq_Inl)

lemma freeze_payload_raises: "only_raises caught_value_error (freeze_payload p)"
  by (auto simp: only_raises_def freeze_payload_def type_error_def value_error_def caught_value_error_def VALUE_ERRORS_def dest: freeze_raises(3)
      split: sum.splits py_error.splits if_splits)

definition time_error :: "(string \<Rightarrow> instant result) \<Rightarrow> py_error \<Rightarrow> bool" where
  "time_error read_time e \<longleftrightarrow> \<not> caught_value_error e \<and> (e = datetime_type_error \<or> (\<exists>s. read_time s = Inl e))"

definition raw_model_error :: "(string \<Rightarrow> instant result) \<Rightarrow> py_error \<Rightarrow> bool" where
  "raw_model_error read_time e \<longleftrightarrow> caught_value_error e \<or> time_error read_time e"

lemma raw_model_errors [simp]: "raw_model_error rt (ValidationError v)" "raw_model_error rt (value_error msg)"
  by (simp_all add: raw_model_error_def)

lemma raw_model_raises:
  "only_raises (raw_model_error rt) (raw_field k r)" "only_raises (raw_model_error rt) (freeze_payload p)"
  by (rule only_raises_mono, rule raw_field_raises freeze_payload_raises, simp add: raw_model_error_def)+

lemma time_escape_error: "time_escape read_time v = Some e \<Longrightarrow> time_error read_time e"
  by (auto simp: time_escape_def parse_utc_datetime_def validation_catches_def time_error_def split: sum.splits json.splits if_splits)

lemma unless_escape_raises:
  assumes "\<And>e. x = Some e \<Longrightarrow> time_error rt e" and "only_raises (raw_model_error rt) m"
  shows "only_raises (raw_model_error rt) (unless_escape x m)"
  using assms by (cases x) (auto simp: only_raises_def raw_model_error_def)

lemma optional_time_escape_error: "optional_time_escape read_time v = Some e \<Longrightarrow> time_error read_time e"
  by (auto simp: optional_time_escape_def time_escape_error split: if_splits)

section \<open>Errors of an adapter\<close>

datatype adapter_error_class =
    AdapterError | AdapterAuthenticationError | AdapterRateLimitError | AdapterTransportError | AdapterTimeoutError
  | AdapterProtocolError | AdapterSequenceGapError | AdapterCapabilityError | AdapterAmbiguousOrderSubmissionError

datatype endpoint_category = EC_ACCOUNT | EC_AUTHENTICATION | EC_HEALTH | EC_MARKET_DATA | EC_ORDERS | EC_STREAM | EC_UNKNOWN

fun category_value :: "endpoint_category \<Rightarrow> string" where
  "category_value EC_ACCOUNT = ''account''"
| "category_value EC_AUTHENTICATION = ''authentication''"
| "category_value EC_HEALTH = ''health''"
| "category_value EC_MARKET_DATA = ''market_data''"
| "category_value EC_ORDERS = ''orders''"
| "category_value EC_STREAM = ''stream''"
| "category_value EC_UNKNOWN = ''unknown''"

definition default_retryable :: "adapter_error_class \<Rightarrow> bool" where
  "default_retryable c \<longleftrightarrow> c \<in> {AdapterRateLimitError, AdapterTransportError, AdapterTimeoutError}"

definition requires_reconciliation :: "adapter_error_class \<Rightarrow> bool" where
  "requires_reconciliation c \<longleftrightarrow> c = AdapterAmbiguousOrderSubmissionError"

record adapter_error =
  ae_class :: adapter_error_class
  ae_safe_message :: string
  ae_retryable :: bool
  ae_exchange :: "string option"
  ae_endpoint_category :: "string option"
  ae_http_status :: "int option"
  ae_exchange_error_code :: "string option"
  ae_request_id :: "string option"
  ae_context :: "(string \<times> string) list"

definition set_present :: "string \<Rightarrow> string option \<Rightarrow> (string \<times> string) list \<Rightarrow> (string \<times> string) list" where
  "set_present k v d = (case v of None \<Rightarrow> d | Some s \<Rightarrow> dict_set k s d)"

definition build_context ::
  "adapter_error_class \<Rightarrow> bool \<Rightarrow> string option \<Rightarrow> string option \<Rightarrow> int option \<Rightarrow> string option \<Rightarrow> string option \<Rightarrow>
   (string \<times> string) list \<Rightarrow> (string \<times> string) list" where
  "build_context c retryable exchange category http_status code request_id context =
     set_present ''request_id'' request_id
      (set_present ''exchange_error_code'' code
        (set_present ''http_status'' (map_option int_text http_status)
          (set_present ''endpoint_category'' category
            (set_present ''exchange'' exchange
              (set_present ''requires_reconciliation'' (if requires_reconciliation c then Some ''true'' else None)
                (dict_set ''retryable'' (if retryable then ''true'' else ''false'') context))))))"

text \<open>The constructor; no modelled caller passes \<^verbatim>\<open>retryable\<close> or an excerpt of the response.\<close>

definition mk_adapter_error ::
  "adapter_error_class \<Rightarrow> string \<Rightarrow> string option \<Rightarrow> endpoint_category option \<Rightarrow> int option \<Rightarrow> string option \<Rightarrow> string option \<Rightarrow>
   (string \<times> string) list \<Rightarrow> adapter_error result" where
  "mk_adapter_error c msg exchange category http_status code request_id context =
     bindE (guards
       [(blank_or_padded msg, ValueError F_text),
        (\<not> pred_option (\<lambda>s. \<not> blank_or_padded s) exchange, ValueError F_exchange),
        (\<not> pred_option (\<lambda>n. 100 \<le> n \<and> n \<le> 599) http_status, ValueError F_text),
        (\<not> pred_option (\<lambda>s. \<not> blank_or_padded s) code, ValueError F_text),
        (\<not> pred_option (\<lambda>s. \<not> blank_or_padded s) request_id, ValueError F_text)]) (\<lambda>_.
     let retryable = default_retryable c; cat = map_option category_value category in
     Inr \<lparr>ae_class = c, ae_safe_message = msg, ae_retryable = retryable, ae_exchange = exchange,
       ae_endpoint_category = cat, ae_http_status = http_status, ae_exchange_error_code = code, ae_request_id = request_id,
       ae_context = build_context c retryable exchange cat http_status code request_id context\<rparr>)"

text \<open>An exception that leaves an adapter is one of its own errors or another exception of Python.\<close>

datatype raised = Adapter adapter_error | Other py_error

type_synonym 'a outcome = "raised + 'a"

definition raise_adapter_error :: "adapter_error result \<Rightarrow> 'a outcome" where
  "raise_adapter_error r = (case r of Inl e \<Rightarrow> Inl (Other e) | Inr a \<Rightarrow> Inl (Adapter a))"

definition lift_error :: "'a result \<Rightarrow> 'a outcome" where
  "lift_error r = (case r of Inl e \<Rightarrow> Inl (Other e) | Inr x \<Rightarrow> Inr x)"

lemma lift_error_simps [simp]: "lift_error (Inl e) = Inl (Other e)" "lift_error (Inr x) = Inr x"
  by (simp_all add: lift_error_def)

text \<open>\<^verbatim>\<open>except (TypeError, ValueError, ValidationError)\<close>, followed by an error of the adapter.\<close>

definition or_raise :: "'a outcome \<Rightarrow> adapter_error result \<Rightarrow> 'a outcome" where
  "or_raise r err =
     (case r of
        Inl (Other e) \<Rightarrow> if value_or_type_error e then raise_adapter_error err else Inl (Other e)
      | _ \<Rightarrow> r)"

lemma or_raise_simps [simp]:
  "or_raise (Inr x) err = Inr x"
  "or_raise (Inl (Adapter a)) err = Inl (Adapter a)"
  "or_raise (Inl (Other e)) err = (if value_or_type_error e then raise_adapter_error err else Inl (Other e))"
  by (simp_all add: or_raise_def)

lemma or_raise_eq_Inr [simp]: "or_raise r err = Inr x \<longleftrightarrow> r = Inr x"
  by (auto simp: or_raise_def raise_adapter_error_def split: sum.splits raised.splits)

lemma mk_adapter_error_ok:
  assumes "\<not> blank_or_padded msg" "pred_option (\<lambda>s. \<not> blank_or_padded s) exchange"
    "pred_option (\<lambda>n. 100 \<le> n \<and> n \<le> 599) status" "pred_option (\<lambda>s. \<not> blank_or_padded s) code"
    "pred_option (\<lambda>s. \<not> blank_or_padded s) request_id"
  shows "\<exists>a. mk_adapter_error c msg exchange category status code request_id context = Inr a \<and> ae_class a = c \<and>
    ae_safe_message a = msg \<and> ae_exchange a = exchange \<and> ae_http_status a = status \<and> ae_exchange_error_code a = code \<and>
    ae_request_id a = request_id \<and> ae_retryable a = default_retryable c"
  using assms by (simp add: mk_adapter_error_def Let_def)

lemma map_of_set_present: "map_of (set_present k v d) = (case v of None \<Rightarrow> map_of d | Some s \<Rightarrow> (map_of d)(k \<mapsto> s))"
  by (simp add: set_present_def map_of_dict_set split: option.splits)

text \<open>The fields of an error win over the context that the caller gave.\<close>

lemma build_context_overrides:
  assumes "mk_adapter_error c msg exchange category status code request_id context = Inr a"
  shows "map_of (ae_context a) ''retryable'' = Some (if default_retryable c then ''true'' else ''false'')"
    and "exchange = Some x \<Longrightarrow> map_of (ae_context a) ''exchange'' = Some x"
    and "code = Some y \<Longrightarrow> map_of (ae_context a) ''exchange_error_code'' = Some y"
    and "status = Some n \<Longrightarrow> map_of (ae_context a) ''http_status'' = Some (int_text n)"
proof -
  have "ae_context a = build_context c (default_retryable c) exchange (map_option category_value category) status code request_id context"
    using assms by (auto simp: mk_adapter_error_def Let_def bindE_eq_Inr)
  then show "map_of (ae_context a) ''retryable'' = Some (if default_retryable c then ''true'' else ''false'')"
    "exchange = Some x \<Longrightarrow> map_of (ae_context a) ''exchange'' = Some x"
    "code = Some y \<Longrightarrow> map_of (ae_context a) ''exchange_error_code'' = Some y"
    "status = Some n \<Longrightarrow> map_of (ae_context a) ''http_status'' = Some (int_text n)"
    by (simp_all add: build_context_def map_of_set_present map_of_dict_set split: option.splits)
qed

end
