(* ===== verification/Market_Feeds.thy ===== *)
theory Market_Feeds
  imports Order_Book Adapter_Payloads
begin

text \<open>
  What the market-data adapters produce: the constructors of the canonical levels, deltas and trades
  (\<open>src/pmrp/schemas/market_data.py\<close>), and the contract of a feed.

  An adapter turns the messages of an exchange into canonical deltas. The locale \<open>book_feed\<close> states what makes
  that faithful: the exchange has its own book, a message updates it, and the changes of the mapped delta
  update the canonical view of it in the same way. Then a stream of messages, mapped and applied by
  \<open>simulation/order_book.py\<close>, ends in the view of the exchange's book.
\<close>

section \<open>Constructors\<close>

definition mk_order_book_level :: "order_book_level \<Rightarrow> order_book_level result" where
  "mk_order_book_level l =
     bindE (guards
       [(lv_price l < 0, ValidationError (Out_of_range F_price)),
        (lv_quantity l < 0, ValidationError (Out_of_range F_quantity)),
        (\<not> pred_option (\<lambda>n. 0 \<le> n) (lv_order_count l), ValidationError (Out_of_range F_quantity))])
       (\<lambda>_. Inr l)"

definition mk_order_book_delta_level :: "order_book_delta_level \<Rightarrow> order_book_delta_level result" where
  "mk_order_book_delta_level c =
     bindE (guards
       [(dl_price c < 0, ValidationError (Out_of_range F_price)),
        (dl_quantity c < 0, ValidationError (Out_of_range F_quantity))])
       (\<lambda>_. Inr c)"

text \<open>The changes are built before the delta that holds them.\<close>

definition mk_order_book_delta :: "order_book_delta \<Rightarrow> order_book_delta result" where
  "mk_order_book_delta d =
     bindE (guards
       [(\<not> text_in 1 64 (od_exchange d), ValidationError (Out_of_range F_exchange)),
        (\<not> pred_option (\<lambda>n. 0 \<le> n) (od_sequence d), ValidationError (Out_of_range F_sequence)),
        (\<not> pred_option (\<lambda>n. 0 \<le> n) (od_previous_sequence d), ValidationError (Out_of_range F_sequence))])
       (\<lambda>_. Inr d)"

definition mk_trade :: "trade \<Rightarrow> trade result" where
  "mk_trade t =
     bindE (guards
       [(\<not> text_in 1 128 (td_trade_id t), ValidationError (Out_of_range F_text)),
        (\<not> text_in 1 64 (td_exchange t), ValidationError (Out_of_range F_exchange)),
        (\<not> text_in 1 256 (td_exchange_trade_id t), ValidationError (Out_of_range F_text)),
        (td_price t < 0, ValidationError (Out_of_range F_price)),
        (td_quantity t \<le> 0, ValidationError (Out_of_range F_quantity)),
        (\<not> pred_option (\<lambda>n. 0 \<le> n) (td_sequence t), ValidationError (Out_of_range F_sequence))])
       (\<lambda>_. Inr t)"

lemma mk_order_book_level_eq: "mk_order_book_level l = Inr k \<longleftrightarrow> level_ok l \<and> k = l"
  by (auto simp: mk_order_book_level_def bindE_eq_Inr guards_ok_iff level_ok_def)

lemma mk_order_book_delta_level_eq: "mk_order_book_delta_level c = Inr k \<longleftrightarrow> delta_level_ok c \<and> k = c"
  by (auto simp: mk_order_book_delta_level_def bindE_eq_Inr guards_ok_iff delta_level_ok_def)

lemma mk_order_book_delta_eq:
  "list_all delta_level_ok (od_changes d) \<Longrightarrow> mk_order_book_delta d = Inr k \<longleftrightarrow> delta_valid d \<and> k = d"
  by (auto simp: mk_order_book_delta_def bindE_eq_Inr guards_ok_iff delta_valid_def)

definition trade_accepted :: "trade \<Rightarrow> bool" where
  "trade_accepted t \<longleftrightarrow> text_in 1 128 (td_trade_id t) \<and> text_in 1 64 (td_exchange t) \<and> text_in 1 256 (td_exchange_trade_id t) \<and>
     0 \<le> td_price t \<and> 0 < td_quantity t \<and> pred_option (\<lambda>n. 0 \<le> n) (td_sequence t)"

lemma mk_trade_eq: "mk_trade t = Inr k \<longleftrightarrow> trade_accepted t \<and> k = t"
  by (auto simp: mk_trade_def bindE_eq_Inr guards_ok_iff trade_accepted_def)

text \<open>The constructors only raise what the mappers catch.\<close>

lemma mk_errors_caught:
  "mk_order_book_level l = Inl e \<Longrightarrow> value_or_type_error e"
  "mk_order_book_delta_level c = Inl e \<Longrightarrow> value_or_type_error e"
  "mk_order_book_delta d = Inl e \<Longrightarrow> value_or_type_error e"
  "mk_trade t = Inl e \<Longrightarrow> value_or_type_error e"
  "mk_order_book_snapshot s = Inl e \<Longrightarrow> value_or_type_error e"
  by (auto simp: mk_order_book_level_def mk_order_book_delta_level_def mk_order_book_delta_def mk_trade_def
      mk_order_book_snapshot_def bindE_eq_Inl split: if_splits)

section \<open>Feeds\<close>

locale book_feed =
  fixes update :: "'r \<Rightarrow> 'm \<Rightarrow> 'r"
    and view :: "'r \<Rightarrow> side \<Rightarrow> rat \<Rightarrow> order_book_level option"
    and changes :: "'m \<Rightarrow> order_book_delta_level list"
    and accepted :: "'m \<Rightarrow> bool"
  assumes step: "accepted m \<Longrightarrow> foldl abs_apply (view r) (changes m) = view (update r m)"
begin

lemma stream: "list_all accepted ms \<Longrightarrow> foldl abs_apply (view r) (concat (map changes ms)) = view (foldl update r ms)"
  by (induction ms arbitrary: r) (simp_all add: step)

text \<open>From a book that shows the exchange's book, accepted deltas of the feed lead to one that shows its successor.\<close>

lemma projected_stream:
  assumes "book_valid s" and "abs_book s = view r" and "list_all accepted ms"
    and "list_all delta_valid ds" and "map od_changes ds = map changes ms"
    and "apply_order_book_deltas s ds reason = Inr s'"
  shows "book_valid s' \<and> abs_book s' = view (foldl update r ms)"
  using deltas_run [OF assms(1,4,6)] stream [OF assms(3), of r] assms(2,5) by simp

end

text \<open>Levels at distinct prices, each looked up at its own price.\<close>

lemma abs_levels_Some:
  "distinct (map lv_price ls) \<Longrightarrow> abs_levels ls p = Some l \<longleftrightarrow> l \<in> set ls \<and> lv_price l = p"
  by (auto simp: abs_levels_def map_of_eq_Some_iff comp_def)

end
