(* ===== verification/Kalshi_Models.thy ===== *)
theory Kalshi_Models
  imports Adapter_Payloads
begin

text \<open>
  \<open>src/pmrp/adapters/kalshi/raw_models.py\<close>: the immutable models of Kalshi payloads, built from decoded
  JSON, and the check of the sequence of an order-book message.

  A model is built in the order of the source: the items are picked from the payload, then the fields
  are validated in the order of the class (the error names the first field that is rejected), then the validator of the whole
  model runs. An exception of a time field that the validation does not catch leaves the construction
  as it is, whatever the other fields are.
\<close>

section \<open>Markets\<close>

record kalshi_raw_market =
  km_ticker :: string
  km_event_ticker :: "string option"
  km_market_type :: "string option"
  km_title :: string
  km_subtitle :: "string option"
  km_category :: "string option"
  km_status :: string
  km_open_time :: "instant option"
  km_close_time :: "instant option"
  km_expiration_time :: "instant option"
  km_expected_expiration_time :: "instant option"
  km_yes_bid :: "int option"
  km_yes_ask :: "int option"
  km_no_bid :: "int option"
  km_no_ask :: "int option"
  km_last_price :: "int option"
  km_volume :: "int option"
  km_open_interest :: "int option"
  km_tick_size :: "int option"
  km_minimum_order_size :: "int option"
  km_raw_payload :: payload

definition market_time_fields :: "string list" where
  "market_time_fields = [''open_time'', ''close_time'', ''expiration_time'', ''expected_expiration_time'']"

text \<open>The exception of the first of these fields, in the order of the class, whose time raises one that is not caught.\<close>

fun first_time_escape :: "(string \<Rightarrow> instant result) \<Rightarrow> payload \<Rightarrow> string list \<Rightarrow> py_error option" where
  "first_time_escape read_time p [] = None"
| "first_time_escape read_time p (k # ks) =
     (case optional_time_escape read_time (payload_get p k) of
        Some e \<Rightarrow> Some e
      | None \<Rightarrow> first_time_escape read_time p ks)"

lemma first_time_escape_error: "first_time_escape read_time p ks = Some e \<Longrightarrow> time_error read_time e"
  by (induction ks) (auto dest: optional_time_escape_error split: option.splits)

definition validate_market_time_ordering :: "kalshi_raw_market \<Rightarrow> kalshi_raw_market result" where
  "validate_market_time_ordering m =
     (case (km_open_time m, km_close_time m) of
        (Some open_time, Some close_time) \<Rightarrow>
          if close_time < open_time
          then Inl (ValidationError (Message ''close_time must not precede open_time'')) else Inr m
      | _ \<Rightarrow> Inr m)"

definition market_from_exchange_payload ::
  "(string \<Rightarrow> instant result) \<Rightarrow> payload \<Rightarrow> kalshi_raw_market result" where
  "market_from_exchange_payload read_time p =
     (let text = (\<lambda>k n. raw_field k (str_field n (payload_get p k)));
          text_or_none = (\<lambda>k n. raw_field k (optional_field (str_field n) (payload_get p k)));
          time = (\<lambda>k. raw_field k (optional_field (time_field read_time) (payload_get p k)));
          cents = (\<lambda>k. raw_field k (optional_field (int_field 0 (Some 100)) (payload_get p k)));
          count = (\<lambda>k lo hi. raw_field k (optional_field (int_field lo hi) (payload_get p k)))
      in
      unless_escape (first_time_escape read_time p market_time_fields)
      (bindE (text ''ticker'' 256) (\<lambda>ticker.
      bindE (text_or_none ''event_ticker'' 256) (\<lambda>event_ticker.
      bindE (text_or_none ''market_type'' 128) (\<lambda>market_type.
      bindE (text ''title'' 512) (\<lambda>title.
      bindE (text_or_none ''subtitle'' 512) (\<lambda>subtitle.
      bindE (text_or_none ''category'' 128) (\<lambda>category.
      bindE (text ''status'' 128) (\<lambda>status.
      bindE (time ''open_time'') (\<lambda>open_time.
      bindE (time ''close_time'') (\<lambda>close_time.
      bindE (time ''expiration_time'') (\<lambda>expiration_time.
      bindE (time ''expected_expiration_time'') (\<lambda>expected_expiration_time.
      bindE (cents ''yes_bid'') (\<lambda>yes_bid.
      bindE (cents ''yes_ask'') (\<lambda>yes_ask.
      bindE (cents ''no_bid'') (\<lambda>no_bid.
      bindE (cents ''no_ask'') (\<lambda>no_ask.
      bindE (cents ''last_price'') (\<lambda>last_price.
      bindE (count ''volume'' 0 None) (\<lambda>volume.
      bindE (count ''open_interest'' 0 None) (\<lambda>open_interest.
      bindE (count ''tick_size'' 1 (Some 100)) (\<lambda>tick_size.
      bindE (count ''minimum_order_size'' 1 None) (\<lambda>minimum_order_size.
      bindE (freeze_payload p) (\<lambda>raw.
      validate_market_time_ordering
        \<lparr>km_ticker = ticker, km_event_ticker = event_ticker, km_market_type = market_type, km_title = title,
         km_subtitle = subtitle, km_category = category, km_status = status, km_open_time = open_time,
         km_close_time = close_time, km_expiration_time = expiration_time,
         km_expected_expiration_time = expected_expiration_time, km_yes_bid = yes_bid, km_yes_ask = yes_ask,
         km_no_bid = no_bid, km_no_ask = no_ask, km_last_price = last_price, km_volume = volume,
         km_open_interest = open_interest, km_tick_size = tick_size, km_minimum_order_size = minimum_order_size,
         km_raw_payload = raw\<rparr>)))))))))))))))))))))))"

record kalshi_market_list_response =
  ml_markets :: "kalshi_raw_market list"
  ml_cursor :: "string option"
  ml_raw_payload :: payload

definition market_from_payload :: "(string \<Rightarrow> instant result) \<Rightarrow> json \<Rightarrow> kalshi_raw_market result" where
  "market_from_payload read_time v =
     (case v of J_Object p \<Rightarrow> market_from_exchange_payload read_time p
      | _ \<Rightarrow> Inl (value_error ''Kalshi market-list markets must contain JSON objects''))"

definition market_list_from_exchange_payload ::
  "(string \<Rightarrow> instant result) \<Rightarrow> payload \<Rightarrow> kalshi_market_list_response result" where
  "market_list_from_exchange_payload read_time p =
     (case payload_get p ''markets'' of
        J_Array items \<Rightarrow>
          bindE (mapE (market_from_payload read_time) items) (\<lambda>markets.
          bindE (raw_field ''cursor'' (optional_field (str_field 256) (payload_get p ''cursor''))) (\<lambda>cursor.
          bindE (freeze_payload p) (\<lambda>raw.
          if \<not> distinct (map km_ticker markets)
          then Inl (ValidationError (Message ''Kalshi market-list response must not contain duplicate tickers''))
          else Inr \<lparr>ml_markets = markets, ml_cursor = cursor, ml_raw_payload = raw\<rparr>)))
      | _ \<Rightarrow> Inl (value_error ''Kalshi market list payload must contain a markets array''))"

section \<open>Order-book messages\<close>

datatype message_type = MT_SNAPSHOT | MT_DELTA

datatype book_side = YES | NO

datatype delta_action = DA_INSERT | DA_UPDATE | DA_DELETE

record kalshi_level =
  kl_price :: int
  kl_quantity :: int

record kalshi_order_book_message =
  ko_market_ticker :: string
  ko_message_type :: message_type
  ko_subscription_id :: "int option"
  ko_sequence :: "int option"
  ko_side :: "book_side option"
  ko_price :: "int option"
  ko_quantity :: "int option"
  ko_action :: "delta_action option"
  ko_yes :: "kalshi_level list"
  ko_no :: "kalshi_level list"
  ko_raw_payload :: payload

definition order_book_message_type :: "payload \<Rightarrow> message_type result" where
  "order_book_message_type p =
     (let t = first_present_payload_item p ''type'' ''message_type'' in
      if t = J_Str ''snapshot'' \<or> t = J_Str ''orderbook_snapshot'' then Inr MT_SNAPSHOT
      else if t = J_Str ''delta'' \<or> t = J_Str ''orderbook_delta'' then Inr MT_DELTA
      else Inl (value_error ''Kalshi order-book payload type must be snapshot or delta''))"

text \<open>A level is an object with exactly its two keys, or an array of two items.\<close>

definition validate_level :: "json \<Rightarrow> json \<Rightarrow> kalshi_level result" where
  "validate_level price quantity =
     bindE (raw_field ''price'' (int_field 0 (Some 100) price)) (\<lambda>price.
     bindE (raw_field ''quantity'' (int_field 0 None quantity)) (\<lambda>quantity.
       Inr \<lparr>kl_price = price, kl_quantity = quantity\<rparr>))"

definition raw_order_book_level :: "json \<Rightarrow> kalshi_level result" where
  "raw_order_book_level v =
     (case v of
        J_Object p \<Rightarrow>
          bindE (validate_level (payload_get p ''price'') (payload_get p ''quantity'')) (\<lambda>l.
          if list_all (\<lambda>(k, _). k = ''price'' \<or> k = ''quantity'') p then Inr l
          else Inl (ValidationError (Message ''extra inputs are not permitted'')))
      | J_Array [price, quantity] \<Rightarrow> validate_level price quantity
      | _ \<Rightarrow> Inl (value_error ''Kalshi order-book levels must be objects or [price, quantity] arrays''))"

definition order_book_levels :: "json \<Rightarrow> kalshi_level list result" where
  "order_book_levels v =
     (case v of J_Array items \<Rightarrow> mapE raw_order_book_level items
      | _ \<Rightarrow> Inl (value_error ''Kalshi order-book snapshot levels must be arrays''))"

definition side_field :: "json \<Rightarrow> book_side option" where
  "side_field v = (if v = J_Str ''yes'' then Some YES else if v = J_Str ''no'' then Some NO else None)"

definition action_field :: "json \<Rightarrow> delta_action option" where
  "action_field v =
     (if v = J_Str ''insert'' then Some DA_INSERT else if v = J_Str ''update'' then Some DA_UPDATE
      else if v = J_Str ''delete'' then Some DA_DELETE else None)"

definition validate_unique_prices :: "string \<Rightarrow> kalshi_level list \<Rightarrow> (bool \<times> py_error) list" where
  "validate_unique_prices name ls =
     [(\<not> distinct (map kl_price ls), ValidationError (Message (name @ '' side must not contain duplicate prices'')))]"

definition validate_message_shape :: "kalshi_order_book_message \<Rightarrow> kalshi_order_book_message result" where
  "validate_message_shape m =
     (let bad = (\<lambda>s. ValidationError (Message s)) in
      bindE (guards
       (if ko_message_type m = MT_SNAPSHOT then
          [(ko_side m \<noteq> None \<or> ko_price m \<noteq> None \<or> ko_action m \<noteq> None, bad ''snapshots must not contain delta fields''),
           (ko_quantity m \<noteq> None, bad ''snapshots must not contain delta quantity''),
           (ko_yes m = [] \<and> ko_no m = [], bad ''snapshots must contain at least one side'')] @
          validate_unique_prices ''yes'' (ko_yes m) @ validate_unique_prices ''no'' (ko_no m)
        else
          [(ko_side m = None \<or> ko_price m = None \<or> ko_action m = None, bad ''deltas must include side, price, and action''),
           (ko_yes m \<noteq> [] \<or> ko_no m \<noteq> [], bad ''deltas must not contain snapshot levels''),
           (ko_action m = Some DA_DELETE \<and> \<not> (ko_quantity m = None \<or> ko_quantity m = Some 0),
              bad ''delete deltas must not include positive quantity''),
           (ko_action m \<noteq> Some DA_DELETE \<and> ko_quantity m = None, bad ''insert and update deltas must include quantity'')]))
      (\<lambda>_. Inr m))"

text \<open>The validation of the collected items; the levels are models already.\<close>

definition validate_order_book_message ::
  "message_type \<Rightarrow> json \<Rightarrow> json \<Rightarrow> json \<Rightarrow> json \<Rightarrow> json \<Rightarrow> json \<Rightarrow> json \<Rightarrow> kalshi_level list \<Rightarrow> kalshi_level list \<Rightarrow> payload \<Rightarrow>
   kalshi_order_book_message result" where
  "validate_order_book_message t ticker sid seq side price quantity action yes no p =
     bindE (raw_field ''market_ticker'' (str_field 256 ticker)) (\<lambda>ticker.
     bindE (raw_field ''subscription_id'' (optional_field (int_field 0 None) sid)) (\<lambda>sid.
     bindE (raw_field ''sequence'' (optional_field (int_field 0 None) seq)) (\<lambda>seq.
     bindE (raw_field ''side'' (optional_field side_field side)) (\<lambda>side.
     bindE (raw_field ''price'' (optional_field (int_field 0 (Some 100)) price)) (\<lambda>price.
     bindE (raw_field ''quantity'' (optional_field (int_field 0 None) quantity)) (\<lambda>quantity.
     bindE (raw_field ''action'' (optional_field action_field action)) (\<lambda>action.
     bindE (freeze_payload p) (\<lambda>raw.
     validate_message_shape
       \<lparr>ko_market_ticker = ticker, ko_message_type = t, ko_subscription_id = sid, ko_sequence = seq, ko_side = side,
        ko_price = price, ko_quantity = quantity, ko_action = action, ko_yes = yes, ko_no = no, ko_raw_payload = raw\<rparr>))))))))"

definition order_book_message_from_exchange_payload :: "payload \<Rightarrow> kalshi_order_book_message result" where
  "order_book_message_from_exchange_payload p =
     bindE (message_payload p) (\<lambda>m.
     bindE (order_book_message_type p) (\<lambda>t.
     bindE (required_payload_item m ''market_ticker'') (\<lambda>ticker.
     let sid = first_present_payload_item p ''sid'' ''subscription_id'';
         seq = first_present_payload_item p ''seq'' ''sequence''
     in
     if t = MT_SNAPSHOT then
       bindE (order_book_levels (payload_get_or m ''yes'' (J_Array []))) (\<lambda>yes.
       bindE (order_book_levels (payload_get_or m ''no'' (J_Array []))) (\<lambda>no.
       validate_order_book_message t ticker sid seq J_Null J_Null J_Null J_Null yes no p))
     else
       bindE (required_payload_item m ''side'') (\<lambda>side.
       bindE (required_payload_item m ''price'') (\<lambda>price.
       bindE (required_payload_item m ''action'') (\<lambda>action.
       validate_order_book_message t ticker sid seq side price
         (first_present_payload_item m ''quantity'' ''size'') action [] [] p))))))"

section \<open>Trades and errors\<close>

record kalshi_raw_trade =
  kt_trade_id :: string
  kt_market_ticker :: string
  kt_yes_price :: "int option"
  kt_no_price :: "int option"
  kt_count :: int
  kt_taker_side :: "string option"
  kt_created_time :: instant
  kt_subscription_id :: "int option"
  kt_sequence :: "int option"
  kt_raw_payload :: payload

definition validate_trade_shape :: "kalshi_raw_trade \<Rightarrow> kalshi_raw_trade result" where
  "validate_trade_shape t =
     (if kt_yes_price t = None \<and> kt_no_price t = None
      then Inl (ValidationError (Message ''Kalshi trades must include at least one raw price'')) else Inr t)"

definition trade_from_exchange_payload :: "(string \<Rightarrow> instant result) \<Rightarrow> payload \<Rightarrow> kalshi_raw_trade result" where
  "trade_from_exchange_payload read_time p =
     bindE (message_payload p) (\<lambda>m.
     let seq = first_present_payload_item p ''seq'' ''sequence'';
         sequence = (if seq = J_Null then payload_get m ''sequence'' else seq)
     in
     bindE (required_first_present_payload_item m ''trade_id'' ''id'') (\<lambda>trade_id.
     bindE (required_payload_item m ''market_ticker'') (\<lambda>ticker.
     bindE (required_first_present_payload_item m ''count'' ''quantity'') (\<lambda>count.
     bindE (required_first_present_payload_item m ''created_time'' ''created_at'') (\<lambda>created_time.
     unless_escape (time_escape read_time created_time)
     (bindE (raw_field ''trade_id'' (str_field 256 trade_id)) (\<lambda>trade_id.
     bindE (raw_field ''market_ticker'' (str_field 256 ticker)) (\<lambda>ticker.
     bindE (raw_field ''yes_price''
       (optional_field (int_field 0 (Some 100)) (first_present_payload_item m ''yes_price'' ''price''))) (\<lambda>yes_price.
     bindE (raw_field ''no_price'' (optional_field (int_field 0 (Some 100)) (payload_get m ''no_price''))) (\<lambda>no_price.
     bindE (raw_field ''count'' (int_field 1 None count)) (\<lambda>count.
     bindE (raw_field ''taker_side''
       (optional_field (str_field 128) (first_present_payload_item m ''taker_side'' ''side''))) (\<lambda>taker_side.
     bindE (raw_field ''created_time'' (time_field read_time created_time)) (\<lambda>created_time.
     bindE (raw_field ''subscription_id''
       (optional_field (int_field 0 None) (first_present_payload_item p ''sid'' ''subscription_id''))) (\<lambda>sid.
     bindE (raw_field ''sequence'' (optional_field (int_field 0 None) sequence)) (\<lambda>sequence.
     bindE (freeze_payload p) (\<lambda>raw.
     validate_trade_shape
       \<lparr>kt_trade_id = trade_id, kt_market_ticker = ticker, kt_yes_price = yes_price, kt_no_price = no_price, kt_count = count,
        kt_taker_side = taker_side, kt_created_time = created_time, kt_subscription_id = sid, kt_sequence = sequence,
        kt_raw_payload = raw\<rparr>))))))))))))))))"

record kalshi_raw_error_response =
  ke_http_status :: "int option"
  ke_error_code :: "string option"
  ke_message :: "string option"
  ke_request_id :: "string option"
  ke_retry_after_seconds :: "int option"
  ke_endpoint :: "string option"
  ke_raw_payload :: payload

definition error_payload :: "payload \<Rightarrow> payload result" where
  "error_payload p =
     (case payload_get p ''error'' of
        J_Null \<Rightarrow> Inr p
      | J_Object e \<Rightarrow> Inr e
      | _ \<Rightarrow> Inl (value_error ''Kalshi error payload error must be a JSON object''))"

definition error_from_exchange_payload :: "payload \<Rightarrow> kalshi_raw_error_response result" where
  "error_from_exchange_payload p =
     bindE (error_payload p) (\<lambda>e.
     let status = first_present_payload_item p ''http_status'' ''status_code'';
         http_status = (if status = J_Null then payload_get e ''status'' else status);
         text = (\<lambda>k n v. raw_field k (optional_field (str_field n) v))
     in
     bindE (raw_field ''http_status'' (optional_field (int_field 100 (Some 599)) http_status)) (\<lambda>http_status.
     bindE (text ''error_code'' 128 (first_present_payload_item e ''code'' ''error_code'')) (\<lambda>error_code.
     bindE (text ''message'' 1024 (first_present_payload_item e ''message'' ''detail'')) (\<lambda>message.
     bindE (text ''request_id'' 256 (first_present_payload_item p ''request_id'' ''x_request_id'')) (\<lambda>request_id.
     bindE (raw_field ''retry_after_seconds''
       (optional_field (int_field 0 None) (first_present_payload_item e ''retry_after_seconds'' ''retry_after''))) (\<lambda>retry_after.
     bindE (text ''endpoint'' 512 (payload_get p ''endpoint'')) (\<lambda>endpoint.
     bindE (freeze_payload p) (\<lambda>raw.
     if error_code = None \<and> message = None
     then Inl (ValidationError (Message ''Kalshi errors must include an error code or message''))
     else Inr \<lparr>ke_http_status = http_status, ke_error_code = error_code, ke_message = message, ke_request_id = request_id,
       ke_retry_after_seconds = retry_after, ke_endpoint = endpoint, ke_raw_payload = raw\<rparr>))))))))"

section \<open>Payloads as text\<close>

definition parse_json_object :: "(string \<Rightarrow> json result) \<Rightarrow> string \<Rightarrow> string \<Rightarrow> payload result" where
  "parse_json_object loads name s =
     (case loads s of
        Inl e \<Rightarrow> Inl (if json_decode_error e then value_error (name @ '' payload must be valid JSON'') else e)
      | Inr (J_Object p) \<Rightarrow> Inr p
      | Inr _ \<Rightarrow> Inl (value_error (name @ '' payload must be a JSON object'')))"

definition parse_kalshi_market_list_json ::
  "(string \<Rightarrow> instant result) \<Rightarrow> (string \<Rightarrow> json result) \<Rightarrow> string \<Rightarrow> kalshi_market_list_response result" where
  "parse_kalshi_market_list_json read_time loads s =
     bindE (parse_json_object loads ''Kalshi market-list'' s) (market_list_from_exchange_payload read_time)"

definition parse_kalshi_order_book_message_json :: "(string \<Rightarrow> json result) \<Rightarrow> string \<Rightarrow> kalshi_order_book_message result" where
  "parse_kalshi_order_book_message_json loads s =
     bindE (parse_json_object loads ''Kalshi order-book'' s) order_book_message_from_exchange_payload"

definition parse_kalshi_trade_json ::
  "(string \<Rightarrow> instant result) \<Rightarrow> (string \<Rightarrow> json result) \<Rightarrow> string \<Rightarrow> kalshi_raw_trade result" where
  "parse_kalshi_trade_json read_time loads s =
     bindE (parse_json_object loads ''Kalshi trade'' s) (trade_from_exchange_payload read_time)"

definition parse_kalshi_error_json :: "(string \<Rightarrow> json result) \<Rightarrow> string \<Rightarrow> kalshi_raw_error_response result" where
  "parse_kalshi_error_json loads s =
     bindE (parse_json_object loads ''Kalshi error'' s) error_from_exchange_payload"

section \<open>Sequences\<close>

datatype sequence_status = SEQ_OK | SEQ_DUPLICATE | SEQ_STALE | SEQ_GAP | SEQ_MISSING

record sequence_check =
  sk_previous_sequence :: "int option"
  sk_expected_sequence :: "int option"
  sk_received_sequence :: "int option"
  sk_status :: sequence_status
  sk_invalidates_book :: bool

definition validate_sequence_status :: "sequence_check \<Rightarrow> sequence_check result" where
  "validate_sequence_status c =
     (let bad = (\<lambda>s. ValidationError (Message s)); nonneg = pred_option (\<lambda>n. (0::int) \<le> n) in
      bindE (guards
       [(\<not> nonneg (sk_previous_sequence c) \<or> \<not> nonneg (sk_expected_sequence c) \<or> \<not> nonneg (sk_received_sequence c),
           ValidationError (Out_of_range F_sequence)),
        (sk_previous_sequence c = None \<and> sk_expected_sequence c \<noteq> None,
           bad ''expected_sequence must be absent when previous_sequence is absent''),
        (sk_previous_sequence c \<noteq> None \<and> sk_expected_sequence c \<noteq> map_option (\<lambda>n. n + 1) (sk_previous_sequence c),
           bad ''expected_sequence must equal previous_sequence plus one''),
        (sk_status c = SEQ_GAP \<and> \<not> sk_invalidates_book c, bad ''sequence gaps must invalidate the local book''),
        (sk_status c = SEQ_MISSING \<and> sk_invalidates_book c \<and> sk_previous_sequence c = None,
           bad ''missing initial sequence must not invalidate an untracked book''),
        (sk_status c \<noteq> SEQ_GAP \<and> sk_invalidates_book c \<and> sk_status c \<noteq> SEQ_MISSING,
           bad ''only gaps or missing tracked sequences may invalidate the local book'')])
      (\<lambda>_. Inr c))"

definition validate_optional_nonnegative_int :: "int option \<Rightarrow> unit result" where
  "validate_optional_nonnegative_int v =
     (case v of None \<Rightarrow> Inr () | Some n \<Rightarrow> if n < 0 then Inl (value_error ''must be nonnegative'') else Inr ())"

definition check_kalshi_order_book_sequence ::
  "int option \<Rightarrow> kalshi_order_book_message \<Rightarrow> sequence_check result" where
  "check_kalshi_order_book_sequence previous m =
     bindE (validate_optional_nonnegative_int previous) (\<lambda>_.
     let expected = map_option (\<lambda>n. n + 1) previous;
         check = (\<lambda>received status invalidates. validate_sequence_status
           \<lparr>sk_previous_sequence = previous, sk_expected_sequence = expected, sk_received_sequence = received,
            sk_status = status, sk_invalidates_book = invalidates\<rparr>)
     in case ko_sequence m of
       None \<Rightarrow> check None SEQ_MISSING (previous \<noteq> None)
     | Some received \<Rightarrow>
         (case previous of
            None \<Rightarrow> check (Some received) SEQ_OK False
          | Some n \<Rightarrow>
              if received = n + 1 then check (Some received) SEQ_OK False
              else
                let status = (if received = n then SEQ_DUPLICATE else if received < n then SEQ_STALE else SEQ_GAP)
                in check (Some received) status (status = SEQ_GAP)))"

section \<open>What an accepted payload is\<close>

definition level_in_range :: "kalshi_level \<Rightarrow> bool" where
  "level_in_range l \<longleftrightarrow> 0 \<le> kl_price l \<and> kl_price l \<le> 100 \<and> 0 \<le> kl_quantity l"

definition side_ok :: "kalshi_level list \<Rightarrow> bool" where
  "side_ok ls \<longleftrightarrow> list_all level_in_range ls \<and> distinct (map kl_price ls)"

definition snapshot_ok :: "kalshi_order_book_message \<Rightarrow> bool" where
  "snapshot_ok m \<longleftrightarrow> ko_message_type m = MT_SNAPSHOT \<and> pred_option (\<lambda>n. 0 \<le> n) (ko_sequence m) \<and>
     side_ok (ko_yes m) \<and> side_ok (ko_no m) \<and> (ko_yes m \<noteq> [] \<or> ko_no m \<noteq> [])"

definition delta_ok :: "kalshi_order_book_message \<Rightarrow> bool" where
  "delta_ok m \<longleftrightarrow> ko_message_type m = MT_DELTA \<and> pred_option (\<lambda>n. 0 \<le> n) (ko_sequence m) \<and>
     (\<exists>side price action. ko_side m = Some side \<and> ko_price m = Some price \<and> ko_action m = Some action \<and>
        0 \<le> price \<and> price \<le> 100 \<and> pred_option (\<lambda>n. 0 \<le> n) (ko_quantity m) \<and>
        (if action = DA_DELETE then ko_quantity m \<in> {None, Some 0} else ko_quantity m \<noteq> None))"

lemma validate_level_range: "validate_level p q = Inr l \<Longrightarrow> level_in_range l"
  by (auto simp: validate_level_def bindE_eq_Inr int_field_eq level_in_range_def)

lemma raw_order_book_level_range: "raw_order_book_level v = Inr l \<Longrightarrow> level_in_range l"
  by (auto simp: raw_order_book_level_def bindE_eq_Inr split: json.splits list.splits if_splits dest: validate_level_range)

lemma order_book_levels_range: "order_book_levels v = Inr ls \<Longrightarrow> list_all level_in_range ls"
  by (auto simp: order_book_levels_def list_all_iff split: json.splits dest: mapE_elem raw_order_book_level_range)

lemma message_shape_same: "validate_message_shape m = Inr m' \<Longrightarrow> m' = m"
  by (auto simp: validate_message_shape_def Let_def bindE_eq_Inr simp del: guards.simps)

lemma validate_message_fields:
  assumes "validate_order_book_message t ticker sid seq side price quantity action yes no p = Inr m"
  shows "ko_message_type m = t" "pred_option (\<lambda>n. 0 \<le> n) (ko_sequence m)" "validate_message_shape m = Inr m"
    "ko_yes m = yes" "ko_no m = no" "pred_option (\<lambda>n. 0 \<le> n \<and> n \<le> 100) (ko_price m)"
    "pred_option (\<lambda>n. 0 \<le> n) (ko_quantity m)"
proof -
  obtain r where shape: "validate_message_shape r = Inr m" and r: "ko_message_type r = t"
    "pred_option (\<lambda>n. 0 \<le> n) (ko_sequence r)" "ko_yes r = yes" "ko_no r = no"
    "pred_option (\<lambda>n. 0 \<le> n \<and> n \<le> 100) (ko_price r)" "pred_option (\<lambda>n. 0 \<le> n) (ko_quantity r)"
    using assms unfolding validate_order_book_message_def bindE_eq_Inr raw_field_eq_Inr
    by (elim exE conjE) (erule that, auto simp: optional_field_eq int_field_eq)
  then show "ko_message_type m = t" "pred_option (\<lambda>n. 0 \<le> n) (ko_sequence m)" "validate_message_shape m = Inr m"
    "ko_yes m = yes" "ko_no m = no" "pred_option (\<lambda>n. 0 \<le> n \<and> n \<le> 100) (ko_price m)"
    "pred_option (\<lambda>n. 0 \<le> n) (ko_quantity m)"
    using message_shape_same [OF shape] by simp_all
qed

lemma validated_sequence:
  assumes "validate_order_book_message t ticker sid seq side price quantity action yes no p = Inr m"
  shows "optional_field (int_field 0 None) seq = Some (ko_sequence m)"
proof -
  obtain r where "validate_message_shape r = Inr m" "optional_field (int_field 0 None) seq = Some (ko_sequence r)"
    using assms unfolding validate_order_book_message_def bindE_eq_Inr raw_field_eq_Inr
    by (elim exE conjE) (erule that, simp)
  then show ?thesis using message_shape_same by metis
qed

lemma message_sequence:
  assumes "order_book_message_from_exchange_payload p = Inr m"
  shows "optional_field (int_field 0 None) (first_present_payload_item p ''seq'' ''sequence'') = Some (ko_sequence m)"
  using assms unfolding order_book_message_from_exchange_payload_def Let_def
  by (auto simp: bindE_eq_Inr split: if_splits dest: validated_sequence)

lemma order_book_message_ok:
  assumes "order_book_message_from_exchange_payload p = Inr m"
  shows "if ko_message_type m = MT_SNAPSHOT then snapshot_ok m else delta_ok m"
proof -
  obtain t ticker sid seq side price quantity action yes no where
    m: "validate_order_book_message t ticker sid seq side price quantity action yes no p = Inr m"
    and levels: "list_all level_in_range yes" "list_all level_in_range no"
    using assms unfolding order_book_message_from_exchange_payload_def Let_def
    by (auto simp: bindE_eq_Inr split: if_splits) (erule that, (auto intro: order_book_levels_range) [2])+
  note f = validate_message_fields [OF m]
  show ?thesis
  proof (cases "ko_message_type m")
    case MT_SNAPSHOT
    then show ?thesis using f levels
      by (auto simp: snapshot_ok_def side_ok_def validate_message_shape_def Let_def bindE_eq_Inr guards_ok_iff
          validate_unique_prices_def simp del: guards.simps)
  next
    case MT_DELTA
    then show ?thesis using f
      by (auto simp: delta_ok_def validate_message_shape_def Let_def bindE_eq_Inr guards_ok_iff pred_option_def
          simp del: guards.simps)
  qed
qed

text \<open>The check of a sequence always returns, and its status is decided by the two numbers alone.\<close>

definition classify :: "int option \<Rightarrow> int option \<Rightarrow> sequence_status" where
  "classify previous received =
     (case (received, previous) of
        (None, _) \<Rightarrow> SEQ_MISSING
      | (Some _, None) \<Rightarrow> SEQ_OK
      | (Some k, Some n) \<Rightarrow>
          if k = n + 1 then SEQ_OK else if k = n then SEQ_DUPLICATE else if k < n then SEQ_STALE else SEQ_GAP)"

lemma check_sequence_eq:
  assumes "pred_option (\<lambda>n. 0 \<le> n) previous" "pred_option (\<lambda>n. 0 \<le> n) (ko_sequence m)"
  shows "check_kalshi_order_book_sequence previous m =
    Inr \<lparr>sk_previous_sequence = previous, sk_expected_sequence = map_option (\<lambda>n. n + 1) previous,
      sk_received_sequence = ko_sequence m, sk_status = classify previous (ko_sequence m),
      sk_invalidates_book = (classify previous (ko_sequence m) = SEQ_GAP \<or> ko_sequence m = None \<and> previous \<noteq> None)\<rparr>"
  using assms
  by (cases previous; cases "ko_sequence m")
    (auto simp: check_kalshi_order_book_sequence_def validate_optional_nonnegative_int_def validate_sequence_status_def
      classify_def Let_def)

end
