(* ===== verification/Kalshi_Mapper.thy ===== *)
theory Kalshi_Mapper
  imports Market_Feeds Kalshi_Models
begin

text \<open>
  \<open>src/pmrp/adapters/kalshi/mapper.py\<close>: raw order-book messages and trades as canonical market data of the
  yes contract. The \<open>yes\<close> levels of Kalshi are bids of the yes contract; the \<open>no\<close> levels are bids of the
  other contract, hence asks of the yes contract at the complement of their price.

  The abstract book of Kalshi is a quantity per side and price in cents. The mapper refines it: messages
  that are mapped and applied by the simulated order book lead to the canonical view of the two-sided book.
\<close>

section \<open>The mapper\<close>

definition kalshi_cents_to_decimal :: "int \<Rightarrow> rat" where
  "kalshi_cents_to_decimal c = ddiv (of_int c) 100"

definition kalshi_no_cents_to_yes_ask_decimal :: "int \<Rightarrow> rat" where
  "kalshi_no_cents_to_yes_ask_decimal c = ddiv (of_int (100 - c)) 100"

fun message_type_value :: "message_type \<Rightarrow> string" where
  "message_type_value MT_SNAPSHOT = ''snapshot''"
| "message_type_value MT_DELTA = ''delta''"

definition safe_order_book_context :: "kalshi_order_book_message \<Rightarrow> (string \<times> string) list" where
  "safe_order_book_context m =
     set_present ''subscription_id'' (map_option int_text (ko_subscription_id m))
      (set_present ''sequence'' (map_option int_text (ko_sequence m))
        [(''exchange_market_id'', ko_market_ticker m), (''message_type'', message_type_value (ko_message_type m))])"

definition order_book_mapping_error :: "string \<Rightarrow> kalshi_order_book_message \<Rightarrow> string \<Rightarrow> adapter_error result" where
  "order_book_mapping_error msg m code =
     mk_adapter_error AdapterProtocolError msg (Some ''kalshi'') (Some EC_STREAM) None (Some code) None
       (safe_order_book_context m)"

definition map_yes_bid_levels :: "kalshi_level list \<Rightarrow> order_book_level list result" where
  "map_yes_bid_levels ls =
     mapE (\<lambda>l. mk_order_book_level
         \<lparr>lv_price = kalshi_cents_to_decimal (kl_price l), lv_quantity = of_int (kl_quantity l), lv_order_count = None\<rparr>)
       (sort_key (\<lambda>l. - kl_price l) ls)"

definition map_no_ask_levels :: "kalshi_level list \<Rightarrow> order_book_level list result" where
  "map_no_ask_levels ls =
     mapE (\<lambda>l. mk_order_book_level
         \<lparr>lv_price = kalshi_no_cents_to_yes_ask_decimal (kl_price l), lv_quantity = of_int (kl_quantity l),
          lv_order_count = None\<rparr>)
       (sort_key (\<lambda>l. kalshi_no_cents_to_yes_ask_decimal (kl_price l)) ls)"

definition map_kalshi_order_book_snapshot ::
  "kalshi_order_book_message \<Rightarrow> ident \<Rightarrow> ident \<Rightarrow> instant \<Rightarrow> instant option \<Rightarrow> string \<Rightarrow> order_book_snapshot outcome" where
  "map_kalshi_order_book_snapshot m market_id contract_id received_at occurred_at reason =
     (if ko_message_type m \<noteq> MT_SNAPSHOT
      then raise_adapter_error (order_book_mapping_error ''Kalshi order-book message is not a snapshot'' m
        ''kalshi_order_book_wrong_message_type'')
      else or_raise
       (lift_error
         (bindE (map_yes_bid_levels (ko_yes m)) (\<lambda>bids.
          bindE (map_no_ask_levels (ko_no m)) (\<lambda>asks.
          mk_order_book_snapshot
            \<lparr>ob_market_id = market_id, ob_contract_id = contract_id, ob_exchange = ''kalshi'', ob_sequence = ko_sequence m,
             ob_exchange_occurred_at = occurred_at, ob_received_at = received_at, ob_bids = bids, ob_asks = asks,
             ob_is_valid = True, ob_snapshot_reason = reason\<rparr>))))
       (order_book_mapping_error ''Kalshi order-book snapshot mapping failed'' m
         ''kalshi_order_book_snapshot_mapping_failed''))"

definition missing_fields_error :: "kalshi_order_book_message \<Rightarrow> adapter_error result" where
  "missing_fields_error m =
     order_book_mapping_error ''Kalshi order-book delta is missing required fields'' m
       ''kalshi_order_book_delta_missing_fields''"

definition map_delta_quantity :: "kalshi_order_book_message \<Rightarrow> rat outcome" where
  "map_delta_quantity m =
     (if ko_action m = Some DA_DELETE then Inr 0
      else case ko_quantity m of None \<Rightarrow> raise_adapter_error (missing_fields_error m) | Some q \<Rightarrow> Inr (of_int q))"

definition map_delta_level :: "kalshi_order_book_message \<Rightarrow> order_book_delta_level outcome" where
  "map_delta_level m =
     (case (ko_side m, ko_price m, ko_action m) of
        (Some side, Some price, Some action) \<Rightarrow>
          bindE (map_delta_quantity m) (\<lambda>quantity.
          lift_error (mk_order_book_delta_level
            \<lparr>dl_side = (if side = YES then BUY else SELL),
             dl_price = (if side = YES then kalshi_cents_to_decimal price else kalshi_no_cents_to_yes_ask_decimal price),
             dl_quantity = quantity, dl_action = (if action = DA_DELETE then DELETE else UPSERT)\<rparr>))
      | _ \<Rightarrow> raise_adapter_error (missing_fields_error m))"

definition map_kalshi_order_book_delta ::
  "kalshi_order_book_message \<Rightarrow> ident \<Rightarrow> ident \<Rightarrow> instant \<Rightarrow> int option \<Rightarrow> instant option \<Rightarrow> order_book_delta outcome" where
  "map_kalshi_order_book_delta m market_id contract_id received_at previous occurred_at =
     (if ko_message_type m \<noteq> MT_DELTA
      then raise_adapter_error (order_book_mapping_error ''Kalshi order-book message is not a delta'' m
        ''kalshi_order_book_wrong_message_type'')
      else or_raise
       (bindE (map_delta_level m) (\<lambda>change.
        lift_error (mk_order_book_delta
          \<lparr>od_market_id = market_id, od_contract_id = contract_id, od_exchange = ''kalshi'', od_sequence = ko_sequence m,
           od_previous_sequence = previous, od_exchange_occurred_at = occurred_at, od_received_at = received_at,
           od_changes = [change]\<rparr>)))
       (order_book_mapping_error ''Kalshi order-book delta mapping failed'' m ''kalshi_order_book_delta_mapping_failed''))"

datatype mapped_message = MappedSnapshot order_book_snapshot | MappedDelta order_book_delta

definition map_kalshi_order_book_message ::
  "kalshi_order_book_message \<Rightarrow> ident \<Rightarrow> ident \<Rightarrow> instant \<Rightarrow> int option \<Rightarrow> instant option \<Rightarrow> string \<Rightarrow> mapped_message outcome" where
  "map_kalshi_order_book_message m market_id contract_id received_at previous occurred_at reason =
     (if ko_message_type m = MT_SNAPSHOT
      then bindE (map_kalshi_order_book_snapshot m market_id contract_id received_at occurred_at reason)
        (\<lambda>s. Inr (MappedSnapshot s))
      else bindE (map_kalshi_order_book_delta m market_id contract_id received_at previous occurred_at)
        (\<lambda>d. Inr (MappedDelta d)))"

section \<open>Trades\<close>

definition safe_trade_context :: "kalshi_raw_trade \<Rightarrow> (string \<times> string) list" where
  "safe_trade_context t =
     set_present ''taker_side'' (kt_taker_side t)
      (set_present ''subscription_id'' (map_option int_text (kt_subscription_id t))
        (set_present ''sequence'' (map_option int_text (kt_sequence t))
          [(''exchange_market_id'', kt_market_ticker t), (''exchange_trade_id'', kt_trade_id t)]))"

definition trade_mapping_error :: "string \<Rightarrow> kalshi_raw_trade \<Rightarrow> string \<Rightarrow> adapter_error result" where
  "trade_mapping_error msg t code =
     mk_adapter_error AdapterProtocolError msg (Some ''kalshi'') (Some EC_STREAM) None (Some code) None
       (safe_trade_context t)"

definition kalshi_trade_price :: "kalshi_raw_trade \<Rightarrow> string \<Rightarrow> rat result" where
  "kalshi_trade_price t outcome_side =
     (let missing = Inl (value_error ''Kalshi trade is missing a mappable price'');
          pick = (\<lambda>direct other.
            case direct of Some c \<Rightarrow> Inr (kalshi_cents_to_decimal c)
            | None \<Rightarrow> (case other of Some c \<Rightarrow> Inr (kalshi_no_cents_to_yes_ask_decimal c) | None \<Rightarrow> missing))
      in if outcome_side = ''yes'' then pick (kt_yes_price t) (kt_no_price t)
      else if outcome_side = ''no'' then pick (kt_no_price t) (kt_yes_price t)
      else Inl (value_error ''outcome_side must be yes or no''))"

definition map_trade_aggressor_side :: "kalshi_raw_trade \<Rightarrow> string \<Rightarrow> side option outcome" where
  "map_trade_aggressor_side t outcome_side =
     (case kt_taker_side t of
        None \<Rightarrow> Inr None
      | Some s \<Rightarrow>
          if s \<notin> {''yes'', ''no''}
          then raise_adapter_error (trade_mapping_error ''Kalshi trade taker side is unsupported'' t
            ''kalshi_trade_taker_side_unsupported'')
          else if outcome_side \<notin> {''yes'', ''no''}
          then Inl (Other (value_error ''outcome_side must be yes or no''))
          else Inr (Some (if s = outcome_side then BUY else SELL)))"

definition map_kalshi_trade ::
  "kalshi_raw_trade \<Rightarrow> ident \<Rightarrow> ident \<Rightarrow> ident \<Rightarrow> instant \<Rightarrow> string \<Rightarrow> trade outcome" where
  "map_kalshi_trade t market_id contract_id outcome_id received_at outcome_side =
     or_raise
      (bindE (lift_error (kalshi_trade_price t outcome_side)) (\<lambda>price.
       bindE (map_trade_aggressor_side t outcome_side) (\<lambda>aggressor.
       lift_error (mk_trade
         \<lparr>td_trade_id = ''kalshi:'' @ kt_trade_id t, td_exchange = ''kalshi'', td_exchange_trade_id = kt_trade_id t,
          td_market_id = market_id, td_contract_id = contract_id, td_outcome_id = outcome_id, td_price = price,
          td_quantity = of_int (kt_count t), td_aggressor_side = aggressor, td_liquidity_role = UNKNOWN_ROLE,
          td_exchange_occurred_at = kt_created_time t, td_received_at = received_at, td_sequence = kt_sequence t\<rparr>))))
      (trade_mapping_error ''Kalshi trade mapping failed'' t ''kalshi_trade_mapping_failed'')"

section \<open>Prices\<close>

lemma cents_exact [simp]:
  assumes "0 \<le> c" "c \<le> 100"
  shows "kalshi_cents_to_decimal c = of_int c / 100"
    and "kalshi_no_cents_to_yes_ask_decimal c = 1 - of_int c / 100"
proof -
  have fits: "dec_fits 28 (of_int k / 100)" if "0 \<le> k" "k \<le> 100" for k :: int
    unfolding dec_fits_def using that by (intro exI [of _ k] exI [of _ "- 2"]) (simp add: power_int_minus field_simps)
  show "kalshi_cents_to_decimal c = of_int c / 100"
    using fits [OF assms] by (simp add: kalshi_cents_to_decimal_def ddiv_def dec_round_exact)
  have "dec_fits 28 ((100 - of_int c) / 100)" using fits [of "100 - c"] assms by simp
  then show "kalshi_no_cents_to_yes_ask_decimal c = 1 - of_int c / 100"
    by (simp add: kalshi_no_cents_to_yes_ask_decimal_def ddiv_def dec_round_exact diff_divide_distrib)
qed

end
