(* ===== verification/Kalshi_Book.thy ===== *)
theory Kalshi_Book
  imports Kalshi_Mapper
begin

text \<open>
  Why the mapper of Kalshi is right. The book that Kalshi keeps is a quantity per side and price in cents; a message of the raw
  models updates it. The canonical view shows the yes side as bids and the no side as asks at the complementary
  price. The mapped messages of a feed, applied by \<open>simulation/order_book.py\<close>, lead to the
  view of the updated book (an interpretation of \<open>book_feed\<close>), and the check of sequences agrees with what that book accepts.
\<close>

section \<open>The two-sided book\<close>

type_synonym two_sided_book = "book_side \<Rightarrow> int \<Rightarrow> int option"

definition levels_of :: "kalshi_order_book_message \<Rightarrow> book_side \<Rightarrow> kalshi_level list" where
  "levels_of m sd = (case sd of YES \<Rightarrow> ko_yes m | NO \<Rightarrow> ko_no m)"

definition message_update :: "two_sided_book \<Rightarrow> kalshi_order_book_message \<Rightarrow> two_sided_book" where
  "message_update r m =
     (case ko_message_type m of
        MT_SNAPSHOT \<Rightarrow> (\<lambda>sd. map_of (map (\<lambda>l. (kl_price l, kl_quantity l)) (levels_of m sd)))
      | MT_DELTA \<Rightarrow>
          (case (ko_side m, ko_price m) of
             (Some sd, Some c) \<Rightarrow>
               r(sd := (r sd)(c := if ko_action m = Some DA_DELETE \<or> ko_quantity m = Some 0 then None else ko_quantity m))
           | _ \<Rightarrow> r))"

text \<open>The price in cents of a side of Kalshi at which the canonical price \<open>p\<close> stands, and the view.\<close>

definition cents_at :: "side \<Rightarrow> rat \<Rightarrow> int" where
  "cents_at sd p = (case sd of BUY \<Rightarrow> \<lfloor>100 * p\<rfloor> | SELL \<Rightarrow> \<lfloor>100 * (1 - p)\<rfloor>)"

definition price_at :: "side \<Rightarrow> int \<Rightarrow> rat" where
  "price_at sd c = (case sd of BUY \<Rightarrow> of_int c / 100 | SELL \<Rightarrow> 1 - of_int c / 100)"

definition book_side_of :: "side \<Rightarrow> book_side" where
  "book_side_of sd = (case sd of BUY \<Rightarrow> YES | SELL \<Rightarrow> NO)"

definition yes_contract_view :: "two_sided_book \<Rightarrow> side \<Rightarrow> rat \<Rightarrow> order_book_level option" where
  "yes_contract_view r sd p =
     (if price_at sd (cents_at sd p) = p
      then map_option (\<lambda>q. level_at p (of_int q)) (r (book_side_of sd) (cents_at sd p)) else None)"

lemma cents_at_price [simp]: "cents_at sd (price_at sd c) = c"
  by (cases sd) (simp_all add: cents_at_def price_at_def)

lemma price_at_inject [simp]: "price_at sd c = price_at sd d \<longleftrightarrow> c = d"
  by (metis cents_at_price)

lemma price_at_range: "0 \<le> c \<Longrightarrow> c \<le> 100 \<Longrightarrow> 0 \<le> price_at sd c"
  by (cases sd) (simp_all add: price_at_def)

lemma view_at_price [simp]:
  "yes_contract_view r sd (price_at sd c) = map_option (\<lambda>q. level_at (price_at sd c) (of_int q)) (r (book_side_of sd) c)"
  by (simp add: yes_contract_view_def)

lemma view_update:
  "yes_contract_view (r(s := (r s)(c := q))) sd p =
     (if book_side_of sd = s \<and> p = price_at sd c then map_option (\<lambda>q. level_at p (of_int q)) q
      else yes_contract_view r sd p)"
  by (auto simp: yes_contract_view_def)

lemma mapped_price:
  assumes "0 \<le> c" "c \<le> 100"
  shows "kalshi_cents_to_decimal c = price_at BUY c" "kalshi_no_cents_to_yes_ask_decimal c = price_at SELL c"
  using assms by (simp_all add: price_at_def)

section \<open>Snapshots\<close>

definition canonical_level :: "side \<Rightarrow> kalshi_level \<Rightarrow> order_book_level" where
  "canonical_level sd l = level_at (price_at sd (kl_price l)) (of_int (kl_quantity l))"

lemma canonical_level_ok: "level_in_range l \<Longrightarrow> level_ok (canonical_level sd l)"
  by (simp add: level_in_range_def level_ok_def canonical_level_def level_at_def price_at_range)

definition bids_of :: "kalshi_level list \<Rightarrow> order_book_level list" where
  "bids_of ls = map (canonical_level BUY) (sort_key (\<lambda>l. - kl_price l) ls)"

definition asks_of :: "kalshi_level list \<Rightarrow> order_book_level list" where
  "asks_of ls = map (canonical_level SELL) (sort_key (\<lambda>l. price_at SELL (kl_price l)) ls)"

lemma insort_key_agree:
  "(\<And>y. y \<in> insert x (set ys) \<Longrightarrow> f y = g y) \<Longrightarrow> insort_key f x ys = insort_key g x ys"
  by (induction ys) auto

lemma sort_key_agree: "(\<And>x. x \<in> set xs \<Longrightarrow> f x = g x) \<Longrightarrow> sort_key f xs = sort_key g xs"
  by (induction xs) (auto intro!: insort_key_agree)

lemma map_levels_eq:
  assumes "list_all level_in_range ls"
  shows "map_yes_bid_levels ls = Inr (bids_of ls)" "map_no_ask_levels ls = Inr (asks_of ls)"
proof -
  have mk: "mk_order_book_level (canonical_level sd l) = Inr (canonical_level sd l)" if "l \<in> set ls" for sd l
    using assms that by (auto simp: list_all_iff mk_order_book_level_eq intro: canonical_level_ok)
  have c: "\<lparr>lv_price = kalshi_cents_to_decimal (kl_price l), lv_quantity = of_int (kl_quantity l), lv_order_count = None\<rparr> =
      canonical_level BUY l"
    "\<lparr>lv_price = kalshi_no_cents_to_yes_ask_decimal (kl_price l), lv_quantity = of_int (kl_quantity l), lv_order_count = None\<rparr> =
      canonical_level SELL l"
    and k: "kalshi_no_cents_to_yes_ask_decimal (kl_price l) = price_at SELL (kl_price l)" if "l \<in> set ls" for l
    using assms that mapped_price [of "kl_price l"]
    by (auto simp: list_all_iff level_in_range_def canonical_level_def level_at_def)
  show "map_yes_bid_levels ls = Inr (bids_of ls)"
    unfolding map_yes_bid_levels_def bids_of_def using mk c(1) by (intro mapE_ok) (metis set_sort)
  have "sort_key (\<lambda>l. kalshi_no_cents_to_yes_ask_decimal (kl_price l)) ls = sort_key (\<lambda>l. price_at SELL (kl_price l)) ls"
    using k by (intro sort_key_agree)
  then show "map_no_ask_levels ls = Inr (asks_of ls)"
    unfolding map_no_ask_levels_def asks_of_def using mk c(2) by (auto intro!: mapE_ok)
qed

lemma sorted_strict: "sorted xs \<Longrightarrow> distinct (xs :: 'a :: linorder list) \<Longrightarrow> sorted_wrt (<) xs"
  by (simp add: strict_sorted_iff)

lemma mapped_sides:
  assumes "side_ok ls"
  shows "list_all level_ok (bids_of ls)" "list_all level_ok (asks_of ls)"
    and "sorted_wrt (>) (map lv_price (bids_of ls))" "sorted_wrt (<) (map lv_price (asks_of ls))"
proof -
  have d: "distinct (map kl_price ls)" and r: "list_all level_in_range ls" using assms by (simp_all add: side_ok_def)
  show "list_all level_ok (bids_of ls)" "list_all level_ok (asks_of ls)"
    using r by (auto simp: bids_of_def asks_of_def list_all_iff intro: canonical_level_ok)
  have dist: "distinct (map f (sort_key g ls))" if "\<And>k l. f k = f l \<longleftrightarrow> kl_price k = kl_price l" for f :: "kalshi_level \<Rightarrow> 'b" and g :: "kalshi_level \<Rightarrow> rat"
    using d that by (simp add: distinct_map inj_on_def)
  have disti: "distinct (map f (sort_key g ls))" if "\<And>k l. f k = f l \<longleftrightarrow> kl_price k = kl_price l" for f :: "kalshi_level \<Rightarrow> 'b" and g :: "kalshi_level \<Rightarrow> int"
    using d that by (simp add: distinct_map inj_on_def)
  have "sorted_wrt (<) (map (\<lambda>l. - kl_price l) (sort_key (\<lambda>l. - kl_price l) ls))"
    by (intro sorted_strict disti) simp_all
  then show "sorted_wrt (>) (map lv_price (bids_of ls))"
    by (simp add: bids_of_def sorted_wrt_map canonical_level_def level_at_def price_at_def divide_less_cancel)
  have "sorted_wrt (<) (map (\<lambda>l. price_at SELL (kl_price l)) (sort_key (\<lambda>l. price_at SELL (kl_price l)) ls))"
    by (intro sorted_strict dist) simp_all
  then show "sorted_wrt (<) (map lv_price (asks_of ls))"
    by (simp add: asks_of_def sorted_wrt_map canonical_level_def level_at_def)
qed

lemma view_of_levels:
  assumes "distinct (map kl_price ls)" and "set ks = canonical_level sd ` set ls" and "distinct (map lv_price ks)"
    and "r (book_side_of sd) = map_of (map (\<lambda>l. (kl_price l, kl_quantity l)) ls)"
  shows "abs_levels ks = yes_contract_view r sd"
proof
  fix p
  let ?m = "map_of (map (\<lambda>l. (kl_price l, kl_quantity l)) ls)"
  have m: "?m c = Some q \<longleftrightarrow> (\<exists>l \<in> set ls. kl_price l = c \<and> kl_quantity l = q)" for c q
    using assms(1) by (auto simp: map_of_eq_Some_iff comp_def image_iff)
  have "abs_levels ks p = Some k \<longleftrightarrow> yes_contract_view r sd p = Some k" for k
  proof -
    have "abs_levels ks p = Some k \<longleftrightarrow> k \<in> canonical_level sd ` set ls \<and> lv_price k = p"
      using assms(2) by (simp add: abs_levels_Some [OF assms(3)])
    also have "\<dots> \<longleftrightarrow> (\<exists>c q. ?m c = Some q \<and> p = price_at sd c \<and> k = level_at p (of_int q))"
      unfolding m by (auto simp: canonical_level_def level_at_def image_iff)
    also have "\<dots> \<longleftrightarrow> yes_contract_view r sd p = Some k"
      unfolding yes_contract_view_def assms(4) by auto (metis cents_at_price)+
    finally show ?thesis .
  qed
  then show "abs_levels ks p = yes_contract_view r sd p" by (metis option.exhaust)
qed

lemma snapshot_maps:
  assumes "snapshot_ok m" and "text_in 1 128 reason"
  shows "\<exists>s. map_kalshi_order_book_snapshot m market_id contract_id received_at occurred_at reason = Inr s \<and>
    book_valid s \<and> ob_is_valid s \<and> abs_book s = yes_contract_view (message_update r m) \<and> ob_sequence s = ko_sequence m \<and>
    ob_market_id s = market_id \<and> ob_contract_id s = contract_id \<and> ob_exchange s = ''kalshi'' \<and> ob_received_at s = received_at"
proof -
  let ?s = "\<lparr>ob_market_id = market_id, ob_contract_id = contract_id, ob_exchange = ''kalshi'', ob_sequence = ko_sequence m,
     ob_exchange_occurred_at = occurred_at, ob_received_at = received_at, ob_bids = bids_of (ko_yes m),
     ob_asks = asks_of (ko_no m), ob_is_valid = True, ob_snapshot_reason = reason\<rparr>"
  have m: "ko_message_type m = MT_SNAPSHOT" "pred_option (\<lambda>n. 0 \<le> n) (ko_sequence m)" "side_ok (ko_yes m)" "side_ok (ko_no m)"
    using assms(1) by (simp_all add: snapshot_ok_def)
  note sides = mapped_sides [OF m(3)] mapped_sides [OF m(4)]
  have valid: "book_valid ?s" using m(2) sides assms(2) by (simp add: book_valid_iff) (simp add: text_in_def)
  have "abs_levels (bids_of (ko_yes m)) = yes_contract_view (message_update r m) BUY"
    using m sides(3) by (intro view_of_levels [of "ko_yes m"])
      (auto simp: side_ok_def bids_of_def message_update_def book_side_of_def levels_of_def intro!: descending_distinct)
  moreover have "abs_levels (asks_of (ko_no m)) = yes_contract_view (message_update r m) SELL"
    using m sides(8) by (intro view_of_levels [of "ko_no m"])
      (auto simp: side_ok_def asks_of_def message_update_def book_side_of_def levels_of_def intro!: ascending_distinct)
  ultimately have "abs_book ?s = yes_contract_view (message_update r m)"
    by (auto simp: abs_book_def fun_eq_iff split: side.splits)
  moreover have "map_kalshi_order_book_snapshot m market_id contract_id received_at occurred_at reason = Inr ?s"
    using m map_levels_eq valid by (simp add: map_kalshi_order_book_snapshot_def side_ok_def book_valid_def)
  ultimately show ?thesis using valid by simp
qed

section \<open>Deltas\<close>

definition change_of :: "kalshi_order_book_message \<Rightarrow> order_book_delta_level" where
  "change_of m =
     (let sd = (if ko_side m = Some YES then BUY else SELL) in
      \<lparr>dl_side = sd, dl_price = price_at sd (the (ko_price m)),
       dl_quantity = (if ko_action m = Some DA_DELETE then 0 else of_int (the (ko_quantity m))),
       dl_action = (if ko_action m = Some DA_DELETE then DELETE else UPSERT)\<rparr>)"

lemma delta_maps:
  assumes "delta_ok m" and "pred_option (\<lambda>n. 0 \<le> n) previous"
  shows "map_kalshi_order_book_delta m market_id contract_id received_at previous occurred_at =
      Inr \<lparr>od_market_id = market_id, od_contract_id = contract_id, od_exchange = ''kalshi'', od_sequence = ko_sequence m,
        od_previous_sequence = previous, od_exchange_occurred_at = occurred_at, od_received_at = received_at,
        od_changes = [change_of m]\<rparr>"
    and "delta_level_ok (change_of m)"
proof -
  obtain sd c a where m: "ko_message_type m = MT_DELTA" "pred_option (\<lambda>n. 0 \<le> n) (ko_sequence m)" "ko_side m = Some sd"
    "ko_price m = Some c" "ko_action m = Some a" "0 \<le> c" "c \<le> 100" "pred_option (\<lambda>n. 0 \<le> n) (ko_quantity m)"
    "if a = DA_DELETE then ko_quantity m \<in> {None, Some 0} else ko_quantity m \<noteq> None"
    using assms(1) by (auto simp: delta_ok_def)
  show ok: "delta_level_ok (change_of m)"
    using m by (auto simp: delta_level_ok_def change_of_def Let_def price_at_range split: if_splits)
  have "map_delta_level m = Inr (change_of m)"
    using m ok mapped_price [of c] mk_order_book_delta_level_eq [of "change_of m" "change_of m"]
    by (cases sd; cases a) (auto simp: map_delta_level_def map_delta_quantity_def change_of_def Let_def)
  then show "map_kalshi_order_book_delta m market_id contract_id received_at previous occurred_at =
      Inr \<lparr>od_market_id = market_id, od_contract_id = contract_id, od_exchange = ''kalshi'', od_sequence = ko_sequence m,
        od_previous_sequence = previous, od_exchange_occurred_at = occurred_at, od_received_at = received_at,
        od_changes = [change_of m]\<rparr>"
    using m(1,2) assms(2) by (simp add: map_kalshi_order_book_delta_def mk_order_book_delta_def text_in_def)
qed

interpretation kalshi: book_feed message_update yes_contract_view "\<lambda>m. [change_of m]" delta_ok
proof (unfold_locales, simp, intro ext)
  fix m r sd p
  assume "delta_ok m"
  then obtain s c a where m: "ko_message_type m = MT_DELTA" "ko_side m = Some s" "ko_price m = Some c" "ko_action m = Some a"
    "if a = DA_DELETE then ko_quantity m \<in> {None, Some 0} else ko_quantity m \<noteq> None"
    by (auto simp: delta_ok_def)
  show "abs_apply (yes_contract_view r) (change_of m) sd p = yes_contract_view (message_update r m) sd p"
    using m by (cases s; cases sd)
      (auto simp: abs_apply_def abs_change_def change_of_def message_update_def Let_def view_update book_side_of_def level_at_def)
qed

section \<open>A whole feed\<close>

definition lineage_matches :: "order_book_snapshot \<Rightarrow> order_book_delta \<Rightarrow> bool" where
  "lineage_matches s d \<longleftrightarrow> od_market_id d = ob_market_id s \<and> od_contract_id d = ob_contract_id s \<and> od_exchange d = ob_exchange s"

definition previous_fits :: "int option \<Rightarrow> int option \<Rightarrow> bool" where
  "previous_fits previous received \<longleftrightarrow> previous = None \<or> (\<exists>k. previous = Some k \<and> received = Some (k + 1))"

lemma consecutive_deltas_apply:
  assumes "book_valid s" "ob_is_valid s" "ob_sequence s = Some n" "list_all delta_valid ds" "list_all (lineage_matches s) ds"
    "map od_sequence ds = map (\<lambda>i. Some (n + 1 + int i)) [0..<length ds]"
    "list_all (\<lambda>d. previous_fits (od_previous_sequence d) (od_sequence d)) ds" "\<not> blank_or_padded reason" "length reason \<le> 128"
  shows "\<exists>s'. apply_order_book_deltas s ds reason = Inr s'"
  using assms
proof (induction ds arbitrary: s n)
  case Nil
  then show ?case by (simp add: apply_order_book_deltas_def)
next
  case (Cons d ds)
  have shift: "map od_sequence ds = map (\<lambda>i. Some (n + 1 + 1 + int i)) [0..<length ds]" and first: "od_sequence d = Some (n + 1)"
    using Cons.prems(6) by (simp_all add: upt_conv_Cons comp_def algebra_simps del: upt_Suc flip: map_Suc_upt)
  have d: "delta_valid d" "lineage_matches s d" using Cons.prems by auto
  have "delta_accepted s d reason"
    using Cons.prems d first by (auto simp: delta_accepted_def lineage_matches_def next_sequence_def previous_fits_def)
  then have step: "apply_order_book_delta s d reason = Inr (projected_book s d reason)"
    using apply_delta_cases [OF Cons.prems(1) d(1)] by blast
  have "\<exists>s'. apply_order_book_deltas (projected_book s d reason) ds reason = Inr s'"
  proof (rule Cons.IH)
    show "book_valid (projected_book s d reason)" using projected_book_valid(1) [OF Cons.prems(1) d(1)] Cons.prems by simp
    show "ob_sequence (projected_book s d reason) = Some (n + 1)" using first by (simp add: projected_book_def Let_def)
    show "list_all (lineage_matches (projected_book s d reason)) ds"
      using Cons.prems(5) by (auto simp: list_all_iff lineage_matches_def projected_book_def Let_def)
  qed (use Cons.prems shift in \<open>simp_all add: projected_book_def Let_def\<close>)
  then show ?case using step by (simp add: apply_order_book_deltas_def)
qed

lemma snapshot_payload_ok:
  "order_book_message_from_exchange_payload p = Inr m \<Longrightarrow> ko_message_type m = MT_SNAPSHOT \<Longrightarrow> snapshot_ok m"
  by (drule order_book_message_ok) simp

lemma delta_payload_ok:
  "order_book_message_from_exchange_payload p = Inr m \<Longrightarrow> ko_message_type m = MT_DELTA \<Longrightarrow> delta_ok m"
  by (drule order_book_message_ok) simp

text \<open>The deltas that the mapper makes of accepted messages.\<close>

definition canonical_delta ::
  "ident \<Rightarrow> ident \<Rightarrow> instant option \<Rightarrow> (kalshi_order_book_message \<Rightarrow> instant) \<Rightarrow> (kalshi_order_book_message \<Rightarrow> int option) \<Rightarrow>
   kalshi_order_book_message \<Rightarrow> order_book_delta" where
  "canonical_delta market_id contract_id occurred_at arrival previous m =
     \<lparr>od_market_id = market_id, od_contract_id = contract_id, od_exchange = ''kalshi'', od_sequence = ko_sequence m,
      od_previous_sequence = previous m, od_exchange_occurred_at = occurred_at, od_received_at = arrival m,
      od_changes = [change_of m]\<rparr>"

lemma canonical_delta_valid:
  "delta_ok m \<Longrightarrow> pred_option (\<lambda>n. 0 \<le> n) (previous m) \<Longrightarrow>
   delta_valid (canonical_delta market_id contract_id occurred_at arrival previous m)"
  using delta_maps(2) by (auto simp: delta_valid_def canonical_delta_def text_in_def delta_ok_def)

section \<open>Properties\<close>

text \<open>
  C11: a feed of Kalshi reaches the simulated book unchanged. Take the payload of a snapshot with a sequence and the payloads
  of deltas that follow it one by one, all accepted by the raw models. Then every message is mapped, the mapped deltas are all
  accepted by the order book that the mapped snapshot starts, and the final book is valid, stands at the last sequence and
  is the book of Kalshi seen from the yes contract: its bids are the yes levels and its asks the no levels at one minus their price, as
  the messages left them (a quantity of zero removes a level, the other side and the other prices stay as they were).
\<close>

theorem kalshi_feed_refines_two_sided_book:
  assumes snap: "order_book_message_from_exchange_payload p = Inr snap" "ko_message_type snap = MT_SNAPSHOT" "ko_sequence snap = Some n"
    and ms: "mapE order_book_message_from_exchange_payload ps = Inr ms" "list_all (\<lambda>m. ko_message_type m = MT_DELTA) ms"
    and sequences: "map ko_sequence ms = map (\<lambda>i. Some (n + 1 + int i)) [0..<length ms]"
    and previous: "list_all (\<lambda>m. previous_fits (previous m) (ko_sequence m)) ms"
    and reason: "\<not> blank_or_padded reason" "length reason \<le> 128"
  shows "\<exists>s ds s'. map_kalshi_order_book_snapshot snap market_id contract_id received_at occurred_at reason = Inr s \<and>
    mapE (\<lambda>m. map_kalshi_order_book_delta m market_id contract_id (arrival m) (previous m) occurred_at) ms = Inr ds \<and>
    apply_order_book_deltas s ds reason = Inr s' \<and> book_valid s' \<and> ob_sequence s' = Some (n + int (length ms)) \<and>
    abs_book s' = yes_contract_view (foldl message_update r (snap # ms))"
proof -
  have ok: "snapshot_ok snap" "list_all delta_ok ms"
    using snap ms by (auto simp: list_all_iff dest: mapE_elem intro: snapshot_payload_ok delta_payload_ok)
  have "1 \<le> length reason" using reason(1) by (cases reason) (auto simp: blank_or_padded_def)
  then obtain s where s: "map_kalshi_order_book_snapshot snap market_id contract_id received_at occurred_at reason = Inr s"
    "book_valid s" "ob_is_valid s" "abs_book s = yes_contract_view (message_update r snap)" "ob_sequence s = Some n"
    "ob_market_id s = market_id" "ob_contract_id s = contract_id" "ob_exchange s = ''kalshi''"
    using snapshot_maps [where m = snap and reason = reason and market_id = market_id and contract_id = contract_id
        and received_at = received_at and occurred_at = occurred_at and r = r] ok(1) reason(2) snap(3)
    by (auto simp: text_in_def)
  have "0 \<le> n" using ok(1) snap(3) by (simp add: snapshot_ok_def)
  have nonneg: "pred_option (\<lambda>n. 0 \<le> n) (previous m)" if m: "m \<in> set ms" for m
  proof -
    have "ko_sequence m \<in> set (map (\<lambda>i. Some (n + 1 + int i)) [0..<length ms])"
      using m unfolding sequences [symmetric] by simp
    then show ?thesis using previous m \<open>0 \<le> n\<close> by (auto simp: list_all_iff previous_fits_def)
  qed
  let ?d = "canonical_delta market_id contract_id occurred_at arrival previous"
  have ds: "mapE (\<lambda>m. map_kalshi_order_book_delta m market_id contract_id (arrival m) (previous m) occurred_at) ms = Inr (map ?d ms)"
    using ok(2) nonneg by (intro mapE_ok) (simp add: list_all_iff delta_maps(1) canonical_delta_def)
  have valid: "list_all delta_valid (map ?d ms)"
    using ok(2) nonneg by (auto simp: list_all_iff intro: canonical_delta_valid)
  obtain s' where s': "apply_order_book_deltas s (map ?d ms) reason = Inr s'"
    using consecutive_deltas_apply [OF s(2,3,5) valid, of reason] s(6-8) sequences previous reason
    by (auto simp: list_all_iff lineage_matches_def canonical_delta_def comp_def)
  have "map od_changes (map ?d ms) = map (\<lambda>m. [change_of m]) ms" by (simp add: canonical_delta_def)
  then have "book_valid s'" "abs_book s' = yes_contract_view (foldl message_update (message_update r snap) ms)"
    using kalshi.projected_stream [OF s(2,4) ok(2) valid _ s'] by auto
  moreover have "ob_sequence s' = Some (n + int (length ms))" using deltas_run [OF s(2) valid s'] s(5) by simp
  ultimately show ?thesis using s(1) ds s' by (intro exI [of _ s] exI [of _ "map ?d ms"] exI [of _ s']) simp
qed

definition sample_snapshot_payload :: payload where
  "sample_snapshot_payload =
     [(''type'', J_Str ''orderbook_snapshot''), (''seq'', J_Int 7),
      (''msg'', J_Object [(''market_ticker'', J_Str ''T''), (''yes'', J_Array [J_Array [J_Int 40, J_Int 10]]),
        (''no'', J_Array [J_Array [J_Int 55, J_Int 3]])])]"

definition sample_delta_payload :: payload where
  "sample_delta_payload =
     [(''type'', J_Str ''orderbook_delta''), (''seq'', J_Int 8),
      (''msg'', J_Object [(''market_ticker'', J_Str ''T''), (''side'', J_Str ''no''), (''price'', J_Int 55),
        (''action'', J_Str ''delete'')])]"

definition sample_kalshi_snapshot :: kalshi_order_book_message where
  "sample_kalshi_snapshot =
     \<lparr>ko_market_ticker = ''T'', ko_message_type = MT_SNAPSHOT, ko_subscription_id = None, ko_sequence = Some 7,
      ko_side = None, ko_price = None, ko_quantity = None, ko_action = None,
      ko_yes = [\<lparr>kl_price = 40, kl_quantity = 10\<rparr>], ko_no = [\<lparr>kl_price = 55, kl_quantity = 3\<rparr>],
      ko_raw_payload = sample_snapshot_payload\<rparr>"

definition sample_kalshi_delta :: kalshi_order_book_message where
  "sample_kalshi_delta =
     \<lparr>ko_market_ticker = ''T'', ko_message_type = MT_DELTA, ko_subscription_id = None, ko_sequence = Some 8,
      ko_side = Some NO, ko_price = Some 55, ko_quantity = None, ko_action = Some DA_DELETE, ko_yes = [], ko_no = [],
      ko_raw_payload = sample_delta_payload\<rparr>"

lemma sample_messages:
  "order_book_message_from_exchange_payload sample_snapshot_payload = Inr sample_kalshi_snapshot"
  "order_book_message_from_exchange_payload sample_delta_payload = Inr sample_kalshi_delta"
  by code_simp+

lemma text_r: "\<not> blank_or_padded ''r''"
  by (simp add: blank_or_padded_def py_strip_def py_isspace_def)

theorem kalshi_feed_refines_two_sided_book_witness:
  "\<exists>s ds s'. map_kalshi_order_book_snapshot sample_kalshi_snapshot ''m'' ''c'' 1 None ''r'' = Inr s \<and>
     mapE (\<lambda>m. map_kalshi_order_book_delta m ''m'' ''c'' 2 (Some 7) None) [sample_kalshi_delta] = Inr ds \<and>
     apply_order_book_deltas s ds ''r'' = Inr s' \<and> ob_sequence s' = Some 8 \<and>
     abs_book s' BUY (2 / 5) = Some (level_at (2 / 5) 10) \<and> abs_book s' SELL (9 / 20) = None"
proof -
  from kalshi_feed_refines_two_sided_book [OF sample_messages(1), of 7 "[sample_delta_payload]" "[sample_kalshi_delta]" "\<lambda>_. Some 7" "''r''"
      "''m''" "''c''" 1 None "\<lambda>_. 2" "\<lambda>_ _. None"]
  obtain s ds s' where s: "map_kalshi_order_book_snapshot sample_kalshi_snapshot ''m'' ''c'' 1 None ''r'' = Inr s"
    "mapE (\<lambda>m. map_kalshi_order_book_delta m ''m'' ''c'' 2 (Some 7) None) [sample_kalshi_delta] = Inr ds"
    "apply_order_book_deltas s ds ''r'' = Inr s'" "ob_sequence s' = Some 8"
    "abs_book s' = yes_contract_view (foldl message_update (\<lambda>_ _. None) [sample_kalshi_snapshot, sample_kalshi_delta])"
    using text_r by (auto simp: sample_messages(2) sample_kalshi_snapshot_def sample_kalshi_delta_def previous_fits_def)
  have "abs_book s' BUY (2 / 5) = Some (level_at (2 / 5) 10)" "abs_book s' SELL (9 / 20) = None"
    unfolding s(5)
    by (simp_all add: yes_contract_view_def cents_at_def price_at_def book_side_of_def message_update_def levels_of_def
        sample_kalshi_snapshot_def sample_kalshi_delta_def)
  then show ?thesis using s by blast
qed

text \<open>
  C13: the check of sequences agrees with the order book. For a delta accepted by the raw model and a valid book of Kalshi, the
  check against the sequence of the book returns and the delta is mapped; applying it succeeds when the status is \<open>OK\<close> and
  otherwise raises the error of that status: a duplicate or stale message is stale to the book, a gap is a gap, and a
  missing sequence is ambiguous. A book without a sequence is the exception: the check calls a sequenced delta \<open>OK\<close>, which
  the book refuses as ambiguous, and one without a sequence \<open>MISSING\<close>, which the book accepts. The
  check asks for the book to be invalidated exactly on a gap and on a sequence that is missing from a tracked stream.
\<close>

theorem sequence_check_agrees_with_book:
  assumes "order_book_message_from_exchange_payload p = Inr m" and "ko_message_type m = MT_DELTA"
    and "book_valid s" and "ob_is_valid s" and "ob_exchange s = ''kalshi''"
    and "\<not> blank_or_padded reason" and "length reason \<le> 128"
  shows "\<exists>c d. check_kalshi_order_book_sequence (ob_sequence s) m = Inr c \<and>
    map_kalshi_order_book_delta m (ob_market_id s) (ob_contract_id s) received_at (ob_sequence s) occurred_at = Inr d \<and>
    (sk_invalidates_book c \<longleftrightarrow> sk_status c = SEQ_GAP \<or> sk_status c = SEQ_MISSING \<and> ob_sequence s \<noteq> None) \<and>
    (if ob_sequence s = None then
       (case sk_status c of
          SEQ_OK \<Rightarrow> apply_order_book_delta s d reason = Inl (SimulationInputError Sequence_ambiguous)
        | status \<Rightarrow> status = SEQ_MISSING \<and> (\<exists>s'. apply_order_book_delta s d reason = Inr s'))
     else
       (case sk_status c of
          SEQ_OK \<Rightarrow> \<exists>s'. apply_order_book_delta s d reason = Inr s'
        | SEQ_DUPLICATE \<Rightarrow> apply_order_book_delta s d reason = Inl (SimulationInputError Sequence_stale)
        | SEQ_STALE \<Rightarrow> apply_order_book_delta s d reason = Inl (SimulationInputError Sequence_stale)
        | SEQ_GAP \<Rightarrow> apply_order_book_delta s d reason = Inl (SimulationInputError Sequence_gap)
        | SEQ_MISSING \<Rightarrow> apply_order_book_delta s d reason = Inl (SimulationInputError Sequence_ambiguous)))"
proof -
  have ok: "delta_ok m" by (rule delta_payload_ok [OF assms(1,2)])
  have nonneg: "pred_option (\<lambda>n. 0 \<le> n) (ob_sequence s)" "pred_option (\<lambda>n. 0 \<le> n) (ko_sequence m)"
    using assms(3) ok by (simp_all add: book_valid_iff delta_ok_def)
  let ?d = "canonical_delta (ob_market_id s) (ob_contract_id s) occurred_at (\<lambda>_. received_at) (\<lambda>_. ob_sequence s) m"
  have map: "map_kalshi_order_book_delta m (ob_market_id s) (ob_contract_id s) received_at (ob_sequence s) occurred_at = Inr ?d"
    using delta_maps(1) [OF ok nonneg(1)] by (simp add: canonical_delta_def)
  have valid: "delta_valid ?d" using ok nonneg(1) by (intro canonical_delta_valid)
  have succeeds: "\<exists>s'. apply_order_book_delta s ?d reason = Inr s'" if "next_sequence (ob_sequence s) ?d"
    using apply_delta_cases [OF assms(3) valid, of reason] that assms(4-7) by (auto simp: delta_accepted_def canonical_delta_def)
  have fails: "apply_order_book_delta s ?d reason = Inl e" if "guards (validate_sequence s ?d) = Inl e" for e
    using that assms(4,5)
    by (simp add: apply_order_book_delta_def validate_snapshot_def validate_lineage_def canonical_delta_def)
  note check = check_sequence_eq [OF nonneg]
  show ?thesis
    unfolding map check using succeeds fails
    by (cases "ob_sequence s"; cases "ko_sequence m")
      (auto simp: classify_def next_sequence_def canonical_delta_def validate_sequence_def Let_def)
qed

definition kalshi_sample_book :: order_book_snapshot where
  "kalshi_sample_book = sample_book\<lparr>ob_exchange := ''kalshi'', ob_sequence := Some 4\<rparr>"

theorem sequence_check_agrees_with_book_witness:
  "\<exists>d. map_kalshi_order_book_delta sample_kalshi_delta ''m'' ''c'' 2 (Some 4) None = Inr d \<and>
     apply_order_book_delta kalshi_sample_book d ''r'' = Inl (SimulationInputError Sequence_gap)"
proof -
  have book: "book_valid kalshi_sample_book" "ob_is_valid kalshi_sample_book" "ob_exchange kalshi_sample_book = ''kalshi''"
    "ob_sequence kalshi_sample_book = Some 4" "ob_market_id kalshi_sample_book = ''m''" "ob_contract_id kalshi_sample_book = ''c''"
    using sample_valid(1) by (simp_all add: kalshi_sample_book_def book_valid_iff text_in_def) (simp_all add: sample_book_def)
  have m: "ko_message_type sample_kalshi_delta = MT_DELTA" "ko_sequence sample_kalshi_delta = Some 8"
    by (simp_all add: sample_kalshi_delta_def)
  show ?thesis
    using sequence_check_agrees_with_book [OF sample_messages(2) m(1) book(1-3), of "''r''" 2 None] text_r
    by (auto simp: check_sequence_eq m book classify_def)
qed

section \<open>Trades\<close>

text \<open>What the raw model of a trade guarantees.\<close>

definition raw_trade_ok :: "kalshi_raw_trade \<Rightarrow> bool" where
  "raw_trade_ok t \<longleftrightarrow> text_in 1 256 (kt_trade_id t) \<and> 1 \<le> kt_count t \<and> pred_option (\<lambda>n. 0 \<le> n) (kt_sequence t) \<and>
     pred_option (\<lambda>c. 0 \<le> c \<and> c \<le> 100) (kt_yes_price t) \<and> pred_option (\<lambda>c. 0 \<le> c \<and> c \<le> 100) (kt_no_price t) \<and>
     (kt_yes_price t \<noteq> None \<or> kt_no_price t \<noteq> None)"

lemma trade_payload_ok:
  assumes "trade_from_exchange_payload read_time p = Inr t"
  shows "raw_trade_ok t"
proof -
  obtain r where r: "validate_trade_shape r = Inr t" "text_in 1 256 (kt_trade_id r)" "1 \<le> kt_count r"
    "pred_option (\<lambda>n. 0 \<le> n) (kt_sequence r)" "pred_option (\<lambda>c. 0 \<le> c \<and> c \<le> 100) (kt_yes_price r)"
    "pred_option (\<lambda>c. 0 \<le> c \<and> c \<le> 100) (kt_no_price r)"
    using assms
    unfolding trade_from_exchange_payload_def Let_def bindE_eq_Inr unless_escape_eq_Inr raw_field_eq_Inr int_field_eq str_field_eq
    by (elim exE conjE) (erule that, simp_all add: optional_int_range)
  then show ?thesis by (auto simp: raw_trade_ok_def validate_trade_shape_def split: if_splits)
qed

text \<open>The price in cents of the outcome that the caller asks for.\<close>

definition cents_for :: "string \<Rightarrow> kalshi_raw_trade \<Rightarrow> int" where
  "cents_for outcome_side t =
     (let (direct, other) = (if outcome_side = ''yes'' then (kt_yes_price t, kt_no_price t) else (kt_no_price t, kt_yes_price t))
      in case direct of Some c \<Rightarrow> c | None \<Rightarrow> 100 - the other)"

text \<open>
  C15: which trades of Kalshi are mapped. For a trade that the raw model accepts and an outcome side \<open>yes\<close> or \<open>no\<close>, the
  mapping succeeds exactly when the identifier of the trade has at most 121 characters, although the raw model allows 256, and
  the taker side is absent, \<open>yes\<close> or \<open>no\<close>. The price is then the cents of that outcome, or a hundred less those of the other
  where only those are given, so it lies between zero and one; the taker bought the outcome when it is its side.
  In every other case the mapper raises its own protocol error with the code for the taker side or the general one, and
  no other exception leaves it.
\<close>

theorem kalshi_trade_mapping:
  assumes "trade_from_exchange_payload read_time p = Inr t" and "outcome_side = ''yes'' \<or> outcome_side = ''no''"
  shows "case map_kalshi_trade t market_id contract_id outcome_id received_at outcome_side of
      Inr T \<Rightarrow> length (kt_trade_id t) \<le> 121 \<and> kt_taker_side t \<in> {None, Some ''yes'', Some ''no''} \<and>
        td_price T = of_int (cents_for outcome_side t) / 100 \<and> 0 \<le> td_price T \<and> td_price T \<le> 1 \<and>
        td_quantity T = of_int (kt_count t) \<and> 0 < td_quantity T \<and> td_exchange_trade_id T = kt_trade_id t \<and>
        td_aggressor_side T = map_option (\<lambda>s. if s = outcome_side then BUY else SELL) (kt_taker_side t)
    | Inl e \<Rightarrow> \<exists>a. e = Adapter a \<and> ae_class a = AdapterProtocolError \<and> \<not> ae_retryable a \<and>
        (if kt_taker_side t \<in> {None, Some ''yes'', Some ''no''}
         then 121 < length (kt_trade_id t) \<and> ae_exchange_error_code a = Some ''kalshi_trade_mapping_failed''
         else ae_exchange_error_code a = Some ''kalshi_trade_taker_side_unsupported'')"
proof -
  have t: "raw_trade_ok t" by (rule trade_payload_ok [OF assms(1)])
  have price: "kalshi_trade_price t outcome_side = Inr (of_int (cents_for outcome_side t) / 100)"
    and cents: "0 \<le> cents_for outcome_side t" "cents_for outcome_side t \<le> 100"
    using t assms(2)
    by (auto simp: raw_trade_ok_def kalshi_trade_price_def cents_for_def Let_def diff_divide_distrib split: option.splits)
  let ?T = "\<lambda>g. \<lparr>td_trade_id = ''kalshi:'' @ kt_trade_id t, td_exchange = ''kalshi'', td_exchange_trade_id = kt_trade_id t,
      td_market_id = market_id, td_contract_id = contract_id, td_outcome_id = outcome_id,
      td_price = of_int (cents_for outcome_side t) / 100, td_quantity = of_int (kt_count t), td_aggressor_side = g,
      td_liquidity_role = UNKNOWN_ROLE, td_exchange_occurred_at = kt_created_time t, td_received_at = received_at,
      td_sequence = kt_sequence t\<rparr>"
  have mk: "mk_trade (?T g) = (if length (kt_trade_id t) \<le> 121 then Inr (?T g) else Inl (ValidationError (Out_of_range F_text)))" for g
    using t cents by (auto simp: mk_trade_def raw_trade_ok_def text_in_def)
  have err: "\<exists>a. trade_mapping_error msg t code = Inr a \<and> ae_class a = AdapterProtocolError \<and> \<not> ae_retryable a \<and>
      ae_exchange_error_code a = Some code" if "\<not> blank_or_padded msg" "\<not> blank_or_padded code" for msg code
    using mk_adapter_error_ok [of msg "Some ''kalshi''" None "Some code" None AdapterProtocolError "Some EC_STREAM"
        "safe_trade_context t"] that
    by (auto simp: trade_mapping_error_def default_retryable_def blank_or_padded_def py_strip_def py_isspace_def)
  have msgs: "\<not> blank_or_padded ''Kalshi trade mapping failed''" "\<not> blank_or_padded ''kalshi_trade_mapping_failed''"
    "\<not> blank_or_padded ''Kalshi trade taker side is unsupported''" "\<not> blank_or_padded ''kalshi_trade_taker_side_unsupported''"
    by (simp_all add: blank_or_padded_def py_strip_def py_isspace_def)
  note e1 = err [OF msgs(1,2)] and e2 = err [OF msgs(3,4)]
  show ?thesis
  proof (cases "kt_taker_side t \<in> {None, Some ''yes'', Some ''no''}")
    case True
    then have "map_trade_aggressor_side t outcome_side = Inr (map_option (\<lambda>s. if s = outcome_side then BUY else SELL) (kt_taker_side t))"
      using assms(2) by (auto simp: map_trade_aggressor_side_def)
    then show ?thesis using True e1 price mk cents t
      by (auto simp: map_kalshi_trade_def raise_adapter_error_def raw_trade_ok_def)
  next
    case False
    then obtain a where "map_trade_aggressor_side t outcome_side = Inl (Adapter a)" "ae_class a = AdapterProtocolError" "\<not> ae_retryable a"
      "ae_exchange_error_code a = Some ''kalshi_trade_taker_side_unsupported''"
      using e2 by (auto simp: map_trade_aggressor_side_def raise_adapter_error_def)
    then show ?thesis using False price by (auto simp: map_kalshi_trade_def)
  qed
qed

definition sample_trade_payload :: payload where
  "sample_trade_payload =
     [(''trade_id'', J_Str (replicate 122 CHR ''t'')), (''market_ticker'', J_Str ''T''), (''yes_price'', J_Int 40),
      (''count'', J_Int 3), (''created_time'', J_Str ''now'')]"

theorem kalshi_trade_mapping_witness:
  "\<exists>t a. trade_from_exchange_payload (\<lambda>_. Inr 5) sample_trade_payload = Inr t \<and>
     map_kalshi_trade t ''m'' ''c'' ''o'' 6 ''no'' = Inl (Adapter a) \<and> ae_exchange_error_code a = Some ''kalshi_trade_mapping_failed''"
proof -
  have "(case trade_from_exchange_payload (\<lambda>_. Inr 5) sample_trade_payload of
      Inr t \<Rightarrow> length (kt_trade_id t) = 122 \<and> kt_taker_side t = None | Inl _ \<Rightarrow> False)"
    by code_simp
  then obtain t where t: "trade_from_exchange_payload (\<lambda>_. Inr 5) sample_trade_payload = Inr t" "length (kt_trade_id t) = 122"
    "kt_taker_side t = None" by (auto split: sum.splits)
  show ?thesis
    using kalshi_trade_mapping [OF t(1), of "''no''" "''m''" "''c''" "''o''" 6] t by (auto split: sum.splits)
qed

end
