(* ===== verification/Kalshi_Rest.thy ===== *)
theory Kalshi_Rest
  imports Kalshi_Models
begin

text \<open>
  \<open>src/pmrp/adapters/kalshi/rest.py\<close>: the client that lists markets over a transport of the caller. The transport is a
  parameter: from a request and the state of the outside it gives its new state and a response or an exception. The theorems
  say what leaves the client on every response.
\<close>

record rest_request =
  rq_path :: string
  rq_query :: "(string \<times> string) list"
  rq_headers :: "(string \<times> string) list"
  rq_timeout_seconds :: int

record rest_response =
  rp_status_code :: int
  rp_body_text :: string
  rp_headers :: "(string \<times> string) list"

record market_list_params =
  mp_limit :: "int option"
  mp_cursor :: "string option"
  mp_status :: "string option"

definition KALSHI_MARKETS_PATH :: string where
  "KALSHI_MARKETS_PATH = ''/trade-api/v2/markets''"

definition validate_string_items :: "(string \<times> string) list \<Rightarrow> (string \<times> string) list result" where
  "validate_string_items m =
     (case freeze_string_mapping m of Inl _ \<Rightarrow> Inl (ValidationError (Out_of_range F_text)) | Inr v \<Rightarrow> Inr v)"

definition mk_rest_request :: "rest_request \<Rightarrow> rest_request result" where
  "mk_rest_request r =
     bindE (guards
       [(\<not> text_in 1 512 (rq_path r) \<or> \<not> raw_text_ok (rq_path r) \<or> take 1 (rq_path r) \<noteq> ''/'',
           ValidationError (Message ''path''))]) (\<lambda>_.
     bindE (validate_string_items (rq_query r)) (\<lambda>_.
     bindE (validate_string_items (rq_headers r)) (\<lambda>_.
     bindE (guards [(rq_timeout_seconds r \<le> 0 \<or> 120 < rq_timeout_seconds r, ValidationError (Message ''timeout_seconds''))])
       (\<lambda>_. Inr r))))"

definition mk_rest_response :: "rest_response \<Rightarrow> rest_response result" where
  "mk_rest_response r =
     bindE (guards [(rp_status_code r < 100 \<or> 599 < rp_status_code r, ValidationError (Message ''status_code''))]) (\<lambda>_.
     bindE (validate_string_items (rp_headers r)) (\<lambda>_. Inr r))"

definition mk_market_list_params :: "market_list_params \<Rightarrow> market_list_params result" where
  "mk_market_list_params p =
     bindE (guards
       [(\<not> pred_option (\<lambda>n. 0 < n \<and> n \<le> 1000) (mp_limit p), ValidationError (Message ''limit'')),
        (\<not> pred_option (\<lambda>s. text_in 1 512 s \<and> raw_text_ok s) (mp_cursor p), ValidationError (Message ''cursor'')),
        (\<not> pred_option (\<lambda>s. text_in 1 128 s \<and> raw_text_ok s) (mp_status p), ValidationError (Message ''status''))])
       (\<lambda>_. Inr p)"

definition to_query :: "market_list_params \<Rightarrow> (string \<times> string) list" where
  "to_query p =
     set_present ''status'' (mp_status p)
      (set_present ''cursor'' (mp_cursor p) (set_present ''limit'' (map_option int_text (mp_limit p)) []))"

text \<open>The timeout of the client, checked when it is built.\<close>

definition validate_timeout_seconds :: "int \<Rightarrow> int result" where
  "validate_timeout_seconds n =
     (if n \<le> 0 then Inl (value_error ''Kalshi REST timeout_seconds must be positive'')
      else if 120 < n then Inl (value_error ''Kalshi REST timeout_seconds must be at most 120'') else Inr n)"

definition parse_market_list_success ::
  "(string \<Rightarrow> instant result) \<Rightarrow> (string \<Rightarrow> json result) \<Rightarrow> rest_request \<Rightarrow> rest_response \<Rightarrow> kalshi_market_list_response outcome" where
  "parse_market_list_success read_time loads rq rp =
     (case parse_kalshi_market_list_json read_time loads (rp_body_text rp) of
        Inr ms \<Rightarrow> Inr ms
      | Inl e \<Rightarrow>
          if caught_value_error e then
            raise_adapter_error (mk_adapter_error AdapterProtocolError ''Kalshi market-list response payload is malformed''
              (Some ''kalshi'') (Some EC_MARKET_DATA) (Some (rp_status_code rp)) None None [(''endpoint'', rq_path rq)])
          else Inl (Other e))"

definition parse_error_response :: "(string \<Rightarrow> json result) \<Rightarrow> rest_response \<Rightarrow> kalshi_raw_error_response result" where
  "parse_error_response loads rp =
     (case parse_kalshi_error_json loads (rp_body_text rp) of
        Inr e \<Rightarrow> Inr e
      | Inl e \<Rightarrow>
          if caught_value_error e then
            error_from_exchange_payload
              [(''http_status'', J_Int (rp_status_code rp)),
               (''error'', J_Object [(''code'', J_Str ''unparseable_error_payload''),
                  (''message'', J_Str ''Kalshi error response was not valid JSON'')])]
          else Inl e)"

definition error_context :: "rest_request \<Rightarrow> kalshi_raw_error_response \<Rightarrow> (string \<times> string) list" where
  "error_context rq e =
     set_present ''retry_after_seconds'' (map_option int_text (ke_retry_after_seconds e)) [(''endpoint'', rq_path rq)]"

definition raise_rest_error :: "(string \<Rightarrow> json result) \<Rightarrow> rest_request \<Rightarrow> rest_response \<Rightarrow> 'a outcome" where
  "raise_rest_error loads rq rp =
     (case parse_error_response loads rp of
        Inl e \<Rightarrow> Inl (Other e)
      | Inr raw \<Rightarrow>
          let http_status = (case ke_http_status raw of Some n \<Rightarrow> n | None \<Rightarrow> rp_status_code rp);
              err = (\<lambda>c msg. raise_adapter_error (mk_adapter_error c msg (Some ''kalshi'') (Some EC_MARKET_DATA)
                (Some http_status) (ke_error_code raw) (ke_request_id raw) (error_context rq raw)))
          in
          if http_status = 401 \<or> http_status = 403
          then err AdapterAuthenticationError ''Kalshi REST authentication failed''
          else if http_status = 429 then err AdapterRateLimitError ''Kalshi REST rate limit exceeded''
          else if 500 \<le> http_status then err AdapterTransportError ''Kalshi REST service error''
          else err AdapterProtocolError ''Kalshi REST request failed'')"

type_synonym 'w rest_transport = "rest_request \<Rightarrow> 'w \<Rightarrow> 'w \<times> rest_response outcome"

definition list_markets ::
  "(string \<Rightarrow> instant result) \<Rightarrow> (string \<Rightarrow> json result) \<Rightarrow> 'w rest_transport \<Rightarrow> int \<Rightarrow> market_list_params option \<Rightarrow> 'w \<Rightarrow>
   'w \<times> kalshi_market_list_response outcome" where
  "list_markets read_time loads send timeout params w =
     (let p = (case params of Some p \<Rightarrow> p | None \<Rightarrow> \<lparr>mp_limit = None, mp_cursor = None, mp_status = None\<rparr>) in
      case mk_rest_request
          \<lparr>rq_path = KALSHI_MARKETS_PATH, rq_query = to_query p, rq_headers = [], rq_timeout_seconds = timeout\<rparr> of
        Inl e \<Rightarrow> (w, Inl (Other e))
      | Inr rq \<Rightarrow>
          (case send rq w of
             (w', Inl e) \<Rightarrow> (w', Inl e)
           | (w', Inr rp) \<Rightarrow>
               (w', if rp_status_code rp = 200 then parse_market_list_success read_time loads rq rp
                    else raise_rest_error loads rq rp)))"

section \<open>Lemmas\<close>

lemma market_raises: "only_raises (raw_model_error read_time) (market_from_exchange_payload read_time p)"
  unfolding market_from_exchange_payload_def Let_def validate_market_time_ordering_def
  by (intro unless_escape_raises only_raises raw_model_raises first_time_escape_error) (auto intro: only_raises split: option.splits)

text \<open>What else leaves the parser: an exception of \<^verbatim>\<open>json.loads\<close> other than its \<^verbatim>\<open>JSONDecodeError\<close>.\<close>

definition decoding_error :: "(string \<Rightarrow> json result) \<Rightarrow> string \<Rightarrow> py_error \<Rightarrow> bool" where
  "decoding_error loads s e \<longleftrightarrow> loads s = Inl e \<and> \<not> json_decode_error e"

lemma parse_json_object_raises:
  "parse_json_object loads name s = Inl e \<Longrightarrow> caught_value_error e \<or> decoding_error loads s e"
  by (auto simp: parse_json_object_def decoding_error_def split: sum.splits json.splits if_splits)

lemma market_list_raises:
  assumes "parse_kalshi_market_list_json read_time loads s = Inl e"
  shows "caught_value_error e \<or> time_error read_time e \<or> decoding_error loads s e"
proof -
  have "only_raises (raw_model_error read_time) (market_from_payload read_time v)" for v
    by (cases v) (auto simp: market_from_payload_def intro: market_raises only_raises)
  then have "only_raises (raw_model_error read_time) (market_list_from_exchange_payload read_time p)" for p
    unfolding market_list_from_exchange_payload_def
    by (cases "payload_get p ''markets''") (auto intro!: only_raises raw_model_raises)
  then show ?thesis using assms
    by (auto simp: parse_kalshi_market_list_json_def bindE_eq_Inl only_raises_def raw_model_error_def dest!: parse_json_object_raises)
qed

lemma error_payload_raises: "only_raises caught_value_error (error_from_exchange_payload p)"
proof -
  have "only_raises caught_value_error (error_payload p)"
    by (auto simp: error_payload_def intro: only_raises split: json.splits)
  then show ?thesis
    unfolding error_from_exchange_payload_def Let_def
    by (intro only_raises raw_field_raises freeze_payload_raises) auto
qed

lemma error_raises: "parse_kalshi_error_json loads s = Inl e \<Longrightarrow> caught_value_error e \<or> decoding_error loads s e"
  using error_payload_raises
  by (auto simp: parse_kalshi_error_json_def bindE_eq_Inl only_raises_def dest: parse_json_object_raises)

text \<open>A parsed error fits the constructor of the adapter's errors.\<close>

definition error_fits :: "kalshi_raw_error_response \<Rightarrow> bool" where
  "error_fits e \<longleftrightarrow> pred_option (\<lambda>n. 100 \<le> n \<and> n \<le> 599) (ke_http_status e) \<and>
     pred_option (\<lambda>s. \<not> blank_or_padded s) (ke_error_code e) \<and> pred_option (\<lambda>s. \<not> blank_or_padded s) (ke_request_id e)"

lemma error_payload_fits: "error_from_exchange_payload p = Inr e \<Longrightarrow> error_fits e"
  unfolding error_from_exchange_payload_def Let_def bindE_eq_Inr if_raise_eq_Inr raw_field_eq_Inr sum.inject
  by (elim exE conjE, hypsubst) (simp add: error_fits_def optional_int_range optional_text_range)

lemma fallback_error:
  assumes "100 \<le> n" "n \<le> 599"
  shows "\<exists>e. error_from_exchange_payload
      [(''http_status'', J_Int n),
       (''error'', J_Object [(''code'', J_Str ''unparseable_error_payload''),
          (''message'', J_Str ''Kalshi error response was not valid JSON'')])] = Inr e \<and> ke_http_status e = Some n"
proof -
  have t: "str_field 128 (J_Str ''unparseable_error_payload'') = Some ''unparseable_error_payload''"
    "str_field 1024 (J_Str ''Kalshi error response was not valid JSON'') = Some ''Kalshi error response was not valid JSON''"
    by code_simp+
  have f: "freeze_payload [(''http_status'', J_Int n),
       (''error'', J_Object [(''code'', J_Str ''unparseable_error_payload''),
          (''message'', J_Str ''Kalshi error response was not valid JSON'')])] = Inr p" if "p = [(''http_status'', J_Int n),
       (''error'', J_Object [(''code'', J_Str ''unparseable_error_payload''),
          (''message'', J_Str ''Kalshi error response was not valid JSON'')])]" for p
    unfolding that by (simp add: freeze_payload_eq blank_or_padded_def py_strip_def py_isspace_def)
  show ?thesis
    using assms
    by (simp add: error_from_exchange_payload_def error_payload_def payload_get_def first_present_payload_item_def Let_def
        optional_field_def int_field_def t f raw_field_def)
qed

lemma to_query_ok:
  assumes "mk_market_list_params p = Inr p"
  shows "validate_string_items (to_query p) = Inr (to_query p)"
proof -
  have n: "0 < n \<Longrightarrow> \<not> blank_or_padded (int_text n)" for n by (rule int_text_unpadded) simp
  have keys: "\<not> blank_or_padded ''limit''" "\<not> blank_or_padded ''cursor''" "\<not> blank_or_padded ''status''"
    by (simp_all add: blank_or_padded_def py_strip_def py_isspace_def)
  show ?thesis
    using assms n keys
    by (cases "mp_limit p"; cases "mp_cursor p"; cases "mp_status p")
      (auto simp: mk_market_list_params_def bindE_eq_Inr guards_ok_iff to_query_def set_present_def raw_text_ok_def
        validate_string_items_def validate_mapping_key_def simp del: guards.simps)
qed

lemma request_ok:
  assumes "validate_timeout_seconds timeout = Inr timeout" "mk_market_list_params p = Inr p"
    "rq = \<lparr>rq_path = KALSHI_MARKETS_PATH, rq_query = to_query p, rq_headers = [], rq_timeout_seconds = timeout\<rparr>"
  shows "mk_rest_request rq = Inr rq"
proof -
  have "validate_string_items [] = Inr []" by (simp add: validate_string_items_def)
  moreover have "raw_text_ok KALSHI_MARKETS_PATH" "text_in 1 512 KALSHI_MARKETS_PATH" "take 1 KALSHI_MARKETS_PATH = ''/''"
    by (simp_all add: KALSHI_MARKETS_PATH_def raw_text_ok_def text_in_def blank_or_padded_def py_strip_def py_isspace_def)
  ultimately show ?thesis using assms to_query_ok [OF assms(2)]
    by (auto simp: mk_rest_request_def validate_timeout_seconds_def split: if_splits)
qed

text \<open>The status by which a failure is classified: the one in the body if there is one, or the one of the response.\<close>

definition effective_status :: "(string \<Rightarrow> json result) \<Rightarrow> rest_response \<Rightarrow> int" where
  "effective_status loads rp =
     (case parse_kalshi_error_json loads (rp_body_text rp) of
        Inr e \<Rightarrow> (case ke_http_status e of Some n \<Rightarrow> n | None \<Rightarrow> rp_status_code rp)
      | Inl _ \<Rightarrow> rp_status_code rp)"

definition class_of_status :: "int \<Rightarrow> adapter_error_class" where
  "class_of_status n =
     (if n = 401 \<or> n = 403 then AdapterAuthenticationError else if n = 429 then AdapterRateLimitError
      else if 500 \<le> n then AdapterTransportError else AdapterProtocolError)"

lemma raise_rest_error_class:
  assumes "100 \<le> rp_status_code rp" "rp_status_code rp \<le> 599"
    and "\<And>e. parse_kalshi_error_json loads (rp_body_text rp) = Inl e \<Longrightarrow> caught_value_error e"
  shows "\<exists>a. raise_rest_error loads rq rp = (Inl (Adapter a) :: 'a outcome) \<and> ae_class a = class_of_status (effective_status loads rp) \<and>
    ae_http_status a = Some (effective_status loads rp) \<and>
    ae_retryable a = default_retryable (class_of_status (effective_status loads rp))"
proof -
  obtain raw where raw: "parse_error_response loads rp = Inr raw" "error_fits raw"
    "effective_status loads rp = (case ke_http_status raw of Some n \<Rightarrow> n | None \<Rightarrow> rp_status_code rp)"
  proof (cases "parse_kalshi_error_json loads (rp_body_text rp)")
    case (Inl e')
    then show ?thesis using assms(3) fallback_error [OF assms(1,2)] error_payload_fits that
      by (auto simp: parse_error_response_def effective_status_def)
  next
    case (Inr raw)
    then have "error_fits raw" by (auto simp: parse_kalshi_error_json_def bindE_eq_Inr intro: error_payload_fits)
    then show ?thesis using Inr that by (simp add: parse_error_response_def effective_status_def)
  qed
  let ?n = "effective_status loads rp"
  have n: "100 \<le> ?n" "?n \<le> 599" using raw(2,3) assms by (auto simp: error_fits_def split: option.splits)
  have err: "\<exists>a. mk_adapter_error c msg (Some ''kalshi'') (Some EC_MARKET_DATA) (Some ?n) (ke_error_code raw) (ke_request_id raw)
      (error_context rq raw) = Inr a \<and> ae_class a = c \<and> ae_http_status a = Some ?n \<and> ae_retryable a = default_retryable c"
    if "\<not> blank_or_padded msg" for c msg
    using mk_adapter_error_ok [of msg "Some ''kalshi''" "Some ?n" "ke_error_code raw" "ke_request_id raw" c] raw(2) n that
    by (auto simp: error_fits_def blank_or_padded_def [of "''kalshi''"] py_strip_def py_isspace_def)
  let ?msg = "if ?n = 401 \<or> ?n = 403 then ''Kalshi REST authentication failed''
    else if ?n = 429 then ''Kalshi REST rate limit exceeded''
    else if 500 \<le> ?n then ''Kalshi REST service error'' else ''Kalshi REST request failed''"
  have "raise_rest_error loads rq rp = (raise_adapter_error (mk_adapter_error (class_of_status ?n) ?msg (Some ''kalshi'')
      (Some EC_MARKET_DATA) (Some ?n) (ke_error_code raw) (ke_request_id raw) (error_context rq raw)) :: 'a outcome)"
    by (simp add: raise_rest_error_def raw(1) raw(3) [symmetric] class_of_status_def)
  moreover have "\<not> blank_or_padded ?msg"
    by (simp add: blank_or_padded_def py_strip_def py_isspace_def)
  ultimately show ?thesis using err [of ?msg "class_of_status ?n"] by (auto simp: raise_adapter_error_def)
qed

section \<open>Properties\<close>

text \<open>
  C14: what leaves the client when it lists markets. For a client and parameters that were accepted, the request reaches the
  transport once. Whatever valid response comes back, the markets are returned only for a status of 200 and a body that the raw
  models accept. A 200 with a malformed body raises a protocol error, and every other status raises the error of its class:
  authentication for 401 and 403, rate limit for 429, transport from 500 on, protocol otherwise, where the status in an
  error body counts before that of the response; it is retryable exactly for 429 and from 500 on. Any other exception that leaves is
  one of the decoding of the body or of a time of a 200 response, and is not a \<open>ValueError\<close>: a \<open>RecursionError\<close> of the
  JSON decoder, the \<open>TypeError\<close> of a time that is not text, the \<open>OverflowError\<close> of a time that leaves the calendar.
  The depth of the interpreter's stack is taken to suffice for copying what has been decoded.
\<close>

theorem market_list_outcome:
  assumes "validate_timeout_seconds timeout = Inr timeout" and "mk_market_list_params p = Inr p"
    and "send \<lparr>rq_path = KALSHI_MARKETS_PATH, rq_query = to_query p, rq_headers = [], rq_timeout_seconds = timeout\<rparr> w = (w', Inr rp)"
    and "mk_rest_response rp = Inr rp"
  shows "\<exists>r. list_markets read_time loads send timeout (Some p) w = (w', r) \<and>
    (case r of
       Inr ms \<Rightarrow> rp_status_code rp = 200 \<and> parse_kalshi_market_list_json read_time loads (rp_body_text rp) = Inr ms
     | Inl (Adapter a) \<Rightarrow>
         if rp_status_code rp = 200
         then ae_class a = AdapterProtocolError \<and> \<not> ae_retryable a \<and>
           (\<exists>e. parse_kalshi_market_list_json read_time loads (rp_body_text rp) = Inl e)
         else ae_class a = class_of_status (effective_status loads rp) \<and>
           ae_http_status a = Some (effective_status loads rp) \<and>
           (ae_retryable a \<longleftrightarrow> effective_status loads rp = 429 \<or> 500 \<le> effective_status loads rp)
     | Inl (Other e) \<Rightarrow> \<not> caught_value_error e \<and>
         (loads (rp_body_text rp) = Inl e \<or>
          rp_status_code rp = 200 \<and> parse_kalshi_market_list_json read_time loads (rp_body_text rp) = Inl e \<and>
            (e = datetime_type_error \<or> (\<exists>s. read_time s = Inl e))))"
proof -
  let ?rq = "\<lparr>rq_path = KALSHI_MARKETS_PATH, rq_query = to_query p, rq_headers = [], rq_timeout_seconds = timeout\<rparr>"
  have status: "100 \<le> rp_status_code rp" "rp_status_code rp \<le> 599"
    using assms(4) by (auto simp: mk_rest_response_def bindE_eq_Inr split: if_splits)
  have run: "list_markets read_time loads send timeout (Some p) w =
      (w', if rp_status_code rp = 200 then parse_market_list_success read_time loads ?rq rp else raise_rest_error loads ?rq rp)"
    using request_ok [OF assms(1,2) refl] assms(3) by (simp add: list_markets_def)
  have retry: "default_retryable (class_of_status n) \<longleftrightarrow> n = 429 \<or> 500 \<le> n" for n
    by (auto simp: class_of_status_def default_retryable_def)
  have bad: "\<exists>a. mk_adapter_error AdapterProtocolError ''Kalshi market-list response payload is malformed'' (Some ''kalshi'')
      (Some EC_MARKET_DATA) (Some (rp_status_code rp)) None None [(''endpoint'', rq_path ?rq)] = Inr a \<and>
      ae_class a = AdapterProtocolError \<and> \<not> ae_retryable a"
    using mk_adapter_error_ok [of "''Kalshi market-list response payload is malformed''" "Some ''kalshi''" "Some (rp_status_code rp)" None None
        AdapterProtocolError] status
    by (auto simp: blank_or_padded_def py_strip_def py_isspace_def default_retryable_def)
  show ?thesis
  proof (cases "rp_status_code rp = 200")
    case False
    have run_other: "list_markets read_time loads send timeout (Some p) w = (w', raise_rest_error loads ?rq rp)"
      using run False by simp
    show ?thesis
    proof (cases "\<exists>e. parse_kalshi_error_json loads (rp_body_text rp) = Inl e \<and> \<not> caught_value_error e")
      case True
      then obtain e where e: "parse_kalshi_error_json loads (rp_body_text rp) = Inl e" "\<not> caught_value_error e" by blast
      then have "raise_rest_error loads ?rq rp = (Inl (Other e) :: kalshi_market_list_response outcome)"
        by (simp add: raise_rest_error_def parse_error_response_def)
      then show ?thesis unfolding run_other using e error_raises [OF e(1)] by (simp add: decoding_error_def)
    next
      case no_escape: False
      obtain a where "raise_rest_error loads ?rq rp = (Inl (Adapter a) :: kalshi_market_list_response outcome)" "ae_class a = class_of_status (effective_status loads rp)"
          "ae_http_status a = Some (effective_status loads rp)"
          "ae_retryable a = default_retryable (class_of_status (effective_status loads rp))"
        using raise_rest_error_class [OF status, of loads] no_escape by blast
      then show ?thesis unfolding run_other using False retry by simp
    qed
  next
    case True
    have run200: "list_markets read_time loads send timeout (Some p) w = (w', parse_market_list_success read_time loads ?rq rp)"
      using run True by simp
    show ?thesis
    proof (cases "parse_kalshi_market_list_json read_time loads (rp_body_text rp)")
      case (Inl e)
      note e = market_list_raises [OF Inl]
      obtain a where "mk_adapter_error AdapterProtocolError ''Kalshi market-list response payload is malformed'' (Some ''kalshi'')
        (Some EC_MARKET_DATA) (Some (rp_status_code rp)) None None [(''endpoint'', rq_path ?rq)] = Inr a"
        "ae_class a = AdapterProtocolError" "\<not> ae_retryable a"
        using bad by blast
      then show ?thesis unfolding run200 using True Inl e
        by (cases "caught_value_error e")
          (auto simp: parse_market_list_success_def raise_adapter_error_def decoding_error_def time_error_def)
    qed (use True run200 in \<open>simp add: parse_market_list_success_def\<close>)
  qed
qed

text \<open>A response whose body is a rate limit error, although the transport reports 400.\<close>

definition sample_loads :: "string \<Rightarrow> json result" where
  "sample_loads s =
     (if s = ''limited'' then
        Inr (J_Object [(''http_status'', J_Int 429), (''error'', J_Object [(''message'', J_Str ''slow'')])])
      else if s = ''numeric time'' then
        Inr (J_Object [(''markets'', J_Array [J_Object [(''ticker'', J_Str ''T''), (''open_time'', J_Int 1700000000)]])])
      else if s = ''early time'' then
        Inr (J_Object [(''markets'', J_Array [J_Object [(''ticker'', J_Str ''T''), (''open_time'', J_Str ''0001-01-01T00:00:00+01:00'')]])])
      else Inl (Exc ''JSONDecodeError'' ''not JSON''))"

definition sample_times :: "string \<Rightarrow> instant result" where
  "sample_times s = (if s = ''0001-01-01T00:00:00+01:00'' then Inl OverflowError else Inr 0)"

definition no_params :: market_list_params where
  "no_params = \<lparr>mp_limit = None, mp_cursor = None, mp_status = None\<rparr>"

text \<open>A transport that answers every request in the same way and notes the path.\<close>

definition answering :: "rest_response \<Rightarrow> string list rest_transport" where
  "answering rp = (\<lambda>rq w. (rq_path rq # w, Inr rp))"

definition limited_response :: rest_response where
  "limited_response = \<lparr>rp_status_code = 400, rp_body_text = ''limited'', rp_headers = []\<rparr>"

theorem market_list_outcome_witness:
  "\<exists>a. list_markets sample_times sample_loads (answering limited_response) 10 (Some no_params) [] =
      ([KALSHI_MARKETS_PATH], Inl (Adapter a)) \<and> ae_class a = AdapterRateLimitError \<and> ae_retryable a"
proof -
  have eff: "effective_status sample_loads limited_response = 429" by code_simp
  have client: "validate_timeout_seconds 10 = Inr 10" "mk_market_list_params no_params = Inr no_params"
    "mk_rest_response limited_response = Inr limited_response" "rp_status_code limited_response = 400"
    by (simp_all add: validate_timeout_seconds_def mk_market_list_params_def no_params_def mk_rest_response_def
        validate_string_items_def limited_response_def)
  have sent: "answering limited_response \<lparr>rq_path = KALSHI_MARKETS_PATH, rq_query = to_query no_params, rq_headers = [],
      rq_timeout_seconds = 10\<rparr> [] = ([KALSHI_MARKETS_PATH], Inr limited_response)"
    by (simp add: answering_def)
  from market_list_outcome [where send = "answering limited_response" and read_time = sample_times and loads = sample_loads,
      OF client(1,2) sent client(3), unfolded eff client(4)]
  show ?thesis
  proof (elim exE conjE, goal_cases)
    case (1 r)
    then show ?case by (cases r) (auto simp: class_of_status_def sample_loads_def limited_response_def split: raised.splits)
  qed
qed

text \<open>
  A time that the validation cannot report breaks the client's contract. When the body of a 200 response is an object whose first
  market has a time that is neither text nor null, or one that leaves the calendar, the bare \<open>TypeError\<close> or \<open>OverflowError\<close>
  leaves \<open>list_markets\<close>, whatever the other fields hold, where every other malformed market is reported as a protocol
  error of the adapter.
\<close>

theorem market_time_escapes:
  assumes "validate_timeout_seconds timeout = Inr timeout" and "mk_market_list_params p = Inr p"
    and "send \<lparr>rq_path = KALSHI_MARKETS_PATH, rq_query = to_query p, rq_headers = [], rq_timeout_seconds = timeout\<rparr> w = (w', Inr rp)"
    and "rp_status_code rp = 200" and "loads (rp_body_text rp) = Inr (J_Object body)"
    and "payload_get body ''markets'' = J_Array (J_Object market # rest)"
    and "first_time_escape read_time market market_time_fields = Some e"
  shows "list_markets read_time loads send timeout (Some p) w = (w', Inl (Other e))"
proof -
  have "market_from_exchange_payload read_time market = Inl e"
    using assms(7) by (simp add: market_from_exchange_payload_def Let_def)
  then have "parse_kalshi_market_list_json read_time loads (rp_body_text rp) = Inl e"
    using assms(5,6)
    by (simp add: parse_kalshi_market_list_json_def parse_json_object_def market_list_from_exchange_payload_def market_from_payload_def)
  moreover have "\<not> caught_value_error e" using first_time_escape_error [OF assms(7)] by (simp add: time_error_def)
  ultimately show ?thesis
    using request_ok [OF assms(1,2) refl] assms(3,4) by (simp add: list_markets_def parse_market_list_success_def)
qed

theorem market_time_escapes_witness:
  "list_markets sample_times sample_loads (answering \<lparr>rp_status_code = 200, rp_body_text = ''numeric time'', rp_headers = []\<rparr>)
     10 (Some no_params) [] = ([KALSHI_MARKETS_PATH], Inl (Other datetime_type_error)) \<and>
   list_markets sample_times sample_loads (answering \<lparr>rp_status_code = 200, rp_body_text = ''early time'', rp_headers = []\<rparr>)
     10 (Some no_params) [] = ([KALSHI_MARKETS_PATH], Inl (Other OverflowError))"
proof -
  have client: "validate_timeout_seconds 10 = Inr 10" "mk_market_list_params no_params = Inr no_params"
    by (simp_all add: validate_timeout_seconds_def mk_market_list_params_def no_params_def)
  have sent: "answering rp \<lparr>rq_path = KALSHI_MARKETS_PATH, rq_query = to_query no_params, rq_headers = [],
      rq_timeout_seconds = 10\<rparr> [] = ([KALSHI_MARKETS_PATH], Inr rp)" for rp
    by (simp add: answering_def)
  note escapes = market_time_escapes [where send = "answering rp" and loads = sample_loads and read_time = sample_times and p = no_params and
      timeout = 10 and w = "[]" and rp = rp and w' = "[KALSHI_MARKETS_PATH]" and rest = "[]" for rp, OF client sent]
  let ?numeric = "[(''ticker'', J_Str ''T''), (''open_time'', J_Int 1700000000)]"
  let ?early = "[(''ticker'', J_Str ''T''), (''open_time'', J_Str ''0001-01-01T00:00:00+01:00'')]"
  have facts: "first_time_escape sample_times ?numeric market_time_fields = Some datetime_type_error"
    "first_time_escape sample_times ?early market_time_fields = Some OverflowError"
    by code_simp+
  show ?thesis
  proof (rule conjI, goal_cases)
    case 1
    show ?case
      by (rule escapes [where body = "[(''markets'', J_Array [J_Object ?numeric])]" and market = ?numeric])
        (simp_all add: sample_loads_def payload_get_def facts)
  next
    case 2
    show ?case
      by (rule escapes [where body = "[(''markets'', J_Array [J_Object ?early])]" and market = ?early])
        (simp_all add: sample_loads_def payload_get_def facts)
  qed
qed

end
