(* ===== verification/Kalshi_Stream.thy ===== *)
theory Kalshi_Stream
  imports Kalshi_Models
begin

text \<open>
  \<open>src/pmrp/adapters/kalshi/websocket.py\<close>: the frames of the market-data stream and the connection that receives them over
  a transport of the caller. A transport is a record of its three coroutines over the state of the outside, each of which
  may raise. The theorems say what a connection sends and what leaves it, frame by frame.
\<close>

datatype channel = CH_ORDER_BOOK | CH_TRADES

fun channel_value :: "channel \<Rightarrow> string" where
  "channel_value CH_ORDER_BOOK = ''order_book''"
| "channel_value CH_TRADES = ''trades''"

section \<open>Frames\<close>

record ws_hello =
  wh_connection_id :: string
  wh_heartbeat_interval_seconds :: int
  wh_server_time :: "instant option"
  wh_raw_payload :: payload

definition hello_from_exchange_payload :: "(string \<Rightarrow> instant result) \<Rightarrow> payload \<Rightarrow> ws_hello result" where
  "hello_from_exchange_payload read_time p =
     bindE (required_payload_item p ''connection_id'') (\<lambda>connection_id.
     bindE (required_payload_item p ''heartbeat_interval_seconds'') (\<lambda>interval.
     let server_time = payload_get p ''server_time'' in
     unless_escape (optional_time_escape read_time server_time)
     (bindE (raw_field ''connection_id'' (str_field 256 connection_id)) (\<lambda>connection_id.
     bindE (raw_field ''heartbeat_interval_seconds'' (int_field 1 (Some 120) interval)) (\<lambda>interval.
     bindE (raw_field ''server_time'' (optional_field (time_field read_time) server_time)) (\<lambda>server_time.
     bindE (freeze_payload p) (\<lambda>raw.
     Inr \<lparr>wh_connection_id = connection_id, wh_heartbeat_interval_seconds = interval, wh_server_time = server_time,
       wh_raw_payload = raw\<rparr>)))))))"

record subscribe_plan =
  sp_request_id :: string
  sp_channels :: "channel list"
  sp_market_tickers :: "string list"

definition mk_subscribe_plan :: "subscribe_plan \<Rightarrow> subscribe_plan result" where
  "mk_subscribe_plan p =
     bindE (guards
       [(\<not> text_in 1 256 (sp_request_id p) \<or> \<not> raw_text_ok (sp_request_id p), ValidationError (Message ''request_id'')),
        (sp_channels p = [], ValidationError (Message ''channels'')),
        (sp_market_tickers p = [] \<or> \<not> list_all raw_text_ok (sp_market_tickers p), ValidationError (Message ''market_tickers'')),
        (\<not> distinct (sp_channels p), ValidationError (Message ''channels must not contain duplicate values'')),
        (\<not> distinct (sp_market_tickers p), ValidationError (Message ''market_tickers must not contain duplicate values''))])
       (\<lambda>_. Inr p)"

definition to_payload :: "subscribe_plan \<Rightarrow> payload" where
  "to_payload p =
     [(''type'', J_Str ''subscribe''), (''request_id'', J_Str (sp_request_id p)),
      (''channels'', J_Array (map (\<lambda>c. J_Str (channel_value c)) (sp_channels p))),
      (''market_tickers'', J_Array (map J_Str (sp_market_tickers p)))]"

definition read_channel :: "json \<Rightarrow> channel option" where
  "read_channel v =
     (if v \<in> {J_Str ''order_book'', J_Str ''orderbook'', J_Str ''market_data.order_books''} then Some CH_ORDER_BOOK
      else if v \<in> {J_Str ''trades'', J_Str ''trade'', J_Str ''market_data.trades''} then Some CH_TRADES else None)"

definition subscription_channel :: "json \<Rightarrow> channel result" where
  "subscription_channel v =
     (case read_channel v of Some c \<Rightarrow> Inr c
      | None \<Rightarrow> Inl (value_error ''Kalshi WebSocket subscription channel is unsupported''))"

record ws_subscription =
  sb_subscription_id :: string
  sb_channel :: channel

definition subscription_from_payload :: "json \<Rightarrow> ws_subscription result" where
  "subscription_from_payload v =
     (case v of
        J_Object p \<Rightarrow>
          bindE (subscription_channel (payload_get p ''channel'')) (\<lambda>c.
          bindE (raw_field ''subscription_id'' (str_field 256 (payload_get p ''subscription_id''))) (\<lambda>s.
          Inr \<lparr>sb_subscription_id = s, sb_channel = c\<rparr>))
      | _ \<Rightarrow> Inl (value_error ''Kalshi WebSocket subscriptions must contain JSON objects''))"

record subscription_ack =
  sa_request_id :: string
  sa_subscriptions :: "ws_subscription list"
  sa_raw_payload :: payload

definition ack_from_exchange_payload :: "payload \<Rightarrow> subscription_ack result" where
  "ack_from_exchange_payload p =
     (case payload_get p ''subscriptions'' of
        J_Array items \<Rightarrow>
          bindE (required_payload_item p ''request_id'') (\<lambda>request_id.
          bindE (mapE subscription_from_payload items) (\<lambda>subscriptions.
          bindE (raw_field ''request_id'' (str_field 256 request_id)) (\<lambda>request_id.
          bindE (guards [(subscriptions = [], ValidationError (Message ''subscriptions''))]) (\<lambda>_.
          bindE (freeze_payload p) (\<lambda>raw.
          if \<not> distinct (map sb_subscription_id subscriptions)
          then Inl (ValidationError (Message ''subscription ids must not contain duplicate values''))
          else Inr \<lparr>sa_request_id = request_id, sa_subscriptions = subscriptions, sa_raw_payload = raw\<rparr>)))))
      | _ \<Rightarrow> Inl (value_error ''Kalshi WebSocket subscription acknowledgement must contain subscriptions''))"

record ws_ping =
  wp_sent_at :: instant
  wp_raw_payload :: payload

definition ping_from_exchange_payload :: "(string \<Rightarrow> instant result) \<Rightarrow> payload \<Rightarrow> ws_ping result" where
  "ping_from_exchange_payload read_time p =
     bindE (required_payload_item p ''sent_at'') (\<lambda>sent_at.
     unless_escape (time_escape read_time sent_at)
     (bindE (raw_field ''sent_at'' (time_field read_time sent_at)) (\<lambda>sent_at.
     bindE (freeze_payload p) (\<lambda>raw. Inr \<lparr>wp_sent_at = sent_at, wp_raw_payload = raw\<rparr>))))"

text \<open>The pong repeats the time of the ping as it was sent.\<close>

definition pong_payload :: "ws_ping \<Rightarrow> payload" where
  "pong_payload g = [(''type'', J_Str ''pong''), (''sent_at'', payload_get (wp_raw_payload g) ''sent_at'')]"

record ws_data_frame =
  wd_message_type :: string
  wd_channel :: channel
  wd_market_ticker :: "string option"
  wd_sequence :: "int option"
  wd_payload :: payload
  wd_raw_payload :: payload

definition frame_type :: "payload \<Rightarrow> string result" where
  "frame_type p =
     (case payload_get p ''type'' of
        J_Str t \<Rightarrow>
          if raw_text_ok t then Inr t
          else Inl (value_error ''Kalshi WebSocket frame type must be nonempty without surrounding whitespace'')
      | _ \<Rightarrow> Inl (value_error ''Kalshi WebSocket frame type is required''))"

definition data_channel :: "payload \<Rightarrow> string \<Rightarrow> channel result" where
  "data_channel p t =
     (case read_channel (payload_get p ''channel'') of
        Some c \<Rightarrow> Inr c
      | None \<Rightarrow>
          if take 9 t = ''orderbook'' then Inr CH_ORDER_BOOK
          else if t = ''trade'' then Inr CH_TRADES
          else Inl (value_error ''Kalshi WebSocket data frame channel is unsupported''))"

definition data_from_exchange_payload :: "payload \<Rightarrow> ws_data_frame result" where
  "data_from_exchange_payload p =
     bindE (frame_type p) (\<lambda>t.
     bindE (message_payload p) (\<lambda>m.
     bindE (data_channel p t) (\<lambda>c.
     bindE (raw_field ''message_type'' (str_field 128 (J_Str t))) (\<lambda>t.
     bindE (raw_field ''market_ticker''
       (optional_field (str_field 256) (first_present_payload_item m ''market_ticker'' ''ticker''))) (\<lambda>ticker.
     bindE (raw_field ''sequence''
       (optional_field (int_field 0 None) (first_present_payload_item p ''seq'' ''sequence''))) (\<lambda>seq.
     bindE (freeze_payload m) (\<lambda>m.
     bindE (freeze_payload p) (\<lambda>raw.
     Inr \<lparr>wd_message_type = t, wd_channel = c, wd_market_ticker = ticker, wd_sequence = seq, wd_payload = m,
       wd_raw_payload = raw\<rparr>))))))))"

datatype frame = HelloFrame ws_hello | AckFrame subscription_ack | PingFrame ws_ping | DataFrame ws_data_frame

section \<open>The connection\<close>

record 'w ws_transport =
  tr_receive_text :: "int \<Rightarrow> 'w \<Rightarrow> 'w \<times> string outcome"
  tr_send_json :: "payload \<Rightarrow> int \<Rightarrow> 'w \<Rightarrow> 'w \<times> unit outcome"
  tr_close :: "'w \<Rightarrow> 'w \<times> unit outcome"

record ws_connection =
  wc_timeout_seconds :: int
  wc_closed :: bool

definition mk_ws_connection :: "int \<Rightarrow> ws_connection result" where
  "mk_ws_connection n =
     (if n \<le> 0 then Inl (value_error ''Kalshi WebSocket timeout_seconds must be positive'')
      else if 120 < n then Inl (value_error ''Kalshi WebSocket timeout_seconds must be at most 120'')
      else Inr \<lparr>wc_timeout_seconds = n, wc_closed = False\<rparr>)"

definition stream_error :: "string \<Rightarrow> string option \<Rightarrow> (string \<times> string) list \<Rightarrow> adapter_error result" where
  "stream_error msg code context =
     mk_adapter_error AdapterProtocolError msg (Some ''kalshi'') (Some EC_STREAM) None code None context"

definition decode_frame :: "(string \<Rightarrow> json result) \<Rightarrow> string \<Rightarrow> payload outcome" where
  "decode_frame loads s =
     (case loads s of
        Inl e \<Rightarrow>
          if json_decode_error e then raise_adapter_error (stream_error ''Kalshi WebSocket frame must be valid JSON'' None [])
          else Inl (Other e)
      | Inr (J_Object p) \<Rightarrow> Inr p
      | Inr _ \<Rightarrow> raise_adapter_error (stream_error ''Kalshi WebSocket frame must be a JSON object'' None []))"

definition raise_websocket_error :: "payload \<Rightarrow> 'a outcome" where
  "raise_websocket_error p =
     (let code = (case payload_get p ''error'' of
          J_Object e \<Rightarrow> first_present_payload_item e ''code'' ''error_code''
        | _ \<Rightarrow> payload_get p ''code'')
      in raise_adapter_error (stream_error ''Kalshi WebSocket protocol error''
           (case code of J_Str c \<Rightarrow> Some c | _ \<Rightarrow> None) []))"

text \<open>The body of the \<^verbatim>\<open>try\<close>: only a ping makes the connection send.\<close>

definition parse_frame ::
  "(string \<Rightarrow> instant result) \<Rightarrow> 'w ws_transport \<Rightarrow> ws_connection \<Rightarrow> payload \<Rightarrow> 'w \<Rightarrow> 'w \<times> frame outcome" where
  "parse_frame read_time tr c p w =
     (case frame_type p of
        Inl e \<Rightarrow> (w, Inl (Other e))
      | Inr t \<Rightarrow>
          if t \<in> {''hello'', ''system.hello''}
          then (w, lift_error (bindE (hello_from_exchange_payload read_time p) (\<lambda>h. Inr (HelloFrame h))))
          else if t \<in> {''subscribed'', ''subscription.accepted''}
          then (w, lift_error (bindE (ack_from_exchange_payload p) (\<lambda>a. Inr (AckFrame a))))
          else if t = ''ping'' then
            (case ping_from_exchange_payload read_time p of
               Inl e \<Rightarrow> (w, Inl (Other e))
             | Inr g \<Rightarrow>
                 (case tr_send_json tr (pong_payload g) (wc_timeout_seconds c) w of
                    (w', Inl e) \<Rightarrow> (w', Inl e)
                  | (w', Inr _) \<Rightarrow> (w', Inr (PingFrame g))))
          else if t = ''error'' then (w, raise_websocket_error p)
          else (w, lift_error (bindE (data_from_exchange_payload p) (\<lambda>d. Inr (DataFrame d)))))"

definition receive_next_frame ::
  "(string \<Rightarrow> instant result) \<Rightarrow> (string \<Rightarrow> json result) \<Rightarrow> 'w ws_transport \<Rightarrow> ws_connection \<Rightarrow> 'w \<Rightarrow> 'w \<times> frame outcome" where
  "receive_next_frame read_time loads tr c w =
     (case tr_receive_text tr (wc_timeout_seconds c) w of
        (w, Inl e) \<Rightarrow> (w, Inl e)
      | (w, Inr s) \<Rightarrow>
          (case decode_frame loads s of
             Inl e \<Rightarrow> (w, Inl e)
           | Inr p \<Rightarrow>
               (case parse_frame read_time tr c p w of
                  (w, r) \<Rightarrow> (w, or_raise r (stream_error ''Kalshi WebSocket frame is malformed'' None [])))))"

definition receive_hello ::
  "(string \<Rightarrow> instant result) \<Rightarrow> (string \<Rightarrow> json result) \<Rightarrow> 'w ws_transport \<Rightarrow> ws_connection \<Rightarrow> 'w \<Rightarrow> 'w \<times> ws_hello outcome" where
  "receive_hello read_time loads tr c w =
     (case receive_next_frame read_time loads tr c w of
        (w, Inl e) \<Rightarrow> (w, Inl e)
      | (w, Inr (HelloFrame h)) \<Rightarrow> (w, Inr h)
      | (w, Inr _) \<Rightarrow> (w, raise_adapter_error (stream_error ''Kalshi WebSocket expected hello frame'' None [])))"

definition ws_subscribe ::
  "(string \<Rightarrow> instant result) \<Rightarrow> (string \<Rightarrow> json result) \<Rightarrow> 'w ws_transport \<Rightarrow> ws_connection \<Rightarrow> subscribe_plan \<Rightarrow> 'w \<Rightarrow>
   'w \<times> subscription_ack outcome" where
  "ws_subscribe read_time loads tr c plan w =
     (case tr_send_json tr (to_payload plan) (wc_timeout_seconds c) w of
        (w, Inl e) \<Rightarrow> (w, Inl e)
      | (w, Inr _) \<Rightarrow>
          (case receive_next_frame read_time loads tr c w of
             (w, Inl e) \<Rightarrow> (w, Inl e)
           | (w, Inr (AckFrame a)) \<Rightarrow>
               (w, if sa_request_id a \<noteq> sp_request_id plan
                   then raise_adapter_error (stream_error ''Kalshi WebSocket subscription acknowledgement request mismatch'' None
                     [(''request_id'', sp_request_id plan)])
                   else Inr a)
           | (w, Inr _) \<Rightarrow>
               (w, raise_adapter_error (stream_error ''Kalshi WebSocket expected subscription acknowledgement'' None
                 [(''request_id'', sp_request_id plan)]))))"

definition close :: "'w ws_transport \<Rightarrow> ws_connection \<Rightarrow> 'w \<Rightarrow> ws_connection \<times> 'w \<times> unit outcome" where
  "close tr c w =
     (if wc_closed c then (c, w, Inr ())
      else (case tr_close tr w of (w, r) \<Rightarrow> (c\<lparr>wc_closed := True\<rparr>, w, r)))"

section \<open>Sequences\<close>

record ws_sequence_check =
  wk_previous_sequence :: "int option"
  wk_expected_sequence :: "int option"
  wk_received_sequence :: "int option"
  wk_status :: sequence_status
  wk_invalidates_stream :: bool

definition validate_ws_sequence_status :: "ws_sequence_check \<Rightarrow> ws_sequence_check result" where
  "validate_ws_sequence_status c =
     (let bad = (\<lambda>s. ValidationError (Message s)); nonneg = pred_option (\<lambda>n. (0::int) \<le> n) in
      bindE (guards
       [(\<not> nonneg (wk_previous_sequence c) \<or> \<not> nonneg (wk_expected_sequence c) \<or> \<not> nonneg (wk_received_sequence c),
           ValidationError (Out_of_range F_sequence)),
        (wk_previous_sequence c = None \<and> wk_expected_sequence c \<noteq> None,
           bad ''expected_sequence must be absent when previous_sequence is absent''),
        (wk_previous_sequence c \<noteq> None \<and> wk_expected_sequence c \<noteq> map_option (\<lambda>n. n + 1) (wk_previous_sequence c),
           bad ''expected_sequence must equal previous_sequence plus one''),
        (wk_status c = SEQ_GAP \<and> \<not> wk_invalidates_stream c, bad ''sequence gaps must invalidate the local stream''),
        (wk_status c \<noteq> SEQ_GAP \<and> wk_invalidates_stream c \<and> wk_status c \<noteq> SEQ_MISSING,
           bad ''only gaps or missing tracked sequences may invalidate the local stream'')])
      (\<lambda>_. Inr c))"

definition check_kalshi_websocket_sequence :: "int option \<Rightarrow> ws_data_frame \<Rightarrow> ws_sequence_check result" where
  "check_kalshi_websocket_sequence previous f =
     bindE (validate_optional_nonnegative_int previous) (\<lambda>_.
     let expected = map_option (\<lambda>n. n + 1) previous;
         check = (\<lambda>received status invalidates. validate_ws_sequence_status
           \<lparr>wk_previous_sequence = previous, wk_expected_sequence = expected, wk_received_sequence = received,
            wk_status = status, wk_invalidates_stream = invalidates\<rparr>)
     in case wd_sequence f of
       None \<Rightarrow> check None SEQ_MISSING (previous \<noteq> None)
     | Some received \<Rightarrow>
         (case previous of
            None \<Rightarrow> check (Some received) SEQ_OK False
          | Some n \<Rightarrow>
              if received = n + 1 then check (Some received) SEQ_OK False
              else
                let status = (if received = n then SEQ_DUPLICATE else if received < n then SEQ_STALE else SEQ_GAP)
                in check (Some received) status (status = SEQ_GAP)))"

section \<open>Lemmas\<close>

lemma stream_error_ok:
  assumes "\<not> blank_or_padded msg"
  shows "\<exists>a. stream_error msg None ctx = Inr a \<and> ae_class a = AdapterProtocolError \<and> ae_safe_message a = msg \<and> \<not> ae_retryable a"
  using mk_adapter_error_ok [of msg "Some ''kalshi''" None None None AdapterProtocolError "Some EC_STREAM" ctx] assms
  by (auto simp: stream_error_def default_retryable_def blank_or_padded_def [of "''kalshi''"] py_strip_def py_isspace_def)

lemma stream_messages [simp]:
  "\<not> blank_or_padded ''Kalshi WebSocket frame is malformed''"
  "\<not> blank_or_padded ''Kalshi WebSocket frame must be valid JSON''"
  "\<not> blank_or_padded ''Kalshi WebSocket frame must be a JSON object''"
  "\<not> blank_or_padded ''Kalshi WebSocket expected hello frame''"
  "\<not> blank_or_padded ''Kalshi WebSocket expected subscription acknowledgement''"
  "\<not> blank_or_padded ''Kalshi WebSocket subscription acknowledgement request mismatch''"
  by (simp_all add: blank_or_padded_def py_strip_def py_isspace_def)

definition protocol_error :: "'a outcome \<Rightarrow> bool" where
  "protocol_error r \<longleftrightarrow> (\<exists>a. r = Inl (Adapter a) \<and> ae_class a = AdapterProtocolError \<and> \<not> ae_retryable a)"

lemma protocol_error_stream [simp]: "\<not> blank_or_padded msg \<Longrightarrow> protocol_error (raise_adapter_error (stream_error msg None ctx))"
  using stream_error_ok [of msg ctx] by (auto simp: protocol_error_def raise_adapter_error_def)

definition malformed :: "adapter_error result" where
  "malformed = stream_error ''Kalshi WebSocket frame is malformed'' None []"

lemma malformed_raised [simp]: "protocol_error (raise_adapter_error malformed)"
  by (simp add: malformed_def)

lemma malformed_protocol [simp]: "value_or_type_error e \<Longrightarrow> protocol_error (or_raise (Inl (Other e)) malformed)"
  by simp

text \<open>The error of an error frame: its own, or the malformed frame when the code cannot be carried.\<close>

lemma error_frame_protocol: "protocol_error (or_raise (raise_websocket_error p :: 'a outcome) malformed)"
proof -
  define code where "code = (case payload_get p ''error'' of
      J_Object e \<Rightarrow> first_present_payload_item e ''code'' ''error_code'' | _ \<Rightarrow> payload_get p ''code'')"
  let ?c = "case code of J_Str c \<Rightarrow> Some c | _ \<Rightarrow> None"
  have "stream_error ''Kalshi WebSocket protocol error'' ?c [] = Inl (ValueError F_text) \<or>
    (\<exists>a. stream_error ''Kalshi WebSocket protocol error'' ?c [] = Inr a \<and> ae_class a = AdapterProtocolError \<and> \<not> ae_retryable a)"
    by (simp add: stream_error_def mk_adapter_error_def Let_def default_retryable_def blank_or_padded_def [of "''kalshi''"]
        blank_or_padded_def [of "''Kalshi WebSocket protocol error''"] py_strip_def py_isspace_def)
  moreover have "(raise_websocket_error p :: 'a outcome) = raise_adapter_error (stream_error ''Kalshi WebSocket protocol error'' ?c [])"
    by (simp add: raise_websocket_error_def code_def Let_def)
  ultimately show ?thesis by (auto simp: raise_adapter_error_def [of "Inl _"] raise_adapter_error_def [of "Inr _"]) (simp add: protocol_error_def)
qed

lemma frames_raise:
  "only_raises (raw_model_error read_time) (hello_from_exchange_payload read_time p)"
  "only_raises (raw_model_error read_time) (ping_from_exchange_payload read_time p)"
  "only_raises (raw_model_error read_time) (ack_from_exchange_payload p)"
  "only_raises (raw_model_error read_time) (data_from_exchange_payload p)"
  "only_raises (raw_model_error read_time) (frame_type p)"
proof -
  have item: "only_raises (raw_model_error read_time) (required_payload_item q k)" for q k
    by (auto simp: required_payload_item_def Let_def intro: only_raises)
  have sub: "only_raises (raw_model_error read_time) (subscription_from_payload v)" for v
    by (auto simp: subscription_from_payload_def subscription_channel_def intro!: only_raises raw_model_raises
        split: json.splits option.splits)
  show type: "only_raises (raw_model_error read_time) (frame_type p)"
    by (auto simp: frame_type_def intro: only_raises split: json.splits)
  have msg: "only_raises (raw_model_error read_time) (message_payload p)"
    by (auto simp: message_payload_def intro: only_raises split: json.splits)
  have chan: "only_raises (raw_model_error read_time) (data_channel p t)" for t
    by (auto simp: data_channel_def intro: only_raises split: option.splits)
  show "only_raises (raw_model_error read_time) (hello_from_exchange_payload read_time p)"
    "only_raises (raw_model_error read_time) (ping_from_exchange_payload read_time p)"
    "only_raises (raw_model_error read_time) (data_from_exchange_payload p)"
    unfolding hello_from_exchange_payload_def ping_from_exchange_payload_def data_from_exchange_payload_def Let_def
    by (intro only_raises unless_escape_raises raw_model_raises time_escape_error optional_time_escape_error item type msg chan; simp)+
  have "only_raises (raw_model_error read_time) (guards [(b, ValidationError e)])" for b e
    by (auto intro: only_raises)
  then show "only_raises (raw_model_error read_time) (ack_from_exchange_payload p)"
    unfolding ack_from_exchange_payload_def
    by (cases "payload_get p ''subscriptions''") (auto intro!: only_raises raw_model_raises item sub simp del: guards.simps)
qed

text \<open>An exception of a time that \<^verbatim>\<open>except (TypeError, ValueError)\<close> does not catch.\<close>

definition escaping_time :: "(string \<Rightarrow> instant result) \<Rightarrow> 'a outcome \<Rightarrow> bool" where
  "escaping_time read_time r \<longleftrightarrow> (\<exists>e s. r = Inl (Other e) \<and> read_time s = Inl e \<and> \<not> value_or_type_error e)"

lemma raised_frame:
  assumes "raw_model_error read_time e"
  shows "protocol_error (or_raise (Inl (Other e)) malformed) \<or> escaping_time read_time (or_raise (Inl (Other e)) malformed)"
  using assms by (auto simp: raw_model_error_def time_error_def escaping_time_def caught_value_or_type)

lemma lifted_frame:
  assumes "only_raises (raw_model_error read_time) m"
  shows "protocol_error (or_raise (lift_error (bindE m (\<lambda>x. Inr (F x)))) malformed) \<or>
    escaping_time read_time (or_raise (lift_error (bindE m (\<lambda>x. Inr (F x)))) malformed) \<or>
    (\<exists>x. or_raise (lift_error (bindE m (\<lambda>x. Inr (F x)))) malformed = Inr (F x) \<and> m = Inr x)"
proof (cases m)
  case (Inl e)
  then show ?thesis using raised_frame [of read_time e] assms by (auto simp: only_raises_def)
qed simp

text \<open>A frame that is not a well-formed ping sends nothing; a ping sends its pong.\<close>

lemma parse_quiet:
  assumes "\<not> (\<exists>g. frame_type p = Inr ''ping'' \<and> ping_from_exchange_payload read_time p = Inr g)"
  shows "\<exists>r. parse_frame read_time tr c p w = (w, r) \<and>
    (protocol_error (or_raise r malformed) \<or> escaping_time read_time (or_raise r malformed) \<or> (\<exists>f. or_raise r malformed = Inr f \<and> (\<forall>g. f \<noteq> PingFrame g)))"
proof (cases "frame_type p")
  case (Inl e)
  then have "raw_model_error read_time e" using frames_raise(5) [of read_time p] by (simp add: only_raises_def)
  then show ?thesis using Inl raised_frame [of read_time e, where 'a = frame] by (auto simp: parse_frame_def)
next
  case (Inr t)
  consider "t \<in> {''hello'', ''system.hello''}" | "t \<in> {''subscribed'', ''subscription.accepted''}" | "t = ''ping''" | "t = ''error''"
    | "t \<notin> {''hello'', ''system.hello'', ''subscribed'', ''subscription.accepted'', ''ping'', ''error''}"
    unfolding insert_iff empty_iff by argo
  then show ?thesis
  proof cases
    case 1
    then have "parse_frame read_time tr c p w = (w, lift_error (bindE (hello_from_exchange_payload read_time p) (\<lambda>h. Inr (HelloFrame h))))"
      by (simp add: parse_frame_def Inr)
    then show ?thesis using lifted_frame [where F = HelloFrame, OF frames_raise(1) [of read_time p]] by auto
  next
    case 2
    then have "parse_frame read_time tr c p w = (w, lift_error (bindE (ack_from_exchange_payload p) (\<lambda>a. Inr (AckFrame a))))"
      by (auto simp: parse_frame_def Inr)
    then show ?thesis using lifted_frame [where F = AckFrame, OF frames_raise(3) [of read_time p]] by auto
  next
    case 3
    then obtain e where e: "ping_from_exchange_payload read_time p = Inl e"
      using assms Inr by (cases "ping_from_exchange_payload read_time p") auto
    then have "raw_model_error read_time e" using frames_raise(2) [of read_time p] by (simp add: only_raises_def)
    then show ?thesis using e 3 raised_frame [of read_time e, where 'a = frame] by (auto simp: parse_frame_def Inr)
  next
    case 4
    then have "parse_frame read_time tr c p w = (w, raise_websocket_error p)" by (simp add: parse_frame_def Inr)
    then show ?thesis using error_frame_protocol [of p, where 'a = frame] by simp
  next
    case 5
    then have "parse_frame read_time tr c p w = (w, lift_error (bindE (data_from_exchange_payload p) (\<lambda>d. Inr (DataFrame d))))"
      by (simp add: parse_frame_def Inr)
    then show ?thesis using lifted_frame [where F = DataFrame, OF frames_raise(4) [of read_time p]] by auto
  qed
qed

lemma parse_ping:
  assumes "frame_type p = Inr ''ping''" and "ping_from_exchange_payload read_time p = Inr g"
  shows "parse_frame read_time tr c p w =
      (case tr_send_json tr [(''type'', J_Str ''pong''), (''sent_at'', payload_get p ''sent_at'')] (wc_timeout_seconds c) w of
         (w', sent) \<Rightarrow> (w', bindE sent (\<lambda>_. Inr (PingFrame g))))"
    and "payload_get p ''type'' = J_Str ''ping''"
proof -
  have "wp_raw_payload g = p"
    using assms(2) by (auto simp: ping_from_exchange_payload_def bindE_eq_Inr unless_escape_eq_Inr freeze_payload_eq)
  then show "parse_frame read_time tr c p w =
      (case tr_send_json tr [(''type'', J_Str ''pong''), (''sent_at'', payload_get p ''sent_at'')] (wc_timeout_seconds c) w of
         (w', sent) \<Rightarrow> (w', bindE sent (\<lambda>_. Inr (PingFrame g))))"
    using assms by (auto simp: parse_frame_def pong_payload_def bindE_def split: prod.splits sum.splits)
  show "payload_get p ''type'' = J_Str ''ping''"
    using assms(1) by (auto simp: frame_type_def split: json.splits if_splits)
qed

section \<open>Properties\<close>

text \<open>
  C12: what a connection does with a frame. Whatever text the transport delivers, one of three things happens. Nothing is
  sent, and the frame is returned (a hello, an acknowledgement or data) or a protocol error of the adapter that is not retryable is
  raised, also for text that is not JSON, a frame that is malformed and one that reports an error. Or nothing is sent and an
  exception leaves as it is: one of the JSON decoder other than \<open>JSONDecodeError\<close>, or one of a time that is neither a
  \<open>ValueError\<close> nor a \<open>TypeError\<close>. Or the text is a
  well-formed ping, and exactly one pong is sent that repeats its time; the ping is returned if the transport sent the pong, and
  otherwise the error of the transport leaves, a \<open>ValueError\<close> or \<open>TypeError\<close> of it as a protocol error.
  The depth of the interpreter's stack is taken to suffice for copying what has been decoded.
\<close>

theorem next_frame_effects:
  assumes "tr_receive_text tr (wc_timeout_seconds c) w = (w1, Inr s)"
  shows "\<exists>w2 r. receive_next_frame read_time loads tr c w = (w2, r) \<and>
    (w2 = w1 \<and> (protocol_error r \<or> (\<exists>f. r = Inr f \<and> (\<forall>g. f \<noteq> PingFrame g))) \<or>
     w2 = w1 \<and> (\<exists>e. r = Inl (Other e) \<and>
        (loads s = Inl e \<and> \<not> json_decode_error e \<or>
         (\<exists>p. loads s = Inr p) \<and> (\<exists>t. read_time t = Inl e) \<and> \<not> value_or_type_error e)) \<or>
     (\<exists>p g sent. loads s = Inr (J_Object p) \<and> payload_get p ''type'' = J_Str ''ping'' \<and>
        ping_from_exchange_payload read_time p = Inr g \<and>
        tr_send_json tr [(''type'', J_Str ''pong''), (''sent_at'', payload_get p ''sent_at'')] (wc_timeout_seconds c) w1 = (w2, sent) \<and>
        (case sent of
           Inr _ \<Rightarrow> r = Inr (PingFrame g)
         | Inl (Adapter a) \<Rightarrow> r = Inl (Adapter a)
         | Inl (Other e) \<Rightarrow> if value_or_type_error e then protocol_error r else r = Inl (Other e))))"
proof (cases "decode_frame loads s")
  case (Inl e)
  have "protocol_error (decode_frame loads s) \<or>
    (\<exists>e. decode_frame loads s = Inl (Other e) \<and> loads s = Inl e \<and> \<not> json_decode_error e)"
  proof (cases "loads s")
    case (Inr v)
    moreover have "loads s \<noteq> Inr (J_Object q)" for q using Inl by (auto simp: decode_frame_def)
    ultimately show ?thesis by (cases v) (simp_all add: decode_frame_def)
  qed (simp add: decode_frame_def)
  moreover have "receive_next_frame read_time loads tr c w = (w1, Inl e)"
    using Inl assms by (simp add: receive_next_frame_def)
  ultimately show ?thesis using Inl by (auto simp: protocol_error_def)
next
  case (Inr p)
  then have decoded: "loads s = Inr (J_Object p)"
    by (auto simp: decode_frame_def raise_adapter_error_def split: if_splits json.splits sum.splits)
  have run: "receive_next_frame read_time loads tr c w =
      (case parse_frame read_time tr c p w1 of (w2, r) \<Rightarrow> (w2, or_raise r malformed))"
    using assms Inr by (simp add: receive_next_frame_def malformed_def)
  show ?thesis
  proof (cases "\<exists>g. frame_type p = Inr ''ping'' \<and> ping_from_exchange_payload read_time p = Inr g")
    case False
    from parse_quiet [OF this, of tr c w1] obtain r where r: "parse_frame read_time tr c p w1 = (w1, r)"
      "protocol_error (or_raise r malformed) \<or> escaping_time read_time (or_raise r malformed) \<or>
       (\<exists>f. or_raise r malformed = Inr f \<and> (\<forall>g. f \<noteq> PingFrame g))" by blast
    show ?thesis
      by (rule exI [of _ w1], rule exI [of _ "or_raise r malformed"]) (use r decoded in \<open>auto simp: run escaping_time_def\<close>)
  next
    case True
    then obtain g where g: "frame_type p = Inr ''ping''" "ping_from_exchange_payload read_time p = Inr g" by blast
    obtain w2 sent where sent: "tr_send_json tr [(''type'', J_Str ''pong''), (''sent_at'', payload_get p ''sent_at'')]
        (wc_timeout_seconds c) w1 = (w2, sent)"
      by fastforce
    have "receive_next_frame read_time loads tr c w = (w2, or_raise (bindE sent (\<lambda>_. Inr (PingFrame g))) malformed)"
      unfolding run parse_ping(1) [OF g] sent by simp
    moreover have "case sent of
           Inr _ \<Rightarrow> or_raise (bindE sent (\<lambda>_. Inr (PingFrame g))) malformed = Inr (PingFrame g)
         | Inl (Adapter a) \<Rightarrow> or_raise (bindE sent (\<lambda>_. Inr (PingFrame g))) malformed = Inl (Adapter a)
         | Inl (Other e) \<Rightarrow> if value_or_type_error e then protocol_error (or_raise (bindE sent (\<lambda>_. Inr (PingFrame g))) malformed)
             else or_raise (bindE sent (\<lambda>_. Inr (PingFrame g))) malformed = Inl (Other e)"
      by (simp split: sum.split raised.split)
    ultimately show ?thesis using decoded parse_ping(2) [OF g] g(2) sent by blast
  qed
qed

text \<open>A scripted transport: the texts still to come, and what was sent.\<close>

definition scripted :: "(string list \<times> payload list) ws_transport" where
  "scripted =
     \<lparr>tr_receive_text = (\<lambda>_ (texts, sent).
        case texts of [] \<Rightarrow> ((texts, sent), Inl (Other (Exc ''TimeoutError'' ''no frame''))) | s # ss \<Rightarrow> ((ss, sent), Inr s)),
      tr_send_json = (\<lambda>p _ (texts, sent). ((texts, sent @ [p]), Inr ())), tr_close = (\<lambda>w. (w, Inr ()))\<rparr>"

definition stream_loads :: "string \<Rightarrow> json result" where
  "stream_loads s =
     (if s = ''ping'' then Inr (J_Object [(''type'', J_Str ''ping''), (''sent_at'', J_Str ''now'')])
      else if s = ''ack'' then
        Inr (J_Object [(''type'', J_Str ''subscribed''), (''request_id'', J_Str ''q''),
          (''subscriptions'', J_Array [J_Object [(''subscription_id'', J_Str ''1''), (''channel'', J_Str ''trades'')]])])
      else if s = ''long integer'' then Inl (Exc ''ValueError'' ''Exceeds the limit for integer string conversion'')
      else Inl (Exc ''JSONDecodeError'' ''not JSON''))"

definition sample_connection :: ws_connection where
  "sample_connection = \<lparr>wc_timeout_seconds = 10, wc_closed = False\<rparr>"

theorem next_frame_effects_witness:
  "\<exists>r. receive_next_frame (\<lambda>_. Inr 0) stream_loads scripted sample_connection ([''text''], []) = (([], []), r) \<and> protocol_error r"
proof -
  have received: "tr_receive_text scripted (wc_timeout_seconds sample_connection) ([''text''], []) = (([], []), Inr ''text'')"
    by (simp add: scripted_def)
  have bad: "stream_loads ''text'' = Inl (Exc ''JSONDecodeError'' ''not JSON'')" by (simp add: stream_loads_def)
  have "(case receive_next_frame (\<lambda>_. Inr 0) stream_loads scripted sample_connection ([''text''], []) of (_, Inr _) \<Rightarrow> False | _ \<Rightarrow> True)"
    by code_simp
  then show ?thesis
    using next_frame_effects [where read_time = "\<lambda>_. Inr 0" and loads = stream_loads, OF received] bad
    by (auto simp: json_decode_error_def split: sum.splits)
qed

text \<open>An integer of too many digits is not reported as a protocol error.\<close>

theorem long_integer_escapes:
  "receive_next_frame (\<lambda>_. Inr 0) stream_loads scripted sample_connection ([''long integer''], []) =
     (([], []), Inl (Other (Exc ''ValueError'' ''Exceeds the limit for integer string conversion'')))"
  by (simp add: receive_next_frame_def scripted_def decode_frame_def stream_loads_def json_decode_error_def)

text \<open>
  C39: a heartbeat between a subscription and its acknowledgement makes the subscription fail. When the first frame after the
  request is a well-formed ping, the request and the pong are sent and \<open>subscribe\<close> raises a protocol error, while the
  acknowledgement is still to come and the exchange has taken the subscription.
\<close>

theorem ping_before_ack_fails_subscribe:
  assumes "tr_send_json tr (to_payload plan) (wc_timeout_seconds c) w = (w1, Inr ())"
    and "tr_receive_text tr (wc_timeout_seconds c) w1 = (w2, Inr s)"
    and "loads s = Inr (J_Object p)" and "payload_get p ''type'' = J_Str ''ping''"
    and "ping_from_exchange_payload read_time p = Inr g"
    and "tr_send_json tr (pong_payload g) (wc_timeout_seconds c) w2 = (w3, Inr ())"
  shows "\<exists>a. ws_subscribe read_time loads tr c plan w = (w3, Inl (Adapter a)) \<and> ae_class a = AdapterProtocolError \<and>
    ae_safe_message a = ''Kalshi WebSocket expected subscription acknowledgement'' \<and> \<not> ae_retryable a"
proof -
  have "frame_type p = Inr ''ping''"
    using assms(4) by (simp add: frame_type_def raw_text_ok_def blank_or_padded_def py_strip_def py_isspace_def)
  then have "receive_next_frame read_time loads tr c w1 = (w3, Inr (PingFrame g))"
    using assms by (simp add: receive_next_frame_def decode_frame_def parse_frame_def)
  then show ?thesis
    using assms(1) stream_error_ok [of "''Kalshi WebSocket expected subscription acknowledgement''" "[(''request_id'', sp_request_id plan)]"]
    by (auto simp: ws_subscribe_def raise_adapter_error_def)
qed

definition sample_plan :: subscribe_plan where
  "sample_plan = \<lparr>sp_request_id = ''q'', sp_channels = [CH_TRADES], sp_market_tickers = [''T'']\<rparr>"

theorem ping_before_ack_fails_subscribe_witness:
  "\<exists>a sent. ws_subscribe (\<lambda>_. Inr 0) stream_loads scripted sample_connection sample_plan ([''ping'', ''ack''], []) =
      (([''ack''], sent), Inl (Adapter a)) \<and> length sent = 2 \<and> ae_class a = AdapterProtocolError"
proof -
  let ?p = "[(''type'', J_Str ''ping''), (''sent_at'', J_Str ''now'')]"
  let ?g = "\<lparr>wp_sent_at = 0, wp_raw_payload = ?p\<rparr>"
  have g: "ping_from_exchange_payload (\<lambda>_. Inr 0) ?p = Inr ?g" by code_simp
  have p: "stream_loads ''ping'' = Inr (J_Object ?p)" "payload_get ?p ''type'' = J_Str ''ping''"
    by (simp_all add: stream_loads_def payload_get_def)
  have tr: "tr_send_json scripted (to_payload sample_plan) (wc_timeout_seconds sample_connection) ([''ping'', ''ack''], []) =
      (([''ping'', ''ack''], [to_payload sample_plan]), Inr ())"
    "tr_receive_text scripted (wc_timeout_seconds sample_connection) ([''ping'', ''ack''], [to_payload sample_plan]) =
      (([''ack''], [to_payload sample_plan]), Inr ''ping'')"
    "tr_send_json scripted (pong_payload ?g) (wc_timeout_seconds sample_connection) ([''ack''], [to_payload sample_plan]) =
      (([''ack''], [to_payload sample_plan, pong_payload ?g]), Inr ())"
    by (simp_all add: scripted_def)
  show ?thesis
    using ping_before_ack_fails_subscribe [where loads = stream_loads, OF tr(1,2) p g tr(3)] by auto
qed

text \<open>
  The sequence of one payload is judged alike by the stream and by the order book: when it is both a data frame and an
  order-book message, the two checks return the same status and invalidate together.
\<close>

lemma ws_check_sequence_eq:
  assumes "pred_option (\<lambda>n. 0 \<le> n) previous" "pred_option (\<lambda>n. 0 \<le> n) (wd_sequence f)"
  shows "check_kalshi_websocket_sequence previous f =
    Inr \<lparr>wk_previous_sequence = previous, wk_expected_sequence = map_option (\<lambda>n. n + 1) previous,
      wk_received_sequence = wd_sequence f, wk_status = classify previous (wd_sequence f),
      wk_invalidates_stream = (classify previous (wd_sequence f) = SEQ_GAP \<or> wd_sequence f = None \<and> previous \<noteq> None)\<rparr>"
  using assms
  by (cases previous; cases "wd_sequence f")
    (auto simp: check_kalshi_websocket_sequence_def validate_optional_nonnegative_int_def validate_ws_sequence_status_def
      classify_def Let_def)

theorem stream_and_book_checks_agree:
  assumes "data_from_exchange_payload p = Inr f" and "order_book_message_from_exchange_payload p = Inr m"
    and "pred_option (\<lambda>n. 0 \<le> n) previous"
  shows "\<exists>c k. check_kalshi_websocket_sequence previous f = Inr c \<and> check_kalshi_order_book_sequence previous m = Inr k \<and>
    wk_status c = sk_status k \<and> wk_received_sequence c = sk_received_sequence k \<and>
    (wk_invalidates_stream c \<longleftrightarrow> sk_invalidates_book k)"
proof -
  let ?v = "first_present_payload_item p ''seq'' ''sequence''"
  have f: "optional_field (int_field 0 None) ?v = Some (wd_sequence f)"
    using assms(1) by (auto simp: data_from_exchange_payload_def bindE_eq_Inr)
  have m: "optional_field (int_field 0 None) ?v = Some (ko_sequence m)"
    by (rule message_sequence [OF assms(2)])
  have seq: "wd_sequence f = ko_sequence m" using f m by simp
  have nonneg: "pred_option (\<lambda>n. 0 \<le> n) (ko_sequence m)" using m by (rule optional_int_range)
  show ?thesis
    using ws_check_sequence_eq [OF assms(3), of f] check_sequence_eq [OF assms(3) nonneg] nonneg by (simp add: seq)
qed

end
