(* ===== verification/Spec2Isabelle.thy ===== *)
theory Spec2Isabelle
  imports Transfers Projections Settlements Pnl Reconciliation
    Fee_Models Slippage_Models Queue_Models Exchange Settlement_Models Risk_Service
    Replay Strategy_Runtime Commands Scenario_Properties
    Kalshi_Book Kalshi_Rest Kalshi_Stream
begin

text \<open>
  Verification of PMRP, a Python platform for research and trading on prediction markets (\<open>src/pmrp\<close>). The development
  models its deterministic core: the accounting of fills, cash and settlements, the simulated exchange and its scenarios, the risk engine
  and its transaction, the event bus, the replay of recorded events, the runtime of strategies, and the adapter of one exchange.

  \<^bold>\<open>Parts of the program.\<close> A strategy runs in \<open>strategies/runtime.py\<close>, receives events from the bus (\<open>bus/\<close>) and emits
  order intents. The risk service (\<open>risk/service.py\<close>) evaluates an intent with the engine (\<open>risk/engine.py\<close>, nineteen
  rules under \<open>risk/rules/\<close>) over a context (\<open>risk/context.py\<close>), stores the decision and reserves capital in one
  transaction. Orders meet the simulated exchange (\<open>simulation/\<close>); its fills, fees and settlements become positions, cash
  balances and a double-entry journal (\<open>portfolio/\<close>). A scenario (\<open>simulation/scenarios.py\<close>) runs order intents and cancels
  against scheduled books and trades and reports what became of each order. A replay (\<open>replay/\<close>) feeds recorded events to the bus in a fixed
  order under its own clock. The adapter of Kalshi (\<open>adapters/kalshi/\<close>) validates the messages of the exchange, maps them to
  the canonical books and trades that the simulation reads, and speaks to the exchange over transports that a caller injects.

  \<^bold>\<open>Conventions.\<close> A Python \<^verbatim>\<open>Decimal\<close> is a rational; the operations of the default context are the exact operation followed
  by \<open>dec_round 28\<close> (round half to even to 28 significant digits), and the bounded simulation modules use a context of 128
  digits. A function that can raise returns \<open>py_error + 'a\<close>; the constructor of a dataclass or a validated model is a
  function \<open>mk_\<dots>\<close> that runs its field constraints and validators. An instant is the number of microseconds since
  the epoch. A method that mutates its object returns the new object, also where it raises. Text that
  is hashed is canonical JSON, modelled as a tree, and the hash function is a parameter \<open>H\<close>. Protocols that a caller
  implements (risk rules of the caller's own, publishers, identifier generators, stores of other tables, the models of a scenario
  runner, the transports of the adapter with a world of their own) are parameters, as are the reading of a time in ISO 8601 with its
  conversion to UTC (\<open>read_time\<close>) and of text as JSON (\<open>loads\<close>). These two give a result: a time outside the calendar raises
  \<^verbatim>\<open>OverflowError\<close>, JSON nested too deep or with an integer of too many digits raises an error that is no \<^verbatim>\<open>JSONDecodeError\<close>, and
  each handler of the code catches of them what it names. What is assumed of a parameter is in the statement that uses it. In statements about exact sums, "fixed point" bounds the number
  of digits so that 28-digit arithmetic does not round; where there is rounding the statement bounds the error or holds without
  a bound.

  \<^bold>\<open>Theories.\<close>
  \<^item> \<open>Prelude\<close>, \<open>Decimals\<close>, \<open>Bounded_Decimals\<close>, \<open>Schemas\<close>, \<open>Idempotence\<close>: results and guards, decimal
    arithmetic, common records, application of deliveries at most once (a locale that fees, transfers and cash interpret).
  \<^item> \<open>Positions\<close>, \<open>Journal\<close>, \<open>Balances\<close>, \<open>Fees\<close>, \<open>Transfers\<close>, \<open>Projections\<close>, \<open>Settlements\<close>, \<open>Pnl\<close>,
    \<open>Reconciliation\<close>: the modules of \<open>portfolio/\<close> of the same names. Weighted average cost, realized PnL, the journal of
    every event and its effect on cash, batches of fills, snapshots, settlements and corrections, attribution of PnL, and
    the comparison that releases the trading gate.
  \<^item> \<open>Order_Book\<close>, \<open>Fill_Models\<close>, \<open>Fee_Models\<close>, \<open>Slippage_Models\<close>, \<open>Queue_Models\<close>, \<open>Settlement_Models\<close>,
    \<open>Simulation_Config\<close>, \<open>Orders\<close>, \<open>Exchange\<close>: \<open>simulation/\<close>. The book refines a map from prices to quantities; a fill
    is a waterfall over that map.
  \<^item> \<open>Simulation_Results\<close>, \<open>Scenarios\<close>, \<open>Scenario_Results\<close>, \<open>Scenario_Runner\<close>: \<open>simulation/results.py\<close> and
    \<open>simulation/scenarios.py\<close>, in the order of the file: scenarios and the projection of the book, the results of orders and the
    parameters of the configuration, the runner. \<open>Scenario_Orders\<close> states what the runner relies on of the models it is composed
    of (a locale that the default models interpret) and what becomes of an order on every branch; \<open>Scenario_Reports\<close> that the
    report of a run never rejects what the orders have produced; \<open>Scenario_Samples\<close> is a scenario for the witnesses, and
    \<open>Scenario_Properties\<close> holds the theorems on whole runs.
  \<^item> \<open>Risk_Context\<close>, \<open>Risk_Rules\<close>, \<open>Risk_Engine\<close>, \<open>Risk_Artifacts\<close>, \<open>Risk_Service\<close>: \<open>risk/\<close> and the
    reservation repository. What an approval guarantees, when the engine errs, and what the transaction stores.
  \<^item> \<open>Event_Bus\<close>: \<open>bus/\<close>. The queues refine a specification over the log of operations.
  \<^item> \<open>Replay\<close>: \<open>replay/\<close> and \<open>clock/replay.py\<close>, composed with the bus.
  \<^item> \<open>Strategy_Lifecycle\<close>, \<open>Strategy_Runtime\<close>: \<open>strategies/lifecycle.py\<close>, \<open>restart.py\<close>, \<open>runtime.py\<close>. The
    runtime is a step relation over the coroutines of one strategy; safety is proved by rule induction.
  \<^item> \<open>Registries\<close>, \<open>Commands\<close>: \<open>commands/\<close> and \<open>events/registry.py\<close>. The registries of handlers and event
    types (a locale they interpret); the dispatcher with its idempotency hook as interleaved dispatches that start, finish and
    are cancelled. The at-most-once contract is proved over any hook (a locale) and the in-memory hook interprets it.
  \<^item> \<open>Adapter_Payloads\<close>: \<open>schemas/immutability.py\<close> and \<open>adapters/base/errors.py\<close>, decoded JSON, strict fields and the
    errors of an adapter. \<open>Market_Feeds\<close>: the constructors of canonical books and trades and the contract of a feed (a locale): whenever
    the mapping of every message follows the exchange's own book, so does the simulated book.
  \<^item> \<open>Kalshi_Models\<close>, \<open>Kalshi_Mapper\<close>, \<open>Kalshi_Rest\<close>, \<open>Kalshi_Stream\<close>: \<open>raw_models.py\<close>, \<open>mapper.py\<close>, \<open>rest.py\<close> and
    \<open>websocket.py\<close> of \<open>adapters/kalshi/\<close>. \<open>Kalshi_Book\<close> interprets the contract of a feed on them: the two-sided book of
    Kalshi (bids for yes and for no) is the book of yes with the no side turned around, and the checks of sequences agree with
    that book. \<open>Kalshi_Rest\<close> and \<open>Kalshi_Stream\<close> state what is sent and which errors leave the clients.

  \<^bold>\<open>Termination.\<close> Every loop of the modelled code is a recursion over a list or has a measure, so no fuel is used. Runs of the bus, of the
  reservation table, of restarts, of the runtime and of dispatches are inductive relations.

  \<^bold>\<open>What the code does not do.\<close> Twelve theorems state behaviour that a caller should know: the journal rejects
  an ordinary sell after a rounded average (\<open>Journal.journal_rejects_rounded_average\<close>), corrections of one settlement
  accumulate (\<open>Settlements.corrections_accumulate\<close>), contexts taken before a transaction can overspend
  (\<open>Risk_Service.concurrent_contexts_overspend\<close>), a cancelled command blocks its idempotency
  key for ever (\<open>Commands.cancelled_command_blocks_key\<close>), the two runs of \<open>Strategy_Runtime\<close> in which stopping fails, and
  four of \<open>Scenario_Properties\<close>: the time in force of an order is never looked at, a redelivered trade fills an order that its
  first delivery did not, the cancel of a rejected order fails the whole run, and a long identifier of a scenario does.
  Two are about the adapter: a time that is a number or leaves the calendar leaves the client as a bare error of Python
  (\<open>Kalshi_Rest.market_time_escapes\<close>), and a heartbeat fails a subscription (\<open>Kalshi_Stream.ping_before_ack_fails_subscribe\<close>). \<open>Replay.replay_outcome\<close> says when a replay raises after its last event.

  \<^bold>\<open>Not modelled.\<close> The other network adapters (\<open>adapters/\<close>) and, of the adapter of Kalshi, the staleness of a heartbeat (a
  computation in floating point) and the encoding of a request as a URL; SQL storage except the reservation table, migrations, the system
  clock and file reading are input and output over systems outside the repository. Event payload classes and their persistence
  (\<open>portfolio/workflow.py\<close>, \<open>risk/workflow.py\<close>) only carry results along; the hook that the risk workflow runs before
  the commit is a parameter of \<open>Risk_Service\<close> that leaves the reservation table alone. A decimal is its value: trailing zeros
  (\<^verbatim>\<open>0.5\<close> and \<^verbatim>\<open>0.50\<close>), which only show in printed text, and the sign of zero are not modelled, nor is the depth of the interpreter's
  stack outside \<open>loads\<close>.
\<close>

end
